(* ===== verification/Prelude.thy ===== *)
theory Prelude
  imports Complex_Main "HOL-Library.Word" "HOL-Library.More_List"
begin

text \<open>
  Shared vocabulary of the development: the library's status codes
  (\<open>sqli_status\<close> of include/libsqli/sqli.h), C integer conversions written out as
  reductions modulo a power of two, byte strings, and the generic facts on lists,
  positional numerals and division that the component theories share.
\<close>

unbundle bit_operations_syntax

section \<open>Theorem collections\<close>

named_theorems c_cast "C integer conversions that keep a value that fits its type"
named_theorems limit_defs "constants of the implementation (enum values and macros)"
named_theorems inv_intros "introduction rules for well-formedness invariants"

section \<open>Status codes\<close>

datatype sqli_status =
    SQLI_OK | SQLI_ERR | SQLI_EOF | SQLI_TIMEOUT | SQLI_AUTH_FAIL | SQLI_PROTO_ERROR
  | SQLI_IO_ERROR | SQLI_ALLOC_FAIL | SQLI_INVALID_STATE | SQLI_INVALID_ARGUMENT
  | SQLI_OUT_OF_RANGE | SQLI_INEXACT | SQLI_BUFFER_TOO_SMALL | SQLI_NULL_VALUE
  | SQLI_LIMIT_EXCEEDED | SQLI_METADATA_UNAVAILABLE | SQLI_TYPE_MISMATCH
  | SQLI_CANCELED | SQLI_UNSUPPORTED

text \<open>
  A function with an output parameter that is written on success only returns
  \<open>Inl\<close> of its failure status or \<open>Inr\<close> of the output. A function that
  updates an object in place returns the pair of its status and the object afterwards.
  A C pointer that the code compares with NULL is an \<open>option\<close>.
\<close>

type_synonym 'a fallible = "sqli_status + 'a"

text \<open>
  The guard that opens the public functions: a NULL object pointer is
  \<open>SQLI_INVALID_ARGUMENT\<close>, otherwise the body runs on the object.
\<close>

definition on_object :: "('a \<Rightarrow> sqli_status \<times> 'a) \<Rightarrow> 'a option \<Rightarrow> sqli_status \<times> 'a option" where
  "on_object body p =
     (case p of None \<Rightarrow> (SQLI_INVALID_ARGUMENT, None)
      | Some v \<Rightarrow> (case body v of (status, v') \<Rightarrow> (status, Some v')))"

lemma on_object_simps [simp]:
  "on_object body None = (SQLI_INVALID_ARGUMENT, None)"
  "on_object body (Some v) = (fst (body v), Some (snd (body v)))"
  by (simp_all add: on_object_def split: prod.splits)

section \<open>C integers\<close>

type_synonym byte = "8 word"

definition u8 :: "nat \<Rightarrow> byte" where
  "u8 n = word_of_nat n"

lemma unat_u8_mod: "unat (u8 n) = n mod 256"
  by (simp add: u8_def unat_of_nat)

definition u32 :: "nat \<Rightarrow> nat" where
  "u32 n = n mod 2 ^ 32"

definition u64 :: "nat \<Rightarrow> nat" where
  "u64 n = n mod 2 ^ 64"

definition i32 :: "int \<Rightarrow> int" where
  "i32 x = (x + 2 ^ 31) mod 2 ^ 32 - 2 ^ 31"

definition in_i32 :: "int \<Rightarrow> bool" where
  "in_i32 x \<longleftrightarrow> - (2 ^ 31) \<le> x \<and> x < 2 ^ 31"

definition in_i64 :: "int \<Rightarrow> bool" where
  "in_i64 x \<longleftrightarrow> - (2 ^ 63) \<le> x \<and> x < 2 ^ 63"

lemma u32_id [c_cast]: "n < 2 ^ 32 \<Longrightarrow> u32 n = n"
  by (simp add: u32_def)

lemma u64_id [c_cast]: "n < 2 ^ 64 \<Longrightarrow> u64 n = n"
  by (simp add: u64_def)

lemma i32_id [c_cast]: "in_i32 x \<Longrightarrow> i32 x = x"
  by (simp add: i32_def in_i32_def)

lemma in_i32_i32 [simp]: "in_i32 (i32 x)"
  by (simp add: in_i32_def i32_def)

lemma unat_u8 [c_cast]: "n < 256 \<Longrightarrow> unat (u8 n) = n"
  by (simp add: u8_def unat_of_nat)

lemma u8_unat [simp]: "u8 (unat b) = b"
  by (simp add: u8_def)

lemma unat_byte_less [simp]: "unat (b :: byte) < 256"
  using unsigned_less [of b] by simp

text \<open>C division truncates towards zero; HOL's \<open>div\<close> on integers rounds down.\<close>

definition c_div :: "int \<Rightarrow> int \<Rightarrow> int" where
  "c_div a b = sgn a * sgn b * (\<bar>a\<bar> div \<bar>b\<bar>)"

definition c_mod :: "int \<Rightarrow> int \<Rightarrow> int" where
  "c_mod a b = a - c_div a b * b"

lemma c_div_nonneg [simp]: "0 \<le> a \<Longrightarrow> 0 < b \<Longrightarrow> c_div a b = a div b"
  by (cases "a = 0") (simp_all add: c_div_def)

lemma c_mod_nonneg [simp]: "0 \<le> a \<Longrightarrow> 0 < b \<Longrightarrow> c_mod a b = a mod b"
  by (simp add: c_mod_def minus_div_mult_eq_mod)

section \<open>Positional numerals\<close>

text \<open>
  \<open>le_value b xs\<close> is the number whose base-\<open>b\<close> digits are \<open>xs\<close>, least
  significant first; \<open>be_value\<close> reads the most significant digit first.
\<close>

fun le_value :: "nat \<Rightarrow> nat list \<Rightarrow> nat" where
  "le_value b [] = 0"
| "le_value b (x # xs) = x + b * le_value b xs"

definition be_value :: "nat \<Rightarrow> nat list \<Rightarrow> nat" where
  "be_value b xs = le_value b (rev xs)"

definition digits_ok :: "nat \<Rightarrow> nat list \<Rightarrow> bool" where
  "digits_ok b xs \<longleftrightarrow> (\<forall>x \<in> set xs. x < b)"

lemma digits_ok_simps [simp]:
  "digits_ok b []"
  "digits_ok b (x # xs) \<longleftrightarrow> x < b \<and> digits_ok b xs"
  "digits_ok b (xs @ ys) \<longleftrightarrow> digits_ok b xs \<and> digits_ok b ys"
  "digits_ok b (rev xs) \<longleftrightarrow> digits_ok b xs"
  by (auto simp: digits_ok_def)

lemma digits_ok_nth: "digits_ok b xs \<Longrightarrow> i < length xs \<Longrightarrow> xs ! i < b"
  by (simp add: digits_ok_def)

lemma digits_ok_take_drop [simp]:
  "digits_ok b xs \<Longrightarrow> digits_ok b (take n xs)" "digits_ok b xs \<Longrightarrow> digits_ok b (drop n xs)"
  by (auto simp: digits_ok_def dest: in_set_takeD in_set_dropD)

lemma digits_ok_replicate [simp]: "0 < b \<Longrightarrow> digits_ok b (replicate n 0)"
  by (simp add: digits_ok_def)

lemma digits_ok_update [simp]: "digits_ok b xs \<Longrightarrow> y < b \<Longrightarrow> digits_ok b (xs[i := y])"
  by (auto simp: digits_ok_def dest: set_update_subset_insert [THEN subsetD])

lemma le_value_append: "le_value b (xs @ ys) = le_value b xs + b ^ length xs * le_value b ys"
  by (induction xs) (simp_all add: algebra_simps)

lemma le_value_replicate0 [simp]: "le_value b (replicate n 0) = 0"
  by (induction n) simp_all

lemma le_value_less: "digits_ok b xs \<Longrightarrow> le_value b xs < b ^ length xs"
proof (induction xs)
  case (Cons x xs)
  then have "x + b * le_value b xs < b + b * le_value b xs" by simp
  also have "\<dots> = b * Suc (le_value b xs)" by simp
  also have "\<dots> \<le> b * b ^ length xs"
    using Cons by (intro mult_le_mono2) (simp add: Suc_leI)
  finally show ?case by simp
qed simp

lemma le_value_take_drop: "le_value b xs = le_value b (take n xs) + b ^ min n (length xs) * le_value b (drop n xs)"
  by (metis append_take_drop_id le_value_append length_take min.commute)

lemma le_value_div:
  assumes "digits_ok b xs" "n \<le> length xs"
  shows "le_value b xs div b ^ n = le_value b (drop n xs)"
    and "le_value b xs mod b ^ n = le_value b (take n xs)"
proof -
  have less: "le_value b (take n xs) < b ^ n"
    using le_value_less [of b "take n xs"] assms by simp
  have eq: "le_value b xs = le_value b (take n xs) + b ^ n * le_value b (drop n xs)"
    using le_value_take_drop [of b xs n] assms(2) by (simp add: min_def)
  show "le_value b xs div b ^ n = le_value b (drop n xs)"
    using less by (cases "b ^ n = 0") (simp_all add: eq)
  show "le_value b xs mod b ^ n = le_value b (take n xs)"
    using less by (simp add: eq)
qed

lemma le_value_digit:
  assumes "digits_ok b xs" "n < length xs"
  shows "le_value b xs div b ^ n mod b = xs ! n"
  using assms le_value_div(1) [of b xs n] digits_ok_nth [OF assms]
  by (simp add: Cons_nth_drop_Suc [symmetric])

lemma le_value_update:
  "i < length xs \<Longrightarrow> le_value b (xs[i := y]) + xs ! i * b ^ i = le_value b xs + y * b ^ i"
proof (induction xs arbitrary: i)
  case (Cons x xs)
  show ?case
  proof (cases i)
    case (Suc j)
    then have "b * (le_value b (xs[j := y]) + xs ! j * b ^ j) = b * (le_value b xs + y * b ^ j)"
      using Cons by simp
    then show ?thesis using Suc by (simp add: algebra_simps)
  qed simp
qed simp

lemma le_value_inj:
  "digits_ok b xs \<Longrightarrow> digits_ok b ys \<Longrightarrow> length xs = length ys \<Longrightarrow>
   le_value b xs = le_value b ys \<longleftrightarrow> xs = ys"
  by (rule iffI, rule nth_equalityI) (auto dest: le_value_digit, metis le_value_digit)

lemma le_value_eq_0: "0 < b \<Longrightarrow> le_value b xs = 0 \<longleftrightarrow> (\<forall>x \<in> set xs. x = 0)"
  by (induction xs) auto

lemma be_value_Nil [simp]: "be_value b [] = 0"
  by (simp add: be_value_def)

lemma be_value_snoc [simp]: "be_value b (xs @ [x]) = be_value b xs * b + x"
  by (simp add: be_value_def)

lemma be_value_Cons: "be_value b (x # xs) = x * b ^ length xs + be_value b xs"
  by (simp add: be_value_def le_value_append)

lemma be_value_append: "be_value b (xs @ ys) = be_value b xs * b ^ length ys + be_value b ys"
  by (simp add: be_value_def le_value_append)

lemma be_value_less: "digits_ok b xs \<Longrightarrow> be_value b xs < b ^ length xs"
  using le_value_less [of b "rev xs"] by (simp add: be_value_def)

lemma be_value_inj:
  "digits_ok b xs \<Longrightarrow> digits_ok b ys \<Longrightarrow> length xs = length ys \<Longrightarrow>
   be_value b xs = be_value b ys \<longleftrightarrow> xs = ys"
  by (simp add: be_value_def le_value_inj)

section \<open>The number of decimal digits\<close>

fun dec_len :: "nat \<Rightarrow> nat" where
  "dec_len n = (if n < 10 then 1 else Suc (dec_len (n div 10)))"

declare dec_len.simps [simp del]

lemma dec_len_pos [simp]: "0 < dec_len n"
  by (subst dec_len.simps) simp

lemma dec_len_bounds: "n < 10 ^ dec_len n \<and> (0 < n \<longrightarrow> 10 ^ (dec_len n - 1) \<le> n)"
proof (induction n rule: dec_len.induct)
  case (1 n)
  show ?case
  proof (cases "n < 10")
    case True
    then show ?thesis by (simp add: dec_len.simps [of n])
  next
    case False
    let ?k = "dec_len (n div 10)"
    have up: "n div 10 < 10 ^ ?k" and lo: "10 ^ (?k - 1) \<le> n div 10"
      using 1 False by auto
    have "n < 10 * 10 ^ ?k" using up by linarith
    moreover have "10 * 10 ^ (?k - 1) \<le> n" using lo by linarith
    moreover have "10 * 10 ^ (?k - 1) = (10 ^ ?k :: nat)"
      by (simp add: power_eq_if)
    ultimately show ?thesis using False by (simp add: dec_len.simps [of n])
  qed
qed

lemma dec_len_unique:
  assumes "10 ^ k \<le> n" "n < 10 ^ Suc k"
  shows "dec_len n = Suc k"
proof -
  have "0 < n" using assms(1) by (metis gr0I not_le zero_less_numeral zero_less_power)
  then have "n < 10 ^ dec_len n" "10 ^ (dec_len n - 1) \<le> n"
    using dec_len_bounds [of n] by auto
  then have "(10 :: nat) ^ k < 10 ^ dec_len n" "(10 :: nat) ^ (dec_len n - 1) < 10 ^ Suc k"
    using assms le_less_trans by blast+
  then have "k < dec_len n" "dec_len n - 1 < Suc k"
    by (meson one_less_numeral_iff power_less_imp_less_exp semiring_norm(76))+
  then show ?thesis by linarith
qed

lemma dec_len_le: "n < 10 ^ k \<Longrightarrow> 0 < k \<Longrightarrow> dec_len n \<le> k"
proof (cases "n = 0")
  case False
  assume "n < 10 ^ k"
  then have "(10 :: nat) ^ (dec_len n - 1) < 10 ^ k" using dec_len_bounds [of n] False by linarith
  then have "dec_len n - 1 < k" by (rule power_less_imp_less_exp [rotated]) simp
  then show ?thesis by linarith
qed (simp add: dec_len.simps [of 0])

lemma dec_len_mult_power: "0 < n \<Longrightarrow> dec_len (n * 10 ^ k) = dec_len n + k"
proof -
  assume n: "0 < n"
  obtain j where j: "dec_len n = Suc j" using dec_len_pos [of n] gr0_conv_Suc by blast
  have "10 ^ j \<le> n" "n < 10 ^ Suc j" using dec_len_bounds [of n] n j by auto
  then have "10 ^ j * 10 ^ k \<le> n * 10 ^ k" "n * 10 ^ k < 10 ^ Suc j * 10 ^ k"
    by (simp_all only: mult_le_mono1 mult_less_mono1 zero_less_power zero_less_numeral)
  then have "10 ^ (j + k) \<le> n * 10 ^ k" "n * 10 ^ k < 10 ^ Suc (j + k)"
    by (simp_all only: power_add [symmetric] add_Suc)
  then show ?thesis using dec_len_unique j by simp
qed

section \<open>Characters\<close>

text \<open>
  A C string is a \<open>string\<close> whose characters are its bytes. \<open>ascii_digit\<close> is the
  static function of that name in sqli_decimal.c and sqli_temporal.c; \<open>char_digit\<close> is
  \<open>ch - '0'\<close> and \<open>digit_char\<close> is \<open>'0' + n\<close>.
\<close>

definition ascii_digit :: "char \<Rightarrow> bool" where
  "ascii_digit ch \<longleftrightarrow> 48 \<le> (of_char ch :: nat) \<and> of_char ch \<le> (57 :: nat)"

definition char_digit :: "char \<Rightarrow> nat" where
  "char_digit ch = of_char ch - 48"

definition digit_char :: "nat \<Rightarrow> char" where
  "digit_char n = char_of (48 + n)"

lemma of_char_digit_char: "n < 10 \<Longrightarrow> of_char (digit_char n) = 48 + n"
  by (simp add: digit_char_def)

lemma ascii_digit_digit_char [simp]: "n < 10 \<Longrightarrow> ascii_digit (digit_char n)"
  by (simp add: ascii_digit_def of_char_digit_char)

lemma char_digit_digit_char [simp]: "n < 10 \<Longrightarrow> char_digit (digit_char n) = n"
  by (simp add: char_digit_def of_char_digit_char)

lemma char_digit_less: "ascii_digit ch \<Longrightarrow> char_digit ch < 10"
  by (auto simp: ascii_digit_def char_digit_def)

lemma digit_char_char_digit: "ascii_digit ch \<Longrightarrow> digit_char (char_digit ch) = ch"
  by (auto simp: ascii_digit_def char_digit_def digit_char_def)

lemma not_ascii_digit_simps [simp]:
  "\<not> ascii_digit (CHR ''.'')" "\<not> ascii_digit (CHR ''+'')" "\<not> ascii_digit (CHR ''-'')"
  "\<not> ascii_digit (CHR ''e'')" "\<not> ascii_digit (CHR ''E'')"
  "\<not> ascii_digit (CHR '' '')" "\<not> ascii_digit (CHR '':'')" "\<not> ascii_digit (CHR ''T'')"
  by (simp_all add: ascii_digit_def)

lemma char_digit_zero_iff: "ascii_digit ch \<Longrightarrow> char_digit ch = 0 \<longleftrightarrow> ch = CHR ''0''"
proof
  assume "ascii_digit ch" "char_digit ch = 0"
  then have "of_char ch = (of_char (CHR ''0'') :: nat)"
    by (auto simp: ascii_digit_def char_digit_def)
  then show "ch = CHR ''0''" by (simp only: of_char_eq_iff)
qed (simp add: char_digit_def)

end
