(* ===== verification/Decimal.thy ===== *)
theory Decimal
  imports Prelude
begin

text \<open>
  Exact decimal values: src/src/sqli_decimal.c up to exact rescaling (the text conversions
  are in DecimalText). A value is a coefficient in base \<open>10^9\<close> limbs, least significant
  first, with a scale, a sign and an SQL NULL flag. \<open>d_limbs\<close> holds
  \<open>limbs[0 .. used - 1]\<close>, so \<open>used\<close> is its length; \<open>d_inline\<close> says that
  \<open>limbs\<close> points to \<open>inline_limbs\<close>. The parameter \<open>mem\<close> answers each
  \<open>malloc\<close> call: \<open>mem n\<close> iff a request of \<open>n\<close> bytes succeeds.
\<close>

section \<open>Constants and the value type\<close>

definition SQLI_DECIMAL_LIMB_BASE :: nat where "SQLI_DECIMAL_LIMB_BASE = 1000000000"
definition SQLI_DECIMAL_MAX_DIGITS :: nat where "SQLI_DECIMAL_MAX_DIGITS = 1000000"
definition SQLI_DECIMAL_MAX_TEXT :: nat where
  "SQLI_DECIMAL_MAX_TEXT = SQLI_DECIMAL_MAX_DIGITS + 32"
definition decimal_limb_digits :: nat where "decimal_limb_digits = 9"
definition decimal_inline_limbs :: nat where "decimal_inline_limbs = 4"
definition decimal_max_limbs :: nat where
  "decimal_max_limbs = (SQLI_DECIMAL_MAX_DIGITS + decimal_limb_digits - 1) div decimal_limb_digits"
definition SIZE_MAX :: nat where "SIZE_MAX = 2 ^ 64 - 1"
definition sizeof_sqli_decimal :: nat where "sizeof_sqli_decimal = 48"

lemmas decimal_consts [limit_defs] =
  SQLI_DECIMAL_LIMB_BASE_def SQLI_DECIMAL_MAX_DIGITS_def SQLI_DECIMAL_MAX_TEXT_def
  decimal_limb_digits_def decimal_inline_limbs_def decimal_max_limbs_def SIZE_MAX_def
  sizeof_sqli_decimal_def

abbreviation limb_base :: nat where "limb_base \<equiv> SQLI_DECIMAL_LIMB_BASE"
abbreviation limb_digits :: nat where "limb_digits \<equiv> decimal_limb_digits"

definition powers_of_ten :: "nat list" where
  "powers_of_ten =
     [1, 10, 100, 1000, 10000, 100000, 1000000, 10000000, 100000000]"

record sqli_decimal =
  d_limbs :: "nat list"
  d_capacity :: nat
  d_inline :: bool
  d_scale :: int
  d_negative :: bool
  d_is_null :: bool

record sqli_decimal_parts =
  p_limbs :: "nat list option"
  p_limb_count :: nat
  p_scale :: int
  p_negative :: bool
  p_is_null :: bool

section \<open>Storage\<close>

definition decimal_init :: sqli_decimal where
  "decimal_init = \<lparr>d_limbs = [], d_capacity = decimal_inline_limbs, d_inline = True,
     d_scale = 0, d_negative = False, d_is_null = True\<rparr>"

definition decimal_reserve ::
  "(nat \<Rightarrow> bool) \<Rightarrow> sqli_decimal \<Rightarrow> nat \<Rightarrow> sqli_status \<times> sqli_decimal" where
  "decimal_reserve mem value count =
     (if count > decimal_max_limbs \<or> count > SIZE_MAX div 4 then (SQLI_LIMIT_EXCEEDED, value)
      else if count \<le> d_capacity value then (SQLI_OK, value)
      else if \<not> mem (count * 4) then (SQLI_ALLOC_FAIL, value)
      else (SQLI_OK, value\<lparr>d_capacity := count, d_inline := False\<rparr>))"

text \<open>
  \<open>decimal_move\<close> hands the source's buffer to the destination; what is left in the
  source only matters for its own clean-up (its pointer returns to the inline buffer).
\<close>

definition decimal_move ::
  "sqli_decimal \<Rightarrow> sqli_decimal \<Rightarrow> sqli_decimal \<times> sqli_decimal" where
  "decimal_move destination source =
     (let destination = destination\<lparr>d_limbs := d_limbs source, d_scale := d_scale source,
            d_negative := d_negative source, d_is_null := d_is_null source\<rparr>
      in if d_inline source
         then (destination\<lparr>d_inline := True, d_capacity := decimal_inline_limbs\<rparr>, source)
         else (destination\<lparr>d_inline := False, d_capacity := d_capacity source\<rparr>,
               source\<lparr>d_inline := True\<rparr>))"

definition decimal_trim :: "sqli_decimal \<Rightarrow> sqli_decimal" where
  "decimal_trim value =
     (let limbs = strip_while (\<lambda>l. l = 0) (d_limbs value)
      in value\<lparr>d_limbs := limbs, d_negative := (limbs \<noteq> [] \<and> d_negative value)\<rparr>)"

definition decimal_digits :: "sqli_decimal \<Rightarrow> nat" where
  "decimal_digits value =
     (if d_limbs value = [] then 1
      else (length (d_limbs value) - 1) * limb_digits + dec_len (last (d_limbs value)))"

definition decimal_digit :: "sqli_decimal \<Rightarrow> nat \<Rightarrow> nat \<Rightarrow> nat" where
  "decimal_digit value digits position =
     (if d_limbs value = [] \<or> position \<ge> digits then 0
      else let offset = digits - position - 1
           in d_limbs value ! (offset div limb_digits) div
              powers_of_ten ! (offset mod limb_digits) mod 10)"

section \<open>Construction, NULL and parts\<close>

definition sqli_decimal_create :: "(nat \<Rightarrow> bool) \<Rightarrow> bool \<Rightarrow> sqli_decimal fallible" where
  "sqli_decimal_create mem out_given =
     (if \<not> out_given then Inl SQLI_INVALID_ARGUMENT
      else if \<not> mem sizeof_sqli_decimal then Inl SQLI_ALLOC_FAIL
      else Inr decimal_init)"

definition sqli_decimal_is_null :: "sqli_decimal option \<Rightarrow> bool fallible" where
  "sqli_decimal_is_null value =
     (case value of None \<Rightarrow> Inl SQLI_INVALID_ARGUMENT | Some v \<Rightarrow> Inr (d_is_null v))"

definition sqli_decimal_set_null ::
  "sqli_decimal option \<Rightarrow> sqli_status \<times> sqli_decimal option" where
  "sqli_decimal_set_null =
     on_object (\<lambda>value. (SQLI_OK,
       value\<lparr>d_is_null := True, d_limbs := [], d_scale := 0, d_negative := False\<rparr>))"

text \<open>
  The body of \<open>sqli_decimal_set_parts\<close> for parts that are not SQL NULL. The limb
  buffer of \<open>parts\<close> holds at least \<open>p_limb_count\<close> limbs.
\<close>

definition import_parts ::
  "(nat \<Rightarrow> bool) \<Rightarrow> sqli_decimal_parts \<Rightarrow> sqli_decimal \<Rightarrow> sqli_status \<times> sqli_decimal" where
  "import_parts mem parts value =
     (if p_limb_count parts > decimal_max_limbs then (SQLI_LIMIT_EXCEEDED, value)
      else if p_limb_count parts \<noteq> 0 \<and> p_limbs parts = None then (SQLI_INVALID_ARGUMENT, value)
      else let limbs = (case p_limbs parts of None \<Rightarrow> [] | Some ls \<Rightarrow> take (p_limb_count parts) ls)
        in if \<exists>l \<in> set limbs. l \<ge> limb_base then (SQLI_INVALID_ARGUMENT, value)
        else let used = strip_while (\<lambda>l. l = 0) limbs;
                 (status, temporary) = decimal_reserve mem decimal_init (length used)
          in if status \<noteq> SQLI_OK then (status, value)
          else let temporary = temporary\<lparr>d_limbs := used, d_scale := p_scale parts,
                     d_negative := (used \<noteq> [] \<and> p_negative parts), d_is_null := False\<rparr>
            in if decimal_digits temporary > SQLI_DECIMAL_MAX_DIGITS
               then (SQLI_LIMIT_EXCEEDED, value)
               else (SQLI_OK, fst (decimal_move value temporary)))"

definition sqli_decimal_set_parts ::
  "(nat \<Rightarrow> bool) \<Rightarrow> sqli_decimal option \<Rightarrow> sqli_decimal_parts option \<Rightarrow>
   sqli_status \<times> sqli_decimal option" where
  "sqli_decimal_set_parts mem value parts =
     (case parts of
        None \<Rightarrow> (SQLI_INVALID_ARGUMENT, value)
      | Some parts \<Rightarrow>
          if p_is_null parts then sqli_decimal_set_null value
          else on_object (import_parts mem parts) value)"

definition sqli_decimal_get_parts :: "sqli_decimal option \<Rightarrow> sqli_decimal_parts fallible" where
  "sqli_decimal_get_parts value =
     (case value of None \<Rightarrow> Inl SQLI_INVALID_ARGUMENT
      | Some value \<Rightarrow> Inr
          \<lparr>p_limbs = (if d_limbs value \<noteq> [] then Some (d_limbs value) else None),
           p_limb_count = length (d_limbs value), p_scale = d_scale value,
           p_negative = d_negative value, p_is_null = d_is_null value\<rparr>)"

text \<open>The self-copy test compares addresses: \<open>same\<close> says the two pointers are equal.\<close>

definition sqli_decimal_copy ::
  "(nat \<Rightarrow> bool) \<Rightarrow> bool \<Rightarrow> sqli_decimal option \<Rightarrow> sqli_decimal option \<Rightarrow>
   sqli_status \<times> sqli_decimal option" where
  "sqli_decimal_copy mem same destination source =
     (if destination = None \<or> source = None then (SQLI_INVALID_ARGUMENT, destination)
      else if same then (SQLI_OK, destination)
      else case sqli_decimal_get_parts source of
             Inl status \<Rightarrow> (status, destination)
           | Inr parts \<Rightarrow> sqli_decimal_set_parts mem destination (Some parts))"

fun limbs_of_magnitude :: "nat \<Rightarrow> nat list" where
  "limbs_of_magnitude magnitude =
     (if magnitude = 0 then []
      else u32 (magnitude mod 1000000000) # limbs_of_magnitude (magnitude div 1000000000))"

declare limbs_of_magnitude.simps [simp del]

definition sqli_decimal_set_i64 ::
  "(nat \<Rightarrow> bool) \<Rightarrow> sqli_decimal option \<Rightarrow> int \<Rightarrow> int \<Rightarrow> sqli_status \<times> sqli_decimal option" where
  "sqli_decimal_set_i64 mem value coefficient scale =
     (let magnitude = (if coefficient < 0 then u64 (nat (- (coefficient + 1)) + 1)
                       else nat coefficient);
          limbs = limbs_of_magnitude magnitude
      in sqli_decimal_set_parts mem value
           (Some \<lparr>p_limbs = Some limbs, p_limb_count = length limbs, p_scale = scale,
              p_negative = (coefficient < 0), p_is_null = False\<rparr>))"

section \<open>Conversion to a 64-bit integer\<close>

text \<open>The exactness loop: the digits at positions \<open>i \<dots> digits - 1\<close> are zero.\<close>

definition fraction_is_zero :: "sqli_decimal \<Rightarrow> nat \<Rightarrow> nat \<Rightarrow> bool" where
  "fraction_is_zero value digits i =
     (\<forall>j \<in> set [i..<digits]. decimal_digit value digits j = 0)"

text \<open>The accumulation loop over the digit positions still to be read.\<close>

fun i64_magnitude :: "sqli_decimal \<Rightarrow> nat \<Rightarrow> nat \<Rightarrow> nat \<Rightarrow> nat list \<Rightarrow> nat fallible" where
  "i64_magnitude value digits limit magnitude [] = Inr magnitude"
| "i64_magnitude value digits limit magnitude (i # is) =
     (let digit = decimal_digit value digits i
      in if magnitude > (limit - digit) div 10 then Inl SQLI_OUT_OF_RANGE
         else i64_magnitude value digits limit (u64 (magnitude * 10 + digit)) is)"

definition sqli_decimal_to_i64 :: "sqli_decimal option \<Rightarrow> int fallible" where
  "sqli_decimal_to_i64 p =
     (case p of None \<Rightarrow> Inl SQLI_INVALID_ARGUMENT
      | Some value \<Rightarrow>
          if d_is_null value then Inl SQLI_NULL_VALUE
          else if d_limbs value = [] then Inr 0
          else let digits = decimal_digits value; whole_digits = int digits - d_scale value
            in if whole_digits \<le> 0 then Inl SQLI_INEXACT
            else if d_scale value > 0 \<and> \<not> fraction_is_zero value digits (nat whole_digits)
              then Inl SQLI_INEXACT
            else if whole_digits > 19 then Inl SQLI_OUT_OF_RANGE
            else let limit = 2 ^ 63 - 1 + (if d_negative value then 1 else 0)
              in case i64_magnitude value digits limit 0 [0..<nat whole_digits] of
                   Inl status \<Rightarrow> Inl status
                 | Inr magnitude \<Rightarrow>
                     if \<not> d_negative value then Inr (int magnitude)
                     else if magnitude = 2 ^ 63 then Inr (- (2 ^ 63))
                     else Inr (- int magnitude))"

section \<open>Numeric comparison\<close>

fun compare_digits :: "sqli_decimal \<Rightarrow> nat \<Rightarrow> sqli_decimal \<Rightarrow> nat \<Rightarrow> nat list \<Rightarrow> int" where
  "compare_digits left left_digits right right_digits [] = 0"
| "compare_digits left left_digits right right_digits (i # is) =
     (let a = decimal_digit left left_digits i; b = decimal_digit right right_digits i
      in if a \<noteq> b then (if a < b then -1 else 1)
         else compare_digits left left_digits right right_digits is)"

definition sqli_decimal_compare :: "sqli_decimal option \<Rightarrow> sqli_decimal option \<Rightarrow> int fallible" where
  "sqli_decimal_compare l r =
     (case (l, r) of
        (Some left, Some right) \<Rightarrow>
          if d_is_null left \<or> d_is_null right then Inl SQLI_NULL_VALUE
          else Inr
            (if d_limbs left = [] \<or> d_limbs right = [] then
               (if d_limbs left \<noteq> [] then (if d_negative left then -1 else 1)
                else if d_limbs right \<noteq> [] then (if d_negative right then 1 else -1)
                else 0)
             else if d_negative left \<noteq> d_negative right then (if d_negative left then -1 else 1)
             else let left_digits = decimal_digits left; right_digits = decimal_digits right;
                      left_exponent = int left_digits - d_scale left;
                      right_exponent = int right_digits - d_scale right;
                      ordering =
                        (if left_exponent \<noteq> right_exponent
                         then (if left_exponent < right_exponent then -1 else 1)
                         else compare_digits left left_digits right right_digits
                                [0..<max left_digits right_digits])
               in if d_negative left then - ordering else ordering)
      | _ \<Rightarrow> Inl SQLI_INVALID_ARGUMENT)"

section \<open>Exact rescaling\<close>

text \<open>The multiplication loop; \<open>pos\<close> is \<open>i + shift\<close>.\<close>

fun multiply_loop :: "nat \<Rightarrow> nat \<Rightarrow> nat list \<Rightarrow> nat \<Rightarrow> nat list \<Rightarrow> nat list \<times> nat" where
  "multiply_loop factor pos out carry [] = (out, carry)"
| "multiply_loop factor pos out carry (l # ls) =
     (let product = u64 (u64 (l * factor) + carry)
      in multiply_loop factor (Suc pos) (out[pos := u32 (product mod limb_base)])
           (product div limb_base) ls)"

definition decimal_multiply_power ::
  "(nat \<Rightarrow> bool) \<Rightarrow> sqli_decimal \<Rightarrow> sqli_decimal \<Rightarrow> int \<Rightarrow> sqli_status \<times> sqli_decimal" where
  "decimal_multiply_power mem out value pow =
     (let digits = decimal_digits value
      in if pow > int SQLI_DECIMAL_MAX_DIGITS - int digits then (SQLI_LIMIT_EXCEEDED, out)
      else let result_digits = digits + nat pow;
               count = (result_digits + limb_digits - 1) div limb_digits;
               (status, out) = decimal_reserve mem out count
        in if status \<noteq> SQLI_OK then (status, out)
        else let shift = nat pow div limb_digits;
                 factor = powers_of_ten ! (nat pow mod limb_digits);
                 (limbs, carry) = multiply_loop factor shift (replicate count 0) 0 (d_limbs value);
                 limbs = (if carry \<noteq> 0 then limbs[length (d_limbs value) + shift := u32 carry]
                          else limbs)
          in (SQLI_OK, out\<lparr>d_limbs := limbs\<rparr>))"

text \<open>
  The division loop runs from the most significant limb down to limb \<open>shift\<close> and
  writes one quotient limb per step, so the quotient \<open>acc\<close> grows at its lower end.
\<close>

fun divide_loop :: "nat \<Rightarrow> nat \<Rightarrow> nat list \<Rightarrow> nat list \<Rightarrow> nat list" where
  "divide_loop divisor remainder acc [] = acc"
| "divide_loop divisor remainder acc (l # ls) =
     (let dividend = u64 (u64 (remainder * limb_base) + l)
      in divide_loop divisor (dividend mod divisor) (u32 (dividend div divisor) # acc) ls)"

definition decimal_divide_power ::
  "(nat \<Rightarrow> bool) \<Rightarrow> sqli_decimal \<Rightarrow> sqli_decimal \<Rightarrow> int \<Rightarrow> sqli_status \<times> sqli_decimal" where
  "decimal_divide_power mem out value pow =
     (if pow \<ge> int (decimal_digits value) then (SQLI_INEXACT, out)
      else let shift = nat pow div limb_digits;
               divisor = powers_of_ten ! (nat pow mod limb_digits)
        in if \<exists>i \<in> set [0..<shift]. d_limbs value ! i \<noteq> 0 then (SQLI_INEXACT, out)
        else if d_limbs value ! shift mod divisor \<noteq> 0 then (SQLI_INEXACT, out)
        else let (status, out) = decimal_reserve mem out (length (d_limbs value) - shift)
          in if status \<noteq> SQLI_OK then (status, out)
          else (SQLI_OK, out\<lparr>d_limbs := divide_loop divisor 0 [] (rev (drop shift (d_limbs value)))\<rparr>))"

definition rescale_value ::
  "(nat \<Rightarrow> bool) \<Rightarrow> int \<Rightarrow> sqli_decimal \<Rightarrow> sqli_status \<times> sqli_decimal" where
  "rescale_value mem scale value =
     (if d_is_null value then (SQLI_NULL_VALUE, value)
      else if d_scale value = scale then (SQLI_OK, value)
      else if d_limbs value = [] then (SQLI_OK, value\<lparr>d_scale := scale\<rparr>)
      else let difference = scale - d_scale value;
               (status, temporary) =
                 (if difference > 0 then decimal_multiply_power mem decimal_init value difference
                  else decimal_divide_power mem decimal_init value (- difference))
        in if status = SQLI_OK
           then let temporary = decimal_trim (temporary\<lparr>d_is_null := False,
                      d_negative := d_negative value, d_scale := scale\<rparr>)
             in (status, fst (decimal_move value temporary))
           else (status, value))"

definition sqli_decimal_rescale_exact ::
  "(nat \<Rightarrow> bool) \<Rightarrow> sqli_decimal option \<Rightarrow> int \<Rightarrow> sqli_status \<times> sqli_decimal option" where
  "sqli_decimal_rescale_exact mem value scale = on_object (rescale_value mem scale) value"

end
