(* ===== verification/DecimalFacts.thy ===== *)
theory DecimalFacts
  imports Decimal
begin

text \<open>
  The representation invariant of decimal values, their meaning as a rational number,
  and the facts that relate the limb-level digit functions to the coefficient.
\<close>

section \<open>Meaning and invariant\<close>

definition decimal_coeff :: "sqli_decimal \<Rightarrow> nat" where
  "decimal_coeff d = le_value limb_base (d_limbs d)"

definition decimal_int :: "sqli_decimal \<Rightarrow> int" where
  "decimal_int d = (if d_negative d then - int (decimal_coeff d) else int (decimal_coeff d))"

definition decimal_value :: "sqli_decimal \<Rightarrow> rat" where
  "decimal_value d = of_int (decimal_int d) * 10 powi (- d_scale d)"

text \<open>
  A well-formed value: limbs below the radix, no leading zero limb, a buffer that holds
  the limbs (the inline buffer has four), no negative zero, a NULL value carries no number,
  the scale is an \<open>int32_t\<close> and the coefficient respects the digit ceiling.
\<close>

definition decimal_wf :: "sqli_decimal \<Rightarrow> bool" where
  "decimal_wf d \<longleftrightarrow>
     digits_ok limb_base (d_limbs d) \<and>
     (d_limbs d \<noteq> [] \<longrightarrow> last (d_limbs d) \<noteq> 0) \<and>
     length (d_limbs d) \<le> d_capacity d \<and>
     (d_inline d \<longrightarrow> d_capacity d = decimal_inline_limbs) \<and>
     (d_limbs d = [] \<longrightarrow> \<not> d_negative d) \<and>
     (d_is_null d \<longrightarrow> d_limbs d = [] \<and> d_scale d = 0) \<and>
     in_i32 (d_scale d) \<and>
     decimal_digits d \<le> SQLI_DECIMAL_MAX_DIGITS"

lemma limb_base_eq: "limb_base = 10 ^ limb_digits"
  by (simp add: decimal_consts)

lemma limb_base_pos [simp]: "0 < limb_base"
  by (simp add: decimal_consts)

lemma limb_digits_pos [simp]: "0 < limb_digits"
  by (simp add: decimal_consts)

lemma less_9_cases: "k < 9 \<Longrightarrow> k \<in> {0, 1, 2, 3, 4, 5, 6, 7, 8 :: nat}"
  by auto

lemma powers_of_ten_nth: "k < limb_digits \<Longrightarrow> powers_of_ten ! k = 10 ^ k"
  using less_9_cases [of k] by (auto simp: powers_of_ten_def decimal_consts)

section \<open>Coefficients of normalised limb lists\<close>

definition limbs_ok :: "nat list \<Rightarrow> bool" where
  "limbs_ok ls \<longleftrightarrow> digits_ok limb_base ls \<and> (ls \<noteq> [] \<longrightarrow> last ls \<noteq> 0)"

lemma decimal_wf_limbs [simp]: "decimal_wf d \<Longrightarrow> limbs_ok (d_limbs d)"
  by (simp add: decimal_wf_def limbs_ok_def)

lemma le_value_snoc_ge:
  assumes "x \<noteq> 0" shows "b ^ length xs \<le> le_value b (xs @ [x])"
proof -
  have "b ^ length xs * 1 \<le> b ^ length xs * x"
    using assms by (intro mult_le_mono2) simp
  then show ?thesis by (simp only: le_value_append le_value.simps mult_1_right mult_0_right add_0_right trans_le_add2)
qed

lemma limbs_ok_strip [simp]:
  "digits_ok limb_base ls \<Longrightarrow> limbs_ok (strip_while (\<lambda>l. l = 0) ls)"
  by (induction ls rule: rev_induct) (auto simp: limbs_ok_def)

lemma length_strip_le: "length (strip_while P ls) \<le> length ls"
  by (induction ls rule: rev_induct) auto

lemma le_value_strip [simp]: "le_value b (strip_while (\<lambda>l. l = 0) ls) = le_value b ls"
  by (induction ls rule: rev_induct) (auto simp: le_value_append)

lemma strip_while_id: "ls = [] \<or> last ls \<noteq> 0 \<Longrightarrow> strip_while (\<lambda>l. l = 0) ls = (ls :: nat list)"
  by (cases ls rule: rev_cases) auto

lemma limbs_ok_zero_iff: "limbs_ok ls \<Longrightarrow> le_value limb_base ls = 0 \<longleftrightarrow> ls = []"
  by (metis last_in_set le_value.simps(1) le_value_eq_0 limb_base_pos limbs_ok_def)

text \<open>The digit count that the code computes from the top limb is that of the coefficient.\<close>

definition limbs_digits :: "nat list \<Rightarrow> nat" where
  "limbs_digits ls = (if ls = [] then 1 else (length ls - 1) * limb_digits + dec_len (last ls))"

lemma decimal_digit_less: "decimal_digit d digits i < 10"
  by (simp add: decimal_digit_def Let_def)

lemma decimal_digits_limbs: "decimal_digits d = limbs_digits (d_limbs d)"
  by (simp add: decimal_digits_def limbs_digits_def)

lemma dec_len_limb_le: "l < limb_base \<Longrightarrow> dec_len l \<le> limb_digits"
proof (rule ccontr)
  assume l: "l < limb_base" and "\<not> dec_len l \<le> limb_digits"
  then have k: "limb_digits \<le> dec_len l - 1" by simp
  then have "0 < l" by (cases l) (simp_all add: dec_len.simps [of 0] decimal_consts)
  then have "(10 :: nat) ^ limb_digits \<le> l"
    using dec_len_bounds [of l] power_increasing [OF k, of "10 :: nat"] by linarith
  with l show False by (simp add: limb_base_eq)
qed

lemma dec_len_append_limbs:
  assumes "digits_ok limb_base xs" "0 < x"
  shows "dec_len (le_value limb_base (xs @ [x])) = length xs * limb_digits + dec_len x"
proof -
  let ?n = "le_value limb_base (xs @ [x])" and ?k = "length xs * limb_digits"
  obtain k where k: "dec_len x = Suc k" using dec_len_pos [of x] gr0_conv_Suc by blast
  have base: "limb_base ^ length xs = 10 ^ ?k"
    by (simp add: limb_base_eq power_mult [symmetric] mult.commute)
  have n: "?n = le_value limb_base xs + 10 ^ ?k * x"
    by (simp add: le_value_append base)
  have "10 ^ k \<le> x" "x < 10 ^ Suc k" using dec_len_bounds [of x] assms(2) k by auto
  then have "10 ^ ?k * 10 ^ k \<le> 10 ^ ?k * x" "10 ^ ?k * Suc x \<le> 10 ^ ?k * 10 ^ Suc k"
    by (intro mult_le_mono2; simp)+
  moreover have "le_value limb_base xs < 10 ^ ?k"
    using le_value_less [OF assms(1)] base by simp
  ultimately have "10 ^ ?k * 10 ^ k \<le> ?n" "?n < 10 ^ ?k * 10 ^ Suc k"
    unfolding n mult_Suc_right by linarith+
  then have "10 ^ (?k + k) \<le> ?n" "?n < 10 ^ Suc (?k + k)"
    by (simp_all only: power_add [symmetric] add_Suc_right)
  then show ?thesis using dec_len_unique k by simp
qed

lemma limbs_digits_eq:
  assumes "limbs_ok ls" shows "limbs_digits ls = dec_len (le_value limb_base ls)"
proof (cases ls rule: rev_cases)
  case Nil
  then show ?thesis by (simp add: limbs_digits_def dec_len.simps [of 0])
next
  case (snoc xs x)
  then show ?thesis using assms dec_len_append_limbs [of xs x]
    by (simp add: limbs_digits_def limbs_ok_def)
qed

lemma limbs_digits_le: "digits_ok limb_base ls \<Longrightarrow> ls \<noteq> [] \<Longrightarrow> limbs_digits ls \<le> length ls * limb_digits"
proof -
  assume "digits_ok limb_base ls" "ls \<noteq> []"
  then have "dec_len (last ls) \<le> limb_digits"
    by (auto simp: digits_ok_def intro!: dec_len_limb_le)
  then show ?thesis using \<open>ls \<noteq> []\<close>
    by (cases ls rule: rev_cases) (auto simp: limbs_digits_def)
qed

lemma decimal_digits_eq [simp]: "decimal_wf d \<Longrightarrow> decimal_digits d = dec_len (decimal_coeff d)"
  by (simp add: decimal_digits_limbs limbs_digits_eq decimal_coeff_def)

lemma decimal_wf_digits: "decimal_wf d \<Longrightarrow> dec_len (decimal_coeff d) \<le> SQLI_DECIMAL_MAX_DIGITS"
  by (metis decimal_digits_eq decimal_wf_def)

lemma mod_div_power_digit:
  assumes "r < k" shows "(x mod 10 ^ k) div 10 ^ r mod 10 = (x :: nat) div 10 ^ r mod 10"
proof -
  obtain j where k: "k = r + Suc j" using assms less_iff_Suc_add by auto
  have "x mod 10 ^ k = 10 ^ r * (x div 10 ^ r mod 10 ^ Suc j) + x mod 10 ^ r"
    by (simp only: k power_add mod_mult2_eq)
  then have "(x mod 10 ^ k) div 10 ^ r = x div 10 ^ r mod 10 ^ Suc j" by simp
  then show ?thesis by (simp add: mod_mod_cancel)
qed

lemma limb_digit_at:
  assumes "digits_ok limb_base ls" "offset < length ls * limb_digits"
  shows "ls ! (offset div limb_digits) div powers_of_ten ! (offset mod limb_digits) mod 10 =
    le_value limb_base ls div 10 ^ offset mod 10"
proof -
  let ?q = "offset div limb_digits" and ?r = "offset mod limb_digits"
  let ?c = "le_value limb_base ls"
  have q: "?q < length ls" using assms(2) by (simp add: less_mult_imp_div_less)
  have r: "?r < limb_digits" by simp
  have "ls ! ?q = ?c div limb_base ^ ?q mod limb_base"
    using le_value_digit [OF assms(1) q] by simp
  moreover have "limb_base ^ ?q = 10 ^ (limb_digits * ?q)"
    by (simp add: limb_base_eq power_mult)
  ultimately have "ls ! ?q = ?c div 10 ^ (limb_digits * ?q) mod 10 ^ limb_digits"
    by (simp add: limb_base_eq)
  then have "ls ! ?q div 10 ^ ?r mod 10 = ?c div 10 ^ (limb_digits * ?q) div 10 ^ ?r mod 10"
    using mod_div_power_digit [OF r] by simp
  also have "\<dots> = ?c div 10 ^ (limb_digits * ?q + ?r) mod 10"
    by (simp only: div_mult2_eq power_add)
  also have "limb_digits * ?q + ?r = offset" by simp
  finally show ?thesis using powers_of_ten_nth [OF r] by simp
qed

lemma decimal_digit_eq:
  assumes "decimal_wf d" "d_limbs d \<noteq> []" "pos < decimal_digits d"
  shows "decimal_digit d (decimal_digits d) pos =
    decimal_coeff d div 10 ^ (decimal_digits d - 1 - pos) mod 10"
proof -
  have "digits_ok limb_base (d_limbs d)" using assms(1) by (simp add: decimal_wf_def)
  moreover have "decimal_digits d \<le> length (d_limbs d) * limb_digits"
    using limbs_digits_le [OF calculation assms(2)] decimal_digits_limbs [of d] by simp
  moreover have "decimal_digits d - pos - 1 < decimal_digits d" using assms(3) by linarith
  ultimately show ?thesis
    using assms(2,3) limb_digit_at [of "d_limbs d" "decimal_digits d - pos - 1"]
    by (simp add: decimal_digit_def decimal_coeff_def Let_def diff_commute)
qed

section \<open>Aligned coefficients\<close>

text \<open>
  The coefficient padded with zeros to \<open>m\<close> digits: the virtual zeros beyond the last
  digit that \<open>decimal_digit\<close> reads.
\<close>

definition aligned :: "sqli_decimal \<Rightarrow> nat \<Rightarrow> nat" where
  "aligned d m = decimal_coeff d * 10 ^ (m - decimal_digits d)"

lemma coeff_pos: "decimal_wf d \<Longrightarrow> d_limbs d \<noteq> [] \<Longrightarrow> 0 < decimal_coeff d"
  using limbs_ok_zero_iff [of "d_limbs d"] by (simp add: decimal_coeff_def)

lemma coeff_bounds:
  assumes "decimal_wf d"
  shows "decimal_coeff d < 10 ^ decimal_digits d"
    and "d_limbs d \<noteq> [] \<Longrightarrow> 10 ^ (decimal_digits d - 1) \<le> decimal_coeff d"
  using assms dec_len_bounds [of "decimal_coeff d"] coeff_pos [OF assms] by auto

lemma decimal_digits_pos [simp]: "0 < decimal_digits d"
  by (simp add: decimal_digits_def)

lemma aligned_less: "decimal_wf d \<Longrightarrow> decimal_digits d \<le> m \<Longrightarrow> aligned d m < 10 ^ m"
proof -
  assume wf: "decimal_wf d" and m: "decimal_digits d \<le> m"
  have "aligned d m < 10 ^ decimal_digits d * 10 ^ (m - decimal_digits d)"
    unfolding aligned_def using coeff_bounds(1) [OF wf] by (rule mult_strict_right_mono) simp
  also have "\<dots> = 10 ^ m" using m by (simp only: power_add [symmetric] le_add_diff_inverse)
  finally show ?thesis .
qed

lemma decimal_digit_aligned:
  assumes wf: "decimal_wf d" and ne: "d_limbs d \<noteq> []" and m: "decimal_digits d \<le> m" and i: "i < m"
  shows "decimal_digit d (decimal_digits d) i = aligned d m div 10 ^ (m - 1 - i) mod 10"
proof (cases "i < decimal_digits d")
  case True
  let ?n = "decimal_digits d"
  have "m - 1 - i = (m - ?n) + (?n - 1 - i)" using True m by linarith
  then have "aligned d m div 10 ^ (m - 1 - i) = decimal_coeff d div 10 ^ (?n - 1 - i)"
    by (simp only: aligned_def power_add mult.commute [of "decimal_coeff d"]) simp
  then show ?thesis using decimal_digit_eq [OF wf ne True] by simp
next
  case False
  let ?n = "decimal_digits d"
  have "m - ?n = (m - 1 - i) + Suc (i - ?n)" using False i by linarith
  then have "aligned d m = 10 ^ (m - 1 - i) * (10 * (decimal_coeff d * 10 ^ (i - ?n)))"
    by (simp only: aligned_def power_add power_Suc) (simp add: ac_simps)
  then have "aligned d m div 10 ^ (m - 1 - i) = 10 * (decimal_coeff d * 10 ^ (i - ?n))"
    by simp
  then show ?thesis using False by (simp add: decimal_digit_def)
qed

lemma prefix_step:
  assumes "i < m"
  shows "(x :: nat) div 10 ^ (m - Suc i) = 10 * (x div 10 ^ (m - i)) + x div 10 ^ (m - 1 - i) mod 10"
proof -
  have e: "m - i = Suc (m - Suc i)" "m - 1 - i = m - Suc i" using assms by linarith+
  have "x div 10 ^ (m - i) = x div 10 ^ (m - Suc i) div 10"
    by (simp only: e(1) power_Suc mult.commute [of 10] div_mult2_eq)
  then show ?thesis by (simp only: e(2)) simp
qed

section \<open>Magnitudes as rationals\<close>

definition mag :: "sqli_decimal \<Rightarrow> rat" where
  "mag d = of_nat (decimal_coeff d) * 10 powi (- d_scale d)"

lemma decimal_value_mag: "decimal_value d = (if d_negative d then - mag d else mag d)"
  by (simp add: decimal_value_def decimal_int_def mag_def)

lemma mag_nonneg [simp]: "0 \<le> mag d"
  by (simp add: mag_def)

lemma mag_pos: "decimal_wf d \<Longrightarrow> d_limbs d \<noteq> [] \<Longrightarrow> 0 < mag d"
  using coeff_pos [of d] by (simp add: mag_def)

lemma mag_zero: "d_limbs d = [] \<Longrightarrow> mag d = 0"
  by (simp add: mag_def decimal_coeff_def)

lemma powi_mult: "(10 :: rat) powi a * 10 powi b = 10 powi (a + b)"
  by (simp add: power_int_add)

lemma mag_bounds:
  assumes wf: "decimal_wf d" and ne: "d_limbs d \<noteq> []"
  shows "mag d < 10 powi (int (decimal_digits d) - d_scale d)"
    and "10 powi (int (decimal_digits d) - d_scale d - 1) \<le> mag d"
proof -
  let ?n = "decimal_digits d"
  have pos: "(0 :: rat) < 10 powi (- d_scale d)" by simp
  have "of_nat (decimal_coeff d) < (of_nat (10 ^ ?n) :: rat)"
    using coeff_bounds(1) [OF wf] by (simp only: of_nat_less_iff)
  then have "mag d < of_nat (10 ^ ?n) * 10 powi (- d_scale d)"
    unfolding mag_def using pos by (simp only: mult_less_cancel_right_pos)
  also have "\<dots> = 10 powi (int ?n - d_scale d)"
    using powi_mult [of "int ?n" "- d_scale d"] by simp
  finally show "mag d < 10 powi (int ?n - d_scale d)" .
  have "(of_nat (10 ^ (?n - 1)) :: rat) \<le> of_nat (decimal_coeff d)"
    using coeff_bounds(2) [OF wf ne] by (simp only: of_nat_le_iff)
  then have "of_nat (10 ^ (?n - 1)) * 10 powi (- d_scale d) \<le> mag d"
    unfolding mag_def using pos by (simp only: mult_le_cancel_right_pos)
  moreover have "of_nat (10 ^ (?n - 1)) * 10 powi (- d_scale d) = (10 :: rat) powi (int ?n - d_scale d - 1)"
  proof -
    have e: "int (?n - 1) + - d_scale d = int ?n - d_scale d - 1"
      using decimal_digits_pos [of d] by linarith
    show ?thesis
      using powi_mult [of "int (?n - 1)" "- d_scale d"] unfolding e by simp
  qed
  ultimately show "10 powi (int ?n - d_scale d - 1) \<le> mag d" by simp
qed

lemma mag_aligned:
  assumes "decimal_digits d \<le> m"
  shows "mag d = of_nat (aligned d m) * 10 powi (int (decimal_digits d) - d_scale d - int m)"
proof -
  let ?n = "decimal_digits d"
  have "of_nat (aligned d m) = (of_nat (decimal_coeff d) :: rat) * 10 powi int (m - ?n)"
    by (simp add: aligned_def)
  moreover have "int (m - ?n) + (int ?n - d_scale d - int m) = - d_scale d"
    using assms by simp
  ultimately show ?thesis
    using powi_mult [of "int (m - ?n)" "int ?n - d_scale d - int m"]
    by (simp add: mag_def mult.assoc)
qed


section \<open>One-limb values\<close>

text \<open>Values of one limb, the inputs at which the properties are instantiated.\<close>

definition small_decimal :: "nat \<Rightarrow> int \<Rightarrow> bool \<Rightarrow> sqli_decimal" where
  "small_decimal c s neg =
     \<lparr>d_limbs = [c], d_capacity = decimal_inline_limbs, d_inline = True, d_scale = s,
      d_negative = neg, d_is_null = False\<rparr>"

lemma small_decimal_wf:
  assumes "0 < c" "c < limb_base" "in_i32 s" shows "decimal_wf (small_decimal c s neg)"
proof -
  have "dec_len c \<le> 9" by (rule dec_len_le) (use assms(2) in \<open>simp_all add: decimal_consts\<close>)
  then show ?thesis using assms
    by (simp add: decimal_wf_def small_decimal_def decimal_digits_limbs limbs_digits_def decimal_consts)
qed

lemma small_decimal_simps [simp]:
  "decimal_coeff (small_decimal c s neg) = c"
  "d_is_null (small_decimal c s neg) = False"
  "d_scale (small_decimal c s neg) = s"
  "d_negative (small_decimal c s neg) = neg"
  by (simp_all add: small_decimal_def decimal_coeff_def)

lemma small_decimal_value:
  "decimal_value (small_decimal c s neg) = (if neg then -1 else 1) * of_nat c * 10 powi (- s)"
  by (simp add: decimal_value_mag mag_def)

end
