(* ===== verification/DecimalArith.thy ===== *)
theory DecimalArith
  imports DecimalFacts
begin

text \<open>
  The numeric operations on decimals against their meaning: comparison is the order of
  the rational values, conversion to \<open>int64_t\<close> is exact, rescaling keeps the value.
\<close>

section \<open>Comparison\<close>

definition cmp :: "'a :: linorder \<Rightarrow> 'a \<Rightarrow> int" where
  "cmp x y = (if x < y then -1 else if x = y then 0 else 1)"

lemma prefix_less_imp_less: "(x :: nat) div k < y div k \<Longrightarrow> x < y"
  by (metis div_le_mono not_le)

lemma compare_digits_aligned:
  assumes wf: "decimal_wf l" "decimal_wf r" and ne: "d_limbs l \<noteq> []" "d_limbs r \<noteq> []"
    and m: "decimal_digits l \<le> m" "decimal_digits r \<le> m"
    and "i \<le> m" and "aligned l m div 10 ^ (m - i) = aligned r m div 10 ^ (m - i)"
  shows "compare_digits l (decimal_digits l) r (decimal_digits r) [i..<m] =
    cmp (aligned l m) (aligned r m)"
  using assms(7,8)
proof (induction "m - i" arbitrary: i)
  case 0
  then show ?case by (simp add: cmp_def)
next
  case (Suc k)
  let ?A = "aligned l m" and ?B = "aligned r m"
  let ?a = "decimal_digit l (decimal_digits l) i" and ?b = "decimal_digit r (decimal_digits r) i"
  have i: "i < m" using Suc.hyps(2) by linarith
  have a: "?a = ?A div 10 ^ (m - 1 - i) mod 10" and b: "?b = ?B div 10 ^ (m - 1 - i) mod 10"
    using decimal_digit_aligned wf ne m i by blast+
  have pa: "?A div 10 ^ (m - Suc i) = 10 * (?A div 10 ^ (m - i)) + ?a"
    and pb: "?B div 10 ^ (m - Suc i) = 10 * (?B div 10 ^ (m - i)) + ?b"
    unfolding a b by (rule prefix_step [OF i])+
  have upt: "[i..<m] = i # [Suc i..<m]" using i by (rule upt_conv_Cons)
  show ?case
  proof (cases "?a = ?b")
    case True
    then have "?A div 10 ^ (m - Suc i) = ?B div 10 ^ (m - Suc i)"
      using pa pb Suc.prems by simp
    then show ?thesis using Suc.hyps i True by (simp add: upt)
  next
    case False
    have "cmp ?A ?B = (if ?a < ?b then -1 else 1)"
    proof (cases "?a < ?b")
      case True
      then have "?A div 10 ^ (m - Suc i) < ?B div 10 ^ (m - Suc i)" using pa pb Suc.prems by simp
      then show ?thesis using True by (auto simp: cmp_def dest: prefix_less_imp_less)
    next
      case ge: False
      then have "?B div 10 ^ (m - Suc i) < ?A div 10 ^ (m - Suc i)" using False pa pb Suc.prems by simp
      then have "?B < ?A" by (rule prefix_less_imp_less)
      then show ?thesis using ge by (simp add: cmp_def)
    qed
    then show ?thesis using False by (simp add: upt Let_def)
  qed
qed

lemma magnitude_order:
  assumes wf: "decimal_wf l" "decimal_wf r" and ne: "d_limbs l \<noteq> []" "d_limbs r \<noteq> []"
  shows "(let nl = decimal_digits l; nr = decimal_digits r; el = int nl - d_scale l;
              er = int nr - d_scale r
          in if el \<noteq> er then (if el < er then -1 else 1)
             else compare_digits l nl r nr [0..<max nl nr]) = cmp (mag l) (mag r)"
proof -
  define m where "m = max (decimal_digits l) (decimal_digits r)"
  define el where "el = int (decimal_digits l) - d_scale l"
  define er where "er = int (decimal_digits r) - d_scale r"
  have apart: "mag x < mag y"
    if "decimal_wf x" "decimal_wf y" "d_limbs x \<noteq> []" "d_limbs y \<noteq> []"
      "int (decimal_digits x) - d_scale x < int (decimal_digits y) - d_scale y" for x y
  proof -
    have "(10 :: rat) powi (int (decimal_digits x) - d_scale x) \<le> 10 powi (int (decimal_digits y) - d_scale y - 1)"
      using that(5) by (intro power_int_increasing) auto
    then show ?thesis using mag_bounds(1) [OF that(1,3)] mag_bounds(2) [OF that(2,4)] by linarith
  qed
  show ?thesis
  proof (cases "el = er")
    case True
    have dm: "decimal_digits l \<le> m" "decimal_digits r \<le> m" by (simp_all add: m_def)
    have zero: "aligned l m div 10 ^ (m - 0) = aligned r m div 10 ^ (m - 0)"
      using aligned_less [OF wf(1) dm(1)] aligned_less [OF wf(2) dm(2)] by simp
    have "mag l = of_nat (aligned l m) * 10 powi (el - int m)"
      "mag r = of_nat (aligned r m) * 10 powi (el - int m)"
      using mag_aligned [OF dm(1)] mag_aligned [OF dm(2)] True by (simp_all add: el_def er_def)
    then have "cmp (mag l) (mag r) = cmp (aligned l m) (aligned r m)"
      by (simp add: cmp_def)
    also have "\<dots> = compare_digits l (decimal_digits l) r (decimal_digits r) [0..<m]"
      using compare_digits_aligned [OF wf ne dm _ zero] by simp
    finally show ?thesis using True by (simp add: el_def er_def m_def Let_def)
  next
    case False
    then consider "el < er" | "er < el" by linarith
    then show ?thesis
      using apart [OF wf ne] apart [OF wf(2,1) ne(2,1)]
      by cases (auto simp: el_def er_def Let_def cmp_def)
  qed
qed

text \<open>
  C20. Numeric comparison of two well-formed values that are not SQL NULL returns -1, 0 or 1
  exactly as the first value is smaller than, equal to or greater than the second one as
  a rational number, whatever their scales are.
\<close>

theorem sqli_decimal_compare_correct:
  assumes "decimal_wf l" "decimal_wf r" "\<not> d_is_null l" "\<not> d_is_null r"
  shows "sqli_decimal_compare (Some l) (Some r) = Inr (cmp (decimal_value l) (decimal_value r))"
proof -
  have neg: "d_limbs x \<noteq> []" if "decimal_wf x" "d_negative x" for x
    using that by (auto simp: decimal_wf_def)
  consider "d_limbs l = []" "d_limbs r = []" | "d_limbs l = []" "d_limbs r \<noteq> []"
    | "d_limbs l \<noteq> []" "d_limbs r = []" | "d_limbs l \<noteq> []" "d_limbs r \<noteq> []" by blast
  then show ?thesis
  proof cases
    case 1
    then show ?thesis using assms
      by (simp add: sqli_decimal_compare_def cmp_def decimal_value_mag mag_zero)
  next
    case 2
    then show ?thesis using assms mag_pos [OF assms(2)]
      by (auto simp: sqli_decimal_compare_def cmp_def decimal_value_mag mag_zero)
  next
    case 3
    then show ?thesis using assms mag_pos [OF assms(1)]
      by (auto simp: sqli_decimal_compare_def cmp_def decimal_value_mag mag_zero)
  next
    case 4
    then show ?thesis
      using assms magnitude_order [OF assms(1,2) 4] mag_pos [OF assms(1)] mag_pos [OF assms(2)]
      by (auto simp: sqli_decimal_compare_def decimal_value_mag Let_def) (auto simp: cmp_def)
  qed
qed

section \<open>Conversion to int64\<close>

lemma i64_magnitude_aligned:
  assumes wf: "decimal_wf d" and ne: "d_limbs d \<noteq> []" and m: "decimal_digits d \<le> m" "e \<le> m"
    and lim: "9 \<le> limit" "limit < 2 ^ 64"
    and "k \<le> e" and "aligned d m div 10 ^ (m - k) \<le> limit"
  shows "i64_magnitude d (decimal_digits d) limit (aligned d m div 10 ^ (m - k)) [k..<e] =
    (if aligned d m div 10 ^ (m - e) \<le> limit then Inr (aligned d m div 10 ^ (m - e))
     else Inl SQLI_OUT_OF_RANGE)"
  using assms(7,8)
proof (induction "e - k" arbitrary: k)
  case 0
  then show ?case by simp
next
  case (Suc j)
  let ?A = "aligned d m" and ?g = "decimal_digit d (decimal_digits d) k"
  have k: "k < e" "k < m" using Suc.hyps(2) m by linarith+
  have g: "?g = ?A div 10 ^ (m - 1 - k) mod 10"
    using decimal_digit_aligned wf ne m(1) k(2) by blast
  have step: "?A div 10 ^ (m - Suc k) = 10 * (?A div 10 ^ (m - k)) + ?g"
    unfolding g by (rule prefix_step [OF k(2)])
  have "?g < 10" unfolding g by simp
  then have g9: "?g \<le> 9" by simp
  have upt: "[k..<e] = k # [Suc k..<e]" using k by (simp add: upt_conv_Cons)
  have guard: "?A div 10 ^ (m - k) > (limit - ?g) div 10 \<longleftrightarrow> ?A div 10 ^ (m - Suc k) > limit"
    using g9 lim(1) step by (simp add: div_less_iff_less_mult) linarith
  show ?case
  proof (cases "?A div 10 ^ (m - Suc k) > limit")
    case True
    have "?A div 10 ^ (m - Suc k) \<le> ?A div 10 ^ (m - e)"
      using k by (intro div_le_mono2) (auto intro!: power_increasing)
    then show ?thesis using True guard by (simp add: upt Let_def)
  next
    case False
    then have "u64 (?A div 10 ^ (m - k) * 10 + ?g) = ?A div 10 ^ (m - Suc k)"
      using step lim(2) by (simp add: u64_id)
    then show ?thesis using False guard Suc.hyps k by (simp add: upt Let_def)
  qed
qed

lemma fraction_is_zero_iff:
  assumes wf: "decimal_wf d" and ne: "d_limbs d \<noteq> []" and "e \<le> decimal_digits d"
  shows "fraction_is_zero d (decimal_digits d) e \<longleftrightarrow> 10 ^ (decimal_digits d - e) dvd decimal_coeff d"
  using assms(3)
proof (induction "decimal_digits d - e" arbitrary: e)
  case 0
  then show ?case by (simp add: fraction_is_zero_def)
next
  case (Suc j)
  let ?n = "decimal_digits d" and ?c = "decimal_coeff d"
  have e: "e < ?n" "?n - e = Suc (?n - Suc e)" "?n - 1 - e = ?n - Suc e" using Suc.hyps(2) by linarith+
  have "fraction_is_zero d ?n e \<longleftrightarrow>
      decimal_digit d ?n e = 0 \<and> fraction_is_zero d ?n (Suc e)"
    using e(1) by (simp add: fraction_is_zero_def upt_conv_Cons)
  also have "\<dots> \<longleftrightarrow> ?c div 10 ^ (?n - Suc e) mod 10 = 0 \<and> 10 ^ (?n - Suc e) dvd ?c"
    using decimal_digit_eq [OF wf ne e(1)] Suc.hyps e by simp
  also have "\<dots> \<longleftrightarrow> 10 ^ (?n - e) dvd ?c"
    unfolding e(2) power_Suc
    by (metis dvd_mult_right dvd_mult_imp_div dvd_times_right_cancel_iff mod_0_imp_dvd
        dvd_imp_mod_0 dvd_mult_div_cancel mult.commute power_not_zero zero_neq_numeral dvd_div_iff_mult)
  finally show ?case .
qed

lemma mag_integral_iff:
  assumes wf: "decimal_wf d" and ne: "d_limbs d \<noteq> []"
    and m: "m = max (decimal_digits d) e" and e: "int e = int (decimal_digits d) - d_scale d"
  shows "mag d \<in> \<int> \<longleftrightarrow> 10 ^ (m - e) dvd aligned d m"
    and "10 ^ (m - e) dvd aligned d m \<Longrightarrow> mag d = of_nat (aligned d m div 10 ^ (m - e))"
proof -
  let ?A = "aligned d m"
  have "mag d = of_nat ?A * 10 powi (int e - int m)"
    using mag_aligned [of d m] m e by simp
  also have "int e - int m = - int (m - e)" using m by simp
  finally have mag: "mag d = of_nat ?A / of_nat (10 ^ (m - e))"
    by (simp add: power_int_minus divide_inverse)
  have eq: "mag d = of_nat (?A div 10 ^ (m - e))" if "10 ^ (m - e) dvd ?A"
    using that unfolding mag by (auto elim!: dvdE)
  then show "10 ^ (m - e) dvd ?A \<Longrightarrow> mag d = of_nat (?A div 10 ^ (m - e))" .
  show "mag d \<in> \<int> \<longleftrightarrow> 10 ^ (m - e) dvd ?A"
  proof
    assume "mag d \<in> \<int>"
    then obtain z where z: "mag d = of_int z" by (auto elim: Ints_cases)
    then have "of_nat ?A = (of_int (z * 10 ^ (m - e)) :: rat)"
      unfolding mag by (simp add: field_simps)
    then have "int ?A = z * 10 ^ (m - e)" by (metis of_int_eq_iff of_int_of_nat_eq)
    then have "int (10 ^ (m - e)) dvd int ?A" by simp
    then show "10 ^ (m - e) dvd ?A" by (simp only: int_dvd_int_iff)
  qed (simp add: eq)
qed

lemma mag_small_not_integral:
  assumes wf: "decimal_wf d" and ne: "d_limbs d \<noteq> []" and "int (decimal_digits d) - d_scale d \<le> 0"
  shows "mag d \<notin> \<int>"
proof
  assume "mag d \<in> \<int>"
  then obtain z where z: "mag d = of_int z" by (auto elim: Ints_cases)
  have "(10 :: rat) powi (int (decimal_digits d) - d_scale d) \<le> 10 powi 0"
    using assms(3) by (intro power_int_increasing) auto
  then have "mag d < 1" using mag_bounds(1) [OF wf ne] by simp
  moreover have "0 < mag d" by (rule mag_pos [OF wf ne])
  ultimately show False using z by simp
qed

lemma to_i64_integral_test:
  assumes wf: "decimal_wf d" and ne: "d_limbs d \<noteq> []"
    and e: "int e = int (decimal_digits d) - d_scale d"
    and m: "m = max (decimal_digits d) e"
  shows "d_scale d > 0 \<and> \<not> fraction_is_zero d (decimal_digits d) e \<longleftrightarrow> mag d \<notin> \<int>"
proof (cases "d_scale d > 0")
  case True
  then have "e \<le> decimal_digits d" "m = decimal_digits d" using e m by simp_all
  then show ?thesis
    using True fraction_is_zero_iff [OF wf ne] mag_integral_iff(1) [OF wf ne m e]
    by (simp add: aligned_def)
next
  case False
  then have "m = e" using e m by simp
  then show ?thesis using False mag_integral_iff(1) [OF wf ne m e] by simp
qed

text \<open>
  C21. Conversion of a well-formed value to int64_t is exact: the integer the value denotes
  when it is one in range, SQLI_OUT_OF_RANGE for an integer outside int64_t, SQLI_INEXACT
  for a fractional value.
\<close>

theorem sqli_decimal_to_i64_correct:
  assumes wf: "decimal_wf d" and "\<not> d_is_null d"
  shows "sqli_decimal_to_i64 (Some d) =
    (if decimal_value d \<in> \<int> then
       (if in_i64 \<lfloor>decimal_value d\<rfloor> then Inr \<lfloor>decimal_value d\<rfloor> else Inl SQLI_OUT_OF_RANGE)
     else Inl SQLI_INEXACT)"
proof (cases "d_limbs d = []")
  case True
  then show ?thesis using assms
    by (simp add: sqli_decimal_to_i64_def decimal_value_mag mag_zero in_i64_def)
next
  case ne: False
  let ?n = "decimal_digits d" and ?w = "int (decimal_digits d) - d_scale d"
  have int_iff: "decimal_value d \<in> \<int> \<longleftrightarrow> mag d \<in> \<int>"
    by (simp add: decimal_value_mag)
  show ?thesis
  proof (cases "?w \<le> 0")
    case True
    then show ?thesis using assms(2) ne mag_small_not_integral [OF wf ne True]
      by (simp add: sqli_decimal_to_i64_def int_iff)
  next
    case False
    define e where "e = nat ?w"
    define m where "m = max ?n e"
    have e: "int e = ?w" using False by (simp add: e_def)
    note test = to_i64_integral_test [OF wf ne e m_def]
    show ?thesis
    proof (cases "mag d \<in> \<int>")
      case not_int: False
      then show ?thesis using assms(2) ne False test
        by (simp add: sqli_decimal_to_i64_def int_iff e_def Let_def)
    next
      case True
      define M where "M = aligned d m div 10 ^ (m - e)"
      define limit :: nat where "limit = 2 ^ 63 - 1 + (if d_negative d then 1 else 0)"
      have dvd: "10 ^ (m - e) dvd aligned d m"
        using True mag_integral_iff(1) [OF wf ne m_def e] by simp
      have M: "mag d = of_nat M"
        unfolding M_def by (rule mag_integral_iff(2) [OF wf ne m_def e dvd])
      have start: "aligned d m div 10 ^ (m - 0) = 0"
        using aligned_less [OF wf, of m] by (simp add: m_def)
      have loop: "i64_magnitude d ?n limit 0 [0..<e] =
          (if M \<le> limit then Inr M else Inl SQLI_OUT_OF_RANGE)"
        using i64_magnitude_aligned [OF wf ne, of m e limit 0] start
        by (simp add: m_def limit_def M_def)
      have big: "limit < M" if "?w > 19"
      proof -
        have "(10 :: rat) powi 19 \<le> 10 powi (?w - 1)"
          using that by (intro power_int_increasing) auto
        then have "(10 :: rat) ^ 19 \<le> of_nat M" using mag_bounds(2) [OF wf ne] M by simp
        then have "(10 :: nat) ^ 19 \<le> M"
          by (metis of_nat_le_iff of_nat_numeral of_nat_power)
        then show ?thesis by (simp add: limit_def)
      qed
      have floor: "\<lfloor>decimal_value d\<rfloor> = (if d_negative d then - int M else int M)"
        using floor_of_int [of "- int M", where 'a = rat] by (simp add: decimal_value_mag M)
      have range: "in_i64 \<lfloor>decimal_value d\<rfloor> \<longleftrightarrow> M \<le> limit"
        unfolding floor by (auto simp: in_i64_def limit_def)
      have frac: "\<not> (d_scale d > 0 \<and> \<not> fraction_is_zero d ?n (nat ?w))"
        using test True by (simp add: e_def)
      have "sqli_decimal_to_i64 (Some d) =
          (if ?w > 19 then Inl SQLI_OUT_OF_RANGE
           else case i64_magnitude d ?n limit 0 [0..<e] of
                  Inl status \<Rightarrow> Inl status
                | Inr magnitude \<Rightarrow>
                    if \<not> d_negative d then Inr (int magnitude)
                    else if magnitude = 2 ^ 63 then Inr (- (2 ^ 63))
                    else Inr (- int magnitude))"
        unfolding sqli_decimal_to_i64_def limit_def e_def Let_def
        using assms(2) ne False by (simp add: frac)
      also have "\<dots> = (if M \<le> limit then Inr \<lfloor>decimal_value d\<rfloor> else Inl SQLI_OUT_OF_RANGE)"
        using big by (auto simp: loop floor)
      finally show ?thesis using True range by (simp add: int_iff)
    qed
  qed
qed


theorem sqli_decimal_compare_correct_witness:
  "sqli_decimal_compare (Some (small_decimal 15 1 False)) (Some (small_decimal 150 2 False)) = Inr 0 \<and>
   sqli_decimal_compare (Some (small_decimal 15 1 True)) (Some (small_decimal 2 0 True)) = Inr 1"
  using sqli_decimal_compare_correct [of "small_decimal 15 1 False" "small_decimal 150 2 False"]
    sqli_decimal_compare_correct [of "small_decimal 15 1 True" "small_decimal 2 0 True"]
  by (simp add: small_decimal_wf small_decimal_value decimal_consts in_i32_def cmp_def
      power_int_minus)

theorem sqli_decimal_to_i64_correct_witness:
  "sqli_decimal_to_i64 (Some (small_decimal 150 1 True)) = Inr (- 15)"
proof -
  have v: "decimal_value (small_decimal 150 1 True) = of_int (- 15)"
    by (simp add: small_decimal_value power_int_minus)
  have "(of_int (- 15) :: rat) \<in> \<int>" by (rule Ints_of_int)
  then show ?thesis
    using sqli_decimal_to_i64_correct [of "small_decimal 150 1 True"]
    unfolding v floor_of_int
    by (simp add: small_decimal_wf decimal_consts in_i32_def in_i64_def)
qed

end
