(* ===== verification/DecimalText.thy ===== *)
theory DecimalText
  imports Decimal
begin

text \<open>
  Decimal text: \<open>sqli_decimal_parse\<close> and \<open>sqli_decimal_format\<close> of
  src/src/sqli_decimal.c. A text argument is the list of its \<open>length\<close> bytes; a loop over
  text positions is a recursion over the remaining bytes.
\<close>

section \<open>Parsing\<close>

fun exponent_value :: "int \<Rightarrow> string \<Rightarrow> int fallible" where
  "exponent_value exponent [] = Inr exponent"
| "exponent_value exponent (ch # cs) =
     (if \<not> ascii_digit ch then Inl SQLI_INVALID_ARGUMENT
      else let digit = int (char_digit ch)
        in if exponent > (2 ^ 63 - 1 - digit) div 10 then Inl SQLI_OUT_OF_RANGE
           else exponent_value (exponent * 10 + digit) cs)"

text \<open>\<open>text\<close> is what follows the exponent letter.\<close>

definition parse_exponent :: "string \<Rightarrow> int fallible" where
  "parse_exponent text =
     (let signed = (case text of ch # _ \<Rightarrow> ch = CHR ''+'' \<or> ch = CHR ''-'' | [] \<Rightarrow> False);
          negative = (signed \<and> hd text = CHR ''-'');
          body = (if signed then tl text else text)
      in if body = [] then Inl SQLI_INVALID_ARGUMENT
         else case exponent_value 0 body of
                Inl status \<Rightarrow> Inl status
              | Inr exponent \<Rightarrow> Inr (if negative then - exponent else exponent))"

record mantissa_scan =
  s_digits :: nat
  s_fractional :: nat
  s_significant :: nat
  s_point :: bool

text \<open>The mantissa loop; it returns its counters and the text from the exponent letter on.\<close>

fun scan_mantissa :: "mantissa_scan \<Rightarrow> string \<Rightarrow> (mantissa_scan \<times> string) fallible" where
  "scan_mantissa s [] = Inr (s, [])"
| "scan_mantissa s (ch # cs) =
     (if ch = CHR ''e'' \<or> ch = CHR ''E'' then Inr (s, ch # cs)
      else if ch = CHR ''.'' \<and> \<not> s_point s then scan_mantissa (s\<lparr>s_point := True\<rparr>) cs
      else if ascii_digit ch then
        scan_mantissa (s\<lparr>s_digits := s_digits s + 1,
           s_significant := (if ch \<noteq> CHR ''0'' \<or> s_significant s \<noteq> 0
                             then s_significant s + 1 else s_significant s),
           s_fractional := (if s_point s then s_fractional s + 1 else s_fractional s)\<rparr>) cs
      else Inl SQLI_INVALID_ARGUMENT)"

text \<open>
  The loop that fills the zeroed limbs; its text argument is the mantissa read backwards
  (\<open>i\<close> runs from \<open>mantissa_end\<close> down to \<open>start\<close>).
\<close>

fun fill_limbs :: "nat \<Rightarrow> nat list \<Rightarrow> nat \<Rightarrow> string \<Rightarrow> nat list" where
  "fill_limbs significant limbs offset [] = limbs"
| "fill_limbs significant limbs offset (ch # cs) =
     (if \<not> offset < significant then limbs
      else if ch \<noteq> CHR ''.'' then
        fill_limbs significant
          (limbs[offset div limb_digits :=
             u32 (limbs ! (offset div limb_digits) +
                  u32 (char_digit ch * powers_of_ten ! (offset mod limb_digits)))])
          (offset + 1) cs
      else fill_limbs significant limbs offset cs)"

definition parse_text ::
  "(nat \<Rightarrow> bool) \<Rightarrow> string \<Rightarrow> sqli_decimal \<Rightarrow> sqli_status \<times> sqli_decimal" where
  "parse_text mem text value =
     (let signed = (hd text = CHR ''+'' \<or> hd text = CHR ''-'');
          negative = (signed \<and> hd text = CHR ''-'');
          body = (if signed then tl text else text)
      in case scan_mantissa \<lparr>s_digits = 0, s_fractional = 0, s_significant = 0, s_point = False\<rparr> body of
           Inl status \<Rightarrow> (status, value)
         | Inr (s, rest) \<Rightarrow>
             if s_digits s = 0 then (SQLI_INVALID_ARGUMENT, value)
             else if s_significant s > SQLI_DECIMAL_MAX_DIGITS then (SQLI_LIMIT_EXCEEDED, value)
             else case (if rest = [] then Inr 0 else parse_exponent (tl rest)) of
               Inl status \<Rightarrow> (status, value)
             | Inr exponent \<Rightarrow>
                 if exponent < int (s_fractional s) - (2 ^ 31 - 1) \<or>
                    exponent > int (s_fractional s) + 2 ^ 31
                 then (SQLI_OUT_OF_RANGE, value)
                 else let mantissa = take (length body - length rest) body;
                          count = (s_significant s + limb_digits - 1) div limb_digits;
                          (status, temporary) = decimal_reserve mem decimal_init count
                   in if status \<noteq> SQLI_OK then (status, value)
                      else let temporary = decimal_trim (temporary\<lparr>
                             d_limbs := fill_limbs (s_significant s) (replicate count 0) 0 (rev mantissa),
                             d_scale := i32 (int (s_fractional s) - exponent),
                             d_negative := negative, d_is_null := False\<rparr>)
                        in (SQLI_OK, fst (decimal_move value temporary)))"

definition sqli_decimal_parse ::
  "(nat \<Rightarrow> bool) \<Rightarrow> sqli_decimal option \<Rightarrow> string option \<Rightarrow> bool \<Rightarrow>
   sqli_status \<times> sqli_decimal option" where
  "sqli_decimal_parse mem value text is_null =
     (if value = None then (SQLI_INVALID_ARGUMENT, None)
      else if is_null then sqli_decimal_set_null value
      else case text of
             None \<Rightarrow> (SQLI_INVALID_ARGUMENT, value)
           | Some text \<Rightarrow>
               if text = [] then (SQLI_INVALID_ARGUMENT, value)
               else if length text > SQLI_DECIMAL_MAX_TEXT then (SQLI_LIMIT_EXCEEDED, value)
               else on_object (parse_text mem text) value)"

section \<open>Formatting\<close>

definition decimal_plain_min_exponent :: int where "decimal_plain_min_exponent = -6"

text \<open>The digits of the exponent, least significant first.\<close>

fun magnitude_digits :: "nat \<Rightarrow> string" where
  "magnitude_digits magnitude =
     digit_char (magnitude mod 10) #
     (if magnitude div 10 \<noteq> 0 then magnitude_digits (magnitude div 10) else [])"

declare magnitude_digits.simps [simp del]

definition exponent_digits :: "int \<Rightarrow> string" where
  "exponent_digits exponent = magnitude_digits (nat \<bar>exponent\<bar>)"

definition format_exponent :: "sqli_decimal \<Rightarrow> int" where
  "format_exponent value = int (decimal_digits value) - 1 - d_scale value"

definition format_scientific :: "sqli_decimal \<Rightarrow> bool" where
  "format_scientific value \<longleftrightarrow>
     d_scale value < 0 \<or> format_exponent value < decimal_plain_min_exponent"

text \<open>The length computed before anything is written.\<close>

definition format_length :: "sqli_decimal \<Rightarrow> nat" where
  "format_length value =
     (let digits = decimal_digits value; scale = nat (d_scale value);
          sign = (if d_negative value then 1 else 0)
      in if format_scientific value
         then sign + digits + (if digits > 1 then 1 else 0) + 2 +
              length (exponent_digits (format_exponent value))
         else if d_scale value = 0 then sign + digits
         else if scale < digits then sign + digits + 1
         else sign + 2 + scale)"

text \<open>The characters written, without the terminating NUL.\<close>

definition format_text :: "sqli_decimal \<Rightarrow> string" where
  "format_text value =
     (let digits = decimal_digits value; scale = nat (d_scale value);
          digit = (\<lambda>i. digit_char (decimal_digit value digits i))
      in (if d_negative value then ''-'' else '''') @
         (if format_scientific value then
            concat (map (\<lambda>i. (if i = 1 then ''.'' else '''') @ [digit i]) [0..<digits]) @ ''E'' @
            (if format_exponent value < 0 then ''-'' else ''+'') @
            rev (exponent_digits (format_exponent value))
          else if d_scale value > 0 \<and> scale \<ge> digits then
            ''0.'' @ replicate (scale - digits) (CHR ''0'') @ map digit [0..<digits]
          else
            concat (map (\<lambda>i. (if d_scale value \<noteq> 0 \<and> i = digits - scale then ''.'' else '''') @
              [digit i]) [0..<digits])))"

text \<open>
  What a format call writes: \<open>None\<close> is an output left untouched. \<open>f_buffer\<close> is the
  text written with its terminating NUL.
\<close>

record format_result =
  f_status :: sqli_status
  f_required :: "nat option"
  f_is_null :: "bool option"
  f_buffer :: "string option"

definition sqli_decimal_format ::
  "sqli_decimal option \<Rightarrow> bool \<Rightarrow> nat \<Rightarrow> bool \<Rightarrow> bool \<Rightarrow> format_result" where
  "sqli_decimal_format p buffer_given capacity required_given is_null_given =
     (let result = (\<lambda>st r n b. \<lparr>f_status = st, f_required = r, f_is_null = n, f_buffer = b\<rparr>)
      in case p of
           None \<Rightarrow> result SQLI_INVALID_ARGUMENT None None None
         | Some value \<Rightarrow>
             if \<not> required_given \<or> \<not> is_null_given \<or> (\<not> buffer_given \<and> capacity \<noteq> 0)
             then result SQLI_INVALID_ARGUMENT None None None
             else if d_is_null value then result SQLI_OK (Some 0) (Some True) None
             else let required = format_length value + 1
               in if \<not> buffer_given then result SQLI_OK (Some required) (Some False) None
                  else if capacity < required
                    then result SQLI_BUFFER_TOO_SMALL (Some required) (Some False) None
                  else result SQLI_OK (Some required) (Some False)
                         (Some (format_text value @ [CHR 0x00])))"

end
