(* ===== verification/DecimalRescale.thy ===== *)
theory DecimalRescale
  imports DecimalArith
begin

text \<open>
  Import of parts and exact rescaling: what the buffer-level loops compute, and that the
  operations keep well-formed values and fail without touching the destination.
\<close>

section \<open>Buffers\<close>

definition fresh :: "nat \<Rightarrow> sqli_decimal \<Rightarrow> bool" where
  "fresh n t \<longleftrightarrow> n \<le> d_capacity t \<and> (d_inline t \<longrightarrow> d_capacity t = decimal_inline_limbs) \<and>
     (\<exists>c b. t = decimal_init\<lparr>d_capacity := c, d_inline := b\<rparr>)"

lemma reserve_init_OK:
  assumes "decimal_reserve mem decimal_init n = (SQLI_OK, t)"
  shows "fresh n t"
  using assms
  by (auto simp: decimal_reserve_def fresh_def decimal_init_def split: if_splits)

lemma reserve_total:
  assumes "n \<le> decimal_max_limbs" "\<forall>k. mem k"
  shows "\<exists>t. decimal_reserve mem decimal_init n = (SQLI_OK, t)"
  using assms by (auto simp: decimal_reserve_def decimal_consts)

lemma decimal_move_fst [simp]:
  "(d_inline s \<longrightarrow> d_capacity s = decimal_inline_limbs) \<Longrightarrow> fst (decimal_move d s) = s"
  by (cases s; cases d) (auto simp: decimal_move_def Let_def)

text \<open>A value built in a fresh temporary from normalised limbs is well-formed.\<close>

lemma built_wf [inv_intros]:
  assumes "fresh n t" "length ls \<le> n" "limbs_ok ls" "in_i32 s"
    and "limbs_digits ls \<le> SQLI_DECIMAL_MAX_DIGITS" "ls = [] \<longrightarrow> \<not> neg"
  shows "decimal_wf (t\<lparr>d_limbs := ls, d_scale := s, d_negative := neg, d_is_null := False\<rparr>)"
  using assms
  by (auto simp: decimal_wf_def fresh_def limbs_ok_def decimal_digits_limbs limbs_digits_def)

section \<open>Importing parts\<close>

definition parts_limbs :: "sqli_decimal_parts \<Rightarrow> nat list" where
  "parts_limbs p = (case p_limbs p of None \<Rightarrow> [] | Some ls \<Rightarrow> take (p_limb_count p) ls)"

lemma import_parts_OK:
  assumes "import_parts mem p v = (SQLI_OK, w)" "in_i32 (p_scale p)"
  shows "decimal_wf w" and "decimal_coeff w = le_value limb_base (parts_limbs p)"
    and "d_scale w = p_scale p" and "\<not> d_is_null w"
    and "d_negative w \<longleftrightarrow> p_negative p \<and> decimal_coeff w \<noteq> 0"
proof -
  let ?u = "strip_while (\<lambda>l. l = 0) (parts_limbs p)"
  obtain t where ok: "digits_ok limb_base (parts_limbs p)"
    and t: "decimal_reserve mem decimal_init (length ?u) = (SQLI_OK, t)"
    and dig: "limbs_digits ?u \<le> SQLI_DECIMAL_MAX_DIGITS"
    and w: "w = fst (decimal_move v (t\<lparr>d_limbs := ?u, d_scale := p_scale p,
              d_negative := (?u \<noteq> [] \<and> p_negative p), d_is_null := False\<rparr>))"
    using assms(1)
    by (auto simp: import_parts_def parts_limbs_def [symmetric] Let_def decimal_digits_limbs
        digits_ok_def not_le split: if_splits prod.splits)
  have f: "fresh (length ?u) t" by (rule reserve_init_OK [OF t])
  then have w': "w = t\<lparr>d_limbs := ?u, d_scale := p_scale p,
      d_negative := (?u \<noteq> [] \<and> p_negative p), d_is_null := False\<rparr>"
    unfolding w by (intro decimal_move_fst) (simp add: fresh_def)
  show "decimal_wf w" unfolding w'
    by (rule built_wf [OF f _ _ assms(2) dig]) (use ok in auto)
  show c: "decimal_coeff w = le_value limb_base (parts_limbs p)"
    by (simp add: w' decimal_coeff_def)
  show "d_scale w = p_scale p" "\<not> d_is_null w" by (simp_all add: w')
  show "d_negative w \<longleftrightarrow> p_negative p \<and> decimal_coeff w \<noteq> 0"
    using limbs_ok_zero_iff [of ?u] limbs_ok_strip [OF ok]
    by (auto simp: w' decimal_coeff_def)
qed

lemma import_parts_fail: "import_parts mem p v = (st, w) \<Longrightarrow> st \<noteq> SQLI_OK \<Longrightarrow> w = v"
  by (auto simp: import_parts_def Let_def split: if_splits prod.splits)

lemma import_parts_status:
  assumes "\<forall>k. mem k"
  shows "fst (import_parts mem p v) =
    (if p_limb_count p > decimal_max_limbs then SQLI_LIMIT_EXCEEDED
     else if p_limb_count p \<noteq> 0 \<and> p_limbs p = None then SQLI_INVALID_ARGUMENT
     else if \<not> digits_ok limb_base (parts_limbs p) then SQLI_INVALID_ARGUMENT
     else if dec_len (le_value limb_base (parts_limbs p)) > SQLI_DECIMAL_MAX_DIGITS
       then SQLI_LIMIT_EXCEEDED
     else SQLI_OK)"
proof (cases "p_limb_count p > decimal_max_limbs \<or> (p_limb_count p \<noteq> 0 \<and> p_limbs p = None) \<or>
    \<not> digits_ok limb_base (parts_limbs p)")
  case True
  then show ?thesis
    by (auto simp: import_parts_def parts_limbs_def digits_ok_def Let_def not_le)
next
  case False
  let ?u = "strip_while (\<lambda>l. l = 0) (parts_limbs p)"
  have ok: "limbs_ok ?u" using False by simp
  have "length (parts_limbs p) \<le> p_limb_count p"
    by (simp add: parts_limbs_def split: option.split)
  then have "length ?u \<le> decimal_max_limbs"
    using length_strip_le [of "\<lambda>l. l = 0" "parts_limbs p"] False by linarith
  then obtain t where t: "decimal_reserve mem decimal_init (length ?u) = (SQLI_OK, t)"
    using reserve_total assms by blast
  have "limbs_digits ?u = dec_len (le_value limb_base (parts_limbs p))"
    using limbs_digits_eq [OF ok] by simp
  then show ?thesis using False t
    by (auto simp: import_parts_def parts_limbs_def [symmetric] digits_ok_def Let_def
        decimal_digits_limbs not_le)
qed

section \<open>64-bit coefficients\<close>

lemma limbs_of_magnitude_props:
  "digits_ok limb_base (limbs_of_magnitude m) \<and> le_value limb_base (limbs_of_magnitude m) = m"
proof (induction m rule: limbs_of_magnitude.induct)
  case (1 m)
  then show ?case
    by (subst (1 2) limbs_of_magnitude.simps) (auto simp: decimal_consts u32_id)
qed

lemma limbs_of_magnitude_length: "m < limb_base ^ k \<Longrightarrow> length (limbs_of_magnitude m) \<le> k"
proof (induction k arbitrary: m)
  case 0
  then show ?case by (simp add: limbs_of_magnitude.simps [of 0])
next
  case (Suc k)
  then have "m div 1000000000 < limb_base ^ k"
    by (simp add: decimal_consts less_mult_imp_div_less mult.commute)
  then show ?case using Suc.IH by (subst limbs_of_magnitude.simps) simp
qed

lemma decimal_value_of_int: "decimal_value w = of_int (decimal_int w) * 10 powi (- d_scale w)"
  by (simp add: decimal_value_def)

text \<open>
  Setting a 64-bit coefficient and a scale succeeds when memory is available, gives a
  well-formed value equal to \<open>c * 10^(-s)\<close>, and at scale zero the conversion back
  returns the same integer, INT64_MIN included.
\<close>

theorem sqli_decimal_set_i64_round_trip:
  assumes "\<forall>k. mem k" "in_i64 c" "in_i32 s"
  shows "\<exists>w. sqli_decimal_set_i64 mem (Some v) c s = (SQLI_OK, Some w) \<and> decimal_wf w \<and>
    decimal_value w = of_int c * 10 powi (- s) \<and> d_scale w = s \<and>
    (s = 0 \<longrightarrow> sqli_decimal_to_i64 (Some w) = Inr c)"
proof -
  define m where "m = (if c < 0 then u64 (nat (- (c + 1)) + 1) else nat c)"
  define p where "p = \<lparr>p_limbs = Some (limbs_of_magnitude m),
      p_limb_count = length (limbs_of_magnitude m), p_scale = s, p_negative = (c < 0),
      p_is_null = False\<rparr>"
  have m: "m = nat \<bar>c\<bar>" using assms(2) by (auto simp: m_def in_i64_def u64_id)
  have small: "m < limb_base ^ 4" using assms(2) m by (auto simp: in_i64_def decimal_consts)
  have "m < 10 ^ 20" using assms(2) m by (auto simp: in_i64_def)
  then have "dec_len m \<le> 20"
    by (rule dec_len_le) simp
  then have "fst (import_parts mem p v) = SQLI_OK"
    using import_parts_status [OF assms(1), of p v] limbs_of_magnitude_props [of m]
      limbs_of_magnitude_length [OF small]
    by (auto simp: p_def parts_limbs_def decimal_consts)
  then obtain w where w: "import_parts mem p v = (SQLI_OK, w)"
    by (metis prod.collapse)
  have s: "in_i32 (p_scale p)" using assms(3) by (simp add: p_def)
  note W = import_parts_OK [OF w s]
  have coeff: "decimal_coeff w = m"
    using W(2) limbs_of_magnitude_props [of m] by (simp add: p_def parts_limbs_def)
  have "decimal_int w = c"
    using W(5) coeff m by (auto simp: decimal_int_def p_def)
  then have val: "decimal_value w = of_int c * 10 powi (- s)"
    using W(3) by (simp add: decimal_value_def p_def)
  have "sqli_decimal_set_i64 mem (Some v) c s = (SQLI_OK, Some w)"
    using w by (simp add: sqli_decimal_set_i64_def sqli_decimal_set_parts_def Let_def
        m_def [symmetric] p_def)
  moreover have "sqli_decimal_to_i64 (Some w) = Inr c" if "s = 0"
    using sqli_decimal_to_i64_correct [OF W(1,4)] val that assms(2) by simp
  ultimately show ?thesis using W(1,3) val by (auto simp: p_def)
qed

section \<open>Multiplying and dividing by a power of ten\<close>

lemma multiply_loop_value:
  assumes "digits_ok limb_base ls" "digits_ok limb_base out" "pos + length ls \<le> length out"
    and "factor \<le> 10 ^ 8" "carry < limb_base" "\<forall>i \<ge> pos. i < length out \<longrightarrow> out ! i = 0"
    and "multiply_loop factor pos out carry ls = (out', carry')"
  shows "le_value limb_base out' + carry' * limb_base ^ (pos + length ls) =
      le_value limb_base out + limb_base ^ pos * (factor * le_value limb_base ls + carry) \<and>
    digits_ok limb_base out' \<and> length out' = length out \<and> carry' < limb_base \<and>
    (\<forall>i \<ge> pos + length ls. i < length out \<longrightarrow> out' ! i = 0)"
  using assms
proof (induction ls arbitrary: pos out carry)
  case Nil
  then show ?case by (simp add: algebra_simps)
next
  case (Cons l ls)
  let ?p = "l * factor + carry"
  have l: "l < limb_base" and pos: "pos < length out" and z: "out ! pos = 0"
    using Cons.prems by auto
  have "l * factor \<le> limb_base * 10 ^ 8" using l Cons.prems(4) by (intro mult_le_mono) simp_all
  then have bounds: "l * factor < 2 ^ 64" "?p < 2 ^ 64" "?p div limb_base < limb_base"
    using Cons.prems(5) by (auto simp: decimal_consts less_mult_imp_div_less)
  have product: "u64 (u64 (l * factor) + carry) = ?p" using bounds by (simp add: u64_id)
  have limb: "u32 (?p mod limb_base) = ?p mod limb_base"
    by (rule u32_id) (simp add: decimal_consts less_trans [OF mod_less_divisor])
  let ?o = "out[pos := ?p mod limb_base]"
  have run: "multiply_loop factor (Suc pos) ?o (?p div limb_base) ls = (out', carry')"
    using Cons.prems(7) by (simp add: product limb Let_def)
  have upd: "le_value limb_base ?o = le_value limb_base out + ?p mod limb_base * limb_base ^ pos"
    using le_value_update [OF pos, of limb_base "?p mod limb_base"] z by simp
  have "le_value limb_base out' + carry' * limb_base ^ (Suc pos + length ls) =
      le_value limb_base ?o + limb_base ^ Suc pos * (factor * le_value limb_base ls + ?p div limb_base)
      \<and> digits_ok limb_base out' \<and> length out' = length ?o \<and> carry' < limb_base \<and>
      (\<forall>i \<ge> Suc pos + length ls. i < length ?o \<longrightarrow> out' ! i = 0)"
    by (rule Cons.IH) (use Cons.prems bounds run in auto)
  moreover have "?p mod limb_base * limb_base ^ pos + limb_base ^ Suc pos * (?p div limb_base) =
      limb_base ^ pos * ?p"
  proof -
    have "limb_base ^ pos * ?p = limb_base ^ pos * (?p mod limb_base + limb_base * (?p div limb_base))"
      by simp
    then show ?thesis by (simp only: power_Suc distrib_left mult.assoc mult.commute mult.left_commute)
  qed
  ultimately show ?case unfolding upd by (simp add: algebra_simps)
qed

lemma powers_of_ten_le: "k < limb_digits \<Longrightarrow> powers_of_ten ! k \<le> 10 ^ 8"
  unfolding powers_of_ten_nth by (rule power_increasing) (simp_all add: decimal_consts)

lemma limb_power: "limb_base ^ (k div limb_digits) * 10 ^ (k mod limb_digits) = 10 ^ k"
  by (simp only: limb_base_eq power_mult [symmetric] power_add [symmetric] mult_div_mod_eq)

lemma multiply_power_OK:
  assumes wf: "decimal_wf v" and ne: "d_limbs v \<noteq> []" and pow: "0 \<le> pow"
    and run: "decimal_multiply_power mem decimal_init v pow = (SQLI_OK, t')"
  shows "\<exists>t n. fresh n t \<and> t' = t\<lparr>d_limbs := d_limbs t'\<rparr> \<and> length (d_limbs t') = n \<and>
    digits_ok limb_base (d_limbs t') \<and>
    le_value limb_base (d_limbs t') = decimal_coeff v * 10 ^ nat pow \<and>
    decimal_digits v + nat pow \<le> SQLI_DECIMAL_MAX_DIGITS"
proof -
  let ?n = "decimal_digits v" and ?k = "nat pow" and ?ls = "d_limbs v"
  define count where "count = (?n + ?k + limb_digits - 1) div limb_digits"
  define shift where "shift = ?k div limb_digits"
  define factor where "factor = powers_of_ten ! (?k mod limb_digits)"
  obtain limbs carry where loop: "multiply_loop factor shift (replicate count 0) 0 ?ls = (limbs, carry)"
    by fastforce
  obtain t where t: "decimal_reserve mem decimal_init count = (SQLI_OK, t)"
    and small: "?n + ?k \<le> SQLI_DECIMAL_MAX_DIGITS"
    and t': "t' = t\<lparr>d_limbs := if carry \<noteq> 0 then limbs[length ?ls + shift := u32 carry] else limbs\<rparr>"
    using run loop pow unfolding decimal_multiply_power_def Let_def
    by (auto simp: count_def shift_def factor_def split: if_splits prod.splits)
  have ok: "digits_ok limb_base ?ls" using wf by (simp add: decimal_wf_def)
  have factor: "factor = 10 ^ (?k mod limb_digits)"
    unfolding factor_def by (rule powers_of_ten_nth) simp
  have len: "(length ?ls - 1) * limb_digits < ?n"
    using ne by (simp add: decimal_digits_def)
  have "(length ?ls - 1 + shift) * limb_digits < ?n + ?k"
    using len div_times_less_eq_dividend [of ?k limb_digits]
    unfolding shift_def add_mult_distrib by linarith
  then have room: "shift + length ?ls \<le> count"
    using ne unfolding count_def
    by (cases ?ls) (auto simp: less_eq_div_iff_mult_less_eq algebra_simps decimal_consts)
  have L: "le_value limb_base limbs + carry * limb_base ^ (shift + length ?ls) =
      limb_base ^ shift * (factor * decimal_coeff v)"
    "digits_ok limb_base limbs" "length limbs = count" "carry < limb_base"
    "\<forall>i \<ge> shift + length ?ls. i < count \<longrightarrow> limbs ! i = 0"
    using multiply_loop_value [OF ok _ _ _ _ _ loop] room powers_of_ten_le [of "?k mod limb_digits"]
    by (auto simp: decimal_coeff_def factor_def)
  have total: "limb_base ^ shift * (factor * decimal_coeff v) = decimal_coeff v * 10 ^ ?k"
    using limb_power [of ?k] by (simp add: factor shift_def algebra_simps)
  have "decimal_coeff v * 10 ^ ?k < 10 ^ (?n + ?k)"
    using coeff_bounds(1) [OF wf] by (simp add: power_add)
  also have "\<dots> \<le> 10 ^ (limb_digits * count)"
    by (rule power_increasing) (simp_all add: count_def decimal_consts)
  also have "\<dots> = limb_base ^ count" by (simp only: limb_base_eq power_mult)
  finally have fits: "decimal_coeff v * 10 ^ ?k < limb_base ^ count" .
  have carry: "u32 carry = carry" using L(4) by (simp add: u32_id decimal_consts)
  have "le_value limb_base (d_limbs t') = decimal_coeff v * 10 ^ ?k"
  proof (cases "carry = 0")
    case True
    then show ?thesis using L(1) total t' by simp
  next
    case False
    then have "limb_base ^ (shift + length ?ls) \<le> carry * limb_base ^ (shift + length ?ls)" by simp
    also have "\<dots> < limb_base ^ count" using L(1) total fits by linarith
    finally have "shift + length ?ls < count"
      by (rule power_less_imp_less_exp [rotated]) (simp add: decimal_consts)
    then show ?thesis
      using L total t' False carry le_value_update [of "shift + length ?ls" limbs limb_base carry]
      by (simp add: add.commute)
  qed
  moreover have "digits_ok limb_base (d_limbs t')" "length (d_limbs t') = count"
    using t' L carry by auto
  ultimately show ?thesis using reserve_init_OK [OF t] t' small by (intro exI [of _ t] exI [of _ count]) auto
qed

lemma divide_loop_value:
  assumes "digits_ok limb_base ls" "r < divisor" "0 < divisor" "divisor \<le> 10 ^ 8"
  shows "le_value limb_base (divide_loop divisor r acc ls) =
      (r * limb_base ^ length ls + be_value limb_base ls) div divisor +
      limb_base ^ length ls * le_value limb_base acc"
    and "digits_ok limb_base acc \<Longrightarrow> digits_ok limb_base (divide_loop divisor r acc ls)"
    and "length (divide_loop divisor r acc ls) = length acc + length ls"
proof -
  have "le_value limb_base (divide_loop divisor r acc ls) =
      (r * limb_base ^ length ls + be_value limb_base ls) div divisor +
      limb_base ^ length ls * le_value limb_base acc \<and>
    (digits_ok limb_base acc \<longrightarrow> digits_ok limb_base (divide_loop divisor r acc ls)) \<and>
    length (divide_loop divisor r acc ls) = length acc + length ls"
    using assms(1,2)
  proof (induction ls arbitrary: r acc)
    case (Cons l ls)
    let ?x = "r * limb_base + l" and ?B = "limb_base ^ length ls" and ?V = "be_value limb_base ls"
    have "Suc r * limb_base \<le> divisor * limb_base" using Cons.prems(2) by (intro mult_le_mono1) simp
    then have x: "?x < divisor * limb_base" using Cons.prems(1) by simp
    also have "\<dots> \<le> 10 ^ 8 * limb_base" using assms(4) by (rule mult_le_mono1)
    finally have "?x < 2 ^ 64" by (simp add: decimal_consts)
    then have dividend: "u64 (u64 (r * limb_base) + l) = ?x" by (simp add: u64_id)
    have q: "?x div divisor < limb_base" using x by (simp add: less_mult_imp_div_less mult.commute)
    then have quot: "u32 (?x div divisor) = ?x div divisor" by (simp add: u32_id decimal_consts)
    have r': "?x mod divisor < divisor" using assms(3) by simp
    have "r * limb_base ^ length (l # ls) + be_value limb_base (l # ls) = ?x * ?B + ?V"
      by (simp add: be_value_Cons algebra_simps)
    also have "\<dots> = divisor * (?x div divisor * ?B) + (?x mod divisor * ?B + ?V)"
      by (metis add.assoc add_mult_distrib mult.assoc mult_div_mod_eq)
    finally have "(r * limb_base ^ length (l # ls) + be_value limb_base (l # ls)) div divisor =
        ?x div divisor * ?B + (?x mod divisor * ?B + ?V) div divisor"
      using assms(3) by simp
    moreover have "divide_loop divisor r acc (l # ls) =
        divide_loop divisor (?x mod divisor) (?x div divisor # acc) ls"
      by (simp add: dividend quot Let_def)
    moreover have "digits_ok limb_base ls" using Cons.prems by simp
    note Cons.IH [OF this r', of "?x div divisor # acc"]
    ultimately show ?case using q by (simp add: algebra_simps)
  qed simp
  then show "le_value limb_base (divide_loop divisor r acc ls) =
      (r * limb_base ^ length ls + be_value limb_base ls) div divisor +
      limb_base ^ length ls * le_value limb_base acc"
    and "digits_ok limb_base acc \<Longrightarrow> digits_ok limb_base (divide_loop divisor r acc ls)"
    and "length (divide_loop divisor r acc ls) = length acc + length ls" by auto
qed

lemma divide_exact_iff:
  assumes ok: "digits_ok limb_base ls" and shift: "shift < length ls"
    and k: "k dvd limb_base"
  shows "(\<forall>i \<in> set [0..<shift]. ls ! i = 0) \<and> ls ! shift mod k = 0 \<longleftrightarrow>
    limb_base ^ shift * k dvd le_value limb_base ls"
proof -
  let ?B = "limb_base ^ shift" and ?c = "le_value limb_base ls"
  have low: "(\<forall>i \<in> set [0..<shift]. ls ! i = 0) \<longleftrightarrow> ?B dvd ?c"
  proof -
    have "?c mod ?B = le_value limb_base (take shift ls)"
      using le_value_div(2) [OF ok] shift by simp
    moreover have "(\<forall>x \<in> set (take shift ls). x = 0) \<longleftrightarrow> (\<forall>i \<in> set [0..<shift]. ls ! i = 0)"
      using shift by (auto simp: set_conv_nth)
    ultimately show ?thesis by (simp add: dvd_eq_mod_eq_0 le_value_eq_0)
  qed
  have "?c div ?B = ls ! shift + limb_base * le_value limb_base (drop (Suc shift) ls)"
    using le_value_div(1) [OF ok] shift by (simp add: Cons_nth_drop_Suc [symmetric])
  then have high: "ls ! shift mod k = 0 \<longleftrightarrow> k dvd ?c div ?B"
    using k by (simp add: dvd_eq_mod_eq_0 [symmetric] dvd_add_left_iff)
  have "?B dvd ?c \<and> k dvd ?c div ?B \<longleftrightarrow> ?B * k dvd ?c"
    by (auto simp: dvd_div_iff_mult mult.commute intro: dvd_mult_left)
  then show ?thesis by (simp only: low high)
qed

lemma divide_power_cases:
  assumes wf: "decimal_wf v" and ne: "d_limbs v \<noteq> []" and pow: "0 \<le> pow"
    and run: "decimal_divide_power mem decimal_init v pow = (st, t')"
  shows "st = SQLI_INEXACT \<longleftrightarrow> \<not> 10 ^ nat pow dvd decimal_coeff v"
    and "st = SQLI_OK \<Longrightarrow> \<exists>t n. fresh n t \<and> t' = t\<lparr>d_limbs := d_limbs t'\<rparr> \<and>
      length (d_limbs t') = n \<and> digits_ok limb_base (d_limbs t') \<and>
      le_value limb_base (d_limbs t') = decimal_coeff v div 10 ^ nat pow"
    and "\<forall>k. mem k \<Longrightarrow> st \<in> {SQLI_OK, SQLI_INEXACT}"
proof -
  let ?n = "decimal_digits v" and ?k = "nat pow" and ?ls = "d_limbs v" and ?c = "decimal_coeff v"
  define shift where "shift = ?k div limb_digits"
  define divisor where "divisor = powers_of_ten ! (?k mod limb_digits)"
  have ok: "digits_ok limb_base ?ls" using wf by (simp add: decimal_wf_def)
  have divisor: "divisor = 10 ^ (?k mod limb_digits)"
    unfolding divisor_def by (rule powers_of_ten_nth) simp
  have ten: "limb_base ^ shift * divisor = 10 ^ ?k"
    unfolding shift_def divisor by (rule limb_power)
  have dvd_base: "divisor dvd limb_base"
    unfolding divisor limb_base_eq by (rule le_imp_power_dvd) (simp add: less_imp_le)
  have too_big: "\<not> 10 ^ ?k dvd ?c" if "int ?n \<le> pow"
  proof
    assume "10 ^ ?k dvd ?c"
    then have "(10 :: nat) ^ ?k \<le> ?c" using coeff_pos [OF wf ne] by (rule dvd_imp_le)
    then have "(10 :: nat) ^ ?k < 10 ^ ?n" using coeff_bounds(1) [OF wf] by (rule le_less_trans)
    then have "?k < ?n" by (rule power_less_imp_less_exp [rotated]) simp
    then show False using that by linarith
  qed
  have fit: "shift < length ?ls" if "\<not> int ?n \<le> pow"
  proof -
    have "?k < length ?ls * limb_digits"
      using that pow limbs_digits_le [OF ok ne] unfolding decimal_digits_limbs by linarith
    then show ?thesis unfolding shift_def by (simp add: less_mult_imp_div_less)
  qed
  have "length ?ls * limb_digits < ?n + limb_digits"
    using ne by (cases ?ls) (auto simp: decimal_digits_def)
  then have "length ?ls * limb_digits < SQLI_DECIMAL_MAX_DIGITS + limb_digits"
    using wf by (auto simp: decimal_wf_def)
  then have small: "length ?ls \<le> decimal_max_limbs" by (simp add: decimal_consts)
  have exact: "(\<forall>i \<in> set [0..<shift]. ?ls ! i = 0) \<and> ?ls ! shift mod divisor = 0 \<longleftrightarrow> 10 ^ ?k dvd ?c"
    if "\<not> int ?n \<le> pow"
    using divide_exact_iff [OF ok fit [OF that] dvd_base] ten by (simp add: decimal_coeff_def)
  obtain u where u: "decimal_reserve mem decimal_init (length ?ls - shift) = u" by blast
  have st: "(st, t') =
      (if int ?n \<le> pow \<or> \<not> 10 ^ ?k dvd ?c then (SQLI_INEXACT, decimal_init)
       else if fst u \<noteq> SQLI_OK then u
       else (SQLI_OK, (snd u)\<lparr>d_limbs := divide_loop divisor 0 [] (rev (drop shift ?ls))\<rparr>))"
    using run exact u unfolding decimal_divide_power_def Let_def
    by (auto simp: shift_def divisor_def split: prod.splits if_splits)
  have u_st: "fst u \<in> {SQLI_OK, SQLI_LIMIT_EXCEEDED, SQLI_ALLOC_FAIL}"
    using u by (auto simp: decimal_reserve_def split: if_splits)
  show "st = SQLI_INEXACT \<longleftrightarrow> \<not> 10 ^ ?k dvd ?c"
    using st too_big u_st by (auto split: if_splits)
  show "st \<in> {SQLI_OK, SQLI_INEXACT}" if "\<forall>k. mem k"
  proof -
    have "length ?ls - shift \<le> decimal_max_limbs" using small by simp
    then have "fst u = SQLI_OK" using reserve_total [OF _ that] u by (metis fst_conv)
    then show ?thesis using st by (auto split: if_splits)
  qed
  show "\<exists>t n. fresh n t \<and> t' = t\<lparr>d_limbs := d_limbs t'\<rparr> \<and> length (d_limbs t') = n \<and>
      digits_ok limb_base (d_limbs t') \<and>
      le_value limb_base (d_limbs t') = decimal_coeff v div 10 ^ ?k" if OK: "st = SQLI_OK"
  proof -
    let ?r = "rev (drop shift ?ls)"
    have t': "t' = (snd u)\<lparr>d_limbs := divide_loop divisor 0 [] ?r\<rparr>" and "fst u = SQLI_OK"
      and fine: "\<not> int ?n \<le> pow"
      using st OK by (auto split: if_splits)
    then have f: "fresh (length ?ls - shift) (snd u)"
      using u reserve_init_OK by (metis prod.collapse)
    have "digits_ok limb_base ?r" "0 < divisor" "divisor \<le> 10 ^ 8"
      using ok powers_of_ten_le [of "?k mod limb_digits"] by (simp_all add: divisor_def [symmetric]) (simp add: divisor)
    note L = divide_loop_value [OF this(1) this(2) this(2) this(3), of "[]"]
    have "le_value limb_base (d_limbs t') = le_value limb_base (drop shift ?ls) div divisor"
      using L(1) t' by (simp add: be_value_def)
    also have "\<dots> = ?c div limb_base ^ shift div divisor"
      using le_value_div(1) [OF ok] fit [OF fine] by (simp add: decimal_coeff_def)
    also have "\<dots> = ?c div 10 ^ ?k" by (simp only: div_mult2_eq [symmetric] ten)
    finally show ?thesis using f t' L(2,3) by (intro exI [of _ "snd u"]) auto
  qed
qed

text \<open>What the trimmed and moved temporary of a successful rescaling is.\<close>

lemma finish_rescale:
  assumes f: "fresh n t" and t': "t' = t\<lparr>d_limbs := ls\<rparr>" and ls: "length ls = n" "digits_ok limb_base ls"
    and s: "in_i32 s" and val: "le_value limb_base ls = c" "0 < c" "dec_len c \<le> SQLI_DECIMAL_MAX_DIGITS"
  shows "\<exists>w. fst (decimal_move v (decimal_trim (t'\<lparr>d_is_null := False, d_negative := neg, d_scale := s\<rparr>))) = w
    \<and> decimal_wf w \<and> \<not> d_is_null w \<and> d_scale w = s \<and> decimal_coeff w = c \<and> d_negative w = neg"
proof -
  let ?u = "strip_while (\<lambda>l. l = 0) ls"
  let ?w = "t\<lparr>d_limbs := ?u, d_scale := s, d_negative := neg, d_is_null := False\<rparr>"
  have u: "limbs_ok ?u" "le_value limb_base ?u = c" using ls val by simp_all
  then have ne: "?u \<noteq> []" using val(2) by (metis le_value.simps(1) less_numeral_extra(3))
  have "decimal_trim (t'\<lparr>d_is_null := False, d_negative := neg, d_scale := s\<rparr>) = ?w"
    using ne by (cases t) (simp add: decimal_trim_def t' Let_def)
  moreover have "decimal_wf ?w"
    by (rule built_wf [OF f])
      (use u ls s val ne length_strip_le [of "\<lambda>l. l = 0" ls] limbs_digits_eq [OF u(1)] in auto)
  moreover have "decimal_coeff ?w = c" using u by (simp add: decimal_coeff_def)
  ultimately show ?thesis using f by (simp add: fresh_def)
qed

lemma decimal_value_shift:
  "decimal_value v * 10 powi s = of_int (decimal_int v) * 10 powi (s - d_scale v)"
  using powi_mult [of "- d_scale v" s] by (simp add: decimal_value_def mult.assoc)

lemma rescale_integral_up:
  "d_scale v \<le> s \<Longrightarrow> decimal_value v * 10 powi s \<in> \<int>"
  unfolding decimal_value_shift by (simp add: power_int_def)

lemma rescale_integral_down:
  assumes "s < d_scale v"
  shows "decimal_value v * 10 powi s \<in> \<int> \<longleftrightarrow> 10 ^ nat (d_scale v - s) dvd decimal_coeff v"
proof -
  let ?k = "nat (d_scale v - s)"
  have eq: "decimal_value v * 10 powi s = of_int (decimal_int v) / of_nat (10 ^ ?k)"
  proof -
    have "s - d_scale v = - int ?k" using assms by simp
    then show ?thesis
      unfolding decimal_value_shift by (simp only: power_int_minus power_int_of_nat) (simp add: divide_inverse)
  qed
  have "of_int (decimal_int v) / (of_nat (10 ^ ?k) :: rat) \<in> \<int> \<longleftrightarrow> int (10 ^ ?k) dvd decimal_int v"
  proof
    assume "of_int (decimal_int v) / (of_nat (10 ^ ?k) :: rat) \<in> \<int>"
    then obtain z where "of_int (decimal_int v) / (of_nat (10 ^ ?k) :: rat) = of_int z"
      by (auto elim: Ints_cases)
    then have "(of_int (decimal_int v) :: rat) = of_int (z * int (10 ^ ?k))" by (simp add: field_simps)
    then have "decimal_int v = z * int (10 ^ ?k)" by (simp only: of_int_eq_iff)
    then show "int (10 ^ ?k) dvd decimal_int v" by simp
  qed (auto elim!: dvdE)
  also have "\<dots> \<longleftrightarrow> 10 ^ ?k dvd decimal_coeff v"
    by (simp only: decimal_int_def int_dvd_int_iff dvd_minus_iff split: if_split) simp
  finally show ?thesis unfolding eq .
qed

lemma rescale_value_same:
  assumes "decimal_coeff w * 10 ^ a = decimal_coeff v * 10 ^ b" "d_negative w = d_negative v"
    and "d_scale w + int a = d_scale v + int b"
  shows "decimal_value w = decimal_value v"
proof -
  have shifted: "decimal_value x = of_int (decimal_int x * 10 ^ k) * 10 powi (- (d_scale x + int k))" for x k
    using powi_mult [of "int k" "- (d_scale x + int k)"]
    by (simp add: decimal_value_def mult.assoc)
  have "int (decimal_coeff w * 10 ^ a) = int (decimal_coeff v * 10 ^ b)" using assms(1) by simp
  then have "decimal_int w * 10 ^ a = decimal_int v * 10 ^ b"
    using assms(2) by (simp add: decimal_int_def)
  then show ?thesis using shifted [of w a] shifted [of v b] assms(3) by simp
qed

text \<open>
  C22. Exact rescaling of a well-formed value that is not NULL either succeeds with the same
  rational value at the requested scale, well-formed again, or leaves the value as it was;
  it reports SQLI_INEXACT exactly when the value has nonzero digits below the new scale,
  and with memory available it fails otherwise only by exceeding the digit ceiling.
\<close>

theorem sqli_decimal_rescale_exact_correct:
  assumes wf: "decimal_wf v" and nn: "\<not> d_is_null v" and s: "in_i32 s"
    and run: "sqli_decimal_rescale_exact mem (Some v) s = (st, Some w)"
  shows "(if st = SQLI_OK
      then decimal_wf w \<and> \<not> d_is_null w \<and> d_scale w = s \<and> decimal_value w = decimal_value v
      else w = v) \<and>
    (st = SQLI_INEXACT \<longleftrightarrow> decimal_value v * 10 powi s \<notin> \<int>) \<and>
    ((\<forall>k. mem k) \<longrightarrow> st \<in> {SQLI_OK, SQLI_INEXACT, SQLI_LIMIT_EXCEEDED})"
proof -
  have run': "rescale_value mem s v = (st, w)"
    using run by (simp add: sqli_decimal_rescale_exact_def) (metis prod.collapse)
  consider (same) "d_scale v = s" | (zero) "d_scale v \<noteq> s" "d_limbs v = []"
    | (up) "d_scale v < s" "d_limbs v \<noteq> []" | (down) "s < d_scale v" "d_limbs v \<noteq> []"
    by linarith
  then show ?thesis
  proof cases
    case same
    then show ?thesis using run' wf nn rescale_integral_up [of v s] by (auto simp: rescale_value_def)
  next
    case zero
    then have "w = v\<lparr>d_scale := s\<rparr>" "st = SQLI_OK" using run' nn by (auto simp: rescale_value_def)
    moreover have "decimal_int v = 0" using zero by (simp add: decimal_int_def decimal_coeff_def)
    ultimately show ?thesis using wf nn s zero
      by (auto simp: decimal_wf_def decimal_value_def decimal_int_def decimal_coeff_def
          decimal_digits_def)
  next
    case up
    obtain t' where r: "decimal_multiply_power mem decimal_init v (s - d_scale v) = (st, t')"
      and w: "w = (if st = SQLI_OK then fst (decimal_move v (decimal_trim (t'\<lparr>d_is_null := False,
          d_negative := d_negative v, d_scale := s\<rparr>))) else v)"
      using run' nn up by (auto simp: rescale_value_def Let_def split: prod.splits if_splits)
    let ?k = "nat (s - d_scale v)"
    have "decimal_wf w \<and> \<not> d_is_null w \<and> d_scale w = s \<and> decimal_value w = decimal_value v"
      if OK: "st = SQLI_OK"
    proof -
      have pow: "0 \<le> s - d_scale v" using up by simp
      obtain t n where T: "fresh n t" "t' = t\<lparr>d_limbs := d_limbs t'\<rparr>" "length (d_limbs t') = n"
        "digits_ok limb_base (d_limbs t')" "le_value limb_base (d_limbs t') = decimal_coeff v * 10 ^ ?k"
        "decimal_digits v + ?k \<le> SQLI_DECIMAL_MAX_DIGITS"
        using multiply_power_OK [OF wf up(2) pow] r OK by blast
      have c: "0 < decimal_coeff v" by (rule coeff_pos [OF wf up(2)])
      have "dec_len (decimal_coeff v * 10 ^ ?k) \<le> SQLI_DECIMAL_MAX_DIGITS"
        using T(6) wf c by (simp add: dec_len_mult_power)
      then have fin: "decimal_wf w \<and> \<not> d_is_null w \<and> d_scale w = s \<and>
          decimal_coeff w = decimal_coeff v * 10 ^ ?k \<and> d_negative w = d_negative v"
        using finish_rescale [OF T(1-4) s T(5), of v "d_negative v"] c w OK by auto
      then show ?thesis using rescale_value_same [of w 0 v ?k] up by simp
    qed
    moreover have "st \<noteq> SQLI_INEXACT"
      using r by (auto simp: decimal_multiply_power_def decimal_reserve_def Let_def split: if_splits prod.splits)
    moreover have "st \<in> {SQLI_OK, SQLI_LIMIT_EXCEEDED}" if "\<forall>k. mem k"
      using r that by (auto simp: decimal_multiply_power_def decimal_reserve_def Let_def split: if_splits prod.splits)
    ultimately show ?thesis using w rescale_integral_up [of v s] up by auto
  next
    case down
    let ?k = "nat (d_scale v - s)"
    obtain t' where r: "decimal_divide_power mem decimal_init v (d_scale v - s) = (st, t')"
      and w: "w = (if st = SQLI_OK then fst (decimal_move v (decimal_trim (t'\<lparr>d_is_null := False,
          d_negative := d_negative v, d_scale := s\<rparr>))) else v)"
      using run' nn down by (auto simp: rescale_value_def Let_def split: prod.splits if_splits)
    have pow: "0 \<le> d_scale v - s" using down by simp
    note D = divide_power_cases [OF wf down(2) pow r]
    have "decimal_wf w \<and> \<not> d_is_null w \<and> d_scale w = s \<and> decimal_value w = decimal_value v"
      if OK: "st = SQLI_OK"
    proof -
      obtain t n where T: "fresh n t" "t' = t\<lparr>d_limbs := d_limbs t'\<rparr>" "length (d_limbs t') = n"
        "digits_ok limb_base (d_limbs t')" "le_value limb_base (d_limbs t') = decimal_coeff v div 10 ^ ?k"
        using D(2) OK by blast
      have "10 ^ ?k dvd decimal_coeff v" using D(1) OK by simp
      then obtain q where q: "decimal_coeff v = q * 10 ^ ?k" by (metis dvdE mult.commute)
      then have "0 < q" using coeff_pos [OF wf down(2)] by (cases q) auto
      then have "dec_len q \<le> SQLI_DECIMAL_MAX_DIGITS"
        using decimal_wf_digits [OF wf] q dec_len_mult_power [of q ?k] by simp
      then have fin: "decimal_wf w \<and> \<not> d_is_null w \<and> d_scale w = s \<and>
          decimal_coeff w = q \<and> d_negative w = d_negative v"
        using finish_rescale [OF T(1-4) s T(5), of v "d_negative v"] \<open>0 < q\<close> w OK q by auto
      then show ?thesis using rescale_value_same [of w ?k v 0] q down by simp
    qed
    then show ?thesis using w D(1,3) rescale_integral_down [OF down(1)] by auto
  qed
qed

theorem sqli_decimal_set_i64_round_trip_witness:
  "\<exists>w. sqli_decimal_set_i64 (\<lambda>_. True) (Some decimal_init) (- (2 ^ 63)) 0 = (SQLI_OK, Some w) \<and>
    sqli_decimal_to_i64 (Some w) = Inr (- (2 ^ 63))"
  using sqli_decimal_set_i64_round_trip [of "\<lambda>_. True" "- (2 ^ 63)" 0 decimal_init]
  by (auto simp: in_i64_def in_i32_def)

theorem sqli_decimal_rescale_exact_correct_witness:
  "\<exists>w. sqli_decimal_rescale_exact (\<lambda>_. True) (Some (small_decimal 15 1 False)) 3 = (SQLI_OK, Some w) \<and>
    decimal_wf w \<and> d_scale w = 3 \<and> decimal_value w = decimal_value (small_decimal 15 1 False)"
proof -
  have "fst (rescale_value (\<lambda>_. True) 3 (small_decimal 15 1 False)) = SQLI_OK"
    by (simp add: rescale_value_def small_decimal_def decimal_multiply_power_def decimal_digits_def
        dec_len.simps decimal_reserve_def decimal_init_def decimal_move_def Let_def decimal_consts
        split: prod.splits)
  then obtain w where "sqli_decimal_rescale_exact (\<lambda>_. True) (Some (small_decimal 15 1 False)) 3 = (SQLI_OK, Some w)"
    by (auto simp: sqli_decimal_rescale_exact_def)
  then show ?thesis
    using sqli_decimal_rescale_exact_correct [of "small_decimal 15 1 False" 3 "\<lambda>_. True" SQLI_OK w]
    by (simp add: small_decimal_wf decimal_consts in_i32_def)
qed

end
