(* ===== verification/DecimalTextFacts.thy ===== *)
theory DecimalTextFacts
  imports DecimalText DecimalRescale
begin

text \<open>
  Decimal text against a grammar of numerals: what is accepted, which value it denotes,
  and that formatting and parsing are inverse to each other.
\<close>

section \<open>Numerals\<close>

record numeral_text =
  n_sign :: string
  n_int :: string
  n_point :: bool
  n_frac :: string
  n_exp :: "(char \<times> string \<times> string) option"

abbreviation all_digits :: "string \<Rightarrow> bool" where
  "all_digits cs \<equiv> \<forall>c \<in> set cs. ascii_digit c"

definition exp_ok :: "(char \<times> string \<times> string) option \<Rightarrow> bool" where
  "exp_ok e \<longleftrightarrow> (case e of None \<Rightarrow> True
     | Some (letter, sign, ds) \<Rightarrow> letter \<in> {CHR ''e'', CHR ''E''} \<and>
         sign \<in> {'''', ''+'', ''-''} \<and> ds \<noteq> [] \<and> all_digits ds)"

definition numeral_ok :: "numeral_text \<Rightarrow> bool" where
  "numeral_ok n \<longleftrightarrow> n_sign n \<in> {'''', ''+'', ''-''} \<and> all_digits (n_int n) \<and> all_digits (n_frac n) \<and>
     (n_point n \<or> n_frac n = []) \<and> n_int n @ n_frac n \<noteq> [] \<and> exp_ok (n_exp n)"

definition render_exp :: "(char \<times> string \<times> string) option \<Rightarrow> string" where
  "render_exp e = (case e of None \<Rightarrow> [] | Some (letter, sign, ds) \<Rightarrow> letter # sign @ ds)"

definition render_mantissa :: "numeral_text \<Rightarrow> string" where
  "render_mantissa n = n_int n @ (if n_point n then CHR ''.'' # n_frac n else [])"

definition render :: "numeral_text \<Rightarrow> string" where
  "render n = n_sign n @ render_mantissa n @ render_exp (n_exp n)"

definition digits_value :: "string \<Rightarrow> nat" where
  "digits_value ds = be_value 10 (map char_digit ds)"

definition exp_value :: "(char \<times> string \<times> string) option \<Rightarrow> int" where
  "exp_value e = (case e of None \<Rightarrow> 0
     | Some (letter, sign, ds) \<Rightarrow>
         (if sign = ''-'' then - int (digits_value ds) else int (digits_value ds)))"

definition numeral_coeff :: "numeral_text \<Rightarrow> nat" where
  "numeral_coeff n = digits_value (n_int n @ n_frac n)"

definition numeral_scale :: "numeral_text \<Rightarrow> int" where
  "numeral_scale n = int (length (n_frac n)) - exp_value (n_exp n)"

definition numeral_significant :: "numeral_text \<Rightarrow> nat" where
  "numeral_significant n = length (dropWhile (\<lambda>c. c = CHR ''0'') (n_int n @ n_frac n))"

text \<open>The resource and range limits of an accepted numeral.\<close>

definition numeral_fits :: "numeral_text \<Rightarrow> bool" where
  "numeral_fits n \<longleftrightarrow> length (render n) \<le> SQLI_DECIMAL_MAX_TEXT \<and>
     numeral_significant n \<le> SQLI_DECIMAL_MAX_DIGITS \<and>
     \<bar>exp_value (n_exp n)\<bar> < 2 ^ 63 \<and> in_i32 (numeral_scale n)"

section \<open>The mantissa loop\<close>

lemma digits_ok_char_digits: "all_digits ds \<Longrightarrow> digits_ok 10 (map char_digit ds)"
  by (simp add: digits_ok_def char_digit_less)

lemma digits_value_less: "all_digits ds \<Longrightarrow> digits_value ds < 10 ^ length ds"
  using be_value_less [OF digits_ok_char_digits] by (simp add: digits_value_def)

lemma digits_value_strip: "digits_value (dropWhile (\<lambda>c. c = CHR ''0'') ds) = digits_value ds"
  by (induction ds) (auto simp: digits_value_def be_value_Cons char_digit_def)

definition sig_after :: "nat \<Rightarrow> string \<Rightarrow> nat" where
  "sig_after sig ds =
     (if sig = 0 then length (dropWhile (\<lambda>c. c = CHR ''0'') ds) else sig + length ds)"

lemma sig_after_Cons:
  "sig_after sig (c # ds) = sig_after (if c \<noteq> CHR ''0'' \<or> sig \<noteq> 0 then sig + 1 else sig) ds"
  by (simp add: sig_after_def)

lemma sig_after_append: "sig_after (sig_after sig xs) ys = sig_after sig (xs @ ys)"
  by (induction xs arbitrary: sig) (simp_all only: sig_after_Cons append_Cons, simp add: sig_after_def)

lemma ascii_digit_not [simp]:
  "ascii_digit c \<Longrightarrow> c \<noteq> CHR ''.'' \<and> c \<noteq> CHR ''e'' \<and> c \<noteq> CHR ''E'' \<and> c \<noteq> CHR ''+'' \<and> c \<noteq> CHR ''-''"
  by (metis not_ascii_digit_simps(1-5))

lemma scan_mantissa_digits:
  assumes "all_digits ds"
  shows "scan_mantissa s (ds @ r) =
    scan_mantissa (s\<lparr>s_digits := s_digits s + length ds,
      s_significant := sig_after (s_significant s) ds,
      s_fractional := (if s_point s then s_fractional s + length ds else s_fractional s)\<rparr>) r"
  using assms
proof (induction ds arbitrary: s)
  case Nil
  then show ?case by (cases s) (simp add: sig_after_def)
next
  case (Cons c ds)
  then have c: "ascii_digit c" by simp
  show ?case using Cons c ascii_digit_not [OF c] by (simp add: sig_after_Cons add.commute add.left_commute)
qed

lemma scan_mantissa_numeral:
  assumes "numeral_ok n" "r = [] \<or> hd r \<in> {CHR ''e'', CHR ''E''}"
  shows "scan_mantissa \<lparr>s_digits = 0, s_fractional = 0, s_significant = 0, s_point = False\<rparr>
      (render_mantissa n @ r) =
    Inr (\<lparr>s_digits = length (n_int n @ n_frac n), s_fractional = length (n_frac n),
          s_significant = numeral_significant n, s_point = n_point n\<rparr>, r)"
proof -
  have stop: "scan_mantissa s r = Inr (s, r)" for s
    using assms(2) by (cases r) auto
  have d: "all_digits (n_int n)" "all_digits (n_frac n)" using assms(1) by (simp_all add: numeral_ok_def)
  show ?thesis
  proof (cases "n_point n")
    case True
    then show ?thesis
      using scan_mantissa_digits [OF d(1)] scan_mantissa_digits [OF d(2)] stop
      by (simp add: render_mantissa_def numeral_significant_def sig_after_append) (simp add: sig_after_def)
  next
    case False
    then show ?thesis
      using assms(1) scan_mantissa_digits [OF d(1)] stop
      by (simp add: render_mantissa_def numeral_significant_def numeral_ok_def sig_after_def)
  qed
qed

text \<open>Conversely, what the loop accepts is a mantissa.\<close>

lemma scan_mantissa_accepts:
  "scan_mantissa s cs = Inr (s', r) \<Longrightarrow>
   (r = [] \<or> hd r \<in> {CHR ''e'', CHR ''E''}) \<and>
   (\<exists>xs p ys. all_digits xs \<and> all_digits ys \<and> (p \<or> ys = []) \<and> (s_point s \<longrightarrow> \<not> p) \<and>
     cs = xs @ (if p then CHR ''.'' # ys else []) @ r \<and>
     s_digits s' = s_digits s + length xs + length ys)"
proof (induction s cs rule: scan_mantissa.induct)
  case (1 s)
  then show ?case by (auto intro!: exI [of _ "[]"] exI [of _ False])
next
  case (2 s ch cs)
  consider "ch = CHR ''e'' \<or> ch = CHR ''E''" | "ch = CHR ''.''" "\<not> s_point s" | "ascii_digit ch"
    using "2.prems" by (auto split: if_splits)
  then show ?case
  proof cases
    case 1
    then show ?thesis using "2.prems" by (auto intro!: exI [of _ "[]"] exI [of _ False])
  next
    case dot: 2
    then have "scan_mantissa (s\<lparr>s_point := True\<rparr>) cs = Inr (s', r)" using "2.prems" by simp
    with "2.IH"(1) dot obtain xs p ys where *: "r = [] \<or> hd r \<in> {CHR ''e'', CHR ''E''}"
      "all_digits xs" "all_digits ys" "p \<or> ys = []" "\<not> p"
      "cs = xs @ (if p then CHR ''.'' # ys else []) @ r" "s_digits s' = s_digits s + length xs + length ys"
      by auto
    then show ?thesis using dot
      by (intro conjI exI [of _ "[]"] exI [of _ True] exI [of _ xs]) auto
  next
    case 3
    note not = ascii_digit_not [OF 3]
    obtain t where t: "scan_mantissa t cs = Inr (s', r)" "s_digits t = s_digits s + 1" "s_point t = s_point s"
      and t_def: "t = s\<lparr>s_digits := s_digits s + 1,
           s_significant := (if ch \<noteq> CHR ''0'' \<or> s_significant s \<noteq> 0
                             then s_significant s + 1 else s_significant s),
           s_fractional := (if s_point s then s_fractional s + 1 else s_fractional s)\<rparr>"
      using "2.prems" 3 not by auto
    with "2.IH"(2) 3 not obtain xs p ys where *: "r = [] \<or> hd r \<in> {CHR ''e'', CHR ''E''}"
      "all_digits xs" "all_digits ys" "p \<or> ys = []" "s_point s \<longrightarrow> \<not> p"
      "cs = xs @ (if p then CHR ''.'' # ys else []) @ r" "s_digits s' = s_digits t + length xs + length ys"
      by auto
    then show ?thesis using 3 t
      by (intro conjI exI [of _ "ch # xs"] exI [of _ p] exI [of _ ys]) auto
  qed
qed

section \<open>Filling the limbs\<close>

lemma le_value_digit_bound:
  assumes "digits_ok limb_base ls" "le_value limb_base ls < 10 ^ k" "k div limb_digits < length ls"
  shows "ls ! (k div limb_digits) < 10 ^ (k mod limb_digits)"
proof -
  let ?q = "k div limb_digits"
  have "ls ! ?q = le_value limb_base ls div limb_base ^ ?q mod limb_base"
    using le_value_digit [OF assms(1,3)] by simp
  also have "\<dots> \<le> le_value limb_base ls div limb_base ^ ?q" by simp
  also have "\<dots> < 10 ^ (k mod limb_digits)"
    using assms(2) limb_power [of k] by (simp add: less_mult_imp_div_less mult.commute)
  finally show ?thesis .
qed

lemma fill_limbs_value:
  assumes "\<forall>c \<in> set cs. c = CHR ''.'' \<or> ascii_digit c" "significant \<le> length ls * limb_digits"
    and "digits_ok limb_base ls" "le_value limb_base ls < 10 ^ offset"
  shows "le_value limb_base (fill_limbs significant ls offset cs) = le_value limb_base ls +
      10 ^ offset * le_value 10 (map char_digit (take (significant - offset) (filter (\<lambda>c. c \<noteq> CHR ''.'') cs)))
    \<and> digits_ok limb_base (fill_limbs significant ls offset cs)
    \<and> length (fill_limbs significant ls offset cs) = length ls"
  using assms
proof (induction cs arbitrary: ls offset)
  case Nil
  then show ?case by simp
next
  case (Cons c cs)
  let ?q = "offset div limb_digits" and ?r = "offset mod limb_digits" and ?d = "char_digit c"
  consider "\<not> offset < significant" | "offset < significant" "c = CHR ''.''"
    | "offset < significant" "c \<noteq> CHR ''.''" "ascii_digit c" using Cons.prems(1) by auto
  then show ?case
  proof cases
    case 1
    then show ?thesis using Cons.prems by simp
  next
    case 2
    then show ?thesis using Cons by simp
  next
    case 3
    then have q: "?q < length ls"
      using Cons.prems(2) by (simp add: less_mult_imp_div_less)
    let ?v = "ls ! ?q + ?d * 10 ^ ?r"
    let ?ls = "ls[?q := ?v]"
    have d: "?d \<le> 9" using char_digit_less [OF 3(3)] by simp
    have r: "?r < limb_digits" by simp
    have low: "ls ! ?q < 10 ^ ?r" by (rule le_value_digit_bound [OF Cons.prems(3,4) q])
    have "?d * 10 ^ ?r \<le> 9 * 10 ^ ?r" using d by (rule mult_le_mono1)
    then have "?v < 10 ^ ?r + 9 * 10 ^ ?r" using low by linarith
    then have "?v < 10 ^ Suc ?r" by simp
    also have top: "(10 :: nat) ^ Suc ?r \<le> limb_base"
      unfolding limb_base_eq using Suc_leI [OF r] by (intro power_increasing) simp_all
    finally have v: "?v < limb_base" .
    have dr: "?d * 10 ^ ?r < 2 ^ 32" using v by (simp add: decimal_consts)
    have "u32 (ls ! ?q + u32 (?d * powers_of_ten ! ?r)) = ?v"
      using v dr powers_of_ten_nth [OF r] by (simp add: u32_id decimal_consts)
    then have run: "fill_limbs significant ls offset (c # cs) = fill_limbs significant ?ls (offset + 1) cs"
      using 3 by simp
    have val: "le_value limb_base ?ls = le_value limb_base ls + ?d * 10 ^ offset"
    proof -
      have "?v * limb_base ^ ?q = ls ! ?q * limb_base ^ ?q + ?d * 10 ^ offset"
        unfolding limb_power [of offset, symmetric] by (simp add: algebra_simps)
      then show ?thesis using le_value_update [OF q, of limb_base ?v] by linarith
    qed
    have "?d * 10 ^ offset \<le> 9 * 10 ^ offset" using d by (rule mult_le_mono1)
    then have "le_value limb_base ?ls < 10 ^ offset + 9 * 10 ^ offset"
      unfolding val using Cons.prems(4) by linarith
    then have "le_value limb_base ?ls < 10 ^ (offset + 1)" by simp
    then have IH: "le_value limb_base (fill_limbs significant ?ls (offset + 1) cs) = le_value limb_base ?ls +
        10 ^ (offset + 1) * le_value 10 (map char_digit (take (significant - (offset + 1)) (filter (\<lambda>c. c \<noteq> CHR ''.'') cs)))
      \<and> digits_ok limb_base (fill_limbs significant ?ls (offset + 1) cs)
      \<and> length (fill_limbs significant ?ls (offset + 1) cs) = length ?ls"
      using Cons.prems v by (intro Cons.IH) auto
    have "significant - offset = Suc (significant - (offset + 1))" using 3(1) by simp
    then show ?thesis using IH 3(2) unfolding run val by (simp add: algebra_simps)
  qed
qed

lemma take_strip_rev:
  "take (length (dropWhile P xs)) (rev xs) = rev (dropWhile P xs)"
proof -
  have "rev xs = rev (dropWhile P xs) @ rev (takeWhile P xs)"
    by (simp flip: rev_append)
  then show ?thesis by simp
qed

lemma filter_mantissa:
  assumes "numeral_ok n"
  shows "filter (\<lambda>c. c \<noteq> CHR ''.'') (rev (render_mantissa n)) = rev (n_int n @ n_frac n)"
proof -
  have "filter (\<lambda>c. c \<noteq> CHR ''.'') ds = ds" if "all_digits ds" for ds
    using that by (simp add: filter_id_conv)
  then show ?thesis using assms by (auto simp: render_mantissa_def numeral_ok_def simp flip: rev_filter)
qed

lemma fill_limbs_numeral:
  assumes ok: "numeral_ok n" and count: "numeral_significant n \<le> count * limb_digits"
  defines "ls \<equiv> fill_limbs (numeral_significant n) (replicate count 0) 0 (rev (render_mantissa n))"
  shows "digits_ok limb_base ls" "length ls = count" "le_value limb_base ls = numeral_coeff n"
proof -
  have "\<forall>c \<in> set (rev (render_mantissa n)). c = CHR ''.'' \<or> ascii_digit c"
    using ok by (auto simp: numeral_ok_def render_mantissa_def)
  note F = fill_limbs_value [OF this, of "numeral_significant n" "replicate count 0" 0]
  have "take (numeral_significant n) (filter (\<lambda>c. c \<noteq> CHR ''.'') (rev (render_mantissa n))) =
      rev (dropWhile (\<lambda>c. c = CHR ''0'') (n_int n @ n_frac n))"
    unfolding filter_mantissa [OF ok] numeral_significant_def by (rule take_strip_rev)
  then have "le_value 10 (map char_digit (take (numeral_significant n)
      (filter (\<lambda>c. c \<noteq> CHR ''.'') (rev (render_mantissa n))))) = numeral_coeff n"
    using digits_value_strip [of "n_int n @ n_frac n"]
    by (simp add: numeral_coeff_def digits_value_def be_value_def rev_map)
  then show "digits_ok limb_base ls" "length ls = count" "le_value limb_base ls = numeral_coeff n"
    using F count by (simp_all add: ls_def)
qed

section \<open>Exponents\<close>

lemma exponent_value_digits:
  assumes "all_digits ds" "0 \<le> e" "e < 2 ^ 63"
  shows "exponent_value e ds =
    (let v = e * 10 ^ length ds + int (digits_value ds)
     in if v < 2 ^ 63 then Inr v else Inl SQLI_OUT_OF_RANGE)"
  using assms
proof (induction ds arbitrary: e)
  case Nil
  then show ?case by (simp add: digits_value_def)
next
  case (Cons c ds)
  let ?d = "int (char_digit c)" and ?e = "e * 10 + int (char_digit c)"
  have d: "?d \<le> 9" using Cons.prems(1) char_digit_less [of c] by simp
  have val: "e * 10 ^ length (c # ds) + int (digits_value (c # ds)) =
      ?e * 10 ^ length ds + int (digits_value ds)"
    by (simp add: digits_value_def be_value_Cons algebra_simps)
  have guard: "e > (2 ^ 63 - 1 - ?d) div 10 \<longleftrightarrow> 2 ^ 63 \<le> ?e"
    using d by (simp add: div_less_iff_less_mult) linarith
  show ?case
  proof (cases "2 ^ 63 \<le> ?e")
    case True
    have grow: "?e * 1 \<le> ?e * 10 ^ length ds" using Cons.prems by (intro mult_left_mono) auto
    have "2 ^ 63 \<le> ?e * 10 ^ length ds"
      by (rule order_trans [OF True]) (use grow in \<open>simp only: mult_1_right\<close>)
    then have "2 ^ 63 \<le> ?e * 10 ^ length ds + int (digits_value ds)"
      by (rule add_increasing2 [rotated]) simp
    then show ?thesis using True guard Cons.prems(1) unfolding val by (simp add: Let_def)
  next
    case False
    then show ?thesis using guard Cons unfolding val by (simp add: Let_def)
  qed
qed

lemma parse_exponent_render:
  assumes "exp_ok (Some (letter, sign, ds))"
  shows "parse_exponent (sign @ ds) =
    (if \<bar>exp_value (Some (letter, sign, ds))\<bar> < 2 ^ 63 then Inr (exp_value (Some (letter, sign, ds)))
     else Inl SQLI_OUT_OF_RANGE)"
proof -
  obtain c cs where ds: "ds = c # cs" using assms by (cases ds) (auto simp: exp_ok_def)
  then have c: "ascii_digit c" and d: "all_digits ds" using assms by (auto simp: exp_ok_def)
  have "parse_exponent (sign @ ds) = (case exponent_value 0 ds of Inl status \<Rightarrow> Inl status
      | Inr e \<Rightarrow> Inr (if sign = ''-'' then - e else e))"
    using assms ds ascii_digit_not [OF c]
    by (auto simp: exp_ok_def parse_exponent_def Let_def simp del: exponent_value.simps split: sum.splits)
  then show ?thesis
    using exponent_value_digits [OF d, of 0] by (simp add: exp_value_def Let_def)
qed

lemma exponent_value_accepts: "exponent_value e ds = Inr r \<Longrightarrow> all_digits ds"
  by (induction ds arbitrary: e) (auto simp: Let_def split: if_splits)

lemma parse_exponent_accepts:
  assumes "parse_exponent t = Inr e"
  shows "\<exists>sign ds. t = sign @ ds \<and> sign \<in> {'''', ''+'', ''-''} \<and> ds \<noteq> [] \<and> all_digits ds"
proof (cases "t \<noteq> [] \<and> (hd t = CHR ''+'' \<or> hd t = CHR ''-'')")
  case True
  then obtain c cs where t: "t = c # cs" "c = CHR ''+'' \<or> c = CHR ''-''" by (cases t) auto
  then have "cs \<noteq> []" "all_digits cs" using assms
    by (auto simp: parse_exponent_def Let_def dest: exponent_value_accepts split: if_splits sum.splits)
  then show ?thesis using t by (intro exI [of _ "[c]"] exI [of _ cs]) auto
next
  case False
  then have "t \<noteq> []" "all_digits t" using assms
    by (auto simp: parse_exponent_def Let_def dest: exponent_value_accepts
        split: if_splits sum.splits list.splits)
  then show ?thesis by (intro exI [of _ "[]"] exI [of _ t]) auto
qed

section \<open>Parsing a numeral\<close>

definition unsigned_scan :: "string \<Rightarrow> string" where
  "unsigned_scan text = (if hd text = CHR ''+'' \<or> hd text = CHR ''-'' then tl text else text)"

lemma render_sign:
  assumes "numeral_ok n"
  shows "unsigned_scan (render n) = render_mantissa n @ render_exp (n_exp n)"
    and "hd (render n) = CHR ''-'' \<longleftrightarrow> n_sign n = ''-''" and "render n \<noteq> []"
proof -
  obtain c cs where m: "render_mantissa n = c # cs" "c = CHR ''.'' \<or> ascii_digit c"
    using assms by (cases "n_int n") (auto simp: numeral_ok_def render_mantissa_def split: if_splits)
  then have "c \<noteq> CHR ''+''" "c \<noteq> CHR ''-''" by auto
  then show "unsigned_scan (render n) = render_mantissa n @ render_exp (n_exp n)"
    and "hd (render n) = CHR ''-'' \<longleftrightarrow> n_sign n = ''-''" and "render n \<noteq> []"
    using assms m by (auto simp: numeral_ok_def render_def unsigned_scan_def)
qed

lemma parse_text_numeral:
  assumes ok: "numeral_ok n" and sig: "numeral_significant n \<le> SQLI_DECIMAL_MAX_DIGITS"
  defines "count \<equiv> (numeral_significant n + limb_digits - 1) div limb_digits"
  shows "parse_text mem (render n) v =
    (if \<bar>exp_value (n_exp n)\<bar> < 2 ^ 63 \<and> in_i32 (numeral_scale n) then
       (let (status, t) = decimal_reserve mem decimal_init count
        in if status \<noteq> SQLI_OK then (status, v)
           else (SQLI_OK, fst (decimal_move v (decimal_trim (t\<lparr>
             d_limbs := fill_limbs (numeral_significant n) (replicate count 0) 0 (rev (render_mantissa n)),
             d_scale := numeral_scale n, d_negative := (n_sign n = ''-''), d_is_null := False\<rparr>)))))
     else (SQLI_OUT_OF_RANGE, v))"
proof -
  let ?r = "render_exp (n_exp n)"
  have r: "?r = [] \<or> hd ?r \<in> {CHR ''e'', CHR ''E''}"
    using ok by (auto simp: numeral_ok_def exp_ok_def render_exp_def split: option.splits)
  have ex: "(if ?r = [] then Inr 0 else parse_exponent (tl ?r)) =
      (if \<bar>exp_value (n_exp n)\<bar> < 2 ^ 63 then Inr (exp_value (n_exp n)) else Inl SQLI_OUT_OF_RANGE)"
    using ok parse_exponent_render
    by (cases "n_exp n") (auto simp: numeral_ok_def render_exp_def exp_value_def)
  have pos: "length (n_int n @ n_frac n) \<noteq> 0" using ok by (simp add: numeral_ok_def)
  have range: "(e < int (length (n_frac n)) - (2 ^ 31 - 1) \<or> e > int (length (n_frac n)) + 2 ^ 31) \<longleftrightarrow>
      \<not> in_i32 (int (length (n_frac n)) - e)" for e
    by (auto simp: in_i32_def)
  have signed: "((hd (render n) = CHR ''+'' \<or> hd (render n) = CHR ''-'') \<and> hd (render n) = CHR ''-'') =
      (n_sign n = ''-'')" using render_sign(2) [OF ok] by auto
  show ?thesis
    unfolding parse_text_def Let_def unsigned_scan_def [symmetric] signed render_sign(1) [OF ok]
      scan_mantissa_numeral [OF ok r] sum.case prod.case mantissa_scan.simps range
    using pos sig ex
    by (auto simp: numeral_scale_def [symmetric] count_def i32_id split: prod.splits)
qed

lemma all_digits_dropWhile: "all_digits ds \<Longrightarrow> all_digits (dropWhile P ds)"
  by (induction ds) auto

lemma coeff_len_le_significant:
  assumes "numeral_ok n"
  shows "numeral_coeff n < 10 ^ numeral_significant n"
proof -
  have "all_digits (n_int n @ n_frac n)" using assms by (auto simp: numeral_ok_def)
  then have "all_digits (dropWhile (\<lambda>c. c = CHR ''0'') (n_int n @ n_frac n))"
    by (rule all_digits_dropWhile)
  then show ?thesis
    using digits_value_less digits_value_strip
    by (metis numeral_coeff_def numeral_significant_def)
qed


text \<open>The trimmed result of a parse, and that its steps never fail with \<open>SQLI_OK\<close>.\<close>

lemma parse_result_wf:
  assumes ok: "numeral_ok n" and sig: "numeral_significant n \<le> SQLI_DECIMAL_MAX_DIGITS"
    and scale: "in_i32 (numeral_scale n)" and f: "fresh count t"
    and ls: "digits_ok limb_base ls" "length ls = count" "le_value limb_base ls = numeral_coeff n"
  shows "decimal_wf (decimal_trim (t\<lparr>d_limbs := ls, d_scale := numeral_scale n,
      d_negative := neg, d_is_null := False\<rparr>))"
    and "decimal_coeff (decimal_trim (t\<lparr>d_limbs := ls, d_scale := numeral_scale n,
      d_negative := neg, d_is_null := False\<rparr>)) = numeral_coeff n"
    and "d_negative (decimal_trim (t\<lparr>d_limbs := ls, d_scale := numeral_scale n,
      d_negative := neg, d_is_null := False\<rparr>)) \<longleftrightarrow> neg \<and> numeral_coeff n \<noteq> 0"
proof -
  let ?u = "strip_while (\<lambda>l. l = 0) ls"
  have u: "limbs_ok ?u" "le_value limb_base ?u = numeral_coeff n" using ls by simp_all
  have trim: "decimal_trim (t\<lparr>d_limbs := ls, d_scale := numeral_scale n,
      d_negative := neg, d_is_null := False\<rparr>) =
    t\<lparr>d_limbs := ?u, d_scale := numeral_scale n, d_negative := (?u \<noteq> [] \<and> neg), d_is_null := False\<rparr>"
    by (cases t) (simp add: decimal_trim_def Let_def)
  have "(10 :: nat) ^ numeral_significant n \<le> 10 ^ SQLI_DECIMAL_MAX_DIGITS"
    by (rule power_increasing [OF sig]) simp
  then have "numeral_coeff n < 10 ^ SQLI_DECIMAL_MAX_DIGITS"
    by (rule less_le_trans [OF coeff_len_le_significant [OF ok]])
  then have "dec_len (numeral_coeff n) \<le> SQLI_DECIMAL_MAX_DIGITS"
    by (rule dec_len_le) (simp add: SQLI_DECIMAL_MAX_DIGITS_def)
  then have digits: "limbs_digits ?u \<le> SQLI_DECIMAL_MAX_DIGITS"
    using limbs_digits_eq [OF u(1)] u(2) by simp
  have len: "length ?u \<le> count" using length_strip_le [of "\<lambda>l. l = 0" ls] ls(2) by simp
  show "decimal_wf (decimal_trim (t\<lparr>d_limbs := ls, d_scale := numeral_scale n,
      d_negative := neg, d_is_null := False\<rparr>))"
    unfolding trim by (rule built_wf [OF f len u(1) scale digits]) simp
  show "decimal_coeff (decimal_trim (t\<lparr>d_limbs := ls, d_scale := numeral_scale n,
      d_negative := neg, d_is_null := False\<rparr>)) = numeral_coeff n"
    unfolding trim using u(2) by (simp add: decimal_coeff_def)
  show "d_negative (decimal_trim (t\<lparr>d_limbs := ls, d_scale := numeral_scale n,
      d_negative := neg, d_is_null := False\<rparr>)) \<longleftrightarrow> neg \<and> numeral_coeff n \<noteq> 0"
    unfolding trim using limbs_ok_zero_iff [OF u(1)] u(2) by auto
qed

lemma exponent_value_error: "exponent_value e ds \<noteq> Inl SQLI_OK"
  by (induction ds arbitrary: e) (auto simp: Let_def)

lemma parse_exponent_error: "parse_exponent t \<noteq> Inl SQLI_OK"
  using exponent_value_error by (auto simp: parse_exponent_def Let_def split: sum.splits)

lemma scan_mantissa_error: "scan_mantissa s cs \<noteq> Inl SQLI_OK"
  by (induction s cs rule: scan_mantissa.induct) auto

lemma parse_text_unchanged: "fst (parse_text mem text v) = SQLI_OK \<or> snd (parse_text mem text v) = v"
proof (cases "scan_mantissa \<lparr>s_digits = 0, s_fractional = 0, s_significant = 0, s_point = False\<rparr>
    (unsigned_scan text)")
  case (Inl a)
  then show ?thesis unfolding parse_text_def Let_def unsigned_scan_def by simp
next
  case (Inr b)
  obtain s r where b: "b = (s, r)" by fastforce
  show ?thesis
    using Inr unfolding b parse_text_def Let_def unsigned_scan_def [symmetric]
    by (cases "if r = [] then Inr 0 else parse_exponent (tl r)")
      (simp_all only: sum.case prod.case fst_conv snd_conv case_prod_beta split: if_split, simp_all)
qed

lemma parse_numeral_result:
  assumes ok: "numeral_ok n" and fits: "numeral_fits n" and mem: "\<forall>k. mem k"
  shows "\<exists>w. sqli_decimal_parse mem (Some v) (Some (render n)) False = (SQLI_OK, Some w) \<and>
    decimal_wf w \<and> \<not> d_is_null w \<and> decimal_coeff w = numeral_coeff n \<and>
    d_scale w = numeral_scale n \<and> (d_negative w \<longleftrightarrow> n_sign n = ''-'' \<and> numeral_coeff n \<noteq> 0)"
proof -
  define count where "count = (numeral_significant n + limb_digits - 1) div limb_digits"
  define ls where "ls = fill_limbs (numeral_significant n) (replicate count 0) 0 (rev (render_mantissa n))"
  have sig: "numeral_significant n \<le> SQLI_DECIMAL_MAX_DIGITS"
    and scale: "in_i32 (numeral_scale n)" and e: "\<bar>exp_value (n_exp n)\<bar> < 2 ^ 63"
    and len: "length (render n) \<le> SQLI_DECIMAL_MAX_TEXT"
    using fits by (simp_all add: numeral_fits_def)
  have "count \<le> decimal_max_limbs"
    unfolding count_def decimal_max_limbs_def using sig by (intro div_le_mono) simp
  then obtain t where t: "decimal_reserve mem decimal_init count = (SQLI_OK, t)"
    using reserve_total mem by blast
  have f: "fresh count t" by (rule reserve_init_OK [OF t])
  have "numeral_significant n \<le> count * limb_digits"
    by (simp add: count_def decimal_consts)
  note L = fill_limbs_numeral [OF ok this, folded ls_def]
  define w where "w = decimal_trim (t\<lparr>d_limbs := ls, d_scale := numeral_scale n,
    d_negative := (n_sign n = ''-''), d_is_null := False\<rparr>)"
  note W = parse_result_wf [OF ok sig scale f L, of "n_sign n = ''-''", folded w_def]
  have w: "d_scale w = numeral_scale n" "\<not> d_is_null w" "d_inline w \<longrightarrow> d_capacity w = decimal_inline_limbs"
    using f by (simp_all add: w_def decimal_trim_def Let_def fresh_def)
  have "parse_text mem (render n) v = (SQLI_OK, w)"
    unfolding parse_text_numeral [OF ok sig] count_def [symmetric] ls_def [symmetric] Let_def t
    using e scale w(3) by (simp add: w_def [symmetric])
  moreover have "render n \<noteq> []" by (rule render_sign(3) [OF ok])
  ultimately have "sqli_decimal_parse mem (Some v) (Some (render n)) False = (SQLI_OK, Some w)"
    using len by (simp add: sqli_decimal_parse_def)
  then show ?thesis using W w by blast
qed

text \<open>
  A numeral within the resource and range limits parses, when memory is available, to
  the well-formed value with the numeral's coefficient, the scale "fractional digits minus
  exponent" and its sign (never a negative zero).
\<close>

theorem sqli_decimal_parse_numeral:
  assumes ok: "numeral_ok n" and fits: "numeral_fits n" and mem: "\<forall>k. mem k"
  shows "\<exists>w. sqli_decimal_parse mem (Some v) (Some (render n)) False = (SQLI_OK, Some w) \<and>
    decimal_wf w \<and> \<not> d_is_null w \<and> decimal_coeff w = numeral_coeff n \<and>
    d_scale w = numeral_scale n \<and> (d_negative w \<longleftrightarrow> n_sign n = ''-'' \<and> numeral_coeff n \<noteq> 0)"
  by (rule parse_numeral_result [OF assms])

text \<open>A text that the parser accepts is a numeral.\<close>

lemma parse_text_accepts:
  assumes "fst (parse_text mem text v) = SQLI_OK" "text \<noteq> []"
  shows "\<exists>n. numeral_ok n \<and> text = render n"
proof -
  let ?s0 = "\<lparr>s_digits = 0, s_fractional = 0, s_significant = 0, s_point = False\<rparr>"
  let ?body = "unsigned_scan text"
  note run = assms(1) [unfolded parse_text_def Let_def unsigned_scan_def [symmetric]]
  obtain s r where s: "scan_mantissa ?s0 ?body = Inr (s, r)"
  proof (cases "scan_mantissa ?s0 ?body")
    case (Inl a)
    then have "a = SQLI_OK" using run by simp
    then show ?thesis using Inl scan_mantissa_error by blast
  next
    case (Inr b)
    then show ?thesis using that by (cases b) simp
  qed
  have d: "s_digits s \<noteq> 0"
  proof
    assume "s_digits s = 0"
    then show False using run by (simp add: s)
  qed
  have ex: "\<exists>e. (if r = [] then Inr 0 else parse_exponent (tl r)) = Inr e"
  proof (cases "if r = [] then Inr 0 else parse_exponent (tl r)")
    case (Inl a)
    then have "a = SQLI_OK" using run by (simp add: s split: if_splits)
    then show ?thesis using Inl parse_exponent_error by (auto split: if_splits)
  qed blast
  obtain xs p ys where P: "r = [] \<or> hd r \<in> {CHR ''e'', CHR ''E''}" "all_digits xs" "all_digits ys"
    "p \<or> ys = []" "?body = xs @ (if p then CHR ''.'' # ys else []) @ r"
    "s_digits s = length xs + length ys"
    using scan_mantissa_accepts [OF s] by auto
  then have ne: "xs @ ys \<noteq> []" using d by auto
  obtain e where e: "exp_ok e" "r = render_exp e"
  proof (cases r)
    case Nil
    then show ?thesis using that [of None] by (simp add: exp_ok_def render_exp_def)
  next
    case (Cons c cs)
    then obtain e where "parse_exponent cs = Inr e" using ex by auto
    from parse_exponent_accepts [OF this]
    obtain sign ds where "cs = sign @ ds" "sign \<in> {'''', ''+'', ''-''}" "ds \<noteq> []" "all_digits ds"
      by blast
    then show ?thesis using that [of "Some (c, sign, ds)"] P(1) Cons
      by (auto simp: exp_ok_def render_exp_def)
  qed
  obtain sign where sign: "sign \<in> {'''', ''+'', ''-''}" "text = sign @ ?body"
  proof (cases "hd text = CHR ''+'' \<or> hd text = CHR ''-''")
    case True
    then show ?thesis using that [of "[hd text]"] assms(2) by (auto simp: unsigned_scan_def)
  next
    case False
    then show ?thesis using that [of "[]"] by (simp add: unsigned_scan_def)
  qed
  let ?n = "\<lparr>n_sign = sign, n_int = xs, n_point = p, n_frac = ys, n_exp = e\<rparr>"
  have "numeral_ok ?n" using P e sign ne by (auto simp: numeral_ok_def)
  moreover have "text = render ?n"
    by (subst sign(2), subst P(5)) (simp add: render_def render_mantissa_def e)
  ultimately show ?thesis by blast
qed

lemma parse_text_in_limits:
  assumes run: "fst (parse_text mem (render n) v) = SQLI_OK" and n: "numeral_ok n"
    and len: "length (render n) \<le> SQLI_DECIMAL_MAX_TEXT"
  shows "numeral_fits n"
proof -
  have r: "render_exp (n_exp n) = [] \<or> hd (render_exp (n_exp n)) \<in> {CHR ''e'', CHR ''E''}"
    using n by (auto simp: numeral_ok_def exp_ok_def render_exp_def split: option.splits)
  have sig: "numeral_significant n \<le> SQLI_DECIMAL_MAX_DIGITS"
    using run
    unfolding parse_text_def Let_def unsigned_scan_def [symmetric] render_sign(1) [OF n]
      scan_mantissa_numeral [OF n r] sum.case prod.case
    by (simp add: not_less split: if_splits)
  show ?thesis using run len sig
    unfolding parse_text_numeral [OF n sig] by (simp add: numeral_fits_def split: if_splits)
qed

text \<open>
  C23. With memory available the parser accepts exactly the numerals (optional sign, digits
  with an optional point and at least one digit, optional exponent) within the limits, and
  every rejected text leaves the destination unchanged.
\<close>

theorem sqli_decimal_parse_accepts_iff:
  assumes mem: "\<forall>k. mem k"
  shows "(fst (sqli_decimal_parse mem (Some v) (Some text) False) = SQLI_OK \<longleftrightarrow>
      (\<exists>n. numeral_ok n \<and> numeral_fits n \<and> text = render n)) \<and>
    (fst (sqli_decimal_parse mem (Some v) (Some text) False) \<noteq> SQLI_OK \<longrightarrow>
      snd (sqli_decimal_parse mem (Some v) (Some text) False) = Some v)"
proof (intro conjI iffI impI)
  assume "fst (sqli_decimal_parse mem (Some v) (Some text) False) = SQLI_OK"
  then have len: "text \<noteq> []" "length text \<le> SQLI_DECIMAL_MAX_TEXT"
    and run: "fst (parse_text mem text v) = SQLI_OK"
    by (auto simp: sqli_decimal_parse_def split: if_splits)
  then show "\<exists>n. numeral_ok n \<and> numeral_fits n \<and> text = render n"
    using parse_text_accepts [OF run] parse_text_in_limits by blast
next
  assume "\<exists>n. numeral_ok n \<and> numeral_fits n \<and> text = render n"
  then obtain n where "numeral_ok n" "numeral_fits n" "text = render n" by blast
  then obtain w where "sqli_decimal_parse mem (Some v) (Some text) False = (SQLI_OK, Some w)"
    using parse_numeral_result [OF _ _ mem] by blast
  then show "fst (sqli_decimal_parse mem (Some v) (Some text) False) = SQLI_OK" by simp
next
  assume "fst (sqli_decimal_parse mem (Some v) (Some text) False) \<noteq> SQLI_OK"
  then show "snd (sqli_decimal_parse mem (Some v) (Some text) False) = Some v"
    using parse_text_unchanged [of mem _ v] by (auto simp: sqli_decimal_parse_def split: if_splits)
qed


definition sample_numeral :: numeral_text where
  "sample_numeral = \<lparr>n_sign = ''-'', n_int = ''12'', n_point = True, n_frac = ''50'',
     n_exp = Some (CHR ''E'', ''-'', ''3'')\<rparr>"

lemma sample_numeral_facts:
  "numeral_ok sample_numeral" "numeral_fits sample_numeral"
  "render sample_numeral = ''-12.50E-3''" "numeral_coeff sample_numeral = 1250"
  "numeral_scale sample_numeral = 5"
  by (simp_all add: sample_numeral_def numeral_ok_def exp_ok_def numeral_fits_def render_def
      render_mantissa_def render_exp_def numeral_coeff_def numeral_scale_def exp_value_def
      digits_value_def be_value_def char_digit_def ascii_digit_def numeral_significant_def in_i32_def
      SQLI_DECIMAL_MAX_DIGITS_def SQLI_DECIMAL_MAX_TEXT_def)

theorem sqli_decimal_parse_numeral_witness:
  "\<exists>w. sqli_decimal_parse (\<lambda>_. True) (Some decimal_init) (Some ''-12.50E-3'') False = (SQLI_OK, Some w) \<and>
    decimal_coeff w = 1250 \<and> d_scale w = 5 \<and> d_negative w"
  using sqli_decimal_parse_numeral [of sample_numeral "\<lambda>_. True" decimal_init]
  unfolding sample_numeral_facts(3-5)
  by (simp add: sample_numeral_facts) (auto simp: sample_numeral_def)

theorem sqli_decimal_parse_accepts_iff_witness:
  "fst (sqli_decimal_parse (\<lambda>_. True) (Some decimal_init) (Some ''-12.50E-3'') False) = SQLI_OK"
  using sqli_decimal_parse_accepts_iff [of "\<lambda>_. True" decimal_init "''-12.50E-3''"]
    sample_numeral_facts by auto

end
