(* ===== verification/DecimalFormatFacts.thy ===== *)
theory DecimalFormatFacts
  imports DecimalTextFacts
begin

text \<open>
  Formatted decimals: every well-formed value formats to a numeral of the grammar of
  \<open>DecimalTextFacts\<close>, of exactly the length computed before the buffer is written, and
  parsing it gives the value back.
\<close>

section \<open>Digit strings\<close>

definition digit_text :: "sqli_decimal \<Rightarrow> nat \<Rightarrow> nat \<Rightarrow> string" where
  "digit_text v a b = map (\<lambda>i. digit_char (decimal_digit v (decimal_digits v) i)) [a..<b]"

lemma digit_text_length [simp]: "length (digit_text v a b) = b - a"
  by (simp add: digit_text_def)

lemma digit_text_append: "a \<le> b \<Longrightarrow> b \<le> c \<Longrightarrow> digit_text v a b @ digit_text v b c = digit_text v a c"
  using upt_add_eq_append [of a b "c - b"] by (simp add: digit_text_def flip: map_append)

lemma digit_text_digits [simp]: "all_digits (digit_text v a b)"
  by (auto simp: digit_text_def decimal_digit_less)

lemma le_value_digits: "le_value 10 (map (\<lambda>i. c div 10 ^ i mod 10) [0..<n]) = c mod 10 ^ n"
proof (induction n)
  case (Suc n)
  have "c mod (10 ^ n * 10) = 10 ^ n * (c div 10 ^ n mod 10) + c mod 10 ^ n" by (rule mod_mult2_eq)
  then show ?case using Suc by (simp add: le_value_append mult.commute)
qed simp

lemma be_value_digits:
  "be_value 10 (map (\<lambda>i. c div 10 ^ (n - 1 - i) mod 10) [0..<n]) = c mod 10 ^ n"
proof -
  have "rev (map (\<lambda>i. c div 10 ^ (n - 1 - i) mod 10) [0..<n]) = map (\<lambda>i. c div 10 ^ i mod 10) [0..<n]"
    by (rule nth_equalityI) (auto simp: rev_nth)
  then show ?thesis by (simp add: be_value_def le_value_digits)
qed

lemma digit_text_value:
  assumes wf: "decimal_wf v"
  shows "digits_value (digit_text v 0 (decimal_digits v)) = decimal_coeff v"
proof (cases "d_limbs v = []")
  case True
  then show ?thesis
    by (simp add: digits_value_def digit_text_def decimal_digits_limbs limbs_digits_def
        decimal_digit_def decimal_coeff_def be_value_def)
next
  case False
  let ?n = "decimal_digits v" and ?c = "decimal_coeff v"
  have "map char_digit (digit_text v 0 ?n) = map (\<lambda>i. ?c div 10 ^ (?n - 1 - i) mod 10) [0..<?n]"
    by (auto simp: digit_text_def decimal_digit_less decimal_digit_eq [OF wf False]
        simp del: decimal_digits_eq)
  then have "digits_value (digit_text v 0 ?n) = ?c mod 10 ^ ?n"
    by (simp only: digits_value_def be_value_digits)
  moreover have "?c < 10 ^ ?n" using wf dec_len_bounds by simp
  ultimately show ?thesis by simp
qed

lemma digits_value_zeros: "digits_value (replicate k (CHR ''0'') @ ds) = digits_value ds"
  by (induction k) (auto simp: digits_value_def be_value_Cons char_digit_def)

lemma insert_point:
  "concat (map (\<lambda>i. (if P \<and> i = k then ''.'' else '''') @ [f i]) [0..<n]) =
   map f [0..<min k n] @ (if P \<and> k < n then ''.'' else '''') @ map f [min k n..<n]"
proof (induction n)
  case (Suc n)
  consider "n < k" | "n = k" | "k < n" by linarith
  then show ?case
  proof cases
    case 1
    then have "min k n = n" "min k (Suc n) = Suc n" "\<not> k < Suc n" "n \<noteq> k" by simp_all
    then show ?thesis using Suc by simp
  next
    case 3
    then have "min k n = k" "min k (Suc n) = k" by simp_all
    then show ?thesis using Suc 3 by simp
  qed (use Suc in simp)
qed simp

lemma ascii_digit_zero: "ascii_digit (CHR ''0'')"
  by (simp add: ascii_digit_def)

section \<open>The exponent\<close>

lemma magnitude_digits_value:
  "all_digits (magnitude_digits m) \<and> magnitude_digits m \<noteq> [] \<and>
   le_value 10 (map char_digit (magnitude_digits m)) = m"
proof (induction m rule: magnitude_digits.induct)
  case (1 m)
  then show ?case by (subst (1 2 3) magnitude_digits.simps) simp
qed

lemma magnitude_digits_length: "length (magnitude_digits m) = dec_len m"
proof (induction m rule: magnitude_digits.induct)
  case (1 m)
  then show ?case
    by (subst magnitude_digits.simps, subst dec_len.simps) (auto simp: div_eq_0_iff)
qed


lemma exponent_text_ok:
  "exp_ok (Some (CHR ''E'', (if x < 0 then ''-'' else ''+''), rev (exponent_digits x)))"
  "exp_value (Some (CHR ''E'', (if x < 0 then ''-'' else ''+''), rev (exponent_digits x))) = x"
  using magnitude_digits_value [of "nat \<bar>x\<bar>"]
  by (auto simp: exp_ok_def exp_value_def exponent_digits_def digits_value_def be_value_def rev_map)

section \<open>The numeral of a value\<close>

definition numeral_of :: "sqli_decimal \<Rightarrow> numeral_text" where
  "numeral_of v =
     (let digits = decimal_digits v; scale = nat (d_scale v); x = format_exponent v;
          sign = (if d_negative v then ''-'' else '''')
      in if format_scientific v then
           \<lparr>n_sign = sign, n_int = digit_text v 0 1, n_point = (1 < digits), n_frac = digit_text v 1 digits,
            n_exp = Some (CHR ''E'', (if x < 0 then ''-'' else ''+''), rev (exponent_digits x))\<rparr>
         else if digits \<le> scale then
           \<lparr>n_sign = sign, n_int = ''0'', n_point = True,
            n_frac = replicate (scale - digits) (CHR ''0'') @ digit_text v 0 digits, n_exp = None\<rparr>
         else
           \<lparr>n_sign = sign, n_int = digit_text v 0 (digits - scale), n_point = (0 < scale),
            n_frac = digit_text v (digits - scale) digits, n_exp = None\<rparr>)"

lemma digits_pos: "decimal_wf v \<Longrightarrow> 0 < decimal_digits v"
  by simp

lemma digits_Suc: "decimal_wf v \<Longrightarrow> \<exists>m. decimal_digits v = Suc m"
  using digits_pos gr0_implies_Suc by blast

lemma format_text_numeral:
  assumes "decimal_wf v"
  shows "format_text v = render (numeral_of v)"
proof -
  have d: "0 < decimal_digits v" by (rule digits_pos [OF assms])
  have s: "d_scale v \<noteq> 0 \<longleftrightarrow> 0 < nat (d_scale v)" if "\<not> format_scientific v"
    using that by (auto simp: format_scientific_def)
  consider "format_scientific v" | "\<not> format_scientific v" "decimal_digits v \<le> nat (d_scale v)"
    | "\<not> format_scientific v" "nat (d_scale v) < decimal_digits v" by linarith
  then show ?thesis
  proof cases
    case 1
    have "min 1 (decimal_digits v) = 1" using d by arith
    then show ?thesis
      using 1 insert_point [of True 1 "\<lambda>i. digit_char (decimal_digit v (decimal_digits v) i)" "decimal_digits v"]
      by (simp add: format_text_def numeral_of_def render_def render_mantissa_def render_exp_def
          Let_def digit_text_def del: decimal_digits_eq)
  next
    case 2
    then have "0 < d_scale v" using d by linarith
    then show ?thesis using 2
      by (simp add: format_text_def numeral_of_def render_def render_mantissa_def render_exp_def
          Let_def digit_text_def del: decimal_digits_eq)
  next
    case 3
    let ?k = "decimal_digits v - nat (d_scale v)"
    have k: "min ?k (decimal_digits v) = ?k" "?k < decimal_digits v \<longleftrightarrow> 0 < nat (d_scale v)"
      using d by auto
    show ?thesis
      using 3 k s insert_point [of "d_scale v \<noteq> 0" ?k
          "\<lambda>i. digit_char (decimal_digit v (decimal_digits v) i)" "decimal_digits v"]
      by (simp add: format_text_def numeral_of_def render_def render_mantissa_def render_exp_def
          Let_def digit_text_def del: decimal_digits_eq)
  qed
qed

lemma numeral_of_ok:
  assumes "decimal_wf v"
  shows "numeral_ok (numeral_of v)"
  using exponent_text_ok(1) [of "format_exponent v"] digits_pos [OF assms]
  by (auto simp: numeral_of_def numeral_ok_def Let_def exp_ok_def digit_text_append
      digit_text_def decimal_digit_less ascii_digit_zero simp del: decimal_digits_eq)

lemma numeral_of_coeff:
  assumes wf: "decimal_wf v"
  shows "numeral_coeff (numeral_of v) = decimal_coeff v"
proof -
  have d: "1 \<le> decimal_digits v" using digits_pos [OF wf] by linarith
  have "digit_text v 0 k @ digit_text v k (decimal_digits v) = digit_text v 0 (decimal_digits v)"
    if "k \<le> decimal_digits v" for k using that by (simp add: digit_text_append del: decimal_digits_eq)
  then show ?thesis
    using d digit_text_value [OF wf] digits_value_zeros [of "Suc k" for k]
    by (simp add: numeral_of_def numeral_coeff_def Let_def del: decimal_digits_eq)
qed

lemma numeral_of_scale:
  assumes wf: "decimal_wf v"
  shows "numeral_scale (numeral_of v) = d_scale v"
proof -
  obtain m where m: "decimal_digits v = Suc m" using digits_Suc [OF wf] by blast
  show ?thesis
  proof (cases "format_scientific v")
    case True
    then show ?thesis using exponent_text_ok(2) [of "format_exponent v"] m
      by (simp add: numeral_of_def numeral_scale_def Let_def format_exponent_def del: decimal_digits_eq)
  next
    case False
    then have "0 \<le> d_scale v" by (simp add: format_scientific_def)
    then obtain k where "d_scale v = int k" using nonneg_int_cases by blast
    then show ?thesis using False
      by (auto simp: numeral_of_def numeral_scale_def Let_def exp_value_def [of None] simp del: decimal_digits_eq)
  qed
qed

text \<open>The text lengths: what is computed in advance, and that it stays within the limit.\<close>

lemma render_numeral_of_length:
  assumes wf: "decimal_wf v"
  shows "length (render (numeral_of v)) = format_length v"
proof -
  obtain m where m: "decimal_digits v = Suc m" using digits_Suc [OF wf] by blast
  show ?thesis
  proof (cases "format_scientific v")
    case True
    then show ?thesis using m
      by (simp add: numeral_of_def render_def render_mantissa_def render_exp_def format_length_def
          Let_def del: decimal_digits_eq)
  next
    case False
    then have "0 \<le> d_scale v" by (simp add: format_scientific_def)
    then obtain k where "d_scale v = int k" using nonneg_int_cases by blast
    then show ?thesis using False m
      by (simp add: numeral_of_def render_def render_mantissa_def render_exp_def format_length_def
          Let_def del: decimal_digits_eq)
  qed
qed

lemma exponent_digits_length:
  assumes wf: "decimal_wf v"
  shows "length (exponent_digits (format_exponent v)) \<le> 10"
proof -
  have "nat \<bar>format_exponent v\<bar> < 10 ^ 10"
  proof -
    have "decimal_digits v \<le> 1000000" "- 2147483648 \<le> d_scale v" "d_scale v < 2147483648"
      using wf unfolding decimal_wf_def in_i32_def SQLI_DECIMAL_MAX_DIGITS_def by simp_all
    then show ?thesis unfolding format_exponent_def by simp
  qed
  then have "dec_len (nat \<bar>format_exponent v\<bar>) \<le> 10" by (rule dec_len_le) simp
  then show ?thesis by (simp add: exponent_digits_def magnitude_digits_length)
qed

lemma format_length_limit:
  assumes wf: "decimal_wf v"
  shows "format_length v \<le> SQLI_DECIMAL_MAX_TEXT"
proof -
  have d: "decimal_digits v \<le> SQLI_DECIMAL_MAX_DIGITS" using wf unfolding decimal_wf_def by blast
  have s: "int (nat (d_scale v)) \<le> int (decimal_digits v) + 5" if "\<not> format_scientific v"
    using that by (simp add: format_scientific_def format_exponent_def
        decimal_plain_min_exponent_def del: decimal_digits_eq)
  show ?thesis
  proof (cases "format_scientific v")
    case True
    then have "format_length v \<le> 1 + decimal_digits v + 1 + 2 + length (exponent_digits (format_exponent v))"
      by (simp add: format_length_def Let_def del: decimal_digits_eq)
    then show ?thesis using d exponent_digits_length [OF wf]
      unfolding SQLI_DECIMAL_MAX_TEXT_def by linarith
  next
    case False
    have "nat (d_scale v) \<le> decimal_digits v + 5" using s [OF False] by linarith
    moreover have "format_length v \<le> 3 + max (decimal_digits v) (nat (d_scale v))"
      using False by (simp add: format_length_def Let_def del: decimal_digits_eq)
    ultimately show ?thesis using d unfolding SQLI_DECIMAL_MAX_TEXT_def by linarith
  qed
qed

lemma numeral_of_significant:
  assumes wf: "decimal_wf v"
  shows "numeral_significant (numeral_of v) \<le> SQLI_DECIMAL_MAX_DIGITS"
proof -
  let ?n = "decimal_digits v"
  have d: "?n \<le> SQLI_DECIMAL_MAX_DIGITS" using wf unfolding decimal_wf_def by blast
  have all: "length (dropWhile P (digit_text v 0 ?n)) \<le> ?n" for P
    using length_dropWhile_le [of P "digit_text v 0 ?n"] by simp
  have zeros: "dropWhile (\<lambda>c. c = CHR ''0'') (replicate k (CHR ''0'') @ ds) =
      dropWhile (\<lambda>c. c = CHR ''0'') ds" for k ds
    by (induction k) simp_all
  have parts: "digit_text v 0 k @ digit_text v k ?n = digit_text v 0 ?n" if "k \<le> ?n" for k
    using that by (simp add: digit_text_append del: decimal_digits_eq)
  have "1 \<le> ?n" using digits_pos [OF wf] by linarith
  then have "numeral_significant (numeral_of v) \<le> ?n"
    using all zeros parts
    by (simp add: numeral_significant_def numeral_of_def Let_def del: decimal_digits_eq)
  then show ?thesis using d by linarith
qed


lemma numeral_of_fits:
  assumes wf: "decimal_wf v"
  shows "numeral_fits (numeral_of v)"
proof -
  have "\<bar>exp_value (n_exp (numeral_of v))\<bar> < 2 ^ 63"
  proof (cases "format_scientific v")
    case True
    have "decimal_digits v \<le> 1000000" "- 2147483648 \<le> d_scale v" "d_scale v < 2147483648"
      using wf unfolding decimal_wf_def in_i32_def SQLI_DECIMAL_MAX_DIGITS_def by simp_all
    then have "\<bar>format_exponent v\<bar> < 2 ^ 63" unfolding format_exponent_def by simp
    then show ?thesis using True exponent_text_ok(2) [of "format_exponent v"]
      by (simp add: numeral_of_def Let_def del: decimal_digits_eq)
  qed (simp add: numeral_of_def Let_def exp_value_def [of None])
  moreover have "in_i32 (d_scale v)" using wf by (simp add: decimal_wf_def)
  ultimately show ?thesis
    using format_length_limit [OF wf] numeral_of_significant [OF wf]
    by (simp add: numeral_fits_def render_numeral_of_length [OF wf] numeral_of_scale [OF wf])
qed

lemma format_text_length: "decimal_wf v \<Longrightarrow> length (format_text v) = format_length v"
  by (simp add: format_text_numeral render_numeral_of_length)

text \<open>
  On a well-formed value a format call writes exactly \<open>required - 1\<close> characters and a
  NUL, and only into a buffer that holds them; it writes nothing into a buffer that is too
  small, and the query form (no buffer) reports the same size.
\<close>

theorem sqli_decimal_format_bounds:
  assumes wf: "decimal_wf v" and nn: "\<not> d_is_null v"
  shows "let r = sqli_decimal_format (Some v) True capacity True True;
             query = sqli_decimal_format (Some v) False 0 True True
    in f_required r = f_required query \<and> f_is_null r = Some False \<and>
       (case f_buffer r of
          None \<Rightarrow> f_status r = SQLI_BUFFER_TOO_SMALL \<and> capacity < the (f_required r)
        | Some written \<Rightarrow> f_status r = SQLI_OK \<and> f_required r = Some (length written) \<and>
            length written \<le> capacity)"
  using assms by (simp add: sqli_decimal_format_def Let_def format_text_length)

text \<open>
  C24. Formatting and parsing are inverse: the text written for a well-formed value parses,
  when memory is available, to a well-formed value with the same sign, coefficient and scale.
\<close>

theorem sqli_decimal_format_parse_round_trip:
  assumes wf: "decimal_wf v" and nn: "\<not> d_is_null v" and mem: "\<forall>k. mem k"
    and cap: "format_length v < capacity"
  shows "\<exists>cs w. f_buffer (sqli_decimal_format (Some v) True capacity True True) = Some (cs @ [CHR 0x00]) \<and>
    sqli_decimal_parse mem (Some u) (Some cs) False = (SQLI_OK, Some w) \<and> decimal_wf w \<and>
    d_negative w = d_negative v \<and> decimal_coeff w = decimal_coeff v \<and> d_scale w = d_scale v \<and>
    \<not> d_is_null w"
proof -
  have neg: "d_negative v \<Longrightarrow> decimal_coeff v \<noteq> 0"
    using wf limbs_ok_zero_iff [of "d_limbs v"] by (auto simp: decimal_wf_def decimal_coeff_def limbs_ok_def)
  have sign: "n_sign (numeral_of v) = ''-'' \<longleftrightarrow> d_negative v"
    by (simp add: numeral_of_def Let_def)
  have "f_buffer (sqli_decimal_format (Some v) True capacity True True) = Some (render (numeral_of v) @ [CHR 0x00])"
    using nn cap by (simp add: sqli_decimal_format_def Let_def format_text_numeral [OF wf])
  then show ?thesis
    using parse_numeral_result [OF numeral_of_ok [OF wf] numeral_of_fits [OF wf] mem, of u] sign neg
    unfolding numeral_of_coeff [OF wf] numeral_of_scale [OF wf] by blast
qed


lemma small_wf: "decimal_wf (small_decimal 15 1 True)"
  by (rule small_decimal_wf) (simp_all add: decimal_consts in_i32_def)

theorem sqli_decimal_format_bounds_witness:
  "f_required (sqli_decimal_format (Some (small_decimal 15 1 True)) True 4 True True) =
   f_required (sqli_decimal_format (Some (small_decimal 15 1 True)) False 0 True True)"
  using sqli_decimal_format_bounds [OF small_wf, of 4] unfolding Let_def by simp

theorem sqli_decimal_format_parse_round_trip_witness:
  "\<exists>cs w. f_buffer (sqli_decimal_format (Some (small_decimal 15 1 True)) True 9 True True) = Some (cs @ [CHR 0x00]) \<and>
    sqli_decimal_parse (\<lambda>_. True) (Some decimal_init) (Some cs) False = (SQLI_OK, Some w) \<and>
    decimal_coeff w = 15 \<and> d_scale w = 1"
proof -
  have "format_length (small_decimal 15 1 True) < 9"
    by (simp add: format_length_def format_scientific_def format_exponent_def decimal_plain_min_exponent_def
        small_wf dec_len.simps Let_def)
  then show ?thesis
    using sqli_decimal_format_parse_round_trip [OF small_wf, of "\<lambda>_. True" 9 decimal_init] by auto
qed

end
