(* ===== verification/Base100.thy ===== *)
theory Base100
  imports Prelude
begin

text \<open>
  The base-100 radix complement of src/src/sqli_base100.h, shared by the decimal and the
  temporal codec, and its value: the complement of \<open>v\<close> in \<open>n\<close> groups is
  \<open>100 ^ n - v\<close> (zero for zero).
\<close>

text \<open>The loop, over the groups from the last to the first.\<close>

fun complement_loop :: "nat \<Rightarrow> byte list \<Rightarrow> byte list" where
  "complement_loop carry [] = []"
| "complement_loop carry (g # gs) =
     (let digit = u32 (2 ^ 32 + 100 - 1 - unat g + carry)
      in u8 (digit mod 100) # complement_loop (digit div 100) gs)"

definition sqli_base100_radix_complement :: "byte list \<Rightarrow> byte list" where
  "sqli_base100_radix_complement groups = rev (complement_loop 1 (rev groups))"

text \<open>Groups in range and the number they stand for, most significant group first.\<close>

definition groups_ok :: "byte list \<Rightarrow> bool" where
  "groups_ok gs \<longleftrightarrow> (\<forall>g \<in> set gs. unat g < 100)"

definition groups_value :: "byte list \<Rightarrow> nat" where
  "groups_value gs = be_value 100 (map unat gs)"

lemma groups_ok_simps [simp]:
  "groups_ok []" "groups_ok (g # gs) \<longleftrightarrow> unat g < 100 \<and> groups_ok gs"
  "groups_ok (xs @ ys) \<longleftrightarrow> groups_ok xs \<and> groups_ok ys" "groups_ok (rev gs) \<longleftrightarrow> groups_ok gs"
  by (auto simp: groups_ok_def)

lemma groups_ok_digits [simp]: "digits_ok 100 (map unat gs) \<longleftrightarrow> groups_ok gs"
  by (simp add: groups_ok_def digits_ok_def)

lemma groups_value_less: "groups_ok gs \<Longrightarrow> groups_value gs < 100 ^ length gs"
  using be_value_less [of 100 "map unat gs"] by (simp add: groups_value_def)

lemma complement_length [simp]: "length (sqli_base100_radix_complement gs) = length gs"
proof -
  have "length (complement_loop c gs) = length gs" for c gs
    by (induction gs arbitrary: c) (simp_all add: Let_def)
  then show ?thesis by (simp add: sqli_base100_radix_complement_def)
qed

lemma complement_loop_props:
  assumes "groups_ok gs" "c \<le> 1"
  shows "groups_ok (complement_loop c gs) \<and> length (complement_loop c gs) = length gs \<and>
    le_value 100 (map unat (complement_loop c gs)) =
      (100 ^ length gs - 1 - le_value 100 (map unat gs) + c) mod 100 ^ length gs"
  using assms
proof (induction gs arbitrary: c)
  case (Cons g gs)
  let ?v = "le_value 100 (map unat gs)" and ?d = "99 - unat g + c"
  have g: "unat g \<le> 99" and gs: "groups_ok gs" using Cons.prems by auto
  have d: "u32 (2 ^ 32 + 100 - 1 - unat g + c) = ?d"
    using g Cons.prems(2) unfolding u32_def by (simp add: mod_if)
  have c': "?d div 100 \<le> 1" using g Cons.prems(2) by auto
  have v: "?v < 100 ^ length gs"
    using le_value_less [of 100 "map unat gs"] gs by simp
  note IH = Cons.IH [OF gs c']
  have u: "unat (u8 (?d mod 100)) = ?d mod 100"
    by (rule unat_u8) (simp add: less_trans [OF mod_less_divisor])
  have "?d mod 100 + 100 * ((100 ^ length gs - 1 - ?v + ?d div 100) mod 100 ^ length gs) =
      (100 * (100 ^ length gs - 1 - ?v) + ?d) mod (100 * 100 ^ length gs)"
    by (simp add: mod_mult2_eq)
  also have "100 * (100 ^ length gs - 1 - ?v) + ?d = 100 ^ Suc (length gs) - 1 - (unat g + 100 * ?v) + c"
    using v g by (simp add: algebra_simps)
  finally show ?case using IH u unfolding complement_loop.simps Let_def d by simp
qed simp

lemma complement_ok [simp]:
  "groups_ok gs \<Longrightarrow> groups_ok (sqli_base100_radix_complement gs)"
  using complement_loop_props [of "rev gs" 1] by (simp add: sqli_base100_radix_complement_def)

lemma complement_value:
  assumes "groups_ok gs"
  shows "groups_value (sqli_base100_radix_complement gs) =
    (if groups_value gs = 0 then 0 else 100 ^ length gs - groups_value gs)"
proof -
  have "groups_value gs < 100 ^ length gs" by (rule groups_value_less [OF assms])
  moreover have "groups_value (sqli_base100_radix_complement gs) =
      (100 ^ length gs - 1 - groups_value gs + 1) mod 100 ^ length gs"
    using complement_loop_props [of "rev gs" 1] assms
    by (simp add: groups_value_def be_value_def sqli_base100_radix_complement_def rev_map)
  ultimately show ?thesis by (cases "groups_value gs = 0") (simp_all add: less_imp_Suc_add Suc_diff_Suc)
qed

lemma groups_value_inj:
  assumes "groups_ok xs" "groups_ok ys" "length xs = length ys" "groups_value xs = groups_value ys"
  shows "xs = ys"
proof -
  have "map unat xs = map unat ys"
    using assms be_value_inj [of 100 "map unat xs" "map unat ys"] by (simp add: groups_value_def)
  moreover have "inj (unat :: byte \<Rightarrow> nat)" by (rule injI) (metis u8_unat)
  ultimately show ?thesis by (simp add: inj_map_eq_map)
qed

lemma complement_involution [simp]:
  assumes "groups_ok gs"
  shows "sqli_base100_radix_complement (sqli_base100_radix_complement gs) = gs"
  using assms groups_value_less [OF assms]
  by (intro groups_value_inj) (simp_all add: complement_value)

end
