(* ===== verification/DecimalCodec.thy ===== *)
theory DecimalCodec
  imports Decimal Base100
begin

text \<open>
  The DECIMAL / NUMERIC / MONEY tuple codec of src/src/sqli_decimal_codec.c. A wire value is
  an exponent byte followed by \<open>width - 1\<close> base-100 groups.
\<close>

definition max_precision :: nat where "max_precision = 32"
definition floating_scale :: nat where "floating_scale = 255"
definition coefficient_limbs :: nat where "coefficient_limbs = 4"
definition exponent_bias :: int where "exponent_bias = 64"
definition positive_flag :: nat where "positive_flag = 128"
definition exponent_min :: int where "exponent_min = -64"
definition exponent_max :: int where "exponent_max = 63"
definition max_coefficient_groups :: nat where "max_coefficient_groups = 16"
definition SQLI_DECIMAL_WIRE_CAPACITY :: nat where "SQLI_DECIMAL_WIRE_CAPACITY = 18"

lemmas codec_consts [limit_defs] = max_precision_def floating_scale_def coefficient_limbs_def
  exponent_bias_def positive_flag_def exponent_min_def exponent_max_def
  max_coefficient_groups_def SQLI_DECIMAL_WIRE_CAPACITY_def

record decimal_wire_type =
  t_precision :: nat
  t_scale :: nat
  t_width :: nat

definition decode_type :: "nat \<Rightarrow> decimal_wire_type fallible" where
  "decode_type descriptor =
     (let precision = descriptor div 256; scale = descriptor mod 256
      in if precision = 0 \<or> precision > max_precision \<or> (scale \<noteq> floating_scale \<and> scale > precision)
         then Inl SQLI_PROTO_ERROR
         else Inr \<lparr>t_precision = precision, t_scale = scale,
                t_width = (precision + scale mod 2 + 3) div 2\<rparr>)"

definition sqli_decimal_wire_size :: "nat \<Rightarrow> bool \<Rightarrow> nat fallible" where
  "sqli_decimal_wire_size descriptor out_given =
     (if \<not> out_given then Inl SQLI_INVALID_ARGUMENT
      else case decode_type descriptor of
             Inl status \<Rightarrow> Inl status | Inr type \<Rightarrow> Inr (t_width type))"

section \<open>Encoding\<close>

text \<open>These read parts whose limb array is present (\<open>p_limb_count\<close> is not zero).\<close>

definition coefficient_digits :: "sqli_decimal_parts \<Rightarrow> nat" where
  "coefficient_digits parts =
     (p_limb_count parts - 1) * limb_digits + dec_len (the (p_limbs parts) ! (p_limb_count parts - 1))"

text \<open>The inner loop strips the zeros of a nonzero limb.\<close>

fun limb_zeros :: "nat \<Rightarrow> nat" where
  "limb_zeros limb = (if limb \<noteq> 0 \<and> limb mod 10 = 0 then Suc (limb_zeros (limb div 10)) else 0)"

declare limb_zeros.simps [simp del]

fun trailing_zeros_loop :: "nat \<Rightarrow> nat list \<Rightarrow> nat" where
  "trailing_zeros_loop zeros [] = zeros"
| "trailing_zeros_loop zeros (limb # limbs) =
     (if limb = 0 then trailing_zeros_loop (zeros + limb_digits) limbs
      else zeros + limb_zeros limb)"

definition trailing_zeros :: "sqli_decimal_parts \<Rightarrow> nat" where
  "trailing_zeros parts = trailing_zeros_loop 0 (take (p_limb_count parts) (the (p_limbs parts)))"

definition coefficient_digit :: "sqli_decimal_parts \<Rightarrow> nat \<Rightarrow> nat" where
  "coefficient_digit parts position =
     the (p_limbs parts) ! (position div limb_digits) div powers_of_ten ! (position mod limb_digits) mod 10"

text \<open>One step of the loop that adds a digit to its group; the array starts at the exponent byte.\<close>

definition place_digit :: "sqli_decimal_parts \<Rightarrow> nat \<Rightarrow> nat \<Rightarrow> nat \<Rightarrow> byte list \<Rightarrow> byte list" where
  "place_digit parts digits padding i encoded =
     (let position = i + padding;
          digit = coefficient_digit parts (digits - 1 - i);
          k = 1 + position div 2
      in encoded[k := encoded ! k + u8 (if position mod 2 = 0 then digit * 10 else digit)])"

definition encode_coefficient ::
  "sqli_decimal_parts \<Rightarrow> decimal_wire_type \<Rightarrow> byte list \<Rightarrow> byte list fallible" where
  "encode_coefficient parts type encoded =
     (let digits = coefficient_digits parts;
          zeros = trailing_zeros parts;
          significant = digits - zeros;
          reduction = p_scale parts - int (t_scale type)
      in if t_scale type = floating_scale \<and> significant > t_precision type then Inl SQLI_OUT_OF_RANGE
      else if t_scale type \<noteq> floating_scale \<and> reduction > int zeros then Inl SQLI_INEXACT
      else if t_scale type \<noteq> floating_scale \<and> int digits - reduction > int (t_precision type)
        then Inl SQLI_OUT_OF_RANGE
      else let integral_digits = int digits - p_scale parts;
               exponent = (if integral_digits \<ge> 0 then c_div (integral_digits + 1) 2
                           else c_div integral_digits 2)
        in if exponent < exponent_min \<or> exponent > exponent_max then Inl SQLI_OUT_OF_RANGE
        else let padding = nat (exponent * 2 - integral_digits);
                 groups = (padding + significant + 1) div 2
          in if groups > max_coefficient_groups \<or> groups > t_width type - 1 then Inl SQLI_OUT_OF_RANGE
          else let encoded = fold (place_digit parts digits padding) [0..<significant] encoded;
                   lead = u8 positive_flag OR u8 (nat (exponent + exponent_bias));
                   encoded = encoded[0 := lead]
            in if p_negative parts
               then let groups = take (t_width type - 1) (drop 1 encoded)
                 in Inr ((lead XOR 0xff) # sqli_base100_radix_complement groups @
                         drop (t_width type) encoded)
               else Inr encoded)"

text \<open>
  The call writes \<open>width\<close> bytes at the start of the output buffer on success; the model
  returns these bytes.
\<close>

definition sqli_decimal_encode_wire ::
  "sqli_decimal option \<Rightarrow> nat \<Rightarrow> bool \<Rightarrow> nat \<Rightarrow> bool \<Rightarrow> byte list fallible" where
  "sqli_decimal_encode_wire value descriptor bytes_given capacity length_given =
     (if value = None \<or> \<not> bytes_given \<or> \<not> length_given then Inl SQLI_INVALID_ARGUMENT
      else case decode_type descriptor of
        Inl status \<Rightarrow> Inl status
      | Inr type \<Rightarrow>
          (case sqli_decimal_get_parts value of
             Inl status \<Rightarrow> Inl status
           | Inr parts \<Rightarrow>
               let zeroed = replicate SQLI_DECIMAL_WIRE_CAPACITY (0 :: byte);
                   run = (if p_is_null parts then Inr zeroed
                          else if p_limb_count parts = 0 then Inr (zeroed[0 := u8 positive_flag])
                          else encode_coefficient parts type zeroed)
               in case run of
                    Inl status \<Rightarrow> Inl status
                  | Inr encoded \<Rightarrow>
                      if capacity < t_width type then Inl SQLI_BUFFER_TOO_SMALL
                      else Inr (take (t_width type) encoded)))"

section \<open>Decoding\<close>

fun append_digit_loop :: "nat \<Rightarrow> nat list \<Rightarrow> nat list" where
  "append_digit_loop carry [] = []"
| "append_digit_loop carry (limb # limbs) =
     (let next = u64 (u64 (limb * 10) + carry)
      in u32 (next mod limb_base) # append_digit_loop (next div limb_base) limbs)"

definition append_digit :: "nat \<Rightarrow> nat list \<Rightarrow> nat list" where
  "append_digit digit limbs = append_digit_loop digit limbs"

text \<open>The decimal digit at position \<open>i\<close> of the groups.\<close>

definition group_digit :: "byte list \<Rightarrow> nat \<Rightarrow> nat" where
  "group_digit groups i =
     (if i mod 2 = 0 then unat (groups ! (i div 2)) div 10 else unat (groups ! (i div 2)) mod 10)"

text \<open>
  \<open>groups\<close> holds the \<open>width - 1\<close> groups that the code copies into its buffer; the
  zero bytes behind them are never read.
\<close>

definition decode_coefficient ::
  "(nat \<Rightarrow> bool) \<Rightarrow> byte list \<Rightarrow> decimal_wire_type \<Rightarrow> sqli_decimal option \<Rightarrow>
   sqli_status \<times> sqli_decimal option" where
  "decode_coefficient mem bytes type out =
     (let payload = take (t_width type - 1) (tl bytes);
          lead = unat (hd bytes)
      in if \<exists>g \<in> set payload. unat g \<ge> 100 then (SQLI_PROTO_ERROR, out)
      else let negative = ((hd bytes AND u8 positive_flag) = 0);
               groups = (if negative then sqli_base100_radix_complement payload else payload);
               count = length (strip_while (\<lambda>g. g = 0) groups)
        in if count = 0 then
             (if lead \<noteq> positive_flag then (SQLI_PROTO_ERROR, out)
              else sqli_decimal_set_i64 mem out 0 (if t_scale type = floating_scale then 0 else int (t_scale type)))
           else if count > max_coefficient_groups \<or> groups ! 0 = 0 then (SQLI_PROTO_ERROR, out)
           else let exponent = (if negative then int (unat (hd bytes XOR 0x7f)) - exponent_bias
                                else int (unat (hd bytes AND 0x7f)) - exponent_bias);
                    drop_last_zero = (unat (groups ! (count - 1)) mod 10 = 0);
                    first_digit = (if unat (groups ! 0) < 10 then 1 else 0 :: nat);
                    end_digit = count * 2 - (if drop_last_zero then 1 else 0);
                    digits = end_digit - first_digit;
                    scale = int (count * 2) - exponent * 2 - (if drop_last_zero then 1 else 0)
             in if digits > t_precision type then (SQLI_PROTO_ERROR, out)
             else let extra = int (t_scale type) - scale
               in if t_scale type \<noteq> floating_scale \<and>
                     (extra < 0 \<or> extra > int (t_precision type - digits))
                  then (SQLI_PROTO_ERROR, out)
                  else let (extra_zeros, scale) =
                             (if t_scale type \<noteq> floating_scale then (nat extra, int (t_scale type))
                              else (0, scale));
                           limbs = fold append_digit (map (group_digit groups) [first_digit..<end_digit])
                             (replicate coefficient_limbs 0);
                           limbs = fold append_digit (replicate extra_zeros 0) limbs
                    in sqli_decimal_set_parts mem out
                         (Some \<lparr>p_limbs = Some limbs, p_limb_count = coefficient_limbs,
                            p_scale = scale, p_negative = negative, p_is_null = False\<rparr>))"

definition sqli_decimal_decode_wire ::
  "(nat \<Rightarrow> bool) \<Rightarrow> byte list option \<Rightarrow> nat \<Rightarrow> sqli_decimal option \<Rightarrow>
   sqli_status \<times> sqli_decimal option" where
  "sqli_decimal_decode_wire mem bytes descriptor out =
     (case bytes of
        None \<Rightarrow> (SQLI_INVALID_ARGUMENT, out)
      | Some bytes \<Rightarrow>
          if out = None then (SQLI_INVALID_ARGUMENT, out)
          else case decode_type descriptor of
            Inl status \<Rightarrow> (status, out)
          | Inr type \<Rightarrow>
              if length bytes \<noteq> t_width type then (SQLI_PROTO_ERROR, out)
              else if \<forall>b \<in> set bytes. b = 0 then sqli_decimal_set_null out
              else decode_coefficient mem bytes type out)"

end
