(* ===== verification/DecimalCodecFacts.thy ===== *)
theory DecimalCodecFacts
  imports DecimalCodec DecimalRescale
begin

text \<open>
  The decimal tuple codec: the number a wire value stands for, that decoding yields it, that
  encoding produces it exactly or refuses, and that what was encoded decodes.
\<close>

section \<open>Wire values\<close>

definition wire_negative :: "byte list \<Rightarrow> bool" where
  "wire_negative bytes \<longleftrightarrow> (hd bytes AND u8 positive_flag) = 0"

definition wire_groups :: "byte list \<Rightarrow> byte list" where
  "wire_groups bytes = (if wire_negative bytes then sqli_base100_radix_complement (tl bytes) else tl bytes)"

definition wire_exponent :: "byte list \<Rightarrow> int" where
  "wire_exponent bytes =
     (if wire_negative bytes then int (unat (hd bytes XOR 0x7f)) else int (unat (hd bytes AND 0x7f)))
     - exponent_bias"

definition wire_value :: "byte list \<Rightarrow> rat" where
  "wire_value bytes = (if wire_negative bytes then - 1 else 1) * of_nat (groups_value (wire_groups bytes)) *
     100 powi (wire_exponent bytes - int (length bytes - 1))"

definition lead_byte :: "bool \<Rightarrow> nat \<Rightarrow> byte" where
  "lead_byte neg n = (if neg then (u8 positive_flag OR u8 n) XOR 0xff else u8 positive_flag OR u8 n)"

lemma lead_byte_table:
  "\<forall>n \<in> set [0..<128]. (lead_byte False n AND u8 positive_flag) \<noteq> 0 \<and>
     (lead_byte True n AND u8 positive_flag) = 0 \<and>
     unat (lead_byte False n AND 0x7f) = n \<and> unat (lead_byte True n XOR 0x7f) = n \<and>
     lead_byte False n \<noteq> 0"
  by code_simp

lemma lead_byte_props:
  assumes "n < 128"
  shows "(lead_byte neg n AND u8 positive_flag) = 0 \<longleftrightarrow> neg"
    "unat (lead_byte False n AND 0x7f) = n" "unat (lead_byte True n XOR 0x7f) = n"
    "lead_byte False n \<noteq> 0"
  using bspec [OF lead_byte_table, of n] assms by (cases neg; simp)+

section \<open>Types\<close>

lemma decode_type_OK:
  assumes "decode_type descriptor = Inr type"
  shows "0 < t_precision type" "t_precision type \<le> 32"
    "t_scale type \<noteq> floating_scale \<longrightarrow> t_scale type \<le> t_precision type"
    "t_width type = (t_precision type + t_scale type mod 2 + 3) div 2"
    "2 \<le> t_width type" "t_width type \<le> 18" "t_scale type < 256"
  using assms by (auto simp: decode_type_def codec_consts Let_def split: if_splits)

section \<open>Appending digits\<close>

lemma append_digit_loop_props:
  assumes "digits_ok limb_base ls" "c < 10"
  shows "digits_ok limb_base (append_digit_loop c ls) \<and> length (append_digit_loop c ls) = length ls \<and>
    le_value limb_base (append_digit_loop c ls) = (le_value limb_base ls * 10 + c) mod limb_base ^ length ls"
  using assms
proof (induction ls arbitrary: c)
  case (Cons l ls)
  have l: "l < 1000000000" using Cons.prems by (simp add: decimal_consts)
  have n: "u64 (u64 (l * 10) + c) = l * 10 + c" using l Cons.prems(2) by (simp add: u64_def)
  have c': "(l * 10 + c) div limb_base < 10" using l Cons.prems(2) by (simp add: decimal_consts less_mult_imp_div_less)
  have m: "u32 ((l * 10 + c) mod limb_base) = (l * 10 + c) mod limb_base"
    by (rule u32_id) (simp add: decimal_consts less_trans [OF mod_less_divisor])
  have split: "(l * 10 + c + limb_base * (le_value limb_base ls * 10)) mod (limb_base * limb_base ^ length ls) =
      (l * 10 + c) mod limb_base +
      limb_base * ((le_value limb_base ls * 10 + (l * 10 + c) div limb_base) mod limb_base ^ length ls)"
    by (simp add: mod_mult2_eq add.commute)
  show ?case
    using Cons.IH [OF _ c'] Cons.prems split n m
    by (simp add: Let_def algebra_simps)
qed simp

lemma fold_append_digit:
  assumes "digits_ok limb_base ls" "digits_ok 10 ds"
    and "le_value limb_base ls * 10 ^ length ds + be_value 10 ds < limb_base ^ length ls"
  shows "digits_ok limb_base (fold append_digit ds ls) \<and> length (fold append_digit ds ls) = length ls \<and>
    le_value limb_base (fold append_digit ds ls) = le_value limb_base ls * 10 ^ length ds + be_value 10 ds"
  using assms
proof (induction ds arbitrary: ls)
  case (Cons d ds)
  let ?v = "le_value limb_base ls"
  have val: "?v * 10 ^ length (d # ds) + be_value 10 (d # ds) = (?v * 10 + d) * 10 ^ length ds + be_value 10 ds"
    by (simp add: be_value_Cons algebra_simps)
  have "?v * 10 + d \<le> (?v * 10 + d) * 10 ^ length ds + be_value 10 ds"
    using mult_le_mono2 [of 1 "10 ^ length ds" "?v * 10 + d"] by (simp add: trans_le_add1)
  then have "?v * 10 + d < limb_base ^ length ls" using Cons.prems(3) unfolding val by (rule le_less_trans)
  then have A: "digits_ok limb_base (append_digit d ls) \<and> length (append_digit d ls) = length ls \<and>
      le_value limb_base (append_digit d ls) = ?v * 10 + d"
    using append_digit_loop_props [of ls d] Cons.prems by (simp add: append_digit_def)
  then show ?case
    using Cons.IH [of "append_digit d ls"] Cons.prems unfolding val by simp
qed simp

section \<open>Digits of groups\<close>

lemma group_digit_less [simp]: "groups_ok gs \<Longrightarrow> i < 2 * length gs \<Longrightarrow> group_digit gs i < 10"
proof -
  assume "groups_ok gs" "i < 2 * length gs"
  then have "unat (gs ! (i div 2)) < 100" by (auto simp: groups_ok_def)
  then show ?thesis by (simp add: group_digit_def less_mult_imp_div_less)
qed

lemma group_digit_even: "group_digit gs (2 * k) = unat (gs ! k) div 10"
  and group_digit_odd: "group_digit gs (2 * k + 1) = unat (gs ! k) mod 10"
  by (simp_all add: group_digit_def)

lemma group_digits_value:
  assumes "n \<le> length gs"
  shows "be_value 10 (map (group_digit gs) [0..<2 * n]) = groups_value (take n gs)"
  using assms
proof (induction n)
  case (Suc n)
  have "[0..<2 * Suc n] = [0..<2 * n] @ [2 * n, 2 * n + 1]" by simp
  then show ?case using Suc
    by (simp add: groups_value_def take_Suc_conv_app_nth group_digit_def be_value_append be_value_Cons)
qed (simp add: groups_value_def)

lemma groups_value_append: "groups_value (xs @ ys) = groups_value xs * 100 ^ length ys + groups_value ys"
  by (simp add: groups_value_def be_value_append)

lemma groups_value_strip:
  "groups_value gs = groups_value (take n gs) * 100 ^ (length gs - n) + groups_value (drop n gs)"
  using groups_value_append [of "take n gs" "drop n gs"] by simp

lemma groups_value_zero: "\<forall>g \<in> set gs. g = 0 \<Longrightarrow> groups_value gs = 0"
  by (induction gs) (auto simp: groups_value_def be_value_Cons)

lemma count_props:
  fixes gs :: "byte list"
  defines "count \<equiv> length (strip_while (\<lambda>g. g = 0) gs)"
  shows "count \<le> length gs" "count = 0 \<longleftrightarrow> (\<forall>g \<in> set gs. g = 0)"
    "groups_value (drop count gs) = 0" "0 < count \<Longrightarrow> gs ! (count - 1) \<noteq> 0"
proof -
  obtain zs where zs: "gs = strip_while (\<lambda>g. g = 0) gs @ zs" "\<forall>z \<in> set zs. z = 0"
    using split_strip_while_append [of "\<lambda>g. g = 0" gs] set_takeWhileD [of _ "\<lambda>g. g = 0" "rev gs"]
    by (metis set_rev)
  then have d: "drop count gs = zs" and t: "take count gs = strip_while (\<lambda>g. g = 0) gs"
    unfolding count_def by (metis append_eq_conv_conj)+
  show "count \<le> length gs" using zs(1) unfolding count_def by (metis le_add1 length_append)
  show "groups_value (drop count gs) = 0" using zs(2) groups_value_zero d by simp
  show "count = 0 \<longleftrightarrow> (\<forall>g \<in> set gs. g = 0)"
    by (auto simp: count_def strip_while_def)
  show "gs ! (count - 1) \<noteq> 0" if "0 < count"
  proof -
    have "strip_while (\<lambda>g. g = 0) gs \<noteq> []" using that by (simp add: count_def)
    then have "last (strip_while (\<lambda>g. g = 0) gs) \<noteq> 0"
      using hd_dropWhile [of "\<lambda>g. g = 0" "rev gs"] by (simp add: strip_while_def last_rev)
    moreover have "gs ! (count - 1) = strip_while (\<lambda>g. g = 0) gs ! (count - 1)"
      using zs(1) that by (metis count_def diff_less nth_append zero_less_one)
    ultimately show ?thesis using \<open>strip_while (\<lambda>g. g = 0) gs \<noteq> []\<close>
      by (simp add: last_conv_nth count_def)
  qed
qed


lemma be_value_leading: "0 < d \<Longrightarrow> b ^ length ds \<le> be_value b (d # ds)"
  by (simp add: be_value_Cons trans_le_add1)

text \<open>What the digit span of a payload stands for.\<close>

lemma decode_shape:
  fixes gs :: "byte list"
  assumes ok: "groups_ok gs" and lead: "gs ! 0 \<noteq> 0"
    and pos: "0 < length (strip_while (\<lambda>g. g = 0) gs)"
  defines "count \<equiv> length (strip_while (\<lambda>g. g = 0) gs)"
  defines "\<delta> \<equiv> (if unat (gs ! (count - 1)) mod 10 = 0 then 1 else 0 :: nat)"
  defines "a \<equiv> (if unat (gs ! 0) < 10 then 1 else 0 :: nat)" and "b \<equiv> count * 2 - \<delta>"
  defines "q \<equiv> be_value 10 (map (group_digit gs) [a..<b])"
  shows "a < b" "b + \<delta> = 2 * count" "q mod 10 \<noteq> 0" "dec_len q = b - a" "q < 10 ^ (b - a)"
    "groups_value gs = q * 10 ^ (\<delta> + 2 * (length gs - count))"
    "digits_ok 10 (map (group_digit gs) [a..<b])"
proof -
  note C = count_props [of gs, folded count_def]
  have count: "0 < count" "count \<le> length gs" and last: "unat (gs ! (count - 1)) \<noteq> 0"
    and first: "unat (gs ! 0) \<noteq> 0"
    using pos C lead by (auto simp: count_def [symmetric] unsigned_eq_0_iff)
  show ab: "a < b" and b: "b + \<delta> = 2 * count"
    using count first by (cases "count = 1"; auto simp: a_def b_def \<delta>_def)+
  have hd: "group_digit gs a \<noteq> 0"
    using first by (simp add: group_digit_def a_def div_greater_zero_iff)
  have lst: "group_digit gs (b - 1) \<noteq> 0"
  proof (cases "unat (gs ! (count - 1)) mod 10 = 0")
    case True
    then have "b - 1 = 2 * (count - 1)" by (simp add: b_def \<delta>_def)
    then show ?thesis using last True by (simp only: group_digit_even) (metis mod_div_trivial div_mult_mod_eq mult_0 add_0)
  next
    case False
    then have "b - 1 = 2 * (count - 1) + 1" using count by (simp add: b_def \<delta>_def)
    then show ?thesis using False by (simp only: group_digit_odd not_False_eq_True)
  qed
  have bound: "b \<le> 2 * length gs" using b count by linarith
  show dok: "digits_ok 10 (map (group_digit gs) [a..<b])"
    using ok bound by (auto simp: digits_ok_def)
  then show less: "q < 10 ^ (b - a)" unfolding q_def using be_value_less by fastforce
  have "[a..<b] = a # [Suc a..<b]" using ab by (rule upt_conv_Cons)
  then have "10 ^ (b - Suc a) \<le> q" unfolding q_def using be_value_leading [of "group_digit gs a" 10 "map (group_digit gs) [Suc a..<b]"] hd by simp
  then show "dec_len q = b - a" using dec_len_unique [of "b - Suc a" q] less ab by (simp add: Suc_diff_Suc)
  have "[a..<b] = [a..<b - 1] @ [b - 1]" using ab upt_Suc_append [of a "b - 1"] by simp
  then have "q mod 10 = group_digit gs (b - 1)"
    using ok bound ab group_digit_less [of gs "b - 1"] by (simp add: q_def)
  then show "q mod 10 \<noteq> 0" using lst by simp
  have split: "[0..<2 * count] = [0..<a] @ [a..<b] @ [b..<2 * count]"
    using ab b upt_add_eq_append [of 0 a "2 * count - a"] upt_add_eq_append [of a b "2 * count - b"]
    by simp
  have z1: "map (group_digit gs) [0..<a] = replicate a 0"
    by (auto simp: a_def group_digit_def)
  have z2: "map (group_digit gs) [b..<2 * count] = replicate \<delta> 0"
  proof (cases "\<delta> = 1")
    case True
    then have m: "unat (gs ! (count - 1)) mod 10 = 0" unfolding \<delta>_def by (metis zero_neq_one)
    obtain k where k: "count = Suc k" using count gr0_implies_Suc by blast
    have "[b..<2 * count] = [2 * k + 1]" using b True k by simp
    then show ?thesis using True m k by (simp only: list.map group_digit_odd) simp
  next
    case False
    then have "\<delta> = 0" unfolding \<delta>_def by presburger
    then show ?thesis using b by simp
  qed
  have lead0: "be_value 10 (replicate a 0 @ ds) = be_value 10 ds" for ds
    by (simp add: a_def be_value_Cons)
  have "be_value 10 (replicate \<delta> 0) = 0" by (simp add: be_value_def)
  then have tail0: "be_value 10 (ds @ replicate \<delta> 0) = be_value 10 ds * 10 ^ \<delta>" for ds
    by (simp only: be_value_append length_replicate add_0_right)
  have "groups_value (take count gs) = q * 10 ^ \<delta>"
    unfolding group_digits_value [OF count(2), symmetric] split map_append z1 z2 lead0 q_def
    by (rule tail0)
  then show "groups_value gs = q * 10 ^ (\<delta> + 2 * (length gs - count))"
    using groups_value_strip [of gs count] C(3) by (simp add: power_add power_mult)
qed


section \<open>Decoding\<close>

lemma import_small:
  assumes mem: "\<forall>k. mem k" and ls: "digits_ok limb_base ls" "length ls = coefficient_limbs" and s: "in_i32 s"
  shows "\<exists>w. sqli_decimal_set_parts mem (Some v) (Some \<lparr>p_limbs = Some ls, p_limb_count = coefficient_limbs,
      p_scale = s, p_negative = neg, p_is_null = False\<rparr>) = (SQLI_OK, Some w) \<and> decimal_wf w \<and>
    decimal_coeff w = le_value limb_base ls \<and> d_scale w = s \<and> \<not> d_is_null w \<and>
    (d_negative w \<longleftrightarrow> neg \<and> le_value limb_base ls \<noteq> 0)"
proof -
  let ?p = "\<lparr>p_limbs = Some ls, p_limb_count = coefficient_limbs,
      p_scale = s, p_negative = neg, p_is_null = False\<rparr>"
  have pl: "parts_limbs ?p = ls" using ls by (simp add: parts_limbs_def)
  have "le_value limb_base ls < limb_base ^ 4" using le_value_less [OF ls(1)] ls(2) by (simp add: codec_consts)
  then have "le_value limb_base ls < 10 ^ 36" by (simp add: decimal_consts)
  then have "dec_len (le_value limb_base ls) \<le> 36" by (rule dec_len_le) simp
  then have "dec_len (le_value limb_base ls) \<le> SQLI_DECIMAL_MAX_DIGITS" by (simp add: decimal_consts)
  then have "fst (import_parts mem ?p v) = SQLI_OK"
    using import_parts_status [OF mem, of ?p v] ls unfolding pl by (simp add: decimal_consts codec_consts)
  then obtain w where w: "import_parts mem ?p v = (SQLI_OK, w)" by (metis prod.collapse)
  show ?thesis using import_parts_OK [OF w] s w unfolding pl
    by (simp add: sqli_decimal_set_parts_def)
qed

lemma coefficient_limbs_value:
  assumes "digits_ok 10 ds" "length ds + ez \<le> 32"
  defines "ls \<equiv> fold append_digit (replicate ez 0) (fold append_digit ds (replicate coefficient_limbs 0))"
  shows "digits_ok limb_base ls \<and> length ls = coefficient_limbs \<and>
    le_value limb_base ls = be_value 10 ds * 10 ^ ez"
proof -
  have bound: "be_value 10 ds * 10 ^ ez < limb_base ^ coefficient_limbs"
  proof -
    have "be_value 10 ds * 10 ^ ez < 10 ^ length ds * 10 ^ ez" using be_value_less [OF assms(1)] by simp
    also have "\<dots> = 10 ^ (length ds + ez)" by (simp add: power_add)
    also have "\<dots> \<le> 10 ^ 32" using assms(2) by (intro power_increasing) simp_all
    also have "(10 :: nat) ^ 32 < limb_base ^ coefficient_limbs" by (simp add: decimal_consts codec_consts)
    finally show ?thesis .
  qed
  have "be_value 10 ds \<le> be_value 10 ds * 10 ^ ez" by simp
  then have "be_value 10 ds < limb_base ^ coefficient_limbs" using bound by (rule le_less_trans)
  then have F: "digits_ok limb_base (fold append_digit ds (replicate coefficient_limbs 0)) \<and>
      length (fold append_digit ds (replicate coefficient_limbs 0)) = coefficient_limbs \<and>
      le_value limb_base (fold append_digit ds (replicate coefficient_limbs 0)) = be_value 10 ds"
    using fold_append_digit [of "replicate coefficient_limbs 0" ds] assms(1) by simp
  have z: "be_value 10 (replicate ez 0) = 0" by (simp add: be_value_def)
  show ?thesis
    using fold_append_digit [of "fold append_digit ds (replicate coefficient_limbs 0)" "replicate ez 0"]
      F bound z by (simp add: ls_def)
qed

lemma wire_scale_value:
  fixes q G count \<delta> :: nat
  assumes "count \<le> G"
  shows "of_nat (q * 10 ^ (\<delta> + 2 * (G - count))) * 100 powi (e - int G) =
    (of_nat q * 10 powi (int \<delta> + 2 * e - 2 * int count) :: rat)"
proof -
  have "(100 :: rat) powi (e - int G) = 10 powi (2 * (e - int G))"
    using power_int_mult [of "10 :: rat" 2 "e - int G"] by simp
  then show ?thesis
    using assms by (simp flip: power_int_of_nat add: power_int_add [symmetric] of_nat_diff algebra_simps)
qed

text \<open>The straight-line run of the decoder on a payload that it accepts.\<close>

lemma decode_coefficient_run:
  assumes len: "length bytes = t_width type" and ok: "groups_ok (tl bytes)"
    and gs: "gs = wire_groups bytes" and count: "count = length (strip_while (\<lambda>g. g = 0) gs)"
    and "end = count * 2 - (if unat (gs ! (count - 1)) mod 10 = 0 then 1 else 0)"
    and "first = (if unat (gs ! 0) < 10 then 1 else 0)"
    and "scale = int (count * 2) - wire_exponent bytes * 2 - (if unat (gs ! (count - 1)) mod 10 = 0 then 1 else 0)"
    and "count \<noteq> 0" "\<not> (count > max_coefficient_groups \<or> gs ! 0 = 0)" "\<not> end - first > t_precision type"
    and "\<not> (t_scale type \<noteq> floating_scale \<and>
      (int (t_scale type) - scale < 0 \<or> int (t_scale type) - scale > int (t_precision type - (end - first))))"
  shows "decode_coefficient mem bytes type out = sqli_decimal_set_parts mem out
    (Some \<lparr>p_limbs = Some (fold append_digit
              (replicate (if t_scale type \<noteq> floating_scale then nat (int (t_scale type) - scale) else 0) 0)
              (fold append_digit (map (group_digit gs) [first..<end]) (replicate coefficient_limbs 0))),
       p_limb_count = coefficient_limbs,
       p_scale = (if t_scale type = floating_scale then scale else int (t_scale type)),
       p_negative = wire_negative bytes, p_is_null = False\<rparr>)"
proof -
  have payload: "take (t_width type - 1) (tl bytes) = tl bytes" using len by simp
  have range: "\<not> (\<exists>g \<in> set (tl bytes). 100 \<le> unat g)" using ok by (auto simp: groups_ok_def not_le)
  have groups: "(if wire_negative bytes then sqli_base100_radix_complement (tl bytes) else tl bytes) = gs"
    by (simp add: gs wire_groups_def)
  have ex: "(if wire_negative bytes then int (unat (hd bytes XOR 0x7f)) - exponent_bias
      else int (unat (hd bytes AND 0x7f)) - exponent_bias) = wire_exponent bytes"
    by (simp add: wire_exponent_def)
  show ?thesis
    unfolding decode_coefficient_def Let_def payload wire_negative_def [symmetric] groups
      count [symmetric] ex assms(5-7) [symmetric] if_not_P [OF range] if_not_P [OF assms(8)]
      if_not_P [OF assms(9)] if_not_P [OF assms(10)] if_not_P [OF assms(11)]
    by (cases "t_scale type = floating_scale") simp_all
qed

text \<open>The payload's shape, and when and how a nonzero one decodes.\<close>

lemma decode_nonzero:
  assumes mem: "\<forall>k. mem k" and ty: "decode_type descriptor = Inr type"
    and len: "length bytes = t_width type" and ok: "groups_ok (tl bytes)"
  defines "gs \<equiv> wire_groups bytes" and "count \<equiv> length (strip_while (\<lambda>g. g = 0) (wire_groups bytes))"
  defines "\<delta> \<equiv> (if unat (gs ! (count - 1)) mod 10 = 0 then 1 else 0 :: nat)"
  defines "n \<equiv> count * 2 - \<delta> - (if unat (gs ! 0) < 10 then 1 else 0 :: nat)"
  defines "scale \<equiv> 2 * int count - 2 * wire_exponent bytes - int \<delta>"
  assumes count: "0 < count" and lead: "gs ! 0 \<noteq> 0" and max: "count \<le> max_coefficient_groups"
    and digits: "n \<le> t_precision type"
    and fixed: "t_scale type \<noteq> floating_scale \<longrightarrow> 0 \<le> int (t_scale type) - scale \<and>
      int (t_scale type) - scale \<le> int (t_precision type - n)"
  shows "\<exists>w. decode_coefficient mem bytes type (Some v) = (SQLI_OK, Some w) \<and> decimal_wf w \<and>
    \<not> d_is_null w \<and> decimal_value w = wire_value bytes \<and>
    d_scale w = (if t_scale type = floating_scale then scale else int (t_scale type))"
proof -
  have T: "length (tl bytes) = t_width type - 1" "t_precision type \<le> 32"
    using len decode_type_OK [OF ty] by simp_all
  have gok: "groups_ok gs" and glen: "length gs = t_width type - 1"
    using ok T by (simp_all add: gs_def wire_groups_def)
  let ?a = "if unat (gs ! 0) < 10 then 1 else 0 :: nat" and ?b = "count * 2 - \<delta>"
  note D = decode_shape [OF gok lead, folded gs_def, folded count_def, folded \<delta>_def]
  have cgs: "count = length (strip_while (\<lambda>g. g = 0) gs)" by (simp add: count_def gs_def)
  let ?ds = "map (group_digit gs) [?a..<?b]"
  let ?ez = "if t_scale type \<noteq> floating_scale then nat (int (t_scale type) - scale) else 0"
  let ?s = "if t_scale type = floating_scale then scale else int (t_scale type)"
  have dok: "digits_ok 10 ?ds" and val: "groups_value gs = be_value 10 ?ds * 10 ^ (\<delta> + 2 * (length gs - count))"
    and qpos: "be_value 10 ?ds mod 10 \<noteq> 0"
    using decode_shape [OF gok lead] count unfolding cgs [symmetric] \<delta>_def [symmetric] by simp_all
  have "length ?ds + ?ez \<le> 32" using digits fixed T(2) by (auto simp: n_def)
  note L = coefficient_limbs_value [OF dok this]
  obtain k :: byte where k: "wire_exponent bytes = int (unat k) - 64"
  proof
    show "wire_exponent bytes =
        int (unat (if wire_negative bytes then hd bytes XOR 0x7f else hd bytes AND 0x7f)) - 64"
      by (simp add: wire_exponent_def codec_consts)
  qed
  have e: "- 64 \<le> wire_exponent bytes" "wire_exponent bytes < 256"
    unfolding k using unat_byte_less [of k] by linarith+
  have "in_i32 ?s"
    using e max decode_type_OK(7) [OF ty] by (auto simp: in_i32_def scale_def codec_consts \<delta>_def)
  then obtain w where w: "sqli_decimal_set_parts mem (Some v)
      (Some \<lparr>p_limbs = Some (fold append_digit (replicate ?ez 0) (fold append_digit ?ds (replicate coefficient_limbs 0))),
        p_limb_count = coefficient_limbs, p_scale = ?s, p_negative = wire_negative bytes, p_is_null = False\<rparr>) =
      (SQLI_OK, Some w)" "decimal_wf w" "decimal_coeff w = be_value 10 ?ds * 10 ^ ?ez" "d_scale w = ?s"
      "\<not> d_is_null w" "d_negative w \<longleftrightarrow> wire_negative bytes \<and> be_value 10 ?ds * 10 ^ ?ez \<noteq> 0"
    using import_small [OF mem, of _ ?s v "wire_negative bytes"] L by metis
  have payload: "take (t_width type - 1) (tl bytes) = tl bytes" using T by simp
  have "decode_coefficient mem bytes type (Some v) = (SQLI_OK, Some w)"
  proof -
    have n: "?b - ?a = n" by (simp add: n_def)
    show ?thesis
      unfolding w(1) [symmetric]
    proof (rule decode_coefficient_run [OF len ok gs_def [THEN meta_eq_to_obj_eq] cgs])
      show "?b = count * 2 - (if unat (gs ! (count - 1)) mod 10 = 0 then 1 else 0)" by (simp add: \<delta>_def)
      show "scale = int (count * 2) - wire_exponent bytes * 2 -
          (if unat (gs ! (count - 1)) mod 10 = 0 then 1 else 0)" by (simp add: scale_def \<delta>_def)
      show "\<not> (t_scale type \<noteq> floating_scale \<and>
          (int (t_scale type) - scale < 0 \<or> int (t_scale type) - scale > int (t_precision type - (?b - ?a))))"
        unfolding n using fixed by linarith
      show "\<not> ?b - ?a > t_precision type" unfolding n using digits by simp
    qed (use count lead max in simp_all)
  qed
  moreover have "decimal_value w = wire_value bytes"
  proof -
    have "count \<le> length gs" using count_props(1) [of gs] by (simp add: cgs)
    from wire_scale_value [OF this, of "be_value 10 ?ds" \<delta> "wire_exponent bytes"]
    have "wire_value bytes = (if wire_negative bytes then - 1 else 1) * of_nat (be_value 10 ?ds) * 10 powi (- scale)"
      using len T(1) glen by (simp add: wire_value_def gs_def [symmetric] val scale_def algebra_simps)
    moreover have "(10 :: rat) powi (- scale) = 10 ^ ?ez * 10 powi (- ?s)"
      using fixed by (simp flip: power_int_of_nat add: power_int_add [symmetric])
    ultimately show ?thesis using w(3-6) qpos
      by (auto simp: decimal_value_mag mag_def)
  qed
  ultimately show ?thesis using w by blast
qed


section \<open>Encoding\<close>

abbreviation value_parts :: "sqli_decimal \<Rightarrow> sqli_decimal_parts" where
  "value_parts v \<equiv> \<lparr>p_limbs = Some (d_limbs v), p_limb_count = length (d_limbs v), p_scale = d_scale v,
     p_negative = d_negative v, p_is_null = d_is_null v\<rparr>"

lemma get_parts_value:
  "d_limbs v \<noteq> [] \<Longrightarrow> sqli_decimal_get_parts (Some v) = Inr (value_parts v)"
  by (simp add: sqli_decimal_get_parts_def)

lemma coefficient_digits_eq:
  assumes "decimal_wf v" "d_limbs v \<noteq> []"
  shows "coefficient_digits (value_parts v) = dec_len (decimal_coeff v)"
  using limbs_digits_eq [of "d_limbs v"] assms
  by (simp add: coefficient_digits_def limbs_digits_def decimal_coeff_def last_conv_nth)

lemma coefficient_digit_eq:
  assumes wf: "decimal_wf v" and ne: "d_limbs v \<noteq> []" and "i < dec_len (decimal_coeff v)"
  shows "coefficient_digit (value_parts v) (dec_len (decimal_coeff v) - 1 - i) =
    decimal_coeff v div 10 ^ (dec_len (decimal_coeff v) - 1 - i) mod 10"
  using decimal_digit_eq [OF wf ne, of i] assms
  by (simp add: coefficient_digit_def decimal_digit_def Let_def diff_right_commute)

lemma limb_zeros_props:
  "l \<noteq> 0 \<Longrightarrow> 10 ^ limb_zeros l dvd l \<and> l div 10 ^ limb_zeros l mod 10 \<noteq> 0"
proof (induction l rule: limb_zeros.induct)
  case (1 l)
  show ?case
  proof (cases "l mod 10 = 0")
    case True
    then have ne: "l div 10 \<noteq> 0" and l: "l = 10 * (l div 10)" using "1.prems" by auto
    have z: "limb_zeros l = Suc (limb_zeros (l div 10))"
      using True "1.prems" by (subst limb_zeros.simps) simp
    have IH: "10 ^ limb_zeros (l div 10) dvd l div 10 \<and> l div 10 div 10 ^ limb_zeros (l div 10) mod 10 \<noteq> 0"
      using "1.IH" True "1.prems" ne by blast
    have "10 ^ limb_zeros l dvd 10 * (l div 10)" unfolding z using IH by (simp add: mult_dvd_mono)
    then show ?thesis using IH l z by (simp add: div_mult2_eq)
  next
    case False
    then show ?thesis by (subst (1 2) limb_zeros.simps) simp
  qed
qed

lemma trailing_zeros_loop_props:
  assumes "le_value limb_base ls \<noteq> 0" "digits_ok limb_base ls"
  shows "\<exists>k. trailing_zeros_loop z ls = z + k \<and> 10 ^ k dvd le_value limb_base ls \<and>
    le_value limb_base ls div 10 ^ k mod 10 \<noteq> 0"
  using assms
proof (induction ls arbitrary: z)
  case (Cons l ls)
  let ?v = "le_value limb_base ls"
  show ?case
  proof (cases "l = 0")
    case True
    obtain k where k: "trailing_zeros_loop (z + limb_digits) ls = z + limb_digits + k"
      "10 ^ k dvd ?v" "?v div 10 ^ k mod 10 \<noteq> 0"
      using Cons.IH [of "z + limb_digits"] Cons.prems True by auto
    have b: "limb_base = 10 ^ limb_digits" by (rule limb_base_eq)
    have "limb_base * ?v div 10 ^ (limb_digits + k) = ?v div 10 ^ k"
      unfolding power_add b [symmetric] by (simp add: div_mult_mult1 decimal_consts)
    moreover have "10 ^ (limb_digits + k) dvd limb_base * ?v"
      unfolding power_add b [symmetric] using k(2) by (rule mult_dvd_mono [OF dvd_refl])
    ultimately show ?thesis using k True by (intro exI [of _ "limb_digits + k"]) simp
  next
    case False
    note L = limb_zeros_props [OF False]
    show ?thesis
    proof -
      have "10 ^ limb_zeros l \<le> l" using L False by (intro dvd_imp_le) simp_all
      also have "l < 10 ^ limb_digits" using Cons.prems(2) by (simp add: limb_base_eq)
      finally have "limb_zeros l < limb_digits" by (rule power_less_imp_less_exp [rotated]) simp
      then obtain j where j: "limb_digits = limb_zeros l + Suc j" using less_imp_Suc_add by fastforce
      then have b: "limb_base = 10 ^ limb_zeros l * (10 * 10 ^ j)"
        unfolding limb_base_eq j by (simp add: power_add)
      obtain m where m: "l = 10 ^ limb_zeros l * m" using L by blast
      have val: "l + limb_base * ?v = 10 ^ limb_zeros l * (m + 10 * (10 ^ j * ?v))"
        unfolding b by (subst (1) m) (simp add: algebra_simps)
      have "m mod 10 \<noteq> 0" using L m by (metis nonzero_mult_div_cancel_left power_not_zero zero_neq_numeral)
      then have "(l + limb_base * ?v) div 10 ^ limb_zeros l mod 10 \<noteq> 0"
        unfolding val by simp
      moreover have "10 ^ limb_zeros l dvd l + limb_base * ?v" unfolding val by simp
      ultimately show ?thesis using False by (intro exI [of _ "limb_zeros l"]) simp
    qed
  qed
qed simp


lemma be_value_update:
  assumes "k < length xs"
  shows "be_value b (xs[k := y]) + xs ! k * b ^ (length xs - 1 - k) =
    be_value b xs + y * b ^ (length xs - 1 - k)"
  using le_value_update [of "length xs - 1 - k" "rev xs" b y] assms
  by (simp add: be_value_def rev_update rev_nth)

lemma groups_value_update:
  assumes "k < length gs"
  shows "groups_value (gs[k := y]) + unat (gs ! k) * 100 ^ (length gs - 1 - k) =
    groups_value gs + unat y * 100 ^ (length gs - 1 - k)"
  using be_value_update [of k "map unat gs" 100 "unat y"] assms
  by (simp add: groups_value_def map_update)

definition placed :: "sqli_decimal \<Rightarrow> nat \<Rightarrow> nat \<Rightarrow> byte list" where
  "placed v p i = fold (place_digit (value_parts v) (dec_len (decimal_coeff v)) p) [0..<i] (replicate 18 0)"

lemma placed_Suc:
  "placed v p (Suc i) = place_digit (value_parts v) (dec_len (decimal_coeff v)) p i (placed v p i)"
  by (simp add: placed_def)

lemma unat_add_u8: "unat b + x < 256 \<Longrightarrow> unat (b + u8 x) = unat b + x"
  by (simp add: unat_word_ariths(1) unat_u8)

lemma place_contribution:
  fixes d :: nat
  assumes "pos < 34"
  shows "(if pos mod 2 = 0 then d * 10 else d) * 100 ^ (16 - pos div 2) = d * 10 ^ (33 - pos)"
proof (cases "pos mod 2 = 0")
  case True
  then obtain k where "pos = 2 * k" by auto
  moreover from this have "33 - pos = Suc (2 * (16 - k))" using assms by simp
  ultimately show ?thesis by (simp add: power_mult)
next
  case False
  then obtain k where "pos = 2 * k + 1" by (metis odd_iff_mod_2_eq_one oddE not_mod_2_eq_0_eq_1)
  moreover from this have "33 - pos = 2 * (16 - k)" using assms by simp
  ultimately show ?thesis by (simp add: power_mult)
qed

lemma placed_props:
  assumes wf: "decimal_wf v" and ne: "d_limbs v \<noteq> []" and "i \<le> dec_len (decimal_coeff v)" "p + i \<le> 34"
  shows "length (placed v p i) = 18 \<and>
    groups_value (tl (placed v p i)) = decimal_coeff v div 10 ^ (dec_len (decimal_coeff v) - i) * 10 ^ (34 - p - i) \<and>
    (\<forall>k < 17. unat (placed v p i ! Suc k) \<le> (if p + i \<le> 2 * k then 0 else if p + i \<le> 2 * k + 1 then 90 else 99))"
  using assms(3,4)
proof (induction i)
  case 0
  have "groups_value (tl (placed v p 0)) = 0" by (rule groups_value_zero) (simp add: placed_def)
  moreover have "decimal_coeff v < 10 ^ dec_len (decimal_coeff v)" using dec_len_bounds by blast
  ultimately show ?case by (simp add: placed_def)
next
  case (Suc i)
  let ?c = "decimal_coeff v" and ?n = "dec_len (decimal_coeff v)" and ?e = "placed v p i"
  let ?pos = "i + p" and ?k = "(i + p) div 2"
  let ?d = "?c div 10 ^ (?n - 1 - i) mod 10"
  let ?x = "if ?pos mod 2 = 0 then ?d * 10 else ?d"
  have IH: "length ?e = 18" "groups_value (tl ?e) = ?c div 10 ^ (?n - i) * 10 ^ (34 - p - i)"
    "\<And>k. k < 17 \<Longrightarrow> unat (?e ! Suc k) \<le> (if p + i \<le> 2 * k then 0 else if p + i \<le> 2 * k + 1 then 90 else 99)"
    using Suc by auto
  have k: "?k < 17" using Suc.prems by simp
  have step: "placed v p (Suc i) = ?e[Suc ?k := ?e ! Suc ?k + u8 ?x]"
    unfolding placed_Suc place_digit_def Let_def coefficient_digit_eq [OF wf ne Suc_le_lessD [OF Suc.prems(1)]]
    by simp
  have old: "unat (?e ! Suc ?k) \<le> (if ?pos mod 2 = 0 then 0 else 90)"
  proof (cases "?pos mod 2 = 0")
    case True
    then have "p + i \<le> 2 * ?k" by presburger
    then show ?thesis using IH(3) [OF k] True by simp
  next
    case False
    then have "\<not> p + i \<le> 2 * ?k" "p + i \<le> 2 * ?k + 1" by presburger+
    then show ?thesis using IH(3) [OF k] False by simp
  qed
  have "?d < 10" by simp
  then have x: "unat (?e ! Suc ?k) + ?x \<le> (if ?pos mod 2 = 0 then 90 else 99)"
    using old by (auto split: if_splits)
  then have u: "unat (?e ! Suc ?k + u8 ?x) = unat (?e ! Suc ?k) + ?x"
    by (intro unat_add_u8) (auto split: if_splits)
  have tl: "tl (placed v p (Suc i)) = (tl ?e)[?k := ?e ! Suc ?k + u8 ?x]"
    unfolding step using IH(1) by (cases ?e) simp_all
  have nth: "tl ?e ! ?k = ?e ! Suc ?k" using IH(1) k by (simp add: nth_tl)
  have "groups_value (tl (placed v p (Suc i))) + unat (?e ! Suc ?k) * 100 ^ (16 - ?k) =
      groups_value (tl ?e) + (unat (?e ! Suc ?k) + ?x) * 100 ^ (16 - ?k)"
    using groups_value_update [of ?k "tl ?e" "?e ! Suc ?k + u8 ?x"] IH(1) k unfolding tl nth u by simp
  then have "groups_value (tl (placed v p (Suc i))) = groups_value (tl ?e) + ?x * 100 ^ (16 - ?k)"
    by (simp add: algebra_simps)
  also have "?x * 100 ^ (16 - ?k) = ?d * 10 ^ (33 - ?pos)"
    using place_contribution [of ?pos ?d] Suc.prems by simp
  also have "groups_value (tl ?e) + ?d * 10 ^ (33 - ?pos) = (?c div 10 ^ (?n - i) * 10 + ?d) * 10 ^ (34 - p - Suc i)"
  proof -
    have e: "34 - p - i = Suc (34 - p - Suc i)" "33 - ?pos = 34 - p - Suc i" using Suc.prems by simp_all
    show ?thesis unfolding IH(2) e power_Suc by (simp only: distrib_right mult.assoc)
  qed
  also have "?c div 10 ^ (?n - i) * 10 + ?d = ?c div 10 ^ (?n - Suc i)"
  proof -
    have e: "?n - i = Suc (?n - Suc i)" "?n - 1 - i = ?n - Suc i" using Suc.prems by simp_all
    have "?c div 10 ^ (?n - i) = ?c div 10 ^ (?n - Suc i) div 10"
      unfolding e(1) power_Suc2 by (rule div_mult2_eq)
    then show ?thesis unfolding e(2) by (simp only: div_mult_mod_eq)
  qed
  finally have val: "groups_value (tl (placed v p (Suc i))) = ?c div 10 ^ (?n - Suc i) * 10 ^ (34 - p - Suc i)" .
  have bounds: "unat (placed v p (Suc i) ! Suc k) \<le>
      (if p + Suc i \<le> 2 * k then 0 else if p + Suc i \<le> 2 * k + 1 then 90 else 99)" if "k < 17" for k
  proof (cases "k = ?k")
    case True
    then have "\<not> p + Suc i \<le> 2 * k" "p + Suc i \<le> 2 * k + 1 \<longleftrightarrow> ?pos mod 2 = 0" by presburger+
    then show ?thesis using x u True IH(1) that unfolding step by (auto split: if_splits)
  next
    case False
    then have "placed v p (Suc i) ! Suc k = ?e ! Suc k" unfolding step by simp
    moreover have "(p + i \<le> 2 * k \<and> p + Suc i \<le> 2 * k) \<or> \<not> p + i \<le> 2 * k + 1"
      using False by presburger
    ultimately show ?thesis using IH(3) [OF that] by auto
  qed
  show ?case using val bounds IH(1) step by simp
qed


text \<open>The exponent and padding of a coefficient with \<open>i\<close> integral digits.\<close>

lemma padding_cases:
  fixes i :: int
  defines "e \<equiv> if i \<ge> 0 then c_div (i + 1) 2 else c_div i 2"
  shows "2 * e - i = 0 \<or> 2 * e - i = 1"
proof (cases "0 \<le> i")
  case True
  then show ?thesis by (simp add: e_def) presburger
next
  case False
  then have "e = - ((- i) div 2)" by (simp add: e_def c_div_def)
  then show ?thesis by presburger
qed

lemma whole_quotient: "a * b + r = c * b \<Longrightarrow> r < b \<Longrightarrow> a = (c :: nat)"
proof -
  assume *: "a * b + r = c * b" "r < b"
  have "(a * b + r) div b = a" using *(2) by simp
  moreover have "(a * b + r) div b = c" using *(2) unfolding *(1) by simp
  ultimately show ?thesis by simp
qed

text \<open>What a successful run of the coefficient encoder has written.\<close>

lemma encode_coefficient_run:
  assumes wf: "decimal_wf v" and ne: "d_limbs v \<noteq> []" and ty: "decode_type descriptor = Inr type"
    and run: "encode_coefficient (value_parts v) type (replicate SQLI_DECIMAL_WIRE_CAPACITY 0) = Inr enc"
  obtains z m e p gs where "decimal_coeff v = m * 10 ^ z" "m mod 10 \<noteq> 0" "p \<le> 1"
    "int p = 2 * e - (int (dec_len m + z) - d_scale v)" "- 64 \<le> e" "e \<le> 63"
    "groups_ok gs" "length gs = t_width type - 1" "p + dec_len m \<le> 2 * length gs"
    "p + dec_len m \<le> 32"
    "groups_value gs = m * 10 ^ (2 * length gs - p - dec_len m)"
    "take (t_width type) enc = lead_byte (d_negative v) (nat (e + 64)) #
       (if d_negative v then sqli_base100_radix_complement gs else gs)"
    "if t_scale type = floating_scale then dec_len m \<le> t_precision type
     else d_scale v - int (t_scale type) \<le> int z \<and>
       int (dec_len m + z) - d_scale v + int (t_scale type) \<le> int (t_precision type)"
proof -
  let ?c = "decimal_coeff v"
  define n where "n = dec_len ?c"
  have c: "?c \<noteq> 0" using coeff_pos wf ne by blast
  have lok: "digits_ok limb_base (d_limbs v)" using wf by (simp add: decimal_wf_def)
  have "le_value limb_base (d_limbs v) \<noteq> 0" using c by (simp add: decimal_coeff_def)
  from trailing_zeros_loop_props [OF this lok, of 0]
  obtain z where z: "trailing_zeros (value_parts v) = z" "10 ^ z dvd ?c" "?c div 10 ^ z mod 10 \<noteq> 0"
    by (auto simp: trailing_zeros_def decimal_coeff_def)
  define m where "m = ?c div 10 ^ z"
  have cm: "?c = m * 10 ^ z" using z(2) by (simp add: m_def)
  have m0: "0 < m" using z(3) by (auto simp: m_def intro: gr0I)
  have n: "n = dec_len m + z" unfolding n_def cm using dec_len_mult_power [OF m0] .
  have sig: "n - z = dec_len m" by (simp add: n)
  let ?i = "int n - d_scale v"
  define e where "e = (if ?i \<ge> 0 then c_div (?i + 1) 2 else c_div ?i 2)"
  define p where "p = nat (e * 2 - ?i)"
  have p: "p \<le> 1" "int p = 2 * e - ?i" using padding_cases [of ?i, folded e_def] by (auto simp: p_def)
  have digits: "coefficient_digits (value_parts v) = n" by (simp add: n_def coefficient_digits_eq [OF wf ne])
  let ?lead = "u8 positive_flag OR u8 (nat (e + exponent_bias))"
  let ?enc = "(placed v p (n - z))[0 := ?lead]"
  have out: "fold (place_digit (value_parts v) n p) [0..<n - z] (replicate SQLI_DECIMAL_WIRE_CAPACITY 0) = placed v p (n - z)"
    by (simp add: placed_def n_def SQLI_DECIMAL_WIRE_CAPACITY_def)
  note run' = run [unfolded encode_coefficient_def Let_def digits z(1) sig [symmetric]
      decimal_wire_type.simps sqli_decimal_parts.simps, folded e_def, folded p_def, unfolded out]
  have conds: "if t_scale type = floating_scale then n - z \<le> t_precision type
      else d_scale v - int (t_scale type) \<le> int z \<and> int n - (d_scale v - int (t_scale type)) \<le> int (t_precision type)"
    and er: "- 64 \<le> e" "e \<le> 63"
    and gr: "(p + (n - z) + 1) div 2 \<le> 16" "(p + (n - z) + 1) div 2 \<le> t_width type - 1"
    and enc: "enc = (if d_negative v then (?lead XOR 0xff) #
        sqli_base100_radix_complement (take (t_width type - 1) (drop 1 ?enc)) @ drop (t_width type) ?enc else ?enc)"
    using run' unfolding codec_consts by (auto simp: not_less not_le split: if_splits)
  have w: "2 \<le> t_width type" "t_width type \<le> 18" using decode_type_OK [OF ty] by simp_all
  have span: "p + (n - z) \<le> 2 * (t_width type - 1)" "p + (n - z) \<le> 32" using gr by linarith+
  note P = placed_props [OF wf ne, folded n_def, of "n - z" p]
  have len: "length (placed v p (n - z)) = 18"
    and val: "groups_value (tl (placed v p (n - z))) = ?c div 10 ^ (n - (n - z)) * 10 ^ (34 - p - (n - z))"
    and bounds: "\<And>k. k < 17 \<Longrightarrow> unat (placed v p (n - z) ! Suc k) < 100"
    using P span by (auto split: if_splits intro: le_less_trans)
  define gs where "gs = take (t_width type - 1) (tl (placed v p (n - z)))"
  have glen: "length gs = t_width type - 1" using len w by (simp add: gs_def)
  have gok17: "groups_ok (tl (placed v p (n - z)))"
    using bounds len by (auto simp: groups_ok_def in_set_conv_nth nth_tl)
  then have gok: "groups_ok gs" by (auto simp: gs_def groups_ok_def dest: in_set_takeD)
  have gval: "groups_value gs = m * 10 ^ (2 * length gs - p - dec_len m)"
  proof -
    let ?G = "t_width type - 1" and ?t = "tl (placed v p (n - z))"
    let ?r = "groups_value (drop ?G ?t)"
    have r: "?r < 100 ^ (17 - ?G)"
      using groups_value_less [of "drop ?G ?t"] gok17 len by (auto simp: groups_ok_def dest: in_set_dropD)
    have "34 - p - (n - z) = 2 * (17 - ?G) + (2 * ?G - p - dec_len m)" using span w unfolding sig by simp
    moreover have "n - (n - z) = z" by (simp add: n)
    ultimately have V: "groups_value ?t = m * 10 ^ (2 * ?G - p - dec_len m) * 100 ^ (17 - ?G)"
      unfolding val m_def by (simp add: power_add power_mult)
    have "groups_value gs * 100 ^ (17 - ?G) + ?r = m * 10 ^ (2 * ?G - p - dec_len m) * 100 ^ (17 - ?G)"
      using groups_value_strip [of ?t ?G] len V by (simp add: gs_def)
    then have "groups_value gs = m * 10 ^ (2 * ?G - p - dec_len m)"
      using r by (rule whole_quotient)
    then show ?thesis by (simp add: glen)
  qed
  have "take (t_width type) enc = lead_byte (d_negative v) (nat (e + 64)) #
      (if d_negative v then sqli_base100_radix_complement gs else gs)"
  proof -
    obtain x xs where x: "placed v p (n - z) = x # xs" using len by (cases "placed v p (n - z)") auto
    obtain j where j: "t_width type = Suc j" using w by (cases "t_width type") auto
    show ?thesis unfolding enc using x j len w
      by (simp add: gs_def lead_byte_def exponent_bias_def)
  qed
  note shape = this
  show ?thesis
  proof (rule that [of m z p e gs])
    show "m mod 10 \<noteq> 0" using z(3) by (simp only: m_def not_False_eq_True)
    show "int p = 2 * e - (int (dec_len m + z) - d_scale v)" using p(2) by (simp only: n)
    show "p + dec_len m \<le> 2 * length gs" using span(1) by (simp only: sig glen)
    show "p + dec_len m \<le> 32" using span(2) by (simp only: sig)
    show "if t_scale type = floating_scale then dec_len m \<le> t_precision type
       else d_scale v - int (t_scale type) \<le> int z \<and>
         int (dec_len m + z) - d_scale v + int (t_scale type) \<le> int (t_precision type)"
    proof (cases "t_scale type = floating_scale")
      case True
      then show ?thesis using conds sig by simp
    next
      case False
      have "d_scale v - int (t_scale type) \<le> int z"
        "int n - (d_scale v - int (t_scale type)) \<le> int (t_precision type)"
        using conds unfolding if_not_P [OF False] by blast+
      then show ?thesis unfolding if_not_P [OF False] n by linarith
    qed
  qed (fact cm p(1) er gok glen gval shape)+
qed


lemma encoded_fields:
  fixes neg :: bool
  assumes "groups_ok gs" "n < 128"
  defines "bytes \<equiv> lead_byte neg n # (if neg then sqli_base100_radix_complement gs else gs)"
  shows "wire_negative bytes = neg" "wire_groups bytes = gs" "wire_exponent bytes = int n - 64"
    "groups_ok (tl bytes)"
  using assms lead_byte_props [OF assms(2)]
  by (cases neg; simp add: bytes_def wire_negative_def wire_groups_def wire_exponent_def exponent_bias_def)+

lemma ten_power_unique:
  fixes a b :: nat
  assumes "a * 10 ^ x = b * 10 ^ y" "a mod 10 \<noteq> 0" "b mod 10 \<noteq> 0"
  shows "a = b \<and> x = y"
proof -
  have aux: "x \<le> y \<Longrightarrow> a * 10 ^ x = b * 10 ^ y \<Longrightarrow> a mod 10 \<noteq> 0 \<Longrightarrow> a = b \<and> x = y" for a b x y :: nat
  proof -
    assume "x \<le> y" and eq: "a * 10 ^ x = b * 10 ^ y" and a: "a mod 10 \<noteq> 0"
    then have "10 ^ y = (10 :: nat) ^ (y - x) * 10 ^ x" by (simp flip: power_add)
    then have "a = b * 10 ^ (y - x)" using eq by simp
    then show ?thesis using a \<open>x \<le> y\<close> by (cases "y - x") simp_all
  qed
  show ?thesis using aux [of x y a b] aux [of y x b a] assms by (metis nle_le)
qed

lemma groups_lead_nonzero:
  assumes "groups_ok gs" "gs \<noteq> []" "100 ^ (length gs - 1) \<le> groups_value gs"
  shows "gs ! 0 \<noteq> 0"
proof
  assume z: "gs ! 0 = 0"
  obtain g hs where gs: "gs = g # hs" using assms(2) by (cases gs) auto
  then have "groups_value gs = groups_value hs" using z by (simp add: groups_value_def be_value_Cons)
  then show False using assms groups_value_less [of hs] gs by simp
qed

lemma encode_nonzero_decodes:
  assumes mem: "\<forall>k. mem k" and wf: "decimal_wf v" and ne: "d_limbs v \<noteq> []"
    and ty: "decode_type descriptor = Inr type"
    and run: "encode_coefficient (value_parts v) type (replicate SQLI_DECIMAL_WIRE_CAPACITY 0) = Inr enc"
  shows "length (take (t_width type) enc) = t_width type \<and> wire_value (take (t_width type) enc) = decimal_value v \<and>
    \<not> (\<forall>b \<in> set (take (t_width type) enc). b = 0) \<and>
    (\<exists>w. decode_coefficient mem (take (t_width type) enc) type (Some u) = (SQLI_OK, Some w) \<and>
      decimal_wf w \<and> \<not> d_is_null w \<and> decimal_value w = decimal_value v \<and>
      (t_scale type \<noteq> floating_scale \<longrightarrow> d_scale w = int (t_scale type)))"
proof -
  obtain z m e p gs where c: "decimal_coeff v = m * 10 ^ z" "m mod 10 \<noteq> 0" and p: "p \<le> 1"
    "int p = 2 * e - (int (dec_len m + z) - d_scale v)" and e: "- 64 \<le> e" "e \<le> 63"
    and gs: "groups_ok gs" "length gs = t_width type - 1" "p + dec_len m \<le> 2 * length gs"
    and small: "p + dec_len m \<le> 32"
    and val: "groups_value gs = m * 10 ^ (2 * length gs - p - dec_len m)"
    and bytes: "take (t_width type) enc = lead_byte (d_negative v) (nat (e + 64)) #
       (if d_negative v then sqli_base100_radix_complement gs else gs)"
    and fits: "if t_scale type = floating_scale then dec_len m \<le> t_precision type
     else d_scale v - int (t_scale type) \<le> int z \<and>
       int (dec_len m + z) - d_scale v + int (t_scale type) \<le> int (t_precision type)"
    by (rule encode_coefficient_run [OF wf ne ty run]) blast
  let ?b = "take (t_width type) enc"
  have n128: "nat (e + 64) < 128" using e by simp
  note F = encoded_fields [OF gs(1) n128, of "d_negative v", folded bytes]
  have ex: "wire_exponent ?b = e" using F(3) e by simp
  have len: "length ?b = t_width type"
    unfolding bytes using gs(2) decode_type_OK(5) [OF ty] by simp
  have m0: "0 < m" using c(2) by (cases m) auto
  have lead: "gs ! 0 \<noteq> 0"
  proof (rule groups_lead_nonzero [OF gs(1)])
    show "gs \<noteq> []"
    proof
      assume "gs = []"
      then show False using gs(3) dec_len_pos [of m] by simp
    qed
    have "10 ^ (dec_len m - 1) \<le> m" using dec_len_bounds m0 by blast
    then have "10 ^ (dec_len m - 1) * 10 ^ (2 * length gs - p - dec_len m) \<le> groups_value gs"
      unfolding val by (rule mult_le_mono1)
    then have top: "10 ^ (dec_len m - 1 + (2 * length gs - p - dec_len m)) \<le> groups_value gs"
      by (simp only: power_add)
    have "2 * (length gs - 1) \<le> dec_len m - 1 + (2 * length gs - p - dec_len m)"
      using p(1) gs(3) dec_len_pos [of m] by linarith
    then have "(10 :: nat) ^ (2 * (length gs - 1)) \<le> 10 ^ (dec_len m - 1 + (2 * length gs - p - dec_len m))"
      by (rule power_increasing) simp
    moreover have "(100 :: nat) ^ (length gs - 1) = 10 ^ (2 * (length gs - 1))" by (simp add: power_mult)
    ultimately show "100 ^ (length gs - 1) \<le> groups_value gs" using top by linarith
  qed
  define count where "count = length (strip_while (\<lambda>g. g = 0) gs)"
  have cpos: "0 < count"
    using count_props(2) [of gs] lead gs(2,3) dec_len_pos [of m] by (fastforce simp: count_def)
  have cle: "count \<le> length gs" using count_props(1) by (simp add: count_def)
  define \<delta> where "\<delta> = (if unat (gs ! (count - 1)) mod 10 = 0 then 1 else 0 :: nat)"
  define a where "a = (if unat (gs ! 0) < 10 then 1 else 0 :: nat)"
  define q where "q = be_value 10 (map (group_digit gs) [a..<count * 2 - \<delta>])"
  note D = decode_shape [OF gs(1) lead, folded count_def, folded \<delta>_def, folded a_def, folded q_def, OF cpos]
  have "q = m \<and> \<delta> + 2 * (length gs - count) = 2 * length gs - p - dec_len m"
    by (rule ten_power_unique) (use D(3,6) val c(2) in simp_all)
  then have qm: "dec_len m = count * 2 - \<delta> - a" and span: "p + dec_len m = 2 * count - \<delta>"
    using D(1,2,4) cle gs(3) by auto
  let ?scale = "2 * int count - 2 * e - int \<delta>"
  have \<delta>: "\<delta> \<le> 1" "\<delta> \<le> 2 * count" using cpos by (auto simp: \<delta>_def)
  have scale: "?scale = d_scale v - int z" using p(2) span \<delta> by linarith
  have max: "count \<le> max_coefficient_groups" using span small \<delta> by (simp add: codec_consts)
  have "\<exists>w. decode_coefficient mem ?b type (Some u) = (SQLI_OK, Some w) \<and> decimal_wf w \<and>
    \<not> d_is_null w \<and> decimal_value w = wire_value ?b \<and>
    d_scale w = (if t_scale type = floating_scale then ?scale else int (t_scale type))"
  proof (rule decode_nonzero [OF mem ty len F(4), unfolded F(2) ex, folded count_def, folded \<delta>_def,
        folded a_def, OF cpos lead max])
    show "count * 2 - \<delta> - a \<le> t_precision type"
      unfolding qm [symmetric] using fits by (auto split: if_splits)
    show "t_scale type \<noteq> floating_scale \<longrightarrow> 0 \<le> int (t_scale type) - ?scale \<and>
        int (t_scale type) - ?scale \<le> int (t_precision type - (count * 2 - \<delta> - a))"
      unfolding qm [symmetric] scale using fits by (auto split: if_splits)
  qed
  moreover have "wire_value ?b = decimal_value v"
  proof -
    have "decimal_coeff v \<noteq> 0" using coeff_pos [OF wf ne] by simp
    have x: "int (2 * length gs - p - dec_len m) = 2 * int (length gs) - int p - int (dec_len m)"
      using gs(3) by simp
    have "(100 :: rat) powi (e - int (length gs)) = 10 powi (2 * (e - int (length gs)))"
      using power_int_mult [of "10 :: rat" 2 "e - int (length gs)"] by simp
    then have "of_nat (groups_value gs) * (100 :: rat) powi (e - int (length gs)) =
        of_nat m * 10 powi (int z - d_scale v)"
    proof -
      have "int (2 * length gs - p - dec_len m) + 2 * (e - int (length gs)) = int z - d_scale v"
        using p(2) unfolding x by simp
      then have "(10 :: rat) ^ (2 * length gs - p - dec_len m) * 10 powi (2 * (e - int (length gs))) =
          10 powi (int z - d_scale v)"
        by (simp only: power_int_of_nat [symmetric] power_int_add [of "10 :: rat", symmetric]
            disjI1 zero_neq_numeral [symmetric] not_False_eq_True simp_thms)
      then show ?thesis using \<open>100 powi (e - int (length gs)) = 10 powi (2 * (e - int (length gs)))\<close>
        unfolding val by simp
    qed
    moreover have "mag v = of_nat m * 10 powi (int z - d_scale v)"
      by (simp add: mag_def c power_int_diff power_int_minus field_simps)
    ultimately show ?thesis
      using len gs(2) by (simp add: wire_value_def F(1,2) ex decimal_value_mag)
  qed
  moreover have "\<not> (\<forall>b \<in> set ?b. b = 0)"
  proof
    assume "\<forall>b \<in> set ?b. b = 0"
    then have z: "lead_byte (d_negative v) (nat (e + 64)) = 0" "\<forall>b \<in> set (tl ?b). b = 0" unfolding bytes by auto
    show False
    proof (cases "d_negative v")
      case False
      then show ?thesis using z(1) lead_byte_props(4) [OF n128] by simp
    next
      case True
      then have "groups_value (sqli_base100_radix_complement gs) = 0"
        using z(2) groups_value_zero unfolding bytes by simp
      then have "groups_value gs = 0"
        using complement_value [OF gs(1)] groups_value_less [OF gs(1)] by (simp split: if_splits)
      then show False using val m0 by simp
    qed
  qed
  ultimately show ?thesis using len by auto
qed


section \<open>Properties\<close>

lemma zero_bytes_decode:
  assumes mem: "\<forall>k. mem k" and ty: "decode_type descriptor = Inr type"
  defines "bytes \<equiv> take (t_width type) ((replicate SQLI_DECIMAL_WIRE_CAPACITY (0 :: byte))[0 := u8 positive_flag])"
  shows "length bytes = t_width type" "wire_value bytes = 0" "\<not> (\<forall>b \<in> set bytes. b = 0)"
    "\<exists>w. decode_coefficient mem bytes type (Some u) = (SQLI_OK, Some w) \<and> decimal_wf w \<and>
      \<not> d_is_null w \<and> decimal_value w = 0 \<and> (t_scale type \<noteq> floating_scale \<longrightarrow> d_scale w = int (t_scale type))"
proof -
  note T = decode_type_OK [OF ty]
  obtain j where j: "t_width type = Suc j" using T(5) by (cases "t_width type") simp_all
  then have "j \<le> 17" using T(6) by simp
  note j = j this
  have b: "bytes = u8 128 # replicate j 0"
  proof -
    have "replicate 18 (0 :: byte) = 0 # replicate 17 0" by (simp add: numeral_eq_Suc)
    then show ?thesis using j unfolding bytes_def codec_consts by (simp only: list_update_code take_Suc_Cons) simp
  qed
  have flag: "(u8 128 AND u8 positive_flag) \<noteq> 0" "u8 128 \<noteq> 0" "unat (u8 128) = 128"
    by (simp_all add: positive_flag_def u8_def)
  have pos: "\<not> wire_negative bytes" using flag by (simp add: wire_negative_def b)
  show len: "length bytes = t_width type" by (simp add: b j)
  show "\<not> (\<forall>b \<in> set bytes. b = 0)" using flag by (simp add: b)
  have "groups_value (replicate j 0) = 0" by (rule groups_value_zero) simp
  then show "wire_value bytes = 0"
    using pos by (simp add: wire_value_def wire_groups_def b)
  have "strip_while (\<lambda>g. g = 0) (replicate j (0 :: byte)) = []" by (simp add: strip_while_def)
  then have run: "decode_coefficient mem bytes type (Some u) = sqli_decimal_set_i64 mem (Some u) 0
      (if t_scale type = floating_scale then 0 else int (t_scale type))"
    using flag by (simp add: decode_coefficient_def b Let_def positive_flag_def j)
  let ?s = "if t_scale type = floating_scale then 0 else int (t_scale type)"
  let ?p = "\<lparr>p_limbs = Some ([] :: nat list), p_limb_count = 0, p_scale = ?s, p_negative = False, p_is_null = False\<rparr>"
  have pl: "parts_limbs ?p = []" by (simp add: parts_limbs_def)
  have "dec_len 0 = 1" by (simp add: dec_len.simps)
  then have "fst (import_parts mem ?p u) = SQLI_OK"
    using import_parts_status [OF mem, of ?p u] unfolding pl by (simp add: decimal_consts)
  then obtain w where w: "import_parts mem ?p u = (SQLI_OK, w)" by (metis prod.collapse)
  have "in_i32 ?s" using T(7) by (simp add: in_i32_def)
  then show "\<exists>w. decode_coefficient mem bytes type (Some u) = (SQLI_OK, Some w) \<and> decimal_wf w \<and>
      \<not> d_is_null w \<and> decimal_value w = 0 \<and> (t_scale type \<noteq> floating_scale \<longrightarrow> d_scale w = int (t_scale type))"
    using import_parts_OK [OF w] w unfolding run pl
    by (intro exI [of _ w])
      (simp add: sqli_decimal_set_i64_def sqli_decimal_set_parts_def limbs_of_magnitude.simps [of 0]
        decimal_value_mag mag_def u64_def)
qed


text \<open>Conversely an accepted nonzero payload meets every condition.\<close>

lemma decode_coefficient_accepts:
  assumes len: "length bytes = t_width type" and ok: "groups_ok (tl bytes)"
    and gs: "gs = wire_groups bytes" and count: "count = length (strip_while (\<lambda>g. g = 0) gs)"
    and "end = count * 2 - (if unat (gs ! (count - 1)) mod 10 = 0 then 1 else 0)"
    and "first = (if unat (gs ! 0) < 10 then 1 else 0)"
    and "scale = int (count * 2) - wire_exponent bytes * 2 - (if unat (gs ! (count - 1)) mod 10 = 0 then 1 else 0)"
    and nz: "count \<noteq> 0"
    and run: "fst (decode_coefficient mem bytes type out) = SQLI_OK"
  shows "\<not> (count > max_coefficient_groups \<or> gs ! 0 = 0)" "\<not> end - first > t_precision type"
    "\<not> (t_scale type \<noteq> floating_scale \<and>
      (int (t_scale type) - scale < 0 \<or> int (t_scale type) - scale > int (t_precision type - (end - first))))"
proof -
  have payload: "take (t_width type - 1) (tl bytes) = tl bytes" using len by simp
  have range: "\<not> (\<exists>g \<in> set (tl bytes). 100 \<le> unat g)" using ok by (auto simp: groups_ok_def not_le)
  have groups: "(if wire_negative bytes then sqli_base100_radix_complement (tl bytes) else tl bytes) = gs"
    by (simp add: gs wire_groups_def)
  have ex: "(if wire_negative bytes then int (unat (hd bytes XOR 0x7f)) - exponent_bias
      else int (unat (hd bytes AND 0x7f)) - exponent_bias) = wire_exponent bytes"
    by (simp add: wire_exponent_def)
  note run' = run [unfolded decode_coefficient_def Let_def payload wire_negative_def [symmetric] groups
      count [symmetric] ex assms(5-7) [symmetric] if_not_P [OF range] if_not_P [OF nz]]
  show 1: "\<not> (count > max_coefficient_groups \<or> gs ! 0 = 0)"
    using run' by (rule contrapos_pn) simp
  note run' = run' [unfolded if_not_P [OF 1]]
  show 2: "\<not> end - first > t_precision type"
    using run' by (rule contrapos_pn) simp
  note run' = run' [unfolded if_not_P [OF 2]]
  show "\<not> (t_scale type \<noteq> floating_scale \<and>
      (int (t_scale type) - scale < 0 \<or> int (t_scale type) - scale > int (t_precision type - (end - first))))"
    using run' by (rule contrapos_pn) simp
qed


text \<open>
  C25. Whatever payload the decoder accepts, a nonzero one yields a well-formed value equal to
  the number the bytes stand for: the complement for negative values, the base-100 groups,
  the biased exponent; a fixed-scale type gives its own scale.
\<close>

theorem sqli_decimal_decode_wire_value:
  assumes mem: "\<forall>k. mem k" and ty: "decode_type descriptor = Inr type"
    and run: "sqli_decimal_decode_wire mem (Some bytes) descriptor (Some u) = (SQLI_OK, Some w)"
    and nonzero: "\<not> (\<forall>b \<in> set bytes. b = 0)"
    and groups: "\<not> (\<forall>g \<in> set (wire_groups bytes). g = 0)"
  shows "decimal_wf w \<and> \<not> d_is_null w \<and> decimal_value w = wire_value bytes \<and>
    (t_scale type \<noteq> floating_scale \<longrightarrow> d_scale w = int (t_scale type))"
proof -
  have len: "length bytes = t_width type" and d: "decode_coefficient mem bytes type (Some u) = (SQLI_OK, Some w)"
    using run nonzero ty by (auto simp: sqli_decimal_decode_wire_def split: if_splits)
  have payload: "take (t_width type - 1) (tl bytes) = tl bytes" using len by simp
  have ok: "groups_ok (tl bytes)"
  proof (rule ccontr)
    assume "\<not> groups_ok (tl bytes)"
    then have "\<exists>g \<in> set (tl bytes). 100 \<le> unat g" by (auto simp: groups_ok_def not_less)
    then show False using d unfolding decode_coefficient_def Let_def payload by simp
  qed
  define gs where "gs = wire_groups bytes"
  define count where "count = length (strip_while (\<lambda>g. g = 0) gs)"
  have count: "0 < count" using groups count_props(2) [of gs] by (auto simp: count_def gs_def)
  define \<delta> where "\<delta> = (if unat (gs ! (count - 1)) mod 10 = 0 then 1 else 0 :: nat)"
  define a where "a = (if unat (gs ! 0) < 10 then 1 else 0 :: nat)"
  let ?scale = "2 * int count - 2 * wire_exponent bytes - int \<delta>"
  have A: "\<not> (count > max_coefficient_groups \<or> gs ! 0 = 0)" "\<not> count * 2 - \<delta> - a > t_precision type"
    "\<not> (t_scale type \<noteq> floating_scale \<and> (int (t_scale type) - ?scale < 0 \<or>
      int (t_scale type) - ?scale > int (t_precision type - (count * 2 - \<delta> - a))))"
    by (rule decode_coefficient_accepts [OF len ok gs_def count_def, where mem = mem and out = "Some u"];
      use count d in \<open>simp add: \<delta>_def a_def\<close>)+
  have "\<exists>w. decode_coefficient mem bytes type (Some u) = (SQLI_OK, Some w) \<and> decimal_wf w \<and>
    \<not> d_is_null w \<and> decimal_value w = wire_value bytes \<and>
    d_scale w = (if t_scale type = floating_scale then ?scale else int (t_scale type))"
  proof (rule decode_nonzero [OF mem ty len ok, folded gs_def, folded count_def, folded \<delta>_def,
        folded a_def, OF count])
    show "gs ! 0 \<noteq> 0" "count \<le> max_coefficient_groups" using A(1) by auto
    show "count * 2 - \<delta> - a \<le> t_precision type" using A(2) by linarith
    show "t_scale type \<noteq> floating_scale \<longrightarrow> 0 \<le> int (t_scale type) - ?scale \<and>
        int (t_scale type) - ?scale \<le> int (t_precision type - (count * 2 - \<delta> - a))"
      using A(3) by linarith
  qed
  then show ?thesis using d by auto
qed


lemma wire_round_trip:
  assumes mem: "\<forall>k. mem k" and wf: "decimal_wf v" and ty: "decode_type descriptor = Inr type"
    and run: "sqli_decimal_encode_wire (Some v) descriptor True capacity True = Inr bytes"
  shows "length bytes = t_width type \<and> t_width type \<le> capacity \<and>
    (if d_is_null v
     then \<exists>w. sqli_decimal_decode_wire mem (Some bytes) descriptor (Some u) = (SQLI_OK, Some w) \<and> d_is_null w
     else wire_value bytes = decimal_value v \<and>
       (\<exists>w. sqli_decimal_decode_wire mem (Some bytes) descriptor (Some u) = (SQLI_OK, Some w) \<and>
          decimal_wf w \<and> \<not> d_is_null w \<and> decimal_value w = decimal_value v \<and>
          (t_scale type \<noteq> floating_scale \<longrightarrow> d_scale w = int (t_scale type))))"
proof -
  let ?z = "replicate SQLI_DECIMAL_WIRE_CAPACITY (0 :: byte)"
  have T: "t_width type \<le> 18" by (rule decode_type_OK(6) [OF ty])
  consider (null) "d_is_null v" | (zero) "\<not> d_is_null v" "d_limbs v = []"
    | (nonzero) "\<not> d_is_null v" "d_limbs v \<noteq> []" by blast
  then show ?thesis
  proof cases
    case null
    then have "bytes = replicate (t_width type) 0" "t_width type \<le> capacity"
      using run ty T by (auto simp: sqli_decimal_encode_wire_def sqli_decimal_get_parts_def
          SQLI_DECIMAL_WIRE_CAPACITY_def split: if_splits)
    then show ?thesis using null ty by (simp add: sqli_decimal_decode_wire_def sqli_decimal_set_null_def)
  next
    case zero
    then have b: "bytes = take (t_width type) (?z[0 := u8 positive_flag])" and cap: "t_width type \<le> capacity"
      using run ty by (simp_all add: sqli_decimal_encode_wire_def sqli_decimal_get_parts_def split: if_splits)
    have "decimal_value v = 0" using zero by (simp add: decimal_value_mag mag_zero)
    then show ?thesis
      using zero_bytes_decode [OF mem ty, folded b] zero cap ty
      by (auto simp: sqli_decimal_decode_wire_def)
  next
    case nonzero
    then obtain enc where e: "encode_coefficient (value_parts v) type ?z = Inr enc"
      and b: "bytes = take (t_width type) enc" and cap: "t_width type \<le> capacity"
      using run ty
      by (auto simp: sqli_decimal_encode_wire_def get_parts_value split: sum.splits if_splits)
    show ?thesis
      using encode_nonzero_decodes [OF mem wf nonzero(2) ty e, folded b, of u] nonzero cap ty
      by (auto simp: sqli_decimal_decode_wire_def)
  qed
qed

text \<open>
  C26. Encoding never rounds: whenever a well-formed value encodes, the bytes stand for exactly
  that value and decode to it (SQL NULL to SQL NULL), at the scale of a fixed-scale type.
\<close>

theorem sqli_decimal_wire_round_trip:
  assumes mem: "\<forall>k. mem k" and wf: "decimal_wf v" and ty: "decode_type descriptor = Inr type"
    and run: "sqli_decimal_encode_wire (Some v) descriptor True capacity True = Inr bytes"
  shows "length bytes = t_width type \<and> t_width type \<le> capacity \<and>
    (if d_is_null v
     then \<exists>w. sqli_decimal_decode_wire mem (Some bytes) descriptor (Some u) = (SQLI_OK, Some w) \<and> d_is_null w
     else wire_value bytes = decimal_value v \<and>
       (\<exists>w. sqli_decimal_decode_wire mem (Some bytes) descriptor (Some u) = (SQLI_OK, Some w) \<and>
          decimal_wf w \<and> \<not> d_is_null w \<and> decimal_value w = decimal_value v \<and>
          (t_scale type \<noteq> floating_scale \<longrightarrow> d_scale w = int (t_scale type))))"
  by (rule wire_round_trip [OF assms])

text \<open>DECIMAL(5,2) is descriptor 0x0502; -1.5 takes four bytes.\<close>

lemma sample_type: "decode_type 0x502 = Inr \<lparr>t_precision = 5, t_scale = 2, t_width = 4\<rparr>"
  by (simp add: decode_type_def codec_consts Let_def)

lemma sample_encode:
  "sqli_decimal_encode_wire (Some (small_decimal 15 1 True)) 0x502 True 4 True = Inr [0x3e, 98, 50, 0]"
proof -
  have zeroed: "replicate 18 (0 :: byte) = [0, 0, 0, 0, 0, 0, 0, 0, 0, 0, 0, 0, 0, 0, 0, 0, 0, 0]"
    by (simp add: numeral_eq_Suc)
  have upt: "[0..<2] = [0, 1 :: nat]" by (simp add: numeral_eq_Suc)
  show ?thesis
    by (simp add: sqli_decimal_encode_wire_def sqli_decimal_get_parts_def small_decimal_def decode_type_def
        codec_consts Let_def encode_coefficient_def coefficient_digits_def trailing_zeros_def dec_len.simps
        c_div_def limb_zeros.simps zeroed upt place_digit_def coefficient_digit_def powers_of_ten_def u8_def
        u32_def sqli_base100_radix_complement_def decimal_consts)
qed

lemma sample_wf: "decimal_wf (small_decimal 15 1 True)"
  by (rule small_decimal_wf) (simp_all add: decimal_consts in_i32_def)

theorem sqli_decimal_wire_round_trip_witness:
  "\<exists>w. sqli_decimal_decode_wire (\<lambda>_. True) (Some [0x3e, 98, 50, 0]) 0x502 (Some decimal_init) = (SQLI_OK, Some w) \<and>
    decimal_value w = decimal_value (small_decimal 15 1 True) \<and> d_scale w = 2"
  using sqli_decimal_wire_round_trip [OF _ sample_wf sample_type sample_encode, of "\<lambda>_. True" decimal_init]
  by (auto simp: floating_scale_def)

lemma sample_wire:
  "wire_groups [0x3e, 98, 50, 0] = [1, 50, 0]" "wire_exponent [0x3e, 98, 50, 0] = 1"
  by (simp_all add: wire_groups_def wire_exponent_def wire_negative_def positive_flag_def exponent_bias_def
      sqli_base100_radix_complement_def u8_def u32_def Let_def)

theorem sqli_decimal_decode_wire_value_witness:
  "\<exists>w. sqli_decimal_decode_wire (\<lambda>_. True) (Some [0x3e, 98, 50, 0]) 0x502 (Some decimal_init) = (SQLI_OK, Some w) \<and>
    decimal_value w = wire_value [0x3e, 98, 50, 0]"
proof -
  obtain w where w: "sqli_decimal_decode_wire (\<lambda>_. True) (Some [0x3e, 98, 50, 0]) 0x502 (Some decimal_init) = (SQLI_OK, Some w)"
    using wire_round_trip [OF _ sample_wf sample_type sample_encode, of "\<lambda>_. True" decimal_init] by auto
  show ?thesis
    using sqli_decimal_decode_wire_value [OF _ sample_type w] w by (simp add: sample_wire)
qed

end
