(* ===== verification/Conn.thy ===== *)
theory Conn
  imports Prelude
begin

text \<open>
  The connection object as the transaction layer uses it (struct sqli_conn and the error
  helpers of src/src/sqli_internal.h), and the peer: what the socket accepts, what the
  reply dispatcher reports and how a session statement runs are inputs of the model.
\<close>

section \<open>Diagnostics\<close>

record sqli_error_info =
  ei_has_error :: bool
  ei_status :: sqli_status
  ei_sqlcode :: int
  ei_isamcode :: int
  ei_sqlstate :: string
  ei_opcode :: nat
  ei_opcode_name :: string
  ei_context :: string
  ei_unknown_opcode :: nat
  ei_unknown_opcode_count :: nat
  ei_server_message :: string
  ei_sql_message :: string
  ei_isam_message :: string
  ei_message :: string

datatype sqli_conn_state =
    SQLI_CONN_CLOSED | SQLI_CONN_CONNECTING | SQLI_CONN_HANDSHAKE | SQLI_CONN_VERSION
  | SQLI_CONN_INFO | SQLI_CONN_AUTH | SQLI_CONN_DBOPEN | SQLI_CONN_READY | SQLI_CONN_ERROR

record sqli_conn =
  c_errmsg :: string
  c_error_info :: sqli_error_info
  c_error_context :: string
  c_error_opcode :: nat
  c_socket_fd :: int
  c_state :: sqli_conn_state
  c_in_transaction :: bool
  c_in_batch :: bool
  c_autocommit :: bool
  c_isolation :: int
  c_commit_epoch :: nat
  c_rollback_epoch :: nat

text \<open>The zeroed record (\<open>memset\<close>): the status field reads as \<open>SQLI_OK\<close>, value 0.\<close>

definition no_error :: sqli_error_info where
  "no_error = \<lparr>ei_has_error = False, ei_status = SQLI_OK, ei_sqlcode = 0, ei_isamcode = 0,
     ei_sqlstate = [], ei_opcode = 0, ei_opcode_name = [], ei_context = [], ei_unknown_opcode = 0,
     ei_unknown_opcode_count = 0, ei_server_message = [], ei_sql_message = [],
     ei_isam_message = [], ei_message = []\<rparr>"

definition clear_error :: "sqli_conn \<Rightarrow> sqli_conn" where
  "clear_error conn = conn\<lparr>c_errmsg := [], c_error_info := no_error, c_error_context := [],
     c_error_opcode := 0\<rparr>"

definition set_error_context :: "string \<Rightarrow> nat \<Rightarrow> sqli_conn \<Rightarrow> sqli_conn" where
  "set_error_context context opcode conn =
     conn\<lparr>c_error_context := take 47 context, c_error_opcode := opcode\<rparr>"

definition set_error :: "string \<Rightarrow> sqli_conn \<Rightarrow> sqli_conn" where
  "set_error msg conn =
     (let errmsg = take 511 msg
      in conn\<lparr>c_errmsg := errmsg,
        c_error_info := (c_error_info conn)\<lparr>ei_has_error := True, ei_status := SQLI_ERR,
          ei_sqlcode := 0, ei_isamcode := 0, ei_sqlstate := [], ei_server_message := [],
          ei_sql_message := [], ei_isam_message := [], ei_context := take 47 (c_error_context conn),
          ei_opcode := c_error_opcode conn, ei_opcode_name := [], ei_unknown_opcode := 0,
          ei_message := take 511 errmsg\<rparr>\<rparr>)"

text \<open>A new connection object (\<open>sqli_create\<close>), in the fields modelled here.\<close>

definition created_conn :: sqli_conn where
  "created_conn = \<lparr>c_errmsg = [], c_error_info = no_error, c_error_context = [],
     c_error_opcode = 0, c_socket_fd = -1, c_state = SQLI_CONN_CLOSED, c_in_transaction = False,
     c_in_batch = False, c_autocommit = True, c_isolation = 0, c_commit_epoch = 0,
     c_rollback_epoch = 0\<rparr>"

section \<open>The peer\<close>

text \<open>
  One reply of \<open>sqli_receive_dispatch\<close>: its return value, whether an SQ_ERR message was
  seen, and the diagnostics it leaves (\<open>None\<close>: untouched).
\<close>

record dispatch_reply =
  r_status :: sqli_status
  r_saw_error :: bool
  r_error :: "(string \<times> sqli_error_info) option"

text \<open>
  \<open>w_sends\<close> are the return values of the next socket writes and \<open>w_replies\<close> the next
  replies; a script that has run out stands for a dead connection. \<open>w_queries\<close> are the
  next runs of \<open>sqli_query\<close>, which return a status, whether a result object with its row
  count came back, and the connection afterwards. \<open>w_encode\<close> is the client-to-server
  character conversion. \<open>w_sent\<close> records the messages written completely.
\<close>

record world =
  w_sends :: "int list"
  w_replies :: "dispatch_reply list"
  w_queries :: "(string \<Rightarrow> sqli_conn \<Rightarrow> sqli_status \<times> int option \<times> sqli_conn) list"
  w_encode :: "string \<Rightarrow> byte list fallible"
  w_sent :: "byte list list"

text \<open>
  The callers compare the result of \<open>sqli_tcp_send\<close> with the length they asked for; the
  model returns the outcome of that comparison. The call refuses a negative descriptor and
  an empty message.
\<close>

definition tcp_send :: "sqli_conn \<Rightarrow> byte list \<Rightarrow> world \<Rightarrow> bool \<times> world" where
  "tcp_send conn buf w =
     (if c_socket_fd conn < 0 \<or> buf = [] then (False, w)
      else case w_sends w of
             [] \<Rightarrow> (False, w)
           | n # ns \<Rightarrow>
               let complete = (n = int (length buf))
               in (complete, w\<lparr>w_sends := ns,
                    w_sent := (if complete then w_sent w @ [buf] else w_sent w)\<rparr>))"

definition lost_reply :: dispatch_reply where
  "lost_reply = \<lparr>r_status = SQLI_IO_ERROR, r_saw_error = False, r_error = None\<rparr>"

definition receive_dispatch :: "sqli_conn \<Rightarrow> world \<Rightarrow> dispatch_reply \<times> sqli_conn \<times> world" where
  "receive_dispatch conn w =
     (let (reply, rest) = (case w_replies w of [] \<Rightarrow> (lost_reply, []) | r # rs \<Rightarrow> (r, rs))
      in (reply,
          (case r_error reply of None \<Rightarrow> conn
           | Some (errmsg, info) \<Rightarrow> conn\<lparr>c_errmsg := errmsg, c_error_info := info\<rparr>),
          w\<lparr>w_replies := rest\<rparr>))"

definition run_query :: "string \<Rightarrow> sqli_conn \<Rightarrow> world \<Rightarrow> (sqli_status \<times> int option) \<times> sqli_conn \<times> world" where
  "run_query sql conn w =
     (case w_queries w of
        [] \<Rightarrow> ((SQLI_IO_ERROR, None), conn, w)
      | q # qs \<Rightarrow> (case q sql conn of (st, rows, conn') \<Rightarrow> ((st, rows), conn', w\<lparr>w_queries := qs\<rparr>)))"

text \<open>What the transaction layer observes of a connection, and that diagnostics leave it alone.\<close>

record tx_view =
  v_tx :: bool
  v_batch :: bool
  v_auto :: bool
  v_iso :: int
  v_commits :: nat
  v_rollbacks :: nat

definition view :: "sqli_conn \<Rightarrow> tx_view" where
  "view c = \<lparr>v_tx = c_in_transaction c, v_batch = c_in_batch c, v_auto = c_autocommit c,
     v_iso = c_isolation c, v_commits = c_commit_epoch c, v_rollbacks = c_rollback_epoch c\<rparr>"

lemma error_ops_view [simp]:
  "view (clear_error c) = view c" "view (set_error m c) = view c" "view (set_error_context x n c) = view c"
  by (simp_all add: view_def clear_error_def set_error_def set_error_context_def Let_def)

lemma error_ops_fields [simp]:
  "c_state (clear_error c) = c_state c" "c_state (set_error m c) = c_state c"
  "c_state (set_error_context x n c) = c_state c"
  "c_socket_fd (clear_error c) = c_socket_fd c" "c_socket_fd (set_error m c) = c_socket_fd c"
  "c_socket_fd (set_error_context x n c) = c_socket_fd c"
  "c_in_transaction (clear_error c) = c_in_transaction c" "c_in_transaction (set_error m c) = c_in_transaction c"
  "c_in_transaction (set_error_context x n c) = c_in_transaction c"
  "c_in_batch (clear_error c) = c_in_batch c" "c_in_batch (set_error m c) = c_in_batch c"
  "c_in_batch (set_error_context x n c) = c_in_batch c"
  "c_autocommit (clear_error c) = c_autocommit c" "c_autocommit (set_error m c) = c_autocommit c"
  "c_autocommit (set_error_context x n c) = c_autocommit c"
  "ei_has_error (c_error_info (set_error m c))" "\<not> ei_has_error (c_error_info (clear_error c))"
  "c_error_info (set_error_context x n c) = c_error_info c"
  by (simp_all add: clear_error_def set_error_def set_error_context_def Let_def no_error_def)

lemma receive_dispatch_view [simp]: "view (fst (snd (receive_dispatch c w))) = view c"
  by (auto simp: receive_dispatch_def view_def Let_def split: list.split option.split prod.split)

lemma receive_dispatch_fields [simp]:
  "c_state (fst (snd (receive_dispatch c w))) = c_state c"
  "c_socket_fd (fst (snd (receive_dispatch c w))) = c_socket_fd c"
  by (auto simp: receive_dispatch_def Let_def split: list.split option.split prod.split)

end
