(* ===== verification/Transaction.thy ===== *)
theory Transaction
  imports Conn
begin

text \<open>
  Transactions, savepoints, session modes and batch framing: src/src/sqli_transaction.c.
  Every operation takes the connection and the peer and returns its status with both as
  they are afterwards. Log messages are not modelled.
\<close>

definition SQLI_SQ_EOT :: nat where "SQLI_SQ_EOT = 12"
definition SQLI_SQ_CMMTWORK :: nat where "SQLI_SQ_CMMTWORK = 19"
definition SQLI_SQ_RBWORK :: nat where "SQLI_SQ_RBWORK = 20"
definition SQLI_SQ_BEGIN :: nat where "SQLI_SQ_BEGIN = 35"
definition SQLI_SQ_ISOLEVEL :: nat where "SQLI_SQ_ISOLEVEL = 47"
definition SQLI_SQ_LOCKWAIT :: nat where "SQLI_SQ_LOCKWAIT = 48"
definition SQLI_SQ_SQLISETSVPT :: nat where "SQLI_SQ_SQLISETSVPT = 137"
definition SQLI_SQ_SQLIRELSVPT :: nat where "SQLI_SQ_SQLIRELSVPT = 138"
definition SQLI_SQ_SQLIRBACKSVPT :: nat where "SQLI_SQ_SQLIRBACKSVPT = 139"
definition SQLI_SQ_BATCHSTART :: nat where "SQLI_SQ_BATCHSTART = 141"
definition SQLI_SQ_BATCHEND :: nat where "SQLI_SQ_BATCHEND = 142"

lemmas opcode_defs [limit_defs] = SQLI_SQ_EOT_def SQLI_SQ_CMMTWORK_def SQLI_SQ_RBWORK_def
  SQLI_SQ_BEGIN_def SQLI_SQ_ISOLEVEL_def SQLI_SQ_LOCKWAIT_def SQLI_SQ_SQLISETSVPT_def
  SQLI_SQ_SQLIRELSVPT_def SQLI_SQ_SQLIRBACKSVPT_def SQLI_SQ_BATCHSTART_def SQLI_SQ_BATCHEND_def

type_synonym 'a session = "'a \<times> sqli_conn \<times> world"

text \<open>The public functions on a NULL connection.\<close>

definition on_conn :: "(sqli_conn \<Rightarrow> world \<Rightarrow> sqli_status session) \<Rightarrow> sqli_conn option \<Rightarrow> world \<Rightarrow>
    sqli_status \<times> sqli_conn option \<times> world" where
  "on_conn body p w =
     (case p of None \<Rightarrow> (SQLI_INVALID_STATE, None, w)
      | Some conn \<Rightarrow> (case body conn w of (status, conn', w') \<Rightarrow> (status, Some conn', w')))"

text \<open>Record a local failure and return it.\<close>

definition fail_with :: "string \<Rightarrow> nat \<Rightarrow> string \<Rightarrow> sqli_status \<Rightarrow> sqli_conn \<Rightarrow> world \<Rightarrow> sqli_status session" where
  "fail_with context opcode msg status conn w = (status, set_error msg (set_error_context context opcode conn), w)"

definition verify_txn_ready :: "string \<Rightarrow> sqli_conn \<Rightarrow> sqli_status \<times> sqli_conn" where
  "verify_txn_ready op conn =
     (if c_state conn \<noteq> SQLI_CONN_READY
      then (SQLI_INVALID_STATE, set_error ''connection not ready'' (set_error_context op 0 conn))
      else if c_socket_fd conn < 0
      then (SQLI_INVALID_STATE, set_error ''socket not connected'' (set_error_context op 0 conn))
      else (SQLI_OK, conn))"

definition drain_txn_response :: "sqli_conn \<Rightarrow> world \<Rightarrow> sqli_status session" where
  "drain_txn_response conn w =
     (let (reply, conn, w) = receive_dispatch conn w
      in (if r_status reply = SQLI_OK \<and> r_saw_error reply then SQLI_PROTO_ERROR else r_status reply, conn, w))"

definition apply_session_sql :: "string \<Rightarrow> sqli_conn \<Rightarrow> world \<Rightarrow> sqli_status session" where
  "apply_session_sql sql conn w =
     (case run_query sql conn w of ((rc, _), conn', w') \<Rightarrow> (rc, conn', w'))"

text \<open>The optional part of a failed reply's diagnostics.\<close>

definition ensure_error :: "string \<Rightarrow> sqli_conn \<Rightarrow> sqli_conn" where
  "ensure_error msg conn = (if ei_has_error (c_error_info conn) then conn else set_error msg conn)"

section \<open>Begin, commit, rollback\<close>

definition begin_conn :: "sqli_conn \<Rightarrow> world \<Rightarrow> sqli_status session" where
  "begin_conn conn w =
     (let conn = clear_error conn;
          (rc, conn) = verify_txn_ready ''begin'' conn
      in if rc \<noteq> SQLI_OK then (rc, conn, w)
      else if c_in_transaction conn
        then fail_with ''begin'' SQLI_SQ_BEGIN ''transaction already in progress'' SQLI_INVALID_STATE conn w
      else let (sent, w) = tcp_send conn [0, u8 SQLI_SQ_EOT, 0, u8 SQLI_SQ_BEGIN] w
        in if \<not> sent then fail_with ''begin'' SQLI_SQ_BEGIN ''failed to send BEGIN'' SQLI_IO_ERROR conn w
        else let (rc, conn, w) = drain_txn_response (set_error_context ''begin/recv'' SQLI_SQ_BEGIN conn) w
          in if rc \<noteq> SQLI_OK then (rc, ensure_error ''failed to receive begin response'' conn, w)
             else (SQLI_OK, clear_error (conn\<lparr>c_in_transaction := True\<rparr>), w))"

definition commit_conn :: "sqli_conn \<Rightarrow> world \<Rightarrow> sqli_status session" where
  "commit_conn conn w =
     (let conn = clear_error conn;
          (rc, conn) = verify_txn_ready ''commit'' conn
      in if rc \<noteq> SQLI_OK then (rc, conn, w)
      else if \<not> c_in_transaction conn
        then fail_with ''commit'' SQLI_SQ_CMMTWORK ''no active transaction to commit'' SQLI_INVALID_STATE conn w
      else let (sent, w) = tcp_send conn [0, u8 SQLI_SQ_EOT, 0, u8 SQLI_SQ_CMMTWORK] w
        in if \<not> sent then fail_with ''commit'' SQLI_SQ_CMMTWORK ''failed to send COMMIT'' SQLI_IO_ERROR conn w
        else let (rc, conn, w) = drain_txn_response (set_error_context ''commit/recv'' SQLI_SQ_CMMTWORK conn) w
          in if rc \<noteq> SQLI_OK then (rc, ensure_error ''failed to receive commit response'' conn, w)
             else (SQLI_OK, clear_error (conn\<lparr>c_in_transaction := False,
                     c_commit_epoch := u64 (c_commit_epoch conn + 1)\<rparr>), w))"

definition rollback_conn :: "sqli_conn \<Rightarrow> world \<Rightarrow> sqli_status session" where
  "rollback_conn conn w =
     (let conn = clear_error conn;
          (rc, conn) = verify_txn_ready ''rollback'' conn
      in if rc \<noteq> SQLI_OK then (rc, conn, w)
      else if \<not> c_in_transaction conn
        then fail_with ''rollback'' SQLI_SQ_RBWORK ''no active transaction to roll back'' SQLI_INVALID_STATE conn w
      else let (sent, w) = tcp_send conn [0, u8 SQLI_SQ_EOT, 0, u8 SQLI_SQ_RBWORK, 0, 0] w
        in if \<not> sent then fail_with ''rollback'' SQLI_SQ_RBWORK ''failed to send ROLLBACK'' SQLI_IO_ERROR conn w
        else let (rc, conn, w) = drain_txn_response (set_error_context ''rollback/recv'' SQLI_SQ_RBWORK conn) w
          in if rc \<noteq> SQLI_OK then (rc, ensure_error ''failed to receive rollback response'' conn, w)
             else (SQLI_OK, clear_error (conn\<lparr>c_in_transaction := False,
                     c_rollback_epoch := u64 (c_rollback_epoch conn + 1)\<rparr>), w))"

definition sqli_begin where "sqli_begin = on_conn begin_conn"
definition sqli_commit where "sqli_commit = on_conn commit_conn"
definition sqli_rollback where "sqli_rollback = on_conn rollback_conn"

section \<open>Savepoints\<close>

definition send_char_payload :: "string \<Rightarrow> sqli_conn \<Rightarrow> world \<Rightarrow> sqli_status \<times> world" where
  "send_char_payload name conn w =
     (case w_encode w name of
        Inl rc \<Rightarrow> (rc, w)
      | Inr enc \<Rightarrow>
          if length enc > 0xFFFF then (SQLI_INVALID_STATE, w)
          else let (ok, w) = tcp_send conn [u8 (length enc div 256), u8 (length enc mod 256)] w;
                   rc = (if ok then SQLI_OK else SQLI_IO_ERROR);
                   (rc, w) = (if rc = SQLI_OK \<and> length enc > 0
                              then (let (ok, w) = tcp_send conn enc w in (if ok then SQLI_OK else SQLI_IO_ERROR, w))
                              else (rc, w));
                   (rc, w) = (if rc = SQLI_OK \<and> odd (length enc)
                              then (let (ok, w) = tcp_send conn [0] w in (if ok then SQLI_OK else SQLI_IO_ERROR, w))
                              else (rc, w))
               in (rc, w))"

text \<open>The exchange with the server, once a transaction is active.\<close>

definition savepoint_exchange ::
  "nat \<Rightarrow> string \<Rightarrow> bool \<Rightarrow> bool \<Rightarrow> sqli_conn \<Rightarrow> world \<Rightarrow> sqli_status session" where
  "savepoint_exchange opcode name include_unique_flag unique_flag conn w =
     (let (sent, w) = tcp_send conn [0, u8 opcode] w
      in if \<not> sent then fail_with ''savepoint'' opcode ''failed to send savepoint opcode'' SQLI_IO_ERROR conn w
      else let (rc, w) = send_char_payload name conn w
        in if rc \<noteq> SQLI_OK then fail_with ''savepoint'' opcode ''failed to send savepoint name'' rc conn w
      else let (sent, w) = (if include_unique_flag then tcp_send conn [0, if unique_flag then 1 else 0] w
                            else (True, w))
        in if \<not> sent then fail_with ''savepoint'' opcode ''failed to send savepoint flag'' SQLI_IO_ERROR conn w
      else let (sent, w) = tcp_send conn [0, u8 SQLI_SQ_EOT] w
        in if \<not> sent then fail_with ''savepoint'' opcode ''failed to send savepoint EOT'' SQLI_IO_ERROR conn w
      else let (rc, conn, w) = drain_txn_response (set_error_context ''savepoint/recv'' opcode conn) w
        in if rc \<noteq> SQLI_OK then (rc, ensure_error ''failed to receive savepoint response'' conn, w)
           else (SQLI_OK, clear_error conn, w))"

definition savepoint_send_core ::
  "nat \<Rightarrow> string option \<Rightarrow> bool \<Rightarrow> bool \<Rightarrow> sqli_conn \<Rightarrow> world \<Rightarrow> sqli_status session" where
  "savepoint_send_core opcode name include_unique_flag unique_flag conn w =
     (let conn = clear_error conn;
          (rc, conn) = verify_txn_ready ''savepoint'' conn
      in if rc \<noteq> SQLI_OK then (rc, conn, w)
      else if name = None \<or> name = Some []
        then fail_with ''savepoint'' opcode ''savepoint name must not be empty'' SQLI_INVALID_STATE conn w
      else let (rc, conn, w) =
             (if \<not> c_in_transaction conn
              then if \<not> c_autocommit conn then begin_conn conn w
                   else fail_with ''savepoint'' opcode ''savepoint requires an active transaction''
                          SQLI_INVALID_STATE conn w
              else (SQLI_OK, conn, w))
        in if rc \<noteq> SQLI_OK then (rc, conn, w)
           else savepoint_exchange opcode (the name) include_unique_flag unique_flag conn w)"

definition sqli_savepoint_set where
  "sqli_savepoint_set p name unique_name =
     on_conn (savepoint_send_core SQLI_SQ_SQLISETSVPT name True unique_name) p"

definition sqli_savepoint_release where
  "sqli_savepoint_release p name = on_conn (savepoint_send_core SQLI_SQ_SQLIRELSVPT name False False) p"

definition sqli_savepoint_rollback where
  "sqli_savepoint_rollback p name = on_conn (savepoint_send_core SQLI_SQ_SQLIRBACKSVPT name False False) p"

section \<open>Session modes\<close>

definition autocommit_conn :: "bool \<Rightarrow> sqli_conn \<Rightarrow> world \<Rightarrow> sqli_status session" where
  "autocommit_conn on conn w =
     (let conn = clear_error conn
      in if on \<and> \<not> c_autocommit conn \<and> c_in_transaction conn
         then fail_with ''autocommit'' 0
                ''commit or roll back the active transaction before enabling autocommit'' SQLI_INVALID_STATE conn w
         else (SQLI_OK, conn\<lparr>c_autocommit := on\<rparr>, w))"

definition sqli_set_autocommit where "sqli_set_autocommit p on = on_conn (autocommit_conn on) p"

definition sqli_get_autocommit :: "sqli_conn option \<Rightarrow> bool" where
  "sqli_get_autocommit p = (case p of None \<Rightarrow> False | Some conn \<Rightarrow> c_autocommit conn)"

text \<open>The isolation levels are 0 (committed read), 1 and 3 (repeatable read), 4 (cursor stability).\<close>

definition isolation_sql :: "int \<Rightarrow> string option" where
  "isolation_sql level =
     (if level = 0 then Some ''set isolation to committed read''
      else if level = 1 \<or> level = 3 then Some ''set isolation to repeatable read''
      else if level = 4 then Some ''set isolation to cursor stability''
      else None)"

definition isolation_conn :: "int \<Rightarrow> sqli_conn \<Rightarrow> world \<Rightarrow> sqli_status session" where
  "isolation_conn level conn w =
     (let conn = clear_error conn
      in if level < 0 \<or> level > 4 then (SQLI_INVALID_STATE, conn, w)
      else if c_in_transaction conn
        then (SQLI_INVALID_STATE,
              set_error ''isolation level cannot be changed in active transaction'' conn, w)
      else case isolation_sql level of
        None \<Rightarrow> (SQLI_INVALID_STATE, conn, w)
      | Some sql \<Rightarrow>
          let (rc, conn, w) = (if c_state conn = SQLI_CONN_READY \<and> c_socket_fd conn \<ge> 0
                               then apply_session_sql sql conn w else (SQLI_OK, conn, w))
          in if rc \<noteq> SQLI_OK then (rc, set_error_context ''isolation'' SQLI_SQ_ISOLEVEL conn, w)
             else (SQLI_OK, clear_error (conn\<lparr>c_isolation := level\<rparr>), w))"

definition sqli_set_isolation_level where "sqli_set_isolation_level p level = on_conn (isolation_conn level) p"

definition sqli_get_isolation_level :: "sqli_conn option \<Rightarrow> int" where
  "sqli_get_isolation_level p = (case p of None \<Rightarrow> 0 | Some conn \<Rightarrow> c_isolation conn)"

definition sqli_in_transaction :: "sqli_conn option \<Rightarrow> bool" where
  "sqli_in_transaction p = (case p of None \<Rightarrow> False | Some conn \<Rightarrow> c_in_transaction conn)"

text \<open>Decimal digits of a nonnegative number, as \<open>%d\<close> prints them.\<close>

fun print_nat :: "nat \<Rightarrow> string" where
  "print_nat n = (if n < 10 then [digit_char n] else print_nat (n div 10) @ [digit_char (n mod 10)])"

definition lock_wait_conn :: "int \<Rightarrow> sqli_conn \<Rightarrow> world \<Rightarrow> sqli_status session" where
  "lock_wait_conn seconds conn w =
     (let conn = clear_error conn;
          (rc, conn) = verify_txn_ready ''lock_wait'' conn
      in if rc \<noteq> SQLI_OK then (rc, conn, w)
      else let sql = (if seconds < 0 then ''set lock mode to not wait''
                      else ''set lock mode to wait '' @ print_nat (nat seconds));
               (rc, conn, w) = apply_session_sql sql conn w
        in if rc \<noteq> SQLI_OK then (rc, set_error_context ''lock_wait'' SQLI_SQ_LOCKWAIT conn, w)
           else (rc, clear_error conn, w))"

definition sqli_set_lock_wait where "sqli_set_lock_wait p seconds = on_conn (lock_wait_conn seconds) p"

section \<open>Batch framing\<close>

definition batch_begin_conn :: "sqli_conn \<Rightarrow> world \<Rightarrow> sqli_status session" where
  "batch_begin_conn conn w =
     (let conn = clear_error conn;
          (rc, conn) = verify_txn_ready ''batch_begin'' conn
      in if rc \<noteq> SQLI_OK then (rc, conn, w)
      else if c_in_batch conn
        then fail_with ''batch_begin'' SQLI_SQ_BATCHSTART ''batch already active'' SQLI_INVALID_STATE conn w
      else let (sent, w) = tcp_send conn [0, u8 SQLI_SQ_BATCHSTART] w
        in if \<not> sent
           then fail_with ''batch_begin'' SQLI_SQ_BATCHSTART ''failed to send SQ_BATCHSTART'' SQLI_IO_ERROR conn w
           else (SQLI_OK, clear_error (conn\<lparr>c_in_batch := True\<rparr>), w))"

definition batch_end_conn :: "sqli_conn \<Rightarrow> world \<Rightarrow> sqli_status session" where
  "batch_end_conn conn w =
     (let conn = clear_error conn;
          (rc, conn) = verify_txn_ready ''batch_end'' conn
      in if rc \<noteq> SQLI_OK then (rc, conn, w)
      else if \<not> c_in_batch conn
        then fail_with ''batch_end'' SQLI_SQ_BATCHEND ''no active batch'' SQLI_INVALID_STATE conn w
      else let (sent, w) = tcp_send conn [0, u8 SQLI_SQ_BATCHEND] w
        in if \<not> sent
           then fail_with ''batch_end'' SQLI_SQ_BATCHEND ''failed to send SQ_BATCHEND'' SQLI_IO_ERROR conn w
           else (SQLI_OK, clear_error (conn\<lparr>c_in_batch := False\<rparr>), w))"

definition sqli_batch_begin where "sqli_batch_begin = on_conn batch_begin_conn"
definition sqli_batch_end where "sqli_batch_end = on_conn batch_end_conn"

definition sqli_in_batch :: "sqli_conn option \<Rightarrow> bool" where
  "sqli_in_batch p = (case p of None \<Rightarrow> False | Some conn \<Rightarrow> c_in_batch conn)"

section \<open>Implicit transactions\<close>

definition data_statement :: "int \<Rightarrow> bool" where
  "data_statement statement_type \<longleftrightarrow>
     (statement_type \<ge> 2 \<and> statement_type \<le> 8) \<or> statement_type = 32 \<or> statement_type = 33 \<or> statement_type = 56"

definition autobegin_conn :: "int \<Rightarrow> sqli_conn \<Rightarrow> world \<Rightarrow> sqli_status session" where
  "autobegin_conn statement_type conn w =
     (if c_autocommit conn \<or> c_in_transaction conn then (SQLI_OK, conn, w)
      else if data_statement statement_type then begin_conn conn w
      else (SQLI_OK, conn, w))"

definition sqli_autobegin where "sqli_autobegin p statement_type = on_conn (autobegin_conn statement_type) p"

definition sqli_track_transaction_statement :: "int \<Rightarrow> sqli_conn \<Rightarrow> sqli_conn" where
  "sqli_track_transaction_statement statement_type conn =
     (if statement_type = 34 then conn\<lparr>c_in_transaction := True\<rparr>
      else if statement_type = 35
        then conn\<lparr>c_in_transaction := False, c_commit_epoch := u64 (c_commit_epoch conn + 1)\<rparr>
      else if statement_type = 36
        then conn\<lparr>c_in_transaction := False, c_rollback_epoch := u64 (c_rollback_epoch conn + 1)\<rparr>
      else conn)"

end
