(* ===== verification/TransactionFacts.thy ===== *)
theory TransactionFacts
  imports Transaction
begin

text \<open>
  The transaction layer against an abstract machine of transaction and batch states: which
  events an operation can cause, that failures cause none, what reaches the wire, and that
  a failed operation always leaves a diagnostic.
\<close>

section \<open>The abstract machine\<close>

datatype tx_event = Began | Committed | RolledBack | BatchOpened | BatchClosed
  | AutocommitSet bool | IsolationSet int

inductive tx_step :: "tx_view \<Rightarrow> tx_event \<Rightarrow> tx_view \<Rightarrow> bool" where
  "\<not> v_tx v \<Longrightarrow> tx_step v Began (v\<lparr>v_tx := True\<rparr>)"
| "v_tx v \<Longrightarrow> tx_step v Committed (v\<lparr>v_tx := False, v_commits := u64 (v_commits v + 1)\<rparr>)"
| "v_tx v \<Longrightarrow> tx_step v RolledBack (v\<lparr>v_tx := False, v_rollbacks := u64 (v_rollbacks v + 1)\<rparr>)"
| "\<not> v_batch v \<Longrightarrow> tx_step v BatchOpened (v\<lparr>v_batch := True\<rparr>)"
| "v_batch v \<Longrightarrow> tx_step v BatchClosed (v\<lparr>v_batch := False\<rparr>)"
| "on \<longrightarrow> v_auto v \<or> \<not> v_tx v \<Longrightarrow> tx_step v (AutocommitSet on) (v\<lparr>v_auto := on\<rparr>)"
| "\<not> v_tx v \<Longrightarrow> level \<in> {0, 1, 3, 4} \<Longrightarrow> tx_step v (IsolationSet level) (v\<lparr>v_iso := level\<rparr>)"

inductive_cases tx_stepE [elim]: "tx_step v e v'"

inductive_simps tx_step_simps [simp]:
  "tx_step v Began v'" "tx_step v Committed v'" "tx_step v RolledBack v'" "tx_step v BatchOpened v'"
  "tx_step v BatchClosed v'" "tx_step v (AutocommitSet b) v'" "tx_step v (IsolationSet l) v'"

section \<open>Operations\<close>

datatype tx_op = Begin | Commit | Rollback | SavepointSet "string option" bool
  | SavepointRelease "string option" | SavepointRollback "string option"
  | SetAutocommit bool | SetIsolation int | SetLockWait int | BatchBegin | BatchEnd | Autobegin int

fun exec_op :: "tx_op \<Rightarrow> sqli_conn \<Rightarrow> world \<Rightarrow> sqli_status session" where
  "exec_op Begin = begin_conn"
| "exec_op Commit = commit_conn"
| "exec_op Rollback = rollback_conn"
| "exec_op (SavepointSet name unique) = savepoint_send_core SQLI_SQ_SQLISETSVPT name True unique"
| "exec_op (SavepointRelease name) = savepoint_send_core SQLI_SQ_SQLIRELSVPT name False False"
| "exec_op (SavepointRollback name) = savepoint_send_core SQLI_SQ_SQLIRBACKSVPT name False False"
| "exec_op (SetAutocommit on) = autocommit_conn on"
| "exec_op (SetIsolation level) = isolation_conn level"
| "exec_op (SetLockWait seconds) = lock_wait_conn seconds"
| "exec_op BatchBegin = batch_begin_conn"
| "exec_op BatchEnd = batch_end_conn"
| "exec_op (Autobegin statement_type) = autobegin_conn statement_type"

text \<open>
  The session statements of the isolation and lock-wait settings do not change transaction
  state: they are neither data access nor transaction statements.
\<close>

definition neutral_queries :: "world \<Rightarrow> bool" where
  "neutral_queries w \<longleftrightarrow> (\<forall>q \<in> set (w_queries w). \<forall>sql c. view (snd (snd (q sql c))) = view c)"

lemma view_updates:
  "view (c\<lparr>c_in_transaction := b\<rparr>) = (view c)\<lparr>v_tx := b\<rparr>"
  "view (c\<lparr>c_in_transaction := b, c_commit_epoch := n\<rparr>) = (view c)\<lparr>v_tx := b, v_commits := n\<rparr>"
  "view (c\<lparr>c_in_transaction := b, c_rollback_epoch := n\<rparr>) = (view c)\<lparr>v_tx := b, v_rollbacks := n\<rparr>"
  "view (c\<lparr>c_in_batch := b\<rparr>) = (view c)\<lparr>v_batch := b\<rparr>"
  "view (c\<lparr>c_autocommit := b\<rparr>) = (view c)\<lparr>v_auto := b\<rparr>"
  "view (c\<lparr>c_isolation := l\<rparr>) = (view c)\<lparr>v_iso := l\<rparr>"
  by (simp_all add: view_def)

lemma view_selectors:
  "v_tx (view c) = c_in_transaction c" "v_batch (view c) = c_in_batch c"
  "v_auto (view c) = c_autocommit c" "v_iso (view c) = c_isolation c"
  "v_commits (view c) = c_commit_epoch c" "v_rollbacks (view c) = c_rollback_epoch c"
  by (simp_all add: view_def)

lemma view_eqD:
  assumes "view c = view c'"
  shows "c_in_transaction c = c_in_transaction c'" "c_in_batch c = c_in_batch c'"
    "c_autocommit c = c_autocommit c'" "c_commit_epoch c = c_commit_epoch c'"
    "c_rollback_epoch c = c_rollback_epoch c'"
  using assms by (simp_all add: view_def)

lemma verify_txn_ready_view [simp]: "view (snd (verify_txn_ready op c)) = view c"
  by (simp add: verify_txn_ready_def)

lemma verify_txn_ready_snd: "fst (verify_txn_ready op c) = SQLI_OK \<Longrightarrow> snd (verify_txn_ready op c) = c"
  by (simp add: verify_txn_ready_def split: if_splits)

lemma drain_view: "drain_txn_response c w = (rc, c', w') \<Longrightarrow> view c' = view c"
  using receive_dispatch_view [of c w]
  by (cases "receive_dispatch c w") (auto simp: drain_txn_response_def Let_def)

lemma drain_sent: "drain_txn_response c w = (rc, c', w') \<Longrightarrow> w_sent w' = w_sent w"
  by (auto simp: drain_txn_response_def receive_dispatch_def Let_def split: prod.splits)

lemma drain_facts:
  assumes "drain_txn_response (set_error_context x n (clear_error c)) w = (rc, c', w')"
  shows "view c' = view c \<and> w_sent w' = w_sent w \<and> c_commit_epoch c' = c_commit_epoch c \<and>
    c_rollback_epoch c' = c_rollback_epoch c"
proof -
  have v: "view c' = view c" using drain_view [OF assms] by simp
  then show ?thesis using drain_sent [OF assms] view_eqD(4,5) [OF v] by simp
qed

lemma ensure_error_simps [simp]:
  "view (ensure_error m c) = view c" "ei_has_error (c_error_info (ensure_error m c))"
  by (simp_all add: ensure_error_def)

lemma fail_with_simps [simp]:
  "fst (fail_with x n m st c w) = st" "view (fst (snd (fail_with x n m st c w))) = view c"
  "snd (snd (fail_with x n m st c w)) = w"
  "ei_has_error (c_error_info (fst (snd (fail_with x n m st c w))))"
  by (simp_all add: fail_with_def)

lemma begin_conn_cases:
  assumes "begin_conn c w = (st, c', w')"
  shows "if st = SQLI_OK
    then tx_step (view c) Began (view c') \<and> w_sent w' = w_sent w @ [[0, u8 SQLI_SQ_EOT, 0, u8 SQLI_SQ_BEGIN]] \<and>
      \<not> ei_has_error (c_error_info c')
    else view c' = view c \<and> ei_has_error (c_error_info c')"
  using assms
    by (auto simp: begin_conn_def Let_def fail_with_def verify_txn_ready_def view_updates view_selectors
        tcp_send_def dest!: drain_facts split: prod.splits if_splits list.splits)



lemma commit_conn_cases:
  assumes "commit_conn c w = (st, c', w')"
  shows "if st = SQLI_OK
    then tx_step (view c) Committed (view c') \<and> w_sent w' = w_sent w @ [[0, u8 SQLI_SQ_EOT, 0, u8 SQLI_SQ_CMMTWORK]] \<and>
      \<not> ei_has_error (c_error_info c')
    else view c' = view c \<and> ei_has_error (c_error_info c')"
  using assms
    by (auto simp: commit_conn_def Let_def fail_with_def verify_txn_ready_def view_updates view_selectors
        tcp_send_def dest!: drain_facts split: prod.splits if_splits list.splits)


lemma rollback_conn_cases:
  assumes "rollback_conn c w = (st, c', w')"
  shows "if st = SQLI_OK
    then tx_step (view c) RolledBack (view c') \<and> w_sent w' = w_sent w @ [[0, u8 SQLI_SQ_EOT, 0, u8 SQLI_SQ_RBWORK, 0, 0]] \<and>
      \<not> ei_has_error (c_error_info c')
    else view c' = view c \<and> ei_has_error (c_error_info c')"
  using assms
    by (auto simp: rollback_conn_def Let_def fail_with_def verify_txn_ready_def view_updates view_selectors
        tcp_send_def dest!: drain_facts split: prod.splits if_splits list.splits)


lemma batch_begin_conn_cases:
  assumes "batch_begin_conn c w = (st, c', w')"
  shows "if st = SQLI_OK
    then tx_step (view c) BatchOpened (view c') \<and> w_sent w' = w_sent w @ [[0, u8 SQLI_SQ_BATCHSTART]] \<and>
      \<not> ei_has_error (c_error_info c')
    else view c' = view c \<and> ei_has_error (c_error_info c')"
  using assms
  by (auto simp: batch_begin_conn_def Let_def fail_with_def verify_txn_ready_def view_updates view_selectors
      tcp_send_def split: prod.splits if_splits list.splits)

lemma batch_end_conn_cases:
  assumes "batch_end_conn c w = (st, c', w')"
  shows "if st = SQLI_OK
    then tx_step (view c) BatchClosed (view c') \<and> w_sent w' = w_sent w @ [[0, u8 SQLI_SQ_BATCHEND]] \<and>
      \<not> ei_has_error (c_error_info c')
    else view c' = view c \<and> ei_has_error (c_error_info c')"
  using assms
  by (auto simp: batch_end_conn_def Let_def fail_with_def verify_txn_ready_def view_updates view_selectors
      tcp_send_def split: prod.splits if_splits list.splits)

lemma autocommit_conn_cases:
  assumes "autocommit_conn on c w = (st, c', w')"
  shows "if st = SQLI_OK then tx_step (view c) (AutocommitSet on) (view c') \<and> w' = w else view c' = view c \<and> w' = w"
  using assms
  by (auto simp: autocommit_conn_def Let_def fail_with_def view_updates view_selectors split: if_splits)

lemma run_query_view:
  assumes "run_query sql c w = (r, c', w')" "neutral_queries w"
  shows "view c' = view c"
proof (cases "w_queries w")
  case (Cons q qs)
  then have "view (snd (snd (q sql c))) = view c" using assms(2) by (simp add: neutral_queries_def)
  then show ?thesis using assms(1) Cons by (cases "q sql c") (auto simp: run_query_def)
qed (use assms in \<open>simp add: run_query_def\<close>)

lemma isolation_conn_cases:
  assumes "isolation_conn level c w = (st, c', w')" "neutral_queries w"
  shows "if st = SQLI_OK then tx_step (view c) (IsolationSet level) (view c') else view c' = view c"
proof -
  have q: "view c2 = view c1" if "run_query sql (clear_error c1) w = (r, c2, w2)" for sql c1 r c2 w2
    using run_query_view [OF that assms(2)] by simp
  show ?thesis
    using assms(1)
    by (auto simp: isolation_conn_def Let_def isolation_sql_def apply_session_sql_def view_updates view_selectors
        dest: q split: prod.splits if_splits)
qed

lemma lock_wait_conn_cases:
  assumes "lock_wait_conn seconds c w = (st, c', w')" "neutral_queries w"
  shows "view c' = view c"
proof -
  have q: "view c2 = view c1" if "run_query sql (clear_error c1) w = (r, c2, w2)" for sql c1 r c2 w2
    using run_query_view [OF that assms(2)] by simp
  show ?thesis
    using assms(1)
    by (auto simp: lock_wait_conn_def Let_def apply_session_sql_def verify_txn_ready_def
        simp del: print_nat.simps dest: q split: prod.splits if_splits)
qed


section \<open>Savepoints\<close>

definition encoder_ok :: "world \<Rightarrow> bool" where
  "encoder_ok w \<longleftrightarrow> (\<forall>s. w_encode w s \<noteq> Inl SQLI_OK)"

text \<open>The messages of a counted, padded name, and of a savepoint request.\<close>

definition name_messages :: "byte list \<Rightarrow> byte list list" where
  "name_messages enc = [u8 (length enc div 256), u8 (length enc mod 256)] #
     (if enc = [] then [] else [enc]) @ (if odd (length enc) then [[0]] else [])"

definition savepoint_messages :: "nat \<Rightarrow> byte list \<Rightarrow> bool \<Rightarrow> bool \<Rightarrow> byte list list" where
  "savepoint_messages opcode enc include_flag unique =
     [0, u8 opcode] # name_messages enc @ (if include_flag then [[0, if unique then 1 else 0]] else []) @
     [[0, u8 SQLI_SQ_EOT]]"

lemma tcp_send_cases:
  assumes "tcp_send c buf w = (ok, w')"
  shows "w_sent w' = (if ok then w_sent w @ [buf] else w_sent w) \<and> w_encode w' = w_encode w"
  using assms by (auto simp: tcp_send_def Let_def split: if_splits list.splits)

lemma begin_conn_encode:
  assumes "begin_conn c w = (st, c', w')" shows "w_encode w' = w_encode w"
  using assms
  by (auto simp: begin_conn_def Let_def fail_with_def drain_txn_response_def receive_dispatch_def
      dest: tcp_send_cases split: prod.splits if_splits)

lemma send_char_payload_OK:
  assumes "send_char_payload name c w = (SQLI_OK, w')" "encoder_ok w"
  shows "\<exists>enc. w_encode w name = Inr enc \<and> length enc \<le> 65535 \<and> w_sent w' = w_sent w @ name_messages enc"
  using assms
  by (auto simp: send_char_payload_def Let_def encoder_ok_def name_messages_def
      dest!: tcp_send_cases split: sum.splits prod.splits if_splits)

lemma savepoint_exchange_cases:
  assumes "savepoint_exchange opcode name inc uniq c w = (st, c', w')" "encoder_ok w"
  shows "view c' = view c \<and> (if st = SQLI_OK
     then \<not> ei_has_error (c_error_info c') \<and> (\<exists>enc. w_encode w name = Inr enc \<and> length enc \<le> 65535 \<and>
       w_sent w' = w_sent w @ savepoint_messages opcode enc inc uniq)
     else ei_has_error (c_error_info c'))"
proof -
  obtain ok1 w1 where s1: "tcp_send c [0, u8 opcode] w = (ok1, w1)" by fastforce
  note t1 = tcp_send_cases [OF s1]
  show ?thesis
  proof (cases ok1)
    case False
    then show ?thesis using assms(1) s1 by (auto simp: savepoint_exchange_def fail_with_def)
  next
    case ok: True
    obtain rc w2 where s2: "send_char_payload name c w1 = (rc, w2)" by fastforce
    show ?thesis
    proof (cases "rc = SQLI_OK")
      case False
      then show ?thesis using assms(1) s1 s2 ok by (auto simp: savepoint_exchange_def fail_with_def)
    next
      case True
      have "encoder_ok w1" using t1 assms(2) by (simp add: encoder_ok_def)
      from send_char_payload_OK [OF s2 [unfolded True] this] t1 ok
      obtain enc where enc: "w_encode w name = Inr enc" "length enc \<le> 65535"
        "w_sent w2 = w_sent w @ [0, u8 opcode] # name_messages enc" by auto
      have d: "view c2 = view c1 \<and> w_sent w4 = w_sent w3"
        if "drain_txn_response (set_error_context x n c1) w3 = (rc, c2, w4)" for x n c1 w3 rc c2 w4
        using drain_view [OF that] drain_sent [OF that] by simp
      show ?thesis
        using assms(1) s1 s2 ok True enc
        by (auto simp: savepoint_exchange_def fail_with_def savepoint_messages_def
            dest!: tcp_send_cases d split: prod.splits if_splits)
    qed
  qed
qed

lemma savepoint_cases:
  assumes run: "savepoint_send_core opcode name inc uniq c w = (st, c', w')" and enc: "encoder_ok w"
  shows "if st = SQLI_OK
    then \<not> ei_has_error (c_error_info c') \<and> (\<exists>enc. w_encode w (the name) = Inr enc \<and> length enc \<le> 65535 \<and>
      (if c_in_transaction c
       then view c' = view c \<and> w_sent w' = w_sent w @ savepoint_messages opcode enc inc uniq
       else \<not> c_autocommit c \<and> tx_step (view c) Began (view c') \<and>
         w_sent w' = w_sent w @ [0, u8 SQLI_SQ_EOT, 0, u8 SQLI_SQ_BEGIN] # savepoint_messages opcode enc inc uniq))
    else ei_has_error (c_error_info c') \<and>
      (view c' = view c \<or> \<not> c_autocommit c \<and> tx_step (view c) Began (view c'))"
proof (cases "fst (verify_txn_ready ''savepoint'' (clear_error c)) \<noteq> SQLI_OK \<or> name = None \<or> name = Some [] \<or>
    \<not> c_in_transaction c \<and> c_autocommit c")
  case True
  then show ?thesis using run
    by (auto simp: savepoint_send_core_def Let_def verify_txn_ready_def fail_with_def split: if_splits)
next
  case False
  then have v: "verify_txn_ready ''savepoint'' (clear_error c) = (SQLI_OK, clear_error c)"
    by (metis prod.collapse verify_txn_ready_snd)
  obtain nm where nm: "name = Some nm" "nm \<noteq> []" using False by auto
  have ready: "\<not> (\<not> c_in_transaction c \<and> c_autocommit c)" using False by simp
  show ?thesis
  proof (cases "c_in_transaction c")
    case True
    then have "savepoint_exchange opcode (the name) inc uniq (clear_error c) w = (st, c', w')"
      using run v nm by (simp add: savepoint_send_core_def)
    from savepoint_exchange_cases [OF this enc] show ?thesis using True by (auto split: if_splits)
  next
    case notx: False
    obtain rc c1 w1 where b: "begin_conn (clear_error c) w = (rc, c1, w1)" by (metis prod.collapse)
    note B = begin_conn_cases [OF b]
    show ?thesis
    proof (cases "rc = SQLI_OK")
      case False
      then have "st = rc" "c' = c1" "w' = w1"
        using run v nm ready notx b False by (auto simp: savepoint_send_core_def)
      then show ?thesis using B False by simp
    next
      case True
      then have "savepoint_exchange opcode (the name) inc uniq c1 w1 = (st, c', w')"
        using run v nm ready notx b True by (simp add: savepoint_send_core_def)
      moreover have "encoder_ok w1" using begin_conn_encode [OF b] enc by (simp add: encoder_ok_def)
      ultimately have "view c' = view c1 \<and> (if st = SQLI_OK
         then \<not> ei_has_error (c_error_info c') \<and> (\<exists>enc. w_encode w1 (the name) = Inr enc \<and> length enc \<le> 65535 \<and>
           w_sent w' = w_sent w1 @ savepoint_messages opcode enc inc uniq)
         else ei_has_error (c_error_info c'))"
        by (rule savepoint_exchange_cases)
      then show ?thesis using B True notx ready begin_conn_encode [OF b]
        by (auto split: if_splits)
    qed
  qed
qed


section \<open>Properties\<close>

fun tx_path :: "tx_view \<Rightarrow> tx_event list \<Rightarrow> tx_view \<Rightarrow> bool" where
  "tx_path v [] v' \<longleftrightarrow> v' = v"
| "tx_path v (e # es) v' \<longleftrightarrow> (\<exists>u. tx_step v e u \<and> tx_path u es v')"

lemma tx_path_append: "tx_path v (es @ fs) v' \<longleftrightarrow> (\<exists>u. tx_path v es u \<and> tx_path u fs v')"
  by (induction es arbitrary: v) auto

text \<open>The events of an operation that succeeds.\<close>

fun op_events :: "tx_op \<Rightarrow> tx_view \<Rightarrow> tx_event list" where
  "op_events Begin v = [Began]"
| "op_events Commit v = [Committed]"
| "op_events Rollback v = [RolledBack]"
| "op_events (SavepointSet _ _) v = (if v_tx v then [] else [Began])"
| "op_events (SavepointRelease _) v = (if v_tx v then [] else [Began])"
| "op_events (SavepointRollback _) v = (if v_tx v then [] else [Began])"
| "op_events (SetAutocommit on) v = [AutocommitSet on]"
| "op_events (SetIsolation level) v = [IsolationSet level]"
| "op_events (SetLockWait _) v = []"
| "op_events BatchBegin v = [BatchOpened]"
| "op_events BatchEnd v = [BatchClosed]"
| "op_events (Autobegin s) v = (if v_auto v \<or> v_tx v \<or> \<not> data_statement s then [] else [Began])"

fun is_savepoint :: "tx_op \<Rightarrow> bool" where
  "is_savepoint (SavepointSet _ _) = True"
| "is_savepoint (SavepointRelease _) = True"
| "is_savepoint (SavepointRollback _) = True"
| "is_savepoint _ = False"

lemma autobegin_conn_cases:
  assumes "autobegin_conn s c w = (st, c', w')"
  shows "if c_autocommit c \<or> c_in_transaction c \<or> \<not> data_statement s
    then st = SQLI_OK \<and> c' = c \<and> w' = w else begin_conn c w = (st, c', w')"
  using assms by (auto simp: autobegin_conn_def split: if_splits)

lemma exec_op_events:
  assumes run: "exec_op op c w = (st, c', w')" and q: "neutral_queries w" and e: "encoder_ok w"
  shows "if st = SQLI_OK then tx_path (view c) (op_events op (view c)) (view c')
    else view c' = view c \<or>
      is_savepoint op \<and> \<not> c_autocommit c \<and> tx_path (view c) [Began] (view c')"
proof (cases op)
  case (SetIsolation l)
  then show ?thesis using isolation_conn_cases [OF _ q, of l c st c' w'] run by auto
next
  case (SetLockWait s)
  then show ?thesis using lock_wait_conn_cases [OF _ q, of s c st c' w'] run by auto
next
  case (Autobegin s)
  then have A: "if c_autocommit c \<or> c_in_transaction c \<or> \<not> data_statement s
    then st = SQLI_OK \<and> c' = c \<and> w' = w else begin_conn c w = (st, c', w')"
    using autobegin_conn_cases run by simp
  show ?thesis
  proof (cases "c_autocommit c \<or> c_in_transaction c \<or> \<not> data_statement s")
    case True
    then show ?thesis using A Autobegin by (auto simp: view_selectors)
  next
    case False
    then have "begin_conn c w = (st, c', w')" using A by auto
    from begin_conn_cases [OF this] show ?thesis using Autobegin False by (auto simp: view_selectors split: if_splits)
  qed
next
  case (SetAutocommit on)
  then have "autocommit_conn on c w = (st, c', w')" using run by simp
  from autocommit_conn_cases [OF this] show ?thesis using SetAutocommit by (auto split: if_splits)
next
  case (SavepointSet n u)
  then have "savepoint_send_core SQLI_SQ_SQLISETSVPT n True u c w = (st, c', w')" using run by simp
  from savepoint_cases [OF this e] show ?thesis using SavepointSet
    by (auto simp: view_selectors split: if_splits)
next
  case (SavepointRelease n)
  then have "savepoint_send_core SQLI_SQ_SQLIRELSVPT n False False c w = (st, c', w')" using run by simp
  from savepoint_cases [OF this e] show ?thesis using SavepointRelease
    by (auto simp: view_selectors split: if_splits)
next
  case (SavepointRollback n)
  then have "savepoint_send_core SQLI_SQ_SQLIRBACKSVPT n False False c w = (st, c', w')" using run by simp
  from savepoint_cases [OF this e] show ?thesis using SavepointRollback
    by (auto simp: view_selectors split: if_splits)
qed (use run begin_conn_cases [of c w st c' w'] commit_conn_cases [of c w st c' w']
      rollback_conn_cases [of c w st c' w'] batch_begin_conn_cases [of c w st c' w']
      batch_end_conn_cases [of c w st c' w'] in
    \<open>auto split: if_splits\<close>)

text \<open>
  C6. Every operation of the transaction layer refines the abstract machine: success is
  exactly the events of the operation, each enabled where it happens; a failure changes
  nothing, except that a savepoint may have begun the transaction it needed.
\<close>

theorem exec_op_refines:
  assumes "exec_op op c w = (st, c', w')" "neutral_queries w" "encoder_ok w"
  shows "if st = SQLI_OK then tx_path (view c) (op_events op (view c)) (view c')
    else view c' = view c \<or>
      is_savepoint op \<and> \<not> c_autocommit c \<and> tx_path (view c) [Began] (view c')"
  by (rule exec_op_events [OF assms])


definition reporting :: "tx_op \<Rightarrow> bool" where
  "reporting op \<longleftrightarrow> op \<in> {Begin, Commit, Rollback, BatchBegin, BatchEnd} \<or> is_savepoint op"

lemma exec_op_report:
  assumes "exec_op op c w = (st, c', w')" "reporting op" "encoder_ok w"
  shows "ei_has_error (c_error_info c') \<longleftrightarrow> st \<noteq> SQLI_OK"
  using assms begin_conn_cases [of c w st c' w'] commit_conn_cases [of c w st c' w']
      rollback_conn_cases [of c w st c' w'] batch_begin_conn_cases [of c w st c' w']
      batch_end_conn_cases [of c w st c' w'] savepoint_cases [of _ _ _ _ c w st c' w']
  by (cases op) (auto simp: reporting_def split: if_splits)

text \<open>
  No transaction operation fails silently: begin, commit, rollback, the savepoint calls
  and the batch brackets leave a diagnostic whenever they return a failure, and none when
  they succeed.
\<close>

theorem exec_op_reports_failures:
  assumes "exec_op op c w = (st, c', w')" "reporting op" "encoder_ok w"
  shows "ei_has_error (c_error_info c') \<longleftrightarrow> st \<noteq> SQLI_OK"
  by (rule exec_op_report [OF assms])

text \<open>The messages an operation sends when it succeeds.\<close>

fun op_messages :: "tx_op \<Rightarrow> tx_view \<Rightarrow> (string \<Rightarrow> byte list) \<Rightarrow> byte list list" where
  "op_messages Begin v enc = [[0, 12, 0, 35]]"
| "op_messages Commit v enc = [[0, 12, 0, 19]]"
| "op_messages Rollback v enc = [[0, 12, 0, 20, 0, 0]]"
| "op_messages (SavepointSet name unique) v enc = (if v_tx v then [] else [[0, 12, 0, 35]]) @
     savepoint_messages 137 (enc (the name)) True unique"
| "op_messages (SavepointRelease name) v enc = (if v_tx v then [] else [[0, 12, 0, 35]]) @
     savepoint_messages 138 (enc (the name)) False False"
| "op_messages (SavepointRollback name) v enc = (if v_tx v then [] else [[0, 12, 0, 35]]) @
     savepoint_messages 139 (enc (the name)) False False"
| "op_messages BatchBegin v enc = [[0, 141]]"
| "op_messages BatchEnd v enc = [[0, 142]]"
| "op_messages _ v enc = []"

text \<open>
  The bytes of a successful operation are exactly the native requests: SQ_EOT and the
  opcode for begin, commit and rollback (with the padding short), the opcode, the counted and
  padded name, the uniqueness flag and SQ_EOT for savepoints, the batch bracket for batches.
\<close>

theorem exec_op_wire:
  assumes "exec_op op c w = (SQLI_OK, c', w')" "reporting op" "encoder_ok w"
  shows "w_sent w' = w_sent w @ op_messages op (view c) (\<lambda>s. projr (w_encode w s))"
proof -
  have op: "u8 SQLI_SQ_EOT = 12" "u8 SQLI_SQ_BEGIN = 35" "u8 SQLI_SQ_CMMTWORK = 19" "u8 SQLI_SQ_RBWORK = 20"
    "u8 SQLI_SQ_BATCHSTART = 141" "u8 SQLI_SQ_BATCHEND = 142"
    by (simp_all add: opcode_defs u8_def)
  show ?thesis
    using assms begin_conn_cases [of c w SQLI_OK c' w'] commit_conn_cases [of c w SQLI_OK c' w']
      rollback_conn_cases [of c w SQLI_OK c' w'] batch_begin_conn_cases [of c w SQLI_OK c' w']
      batch_end_conn_cases [of c w SQLI_OK c' w']
      savepoint_cases [of SQLI_SQ_SQLISETSVPT _ True _ c w SQLI_OK c' w']
      savepoint_cases [of SQLI_SQ_SQLIRELSVPT _ False False c w SQLI_OK c' w']
      savepoint_cases [of SQLI_SQ_SQLIRBACKSVPT _ False False c w SQLI_OK c' w']
    by (cases op) (force simp: reporting_def op view_selectors SQLI_SQ_SQLISETSVPT_def
        SQLI_SQ_SQLIRELSVPT_def SQLI_SQ_SQLIRBACKSVPT_def split: if_splits)+
qed

section \<open>Histories\<close>

fun run_ops :: "tx_op list \<Rightarrow> sqli_conn \<Rightarrow> world \<Rightarrow> sqli_status list session" where
  "run_ops [] c w = ([], c, w)"
| "run_ops (op # ops) c w =
     (let (st, c, w) = exec_op op c w; (sts, c, w) = run_ops ops c w in (st # sts, c, w))"

lemma run_query_world:
  "run_query sql c w = (r, c', w') \<Longrightarrow> w_encode w' = w_encode w \<and> set (w_queries w') \<subseteq> set (w_queries w)"
  by (auto simp: run_query_def split: list.splits prod.splits)

lemma tcp_send_queries: "tcp_send c buf w = (ok, w') \<Longrightarrow> w_encode w' = w_encode w \<and> w_queries w' = w_queries w"
  by (auto simp: tcp_send_def Let_def split: if_splits list.splits)

lemma drain_queries: "drain_txn_response c w = (rc, c', w') \<Longrightarrow> w_encode w' = w_encode w \<and> w_queries w' = w_queries w"
  by (auto simp: drain_txn_response_def receive_dispatch_def Let_def split: prod.splits)

lemma begin_conn_queries: "begin_conn c w = (st, c', w') \<Longrightarrow> w_encode w' = w_encode w \<and> w_queries w' = w_queries w"
  by (auto simp: begin_conn_def Let_def fail_with_def dest!: tcp_send_queries drain_queries split: prod.splits if_splits)

lemma send_char_payload_queries:
  "send_char_payload s c w = (rc, w') \<Longrightarrow> w_encode w' = w_encode w \<and> w_queries w' = w_queries w"
  by (auto simp: send_char_payload_def Let_def dest!: tcp_send_queries split: sum.splits prod.splits if_splits)

lemma savepoint_exchange_queries:
  "savepoint_exchange opc s inc u c w = (st, c', w') \<Longrightarrow> w_encode w' = w_encode w \<and> w_queries w' = w_queries w"
  by (auto simp: savepoint_exchange_def Let_def fail_with_def
      dest!: tcp_send_queries drain_queries send_char_payload_queries split: prod.splits if_splits)

lemma savepoint_queries:
  "savepoint_send_core opc s inc u c w = (st, c', w') \<Longrightarrow> w_encode w' = w_encode w \<and> w_queries w' = w_queries w"
  by (auto simp: savepoint_send_core_def Let_def fail_with_def
      dest!: begin_conn_queries savepoint_exchange_queries split: prod.splits if_splits)

lemma exec_op_world:
  assumes "exec_op op c w = (st, c', w')"
  shows "w_encode w' = w_encode w \<and> set (w_queries w') \<subseteq> set (w_queries w)"
  using assms
proof (cases op)
  case (SetIsolation l)
  then show ?thesis using assms
    by (auto simp: isolation_conn_def Let_def apply_session_sql_def dest!: run_query_world
        split: prod.splits if_splits option.splits)
next
  case (SetLockWait s)
  then show ?thesis using assms
    by (auto simp: lock_wait_conn_def Let_def apply_session_sql_def simp del: print_nat.simps
        dest!: run_query_world split: prod.splits if_splits)
next
  case (Autobegin s)
  then show ?thesis using assms
    by (auto simp: autobegin_conn_def dest!: begin_conn_queries split: if_splits)
qed (auto simp: commit_conn_def rollback_conn_def batch_begin_conn_def batch_end_conn_def autocommit_conn_def
    Let_def fail_with_def dest!: begin_conn_queries savepoint_queries tcp_send_queries drain_queries
    split: prod.splits if_splits)


fun successes :: "tx_op \<Rightarrow> tx_op list \<Rightarrow> sqli_status list \<Rightarrow> nat" where
  "successes op (o1 # ops) (st # sts) = (if o1 = op \<and> st = SQLI_OK then 1 else 0) + successes op ops sts"
| "successes op _ _ = 0"

lemma u64_Suc_u64: "u64 (u64 n + 1) = u64 (n + 1)"
  by (simp add: u64_def mod_simps)

text \<open>The transaction flag and the epochs are determined by the events so far.\<close>

lemma tx_path_counts:
  assumes "tx_path v es v'"
  shows "count_list es Began + of_bool (v_tx v) =
      count_list es Committed + count_list es RolledBack + of_bool (v_tx v')"
    and "v_commits v < 2 ^ 64 \<Longrightarrow> v_commits v' = u64 (v_commits v + count_list es Committed)"
    and "v_rollbacks v < 2 ^ 64 \<Longrightarrow> v_rollbacks v' = u64 (v_rollbacks v + count_list es RolledBack)"
  using assms
proof (induction es arbitrary: v)
  case Nil
  { case 1 then show ?case by simp
  next case 2 then show ?case by (simp add: u64_id)
  next case 3 then show ?case by (simp add: u64_id) }
next
  case (Cons e es)
  { case 1
    then obtain u where "tx_step v e u" "tx_path u es v'" by auto
    then show ?case using Cons.IH(1) [of u] by (auto elim!: tx_stepE)
  next
    case 2
    then obtain u where "tx_step v e u" "tx_path u es v'" by auto
    then show ?case using Cons.IH(2) [of u] 2(1)
      by (auto elim!: tx_stepE simp: u64_def mod_simps)
  next
    case 3
    then obtain u where "tx_step v e u" "tx_path u es v'" by auto
    then show ?case using Cons.IH(3) [of u] 3(1)
      by (auto elim!: tx_stepE simp: u64_def mod_simps) }
qed

text \<open>
  The events of a sequence of calls, given what each call returned: those of the operation after a success, none
  after a failure, but for a savepoint that has begun a transaction in vain.
\<close>

fun tx_history :: "tx_view \<Rightarrow> tx_op list \<Rightarrow> sqli_status list \<Rightarrow> tx_event list \<Rightarrow> tx_view \<Rightarrow> bool" where
  "tx_history v [] [] es v' \<longleftrightarrow> es = [] \<and> v' = v"
| "tx_history v (op # ops) (st # sts) es v' \<longleftrightarrow>
     (\<exists>es1 es2 u. es = es1 @ es2 \<and> tx_path v es1 u \<and>
        (if st = SQLI_OK then es1 = op_events op v else es1 = [] \<or> is_savepoint op \<and> \<not> v_auto v \<and> es1 = [Began]) \<and>
        tx_history u ops sts es2 v')"
| "tx_history v _ _ es v' \<longleftrightarrow> False"

lemma tx_history_counts:
  assumes "tx_history v ops sts es v'"
  shows "tx_path v es v'" "count_list es Committed = successes Commit ops sts" "count_list es RolledBack = successes Rollback ops sts"
  using assms
proof (induction v ops sts es v' rule: tx_history.induct)
  case (2 v op ops st sts es v')
  have one: "count_list (op_events op v) Committed = (if op = Commit then 1 else 0)"
    "count_list (op_events op v) RolledBack = (if op = Rollback then 1 else 0)" for op v
    by (cases op; simp)+
  { case 1
    then obtain es1 es2 u where "es = es1 @ es2" "tx_path v es1 u" "tx_history u ops sts es2 v'" by auto
    then show ?case using "2.IH"(1) [of u es2] by (auto simp: tx_path_append)
  next case 2 then show ?case using "2.IH"(2) by (auto simp: one split: if_splits)
  next case 3 then show ?case using "2.IH"(3) by (auto simp: one split: if_splits) }
qed simp_all

lemma run_ops_history:
  assumes "run_ops ops c w = (sts, c', w')" "neutral_queries w" "encoder_ok w"
  shows "\<exists>es. tx_history (view c) ops sts es (view c')"
  using assms
proof (induction ops arbitrary: c w sts)
  case Nil
  then show ?case by simp
next
  case (Cons op ops)
  obtain st c1 w1 where s: "exec_op op c w = (st, c1, w1)" by (metis prod.collapse)
  obtain sts1 where r: "run_ops ops c1 w1 = (sts1, c', w')" "sts = st # sts1"
    using Cons.prems(1) s by (auto split: prod.splits)
  have ok: "neutral_queries w1" "encoder_ok w1"
    using exec_op_world [OF s] Cons.prems(2,3) by (auto simp: neutral_queries_def encoder_ok_def)
  obtain es where es: "tx_history (view c1) ops sts1 es (view c')" using Cons.IH [OF r(1) ok] by blast
  define e where "e = (if st = SQLI_OK then op_events op (view c) else if view c1 = view c then [] else [Began])"
  have "tx_path (view c) e (view c1)" "if st = SQLI_OK then e = op_events op (view c)
      else e = [] \<or> is_savepoint op \<and> \<not> v_auto (view c) \<and> e = [Began]"
    using exec_op_events [OF s Cons.prems(2,3)] by (auto simp: e_def view_selectors split: if_splits)
  then show ?case using es unfolding r(2) tx_history.simps by blast
qed

lemma run_ops_events:
  assumes "run_ops ops c w = (sts, c', w')" "neutral_queries w" "encoder_ok w"
  shows "\<exists>es. tx_path (view c) es (view c') \<and> count_list es Committed = successes Commit ops sts \<and>
    count_list es RolledBack = successes Rollback ops sts"
  using run_ops_history [OF assms] tx_history_counts by blast

text \<open>
  C9. Along every sequence of calls the connection goes through exactly the events of the calls that succeeded,
  each enabled where it happens: a begin sets the transaction flag, a commit or rollback needs it and clears it, a
  savepoint or a data statement without autocommit sets it where it is not set, a failed call does nothing except
  that a savepoint may have begun its transaction. So the epochs count the successful commits and rollbacks
  (modulo 2^64), and the flag tells whether one more transaction was begun than ended.
\<close>

theorem transaction_history:
  assumes "run_ops ops c w = (sts, c', w')" "neutral_queries w" "encoder_ok w"
    and "c_commit_epoch c < 2 ^ 64" "c_rollback_epoch c < 2 ^ 64" "\<not> c_in_transaction c"
  shows "c_commit_epoch c' = u64 (c_commit_epoch c + successes Commit ops sts) \<and>
    c_rollback_epoch c' = u64 (c_rollback_epoch c + successes Rollback ops sts) \<and>
    (\<exists>es. tx_history (view c) ops sts es (view c') \<and>
      count_list es Began = successes Commit ops sts + successes Rollback ops sts + of_bool (c_in_transaction c'))"
proof -
  obtain es where es: "tx_history (view c) ops sts es (view c')" using run_ops_history [OF assms(1-3)] by blast
  from tx_path_counts [OF tx_history_counts(1) [OF es]] show ?thesis
    using es tx_history_counts(2,3) [OF es] assms(4-6) by (auto simp: view_selectors)
qed

section \<open>A sample session\<close>

definition sample_world :: world where
  "sample_world = \<lparr>w_sends = [4, 4], w_replies = replicate 2 \<lparr>r_status = SQLI_OK, r_saw_error = False, r_error = None\<rparr>,
     w_queries = [], w_encode = (\<lambda>s. Inr (map (\<lambda>ch. u8 (of_char ch)) s)), w_sent = []\<rparr>"

definition sample_conn :: sqli_conn where
  "sample_conn = created_conn\<lparr>c_state := SQLI_CONN_READY, c_socket_fd := 3\<rparr>"

lemma sample_ok: "neutral_queries sample_world" "encoder_ok sample_world"
  by (simp_all add: neutral_queries_def encoder_ok_def sample_world_def)

lemmas sample_eval = sample_world_def sample_conn_def created_conn_def begin_conn_def commit_conn_def Let_def
  verify_txn_ready_def clear_error_def set_error_context_def tcp_send_def drain_txn_response_def
  receive_dispatch_def numeral_2_eq_2 no_error_def

lemma sample_begin:
  "\<exists>c' w'. begin_conn sample_conn sample_world = (SQLI_OK, c', w') \<and> c_in_transaction c'"
  by (simp add: sample_eval)

theorem exec_op_refines_witness:
  "\<exists>c' w'. exec_op Begin sample_conn sample_world = (SQLI_OK, c', w') \<and> tx_path (view sample_conn) [Began] (view c')"
proof -
  obtain c' w' where "exec_op Begin sample_conn sample_world = (SQLI_OK, c', w')" using sample_begin by auto
  from this exec_op_refines [OF this sample_ok] show ?thesis by auto
qed

theorem exec_op_reports_failures_witness:
  "\<exists>c' w'. exec_op Commit sample_conn sample_world = (SQLI_INVALID_STATE, c', w') \<and> ei_has_error (c_error_info c')"
proof -
  have "\<exists>c' w'. exec_op Commit sample_conn sample_world = (SQLI_INVALID_STATE, c', w')"
    by (simp add: sample_eval fail_with_def)
  then obtain c' w' where r: "exec_op Commit sample_conn sample_world = (SQLI_INVALID_STATE, c', w')" by blast
  from exec_op_reports_failures [OF r _ sample_ok(2)] r show ?thesis by (auto simp: reporting_def)
qed

theorem exec_op_wire_witness:
  "\<exists>c' w'. exec_op Begin sample_conn sample_world = (SQLI_OK, c', w') \<and> w_sent w' = [[0, 12, 0, 35]]"
proof -
  obtain c' w' where r: "exec_op Begin sample_conn sample_world = (SQLI_OK, c', w')" using sample_begin by auto
  from exec_op_wire [OF r _ sample_ok(2)] r show ?thesis by (auto simp: reporting_def sample_world_def)
qed

theorem transaction_history_witness:
  "\<exists>sts c' w'. run_ops [Begin, Commit] sample_conn sample_world = (sts, c', w') \<and>
    c_commit_epoch c' = u64 (0 + successes Commit [Begin, Commit] sts)"
proof -
  obtain sts c' w' where r: "run_ops [Begin, Commit] sample_conn sample_world = (sts, c', w')" by (metis prod.collapse)
  have "c_commit_epoch sample_conn = 0" "c_rollback_epoch sample_conn = 0" "\<not> c_in_transaction sample_conn"
    by (simp_all add: sample_conn_def created_conn_def)
  from transaction_history [OF r sample_ok] this r show ?thesis by (intro exI) auto
qed

end
