(* ===== verification/Codecs.thy ===== *)
theory Codecs
  imports Prelude
begin

text \<open>
  The contracts of wire encoders: a prefix code is uniquely decodable in a stream, a fixed
  codec has a decoder that inverts it on a known width. The component theories interpret
  them on the code's encoders.
\<close>

section \<open>Prefix codes\<close>

locale prefix_code =
  fixes enc :: "'a \<Rightarrow> byte list" and valid :: "'a \<Rightarrow> bool"
  assumes unique: "valid a \<Longrightarrow> valid b \<Longrightarrow> enc a @ r = enc b @ s \<Longrightarrow> a = b \<and> r = s"
    and nonempty: "valid a \<Longrightarrow> enc a \<noteq> []"
begin

lemma inj: "valid a \<Longrightarrow> valid b \<Longrightarrow> enc a = enc b \<Longrightarrow> a = b"
  using unique [of a b "[]" "[]"] by simp

lemma stream_unique:
  "list_all valid xs \<Longrightarrow> list_all valid ys \<Longrightarrow> concat (map enc xs) = concat (map enc ys) \<Longrightarrow> xs = ys"
proof (induction xs arbitrary: ys)
  case Nil
  then show ?case using nonempty by (cases ys) auto
next
  case (Cons x xs)
  show ?case
  proof (cases ys)
    case Nil
    then show ?thesis using Cons.prems nonempty by auto
  next
    case (Cons y zs)
    then have "enc x @ concat (map enc xs) = enc y @ concat (map enc zs)" using Cons.prems(3) by simp
    then have "x = y \<and> concat (map enc xs) = concat (map enc zs)"
      using unique [of x y] Cons.prems(1,2) Cons by simp
    then show ?thesis using Cons.IH [of zs] Cons.prems(1,2) Cons by simp
  qed
qed

end

section \<open>Fixed-width codecs\<close>

locale fixed_codec =
  fixes enc :: "'a \<Rightarrow> byte list" and dec :: "byte list \<Rightarrow> 'a fallible"
    and width :: nat and valid :: "'a \<Rightarrow> bool"
  assumes width_pos: "0 < width"
    and enc_length: "valid a \<Longrightarrow> length (enc a) = width"
    and dec_enc: "valid a \<Longrightarrow> dec (enc a) = Inr a"
begin

lemma enc_inj: "valid a \<Longrightarrow> valid b \<Longrightarrow> enc a = enc b \<Longrightarrow> a = b"
  using dec_enc by (metis sum.inject(2))

lemma enc_prefix:
  assumes "valid a" "valid b" "enc a @ r = enc b @ s"
  shows "a = b \<and> r = s"
proof -
  have "length (enc a) = length (enc b)" using assms(1,2) enc_length by simp
  then have "enc a = enc b" "r = s" using assms(3) by simp_all
  then show ?thesis using enc_inj assms(1,2) by blast
qed

end

sublocale fixed_codec \<subseteq> prefix_code enc valid
proof unfold_locales
  show "enc a @ r = enc b @ s \<Longrightarrow> a = b \<and> r = s" if "valid a" "valid b" for a b r s
    by (rule enc_prefix [OF that])
  show "enc a \<noteq> []" if "valid a" for a
    using enc_length [OF that] width_pos by auto
qed

section \<open>Big-endian words\<close>

text \<open>The two-byte form that the wire uses for counts and codes, and its reader.\<close>

definition be16 :: "nat \<Rightarrow> byte list" where
  "be16 n = [u8 (n div 256), u8 (n mod 256)]"

definition be16_value :: "byte \<Rightarrow> byte \<Rightarrow> nat" where
  "be16_value a b = unat a * 256 + unat b"

lemma be16_value_be16 [simp]: "n < 65536 \<Longrightarrow> be16_value (u8 (n div 256)) (u8 (n mod 256)) = n"
  by (simp add: be16_value_def unat_u8)

lemma be16_value_mod [simp]: "n < 65536 \<Longrightarrow> be16_value (u8 (n div 256 mod 256)) (u8 (n mod 256)) = n"
  using be16_value_be16 [of n] by (simp add: less_mult_imp_div_less)

lemma be16_inj: "n < 65536 \<Longrightarrow> m < 65536 \<Longrightarrow> be16 n = be16 m \<Longrightarrow> n = m"
  unfolding be16_def by (metis be16_value_be16 list.inject)

end
