(* ===== verification/Wire.thy ===== *)
theory Wire
  imports Codecs
begin

text \<open>
  Session-layer headers and counted strings: src/src/sqli_wire.c. An encoder returns the
  bytes it writes at the start of the buffer; the number it returns is their length, so
  that nothing written is a return value of zero. A C string is the list of its characters,
  none of them NUL.
\<close>

definition SQLI_SL_HEADER_SIZE :: nat where "SQLI_SL_HEADER_SIZE = 6"

text \<open>On a 64-bit \<open>size_t\<close>: the sum wraps, the mask clears the lowest bit.\<close>

definition sqli_pad_even :: "nat \<Rightarrow> nat" where
  "sqli_pad_even n = (let m = u64 (n + 1) in m - m mod 2)"

record sl_header =
  h_pdu_size :: nat
  h_sl_type :: byte
  h_sl_attr :: byte
  h_sl_opts :: nat

definition sqli_wire_encode_sl_header :: "bool \<Rightarrow> nat \<Rightarrow> sl_header \<Rightarrow> byte list" where
  "sqli_wire_encode_sl_header buf_given buf_size h =
     (if \<not> buf_given \<or> buf_size < SQLI_SL_HEADER_SIZE then []
      else [u8 (h_pdu_size h div 256 mod 256), u8 (h_pdu_size h mod 256), h_sl_type h, h_sl_attr h,
            u8 (h_sl_opts h div 256), u8 (h_sl_opts h mod 256)])"

definition sqli_wire_decode_sl_header :: "byte list option \<Rightarrow> sl_header fallible" where
  "sqli_wire_decode_sl_header buf =
     (case buf of None \<Rightarrow> Inl SQLI_IO_ERROR
      | Some bs \<Rightarrow>
          if length bs < SQLI_SL_HEADER_SIZE then Inl SQLI_IO_ERROR
          else Inr \<lparr>h_pdu_size = be16_value (bs ! 0) (bs ! 1), h_sl_type = bs ! 2, h_sl_attr = bs ! 3,
                 h_sl_opts = be16_value (bs ! 4) (bs ! 5)\<rparr>)"

definition string_bytes :: "string \<Rightarrow> byte list" where
  "string_bytes s = map (\<lambda>ch. u8 (of_char ch)) s"

definition sqli_asc_encode_string :: "bool \<Rightarrow> nat \<Rightarrow> string option \<Rightarrow> byte list" where
  "sqli_asc_encode_string buf_given buf_size s =
     (if \<not> buf_given \<or> s = None then []
      else let slen = length (the s)
        in if slen > 0xFFFF then []
        else if buf_size < 2 + slen then []
        else [u8 (slen div 256 mod 256), u8 (slen mod 256)] @ string_bytes (the s))"

definition sqli_asc_encode_string_padded :: "bool \<Rightarrow> nat \<Rightarrow> string option \<Rightarrow> byte list" where
  "sqli_asc_encode_string_padded buf_given buf_size s =
     (if \<not> buf_given \<or> s = None then []
      else let slen = length (the s)
        in if slen > 0xFFFF then []
        else let payload = 2 + slen; total = sqli_pad_even payload
          in if buf_size < total then []
          else [u8 (slen div 256 mod 256), u8 (slen mod 256)] @ string_bytes (the s) @
               (if slen mod 2 \<noteq> 0 then [0] else []))"

section \<open>Properties\<close>

lemma pad_even_eq: "n + 1 < 2 ^ 64 \<Longrightarrow> sqli_pad_even n = (if even n then n else n + 1)"
  by (simp add: sqli_pad_even_def u64_id Let_def) presburger

definition header_ok :: "sl_header \<Rightarrow> bool" where
  "header_ok h \<longleftrightarrow> h_pdu_size h < 65536 \<and> h_sl_opts h < 65536"

abbreviation header_bytes :: "sl_header \<Rightarrow> byte list" where
  "header_bytes \<equiv> sqli_wire_encode_sl_header True SQLI_SL_HEADER_SIZE"

interpretation sl: fixed_codec header_bytes "\<lambda>bs. sqli_wire_decode_sl_header (Some bs)" SQLI_SL_HEADER_SIZE header_ok
  by unfold_locales
    (simp_all add: SQLI_SL_HEADER_SIZE_def sqli_wire_encode_sl_header_def sqli_wire_decode_sl_header_def
      header_ok_def)

lemma string_bytes_inj: "string_bytes s = string_bytes t \<Longrightarrow> s = t"
proof -
  have "inj (\<lambda>ch :: char. u8 (of_char ch))"
  proof (rule injI)
    fix a b :: char assume "u8 (of_char a) = u8 (of_char b)"
    then have "unat (u8 (of_char a)) = unat (u8 (of_char b))" by simp
    moreover have "(of_char a :: nat) < 256" "(of_char b :: nat) < 256" by simp_all
    ultimately have "(of_char a :: nat) = of_char b" by (simp add: unat_u8)
    then show "a = b" by simp
  qed
  then show "string_bytes s = string_bytes t \<Longrightarrow> s = t" by (simp add: string_bytes_def inj_map_eq_map)
qed

text \<open>The counted string in a buffer that is large enough, with and without padding.\<close>

definition counted :: "bool \<Rightarrow> string \<Rightarrow> byte list" where
  "counted padded s = [u8 (length s div 256 mod 256), u8 (length s mod 256)] @ string_bytes s @
     (if padded \<and> odd (length s) then [0] else [])"

lemma counted_unique:
  assumes "length s \<le> 0xFFFF" "length t \<le> 0xFFFF" "counted p s @ r = counted p t @ q"
  shows "s = t \<and> r = q"
proof -
  have "be16_value (u8 (length s div 256 mod 256)) (u8 (length s mod 256)) =
      be16_value (u8 (length t div 256 mod 256)) (u8 (length t mod 256))"
    using assms(3) by (simp add: counted_def)
  then have len: "length s = length t" using assms(1,2) by simp
  then have "string_bytes s = string_bytes t \<and> r = q"
    using assms(3) by (auto simp: counted_def string_bytes_def)
  then show ?thesis using string_bytes_inj by blast
qed

interpretation asc: prefix_code "counted p" "\<lambda>s. length s \<le> 0xFFFF" for p
proof unfold_locales
  show "a = b \<and> r = s" if "length a \<le> 0xFFFF" "length b \<le> 0xFFFF" "counted p a @ r = counted p b @ s" for a b r s
    by (rule counted_unique [OF that])
  show "counted p a \<noteq> []" for a by (simp add: counted_def)
qed

lemma asc_encode_eq:
  "sqli_asc_encode_string True n (Some s) =
     (if length s \<le> 0xFFFF \<and> length (counted False s) \<le> n then counted False s else [])"
  "sqli_asc_encode_string_padded True n (Some s) =
     (if length s \<le> 0xFFFF \<and> length (counted True s) \<le> n then counted True s else [])"
proof -
  show "sqli_asc_encode_string True n (Some s) =
     (if length s \<le> 0xFFFF \<and> length (counted False s) \<le> n then counted False s else [])"
    by (simp add: sqli_asc_encode_string_def counted_def string_bytes_def Let_def)
  have "length s \<le> 0xFFFF \<Longrightarrow> sqli_pad_even (2 + length s) = length (counted True s)"
    using pad_even_eq [of "2 + length s"] by (simp add: counted_def string_bytes_def)
  then show "sqli_asc_encode_string_padded True n (Some s) =
     (if length s \<le> 0xFFFF \<and> length (counted True s) \<le> n then counted True s else [])"
    by (auto simp: sqli_asc_encode_string_padded_def counted_def odd_iff_mod_2_eq_one Let_def)
qed

text \<open>
  A session-layer header written into a large enough buffer decodes to itself, whatever
  follows it in the stream; into a smaller buffer nothing is written.
\<close>

theorem sl_header_round_trip:
  assumes "header_ok h"
  shows "if SQLI_SL_HEADER_SIZE \<le> n
    then length (sqli_wire_encode_sl_header True n h) = SQLI_SL_HEADER_SIZE \<and>
      sqli_wire_decode_sl_header (Some (sqli_wire_encode_sl_header True n h @ rest)) = Inr h
    else sqli_wire_encode_sl_header True n h = []"
  using assms
  by (simp add: SQLI_SL_HEADER_SIZE_def sqli_wire_encode_sl_header_def sqli_wire_decode_sl_header_def header_ok_def)

theorem sl_header_round_trip_witness:
  "sqli_wire_decode_sl_header (Some (sqli_wire_encode_sl_header True 64
      \<lparr>h_pdu_size = 300, h_sl_type = 1, h_sl_attr = 60, h_sl_opts = 0\<rparr> @ [7])) =
   Inr \<lparr>h_pdu_size = 300, h_sl_type = 1, h_sl_attr = 60, h_sl_opts = 0\<rparr>"
  using sl_header_round_trip [of "\<lparr>h_pdu_size = 300, h_sl_type = 1, h_sl_attr = 60, h_sl_opts = 0\<rparr>" 64 "[7]"]
  by (simp add: header_ok_def SQLI_SL_HEADER_SIZE_def)

text \<open>
  Counted, padded strings are unambiguous in a stream: two of them followed by anything
  are the same bytes only for the same string and the same rest; each fits its buffer and has
  even length.
\<close>

theorem asc_padded_unambiguous:
  assumes "sqli_asc_encode_string_padded True n (Some s) \<noteq> []" "sqli_asc_encode_string_padded True m (Some t) \<noteq> []"
    and "sqli_asc_encode_string_padded True n (Some s) @ r = sqli_asc_encode_string_padded True m (Some t) @ q"
  shows "s = t \<and> r = q \<and> even (length (sqli_asc_encode_string_padded True n (Some s))) \<and>
    length (sqli_asc_encode_string_padded True n (Some s)) \<le> n"
  using assms asc.unique [of s t True r q]
  by (simp add: asc_encode_eq split: if_splits) (simp add: counted_def string_bytes_def)

theorem asc_padded_unambiguous_witness:
  "even (length (sqli_asc_encode_string_padded True 16 (Some ''abc'')))"
  using asc_padded_unambiguous [of 16 "''abc''" 16 "''abc''" "[]" "[]"]
  by (simp add: asc_encode_eq counted_def string_bytes_def)

end
