(* ===== verification/Temporal.thy ===== *)
theory Temporal
  imports DecimalText
begin

text \<open>
  DATE, DATETIME and INTERVAL values: src/src/sqli_temporal.c. A semantic field is its enum
  value; the array \<open>integral\<close> of the code is a list indexed by it.
\<close>

section \<open>Constants and types\<close>

definition SQLI_FIELD_UNKNOWN :: nat where "SQLI_FIELD_UNKNOWN = 0"
definition SQLI_FIELD_YEAR :: nat where "SQLI_FIELD_YEAR = 1"
definition SQLI_FIELD_MONTH :: nat where "SQLI_FIELD_MONTH = 2"
definition SQLI_FIELD_DAY :: nat where "SQLI_FIELD_DAY = 3"
definition SQLI_FIELD_HOUR :: nat where "SQLI_FIELD_HOUR = 4"
definition SQLI_FIELD_MINUTE :: nat where "SQLI_FIELD_MINUTE = 5"
definition SQLI_FIELD_SECOND :: nat where "SQLI_FIELD_SECOND = 6"
definition SQLI_FIELD_FRACTION :: nat where "SQLI_FIELD_FRACTION = 7"

lemmas field_defs [limit_defs] = SQLI_FIELD_UNKNOWN_def SQLI_FIELD_YEAR_def SQLI_FIELD_MONTH_def
  SQLI_FIELD_DAY_def SQLI_FIELD_HOUR_def SQLI_FIELD_MINUTE_def SQLI_FIELD_SECOND_def
  SQLI_FIELD_FRACTION_def

definition SQLI_TEMPORAL_MAX_TEXT :: nat where "SQLI_TEMPORAL_MAX_TEXT = 64"
definition calendar_last_year :: nat where "calendar_last_year = 9999"
definition nanosecond_digits :: nat where "nanosecond_digits = 9"
definition nanoseconds_per_second :: nat where "nanoseconds_per_second = 1000000000"
definition uint64_decimal_digits :: nat where "uint64_decimal_digits = 20"

definition fraction_factors :: "nat list" where
  "fraction_factors = [1000000000, 100000000, 10000000, 1000000, 100000, 10000, 1000, 100, 10, 1]"

record temporal_range =
  r_first :: nat
  r_last :: nat
  r_digits :: nat

record sqli_date =
  date_year :: int
  date_month :: nat
  date_day :: nat
  date_is_null :: bool

record datetime_parts =
  dp_range :: temporal_range
  dp_year :: int
  dp_month :: nat
  dp_day :: nat
  dp_hour :: nat
  dp_minute :: nat
  dp_second :: nat
  dp_nanosecond :: nat
  dp_is_null :: bool

record interval_parts =
  ip_range :: temporal_range
  ip_years :: nat
  ip_months :: nat
  ip_days :: nat
  ip_hours :: nat
  ip_minutes :: nat
  ip_seconds :: nat
  ip_nanosecond :: nat
  ip_negative :: bool
  ip_is_null :: bool

record temporal_fields =
  tf_range :: temporal_range
  tf_integral :: "nat list"
  tf_nanosecond :: nat
  tf_negative :: bool
  tf_is_null :: bool

text \<open>The private objects hold exactly the parts (struct sqli_datetime, struct sqli_interval).\<close>

type_synonym sqli_datetime = datetime_parts
type_synonym sqli_interval = interval_parts

definition unknown_range :: temporal_range where
  "unknown_range = \<lparr>r_first = 0, r_last = 0, r_digits = 0\<rparr>"

definition null_datetime :: "temporal_range \<Rightarrow> datetime_parts" where
  "null_datetime rng = \<lparr>dp_range = rng, dp_year = 0, dp_month = 0, dp_day = 0, dp_hour = 0,
     dp_minute = 0, dp_second = 0, dp_nanosecond = 0, dp_is_null = True\<rparr>"

definition null_interval :: "temporal_range \<Rightarrow> interval_parts" where
  "null_interval rng = \<lparr>ip_range = rng, ip_years = 0, ip_months = 0, ip_days = 0, ip_hours = 0,
     ip_minutes = 0, ip_seconds = 0, ip_nanosecond = 0, ip_negative = False, ip_is_null = True\<rparr>"

definition zero_fields :: "temporal_range \<Rightarrow> temporal_fields" where
  "zero_fields rng = \<lparr>tf_range = rng, tf_integral = replicate 8 0, tf_nanosecond = 0,
     tf_negative = False, tf_is_null = False\<rparr>"

section \<open>Validation\<close>

definition leap_year :: "int \<Rightarrow> bool" where
  "leap_year year \<longleftrightarrow> c_mod year 4 = 0 \<and> (c_mod year 100 \<noteq> 0 \<or> c_mod year 400 = 0)"

definition month_days :: "nat \<Rightarrow> int \<Rightarrow> nat" where
  "month_days month year =
     (if month = 2 \<and> (year = 0 \<or> leap_year year) then 29
      else [31, 28, 31, 30, 31, 30, 31, 31, 30, 31, 30, 31] ! (month - 1))"

definition validate_range :: "temporal_range option \<Rightarrow> bool \<Rightarrow> bool \<Rightarrow> sqli_status" where
  "validate_range p interval allow_unknown =
     (case p of None \<Rightarrow> SQLI_INVALID_ARGUMENT
      | Some rng \<Rightarrow>
          if r_first rng = SQLI_FIELD_UNKNOWN \<and> r_last rng = SQLI_FIELD_UNKNOWN \<and> r_digits rng = 0
          then (if allow_unknown then SQLI_OK else SQLI_INVALID_ARGUMENT)
          else if r_first rng < SQLI_FIELD_YEAR \<or> r_last rng > SQLI_FIELD_FRACTION \<or>
                  r_first rng > r_last rng then SQLI_INVALID_ARGUMENT
          else if interval \<and> r_first rng \<le> SQLI_FIELD_MONTH \<and> r_last rng > SQLI_FIELD_MONTH
            then SQLI_INVALID_ARGUMENT
          else if r_last rng = SQLI_FIELD_FRACTION
            then (if r_digits rng = 0 \<or> r_digits rng > nanosecond_digits then SQLI_INVALID_ARGUMENT
                  else SQLI_OK)
          else if r_digits rng \<noteq> 0 then SQLI_INVALID_ARGUMENT
          else SQLI_OK)"

definition field_maximum :: "bool \<Rightarrow> nat \<Rightarrow> nat" where
  "field_maximum interval field =
     (if field = SQLI_FIELD_YEAR then calendar_last_year
      else if field = SQLI_FIELD_MONTH then (if interval then 11 else 12)
      else if field = SQLI_FIELD_DAY then 31
      else if field = SQLI_FIELD_HOUR then 23
      else if field = SQLI_FIELD_MINUTE then 59
      else 59)"

fun check_fields :: "temporal_fields \<Rightarrow> bool \<Rightarrow> nat list \<Rightarrow> sqli_status" where
  "check_fields flds interval [] = SQLI_OK"
| "check_fields flds interval (field # rest) =
     (let magnitude = tf_integral flds ! field; rng = tf_range flds
      in if field < r_first rng \<or> field > r_last rng
         then (if magnitude \<noteq> 0 then SQLI_INVALID_ARGUMENT else check_fields flds interval rest)
         else if interval \<and> field = r_first rng then check_fields flds interval rest
         else let minimum = (if \<not> interval \<and> field \<le> SQLI_FIELD_DAY then 1 else 0)
           in if magnitude < minimum \<or> magnitude > field_maximum interval field then SQLI_OUT_OF_RANGE
              else check_fields flds interval rest)"

definition validate_fields :: "temporal_fields \<Rightarrow> bool \<Rightarrow> sqli_status" where
  "validate_fields flds interval =
     (let status = validate_range (Some (tf_range flds)) interval (tf_is_null flds)
      in if status \<noteq> SQLI_OK \<or> tf_is_null flds then status
      else let status = check_fields flds interval [1, 2, 3, 4, 5, 6]
        in if status \<noteq> SQLI_OK then status
      else let month = tf_integral flds ! SQLI_FIELD_MONTH; day = tf_integral flds ! SQLI_FIELD_DAY;
               year = tf_integral flds ! SQLI_FIELD_YEAR
        in if \<not> interval \<and> month \<noteq> 0 \<and> day \<noteq> 0 \<and> day > month_days month (int year) then SQLI_OUT_OF_RANGE
      else if r_last (tf_range flds) \<noteq> SQLI_FIELD_FRACTION
        then (if tf_nanosecond flds = 0 then SQLI_OK else SQLI_INVALID_ARGUMENT)
      else if tf_nanosecond flds \<ge> nanoseconds_per_second then SQLI_OUT_OF_RANGE
      else if tf_nanosecond flds mod fraction_factors ! r_digits (tf_range flds) \<noteq> 0 then SQLI_INEXACT
      else SQLI_OK)"

section \<open>Dates\<close>

definition sqli_date_validate :: "sqli_date option \<Rightarrow> sqli_status" where
  "sqli_date_validate p =
     (case p of None \<Rightarrow> SQLI_INVALID_ARGUMENT
      | Some d \<Rightarrow>
          if date_is_null d then SQLI_OK
          else if date_year d < 1 \<or> date_year d > int calendar_last_year \<or> date_month d < 1 \<or>
                  date_month d > 12 \<or> date_day d < 1 then SQLI_OUT_OF_RANGE
          else if date_day d \<le> month_days (date_month d) (date_year d) then SQLI_OK
          else SQLI_OUT_OF_RANGE)"

definition sqli_date_set :: "sqli_date option \<Rightarrow> int \<Rightarrow> int \<Rightarrow> int \<Rightarrow> sqli_status \<times> sqli_date option" where
  "sqli_date_set p year month day = on_object (\<lambda>d.
     if month < 1 \<or> month > 12 \<or> day < 1 \<or> day > 31 then (SQLI_OUT_OF_RANGE, d)
     else let temporary = \<lparr>date_year = year, date_month = nat month, date_day = nat day, date_is_null = False\<rparr>;
              status = sqli_date_validate (Some temporary)
       in (status, if status = SQLI_OK then temporary else d)) p"

definition null_date :: sqli_date where
  "null_date = \<lparr>date_year = 0, date_month = 0, date_day = 0, date_is_null = True\<rparr>"

definition sqli_date_set_null :: "sqli_date option \<Rightarrow> sqli_status \<times> sqli_date option" where
  "sqli_date_set_null = on_object (\<lambda>d. (SQLI_OK, null_date))"

section \<open>Datetime and interval objects\<close>

definition sizeof_sqli_datetime :: nat where "sizeof_sqli_datetime = 32"
definition sizeof_sqli_interval :: nat where "sizeof_sqli_interval = 72"

definition sqli_datetime_create :: "(nat \<Rightarrow> bool) \<Rightarrow> bool \<Rightarrow> sqli_datetime fallible" where
  "sqli_datetime_create mem out_given =
     (if \<not> out_given then Inl SQLI_INVALID_ARGUMENT
      else if \<not> mem sizeof_sqli_datetime then Inl SQLI_ALLOC_FAIL
      else Inr (null_datetime unknown_range))"

definition sqli_datetime_copy :: "sqli_datetime option \<Rightarrow> sqli_datetime option \<Rightarrow> sqli_status \<times> sqli_datetime option" where
  "sqli_datetime_copy destination source =
     (if destination = None \<or> source = None then (SQLI_INVALID_ARGUMENT, destination) else (SQLI_OK, source))"

definition sqli_datetime_is_null :: "sqli_datetime option \<Rightarrow> bool fallible" where
  "sqli_datetime_is_null p = (case p of None \<Rightarrow> Inl SQLI_INVALID_ARGUMENT | Some v \<Rightarrow> Inr (dp_is_null v))"

definition sqli_datetime_set_null :: "sqli_datetime option \<Rightarrow> sqli_status \<times> sqli_datetime option" where
  "sqli_datetime_set_null = on_object (\<lambda>v. (SQLI_OK, null_datetime (dp_range v)))"

definition datetime_fields :: "datetime_parts \<Rightarrow> temporal_fields" where
  "datetime_fields parts =
     \<lparr>tf_range = dp_range parts,
      tf_integral = [0, if dp_year parts \<ge> 0 then nat (dp_year parts) else 0, dp_month parts, dp_day parts,
        dp_hour parts, dp_minute parts, dp_second parts, 0],
      tf_nanosecond = dp_nanosecond parts, tf_negative = False, tf_is_null = dp_is_null parts\<rparr>"

definition sqli_datetime_set_parts ::
  "sqli_datetime option \<Rightarrow> datetime_parts option \<Rightarrow> sqli_status \<times> sqli_datetime option" where
  "sqli_datetime_set_parts p parts =
     (case parts of None \<Rightarrow> (SQLI_INVALID_ARGUMENT, p)
      | Some parts \<Rightarrow> on_object (\<lambda>v.
          if \<not> dp_is_null parts \<and> dp_year parts < 0 then (SQLI_OUT_OF_RANGE, v)
          else let status = validate_fields (datetime_fields parts) False
            in if status \<noteq> SQLI_OK then (status, v)
               else (SQLI_OK, if dp_is_null parts then null_datetime (dp_range parts) else parts)) p)"

definition sqli_datetime_get_parts :: "sqli_datetime option \<Rightarrow> datetime_parts fallible" where
  "sqli_datetime_get_parts p = (case p of None \<Rightarrow> Inl SQLI_INVALID_ARGUMENT | Some v \<Rightarrow> Inr v)"

definition sqli_interval_create :: "(nat \<Rightarrow> bool) \<Rightarrow> bool \<Rightarrow> sqli_interval fallible" where
  "sqli_interval_create mem out_given =
     (if \<not> out_given then Inl SQLI_INVALID_ARGUMENT
      else if \<not> mem sizeof_sqli_interval then Inl SQLI_ALLOC_FAIL
      else Inr (null_interval unknown_range))"

definition sqli_interval_copy :: "sqli_interval option \<Rightarrow> sqli_interval option \<Rightarrow> sqli_status \<times> sqli_interval option" where
  "sqli_interval_copy destination source =
     (if destination = None \<or> source = None then (SQLI_INVALID_ARGUMENT, destination) else (SQLI_OK, source))"

definition sqli_interval_is_null :: "sqli_interval option \<Rightarrow> bool fallible" where
  "sqli_interval_is_null p = (case p of None \<Rightarrow> Inl SQLI_INVALID_ARGUMENT | Some v \<Rightarrow> Inr (ip_is_null v))"

definition sqli_interval_set_null :: "sqli_interval option \<Rightarrow> sqli_status \<times> sqli_interval option" where
  "sqli_interval_set_null = on_object (\<lambda>v. (SQLI_OK, null_interval (ip_range v)))"

definition interval_fields :: "interval_parts \<Rightarrow> temporal_fields" where
  "interval_fields parts =
     \<lparr>tf_range = ip_range parts,
      tf_integral = [0, ip_years parts, ip_months parts, ip_days parts, ip_hours parts, ip_minutes parts,
        ip_seconds parts, 0],
      tf_nanosecond = ip_nanosecond parts, tf_negative = ip_negative parts, tf_is_null = ip_is_null parts\<rparr>"

text \<open>An interval of zero length has no sign.\<close>

definition sqli_interval_set_parts ::
  "sqli_interval option \<Rightarrow> interval_parts option \<Rightarrow> sqli_status \<times> sqli_interval option" where
  "sqli_interval_set_parts p parts =
     (case parts of None \<Rightarrow> (SQLI_INVALID_ARGUMENT, p)
      | Some parts \<Rightarrow> on_object (\<lambda>v.
          let flds = interval_fields parts; status = validate_fields flds True
          in if status \<noteq> SQLI_OK then (status, v)
          else let temporary = (if ip_is_null parts then null_interval (ip_range parts) else parts);
                   zero = (tf_nanosecond flds = 0 \<and> (\<forall>field \<in> set [1, 2, 3, 4, 5, 6]. tf_integral flds ! field = 0))
            in (SQLI_OK, if zero then temporary\<lparr>ip_negative := False\<rparr> else temporary)) p)"

definition sqli_interval_get_parts :: "sqli_interval option \<Rightarrow> interval_parts fallible" where
  "sqli_interval_get_parts p = (case p of None \<Rightarrow> Inl SQLI_INVALID_ARGUMENT | Some v \<Rightarrow> Inr v)"

end
