(* ===== verification/TemporalText.thy ===== *)
theory TemporalText
  imports Temporal
begin

text \<open>
  The text forms of src/src/sqli_temporal.c. The text reader is the text that remains after its
  position, the text writer the bytes written so far.
\<close>

definition calendar_year_digits :: nat where "calendar_year_digits = 4"
definition calendar_field_digits :: nat where "calendar_field_digits = 2"
definition calendar_date_length :: nat where "calendar_date_length = 10"
definition timestamp_second_length :: nat where "timestamp_second_length = 19"
definition timestamp_fraction_offset :: nat where "timestamp_fraction_offset = 20"

section \<open>Parsing\<close>

text \<open>\<open>count\<close> digits have been read; the overflow test comes before the length test.\<close>

fun read_digits :: "nat \<Rightarrow> nat \<Rightarrow> nat \<Rightarrow> string \<Rightarrow> (nat \<times> nat \<times> string) fallible" where
  "read_digits maximum count n [] = Inr (count, n, [])"
| "read_digits maximum count n (ch # cs) =
     (if \<not> ascii_digit ch then Inr (count, n, ch # cs)
      else let digit = char_digit ch
        in if n > (2 ^ 64 - 1 - digit) div 10 then Inl SQLI_OUT_OF_RANGE
           else if count = maximum then Inl SQLI_INVALID_ARGUMENT
           else read_digits maximum (count + 1) (n * 10 + digit) cs)"

definition read_number :: "nat \<Rightarrow> nat \<Rightarrow> string \<Rightarrow> (nat \<times> string) fallible" where
  "read_number minimum maximum reader =
     (case read_digits maximum 0 0 reader of
        Inl status \<Rightarrow> Inl status
      | Inr (count, n, rest) \<Rightarrow> if count < minimum then Inl SQLI_INVALID_ARGUMENT else Inr (n, rest))"

definition field_separator :: "nat \<Rightarrow> bool \<Rightarrow> char" where
  "field_separator field iso_form =
     (if field = SQLI_FIELD_MONTH \<or> field = SQLI_FIELD_DAY then CHR ''-''
      else if field = SQLI_FIELD_HOUR then (if iso_form then CHR ''T'' else CHR '' '')
      else if field = SQLI_FIELD_MINUTE \<or> field = SQLI_FIELD_SECOND then CHR '':''
      else CHR ''.'')"

text \<open>The text before the digits of a field: the separator, where the field has one.\<close>

definition read_separator :: "temporal_range \<Rightarrow> bool \<Rightarrow> nat \<Rightarrow> string \<Rightarrow> string fallible" where
  "read_separator rng interval field reader =
     (let reader = (if field = SQLI_FIELD_FRACTION \<and> field = r_first rng \<and> reader \<noteq> [] \<and> hd reader = CHR ''0''
                    then tl reader else reader)
      in if field \<noteq> r_first rng \<or> field = SQLI_FIELD_FRACTION then
           (case reader of [] \<Rightarrow> Inl SQLI_INVALID_ARGUMENT
            | actual # rest \<Rightarrow>
                if actual \<noteq> field_separator field False \<and>
                   \<not> (field = SQLI_FIELD_HOUR \<and> \<not> interval \<and> actual = CHR ''T'')
                then Inl SQLI_INVALID_ARGUMENT else Inr rest)
         else Inr reader)"

definition parse_width :: "temporal_range \<Rightarrow> bool \<Rightarrow> nat \<Rightarrow> nat \<times> nat" where
  "parse_width rng interval field =
     (let width = (if field = SQLI_FIELD_YEAR \<and> \<not> interval then calendar_year_digits else calendar_field_digits)
      in if field = SQLI_FIELD_FRACTION then (r_digits rng, r_digits rng)
         else if interval \<and> field = r_first rng then (1, uint64_decimal_digits)
         else (width, width))"

definition store_field :: "nat \<Rightarrow> nat \<Rightarrow> temporal_fields \<Rightarrow> temporal_fields fallible" where
  "store_field field magnitude flds =
     (if field = SQLI_FIELD_FRACTION then
        (if magnitude \<ge> nanoseconds_per_second then Inl SQLI_OUT_OF_RANGE
         else Inr (flds\<lparr>tf_nanosecond := u32 (magnitude * fraction_factors ! r_digits (tf_range flds))\<rparr>))
      else Inr (flds\<lparr>tf_integral := (tf_integral flds)[field := magnitude]\<rparr>))"

fun parse_loop :: "bool \<Rightarrow> nat list \<Rightarrow> temporal_fields \<Rightarrow> string \<Rightarrow> (temporal_fields \<times> string) fallible" where
  "parse_loop interval [] flds reader = Inr (flds, reader)"
| "parse_loop interval (field # rest) flds reader =
     (case read_separator (tf_range flds) interval field reader of
        Inl status \<Rightarrow> Inl status
      | Inr reader \<Rightarrow>
          (case (case parse_width (tf_range flds) interval field of (width, maximum) \<Rightarrow> read_number width maximum reader) of
             Inl status \<Rightarrow> Inl status
           | Inr (magnitude, reader) \<Rightarrow>
               (case store_field field magnitude flds of
                  Inl status \<Rightarrow> Inl status
                | Inr flds \<Rightarrow> parse_loop interval rest flds reader)))"

definition parse_fields :: "temporal_fields \<Rightarrow> string option \<Rightarrow> bool \<Rightarrow> temporal_fields fallible" where
  "parse_fields flds input interval =
     (if validate_range (Some (tf_range flds)) interval False \<noteq> SQLI_OK \<or> input = None \<or> the input = []
      then Inl SQLI_INVALID_ARGUMENT
      else let chars = the input
        in if length chars > SQLI_TEMPORAL_MAX_TEXT then Inl SQLI_LIMIT_EXCEEDED
      else let signed = (interval \<and> (hd chars = CHR ''+'' \<or> hd chars = CHR ''-''));
               flds = (if signed then flds\<lparr>tf_negative := (hd chars = CHR ''-'')\<rparr> else flds);
               reader = (if signed then tl chars else chars)
        in case parse_loop interval [r_first (tf_range flds)..<Suc (r_last (tf_range flds))] flds reader of
             Inl status \<Rightarrow> Inl status
           | Inr (flds, reader) \<Rightarrow>
               if reader \<noteq> [] then Inl SQLI_INVALID_ARGUMENT
               else let status = validate_fields flds interval
                 in if status \<noteq> SQLI_OK then Inl status else Inr flds)"

text \<open>The casts to \<open>int32_t\<close> and \<open>uint8_t\<close>.\<close>

definition datetime_parts_of :: "temporal_fields \<Rightarrow> datetime_parts" where
  "datetime_parts_of flds =
     \<lparr>dp_range = tf_range flds,
      dp_year = i32 (int (tf_integral flds ! SQLI_FIELD_YEAR)),
      dp_month = tf_integral flds ! SQLI_FIELD_MONTH mod 256,
      dp_day = tf_integral flds ! SQLI_FIELD_DAY mod 256,
      dp_hour = tf_integral flds ! SQLI_FIELD_HOUR mod 256,
      dp_minute = tf_integral flds ! SQLI_FIELD_MINUTE mod 256,
      dp_second = tf_integral flds ! SQLI_FIELD_SECOND mod 256,
      dp_nanosecond = tf_nanosecond flds, dp_is_null = tf_is_null flds\<rparr>"

definition sqli_datetime_parse ::
  "sqli_datetime option \<Rightarrow> temporal_range option \<Rightarrow> string option \<Rightarrow> bool \<Rightarrow> sqli_status \<times> sqli_datetime option" where
  "sqli_datetime_parse p rng input is_null =
     (if p = None then (SQLI_INVALID_ARGUMENT, None)
      else if is_null \<and> rng = None then sqli_datetime_set_null p
      else let status = validate_range rng False is_null
        in if status \<noteq> SQLI_OK then (status, p)
      else if is_null then (SQLI_OK, Some (null_datetime (the rng)))
      else case parse_fields (zero_fields (the rng)) input False of
             Inl status \<Rightarrow> (status, p)
           | Inr flds \<Rightarrow> (SQLI_OK, Some (datetime_parts_of flds)))"

definition interval_parts_of :: "temporal_fields \<Rightarrow> interval_parts" where
  "interval_parts_of flds =
     \<lparr>ip_range = tf_range flds,
      ip_years = tf_integral flds ! SQLI_FIELD_YEAR, ip_months = tf_integral flds ! SQLI_FIELD_MONTH,
      ip_days = tf_integral flds ! SQLI_FIELD_DAY, ip_hours = tf_integral flds ! SQLI_FIELD_HOUR,
      ip_minutes = tf_integral flds ! SQLI_FIELD_MINUTE, ip_seconds = tf_integral flds ! SQLI_FIELD_SECOND,
      ip_nanosecond = tf_nanosecond flds, ip_negative = tf_negative flds, ip_is_null = False\<rparr>"

definition sqli_interval_parse ::
  "sqli_interval option \<Rightarrow> temporal_range option \<Rightarrow> string option \<Rightarrow> bool \<Rightarrow> sqli_status \<times> sqli_interval option" where
  "sqli_interval_parse p rng input is_null =
     (if p = None then (SQLI_INVALID_ARGUMENT, None)
      else if is_null \<and> rng = None then sqli_interval_set_null p
      else let status = validate_range rng True is_null
        in if status \<noteq> SQLI_OK then (status, p)
      else if is_null then (SQLI_OK, Some (null_interval (the rng)))
      else case parse_fields (zero_fields (the rng)) input True of
             Inl status \<Rightarrow> (status, p)
           | Inr flds \<Rightarrow> sqli_interval_set_parts p (Some (interval_parts_of flds)))"

text \<open>A NULL text of any length is \<open>SQLI_INVALID_ARGUMENT\<close> in either test.\<close>

definition date_range :: temporal_range where
  "date_range = \<lparr>r_first = SQLI_FIELD_YEAR, r_last = SQLI_FIELD_DAY, r_digits = 0\<rparr>"

definition sqli_date_parse ::
  "sqli_date option \<Rightarrow> string option \<Rightarrow> bool \<Rightarrow> sqli_status \<times> sqli_date option" where
  "sqli_date_parse p input is_null =
     (if p = None then (SQLI_INVALID_ARGUMENT, None)
      else if is_null then sqli_date_set_null p
      else if input = None \<or> length (the input) \<noteq> calendar_date_length then (SQLI_INVALID_ARGUMENT, p)
      else case parse_fields (zero_fields date_range) input False of
             Inl status \<Rightarrow> (status, p)
           | Inr flds \<Rightarrow> (SQLI_OK, Some
               \<lparr>date_year = i32 (int (tf_integral flds ! SQLI_FIELD_YEAR)),
                date_month = tf_integral flds ! SQLI_FIELD_MONTH mod 256,
                date_day = tf_integral flds ! SQLI_FIELD_DAY mod 256, date_is_null = False\<rparr>))"

definition sqli_datetime_parse_iso ::
  "sqli_datetime option \<Rightarrow> string option \<Rightarrow> bool \<Rightarrow> sqli_status \<times> sqli_datetime option" where
  "sqli_datetime_parse_iso p input is_null =
     (if p = None then (SQLI_INVALID_ARGUMENT, None)
      else if is_null then sqli_datetime_set_null p
      else if input = None \<or> length (the input) < timestamp_second_length then (SQLI_INVALID_ARGUMENT, p)
      else let chars = the input; len = length chars
        in if len > SQLI_TEMPORAL_MAX_TEXT then (SQLI_LIMIT_EXCEEDED, p)
      else if chars ! calendar_date_length \<noteq> CHR ''T'' then (SQLI_INVALID_ARGUMENT, p)
      else if len > timestamp_second_length then
        (if len \<le> timestamp_fraction_offset \<or> len - timestamp_fraction_offset > nanosecond_digits \<or>
            chars ! timestamp_second_length \<noteq> CHR ''.'' then (SQLI_INVALID_ARGUMENT, p)
         else sqli_datetime_parse p (Some \<lparr>r_first = SQLI_FIELD_YEAR, r_last = SQLI_FIELD_FRACTION,
                r_digits = len - timestamp_fraction_offset\<rparr>) input False)
      else sqli_datetime_parse p (Some \<lparr>r_first = SQLI_FIELD_YEAR, r_last = SQLI_FIELD_SECOND, r_digits = 0\<rparr>)
             input False)"

section \<open>Formatting\<close>

definition write_character :: "char \<Rightarrow> string \<Rightarrow> string fallible" where
  "write_character ch writer =
     (if length writer \<ge> SQLI_TEMPORAL_MAX_TEXT then Inl SQLI_LIMIT_EXCEEDED else Inr (writer @ [ch]))"

definition write_number :: "nat \<Rightarrow> nat \<Rightarrow> string \<Rightarrow> string fallible" where
  "write_number n width writer =
     (let reversed = magnitude_digits n; count = length reversed
      in if max count width > SQLI_TEMPORAL_MAX_TEXT - length writer then Inl SQLI_LIMIT_EXCEEDED
         else Inr (writer @ replicate (width - count) (CHR ''0'') @ rev reversed))"

definition complete_timestamp :: "temporal_range \<Rightarrow> bool" where
  "complete_timestamp rng \<longleftrightarrow> r_first rng = SQLI_FIELD_YEAR \<and> r_last rng \<ge> SQLI_FIELD_SECOND"

definition field_digits :: "temporal_fields \<Rightarrow> bool \<Rightarrow> nat \<Rightarrow> nat \<times> nat" where
  "field_digits flds interval field =
     (let magnitude = tf_integral flds ! field;
          width = (if \<not> interval \<and> field = SQLI_FIELD_YEAR then calendar_year_digits else calendar_field_digits)
      in if field = SQLI_FIELD_FRACTION
           then (tf_nanosecond flds div fraction_factors ! r_digits (tf_range flds), r_digits (tf_range flds))
         else if interval \<and> field = r_first (tf_range flds) then (magnitude, 1)
         else (magnitude, width))"

fun format_loop :: "temporal_fields \<Rightarrow> bool \<Rightarrow> nat list \<Rightarrow> string \<Rightarrow> string fallible" where
  "format_loop flds interval [] writer = Inr writer"
| "format_loop flds interval (field # rest) writer =
     (case (if field \<noteq> r_first (tf_range flds) \<or> field = SQLI_FIELD_FRACTION
            then write_character (field_separator field (\<not> interval \<and> complete_timestamp (tf_range flds))) writer
            else Inr writer) of
        Inl status \<Rightarrow> Inl status
      | Inr writer \<Rightarrow>
          (case (case field_digits flds interval field of (magnitude, width) \<Rightarrow> write_number magnitude width writer) of
             Inl status \<Rightarrow> Inl status
           | Inr writer \<Rightarrow> format_loop flds interval rest writer))"

definition format_fields :: "temporal_fields \<Rightarrow> bool \<Rightarrow> string fallible" where
  "format_fields flds interval =
     (case (if tf_negative flds then write_character (CHR ''-'') [] else Inr []) of
        Inl status \<Rightarrow> Inl status
      | Inr writer \<Rightarrow>
          format_loop flds interval [r_first (tf_range flds)..<Suc (r_last (tf_range flds))] writer)"

text \<open>The buffer receives the text and its terminating NUL.\<close>

definition format_value :: "temporal_fields \<Rightarrow> bool \<Rightarrow> bool \<Rightarrow> bool \<Rightarrow> nat \<Rightarrow> bool \<Rightarrow> bool \<Rightarrow> format_result" where
  "format_value flds interval iso_form buffer_given capacity required_given is_null_given =
     (let result = (\<lambda>st r n b. \<lparr>f_status = st, f_required = r, f_is_null = n, f_buffer = b\<rparr>);
          failed = (\<lambda>st. result st None None None)
      in if \<not> required_given \<or> \<not> is_null_given \<or> (\<not> buffer_given \<and> capacity \<noteq> 0) then failed SQLI_INVALID_ARGUMENT
      else let status = validate_fields flds interval
        in if status \<noteq> SQLI_OK then failed status
      else if tf_is_null flds then result SQLI_OK (Some 0) (Some True) None
      else if iso_form \<and> \<not> complete_timestamp (tf_range flds) then failed SQLI_INVALID_STATE
      else case format_fields flds interval of
             Inl status \<Rightarrow> failed status
           | Inr writer \<Rightarrow>
               let required = length writer + 1
               in if \<not> buffer_given then result SQLI_OK (Some required) (Some False) None
                  else if capacity < required then result SQLI_BUFFER_TOO_SMALL (Some required) (Some False) None
                  else result SQLI_OK (Some required) (Some False) (Some (writer @ [CHR 0x00])))"

definition format_failed :: "sqli_status \<Rightarrow> format_result" where
  "format_failed st = \<lparr>f_status = st, f_required = None, f_is_null = None, f_buffer = None\<rparr>"

definition date_fields :: "sqli_date \<Rightarrow> temporal_fields" where
  "date_fields d =
     (if date_is_null d then (zero_fields date_range)\<lparr>tf_is_null := True\<rparr>
      else (zero_fields date_range)\<lparr>tf_integral := [0, nat (date_year d mod 2 ^ 64), date_month d, date_day d, 0, 0, 0, 0]\<rparr>)"

definition sqli_date_format :: "sqli_date option \<Rightarrow> bool \<Rightarrow> nat \<Rightarrow> bool \<Rightarrow> bool \<Rightarrow> format_result" where
  "sqli_date_format p buffer_given capacity required_given is_null_given =
     (let status = sqli_date_validate p
      in if status \<noteq> SQLI_OK then format_failed status
         else format_value (date_fields (the p)) False False buffer_given capacity required_given is_null_given)"

definition sqli_datetime_format :: "sqli_datetime option \<Rightarrow> bool \<Rightarrow> nat \<Rightarrow> bool \<Rightarrow> bool \<Rightarrow> format_result" where
  "sqli_datetime_format p buffer_given capacity required_given is_null_given =
     (case p of None \<Rightarrow> format_failed SQLI_INVALID_ARGUMENT
      | Some v \<Rightarrow> format_value (datetime_fields v) False False buffer_given capacity required_given is_null_given)"

definition sqli_datetime_format_iso :: "sqli_datetime option \<Rightarrow> bool \<Rightarrow> nat \<Rightarrow> bool \<Rightarrow> bool \<Rightarrow> format_result" where
  "sqli_datetime_format_iso p buffer_given capacity required_given is_null_given =
     (case p of None \<Rightarrow> format_failed SQLI_INVALID_ARGUMENT
      | Some v \<Rightarrow> format_value (datetime_fields v) False True buffer_given capacity required_given is_null_given)"

definition sqli_interval_format :: "sqli_interval option \<Rightarrow> bool \<Rightarrow> nat \<Rightarrow> bool \<Rightarrow> bool \<Rightarrow> format_result" where
  "sqli_interval_format p buffer_given capacity required_given is_null_given =
     (case p of None \<Rightarrow> format_failed SQLI_INVALID_ARGUMENT
      | Some v \<Rightarrow> format_value (interval_fields v) True False buffer_given capacity required_given is_null_given)"

end
