(* ===== verification/TemporalFacts.thy ===== *)
theory TemporalFacts
  imports TemporalText DecimalFormatFacts
begin

text \<open>
  Text forms of dates, datetimes and intervals: the writer and the reader follow one table of
  field texts, from which the lengths, the round trips and the soundness of the parser follow.
\<close>

section \<open>Numbers\<close>

definition padded :: "nat \<Rightarrow> nat \<Rightarrow> string" where
  "padded width n = replicate (width - dec_len n) (CHR ''0'') @ rev (magnitude_digits n)"

lemma padded_digits [simp]: "all_digits (padded w n)"
  using magnitude_digits_value [of n] by (auto simp: padded_def ascii_digit_zero)

lemma padded_value [simp]: "digits_value (padded w n) = n"
  unfolding padded_def digits_value_zeros
  using magnitude_digits_value [of n] by (simp add: digits_value_def be_value_def rev_map)

lemma padded_length [simp]: "length (padded w n) = max w (dec_len n)"
  by (simp add: padded_def magnitude_digits_length)

lemma padded_fits: "n < 10 ^ w \<Longrightarrow> 0 < w \<Longrightarrow> length (padded w n) = w"
  using dec_len_le [of n w] by simp

lemma dec_len_u64: "n < 2 ^ 64 \<Longrightarrow> dec_len n \<le> 20"
  by (rule dec_len_le) simp_all

lemma write_number_eq:
  "write_number n w writer =
     (if length (padded w n) > SQLI_TEMPORAL_MAX_TEXT - length writer then Inl SQLI_LIMIT_EXCEEDED
      else Inr (writer @ padded w n))"
  unfolding write_number_def magnitude_digits_length Let_def
  by (subst padded_length) (simp add: padded_def max.commute)

lemma read_digits_text:
  assumes "all_digits ds" "rest = [] \<or> \<not> ascii_digit (hd rest)"
    and "count + length ds \<le> maximum" "n * 10 ^ length ds + digits_value ds < 2 ^ 64"
  shows "read_digits maximum count n (ds @ rest) =
    Inr (count + length ds, n * 10 ^ length ds + digits_value ds, rest)"
  using assms
proof (induction ds arbitrary: count n)
  case Nil
  then show ?case by (cases rest) (simp_all add: digits_value_def)
next
  case (Cons ch cs)
  let ?d = "char_digit ch"
  have split: "(n * 10 + ?d) * 10 ^ length cs + digits_value cs = n * 10 ^ length (ch # cs) + digits_value (ch # cs)"
    by (simp add: digits_value_def be_value_Cons algebra_simps)
  have "n * 10 + ?d \<le> (n * 10 + ?d) * 10 ^ length cs" by simp
  then have "n * 10 + ?d \<le> 2 ^ 64 - 1"
    using Cons.prems(4) unfolding split [symmetric] by linarith
  then have "\<not> n > (2 ^ 64 - 1 - ?d) div 10" by linarith
  moreover have "count \<noteq> maximum" using Cons.prems(3) by simp
  ultimately show ?case
    using Cons.IH [of "count + 1" "n * 10 + ?d"] Cons.prems split by (simp add: Let_def)
qed

lemma read_number_text:
  assumes "all_digits ds" "rest = [] \<or> \<not> ascii_digit (hd rest)"
    and "w \<le> length ds" "length ds \<le> maximum" "digits_value ds < 2 ^ 64"
  shows "read_number w maximum (ds @ rest) = Inr (digits_value ds, rest)"
  using read_digits_text [of ds rest 0 maximum 0] assms by (simp add: read_number_def)

section \<open>Validated fields\<close>

definition fields_ok :: "temporal_fields \<Rightarrow> bool \<Rightarrow> bool" where
  "fields_ok flds interval \<longleftrightarrow>
     validate_fields flds interval = SQLI_OK \<and> \<not> tf_is_null flds \<and> length (tf_integral flds) = 8 \<and>
     tf_integral flds ! 0 = 0 \<and> tf_integral flds ! 7 = 0 \<and> digits_ok (2 ^ 64) (tf_integral flds)"

definition range_ok :: "temporal_range \<Rightarrow> bool \<Rightarrow> bool" where
  "range_ok rng interval \<longleftrightarrow> 1 \<le> r_first rng \<and> r_first rng \<le> r_last rng \<and> r_last rng \<le> 7 \<and>
     (if r_last rng = 7 then 1 \<le> r_digits rng \<and> r_digits rng \<le> 9 else r_digits rng = 0) \<and>
     (interval \<longrightarrow> r_first rng \<le> 2 \<longrightarrow> r_last rng \<le> 2)"

lemma validate_range_ok: "validate_range (Some rng) interval False = SQLI_OK \<longleftrightarrow> range_ok rng interval"
  by (auto simp: validate_range_def range_ok_def field_defs nanosecond_digits_def)

definition field_fits :: "temporal_fields \<Rightarrow> bool \<Rightarrow> nat \<Rightarrow> bool" where
  "field_fits flds interval field \<longleftrightarrow>
     (if field < r_first (tf_range flds) \<or> field > r_last (tf_range flds) then tf_integral flds ! field = 0
      else interval \<and> field = r_first (tf_range flds) \<or>
        (\<not> interval \<and> field \<le> 3 \<longrightarrow> 1 \<le> tf_integral flds ! field) \<and>
        tf_integral flds ! field \<le> field_maximum interval field)"

lemma check_fields_ok:
  "check_fields flds interval fs = SQLI_OK \<longleftrightarrow> (\<forall>field \<in> set fs. field_fits flds interval field)"
proof (induction fs)
  case (Cons field rest)
  have "check_fields flds interval (field # rest) = SQLI_OK \<longleftrightarrow>
      field_fits flds interval field \<and> check_fields flds interval rest = SQLI_OK"
    unfolding check_fields.simps Let_def field_fits_def field_defs by (cases interval) (simp_all add: not_less not_le)
  then show ?case using Cons by simp
qed simp

lemma validate_fields_ok:
  assumes "\<not> tf_is_null flds"
  shows "validate_fields flds interval = SQLI_OK \<longleftrightarrow>
    range_ok (tf_range flds) interval \<and> (\<forall>field \<in> {1..6}. field_fits flds interval field) \<and>
    (interval \<or> tf_integral flds ! 2 = 0 \<or> tf_integral flds ! 3 = 0 \<or>
      tf_integral flds ! 3 \<le> month_days (tf_integral flds ! 2) (int (tf_integral flds ! 1))) \<and>
    (if r_last (tf_range flds) = 7
     then tf_nanosecond flds < 10 ^ 9 \<and> tf_nanosecond flds mod fraction_factors ! r_digits (tf_range flds) = 0
     else tf_nanosecond flds = 0)"
proof -
  let ?rest = "if \<not> interval \<and> tf_integral flds ! 2 \<noteq> 0 \<and> tf_integral flds ! 3 \<noteq> 0 \<and>
      tf_integral flds ! 3 > month_days (tf_integral flds ! 2) (int (tf_integral flds ! 1)) then SQLI_OUT_OF_RANGE
    else if r_last (tf_range flds) \<noteq> 7 then (if tf_nanosecond flds = 0 then SQLI_OK else SQLI_INVALID_ARGUMENT)
    else if tf_nanosecond flds \<ge> 10 ^ 9 then SQLI_OUT_OF_RANGE
    else if tf_nanosecond flds mod fraction_factors ! r_digits (tf_range flds) \<noteq> 0 then SQLI_INEXACT else SQLI_OK"
  let ?range = "validate_range (Some (tf_range flds)) interval False"
  let ?check = "check_fields flds interval [1, 2, 3, 4, 5, 6]"
  have "validate_fields flds interval = (if ?range \<noteq> SQLI_OK then ?range else if ?check \<noteq> SQLI_OK then ?check else ?rest)"
    using assms by (simp only: validate_fields_def Let_def field_defs nanoseconds_per_second_def) simp
  moreover define all_fit where "all_fit \<longleftrightarrow> (\<forall>field \<in> {1..6}. field_fits flds interval field)"
  moreover have "?check = SQLI_OK \<longleftrightarrow> (\<forall>field \<in> {1..6}. field_fits flds interval field)"
    unfolding check_fields_ok by (rule ball_cong) auto
  ultimately show ?thesis
    unfolding validate_range_ok [symmetric] all_fit_def [symmetric]
    by (cases "?range = SQLI_OK"; cases "?check = SQLI_OK") (simp_all del: check_fields.simps)
qed

section \<open>Field texts\<close>

definition separated :: "temporal_fields \<Rightarrow> nat \<Rightarrow> bool" where
  "separated flds field \<longleftrightarrow> field \<noteq> r_first (tf_range flds) \<or> field = 7"

definition separator_of :: "temporal_fields \<Rightarrow> bool \<Rightarrow> nat \<Rightarrow> char" where
  "separator_of flds interval field = field_separator field (\<not> interval \<and> complete_timestamp (tf_range flds))"

definition digits_of :: "temporal_fields \<Rightarrow> bool \<Rightarrow> nat \<Rightarrow> string" where
  "digits_of flds interval field = (case field_digits flds interval field of (magnitude, width) \<Rightarrow> padded width magnitude)"

definition field_text :: "temporal_fields \<Rightarrow> bool \<Rightarrow> nat \<Rightarrow> string" where
  "field_text flds interval field =
     (if separated flds field then [separator_of flds interval field] else []) @ digits_of flds interval field"

definition fields_text :: "temporal_fields \<Rightarrow> bool \<Rightarrow> nat list \<Rightarrow> string" where
  "fields_text flds interval fs = concat (map (field_text flds interval) fs)"

lemma fields_text_simps [simp]:
  "fields_text flds interval [] = []"
  "fields_text flds interval (f # fs) = field_text flds interval f @ fields_text flds interval fs"
  by (simp_all add: fields_text_def)

lemma digits_of_digits [simp]: "all_digits (digits_of flds interval field)"
  by (cases "field_digits flds interval field") (simp add: digits_of_def)

lemma separator_not_digit [simp]: "\<not> ascii_digit (separator_of flds interval field)"
  by (simp add: separator_of_def field_separator_def)

lemma format_loop_text:
  "length writer + length (fields_text flds interval fs) \<le> SQLI_TEMPORAL_MAX_TEXT \<Longrightarrow>
   format_loop flds interval fs writer = Inr (writer @ fields_text flds interval fs)"
proof (induction fs arbitrary: writer)
  case (Cons f fs)
  obtain m w where mw: "field_digits flds interval f = (m, w)" by fastforce
  have d: "digits_of flds interval f = padded w m" by (simp add: digits_of_def mw)
  let ?w = "writer @ (if separated flds f then [separator_of flds interval f] else [])"
  have "(if f \<noteq> r_first (tf_range flds) \<or> f = SQLI_FIELD_FRACTION
      then write_character (field_separator f (\<not> interval \<and> complete_timestamp (tf_range flds))) writer
      else Inr writer) = Inr ?w"
    using Cons.prems by (auto simp: write_character_def separated_def separator_of_def field_defs field_text_def
        split: if_splits)
  moreover have "write_number m w ?w = Inr (?w @ padded w m)"
    using Cons.prems by (simp add: write_number_eq field_text_def d del: padded_length split: if_splits)
  ultimately show ?case
    using Cons.IH [of "?w @ padded w m"] Cons.prems by (simp add: mw field_text_def d del: padded_length)
qed simp

section \<open>Widths\<close>

lemma fields_okD:
  assumes "fields_ok flds interval"
  shows "range_ok (tf_range flds) interval" "\<And>field. field \<le> 6 \<Longrightarrow> 0 < field \<Longrightarrow> field_fits flds interval field"
    "tf_nanosecond flds < 10 ^ 9"
    "r_last (tf_range flds) = 7 \<Longrightarrow> tf_nanosecond flds mod fraction_factors ! r_digits (tf_range flds) = 0"
    "r_last (tf_range flds) \<noteq> 7 \<Longrightarrow> tf_nanosecond flds = 0"
    "length (tf_integral flds) = 8" "tf_integral flds ! 0 = 0" "tf_integral flds ! 7 = 0"
    "\<And>field. field < 8 \<Longrightarrow> tf_integral flds ! field < 2 ^ 64"
  using assms digits_ok_nth
  by (auto simp: fields_ok_def validate_fields_ok split: if_splits)

lemma fraction_factor: "1 \<le> d \<Longrightarrow> d \<le> 9 \<Longrightarrow> fraction_factors ! d = 10 ^ (9 - d)"
proof -
  assume "1 \<le> d" "d \<le> 9"
  then have "d \<in> {1, 2, 3, 4, 5, 6, 7, 8, 9}" by auto
  then show ?thesis by (auto simp: fraction_factors_def)
qed

lemma fraction_digits:
  assumes "fields_ok flds interval" "r_last (tf_range flds) = 7"
  shows "tf_nanosecond flds div fraction_factors ! r_digits (tf_range flds) < 10 ^ r_digits (tf_range flds)"
proof -
  let ?d = "r_digits (tf_range flds)"
  have d: "1 \<le> ?d" "?d \<le> 9" using fields_okD(1) [OF assms(1)] assms(2) by (auto simp: range_ok_def)
  have "tf_nanosecond flds < 10 ^ ?d * 10 ^ (9 - ?d)"
    using fields_okD(3) [OF assms(1)] d by (simp flip: power_add)
  then show ?thesis using d by (simp add: fraction_factor div_less_iff_less_mult)
qed

lemma digits_of_length:
  assumes ok: "fields_ok flds interval" and f: "r_first (tf_range flds) \<le> f" "f \<le> r_last (tf_range flds)"
    and w: "parse_width (tf_range flds) interval f = (w, maximum)"
  shows "w \<le> length (digits_of flds interval f)" "length (digits_of flds interval f) \<le> maximum"
proof -
  note defs = digits_of_def field_digits_def parse_width_def field_defs Let_def
    calendar_year_digits_def calendar_field_digits_def uint64_decimal_digits_def
  have rng: "1 \<le> f" "f \<le> 7" "1 \<le> r_first (tf_range flds)" "r_last (tf_range flds) \<le> 7"
    using fields_okD(1) [OF ok] f by (auto simp: range_ok_def)
  consider "f = 7" | "f < 7" "interval" "f = r_first (tf_range flds)" | "f < 7" "\<not> (interval \<and> f = r_first (tf_range flds))"
    using rng by linarith
  then have "w \<le> length (digits_of flds interval f) \<and> length (digits_of flds interval f) \<le> maximum"
  proof cases
    case 1
    then have l: "r_last (tf_range flds) = 7" using f rng by simp
    then have "0 < r_digits (tf_range flds)" using fields_okD(1) [OF ok] by (simp add: range_ok_def)
    then have "length (padded (r_digits (tf_range flds)) (tf_nanosecond flds div fraction_factors ! r_digits (tf_range flds)))
        = r_digits (tf_range flds)"
      using fraction_digits [OF ok l] padded_fits by blast
    then show ?thesis using w 1 by (auto simp: defs simp del: padded_length)
  next
    case 2
    then show ?thesis using w dec_len_u64 [OF fields_okD(9) [OF ok, of f]] by (auto simp: defs Suc_leI)
  next
    case 3
    then have "field_fits flds interval f" using fields_okD(2) [OF ok, of f] rng by simp
    then have "tf_integral flds ! f \<le> field_maximum interval f" using 3 f by (auto simp: field_fits_def)
    then have "tf_integral flds ! f < 10 ^ w \<and> 0 < w \<and> w = maximum \<and> digits_of flds interval f = padded w (tf_integral flds ! f)"
      using w 3 rng f by (auto simp: defs field_maximum_def calendar_last_year_def split: if_splits)
    then show ?thesis using dec_len_le by auto
  qed
  then show "w \<le> length (digits_of flds interval f)" "length (digits_of flds interval f) \<le> maximum" by simp_all
qed

lemma text_bound_sum:
  assumes "1 \<le> a" "a \<le> b" "b \<le> (7 :: nat)"
  shows "(\<Sum>f \<leftarrow> [a..<Suc b]. if f = a then 20 else if f = 7 then 10 else 3) \<le> (45 :: nat)"
proof -
  let ?g = "\<lambda>f :: nat. if f = 7 then 10 else 3 :: nat"
  have "(\<Sum>f \<leftarrow> [a..<Suc b]. if f = a then 20 else if f = 7 then 10 else 3) =
      20 + (\<Sum>f \<leftarrow> [Suc a..<Suc b]. ?g f)"
    using assms by (simp add: upt_conv_Cons del: upt_Suc)
      (rule arg_cong [where f = sum_list], rule map_cong, auto)
  also have "(\<Sum>f \<leftarrow> [Suc a..<Suc b]. ?g f) = sum ?g (set [Suc a..<Suc b])"
    by (rule sum_list_distinct_conv_sum_set) simp
  also have "\<dots> \<le> sum ?g {2, 3, 4, 5, 6, 7}"
    using assms by (intro sum_mono2) auto
  finally show ?thesis by simp
qed

lemma fields_text_length:
  assumes ok: "fields_ok flds interval"
  shows "length (fields_text flds interval [r_first (tf_range flds)..<Suc (r_last (tf_range flds))]) \<le> 45"
proof -
  let ?a = "r_first (tf_range flds)" and ?b = "r_last (tf_range flds)"
  have ab: "1 \<le> ?a" "?a \<le> ?b" "?b \<le> 7" "?b = 7 \<longrightarrow> r_digits (tf_range flds) \<le> 9"
    using fields_okD(1) [OF ok] by (auto simp: range_ok_def split: if_splits)
  have "length (field_text flds interval f) \<le> (if f = ?a then 20 else if f = 7 then 10 else 3)"
    if f: "f \<in> set [?a..<Suc ?b]" for f
  proof -
    obtain w m where w: "parse_width (tf_range flds) interval f = (w, m)" by fastforce
    have "length (digits_of flds interval f) \<le> m"
      using digits_of_length(2) [OF ok _ _ w] f by (simp del: upt_Suc)
    moreover have "m + (if separated flds f then 1 else 0) \<le> (if f = ?a then 20 else if f = 7 then 10 else 3)"
      using w f ab
      by (auto simp: parse_width_def separated_def field_defs calendar_year_digits_def
          calendar_field_digits_def uint64_decimal_digits_def Let_def split: if_splits)
    ultimately show ?thesis by (auto simp: field_text_def)
  qed
  then have "(\<Sum>f \<leftarrow> [?a..<Suc ?b]. length (field_text flds interval f)) \<le>
      (\<Sum>f \<leftarrow> [?a..<Suc ?b]. if f = ?a then 20 else if f = 7 then 10 else 3)"
    by (rule sum_list_mono)
  then show ?thesis
    using text_bound_sum [OF ab(1-3)] by (simp add: fields_text_def length_concat comp_def)
qed

section \<open>Parsing a field text\<close>

definition stops :: "string \<Rightarrow> bool" where
  "stops rest \<longleftrightarrow> rest = [] \<or> \<not> ascii_digit (hd rest)"

lemma read_separator_text:
  assumes "fields_ok flds interval"
  shows "read_separator (tf_range flds) interval f (field_text flds interval f @ rest) =
    Inr (digits_of flds interval f @ rest)"
proof (cases "separated flds f")
  case True
  have "separator_of flds interval f \<noteq> CHR ''0''"
    using separator_not_digit [of flds interval f] ascii_digit_zero by metis
  moreover have "separator_of flds interval f = field_separator f False \<or>
      f = SQLI_FIELD_HOUR \<and> \<not> interval \<and> separator_of flds interval f = CHR ''T''"
    by (auto simp: separator_of_def field_separator_def)
  ultimately show ?thesis
    using True by (auto simp: read_separator_def field_text_def separated_def field_defs)
next
  case False
  then show ?thesis by (simp add: read_separator_def field_text_def separated_def field_defs)
qed

lemma read_field_text:
  assumes ok: "fields_ok flds interval" and f: "r_first (tf_range flds) \<le> f" "f \<le> r_last (tf_range flds)"
    and "stops rest" and w: "parse_width (tf_range flds) interval f = (w, maximum)"
  shows "read_number w maximum (digits_of flds interval f @ rest) = Inr (fst (field_digits flds interval f), rest)"
proof -
  have rng: "1 \<le> f" "f \<le> 7" "r_last (tf_range flds) \<le> 7" using fields_okD(1) [OF ok] f by (auto simp: range_ok_def)
  have v: "digits_value (digits_of flds interval f) = fst (field_digits flds interval f)"
    by (cases "field_digits flds interval f") (simp add: digits_of_def)
  have "tf_nanosecond flds div k \<le> tf_nanosecond flds" for k by simp
  then have "tf_nanosecond flds div k < 2 ^ 64" for k
    using fields_okD(3) [OF ok] by (rule le_less_trans [OF _ less_trans]) simp
  then have "fst (field_digits flds interval f) < 2 ^ 64"
    using fields_okD(9) [OF ok, of f] rng by (auto simp: field_digits_def Let_def)
  then show ?thesis
    using read_number_text [of "digits_of flds interval f" rest w maximum] assms(4)
      digits_of_length [OF ok f w] v by (simp add: stops_def)
qed

section \<open>The round trip of validated fields\<close>

text \<open>The fields after the parser has read those below \<open>k\<close>.\<close>

definition partial :: "temporal_fields \<Rightarrow> nat \<Rightarrow> temporal_fields" where
  "partial flds k = flds\<lparr>tf_integral := map (\<lambda>i. if i < k then tf_integral flds ! i else 0) [0..<8],
     tf_nanosecond := if 7 < k then tf_nanosecond flds else 0\<rparr>"

lemma partial_simps [simp]:
  "tf_range (partial flds k) = tf_range flds" "tf_negative (partial flds k) = tf_negative flds"
  by (simp_all add: partial_def)

lemma fields_zero:
  assumes "fields_ok flds interval" "i < 8" "i < r_first (tf_range flds) \<or> r_last (tf_range flds) < i"
  shows "tf_integral flds ! i = 0"
  using fields_okD(2,7,8) [OF assms(1)] assms(2,3)
  by (cases "i = 0"; cases "i = 7") (auto simp: field_fits_def)

lemma partial_first:
  assumes "fields_ok flds interval"
  shows "partial flds (r_first (tf_range flds)) =
    (zero_fields (tf_range flds))\<lparr>tf_negative := tf_negative flds\<rparr>"
proof -
  have "map (\<lambda>i. if i < r_first (tf_range flds) then tf_integral flds ! i else 0) [0..<8] = replicate 8 0"
    using fields_zero [OF assms] by (intro nth_equalityI) auto
  moreover have "\<not> 7 < r_first (tf_range flds)" using fields_okD(1) [OF assms] by (simp add: range_ok_def)
  ultimately show ?thesis
    using assms by (auto simp: partial_def zero_fields_def fields_ok_def simp del: upt_Suc)
qed

lemma partial_last:
  assumes "fields_ok flds interval"
  shows "partial flds (Suc (r_last (tf_range flds))) = flds"
proof -
  have "map (\<lambda>i. if i < Suc (r_last (tf_range flds)) then tf_integral flds ! i else 0) [0..<8] = tf_integral flds"
    using fields_zero [OF assms] fields_okD(6) [OF assms] by (intro nth_equalityI) auto
  moreover have "r_last (tf_range flds) \<le> 7" using fields_okD(1) [OF assms] by (simp add: range_ok_def)
  ultimately show ?thesis
    using fields_okD(5) [OF assms] by (auto simp: partial_def simp del: upt_Suc)
qed

lemma store_field_text:
  assumes ok: "fields_ok flds interval" and f: "r_first (tf_range flds) \<le> f" "f \<le> r_last (tf_range flds)"
  shows "store_field f (fst (field_digits flds interval f)) (partial flds f) = Inr (partial flds (Suc f))"
proof (cases "f = 7")
  case True
  let ?d = "r_digits (tf_range flds)" and ?n = "tf_nanosecond flds"
  have l: "r_last (tf_range flds) = 7" using f fields_okD(1) [OF ok] True by (simp add: range_ok_def)
  have "?n div fraction_factors ! ?d * fraction_factors ! ?d = ?n"
    using fields_okD(4) [OF ok l] by (simp add: mod_eq_0_iff_dvd)
  moreover have "u32 ?n = ?n" using fields_okD(3) [OF ok] by (simp add: u32_id)
  moreover have "?n div fraction_factors ! ?d < 1000000000"
    using fields_okD(3) [OF ok] by (simp add: le_less_trans [OF div_le_dividend])
  moreover have "map (\<lambda>i. if i < 7 then tf_integral flds ! i else 0) [0..<8] =
      map (\<lambda>i. if i < Suc 7 then tf_integral flds ! i else 0) [0..<8]"
  proof (rule map_cong [OF refl])
    fix i :: nat assume "i \<in> set [0..<8]"
    then have "i < 7 \<or> i = 7" by auto
    then show "(if i < 7 then tf_integral flds ! i else 0) = (if i < Suc 7 then tf_integral flds ! i else 0)"
      using fields_okD(8) [OF ok] by auto
  qed
  ultimately show ?thesis
    using True
    by (simp add: store_field_def field_digits_def field_defs nanoseconds_per_second_def partial_def del: upt_Suc)
next
  case False
  then have less: "f < 7" using f fields_okD(1) [OF ok] by (simp add: range_ok_def)
  have "(map (\<lambda>i. if i < f then tf_integral flds ! i else 0) [0..<8])[f := tf_integral flds ! f] =
      map (\<lambda>i. if i < Suc f then tf_integral flds ! i else 0) [0..<8]"
    using less by (intro nth_equalityI) (auto simp: nth_list_update simp del: upt_Suc)
  moreover have "fst (field_digits flds interval f) = tf_integral flds ! f"
    using less by (simp add: field_digits_def field_defs Let_def)
  ultimately show ?thesis
    using less by (simp add: store_field_def field_defs partial_def del: upt_Suc)
qed

lemma fields_text_stops: "r_first (tf_range flds) < f \<Longrightarrow> stops (fields_text flds interval [f..<n])"
  by (cases "f < n") (simp_all add: stops_def upt_conv_Cons field_text_def separated_def)

lemma parse_loop_text:
  assumes ok: "fields_ok flds interval" and "r_first (tf_range flds) \<le> f" "f \<le> Suc (r_last (tf_range flds))"
  shows "parse_loop interval [f..<Suc (r_last (tf_range flds))] (partial flds f)
      (fields_text flds interval [f..<Suc (r_last (tf_range flds))]) = Inr (flds, [])"
  using assms(2,3)
proof (induction "Suc (r_last (tf_range flds)) - f" arbitrary: f)
  case 0
  then have "f = Suc (r_last (tf_range flds))" by simp
  then show ?case using partial_last [OF ok] by simp
next
  case (Suc k)
  let ?n = "Suc (r_last (tf_range flds))"
  have f: "f < ?n" "f \<le> r_last (tf_range flds)" using Suc.hyps(2) by linarith+
  obtain w m where w: "parse_width (tf_range flds) interval f = (w, m)" by fastforce
  note step = read_separator_text [OF ok, of f] store_field_text [OF ok Suc.prems(1) f(2)]
    read_field_text [OF ok Suc.prems(1) f(2) fields_text_stops w]
  have "parse_loop interval [Suc f..<?n] (partial flds (Suc f)) (fields_text flds interval [Suc f..<?n]) = Inr (flds, [])"
    using Suc by simp
  then show ?case
    using f(1) step Suc.prems(1) by (simp add: upt_conv_Cons w del: upt_Suc)
qed

lemma parse_fields_text:
  assumes ok: "fields_ok flds interval"
    and "tf_negative flds \<longrightarrow> interval"
  shows "parse_fields (zero_fields (tf_range flds))
      (Some ((if tf_negative flds then ''-'' else '''') @
        fields_text flds interval [r_first (tf_range flds)..<Suc (r_last (tf_range flds))])) interval = Inr flds"
proof -
  let ?a = "r_first (tf_range flds)" and ?b = "r_last (tf_range flds)"
  let ?t = "fields_text flds interval [?a..<Suc ?b]"
  have rng: "range_ok (tf_range flds) interval" by (rule fields_okD(1) [OF ok])
  then have ab: "?a \<le> ?b" by (simp add: range_ok_def)
  obtain w m where w: "parse_width (tf_range flds) interval ?a = (w, m)" by fastforce
  have t: "?t = field_text flds interval ?a @ fields_text flds interval [Suc ?a..<Suc ?b]"
    using ab by (simp add: upt_conv_Cons del: upt_Suc)
  have "digits_of flds interval ?a \<noteq> []"
    unfolding digits_of_def using padded_length dec_len_pos
    by (cases "field_digits flds interval ?a") (metis case_prod_conv length_0_conv less_numeral_extra(3) max_0L max.commute max_def not_le)
  then have "digits_of flds interval ?a \<noteq> []" "ascii_digit (hd (digits_of flds interval ?a))"
    using digits_of_digits [of flds interval ?a] hd_in_set by blast+
  then have hd: "?t \<noteq> []" "ascii_digit (hd ?t) \<or> hd ?t = separator_of flds interval ?a \<and> ?a = 7"
    unfolding t by (auto simp: field_text_def separated_def hd_append)
  then have sign: "hd ?t \<noteq> CHR ''+''" "hd ?t \<noteq> CHR ''-''"
    by (auto simp: separator_of_def field_separator_def field_defs dest: not_ascii_digit_simps [THEN notE])
  have len: "length ?t \<le> 45" by (rule fields_text_length [OF ok])
  have "partial flds ?a = zero_fields (tf_range flds) \<lparr>tf_negative := tf_negative flds\<rparr>"
    using partial_first [OF ok] by simp
  moreover have "zero_fields (tf_range flds) \<lparr>tf_negative := False\<rparr> = zero_fields (tf_range flds)"
    by (simp add: zero_fields_def)
  moreover have "tf_range (zero_fields (tf_range flds)) = tf_range flds" by (simp add: zero_fields_def)
  moreover have "validate_fields flds interval = SQLI_OK" using ok by (simp add: fields_ok_def)
  ultimately show ?thesis
    using parse_loop_text [OF ok order_refl] ab rng hd(1) sign len assms(2)
    by (cases "tf_negative flds")
      (simp_all add: parse_fields_def validate_range_ok SQLI_TEMPORAL_MAX_TEXT_def Let_def del: upt_Suc)
qed

section \<open>What the parser accepts\<close>

definition fields_shape :: "temporal_fields \<Rightarrow> bool" where
  "fields_shape flds \<longleftrightarrow> \<not> tf_is_null flds \<and> length (tf_integral flds) = 8 \<and>
     tf_integral flds ! 0 = 0 \<and> tf_integral flds ! 7 = 0 \<and> digits_ok (2 ^ 64) (tf_integral flds)"

lemma fields_ok_shape: "fields_ok flds interval \<longleftrightarrow> validate_fields flds interval = SQLI_OK \<and> fields_shape flds"
  by (auto simp: fields_ok_def fields_shape_def)

lemma read_digits_bound:
  "read_digits maximum count n cs = Inr (c, m, rest) \<Longrightarrow> n < 2 ^ 64 \<Longrightarrow> m < 2 ^ 64"
proof (induction maximum count n cs rule: read_digits.induct)
  case (2 maximum count n ch cs)
  show ?case
  proof (cases "ascii_digit ch")
    case True
    then have "char_digit ch < 10" by (rule char_digit_less)
    moreover have "\<not> n > (2 ^ 64 - 1 - char_digit ch) div 10" "count \<noteq> maximum"
      using 2(2) True by (auto simp: Let_def split: if_splits)
    moreover from this have "n * 10 \<le> 2 ^ 64 - 1 - char_digit ch"
      by (simp add: not_less less_eq_div_iff_mult_less_eq)
    ultimately have "n * 10 + char_digit ch < 2 ^ 64" by simp
    then show ?thesis using 2 True by (auto simp: Let_def split: if_splits)
  qed (use 2 in simp)
qed simp

lemma read_number_bound: "read_number a b cs = Inr (m, rest) \<Longrightarrow> m < 2 ^ 64"
  by (auto simp: read_number_def dest: read_digits_bound split: sum.splits if_splits)

lemma store_field_shape:
  assumes "store_field f m flds = Inr flds'" "fields_shape flds" "0 < f" "m < 2 ^ 64"
  shows "fields_shape flds' \<and> tf_range flds' = tf_range flds \<and> tf_negative flds' = tf_negative flds"
  using assms
  by (cases "f = 7") (auto simp: store_field_def field_defs fields_shape_def nth_list_update split: if_splits)

lemma parse_loop_shape:
  "parse_loop interval fs flds reader = Inr (flds', rest) \<Longrightarrow> fields_shape flds \<Longrightarrow> \<forall>f \<in> set fs. 0 < f \<Longrightarrow>
   fields_shape flds' \<and> tf_range flds' = tf_range flds \<and> tf_negative flds' = tf_negative flds"
proof (induction fs arbitrary: flds reader)
  case (Cons f fs)
  obtain w n where w: "parse_width (tf_range flds) interval f = (w, n)" by fastforce
  obtain r1 m r2 flds1 where "read_number w n r1 = Inr (m, r2)" "store_field f m flds = Inr flds1"
    "parse_loop interval fs flds1 r2 = Inr (flds', rest)"
    using Cons.prems(1) w by (auto split: sum.splits)
  then show ?case
    using store_field_shape [of f m flds flds1] Cons.IH [of flds1 r2] Cons.prems(2,3) read_number_bound by auto
qed simp

lemma parse_fields_ok:
  assumes "parse_fields (zero_fields rng) input interval = Inr flds"
  shows "fields_ok flds interval \<and> tf_range flds = rng \<and> (tf_negative flds \<longrightarrow> interval)"
proof -
  let ?z = "zero_fields rng" and ?fs = "[r_first rng..<Suc (r_last rng)]"
  obtain neg reader where *: "validate_range (Some rng) interval False = SQLI_OK"
    "parse_loop interval ?fs (?z\<lparr>tf_negative := neg\<rparr>) reader = Inr (flds, [])" "neg \<longrightarrow> interval"
    "validate_fields flds interval = SQLI_OK"
  proof -
    let ?signed = "interval \<and> (hd (the input) = CHR ''+'' \<or> hd (the input) = CHR ''-'')"
    have r: "tf_range ?z = rng" "?z\<lparr>tf_negative := False\<rparr> = ?z" by (simp_all add: zero_fields_def)
    show thesis
      by (rule that [of "?signed \<and> hd (the input) = CHR ''-''" "if ?signed then tl (the input) else the input"])
        (use assms r in \<open>auto simp: parse_fields_def Let_def split: if_splits sum.splits\<close>)
  qed
  have "fields_shape (?z\<lparr>tf_negative := neg\<rparr>)" by (simp add: fields_shape_def zero_fields_def)
  moreover have "\<forall>f \<in> set ?fs. 0 < f" using *(1) by (auto simp: validate_range_ok range_ok_def)
  ultimately show ?thesis
    using parse_loop_shape [OF *(2)] *(3,4) by (simp add: fields_ok_shape zero_fields_def)
qed

section \<open>Dates, datetimes and intervals\<close>

definition datetime_ok :: "sqli_datetime \<Rightarrow> bool" where
  "datetime_ok v \<longleftrightarrow>
     (if dp_is_null v then v = null_datetime (dp_range v) \<and> validate_range (Some (dp_range v)) False True = SQLI_OK
      else 0 \<le> dp_year v \<and> validate_fields (datetime_fields v) False = SQLI_OK)"

definition interval_zero :: "interval_parts \<Rightarrow> bool" where
  "interval_zero v \<longleftrightarrow> ip_nanosecond v = 0 \<and> ip_years v = 0 \<and> ip_months v = 0 \<and> ip_days v = 0 \<and>
     ip_hours v = 0 \<and> ip_minutes v = 0 \<and> ip_seconds v = 0"

definition interval_ok :: "sqli_interval \<Rightarrow> bool" where
  "interval_ok v \<longleftrightarrow>
     (if ip_is_null v then v = null_interval (ip_range v) \<and> validate_range (Some (ip_range v)) True True = SQLI_OK
      else validate_fields (interval_fields v) True = SQLI_OK \<and> (ip_negative v \<longrightarrow> \<not> interval_zero v))"

text \<open>Magnitudes of an interval are \<open>uint64_t\<close>.\<close>

definition interval_u64 :: "interval_parts \<Rightarrow> bool" where
  "interval_u64 v \<longleftrightarrow> digits_ok (2 ^ 64) (tf_integral (interval_fields v))"

lemma ball_fields: "(\<forall>field \<in> {1..6 :: nat}. P field) \<longleftrightarrow> P 1 \<and> P 2 \<and> P 3 \<and> P 4 \<and> P 5 \<and> P 6"
proof -
  have "{1..6 :: nat} = {1, 2, 3, 4, 5, 6}" by auto
  then show ?thesis by (simp only: ball_simps simp_thms)
qed

lemma list8: "length xs = 8 \<Longrightarrow> xs = [xs ! 0, xs ! 1, xs ! 2, xs ! 3, xs ! 4, xs ! 5, xs ! 6, xs ! 7]"
proof -
  assume "length xs = 8"
  then have "xs = map (nth xs) [0..<8]" using map_nth [of xs] by simp
  also have "[0..<8] = [0, 1, 2, 3, 4, 5, 6, 7 :: nat]" by code_simp
  finally show ?thesis by (simp only: list.map)
qed

lemma field_fits_bound:
  "field_fits flds False field \<Longrightarrow> tf_integral flds ! field \<le> (if field = 1 then 9999 else 59)"
  by (auto simp: field_fits_def field_maximum_def field_defs calendar_last_year_def split: if_splits)

lemma datetime_fields_ok: "datetime_ok v \<Longrightarrow> \<not> dp_is_null v \<Longrightarrow> fields_ok (datetime_fields v) False"
proof -
  assume v: "datetime_ok v" "\<not> dp_is_null v"
  then have "validate_fields (datetime_fields v) False = SQLI_OK" by (simp add: datetime_ok_def)
  moreover from this have validated: "validate_fields (datetime_fields v) False = SQLI_OK" .
  moreover have nn: "\<not> tf_is_null (datetime_fields v)" using v by (simp add: datetime_fields_def)
  ultimately have "\<forall>field \<in> {1..6}. field_fits (datetime_fields v) False field"
    unfolding validate_fields_ok [OF nn] by blast
  then have "\<forall>field \<in> {1..6}. tf_integral (datetime_fields v) ! field \<le> (if field = 1 then 9999 else 59)"
    using field_fits_bound by blast
  then have "fields_shape (datetime_fields v)"
    using v unfolding ball_fields by (simp add: fields_shape_def datetime_fields_def)
  then show ?thesis using validated by (simp add: fields_ok_shape)
qed

lemma datetime_of_fields:
  assumes ok: "fields_ok flds False" and neg: "\<not> tf_negative flds"
  shows "datetime_fields (datetime_parts_of flds) = flds" "datetime_ok (datetime_parts_of flds)"
    "\<not> dp_is_null (datetime_parts_of flds)"
proof -
  have "field_fits flds False field" if "field \<in> {1..6}" for field
    using fields_okD(2) [OF ok] that by simp
  then have b: "\<forall>field \<in> {1..6}. tf_integral flds ! field \<le> (if field = 1 then 9999 else 59)"
    using field_fits_bound by blast
  have null: "\<not> tf_is_null flds" using ok by (simp add: fields_ok_def)
  obtain y mo d h mi se where l: "tf_integral flds = [0, y, mo, d, h, mi, se, 0]"
    using list8 [OF fields_okD(6) [OF ok]] fields_okD(7,8) [OF ok] by metis
  have le: "y \<le> 9999" "mo \<le> 59" "d \<le> 59" "h \<le> 59" "mi \<le> 59" "se \<le> 59"
    using b unfolding ball_fields by (simp_all add: l)
  have y: "i32 (int y) = int y" using le(1) by (intro i32_id) (simp add: in_i32_def)
  show eq: "datetime_fields (datetime_parts_of flds) = flds"
    using le neg null l
    by (cases flds) (simp add: datetime_fields_def datetime_parts_of_def field_defs y)
  show nn: "\<not> dp_is_null (datetime_parts_of flds)" using null by (simp add: datetime_parts_of_def)
  show "datetime_ok (datetime_parts_of flds)"
    using ok nn eq y by (simp add: datetime_ok_def fields_ok_def) (simp add: datetime_parts_of_def field_defs l)
qed

lemma validate_range_null: "validate_range (Some rng) interval True = SQLI_OK \<longleftrightarrow>
    rng = unknown_range \<or> validate_range (Some rng) interval False = SQLI_OK"
  by (cases rng) (auto simp: validate_range_def unknown_range_def field_defs nanosecond_digits_def)

lemma validate_fields_range: "validate_fields flds interval = SQLI_OK \<Longrightarrow>
    validate_range (Some (tf_range flds)) interval (tf_is_null flds) = SQLI_OK"
  by (auto simp: validate_fields_def Let_def split: if_splits)

lemma null_datetime_ok: "datetime_ok (null_datetime rng) \<longleftrightarrow> validate_range (Some rng) False True = SQLI_OK"
  by (simp add: datetime_ok_def null_datetime_def)

lemma datetime_ok_range: "datetime_ok v \<Longrightarrow> validate_range (Some (dp_range v)) False True = SQLI_OK"
  using validate_fields_range [of "datetime_fields v" False]
  by (auto simp: datetime_ok_def datetime_fields_def validate_range_null split: if_splits)

lemma null_interval_ok: "interval_ok (null_interval rng) \<longleftrightarrow> validate_range (Some rng) True True = SQLI_OK"
  by (simp add: interval_ok_def null_interval_def)

lemma interval_ok_range: "interval_ok v \<Longrightarrow> validate_range (Some (ip_range v)) True True = SQLI_OK"
  using validate_fields_range [of "interval_fields v" True]
  by (auto simp: interval_ok_def interval_fields_def validate_range_null split: if_splits)

lemma datetime_set_parts_ok:
  assumes "sqli_datetime_set_parts (Some v) parts = (st, Some v')" "datetime_ok v"
  shows "datetime_ok v'"
proof (cases "\<exists>q. parts = Some q \<and> (dp_is_null q \<or> 0 \<le> dp_year q) \<and> validate_fields (datetime_fields q) False = SQLI_OK")
  case True
  then obtain q where q: "parts = Some q" "dp_is_null q \<or> 0 \<le> dp_year q"
    "validate_fields (datetime_fields q) False = SQLI_OK" by blast
  then have v': "v' = (if dp_is_null q then null_datetime (dp_range q) else q)"
    using assms(1) by (auto simp: sqli_datetime_set_parts_def split: if_splits)
  have "validate_range (Some (dp_range q)) False (dp_is_null q) = SQLI_OK"
    using validate_fields_range [OF q(3)] by (simp add: datetime_fields_def)
  then show ?thesis
    using q v' by (cases "dp_is_null q") (simp_all add: null_datetime_ok, simp add: datetime_ok_def)
next
  case False
  then have "v' = v"
    using assms(1) by (auto simp: sqli_datetime_set_parts_def Let_def split: option.splits if_splits)
  then show ?thesis using assms(2) by simp
qed

lemma datetime_parse_ok:
  assumes "sqli_datetime_parse (Some v) rng input is_null = (st, Some v')" "datetime_ok v"
  shows "datetime_ok v'"
proof -
  have "datetime_ok (datetime_parts_of flds)" if "parse_fields (zero_fields (the rng)) input False = Inr flds" for flds
    using parse_fields_ok [OF that] datetime_of_fields(2) by simp
  then show ?thesis
    using assms datetime_ok_range [OF assms(2)]
    by (auto simp: sqli_datetime_parse_def sqli_datetime_set_null_def null_datetime_ok Let_def
        split: if_splits sum.splits option.splits)
qed

lemma check_fields_cong:
  "tf_range a = tf_range b \<Longrightarrow> tf_integral a = tf_integral b \<Longrightarrow>
   check_fields a interval fs = check_fields b interval fs"
  by (induction fs) (simp_all only: check_fields.simps)

lemma validate_fields_negative [simp]: "validate_fields (flds\<lparr>tf_negative := b\<rparr>) interval = validate_fields flds interval"
proof -
  have "check_fields (flds\<lparr>tf_negative := b\<rparr>) interval fs = check_fields flds interval fs" for fs
    by (rule check_fields_cong) simp_all
  moreover have "tf_range (flds\<lparr>tf_negative := b\<rparr>) = tf_range flds" "tf_integral (flds\<lparr>tf_negative := b\<rparr>) = tf_integral flds"
    "tf_nanosecond (flds\<lparr>tf_negative := b\<rparr>) = tf_nanosecond flds" "tf_is_null (flds\<lparr>tf_negative := b\<rparr>) = tf_is_null flds"
    by simp_all
  ultimately show ?thesis by (simp only: validate_fields_def)
qed

lemma interval_zero_loop:
  "(tf_nanosecond (interval_fields v) = 0 \<and>
     (\<forall>field \<in> set [1, 2, 3, 4, 5, 6]. tf_integral (interval_fields v) ! field = 0)) \<longleftrightarrow> interval_zero v"
  by (simp add: interval_fields_def interval_zero_def)

lemma interval_set_parts_result:
  assumes "validate_fields (interval_fields parts) True = SQLI_OK" "\<not> ip_is_null parts"
  shows "sqli_interval_set_parts (Some v) (Some parts) =
    (SQLI_OK, Some (if interval_zero parts then parts\<lparr>ip_negative := False\<rparr> else parts))"
  using assms unfolding sqli_interval_set_parts_def interval_zero_loop Let_def by simp

lemma interval_set_parts_ok:
  assumes "sqli_interval_set_parts (Some v) parts = (st, Some v')" "interval_ok v"
  shows "interval_ok v'"
proof (cases "\<exists>q. parts = Some q \<and> validate_fields (interval_fields q) True = SQLI_OK")
  case True
  then obtain q where q: "parts = Some q" "validate_fields (interval_fields q) True = SQLI_OK" by blast
  show ?thesis
  proof (cases "ip_is_null q")
    case True
    then have "validate_range (Some (ip_range q)) True True = SQLI_OK"
      using validate_fields_range [OF q(2)] by (simp add: interval_fields_def)
    moreover have "v' = null_interval (ip_range q)"
      using assms(1) q True unfolding sqli_interval_set_parts_def interval_zero_loop Let_def
      by (auto simp: null_interval_def split: if_splits)
    ultimately show ?thesis by (simp add: null_interval_ok)
  next
    case False
    have "interval_fields (q\<lparr>ip_negative := False\<rparr>) = (interval_fields q)\<lparr>tf_negative := False\<rparr>"
      by (simp add: interval_fields_def)
    then show ?thesis
      using assms(1) q False
      by (cases "interval_zero q") (auto simp: interval_set_parts_result interval_ok_def)
  qed
next
  case False
  then show ?thesis
    using assms by (auto simp: sqli_interval_set_parts_def Let_def split: option.splits)
qed

lemma interval_of_fields:
  assumes "fields_ok flds True"
  shows "interval_fields (interval_parts_of flds) = flds"
proof -
  obtain y mo d h mi se where "tf_integral flds = [0, y, mo, d, h, mi, se, 0]"
    using list8 [OF fields_okD(6) [OF assms]] fields_okD(7,8) [OF assms] by metis
  then show ?thesis
    using assms by (cases flds) (simp add: interval_fields_def interval_parts_of_def field_defs fields_ok_def)
qed

lemma interval_parse_ok:
  assumes "sqli_interval_parse (Some v) rng input is_null = (st, Some v')" "interval_ok v"
  shows "interval_ok v'"
proof (cases "is_null")
  case True
  then show ?thesis
    using assms interval_ok_range [OF assms(2)]
    by (auto simp: sqli_interval_parse_def sqli_interval_set_null_def null_interval_ok Let_def
        split: if_splits option.splits)
next
  case False
  then show ?thesis
    using assms interval_set_parts_ok
    by (auto simp: sqli_interval_parse_def Let_def split: if_splits sum.splits)
qed

section \<open>Values reachable by the public operations\<close>

inductive datetime_value :: "sqli_datetime \<Rightarrow> bool" where
  dt_create: "sqli_datetime_create mem True = Inr v \<Longrightarrow> datetime_value v"
| dt_copy: "datetime_value v \<Longrightarrow> datetime_value w \<Longrightarrow>
    sqli_datetime_copy (Some v) (Some w) = (st, Some v') \<Longrightarrow> datetime_value v'"
| dt_set_null: "datetime_value v \<Longrightarrow> sqli_datetime_set_null (Some v) = (st, Some v') \<Longrightarrow> datetime_value v'"
| dt_set_parts: "datetime_value v \<Longrightarrow> sqli_datetime_set_parts (Some v) parts = (st, Some v') \<Longrightarrow> datetime_value v'"
| dt_parse: "datetime_value v \<Longrightarrow> sqli_datetime_parse (Some v) rng input is_null = (st, Some v') \<Longrightarrow> datetime_value v'"
| dt_parse_iso: "datetime_value v \<Longrightarrow> sqli_datetime_parse_iso (Some v) input is_null = (st, Some v') \<Longrightarrow> datetime_value v'"

inductive interval_value :: "sqli_interval \<Rightarrow> bool" where
  iv_create: "sqli_interval_create mem True = Inr v \<Longrightarrow> interval_value v"
| iv_copy: "interval_value v \<Longrightarrow> interval_value w \<Longrightarrow>
    sqli_interval_copy (Some v) (Some w) = (st, Some v') \<Longrightarrow> interval_value v'"
| iv_set_null: "interval_value v \<Longrightarrow> sqli_interval_set_null (Some v) = (st, Some v') \<Longrightarrow> interval_value v'"
| iv_set_parts: "interval_value v \<Longrightarrow> sqli_interval_set_parts (Some v) parts = (st, Some v') \<Longrightarrow> interval_value v'"
| iv_parse: "interval_value v \<Longrightarrow> sqli_interval_parse (Some v) rng input is_null = (st, Some v') \<Longrightarrow> interval_value v'"

lemma datetime_parse_iso_ok:
  assumes "sqli_datetime_parse_iso (Some v) input is_null = (st, Some v')" "datetime_ok v"
  shows "datetime_ok v'"
  using assms datetime_parse_ok [of v _ input False st v'] datetime_ok_range [OF assms(2)]
  by (auto simp: sqli_datetime_parse_iso_def sqli_datetime_set_null_def null_datetime_ok Let_def split: if_splits)

lemma unknown_range_ok: "validate_range (Some unknown_range) interval True = SQLI_OK"
  by (simp add: validate_range_null)

lemma datetime_value_ok:
  "datetime_value v \<Longrightarrow> datetime_ok v"
proof (induction rule: datetime_value.induct)
  case (dt_create mem v)
  then show ?case by (auto simp: sqli_datetime_create_def null_datetime_ok unknown_range_ok split: if_splits)
next
  case (dt_set_null v st v')
  then show ?case using datetime_ok_range [of v] by (auto simp: sqli_datetime_set_null_def null_datetime_ok)
qed (auto simp: sqli_datetime_copy_def intro: datetime_set_parts_ok datetime_parse_ok datetime_parse_iso_ok)

lemma interval_value_ok:
  "interval_value v \<Longrightarrow> interval_ok v"
proof (induction rule: interval_value.induct)
  case (iv_create mem v)
  then show ?case by (auto simp: sqli_interval_create_def null_interval_ok unknown_range_ok split: if_splits)
next
  case (iv_set_null v st v')
  then show ?case using interval_ok_range [of v] by (auto simp: sqli_interval_set_null_def null_interval_ok)
qed (auto simp: sqli_interval_copy_def intro: interval_set_parts_ok interval_parse_ok)

text \<open>
  What a datetime value is, from the calendar and not from the code: a contiguous run of the fields year to
  fraction, the fraction with one to nine digits; fields outside the run are zero. The day exists in the Gregorian month
  as far as month and year are known.
\<close>

definition contiguous :: "temporal_range \<Rightarrow> bool" where
  "contiguous rng \<longleftrightarrow> 1 \<le> r_first rng \<and> r_first rng \<le> r_last rng \<and> r_last rng \<le> 7 \<and>
     (if r_last rng = 7 then r_digits rng \<in> {1..9} else r_digits rng = 0)"

definition gregorian_days :: "int option \<Rightarrow> nat option \<Rightarrow> nat" where
  "gregorian_days year month =
     (if month \<in> {Some 4, Some 6, Some 9, Some 11} then 30
      else if month = Some 2 then
        (case year of None \<Rightarrow> 29 | Some y \<Rightarrow> if 4 dvd y \<and> (100 dvd y \<longrightarrow> 400 dvd y) then 29 else 28)
      else 31)"

definition calendar_value :: "sqli_datetime \<Rightarrow> bool" where
  "calendar_value v \<longleftrightarrow>
     (let present = (\<lambda>field. r_first (dp_range v) \<le> field \<and> field \<le> r_last (dp_range v))
      in if dp_is_null v then
           (contiguous (dp_range v) \<or> dp_range v = \<lparr>r_first = 0, r_last = 0, r_digits = 0\<rparr>) \<and>
           dp_year v = 0 \<and> dp_month v = 0 \<and> dp_day v = 0 \<and> dp_hour v = 0 \<and> dp_minute v = 0 \<and> dp_second v = 0 \<and>
           dp_nanosecond v = 0
         else contiguous (dp_range v) \<and>
           (if present 1 then 1 \<le> dp_year v \<and> dp_year v \<le> 9999 else dp_year v = 0) \<and>
           (if present 2 then 1 \<le> dp_month v \<and> dp_month v \<le> 12 else dp_month v = 0) \<and>
           (if present 3
            then 1 \<le> dp_day v \<and> dp_day v \<le> gregorian_days (if present 1 then Some (dp_year v) else None)
              (if present 2 then Some (dp_month v) else None)
            else dp_day v = 0) \<and>
           (if present 4 then dp_hour v < 24 else dp_hour v = 0) \<and>
           (if present 5 then dp_minute v < 60 else dp_minute v = 0) \<and>
           (if present 6 then dp_second v < 60 else dp_second v = 0) \<and>
           (if present 7 then dp_nanosecond v < 10 ^ 9 \<and> 10 ^ (9 - r_digits (dp_range v)) dvd dp_nanosecond v
            else dp_nanosecond v = 0))"

lemma contiguous_ok: "range_ok rng False \<longleftrightarrow> contiguous rng"
  by (auto simp: range_ok_def contiguous_def)

lemma gregorian_month_days:
  assumes "1 \<le> m" "m \<le> 12" "0 \<le> y"
  shows "month_days m y = gregorian_days (if y = 0 then None else Some y) (Some m)"
proof -
  have "m \<in> {1, 2, 3, 4, 5, 6, 7, 8, 9, 10, 11, 12}"
    using assms(1,2) by (simp only: insert_iff empty_iff) presburger
  then show ?thesis
    using assms(3) by (auto simp: month_days_def gregorian_days_def leap_year_def mod_eq_0_iff_dvd)
qed

lemma regroup:
  "(Y \<Longrightarrow> M \<Longrightarrow> (D \<and> X) = G) \<Longrightarrow> ((Y \<and> M \<and> D \<and> H \<and> I \<and> S) \<and> X \<and> F) = (Y \<and> M \<and> G \<and> H \<and> I \<and> S \<and> F)"
  by blast

lemma gregorian_days_31: "gregorian_days year month \<le> 31"
  by (simp add: gregorian_days_def split: option.split)

lemma datetime_ok_calendar: "datetime_ok v \<longleftrightarrow> calendar_value v"
proof (cases "dp_is_null v")
  case True
  have "v = null_datetime (dp_range v) \<longleftrightarrow> dp_year v = 0 \<and> dp_month v = 0 \<and> dp_day v = 0 \<and> dp_hour v = 0 \<and>
      dp_minute v = 0 \<and> dp_second v = 0 \<and> dp_nanosecond v = 0"
    using True by (cases v) (simp add: null_datetime_def)
  moreover have "validate_range (Some (dp_range v)) False True = SQLI_OK \<longleftrightarrow>
      contiguous (dp_range v) \<or> dp_range v = \<lparr>r_first = 0, r_last = 0, r_digits = 0\<rparr>"
    unfolding validate_range_null validate_range_ok contiguous_ok by (auto simp: unknown_range_def)
  ultimately show ?thesis using True unfolding datetime_ok_def calendar_value_def Let_def by auto
next
  case False
  let ?r = "dp_range v"
  have nn: "\<not> tf_is_null (datetime_fields v)" using False by (simp add: datetime_fields_def)
  have unset: "0 \<le> dp_year v \<Longrightarrow> nat (dp_year v) = 0 \<longleftrightarrow> dp_year v = 0" by auto
  show ?thesis
  proof (cases "contiguous ?r \<and> 0 \<le> dp_year v")
    case True
    then have c: "contiguous ?r" and y: "0 \<le> dp_year v" by simp_all
    have fraction: "(if r_last ?r = 7 then dp_nanosecond v < 10 ^ 9 \<and> dp_nanosecond v mod fraction_factors ! r_digits ?r = 0
          else dp_nanosecond v = 0) \<longleftrightarrow>
        (if r_first ?r \<le> 7 \<and> 7 \<le> r_last ?r then dp_nanosecond v < 10 ^ 9 \<and> 10 ^ (9 - r_digits ?r) dvd dp_nanosecond v
         else dp_nanosecond v = 0)"
      using c fraction_factor [of "r_digits ?r"] by (auto simp: contiguous_def mod_eq_0_iff_dvd)
    let ?f = "datetime_fields v" and ?in = "\<lambda>field. r_first ?r \<le> field \<and> field \<le> r_last ?r"
    note field = datetime_fields_def field_fits_def field_maximum_def field_defs calendar_last_year_def
    have fits:
      "field_fits ?f False 1 \<longleftrightarrow> (if ?in 1 then 1 \<le> dp_year v \<and> dp_year v \<le> 9999 else dp_year v = 0)"
      "field_fits ?f False 2 \<longleftrightarrow> (if ?in 2 then 1 \<le> dp_month v \<and> dp_month v \<le> 12 else dp_month v = 0)"
      "field_fits ?f False 3 \<longleftrightarrow> (if ?in 3 then 1 \<le> dp_day v \<and> dp_day v \<le> 31 else dp_day v = 0)"
      "field_fits ?f False 4 \<longleftrightarrow> (if ?in 4 then dp_hour v < 24 else dp_hour v = 0)"
      "field_fits ?f False 5 \<longleftrightarrow> (if ?in 5 then dp_minute v < 60 else dp_minute v = 0)"
      "field_fits ?f False 6 \<longleftrightarrow> (if ?in 6 then dp_second v < 60 else dp_second v = 0)"
      using y by (auto simp: field)
    have day: "((if ?in 3 then 1 \<le> dp_day v \<and> dp_day v \<le> 31 else dp_day v = 0) \<and>
          (dp_month v = 0 \<or> dp_day v = 0 \<or> dp_day v \<le> month_days (dp_month v) (dp_year v))) \<longleftrightarrow>
        (if ?in 3
         then 1 \<le> dp_day v \<and> dp_day v \<le> gregorian_days (if ?in 1 then Some (dp_year v) else None)
           (if ?in 2 then Some (dp_month v) else None)
         else dp_day v = 0)"
      if "if ?in 1 then 1 \<le> dp_year v \<and> dp_year v \<le> 9999 else dp_year v = 0"
        "if ?in 2 then 1 \<le> dp_month v \<and> dp_month v \<le> 12 else dp_month v = 0"
    proof (cases "?in 2")
      case True
      then have "month_days (dp_month v) (dp_year v) = gregorian_days (if ?in 1 then Some (dp_year v) else None) (Some (dp_month v))"
        using that gregorian_month_days [of "dp_month v" "dp_year v"] by (cases "?in 1") auto
      then show ?thesis using True that gregorian_days_31 by (auto intro: order_trans)
    qed (use that in \<open>auto simp: gregorian_days_def\<close>)
    have shape: "tf_range ?f = ?r" "tf_integral ?f ! 1 = nat (dp_year v)" "tf_integral ?f ! 2 = dp_month v"
      "tf_integral ?f ! 3 = dp_day v" "tf_nanosecond ?f = dp_nanosecond v"
      by (simp_all add: datetime_fields_def)
    have accepted: "datetime_ok v \<longleftrightarrow> (\<forall>field \<in> {1..6}. field_fits ?f False field) \<and>
        (dp_month v = 0 \<or> dp_day v = 0 \<or> dp_day v \<le> month_days (dp_month v) (dp_year v)) \<and>
        (if r_last ?r = 7 then dp_nanosecond v < 10 ^ 9 \<and> dp_nanosecond v mod fraction_factors ! r_digits ?r = 0
         else dp_nanosecond v = 0)"
      using False c y by (simp only: datetime_ok_def validate_fields_ok [OF nn] shape contiguous_ok nat_0_le if_False simp_thms)
    show ?thesis
      unfolding accepted fraction ball_fields fits calendar_value_def Let_def
      by (simp only: False c if_False simp_thms) (rule regroup, rule day)
  next
    case invalid: False
    have "\<not> calendar_value v"
    proof
      assume "calendar_value v"
      then have "contiguous ?r" "if r_first ?r \<le> 1 \<and> 1 \<le> r_last ?r then 1 \<le> dp_year v \<and> dp_year v \<le> 9999 else dp_year v = 0"
        using False by (simp_all only: calendar_value_def Let_def if_False simp_thms) (elim conjE, assumption)
      then show False using invalid by (simp split: if_splits)
    qed
    moreover have "tf_range (datetime_fields v) = ?r" by (simp add: datetime_fields_def)
    then have "\<not> datetime_ok v"
      using False invalid unfolding datetime_ok_def validate_fields_ok [OF nn] contiguous_ok by simp
    ultimately show ?thesis by simp
  qed
qed

text \<open>
  C27. The datetime values that the public operations can produce, whether they succeed or fail, are exactly the
  values of the calendar: SQL NULL with cleared fields and a known or wholly unknown range, or a contiguous run of
  fields, each within its limits, with a day that exists in its Gregorian month and a fraction of no more digits
  than declared.
\<close>

theorem datetime_values_valid:
  "datetime_value v \<longleftrightarrow> calendar_value v"
proof
  show "datetime_value v \<Longrightarrow> calendar_value v" using datetime_value_ok datetime_ok_calendar by blast
next
  assume "calendar_value v"
  then have ok: "datetime_ok v" by (simp add: datetime_ok_calendar)
  have start: "datetime_value (null_datetime unknown_range)"
    by (rule dt_create [of "\<lambda>_. True"]) (simp add: sqli_datetime_create_def)
  have "validate_fields (datetime_fields v) False = SQLI_OK \<and> (dp_is_null v \<longrightarrow> v = null_datetime (dp_range v)) \<and>
      (\<not> dp_is_null v \<longrightarrow> 0 \<le> dp_year v)"
  proof (cases "dp_is_null v")
    case True
    then show ?thesis using ok by (simp add: datetime_ok_def validate_fields_def datetime_fields_def Let_def)
  qed (use ok in \<open>simp add: datetime_ok_def\<close>)
  then have "sqli_datetime_set_parts (Some (null_datetime unknown_range)) (Some v) = (SQLI_OK, Some v)"
    by (auto simp: sqli_datetime_set_parts_def)
  from dt_set_parts [OF start this] show "datetime_value v" .
qed

text \<open>
  Every interval value that the public operations can produce is SQL NULL with cleared
  fields, or has validated fields of one class and no sign on a zero length.
\<close>

theorem interval_values_valid:
  "interval_value v \<Longrightarrow> interval_ok v"
  by (rule interval_value_ok)

section \<open>Round trips\<close>

definition sign_text :: "bool \<Rightarrow> string" where
  "sign_text negative = (if negative then ''-'' else '''')"

definition value_text :: "temporal_fields \<Rightarrow> bool \<Rightarrow> string" where
  "value_text flds interval = sign_text (tf_negative flds) @
     fields_text flds interval [r_first (tf_range flds)..<Suc (r_last (tf_range flds))]"

lemma format_value_text:
  assumes ok: "fields_ok flds interval" and "iso_form \<longrightarrow> complete_timestamp (tf_range flds)"
  shows "format_value flds interval iso_form given capacity True True =
     (if \<not> given \<and> capacity \<noteq> 0 then format_failed SQLI_INVALID_ARGUMENT
      else \<lparr>f_status = (if given \<and> capacity < Suc (length (value_text flds interval)) then SQLI_BUFFER_TOO_SMALL else SQLI_OK),
        f_required = Some (Suc (length (value_text flds interval))), f_is_null = Some False,
        f_buffer = (if given \<and> Suc (length (value_text flds interval)) \<le> capacity
          then Some (value_text flds interval @ [CHR 0x00]) else None)\<rparr>)"
    and "length (value_text flds interval) \<le> 46"
proof -
  let ?fs = "[r_first (tf_range flds)..<Suc (r_last (tf_range flds))]"
  have len: "length (fields_text flds interval ?fs) \<le> 45" by (rule fields_text_length [OF ok])
  then show "length (value_text flds interval) \<le> 46" by (simp add: value_text_def sign_text_def del: upt_Suc)
  have "format_loop flds interval ?fs (sign_text (tf_negative flds)) = Inr (value_text flds interval)"
    unfolding value_text_def using len
    by (intro format_loop_text) (simp add: sign_text_def SQLI_TEMPORAL_MAX_TEXT_def del: upt_Suc)
  then have "format_fields flds interval = Inr (value_text flds interval)"
    by (simp add: format_fields_def write_character_def SQLI_TEMPORAL_MAX_TEXT_def sign_text_def del: upt_Suc split: if_splits)
  moreover have "validate_fields flds interval = SQLI_OK" "\<not> tf_is_null flds" using ok by (simp_all add: fields_ok_def)
  ultimately show "format_value flds interval iso_form given capacity True True =
     (if \<not> given \<and> capacity \<noteq> 0 then format_failed SQLI_INVALID_ARGUMENT
      else \<lparr>f_status = (if given \<and> capacity < Suc (length (value_text flds interval)) then SQLI_BUFFER_TOO_SMALL else SQLI_OK),
        f_required = Some (Suc (length (value_text flds interval))), f_is_null = Some False,
        f_buffer = (if given \<and> Suc (length (value_text flds interval)) \<le> capacity
          then Some (value_text flds interval @ [CHR 0x00]) else None)\<rparr>)"
    using assms(2) by (cases iso_form; cases given) (simp_all add: format_value_def format_failed_def)
qed

lemma datetime_parse_text:
  assumes "datetime_ok v" "\<not> dp_is_null v"
  shows "sqli_datetime_parse (Some w) (Some (dp_range v)) (Some (value_text (datetime_fields v) False)) False = (SQLI_OK, Some v)"
proof -
  have ok: "fields_ok (datetime_fields v) False" by (rule datetime_fields_ok [OF assms])
  have r: "tf_range (datetime_fields v) = dp_range v" "\<not> tf_negative (datetime_fields v)"
    by (simp_all add: datetime_fields_def)
  have p: "parse_fields (zero_fields (dp_range v)) (Some (value_text (datetime_fields v) False)) False = Inr (datetime_fields v)"
    using parse_fields_text [OF ok] r by (simp add: value_text_def sign_text_def del: upt_Suc)
  have inj: "datetime_parts_of (datetime_fields v) = v"
  proof -
    have "\<forall>field \<in> {1..6}. tf_integral (datetime_fields v) ! field \<le> (if field = 1 then 9999 else 59)"
      using fields_okD(2) [OF ok] field_fits_bound by auto
    then have "nat (dp_year v) \<le> 9999" "dp_month v \<le> 59" "dp_day v \<le> 59" "dp_hour v \<le> 59" "dp_minute v \<le> 59" "dp_second v \<le> 59"
      unfolding ball_fields using assms by (simp_all add: datetime_fields_def datetime_ok_def split: if_splits)
    then show ?thesis
      using assms by (cases v) (simp add: datetime_parts_of_def datetime_fields_def field_defs datetime_ok_def
        i32_id in_i32_def nat_le_iff)
  qed
  have "validate_range (Some (dp_range v)) False False = SQLI_OK"
    using fields_okD(1) [OF ok] r by (simp add: validate_range_ok)
  then show ?thesis by (simp add: sqli_datetime_parse_def p inj)
qed

text \<open>
  C28. Every non-NULL datetime value formats to at most 64 characters and parses back, into any
  object and with its own range, to the same value; the size query announces exactly the bytes
  written.
\<close>

theorem sqli_datetime_text_round_trip:
  assumes "datetime_value v" "\<not> dp_is_null v"
  shows "\<exists>chars. length chars \<le> SQLI_TEMPORAL_MAX_TEXT \<and>
     (\<forall>capacity. sqli_datetime_format (Some v) True capacity True True =
       (if capacity < length chars + 1
        then \<lparr>f_status = SQLI_BUFFER_TOO_SMALL, f_required = Some (length chars + 1), f_is_null = Some False, f_buffer = None\<rparr>
        else \<lparr>f_status = SQLI_OK, f_required = Some (length chars + 1), f_is_null = Some False,
              f_buffer = Some (chars @ [CHR 0x00])\<rparr>)) \<and>
     sqli_datetime_parse (Some w) (Some (dp_range v)) (Some chars) False = (SQLI_OK, Some v)"
proof -
  have v: "datetime_ok v" using datetime_value_ok [OF assms(1)] .
  note ok = datetime_fields_ok [OF v assms(2)]
  show ?thesis
    using format_value_text [OF ok, of False] datetime_parse_text [OF v assms(2), of w]
    by (intro exI [of _ "value_text (datetime_fields v) False"])
      (auto simp: sqli_datetime_format_def SQLI_TEMPORAL_MAX_TEXT_def)
qed

lemma interval_fields_ok:
  "interval_ok v \<Longrightarrow> interval_u64 v \<Longrightarrow> \<not> ip_is_null v \<Longrightarrow> fields_ok (interval_fields v) True"
  by (simp add: fields_ok_shape fields_shape_def interval_ok_def interval_u64_def) (simp add: interval_fields_def)

lemma interval_parts_of_fields: "\<not> ip_is_null v \<Longrightarrow> interval_parts_of (interval_fields v) = v"
  by (cases v) (simp add: interval_parts_of_def interval_fields_def field_defs)

lemma interval_parse_text:
  assumes "interval_ok v" "interval_u64 v" "\<not> ip_is_null v"
  shows "sqli_interval_parse (Some w) (Some (ip_range v)) (Some (value_text (interval_fields v) True)) False = (SQLI_OK, Some v)"
proof -
  have ok: "fields_ok (interval_fields v) True" by (rule interval_fields_ok [OF assms])
  have r: "tf_range (interval_fields v) = ip_range v" by (simp add: interval_fields_def)
  have p: "parse_fields (zero_fields (ip_range v)) (Some (value_text (interval_fields v) True)) True = Inr (interval_fields v)"
    using parse_fields_text [OF ok] r by (simp add: value_text_def sign_text_def del: upt_Suc)
  have rng: "validate_range (Some (ip_range v)) True False = SQLI_OK"
    using fields_okD(1) [OF ok] r by (simp add: validate_range_ok)
  have "validate_fields (interval_fields v) True = SQLI_OK" using ok by (simp add: fields_ok_def)
  then have "sqli_interval_set_parts (Some w) (Some v) = (SQLI_OK, Some v)"
    using assms by (cases v) (auto simp: interval_set_parts_result interval_ok_def)
  then show ?thesis using p rng assms(3) by (simp add: sqli_interval_parse_def interval_parts_of_fields)
qed

text \<open>
  Every non-NULL interval value, its leading field of up to twenty digits included, formats
  to at most 64 characters and parses back to the same value with the same sign.
\<close>

theorem sqli_interval_text_round_trip:
  assumes "interval_value v" "interval_u64 v" "\<not> ip_is_null v"
  shows "\<exists>chars. length chars \<le> SQLI_TEMPORAL_MAX_TEXT \<and>
     (\<forall>capacity. sqli_interval_format (Some v) True capacity True True =
       (if capacity < length chars + 1
        then \<lparr>f_status = SQLI_BUFFER_TOO_SMALL, f_required = Some (length chars + 1), f_is_null = Some False, f_buffer = None\<rparr>
        else \<lparr>f_status = SQLI_OK, f_required = Some (length chars + 1), f_is_null = Some False,
              f_buffer = Some (chars @ [CHR 0x00])\<rparr>)) \<and>
     sqli_interval_parse (Some w) (Some (ip_range v)) (Some chars) False = (SQLI_OK, Some v)"
proof -
  have v: "interval_ok v" using interval_value_ok [OF assms(1)] .
  note ok = interval_fields_ok [OF v assms(2,3)]
  show ?thesis
    using format_value_text [OF ok, of False] interval_parse_text [OF v assms(2,3), of w]
    by (intro exI [of _ "value_text (interval_fields v) True"])
      (auto simp: sqli_interval_format_def SQLI_TEMPORAL_MAX_TEXT_def)
qed

section \<open>ISO timestamps\<close>

lemma calendar_digits_length:
  assumes "fields_ok flds False" "r_first (tf_range flds) = 1" "1 \<le> f" "f \<le> r_last (tf_range flds)"
  shows "length (digits_of flds False f) = (if f = 1 then 4 else if f = 7 then r_digits (tf_range flds) else 2)"
  using digits_of_length [OF assms(1), of f] assms
  by (auto simp: parse_width_def field_defs calendar_year_digits_def calendar_field_digits_def Let_def)

lemma timestamp_text:
  assumes ok: "fields_ok flds False" and "complete_timestamp (tf_range flds)" "\<not> tf_negative flds"
  shows "value_text flds False ! 10 = CHR ''T''"
    "r_last (tf_range flds) = 6 \<Longrightarrow> length (value_text flds False) = 19"
    "r_last (tf_range flds) = 7 \<Longrightarrow> value_text flds False ! 19 = CHR ''.'' \<and>
       length (value_text flds False) = 20 + r_digits (tf_range flds)"
proof -
  let ?D = "digits_of flds False" and ?l = "r_last (tf_range flds)"
  have l: "r_first (tf_range flds) = 1" "6 \<le> ?l" "?l \<le> 7"
    using assms(2) fields_okD(1) [OF ok] by (auto simp: complete_timestamp_def field_defs range_ok_def)
  note len = calendar_digits_length [OF ok l(1)]
  have fs: "[1..<Suc ?l] = [1, 2, 3, 4, 5, 6] @ (if ?l = 7 then [7] else [])"
    using l(2,3) by (cases "?l = 7") (simp_all add: upt_rec le_Suc_eq numeral_eq_Suc)
  have t: "value_text flds False = ?D 1 @ ''-'' @ ?D 2 @ ''-'' @ ?D 3 @ ''T'' @ ?D 4 @ '':'' @ ?D 5 @ '':'' @ ?D 6 @
      (if ?l = 7 then ''.'' @ ?D 7 else [])"
    unfolding value_text_def l(1) fs using assms(2,3) l(1)
    by (simp add: sign_text_def field_text_def separated_def separator_of_def
        field_separator_def field_defs del: upt_Suc)
  have d: "length (?D 1) = 4" "length (?D 2) = 2" "length (?D 3) = 2" "length (?D 4) = 2" "length (?D 5) = 2" "length (?D 6) = 2"
    using len l by simp_all
  show "value_text flds False ! 10 = CHR ''T''" unfolding t by (simp add: nth_append d [simplified])
  show "?l = 6 \<Longrightarrow> length (value_text flds False) = 19" unfolding t by (simp add: d [simplified])
  show "?l = 7 \<Longrightarrow> value_text flds False ! 19 = CHR ''.'' \<and> length (value_text flds False) = 20 + r_digits (tf_range flds)"
    unfolding t using len [of 7] by (simp add: nth_append d [simplified])
qed

text \<open>
  A non-NULL datetime whose range runs from YEAR to SECOND or FRACTION has one text for the
  ISO and the ordinary formatter; the ISO parser, which is not told the range, finds it from the
  text and gives the value back. Any other range is refused by the ISO formatter.
\<close>

theorem sqli_datetime_iso_round_trip:
  assumes "datetime_value v" "\<not> dp_is_null v"
  shows "if complete_timestamp (dp_range v)
     then sqli_datetime_format_iso (Some v) True 64 True True = sqli_datetime_format (Some v) True 64 True True \<and>
       (\<exists>chars. f_buffer (sqli_datetime_format_iso (Some v) True 64 True True) = Some (chars @ [CHR 0x00]) \<and>
          sqli_datetime_parse_iso (Some w) (Some chars) False = (SQLI_OK, Some v))
     else sqli_datetime_format_iso (Some v) True 64 True True = format_failed SQLI_INVALID_STATE"
proof -
  have v: "datetime_ok v" using datetime_value_ok [OF assms(1)] .
  note ok = datetime_fields_ok [OF v assms(2)]
  have r: "tf_range (datetime_fields v) = dp_range v" "\<not> tf_negative (datetime_fields v)"
    by (simp_all add: datetime_fields_def)
  show ?thesis
  proof (cases "complete_timestamp (dp_range v)")
    case False
    have "validate_fields (datetime_fields v) False = SQLI_OK" "\<not> tf_is_null (datetime_fields v)"
      using ok by (simp_all add: fields_ok_def)
    then show ?thesis using False r
      by (simp add: sqli_datetime_format_iso_def format_value_def format_failed_def)
  next
    case True
    let ?t = "value_text (datetime_fields v) False"
    have len: "length ?t \<le> 46" by (rule format_value_text(2) [OF ok, of False]) simp
    have rng: "range_ok (dp_range v) False" using fields_okD(1) [OF ok] r by simp
    then have "r_last (dp_range v) = 6 \<or> r_last (dp_range v) = 7"
      using True by (auto simp: range_ok_def complete_timestamp_def field_defs)
    then have "sqli_datetime_parse_iso (Some w) (Some ?t) False =
        sqli_datetime_parse (Some w) (Some (dp_range v)) (Some ?t) False"
      using timestamp_text [OF ok] True r len rng
      by (cases "dp_range v")
        (auto simp: sqli_datetime_parse_iso_def Let_def complete_timestamp_def range_ok_def field_defs
          timestamp_second_length_def timestamp_fraction_offset_def calendar_date_length_def
          SQLI_TEMPORAL_MAX_TEXT_def nanosecond_digits_def)
    then have "sqli_datetime_parse_iso (Some w) (Some ?t) False = (SQLI_OK, Some v)"
      using datetime_parse_text [OF v assms(2)] by simp
    then show ?thesis
      using True r format_value_text(1) [OF ok, of _ True 64] len
      by (simp add: sqli_datetime_format_iso_def sqli_datetime_format_def)
  qed
qed

section \<open>Witnesses\<close>

definition sample_datetime :: sqli_datetime where
  "sample_datetime = \<lparr>dp_range = \<lparr>r_first = 1, r_last = 7, r_digits = 3\<rparr>, dp_year = 2024, dp_month = 2,
     dp_day = 29, dp_hour = 23, dp_minute = 59, dp_second = 58, dp_nanosecond = 120000000, dp_is_null = False\<rparr>"

definition sample_interval :: sqli_interval where
  "sample_interval = \<lparr>ip_range = \<lparr>r_first = 3, r_last = 5, r_digits = 0\<rparr>, ip_years = 0, ip_months = 0,
     ip_days = 18446744073709551615, ip_hours = 23, ip_minutes = 5, ip_seconds = 0, ip_nanosecond = 0,
     ip_negative = True, ip_is_null = False\<rparr>"

lemma sample_datetime_set:
  "sqli_datetime_set_parts (Some (null_datetime unknown_range)) (Some sample_datetime) = (SQLI_OK, Some sample_datetime)"
  by (simp add: sample_datetime_def sqli_datetime_set_parts_def datetime_fields_def validate_fields_def
      validate_range_def field_defs field_maximum_def calendar_last_year_def nanosecond_digits_def
      nanoseconds_per_second_def fraction_factors_def month_days_def leap_year_def)

lemma sample_datetime_value: "datetime_value sample_datetime"
proof (rule dt_set_parts [OF _ sample_datetime_set])
  show "datetime_value (null_datetime unknown_range)"
    by (rule dt_create [of "\<lambda>_. True"]) (simp add: sqli_datetime_create_def)
qed

lemma sample_interval_set:
  "sqli_interval_set_parts (Some (null_interval unknown_range)) (Some sample_interval) = (SQLI_OK, Some sample_interval)"
  by (simp add: sample_interval_def sqli_interval_set_parts_def interval_fields_def validate_fields_def
      validate_range_def field_defs field_maximum_def calendar_last_year_def nanosecond_digits_def
      nanoseconds_per_second_def fraction_factors_def month_days_def leap_year_def)

lemma sample_interval_value: "interval_value sample_interval"
proof (rule iv_set_parts [OF _ sample_interval_set])
  show "interval_value (null_interval unknown_range)"
    by (rule iv_create [of "\<lambda>_. True"]) (simp add: sqli_interval_create_def)
qed

theorem datetime_values_valid_witness: "calendar_value sample_datetime"
  using datetime_values_valid [of sample_datetime] sample_datetime_value by blast

theorem interval_values_valid_witness: "interval_ok sample_interval"
  by (rule interval_values_valid [OF sample_interval_value])

theorem sqli_datetime_text_round_trip_witness:
  "\<exists>chars. sqli_datetime_parse (Some sample_datetime) (Some (dp_range sample_datetime)) (Some chars) False =
     (SQLI_OK, Some sample_datetime)"
  using sqli_datetime_text_round_trip [OF sample_datetime_value, of sample_datetime]
  by (auto simp: sample_datetime_def)

theorem sqli_interval_text_round_trip_witness:
  "\<exists>chars. sqli_interval_parse (Some sample_interval) (Some (ip_range sample_interval)) (Some chars) False =
     (SQLI_OK, Some sample_interval)"
  using sqli_interval_text_round_trip [OF sample_interval_value, of sample_interval]
  by (auto simp: sample_interval_def interval_u64_def interval_fields_def)

theorem sqli_datetime_iso_round_trip_witness:
  "\<exists>chars. sqli_datetime_parse_iso (Some sample_datetime) (Some chars) False = (SQLI_OK, Some sample_datetime)"
  using sqli_datetime_iso_round_trip [OF sample_datetime_value, of sample_datetime]
  by (auto simp: sample_datetime_def complete_timestamp_def field_defs)

end
