(* ===== verification/TemporalCodec.thy ===== *)
theory TemporalCodec
  imports Temporal Base100
begin

text \<open>
  The wire form of DATE, DATETIME and INTERVAL: src/src/sqli_temporal_codec.c. A date is a
  32-bit day number, a qualified value an exponent byte followed by base-100 groups whose
  layout the column qualifier decides. A call that writes \<open>length\<close> bytes returns them.
\<close>

definition SQLI_DATE_WIRE_SIZE :: nat where "SQLI_DATE_WIRE_SIZE = 4"
definition SQLI_TEMPORAL_WIRE_CAPACITY :: nat where "SQLI_TEMPORAL_WIRE_CAPACITY = 12"
definition tc_last_year :: int where "tc_last_year = 9999"
definition epoch_following_year :: int where "epoch_following_year = 1900"
definition tc_exponent_bias :: int where "tc_exponent_bias = 64"
definition tc_positive_flag :: byte where "tc_positive_flag = 128"
definition zero_marker :: byte where "zero_marker = 128"
definition wire_second :: nat where "wire_second = 10"
definition wire_fraction_start :: nat where "wire_fraction_start = 12"
definition max_leading_digits :: nat where "max_leading_digits = 9"
definition pair_base :: nat where "pair_base = 100"

section \<open>Dates\<close>

fun power10 :: "nat \<Rightarrow> nat" where
  "power10 0 = 1"
| "power10 (Suc digits) = u32 (power10 digits * 10)"

definition days_before_year :: "int \<Rightarrow> int" where
  "days_before_year year =
     (let previous = year - 1
      in previous * 365 + c_div previous 4 - c_div previous 100 + c_div previous 400)"

definition days_in_month :: "int \<Rightarrow> nat \<Rightarrow> nat" where
  "days_in_month year month =
     (let leap = (c_mod year 4 = 0 \<and> (c_mod year 100 \<noteq> 0 \<or> c_mod year 400 = 0))
      in if month = 2 \<and> leap then 29
         else [31, 28, 31, 30, 31, 30, 31, 31, 30, 31, 30, 31] ! (month - 1))"

definition date_ordinal :: "sqli_date \<Rightarrow> int" where
  "date_ordinal d =
     days_before_year (date_year d) + int (date_day d) - 1 +
     (\<Sum>month \<leftarrow> [1..<date_month d]. int (days_in_month (date_year d) month))"

text \<open>The bytes are the big-endian digits of the 32-bit day number.\<close>

definition date_bytes :: "nat \<Rightarrow> byte list" where
  "date_bytes encoded = map (\<lambda>i. u8 (encoded div 2 ^ (8 * (SQLI_DATE_WIRE_SIZE - 1 - i)))) [0..<SQLI_DATE_WIRE_SIZE]"

definition sqli_date_encode_wire :: "sqli_date option \<Rightarrow> bool \<Rightarrow> nat \<Rightarrow> bool \<Rightarrow> byte list fallible" where
  "sqli_date_encode_wire p bytes_given capacity length_given =
     (if p = None \<or> \<not> bytes_given \<or> \<not> length_given then Inl SQLI_INVALID_ARGUMENT
      else let status = sqli_date_validate p; d = the p
        in if status \<noteq> SQLI_OK then Inl status
      else if capacity < SQLI_DATE_WIRE_SIZE then Inl SQLI_BUFFER_TOO_SMALL
      else Inr (date_bytes
        (if date_is_null d then 2 ^ 31
         else nat ((date_ordinal d - (days_before_year epoch_following_year - 1)) mod 2 ^ 32))))"

text \<open>The binary search for the year; its interval shrinks on every iteration.\<close>

function year_search :: "int \<Rightarrow> int \<Rightarrow> int \<Rightarrow> int" where
  "year_search ordinal low high =
     (if low < high then
        let middle = low + (high - low + 1) div 2
        in if days_before_year middle \<le> ordinal then year_search ordinal middle high
           else year_search ordinal low (middle - 1)
      else low)"
  by pat_completeness auto
termination
  by (relation "measure (\<lambda>(ordinal, low, high). nat (high - low))") auto

declare year_search.simps [simp del]

function month_search :: "int \<Rightarrow> nat \<Rightarrow> nat \<Rightarrow> nat \<times> nat" where
  "month_search year month day =
     (if month < 12 \<and> day \<ge> days_in_month year month
      then month_search year (month + 1) (day - days_in_month year month)
      else (month, day))"
  by pat_completeness auto
termination
  by (relation "measure (\<lambda>(year, month, day). 12 - month)") auto

declare month_search.simps [simp del]

definition date_of_days :: "int \<Rightarrow> sqli_date option \<Rightarrow> sqli_status \<times> sqli_date option" where
  "date_of_days days out =
     (let ordinal = days + days_before_year epoch_following_year - 1
      in if ordinal < 0 \<or> ordinal \<ge> days_before_year (tc_last_year + 1) then (SQLI_PROTO_ERROR, out)
      else let low = year_search ordinal 1 tc_last_year;
               (month, day) = month_search low 1 (nat (ordinal - days_before_year low))
        in sqli_date_set out low (int month) (int day + 1))"

definition sqli_date_decode_wire :: "byte list option \<Rightarrow> sqli_date option \<Rightarrow> sqli_status \<times> sqli_date option" where
  "sqli_date_decode_wire p out =
     (case p of None \<Rightarrow> (SQLI_INVALID_ARGUMENT, out)
      | Some bytes \<Rightarrow>
          if out = None then (SQLI_INVALID_ARGUMENT, out)
          else if length bytes \<noteq> SQLI_DATE_WIRE_SIZE then (SQLI_PROTO_ERROR, out)
          else let encoded = be_value 256 (map unat bytes)
            in if encoded = 2 ^ 31 then sqli_date_set_null out
               else date_of_days (if encoded > 2 ^ 31 - 1 then int encoded - 4294967296 else int encoded) out)"

section \<open>Qualifiers\<close>

record wire_range =
  w_range :: temporal_range
  w_leading_digits :: nat
  w_integral_pairs :: nat
  w_fraction_pairs :: nat
  w_width :: nat
  w_exponent :: int

definition decode_range :: "nat \<Rightarrow> bool \<Rightarrow> wire_range fallible" where
  "decode_range qualifier interval =
     (let digits = qualifier div 256; start = qualifier div 16 mod 16; end_code = qualifier mod 16
      in if start > wire_fraction_start \<or> start mod 2 \<noteq> 0 \<or>
            (end_code \<le> wire_second \<and> (end_code mod 2 \<noteq> 0 \<or> end_code < start)) \<or>
            (start = wire_fraction_start \<and> end_code \<le> wire_second)
      then Inl SQLI_PROTO_ERROR
      else let rng = \<lparr>r_first = start div 2 + SQLI_FIELD_YEAR,
                 r_last = (if end_code > wire_second then SQLI_FIELD_FRACTION else end_code div 2 + SQLI_FIELD_YEAR),
                 r_digits = (if end_code > wire_second then end_code - wire_second else 0)\<rparr>
        in if interval \<and> r_first rng \<le> SQLI_FIELD_MONTH \<and> r_last rng > SQLI_FIELD_MONTH then Inl SQLI_PROTO_ERROR
      else let fraction_pairs = (r_digits rng + 1) div 2;
               result = (\<lambda>leading integral exponent.
                 let width = 1 + integral + fraction_pairs
                 in if width > SQLI_TEMPORAL_WIRE_CAPACITY then Inl SQLI_PROTO_ERROR
                    else Inr \<lparr>w_range = rng, w_leading_digits = leading, w_integral_pairs = integral,
                           w_fraction_pairs = fraction_pairs, w_width = width, w_exponent = exponent\<rparr>)
        in if start = wire_fraction_start then
             (if digits \<noteq> r_digits rng then Inl SQLI_PROTO_ERROR else result 0 0 0)
           else let remaining = end_code - start
             in if digits \<le> remaining then Inl SQLI_PROTO_ERROR
           else let leading = digits - remaining
             in if (if interval then leading > max_leading_digits
                    else leading \<noteq> (if start = 0 then 4 else 2)) then Inl SQLI_PROTO_ERROR
           else let integral_end = (if end_code > wire_second then wire_second else end_code);
                    integral = (leading + 1) div 2 + (integral_end - start) div 2
             in result leading integral (int integral + int ((wire_second - integral_end) div 2)))"

definition sqli_temporal_decode_range :: "nat \<Rightarrow> bool \<Rightarrow> bool \<Rightarrow> temporal_range fallible" where
  "sqli_temporal_decode_range qualifier interval out_given =
     (if \<not> out_given then Inl SQLI_INVALID_ARGUMENT
      else map_sum id w_range (decode_range qualifier interval))"

definition sqli_temporal_wire_size :: "nat \<Rightarrow> bool \<Rightarrow> bool \<Rightarrow> nat fallible" where
  "sqli_temporal_wire_size qualifier interval out_given =
     (if \<not> out_given then Inl SQLI_INVALID_ARGUMENT
      else map_sum id w_width (decode_range qualifier interval))"

section \<open>Unpacking\<close>

record wire_fields =
  wf_fields :: "nat list"
  wf_nanosecond :: nat
  wf_negative :: bool
  wf_is_null :: bool

definition no_fields :: wire_fields where
  "no_fields = \<lparr>wf_fields = replicate 8 0, wf_nanosecond = 0, wf_negative = False, wf_is_null = False\<rparr>"

text \<open>The loop that moves the coefficient to its slots; \<open>count\<close> slots exist.\<close>

fun align_loop :: "nat \<Rightarrow> int \<Rightarrow> byte list \<Rightarrow> byte list \<Rightarrow> byte list fallible" where
  "align_loop count slot [] aligned = Inr aligned"
| "align_loop count slot (c # cs) aligned =
     (if slot < 0 \<or> slot \<ge> int count
      then (if c \<noteq> 0 then Inl SQLI_PROTO_ERROR else align_loop count (slot + 1) cs aligned)
      else align_loop count (slot + 1) cs (aligned[nat slot := c]))"

definition field_pairs :: "wire_range \<Rightarrow> nat \<Rightarrow> nat" where
  "field_pairs r field = (if field = r_first (w_range r) then (w_leading_digits r + 1) div 2 else 1)"

text \<open>The integral fields of a range, none of them when it has only a fraction.\<close>

definition integral_fields :: "wire_range \<Rightarrow> nat list" where
  "integral_fields r =
     [r_first (w_range r)..<Suc (min (r_last (w_range r)) SQLI_FIELD_SECOND)]"

definition join_pairs :: "byte list \<Rightarrow> nat" where
  "join_pairs pairs = foldl (\<lambda>magnitude p. magnitude * pair_base + unat p) 0 pairs"

text \<open>The second component is what is left behind the position.\<close>

fun unpack_fields :: "wire_range \<Rightarrow> nat list \<Rightarrow> byte list \<Rightarrow> nat list \<Rightarrow> nat list \<times> byte list" where
  "unpack_fields r [] aligned flds = (flds, aligned)"
| "unpack_fields r (field # rest) aligned flds =
     (let width = field_pairs r field
      in unpack_fields r rest (drop width aligned) (flds[field := join_pairs (take width aligned)]))"

definition unpack_aligned :: "wire_range \<Rightarrow> bool \<Rightarrow> byte list \<Rightarrow> wire_fields fallible" where
  "unpack_aligned r negative aligned =
     (let (flds, rest) = unpack_fields r (integral_fields r) aligned (replicate 8 0);
          fraction = join_pairs (take (w_fraction_pairs r) rest);
          digits = r_digits (w_range r)
      in if digits mod 2 \<noteq> 0 \<and> fraction mod 10 \<noteq> 0 then Inl SQLI_PROTO_ERROR
      else let fraction = (if digits mod 2 \<noteq> 0 then fraction div 10 else fraction)
        in if w_leading_digits r \<noteq> 0 \<and> flds ! r_first (w_range r) \<ge> power10 (w_leading_digits r)
           then Inl SQLI_PROTO_ERROR
           else Inr \<lparr>wf_fields = flds, wf_nanosecond = u32 (fraction * power10 (9 - digits)),
                  wf_negative = negative, wf_is_null = False\<rparr>)"

definition unpack :: "byte list \<Rightarrow> wire_range \<Rightarrow> wire_fields fallible" where
  "unpack bytes r =
     (if length bytes \<noteq> w_width r then Inl SQLI_PROTO_ERROR
      else if \<forall>b \<in> set bytes. b = 0 then Inr (no_fields\<lparr>wf_is_null := True\<rparr>)
      else let lead = hd bytes; pairs = tl bytes; count = length bytes - 1
        in if \<exists>p \<in> set pairs. unat p \<ge> pair_base then Inl SQLI_PROTO_ERROR
      else let negative = ((lead AND tc_positive_flag) = 0);
               coefficient = (if negative then sqli_base100_radix_complement pairs else pairs)
        in if \<forall>c \<in> set coefficient. c = 0 then
             (if lead = zero_marker then Inr (no_fields\<lparr>wf_negative := negative\<rparr>) else Inl SQLI_PROTO_ERROR)
           else if hd coefficient = 0 then Inl SQLI_PROTO_ERROR
           else let exponent = (if negative then int (unat (lead XOR 0x7f)) - tc_exponent_bias
                                else int (unat (lead AND 0x7f)) - tc_exponent_bias)
             in case align_loop count (w_exponent r - exponent) coefficient
                       (replicate SQLI_TEMPORAL_WIRE_CAPACITY 0) of
                  Inl status \<Rightarrow> Inl status
                | Inr aligned \<Rightarrow> unpack_aligned r negative aligned)"

section \<open>Packing\<close>

definition matching_range :: "temporal_range \<Rightarrow> wire_range \<Rightarrow> bool \<Rightarrow> bool" where
  "matching_range rng target is_null =
     (is_null \<and> r_first rng = SQLI_FIELD_UNKNOWN \<and> r_last rng = SQLI_FIELD_UNKNOWN \<or>
      r_first rng = r_first (w_range target) \<and> r_last rng = r_last (w_range target))"

fun split_pairs :: "nat \<Rightarrow> nat \<Rightarrow> byte list" where
  "split_pairs 0 magnitude = []"
| "split_pairs (Suc width) magnitude = split_pairs width (magnitude div pair_base) @ [u8 (magnitude mod pair_base)]"

definition packed_groups :: "wire_fields \<Rightarrow> wire_range \<Rightarrow> byte list" where
  "packed_groups flds r =
     (let fraction = wf_nanosecond flds div power10 (9 - r_digits (w_range r))
      in concat (map (\<lambda>field. split_pairs (field_pairs r field) (wf_fields flds ! field)) (integral_fields r)) @
         split_pairs (w_fraction_pairs r) (if r_digits (w_range r) mod 2 \<noteq> 0 then fraction * 10 else fraction))"

text \<open>The used prefix of the array \<open>temporary\<close>.\<close>

definition packed_bytes :: "wire_fields \<Rightarrow> wire_range \<Rightarrow> byte list" where
  "packed_bytes flds r =
     (let groups = packed_groups flds r; payload = dropWhile (\<lambda>g. g = 0) groups;
          first = length groups - length payload;
          zeros = (\<lambda>bs. bs @ replicate (w_width r - length bs) 0)
      in if payload = [] then zeros [zero_marker]
         else let lead = tc_positive_flag OR u8 (nat (w_exponent r - int first + tc_exponent_bias));
                  whole = zeros (lead # payload)
           in if wf_negative flds
              then (lead XOR 0xff) # sqli_base100_radix_complement (tl whole)
              else whole)"

definition pack :: "wire_fields \<Rightarrow> wire_range \<Rightarrow> nat \<Rightarrow> byte list fallible" where
  "pack flds r capacity =
     (if \<not> wf_is_null flds \<and> w_leading_digits r \<noteq> 0 \<and>
         wf_fields flds ! r_first (w_range r) \<ge> power10 (w_leading_digits r) then Inl SQLI_OUT_OF_RANGE
      else if \<not> wf_is_null flds \<and> wf_nanosecond flds mod power10 (9 - r_digits (w_range r)) \<noteq> 0
        then Inl SQLI_INEXACT
      else if capacity < w_width r then Inl SQLI_BUFFER_TOO_SMALL
      else Inr (if wf_is_null flds then replicate (w_width r) 0 else packed_bytes flds r))"

section \<open>Datetimes and intervals\<close>

definition sqli_datetime_decode_wire ::
  "byte list option \<Rightarrow> nat \<Rightarrow> sqli_datetime option \<Rightarrow> sqli_status \<times> sqli_datetime option" where
  "sqli_datetime_decode_wire p qualifier out =
     (if p = None \<or> out = None then (SQLI_INVALID_ARGUMENT, out)
      else case decode_range qualifier False of
        Inl status \<Rightarrow> (status, out)
      | Inr r \<Rightarrow>
          (case unpack (the p) r of
             Inl status \<Rightarrow> (SQLI_PROTO_ERROR, out)
           | Inr flds \<Rightarrow>
               if wf_negative flds \<or> wf_fields flds ! SQLI_FIELD_YEAR > nat tc_last_year \<or>
                  (\<exists>field \<in> set [2, 3, 4, 5, 6]. wf_fields flds ! field > 255)
               then (SQLI_PROTO_ERROR, out)
               else let parts = \<lparr>dp_range = w_range r, dp_year = int (wf_fields flds ! SQLI_FIELD_YEAR),
                          dp_month = wf_fields flds ! SQLI_FIELD_MONTH, dp_day = wf_fields flds ! SQLI_FIELD_DAY,
                          dp_hour = wf_fields flds ! SQLI_FIELD_HOUR, dp_minute = wf_fields flds ! SQLI_FIELD_MINUTE,
                          dp_second = wf_fields flds ! SQLI_FIELD_SECOND,
                          dp_nanosecond = wf_nanosecond flds, dp_is_null = wf_is_null flds\<rparr>;
                        (status, out') = sqli_datetime_set_parts out (Some parts)
                 in if status = SQLI_OK then (SQLI_OK, out') else (SQLI_PROTO_ERROR, out')))"

definition sqli_interval_decode_wire ::
  "byte list option \<Rightarrow> nat \<Rightarrow> sqli_interval option \<Rightarrow> sqli_status \<times> sqli_interval option" where
  "sqli_interval_decode_wire p qualifier out =
     (if p = None \<or> out = None then (SQLI_INVALID_ARGUMENT, out)
      else case decode_range qualifier True of
        Inl status \<Rightarrow> (status, out)
      | Inr r \<Rightarrow>
          (case unpack (the p) r of
             Inl status \<Rightarrow> (status, out)
           | Inr flds \<Rightarrow>
               let parts = \<lparr>ip_range = w_range r, ip_years = wf_fields flds ! SQLI_FIELD_YEAR,
                     ip_months = wf_fields flds ! SQLI_FIELD_MONTH, ip_days = wf_fields flds ! SQLI_FIELD_DAY,
                     ip_hours = wf_fields flds ! SQLI_FIELD_HOUR, ip_minutes = wf_fields flds ! SQLI_FIELD_MINUTE,
                     ip_seconds = wf_fields flds ! SQLI_FIELD_SECOND, ip_nanosecond = wf_nanosecond flds,
                     ip_negative = wf_negative flds, ip_is_null = wf_is_null flds\<rparr>;
                   (status, out') = sqli_interval_set_parts out (Some parts)
               in if status = SQLI_OK then (SQLI_OK, out') else (SQLI_PROTO_ERROR, out')))"

definition sqli_datetime_encode_wire ::
  "sqli_datetime option \<Rightarrow> nat \<Rightarrow> bool \<Rightarrow> nat \<Rightarrow> bool \<Rightarrow> byte list fallible" where
  "sqli_datetime_encode_wire p qualifier bytes_given capacity length_given =
     (if p = None \<or> \<not> bytes_given \<or> \<not> length_given then Inl SQLI_INVALID_ARGUMENT
      else case decode_range qualifier False of
        Inl status \<Rightarrow> Inl status
      | Inr r \<Rightarrow>
          (case sqli_datetime_get_parts p of
             Inl status \<Rightarrow> Inl status
           | Inr parts \<Rightarrow>
               if \<not> matching_range (dp_range parts) r (dp_is_null parts) then Inl SQLI_INVALID_ARGUMENT
               else pack \<lparr>wf_fields = [0, nat (dp_year parts mod 2 ^ 64), dp_month parts, dp_day parts,
                            dp_hour parts, dp_minute parts, dp_second parts, 0],
                          wf_nanosecond = dp_nanosecond parts, wf_negative = False, wf_is_null = dp_is_null parts\<rparr>
                      r capacity))"

definition sqli_interval_encode_wire ::
  "sqli_interval option \<Rightarrow> nat \<Rightarrow> bool \<Rightarrow> nat \<Rightarrow> bool \<Rightarrow> byte list fallible" where
  "sqli_interval_encode_wire p qualifier bytes_given capacity length_given =
     (if p = None \<or> \<not> bytes_given \<or> \<not> length_given then Inl SQLI_INVALID_ARGUMENT
      else case decode_range qualifier True of
        Inl status \<Rightarrow> Inl status
      | Inr r \<Rightarrow>
          (case sqli_interval_get_parts p of
             Inl status \<Rightarrow> Inl status
           | Inr parts \<Rightarrow>
               if \<not> matching_range (ip_range parts) r (ip_is_null parts) then Inl SQLI_INVALID_ARGUMENT
               else pack \<lparr>wf_fields = [0, ip_years parts, ip_months parts, ip_days parts,
                            ip_hours parts, ip_minutes parts, ip_seconds parts, 0],
                          wf_nanosecond = ip_nanosecond parts, wf_negative = ip_negative parts,
                          wf_is_null = ip_is_null parts\<rparr> r capacity))"

end
