(* ===== verification/DateWireFacts.thy ===== *)
theory DateWireFacts
  imports TemporalCodec Codecs
begin

text \<open>
  The calendar arithmetic of the DATE wire form: the two searches invert the day number, and the
  valid dates and the day numbers the decoder accepts are in bijection.
\<close>

section \<open>Years\<close>

definition is_leap :: "int \<Rightarrow> bool" where
  "is_leap y \<longleftrightarrow> y mod 4 = 0 \<and> (y mod 100 \<noteq> 0 \<or> y mod 400 = 0)"

lemma leap_year_eq [simp]: "1 \<le> y \<Longrightarrow> leap_year y = is_leap y"
  by (simp add: leap_year_def is_leap_def)

lemma days_before_year_eq:
  "1 \<le> y \<Longrightarrow> days_before_year y = (y - 1) * 365 + (y - 1) div 4 - (y - 1) div 100 + (y - 1) div 400"
  by (simp add: days_before_year_def Let_def)

lemma div_step:
  assumes "0 < k"
  shows "y div k - (y - 1) div k = (if k dvd y then 1 else 0 :: int)"
proof -
  let ?q = "y div k" and ?r = "y mod k"
  have y: "y = k * ?q + ?r" "0 \<le> ?r" "?r < k" using assms by simp_all
  show ?thesis
  proof (cases "k dvd y")
    case True
    then have "y - 1 = k * (?q - 1) + (k - 1)" using y by (simp add: algebra_simps)
    then have "(y - 1) div k = ?q - 1" using assms by (intro int_div_pos_eq [of _ _ _ "k - 1"]) simp_all
    then show ?thesis using True by simp
  next
    case False
    then have "?r \<noteq> 0" by (simp add: mod_eq_0_iff_dvd)
    then have "(y - 1) div k = ?q" using y by (intro int_div_pos_eq [of _ _ _ "?r - 1"]) simp_all
    then show ?thesis using False by simp
  qed
qed

lemma is_leap_dvd: "is_leap y \<longleftrightarrow> 4 dvd y \<and> (\<not> 100 dvd y \<or> 400 dvd y)"
  by (simp only: is_leap_def mod_eq_0_iff_dvd)

lemma year_length:
  assumes "1 \<le> y"
  shows "days_before_year (y + 1) - days_before_year y = (if is_leap y then 366 else 365)"
proof -
  have "days_before_year (y + 1) - days_before_year y =
      365 + (y div 4 - (y - 1) div 4) - (y div 100 - (y - 1) div 100) + (y div 400 - (y - 1) div 400)"
    using assms by (simp add: days_before_year_eq)
  also have "\<dots> = 365 + (if 4 dvd y then 1 else 0) - (if 100 dvd y then 1 else 0) + (if 400 dvd y then 1 else 0)"
    using div_step [of 4 y] div_step [of 100 y] div_step [of 400 y] by presburger
  also have "\<dots> = (if is_leap y then 366 else 365)"
  proof -
    have "400 dvd y \<longrightarrow> 100 dvd y" "100 dvd y \<longrightarrow> 4 dvd y"
      using dvd_trans [of 100 400 y] dvd_trans [of 4 100 y] by (simp_all del: dvd_trans)
    then show ?thesis unfolding is_leap_dvd
      by (cases "4 dvd y"; cases "100 dvd y"; cases "400 dvd y"; simp only: if_True if_False simp_thms; simp)
  qed
  finally show ?thesis .
qed

lemma days_before_year_mono: "1 \<le> a \<Longrightarrow> a \<le> b \<Longrightarrow> days_before_year a \<le> days_before_year b"
proof -
  assume a: "1 \<le> a" and "a \<le> b"
  from this(2) show ?thesis
  proof (induction b rule: int_ge_induct)
    case (step b)
    then show ?case using year_length [of b] a by (simp split: if_splits)
  qed simp
qed

lemma year_search_correct:
  assumes "1 \<le> low" "low \<le> high" "days_before_year low \<le> ordinal" "ordinal < days_before_year (high + 1)"
  shows "low \<le> year_search ordinal low high \<and> year_search ordinal low high \<le> high \<and>
    days_before_year (year_search ordinal low high) \<le> ordinal \<and>
    ordinal < days_before_year (year_search ordinal low high + 1)"
  using assms
proof (induction ordinal low high rule: year_search.induct)
  case (1 ordinal low high)
  show ?case
  proof (cases "low < high")
    case True
    define middle where "middle = low + (high - low + 1) div 2"
    have m: "low < middle" "middle \<le> high" using True by (auto simp: middle_def)
    have step: "year_search ordinal low high =
        (if days_before_year middle \<le> ordinal then year_search ordinal middle high
         else year_search ordinal low (middle - 1))"
      using True by (subst year_search.simps) (simp add: middle_def Let_def)
    show ?thesis
    proof (cases "days_before_year middle \<le> ordinal")
      case le: True
      show ?thesis using 1(1) [OF True middle_def le] 1(3-) m unfolding step by (simp add: le)
    next
      case gt: False
      show ?thesis using 1(2) [OF True middle_def gt] 1(3-) m gt unfolding step by auto
    qed
  next
    case False
    then have "year_search ordinal low high = low" "high = low" using 1(4) by (simp_all add: year_search.simps)
    then show ?thesis using 1(3-) by simp
  qed
qed

lemma year_unique:
  assumes "1 \<le> y" "1 \<le> z" "days_before_year y \<le> n" "n < days_before_year (y + 1)"
    "days_before_year z \<le> n" "n < days_before_year (z + 1)"
  shows "y = z"
  using assms days_before_year_mono [of "y + 1" z] days_before_year_mono [of "z + 1" y] by linarith

section \<open>Months\<close>

definition days_before_month :: "int \<Rightarrow> nat \<Rightarrow> int" where
  "days_before_month y m = (\<Sum>k \<leftarrow> [1..<m]. int (days_in_month y k))"

lemma days_before_month_Suc:
  "1 \<le> m \<Longrightarrow> days_before_month y (Suc m) = days_before_month y m + int (days_in_month y m)"
  by (simp add: days_before_month_def)

lemma days_before_month_1 [simp]: "days_before_month y (Suc 0) = 0"
  by (simp add: days_before_month_def)

lemma days_before_month_mono:
  "1 \<le> m \<Longrightarrow> m \<le> n \<Longrightarrow> days_before_month y m \<le> days_before_month y n"
proof -
  assume m: "1 \<le> m" and "m \<le> n"
  from this(2) show ?thesis
    by (induction n rule: dec_induct) (use m in \<open>simp_all add: days_before_month_Suc\<close>)
qed

lemma days_in_month_eq: "1 \<le> y \<Longrightarrow> days_in_month y m =
    (if m = 2 \<and> is_leap y then 29 else [31, 28, 31, 30, 31, 30, 31, 31, 30, 31, 30, 31] ! (m - 1))"
  by (simp add: days_in_month_def is_leap_def)

lemma days_before_month_13:
  assumes "1 \<le> y"
  shows "days_before_month y 13 = days_before_year (y + 1) - days_before_year y"
proof -
  have "[1..<13] = [1, 2, 3, 4, 5, 6, 7, 8, 9, 10, 11, 12 :: nat]" by code_simp
  then show ?thesis
    unfolding days_before_month_def year_length [OF assms] by (simp add: days_in_month_eq [OF assms])
qed

lemma days_in_month_pos: "1 \<le> y \<Longrightarrow> 1 \<le> m \<Longrightarrow> m \<le> 12 \<Longrightarrow> 0 < days_in_month y m \<and> days_in_month y m \<le> 31"
proof -
  assume "1 \<le> y" "1 \<le> m" "m \<le> 12"
  moreover from this have "m \<in> {1, 2, 3, 4, 5, 6, 7, 8, 9, 10, 11, 12}"
    by (simp only: insert_iff empty_iff) presburger
  ultimately show ?thesis by (auto simp: days_in_month_eq)
qed

lemma month_search_invariant:
  "1 \<le> m \<Longrightarrow> m \<le> 12 \<Longrightarrow> month_search y m d = (m', d') \<Longrightarrow>
   m \<le> m' \<and> m' \<le> 12 \<and> days_before_month y m' + int d' = days_before_month y m + int d \<and>
   (d' < days_in_month y m' \<or> m' = 12)"
proof (induction y m d rule: month_search.induct)
  case (1 y m d)
  show ?case
  proof (cases "m < 12 \<and> d \<ge> days_in_month y m")
    case True
    then have "month_search y (m + 1) (d - days_in_month y m) = (m', d')"
      using 1(4) by (simp add: month_search.simps [of y m d])
    then show ?thesis using 1(1) [OF True] 1(2) True days_before_month_Suc [of m y] by auto
  next
    case False
    then have "m' = m \<and> d' = d" using 1(4) by (auto simp: month_search.simps [of y m d])
    then show ?thesis using False 1(2,3) by auto
  qed
qed

lemma month_search_correct:
  assumes y: "1 \<le> y" and d: "int d < days_before_year (y + 1) - days_before_year y"
    and s: "month_search y 1 d = (m', d')"
  shows "1 \<le> m'" "m' \<le> 12" "d' < days_in_month y m'" "days_before_month y m' + int d' = int d"
proof -
  note inv = month_search_invariant [OF _ _ s]
  show "1 \<le> m'" "m' \<le> 12" "days_before_month y m' + int d' = int d" using inv by simp_all
  show "d' < days_in_month y m'"
  proof (cases "m' = 12")
    case True
    then show ?thesis
      using inv d days_before_month_13 [OF y] days_before_month_Suc [of 12 y] by simp
  qed (use inv in simp)
qed

lemma month_unique:
  assumes "1 \<le> m" "1 \<le> n" "c < days_in_month y m" "d < days_in_month y n"
    "days_before_month y m + int c = days_before_month y n + int d"
  shows "m = n \<and> c = d"
  using assms days_before_month_mono [of "Suc m" n y] days_before_month_mono [of "Suc n" m y]
    days_before_month_Suc [of m y] days_before_month_Suc [of n y]
  by (cases m n rule: linorder_cases) auto

section \<open>Dates and day numbers\<close>

definition date_ok :: "sqli_date \<Rightarrow> bool" where
  "date_ok d \<longleftrightarrow> (if date_is_null d then d = null_date else sqli_date_validate (Some d) = SQLI_OK)"

lemma month_days_eq: "1 \<le> y \<Longrightarrow> month_days m y = days_in_month y m"
  by (simp add: month_days_def days_in_month_eq)

lemma date_valid_iff:
  "\<not> date_is_null d \<Longrightarrow> sqli_date_validate (Some d) = SQLI_OK \<longleftrightarrow>
     1 \<le> date_year d \<and> date_year d \<le> 9999 \<and> 1 \<le> date_month d \<and> date_month d \<le> 12 \<and>
     1 \<le> date_day d \<and> date_day d \<le> days_in_month (date_year d) (date_month d)"
  by (auto simp: sqli_date_validate_def calendar_last_year_def month_days_eq)

lemma date_ordinal_eq:
  "date_ordinal d = days_before_year (date_year d) + days_before_month (date_year d) (date_month d) + (int (date_day d) - 1)"
  by (simp add: date_ordinal_def days_before_month_def)

lemma dby_values: "days_before_year 1 = 0" "days_before_year 1900 = 693595" "days_before_year 10000 = 3652059"
  by (simp_all add: days_before_year_eq)

lemma date_set_ok:
  assumes "1 \<le> y" "y \<le> 9999" "1 \<le> m" "m \<le> 12" "d < days_in_month y m"
  shows "sqli_date_set (Some w) y (int m) (int d + 1) =
    (SQLI_OK, Some \<lparr>date_year = y, date_month = m, date_day = Suc d, date_is_null = False\<rparr>)"
proof -
  have "d < 31" using days_in_month_pos [of y m] assms by simp
  moreover have "sqli_date_validate (Some \<lparr>date_year = y, date_month = m, date_day = Suc d, date_is_null = False\<rparr>) = SQLI_OK"
    using assms by (subst date_valid_iff) simp_all
  ultimately show ?thesis
    using assms by (simp add: sqli_date_set_def Let_def nat_add_distrib)
qed

lemma ordinal_range:
  assumes "\<not> date_is_null d" "sqli_date_validate (Some d) = SQLI_OK"
  shows "0 \<le> date_ordinal d" "date_ordinal d < 3652059"
    "days_before_year (date_year d) \<le> date_ordinal d" "date_ordinal d < days_before_year (date_year d + 1)"
proof -
  note v = assms(2) [unfolded date_valid_iff [OF assms(1)]]
  have m: "0 \<le> days_before_month (date_year d) (date_month d)"
    using days_before_month_mono [of 1 "date_month d"] v by simp
  have "days_before_month (date_year d) (date_month d) + int (days_in_month (date_year d) (date_month d)) \<le>
      days_before_month (date_year d) 13"
    using days_before_month_mono [of "Suc (date_month d)" 13] days_before_month_Suc [of "date_month d"] v by simp
  then show less: "date_ordinal d < days_before_year (date_year d + 1)"
    using v days_before_month_13 [of "date_year d"] by (simp add: date_ordinal_eq)
  show ge: "days_before_year (date_year d) \<le> date_ordinal d" using m v by (simp add: date_ordinal_eq)
  show "0 \<le> date_ordinal d"
    using ge days_before_year_mono [of 1 "date_year d"] v by (simp add: dby_values)
  show "date_ordinal d < 3652059"
    using less days_before_year_mono [of "date_year d + 1" 10000] v by (simp add: dby_values)
qed

lemma date_of_days_result:
  assumes "0 \<le> n" "n < 3652059"
  shows "\<exists>d. date_of_days (n - 693594) (Some w) = (SQLI_OK, Some d) \<and> \<not> date_is_null d \<and>
    sqli_date_validate (Some d) = SQLI_OK \<and> date_ordinal d = n"
proof -
  let ?y = "year_search n 1 9999"
  have y: "1 \<le> ?y" "?y \<le> 9999" "days_before_year ?y \<le> n" "n < days_before_year (?y + 1)"
    using year_search_correct [of 1 9999 n] assms by (simp_all add: dby_values)
  obtain m d where md: "month_search ?y 1 (nat (n - days_before_year ?y)) = (m, d)" by fastforce
  have lt: "int (nat (n - days_before_year ?y)) < days_before_year (?y + 1) - days_before_year ?y" using y by simp
  note ms = month_search_correct [OF y(1) lt md]
  let ?d = "\<lparr>date_year = ?y, date_month = m, date_day = Suc d, date_is_null = False\<rparr>"
  have "date_of_days (n - 693594) (Some w) = (SQLI_OK, Some ?d)"
    using assms md date_set_ok [OF y(1,2) ms(1-3)]
    by (simp add: date_of_days_def tc_last_year_def epoch_following_year_def dby_values)
  moreover have "sqli_date_validate (Some ?d) = SQLI_OK"
    using y ms by (subst date_valid_iff) simp_all
  moreover have "date_ordinal ?d = n" using ms(4) y by (simp add: date_ordinal_eq)
  ultimately show ?thesis by (intro exI [of _ ?d]) simp
qed

lemma date_ordinal_inj:
  assumes "\<not> date_is_null c" "sqli_date_validate (Some c) = SQLI_OK"
    and "\<not> date_is_null d" "sqli_date_validate (Some d) = SQLI_OK" "date_ordinal c = date_ordinal d"
  shows "c = d"
proof -
  note c = assms(2) [unfolded date_valid_iff [OF assms(1)]] and d = assms(4) [unfolded date_valid_iff [OF assms(3)]]
  have y: "date_year c = date_year d"
    using year_unique [of "date_year c" "date_year d" "date_ordinal c"] c d assms(5)
      ordinal_range [OF assms(1,2)] ordinal_range [OF assms(3,4)] by simp
  have "date_month c = date_month d \<and> date_day c - 1 = date_day d - 1"
    using month_unique [of "date_month c" "date_month d" "date_day c - 1" "date_year d" "date_day d - 1"]
      c d assms(5) y by (auto simp: date_ordinal_eq)
  then show ?thesis using c d y assms(1,3) by (cases c; cases d) auto
qed

section \<open>The four bytes\<close>

lemma date_bytes_list: "date_bytes e = [u8 (e div 2 ^ 24), u8 (e div 2 ^ 16), u8 (e div 2 ^ 8), u8 e]"
proof -
  have "[0..<4] = [0, 1, 2, 3 :: nat]" by code_simp
  then show ?thesis by (simp add: date_bytes_def SQLI_DATE_WIRE_SIZE_def)
qed

lemma date_bytes_length [simp]: "length (date_bytes e) = SQLI_DATE_WIRE_SIZE"
  by (simp add: date_bytes_def)

lemma date_bytes_value: "e < 2 ^ 32 \<Longrightarrow> be_value 256 (map unat (date_bytes e)) = e"
proof -
  assume e: "e < 2 ^ 32"
  define a b c where "a = e div 256" and "b = a div 256" and "c = b div 256"
  have "c < 256" using e unfolding a_def b_def c_def by (simp add: less_mult_imp_div_less)
  moreover have "e div 2 ^ 24 = c" "e div 2 ^ 16 = b" "e div 2 ^ 8 = a"
    by (simp_all add: a_def b_def c_def div_mult2_eq [symmetric])
  moreover have "e = a * 256 + e mod 256" "a = b * 256 + a mod 256" "b = c * 256 + b mod 256"
    by (simp_all add: a_def b_def c_def)
  ultimately show ?thesis
    unfolding date_bytes_list by (simp add: be_value_Cons unat_u8_mod)
qed

lemma byte_list_inj: "map unat (xs :: byte list) = map unat ys \<Longrightarrow> xs = ys"
  by (rule map_injective [of unat]) (auto intro: injI simp: word_unat_eq_iff)

lemma date_bytes_of_value:
  assumes "length bs = SQLI_DATE_WIRE_SIZE"
  shows "date_bytes (be_value 256 (map unat bs)) = bs"
proof -
  have ok: "digits_ok 256 (map unat xs)" for xs :: "byte list" by (simp add: digits_ok_def)
  have "be_value 256 (map unat bs) < 2 ^ 32"
    using be_value_less [OF ok, of bs] assms by (simp add: SQLI_DATE_WIRE_SIZE_def)
  then have "be_value 256 (map unat (date_bytes (be_value 256 (map unat bs)))) = be_value 256 (map unat bs)"
    by (rule date_bytes_value)
  then show ?thesis
    using be_value_inj [OF ok ok] assms byte_list_inj by simp
qed

section \<open>The codec\<close>

text \<open>The 32-bit number sent for a date.\<close>

definition day_number :: "sqli_date \<Rightarrow> nat" where
  "day_number d = (if date_is_null d then 2 ^ 31
     else nat ((date_ordinal d - (days_before_year epoch_following_year - 1)) mod 2 ^ 32))"

lemma encode_date:
  "date_ok d \<Longrightarrow> sqli_date_encode_wire (Some d) True 4 True = Inr (date_bytes (day_number d))"
  by (auto simp: sqli_date_encode_wire_def date_ok_def day_number_def SQLI_DATE_WIRE_SIZE_def
      sqli_date_validate_def Let_def null_date_def split: if_splits)

lemma day_number_cases:
  assumes "\<not> date_is_null d" "sqli_date_validate (Some d) = SQLI_OK"
  shows "day_number d < 2 ^ 32" "day_number d \<noteq> 2 ^ 31"
    "(if day_number d > 2 ^ 31 - 1 then int (day_number d) - 4294967296 else int (day_number d)) = date_ordinal d - 693594"
proof -
  let ?x = "date_ordinal d - 693594"
  have x: "-693594 \<le> ?x" "?x < 2958465" using ordinal_range [OF assms] by simp_all
  have "day_number d = nat (?x mod 2 ^ 32)"
    using assms by (simp add: day_number_def epoch_following_year_def dby_values)
  moreover have "?x mod 2 ^ 32 = (if ?x < 0 then ?x + 2 ^ 32 else ?x)"
  proof (cases "?x < 0")
    case True
    have "?x mod 2 ^ 32 = (?x + 2 ^ 32) mod 2 ^ 32" by (rule mod_add_self2 [symmetric])
    also have "\<dots> = ?x + 2 ^ 32" using True x by (intro mod_pos_pos_trivial) simp_all
    finally show ?thesis using True by simp
  qed (use x in simp)
  ultimately show "day_number d < 2 ^ 32" "day_number d \<noteq> 2 ^ 31"
    "(if day_number d > 2 ^ 31 - 1 then int (day_number d) - 4294967296 else int (day_number d)) = ?x"
    using x by (auto split: if_splits)
qed

lemma decode_encoded_date:
  assumes "date_ok d"
  shows "sqli_date_decode_wire (Some (date_bytes (day_number d))) (Some w) = (SQLI_OK, Some d)"
proof (cases "date_is_null d")
  case True
  then have "day_number d = 2 ^ 31" "d = null_date" using assms by (simp_all add: day_number_def date_ok_def)
  then show ?thesis
    using date_bytes_value [of "2 ^ 31"] by (simp add: sqli_date_decode_wire_def sqli_date_set_null_def)
next
  case False
  then have v: "sqli_date_validate (Some d) = SQLI_OK" using assms by (simp add: date_ok_def)
  obtain c where c: "date_of_days (date_ordinal d - 693594) (Some w) = (SQLI_OK, Some c)" "\<not> date_is_null c"
    "sqli_date_validate (Some c) = SQLI_OK" "date_ordinal c = date_ordinal d"
    using date_of_days_result [OF ordinal_range(1,2) [OF False v]] by blast
  then have "c = d" using date_ordinal_inj False v by blast
  then show ?thesis
    using c(1) day_number_cases [OF False v] date_bytes_value [OF day_number_cases(1) [OF False v]]
    by (simp add: sqli_date_decode_wire_def Let_def)
qed

lemma date_of_days_fails: "\<not> (0 \<le> x + 693594 \<and> x + 693594 < 3652059) \<Longrightarrow> date_of_days x (Some w) = (SQLI_PROTO_ERROR, Some w)"
  by (auto simp: date_of_days_def tc_last_year_def epoch_following_year_def dby_values)

lemma decode_date_sound:
  assumes "sqli_date_decode_wire (Some bs) (Some w) = (SQLI_OK, Some d)"
  shows "date_ok d \<and> date_bytes (day_number d) = bs"
proof -
  let ?e = "be_value 256 (map unat bs)"
  let ?x = "if ?e > 2 ^ 31 - 1 then int ?e - 4294967296 else int ?e"
  have len: "length bs = SQLI_DATE_WIRE_SIZE" using assms by (auto simp: sqli_date_decode_wire_def split: if_splits)
  note bs = date_bytes_of_value [OF len]
  have less: "?e < 2 ^ 32"
    using be_value_less [of 256 "map unat bs"] len by (simp add: digits_ok_def SQLI_DATE_WIRE_SIZE_def)
  show ?thesis
  proof (cases "?e = 2 ^ 31")
    case True
    then have "d = null_date"
      using assms len by (simp add: sqli_date_decode_wire_def sqli_date_set_null_def)
    then show ?thesis using bs True by (simp add: date_ok_def null_date_def day_number_def)
  next
    case False
    then have dec: "date_of_days ?x (Some w) = (SQLI_OK, Some d)"
      using assms len by (simp add: sqli_date_decode_wire_def Let_def)
    have "0 \<le> ?x + 693594 \<and> ?x + 693594 < 3652059"
    proof (rule ccontr)
      assume "\<not> (0 \<le> ?x + 693594 \<and> ?x + 693594 < 3652059)"
      then have "date_of_days ?x (Some w) = (SQLI_PROTO_ERROR, Some w)" by (rule date_of_days_fails)
      then show False using dec by (simp only: prod.inject sqli_status.distinct simp_thms)
    qed
    then obtain c where c: "date_of_days ?x (Some w) = (SQLI_OK, Some c)" "\<not> date_is_null c"
      "sqli_date_validate (Some c) = SQLI_OK" "date_ordinal c = ?x + 693594"
      using date_of_days_result [of "?x + 693594" w] by auto
    then have d: "d = c" using dec by simp
    have "(if day_number d > 2 ^ 31 - 1 then int (day_number d) - 4294967296 else int (day_number d)) = ?x"
      unfolding d day_number_cases(3) [OF c(2,3)] c(4) by (rule add_diff_cancel_right')
    then have "day_number d = ?e"
      using less day_number_cases(1) [OF c(2,3)] d by (simp split: if_splits)
    then show ?thesis using bs c d by (simp add: date_ok_def)
  qed
qed

interpretation date_wire: fixed_codec
  "\<lambda>d. date_bytes (day_number d)"
  "\<lambda>bs. case sqli_date_decode_wire (Some bs) (Some null_date) of
     (status, out) \<Rightarrow> (if status = SQLI_OK then Inr (the out) else Inl status)"
  SQLI_DATE_WIRE_SIZE date_ok
proof unfold_locales
  show "0 < SQLI_DATE_WIRE_SIZE" by (simp add: SQLI_DATE_WIRE_SIZE_def)
  show "length (date_bytes (day_number d)) = SQLI_DATE_WIRE_SIZE" for d by (rule date_bytes_length)
  show "(case sqli_date_decode_wire (Some (date_bytes (day_number d))) (Some null_date) of
     (status, out) \<Rightarrow> (if status = SQLI_OK then Inr (the out) else Inl status)) = Inr d" if "date_ok d" for d
    unfolding decode_encoded_date [OF that] by simp
qed

text \<open>
  C29. The DATE wire codec is a bijection: the decoder returns a date from four bytes exactly
  when the date is valid (or NULL) and its encoding is these four bytes. So no day number has two
  dates, no date two encodings, and nothing else is accepted.
\<close>

theorem date_wire_bijection:
  "sqli_date_decode_wire (Some bs) (Some w) = (SQLI_OK, Some d) \<longleftrightarrow>
     date_ok d \<and> sqli_date_encode_wire (Some d) True SQLI_DATE_WIRE_SIZE True = Inr bs"
  (is "?dec \<longleftrightarrow> date_ok d \<and> ?enc")
proof -
  have "?enc \<longleftrightarrow> date_bytes (day_number d) = bs" if "date_ok d"
    unfolding SQLI_DATE_WIRE_SIZE_def encode_date [OF that] by simp
  moreover have "?dec \<Longrightarrow> date_ok d \<and> date_bytes (day_number d) = bs" by (rule decode_date_sound)
  moreover have "date_ok d \<Longrightarrow> date_bytes (day_number d) = bs \<Longrightarrow> ?dec"
    using decode_encoded_date [of d w] by (simp only:)
  ultimately show ?thesis by blast
qed

definition sample_date :: sqli_date where
  "sample_date = \<lparr>date_year = 2000, date_month = 2, date_day = 29, date_is_null = False\<rparr>"

lemma sample_date_ok: "date_ok sample_date"
proof -
  have "\<not> date_is_null sample_date" by (simp add: sample_date_def)
  then show ?thesis
    unfolding date_ok_def by (simp add: date_valid_iff) (simp add: sample_date_def days_in_month_def)
qed

text \<open>
  A column of dates sent back to back has one reading: two lists of valid dates whose
  encodings concatenate to the same bytes are equal.
\<close>

theorem date_column_unambiguous:
  assumes "list_all date_ok xs" "list_all date_ok ys"
    and "concat (map (\<lambda>d. projr (sqli_date_encode_wire (Some d) True 4 True)) xs) =
         concat (map (\<lambda>d. projr (sqli_date_encode_wire (Some d) True 4 True)) ys)"
  shows "xs = ys"
proof (rule date_wire.stream_unique [OF assms(1,2)])
  have eq: "map (\<lambda>d. projr (sqli_date_encode_wire (Some d) True 4 True)) zs = map (\<lambda>d. date_bytes (day_number d)) zs"
    if "list_all date_ok zs" for zs
    using that by (induction zs) (simp_all add: encode_date)
  show "concat (map (\<lambda>d. date_bytes (day_number d)) xs) = concat (map (\<lambda>d. date_bytes (day_number d)) ys)"
    using assms(3) unfolding eq [OF assms(1)] eq [OF assms(2)] .
qed

theorem date_column_unambiguous_witness:
  "concat (map (\<lambda>d. projr (sqli_date_encode_wire (Some d) True 4 True)) [null_date, sample_date]) \<noteq>
   concat (map (\<lambda>d. projr (sqli_date_encode_wire (Some d) True 4 True)) [sample_date, null_date])"
proof -
  have "[null_date, sample_date] \<noteq> [sample_date, null_date]" by (simp add: null_date_def sample_date_def)
  moreover have "date_ok null_date" by (simp add: date_ok_def null_date_def)
  ultimately show ?thesis
    using date_column_unambiguous [of "[null_date, sample_date]" "[sample_date, null_date]"] sample_date_ok by auto
qed

end
