(* ===== verification/TemporalWireFacts.thy ===== *)
theory TemporalWireFacts
  imports DecimalCodecFacts TemporalCodec TemporalFacts
begin

text \<open>
  The base-100 wire form of datetimes and intervals: unpacking inverts packing, for every
  qualifier the decoder accepts.
\<close>

section \<open>Pairs\<close>

lemma power10_eq: "k \<le> 9 \<Longrightarrow> power10 k = 10 ^ k"
proof (induction k)
  case (Suc k)
  have "(10 :: nat) ^ Suc k \<le> 10 ^ 9" using Suc.prems by (intro power_increasing) simp_all
  then have "power10 k * 10 < 2 ^ 32" using Suc by simp
  then show ?case using Suc by (simp add: u32_id)
qed simp

lemma split_pairs_length [simp]: "length (split_pairs w m) = w"
  by (induction w arbitrary: m) simp_all

lemma split_pairs_ok [simp]: "groups_ok (split_pairs w m)"
  by (induction w arbitrary: m) (simp_all add: groups_ok_def pair_base_def unat_u8)

lemma join_pairs_snoc [simp]: "join_pairs (ps @ [p]) = join_pairs ps * 100 + unat p"
  by (simp add: join_pairs_def pair_base_def)

lemma join_pairs_Nil [simp]: "join_pairs [] = 0"
  by (simp add: join_pairs_def)

lemma join_split_pairs: "m < 100 ^ w \<Longrightarrow> join_pairs (split_pairs w m) = m"
  by (induction w arbitrary: m) (simp_all add: pair_base_def unat_u8 less_mult_imp_div_less)

lemma join_pairs_value: "join_pairs ps = groups_value ps"
  by (induction ps rule: rev_induct) (simp_all add: groups_value_def)

lemma split_pairs_zero: "m < 100 ^ w \<Longrightarrow> (\<forall>g \<in> set (split_pairs w m). g = 0) \<longleftrightarrow> m = 0"
proof -
  assume m: "m < 100 ^ w"
  have "(\<forall>g \<in> set ps. g = 0) \<longleftrightarrow> groups_value ps = 0" for ps
    by (induction ps rule: rev_induct) (auto simp: groups_value_def unat_eq_0)
  then show ?thesis using join_split_pairs [OF m] by (simp add: join_pairs_value)
qed

section \<open>Aligning\<close>

lemma align_loop_zeros:
  "int count \<le> slot \<Longrightarrow> align_loop count slot (replicate n 0) slots = Inr slots"
  by (induction n arbitrary: slot) simp_all

lemma align_loop_fill:
  "s + length xs = count \<Longrightarrow> count \<le> length slots \<Longrightarrow>
   align_loop count (int s) (xs @ replicate n 0) slots =
     Inr (take s slots @ xs @ drop count slots)"
proof (induction xs arbitrary: s slots)
  case Nil
  then show ?case using align_loop_zeros [of count "int s"] by simp
next
  case (Cons x xs)
  have "align_loop count (int (Suc s)) (xs @ replicate n 0) (slots[s := x]) =
      Inr (take (Suc s) (slots[s := x]) @ xs @ drop count (slots[s := x]))"
    using Cons.prems by (intro Cons.IH) simp_all
  moreover have "take (Suc s) (slots[s := x]) = take s slots @ [x]"
    using Cons.prems by (simp add: take_Suc_conv_app_nth)
  ultimately show ?case using Cons.prems by (simp add: add.commute)
qed

section \<open>Fields\<close>

definition pairs_fit :: "wire_range \<Rightarrow> wire_fields \<Rightarrow> bool" where
  "pairs_fit r flds \<longleftrightarrow> (\<forall>f \<in> set (integral_fields r). wf_fields flds ! f < 100 ^ field_pairs r f)"

lemma unpack_fields_split:
  "(\<And>f. f \<in> set fs \<Longrightarrow> v ! f < 100 ^ field_pairs r f) \<Longrightarrow>
   unpack_fields r fs (concat (map (\<lambda>f. split_pairs (field_pairs r f) (v ! f)) fs) @ rest) acc =
     (fold (\<lambda>f acc. acc[f := v ! f]) fs acc, rest)"
  by (induction fs arbitrary: acc) (simp_all add: join_split_pairs)

lemma fold_update_length [simp]: "length (fold (\<lambda>f acc. acc[f := g f]) fs acc) = length acc"
  by (induction fs arbitrary: acc) simp_all

lemma fold_update_nth:
  "i < length acc \<Longrightarrow> fold (\<lambda>f acc. acc[f := g f]) fs acc ! i = (if i \<in> set fs then g i else acc ! i)"
  by (induction fs arbitrary: acc) (auto simp: nth_list_update)

section \<open>Qualifiers\<close>

definition range_wf :: "wire_range \<Rightarrow> bool \<Rightarrow> bool" where
  "range_wf r interval \<longleftrightarrow> range_ok (w_range r) interval \<and> r_digits (w_range r) \<le> 5 \<and>
     w_width r = 1 + w_integral_pairs r + w_fraction_pairs r \<and> w_width r \<le> 12 \<and>
     w_fraction_pairs r = (r_digits (w_range r) + 1) div 2 \<and>
     0 \<le> w_exponent r \<and> w_exponent r \<le> 20 \<and>
     (if r_first (w_range r) = 7 then w_leading_digits r = 0 \<and> w_integral_pairs r = 0
      else 1 \<le> w_leading_digits r \<and> w_leading_digits r \<le> 9 \<and>
        w_integral_pairs r = (w_leading_digits r + 1) div 2 + (min (r_last (w_range r)) 6 - r_first (w_range r)) \<and>
        (\<not> interval \<longrightarrow> w_leading_digits r = (if r_first (w_range r) = 1 then 4 else 2)))"

lemma decode_range_wf:
  assumes "decode_range q interval = Inr r"
  shows "range_wf r interval"
proof -
  define digits start en where "digits = q div 256" and "start = q div 16 mod 16" and "en = q mod 16"
  have en: "en \<le> 15" by (simp add: en_def)
  define rng where "rng = \<lparr>r_first = start div 2 + 1, r_last = (if en > 10 then 7 else en div 2 + 1),
      r_digits = (if en > 10 then en - 10 else 0)\<rparr>"
  have g: "\<not> (start > 12 \<or> start mod 2 \<noteq> 0 \<or> (en \<le> 10 \<and> (en mod 2 \<noteq> 0 \<or> en < start)) \<or> (start = 12 \<and> en \<le> 10))"
    "\<not> (interval \<and> r_first rng \<le> 2 \<and> r_last rng > 2)"
    using assms
    by (auto simp: decode_range_def Let_def wire_second_def wire_fraction_start_def field_defs
        digits_def start_def en_def rng_def split: if_splits)
  obtain k where k: "start = 2 * k" "k \<le> 6" using g(1) by (metis evenE even_iff_mod_2_eq_zero mult_le_cancel1 not_le
        numeral_Bit0_eq_double zero_less_numeral)
  have rok: "range_ok rng interval" "r_digits rng \<le> 5" "r_first rng = k + 1"
    using g k en by (auto simp: rng_def range_ok_def)
  show ?thesis
  proof (cases "start = 12")
    case True
    then have "r = \<lparr>w_range = rng, w_leading_digits = 0, w_integral_pairs = 0,
        w_fraction_pairs = (r_digits rng + 1) div 2, w_width = 1 + (r_digits rng + 1) div 2, w_exponent = 0\<rparr>"
      using assms g unfolding decode_range_def Let_def digits_def [symmetric] start_def [symmetric] en_def [symmetric]
        wire_second_def wire_fraction_start_def field_defs rng_def
      by (simp split: if_splits)
    then show ?thesis using rok True k by (simp add: range_wf_def)
  next
    case False
    define leading where "leading = digits - (en - start)"
    define ie where "ie = (if en > 10 then 10 else en)"
    define integral where "integral = (leading + 1) div 2 + (ie - start) div 2"
    have *: "\<not> digits \<le> en - start" "if interval then leading \<le> 9 else leading = (if start = 0 then 4 else 2)"
      "1 + integral + (r_digits rng + 1) div 2 \<le> 12"
      "r = \<lparr>w_range = rng, w_leading_digits = leading, w_integral_pairs = integral,
        w_fraction_pairs = (r_digits rng + 1) div 2, w_width = 1 + integral + (r_digits rng + 1) div 2,
        w_exponent = int integral + int ((10 - ie) div 2)\<rparr>"
      using assms g False unfolding decode_range_def Let_def digits_def [symmetric] start_def [symmetric] en_def [symmetric]
        wire_second_def wire_fraction_start_def field_defs leading_def [symmetric] ie_def [symmetric]
        integral_def [symmetric] rng_def SQLI_TEMPORAL_WIRE_CAPACITY_def max_leading_digits_def
      by (cases interval; simp split: if_splits)+
    have l: "1 \<le> leading" "leading \<le> 9" using *(1,2) by (auto simp: leading_def split: if_splits)
    have "(ie - start) div 2 = min (r_last rng) 6 - (k + 1)"
      using g(1) k False by (auto simp: ie_def rng_def)
    then have i: "integral = (leading + 1) div 2 + (min (r_last rng) 6 - r_first rng)"
      by (simp add: integral_def rok(3))
    have "int ((10 - ie) div 2) \<le> 5" by simp
    then show ?thesis
      using *(2-4) rok l i k False by (auto simp: range_wf_def split: if_splits)
  qed
qed

lemma integral_pairs_sum:
  assumes "range_wf r interval"
  shows "(\<Sum>f \<leftarrow> integral_fields r. field_pairs r f) = w_integral_pairs r"
proof (cases "r_first (w_range r) = 7")
  case True
  then show ?thesis using assms by (simp add: range_wf_def integral_fields_def field_defs)
next
  case False
  let ?a = "r_first (w_range r)" and ?b = "min (r_last (w_range r)) 6"
  have ab: "?a \<le> ?b" using assms False by (auto simp: range_wf_def range_ok_def)
  have "map (field_pairs r) [Suc ?a..<Suc ?b] = replicate (?b - ?a) 1"
    by (rule replicate_eqI) (auto simp: field_pairs_def)
  then have "(\<Sum>f \<leftarrow> [Suc ?a..<Suc ?b]. field_pairs r f) = ?b - ?a" by (simp add: sum_list_replicate)
  moreover have "integral_fields r = ?a # [Suc ?a..<Suc ?b]"
    unfolding integral_fields_def field_defs by (rule upt_conv_Cons, rule le_imp_less_Suc, rule ab)
  ultimately show ?thesis using assms False by (simp add: range_wf_def field_pairs_def)
qed

lemma packed_groups_length:
  assumes "range_wf r interval"
  shows "length (packed_groups flds r) = w_width r - 1"
proof -
  have "w_width r = 1 + w_integral_pairs r + w_fraction_pairs r" using assms by (simp add: range_wf_def)
  then show ?thesis
    using integral_pairs_sum [OF assms] by (simp add: packed_groups_def Let_def length_concat comp_def)
qed

lemma packed_groups_ok: "groups_ok (packed_groups flds r)"
proof -
  have "groups_ok (concat gss)" if "\<forall>gs \<in> set gss. groups_ok gs" for gss
    using that by (induction gss) auto
  then show ?thesis by (simp add: packed_groups_def Let_def)
qed

section \<open>Unpacking what was packed\<close>

definition packable :: "wire_range \<Rightarrow> bool \<Rightarrow> wire_fields \<Rightarrow> bool" where
  "packable r interval flds \<longleftrightarrow> range_wf r interval \<and> pairs_fit r flds \<and> length (wf_fields flds) = 8 \<and>
     (\<forall>i < 8. i \<notin> set (integral_fields r) \<longrightarrow> wf_fields flds ! i = 0) \<and>
     wf_nanosecond flds < 10 ^ 9 \<and> wf_nanosecond flds mod 10 ^ (9 - r_digits (w_range r)) = 0 \<and>
     (w_leading_digits r \<noteq> 0 \<longrightarrow> wf_fields flds ! r_first (w_range r) < 10 ^ w_leading_digits r)"

definition wire_fraction :: "wire_range \<Rightarrow> wire_fields \<Rightarrow> nat" where
  "wire_fraction r flds =
     (let fraction = wf_nanosecond flds div 10 ^ (9 - r_digits (w_range r))
      in if odd (r_digits (w_range r)) then fraction * 10 else fraction)"

lemma wire_fraction_less:
  assumes "packable r interval flds"
  shows "wire_fraction r flds < 100 ^ w_fraction_pairs r"
proof -
  let ?d = "r_digits (w_range r)" and ?q = "wf_nanosecond flds div 10 ^ (9 - r_digits (w_range r))"
  have d: "?d \<le> 5" "w_fraction_pairs r = (?d + 1) div 2" using assms by (simp_all add: packable_def range_wf_def)
  have "wf_nanosecond flds < 10 ^ ?d * 10 ^ (9 - ?d)" using assms d by (simp add: packable_def flip: power_add)
  then have q: "?q < 10 ^ ?d" by (simp add: div_less_iff_less_mult)
  have "(100 :: nat) ^ w_fraction_pairs r = 10 ^ (2 * w_fraction_pairs r)" by (simp add: power_mult)
  also have "2 * w_fraction_pairs r = (if odd ?d then Suc ?d else ?d)" using d(2) by (auto elim: oddE)
  finally show ?thesis using q by (auto simp: wire_fraction_def)
qed

lemma packed_groups_eq:
  assumes "packable r interval flds"
  shows "packed_groups flds r =
    concat (map (\<lambda>f. split_pairs (field_pairs r f) (wf_fields flds ! f)) (integral_fields r)) @
    split_pairs (w_fraction_pairs r) (wire_fraction r flds)"
  by (simp add: packed_groups_def wire_fraction_def power10_eq odd_iff_mod_2_eq_one Let_def)

lemma fields_restored:
  assumes "packable r interval flds"
  shows "fold (\<lambda>f acc. acc[f := wf_fields flds ! f]) (integral_fields r) (replicate 8 0) = wf_fields flds"
  using assms by (intro nth_equalityI) (auto simp: packable_def fold_update_nth)

lemma unpack_aligned_packed:
  assumes p: "packable r interval flds"
  shows "unpack_aligned r negative (packed_groups flds r @ rest) =
    Inr \<lparr>wf_fields = wf_fields flds, wf_nanosecond = wf_nanosecond flds, wf_negative = negative, wf_is_null = False\<rparr>"
proof -
  let ?d = "r_digits (w_range r)" and ?q = "wf_nanosecond flds div 10 ^ (9 - r_digits (w_range r))"
  have fit: "f \<in> set (integral_fields r) \<Longrightarrow> wf_fields flds ! f < 100 ^ field_pairs r f" for f
    using p by (simp add: packable_def pairs_fit_def)
  have u: "unpack_fields r (integral_fields r) (packed_groups flds r @ rest) (replicate 8 0) =
      (wf_fields flds, split_pairs (w_fraction_pairs r) (wire_fraction r flds) @ rest)"
    using unpack_fields_split [of "integral_fields r" "wf_fields flds" r, OF fit]
    by (simp add: packed_groups_eq [OF p] fields_restored [OF p])
  have f: "join_pairs (take (w_fraction_pairs r) (split_pairs (w_fraction_pairs r) (wire_fraction r flds) @ rest)) =
      wire_fraction r flds"
    by (simp add: join_split_pairs [OF wire_fraction_less [OF p]])
  have q: "?q * 10 ^ (9 - ?d) = wf_nanosecond flds"
    using p by (simp add: packable_def mod_eq_0_iff_dvd)
  have l: "\<not> (w_leading_digits r \<noteq> 0 \<and> power10 (w_leading_digits r) \<le> wf_fields flds ! r_first (w_range r))"
    using p by (auto simp: packable_def range_wf_def power10_eq split: if_splits)
  have "u32 (wf_nanosecond flds) = wf_nanosecond flds" using p by (simp add: packable_def u32_id)
  then show ?thesis
    unfolding unpack_aligned_def u f Let_def prod.case using q l
    by (cases "odd ?d") (simp_all add: wire_fraction_def power10_eq odd_iff_mod_2_eq_one even_iff_mod_2_eq_zero Let_def)
qed

lemma leading_zeros: "xs = replicate (length xs - length (dropWhile (\<lambda>g. g = 0) xs)) 0 @ dropWhile (\<lambda>g. g = 0) xs"
proof -
  have "takeWhile (\<lambda>g. g = 0) xs = replicate (length (takeWhile (\<lambda>g. g = 0) xs)) 0"
    by (rule replicate_eqI) (auto dest: set_takeWhileD)
  moreover have "length (takeWhile (\<lambda>g. g = 0) xs) = length xs - length (dropWhile (\<lambda>g. g = 0) xs)"
  proof -
    have "length (takeWhile (\<lambda>g. g = 0) xs) + length (dropWhile (\<lambda>g. g = 0) xs) = length xs"
      by (metis length_append takeWhile_dropWhile_id)
    then show ?thesis by simp
  qed
  ultimately show ?thesis using takeWhile_dropWhile_id [of "\<lambda>g. g = 0" xs] by metis
qed

lemma lead_byte_nonzero: "n < 127 \<Longrightarrow> lead_byte neg n \<noteq> 0"
proof
  assume n: "n < 127" and z: "lead_byte neg n = 0"
  show False
  proof (cases neg)
    case True
    then have "unat (0 XOR 0x7f :: byte) = n" using lead_byte_props(3) [of n] n z by simp
    then show False using n by simp
  qed (use z n lead_byte_props(4) [of n] in simp)
qed

lemma unpack_packed:
  assumes p: "packable r interval flds" and nz: "\<exists>g \<in> set (packed_groups flds r). g \<noteq> 0"
  shows "unpack (packed_bytes flds r) r =
    Inr \<lparr>wf_fields = wf_fields flds, wf_nanosecond = wf_nanosecond flds, wf_negative = wf_negative flds, wf_is_null = False\<rparr>"
proof -
  let ?G = "packed_groups flds r" and ?neg = "wf_negative flds"
  let ?P = "dropWhile (\<lambda>g. g = 0) ?G"
  define s where "s = length ?G - length ?P"
  define n where "n = w_width r - 1"
  have wf: "range_wf r interval" using p by (simp add: packable_def)
  have w: "w_width r = Suc n" "n \<le> 11" using wf by (auto simp: n_def range_wf_def)
  have len: "length ?G = n" using packed_groups_length [OF wf] n_def by simp
  have G: "?G = replicate s 0 @ ?P" unfolding s_def by (rule leading_zeros)
  have ne: "?P \<noteq> []" using nz by (simp add: dropWhile_eq_Nil_conv)
  then have hd: "hd ?P \<noteq> 0" using hd_dropWhile by blast
  have sl: "s + length ?P = n" using G len by (metis length_append length_replicate)
  then have sn: "s < n" using ne by (metis add_less_cancel_left length_greater_0_conv nat_arith.rule0)
  define k where "k = nat (w_exponent r - int s + 64)"
  have k: "k < 127" "int k = w_exponent r - int s + 64" using wf w sn by (auto simp: k_def range_wf_def)
  define Q where "Q = ?P @ replicate s 0"
  have Q: "groups_ok Q" "length Q = n" "hd Q = hd ?P" "Q \<noteq> []"
    using packed_groups_ok [of flds r] G sl ne by (auto simp: Q_def groups_ok_def dest: set_dropWhileD)
  define R where "R = (if ?neg then sqli_base100_radix_complement Q else Q)"
  have R: "groups_ok R" "length R = n" using Q by (simp_all add: R_def)
  have restored: "(if ?neg then sqli_base100_radix_complement R else R) = Q" using Q by (simp add: R_def)
  have bytes: "packed_bytes flds r = lead_byte ?neg k # R"
    using ne sl w unfolding packed_bytes_def Let_def s_def [symmetric] R_def Q_def
    by (auto simp: lead_byte_def positive_flag_def tc_positive_flag_def tc_exponent_bias_def k_def u8_def
        sl [symmetric])
  note lb = lead_byte_props [of k, unfolded positive_flag_def]
  have flag: "(lead_byte ?neg k AND tc_positive_flag) = 0 \<longleftrightarrow> ?neg"
    using lb(1) [of ?neg] k by (simp add: tc_positive_flag_def u8_def)
  have range: "\<not> (\<exists>p \<in> set R. pair_base \<le> unat p)" using R(1) by (auto simp: groups_ok_def pair_base_def not_le)
  have nz0: "\<not> (\<forall>c \<in> set Q. c = 0)" using hd Q by (metis list.set_sel(1))
  have ex: "w_exponent r - (if ?neg then int (unat (lead_byte ?neg k XOR 0x7f)) - tc_exponent_bias
      else int (unat (lead_byte ?neg k AND 0x7f)) - tc_exponent_bias) = int s"
    using lb(2,3) k by (simp add: tc_exponent_bias_def)
  have al: "align_loop n (int s) Q (replicate SQLI_TEMPORAL_WIRE_CAPACITY 0) =
      Inr (?G @ replicate (12 - n) 0)"
    unfolding Q_def using align_loop_fill [of s ?P n "replicate 12 0" s] sl w G
    by (simp add: SQLI_TEMPORAL_WIRE_CAPACITY_def del: replicate.simps) 
  show ?thesis
    unfolding unpack_def bytes list.sel Let_def flag restored if_not_P [OF nz0]
    using R(2) w range nz0 Q(3) hd lead_byte_nonzero [OF k(1)] ex al unpack_aligned_packed [OF p]
    by simp
qed

lemma join_pairs_zero: "\<forall>g \<in> set ps. g = 0 \<Longrightarrow> join_pairs ps = 0"
  by (induction ps rule: rev_induct) simp_all

lemma packed_zero:
  assumes p: "packable r interval flds" and z: "\<not> (\<exists>g \<in> set (packed_groups flds r). g \<noteq> 0)"
  shows "wf_fields flds = replicate 8 0" "wf_nanosecond flds = 0" "unpack (packed_bytes flds r) r = Inr no_fields"
proof -
  let ?neg = "wf_negative flds" and ?G = "packed_groups flds r"
  have wf: "range_wf r interval" using p by (simp add: packable_def)
  have "\<forall>g \<in> set (split_pairs (field_pairs r f) (wf_fields flds ! f)). g = 0" if "f \<in> set (integral_fields r)" for f
    using z that by (auto simp: packed_groups_eq [OF p])
  then have "wf_fields flds ! f = 0" if "f \<in> set (integral_fields r)" for f
    using that p split_pairs_zero [of "wf_fields flds ! f" "field_pairs r f"]
    by (simp add: packable_def pairs_fit_def)
  then have "wf_fields flds ! i = 0" if "i < 8" for i
    using that p by (cases "i \<in> set (integral_fields r)") (simp_all add: packable_def)
  then show "wf_fields flds = replicate 8 0" using p by (intro nth_equalityI) (simp_all add: packable_def)
  have "wire_fraction r flds = 0"
    using z split_pairs_zero [OF wire_fraction_less [OF p]] by (auto simp: packed_groups_eq [OF p])
  then have "wf_nanosecond flds div 10 ^ (9 - r_digits (w_range r)) = 0"
    by (simp add: wire_fraction_def Let_def split: if_splits)
  moreover have "wf_nanosecond flds mod 10 ^ (9 - r_digits (w_range r)) = 0" using p by (simp add: packable_def)
  ultimately show "wf_nanosecond flds = 0" by (metis div_mult_mod_eq add_0 mult_0)
  have w: "w_width r = Suc (w_width r - 1)" using wf by (simp add: range_wf_def)
  have "dropWhile (\<lambda>g. g = 0) ?G = []" using z by (simp add: dropWhile_eq_Nil_conv)
  then have "packed_bytes flds r = zero_marker # replicate (w_width r - 1) 0"
    unfolding packed_bytes_def Let_def by simp
  moreover have "sqli_base100_radix_complement (replicate k 0) = replicate k 0" for k
  proof (rule groups_value_inj)
    have ok: "groups_ok (replicate k 0)" by (simp add: groups_ok_def)
    then show "groups_ok (sqli_base100_radix_complement (replicate k 0))" "groups_ok (replicate k 0)" by simp_all
    have "groups_value (replicate k 0) = 0" by (simp add: groups_value_def be_value_def rev_replicate)
    then show "groups_value (sqli_base100_radix_complement (replicate k 0)) = groups_value (replicate k 0)"
      by (simp add: complement_value [OF ok])
  qed simp
  ultimately show "unpack (packed_bytes flds r) r = Inr no_fields"
    using w by (simp add: unpack_def Let_def zero_marker_def tc_positive_flag_def no_fields_def pair_base_def)
qed

lemma pack_round_trip:
  assumes e: "pack flds r capacity = Inr bytes" and r: "range_wf r interval"
    and p: "\<not> wf_is_null flds \<Longrightarrow>
      w_leading_digits r \<noteq> 0 \<longrightarrow> wf_fields flds ! r_first (w_range r) < 10 ^ w_leading_digits r \<Longrightarrow>
      wf_nanosecond flds mod 10 ^ (9 - r_digits (w_range r)) = 0 \<Longrightarrow> packable r interval flds"
    and neg: "wf_negative flds \<Longrightarrow> \<not> wf_is_null flds \<and> (wf_fields flds \<noteq> replicate 8 0 \<or> wf_nanosecond flds \<noteq> 0)"
  shows "length bytes = w_width r \<and> w_width r \<le> capacity \<and>
     unpack bytes r = Inr (if wf_is_null flds then no_fields\<lparr>wf_is_null := True\<rparr> else flds) \<and>
     (\<not> wf_is_null flds \<longrightarrow> packable r interval flds)"
proof (cases "wf_is_null flds")
  case True
  then show ?thesis using e by (auto simp: pack_def unpack_def split: if_splits)
next
  case False
  have l9: "w_leading_digits r \<le> 9" "r_digits (w_range r) \<le> 5" using r by (auto simp: range_wf_def split: if_splits)
  have pk: "packable r interval flds"
    using e False l9 by (intro p) (auto simp: pack_def power10_eq split: if_splits)
  have b: "bytes = packed_bytes flds r" "w_width r \<le> capacity" using e False by (auto simp: pack_def split: if_splits)
  have u: "unpack bytes r = Inr flds"
  proof (cases "\<exists>g \<in> set (packed_groups flds r). g \<noteq> 0")
    case True
    then show ?thesis using unpack_packed [OF pk True] False b by (cases flds) simp
  next
    case z: False
    have "flds = no_fields"
      using packed_zero(1,2) [OF pk z] neg False by (cases flds) (auto simp: no_fields_def)
    then show ?thesis using packed_zero(3) [OF pk z] b by simp
  qed
  have "length (packed_bytes flds r) = w_width r"
    using u b by (auto simp: unpack_def split: if_splits)
  then show ?thesis using u b False pk by simp
qed

lemma fields_packable:
  assumes ok: "fields_ok tf interval" and r: "range_wf r interval"
    and m: "r_first (tf_range tf) = r_first (w_range r)" "r_last (tf_range tf) = r_last (w_range r)"
    and f: "wf_fields flds = tf_integral tf" "wf_nanosecond flds = tf_nanosecond tf"
    and l: "w_leading_digits r \<noteq> 0 \<longrightarrow> wf_fields flds ! r_first (w_range r) < 10 ^ w_leading_digits r"
    and d: "wf_nanosecond flds mod 10 ^ (9 - r_digits (w_range r)) = 0"
  shows "packable r interval flds"
proof -
  have rng: "1 \<le> r_first (w_range r)" "r_first (w_range r) \<le> r_last (w_range r)" "r_last (w_range r) \<le> 7"
    using r by (auto simp: range_wf_def range_ok_def)
  have in_fields: "i \<in> set (integral_fields r) \<longleftrightarrow> r_first (w_range r) \<le> i \<and> i \<le> r_last (w_range r) \<and> i \<le> 6" for i
    by (auto simp: integral_fields_def field_defs)
  have "tf_integral tf ! i < 100 ^ field_pairs r i" if i: "i \<in> set (integral_fields r)" for i
  proof (cases "i = r_first (w_range r)")
    case True
    then have lead: "w_leading_digits r \<noteq> 0" using r i in_fields by (auto simp: range_wf_def split: if_splits)
    have "tf_integral tf ! i < 10 ^ w_leading_digits r" using l lead f True by simp
    also have "\<dots> \<le> 10 ^ (2 * ((w_leading_digits r + 1) div 2))" by (intro power_increasing) simp_all
    also have "\<dots> = 100 ^ field_pairs r i" using True by (simp add: field_pairs_def power_mult)
    finally show ?thesis .
  next
    case False
    then have "1 < i" "i \<le> 6" "r_first (w_range r) < i" "i \<le> r_last (w_range r)" using i in_fields rng by auto
    moreover from this have "field_fits tf interval i" using fields_okD(2) [OF ok, of i] by simp
    ultimately have "tf_integral tf ! i < 100"
      using m by (auto simp: field_fits_def field_maximum_def field_defs split: if_splits)
    then show ?thesis using False by (simp add: field_pairs_def)
  qed
  moreover have "tf_integral tf ! i = 0" if "i < 8" "i \<notin> set (integral_fields r)" for i
    using that fields_zero [OF ok, of i] fields_okD(8) [OF ok] m in_fields [of i]
    by (cases "i = 7") auto
  ultimately show ?thesis
    using r l d f fields_okD(3,6) [OF ok] by (auto simp: packable_def pairs_fit_def)
qed

section \<open>Datetimes and intervals\<close>

text \<open>A value keeps its fields when it takes over a range with the same first and last field.\<close>

lemma requalify:
  assumes ok: "fields_ok tf interval" and r: "range_ok rng interval"
    and m: "r_first (tf_range tf) = r_first rng" "r_last (tf_range tf) = r_last rng"
    and d: "tf_nanosecond tf mod 10 ^ (9 - r_digits rng) = 0"
  shows "validate_fields (tf\<lparr>tf_range := rng\<rparr>) interval = SQLI_OK"
proof -
  have nn: "\<not> tf_is_null tf" "\<not> tf_is_null (tf\<lparr>tf_range := rng\<rparr>)" using ok by (simp_all add: fields_ok_def)
  have fits: "field_fits (tf\<lparr>tf_range := rng\<rparr>) interval f = field_fits tf interval f" for f
    using m by (simp add: field_fits_def)
  have "r_last rng = 7 \<Longrightarrow> fraction_factors ! r_digits rng = 10 ^ (9 - r_digits rng)"
    using r by (intro fraction_factor) (auto simp: range_ok_def)
  moreover have "validate_fields tf interval = SQLI_OK" using ok by (simp add: fields_ok_def)
  ultimately show ?thesis
    using r m d unfolding validate_fields_ok [OF nn(1)] validate_fields_ok [OF nn(2)] fits
    by (auto split: if_splits)
qed

lemma temporal_range_result:
  "decode_range q interval = Inr r \<Longrightarrow> sqli_temporal_decode_range q interval True = Inr (w_range r) \<and>
     sqli_temporal_wire_size q interval True = Inr (w_width r)"
  by (simp add: sqli_temporal_decode_range_def sqli_temporal_wire_size_def)

definition datetime_wire_fields :: "sqli_datetime \<Rightarrow> wire_fields" where
  "datetime_wire_fields v =
     \<lparr>wf_fields = [0, nat (dp_year v mod 2 ^ 64), dp_month v, dp_day v, dp_hour v, dp_minute v, dp_second v, 0],
      wf_nanosecond = dp_nanosecond v, wf_negative = False, wf_is_null = dp_is_null v\<rparr>"

lemma datetime_encode_cases:
  assumes "sqli_datetime_encode_wire (Some v) q True capacity True = Inr bytes"
  obtains r where "decode_range q False = Inr r" "matching_range (dp_range v) r (dp_is_null v)"
    "pack (datetime_wire_fields v) r capacity = Inr bytes"
  using assms
  by (auto simp: sqli_datetime_encode_wire_def sqli_datetime_get_parts_def datetime_wire_fields_def
      split: sum.splits if_splits)

lemma datetime_wire_parts:
  assumes v: "datetime_ok v" "\<not> dp_is_null v"
  shows "wf_fields (datetime_wire_fields v) = tf_integral (datetime_fields v)"
    "\<forall>f \<in> {1..6}. wf_fields (datetime_wire_fields v) ! f \<le> (if f = 1 then 9999 else 59)"
proof -
  have ok: "fields_ok (datetime_fields v) False" by (rule datetime_fields_ok [OF v])
  have b: "\<forall>f \<in> {1..6}. tf_integral (datetime_fields v) ! f \<le> (if f = 1 then 9999 else 59)"
    using fields_okD(2) [OF ok] field_fits_bound by auto
  then have "nat (dp_year v) \<le> 9999" "0 \<le> dp_year v"
    using v unfolding ball_fields by (simp_all add: datetime_fields_def datetime_ok_def split: if_splits)
  then show eq: "wf_fields (datetime_wire_fields v) = tf_integral (datetime_fields v)"
    by (simp add: datetime_wire_fields_def datetime_fields_def)
  show "\<forall>f \<in> {1..6}. wf_fields (datetime_wire_fields v) ! f \<le> (if f = 1 then 9999 else 59)"
    using b eq by simp
qed

lemma datetime_wire_result:
  assumes v: "datetime_ok v" and e: "sqli_datetime_encode_wire (Some v) q True capacity True = Inr bytes"
  shows "\<exists>r. decode_range q False = Inr r \<and> length bytes = w_width r \<and> w_width r \<le> capacity \<and>
    sqli_datetime_decode_wire (Some bytes) q (Some w) =
      (SQLI_OK, Some (if dp_is_null v then null_datetime (w_range r) else v\<lparr>dp_range := w_range r\<rparr>))"
proof -
  let ?F = "datetime_wire_fields v"
  from datetime_encode_cases [OF e] obtain r where r: "decode_range q False = Inr r"
    "matching_range (dp_range v) r (dp_is_null v)" "pack ?F r capacity = Inr bytes" .
  note wf = decode_range_wf [OF r(1)]
  have wfr: "range_ok (w_range r) False" using wf by (simp add: range_wf_def)
  have null: "wf_is_null ?F = dp_is_null v" "wf_negative ?F = False" by (simp_all add: datetime_wire_fields_def)
  have m: "r_first (dp_range v) = r_first (w_range r)" "r_last (dp_range v) = r_last (w_range r)" if "\<not> dp_is_null v"
    using r(2) that by (simp_all add: matching_range_def)
  have ns: "wf_nanosecond ?F = tf_nanosecond (datetime_fields v)" "tf_range (datetime_fields v) = dp_range v"
    by (simp_all add: datetime_wire_fields_def datetime_fields_def)
  have "packable r False ?F"
    if "\<not> dp_is_null v" "w_leading_digits r \<noteq> 0 \<longrightarrow> wf_fields ?F ! r_first (w_range r) < 10 ^ w_leading_digits r"
      "wf_nanosecond ?F mod 10 ^ (9 - r_digits (w_range r)) = 0"
    using fields_packable [OF datetime_fields_ok [OF v that(1)] wf _ _ datetime_wire_parts(1) [OF v that(1)] ns(1)]
      that m ns(2) by simp
  then have u: "length bytes = w_width r \<and> w_width r \<le> capacity \<and>
      unpack bytes r = Inr (if dp_is_null v then no_fields\<lparr>wf_is_null := True\<rparr> else ?F) \<and>
      (\<not> dp_is_null v \<longrightarrow> packable r False ?F)"
    using pack_round_trip [OF r(3) wf] null by simp
  show ?thesis
  proof (cases "dp_is_null v")
    case True
    have "validate_range (Some (w_range r)) False True = SQLI_OK"
      using wfr by (simp add: validate_range_null validate_range_ok)
    then have "sqli_datetime_set_parts (Some w) (Some (null_datetime (w_range r))) = (SQLI_OK, Some (null_datetime (w_range r)))"
      by (simp add: sqli_datetime_set_parts_def validate_fields_def datetime_fields_def null_datetime_def)
    then show ?thesis
      using u r(1) True
      by (simp add: sqli_datetime_decode_wire_def no_fields_def field_defs null_datetime_def)
  next
    case False
    note parts = datetime_wire_parts [OF v False]
    have year: "0 \<le> dp_year v" "dp_year v \<le> 9999"
      using v False parts(2) unfolding parts(1) ball_fields
      by (simp_all add: datetime_ok_def datetime_fields_def split: if_splits)
    have small: "\<not> (wf_fields ?F ! 1 > 9999 \<or> (\<exists>f \<in> set [2, 3, 4, 5, 6]. wf_fields ?F ! f > 255))"
      using parts(2) unfolding ball_fields by simp
    have "datetime_fields (v\<lparr>dp_range := w_range r\<rparr>) = (datetime_fields v)\<lparr>tf_range := w_range r\<rparr>"
      by (simp add: datetime_fields_def)
    then have "validate_fields (datetime_fields (v\<lparr>dp_range := w_range r\<rparr>)) False = SQLI_OK"
      using requalify [OF datetime_fields_ok [OF v False] wfr] m [OF False] u False ns by (simp add: packable_def)
    then have "sqli_datetime_set_parts (Some w) (Some (v\<lparr>dp_range := w_range r\<rparr>)) = (SQLI_OK, Some (v\<lparr>dp_range := w_range r\<rparr>))"
      using False year by (simp add: sqli_datetime_set_parts_def)
    moreover have "\<lparr>dp_range = w_range r, dp_year = int (wf_fields ?F ! 1), dp_month = wf_fields ?F ! 2, dp_day = wf_fields ?F ! 3,
        dp_hour = wf_fields ?F ! 4, dp_minute = wf_fields ?F ! 5, dp_second = wf_fields ?F ! 6,
        dp_nanosecond = wf_nanosecond ?F, dp_is_null = wf_is_null ?F\<rparr> = v\<lparr>dp_range := w_range r\<rparr>"
      using year False by (cases v) (simp add: datetime_wire_fields_def)
    ultimately show ?thesis
      using u r(1) False small null
      by (simp add: sqli_datetime_decode_wire_def field_defs tc_last_year_def del: One_nat_def)
  qed
qed

text \<open>
  C30. Whatever a datetime value encodes to for a column qualifier has the qualifier's width,
  fits the buffer, and decodes with that qualifier to the same value (at the qualifier's range);
  SQL NULL to SQL NULL.
\<close>

theorem datetime_wire_round_trip:
  assumes "datetime_value v" and "sqli_datetime_encode_wire (Some v) q True capacity True = Inr bytes"
  shows "\<exists>rng. sqli_temporal_decode_range q False True = Inr rng \<and>
    sqli_temporal_wire_size q False True = Inr (length bytes) \<and> length bytes \<le> capacity \<and>
    sqli_datetime_decode_wire (Some bytes) q (Some w) =
      (SQLI_OK, Some (if dp_is_null v then null_datetime rng else v\<lparr>dp_range := rng\<rparr>))"
  using datetime_wire_result [OF datetime_value_ok [OF assms(1)] assms(2), of w] temporal_range_result by metis

definition interval_wire_fields :: "sqli_interval \<Rightarrow> wire_fields" where
  "interval_wire_fields v =
     \<lparr>wf_fields = [0, ip_years v, ip_months v, ip_days v, ip_hours v, ip_minutes v, ip_seconds v, 0],
      wf_nanosecond = ip_nanosecond v, wf_negative = ip_negative v, wf_is_null = ip_is_null v\<rparr>"

lemma interval_encode_cases:
  assumes "sqli_interval_encode_wire (Some v) q True capacity True = Inr bytes"
  obtains r where "decode_range q True = Inr r" "matching_range (ip_range v) r (ip_is_null v)"
    "pack (interval_wire_fields v) r capacity = Inr bytes"
  using assms
  by (auto simp: sqli_interval_encode_wire_def sqli_interval_get_parts_def interval_wire_fields_def
      split: sum.splits if_splits)

lemma interval_wire_result:
  assumes v: "interval_ok v" "interval_u64 v"
    and e: "sqli_interval_encode_wire (Some v) q True capacity True = Inr bytes"
  shows "\<exists>r. decode_range q True = Inr r \<and> length bytes = w_width r \<and> w_width r \<le> capacity \<and>
    sqli_interval_decode_wire (Some bytes) q (Some w) =
      (SQLI_OK, Some (if ip_is_null v then null_interval (w_range r) else v\<lparr>ip_range := w_range r\<rparr>))"
proof -
  let ?F = "interval_wire_fields v"
  from interval_encode_cases [OF e] obtain r where r: "decode_range q True = Inr r"
    "matching_range (ip_range v) r (ip_is_null v)" "pack ?F r capacity = Inr bytes" .
  note wf = decode_range_wf [OF r(1)]
  have wfr: "range_ok (w_range r) True" using wf by (simp add: range_wf_def)
  have null: "wf_is_null ?F = ip_is_null v" by (simp add: interval_wire_fields_def)
  have m: "r_first (ip_range v) = r_first (w_range r)" "r_last (ip_range v) = r_last (w_range r)" if "\<not> ip_is_null v"
    using r(2) that by (simp_all add: matching_range_def)
  have ns: "wf_nanosecond ?F = tf_nanosecond (interval_fields v)" "wf_fields ?F = tf_integral (interval_fields v)"
    "tf_range (interval_fields v) = ip_range v"
    by (simp_all add: interval_wire_fields_def interval_fields_def)
  have p: "packable r True ?F"
    if "\<not> ip_is_null v" "w_leading_digits r \<noteq> 0 \<longrightarrow> wf_fields ?F ! r_first (w_range r) < 10 ^ w_leading_digits r"
      "wf_nanosecond ?F mod 10 ^ (9 - r_digits (w_range r)) = 0"
    using fields_packable [OF interval_fields_ok [OF v that(1)] wf _ _ ns(2,1)] that m ns(3) by simp
  have "\<not> ip_is_null v \<and> (wf_fields ?F \<noteq> replicate 8 0 \<or> wf_nanosecond ?F \<noteq> 0)" if "wf_negative ?F"
  proof -
    have "ip_negative v" using that by (simp add: interval_wire_fields_def)
    then have "\<not> interval_zero v" "\<not> ip_is_null v"
      using v(1) by (auto simp: interval_ok_def null_interval_def split: if_splits dest: arg_cong [of _ _ ip_negative])
    then show ?thesis by (auto simp: interval_zero_def interval_wire_fields_def numeral_eq_Suc)
  qed
  then have u: "length bytes = w_width r \<and> w_width r \<le> capacity \<and>
      unpack bytes r = Inr (if ip_is_null v then no_fields\<lparr>wf_is_null := True\<rparr> else ?F) \<and>
      (\<not> ip_is_null v \<longrightarrow> packable r True ?F)"
    using pack_round_trip [OF r(3) wf] null p by simp
  show ?thesis
  proof (cases "ip_is_null v")
    case True
    have "validate_range (Some (w_range r)) True True = SQLI_OK"
      using wfr by (simp add: validate_range_null validate_range_ok)
    then have "sqli_interval_set_parts (Some w) (Some (null_interval (w_range r))) = (SQLI_OK, Some (null_interval (w_range r)))"
      by (simp add: sqli_interval_set_parts_def validate_fields_def interval_fields_def null_interval_def Let_def)
    then show ?thesis
      using u r(1) True
      by (simp add: sqli_interval_decode_wire_def no_fields_def field_defs null_interval_def)
  next
    case False
    have "interval_fields (v\<lparr>ip_range := w_range r\<rparr>) = (interval_fields v)\<lparr>tf_range := w_range r\<rparr>"
      by (simp add: interval_fields_def)
    then have "validate_fields (interval_fields (v\<lparr>ip_range := w_range r\<rparr>)) True = SQLI_OK"
      using requalify [OF interval_fields_ok [OF v False] wfr] m [OF False] u False ns by (simp add: packable_def)
    moreover have "interval_zero (v\<lparr>ip_range := w_range r\<rparr>) \<longrightarrow> \<not> ip_negative v"
      using v False by (auto simp: interval_ok_def interval_zero_def)
    ultimately have "sqli_interval_set_parts (Some w) (Some (v\<lparr>ip_range := w_range r\<rparr>)) = (SQLI_OK, Some (v\<lparr>ip_range := w_range r\<rparr>))"
      using False interval_set_parts_result [of "v\<lparr>ip_range := w_range r\<rparr>" w]
      by (cases v) (auto simp: interval_zero_def)
    moreover have "\<lparr>ip_range = w_range r, ip_years = wf_fields ?F ! 1, ip_months = wf_fields ?F ! 2, ip_days = wf_fields ?F ! 3,
        ip_hours = wf_fields ?F ! 4, ip_minutes = wf_fields ?F ! 5, ip_seconds = wf_fields ?F ! 6,
        ip_nanosecond = wf_nanosecond ?F, ip_negative = wf_negative ?F, ip_is_null = wf_is_null ?F\<rparr> = v\<lparr>ip_range := w_range r\<rparr>"
      by (cases v) (simp add: interval_wire_fields_def)
    ultimately show ?thesis
      using u r(1) False null
      by (simp add: sqli_interval_decode_wire_def field_defs del: One_nat_def)
  qed
qed

text \<open>
  Whatever an interval value encodes to for a column qualifier decodes with that qualifier to
  the same value, negative intervals (radix complement) and SQL NULL included.
\<close>

theorem interval_wire_round_trip:
  assumes "interval_value v" "interval_u64 v"
    and "sqli_interval_encode_wire (Some v) q True capacity True = Inr bytes"
  shows "\<exists>rng. sqli_temporal_decode_range q True True = Inr rng \<and>
    sqli_temporal_wire_size q True True = Inr (length bytes) \<and> length bytes \<le> capacity \<and>
    sqli_interval_decode_wire (Some bytes) q (Some w) =
      (SQLI_OK, Some (if ip_is_null v then null_interval rng else v\<lparr>ip_range := rng\<rparr>))"
  using interval_wire_result [OF interval_value_ok [OF assms(1)] assms(2,3), of w] temporal_range_result by metis

section \<open>Witnesses\<close>

text \<open>DATETIME YEAR TO FRACTION(3) and INTERVAL DAY(3) TO MINUTE.\<close>

lemma split_pairs_2: "split_pairs 2 m = [u8 (m div 100 mod 100), u8 (m mod 100)]"
  by (simp add: numeral_2_eq_2 pair_base_def)

lemmas sample_encode_defs = split_pairs_2 Let_def decode_range_def wire_second_def wire_fraction_start_def max_leading_digits_def
  SQLI_TEMPORAL_WIRE_CAPACITY_def matching_range_def pack_def packed_bytes_def packed_groups_def integral_fields_def
  field_pairs_def pair_base_def power10_eq field_defs zero_marker_def tc_positive_flag_def tc_exponent_bias_def
  sqli_base100_radix_complement_def u8_def u32_def upt_rec

lemma sample_datetime_encode:
  "sqli_datetime_encode_wire (Some sample_datetime) 0x110D True 12 True = Inr [199, 20, 24, 2, 29, 23, 59, 58, 12, 0]"
  by (simp add: sample_datetime_def sqli_datetime_encode_wire_def sqli_datetime_get_parts_def sample_encode_defs)

definition short_interval :: sqli_interval where
  "short_interval = \<lparr>ip_range = \<lparr>r_first = 3, r_last = 5, r_digits = 0\<rparr>, ip_years = 0, ip_months = 0,
     ip_days = 100, ip_hours = 23, ip_minutes = 5, ip_seconds = 0, ip_nanosecond = 0,
     ip_negative = True, ip_is_null = False\<rparr>"

lemma short_interval_value: "interval_value short_interval"
proof (rule iv_set_parts)
  show "interval_value sample_interval" by (rule sample_interval_value)
  show "sqli_interval_set_parts (Some sample_interval) (Some short_interval) = (SQLI_OK, Some short_interval)"
    by (simp add: short_interval_def sqli_interval_set_parts_def interval_fields_def validate_fields_def
      validate_range_def field_defs field_maximum_def calendar_last_year_def nanosecond_digits_def
      nanoseconds_per_second_def fraction_factors_def month_days_def leap_year_def)
qed

lemma short_interval_encode:
  "sqli_interval_encode_wire (Some short_interval) 0x0748 True 12 True = Inr [58, 98, 99, 76, 95]"
  by (simp add: short_interval_def sqli_interval_encode_wire_def sqli_interval_get_parts_def sample_encode_defs)

theorem datetime_wire_round_trip_witness:
  "\<exists>rng. sqli_datetime_decode_wire (Some [199, 20, 24, 2, 29, 23, 59, 58, 12, 0]) 0x110D (Some (null_datetime unknown_range)) =
     (SQLI_OK, Some (sample_datetime\<lparr>dp_range := rng\<rparr>))"
  using datetime_wire_round_trip [OF sample_datetime_value sample_datetime_encode, of "null_datetime unknown_range"]
  by (auto simp: sample_datetime_def)

theorem interval_wire_round_trip_witness:
  "\<exists>rng. sqli_interval_decode_wire (Some [58, 98, 99, 76, 95]) 0x0748 (Some (null_interval unknown_range)) =
     (SQLI_OK, Some (short_interval\<lparr>ip_range := rng\<rparr>))"
  using interval_wire_round_trip [OF short_interval_value _ short_interval_encode, of "null_interval unknown_range"]
  by (auto simp: short_interval_def interval_u64_def interval_fields_def)

end
