(* ===== verification/Lifecycle.thy ===== *)
theory Lifecycle
  imports Conn
begin

text \<open>
  The lifecycle word of a connection (src/src/sqli_internal.h, sqli_conn.c), shared by the pool
  and the cancellation handles: an atomic bit set of three flags. Connections live in a store that
  maps an address to the object, or to nothing once freed.
\<close>

record conn_object = sqli_conn +
  l_pinned :: bool
  l_discarded :: bool
  l_released :: bool

type_synonym conn_store = "nat \<Rightarrow> conn_object option"

text \<open>A connection from \<open>sqli_create\<close>: lifecycle 0.\<close>

definition created_object :: conn_object where
  "created_object = sqli_conn.extend created_conn \<lparr>l_pinned = False, l_discarded = False, l_released = False\<rparr>"

text \<open>\<open>sqli_tcp_discard\<close> of the socket is an input.\<close>

definition sqli_conn_discard :: "sqli_status \<Rightarrow> conn_object \<Rightarrow> sqli_status \<times> conn_object" where
  "sqli_conn_discard tcp_discard conn =
     (let conn = conn\<lparr>l_discarded := True, c_state := SQLI_CONN_ERROR\<rparr>
      in if tcp_discard = SQLI_ERR then (tcp_discard, conn)
         else (tcp_discard, conn\<lparr>c_socket_fd := -1, c_state := SQLI_CONN_ERROR\<rparr>))"

text \<open>\<open>sqli_close\<close> followed by \<open>sqli_destroy\<close>: neither touches a pinned connection.\<close>

definition destroy_conn :: "nat \<Rightarrow> conn_store \<Rightarrow> conn_store" where
  "destroy_conn c store =
     (case store c of None \<Rightarrow> store
      | Some conn \<Rightarrow> if l_pinned conn then store else store(c := None))"

text \<open>The test that the pool makes before it reuses a connection.\<close>

definition reusable :: "conn_object \<Rightarrow> bool" where
  "reusable conn \<longleftrightarrow> \<not> l_discarded conn \<and> c_state conn = SQLI_CONN_READY \<and> c_socket_fd conn \<ge> 0"

definition lifecycle_clear :: "conn_object \<Rightarrow> bool" where
  "lifecycle_clear conn \<longleftrightarrow> \<not> l_pinned conn \<and> \<not> l_discarded conn \<and> \<not> l_released conn"

lemma created_object_simps [simp]:
  "l_pinned created_object = False" "l_discarded created_object = False" "l_released created_object = False"
  by (simp_all add: created_object_def sqli_conn.extend_def)

lemma discard_simps [simp]:
  "fst (sqli_conn_discard st c) = st" "l_pinned (snd (sqli_conn_discard st c)) = l_pinned c"
  "l_released (snd (sqli_conn_discard st c)) = l_released c" "l_discarded (snd (sqli_conn_discard st c))"
  "\<not> reusable (snd (sqli_conn_discard st c))"
  by (simp_all add: sqli_conn_discard_def Let_def reusable_def)

lemma destroy_conn_other [simp]: "c \<noteq> d \<Longrightarrow> destroy_conn c store d = store d"
  by (simp add: destroy_conn_def split: option.splits)

end
