(* ===== verification/Pool.thy ===== *)
theory Pool
  imports Lifecycle
begin

text \<open>
  The connection pool of src/src/sqli_pool.c. The pool's mutex makes each locked section of the
  code one step; what runs between two of them without the lock (reconnecting a slot) is a step
  of its own. What the environment decides (locking, allocation, \<open>sqli_connect\<close>, socket
  liveness, transport teardown) is an argument.
\<close>

section \<open>Connection parameters\<close>

record sqli_connect_params =
  cp_server :: "string option"
  cp_hostname :: "string option"
  cp_service :: "string option"
  cp_database :: "string option"
  cp_username :: "string option"
  cp_password :: "string option"
  cp_client_locale :: "string option"
  cp_db_locale :: "string option"
  cp_ssl_enable :: bool
  cp_ssl_verify_peer :: bool
  cp_ssl_ca_file :: "string option"

definition no_params :: sqli_connect_params where
  "no_params = \<lparr>cp_server = None, cp_hostname = None, cp_service = None, cp_database = None,
     cp_username = None, cp_password = None, cp_client_locale = None, cp_db_locale = None,
     cp_ssl_enable = False, cp_ssl_verify_peer = False, cp_ssl_ca_file = None\<rparr>"

definition dup_nullable :: "(nat \<Rightarrow> bool) \<Rightarrow> string option \<Rightarrow> string option" where
  "dup_nullable mem s =
     (case s of None \<Rightarrow> None | Some s \<Rightarrow> if mem (length s + 1) then Some s else None)"

text \<open>On failure every copied string has been freed.\<close>

definition copy_pool_params :: "(nat \<Rightarrow> bool) \<Rightarrow> sqli_connect_params \<Rightarrow> sqli_status \<times> sqli_connect_params" where
  "copy_pool_params mem params =
     (let copy = \<lparr>cp_server = dup_nullable mem (cp_server params), cp_hostname = dup_nullable mem (cp_hostname params),
            cp_service = dup_nullable mem (cp_service params), cp_database = dup_nullable mem (cp_database params),
            cp_username = dup_nullable mem (cp_username params), cp_password = dup_nullable mem (cp_password params),
            cp_client_locale = dup_nullable mem (cp_client_locale params), cp_db_locale = dup_nullable mem (cp_db_locale params),
            cp_ssl_enable = cp_ssl_enable params, cp_ssl_verify_peer = cp_ssl_verify_peer params,
            cp_ssl_ca_file = dup_nullable mem (cp_ssl_ca_file params)\<rparr>;
          lost = (\<lambda>get. get params \<noteq> None \<and> get copy = None)
      in if lost cp_server \<or> lost cp_hostname \<or> lost cp_service \<or> lost cp_database \<or> lost cp_username \<or>
            lost cp_password \<or> lost cp_client_locale \<or> lost cp_db_locale \<or> lost cp_ssl_ca_file
         then (SQLI_ALLOC_FAIL, no_params) else (SQLI_OK, copy))"

section \<open>The pool\<close>

record pool_slot =
  s_conn :: "nat option"
  s_in_use :: bool

text \<open>\<open>p_size\<close> is the length of \<open>p_slots\<close>. \<open>p_next\<close> is an address not used so far.\<close>

record pool =
  p_shutting_down :: bool
  p_slots :: "pool_slot list"
  p_params :: sqli_connect_params
  p_store :: conn_store
  p_next :: nat

definition set_slot :: "nat \<Rightarrow> (pool_slot \<Rightarrow> pool_slot) \<Rightarrow> pool \<Rightarrow> pool" where
  "set_slot i f p = p\<lparr>p_slots := (p_slots p)[i := f (p_slots p ! i)]\<rparr>"

definition set_conn :: "nat \<Rightarrow> (conn_object \<Rightarrow> conn_object) \<Rightarrow> pool \<Rightarrow> pool" where
  "set_conn c f p = p\<lparr>p_store := (p_store p)(c := map_option f (p_store p c))\<rparr>"

text \<open>Closing and destroying the connection of a slot.\<close>

definition clear_slot :: "nat \<Rightarrow> pool \<Rightarrow> pool" where
  "clear_slot i p =
     (case s_conn (p_slots p ! i) of None \<Rightarrow> p
      | Some c \<Rightarrow> set_slot i (\<lambda>s. s\<lparr>s_conn := None\<rparr>) (p\<lparr>p_store := destroy_conn c (p_store p)\<rparr>))"

text \<open>
  \<open>sqli_create\<close> then \<open>sqli_connect\<close>: the two statuses and the socket of the
  connection when both succeed. \<open>sqli_connect\<close> leaves the lifecycle word at 0.
\<close>

record dial =
  d_create :: sqli_status
  d_connect :: sqli_status
  d_socket :: nat

definition dial_conn :: "dial \<Rightarrow> conn_object" where
  "dial_conn d = created_object\<lparr>c_state := SQLI_CONN_READY, c_socket_fd := int (d_socket d)\<rparr>"

definition dial_slot :: "dial \<Rightarrow> nat \<Rightarrow> pool \<Rightarrow> sqli_status \<times> pool" where
  "dial_slot d i p =
     (if d_create d \<noteq> SQLI_OK then (d_create d, p)
      else if d_connect d \<noteq> SQLI_OK then (d_connect d, p)
      else (SQLI_OK, set_slot i (\<lambda>s. s\<lparr>s_conn := Some (p_next p)\<rparr>)
             (p\<lparr>p_store := (p_store p)(p_next p := Some (dial_conn d)), p_next := p_next p + 1\<rparr>)))"

definition slot_conn :: "pool \<Rightarrow> nat \<Rightarrow> conn_object option" where
  "slot_conn p i = (case s_conn (p_slots p ! i) of None \<Rightarrow> None | Some c \<Rightarrow> p_store p c)"

definition ensure_slot_connected :: "dial \<Rightarrow> nat \<Rightarrow> pool \<Rightarrow> sqli_status \<times> pool" where
  "ensure_slot_connected d i p =
     (if i \<ge> length (p_slots p) then (SQLI_INVALID_STATE, p)
      else if (case slot_conn p i of None \<Rightarrow> False | Some conn \<Rightarrow> reusable conn) then (SQLI_OK, p)
      else dial_slot d i (clear_slot i p))"

fun find_available_slot_from :: "nat \<Rightarrow> pool_slot list \<Rightarrow> nat option" where
  "find_available_slot_from i [] = None"
| "find_available_slot_from i (s # ss) = (if s_in_use s then find_available_slot_from (i + 1) ss else Some i)"

definition find_available_slot_locked :: "pool \<Rightarrow> nat option" where
  "find_available_slot_locked p = find_available_slot_from 0 (p_slots p)"

section \<open>Acquiring\<close>

text \<open>
  The outcome of the locked section at the head of the acquire loop: a connection is handed out,
  the slot is reserved for reconnecting, no slot is free, or the pool is shutting down.
\<close>

datatype acquire_outcome = Acquired nat | Reserved nat | Unavailable | Refused

definition acquire_locked :: "(nat \<Rightarrow> bool) \<Rightarrow> pool \<Rightarrow> acquire_outcome \<times> pool" where
  "acquire_locked alive p =
     (if p_shutting_down p then (Refused, p)
      else case find_available_slot_locked p of
        None \<Rightarrow> (Unavailable, p)
      | Some i \<Rightarrow>
          let p = set_slot i (\<lambda>s. s\<lparr>s_in_use := True\<rparr>) p
          in (case s_conn (p_slots p ! i) of None \<Rightarrow> (Reserved i, p)
              | Some c \<Rightarrow>
                  if (case p_store p c of None \<Rightarrow> False | Some conn \<Rightarrow> reusable conn)
                  then (if alive c then (Acquired c, set_conn c (\<lambda>conn. conn\<lparr>l_released := False\<rparr>) p)
                        else (Reserved i, clear_slot i p))
                  else (Reserved i, p)))"

text \<open>The locked section after the slot was reconnected with status \<open>rc\<close>.\<close>

definition acquire_relocked :: "nat \<Rightarrow> sqli_status \<Rightarrow> pool \<Rightarrow> (sqli_status \<times> nat option) \<times> pool" where
  "acquire_relocked i rc p =
     (if p_shutting_down p then
        ((SQLI_INVALID_STATE, None),
         set_slot i (\<lambda>s. s\<lparr>s_in_use := False\<rparr>) (if rc = SQLI_OK then clear_slot i p else p))
      else if rc = SQLI_OK then ((SQLI_OK, s_conn (p_slots p ! i)), p)
      else ((rc, None), set_slot i (\<lambda>s. s\<lparr>s_in_use := False\<rparr>) p))"

text \<open>
  The deadline of a finite timeout, an absolute time of the real-time clock. The seconds are
  unbounded here: as a 64-bit \<open>time_t\<close> they do not overflow before the year 292 billion.
\<close>

record timespec =
  tv_sec :: int
  tv_nsec :: int

definition acquire_deadline :: "timespec \<Rightarrow> nat \<Rightarrow> timespec" where
  "acquire_deadline now timeout_ms =
     (let nsec = (tv_nsec now mod 2 ^ 64 + int (timeout_ms mod 1000) * 1000000 mod 2 ^ 64) mod 2 ^ 64
      in \<lparr>tv_sec = tv_sec now + int (timeout_ms div 1000) + nsec div 1000000000, tv_nsec = nsec mod 1000000000\<rparr>)"

definition nanos :: "timespec \<Rightarrow> int" where
  "nanos ts = tv_sec ts * 1000000000 + tv_nsec ts"

text \<open>
  One wait on the condition variable: the clock when it is begun and when it ends, whether the thread was
  signalled, and what other threads did to the pool meanwhile. \<open>pthread_cond_timedwait\<close> refuses a
  deadline that is not a normalised time, reports a timeout when the deadline has passed before it is called or
  passes without a signal, and otherwise returns 0: after a signal, or spuriously.
\<close>

record wakeup =
  w_called :: timespec
  w_woken :: timespec
  w_signalled :: bool
  w_others :: "pool \<Rightarrow> pool"

datatype wait_code = Wait_woken | Wait_ETIMEDOUT | Wait_EINVAL

definition pthread_cond_timedwait :: "timespec \<Rightarrow> wakeup \<Rightarrow> wait_code" where
  "pthread_cond_timedwait deadline w =
     (if tv_nsec deadline < 0 \<or> 1000000000 \<le> tv_nsec deadline then Wait_EINVAL
      else if nanos deadline \<le> nanos (w_called w) then Wait_ETIMEDOUT
      else if w_signalled w \<or> nanos (w_woken w) < nanos deadline then Wait_woken
      else Wait_ETIMEDOUT)"

text \<open>
  The whole call as its thread sees it. \<open>waits\<close> are its waits; \<open>None\<close>: the call is still waiting when
  the list ends. \<open>meanwhile\<close> is what other threads do while the slot is reconnected. \<open>lock_ok\<close> and
  \<open>relock_ok\<close> are the two locking calls, \<open>now\<close> is the clock when the call begins.
\<close>

record acquire_env =
  e_lock_ok :: bool
  e_relock_ok :: bool
  e_alive :: "nat \<Rightarrow> bool"
  e_dial :: dial
  e_meanwhile :: "pool \<Rightarrow> pool"
  e_now :: timespec

fun acquire_loop ::
  "acquire_env \<Rightarrow> nat option \<Rightarrow> timespec \<Rightarrow> wakeup list \<Rightarrow> pool \<Rightarrow> ((sqli_status \<times> nat option) \<times> pool) option" where
  "acquire_loop e timeout_ms abs_deadline waits p =
     (case acquire_locked (e_alive e) p of
        (Refused, p) \<Rightarrow> Some ((SQLI_INVALID_STATE, None), p)
      | (Acquired c, p) \<Rightarrow> Some ((SQLI_OK, Some c), p)
      | (Reserved i, p) \<Rightarrow>
          (case ensure_slot_connected (e_dial e) i p of (rc, p) \<Rightarrow>
             let p = e_meanwhile e p
             in if \<not> e_relock_ok e then Some ((SQLI_ERR, None), p) else Some (acquire_relocked i rc p))
      | (Unavailable, p) \<Rightarrow>
          if timeout_ms = Some 0 then Some ((SQLI_TIMEOUT, None), p)
          else (case waits of [] \<Rightarrow> None
            | w # waits \<Rightarrow>
                if timeout_ms \<noteq> None \<and> pthread_cond_timedwait abs_deadline w = Wait_ETIMEDOUT
                then Some ((SQLI_TIMEOUT, None), w_others w p)
                else acquire_loop e timeout_ms abs_deadline waits (w_others w p)))"

text \<open>A timeout of \<open>UINT32_MAX\<close> waits for ever.\<close>

definition sqli_pool_acquire_timeout ::
  "acquire_env \<Rightarrow> wakeup list \<Rightarrow> nat \<Rightarrow> bool \<Rightarrow> pool option \<Rightarrow>
   ((sqli_status \<times> nat option) \<times> pool option) option" where
  "sqli_pool_acquire_timeout e waits timeout_ms out_given p =
     (case p of None \<Rightarrow> Some ((SQLI_INVALID_STATE, None), None)
      | Some pool \<Rightarrow>
          if \<not> out_given then Some ((SQLI_INVALID_STATE, None), p)
          else if \<not> e_lock_ok e then Some ((SQLI_ERR, None), p)
          else map_option (apsnd Some)
            (acquire_loop e (if timeout_ms = 2 ^ 32 - 1 then None else Some timeout_ms)
               (acquire_deadline (e_now e) timeout_ms) waits pool))"

definition sqli_pool_acquire where
  "sqli_pool_acquire e waits = sqli_pool_acquire_timeout e waits (2 ^ 32 - 1)"

definition sqli_pool_try_acquire where
  "sqli_pool_try_acquire e waits = sqli_pool_acquire_timeout e waits 0"

section \<open>Releasing\<close>

text \<open>
  \<open>cas_ok\<close>: no other thread changed the lifecycle word between its load and the
  compare-exchange. \<open>discard\<close>: the status of the transport teardown.
\<close>

fun find_conn_slot :: "nat \<Rightarrow> nat \<Rightarrow> pool_slot list \<Rightarrow> nat option" where
  "find_conn_slot c i [] = None"
| "find_conn_slot c i (s # ss) = (if s_conn s = Some c then Some i else find_conn_slot c (i + 1) ss)"

definition release_locked :: "bool \<Rightarrow> sqli_status \<Rightarrow> nat \<Rightarrow> pool \<Rightarrow> sqli_status \<times> pool" where
  "release_locked cas_ok tcp_discard c p =
     (case find_conn_slot c 0 (p_slots p) of None \<Rightarrow> (SQLI_INVALID_STATE, p)
      | Some i \<Rightarrow>
          (case p_store p c of None \<Rightarrow> (SQLI_INVALID_STATE, p)
           | Some conn \<Rightarrow>
               if \<not> s_in_use (p_slots p ! i) \<or> l_pinned conn \<or> \<not> cas_ok then (SQLI_INVALID_STATE, p)
               else let p = set_conn c (\<lambda>conn. conn\<lparr>l_released := True\<rparr>) p;
                        p = (if l_discarded conn then set_conn c (\<lambda>conn. snd (sqli_conn_discard tcp_discard conn)) p else p)
                 in if l_discarded conn \<and> tcp_discard \<noteq> SQLI_OK
                    then (tcp_discard, set_conn c (\<lambda>conn. conn\<lparr>l_released := False\<rparr>) p)
                    else (SQLI_OK, set_slot i (\<lambda>s. s\<lparr>s_in_use := False\<rparr>) p)))"

definition sqli_pool_release ::
  "bool \<Rightarrow> bool \<Rightarrow> sqli_status \<Rightarrow> pool option \<Rightarrow> nat option \<Rightarrow> sqli_status \<times> pool option" where
  "sqli_pool_release lock_ok cas_ok tcp_discard p conn =
     (if conn = None then (SQLI_INVALID_STATE, p)
      else case p of None \<Rightarrow> (SQLI_INVALID_STATE, None)
        | Some pool \<Rightarrow>
            if \<not> lock_ok then (SQLI_ERR, p)
            else apsnd Some (release_locked cas_ok tcp_discard (the conn) pool))"

section \<open>Destroying and creating\<close>

text \<open>The loop over the slots \<open>i, i + 1, \<dots>\<close>; it stops at a failed teardown.\<close>

fun teardown_slots :: "(nat \<Rightarrow> sqli_status) \<Rightarrow> nat \<Rightarrow> nat \<Rightarrow> pool \<Rightarrow> sqli_status \<times> pool" where
  "teardown_slots tcp_discard i 0 p = (SQLI_OK, p)"
| "teardown_slots tcp_discard i (Suc n) p =
     (case s_conn (p_slots p ! i) of
        None \<Rightarrow> teardown_slots tcp_discard (i + 1) n (set_slot i (\<lambda>s. s\<lparr>s_in_use := False\<rparr>) p)
      | Some c \<Rightarrow>
          let p = set_conn c (\<lambda>conn. snd (sqli_conn_discard (tcp_discard c) conn)) p
          in if tcp_discard c \<noteq> SQLI_OK then (tcp_discard c, p)
             else teardown_slots tcp_discard (i + 1) n
                    (set_slot i (\<lambda>s. s\<lparr>s_in_use := False\<rparr>) (clear_slot i p)))"

definition destroy_locked :: "pool \<Rightarrow> sqli_status \<times> pool" where
  "destroy_locked p =
     (if \<exists>s \<in> set (p_slots p). s_in_use s then (SQLI_INVALID_STATE, p)
      else (SQLI_OK, p\<lparr>p_shutting_down := True\<rparr>))"

text \<open>The pool afterwards is \<open>None\<close> when it was freed.\<close>

definition sqli_pool_destroy :: "bool \<Rightarrow> (nat \<Rightarrow> sqli_status) \<Rightarrow> pool option \<Rightarrow> sqli_status \<times> pool option" where
  "sqli_pool_destroy lock_ok tcp_discard p =
     (case p of None \<Rightarrow> (SQLI_OK, None)
      | Some pool \<Rightarrow>
          if \<not> lock_ok then (SQLI_ERR, p)
          else case destroy_locked pool of (status, pool) \<Rightarrow>
            if status \<noteq> SQLI_OK then (status, Some pool)
            else case teardown_slots tcp_discard 0 (length (p_slots pool)) pool of (status, pool) \<Rightarrow>
              if status \<noteq> SQLI_OK then (status, Some pool) else (SQLI_OK, None))"

definition failed_pool_creation :: "bool \<Rightarrow> (nat \<Rightarrow> sqli_status) \<Rightarrow> pool \<Rightarrow> sqli_status \<Rightarrow> sqli_status \<times> pool option" where
  "failed_pool_creation lock_ok tcp_discard p creation_status =
     (case sqli_pool_destroy lock_ok tcp_discard (Some p) of (status, p) \<Rightarrow>
        if status \<noteq> SQLI_OK then (status, p) else (creation_status, None))"

fun fill_slots :: "dial list \<Rightarrow> nat \<Rightarrow> pool \<Rightarrow> sqli_status \<times> pool" where
  "fill_slots [] i p = (SQLI_OK, p)"
| "fill_slots (d # ds) i p =
     (case dial_slot d i p of (rc, p) \<Rightarrow>
        if rc \<noteq> SQLI_OK then (rc, p)
        else fill_slots ds (i + 1) (set_conn (p_next p - 1) (\<lambda>conn. conn\<lparr>l_released := True\<rparr>) p))"

definition empty_pool :: "nat \<Rightarrow> sqli_connect_params \<Rightarrow> pool" where
  "empty_pool pool_size params = \<lparr>p_shutting_down = False, p_slots = replicate pool_size \<lparr>s_conn = None, s_in_use = False\<rparr>,
     p_params = params, p_store = (\<lambda>_. None), p_next = 0\<rparr>"

text \<open>
  \<open>mem_pool\<close> and \<open>mem_slots\<close> are the two allocations of the pool itself, \<open>sync_ok\<close> the
  creation of its mutex and condition variable; one \<open>dial\<close> per slot.
\<close>

definition sqli_pool_create ::
  "bool \<Rightarrow> bool \<Rightarrow> bool \<Rightarrow> (nat \<Rightarrow> bool) \<Rightarrow> (nat \<Rightarrow> dial) \<Rightarrow> bool \<Rightarrow> (nat \<Rightarrow> sqli_status) \<Rightarrow> bool \<Rightarrow>
   sqli_connect_params option \<Rightarrow> nat \<Rightarrow> sqli_status \<times> pool option" where
  "sqli_pool_create mem_pool mem_slots sync_ok mem dials lock_ok tcp_discard out_given params pool_size =
     (if \<not> out_given \<or> params = None \<or> pool_size = 0 then (SQLI_INVALID_STATE, None)
      else if \<not> mem_pool \<or> \<not> mem_slots then (SQLI_ALLOC_FAIL, None)
      else if \<not> sync_ok then (SQLI_ERR, None)
      else case copy_pool_params mem (the params) of (rc, params) \<Rightarrow>
        if rc \<noteq> SQLI_OK then (rc, None)
        else case fill_slots (map dials [0..<pool_size]) 0 (empty_pool pool_size params) of (rc, p) \<Rightarrow>
          if rc \<noteq> SQLI_OK then failed_pool_creation lock_ok tcp_discard p rc else (SQLI_OK, Some p))"

end
