(* ===== verification/PoolFacts.thy ===== *)
theory PoolFacts
  imports Pool
begin

text \<open>
  The pool under concurrent use: threads interleave the locked sections and the reconnecting of
  slots, leaseholders do as they like with the connections they hold. The invariant gives each
  slot at most one user, from which the safety of leases follows.
\<close>

section \<open>The interleaved system\<close>

text \<open>
  What an acquire call does without the lock. A call that cannot take the lock again returns
  \<open>SQLI_ERR\<close> and leaves its slot in use for ever: it stays \<open>Abandoned\<close>.
\<close>

datatype pool_thread = Outside | Dialing nat | Dialed nat sqli_status | Abandoned nat

fun thread_slot :: "pool_thread \<Rightarrow> nat option" where
  "thread_slot Outside = None"
| "thread_slot (Dialing i) = Some i"
| "thread_slot (Dialed i rc) = Some i"
| "thread_slot (Abandoned i) = Some i"

record pool_system =
  ps_pool :: pool
  ps_thread :: "nat \<Rightarrow> pool_thread"
  ps_leases :: "nat set"

text \<open>
  \<open>use\<close> is any work of a leaseholder on its connection: executing, registering a cancellation
  handle, discarding; only the pool itself sets or clears the released flag.
\<close>

inductive pool_step :: "pool_system \<Rightarrow> pool_system \<Rightarrow> bool" where
  acquire_now: "ps_thread s t = Outside \<Longrightarrow> acquire_locked alive (ps_pool s) = (Acquired c, p) \<Longrightarrow>
    pool_step s (s\<lparr>ps_pool := p, ps_leases := insert c (ps_leases s)\<rparr>)"
| acquire_reserve: "ps_thread s t = Outside \<Longrightarrow> acquire_locked alive (ps_pool s) = (Reserved i, p) \<Longrightarrow>
    pool_step s (s\<lparr>ps_pool := p, ps_thread := (ps_thread s)(t := Dialing i)\<rparr>)"
| dial: "ps_thread s t = Dialing i \<Longrightarrow> ensure_slot_connected d i (ps_pool s) = (rc, p) \<Longrightarrow>
    pool_step s (s\<lparr>ps_pool := p, ps_thread := (ps_thread s)(t := Dialed i rc)\<rparr>)"
| finish: "ps_thread s t = Dialed i rc \<Longrightarrow> acquire_relocked i rc (ps_pool s) = ((st, out), p) \<Longrightarrow>
    pool_step s (s\<lparr>ps_pool := p, ps_thread := (ps_thread s)(t := Outside),
      ps_leases := (case out of None \<Rightarrow> ps_leases s | Some c \<Rightarrow> insert c (ps_leases s))\<rparr>)"
| relock_failed: "ps_thread s t = Dialed i rc \<Longrightarrow>
    pool_step s (s\<lparr>ps_thread := (ps_thread s)(t := Abandoned i)\<rparr>)"
| use: "c \<in> ps_leases s \<Longrightarrow> p_store (ps_pool s) c = Some conn \<Longrightarrow> l_released conn' = l_released conn \<Longrightarrow>
    pool_step s (s\<lparr>ps_pool := (ps_pool s)\<lparr>p_store := (p_store (ps_pool s))(c := Some conn')\<rparr>\<rparr>)"
| release: "c \<in> ps_leases s \<Longrightarrow> release_locked cas_ok tcp_discard c (ps_pool s) = (st, p) \<Longrightarrow>
    pool_step s (s\<lparr>ps_pool := p, ps_leases := (if st = SQLI_OK then ps_leases s - {c} else ps_leases s)\<rparr>)"
| destroy: "sqli_pool_destroy True tcp_discards (Some (ps_pool s)) = (st, Some p) \<Longrightarrow>
    pool_step s (s\<lparr>ps_pool := p\<rparr>)"

inductive pool_reach :: "pool_system \<Rightarrow> bool" where
  created: "sqli_pool_create mem_pool mem_slots sync_ok mem dials lock_ok tcp_discard True params n = (SQLI_OK, Some p) \<Longrightarrow>
    pool_reach \<lparr>ps_pool = p, ps_thread = (\<lambda>_. Outside), ps_leases = {}\<rparr>"
| step: "pool_reach s \<Longrightarrow> pool_step s s' \<Longrightarrow> pool_reach s'"

section \<open>Frame rules\<close>

lemma set_slot_simps [simp]:
  "length (p_slots (set_slot i f p)) = length (p_slots p)"
  "p_store (set_slot i f p) = p_store p" "p_next (set_slot i f p) = p_next p"
  "p_shutting_down (set_slot i f p) = p_shutting_down p"
  "j \<noteq> i \<Longrightarrow> p_slots (set_slot i f p) ! j = p_slots p ! j"
  "i < length (p_slots p) \<Longrightarrow> p_slots (set_slot i f p) ! i = f (p_slots p ! i)"
  by (simp_all add: set_slot_def)

lemma set_conn_simps [simp]:
  "p_slots (set_conn c f p) = p_slots p" "p_next (set_conn c f p) = p_next p"
  "p_shutting_down (set_conn c f p) = p_shutting_down p"
  "d \<noteq> c \<Longrightarrow> p_store (set_conn c f p) d = p_store p d"
  "p_store (set_conn c f p) c = map_option f (p_store p c)"
  by (simp_all add: set_conn_def)

lemma clear_slot_simps [simp]:
  "length (p_slots (clear_slot i p)) = length (p_slots p)" "p_next (clear_slot i p) = p_next p"
  "p_shutting_down (clear_slot i p) = p_shutting_down p"
  "j \<noteq> i \<Longrightarrow> p_slots (clear_slot i p) ! j = p_slots p ! j"
  "i < length (p_slots p) \<Longrightarrow> p_slots (clear_slot i p) ! i = (p_slots p ! i)\<lparr>s_conn := None\<rparr>"
  "s_conn (p_slots p ! i) \<noteq> Some d \<Longrightarrow> p_store (clear_slot i p) d = p_store p d"
  by (auto simp: clear_slot_def split: option.splits)

lemma find_available_Some:
  "find_available_slot_from k ss = Some i \<Longrightarrow> k \<le> i \<and> i < k + length ss \<and> \<not> s_in_use (ss ! (i - k))"
proof (induction ss arbitrary: k)
  case (Cons s ss)
  then show ?case by (cases "s_in_use s") (fastforce simp: nth_Cons' split: if_splits)+
qed simp

lemma find_available_None: "find_available_slot_from k ss = None \<longleftrightarrow> (\<forall>s \<in> set ss. s_in_use s)"
  by (induction ss arbitrary: k) auto

lemma find_conn_Some:
  "find_conn_slot c k ss = Some i \<Longrightarrow> k \<le> i \<and> i < k + length ss \<and> s_conn (ss ! (i - k)) = Some c"
proof (induction ss arbitrary: k)
  case (Cons s ss)
  then show ?case by (cases "s_conn s = Some c") (fastforce simp: nth_Cons' split: if_splits)+
qed simp

lemma find_conn_None: "find_conn_slot c k ss = None \<longleftrightarrow> (\<forall>s \<in> set ss. s_conn s \<noteq> Some c)"
  by (induction ss arbitrary: k) auto

section \<open>The invariant\<close>

text \<open>
  What holds of a slot in each of its uses: free, in the hands of a thread that reconnects it,
  or leased.
\<close>

definition free_ok :: "pool \<Rightarrow> nat \<Rightarrow> bool" where
  "free_ok p i \<longleftrightarrow> (case slot_conn p i of None \<Rightarrow> True | Some conn \<Rightarrow> l_released conn \<and> \<not> l_pinned conn)"

definition busy_ok :: "pool \<Rightarrow> nat \<Rightarrow> pool_thread \<Rightarrow> bool" where
  "busy_ok p i th \<longleftrightarrow>
     (case th of Dialing j \<Rightarrow> (case slot_conn p i of None \<Rightarrow> True | Some conn \<Rightarrow> \<not> reusable conn \<and> \<not> l_pinned conn)
      | Dialed j rc \<Rightarrow>
          (if rc = SQLI_OK then (case slot_conn p i of None \<Rightarrow> False | Some conn \<Rightarrow> reusable conn \<and> lifecycle_clear conn)
           else s_conn (p_slots p ! i) = None)
      | _ \<Rightarrow> True)"

definition leased_ok :: "pool \<Rightarrow> nat \<Rightarrow> bool" where
  "leased_ok p i \<longleftrightarrow> (case slot_conn p i of None \<Rightarrow> False | Some conn \<Rightarrow> \<not> l_released conn)"

definition store_ok :: "pool \<Rightarrow> bool" where
  "store_ok p \<longleftrightarrow>
     (\<forall>i < length (p_slots p). \<forall>c. s_conn (p_slots p ! i) = Some c \<longrightarrow> c < p_next p \<and> p_store p c \<noteq> None) \<and>
     (\<forall>i < length (p_slots p). \<forall>j < length (p_slots p). \<forall>c. s_conn (p_slots p ! i) = Some c \<longrightarrow>
        s_conn (p_slots p ! j) = Some c \<longrightarrow> i = j)"

definition slots_inv :: "pool_system \<Rightarrow> bool" where
  "slots_inv s \<longleftrightarrow> (\<forall>i < length (p_slots (ps_pool s)).
     if s_in_use (p_slots (ps_pool s) ! i)
     then (\<exists>t. thread_slot (ps_thread s t) = Some i) \<or> (\<exists>c \<in> ps_leases s. s_conn (p_slots (ps_pool s) ! i) = Some c)
     else free_ok (ps_pool s) i \<and> (\<forall>c \<in> ps_leases s. s_conn (p_slots (ps_pool s) ! i) \<noteq> Some c))"

definition threads_inv :: "pool_system \<Rightarrow> bool" where
  "threads_inv s \<longleftrightarrow>
     (\<forall>t i. thread_slot (ps_thread s t) = Some i \<longrightarrow> i < length (p_slots (ps_pool s)) \<and>
        s_in_use (p_slots (ps_pool s) ! i) \<and> busy_ok (ps_pool s) i (ps_thread s t) \<and>
        (\<forall>c \<in> ps_leases s. s_conn (p_slots (ps_pool s) ! i) \<noteq> Some c)) \<and>
     (\<forall>t u i. thread_slot (ps_thread s t) = Some i \<longrightarrow> thread_slot (ps_thread s u) = Some i \<longrightarrow> t = u)"

definition leases_inv :: "pool_system \<Rightarrow> bool" where
  "leases_inv s \<longleftrightarrow> (\<forall>c \<in> ps_leases s. \<exists>i < length (p_slots (ps_pool s)).
     s_conn (p_slots (ps_pool s) ! i) = Some c \<and> leased_ok (ps_pool s) i)"

definition pool_inv :: "pool_system \<Rightarrow> bool" where
  "pool_inv s \<longleftrightarrow> store_ok (ps_pool s) \<and> slots_inv s \<and> threads_inv s \<and> leases_inv s"

section \<open>Effects of the operations\<close>

text \<open>What holds of every slot but one is unchanged.\<close>

definition only_slot :: "nat \<Rightarrow> pool \<Rightarrow> pool \<Rightarrow> bool" where
  "only_slot i p q \<longleftrightarrow> length (p_slots q) = length (p_slots p) \<and>
     (\<forall>j < length (p_slots p). j \<noteq> i \<longrightarrow> p_slots q ! j = p_slots p ! j \<and> slot_conn q j = slot_conn p j)"

lemma only_slot_frame:
  assumes "only_slot i p q" "j < length (p_slots p)" "j \<noteq> i"
  shows "p_slots q ! j = p_slots p ! j" "free_ok q j = free_ok p j" "leased_ok q j = leased_ok p j"
    "busy_ok q j th = busy_ok p j th"
  using assms by (auto simp: only_slot_def free_ok_def leased_ok_def busy_ok_def split: pool_thread.splits)

lemma only_slot_trans: "only_slot i p q \<Longrightarrow> only_slot i q r \<Longrightarrow> only_slot i p r"
  by (simp add: only_slot_def)

lemma only_set_slot: "only_slot i p (set_slot i f p)"
  by (auto simp: only_slot_def slot_conn_def split: option.splits)

lemma store_ok_unique:
  "store_ok p \<Longrightarrow> i < length (p_slots p) \<Longrightarrow> j < length (p_slots p) \<Longrightarrow> s_conn (p_slots p ! i) = Some c \<Longrightarrow>
   s_conn (p_slots p ! j) = Some c \<Longrightarrow> i = j"
  by (auto simp: store_ok_def)

lemma only_set_conn:
  assumes "store_ok p" "i < length (p_slots p)" "s_conn (p_slots p ! i) = Some c"
  shows "only_slot i p (set_conn c f p)"
proof -
  have "s_conn (p_slots p ! j) \<noteq> Some c" if "j < length (p_slots p)" "j \<noteq> i" for j
    using store_ok_unique [OF assms(1,2) that(1) assms(3)] that by blast
  then show ?thesis by (auto simp: only_slot_def slot_conn_def set_conn_def split: option.splits)
qed

lemma only_clear_slot:
  assumes "store_ok p" "i < length (p_slots p)"
  shows "only_slot i p (clear_slot i p)"
proof (cases "s_conn (p_slots p ! i)")
  case None
  then show ?thesis by (simp add: clear_slot_def only_slot_def)
next
  case (Some c)
  have "s_conn (p_slots p ! j) \<noteq> Some c" if "j < length (p_slots p)" "j \<noteq> i" for j
    using store_ok_unique [OF assms that(1) Some] that by blast
  then have "p_store (clear_slot i p) d = p_store p d"
    if "j < length (p_slots p)" "j \<noteq> i" "s_conn (p_slots p ! j) = Some d" for j d
    using that Some by (metis clear_slot_simps(6) option.inject)
  then show ?thesis by (auto simp: only_slot_def slot_conn_def split: option.splits)
qed

lemma store_ok_set_slot:
  "store_ok p \<Longrightarrow> (\<And>s. s_conn (f s) = s_conn s) \<Longrightarrow> store_ok (set_slot i f p)"
  by (cases "i < length (p_slots p)") (auto simp: store_ok_def set_slot_def nth_list_update)

lemma store_ok_set_conn: "store_ok p \<Longrightarrow> store_ok (set_conn c f p)"
  by (auto simp: store_ok_def set_conn_def)

lemma store_ok_clear_slot:
  assumes "store_ok p" "i < length (p_slots p)"
  shows "store_ok (clear_slot i p)"
proof (cases "s_conn (p_slots p ! i)")
  case None
  then show ?thesis using assms by (simp add: clear_slot_def)
next
  case (Some c)
  have other: "s_conn (p_slots p ! j) \<noteq> Some c" if "j < length (p_slots p)" "j \<noteq> i" for j
    using store_ok_unique [OF assms that(1) Some] that by blast
  have keep: "p_store (clear_slot i p) d = p_store p d"
    if "j < length (p_slots p)" "j \<noteq> i" "s_conn (p_slots p ! j) = Some d" for j d
    using that Some other by (metis clear_slot_simps(6) option.inject)
  have conn: "s_conn (p_slots (clear_slot i p) ! j) = (if j = i then None else s_conn (p_slots p ! j))"
    if "j < length (p_slots p)" for j
    using that assms(2) by simp
  show ?thesis
    using assms keep unfolding store_ok_def by (simp add: conn)
qed

lemma acquire_now_effect:
  assumes "acquire_locked alive p = (Acquired c, q)"
  obtains i conn where "i < length (p_slots p)" "\<not> s_in_use (p_slots p ! i)" "s_conn (p_slots p ! i) = Some c"
    "p_store p c = Some conn" "reusable conn" "alive c" "\<not> p_shutting_down p"
    "q = set_conn c (\<lambda>conn. conn\<lparr>l_released := False\<rparr>) (set_slot i (\<lambda>s. s\<lparr>s_in_use := True\<rparr>) p)"
proof -
  from assms obtain i where i: "find_available_slot_locked p = Some i" "\<not> p_shutting_down p"
    by (auto simp: acquire_locked_def split: if_splits option.splits)
  then have "i < length (p_slots p)" "\<not> s_in_use (p_slots p ! i)"
    using find_available_Some [of 0 "p_slots p" i] by (simp_all add: find_available_slot_locked_def)
  with assms i that show thesis
    by (auto simp: acquire_locked_def Let_def split: if_splits option.splits)
qed

lemma acquire_reserve_effect:
  assumes "acquire_locked alive p = (Reserved i, q)"
  shows "i < length (p_slots p)" "\<not> s_in_use (p_slots p ! i)" "\<not> p_shutting_down p"
    "(s_conn (p_slots p ! i) = None \<or> (\<forall>conn. slot_conn p i = Some conn \<longrightarrow> \<not> reusable conn)) \<and>
       q = set_slot i (\<lambda>s. s\<lparr>s_in_use := True\<rparr>) p \<or>
     q = clear_slot i (set_slot i (\<lambda>s. s\<lparr>s_in_use := True\<rparr>) p)"
proof -
  from assms obtain j where j: "find_available_slot_locked p = Some j" "\<not> p_shutting_down p"
    by (auto simp: acquire_locked_def split: if_splits option.splits)
  then have jj: "j < length (p_slots p)" "\<not> s_in_use (p_slots p ! j)"
    using find_available_Some [of 0 "p_slots p" j] by (simp_all add: find_available_slot_locked_def)
  have "i = j" using assms j by (auto simp: acquire_locked_def Let_def split: if_splits option.splits)
  with j jj show "i < length (p_slots p)" "\<not> s_in_use (p_slots p ! i)" "\<not> p_shutting_down p" by simp_all
  show "(s_conn (p_slots p ! i) = None \<or> (\<forall>conn. slot_conn p i = Some conn \<longrightarrow> \<not> reusable conn)) \<and>
       q = set_slot i (\<lambda>s. s\<lparr>s_in_use := True\<rparr>) p \<or>
     q = clear_slot i (set_slot i (\<lambda>s. s\<lparr>s_in_use := True\<rparr>) p)"
    using assms j jj by (auto simp: acquire_locked_def slot_conn_def Let_def split: if_splits option.splits)
qed

lemma dial_slot_effect:
  assumes d: "dial_slot d i p = (rc, q)" and ok: "store_ok p" and i: "i < length (p_slots p)"
    and none: "s_conn (p_slots p ! i) = None"
  shows "store_ok q" "only_slot i p q" "s_in_use (p_slots q ! i) = s_in_use (p_slots p ! i)"
    "p_shutting_down q = p_shutting_down p"
    "if rc = SQLI_OK then \<exists>conn. slot_conn q i = Some conn \<and> reusable conn \<and> lifecycle_clear conn
     else s_conn (p_slots q ! i) = None"
proof -
  have dc: "reusable (dial_conn d)" "lifecycle_clear (dial_conn d)"
    by (simp_all add: dial_conn_def reusable_def lifecycle_clear_def)
  have less: "c < p_next p" if "j < length (p_slots p)" "s_conn (p_slots p ! j) = Some c" for j c
    using ok that by (auto simp: store_ok_def)
  have "store_ok q \<and> only_slot i p q \<and> s_in_use (p_slots q ! i) = s_in_use (p_slots p ! i) \<and>
    p_shutting_down q = p_shutting_down p \<and>
    (if rc = SQLI_OK then \<exists>conn. slot_conn q i = Some conn \<and> reusable conn \<and> lifecycle_clear conn
     else s_conn (p_slots q ! i) = None)"
  proof (cases "d_create d = SQLI_OK \<and> d_connect d = SQLI_OK")
    case True
    then have q: "rc = SQLI_OK" "q = set_slot i (\<lambda>s. s\<lparr>s_conn := Some (p_next p)\<rparr>)
        (p\<lparr>p_store := (p_store p)(p_next p := Some (dial_conn d)), p_next := p_next p + 1\<rparr>)"
      using d by (auto simp: dial_slot_def)
    have slots: "p_slots q ! j = (if j = i then (p_slots p ! i)\<lparr>s_conn := Some (p_next p)\<rparr> else p_slots p ! j)"
      if "j < length (p_slots p)" for j
      using that i by (simp add: q(2))
    have len: "length (p_slots q) = length (p_slots p)" "p_next q = Suc (p_next p)"
      "p_store q = (p_store p)(p_next p := Some (dial_conn d))" "p_shutting_down q = p_shutting_down p"
      by (simp_all add: q(2))
    have "store_ok q"
      using ok less unfolding store_ok_def by (auto simp: len slots less_Suc_eq dest: less_imp_neq)
    moreover have "only_slot i p q"
      using less by (auto simp: only_slot_def len slots slot_conn_def split: option.splits)
    ultimately show ?thesis using dc i q(1) by (simp add: slot_conn_def slots len)
  next
    case False
    then have "q = p" "rc \<noteq> SQLI_OK" using d by (auto simp: dial_slot_def split: if_splits)
    then show ?thesis using ok none by (simp add: only_slot_def)
  qed
  then show "store_ok q" "only_slot i p q" "s_in_use (p_slots q ! i) = s_in_use (p_slots p ! i)"
    "p_shutting_down q = p_shutting_down p"
    "if rc = SQLI_OK then \<exists>conn. slot_conn q i = Some conn \<and> reusable conn \<and> lifecycle_clear conn
     else s_conn (p_slots q ! i) = None" by simp_all
qed

lemma ensure_effect:
  assumes e: "ensure_slot_connected d i p = (rc, q)" and ok: "store_ok p" and i: "i < length (p_slots p)"
    and unusable: "\<And>conn. slot_conn p i = Some conn \<Longrightarrow> \<not> reusable conn"
  shows "store_ok q" "only_slot i p q" "s_in_use (p_slots q ! i) = s_in_use (p_slots p ! i)"
    "p_shutting_down q = p_shutting_down p"
    "if rc = SQLI_OK then \<exists>conn. slot_conn q i = Some conn \<and> reusable conn \<and> lifecycle_clear conn
     else s_conn (p_slots q ! i) = None"
proof -
  have "dial_slot d i (clear_slot i p) = (rc, q)"
    using e i unusable by (auto simp: ensure_slot_connected_def split: option.splits if_splits)
  note eff = dial_slot_effect [OF this store_ok_clear_slot [OF ok i]]
  show "store_ok q" using eff(1) i by simp
  show "only_slot i p q" using only_slot_trans [OF only_clear_slot [OF ok i] eff(2)] i by simp
  show "s_in_use (p_slots q ! i) = s_in_use (p_slots p ! i)" "p_shutting_down q = p_shutting_down p"
    using eff(3,4) i by simp_all
  show "if rc = SQLI_OK then \<exists>conn. slot_conn q i = Some conn \<and> reusable conn \<and> lifecycle_clear conn
     else s_conn (p_slots q ! i) = None" using eff(5) i by simp
qed

section \<open>Preservation\<close>

text \<open>
  A step that touches one slot: it is enough to look at that slot, at the thread and at the lease
  involved.
\<close>

lemma only_slot_inv:
  assumes inv: "pool_inv s" and ok: "store_ok q" and only: "only_slot i (ps_pool s) q" and i: "i < length (p_slots q)"
    and threads: "\<And>u. ps_thread s' u = ps_thread s u \<or>
        thread_slot (ps_thread s' u) \<in> {None, Some i} \<and> thread_slot (ps_thread s u) \<in> {None, Some i}"
    and one: "\<And>u v. thread_slot (ps_thread s' u) = Some i \<Longrightarrow> thread_slot (ps_thread s' v) = Some i \<Longrightarrow> u = v"
    and leases: "\<And>c j. j < length (p_slots q) \<Longrightarrow> j \<noteq> i \<Longrightarrow> s_conn (p_slots q ! j) = Some c \<Longrightarrow>
        c \<in> ps_leases s' \<longleftrightarrow> c \<in> ps_leases s"
    and lease_slots: "\<And>c. c \<in> ps_leases s' \<Longrightarrow> c \<in> ps_leases s \<and> (\<exists>j. j < length (p_slots q) \<and> j \<noteq> i \<and> s_conn (p_slots q ! j) = Some c) \<or>
        s_conn (p_slots q ! i) = Some c \<and> leased_ok q i"
    and slot: "if s_in_use (p_slots q ! i)
      then ((\<exists>u. thread_slot (ps_thread s' u) = Some i) \<and>
          (\<forall>u. thread_slot (ps_thread s' u) = Some i \<longrightarrow> busy_ok q i (ps_thread s' u)) \<and>
          (\<forall>c \<in> ps_leases s'. s_conn (p_slots q ! i) \<noteq> Some c)) \<or>
        ((\<forall>u. thread_slot (ps_thread s' u) \<noteq> Some i) \<and> (\<exists>c \<in> ps_leases s'. s_conn (p_slots q ! i) = Some c))
      else free_ok q i \<and> (\<forall>u. thread_slot (ps_thread s' u) \<noteq> Some i) \<and> (\<forall>c \<in> ps_leases s'. s_conn (p_slots q ! i) \<noteq> Some c)"
    and s': "ps_pool s' = q"
  shows "pool_inv s'"
proof -
  note frame = only_slot_frame [OF only]
  have len: "length (p_slots q) = length (p_slots (ps_pool s))" using only by (simp add: only_slot_def)
  have thread_at: "thread_slot (ps_thread s' u) = Some j \<longleftrightarrow> thread_slot (ps_thread s u) = Some j" if "j \<noteq> i" for u j
    using that threads [of u] by auto
  have "slots_inv s'"
    unfolding slots_inv_def s'
  proof (intro allI impI)
    fix j assume j: "j < length (p_slots q)"
    show "if s_in_use (p_slots q ! j)
      then (\<exists>t. thread_slot (ps_thread s' t) = Some j) \<or> (\<exists>c \<in> ps_leases s'. s_conn (p_slots q ! j) = Some c)
      else free_ok q j \<and> (\<forall>c \<in> ps_leases s'. s_conn (p_slots q ! j) \<noteq> Some c)"
    proof (cases "j = i")
      case True
      then show ?thesis using slot by (auto split: if_splits)
    next
      case False
      have "if s_in_use (p_slots (ps_pool s) ! j)
        then (\<exists>t. thread_slot (ps_thread s t) = Some j) \<or> (\<exists>c \<in> ps_leases s. s_conn (p_slots (ps_pool s) ! j) = Some c)
        else free_ok (ps_pool s) j \<and> (\<forall>c \<in> ps_leases s. s_conn (p_slots (ps_pool s) ! j) \<noteq> Some c)"
        using inv j len by (auto simp: pool_inv_def slots_inv_def)
      then show ?thesis
        using frame(1,2) [of j] leases [OF j False] thread_at [OF False] j len False by (simp split: if_splits) blast+
    qed
  qed
  moreover have "threads_inv s'"
    unfolding threads_inv_def s'
  proof (intro conjI allI impI)
    fix u j assume u: "thread_slot (ps_thread s' u) = Some j"
    have "j < length (p_slots q) \<and> s_in_use (p_slots q ! j) \<and> busy_ok q j (ps_thread s' u) \<and>
      (\<forall>c \<in> ps_leases s'. s_conn (p_slots q ! j) \<noteq> Some c)"
    proof (cases "j = i")
      case True
      then show ?thesis using u slot i by (auto split: if_splits)
    next
      case False
      then have su: "thread_slot (ps_thread s u) = Some j" "ps_thread s' u = ps_thread s u"
        using u thread_at threads [of u] by auto
      then have "j < length (p_slots q)" "s_in_use (p_slots (ps_pool s) ! j)" "busy_ok (ps_pool s) j (ps_thread s u)"
        "\<forall>c \<in> ps_leases s. s_conn (p_slots (ps_pool s) ! j) \<noteq> Some c"
        using inv len by (auto simp: pool_inv_def threads_inv_def)
      then show ?thesis
        using frame(1,4) [of j] leases [of j] len False su(2) by auto
    qed
    then show "j < length (p_slots q)" "s_in_use (p_slots q ! j)" "busy_ok q j (ps_thread s' u)"
      "\<forall>c \<in> ps_leases s'. s_conn (p_slots q ! j) \<noteq> Some c" by simp_all
  next
    fix u v j assume uv: "thread_slot (ps_thread s' u) = Some j" "thread_slot (ps_thread s' v) = Some j"
    show "u = v"
    proof (cases "j = i")
      case True
      then show ?thesis using uv one by blast
    next
      case False
      then show ?thesis using uv thread_at inv by (auto simp: pool_inv_def threads_inv_def)
    qed
  qed
  moreover have "leases_inv s'"
    unfolding leases_inv_def s'
  proof
    fix c assume c: "c \<in> ps_leases s'"
    from lease_slots [OF c] show "\<exists>j < length (p_slots q). s_conn (p_slots q ! j) = Some c \<and> leased_ok q j"
    proof
      assume "c \<in> ps_leases s \<and> (\<exists>j. j < length (p_slots q) \<and> j \<noteq> i \<and> s_conn (p_slots q ! j) = Some c)"
      then obtain j where j: "c \<in> ps_leases s" "j < length (p_slots q)" "j \<noteq> i" "s_conn (p_slots q ! j) = Some c" by blast
      obtain k where k: "k < length (p_slots (ps_pool s))" "s_conn (p_slots (ps_pool s) ! k) = Some c" "leased_ok (ps_pool s) k"
        using inv j(1) by (auto simp: pool_inv_def leases_inv_def)
      have "store_ok (ps_pool s)" using inv by (simp add: pool_inv_def)
      then have "k = j" using store_ok_unique [OF _ k(1) _ k(2), of j] j len frame(1) [of j] by simp
      then show ?thesis using j k len frame(3) [of j] by auto
    next
      assume "s_conn (p_slots q ! i) = Some c \<and> leased_ok q i"
      then show ?thesis using i by blast
    qed
  qed
  ultimately show ?thesis using ok s' by (simp add: pool_inv_def)
qed

lemma pool_invD:
  assumes "pool_inv s" "i < length (p_slots (ps_pool s))"
  shows "\<not> s_in_use (p_slots (ps_pool s) ! i) \<Longrightarrow> free_ok (ps_pool s) i"
    "\<not> s_in_use (p_slots (ps_pool s) ! i) \<Longrightarrow> c \<in> ps_leases s \<Longrightarrow> s_conn (p_slots (ps_pool s) ! i) \<noteq> Some c"
    "\<not> s_in_use (p_slots (ps_pool s) ! i) \<Longrightarrow> thread_slot (ps_thread s t) \<noteq> Some i"
  using assms by (auto simp: pool_inv_def slots_inv_def threads_inv_def)

lemma pool_inv_threadD:
  assumes "pool_inv s" "thread_slot (ps_thread s t) = Some i"
  shows "i < length (p_slots (ps_pool s))" "s_in_use (p_slots (ps_pool s) ! i)" "busy_ok (ps_pool s) i (ps_thread s t)"
    "c \<in> ps_leases s \<Longrightarrow> s_conn (p_slots (ps_pool s) ! i) \<noteq> Some c"
    "thread_slot (ps_thread s u) = Some i \<Longrightarrow> u = t"
  using assms by (auto simp: pool_inv_def threads_inv_def)

lemma pool_inv_leaseD:
  assumes "pool_inv s" "c \<in> ps_leases s"
  obtains i conn where "i < length (p_slots (ps_pool s))" "s_conn (p_slots (ps_pool s) ! i) = Some c"
    "p_store (ps_pool s) c = Some conn" "\<not> l_released conn" "s_in_use (p_slots (ps_pool s) ! i)"
    "\<forall>t. thread_slot (ps_thread s t) \<noteq> Some i"
proof -
  obtain i where i: "i < length (p_slots (ps_pool s))" "s_conn (p_slots (ps_pool s) ! i) = Some c" "leased_ok (ps_pool s) i"
    using assms by (auto simp: pool_inv_def leases_inv_def)
  then obtain conn where "p_store (ps_pool s) c = Some conn" "\<not> l_released conn"
    by (auto simp: leased_ok_def slot_conn_def split: option.splits)
  then show thesis
    using that [OF i(1,2)] pool_invD(2) [OF assms(1) i(1)] pool_inv_threadD(4) [OF assms(1)] i(2) assms(2) by blast
qed

lemma lease_elsewhere:
  assumes "pool_inv s" "c \<in> ps_leases s" "s_conn (p_slots (ps_pool s) ! i) \<noteq> Some c" "only_slot i (ps_pool s) q"
  shows "\<exists>j. j < length (p_slots q) \<and> j \<noteq> i \<and> s_conn (p_slots q ! j) = Some c"
proof -
  obtain j where j: "j < length (p_slots (ps_pool s))" "s_conn (p_slots (ps_pool s) ! j) = Some c"
    using assms(1,2) pool_inv_leaseD by metis
  moreover from this have "j \<noteq> i" using assms(3) by auto
  ultimately show ?thesis using assms(4) unfolding only_slot_def by metis
qed

lemma inv_acquire_now:
  assumes inv: "pool_inv s" and a: "acquire_locked alive (ps_pool s) = (Acquired c, q)"
  shows "pool_inv (s\<lparr>ps_pool := q, ps_leases := insert c (ps_leases s)\<rparr>)"
proof -
  let ?p = "ps_pool s"
  obtain i conn where i: "i < length (p_slots ?p)" "\<not> s_in_use (p_slots ?p ! i)" "s_conn (p_slots ?p ! i) = Some c"
    "p_store ?p c = Some conn"
    and q: "q = set_conn c (\<lambda>conn. conn\<lparr>l_released := False\<rparr>) (set_slot i (\<lambda>s. s\<lparr>s_in_use := True\<rparr>) ?p)"
    using acquire_now_effect [OF a] by metis
  have ok: "store_ok ?p" using inv by (simp add: pool_inv_def)
  let ?m = "set_slot i (\<lambda>s. s\<lparr>s_in_use := True\<rparr>) ?p"
  have okm: "store_ok ?m" by (rule store_ok_set_slot [OF ok]) simp
  have only: "only_slot i ?p q"
    unfolding q using i by (intro only_slot_trans [OF only_set_slot only_set_conn [OF okm]]) simp_all
  have at_i: "p_slots q ! i = (p_slots ?p ! i)\<lparr>s_in_use := True\<rparr>" "slot_conn q i = Some (conn\<lparr>l_released := False\<rparr>)"
    using i by (simp_all add: q slot_conn_def)
  have free: "\<And>u. thread_slot (ps_thread s u) \<noteq> Some i" using pool_invD(3) [OF inv i(1,2)] .
  show ?thesis
  proof (rule only_slot_inv [OF inv _ only])
    show "store_ok q" unfolding q by (rule store_ok_set_conn [OF okm])
    show "i < length (p_slots q)" using i by (simp add: q)
    show "d \<in> ps_leases (s\<lparr>ps_pool := q, ps_leases := insert c (ps_leases s)\<rparr>) \<longleftrightarrow> d \<in> ps_leases s"
      if "j < length (p_slots q)" "j \<noteq> i" "s_conn (p_slots q ! j) = Some d" for d j
    proof -
      have "s_conn (p_slots ?p ! j) = Some d" "j < length (p_slots ?p)"
        using that only by (auto simp: only_slot_def)
      then have "d \<noteq> c" using store_ok_unique [OF ok _ i(1) _ i(3)] that(2) by blast
      then show ?thesis by simp
    qed
    show "d \<in> ps_leases s \<and> (\<exists>j. j < length (p_slots q) \<and> j \<noteq> i \<and> s_conn (p_slots q ! j) = Some d) \<or>
        s_conn (p_slots q ! i) = Some d \<and> leased_ok q i"
      if "d \<in> ps_leases (s\<lparr>ps_pool := q, ps_leases := insert c (ps_leases s)\<rparr>)" for d
      using that lease_elsewhere [OF inv, of d i q, OF _ _ only] i(3) at_i
      by (cases "d = c") (auto simp: leased_ok_def)
  qed (use free i at_i in auto)
qed

lemma inv_reserve:
  assumes inv: "pool_inv s" and t: "ps_thread s t = Outside" and a: "acquire_locked alive (ps_pool s) = (Reserved i, q)"
  shows "pool_inv (s\<lparr>ps_pool := q, ps_thread := (ps_thread s)(t := Dialing i)\<rparr>)"
proof -
  let ?p = "ps_pool s" and ?m = "set_slot i (\<lambda>s. s\<lparr>s_in_use := True\<rparr>) (ps_pool s)"
  note eff = acquire_reserve_effect [OF a]
  have ok: "store_ok ?p" using inv by (simp add: pool_inv_def)
  have okm: "store_ok ?m" by (rule store_ok_set_slot [OF ok]) simp
  have i: "i < length (p_slots ?m)" using eff(1) by simp
  have q: "q = ?m \<or> q = clear_slot i ?m" using eff(4) by blast
  have okq: "store_ok q" using q okm store_ok_clear_slot [OF okm i] by auto
  have only: "only_slot i ?p q"
    using q only_set_slot only_slot_trans [OF only_set_slot only_clear_slot [OF okm i]] by auto
  have free: "\<And>u. thread_slot (ps_thread s u) \<noteq> Some i" using pool_invD(3) [OF inv eff(1,2)] .
  have fo: "free_ok ?p i" using pool_invD(1) [OF inv eff(1,2)] .
  have busy: "busy_ok q i (Dialing i)"
    using eff(4)
  proof
    assume "(s_conn (p_slots ?p ! i) = None \<or> (\<forall>conn. slot_conn ?p i = Some conn \<longrightarrow> \<not> reusable conn)) \<and> q = ?m"
    moreover have "slot_conn ?m i = slot_conn ?p i" using eff(1) by (simp add: slot_conn_def split: option.split)
    ultimately show ?thesis using fo by (auto simp: busy_ok_def free_ok_def slot_conn_def split: option.splits)
  next
    assume "q = clear_slot i ?m"
    then show ?thesis using i by (simp add: busy_ok_def slot_conn_def)
  qed
  have in_use: "s_in_use (p_slots q ! i)" "s_conn (p_slots q ! i) = None \<or> s_conn (p_slots q ! i) = s_conn (p_slots ?p ! i)"
    using q eff(1) i by auto
  have len: "length (p_slots q) = length (p_slots ?p)" using only by (simp add: only_slot_def)
  have nolease: "c \<in> ps_leases s \<Longrightarrow> s_conn (p_slots ?p ! i) \<noteq> Some c" for c using pool_invD(2) [OF inv eff(1,2)] .
  show ?thesis
  proof (rule only_slot_inv [OF inv okq only])
    show "i < length (p_slots q)" using eff(1) len by simp
    show "d \<in> ps_leases s \<and> (\<exists>j. j < length (p_slots q) \<and> j \<noteq> i \<and> s_conn (p_slots q ! j) = Some d) \<or>
        s_conn (p_slots q ! i) = Some d \<and> leased_ok q i"
      if "d \<in> ps_leases (s\<lparr>ps_pool := q, ps_thread := (ps_thread s)(t := Dialing i)\<rparr>)" for d
      using that lease_elsewhere [OF inv, of d i q, OF _ nolease only] by simp
  qed (use free t busy in_use nolease in \<open>auto split: if_splits\<close>)
qed

lemma inv_dial:
  assumes inv: "pool_inv s" and t: "ps_thread s t = Dialing i" and e: "ensure_slot_connected d i (ps_pool s) = (rc, q)"
  shows "pool_inv (s\<lparr>ps_pool := q, ps_thread := (ps_thread s)(t := Dialed i rc)\<rparr>)"
proof -
  let ?p = "ps_pool s" and ?s' = "s\<lparr>ps_pool := q, ps_thread := (ps_thread s)(t := Dialed i rc)\<rparr>"
  have at: "thread_slot (ps_thread s t) = Some i" using t by simp
  note th = pool_inv_threadD [OF inv at]
  have ok: "store_ok ?p" using inv by (simp add: pool_inv_def)
  have "slot_conn ?p i = Some conn \<Longrightarrow> \<not> reusable conn" for conn
    using th(3) t by (simp add: busy_ok_def)
  note eff = ensure_effect [OF e ok th(1) this]
  have len: "length (p_slots q) = length (p_slots ?p)" using eff(2) by (simp add: only_slot_def)
  have busy: "busy_ok q i (Dialed i rc)" using eff(5) by (auto simp: busy_ok_def split: if_splits)
  have nolease: "s_conn (p_slots q ! i) \<noteq> Some c" if c: "c \<in> ps_leases s" for c
  proof
    assume "s_conn (p_slots q ! i) = Some c"
    moreover obtain j where j: "j < length (p_slots ?p)" "s_conn (p_slots ?p ! j) = Some c"
      using pool_inv_leaseD [OF inv c] by metis
    moreover from this have "j \<noteq> i" using th(4) c by auto
    ultimately show False
      using store_ok_unique [OF eff(1), of i j c] only_slot_frame(1) [OF eff(2) j(1)] th(1) len by simp
  qed
  show ?thesis
  proof (rule only_slot_inv [OF inv eff(1,2)])
    show "i < length (p_slots q)" using th(1) len by simp
    show "d \<in> ps_leases s \<and> (\<exists>j. j < length (p_slots q) \<and> j \<noteq> i \<and> s_conn (p_slots q ! j) = Some d) \<or>
        s_conn (p_slots q ! i) = Some d \<and> leased_ok q i"
      if "d \<in> ps_leases ?s'" for d
      using that lease_elsewhere [OF inv, of d i q, OF _ th(4) eff(2)] by simp
    show "u = v" if "thread_slot (ps_thread ?s' u) = Some i"
      "thread_slot (ps_thread ?s' v) = Some i" for u v
      using that th(5) by (auto split: if_splits)
    show "if s_in_use (p_slots q ! i)
      then ((\<exists>u. thread_slot (ps_thread ?s' u) = Some i) \<and>
          (\<forall>u. thread_slot (ps_thread ?s' u) = Some i \<longrightarrow>
            busy_ok q i (ps_thread ?s' u)) \<and>
          (\<forall>c \<in> ps_leases ?s'. s_conn (p_slots q ! i) \<noteq> Some c)) \<or>
        ((\<forall>u. thread_slot (ps_thread ?s' u) \<noteq> Some i) \<and>
          (\<exists>c \<in> ps_leases ?s'. s_conn (p_slots q ! i) = Some c))
      else free_ok q i \<and> (\<forall>u. thread_slot (ps_thread ?s' u) \<noteq> Some i) \<and>
        (\<forall>c \<in> ps_leases ?s'. s_conn (p_slots q ! i) \<noteq> Some c)"
      using busy nolease eff(3) th(2,5) by auto
  qed (use at in auto)
qed

lemma inv_finish:
  assumes inv: "pool_inv s" and t: "ps_thread s t = Dialed i rc"
    and a: "acquire_relocked i rc (ps_pool s) = ((st, out), q)"
  shows "pool_inv (s\<lparr>ps_pool := q, ps_thread := (ps_thread s)(t := Outside),
    ps_leases := (case out of None \<Rightarrow> ps_leases s | Some c \<Rightarrow> insert c (ps_leases s))\<rparr>)"
proof -
  let ?p = "ps_pool s"
  have at: "thread_slot (ps_thread s t) = Some i" using t by simp
  note th = pool_inv_threadD [OF inv at]
  have ok: "store_ok ?p" using inv by (simp add: pool_inv_def)
  have busy: "busy_ok ?p i (Dialed i rc)" using th(3) t by simp
  show ?thesis
  proof (cases "p_shutting_down ?p \<or> rc \<noteq> SQLI_OK")
    case True
    define m where "m = (if p_shutting_down ?p \<and> rc = SQLI_OK then clear_slot i ?p else ?p)"
    have q: "q = set_slot i (\<lambda>s. s\<lparr>s_in_use := False\<rparr>) m" "out = None"
      using a True by (auto simp: acquire_relocked_def m_def split: if_splits)
    have m: "store_ok m" "only_slot i ?p m" "length (p_slots m) = length (p_slots ?p)"
      using ok store_ok_clear_slot [OF ok th(1)] only_clear_slot [OF ok th(1)]
      by (auto simp: m_def only_slot_def)
    have none: "s_conn (p_slots m ! i) = None"
      using True busy th(1) by (auto simp: m_def busy_ok_def split: if_splits)
    have okq: "store_ok q" unfolding q(1) by (rule store_ok_set_slot [OF m(1)]) simp
    have only: "only_slot i ?p q" unfolding q(1) by (rule only_slot_trans [OF m(2) only_set_slot])
    have at_i: "s_conn (p_slots q ! i) = None" "\<not> s_in_use (p_slots q ! i)"
      using none th(1) m(3) by (simp_all add: q(1))
    let ?s' = "s\<lparr>ps_pool := q, ps_thread := (ps_thread s)(t := Outside), ps_leases := ps_leases s\<rparr>"
    have "pool_inv ?s'"
    proof (rule only_slot_inv [OF inv okq only])
      show "i < length (p_slots q)" using th(1) m(3) by (simp add: q(1))
      show "d \<in> ps_leases s \<and> (\<exists>j. j < length (p_slots q) \<and> j \<noteq> i \<and> s_conn (p_slots q ! j) = Some d) \<or>
          s_conn (p_slots q ! i) = Some d \<and> leased_ok q i" if "d \<in> ps_leases ?s'" for d
        using that lease_elsewhere [OF inv, of d i q, OF _ th(4) only] by simp
      have "thread_slot (ps_thread ?s' u) \<noteq> Some i" for u using th(5) by auto
      then show "if s_in_use (p_slots q ! i)
        then ((\<exists>u. thread_slot (ps_thread ?s' u) = Some i) \<and>
            (\<forall>u. thread_slot (ps_thread ?s' u) = Some i \<longrightarrow> busy_ok q i (ps_thread ?s' u)) \<and>
            (\<forall>c \<in> ps_leases ?s'. s_conn (p_slots q ! i) \<noteq> Some c)) \<or>
          ((\<forall>u. thread_slot (ps_thread ?s' u) \<noteq> Some i) \<and> (\<exists>c \<in> ps_leases ?s'. s_conn (p_slots q ! i) = Some c))
        else free_ok q i \<and> (\<forall>u. thread_slot (ps_thread ?s' u) \<noteq> Some i) \<and> (\<forall>c \<in> ps_leases ?s'. s_conn (p_slots q ! i) \<noteq> Some c)"
        using at_i by (simp add: free_ok_def slot_conn_def)
      show "u = v" if "thread_slot (ps_thread ?s' u) = Some i" "thread_slot (ps_thread ?s' v) = Some i" for u v
        using that th(5) by (auto split: if_splits)
    qed (use at in auto)
    then show ?thesis by (simp add: q(2))
  next
    case False
    then have rc: "rc = SQLI_OK" by simp
    obtain conn where conn: "slot_conn ?p i = Some conn" "lifecycle_clear conn"
      using busy rc by (auto simp: busy_ok_def split: option.splits)
    then obtain c where c: "s_conn (p_slots ?p ! i) = Some c" by (auto simp: slot_conn_def split: option.splits)
    have q: "q = ?p" "out = Some c" using a False rc c by (auto simp: acquire_relocked_def)
    let ?s' = "s\<lparr>ps_pool := ?p, ps_thread := (ps_thread s)(t := Outside), ps_leases := insert c (ps_leases s)\<rparr>"
    have only: "only_slot i ?p ?p" by (simp add: only_slot_def)
    have "pool_inv ?s'"
    proof (rule only_slot_inv [OF inv ok only th(1)])
      show "d \<in> ps_leases ?s' \<longleftrightarrow> d \<in> ps_leases s"
        if "j < length (p_slots ?p)" "j \<noteq> i" "s_conn (p_slots ?p ! j) = Some d" for d j
        using that store_ok_unique [OF ok that(1) th(1) that(3)] c by auto
      show "d \<in> ps_leases s \<and> (\<exists>j. j < length (p_slots ?p) \<and> j \<noteq> i \<and> s_conn (p_slots ?p ! j) = Some d) \<or>
          s_conn (p_slots ?p ! i) = Some d \<and> leased_ok ?p i" if "d \<in> ps_leases ?s'" for d
        using that lease_elsewhere [OF inv, of d i ?p, OF _ _ only] c conn
        by (cases "d = c") (auto simp: leased_ok_def lifecycle_clear_def)
      have "thread_slot (ps_thread ?s' u) \<noteq> Some i" for u using th(5) by auto
      then show "if s_in_use (p_slots ?p ! i)
        then ((\<exists>u. thread_slot (ps_thread ?s' u) = Some i) \<and>
            (\<forall>u. thread_slot (ps_thread ?s' u) = Some i \<longrightarrow> busy_ok ?p i (ps_thread ?s' u)) \<and>
            (\<forall>c \<in> ps_leases ?s'. s_conn (p_slots ?p ! i) \<noteq> Some c)) \<or>
          ((\<forall>u. thread_slot (ps_thread ?s' u) \<noteq> Some i) \<and> (\<exists>c \<in> ps_leases ?s'. s_conn (p_slots ?p ! i) = Some c))
        else free_ok ?p i \<and> (\<forall>u. thread_slot (ps_thread ?s' u) \<noteq> Some i) \<and> (\<forall>c \<in> ps_leases ?s'. s_conn (p_slots ?p ! i) \<noteq> Some c)"
        using th(2) c by simp
      show "u = v" if "thread_slot (ps_thread ?s' u) = Some i" "thread_slot (ps_thread ?s' v) = Some i" for u v
        using that th(5) by (auto split: if_splits)
    qed (use at in auto)
    then show ?thesis by (simp add: q)
  qed
qed

text \<open>A change of a leased connection that keeps its released flag.\<close>

lemma inv_lease_conn:
  assumes inv: "pool_inv s" and c: "c \<in> ps_leases s"
    and same: "\<And>conn. p_store (ps_pool s) c = Some conn \<Longrightarrow> l_released (f conn) = l_released conn"
  shows "pool_inv (s\<lparr>ps_pool := set_conn c f (ps_pool s)\<rparr>)"
proof -
  let ?p = "ps_pool s" and ?q = "set_conn c f (ps_pool s)" and ?s' = "s\<lparr>ps_pool := set_conn c f (ps_pool s)\<rparr>"
  have ok: "store_ok ?p" using inv by (simp add: pool_inv_def)
  obtain i conn where i: "i < length (p_slots ?p)" "s_conn (p_slots ?p ! i) = Some c" "p_store ?p c = Some conn"
    "\<not> l_released conn" "s_in_use (p_slots ?p ! i)" and free: "\<forall>t. thread_slot (ps_thread s t) \<noteq> Some i"
    using pool_inv_leaseD [OF inv c] by blast
  have only: "only_slot i ?p ?q" by (rule only_set_conn [OF ok i(1,2)])
  show ?thesis
  proof (rule only_slot_inv [OF inv store_ok_set_conn [OF ok] only])
    show "i < length (p_slots ?q)" using i(1) by simp
    show "d \<in> ps_leases s \<and> (\<exists>j. j < length (p_slots ?q) \<and> j \<noteq> i \<and> s_conn (p_slots ?q ! j) = Some d) \<or>
        s_conn (p_slots ?q ! i) = Some d \<and> leased_ok ?q i" if "d \<in> ps_leases ?s'" for d
      using that lease_elsewhere [OF inv, of d i ?q, OF _ _ only] i same
      by (cases "d = c") (auto simp: leased_ok_def slot_conn_def)
  qed (use i free c in auto)
qed

lemma set_conn_set_conn: "set_conn c f (set_conn c g p) = set_conn c (f \<circ> g) p"
  by (simp add: set_conn_def option.map_comp)

lemma set_conn_id: "set_conn c (\<lambda>conn. conn) p = p"
  by (simp add: set_conn_def option.map_ident)

lemma inv_use:
  assumes inv: "pool_inv s" and c: "c \<in> ps_leases s" "p_store (ps_pool s) c = Some conn" "l_released conn' = l_released conn"
  shows "pool_inv (s\<lparr>ps_pool := (ps_pool s)\<lparr>p_store := (p_store (ps_pool s))(c := Some conn')\<rparr>\<rparr>)"
proof -
  have "(ps_pool s)\<lparr>p_store := (p_store (ps_pool s))(c := Some conn')\<rparr> = set_conn c (\<lambda>_. conn') (ps_pool s)"
    using c(2) by (simp add: set_conn_def)
  then show ?thesis using inv_lease_conn [OF inv c(1), of "\<lambda>_. conn'"] c by simp
qed

lemma release_effect:
  assumes r: "release_locked cas_ok tcp_discard c p = (st, q)" and ok: "store_ok p"
    and i: "i < length (p_slots p)" "s_conn (p_slots p ! i) = Some c" "p_store p c = Some conn" "\<not> l_released conn"
  obtains (rejected) f where "st \<noteq> SQLI_OK" "q = set_conn c f p" "l_released (f conn) = l_released conn"
  | (freed) f where "st = SQLI_OK" "q = set_slot i (\<lambda>s. s\<lparr>s_in_use := False\<rparr>) (set_conn c f p)"
      "l_released (f conn)" "\<not> l_pinned (f conn)" "\<not> l_pinned conn"
      "l_discarded conn \<Longrightarrow> \<not> reusable (f conn)"
proof -
  have "find_conn_slot c 0 (p_slots p) \<noteq> None" using i(1,2) by (auto simp: find_conn_None)
  then obtain k where k: "find_conn_slot c 0 (p_slots p) = Some k" by auto
  then have "k = i" using find_conn_Some [OF k] store_ok_unique [OF ok _ i(1) _ i(2), of k] by simp
  note k = k [unfolded this]
  let ?mark = "\<lambda>conn :: conn_object. conn\<lparr>l_released := True\<rparr>" and ?unmark = "\<lambda>conn :: conn_object. conn\<lparr>l_released := False\<rparr>"
    and ?drop = "\<lambda>conn. snd (sqli_conn_discard tcp_discard conn)"
  consider (stay) "\<not> s_in_use (p_slots p ! i) \<or> l_pinned conn \<or> \<not> cas_ok"
    | (plain) "s_in_use (p_slots p ! i)" "\<not> l_pinned conn" "cas_ok" "\<not> l_discarded conn"
    | (drop) "s_in_use (p_slots p ! i)" "\<not> l_pinned conn" "cas_ok" "l_discarded conn" by blast
  then show thesis
  proof cases
    case stay
    then show thesis using r k i rejected [of "\<lambda>conn. conn"] by (auto simp: release_locked_def set_conn_id)
  next
    case plain
    then show thesis using r k i freed [of ?mark] by (auto simp: release_locked_def)
  next
    case drop
    show thesis
    proof (cases "tcp_discard = SQLI_OK")
      case True
      then show thesis using drop r k i freed [of "?drop \<circ> ?mark"]
        by (auto simp: release_locked_def set_conn_set_conn comp_assoc)
    next
      case False
      then show thesis using drop r k i rejected [of "?unmark \<circ> (?drop \<circ> ?mark)"]
        by (auto simp: release_locked_def set_conn_set_conn comp_assoc)
    qed
  qed
qed

lemma inv_release:
  assumes inv: "pool_inv s" and c: "c \<in> ps_leases s" and r: "release_locked cas_ok tcp_discard c (ps_pool s) = (st, q)"
  shows "pool_inv (s\<lparr>ps_pool := q, ps_leases := (if st = SQLI_OK then ps_leases s - {c} else ps_leases s)\<rparr>)"
proof -
  let ?p = "ps_pool s"
  have ok: "store_ok ?p" using inv by (simp add: pool_inv_def)
  obtain i conn where i: "i < length (p_slots ?p)" "s_conn (p_slots ?p ! i) = Some c" "p_store ?p c = Some conn"
    "\<not> l_released conn" and free: "\<forall>t. thread_slot (ps_thread s t) \<noteq> Some i"
    using pool_inv_leaseD [OF inv c] by blast
  from r ok i show ?thesis
  proof (cases rule: release_effect)
    case (rejected f)
    then show ?thesis using inv_lease_conn [OF inv c, of f] i by simp
  next
    case (freed f)
    let ?m = "set_conn c f ?p" and ?s' = "s\<lparr>ps_pool := q, ps_leases := ps_leases s - {c}\<rparr>"
    have okm: "store_ok ?m" by (rule store_ok_set_conn [OF ok])
    have okq: "store_ok q" unfolding freed(2) by (rule store_ok_set_slot [OF okm]) simp
    have only: "only_slot i ?p q"
      unfolding freed(2) by (rule only_slot_trans [OF only_set_conn [OF ok i(1,2)] only_set_slot])
    have at_i: "\<not> s_in_use (p_slots q ! i)" "s_conn (p_slots q ! i) = Some c" "slot_conn q i = Some (f conn)"
      using i by (simp_all add: freed(2) slot_conn_def)
    have "pool_inv ?s'"
    proof (rule only_slot_inv [OF inv okq only])
      show "i < length (p_slots q)" using i(1) by (simp add: freed(2))
      show "d \<in> ps_leases ?s' \<longleftrightarrow> d \<in> ps_leases s"
        if "j < length (p_slots q)" "j \<noteq> i" "s_conn (p_slots q ! j) = Some d" for d j
        using store_ok_unique [OF okq that(1) _ that(3), of i] at_i(2) i(1) that(2) by (auto simp: freed(2))
      show "d \<in> ps_leases s \<and> (\<exists>j. j < length (p_slots q) \<and> j \<noteq> i \<and> s_conn (p_slots q ! j) = Some d) \<or>
          s_conn (p_slots q ! i) = Some d \<and> leased_ok q i" if "d \<in> ps_leases ?s'" for d
        using that lease_elsewhere [OF inv, of d i q, OF _ _ only] i(2) by auto
    qed (use free at_i freed in \<open>auto simp: free_ok_def\<close>)
    then show ?thesis using freed(1) by simp
  qed
qed

section \<open>Creation and destruction\<close>

definition idle :: "pool \<Rightarrow> bool" where
  "idle p \<longleftrightarrow> store_ok p \<and> (\<forall>i < length (p_slots p). \<not> s_in_use (p_slots p ! i) \<and> free_ok p i)"

lemma idle_inv: "idle p \<Longrightarrow> pool_inv \<lparr>ps_pool = p, ps_thread = (\<lambda>_. Outside), ps_leases = {}\<rparr>"
  by (simp add: idle_def pool_inv_def slots_inv_def threads_inv_def leases_inv_def)

lemma idle_only_slot:
  assumes "idle p" "only_slot i p q" "store_ok q" "i < length (p_slots p)" "\<not> s_in_use (p_slots q ! i)" "free_ok q i"
  shows "idle q"
  unfolding idle_def
proof (intro conjI allI impI)
  fix j assume j: "j < length (p_slots q)"
  then have "j < length (p_slots p)" using assms(2) by (simp add: only_slot_def)
  then show "\<not> s_in_use (p_slots q ! j)" "free_ok q j"
    using assms only_slot_frame(1,2) [OF assms(2)] by (cases "j = i"; simp add: idle_def)+
qed (rule assms(3))

lemma idle_teardown_slots:
  "idle p \<Longrightarrow> i + n \<le> length (p_slots p) \<Longrightarrow> teardown_slots tcp_discard i n p = (st, q) \<Longrightarrow>
   idle q \<and> p_shutting_down q = p_shutting_down p \<and> length (p_slots q) = length (p_slots p) \<and>
   (st = SQLI_OK \<longrightarrow> (\<forall>j. i \<le> j \<and> j < i + n \<longrightarrow> s_conn (p_slots q ! j) = None) \<and>
     (\<forall>j < i. p_slots q ! j = p_slots p ! j))"
proof (induction n arbitrary: i p)
  case (Suc n)
  then have i: "i < length (p_slots p)" and ok: "store_ok p" and free: "\<not> s_in_use (p_slots p ! i)" "free_ok p i"
    by (simp_all add: idle_def)
  have rest: ?case if m: "idle m" "only_slot i p m" "p_shutting_down m = p_shutting_down p"
    and none: "s_conn (p_slots m ! i) = None" and r: "teardown_slots tcp_discard (i + 1) n m = (st, q)" for m
  proof -
    have len: "length (p_slots m) = length (p_slots p)" using m(2) by (simp add: only_slot_def)
    have "p_slots m ! j = p_slots p ! j" if "j < i" for j using m(2) that i by (simp add: only_slot_def)
    then show ?thesis
      using Suc.IH [OF m(1) _ r] Suc.prems(2) m(3) len none by (auto simp: le_Suc_eq Suc_le_eq nat_less_le)
  qed
  show ?case
  proof (cases "s_conn (p_slots p ! i)")
    case None
    let ?m = "set_slot i (\<lambda>s. s\<lparr>s_in_use := False\<rparr>) p"
    have "store_ok ?m" by (rule store_ok_set_slot [OF ok]) simp
    then have "idle ?m"
      using None i by (intro idle_only_slot [OF Suc.prems(1) only_set_slot]) (simp_all add: free_ok_def slot_conn_def)
    then show ?thesis using rest [of ?m] None Suc.prems(3) only_set_slot i by simp
  next
    case (Some c)
    let ?d = "set_conn c (\<lambda>conn. snd (sqli_conn_discard (tcp_discard c) conn)) p"
    have okd: "store_ok ?d" by (rule store_ok_set_conn [OF ok])
    have d: "only_slot i p ?d" by (rule only_set_conn [OF ok i Some])
    show ?thesis
    proof (cases "tcp_discard c = SQLI_OK")
      case True
      let ?m = "set_slot i (\<lambda>s. s\<lparr>s_in_use := False\<rparr>) (clear_slot i ?d)"
      have okc: "store_ok (clear_slot i ?d)" using store_ok_clear_slot [OF okd] i by simp
      have okm: "store_ok ?m" by (rule store_ok_set_slot [OF okc]) simp
      have m: "only_slot i p ?m"
        using only_slot_trans [OF only_slot_trans [OF d only_clear_slot [OF okd]] only_set_slot] i by simp
      have "idle ?m"
        using Some i by (intro idle_only_slot [OF Suc.prems(1) m okm]) (simp_all add: free_ok_def slot_conn_def)
      then show ?thesis using rest [of ?m] m Some True Suc.prems(3) i by simp
    next
      case False
      have "free_ok ?d i" using free(2) Some by (simp add: free_ok_def slot_conn_def split: option.splits)
      then have "idle ?d" using free(1) i by (intro idle_only_slot [OF Suc.prems(1) d okd]) simp_all
      then show ?thesis using False Some Suc.prems(3) by auto
    qed
  qed
qed auto

lemma fill_slot_effect:
  assumes "dial_slot d i p = (SQLI_OK, m)" "idle p" "i < length (p_slots p)" "s_conn (p_slots p ! i) = None"
  defines "q \<equiv> set_conn (p_next m - 1) (\<lambda>conn. conn\<lparr>l_released := True\<rparr>) m"
  shows "idle q" "only_slot i p q" "p_shutting_down q = p_shutting_down p"
    "slot_conn q i = Some ((dial_conn d)\<lparr>l_released := True\<rparr>)"
proof -
  have ok: "store_ok p" and free: "\<not> s_in_use (p_slots p ! i)" using assms(2,3) by (simp_all add: idle_def)
  note eff = dial_slot_effect [OF assms(1) ok assms(3,4)]
  have m: "m = set_slot i (\<lambda>s. s\<lparr>s_conn := Some (p_next p)\<rparr>)
      (p\<lparr>p_store := (p_store p)(p_next p := Some (dial_conn d)), p_next := p_next p + 1\<rparr>)"
    using assms(1) by (auto simp: dial_slot_def split: if_splits)
  have at_i: "p_slots m ! i = (p_slots p ! i)\<lparr>s_conn := Some (p_next p)\<rparr>" "p_next m - 1 = p_next p"
    "p_store m (p_next p) = Some (dial_conn d)" "length (p_slots m) = length (p_slots p)"
    using assms(3) by (simp_all add: m)
  have i: "i < length (p_slots m)" "s_conn (p_slots m ! i) = Some (p_next m - 1)" using at_i assms(3) by simp_all
  show conn: "slot_conn q i = Some ((dial_conn d)\<lparr>l_released := True\<rparr>)"
    using at_i by (simp add: q_def slot_conn_def)
  have okq: "store_ok q" unfolding q_def by (rule store_ok_set_conn [OF eff(1)])
  show only: "only_slot i p q"
    unfolding q_def by (rule only_slot_trans [OF eff(2) only_set_conn [OF eff(1) i]])
  have "free_ok q i" using conn by (simp add: free_ok_def dial_conn_def)
  then show "idle q"
    using free at_i assms(3) by (intro idle_only_slot [OF assms(2) only okq]) (simp_all add: q_def)
  show "p_shutting_down q = p_shutting_down p" using eff(4) by (simp add: q_def)
qed

lemma idle_fill_slots:
  "idle p \<Longrightarrow> i + length ds \<le> length (p_slots p) \<Longrightarrow>
   \<forall>j. i \<le> j \<and> j < length (p_slots p) \<longrightarrow> s_conn (p_slots p ! j) = None \<Longrightarrow> fill_slots ds i p = (st, q) \<Longrightarrow>
   idle q \<and> p_shutting_down q = p_shutting_down p \<and> length (p_slots q) = length (p_slots p) \<and>
   (st = SQLI_OK \<longrightarrow> (\<forall>j < i. slot_conn q j = slot_conn p j) \<and>
      (\<forall>j < length ds. slot_conn q (i + j) = Some ((dial_conn (ds ! j))\<lparr>l_released := True\<rparr>)))"
proof (induction ds arbitrary: i p)
  case (Cons d ds)
  obtain rc m where d: "dial_slot d i p = (rc, m)" by force
  have i: "i < length (p_slots p)" "s_conn (p_slots p ! i) = None" using Cons.prems(2,3) by simp_all
  show ?case
  proof (cases "rc = SQLI_OK")
    case True
    let ?q = "set_conn (p_next m - 1) (\<lambda>conn. conn\<lparr>l_released := True\<rparr>) m"
    note eff = fill_slot_effect [OF d [unfolded True] Cons.prems(1) i]
    have len: "length (p_slots ?q) = length (p_slots p)" using eff(2) by (simp add: only_slot_def)
    have none: "\<forall>j. i + 1 \<le> j \<and> j < length (p_slots ?q) \<longrightarrow> s_conn (p_slots ?q ! j) = None"
      using Cons.prems(3) only_slot_frame(1) [OF eff(2)] len by simp
    have r: "fill_slots ds (i + 1) ?q = (st, q)" using Cons.prems(4) d True by simp
    note IH = Cons.IH [OF eff(1) _ none r]
    have before: "slot_conn ?q j = slot_conn p j" if "j < i" for j
      using eff(2) that i(1) by (simp add: only_slot_def)
    have "slot_conn q (i + j) = Some ((dial_conn ((d # ds) ! j))\<lparr>l_released := True\<rparr>)"
      if "st = SQLI_OK" "j < length (d # ds)" for j
      using that IH Cons.prems(2) len eff(4) by (cases j) auto
    then show ?thesis using IH Cons.prems(2) len eff(3) before by simp
  next
    case False
    then have "m = p" "rc = st" "q = p" using d Cons.prems(4) by (auto simp: dial_slot_def split: if_splits)
    then show ?thesis using Cons.prems(1) False by simp
  qed
qed simp

lemma idle_empty_pool: "idle (empty_pool n params)"
  by (auto simp: idle_def store_ok_def free_ok_def slot_conn_def empty_pool_def)

lemma created_pool:
  assumes "sqli_pool_create mem_pool mem_slots sync_ok mem dials lock_ok tcp_discard out_given params n = (SQLI_OK, Some p)"
  shows "idle p" "length (p_slots p) = n" "\<not> p_shutting_down p" "0 < n"
    "j < n \<Longrightarrow> slot_conn p j = Some ((dial_conn (dials j))\<lparr>l_released := True\<rparr>)"
proof -
  obtain ps where params: "params = Some ps" "0 < n" and mem: "mem_pool" "mem_slots" "sync_ok"
    using assms by (auto simp: sqli_pool_create_def split: if_splits)
  obtain copy where copy: "copy_pool_params mem ps = (SQLI_OK, copy)"
    using assms params mem by (auto simp: sqli_pool_create_def split: if_splits prod.splits)
  obtain rc q where f: "fill_slots (map dials [0..<n]) 0 (empty_pool n copy) = (rc, q)" by force
  have inner: "(if rc \<noteq> SQLI_OK then failed_pool_creation lock_ok tcp_discard q rc else (SQLI_OK, Some q)) = (SQLI_OK, Some p)"
    using assms params mem copy f by (simp add: sqli_pool_create_def split: if_splits)
  have "rc = SQLI_OK"
  proof (rule ccontr)
    assume "rc \<noteq> SQLI_OK"
    with inner show False by (auto simp: failed_pool_creation_def split: if_splits prod.splits)
  qed
  with inner have "q = p" by simp
  have slots: "length (p_slots (empty_pool n copy)) = n" "\<forall>j < n. s_conn (p_slots (empty_pool n copy) ! j) = None"
    "\<not> p_shutting_down (empty_pool n copy)"
    by (simp_all add: empty_pool_def)
  note fill = idle_fill_slots [OF idle_empty_pool _ _ f, simplified slots \<open>rc = SQLI_OK\<close> \<open>q = p\<close>]
  show "idle p" "length (p_slots p) = n" "\<not> p_shutting_down p" "0 < n" using fill slots params by simp_all
  show "j < n \<Longrightarrow> slot_conn p j = Some ((dial_conn (dials j))\<lparr>l_released := True\<rparr>)" using fill slots by simp
qed

lemma thread_slot_None [simp]: "thread_slot th = None \<longleftrightarrow> th = Outside"
  by (cases th) simp_all

lemma idle_pool_inv: "idle (ps_pool s) \<Longrightarrow> \<forall>t. ps_thread s t = Outside \<Longrightarrow> ps_leases s = {} \<Longrightarrow> pool_inv s"
  by (simp add: idle_def pool_inv_def slots_inv_def threads_inv_def leases_inv_def)

lemma unused_pool:
  assumes "pool_inv s" "\<forall>x \<in> set (p_slots (ps_pool s)). \<not> s_in_use x"
  shows "\<forall>t. ps_thread s t = Outside" "ps_leases s = {}" "idle (ps_pool s)"
proof -
  have unused: "\<not> s_in_use (p_slots (ps_pool s) ! i)" if "i < length (p_slots (ps_pool s))" for i
    using assms(2) that by simp
  show "\<forall>t. ps_thread s t = Outside"
    using pool_inv_threadD(1,2) [OF assms(1)] unused by (metis option.exhaust thread_slot_None)
  show "ps_leases s = {}"
    using pool_inv_leaseD [OF assms(1)] unused by (metis all_not_in_conv)
  show "idle (ps_pool s)"
    using assms(1) unused pool_invD(1) [OF assms(1)] by (simp add: idle_def pool_inv_def)
qed

lemma idle_shutting_down: "idle (p\<lparr>p_shutting_down := b\<rparr>) = idle p"
proof -
  have "slot_conn (p\<lparr>p_shutting_down := b\<rparr>) i = slot_conn p i" for i by (simp add: slot_conn_def split: option.split)
  then show ?thesis by (simp add: idle_def store_ok_def free_ok_def)
qed

lemma inv_destroy:
  assumes inv: "pool_inv s" and d: "sqli_pool_destroy True tcp_discard (Some (ps_pool s)) = (st, Some q)"
  shows "pool_inv (s\<lparr>ps_pool := q\<rparr>)"
proof (cases "\<exists>x \<in> set (p_slots (ps_pool s)). s_in_use x")
  case True
  then have "q = ps_pool s" using d by (simp add: sqli_pool_destroy_def destroy_locked_def)
  then show ?thesis using inv by simp
next
  case False
  let ?p = "(ps_pool s)\<lparr>p_shutting_down := True\<rparr>"
  obtain st' r where r: "teardown_slots tcp_discard 0 (length (p_slots ?p)) ?p = (st', r)" by fastforce
  then have "q = r" using d False by (simp add: sqli_pool_destroy_def destroy_locked_def split: if_splits)
  have "idle ?p" using unused_pool(3) [OF inv] False by (simp add: idle_shutting_down)
  from idle_teardown_slots [OF this _ r] \<open>q = r\<close> have "idle q" by simp
  then show ?thesis
    using unused_pool(1,2) [OF inv] False by (intro idle_pool_inv) simp_all
qed

lemma inv_abandon:
  assumes inv: "pool_inv s" and t: "ps_thread s t = Dialed i rc"
  shows "pool_inv (s\<lparr>ps_thread := (ps_thread s)(t := Abandoned i)\<rparr>)"
proof -
  let ?s' = "s\<lparr>ps_thread := (ps_thread s)(t := Abandoned i)\<rparr>"
  have same: "ps_pool ?s' = ps_pool s" "ps_leases ?s' = ps_leases s" by simp_all
  have slot: "thread_slot (ps_thread ?s' u) = thread_slot (ps_thread s u)" for u using t by simp
  have busy: "busy_ok (ps_pool s) j (ps_thread ?s' u)" if "busy_ok (ps_pool s) j (ps_thread s u)" for u j
    using that by (simp add: busy_ok_def)
  show ?thesis
    using inv busy unfolding pool_inv_def slots_inv_def threads_inv_def leases_inv_def same slot by blast
qed

theorem pool_reach_inv: "pool_reach s \<Longrightarrow> pool_inv s"
proof (induction rule: pool_reach.induct)
  case (created mem_pool mem_slots sync_ok mem dials lock_ok tcp_discard params n p)
  then show ?case by (intro idle_inv created_pool(1))
next
  case (step s s')
  from step(2,3) show ?case
    by (induction rule: pool_step.induct)
      (blast intro: inv_acquire_now inv_reserve inv_dial inv_finish inv_abandon inv_use inv_release inv_destroy)+
qed

text \<open>The slot of a lease, and the slots in use counted by their users.\<close>

lemma slots_in_use:
  assumes inv: "pool_inv s"
  defines "p \<equiv> ps_pool s"
  shows "card (ps_leases s) + card {t. ps_thread s t \<noteq> Outside} = card {i. i < length (p_slots p) \<and> s_in_use (p_slots p ! i)}"
    "finite (ps_leases s)" "finite {t. ps_thread s t \<noteq> Outside}"
proof -
  let ?U = "{i. i < length (p_slots p) \<and> s_in_use (p_slots p ! i)}" and ?T = "{t. ps_thread s t \<noteq> Outside}"
  have ok: "store_ok p" using inv by (simp add: pool_inv_def p_def)
  have "\<exists>i. i < length (p_slots p) \<and> s_conn (p_slots p ! i) = Some c \<and> s_in_use (p_slots p ! i) \<and>
      (\<forall>t. thread_slot (ps_thread s t) \<noteq> Some i)" if "c \<in> ps_leases s" for c
    using pool_inv_leaseD [OF inv that] unfolding p_def by metis
  then obtain home where home: "\<And>c. c \<in> ps_leases s \<Longrightarrow> home c < length (p_slots p) \<and> s_conn (p_slots p ! home c) = Some c \<and>
      s_in_use (p_slots p ! home c) \<and> (\<forall>t. thread_slot (ps_thread s t) \<noteq> Some (home c))"
    by metis
  let ?f = "\<lambda>t. the (thread_slot (ps_thread s t))"
  have f: "thread_slot (ps_thread s t) = Some (?f t)" if "t \<in> ?T" for t using that by (cases "ps_thread s t") simp_all
  have inj_home: "inj_on home (ps_leases s)" by (metis home inj_onI option.inject)
  have inj_f: "inj_on ?f ?T" using f pool_inv_threadD(5) [OF inv] by (metis (mono_tags, lifting) inj_onI)
  have "home c \<noteq> ?f t" if "c \<in> ps_leases s" "t \<in> ?T" for c t using home [OF that(1)] f [OF that(2)] by metis
  then have disjoint: "home ` ps_leases s \<inter> ?f ` ?T = {}" by blast
  have "home ` ps_leases s \<union> ?f ` ?T = ?U"
  proof
    show "home ` ps_leases s \<union> ?f ` ?T \<subseteq> ?U"
      using home f pool_inv_threadD(1,2) [OF inv] unfolding p_def by blast
    show "?U \<subseteq> home ` ps_leases s \<union> ?f ` ?T"
    proof
      fix i assume i: "i \<in> ?U"
      then have "(\<exists>t. thread_slot (ps_thread s t) = Some i) \<or> (\<exists>c \<in> ps_leases s. s_conn (p_slots p ! i) = Some c)"
        using inv by (simp add: pool_inv_def slots_inv_def p_def)
      then show "i \<in> home ` ps_leases s \<union> ?f ` ?T"
      proof
        assume "\<exists>t. thread_slot (ps_thread s t) = Some i"
        then obtain t where "thread_slot (ps_thread s t) = Some i" by blast
        then show ?thesis by (intro UnI2 image_eqI [of _ _ t]) auto
      next
        assume "\<exists>c \<in> ps_leases s. s_conn (p_slots p ! i) = Some c"
        then obtain c where c: "c \<in> ps_leases s" "s_conn (p_slots p ! i) = Some c" by blast
        then have "home c = i" using store_ok_unique [OF ok, of "home c" i] home i by blast
        then show ?thesis using c by blast
      qed
    qed
  qed
  moreover have "finite ?U" by simp
  ultimately have fin: "finite (home ` ps_leases s)" "finite (?f ` ?T)" and
    "card (home ` ps_leases s) + card (?f ` ?T) = card ?U"
    using disjoint by (metis finite_Un, metis finite_Un, metis card_Un_disjoint finite_Un)
  then show "card (ps_leases s) + card ?T = card ?U"
    by (simp add: card_image inj_home inj_f)
  show "finite (ps_leases s)" "finite ?T"
    using fin by (simp_all only: finite_image_iff [OF inj_home] finite_image_iff [OF inj_f])
qed

end
