(* ===== verification/PoolSafety.thy ===== *)
theory PoolSafety
  imports PoolFacts
begin

text \<open>
  What the pool promises its users, whatever the interleaving: leases are exclusive and clean, every
  slot in use has exactly one user, wrong releases and an early destruction are refused, and a call
  with a finite timeout returns.
\<close>

lemma dialed_lease:
  assumes inv: "pool_inv s" and t: "ps_thread s t = Dialed i rc"
    and a: "acquire_relocked i rc (ps_pool s) = ((SQLI_OK, Some c), q)"
  shows "c \<notin> ps_leases s" "\<exists>conn. p_store q c = Some conn \<and> reusable conn \<and> lifecycle_clear conn"
proof -
  let ?p = "ps_pool s"
  have "thread_slot (ps_thread s t) = Some i" using t by simp
  note th = pool_inv_threadD [OF inv this]
  have eff: "q = ?p" "rc = SQLI_OK" "s_conn (p_slots ?p ! i) = Some c"
    using a by (auto simp: acquire_relocked_def split: if_splits)
  show "c \<notin> ps_leases s" using th(4) eff(3) by blast
  show "\<exists>conn. p_store q c = Some conn \<and> reusable conn \<and> lifecycle_clear conn"
    using th(3) t eff by (simp add: busy_ok_def slot_conn_def split: option.splits)
qed

lemma immediate_lease:
  assumes inv: "pool_inv s" and a: "acquire_locked alive (ps_pool s) = (Acquired c, q)"
  shows "c \<notin> ps_leases s" "\<exists>conn. p_store q c = Some conn \<and> reusable conn \<and> lifecycle_clear conn"
proof -
  let ?p = "ps_pool s"
  from a show "c \<notin> ps_leases s"
    by (rule acquire_now_effect) (use pool_invD(2) [OF inv] in blast)
  from a show "\<exists>conn. p_store q c = Some conn \<and> reusable conn \<and> lifecycle_clear conn"
  proof (rule acquire_now_effect)
    fix i conn
    assume i: "i < length (p_slots ?p)" "\<not> s_in_use (p_slots ?p ! i)" "s_conn (p_slots ?p ! i) = Some c"
      "p_store ?p c = Some conn" "reusable conn"
      and q: "q = set_conn c (\<lambda>conn. conn\<lparr>l_released := False\<rparr>) (set_slot i (\<lambda>s. s\<lparr>s_in_use := True\<rparr>) ?p)"
    have "free_ok ?p i" by (rule pool_invD(1) [OF inv i(1,2)])
    then have "\<not> l_pinned conn" using i by (simp add: free_ok_def slot_conn_def)
    then show "\<exists>conn. p_store q c = Some conn \<and> reusable conn \<and> lifecycle_clear conn"
      using i by (simp add: q reusable_def lifecycle_clear_def)
  qed
qed

lemma teardown_slots_OK: "\<forall>c. tcp_discard c = SQLI_OK \<Longrightarrow> fst (teardown_slots tcp_discard i n p) = SQLI_OK"
  by (induction n arbitrary: i p) (auto simp: Let_def split: option.splits)

lemma nanos_deadline:
  assumes "0 \<le> tv_nsec now" "tv_nsec now < 1000000000"
  shows "nanos (acquire_deadline now timeout_ms) = nanos now + int timeout_ms * 1000000"
    "0 \<le> tv_nsec (acquire_deadline now timeout_ms)" "tv_nsec (acquire_deadline now timeout_ms) < 1000000000"
proof -
  let ?n = "tv_nsec now + int (timeout_ms mod 1000) * 1000000"
  have ms: "int (timeout_ms mod 1000) \<le> 999" by simp
  have "(tv_nsec now mod 2 ^ 64 + int (timeout_ms mod 1000) * 1000000 mod 2 ^ 64) mod 2 ^ 64 = ?n"
    using assms ms by simp
  then have d: "acquire_deadline now timeout_ms =
      \<lparr>tv_sec = tv_sec now + int (timeout_ms div 1000) + ?n div 1000000000, tv_nsec = ?n mod 1000000000\<rparr>"
    by (simp only: acquire_deadline_def Let_def)
  have "int timeout_ms = int (timeout_ms div 1000) * 1000 + int (timeout_ms mod 1000)"
    by (metis div_mult_mod_eq of_nat_add of_nat_mult of_nat_numeral)
  then show "nanos (acquire_deadline now timeout_ms) = nanos now + int timeout_ms * 1000000"
    unfolding d nanos_def timespec.simps using div_mult_mod_eq [of ?n 1000000000] by (simp add: algebra_simps)
  show "0 \<le> tv_nsec (acquire_deadline now timeout_ms)" "tv_nsec (acquire_deadline now timeout_ms) < 1000000000"
    by (simp_all add: d)
qed

text \<open>The clock shows \<open>time\<close> or later when a wait is begun or ended.\<close>

definition clock_reached :: "int \<Rightarrow> wakeup \<Rightarrow> bool" where
  "clock_reached time w \<longleftrightarrow> time \<le> nanos (w_called w) \<or> time \<le> nanos (w_woken w)"

lemma acquire_loop_returns:
  assumes "timeout_ms = 0 \<or> 0 \<le> tv_nsec deadline \<and> tv_nsec deadline < 1000000000 \<and>
      (\<exists>w \<in> set waits. nanos deadline \<le> nanos (w_called w) \<or> \<not> w_signalled w \<and> nanos deadline \<le> nanos (w_woken w))"
  shows "\<exists>r. acquire_loop e (Some timeout_ms) deadline waits p = Some r"
  using assms
proof (induction waits arbitrary: p)
  case Nil
  obtain out p' where "acquire_locked (e_alive e) p = (out, p')" by force
  then show ?case using Nil by (cases out) (simp_all add: Let_def prod.case_eq_if del: split_paired_Ex)
next
  case (Cons w waits)
  obtain out p' where a: "acquire_locked (e_alive e) p = (out, p')" by force
  show ?case
  proof (cases out)
    case Unavailable
    show ?thesis
    proof (cases "timeout_ms = 0 \<or> pthread_cond_timedwait deadline w = Wait_ETIMEDOUT")
      case True
      then show ?thesis using Unavailable a by auto
    next
      case False
      then have "\<exists>r. acquire_loop e (Some timeout_ms) deadline waits (w_others w p') = Some r"
        using Cons.prems by (intro Cons.IH) (auto simp: pthread_cond_timedwait_def split: if_splits)
      then show ?thesis using False Unavailable a by simp
    qed
  qed (use a in \<open>simp_all add: Let_def prod.case_eq_if del: split_paired_Ex\<close>)
qed

lemma acquire_loop_timeout:
  assumes "acquire_loop e (Some timeout_ms) deadline waits p = Some ((SQLI_TIMEOUT, out), q)"
  shows "out = None \<and> (timeout_ms = 0 \<or> SQLI_TIMEOUT \<in> {d_create (e_dial e), d_connect (e_dial e)} \<or>
    (\<exists>w \<in> set waits. clock_reached (nanos deadline) w))"
  using assms
proof (induction waits arbitrary: p)
  case Nil
  then show ?case
    by (auto simp: ensure_slot_connected_def dial_slot_def acquire_relocked_def Let_def
        split: acquire_outcome.splits prod.splits if_splits)
next
  case (Cons w waits)
  show ?case
  proof (cases "\<exists>p'. acquire_locked (e_alive e) p = (Unavailable, p')")
    case True
    then obtain p' where a: "acquire_locked (e_alive e) p = (Unavailable, p')" by blast
    show ?thesis
    proof (cases "timeout_ms = 0 \<or> pthread_cond_timedwait deadline w = Wait_ETIMEDOUT")
      case True
      then show ?thesis
        using a Cons.prems by (auto simp: pthread_cond_timedwait_def clock_reached_def split: if_splits)
    next
      case False
      then show ?thesis using a Cons.prems Cons.IH [of "w_others w p'"] by auto
    qed
  next
    case False
    then show ?thesis
      using Cons.prems
      by (auto simp: ensure_slot_connected_def dial_slot_def acquire_relocked_def Let_def
          split: acquire_outcome.splits prod.splits if_splits)
  qed
qed

section \<open>Properties\<close>

definition example_params :: sqli_connect_params where
  "example_params = no_params\<lparr>cp_hostname := Some ''db''\<rparr>"

definition example_pool :: pool where
  "example_pool = snd (fill_slots [\<lparr>d_create = SQLI_OK, d_connect = SQLI_OK, d_socket = 7\<rparr>] 0 (empty_pool 1 example_params))"

lemma example_created:
  "sqli_pool_create True True True (\<lambda>_. True) (\<lambda>_. \<lparr>d_create = SQLI_OK, d_connect = SQLI_OK, d_socket = 7\<rparr>)
     True (\<lambda>_. SQLI_OK) True (Some example_params) 1 = (SQLI_OK, Some example_pool)"
proof -
  have copy: "copy_pool_params (\<lambda>_. True) example_params = (SQLI_OK, example_params)"
    by (simp add: copy_pool_params_def example_params_def no_params_def dup_nullable_def)
  let ?d = "\<lparr>d_create = SQLI_OK, d_connect = SQLI_OK, d_socket = 7\<rparr>"
  obtain q where q: "fill_slots [?d] 0 (empty_pool 1 example_params) = (SQLI_OK, q)"
    by (simp add: dial_slot_def)
  then have "q = example_pool" by (simp add: example_pool_def del: fill_slots.simps)
  moreover have "map (\<lambda>_ :: nat. ?d) [0..<1] = [?d]" by simp
  ultimately show ?thesis using q by (simp add: sqli_pool_create_def copy del: fill_slots.simps)
qed

definition example_system :: pool_system where
  "example_system = \<lparr>ps_pool = example_pool, ps_thread = (\<lambda>_. Outside), ps_leases = {}\<rparr>"

lemma example_reach: "pool_reach example_system"
  unfolding example_system_def by (rule pool_reach.created [OF example_created])

lemma example_slots:
  "p_slots example_pool = [\<lparr>s_conn = Some 0, s_in_use = False\<rparr>]" "\<not> p_shutting_down example_pool"
  "p_store example_pool 0 = Some ((dial_conn \<lparr>d_create = SQLI_OK, d_connect = SQLI_OK, d_socket = 7\<rparr>)\<lparr>l_released := True\<rparr>)"
  by (simp_all add: example_pool_def empty_pool_def dial_slot_def set_slot_def)

lemma example_acquire: "\<exists>q. acquire_locked (\<lambda>_. True) example_pool = (Acquired 0, q)"
  by (simp add: acquire_locked_def find_available_slot_locked_def example_slots set_slot_def reusable_def dial_conn_def)

text \<open>
  C10. In every reachable state of the pool, a connection that an acquire call hands out, straight
  from a free slot or after reconnecting one, is leased to nobody else, is connected and is not
  pinned, discarded or marked released.
\<close>

theorem pool_lease_exclusive:
  assumes "pool_reach s"
    and "acquire_locked alive (ps_pool s) = (Acquired c, q) \<or>
      ps_thread s t = Dialed i rc \<and> acquire_relocked i rc (ps_pool s) = ((SQLI_OK, Some c), q)"
  shows "c \<notin> ps_leases s \<and> (\<exists>conn. p_store q c = Some conn \<and> reusable conn \<and> lifecycle_clear conn)"
  using assms(2) dialed_lease [OF pool_reach_inv [OF assms(1)]] immediate_lease [OF pool_reach_inv [OF assms(1)]]
  by blast

lemma pool_lease_exclusive_witness:
  "\<exists>q. acquire_locked (\<lambda>_. True) example_pool = (Acquired 0, q) \<and>
     (\<exists>conn. p_store q 0 = Some conn \<and> reusable conn \<and> lifecycle_clear conn)"
proof -
  obtain q where q: "acquire_locked (\<lambda>_. True) example_pool = (Acquired 0, q)" using example_acquire by blast
  then have "acquire_locked (\<lambda>_. True) (ps_pool example_system) = (Acquired 0, q)" by (simp add: example_system_def)
  then show ?thesis using pool_lease_exclusive [OF example_reach, of "\<lambda>_. True" 0 q] q by blast
qed

text \<open>
  C11. The slots marked in use are in one-to-one correspondence with the leases and the acquire calls
  that are reconnecting a slot, or that could not lock the pool again after it: no other slot leaks, none is
  shared, and there are never more leases than slots.
\<close>

theorem pool_slots_accounted:
  assumes "pool_reach s"
  shows "finite (ps_leases s) \<and> finite {t. ps_thread s t \<noteq> Outside} \<and>
    card (ps_leases s) + card {t. ps_thread s t \<noteq> Outside} =
      card {i. i < length (p_slots (ps_pool s)) \<and> s_in_use (p_slots (ps_pool s) ! i)} \<and>
    card (ps_leases s) \<le> length (p_slots (ps_pool s))"
proof -
  note count = slots_in_use [OF pool_reach_inv [OF assms]]
  have "{i. i < length (p_slots (ps_pool s)) \<and> s_in_use (p_slots (ps_pool s) ! i)} \<subseteq> {..<length (p_slots (ps_pool s))}"
    by blast
  then have "card {i. i < length (p_slots (ps_pool s)) \<and> s_in_use (p_slots (ps_pool s) ! i)} \<le> length (p_slots (ps_pool s))"
    using card_mono [OF finite_lessThan] by fastforce
  then show ?thesis using count by simp
qed

lemma pool_slots_accounted_witness:
  "card (ps_leases example_system) + card {t. ps_thread example_system t \<noteq> Outside} =
     card {i. i < length (p_slots example_pool) \<and> s_in_use (p_slots example_pool ! i)}"
  using pool_slots_accounted [OF example_reach] by (simp add: example_system_def)

text \<open>
  Releasing a connection that is not leased and is not in the hands of a thread that is
  reconnecting a slot (a second release, a connection of another pool) is refused and
  changes nothing.
\<close>

theorem pool_release_refused:
  assumes "pool_reach s" "c \<notin> ps_leases s"
    and "\<forall>t i. thread_slot (ps_thread s t) = Some i \<longrightarrow> s_conn (p_slots (ps_pool s) ! i) \<noteq> Some c"
  shows "release_locked cas_ok tcp_discard c (ps_pool s) = (SQLI_INVALID_STATE, ps_pool s)"
proof (cases "find_conn_slot c 0 (p_slots (ps_pool s))")
  case None
  then show ?thesis by (simp add: release_locked_def)
next
  case (Some i)
  then have i: "i < length (p_slots (ps_pool s))" "s_conn (p_slots (ps_pool s) ! i) = Some c"
    using find_conn_Some [OF Some] by simp_all
  have "slots_inv s" using pool_reach_inv [OF assms(1)] by (simp add: pool_inv_def)
  then have "\<not> s_in_use (p_slots (ps_pool s) ! i)"
    using i assms(2,3) by (auto simp: slots_inv_def split: if_splits)
  then show ?thesis using Some by (simp add: release_locked_def split: option.splits)
qed

lemma pool_release_refused_witness:
  "release_locked True SQLI_OK 0 example_pool = (SQLI_INVALID_STATE, example_pool)"
  using pool_release_refused [OF example_reach, of 0 True SQLI_OK] by (simp add: example_system_def)

text \<open>
  A pool with a connection leased or a slot being reconnected refuses to be destroyed and is
  left as it was. A pool that nobody uses is destroyed when every transport teardown succeeds; when
  one fails the pool remains, shut down, and acquires nothing from then on.
\<close>

theorem pool_destroy_safe:
  assumes "pool_reach s" "sqli_pool_destroy True tcp_discard (Some (ps_pool s)) = (st, r)"
  shows "if ps_leases s \<noteq> {} \<or> (\<exists>t. ps_thread s t \<noteq> Outside)
    then st = SQLI_INVALID_STATE \<and> r = Some (ps_pool s)
    else ((\<forall>c. tcp_discard c = SQLI_OK) \<longrightarrow> r = None) \<and>
      (case r of None \<Rightarrow> st = SQLI_OK | Some q \<Rightarrow> st \<noteq> SQLI_OK \<and> acquire_locked alive q = (Refused, q))"
proof (cases "\<exists>x \<in> set (p_slots (ps_pool s)). s_in_use x")
  case True
  then obtain i where i: "i < length (p_slots (ps_pool s))" "s_in_use (p_slots (ps_pool s) ! i)"
    by (auto simp: in_set_conv_nth)
  have "slots_inv s" using pool_reach_inv [OF assms(1)] by (simp add: pool_inv_def)
  then have "(\<exists>t. thread_slot (ps_thread s t) = Some i) \<or> (\<exists>c \<in> ps_leases s. s_conn (p_slots (ps_pool s) ! i) = Some c)"
    using i by (auto simp: slots_inv_def)
  then have "ps_leases s \<noteq> {} \<or> (\<exists>t. ps_thread s t \<noteq> Outside)" by (metis empty_iff option.distinct(1) thread_slot.simps(1))
  moreover have "st = SQLI_INVALID_STATE \<and> r = Some (ps_pool s)"
    using assms(2) True by (simp add: sqli_pool_destroy_def destroy_locked_def)
  ultimately show ?thesis by simp
next
  case False
  let ?p = "(ps_pool s)\<lparr>p_shutting_down := True\<rparr>"
  note unused = unused_pool [OF pool_reach_inv [OF assms(1)]]
  obtain st' q where q: "teardown_slots tcp_discard 0 (length (p_slots ?p)) ?p = (st', q)" by fastforce
  then have r: "(if st' \<noteq> SQLI_OK then (st', Some q) else (SQLI_OK, None)) = (st, r)"
    using assms(2) False by (simp add: sqli_pool_destroy_def destroy_locked_def)
  have "idle ?p" using unused(3) False by (simp add: idle_shutting_down)
  then have "p_shutting_down q" using idle_teardown_slots [OF _ _ q] by simp
  then have "acquire_locked alive q = (Refused, q)" by (simp add: acquire_locked_def)
  moreover have "(\<forall>c. tcp_discard c = SQLI_OK) \<Longrightarrow> st' = SQLI_OK"
    using teardown_slots_OK [of tcp_discard 0 "length (p_slots ?p)" ?p] q by simp
  moreover have "ps_leases s = {}" "\<forall>t. ps_thread s t = Outside" using unused False by auto
  ultimately show ?thesis using r by (auto split: if_splits)
qed

lemma pool_destroy_safe_witness:
  "sqli_pool_destroy True (\<lambda>_. SQLI_OK) (Some example_pool) = (SQLI_OK, None)"
proof -
  obtain st r where d: "sqli_pool_destroy True (\<lambda>_. SQLI_OK) (Some example_pool) = (st, r)" by force
  then have "sqli_pool_destroy True (\<lambda>_. SQLI_OK) (Some (ps_pool example_system)) = (st, r)" by (simp add: example_system_def)
  from pool_destroy_safe [OF example_reach this, of "\<lambda>_. True"] d show ?thesis
    by (simp add: example_system_def split: option.splits)
qed

text \<open>
  C31. An acquire call with a finite timeout returns in time, and not too early: it returns by the first wait
  that is begun once \<open>timeout_ms\<close> milliseconds have passed on the clock, or that ends unsignalled after
  that (and at once, without a wait, when the timeout is 0); and it reports \<open>SQLI_TIMEOUT\<close>, with no
  connection, only when a wait saw those milliseconds pass (or connecting the slot reported it). What connecting a slot takes is not limited by the timeout.
\<close>

theorem pool_acquire_returns:
  assumes "timeout_ms < 2 ^ 32 - 1" "0 \<le> tv_nsec (e_now e)" "tv_nsec (e_now e) < 1000000000"
  defines "limit \<equiv> nanos (e_now e) + int timeout_ms * 1000000"
  shows "(timeout_ms = 0 \<or> (\<exists>w \<in> set waits. limit \<le> nanos (w_called w) \<or> \<not> w_signalled w \<and> limit \<le> nanos (w_woken w)) \<longrightarrow>
      (\<exists>r. sqli_pool_acquire_timeout e waits timeout_ms out_given p = Some r)) \<and>
    (sqli_pool_acquire_timeout e waits timeout_ms out_given p = Some ((SQLI_TIMEOUT, out), q) \<longrightarrow>
      out = None \<and> (timeout_ms = 0 \<or> SQLI_TIMEOUT \<in> {d_create (e_dial e), d_connect (e_dial e)} \<or>
        (\<exists>w \<in> set waits. clock_reached limit w)))"
proof -
  note deadline = nanos_deadline [OF assms(2,3), of timeout_ms]
  have "timeout_ms \<noteq> 2 ^ 32 - 1" using assms(1) by auto
  then show ?thesis
    using acquire_loop_returns [of timeout_ms "acquire_deadline (e_now e) timeout_ms" waits e]
      acquire_loop_timeout [of e timeout_ms "acquire_deadline (e_now e) timeout_ms" waits _ out] deadline
    unfolding limit_def
    by (auto simp: sqli_pool_acquire_timeout_def simp del: acquire_loop.simps split: option.splits if_splits)
qed

definition example_env :: acquire_env where
  "example_env = \<lparr>e_lock_ok = True, e_relock_ok = True, e_alive = (\<lambda>_. True),
     e_dial = \<lparr>d_create = SQLI_OK, d_connect = SQLI_OK, d_socket = 7\<rparr>, e_meanwhile = (\<lambda>p. p),
     e_now = \<lparr>tv_sec = 9, tv_nsec = 980000000\<rparr>\<rparr>"

lemma pool_acquire_returns_witness:
  "\<exists>r. sqli_pool_acquire_timeout example_env
     [\<lparr>w_called = \<lparr>tv_sec = 9, tv_nsec = 990000000\<rparr>, w_woken = \<lparr>tv_sec = 10, tv_nsec = 10000000\<rparr>, w_signalled = True,
        w_others = (\<lambda>p. p)\<rparr>,
      \<lparr>w_called = \<lparr>tv_sec = 10, tv_nsec = 10000000\<rparr>, w_woken = \<lparr>tv_sec = 10, tv_nsec = 30000000\<rparr>, w_signalled = False,
        w_others = (\<lambda>p. p)\<rparr>] 50 True (Some (example_pool\<lparr>p_slots := []\<rparr>)) = Some r"
  by (rule pool_acquire_returns [THEN conjunct1, THEN mp]) (simp_all add: example_env_def nanos_def)

text \<open>
  When a slot is free and the pool is not shutting down, acquiring succeeds at once, provided
  the locks can be taken and the server can be connected to; a connection is dialled only
  when the free slot holds none that can be reused.
\<close>

theorem pool_acquire_succeeds:
  assumes "pool_reach s" "\<not> p_shutting_down (ps_pool s)" "\<exists>x \<in> set (p_slots (ps_pool s)). \<not> s_in_use x"
    and "e_lock_ok e" "e_relock_ok e" "\<forall>p. e_meanwhile e p = p"
      "d_create (e_dial e) = SQLI_OK" "d_connect (e_dial e) = SQLI_OK"
  shows "\<exists>c q conn. sqli_pool_acquire_timeout e waits timeout_ms True (Some (ps_pool s)) = Some ((SQLI_OK, Some c), Some q) \<and>
    c \<notin> ps_leases s \<and> p_store q c = Some conn \<and> reusable conn \<and> lifecycle_clear conn"
proof -
  have inv: "pool_inv s" by (rule pool_reach_inv [OF assms(1)])
  obtain i where "find_available_slot_locked (ps_pool s) = Some i"
    using assms(3) find_available_None by (metis find_available_slot_locked_def option.exhaust)
  then consider c q where "acquire_locked (e_alive e) (ps_pool s) = (Acquired c, q)"
    | q where "acquire_locked (e_alive e) (ps_pool s) = (Reserved i, q)"
    using assms(2) that by (fastforce simp: acquire_locked_def Let_def split: option.splits)
  then show ?thesis
  proof cases
    case (1 c q)
    then show ?thesis using immediate_lease [OF inv 1] assms(4) by (auto simp: sqli_pool_acquire_timeout_def)
  next
    case (2 q)
    have "infinite (UNIV :: nat set)" by simp
    then obtain t where t: "ps_thread s t = Outside"
      using slots_in_use(3) [OF inv] by (metis (mono_tags, lifting) ex_new_if_finite mem_Collect_eq)
    let ?s = "s\<lparr>ps_pool := q, ps_thread := (ps_thread s)(t := Dialing i)\<rparr>"
    have inv1: "pool_inv ?s" by (rule inv_reserve [OF inv t 2])
    obtain rc r where e: "ensure_slot_connected (e_dial e) i q = (rc, r)" by fastforce
    have rc: "rc = SQLI_OK"
      using e assms(7,8) pool_inv_threadD(1) [OF inv1, of t i]
      by (auto simp: ensure_slot_connected_def dial_slot_def split: if_splits)
    let ?r = "?s\<lparr>ps_pool := r, ps_thread := (ps_thread ?s)(t := Dialed i rc)\<rparr>"
    have inv2: "pool_inv ?r" by (rule inv_dial [OF inv1]) (use e in simp_all)
    have at: "ps_thread ?r t = Dialed i rc" by simp
    obtain conn c where c: "s_conn (p_slots r ! i) = Some c"
      using pool_inv_threadD(3) [OF inv2, of t i] rc by (auto simp: busy_ok_def slot_conn_def split: option.splits)
    have "q = set_slot i (\<lambda>s. s\<lparr>s_in_use := True\<rparr>) (ps_pool s) \<or>
        q = clear_slot i (set_slot i (\<lambda>s. s\<lparr>s_in_use := True\<rparr>) (ps_pool s))"
      using acquire_reserve_effect(4) [OF 2] by blast
    then have "\<not> p_shutting_down q" using assms(2) by auto
    then have "\<not> p_shutting_down r"
      using e pool_inv_threadD(1) [OF inv1, of t i]
      by (auto simp: ensure_slot_connected_def dial_slot_def split: if_splits)
    then have fin: "acquire_relocked i rc r = ((SQLI_OK, Some c), r)" using rc c by (simp add: acquire_relocked_def)
    then have "acquire_relocked i rc (ps_pool ?r) = ((SQLI_OK, Some c), r)" by simp
    from dialed_lease [OF inv2 at this] fin 2 e assms(4-6) show ?thesis
      by (auto simp: sqli_pool_acquire_timeout_def)
  qed
qed

lemma pool_acquire_succeeds_witness:
  "\<exists>c q conn. sqli_pool_acquire_timeout \<lparr>e_lock_ok = True, e_relock_ok = True, e_alive = (\<lambda>_. False),
     e_dial = \<lparr>d_create = SQLI_OK, d_connect = SQLI_OK, d_socket = 7\<rparr>, e_meanwhile = (\<lambda>p. p),
     e_now = \<lparr>tv_sec = 0, tv_nsec = 0\<rparr>\<rparr> [] 0 True (Some example_pool) = Some ((SQLI_OK, Some c), Some q) \<and> c \<notin> {} \<and>
     p_store q c = Some conn \<and> reusable conn \<and> lifecycle_clear conn"
  using pool_acquire_succeeds [OF example_reach, of "\<lparr>e_lock_ok = True, e_relock_ok = True, e_alive = (\<lambda>_. False),
     e_dial = \<lparr>d_create = SQLI_OK, d_connect = SQLI_OK, d_socket = 7\<rparr>, e_meanwhile = (\<lambda>p. p),
     e_now = \<lparr>tv_sec = 0, tv_nsec = 0\<rparr>\<rparr>" "[]" 0]
  by (simp add: example_system_def example_slots)

end
