(* ===== verification/Cancel.thy ===== *)
theory Cancel
  imports Lifecycle
begin

text \<open>
  Cancellation handles: src/src/sqli_cancel_posix.c. Each public call is one critical section of
  the handle's mutex. The system holds the connections, the sockets that were sent the urgent
  byte, and one handle; the locking calls, the address family of the socket and the results of
  the socket calls are arguments.
\<close>

datatype sqli_cancel_disposition =
    SQLI_CANCEL_LATCHED | SQLI_CANCEL_SENT | SQLI_CANCEL_SEND_FAILED
  | SQLI_CANCEL_ALREADY_REQUESTED | SQLI_CANCEL_COMPLETED

datatype sqli_cancel_outcome =
    SQLI_CANCEL_NOT_EXECUTED | SQLI_CANCEL_EXECUTED | SQLI_CANCEL_INTERRUPTED
  | SQLI_CANCEL_FAILED | SQLI_CANCEL_UNKNOWN

record cancel_snapshot =
  cs_started :: bool
  cs_requested :: bool
  cs_send_attempted :: bool
  cs_send_status :: sqli_status
  cs_operation_status :: sqli_status
  cs_disposal_status :: sqli_status
  cs_diagnostic :: sqli_error_info
  cs_outcome :: sqli_cancel_outcome
  cs_connection_discarded :: bool

datatype cancel_state = cancel_fresh | cancel_active | cancel_terminal

record cancel_operation =
  co_state :: cancel_state
  co_connection :: "nat option"
  co_armed :: bool
  co_snapshot :: cancel_snapshot

record cancel_system =
  x_store :: conn_store
  x_interrupts :: "int list"
  x_op :: cancel_operation

definition set_lifecycle :: "nat \<Rightarrow> (conn_object \<Rightarrow> conn_object) \<Rightarrow> conn_store \<Rightarrow> conn_store" where
  "set_lifecycle c f store = store(c := map_option f (store c))"

definition unlock_operation :: "bool \<Rightarrow> sqli_status \<Rightarrow> sqli_status" where
  "unlock_operation unlock_ok status = (if unlock_ok then status else SQLI_ERR)"

text \<open>The zeroed object; the first outcome has enum value 0.\<close>

definition fresh_operation :: cancel_operation where
  "fresh_operation = \<lparr>co_state = cancel_fresh, co_connection = None, co_armed = False,
     co_snapshot = \<lparr>cs_started = False, cs_requested = False, cs_send_attempted = False,
       cs_send_status = SQLI_OK, cs_operation_status = SQLI_INVALID_STATE, cs_disposal_status = SQLI_OK,
       cs_diagnostic = no_error, cs_outcome = SQLI_CANCEL_NOT_EXECUTED, cs_connection_discarded = False\<rparr>\<rparr>"

definition sqli_cancel_operation_create :: "bool \<Rightarrow> bool \<Rightarrow> bool \<Rightarrow> cancel_operation fallible" where
  "sqli_cancel_operation_create mem_ok mutex_ok out_given =
     (if \<not> out_given then Inl SQLI_INVALID_ARGUMENT
      else if \<not> mem_ok then Inl SQLI_ALLOC_FAIL
      else if \<not> mutex_ok then Inl SQLI_ERR
      else Inr fresh_operation)"

text \<open>Whether the handle was freed is whether the result is \<open>SQLI_OK\<close>.\<close>

definition sqli_cancel_operation_destroy :: "bool \<Rightarrow> cancel_operation option \<Rightarrow> sqli_status" where
  "sqli_cancel_operation_destroy mutex_ok p =
     (case p of None \<Rightarrow> SQLI_OK
      | Some op \<Rightarrow>
          if co_state op = cancel_active then SQLI_INVALID_STATE
          else if \<not> mutex_ok then SQLI_ERR else SQLI_OK)"

text \<open>\<open>inet\<close>: \<open>getsockname\<close> succeeds with an IPv4 or IPv6 address.\<close>

definition is_tcp_connection :: "bool \<Rightarrow> conn_object \<Rightarrow> bool" where
  "is_tcp_connection inet conn \<longleftrightarrow> c_state conn = SQLI_CONN_READY \<and> c_socket_fd conn \<ge> 0 \<and> inet"

text \<open>
  The connection argument is the address of a live object. The second component of the result is
  the output \<open>execute\<close> when it is written.
\<close>

definition register_operation ::
  "bool \<Rightarrow> bool \<Rightarrow> bool \<Rightarrow> nat option \<Rightarrow> bool \<Rightarrow> bool \<Rightarrow> cancel_system \<Rightarrow>
   (sqli_status \<times> bool option) \<times> cancel_system" where
  "register_operation lock_ok unlock_ok inet conn execute_given armed x =
     (case conn of None \<Rightarrow> ((SQLI_INVALID_ARGUMENT, None), x)
      | Some c \<Rightarrow>
          if \<not> execute_given then ((SQLI_INVALID_ARGUMENT, None), x)
          else if \<not> lock_ok then ((SQLI_ERR, None), x)
          else let op = x_op x; obj = the (x_store x c); ret = unlock_operation unlock_ok
            in if co_state op \<noteq> cancel_fresh then ((ret SQLI_INVALID_STATE, None), x)
          else if \<not> lifecycle_clear obj then ((ret SQLI_INVALID_STATE, None), x)
          else if \<not> is_tcp_connection inet obj
            then ((ret (if c_state obj = SQLI_CONN_READY then SQLI_UNSUPPORTED else SQLI_INVALID_STATE), None), x)
          else if cs_requested (co_snapshot op)
            then ((ret SQLI_OK, Some False),
                  x\<lparr>x_op := op\<lparr>co_state := cancel_terminal,
                     co_snapshot := (co_snapshot op)\<lparr>cs_operation_status := SQLI_CANCELED,
                       cs_outcome := SQLI_CANCEL_NOT_EXECUTED\<rparr>\<rparr>\<rparr>)
          else ((ret SQLI_OK, Some True),
                x\<lparr>x_store := set_lifecycle c (\<lambda>obj. obj\<lparr>l_pinned := True\<rparr>) (x_store x),
                  x_op := op\<lparr>co_state := cancel_active, co_armed := armed, co_connection := Some c,
                    co_snapshot := (co_snapshot op)\<lparr>cs_started := True\<rparr>\<rparr>\<rparr>))"

definition sqli_cancel_operation_begin where
  "sqli_cancel_operation_begin lock_ok unlock_ok inet conn execute_given x =
     register_operation lock_ok unlock_ok inet conn execute_given True x"

definition sqli_cancel_operation_prepare where
  "sqli_cancel_operation_prepare lock_ok unlock_ok inet conn execute_given x =
     register_operation lock_ok unlock_ok inet conn execute_given False x"

text \<open>\<open>sent\<close>: the status of \<open>sqli_tcp_interrupt\<close>.\<close>

definition send_interrupt_locked :: "sqli_status \<Rightarrow> cancel_system \<Rightarrow> cancel_system" where
  "send_interrupt_locked sent x =
     (let op = x_op x; c = the (co_connection op)
      in x\<lparr>x_store := set_lifecycle c (\<lambda>obj. obj\<lparr>l_discarded := True\<rparr>) (x_store x),
           x_interrupts := x_interrupts x @ [c_socket_fd (the (x_store x c))],
           x_op := op\<lparr>co_snapshot := (co_snapshot op)\<lparr>cs_send_attempted := True, cs_send_status := sent\<rparr>\<rparr>\<rparr>)"

definition sqli_cancel_operation_arm ::
  "bool \<Rightarrow> bool \<Rightarrow> sqli_status \<Rightarrow> cancel_system \<Rightarrow> sqli_status \<times> cancel_system" where
  "sqli_cancel_operation_arm lock_ok unlock_ok sent x =
     (let op = x_op x; ret = unlock_operation unlock_ok
      in if \<not> lock_ok then (SQLI_ERR, x)
         else if co_state op \<noteq> cancel_active \<or> co_armed op then (ret SQLI_INVALID_STATE, x)
         else let x = x\<lparr>x_op := op\<lparr>co_armed := True\<rparr>\<rparr>
           in (ret SQLI_OK, if cs_requested (co_snapshot op) then send_interrupt_locked sent x else x))"

definition sqli_cancel_operation_request ::
  "bool \<Rightarrow> bool \<Rightarrow> sqli_status \<Rightarrow> bool \<Rightarrow> cancel_system \<Rightarrow>
   (sqli_status \<times> sqli_cancel_disposition option) \<times> cancel_system" where
  "sqli_cancel_operation_request lock_ok unlock_ok sent out_given x =
     (let op = x_op x; ret = unlock_operation unlock_ok SQLI_OK
      in if \<not> out_given then ((SQLI_INVALID_ARGUMENT, None), x)
         else if \<not> lock_ok then ((SQLI_ERR, None), x)
         else if co_state op = cancel_terminal then ((ret, Some SQLI_CANCEL_COMPLETED), x)
         else if cs_requested (co_snapshot op) then ((ret, Some SQLI_CANCEL_ALREADY_REQUESTED), x)
         else let x = x\<lparr>x_op := op\<lparr>co_snapshot := (co_snapshot op)\<lparr>cs_requested := True\<rparr>\<rparr>\<rparr>
           in if co_state op = cancel_fresh \<or> \<not> co_armed op then ((ret, Some SQLI_CANCEL_LATCHED), x)
              else ((ret, Some (if sent = SQLI_OK then SQLI_CANCEL_SENT else SQLI_CANCEL_SEND_FAILED)),
                    send_interrupt_locked sent x))"

definition finish_outcome :: "sqli_status \<Rightarrow> int \<Rightarrow> bool \<Rightarrow> sqli_cancel_outcome" where
  "finish_outcome operation_status sqlcode response_unknown =
     (if operation_status = SQLI_OK then SQLI_CANCEL_EXECUTED
      else if sqlcode = -213 then SQLI_CANCEL_INTERRUPTED
      else if response_unknown \<or> operation_status = SQLI_IO_ERROR \<or> operation_status = SQLI_TIMEOUT \<or>
              operation_status = SQLI_PROTO_ERROR \<and> sqlcode = 0 then SQLI_CANCEL_UNKNOWN
      else SQLI_CANCEL_FAILED)"

definition sqli_cancel_operation_finish ::
  "bool \<Rightarrow> bool \<Rightarrow> sqli_status \<Rightarrow> sqli_status \<Rightarrow> cancel_system \<Rightarrow> sqli_status \<times> cancel_system" where
  "sqli_cancel_operation_finish lock_ok unlock_ok tcp_discard operation_status x =
     (let op = x_op x; ret = unlock_operation unlock_ok
      in if \<not> lock_ok then (SQLI_ERR, x)
         else if co_state op \<noteq> cancel_active then (ret SQLI_INVALID_STATE, x)
         else let c = the (co_connection op); obj = the (x_store x c);
                  sqlcode = ei_sqlcode (c_error_info obj);
                  response_unknown = (co_armed op \<and> operation_status \<noteq> SQLI_OK \<and> sqlcode = 0);
                  discarded = (l_discarded obj \<or> response_unknown);
                  (disposal, obj') = (if discarded then sqli_conn_discard tcp_discard obj
                                      else (cs_disposal_status (co_snapshot op), obj))
           in (ret disposal,
               x\<lparr>x_store := set_lifecycle c (\<lambda>_. obj'\<lparr>l_pinned := False\<rparr>) (x_store x),
                 x_op := op\<lparr>co_connection := None, co_state := cancel_terminal,
                   co_snapshot := (co_snapshot op)\<lparr>cs_operation_status := operation_status,
                     cs_diagnostic := c_error_info obj, cs_connection_discarded := discarded,
                     cs_disposal_status := disposal,
                     cs_outcome := finish_outcome operation_status sqlcode response_unknown\<rparr>\<rparr>\<rparr>))"

definition sqli_cancel_operation_snapshot :: "bool \<Rightarrow> bool \<Rightarrow> bool \<Rightarrow> cancel_operation option \<Rightarrow>
    sqli_status \<times> cancel_snapshot option" where
  "sqli_cancel_operation_snapshot lock_ok unlock_ok out_given p =
     (case p of None \<Rightarrow> (SQLI_INVALID_ARGUMENT, None)
      | Some op \<Rightarrow>
          if \<not> out_given then (SQLI_INVALID_ARGUMENT, None)
          else if \<not> lock_ok then (SQLI_ERR, None)
          else if co_state op \<noteq> cancel_terminal then (unlock_operation unlock_ok SQLI_INVALID_STATE, None)
          else (unlock_operation unlock_ok SQLI_OK, Some (co_snapshot op)))"

end
