(* ===== verification/CancelFacts.thy ===== *)
theory CancelFacts
  imports Cancel Pool
begin

text \<open>
  A cancellation handle under concurrent use: requests from any thread, the executing thread's
  registration, arming and finishing, and everything else that happens to connections meanwhile.
\<close>

section \<open>The handle as a transition system\<close>

text \<open>
  What the rest of the program may do to an object: a pinned one stays allocated and pinned, and
  the discarded flag is never cleared on it; anything may happen to the others.
\<close>

definition environment_ok :: "conn_store \<Rightarrow> conn_store \<Rightarrow> bool" where
  "environment_ok store store' \<longleftrightarrow> (\<forall>c obj. store c = Some obj \<longrightarrow> l_pinned obj \<longrightarrow>
     (\<exists>obj'. store' c = Some obj' \<and> l_pinned obj' \<and> (l_discarded obj \<longrightarrow> l_discarded obj')))"

inductive cancel_step :: "cancel_system \<Rightarrow> cancel_system \<Rightarrow> bool" where
  begin_op: "x_store x c \<noteq> None \<Longrightarrow>
    sqli_cancel_operation_begin lock_ok unlock_ok inet (Some c) given x = (r, y) \<Longrightarrow> cancel_step x y"
| prepare: "x_store x c \<noteq> None \<Longrightarrow>
    sqli_cancel_operation_prepare lock_ok unlock_ok inet (Some c) given x = (r, y) \<Longrightarrow> cancel_step x y"
| arm: "sqli_cancel_operation_arm lock_ok unlock_ok sent x = (st, y) \<Longrightarrow> cancel_step x y"
| request: "sqli_cancel_operation_request lock_ok unlock_ok sent given x = (rd, y) \<Longrightarrow> cancel_step x y"
| finish_op: "sqli_cancel_operation_finish lock_ok unlock_ok tcp_discard operation_status x = (st, y) \<Longrightarrow> cancel_step x y"
| others: "environment_ok (x_store x) store \<Longrightarrow> cancel_step x (x\<lparr>x_store := store\<rparr>)"

inductive cancel_reach :: "cancel_system \<Rightarrow> bool" where
  created: "sqli_cancel_operation_create mem_ok mutex_ok out_given = Inr op \<Longrightarrow>
    cancel_reach \<lparr>x_store = store, x_interrupts = [], x_op = op\<rparr>"
| step: "cancel_reach x \<Longrightarrow> cancel_step x y \<Longrightarrow> cancel_reach y"

section \<open>The invariant\<close>

definition active_ok :: "cancel_system \<Rightarrow> bool" where
  "active_ok x \<longleftrightarrow> (let op = x_op x; s = co_snapshot op
     in cs_started s \<and> cs_send_attempted s = (co_armed op \<and> cs_requested s) \<and>
       (\<exists>c obj. co_connection op = Some c \<and> x_store x c = Some obj \<and> l_pinned obj \<and>
          (cs_send_attempted s \<longrightarrow> l_discarded obj)))"

definition terminal_ok :: "cancel_operation \<Rightarrow> bool" where
  "terminal_ok op \<longleftrightarrow> (let s = co_snapshot op
     in co_connection op = None \<and> (cs_send_attempted s \<longrightarrow> cs_requested s \<and> cs_started s \<and> cs_connection_discarded s) \<and>
       (cs_outcome s = SQLI_CANCEL_NOT_EXECUTED \<longleftrightarrow> \<not> cs_started s) \<and>
       (cs_outcome s = SQLI_CANCEL_EXECUTED \<longleftrightarrow> cs_operation_status s = SQLI_OK) \<and>
       (\<not> cs_started s \<longrightarrow> cs_requested s \<and> cs_operation_status s = SQLI_CANCELED \<and> \<not> cs_connection_discarded s))"

definition cancel_inv :: "cancel_system \<Rightarrow> bool" where
  "cancel_inv x \<longleftrightarrow> length (x_interrupts x) = (if cs_send_attempted (co_snapshot (x_op x)) then 1 else 0) \<and>
     (case co_state (x_op x) of
        cancel_fresh \<Rightarrow> x_op x = fresh_operation\<lparr>co_snapshot := (co_snapshot fresh_operation)\<lparr>cs_requested := cs_requested (co_snapshot (x_op x))\<rparr>\<rparr>
      | cancel_active \<Rightarrow> active_ok x
      | cancel_terminal \<Rightarrow> terminal_ok (x_op x))"

lemma fresh_simps [simp]:
  "co_state fresh_operation = cancel_fresh" "co_connection fresh_operation = None" "co_armed fresh_operation = False"
  "cs_started (co_snapshot fresh_operation) = False" "cs_send_attempted (co_snapshot fresh_operation) = False"
  "cs_requested (co_snapshot fresh_operation) = False" "cs_connection_discarded (co_snapshot fresh_operation) = False"
  by (simp_all add: fresh_operation_def)

lemma inv_register:
  assumes inv: "cancel_inv x" and c: "x_store x c \<noteq> None"
    and r: "register_operation lock_ok unlock_ok inet (Some c) given armed x = (r, y)"
  shows "cancel_inv y"
proof (cases "y = x")
  case False
  let ?op = "x_op x"
  have fresh: "co_state ?op = cancel_fresh"
    using r False by (auto simp: register_operation_def Let_def split: if_splits)
  then have op: "?op = fresh_operation\<lparr>co_snapshot := (co_snapshot fresh_operation)\<lparr>cs_requested := cs_requested (co_snapshot ?op)\<rparr>\<rparr>"
    and none: "x_interrupts x = []"
  proof -
    show op: "?op = fresh_operation\<lparr>co_snapshot := (co_snapshot fresh_operation)\<lparr>cs_requested := cs_requested (co_snapshot ?op)\<rparr>\<rparr>"
      using inv fresh by (simp add: cancel_inv_def)
    have "cs_send_attempted (co_snapshot ?op) = False" by (subst op) simp
    then show "x_interrupts x = []" using inv by (simp add: cancel_inv_def)
  qed
  have parts: "cs_started (co_snapshot ?op) = False" "cs_send_attempted (co_snapshot ?op) = False" "co_connection ?op = None"
    "cs_connection_discarded (co_snapshot ?op) = False"
    by (subst op, simp)+
  show ?thesis
  proof (cases "cs_requested (co_snapshot ?op)")
    case True
    then have "y = x\<lparr>x_op := ?op\<lparr>co_state := cancel_terminal,
        co_snapshot := (co_snapshot ?op)\<lparr>cs_operation_status := SQLI_CANCELED, cs_outcome := SQLI_CANCEL_NOT_EXECUTED\<rparr>\<rparr>\<rparr>"
      using r False fresh by (auto simp: register_operation_def Let_def split: if_splits)
    then show ?thesis using parts none True by (simp add: cancel_inv_def terminal_ok_def Let_def)
  next
    case req: False
    then have "y = x\<lparr>x_store := set_lifecycle c (\<lambda>obj. obj\<lparr>l_pinned := True\<rparr>) (x_store x),
        x_op := ?op\<lparr>co_state := cancel_active, co_armed := armed, co_connection := Some c,
          co_snapshot := (co_snapshot ?op)\<lparr>cs_started := True\<rparr>\<rparr>\<rparr>"
      using r False fresh by (auto simp: register_operation_def Let_def split: if_splits)
    then show ?thesis using parts none req c by (auto simp: cancel_inv_def active_ok_def Let_def set_lifecycle_def)
  qed
qed (use inv in simp)

lemma cancel_inv_active: "cancel_inv x \<Longrightarrow> co_state (x_op x) = cancel_active \<Longrightarrow> active_ok x"
  by (simp add: cancel_inv_def)

text \<open>Sending on an active, armed, requested handle that has not sent yet.\<close>

lemma inv_send:
  assumes "co_state (x_op x) = cancel_active" "co_armed (x_op x)" "cs_requested (co_snapshot (x_op x))"
    "cs_started (co_snapshot (x_op x))" "x_interrupts x = []"
    "co_connection (x_op x) = Some c" "x_store x c = Some obj" "l_pinned obj"
  shows "cancel_inv (send_interrupt_locked sent x)"
  using assms by (simp add: cancel_inv_def send_interrupt_locked_def active_ok_def Let_def set_lifecycle_def)

lemma active_parts:
  assumes "cancel_inv x" "co_state (x_op x) = cancel_active"
  obtains c obj where "co_connection (x_op x) = Some c" "x_store x c = Some obj" "l_pinned obj"
    "cs_send_attempted (co_snapshot (x_op x)) \<longrightarrow> l_discarded obj" "cs_started (co_snapshot (x_op x))"
    "cs_send_attempted (co_snapshot (x_op x)) = (co_armed (x_op x) \<and> cs_requested (co_snapshot (x_op x)))"
    "length (x_interrupts x) = (if cs_send_attempted (co_snapshot (x_op x)) then 1 else 0)"
  using assms unfolding cancel_inv_def active_ok_def Let_def by auto

lemma unsent_parts:
  assumes "cancel_inv x" "co_state (x_op x) = cancel_active" "\<not> co_armed (x_op x) \<or> \<not> cs_requested (co_snapshot (x_op x))"
  obtains c obj where "co_connection (x_op x) = Some c" "x_store x c = Some obj" "l_pinned obj"
    "cs_started (co_snapshot (x_op x))" "\<not> cs_send_attempted (co_snapshot (x_op x))" "x_interrupts x = []"
proof -
  have "active_ok x" by (rule cancel_inv_active [OF assms(1,2)])
  then obtain c obj where "co_connection (x_op x) = Some c" "x_store x c = Some obj" "l_pinned obj"
    "cs_started (co_snapshot (x_op x))" and unsent: "\<not> cs_send_attempted (co_snapshot (x_op x))"
    using assms(3) by (auto simp: active_ok_def Let_def)
  moreover from unsent have "x_interrupts x = []" using assms(1) by (simp add: cancel_inv_def)
  ultimately show thesis by (rule that)
qed

lemma inv_arm:
  assumes inv: "cancel_inv x" and a: "sqli_cancel_operation_arm lock_ok unlock_ok sent x = (st, y)"
  shows "cancel_inv y"
proof (cases "y = x")
  case False
  then have act: "co_state (x_op x) = cancel_active" "\<not> co_armed (x_op x)"
    and y: "y = (let z = x\<lparr>x_op := (x_op x)\<lparr>co_armed := True\<rparr>\<rparr>
      in if cs_requested (co_snapshot (x_op x)) then send_interrupt_locked sent z else z)"
    using a by (auto simp: sqli_cancel_operation_arm_def Let_def split: if_splits)
  obtain c obj where p: "co_connection (x_op x) = Some c" "x_store x c = Some obj" "l_pinned obj"
    "cs_started (co_snapshot (x_op x))" "\<not> cs_send_attempted (co_snapshot (x_op x))" "x_interrupts x = []"
    using unsent_parts [OF inv act(1)] act(2) by blast
  show ?thesis
  proof (cases "cs_requested (co_snapshot (x_op x))")
    case True
    then show ?thesis using y p act by (simp add: inv_send)
  next
    case False
    then show ?thesis using y p act by (simp add: cancel_inv_def active_ok_def)
  qed
qed (use inv in simp)

lemma inv_request:
  assumes inv: "cancel_inv x" and r: "sqli_cancel_operation_request lock_ok unlock_ok sent given x = (rd, y)"
  shows "cancel_inv y"
proof (cases "y = x")
  case False
  let ?z = "x\<lparr>x_op := (x_op x)\<lparr>co_snapshot := (co_snapshot (x_op x))\<lparr>cs_requested := True\<rparr>\<rparr>\<rparr>"
  have y: "co_state (x_op x) \<noteq> cancel_terminal" "\<not> cs_requested (co_snapshot (x_op x))"
    "y = (if co_state (x_op x) = cancel_fresh \<or> \<not> co_armed (x_op x) then ?z else send_interrupt_locked sent ?z)"
    using r False by (auto simp: sqli_cancel_operation_request_def Let_def split: if_splits)
  show ?thesis
  proof (cases "co_state (x_op x)")
    case cancel_fresh
    then have op: "x_op x = fresh_operation\<lparr>co_snapshot := (co_snapshot fresh_operation)\<lparr>cs_requested := False\<rparr>\<rparr>"
      and n: "length (x_interrupts x) = (if cs_send_attempted (co_snapshot (x_op x)) then 1 else 0)"
      using inv y(2) by (simp_all add: cancel_inv_def)
    show ?thesis using y(3) cancel_fresh n unfolding op by (simp add: cancel_inv_def op)
  next
    case cancel_active
    obtain c obj where p: "co_connection (x_op x) = Some c" "x_store x c = Some obj" "l_pinned obj"
      "cs_started (co_snapshot (x_op x))" "\<not> cs_send_attempted (co_snapshot (x_op x))" "x_interrupts x = []"
      using unsent_parts [OF inv cancel_active] y(2) by blast
    show ?thesis
    proof (cases "co_armed (x_op x)")
      case True
      then show ?thesis using y p cancel_active by (simp add: inv_send)
    next
      case False
      then show ?thesis using y p cancel_active by (simp add: cancel_inv_def active_ok_def)
    qed
  qed (use y in simp)
qed (use inv in simp)
text \<open>What finishing does, given the object that the handle pins.\<close>

lemma finish_effect:
  assumes f: "sqli_cancel_operation_finish True unlock_ok tcp_discard operation_status x = (st, y)"
    and act: "co_state (x_op x) = cancel_active" "co_connection (x_op x) = Some c" "x_store x c = Some obj"
  defines "unknown \<equiv> co_armed (x_op x) \<and> operation_status \<noteq> SQLI_OK \<and> ei_sqlcode (c_error_info obj) = 0"
  shows "co_state (x_op y) = cancel_terminal" "co_connection (x_op y) = None" "x_interrupts y = x_interrupts x"
    "\<exists>obj'. x_store y c = Some obj' \<and> \<not> l_pinned obj' \<and> l_discarded obj' = (l_discarded obj \<or> unknown)"
    "cs_connection_discarded (co_snapshot (x_op y)) = (l_discarded obj \<or> unknown)"
    "cs_operation_status (co_snapshot (x_op y)) = operation_status"
    "cs_outcome (co_snapshot (x_op y)) = finish_outcome operation_status (ei_sqlcode (c_error_info obj)) unknown"
    "cs_started (co_snapshot (x_op y)) = cs_started (co_snapshot (x_op x))"
    "cs_requested (co_snapshot (x_op y)) = cs_requested (co_snapshot (x_op x))"
    "cs_send_attempted (co_snapshot (x_op y)) = cs_send_attempted (co_snapshot (x_op x))"
    "\<And>d. d \<noteq> c \<Longrightarrow> x_store y d = x_store x d"
proof -
  define obj' where "obj' = (if l_discarded obj \<or> unknown then snd (sqli_conn_discard tcp_discard obj) else obj)"
  define disposal where "disposal = (if l_discarded obj \<or> unknown then tcp_discard else cs_disposal_status (co_snapshot (x_op x)))"
  have y: "y = x\<lparr>x_store := set_lifecycle c (\<lambda>_. obj'\<lparr>l_pinned := False\<rparr>) (x_store x),
      x_op := (x_op x)\<lparr>co_connection := None, co_state := cancel_terminal,
        co_snapshot := (co_snapshot (x_op x))\<lparr>cs_operation_status := operation_status,
          cs_diagnostic := c_error_info obj, cs_connection_discarded := l_discarded obj \<or> unknown,
          cs_disposal_status := disposal,
          cs_outcome := finish_outcome operation_status (ei_sqlcode (c_error_info obj)) unknown\<rparr>\<rparr>\<rparr>"
    using f act
    by (cases "l_discarded obj"; cases unknown)
      (simp_all add: sqli_cancel_operation_finish_def Let_def obj'_def disposal_def prod.case_eq_if flip: unknown_def)
  show "\<exists>obj'. x_store y c = Some obj' \<and> \<not> l_pinned obj' \<and> l_discarded obj' = (l_discarded obj \<or> unknown)"
    using act(3) by (auto simp: y set_lifecycle_def obj'_def)
  show "co_state (x_op y) = cancel_terminal" "co_connection (x_op y) = None" "x_interrupts y = x_interrupts x"
    "cs_connection_discarded (co_snapshot (x_op y)) = (l_discarded obj \<or> unknown)"
    "cs_operation_status (co_snapshot (x_op y)) = operation_status"
    "cs_outcome (co_snapshot (x_op y)) = finish_outcome operation_status (ei_sqlcode (c_error_info obj)) unknown"
    "cs_started (co_snapshot (x_op y)) = cs_started (co_snapshot (x_op x))"
    "cs_requested (co_snapshot (x_op y)) = cs_requested (co_snapshot (x_op x))"
    "cs_send_attempted (co_snapshot (x_op y)) = cs_send_attempted (co_snapshot (x_op x))"
    "\<And>d. d \<noteq> c \<Longrightarrow> x_store y d = x_store x d"
    by (simp_all add: y set_lifecycle_def)
qed

lemma finish_outcome_simps [simp]:
  "finish_outcome st code unknown \<noteq> SQLI_CANCEL_NOT_EXECUTED"
  "finish_outcome st code unknown = SQLI_CANCEL_EXECUTED \<longleftrightarrow> st = SQLI_OK"
  by (simp_all add: finish_outcome_def)

lemma finish_idle:
  "\<not> lock_ok \<or> co_state (x_op x) \<noteq> cancel_active \<Longrightarrow>
   snd (sqli_cancel_operation_finish lock_ok unlock_ok tcp_discard operation_status x) = x"
  by (simp add: sqli_cancel_operation_finish_def Let_def)

lemma inv_finish_op:
  assumes inv: "cancel_inv x"
    and f: "sqli_cancel_operation_finish lock_ok unlock_ok tcp_discard operation_status x = (st, y)"
  shows "cancel_inv y"
proof (cases "lock_ok \<and> co_state (x_op x) = cancel_active")
  case True
  then obtain c obj where p: "co_connection (x_op x) = Some c" "x_store x c = Some obj"
    "cs_send_attempted (co_snapshot (x_op x)) \<longrightarrow> l_discarded obj" "cs_started (co_snapshot (x_op x))"
    "cs_send_attempted (co_snapshot (x_op x)) = (co_armed (x_op x) \<and> cs_requested (co_snapshot (x_op x)))"
    "length (x_interrupts x) = (if cs_send_attempted (co_snapshot (x_op x)) then 1 else 0)"
    using active_parts [OF inv] by metis
  have "sqli_cancel_operation_finish True unlock_ok tcp_discard operation_status x = (st, y)" using f True by simp
  note eff = finish_effect [OF this conjunct2 [OF True] p(1,2)]
  show ?thesis using p eff(1-3,5-10) by (auto simp: cancel_inv_def terminal_ok_def Let_def)
next
  case False
  then have "y = x" using finish_idle [of lock_ok x] f by (metis snd_conv)
  then show ?thesis using inv by simp
qed

lemma inv_others:
  assumes inv: "cancel_inv x" and env: "environment_ok (x_store x) store"
  shows "cancel_inv (x\<lparr>x_store := store\<rparr>)"
proof (cases "co_state (x_op x) = cancel_active")
  case True
  then obtain c obj where p: "co_connection (x_op x) = Some c" "x_store x c = Some obj" "l_pinned obj"
    "cs_send_attempted (co_snapshot (x_op x)) \<longrightarrow> l_discarded obj" "cs_started (co_snapshot (x_op x))"
    "cs_send_attempted (co_snapshot (x_op x)) = (co_armed (x_op x) \<and> cs_requested (co_snapshot (x_op x)))"
    "length (x_interrupts x) = (if cs_send_attempted (co_snapshot (x_op x)) then 1 else 0)"
    using active_parts [OF inv] by metis
  then obtain obj' where "store c = Some obj'" "l_pinned obj'" "l_discarded obj \<longrightarrow> l_discarded obj'"
    using env by (auto simp: environment_ok_def)
  then show ?thesis using p True by (simp add: cancel_inv_def active_ok_def Let_def)
next
  case False
  then show ?thesis using inv by (simp add: cancel_inv_def split: cancel_state.splits)
qed

theorem cancel_reach_inv: "cancel_reach x \<Longrightarrow> cancel_inv x"
proof (induction rule: cancel_reach.induct)
  case (created mem_ok mutex_ok out_given op store)
  then have "op = fresh_operation" by (simp add: sqli_cancel_operation_create_def split: if_splits)
  then show ?case by (simp add: cancel_inv_def fresh_operation_def)
next
  case (step x y)
  from step(2,3) show ?case
  proof (induction rule: cancel_step.induct)
    case (begin_op x c lock_ok unlock_ok inet given r y)
    then show ?case using inv_register unfolding sqli_cancel_operation_begin_def by blast
  next
    case (prepare x c lock_ok unlock_ok inet given r y)
    then show ?case using inv_register unfolding sqli_cancel_operation_prepare_def by blast
  qed (blast intro: inv_arm inv_request inv_finish_op inv_others)+
qed

end
