(* ===== verification/CancelSafety.thy ===== *)
theory CancelSafety
  imports CancelFacts
begin

text \<open>
  What a cancellation handle promises: at most one urgent byte, a connection that is safe from
  everybody else while an operation runs and never reused after a byte was sent, and a final record
  that agrees with what happened.
\<close>

lemma terminal_step:
  assumes "cancel_step x y" "co_state (x_op x) = cancel_terminal"
  shows "x_op y = x_op x \<and> x_interrupts y = x_interrupts x"
  using assms
  by (induction rule: cancel_step.induct)
    (auto simp: sqli_cancel_operation_begin_def sqli_cancel_operation_prepare_def register_operation_def
      sqli_cancel_operation_arm_def sqli_cancel_operation_request_def sqli_cancel_operation_finish_def
      Let_def split: if_splits)

definition example_handle :: cancel_system where
  "example_handle = \<lparr>x_store = (\<lambda>_. Some (created_object\<lparr>c_state := SQLI_CONN_READY, c_socket_fd := 5\<rparr>)),
     x_interrupts = [], x_op = fresh_operation\<rparr>"

definition begun_handle :: cancel_system where
  "begun_handle = snd (sqli_cancel_operation_begin True True True (Some 3) True example_handle)"

definition sent_handle :: cancel_system where
  "sent_handle = snd (sqli_cancel_operation_request True True SQLI_OK True begun_handle)"

definition done_handle :: cancel_system where
  "done_handle = snd (sqli_cancel_operation_finish True True SQLI_OK SQLI_IO_ERROR sent_handle)"

lemma example_handle_reach: "cancel_reach example_handle" "cancel_reach begun_handle" "cancel_reach sent_handle"
  "cancel_reach done_handle"
proof -
  show fresh: "cancel_reach example_handle"
    unfolding example_handle_def
    by (rule cancel_reach.created [of True True True]) (simp add: sqli_cancel_operation_create_def)
  have "cancel_step example_handle begun_handle"
    unfolding begun_handle_def by (rule cancel_step.begin_op) (simp_all add: example_handle_def prod_eq_iff)
  then show begun: "cancel_reach begun_handle" by (rule cancel_reach.step [OF fresh])
  have "cancel_step begun_handle sent_handle"
    unfolding sent_handle_def by (rule cancel_step.request) (simp add: prod_eq_iff)
  then show sent: "cancel_reach sent_handle" by (rule cancel_reach.step [OF begun])
  have "cancel_step sent_handle done_handle"
    unfolding done_handle_def by (rule cancel_step.finish_op) (simp add: prod_eq_iff)
  then show "cancel_reach done_handle" by (rule cancel_reach.step [OF sent])
qed

lemma begun_op: "x_op begun_handle = fresh_operation\<lparr>co_state := cancel_active, co_armed := True, co_connection := Some 3,
    co_snapshot := (co_snapshot fresh_operation)\<lparr>cs_started := True\<rparr>\<rparr>"
  by (simp add: begun_handle_def example_handle_def sqli_cancel_operation_begin_def register_operation_def
      lifecycle_clear_def is_tcp_connection_def Let_def unlock_operation_def)

lemma sent_op: "co_state (x_op sent_handle) = cancel_active" "cs_send_attempted (co_snapshot (x_op sent_handle))"
  "co_connection (x_op sent_handle) = Some 3"
  by (simp_all add: sent_handle_def sqli_cancel_operation_request_def send_interrupt_locked_def Let_def begun_op)

lemma done_op: "co_state (x_op done_handle) = cancel_terminal"
  using sent_op by (simp add: done_handle_def sqli_cancel_operation_finish_def Let_def prod.case_eq_if)

text \<open>
  C12. Over the whole life of a handle, under any interleaving of requests, arming, finishing and
  other activity, at most one urgent byte is sent, and only for a requested operation that was
  started.
\<close>

theorem cancel_interrupts_once:
  assumes "cancel_reach x"
  shows "length (x_interrupts x) = (if cs_send_attempted (co_snapshot (x_op x)) then 1 else 0) \<and>
    (cs_send_attempted (co_snapshot (x_op x)) \<longrightarrow> cs_requested (co_snapshot (x_op x)) \<and> cs_started (co_snapshot (x_op x)))"
proof -
  have inv: "cancel_inv x" by (rule cancel_reach_inv [OF assms])
  have "cs_send_attempted (co_snapshot (x_op x)) \<longrightarrow> cs_requested (co_snapshot (x_op x)) \<and> cs_started (co_snapshot (x_op x))"
  proof (cases "co_state (x_op x)")
    case cancel_fresh
    then have op: "x_op x = fresh_operation\<lparr>co_snapshot := (co_snapshot fresh_operation)\<lparr>cs_requested := cs_requested (co_snapshot (x_op x))\<rparr>\<rparr>"
      using inv by (simp add: cancel_inv_def)
    show ?thesis by (subst op) simp
  qed (use inv in \<open>auto simp: cancel_inv_def active_ok_def terminal_ok_def Let_def\<close>)
  then show ?thesis using inv by (simp add: cancel_inv_def)
qed

lemma cancel_interrupts_once_witness: "length (x_interrupts sent_handle) = 1"
  using cancel_interrupts_once [OF example_handle_reach(3)] sent_op by simp

text \<open>
  While an operation is active its connection is allocated and pinned, so closing and
  destroying it has no effect, no second operation can be registered on it, and the pool refuses
  to take it back.
\<close>

theorem active_connection_protected:
  assumes "cancel_reach x" "co_state (x_op x) = cancel_active" "co_connection (x_op x) = Some c"
  shows "\<exists>obj. x_store x c = Some obj \<and> l_pinned obj \<and> destroy_conn c (x_store x) = x_store x \<and>
    snd (sqli_cancel_operation_begin lock_ok unlock_ok inet (Some c) given (x\<lparr>x_op := op\<rparr>)) = x\<lparr>x_op := op\<rparr> \<and>
    (\<forall>p. p_store p = x_store x \<longrightarrow> release_locked cas_ok tcp_discard c p = (SQLI_INVALID_STATE, p))"
proof -
  obtain obj where obj: "x_store x c = Some obj" "l_pinned obj"
    using cancel_inv_active [OF cancel_reach_inv [OF assms(1)] assms(2)] assms(3) by (auto simp: active_ok_def Let_def)
  have "snd (sqli_cancel_operation_begin lock_ok unlock_ok inet (Some c) given (x\<lparr>x_op := op\<rparr>)) = x\<lparr>x_op := op\<rparr>"
    using obj by (simp add: sqli_cancel_operation_begin_def register_operation_def lifecycle_clear_def Let_def)
  moreover have "release_locked cas_ok tcp_discard c p = (SQLI_INVALID_STATE, p)" if "p_store p = x_store x" for p
    using that obj by (simp add: release_locked_def split: option.split)
  ultimately show ?thesis using obj by (simp add: destroy_conn_def)
qed

lemma active_connection_protected_witness:
  "destroy_conn 3 (x_store sent_handle) = x_store sent_handle"
  using active_connection_protected [OF example_handle_reach(3) sent_op(1,3)] by blast

text \<open>
  C13. Finishing unpins the connection and makes the handle terminal. When an urgent byte was sent
  for the operation, or when an armed operation failed without a response from the server, the
  connection is discarded, so the pool never hands it out again, and the record says so.
\<close>

theorem interrupted_connection_discarded:
  assumes "cancel_reach x" "co_state (x_op x) = cancel_active" "co_connection (x_op x) = Some c"
    and "sqli_cancel_operation_finish True unlock_ok tcp_discard operation_status x = (st, y)"
  shows "\<exists>obj obj'. x_store x c = Some obj \<and> x_store y c = Some obj' \<and> \<not> l_pinned obj' \<and>
    co_state (x_op y) = cancel_terminal \<and>
    l_discarded obj' = cs_connection_discarded (co_snapshot (x_op y)) \<and>
    (cs_send_attempted (co_snapshot (x_op x)) \<or>
     co_armed (x_op x) \<and> operation_status \<noteq> SQLI_OK \<and> ei_sqlcode (c_error_info obj) = 0 \<longrightarrow>
       l_discarded obj' \<and> \<not> reusable obj')"
proof -
  obtain obj where obj: "x_store x c = Some obj" "cs_send_attempted (co_snapshot (x_op x)) \<longrightarrow> l_discarded obj"
    using cancel_inv_active [OF cancel_reach_inv [OF assms(1)] assms(2)] assms(3) by (auto simp: active_ok_def Let_def)
  note eff = finish_effect [OF assms(4,2,3) obj(1)]
  obtain obj' where "x_store y c = Some obj'" "\<not> l_pinned obj'"
    "l_discarded obj' = (l_discarded obj \<or> co_armed (x_op x) \<and> operation_status \<noteq> SQLI_OK \<and> ei_sqlcode (c_error_info obj) = 0)"
    using eff(4) by blast
  then show ?thesis using obj eff(1,5) by (auto simp: reusable_def)
qed

lemma interrupted_connection_discarded_witness:
  "\<exists>obj'. x_store done_handle 3 = Some obj' \<and> \<not> l_pinned obj' \<and> \<not> reusable obj'"
proof -
  have "sqli_cancel_operation_finish True True SQLI_OK SQLI_IO_ERROR sent_handle =
      (fst (sqli_cancel_operation_finish True True SQLI_OK SQLI_IO_ERROR sent_handle), done_handle)"
    by (simp add: done_handle_def)
  from interrupted_connection_discarded [OF example_handle_reach(3) sent_op(1,3) this] sent_op(2) show ?thesis by auto
qed

text \<open>
  The final record of a handle never changes, later requests report completion, and the record
  is consistent: not executed exactly when it was never started (then it was requested and its
  status is cancelled), executed exactly when the operation succeeded, and an urgent byte only with
  a discarded connection.
\<close>

theorem terminal_record:
  assumes "cancel_reach x" "co_state (x_op x) = cancel_terminal"
  shows "(cancel_step x y \<longrightarrow> x_op y = x_op x) \<and>
    sqli_cancel_operation_request True True sent True x = ((SQLI_OK, Some SQLI_CANCEL_COMPLETED), x) \<and>
    (\<exists>s. sqli_cancel_operation_snapshot True True True (Some (x_op x)) = (SQLI_OK, Some s) \<and>
      (cs_outcome s = SQLI_CANCEL_NOT_EXECUTED \<longleftrightarrow> \<not> cs_started s) \<and>
      (cs_outcome s = SQLI_CANCEL_EXECUTED \<longleftrightarrow> cs_operation_status s = SQLI_OK) \<and>
      (\<not> cs_started s \<longrightarrow> cs_requested s \<and> cs_operation_status s = SQLI_CANCELED) \<and>
      (cs_send_attempted s \<longrightarrow> cs_requested s \<and> cs_connection_discarded s))"
proof -
  have ok: "terminal_ok (x_op x)" using cancel_reach_inv [OF assms(1)] assms(2) by (simp add: cancel_inv_def)
  have "sqli_cancel_operation_snapshot True True True (Some (x_op x)) = (SQLI_OK, Some (co_snapshot (x_op x)))"
    using assms(2) by (simp add: sqli_cancel_operation_snapshot_def unlock_operation_def)
  moreover have "sqli_cancel_operation_request True True sent True x = ((SQLI_OK, Some SQLI_CANCEL_COMPLETED), x)"
    using assms(2) by (simp add: sqli_cancel_operation_request_def unlock_operation_def Let_def)
  ultimately show ?thesis using ok terminal_step [of x y] assms(2) by (simp add: terminal_ok_def Let_def)
qed

lemma terminal_record_witness:
  "sqli_cancel_operation_request True True SQLI_OK True done_handle = ((SQLI_OK, Some SQLI_CANCEL_COMPLETED), done_handle)"
  using terminal_record [OF example_handle_reach(4) done_op] by blast

end
