(* ===== verification/Uri.thy ===== *)
theory Uri
  imports Pool
begin

text \<open>
  Connection URIs: src/src/sqli_uri.c. C strings are lists without the NUL character; a
  component that the parser leaves unset is \<open>None\<close>. The environment (allocation,
  \<open>INFORMIXTMP\<close>, the current Unix user) and \<open>sqli_connect\<close> itself are
  arguments.
\<close>

section \<open>Character classes of the C locale\<close>

definition isalpha :: "char \<Rightarrow> bool" where
  "isalpha c \<longleftrightarrow> (let n = of_char c :: nat in (65 \<le> n \<and> n \<le> 90) \<or> (97 \<le> n \<and> n \<le> 122))"

definition isalnum :: "char \<Rightarrow> bool" where
  "isalnum c \<longleftrightarrow> isalpha c \<or> ascii_digit c"

definition isxdigit :: "char \<Rightarrow> bool" where
  "isxdigit c \<longleftrightarrow> ascii_digit c \<or> (let n = of_char c :: nat in (65 \<le> n \<and> n \<le> 70) \<or> (97 \<le> n \<and> n \<le> 102))"

definition hex_digit :: "char \<Rightarrow> nat" where
  "hex_digit c = (let n = of_char c :: nat
     in if n \<le> 57 then n - 48 else if n \<le> 70 then n - 55 else n - 87)"

definition tolower :: "char \<Rightarrow> nat" where
  "tolower c = (let n = of_char c :: nat in if 65 \<le> n \<and> n \<le> 90 then n + 32 else n)"

definition strcaseeq :: "string \<Rightarrow> string \<Rightarrow> bool" where
  "strcaseeq s t \<longleftrightarrow> map tolower s = map tolower t"

text \<open>The C string in a buffer: up to the first NUL.\<close>

definition c_string :: "string \<Rightarrow> string" where
  "c_string buf = takeWhile (\<lambda>c. c \<noteq> CHR 0x00) buf"

section \<open>Parsing helpers\<close>

text \<open>What the loop stores, with room for the given number of characters.\<close>

fun url_decode_loop :: "nat \<Rightarrow> string \<Rightarrow> string" where
  "url_decode_loop 0 s = []"
| "url_decode_loop (Suc room) [] = []"
| "url_decode_loop (Suc room) (c # s) =
     (if c = CHR ''%'' then
        (case s of
           a # b # rest \<Rightarrow>
             if isxdigit a \<and> isxdigit b then char_of (16 * hex_digit a + hex_digit b) # url_decode_loop room rest
             else c # url_decode_loop room s
         | _ \<Rightarrow> c # url_decode_loop room s)
      else if c = CHR ''+'' then CHR '' '' # url_decode_loop room s
      else c # url_decode_loop room s)"

definition url_decode :: "string \<Rightarrow> nat \<Rightarrow> string" where
  "url_decode src dst_sz = c_string (url_decode_loop (dst_sz - 1) src)"

record uri_components =
  uc_scheme :: "string option"
  uc_userinfo :: "string option"
  uc_host :: "string option"
  uc_port :: "string option"
  uc_path :: "string option"
  uc_query :: "string option"

definition copy_range :: "string option \<Rightarrow> nat \<Rightarrow> string" where
  "copy_range src dst_sz = (case src of None \<Rightarrow> [] | Some s \<Rightarrow> take (dst_sz - 1) s)"

text \<open>\<open>strstr\<close> and \<open>memchr\<close>: what precedes and what follows the first match.\<close>

fun strstr_split :: "string \<Rightarrow> string \<Rightarrow> (string \<times> string) option" where
  "strstr_split pat [] = (if pat = [] then Some ([], []) else None)"
| "strstr_split pat (c # cs) =
     (if take (length pat) (c # cs) = pat then Some ([], drop (length pat) (c # cs))
      else map_option (apfst ((#) c)) (strstr_split pat cs))"

definition memchr_split :: "char \<Rightarrow> string \<Rightarrow> (string \<times> string) option" where
  "memchr_split c s = (if c \<in> set s then Some (takeWhile (\<lambda>x. x \<noteq> c) s, tl (dropWhile (\<lambda>x. x \<noteq> c) s)) else None)"

definition scheme_ok :: "string \<Rightarrow> bool" where
  "scheme_ok s \<longleftrightarrow> (case s of [] \<Rightarrow> False
     | c # cs \<Rightarrow> isalpha c \<and> (\<forall>c \<in> set cs. isalnum c \<or> c = CHR ''+'' \<or> c = CHR ''-'' \<or> c = CHR ''.''))"

text \<open>Host and port of the authority; the whole parse fails on an unclosed bracket.\<close>

definition parse_host_port :: "string \<Rightarrow> (string option \<times> string option) option" where
  "parse_host_port hp =
     (case hp of [] \<Rightarrow> Some (None, None)
      | c # rest \<Rightarrow>
          if c = CHR ''['' then
            (case memchr_split (CHR '']'') hp of None \<Rightarrow> None
             | Some (before, after) \<Rightarrow>
                 Some (Some (tl before),
                   (case after of d # port \<Rightarrow> if d = CHR '':'' then Some port else None | [] \<Rightarrow> None)))
          else (case memchr_split (CHR '':'') hp of
                  Some (host, port) \<Rightarrow> Some (Some host, Some port)
                | None \<Rightarrow> Some (Some hp, None)))"

definition parse_uri_components :: "string \<Rightarrow> uri_components option" where
  "parse_uri_components uri =
     (case strstr_split ''://'' uri of None \<Rightarrow> None
      | Some (scheme, rest) \<Rightarrow>
          if scheme = [] \<or> \<not> scheme_ok scheme then None
          else
            let authority = takeWhile (\<lambda>c. c \<notin> {CHR ''/'', CHR ''?'', CHR ''#''}) rest;
                p = dropWhile (\<lambda>c. c \<notin> {CHR ''/'', CHR ''?'', CHR ''#''}) rest;
                (userinfo, host_port) = (case memchr_split (CHR ''@'') authority of
                    Some (userinfo, host_port) \<Rightarrow> (Some userinfo, host_port)
                  | None \<Rightarrow> (None, authority));
                (path, p) = (if p \<noteq> [] \<and> hd p = CHR ''/''
                  then let p = dropWhile (\<lambda>c. c = CHR ''/'') p
                    in (Some (takeWhile (\<lambda>c. c \<notin> {CHR ''?'', CHR ''#''}) p),
                        dropWhile (\<lambda>c. c \<notin> {CHR ''?'', CHR ''#''}) p)
                  else (None, p));
                query = (if p \<noteq> [] \<and> hd p = CHR ''?'' then Some (takeWhile (\<lambda>c. c \<noteq> CHR ''#'') (tl p)) else None)
            in case parse_host_port host_port of None \<Rightarrow> None
               | Some (host, port) \<Rightarrow>
                   Some \<lparr>uc_scheme = Some scheme, uc_userinfo = userinfo, uc_host = host, uc_port = port,
                         uc_path = path, uc_query = query\<rparr>)"

record uri_query_entry =
  qe_key :: string
  qe_value :: string

text \<open>The tokens of \<open>strtok_r\<close> with delimiter \<open>&\<close>: empty ones are skipped.\<close>

fun query_tokens :: "string \<Rightarrow> string \<Rightarrow> string list" where
  "query_tokens tok [] = (if tok = [] then [] else [tok])"
| "query_tokens tok (c # s) =
     (if c = CHR ''&'' then (if tok = [] then query_tokens [] s else tok # query_tokens [] s)
      else query_tokens (tok @ [c]) s)"

definition query_entry :: "string \<Rightarrow> uri_query_entry" where
  "query_entry token =
     (case memchr_split (CHR ''='') token of
        Some (key, val) \<Rightarrow> \<lparr>qe_key = url_decode key 128, qe_value = url_decode val 256\<rparr>
      | None \<Rightarrow> \<lparr>qe_key = url_decode token 128, qe_value = []\<rparr>)"

text \<open>\<open>None\<close> is the result -1 after a failed allocation.\<close>

definition parse_query_string :: "bool \<Rightarrow> string \<Rightarrow> nat \<Rightarrow> uri_query_entry list option" where
  "parse_query_string mem_ok query max_entries =
     (if query = [] \<or> max_entries = 0 then Some []
      else if \<not> mem_ok then None
      else Some (map query_entry (take max_entries (query_tokens [] query))))"

fun find_query_value :: "uri_query_entry list \<Rightarrow> string \<Rightarrow> string option" where
  "find_query_value [] key = None"
| "find_query_value (e # es) key = (if qe_key e = key \<and> qe_value e \<noteq> [] then Some (qe_value e) else find_query_value es key)"

section \<open>Protocol detection\<close>

datatype uri_protocol = URI_PROTO_UNKNOWN | URI_PROTO_ONSOCTCP | URI_PROTO_ONSOCSSL | URI_PROTO_ONIPCSTR

definition detect_protocol :: "string \<Rightarrow> uri_protocol" where
  "detect_protocol scheme =
     (if length scheme > 9 \<and> take 9 scheme = ''informix+'' then
        let proto = drop 9 scheme
        in if proto = ''onsoctcp'' then URI_PROTO_ONSOCTCP
           else if proto = ''onsocssl'' then URI_PROTO_ONSOCSSL
           else if proto = ''onipcstr'' then URI_PROTO_ONIPCSTR
           else URI_PROTO_UNKNOWN
      else URI_PROTO_UNKNOWN)"

section \<open>Connection parameters of a URI\<close>

record uri_env =
  ue_mem_ok :: bool
  ue_informixtmp :: "string option"
  ue_root_informixtmp :: bool
  ue_unix_user :: "string option"

text \<open>User and password in the URI, decoded; an empty buffer is the empty string.\<close>

definition uri_credentials :: "string \<Rightarrow> string \<times> string" where
  "uri_credentials userinfo =
     (case memchr_split (CHR '':'') userinfo of
        Some (user, pass) \<Rightarrow> (url_decode user 256, url_decode pass 256)
      | None \<Rightarrow> (url_decode userinfo 256, []))"

text \<open>The explicit argument when it is there and not empty, otherwise the buffer when it is not empty.\<close>

definition choose_credential :: "string option \<Rightarrow> string \<Rightarrow> string option" where
  "choose_credential given decoded =
     (if given \<noteq> None \<and> given \<noteq> Some [] then given
      else if decoded \<noteq> [] then Some decoded else None)"

definition default_socket :: "uri_env \<Rightarrow> string \<Rightarrow> string" where
  "default_socket env server =
     take 511 (case ue_informixtmp env of
        Some (c # dir) \<Rightarrow> (c # dir) @ ''/'' @ server @ ''.str''
      | _ \<Rightarrow> if ue_root_informixtmp env then ''/INFORMIXTMP/'' @ server @ ''.str''
             else ''/tmp/.infosock.'' @ server)"

definition unix_params :: "uri_env \<Rightarrow> uri_query_entry list \<Rightarrow> string \<Rightarrow> sqli_connect_params \<Rightarrow> sqli_connect_params" where
  "unix_params env entries server params =
     params\<lparr>cp_service := Some (case find_query_value entries ''SOCKET_PATH'' of
              Some socket_path \<Rightarrow> socket_path | None \<Rightarrow> default_socket env server),
        cp_hostname := Some [],
        cp_username := (if ue_unix_user env \<noteq> None \<and> (cp_username params = None \<or> cp_username params = Some [])
                        then map_option (take 255) (ue_unix_user env) else cp_username params),
        cp_password := None, cp_ssl_enable := False\<rparr>"

definition tcp_params :: "bool \<Rightarrow> uri_components \<Rightarrow> uri_query_entry list \<Rightarrow> sqli_connect_params \<Rightarrow>
    string + sqli_connect_params" where
  "tcp_params ssl comps entries params =
     (let host_raw = copy_range (uc_host comps) 256;
          port_raw = copy_range (uc_port comps) 16
      in if host_raw = [] then Inl ''hostname is required for onsoctcp/onsocssl protocol''
         else if port_raw = [] then Inl ''port is required for onsoctcp/onsocssl protocol''
         else Inr (params\<lparr>cp_hostname := Some host_raw, cp_service := Some port_raw, cp_ssl_enable := ssl,
                cp_ssl_verify_peer := (case find_query_value entries ''SSL_VERIFY_PEER'' of
                    None \<Rightarrow> True
                  | Some v \<Rightarrow> strcaseeq v ''true'' \<or> strcaseeq v ''yes'' \<or> v = ''1''),
                cp_ssl_ca_file := find_query_value entries ''SSL_CA_FILE''\<rparr>))"

text \<open>What the function hands to \<open>sqli_connect\<close>, or its failure status and error message.\<close>

definition uri_params :: "uri_env \<Rightarrow> string \<Rightarrow> string option \<Rightarrow> string option \<Rightarrow>
    sqli_status \<times> string + sqli_connect_params" where
  "uri_params env uri username password =
     (case parse_uri_components uri of None \<Rightarrow> Inl (SQLI_INVALID_STATE, ''failed to parse connection URI'')
      | Some comps \<Rightarrow>
          let proto = detect_protocol (copy_range (uc_scheme comps) 64)
          in if proto = URI_PROTO_UNKNOWN then Inl (SQLI_INVALID_STATE,
               ''unsupported URI scheme: use informix+onsoctcp, informix+onsocssl, or informix+onipcstr'')
          else
            let path = copy_range (uc_path comps) 256;
                path = (if path = [] then ''informix'' else path)
            in case parse_query_string (ue_mem_ok env) (copy_range (uc_query comps) 1024) 32 of
                 None \<Rightarrow> Inl (SQLI_ALLOC_FAIL, ''memory allocation failed for query parameters'')
               | Some entries \<Rightarrow>
                   (case find_query_value entries ''INFORMIXSERVER'' of
                      None \<Rightarrow> Inl (SQLI_INVALID_STATE, ''INFORMIXSERVER query parameter is mandatory'')
                    | Some server \<Rightarrow>
                        let (user, pass) = uri_credentials (copy_range (uc_userinfo comps) 256);
                            params = no_params\<lparr>cp_server := Some server, cp_database := Some path,
                              cp_username := choose_credential username user,
                              cp_password := choose_credential password pass,
                              cp_client_locale := find_query_value entries ''CLIENT_LOCALE'',
                              cp_db_locale := find_query_value entries ''DB_LOCALE''\<rparr>
                        in if proto = URI_PROTO_ONIPCSTR then Inr (unix_params env entries server params)
                           else map_sum (Pair SQLI_INVALID_STATE) id
                                  (tcp_params (proto = URI_PROTO_ONSOCSSL) comps entries params)))"

definition sqli_connect_uri ::
  "(sqli_connect_params \<Rightarrow> sqli_conn \<Rightarrow> sqli_status \<times> sqli_conn) \<Rightarrow> uri_env \<Rightarrow>
   sqli_conn option \<Rightarrow> string option \<Rightarrow> string option \<Rightarrow> string option \<Rightarrow> sqli_status \<times> sqli_conn option" where
  "sqli_connect_uri connect env conn uri username password =
     (case conn of None \<Rightarrow> (SQLI_INVALID_STATE, None)
      | Some c \<Rightarrow>
          if uri = None \<or> uri = Some [] then (SQLI_INVALID_STATE, Some (set_error ''uri and conn are required'' c))
          else case uri_params env (the uri) username password of
            Inl (status, msg) \<Rightarrow> (status, Some (set_error msg c))
          | Inr params \<Rightarrow> apsnd Some (connect params c))"

end
