(* ===== verification/UriFacts.thy ===== *)
theory UriFacts
  imports Uri
begin

text \<open>
  Percent encoding inverts the decoder, URIs built from connection parameters parse back to
  them, and what holds of every URI that is accepted.
\<close>

section \<open>Percent encoding\<close>

definition hex_char :: "nat \<Rightarrow> char" where
  "hex_char n = char_of (if n < 10 then 48 + n else 55 + n)"

definition encode_char :: "char \<Rightarrow> string" where
  "encode_char c = (if isalnum c then [c] else [CHR ''%'', hex_char (of_char c div 16), hex_char (of_char c mod 16)])"

definition percent_encode :: "string \<Rightarrow> string" where
  "percent_encode s = concat (map encode_char s)"

lemma of_char_nibbles [simp]: "(of_char c :: nat) div 16 < 16" "(of_char c :: nat) mod 16 < 16"
  by (rule less_mult_imp_div_less, simp, simp)

lemma hex_char_props:
  assumes "n < 16"
  shows "isxdigit (hex_char n)" "hex_digit (hex_char n) = n" "isalnum (hex_char n)"
proof -
  have "of_char (hex_char n) = (if n < 10 then 48 + n else 55 + n)"
    using assms by (simp add: hex_char_def of_char_of take_bit_eq_mod)
  then show "isxdigit (hex_char n)" "hex_digit (hex_char n) = n" "isalnum (hex_char n)"
    using assms by (auto simp: isxdigit_def hex_digit_def isalnum_def isalpha_def ascii_digit_def Let_def)
qed

lemma not_isalnum [simp]:
  "\<not> isalnum CHR ''%''" "\<not> isalnum CHR ''+''" "\<not> isalnum CHR '':''" "\<not> isalnum CHR ''@''" "\<not> isalnum CHR ''/''"
  "\<not> isalnum CHR ''?''" "\<not> isalnum CHR ''#''" "\<not> isalnum CHR ''&''" "\<not> isalnum CHR ''=''"
  by (simp_all add: isalnum_def isalpha_def ascii_digit_def Let_def)

lemma percent_encode_set: "x \<in> set (percent_encode s) \<Longrightarrow> isalnum x \<or> x = CHR ''%''"
  using hex_char_props(3) by (auto simp: percent_encode_def encode_char_def split: if_splits)

lemma percent_encode_free:
  "c \<in> {CHR '':'', CHR ''@'', CHR ''/'', CHR ''?'', CHR ''#'', CHR ''&'', CHR ''='', CHR ''+''} \<Longrightarrow> c \<notin> set (percent_encode s)"
  using percent_encode_set [of c s] by auto

lemma url_decode_loop_plain: "isalnum c \<Longrightarrow> url_decode_loop (Suc n) (c # s) = c # url_decode_loop n s"
  by auto

lemma url_decode_loop_encode: "url_decode_loop n (percent_encode s) = take n s"
proof (induction s arbitrary: n)
  case Nil
  then show ?case by (cases n) (simp_all add: percent_encode_def)
next
  case (Cons c s)
  show ?case
  proof (cases n)
    case (Suc m)
    have IH: "url_decode_loop m (concat (map encode_char s)) = take m s"
      using Cons.IH by (simp add: percent_encode_def)
    show ?thesis
    proof (cases "isalnum c")
      case True
      then have "url_decode_loop (Suc m) (c # concat (map encode_char s)) = c # url_decode_loop m (concat (map encode_char s))"
        by (rule url_decode_loop_plain)
      then show ?thesis using True Suc IH by (simp add: percent_encode_def encode_char_def del: url_decode_loop.simps)
    next
      case False
      note hex = hex_char_props [OF of_char_nibbles(1) [of c]] hex_char_props [OF of_char_nibbles(2) [of c]]
      have "char_of (16 * (of_char c div 16) + of_char c mod 16 :: nat) = c" by (simp add: mult_div_mod_eq)
      then show ?thesis using False Suc IH hex by (simp add: percent_encode_def encode_char_def)
    qed
  qed simp
qed

lemma c_string_id: "CHR 0x00 \<notin> set s \<Longrightarrow> c_string s = s"
  unfolding c_string_def by (rule takeWhile_eq_all_conv [THEN iffD2]) auto

lemma url_decode_encode: "CHR 0x00 \<notin> set s \<Longrightarrow> length s < n \<Longrightarrow> url_decode (percent_encode s) n = s"
  by (simp add: url_decode_def url_decode_loop_encode c_string_id)

section \<open>Splitting\<close>

lemma strstr_split_sep: "CHR '':'' \<notin> set a \<Longrightarrow> strstr_split ''://'' (a @ CHR '':'' # CHR ''/'' # CHR ''/'' # r) = Some (a, r)"
  by (induction a) auto

lemma strstr_split_parts: "strstr_split pat s = Some (a, r) \<Longrightarrow> s = a @ pat @ r"
proof (induction pat s arbitrary: a rule: strstr_split.induct)
  case (2 pat c cs)
  show ?case
  proof (cases "take (length pat) (c # cs) = pat")
    case True
    then have "a = []" "r = drop (length pat) (c # cs)" using 2(2) by simp_all
    then show ?thesis using True by (metis append_Nil append_take_drop_id)
  next
    case False
    then show ?thesis using 2 by auto
  qed
qed (auto split: if_splits)

lemma takeWhile_sep: "\<forall>x \<in> set a. P x \<Longrightarrow> \<not> P y \<Longrightarrow> takeWhile P (a @ y # r) = a"
  by (induction a) auto

lemma dropWhile_sep: "\<forall>x \<in> set a. P x \<Longrightarrow> \<not> P y \<Longrightarrow> dropWhile P (a @ y # r) = y # r"
  by (induction a) auto

lemma memchr_split_sep: "c \<notin> set a \<Longrightarrow> memchr_split c (a @ c # r) = Some (a, r)"
  using takeWhile_sep [of a "\<lambda>x. x \<noteq> c" c r] dropWhile_sep [of a "\<lambda>x. x \<noteq> c" c r]
  by (fastforce simp: memchr_split_def)

lemma memchr_split_None: "c \<notin> set s \<Longrightarrow> memchr_split c s = None"
  by (simp add: memchr_split_def)

lemma query_tokens_plain: "CHR ''&'' \<notin> set s \<Longrightarrow> tok @ s \<noteq> [] \<Longrightarrow> query_tokens tok s = [tok @ s]"
  by (induction s arbitrary: tok) auto

section \<open>URIs built from parameters\<close>

definition tcp_uri :: "bool \<Rightarrow> string \<Rightarrow> string \<Rightarrow> string \<Rightarrow> string \<Rightarrow> string \<Rightarrow> string \<Rightarrow> string" where
  "tcp_uri ssl user pass host port db server =
     (if ssl then ''informix+onsocssl'' else ''informix+onsoctcp'') @ ''://'' @
     (percent_encode user @ '':'' @ percent_encode pass @ ''@'' @ host @ '':'' @ port) @ ''/'' @
     db @ ''?'' @ ''INFORMIXSERVER='' @ percent_encode server"

definition plain_host :: "string \<Rightarrow> bool" where
  "plain_host s \<longleftrightarrow> s \<noteq> [] \<and> hd s \<noteq> CHR ''['' \<and>
     set s \<inter> {CHR ''/'', CHR ''?'', CHR ''#'', CHR ''@'', CHR '':''} = {}"

definition plain_db :: "string \<Rightarrow> bool" where
  "plain_db s \<longleftrightarrow> s \<noteq> [] \<and> hd s \<noteq> CHR ''/'' \<and> set s \<inter> {CHR ''?'', CHR ''#''} = {}"

definition plain_text :: "string \<Rightarrow> bool" where
  "plain_text s \<longleftrightarrow> s \<noteq> [] \<and> CHR 0x00 \<notin> set s"

lemma parse_host_port_plain:
  "plain_host host \<Longrightarrow> plain_host port \<Longrightarrow> parse_host_port (host @ CHR '':'' # port) = Some (Some host, Some port)"
  using memchr_split_sep [of "CHR '':''" host port]
  by (cases host) (auto simp: parse_host_port_def plain_host_def)

lemma tcp_uri_components:
  assumes "plain_host host" "plain_host port" "plain_db db"
  shows "parse_uri_components (tcp_uri ssl user pass host port db server) =
    Some \<lparr>uc_scheme = Some (if ssl then ''informix+onsocssl'' else ''informix+onsoctcp''),
      uc_userinfo = Some (percent_encode user @ '':'' @ percent_encode pass), uc_host = Some host, uc_port = Some port,
      uc_path = Some db, uc_query = Some (''INFORMIXSERVER='' @ percent_encode server)\<rparr>"
proof -
  define scheme where "scheme = (if ssl then ''informix+onsocssl'' else ''informix+onsoctcp'')"
  define info where "info = percent_encode user @ CHR '':'' # percent_encode pass"
  define hp where "hp = host @ CHR '':'' # port"
  define query where "query = ''INFORMIXSERVER='' @ percent_encode server"
  define rest where "rest = (info @ CHR ''@'' # hp) @ CHR ''/'' # db @ CHR ''?'' # query"
  have uri: "tcp_uri ssl user pass host port db server = scheme @ CHR '':'' # CHR ''/'' # CHR ''/'' # rest"
    by (simp add: tcp_uri_def scheme_def rest_def info_def hp_def query_def)
  have scheme: "CHR '':'' \<notin> set scheme" "scheme \<noteq> []" "scheme_ok scheme"
    by (simp_all add: scheme_def scheme_ok_def isalpha_def isalnum_def Let_def ascii_digit_def)
  have enc: "c \<notin> set (percent_encode s)" if "c \<in> {CHR ''/'', CHR ''?'', CHR ''#'', CHR ''@''}" for c s
    by (rule percent_encode_free) (use that in auto)
  have auth: "\<forall>x \<in> set (info @ CHR ''@'' # hp). x \<notin> {CHR ''/'', CHR ''?'', CHR ''#''}"
    using assms(1,2) enc by (auto simp: info_def hp_def plain_host_def)
  have info: "CHR ''@'' \<notin> set info" using enc by (simp add: info_def)
  have db: "dropWhile (\<lambda>c. c = CHR ''/'') (CHR ''/'' # db @ CHR ''?'' # query) = db @ CHR ''?'' # query"
    using assms(3) by (cases db) (simp_all add: plain_db_def)
  have db_chars: "\<forall>x \<in> set db. x \<notin> {CHR ''?'', CHR ''#''}" using assms(3) by (auto simp: plain_db_def)
  have "CHR ''#'' \<notin> set query" using enc [of "CHR ''#''"] by (simp add: query_def)
  then have query: "takeWhile (\<lambda>c. c \<noteq> CHR ''#'') query = query"
    by (intro takeWhile_eq_all_conv [THEN iffD2]) auto
  have parts: "strstr_split ''://'' (scheme @ CHR '':'' # CHR ''/'' # CHR ''/'' # rest) = Some (scheme, rest)"
    "takeWhile (\<lambda>c. c \<notin> {CHR ''/'', CHR ''?'', CHR ''#''}) rest = info @ CHR ''@'' # hp"
    "dropWhile (\<lambda>c. c \<notin> {CHR ''/'', CHR ''?'', CHR ''#''}) rest = CHR ''/'' # db @ CHR ''?'' # query"
    "memchr_split (CHR ''@'') (info @ CHR ''@'' # hp) = Some (info, hp)"
    "takeWhile (\<lambda>c. c \<notin> {CHR ''?'', CHR ''#''}) (db @ CHR ''?'' # query) = db"
    "dropWhile (\<lambda>c. c \<notin> {CHR ''?'', CHR ''#''}) (db @ CHR ''?'' # query) = CHR ''?'' # query"
    "parse_host_port hp = Some (Some host, Some port)"
    using strstr_split_sep [OF scheme(1)] takeWhile_sep [OF auth] dropWhile_sep [OF auth] memchr_split_sep [OF info]
      takeWhile_sep [OF db_chars] dropWhile_sep [OF db_chars] parse_host_port_plain [OF assms(1,2)]
    by (simp_all add: rest_def hp_def)
  have "parse_uri_components (scheme @ CHR '':'' # CHR ''/'' # CHR ''/'' # rest) =
    Some \<lparr>uc_scheme = Some scheme, uc_userinfo = Some info, uc_host = Some host, uc_port = Some port,
      uc_path = Some db, uc_query = Some query\<rparr>"
    using scheme(2,3) by (simp only: parse_uri_components_def parts option.case prod.case Let_def db query
        list.sel if_False if_True simp_thms list.distinct)
  then show ?thesis by (simp add: uri scheme_def info_def query_def)
qed

lemma copy_range_id: "length s < n \<Longrightarrow> copy_range (Some s) n = s"
  by (simp add: copy_range_def)

lemma percent_encode_alnum: "\<forall>c \<in> set s. isalnum c \<Longrightarrow> percent_encode s = s"
  by (induction s) (simp_all add: percent_encode_def encode_char_def)

lemma server_entry:
  assumes "plain_text server" "length server < 256" "15 + length (percent_encode server) < 1024"
  shows "parse_query_string True (copy_range (Some (''INFORMIXSERVER='' @ percent_encode server)) 1024) 32 =
    Some [\<lparr>qe_key = ''INFORMIXSERVER'', qe_value = server\<rparr>]"
proof -
  let ?q = "''INFORMIXSERVER'' @ CHR ''='' # percent_encode server"
  have q: "''INFORMIXSERVER='' @ percent_encode server = ?q" by simp
  have copy: "copy_range (Some ?q) 1024 = ?q" using assms(3) by (intro copy_range_id) simp
  have "CHR ''&'' \<notin> set ?q" using percent_encode_free [of "CHR ''&''" server] by simp
  then have tokens: "query_tokens [] ?q = [?q]" using query_tokens_plain [of ?q "[]"] by simp
  have "percent_encode ''INFORMIXSERVER'' = ''INFORMIXSERVER''"
    by (rule percent_encode_alnum) (simp add: isalnum_def isalpha_def Let_def ascii_digit_def)
  then have key: "url_decode ''INFORMIXSERVER'' 128 = ''INFORMIXSERVER''"
    using url_decode_encode [of "''INFORMIXSERVER''" 128] by simp
  have val: "url_decode (percent_encode server) 256 = server"
    using assms(1,2) by (intro url_decode_encode) (simp_all add: plain_text_def)
  have "memchr_split (CHR ''='') ?q = Some (''INFORMIXSERVER'', percent_encode server)"
    by (rule memchr_split_sep) simp
  then have "query_entry ?q = \<lparr>qe_key = ''INFORMIXSERVER'', qe_value = server\<rparr>"
    by (simp only: query_entry_def option.case prod.case key val)
  then show ?thesis unfolding q copy parse_query_string_def tokens by simp
qed

lemma credentials_pair:
  assumes "plain_text user" "plain_text pass" "length user < 256" "length pass < 256"
  shows "uri_credentials (percent_encode user @ CHR '':'' # percent_encode pass) = (user, pass)"
proof -
  have "CHR '':'' \<notin> set (percent_encode user)" by (rule percent_encode_free) simp
  then show ?thesis
    using assms by (simp add: uri_credentials_def memchr_split_sep url_decode_encode plain_text_def)
qed

text \<open>
  C32. A TCP or TLS connection URI built from a user, password, host, port, database and server
  name, the credentials and the server percent-encoded, is parsed into exactly these connection
  parameters, with certificate verification on, whatever bytes other than NUL the names
  contain.
\<close>

theorem tcp_uri_round_trip:
  assumes "plain_text user" "plain_text pass" "length (percent_encode user) + length (percent_encode pass) < 255"
    and "length user < 256" "length pass < 256"
    and "plain_host host" "length host < 256" "plain_host port" "length port < 16" "plain_db db" "length db < 256"
    and "plain_text server" "length server < 256" "15 + length (percent_encode server) < 1024"
    and "ue_mem_ok env"
  shows "uri_params env (tcp_uri ssl user pass host port db server) None None =
    Inr (no_params\<lparr>cp_server := Some server, cp_database := Some db, cp_username := Some user,
      cp_password := Some pass, cp_hostname := Some host, cp_service := Some port,
      cp_ssl_enable := ssl, cp_ssl_verify_peer := True\<rparr>)"
proof -
  define scheme where "scheme = (if ssl then ''informix+onsocssl'' else ''informix+onsoctcp'')"
  have proto: "detect_protocol (copy_range (Some scheme) 64) = (if ssl then URI_PROTO_ONSOCSSL else URI_PROTO_ONSOCTCP)"
    by (simp add: scheme_def copy_range_def detect_protocol_def Let_def)
  have info: "copy_range (Some (percent_encode user @ CHR '':'' # percent_encode pass)) 256 =
      percent_encode user @ CHR '':'' # percent_encode pass"
    using assms(3) by (intro copy_range_id) simp
  note creds = credentials_pair [OF assms(1,2,4,5)]
  have copies: "copy_range (Some db) 256 = db" "copy_range (Some host) 256 = host" "copy_range (Some port) 16 = port"
    using assms(7,9,11) by (simp_all add: copy_range_id)
  have nonempty: "db \<noteq> []" "host \<noteq> []" "port \<noteq> []" "user \<noteq> []" "pass \<noteq> []" "server \<noteq> []"
    using assms by (simp_all add: plain_db_def plain_host_def plain_text_def)
  note entry = server_entry [OF assms(12-14)]
  note comps = tcp_uri_components [OF assms(6,8,10), of ssl user pass server]
  show ?thesis
    using assms(15) nonempty proto entry
    by (simp add: uri_params_def comps info creds copies choose_credential_def tcp_params_def Let_def
        no_params_def flip: scheme_def)
qed

lemma tcp_uri_round_trip_witness:
  "uri_params \<lparr>ue_mem_ok = True, ue_informixtmp = None, ue_root_informixtmp = False, ue_unix_user = None\<rparr>
     (tcp_uri True ''u@x'' ''a b'' ''db.example'' ''9088'' ''stores'' ''ol server'') None None =
   Inr (no_params\<lparr>cp_server := Some ''ol server'', cp_database := Some ''stores'', cp_username := Some ''u@x'',
      cp_password := Some ''a b'', cp_hostname := Some ''db.example'', cp_service := Some ''9088'',
      cp_ssl_enable := True, cp_ssl_verify_peer := True\<rparr>)"
  by (rule tcp_uri_round_trip)
    (simp_all add: plain_text_def plain_host_def plain_db_def percent_encode_def encode_char_def isalnum_def isalpha_def
      ascii_digit_def Let_def)

section \<open>Accepted URIs\<close>

lemma url_decode_length: "0 < n \<Longrightarrow> length (url_decode s n) < n"
proof -
  have "length (url_decode_loop k t) \<le> k" for k t
    by (induction k t rule: url_decode_loop.induct) (auto split: list.splits)
  moreover have "length (c_string t) \<le> length t" for t by (simp add: c_string_def length_takeWhile_le)
  ultimately have "length (url_decode s n) \<le> n - 1" unfolding url_decode_def using le_trans by blast
  then show "0 < n \<Longrightarrow> length (url_decode s n) < n" by simp
qed

lemma query_values_bounded:
  "parse_query_string mem q k = Some entries \<Longrightarrow> find_query_value entries key = Some v \<Longrightarrow> v \<noteq> [] \<and> length v < 256"
proof -
  have "v \<noteq> [] \<and> (\<exists>e \<in> set es. qe_value e = v)" if "find_query_value es key = Some v" for es
    using that by (induction es) (auto split: if_splits)
  moreover have "length (qe_value (query_entry t)) < 256" for t
    using url_decode_length [of 256] by (simp add: query_entry_def split: option.split prod.split)
  ultimately show "parse_query_string mem q k = Some entries \<Longrightarrow> find_query_value entries key = Some v \<Longrightarrow> ?thesis"
    by (fastforce simp: parse_query_string_def split: if_splits)
qed

lemma detect_protocol_eq:
  "detect_protocol s = URI_PROTO_ONSOCTCP \<longleftrightarrow> s = ''informix+onsoctcp''"
  "detect_protocol s = URI_PROTO_ONSOCSSL \<longleftrightarrow> s = ''informix+onsocssl''"
  "detect_protocol s = URI_PROTO_ONIPCSTR \<longleftrightarrow> s = ''informix+onipcstr''"
proof -
  have s: "s = take 9 s @ drop 9 s" by simp
  show "detect_protocol s = URI_PROTO_ONSOCTCP \<longleftrightarrow> s = ''informix+onsoctcp''"
    "detect_protocol s = URI_PROTO_ONSOCSSL \<longleftrightarrow> s = ''informix+onsocssl''"
    "detect_protocol s = URI_PROTO_ONIPCSTR \<longleftrightarrow> s = ''informix+onipcstr''"
    by (auto simp: detect_protocol_def Let_def split: if_splits) (subst s, simp)+
qed

text \<open>Components of an accepted URI.\<close>

lemma parsed_scheme:
  assumes "parse_uri_components uri = Some comps"
  shows "\<exists>scheme rest. uc_scheme comps = Some scheme \<and> uri = scheme @ ''://'' @ rest"
proof -
  obtain scheme rest where s: "strstr_split ''://'' uri = Some (scheme, rest)"
    using assms by (cases "strstr_split ''://'' uri") (auto simp: parse_uri_components_def)
  have "\<not> (scheme = [] \<or> \<not> scheme_ok scheme)"
    using assms s by (intro notI) (simp add: parse_uri_components_def)
  then have "uc_scheme comps = Some scheme"
    using assms by (simp add: parse_uri_components_def s Let_def prod.case_eq_if split: option.splits) auto
  then show ?thesis using strstr_split_parts [OF s] by blast
qed

lemma copied_scheme:
  assumes "parse_uri_components uri = Some comps" "copy_range (uc_scheme comps) 64 = s" "length s < 63"
  shows "take (length s + 3) uri = s @ ''://''"
proof -
  obtain scheme rest where "uc_scheme comps = Some scheme" "uri = scheme @ ''://'' @ rest"
    using parsed_scheme [OF assms(1)] by blast
  then show ?thesis using assms(2,3) by (auto simp: copy_range_def min_def split: if_splits)
qed

lemma copy_range_less: "0 < n \<Longrightarrow> length (copy_range p n) < n"
  by (cases p) (auto simp: copy_range_def min_def)

lemma tcp_params_accepted:
  assumes "tcp_params ssl comps entries base = Inr params"
  shows "\<exists>host port. params = base\<lparr>cp_hostname := Some host, cp_service := Some port, cp_ssl_enable := ssl,
      cp_ssl_verify_peer := (case find_query_value entries ''SSL_VERIFY_PEER'' of
          None \<Rightarrow> True | Some v \<Rightarrow> strcaseeq v ''true'' \<or> strcaseeq v ''yes'' \<or> v = ''1''),
      cp_ssl_ca_file := find_query_value entries ''SSL_CA_FILE''\<rparr> \<and>
    host \<noteq> [] \<and> length host < 256 \<and> port \<noteq> [] \<and> length port < 16"
proof -
  have "length (copy_range (uc_host comps) 256) < 256" "length (copy_range (uc_port comps) 16) < 16"
    by (simp_all add: copy_range_less)
  then show ?thesis using assms by (auto simp: tcp_params_def Let_def split: if_splits)
qed

text \<open>
  Every URI that is accepted names a server and a database; TLS is on exactly for the
  \<open>onsocssl\<close> scheme and its certificate check is only off when the query asks for it; a Unix
  socket URI carries no password; otherwise host and port are present and explicit credentials win
  over those in the URI.
\<close>

theorem accepted_uri:
  assumes "uri_params env uri username password = Inr params"
  shows "(\<exists>server. cp_server params = Some server \<and> server \<noteq> [] \<and> length server < 256) \<and>
    (\<exists>db. cp_database params = Some db \<and> db \<noteq> [] \<and> length db < 256) \<and>
    (cp_ssl_enable params \<longleftrightarrow> take 20 uri = ''informix+onsocssl://'') \<and>
    (if take 20 uri = ''informix+onipcstr://'' then cp_password params = None \<and> cp_hostname params = Some []
     else (\<exists>host port. cp_hostname params = Some host \<and> host \<noteq> [] \<and> length host < 256 \<and>
             cp_service params = Some port \<and> port \<noteq> [] \<and> length port < 16) \<and>
       (\<forall>u. username = Some u \<and> u \<noteq> [] \<longrightarrow> cp_username params = Some u) \<and>
       (\<forall>p. password = Some p \<and> p \<noteq> [] \<longrightarrow> cp_password params = Some p) \<and>
       (\<not> cp_ssl_verify_peer params \<longrightarrow> (\<exists>comps entries v. parse_uri_components uri = Some comps \<and>
          parse_query_string (ue_mem_ok env) (copy_range (uc_query comps) 1024) 32 = Some entries \<and>
          find_query_value entries ''SSL_VERIFY_PEER'' = Some v \<and>
          \<not> strcaseeq v ''true'' \<and> \<not> strcaseeq v ''yes'' \<and> v \<noteq> ''1'')))"
proof -
  obtain comps where comps: "parse_uri_components uri = Some comps"
    using assms by (auto simp: uri_params_def split: option.splits)
  define proto where "proto = detect_protocol (copy_range (uc_scheme comps) 64)"
  have known: "proto \<noteq> URI_PROTO_UNKNOWN"
    using assms by (intro notI) (simp add: uri_params_def comps proto_def Let_def)
  obtain entries where entries: "parse_query_string (ue_mem_ok env) (copy_range (uc_query comps) 1024) 32 = Some entries"
    using assms known by (fastforce simp: uri_params_def comps proto_def Let_def split: option.splits)
  obtain server where server: "find_query_value entries ''INFORMIXSERVER'' = Some server"
    using assms known by (fastforce simp: uri_params_def comps proto_def entries Let_def split: option.splits)
  define path where "path = (if copy_range (uc_path comps) 256 = [] then ''informix'' else copy_range (uc_path comps) 256)"
  define base where "base = no_params\<lparr>cp_server := Some server, cp_database := Some path,
      cp_username := choose_credential username (fst (uri_credentials (copy_range (uc_userinfo comps) 256))),
      cp_password := choose_credential password (snd (uri_credentials (copy_range (uc_userinfo comps) 256))),
      cp_client_locale := find_query_value entries ''CLIENT_LOCALE'', cp_db_locale := find_query_value entries ''DB_LOCALE''\<rparr>"
  have "uri_params env uri username password = (if proto = URI_PROTO_ONIPCSTR then Inr (unix_params env entries server base)
      else map_sum (Pair SQLI_INVALID_STATE) id (tcp_params (proto = URI_PROTO_ONSOCSSL) comps entries base))"
    using known
    by (simp add: uri_params_def comps entries server Let_def prod.case_eq_if base_def path_def flip: proto_def)
  then have params: "(if proto = URI_PROTO_ONIPCSTR then Inr (unix_params env entries server base)
      else map_sum (Pair SQLI_INVALID_STATE) id (tcp_params (proto = URI_PROTO_ONSOCSSL) comps entries base)) = Inr params"
    using assms by (rule subst)
  have path: "path \<noteq> [] \<and> length path < 256"
    using copy_range_less [of 256 "uc_path comps"] by (simp add: path_def)
  have srv: "server \<noteq> [] \<and> length server < 256" by (rule query_values_bounded [OF entries server])
  show ?thesis
  proof (cases proto)
    case URI_PROTO_ONIPCSTR
    then have "copy_range (uc_scheme comps) 64 = ''informix+onipcstr''" by (simp add: proto_def detect_protocol_eq)
    from copied_scheme [OF comps this] have "take 20 uri = ''informix+onipcstr://''" by simp
    then show ?thesis using params URI_PROTO_ONIPCSTR srv path
      by (auto simp: unix_params_def base_def)
  next
    case URI_PROTO_UNKNOWN
    then show ?thesis using known by simp
  next
    case URI_PROTO_ONSOCTCP
    then have "copy_range (uc_scheme comps) 64 = ''informix+onsoctcp''" by (simp add: proto_def detect_protocol_eq)
    from copied_scheme [OF comps this] have scheme: "take 20 uri = ''informix+onsoctcp://''" by simp
    have "tcp_params False comps entries base = Inr params"
      using params URI_PROTO_ONSOCTCP by (cases "tcp_params False comps entries base") auto
    from tcp_params_accepted [OF this] show ?thesis
      using scheme srv path comps entries
      by (cases "find_query_value entries ''SSL_VERIFY_PEER''") (auto simp: base_def choose_credential_def)
  next
    case URI_PROTO_ONSOCSSL
    then have "copy_range (uc_scheme comps) 64 = ''informix+onsocssl''" by (simp add: proto_def detect_protocol_eq)
    from copied_scheme [OF comps this] have scheme: "take 20 uri = ''informix+onsocssl://''" by simp
    have "tcp_params True comps entries base = Inr params"
      using params URI_PROTO_ONSOCSSL by (cases "tcp_params True comps entries base") auto
    from tcp_params_accepted [OF this] show ?thesis
      using scheme srv path comps entries
      by (cases "find_query_value entries ''SSL_VERIFY_PEER''") (auto simp: base_def choose_credential_def)
  qed
qed

lemma uri_example:
  "uri_params \<lparr>ue_mem_ok = True, ue_informixtmp = None, ue_root_informixtmp = False, ue_unix_user = None\<rparr>
     ''informix+onsocssl://u:p@h:1/d?INFORMIXSERVER=s'' None (Some ''q'') =
   Inr (no_params\<lparr>cp_server := Some ''s'', cp_database := Some ''d'', cp_username := Some ''u'',
     cp_password := Some ''q'', cp_hostname := Some ''h'', cp_service := Some ''1'',
     cp_ssl_enable := True, cp_ssl_verify_peer := True\<rparr>)"
  by code_simp

lemma accepted_uri_witness:
  "take 20 ''informix+onsocssl://u:p@h:1/d?INFORMIXSERVER=s'' = ''informix+onsocssl://''"
  using accepted_uri [OF uri_example] by simp

end
