(* ===== verification/Descriptor.thy ===== *)
theory Descriptor
  imports TemporalCodec DecimalCodec
begin

text \<open>
  Server descriptor snapshots: src/src/sqli_descriptor.c. The borrowed byte spans are the
  byte strings they point to; the reference counter is the value of the atomic.
\<close>

definition SQLI_DESCRIPTOR_MAX_BYTES :: nat where "SQLI_DESCRIPTOR_MAX_BYTES = 16 * 1024 * 1024"

text \<open>The sizes of the two structures on a 64-bit target.\<close>

definition sizeof_sqli_descriptor :: nat where "sizeof_sqli_descriptor = 72"
definition sizeof_sqli_descriptor_field :: nat where "sizeof_sqli_descriptor_field = 104"

definition SQLI_BIT_NOTNULLABLE :: nat where "SQLI_BIT_NOTNULLABLE = 0x0100"

lemmas descriptor_limits [limit_defs] = SQLI_DESCRIPTOR_MAX_BYTES_def sizeof_sqli_descriptor_def
  sizeof_sqli_descriptor_field_def SQLI_BIT_NOTNULLABLE_def

datatype sqli_column_type =
    SQLI_TYPE_CHAR | SQLI_TYPE_SMALLINT | SQLI_TYPE_INT | SQLI_TYPE_FLOAT | SQLI_TYPE_SMFLOAT
  | SQLI_TYPE_DECIMAL | SQLI_TYPE_SERIAL | SQLI_TYPE_DATE | SQLI_TYPE_MONEY | SQLI_TYPE_NULL
  | SQLI_TYPE_DATETIME | SQLI_TYPE_BYTE | SQLI_TYPE_TEXT | SQLI_TYPE_VARCHAR | SQLI_TYPE_INTERVAL
  | SQLI_TYPE_NCHAR | SQLI_TYPE_NVCHAR | SQLI_TYPE_INT8 | SQLI_TYPE_SERIAL8 | SQLI_TYPE_BIGINT
  | SQLI_TYPE_BIGSERIAL | SQLI_TYPE_LVARCHAR | SQLI_TYPE_BOOL | SQLI_TYPE_DBOOLEAN | SQLI_TYPE_CLOB
  | SQLI_TYPE_BLOB

fun type_code :: "sqli_column_type \<Rightarrow> nat" where
  "type_code SQLI_TYPE_CHAR = 0" | "type_code SQLI_TYPE_SMALLINT = 1" | "type_code SQLI_TYPE_INT = 2"
| "type_code SQLI_TYPE_FLOAT = 3" | "type_code SQLI_TYPE_SMFLOAT = 4" | "type_code SQLI_TYPE_DECIMAL = 5"
| "type_code SQLI_TYPE_SERIAL = 6" | "type_code SQLI_TYPE_DATE = 7" | "type_code SQLI_TYPE_MONEY = 8"
| "type_code SQLI_TYPE_NULL = 9" | "type_code SQLI_TYPE_DATETIME = 10" | "type_code SQLI_TYPE_BYTE = 11"
| "type_code SQLI_TYPE_TEXT = 12" | "type_code SQLI_TYPE_VARCHAR = 13" | "type_code SQLI_TYPE_INTERVAL = 14"
| "type_code SQLI_TYPE_NCHAR = 15" | "type_code SQLI_TYPE_NVCHAR = 16" | "type_code SQLI_TYPE_INT8 = 17"
| "type_code SQLI_TYPE_SERIAL8 = 18" | "type_code SQLI_TYPE_BIGINT = 52" | "type_code SQLI_TYPE_BIGSERIAL = 53"
| "type_code SQLI_TYPE_LVARCHAR = 40" | "type_code SQLI_TYPE_BOOL = 41" | "type_code SQLI_TYPE_DBOOLEAN = 45"
| "type_code SQLI_TYPE_CLOB = 101" | "type_code SQLI_TYPE_BLOB = 102"

text \<open>The types in the order of the enum, and the cast from a code of the enum.\<close>

definition column_types :: "sqli_column_type list" where
  "column_types = [SQLI_TYPE_CHAR, SQLI_TYPE_SMALLINT, SQLI_TYPE_INT, SQLI_TYPE_FLOAT, SQLI_TYPE_SMFLOAT,
     SQLI_TYPE_DECIMAL, SQLI_TYPE_SERIAL, SQLI_TYPE_DATE, SQLI_TYPE_MONEY, SQLI_TYPE_NULL, SQLI_TYPE_DATETIME,
     SQLI_TYPE_BYTE, SQLI_TYPE_TEXT, SQLI_TYPE_VARCHAR, SQLI_TYPE_INTERVAL, SQLI_TYPE_NCHAR, SQLI_TYPE_NVCHAR,
     SQLI_TYPE_INT8, SQLI_TYPE_SERIAL8, SQLI_TYPE_BIGINT, SQLI_TYPE_BIGSERIAL, SQLI_TYPE_LVARCHAR, SQLI_TYPE_BOOL,
     SQLI_TYPE_DBOOLEAN, SQLI_TYPE_CLOB, SQLI_TYPE_BLOB]"

definition type_of_code :: "nat \<Rightarrow> sqli_column_type option" where
  "type_of_code n = find (\<lambda>t. type_code t = n) column_types"

section \<open>Snapshots\<close>

record descriptor_info =
  di_statement_type :: nat
  di_statement_id :: nat
  di_cost_raw :: nat
  di_tuple_size :: nat
  di_field_count :: nat
  di_extended :: bool

text \<open>An available span is \<open>Some\<close> of its bytes.\<close>

type_synonym descriptor_bytes = "byte list option"

record descriptor_field =
  df_extended :: bool
  df_field_index :: nat
  df_tuple_offset :: nat
  df_type_raw :: nat
  df_encoded_length :: nat
  df_extended_info :: nat
  df_reference :: nat
  df_alignment :: nat
  df_source_type :: nat
  df_name :: descriptor_bytes
  df_type_owner :: descriptor_bytes
  df_type_name :: descriptor_bytes

record descriptor =
  dr_references :: nat
  dr_info :: descriptor_info
  dr_fields :: "descriptor_field list"
  dr_names :: "byte list"
  dr_retained_bytes :: nat

definition empty_field :: descriptor_field where
  "empty_field = \<lparr>df_extended = False, df_field_index = 0, df_tuple_offset = 0, df_type_raw = 0, df_encoded_length = 0,
     df_extended_info = 0, df_reference = 0, df_alignment = 0, df_source_type = 0, df_name = None,
     df_type_owner = None, df_type_name = None\<rparr>"

text \<open>\<open>mem\<close> answers each allocation by its size.\<close>

definition sqli_descriptor_create :: "(nat \<Rightarrow> bool) \<Rightarrow> bool \<Rightarrow> descriptor_info option \<Rightarrow> descriptor fallible" where
  "sqli_descriptor_create mem out_given info =
     (case info of None \<Rightarrow> Inl SQLI_INVALID_ARGUMENT
      | Some info \<Rightarrow>
          if \<not> out_given then Inl SQLI_INVALID_ARGUMENT
          else if di_field_count info > 0xFFFF \<or>
            di_field_count info > (SQLI_DESCRIPTOR_MAX_BYTES - sizeof_sqli_descriptor) div sizeof_sqli_descriptor_field
          then Inl SQLI_LIMIT_EXCEEDED
          else if \<not> mem sizeof_sqli_descriptor then Inl SQLI_ALLOC_FAIL
          else if di_field_count info \<noteq> 0 \<and> \<not> mem (di_field_count info * sizeof_sqli_descriptor_field) then Inl SQLI_ALLOC_FAIL
          else Inr \<lparr>dr_references = 1, dr_info = info,
                 dr_fields = replicate (di_field_count info) (empty_field\<lparr>df_extended := di_extended info\<rparr>), dr_names = [],
                 dr_retained_bytes = sizeof_sqli_descriptor + di_field_count info * sizeof_sqli_descriptor_field\<rparr>)"

text \<open>On success the caller gets a span of this length.\<close>

definition sqli_descriptor_alloc_bytes ::
  "(nat \<Rightarrow> bool) \<Rightarrow> nat \<Rightarrow> bool \<Rightarrow> descriptor option \<Rightarrow> sqli_status \<times> descriptor option" where
  "sqli_descriptor_alloc_bytes mem len out_given p =
     (case p of None \<Rightarrow> (SQLI_INVALID_ARGUMENT, None)
      | Some d \<Rightarrow>
          if \<not> out_given then (SQLI_INVALID_ARGUMENT, p)
          else if len > SQLI_DESCRIPTOR_MAX_BYTES - dr_retained_bytes d then (SQLI_LIMIT_EXCEEDED, p)
          else if len \<noteq> 0 \<and> \<not> mem len then (SQLI_ALLOC_FAIL, p)
          else (SQLI_OK, Some (d\<lparr>dr_retained_bytes := dr_retained_bytes d + len\<rparr>)))"

text \<open>
  The loop over the fields from \<open>i\<close> on, at the given rest of the names; it returns the fields as
  they are left, names assigned before a failure included.
\<close>

fun assign_names_loop :: "descriptor_field list \<Rightarrow> byte list \<Rightarrow> sqli_status \<times> descriptor_field list" where
  "assign_names_loop [] names = (SQLI_OK, [])"
| "assign_names_loop (f # fs) names =
     (if names = [] then (SQLI_OK, f # fs)
      else if 0 \<notin> set names then (SQLI_PROTO_ERROR, f # fs)
      else apsnd ((#) (f\<lparr>df_name := Some (takeWhile (\<lambda>b. b \<noteq> 0) names)\<rparr>))
             (assign_names_loop fs (tl (dropWhile (\<lambda>b. b \<noteq> 0) names))))"

definition sqli_descriptor_assign_names :: "descriptor option \<Rightarrow> sqli_status \<times> descriptor option" where
  "sqli_descriptor_assign_names p =
     (case p of None \<Rightarrow> (SQLI_INVALID_ARGUMENT, None)
      | Some d \<Rightarrow> (case assign_names_loop (dr_fields d) (dr_names d) of
          (status, assigned) \<Rightarrow> (status, Some (d\<lparr>dr_fields := assigned\<rparr>))))"

text \<open>The compare-exchange loop is one atomic step.\<close>

definition sqli_descriptor_retain :: "descriptor option \<Rightarrow> sqli_status \<times> descriptor option" where
  "sqli_descriptor_retain p =
     (case p of None \<Rightarrow> (SQLI_INVALID_ARGUMENT, None)
      | Some d \<Rightarrow> if dr_references d = 2 ^ 64 - 1 then (SQLI_LIMIT_EXCEEDED, p)
                 else (SQLI_OK, Some (d\<lparr>dr_references := dr_references d + 1\<rparr>)))"

text \<open>\<open>None\<close> afterwards: the object was freed.\<close>

definition sqli_descriptor_release :: "descriptor option \<Rightarrow> descriptor option" where
  "sqli_descriptor_release p =
     (case p of None \<Rightarrow> None
      | Some d \<Rightarrow> if dr_references d \<noteq> 1 then Some (d\<lparr>dr_references := dr_references d - 1\<rparr>) else None)"

text \<open>The descriptor of a result, which the caller then shares; a NULL result or statement is
  \<open>None\<close>.\<close>

definition sqli_result_get_descriptor ::
  "bool \<Rightarrow> descriptor option option \<Rightarrow> (sqli_status \<times> bool) \<times> descriptor option option" where
  "sqli_result_get_descriptor out_given result =
     (case result of None \<Rightarrow> ((SQLI_INVALID_ARGUMENT, False), result)
      | Some d \<Rightarrow>
          if \<not> out_given then ((SQLI_INVALID_ARGUMENT, False), result)
          else if d = None then ((SQLI_METADATA_UNAVAILABLE, False), result)
          else case sqli_descriptor_retain d of (status, d') \<Rightarrow> ((status, status = SQLI_OK), Some d'))"

definition sqli_stmt_get_descriptor ::
  "bool \<Rightarrow> descriptor option option \<Rightarrow> (sqli_status \<times> bool) \<times> descriptor option option" where
  "sqli_stmt_get_descriptor out_given stmt =
     (if stmt = None \<or> \<not> out_given then ((SQLI_INVALID_ARGUMENT, False), stmt)
      else sqli_result_get_descriptor out_given stmt)"

section \<open>Field views\<close>

definition sqli_descriptor_get_field_count :: "bool \<Rightarrow> descriptor option \<Rightarrow> nat fallible" where
  "sqli_descriptor_get_field_count out_given p =
     (case p of None \<Rightarrow> Inl SQLI_INVALID_ARGUMENT
      | Some d \<Rightarrow> if \<not> out_given then Inl SQLI_INVALID_ARGUMENT else Inr (di_field_count (dr_info d)))"

definition sqli_descriptor_get_field :: "bool \<Rightarrow> nat \<Rightarrow> descriptor option \<Rightarrow> descriptor_field fallible" where
  "sqli_descriptor_get_field out_given index p =
     (case p of None \<Rightarrow> Inl SQLI_INVALID_ARGUMENT
      | Some d \<Rightarrow> if \<not> out_given then Inl SQLI_INVALID_ARGUMENT
                 else if index \<ge> di_field_count (dr_info d) then Inl SQLI_OUT_OF_RANGE
                 else Inr (dr_fields d ! index))"

definition get_bytes :: "bool \<Rightarrow> descriptor_bytes option \<Rightarrow> byte list fallible" where
  "get_bytes out_given bytes =
     (case bytes of None \<Rightarrow> Inl SQLI_INVALID_ARGUMENT
      | Some bs \<Rightarrow> if \<not> out_given then Inl SQLI_INVALID_ARGUMENT
          else (case bs of None \<Rightarrow> Inl SQLI_METADATA_UNAVAILABLE | Some data \<Rightarrow> Inr data))"

definition sqli_descriptor_field_get_name where
  "sqli_descriptor_field_get_name out_given field = get_bytes out_given (map_option df_name field)"

definition sqli_descriptor_field_get_type_owner where
  "sqli_descriptor_field_get_type_owner out_given field = get_bytes out_given (map_option df_type_owner field)"

definition sqli_descriptor_field_get_type_name where
  "sqli_descriptor_field_get_type_name out_given field = get_bytes out_given (map_option df_type_name field)"

text \<open>A raw type with any bit outside the type byte and the NOT NULL bit is not known.\<close>

definition sqli_descriptor_field_get_type :: "bool \<Rightarrow> descriptor_field option \<Rightarrow> sqli_column_type fallible" where
  "sqli_descriptor_field_get_type out_given field =
     (case field of None \<Rightarrow> Inl SQLI_INVALID_ARGUMENT
      | Some f \<Rightarrow>
          if \<not> out_given then Inl SQLI_INVALID_ARGUMENT
          else if df_type_raw f AND (0xff OR SQLI_BIT_NOTNULLABLE) \<noteq> df_type_raw f then Inl SQLI_METADATA_UNAVAILABLE
          else if df_extended f \<and> df_extended_info f \<noteq> 0 then
            (if df_extended_info f = 10 then Inr SQLI_TYPE_BLOB
             else if df_extended_info f = 11 then Inr SQLI_TYPE_CLOB
             else if df_extended_info f = 1 then Inr SQLI_TYPE_LVARCHAR
             else if df_extended_info f = 5 then Inr SQLI_TYPE_BOOL
             else Inl SQLI_METADATA_UNAVAILABLE)
          else (case type_of_code (df_type_raw f mod 256) of
                  None \<Rightarrow> Inl SQLI_METADATA_UNAVAILABLE | Some t \<Rightarrow> Inr t))"

definition decimal_qualifier :: "descriptor_field option \<Rightarrow> sqli_status" where
  "decimal_qualifier field =
     (case sqli_descriptor_field_get_type True field of Inl status \<Rightarrow> status
      | Inr type \<Rightarrow>
          if type \<noteq> SQLI_TYPE_DECIMAL \<and> type \<noteq> SQLI_TYPE_MONEY then SQLI_METADATA_UNAVAILABLE
          else if df_encoded_length (the field) > 0xFFFF then SQLI_PROTO_ERROR
          else (case sqli_decimal_wire_size (df_encoded_length (the field)) True of
                  Inl status \<Rightarrow> status | Inr _ \<Rightarrow> SQLI_OK))"

definition sqli_descriptor_field_get_precision :: "bool \<Rightarrow> descriptor_field option \<Rightarrow> nat fallible" where
  "sqli_descriptor_field_get_precision out_given field =
     (if \<not> out_given then Inl SQLI_INVALID_ARGUMENT
      else let status = decimal_qualifier field
        in if status = SQLI_OK then Inr (df_encoded_length (the field) div 256 mod 256) else Inl status)"

definition sqli_descriptor_field_get_scale :: "bool \<Rightarrow> descriptor_field option \<Rightarrow> nat fallible" where
  "sqli_descriptor_field_get_scale out_given field =
     (if \<not> out_given then Inl SQLI_INVALID_ARGUMENT
      else let status = decimal_qualifier field
        in if status \<noteq> SQLI_OK then Inl status
           else if df_encoded_length (the field) mod 256 = 0xff then Inl SQLI_METADATA_UNAVAILABLE
           else Inr (df_encoded_length (the field) mod 256))"

definition sqli_descriptor_field_get_temporal_range :: "bool \<Rightarrow> descriptor_field option \<Rightarrow> temporal_range fallible" where
  "sqli_descriptor_field_get_temporal_range out_given field =
     (if \<not> out_given then Inl SQLI_INVALID_ARGUMENT
      else case sqli_descriptor_field_get_type True field of Inl status \<Rightarrow> Inl status
        | Inr type \<Rightarrow>
            if type \<noteq> SQLI_TYPE_DATETIME \<and> type \<noteq> SQLI_TYPE_INTERVAL then Inl SQLI_METADATA_UNAVAILABLE
            else if df_encoded_length (the field) > 0xFFFF then Inl SQLI_PROTO_ERROR
            else sqli_temporal_decode_range (df_encoded_length (the field)) (type = SQLI_TYPE_INTERVAL) True)"

end
