(* ===== verification/DescriptorFacts.thy ===== *)
theory DescriptorFacts
  imports Descriptor
begin

text \<open>
  Descriptor snapshots: the names received from the server are split into the fields, and over its
  life a snapshot keeps its reference count equal to the references held and its memory within the
  limit.
\<close>

section \<open>Names\<close>

definition terminated :: "byte list list \<Rightarrow> byte list" where
  "terminated ns = concat (map (\<lambda>n. n @ [0]) ns)"

lemma assign_names_terminated:
  "\<forall>n \<in> set ns. 0 \<notin> set n \<Longrightarrow> length ns \<le> length fs \<Longrightarrow>
   fst (assign_names_loop fs (terminated ns)) = SQLI_OK \<and>
   map df_name (snd (assign_names_loop fs (terminated ns))) = map Some ns @ map df_name (drop (length ns) fs)"
proof (induction fs arbitrary: ns)
  case (Cons f fs)
  show ?case
  proof (cases ns)
    case (Cons n ns')
    have free: "\<forall>b \<in> set n. b \<noteq> 0" using Cons.prems(1) Cons by auto
    have names: "terminated (n # ns') = n @ 0 # terminated ns'" by (simp add: terminated_def)
    have "takeWhile (\<lambda>b. b \<noteq> 0) (n @ 0 # terminated ns') = n" "dropWhile (\<lambda>b. b \<noteq> 0) (n @ 0 # terminated ns') = 0 # terminated ns'"
      using free by (induction n) auto
    then show ?thesis using Cons.IH [of ns'] Cons.prems Cons by (simp add: names)
  qed (simp add: terminated_def)
qed (simp add: terminated_def)

lemma assign_names_length [simp]: "length (snd (assign_names_loop fs names)) = length fs"
  by (induction fs names rule: assign_names_loop.induct) simp_all

text \<open>
  Names that the server sends, each followed by a NUL byte, become exactly the names of the first
  fields, in order, the other fields staying without a name; all other data of the fields are kept.
\<close>

theorem assign_names_correct:
  assumes "\<forall>n \<in> set ns. 0 \<notin> set n" "length ns \<le> length (dr_fields d)" "dr_names d = concat (map (\<lambda>n. n @ [0]) ns)"
  shows "\<exists>d'. sqli_descriptor_assign_names (Some d) = (SQLI_OK, Some d') \<and>
    map df_name (dr_fields d') = map Some ns @ map df_name (drop (length ns) (dr_fields d)) \<and>
    map (\<lambda>f. f\<lparr>df_name := None\<rparr>) (dr_fields d') = map (\<lambda>f. f\<lparr>df_name := None\<rparr>) (dr_fields d)"
proof -
  have "map (\<lambda>f. f\<lparr>df_name := None\<rparr>) (snd (assign_names_loop fs names)) = map (\<lambda>f. f\<lparr>df_name := None\<rparr>) fs" for fs names
    by (induction fs names rule: assign_names_loop.induct) simp_all
  moreover have "dr_names d = terminated ns" using assms(3) by (simp add: terminated_def)
  moreover obtain st fs where "assign_names_loop (dr_fields d) (terminated ns) = (st, fs)" by force
  ultimately show ?thesis
    using assign_names_terminated [OF assms(1,2)] by (simp add: sqli_descriptor_assign_names_def) (metis snd_conv)
qed

definition example_descriptor :: descriptor where
  "example_descriptor = \<lparr>dr_references = 1,
     dr_info = \<lparr>di_statement_type = 2, di_statement_id = 1, di_cost_raw = 0, di_tuple_size = 8, di_field_count = 3, di_extended = False\<rparr>,
     dr_fields = replicate 3 empty_field, dr_names = [], dr_retained_bytes = 384\<rparr>"

lemma assign_names_correct_witness:
  "\<exists>d'. sqli_descriptor_assign_names (Some (example_descriptor\<lparr>dr_names := [105, 100, 0, 110, 0]\<rparr>)) = (SQLI_OK, Some d') \<and>
    map df_name (dr_fields d') = [Some [105, 100], Some [110], None]"
  using assign_names_correct [of "[[105, 100], [110]]" "example_descriptor\<lparr>dr_names := [105, 100, 0, 110, 0]\<rparr>"]
  by (auto simp: example_descriptor_def empty_field_def numeral_3_eq_3)

section \<open>Life of a snapshot\<close>

text \<open>
  The first argument counts the references held. The receive path stores the names it has
  allocated; no \<open>release\<close> is called without a reference.
\<close>

inductive descriptor_reach :: "nat \<Rightarrow> descriptor \<Rightarrow> bool" where
  created: "sqli_descriptor_create mem out_given info = Inr d \<Longrightarrow> descriptor_reach 1 d"
| stored: "descriptor_reach h d \<Longrightarrow> descriptor_reach h (d\<lparr>dr_names := names\<rparr>)"
| allocated: "descriptor_reach h d \<Longrightarrow> sqli_descriptor_alloc_bytes mem len out_given (Some d) = (st, Some d') \<Longrightarrow>
    descriptor_reach h d'"
| assigned: "descriptor_reach h d \<Longrightarrow> sqli_descriptor_assign_names (Some d) = (st, Some d') \<Longrightarrow> descriptor_reach h d'"
| retained: "descriptor_reach h d \<Longrightarrow> sqli_descriptor_retain (Some d) = (SQLI_OK, Some d') \<Longrightarrow> descriptor_reach (h + 1) d'"
| released: "descriptor_reach h d \<Longrightarrow> sqli_descriptor_release (Some d) = Some d' \<Longrightarrow> descriptor_reach (h - 1) d'"

definition descriptor_ok :: "nat \<Rightarrow> descriptor \<Rightarrow> bool" where
  "descriptor_ok h d \<longleftrightarrow> 0 < h \<and> h < 2 ^ 64 \<and> dr_references d = h \<and> length (dr_fields d) = di_field_count (dr_info d) \<and>
     di_field_count (dr_info d) \<le> 0xFFFF \<and> dr_retained_bytes d \<le> SQLI_DESCRIPTOR_MAX_BYTES"

lemma descriptor_reach_ok: "descriptor_reach h d \<Longrightarrow> descriptor_ok h d"
proof (induction rule: descriptor_reach.induct)
  case (created mem out_given info d)
  then show ?case
    by (auto simp: sqli_descriptor_create_def descriptor_ok_def limit_defs split: option.splits if_splits)
next
  case (allocated h d mem len out_given st d')
  then show ?case by (auto simp: sqli_descriptor_alloc_bytes_def descriptor_ok_def split: if_splits)
next
  case (assigned h d st d')
  obtain st' fs where "assign_names_loop (dr_fields d) (dr_names d) = (st', fs)" by force
  moreover from this have "length fs = length (dr_fields d)" using assign_names_length [of "dr_fields d" "dr_names d"] by simp
  ultimately show ?case using assigned by (auto simp: sqli_descriptor_assign_names_def descriptor_ok_def)
next
  case (retained h d d')
  then show ?case by (auto simp: sqli_descriptor_retain_def descriptor_ok_def split: if_splits)
next
  case (released h d d')
  then show ?case by (auto simp: sqli_descriptor_release_def descriptor_ok_def split: if_splits)
qed (simp add: descriptor_ok_def)

text \<open>
  C33. Throughout the life of a descriptor snapshot its counter equals the references held, so
  exactly the release of the last reference frees it; its field views cover exactly the
  indices below the field count, and it never retains more memory than the limit.
\<close>

theorem descriptor_lifetime:
  assumes "descriptor_reach h d"
  shows "(sqli_descriptor_release (Some d) = None \<longleftrightarrow> h = 1) \<and> dr_references d = h \<and> 0 < h \<and>
    (\<forall>i. if i < di_field_count (dr_info d) then sqli_descriptor_get_field True i (Some d) = Inr (dr_fields d ! i) \<and> i < length (dr_fields d)
         else sqli_descriptor_get_field True i (Some d) = Inl SQLI_OUT_OF_RANGE) \<and>
    dr_retained_bytes d \<le> SQLI_DESCRIPTOR_MAX_BYTES"
  using descriptor_reach_ok [OF assms]
  by (auto simp: descriptor_ok_def sqli_descriptor_release_def sqli_descriptor_get_field_def)

lemma descriptor_lifetime_witness:
  "sqli_descriptor_release (Some example_descriptor) = None"
proof -
  have "sqli_descriptor_create (\<lambda>_. True) True (Some (dr_info example_descriptor)) = Inr example_descriptor"
    by (simp add: sqli_descriptor_create_def example_descriptor_def limit_defs empty_field_def)
  from descriptor_lifetime [OF descriptor_reach.created [OF this]] show ?thesis by blast
qed

text \<open>The type codes of the enum and the types correspond.\<close>

lemma type_of_code_inverse [simp]: "type_of_code (type_code t) = Some t"
  by (cases t) (simp_all add: type_of_code_def column_types_def)

lemma type_code_of: "type_of_code n = Some t \<Longrightarrow> type_code t = n"
  by (auto simp: type_of_code_def find_Some_iff)

end
