(* ===== verification/Batch.thy ===== *)
theory Batch
  imports Transaction
begin

text \<open>
  Batches of SQL statements: src/src/sqli_batch.c, on the framing operations of theory
  Transaction. Running a statement is \<open>run_query\<close> of theory Conn; freeing the result
  object of a statement is not modelled.
\<close>

record batch_item =
  bi_status :: sqli_status
  bi_rows_affected :: int
  bi_sqlcode :: int
  bi_isamcode :: int
  bi_opcode :: nat
  bi_message :: string

record batch_result =
  br_count :: nat
  br_success_count :: nat
  br_error_count :: nat
  br_items :: "batch_item list"

text \<open>A zeroed item; messages are cut to the buffer of 512 bytes.\<close>

definition zero_item :: batch_item where
  "zero_item = \<lparr>bi_status = SQLI_OK, bi_rows_affected = 0, bi_sqlcode = 0, bi_isamcode = 0, bi_opcode = 0, bi_message = []\<rparr>"

definition sqli_batch_fill_error_item :: "sqli_conn option \<Rightarrow> sqli_status \<Rightarrow> batch_item \<Rightarrow> batch_item" where
  "sqli_batch_fill_error_item conn rc it =
     (let it = it\<lparr>bi_status := rc, bi_rows_affected := 0, bi_sqlcode := 0, bi_isamcode := 0, bi_opcode := 0, bi_message := []\<rparr>
      in case conn of None \<Rightarrow> it
         | Some conn \<Rightarrow>
             let info = c_error_info conn;
                 it = (if ei_has_error info
                       then let it = it\<lparr>bi_sqlcode := ei_sqlcode info, bi_isamcode := ei_isamcode info, bi_opcode := ei_opcode info\<rparr>
                         in (if ei_message info \<noteq> [] then it\<lparr>bi_message := take 511 (ei_message info)\<rparr> else it)
                       else it)
             in if bi_message it = [] \<and> c_errmsg conn \<noteq> [] then it\<lparr>bi_message := take 511 (c_errmsg conn)\<rparr> else it)"

text \<open>One statement: its item, whether it counts as a success, and the connection.\<close>

definition batch_step :: "string option \<Rightarrow> sqli_conn \<Rightarrow> world \<Rightarrow> (batch_item \<times> bool) \<times> sqli_conn \<times> world" where
  "batch_step sql conn w =
     (if sql = None \<or> sql = Some []
      then ((zero_item\<lparr>bi_status := SQLI_INVALID_STATE, bi_message := ''empty SQL statement''\<rparr>, False), conn, w)
      else case run_query (the sql) conn w of ((rc, rows), conn, w) \<Rightarrow>
        if rc = SQLI_OK \<and> rows \<noteq> None
        then ((zero_item\<lparr>bi_status := SQLI_OK, bi_rows_affected := the rows\<rparr>, True), conn, w)
        else ((sqli_batch_fill_error_item (Some conn) rc zero_item, False), conn, w))"

text \<open>The loop fills the items from the first on.\<close>

fun batch_loop :: "string option list \<Rightarrow> batch_result \<Rightarrow> sqli_conn \<Rightarrow> world \<Rightarrow> batch_result \<times> sqli_conn \<times> world" where
  "batch_loop [] batch conn w = (batch, conn, w)"
| "batch_loop (sql # sqls) batch conn w =
     (case batch_step sql conn w of ((it, success), conn, w) \<Rightarrow>
        batch_loop sqls
          (batch\<lparr>br_items := br_items batch @ [it],
             br_success_count := br_success_count batch + (if success then 1 else 0),
             br_error_count := br_error_count batch + (if success then 0 else 1)\<rparr>) conn w)"

definition batch_execute_conn ::
  "bool \<Rightarrow> bool \<Rightarrow> string option list \<Rightarrow> sqli_conn \<Rightarrow> world \<Rightarrow> (sqli_status \<times> batch_result option) session" where
  "batch_execute_conn mem_batch mem_items sqls conn w =
     (let conn = clear_error conn
      in if c_state conn \<noteq> SQLI_CONN_READY
         then ((SQLI_INVALID_STATE, None),
               set_error ''connection not ready'' (set_error_context ''batch_execute/precheck'' 0 conn), w)
         else if \<not> mem_batch then ((SQLI_ALLOC_FAIL, None), conn, w)
         else if sqls \<noteq> [] \<and> \<not> mem_items then ((SQLI_ALLOC_FAIL, None), conn, w)
         else case batch_begin_conn conn w of (rc, conn, w) \<Rightarrow>
           if rc \<noteq> SQLI_OK then ((rc, None), conn, w)
           else case batch_loop sqls \<lparr>br_count = length sqls, br_success_count = 0, br_error_count = 0, br_items = []\<rparr> conn w of
             (batch, conn, w) \<Rightarrow>
               (case batch_end_conn conn w of (rc, conn, w) \<Rightarrow>
                  if rc \<noteq> SQLI_OK then ((rc, None), conn, w)
                  else ((SQLI_OK, Some batch), if br_error_count batch = 0 then clear_error conn else conn, w)))"

text \<open>\<open>None\<close> for the list or the output is a NULL pointer.\<close>

definition sqli_batch_execute ::
  "bool \<Rightarrow> bool \<Rightarrow> sqli_conn option \<Rightarrow> string option list option \<Rightarrow> bool \<Rightarrow> world \<Rightarrow>
   (sqli_status \<times> batch_result option) \<times> sqli_conn option \<times> world" where
  "sqli_batch_execute mem_batch mem_items p sqls out_given w =
     (case p of None \<Rightarrow> ((SQLI_INVALID_STATE, None), None, w)
      | Some conn \<Rightarrow>
          if sqls = None \<or> \<not> out_given then ((SQLI_INVALID_STATE, None), p, w)
          else case batch_execute_conn mem_batch mem_items (the sqls) conn w of (r, conn, w) \<Rightarrow> (r, Some conn, w))"

definition sqli_batch_result_count :: "batch_result option \<Rightarrow> nat" where
  "sqli_batch_result_count b = (case b of None \<Rightarrow> 0 | Some batch \<Rightarrow> br_count batch)"

definition sqli_batch_result_success_count :: "batch_result option \<Rightarrow> nat" where
  "sqli_batch_result_success_count b = (case b of None \<Rightarrow> 0 | Some batch \<Rightarrow> br_success_count batch)"

definition sqli_batch_result_error_count :: "batch_result option \<Rightarrow> nat" where
  "sqli_batch_result_error_count b = (case b of None \<Rightarrow> 0 | Some batch \<Rightarrow> br_error_count batch)"

definition sqli_batch_result_item :: "batch_result option \<Rightarrow> nat \<Rightarrow> bool \<Rightarrow> batch_item fallible" where
  "sqli_batch_result_item b index out_given =
     (case b of None \<Rightarrow> Inl SQLI_INVALID_STATE
      | Some batch \<Rightarrow> if \<not> out_given \<or> index \<ge> br_count batch then Inl SQLI_INVALID_STATE else Inr (br_items batch ! index))"

end
