(* ===== verification/BatchFacts.thy ===== *)
theory BatchFacts
  imports Batch TransactionFacts
begin

text \<open>
  What a batch promises: which statement runs when and on which connection, what every item of the result reports,
  and how the batch is framed. It rests on the case lemmas of the framing operations.
\<close>

section \<open>The promise\<close>

definition empty_sql :: "string option \<Rightarrow> bool" where
  "empty_sql sql \<longleftrightarrow> sql = None \<or> sql = Some []"

text \<open>
  Runs of statements: each hands its own text, and the connection that the run before has left, to the next run of
  the session. When there is none, the connection is dead.
\<close>

type_synonym sql_run = "sqli_status \<times> int option \<times> sqli_conn"

fun runs_of :: "(string \<Rightarrow> sqli_conn \<Rightarrow> sql_run) list \<Rightarrow> sqli_conn \<Rightarrow> string list \<Rightarrow> sql_run list" where
  "runs_of queries c [] = []"
| "runs_of [] c (sql # sqls) = (SQLI_IO_ERROR, None, c) # runs_of [] c sqls"
| "runs_of (q # queries) c (sql # sqls) = q sql c # runs_of queries (snd (snd (q sql c))) sqls"

definition run_succeeded :: "sql_run \<Rightarrow> bool" where
  "run_succeeded r \<longleftrightarrow> fst r = SQLI_OK \<and> fst (snd r) \<noteq> None"

text \<open>The row count of a success; the status and the diagnostics of a failure.\<close>

definition run_item :: "sql_run \<Rightarrow> batch_item" where
  "run_item r =
     (case r of (st, rows, c) \<Rightarrow>
        let e = c_error_info c; told = ei_has_error e
        in if st = SQLI_OK \<and> rows \<noteq> None
           then \<lparr>bi_status = SQLI_OK, bi_rows_affected = the rows, bi_sqlcode = 0, bi_isamcode = 0, bi_opcode = 0, bi_message = []\<rparr>
           else \<lparr>bi_status = st, bi_rows_affected = 0, bi_sqlcode = (if told then ei_sqlcode e else 0),
             bi_isamcode = (if told then ei_isamcode e else 0), bi_opcode = (if told then ei_opcode e else 0),
             bi_message = take 511 (if told \<and> ei_message e \<noteq> [] then ei_message e else c_errmsg c)\<rparr>)"

text \<open>The items in the order of the statements; an empty statement does not take a run.\<close>

fun batch_items :: "string option list \<Rightarrow> sql_run list \<Rightarrow> batch_item list" where
  "batch_items [] runs = []"
| "batch_items (sql # sqls) runs =
     (if empty_sql sql
      then \<lparr>bi_status = SQLI_INVALID_STATE, bi_rows_affected = 0, bi_sqlcode = 0, bi_isamcode = 0, bi_opcode = 0,
             bi_message = ''empty SQL statement''\<rparr> # batch_items sqls runs
      else run_item (hd runs) # batch_items sqls (tl runs))"

section \<open>The loop\<close>

abbreviation texts :: "string option list \<Rightarrow> string list" where
  "texts sqls \<equiv> map the (filter (\<lambda>sql. \<not> empty_sql sql) sqls)"

lemma batch_step_empty:
  assumes "empty_sql sql"
  shows "batch_step sql c w = ((zero_item\<lparr>bi_status := SQLI_INVALID_STATE, bi_message := ''empty SQL statement''\<rparr>, False), c, w)"
  using assms by (auto simp: batch_step_def empty_sql_def)

lemma batch_step_runs:
  assumes "\<not> empty_sql sql" "run_query (the sql) c w = ((st, rows), c', w')"
  shows "batch_step sql c w = ((run_item (st, rows, c'), run_succeeded (st, rows, c')), c', w')"
  using assms
  by (auto simp: batch_step_def empty_sql_def run_item_def run_succeeded_def sqli_batch_fill_error_item_def zero_item_def Let_def)

lemma batch_loop_runs:
  assumes "batch_loop sqls b c w = (b', c', w')"
  defines "runs \<equiv> runs_of (w_queries w) c (texts sqls)"
  shows "br_items b' = br_items b @ batch_items sqls runs" "br_count b' = br_count b"
    "br_success_count b' = br_success_count b + length (filter run_succeeded runs)"
    "br_success_count b' + br_error_count b' = br_success_count b + br_error_count b + length sqls"
    "w_queries w' = drop (length (texts sqls)) (w_queries w)" "w_sent w' = w_sent w"
    "c' = last (c # map (\<lambda>r. snd (snd r)) runs)"
proof -
  have "br_items b' = br_items b @ batch_items sqls (runs_of (w_queries w) c (texts sqls)) \<and> br_count b' = br_count b \<and>
    br_success_count b' = br_success_count b + length (filter run_succeeded (runs_of (w_queries w) c (texts sqls))) \<and>
    br_success_count b' + br_error_count b' = br_success_count b + br_error_count b + length sqls \<and>
    w_queries w' = drop (length (texts sqls)) (w_queries w) \<and> w_sent w' = w_sent w \<and>
    c' = last (c # map (\<lambda>r. snd (snd r)) (runs_of (w_queries w) c (texts sqls)))"
    using assms(1)
  proof (induction sqls arbitrary: b c w)
    case (Cons sql sqls)
    show ?case
    proof (cases "empty_sql sql")
      case True
      then show ?thesis
        using Cons.prems Cons.IH [of _ c w] batch_step_empty [OF True, of c w] by (fastforce simp: zero_item_def)
    next
      case False
      obtain st rows d v where r: "run_query (the sql) c w = ((st, rows), d, v)" by (metis prod.collapse)
      note step = batch_step_runs [OF False r]
      have run: "runs_of (w_queries w) c (the sql # t) = (st, rows, d) # runs_of (w_queries v) d t" for t
        using r by (cases "w_queries w") (auto simp: run_query_def split: prod.splits)
      have world: "w_queries v = drop 1 (w_queries w)" "w_sent v = w_sent w"
        using r by (cases "w_queries w"; auto simp: run_query_def split: prod.splits)+
      show ?thesis using Cons.prems Cons.IH [of _ d v] step False world by (fastforce simp: run drop_Suc)
    qed
  qed simp
  then show "br_items b' = br_items b @ batch_items sqls runs" "br_count b' = br_count b"
    "br_success_count b' = br_success_count b + length (filter run_succeeded runs)"
    "br_success_count b' + br_error_count b' = br_success_count b + br_error_count b + length sqls"
    "w_queries w' = drop (length (texts sqls)) (w_queries w)" "w_sent w' = w_sent w"
    "c' = last (c # map (\<lambda>r. snd (snd r)) runs)"
    by (simp_all add: runs_def)
qed

section \<open>The batch\<close>

lemma batch_frame_queries:
  "batch_begin_conn c w = (st, c', w') \<Longrightarrow> w_queries w' = w_queries w"
  "batch_end_conn c w = (st, c', w') \<Longrightarrow> w_queries w' = w_queries w"
  by (auto simp: batch_begin_conn_def batch_end_conn_def Let_def fail_with_def dest!: tcp_send_queries
      split: prod.splits if_splits)

lemma batch_execute_ok:
  assumes "batch_execute_conn mem_batch mem_items sqls c w = ((st, out), c', w')"
  obtains (failed) "st \<noteq> SQLI_OK" "out = None"
  | (complete) c1 w1 b c2 w2 c3 where "st = SQLI_OK" "out = Some b" "batch_begin_conn (clear_error c) w = (SQLI_OK, c1, w1)"
      "batch_loop sqls \<lparr>br_count = length sqls, br_success_count = 0, br_error_count = 0, br_items = []\<rparr> c1 w1 = (b, c2, w2)"
      "batch_end_conn c2 w2 = (SQLI_OK, c3, w')" "view c' = view c3"
proof -
  obtain rc c1 w1 where b: "batch_begin_conn (clear_error c) w = (rc, c1, w1)" by (metis prod.collapse)
  obtain batch c2 w2 where l: "batch_loop sqls \<lparr>br_count = length sqls, br_success_count = 0, br_error_count = 0, br_items = []\<rparr> c1 w1 = (batch, c2, w2)"
    by (metis prod.collapse)
  obtain rc' c3 w3 where e: "batch_end_conn c2 w2 = (rc', c3, w3)" by (metis prod.collapse)
  show thesis
  proof (cases "st = SQLI_OK")
    case False
    then have "out = None" using assms b l e by (auto simp: batch_execute_conn_def Let_def split: if_splits)
    then show thesis using False failed by blast
  next
    case True
    then have "rc = SQLI_OK" "rc' = SQLI_OK" "out = Some batch" "w' = w3" "view c' = view c3"
      using assms b l e by (auto simp: batch_execute_conn_def Let_def split: if_splits)
    then show thesis using complete True b l e by blast
  qed
qed

text \<open>
  C34. A batch either fails in its framing, and then there is no result, or every nonempty statement has been run
  once, in their order, with its own text and on the connection that the one before has left, the first on the
  connection as it was, within the batch and without diagnostics. The result has one item for every statement: the
  row count of its run, or the status and the diagnostics of its failure, or a refusal where the statement is empty;
  it counts the successes and the others. The batch is framed by exactly one start and one end message and is
  closed afterwards.
\<close>

theorem batch_execute_accounts:
  assumes "sqli_batch_execute mem_batch mem_items (Some conn) (Some sqls) True w = ((st, out), Some conn', w')"
  defines "runs \<equiv> runs_of (w_queries w) (clear_error (conn\<lparr>c_in_batch := True\<rparr>)) (texts sqls)"
  shows "case out of None \<Rightarrow> st \<noteq> SQLI_OK
    | Some b \<Rightarrow> st = SQLI_OK \<and> br_items b = batch_items sqls runs \<and> sqli_batch_result_count out = length sqls \<and>
        sqli_batch_result_success_count out = length (filter run_succeeded runs) \<and>
        sqli_batch_result_success_count out + sqli_batch_result_error_count out = length sqls \<and>
        w_queries w' = drop (length (texts sqls)) (w_queries w) \<and>
        w_sent w' = w_sent w @ [[0, u8 SQLI_SQ_BATCHSTART], [0, u8 SQLI_SQ_BATCHEND]] \<and>
        \<not> c_in_batch conn \<and> \<not> c_in_batch conn'"
proof -
  have exec: "batch_execute_conn mem_batch mem_items sqls conn w = ((st, out), conn', w')"
    using assms(1) by (simp add: sqli_batch_execute_def split: prod.splits)
  then show ?thesis
  proof (cases rule: batch_execute_ok)
    case (complete c1 w1 b c2 w2 c3)
    from batch_begin_conn_cases [OF complete(3)] have start: "w_sent w1 = w_sent w @ [[0, u8 SQLI_SQ_BATCHSTART]]" "\<not> c_in_batch conn"
      by (auto simp: view_def)
    from batch_end_conn_cases [OF complete(5)] have stop: "w_sent w' = w_sent w2 @ [[0, u8 SQLI_SQ_BATCHEND]]" "\<not> c_in_batch c3"
      by (auto simp: view_def)
    have "c_in_batch conn' = c_in_batch c3" by (rule view_eqD(2) [OF complete(6)])
    with stop have closed: "\<not> c_in_batch conn'" by simp
    have queries: "w_queries w1 = w_queries w" "w_queries w' = w_queries w2"
      using batch_frame_queries(1) [OF complete(3)] batch_frame_queries(2) [OF complete(5)] by simp_all
    have c1: "c1 = clear_error (conn\<lparr>c_in_batch := True\<rparr>)"
      using complete(3) by (auto simp: batch_begin_conn_def verify_txn_ready_def fail_with_def clear_error_def Let_def
          split: prod.splits if_splits)
    from batch_loop_runs [OF complete(4)] show ?thesis
      using complete(1,2) start stop closed queries unfolding runs_def c1
      by (auto simp: sqli_batch_result_count_def sqli_batch_result_success_count_def sqli_batch_result_error_count_def)
  qed simp
qed

definition batch_world :: world where
  "batch_world = \<lparr>w_sends = [2, 2], w_replies = [], w_queries = [\<lambda>_ c. (SQLI_OK, Some 4, c)], w_encode = (\<lambda>_. Inr []), w_sent = []\<rparr>"

definition batch_conn :: sqli_conn where
  "batch_conn = created_conn\<lparr>c_state := SQLI_CONN_READY, c_socket_fd := 4\<rparr>"

lemma batch_run: "\<exists>b c v. sqli_batch_execute True True (Some batch_conn) (Some [Some ''delete from t'', None]) True batch_world =
    ((SQLI_OK, Some b), Some c, v)"
  by (simp add: sqli_batch_execute_def batch_execute_conn_def batch_begin_conn_def batch_end_conn_def batch_step_def
      run_query_def tcp_send_def verify_txn_ready_def batch_world_def batch_conn_def created_conn_def Let_def
      clear_error_def fail_with_def)

lemma batch_execute_accounts_witness:
  "\<exists>b c v. sqli_batch_execute True True (Some batch_conn) (Some [Some ''delete from t'', None]) True batch_world =
     ((SQLI_OK, Some b), Some c, v) \<and> map bi_rows_affected (br_items b) = [4, 0] \<and>
     br_success_count b = 1 \<and> br_error_count b = 1 \<and> \<not> c_in_batch c \<and>
     w_sent v = [[0, u8 SQLI_SQ_BATCHSTART], [0, u8 SQLI_SQ_BATCHEND]]"
proof -
  obtain b c v where r: "sqli_batch_execute True True (Some batch_conn) (Some [Some ''delete from t'', None]) True batch_world =
    ((SQLI_OK, Some b), Some c, v)" using batch_run by blast
  from batch_execute_accounts [OF r] show ?thesis
    using r
    by (simp add: sqli_batch_result_success_count_def sqli_batch_result_error_count_def batch_world_def empty_sql_def run_item_def
        run_succeeded_def)
qed

end
