(* ===== verification/Tuple.thy ===== *)
theory Tuple
  imports Descriptor
begin

text \<open>
  Where a column lies in a row of bytes, and whether it is NULL: the first part of
  src/src/sqli_result.c. A type code outside the enum is \<open>None\<close>. The C code compares the low
  byte of the type; all codes of the enum fit in it.
\<close>

record column_info =
  ci_name :: string
  ci_type :: "sqli_column_type option"
  ci_flags :: nat
  ci_encoded_length :: nat
  ci_col_start_pos :: nat
  ci_field_index :: int

section \<open>Classes of types\<close>

definition sqli_fixed_width_for_type :: "sqli_column_type option \<Rightarrow> nat" where
  "sqli_fixed_width_for_type type =
     (if type \<in> {Some SQLI_TYPE_BOOL, Some SQLI_TYPE_DBOOLEAN} then 1
      else if type = Some SQLI_TYPE_SMALLINT then 2
      else if type \<in> {Some SQLI_TYPE_INT, Some SQLI_TYPE_DATE, Some SQLI_TYPE_SERIAL, Some SQLI_TYPE_SMFLOAT} then 4
      else if type \<in> {Some SQLI_TYPE_FLOAT, Some SQLI_TYPE_BIGINT, Some SQLI_TYPE_BIGSERIAL} then 8
      else if type \<in> {Some SQLI_TYPE_INT8, Some SQLI_TYPE_SERIAL8} then 10
      else 0)"

definition sqli_decimal_packed_width_from_encoded :: "nat \<Rightarrow> nat" where
  "sqli_decimal_packed_width_from_encoded encoded_length =
     (if encoded_length > 0xFFFF then 0
      else case sqli_decimal_wire_size encoded_length True of Inl _ \<Rightarrow> 0 | Inr width \<Rightarrow> width)"

definition sqli_temporal_packed_width_from_encoded :: "sqli_column_type option \<Rightarrow> nat \<Rightarrow> nat" where
  "sqli_temporal_packed_width_from_encoded type encoded_length =
     (if encoded_length > 0xFFFF then 0
      else case sqli_temporal_wire_size encoded_length (type = Some SQLI_TYPE_INTERVAL) True of
             Inl _ \<Rightarrow> 0 | Inr width \<Rightarrow> width)"

definition sqli_type_is_two_byte_prefixed :: "sqli_column_type option \<Rightarrow> bool" where
  "sqli_type_is_two_byte_prefixed type \<longleftrightarrow>
     type \<in> {Some SQLI_TYPE_TEXT, Some SQLI_TYPE_LVARCHAR, Some SQLI_TYPE_BLOB, Some SQLI_TYPE_CLOB,
             Some SQLI_TYPE_DECIMAL, Some SQLI_TYPE_MONEY}"

definition sqli_type_all_zero_is_null_sentinel :: "sqli_column_type option \<Rightarrow> bool" where
  "sqli_type_all_zero_is_null_sentinel type \<longleftrightarrow>
     type \<in> {Some SQLI_TYPE_DECIMAL, Some SQLI_TYPE_MONEY, Some SQLI_TYPE_DATETIME, Some SQLI_TYPE_INTERVAL}"

definition sqli_is_stringy_type :: "sqli_column_type option \<Rightarrow> bool" where
  "sqli_is_stringy_type type \<longleftrightarrow>
     type \<in> {Some SQLI_TYPE_CHAR, Some SQLI_TYPE_NCHAR, Some SQLI_TYPE_VARCHAR, Some SQLI_TYPE_NVCHAR,
             Some SQLI_TYPE_LVARCHAR}"

definition char_type :: "sqli_column_type option \<Rightarrow> bool" where
  "char_type type \<longleftrightarrow> type \<in> {Some SQLI_TYPE_CHAR, Some SQLI_TYPE_NCHAR}"

section \<open>Locating a column\<close>

text \<open>Start and length of the data and the bytes that the column takes.\<close>

type_synonym column_span = "nat \<times> nat \<times> nat"

definition byte_at :: "byte list \<Rightarrow> nat \<Rightarrow> nat" where
  "byte_at tuple i = unat (tuple ! i)"

text \<open>A span of the given length at an offset, when it fits in the row.\<close>

definition fixed_span :: "byte list \<Rightarrow> nat \<Rightarrow> nat \<Rightarrow> column_span fallible" where
  "fixed_span tuple base width = (if width \<le> length tuple - base then Inr (base, width, width) else Inl SQLI_PROTO_ERROR)"

text \<open>Data behind a length byte, and behind a big-endian 16-bit length.\<close>

definition prefixed_span :: "byte list \<Rightarrow> nat \<Rightarrow> column_span fallible" where
  "prefixed_span tuple base =
     (let payload = byte_at tuple base; start = base + 1
      in if payload \<le> length tuple - start then Inr (start, payload, 1 + payload) else Inl SQLI_PROTO_ERROR)"

definition wide_prefixed_span :: "byte list \<Rightarrow> nat \<Rightarrow> column_span fallible" where
  "wide_prefixed_span tuple base =
     (if 2 \<le> length tuple - base then
        let payload = byte_at tuple base * 256 + byte_at tuple (base + 1); start = base + 2
        in if payload \<le> length tuple - start then Inr (start, payload, 2 + payload) else Inl SQLI_PROTO_ERROR
      else Inl SQLI_PROTO_ERROR)"

text \<open>A NULL marker and a big-endian 32-bit length, or else a 16-bit length.\<close>

definition marked_span :: "byte list \<Rightarrow> nat \<Rightarrow> column_span fallible" where
  "marked_span tuple base =
     (let null_marker = byte_at tuple base;
          len32 = byte_at tuple (base + 1) * 2 ^ 24 + byte_at tuple (base + 2) * 2 ^ 16 +
                  byte_at tuple (base + 3) * 2 ^ 8 + byte_at tuple (base + 4)
      in if 5 \<le> length tuple - base \<and> null_marker \<noteq> 0 \<and> len32 = 0 then Inr (base + 5, 0, 5)
         else if 5 \<le> length tuple - base \<and> null_marker = 0 \<and> len32 \<le> length tuple - (base + 5)
           then Inr (base + 5, len32, 5 + len32)
         else wide_prefixed_span tuple base)"

definition declared_width :: "column_info \<Rightarrow> nat" where
  "declared_width col =
     (if sqli_fixed_width_for_type (ci_type col) = 0 \<and> ci_encoded_length col > 0 then ci_encoded_length col
      else sqli_fixed_width_for_type (ci_type col))"

text \<open>The length of a legacy blob descriptor in the row.\<close>

definition lob_descriptor_length :: "column_info \<Rightarrow> nat" where
  "lob_descriptor_length col = (if ci_encoded_length col > 0 then ci_encoded_length col else 56)"

definition sqli_tuple_locate_column :: "column_info \<Rightarrow> byte list \<Rightarrow> column_span fallible" where
  "sqli_tuple_locate_column col tuple =
     (let base = ci_col_start_pos col; type = ci_type col;
          width = (if char_type type then declared_width col else sqli_fixed_width_for_type type)
      in if base \<ge> length tuple then Inl SQLI_PROTO_ERROR
      else if char_type type \<and> width > 0 \<and> byte_at tuple base > 0 \<and> byte_at tuple base < 32 \<and>
          1 + byte_at tuple base = width \<and> byte_at tuple base \<le> length tuple - (base + 1)
        then Inr (base + 1, byte_at tuple base, width)
      else if type \<in> {Some SQLI_TYPE_DECIMAL, Some SQLI_TYPE_MONEY} then
        (let packed = sqli_decimal_packed_width_from_encoded (ci_encoded_length col)
         in if packed > 0 then fixed_span tuple base packed else Inl SQLI_PROTO_ERROR)
      else if type \<in> {Some SQLI_TYPE_DATETIME, Some SQLI_TYPE_INTERVAL} then
        (let packed = sqli_temporal_packed_width_from_encoded type (ci_encoded_length col)
         in if packed > 0 then fixed_span tuple base packed else Inl SQLI_PROTO_ERROR)
      else if type \<in> {Some SQLI_TYPE_BYTE, Some SQLI_TYPE_TEXT} then fixed_span tuple base (lob_descriptor_length col)
      else if type \<in> {Some SQLI_TYPE_BOOL, Some SQLI_TYPE_DBOOLEAN, Some SQLI_TYPE_LVARCHAR, Some SQLI_TYPE_BLOB,
                      Some SQLI_TYPE_CLOB} then marked_span tuple base
      else if width > 0 then fixed_span tuple base width
      else if type \<in> {Some SQLI_TYPE_VARCHAR, Some SQLI_TYPE_NVCHAR} \<or> char_type type \<or>
          \<not> sqli_type_is_two_byte_prefixed type then prefixed_span tuple base
      else wide_prefixed_span tuple base)"

text \<open>The layout that the row cache uses for the column at \<open>offset\<close>, its recorded start.\<close>

definition cache_span :: "column_info \<Rightarrow> byte list \<Rightarrow> nat \<Rightarrow> column_span fallible" where
  "cache_span col tuple offset =
     (let type = ci_type col; width = sqli_fixed_width_for_type type
      in if offset \<ge> length tuple then Inl SQLI_PROTO_ERROR
      else if char_type type then
        (let width = declared_width col
         in if width > 0 \<and> width \<le> length tuple - offset then Inr (offset, width, width)
            else if offset + 1 < length tuple then prefixed_span tuple offset
            else Inl SQLI_PROTO_ERROR)
      else if type \<in> {Some SQLI_TYPE_BYTE, Some SQLI_TYPE_TEXT} then fixed_span tuple offset (lob_descriptor_length col)
      else if type \<in> {Some SQLI_TYPE_BOOL, Some SQLI_TYPE_LVARCHAR, Some SQLI_TYPE_BLOB, Some SQLI_TYPE_CLOB}
        then sqli_tuple_locate_column col tuple
      else if width > 0 then fixed_span tuple offset width
      else if type \<in> {Some SQLI_TYPE_DECIMAL, Some SQLI_TYPE_MONEY} then
        (let packed = sqli_decimal_packed_width_from_encoded (ci_encoded_length col)
         in if packed > 0 \<and> packed \<le> length tuple - offset then Inr (offset, packed, packed)
            else sqli_tuple_locate_column col tuple)
      else if type \<in> {Some SQLI_TYPE_DATETIME, Some SQLI_TYPE_INTERVAL} then
        (let packed = sqli_temporal_packed_width_from_encoded type (ci_encoded_length col)
         in if packed > 0 \<and> packed \<le> length tuple - offset then Inr (offset, packed, packed)
            else sqli_tuple_locate_column col tuple)
      else if type \<in> {Some SQLI_TYPE_VARCHAR, Some SQLI_TYPE_NVCHAR} \<or> \<not> sqli_type_is_two_byte_prefixed type
        then prefixed_span tuple offset
      else wide_prefixed_span tuple offset)"

section \<open>NULL values\<close>

text \<open>The data of a column as a list of byte values.\<close>

definition slice :: "byte list \<Rightarrow> nat \<Rightarrow> nat \<Rightarrow> byte list" where
  "slice tuple start len = take len (drop start tuple)"

text \<open>The sentinels of the nonempty column types that both NULL tests share.\<close>

definition scalar_null :: "sqli_column_type option \<Rightarrow> byte list \<Rightarrow> bool" where
  "scalar_null type p \<longleftrightarrow>
     type = Some SQLI_TYPE_DATE \<and> length p \<ge> 4 \<and> take 4 p = [0x80, 0, 0, 0] \<or>
     type = Some SQLI_TYPE_SMALLINT \<and> p = [0x80, 0] \<or>
     type \<in> {Some SQLI_TYPE_INT, Some SQLI_TYPE_SERIAL} \<and> p = [0x80, 0, 0, 0] \<or>
     type \<in> {Some SQLI_TYPE_BIGINT, Some SQLI_TYPE_BIGSERIAL} \<and> p = [0x80, 0, 0, 0, 0, 0, 0, 0] \<or>
     type \<in> {Some SQLI_TYPE_INT8, Some SQLI_TYPE_SERIAL8} \<and> length p \<ge> 2 \<and> take 2 p = [0, 0] \<or>
     type = Some SQLI_TYPE_SMFLOAT \<and> p = replicate 4 0xFF \<or>
     type = Some SQLI_TYPE_FLOAT \<and> p = replicate 8 0xFF"

definition lob_null :: "sqli_column_type option \<Rightarrow> byte list \<Rightarrow> bool" where
  "lob_null type p \<longleftrightarrow> type \<in> {Some SQLI_TYPE_BYTE, Some SQLI_TYPE_TEXT} \<and> length p \<ge> 40 \<and> odd (unat (p ! 39))"

definition all_zero :: "byte list \<Rightarrow> bool" where
  "all_zero p \<longleftrightarrow> (\<forall>b \<in> set p. b = 0)"

definition cache_null :: "sqli_column_type option \<Rightarrow> byte list \<Rightarrow> nat \<Rightarrow> column_span \<Rightarrow> bool" where
  "cache_null type tuple offset loc =
     (case loc of (start, len, taken) \<Rightarrow>
        if len = 0 then
          type \<in> {Some SQLI_TYPE_LVARCHAR, Some SQLI_TYPE_BOOL, Some SQLI_TYPE_DBOOLEAN} \<and> taken \<ge> 5 \<and> byte_at tuple offset \<noteq> 0 \<or>
          type \<in> {Some SQLI_TYPE_BOOL, Some SQLI_TYPE_DBOOLEAN} \<or>
          \<not> sqli_is_stringy_type type \<and> (sqli_type_is_two_byte_prefixed type \<or> sqli_type_all_zero_is_null_sentinel type)
        else
          let p = slice tuple start len
          in if char_type type \<and> hd p = 0 then \<forall>b \<in> set (tl p). b = 0x20
             else scalar_null type p \<or>
               type \<in> {Some SQLI_TYPE_VARCHAR, Some SQLI_TYPE_NVCHAR} \<and> p = [0] \<or>
               lob_null type p \<or>
               sqli_type_all_zero_is_null_sentinel type \<and> all_zero p)"

text \<open>The test without a row cache.\<close>

definition located_null :: "sqli_column_type option \<Rightarrow> byte list \<Rightarrow> column_span \<Rightarrow> bool" where
  "located_null type tuple loc =
     (case loc of (start, len, taken) \<Rightarrow>
        if len = 0 then
          \<not> sqli_is_stringy_type type \<and> (sqli_type_is_two_byte_prefixed type \<or> sqli_type_all_zero_is_null_sentinel type)
        else
          let p = slice tuple start len
          in scalar_null type p \<or>
             (if type \<in> {Some SQLI_TYPE_BYTE, Some SQLI_TYPE_TEXT} \<and> length p \<ge> 40 then lob_null type p
              else sqli_type_all_zero_is_null_sentinel type \<and> all_zero p))"

section \<open>The row cache\<close>

text \<open>Start, length and NULL flag of a column: the three parallel arrays of the code.\<close>

type_synonym cached_column = "nat \<times> nat \<times> bool"

text \<open>
  The loop over the columns from \<open>offset\<close> on, with the entries that the cache holds for them. On a
  failure the rest of the cache is as it was.
\<close>

fun cache_columns :: "byte list \<Rightarrow> nat \<Rightarrow> column_info list \<Rightarrow> cached_column list \<Rightarrow>
    sqli_status \<times> column_info list \<times> cached_column list" where
  "cache_columns tuple offset [] cache = (SQLI_OK, [], cache)"
| "cache_columns tuple offset (col # cols) cache =
     (if offset > 2 ^ 32 - 1 then (SQLI_LIMIT_EXCEEDED, col # cols, cache)
      else
        let col = col\<lparr>ci_col_start_pos := offset\<rparr>
        in case cache_span col tuple offset of
             Inl rc \<Rightarrow> (rc, col # cols, cache)
           | Inr (start, len, taken) \<Rightarrow>
               if taken = 0 \<or> start > length tuple \<or> len > length tuple - start then (SQLI_PROTO_ERROR, col # cols, cache)
               else
                 (case cache_columns tuple (offset + taken) cols (tl cache) of (rc, cols, rest) \<Rightarrow>
                    (rc, col # cols, (start, len, cache_null (ci_type col) tuple offset (start, len, taken)) # rest)))"

section \<open>Reading without a cache\<close>

definition extract_value_from_tuple :: "column_info option \<Rightarrow> byte list option \<Rightarrow> nat \<Rightarrow> byte list fallible" where
  "extract_value_from_tuple col_info tuple_buf out_len =
     (if col_info = None \<or> tuple_buf = None then Inl SQLI_INVALID_STATE
      else case sqli_tuple_locate_column (the col_info) (the tuple_buf) of
        Inl rc \<Rightarrow> Inl rc
      | Inr (start, len, taken) \<Rightarrow> Inr (slice (the tuple_buf) start (min out_len len)))"

end
