(* ===== verification/Result.thy ===== *)
theory Result
  imports Tuple Lifecycle TemporalCodec
begin

text \<open>
  The rows of a query and the cursor over them (src/src/sqli_result.c, struct sqli_result of
  sqli_internal.h), for a result that is not NULL. The columns are a list (NULL is the empty one);
  \<open>rs_rows\<close> is \<open>None\<close> when one of the two row arrays is NULL; the three arrays of the row cache are
  one list. The rows lie in one arena, of which only its length and capacity are kept besides their
  bytes. The connection that owns the result is read only and so an argument.
\<close>

datatype sqli_cursor_type = SQLI_CURSOR_FORWARD_ONLY | SQLI_CURSOR_SCROLL_INSENSITIVE

datatype sqli_cursor_holdability = SQLI_CURSOR_HOLD_OVER_COMMIT | SQLI_CURSOR_CLOSE_AT_COMMIT

datatype scroll_type = SQLI_SFETCH_LAST | SQLI_SFETCH_ABSOLUTE

record result =
  rs_descriptor :: "descriptor option"
  rs_columns :: "column_info list"
  rs_rows_affected :: int
  rs_generated_serial :: int
  rs_generated_serial8 :: int
  rs_has_generated_serial :: bool
  rs_has_generated_serial8 :: bool
  rs_statement_type :: nat
  rs_warnings :: nat
  rs_stmt_id :: int
  rs_cursor_type :: sqli_cursor_type
  rs_holdability :: sqli_cursor_holdability
  rs_commit_epoch :: nat
  rs_rollback_epoch :: nat
  rs_rows :: "byte list list option"
  rs_arena_len :: nat
  rs_arena_cap :: nat
  rs_row_count :: int
  rs_row_capacity :: int
  rs_cursor :: int
  rs_absolute_row_num :: int
  rs_at_before_first :: bool
  rs_at_after_last :: bool
  rs_tuple_bytes_total :: nat
  rs_tuple_count :: nat
  rs_tuple :: "byte list option"
  rs_current_row :: int
  rs_eof :: bool
  rs_error_code :: int
  rs_saw_done :: bool
  rs_saw_error :: bool
  rs_cache :: "cached_column list option"
  rs_cache_row :: int
  rs_fetch_status :: sqli_status
  rs_ret_type_sent :: bool
  rs_fetch_buf_size :: nat

text \<open>
  The server's part of a scroll fetch: what sending the request returns, what dispatching the reply
  returns and what the reply puts into the result.
\<close>

record scroll_reply =
  sr_send :: sqli_status
  sr_dispatch :: sqli_status
  sr_rows :: "byte list list"
  sr_rows_affected :: int
  sr_saw_error :: bool

text \<open>
  What the operations read besides the result: the owning connection, whether allocating the row cache
  succeeds, and the server's answer to a scroll fetch. Every operation sends at most one.
\<close>

record result_env =
  re_conn :: "conn_object option"
  re_alloc :: bool
  re_scroll :: "scroll_type \<Rightarrow> int \<Rightarrow> scroll_reply"

section \<open>Row storage\<close>

definition sqli_result_clear_rows :: "result \<Rightarrow> result" where
  "sqli_result_clear_rows r =
     r\<lparr>rs_rows := None, rs_arena_len := 0, rs_arena_cap := 0, rs_row_count := 0, rs_fetch_status := SQLI_OK,
       rs_row_capacity := 0, rs_cursor := -1, rs_current_row := -1,
       rs_tuple := None, rs_cache_row := -1, rs_absolute_row_num := 0, rs_at_before_first := True,
       rs_at_after_last := False\<rparr>"

definition sqli_result_prepare_row_cache :: "result_env \<Rightarrow> result \<Rightarrow> sqli_status \<times> result" where
  "sqli_result_prepare_row_cache env r =
     (let r = r\<lparr>rs_cache_row := -1\<rparr>
      in case rs_tuple r of
           None \<Rightarrow> (SQLI_INVALID_STATE, r)
         | Some tuple \<Rightarrow>
             if rs_columns r = [] \<or> rs_current_row r < 0 then (SQLI_INVALID_STATE, r)
             else if length (rs_columns r) > SIZE_MAX div 8 then (SQLI_LIMIT_EXCEEDED, r)
             else if rs_cache r = None \<and> \<not> re_alloc env then (SQLI_ALLOC_FAIL, r)
             else
               let cache = (case rs_cache r of None \<Rightarrow> replicate (length (rs_columns r)) (0, 0, False) | Some c \<Rightarrow> c)
               in case cache_columns tuple 0 (rs_columns r) cache of (rc, cols, cache) \<Rightarrow>
                    let r = r\<lparr>rs_columns := cols, rs_cache := Some cache\<rparr>
                    in if rc = SQLI_OK then (SQLI_OK, r\<lparr>rs_cache_row := rs_current_row r\<rparr>) else (rc, r))"

definition sqli_result_is_null_internal :: "result_env \<Rightarrow> nat \<Rightarrow> result \<Rightarrow> bool \<times> result" where
  "sqli_result_is_null_internal env index r =
     (if index \<ge> length (rs_columns r) \<or> rs_current_row r < 0 then (True, r)
      else case rs_tuple r of
        None \<Rightarrow> (True, r)
      | Some tuple \<Rightarrow>
          if tuple = [] then (True, r)
          else
            let r = (if rs_cache_row r \<noteq> rs_current_row r then snd (sqli_result_prepare_row_cache env r) else r)
            in (if rs_cache_row r = rs_current_row r \<and> rs_cache r \<noteq> None
                then (case the (rs_cache r) ! index of (start, len, null) \<Rightarrow> null)
                else let col = rs_columns r ! index
                     in case sqli_tuple_locate_column col tuple of
                          Inl _ \<Rightarrow> True | Inr loc \<Rightarrow> located_null (ci_type col) tuple loc, r))"

section \<open>The cursor\<close>

definition sqli_result_is_closed_by_commit :: "result_env \<Rightarrow> result \<Rightarrow> bool" where
  "sqli_result_is_closed_by_commit env r \<longleftrightarrow>
     (case re_conn env of None \<Rightarrow> False
      | Some conn \<Rightarrow> c_rollback_epoch conn \<noteq> rs_rollback_epoch r \<or>
          rs_holdability r = SQLI_CURSOR_CLOSE_AT_COMMIT \<and> c_commit_epoch conn \<noteq> rs_commit_epoch r)"

definition sqli_result_mark_closed :: "result \<Rightarrow> result" where
  "sqli_result_mark_closed r =
     r\<lparr>rs_eof := True, rs_cache_row := -1, rs_cursor := -1, rs_current_row := -1, rs_tuple := None,
       rs_absolute_row_num := 0, rs_at_before_first := False, rs_at_after_last := True\<rparr>"

definition sqli_result_move_to_index :: "result_env \<Rightarrow> int \<Rightarrow> result \<Rightarrow> bool \<times> result" where
  "sqli_result_move_to_index env i r =
     (if i < 0 \<or> i \<ge> rs_row_count r then (False, r)
      else case rs_rows r of
        None \<Rightarrow> (False, sqli_result_mark_closed (r\<lparr>rs_fetch_status := SQLI_INVALID_STATE\<rparr>))
      | Some rows \<Rightarrow>
          (case sqli_result_prepare_row_cache env
               (r\<lparr>rs_cursor := i, rs_tuple := Some (rows ! nat i), rs_current_row := i, rs_cache_row := -1,
                  rs_at_before_first := False, rs_at_after_last := False\<rparr>) of
             (status, r) \<Rightarrow>
               if status \<noteq> SQLI_OK then (False, sqli_result_mark_closed (r\<lparr>rs_fetch_status := status\<rparr>)) else (True, r)))"

definition sqli_result_is_server_scrollable :: "result_env \<Rightarrow> result \<Rightarrow> bool" where
  "sqli_result_is_server_scrollable env r \<longleftrightarrow>
     (case re_conn env of None \<Rightarrow> False
      | Some conn \<Rightarrow> rs_cursor_type r = SQLI_CURSOR_SCROLL_INSENSITIVE \<and> rs_statement_type r = 2 \<and> rs_stmt_id r \<ge> 0 \<and>
          c_state conn = SQLI_CONN_READY \<and> c_socket_fd conn \<ge> 0)"

text \<open>The position once the cursor is past the end, or a fetch failed.\<close>

definition past_end :: "result \<Rightarrow> result" where
  "past_end r = r\<lparr>rs_at_after_last := True, rs_at_before_first := False, rs_absolute_row_num := 0\<rparr>"

definition sqli_result_server_refetch :: "result_env \<Rightarrow> scroll_type \<Rightarrow> int \<Rightarrow> result \<Rightarrow> bool \<times> result" where
  "sqli_result_server_refetch env type index r =
     (if \<not> sqli_result_is_server_scrollable env r then (False, r)
      else
        let r = (sqli_result_clear_rows r)\<lparr>rs_eof := False\<rparr>; reply = re_scroll env type index
        in if sr_send reply \<noteq> SQLI_OK then (False, past_end (r\<lparr>rs_fetch_status := sr_send reply\<rparr>))
        else
          let r = r\<lparr>rs_rows := Some (sr_rows reply), rs_row_count := int (length (sr_rows reply)),
                    rs_rows_affected := sr_rows_affected reply, rs_saw_error := rs_saw_error r \<or> sr_saw_error reply\<rparr>
          in if sr_dispatch reply \<noteq> SQLI_OK \<or> rs_row_count r \<le> 0 then
               (False, past_end (if sr_dispatch reply \<noteq> SQLI_OK then r\<lparr>rs_fetch_status := sr_dispatch reply\<rparr> else r))
             else
               let r = (case type of
                          SQLI_SFETCH_ABSOLUTE \<Rightarrow> r\<lparr>rs_absolute_row_num := index\<rparr>
                        | SQLI_SFETCH_LAST \<Rightarrow>
                            r\<lparr>rs_absolute_row_num := (if rs_rows_affected r > 0 then i32 (rs_rows_affected r) else rs_row_count r)\<rparr>)
               in sqli_result_move_to_index env 0 (r\<lparr>rs_at_before_first := False, rs_at_after_last := False\<rparr>))"

text \<open>An empty result is before its first row and after its last.\<close>

definition no_position :: "result \<Rightarrow> result" where
  "no_position r = r\<lparr>rs_absolute_row_num := 0, rs_at_before_first := True, rs_at_after_last := True\<rparr>"

definition positioned :: "int \<Rightarrow> result \<Rightarrow> result" where
  "positioned n r = r\<lparr>rs_absolute_row_num := n, rs_at_before_first := False, rs_at_after_last := False\<rparr>"

definition sqli_result_first :: "result_env \<Rightarrow> result \<Rightarrow> bool \<times> result" where
  "sqli_result_first env r =
     (if sqli_result_is_closed_by_commit env r then (False, sqli_result_mark_closed r)
      else if sqli_result_is_server_scrollable env r then
        (case sqli_result_server_refetch env SQLI_SFETCH_ABSOLUTE 1 r of
           (ok, r) \<Rightarrow> if ok then (True, r) else (False, no_position r))
      else if rs_row_count r > 0 then
        (case sqli_result_move_to_index env 0 r of (ok, r) \<Rightarrow> if ok then (True, positioned 1 r) else (False, no_position r))
      else (False, no_position r))"

definition sqli_result_last :: "result_env \<Rightarrow> result \<Rightarrow> bool \<times> result" where
  "sqli_result_last env r =
     (if sqli_result_is_closed_by_commit env r then (False, sqli_result_mark_closed r)
      else if sqli_result_is_server_scrollable env r then
        (case sqli_result_server_refetch env SQLI_SFETCH_LAST 0 r of
           (ok, r) \<Rightarrow> if ok then (True, r) else (False, no_position r))
      else if rs_row_count r > 0 then
        (case sqli_result_move_to_index env (rs_row_count r - 1) r of
           (ok, r) \<Rightarrow> if ok then (True, positioned (rs_row_count r) r) else (False, no_position r))
      else (False, no_position r))"

text \<open>The cursor leaves the rows, at one end or the other.\<close>

definition leave_rows :: "bool \<Rightarrow> result \<Rightarrow> result" where
  "leave_rows before r =
     r\<lparr>rs_at_before_first := before, rs_at_after_last := \<not> before, rs_absolute_row_num := 0, rs_cursor := -1,
       rs_current_row := -1, rs_tuple := None\<rparr>"

definition sqli_result_absolute :: "result_env \<Rightarrow> int \<Rightarrow> result \<Rightarrow> bool \<times> result" where
  "sqli_result_absolute env row r =
     (if sqli_result_is_closed_by_commit env r then (False, sqli_result_mark_closed r)
      else if row \<le> 0 then (False, r)
      else if sqli_result_is_server_scrollable env r then
        (case sqli_result_server_refetch env SQLI_SFETCH_ABSOLUTE row r of
           (ok, r) \<Rightarrow> if ok then (True, r) else (False, leave_rows False r))
      else if row \<le> rs_row_count r then
        (case sqli_result_move_to_index env (row - 1) r of
           (ok, r) \<Rightarrow> if ok then (True, positioned row r) else (False, leave_rows False r))
      else (False, leave_rows False r))"

definition sqli_result_row_number :: "result \<Rightarrow> int" where
  "sqli_result_row_number r =
     (if rs_at_before_first r \<or> rs_at_after_last r then 0
      else if rs_absolute_row_num r > 0 then rs_absolute_row_num r
      else if rs_cursor r < 0 \<or> rs_cursor r \<ge> rs_row_count r then 0
      else rs_cursor r + 1)"

text \<open>The addition is one of 32-bit integers; it is written here with wrap-around.\<close>

definition sqli_result_relative :: "result_env \<Rightarrow> int \<Rightarrow> result \<Rightarrow> bool \<times> result" where
  "sqli_result_relative env offset r =
     (if sqli_result_is_closed_by_commit env r then (False, sqli_result_mark_closed r)
      else if offset = 0 then (rs_cursor r \<ge> 0 \<and> rs_tuple r \<noteq> None, r)
      else
        let current_pos = sqli_result_row_number r
        in if current_pos \<le> 0 \<and> \<not> (rs_at_before_first r \<and> offset > 0) then (False, r)
        else
          let current_pos = (if current_pos \<le> 0 then 0 else current_pos); target = i32 (current_pos + offset)
          in if target \<le> 0 then (False, leave_rows True r) else sqli_result_absolute env target r)"

definition sqli_result_previous :: "result_env \<Rightarrow> result \<Rightarrow> bool \<times> result" where
  "sqli_result_previous env r =
     (if sqli_result_is_closed_by_commit env r then (False, sqli_result_mark_closed r)
      else if rs_at_after_last r then sqli_result_last env r
      else
        let current_pos = sqli_result_row_number r; target = current_pos - 1
        in if current_pos \<le> 1 then (False, leave_rows True r)
        else if \<not> sqli_result_is_server_scrollable env r \<or> rs_cursor r > 0 \<and> rs_cursor r < rs_row_count r then
          (case sqli_result_move_to_index env (rs_cursor r - 1) r of
             (ok, r) \<Rightarrow> if ok then (True, positioned target r) else sqli_result_absolute env target r)
        else sqli_result_absolute env target r)"

definition INT32_MAX :: int where "INT32_MAX = 2 ^ 31 - 1"

definition sqli_result_next_internal :: "result_env \<Rightarrow> result \<Rightarrow> bool \<times> result" where
  "sqli_result_next_internal env r =
     (if sqli_result_is_closed_by_commit env r then (False, sqli_result_mark_closed r)
      else if rs_at_after_last r then (False, r)
      else if rs_at_before_first r then
        let r = r\<lparr>rs_at_before_first := False\<rparr>
        in if rs_cursor r < 0 \<and> rs_row_count r > 0 \<and> rs_absolute_row_num r = 0 then
             (case sqli_result_move_to_index env 0 r of
                (ok, r) \<Rightarrow> if ok then (True, r\<lparr>rs_absolute_row_num := 1\<rparr>) else (False, r))
           else sqli_result_first env r
      else
        let next_idx = rs_cursor r + 1
        in if next_idx < rs_row_count r then
             if rs_absolute_row_num r = INT32_MAX
             then (False, sqli_result_mark_closed (r\<lparr>rs_fetch_status := SQLI_OUT_OF_RANGE\<rparr>))
             else (case sqli_result_move_to_index env next_idx r of
                     (ok, r) \<Rightarrow>
                       if ok then (True, positioned (if rs_absolute_row_num r > 0 then rs_absolute_row_num r + 1 else next_idx + 1) r)
                       else (False, r))
           else if sqli_result_is_server_scrollable env r \<and> rs_absolute_row_num r > 0 then
             if rs_absolute_row_num r = INT32_MAX
             then (False, sqli_result_mark_closed (r\<lparr>rs_fetch_status := SQLI_OUT_OF_RANGE\<rparr>))
             else sqli_result_absolute env (rs_absolute_row_num r + 1) r
           else (False, leave_rows False r))"

definition fetch_failed :: "sqli_status \<Rightarrow> result \<Rightarrow> sqli_status \<times> result" where
  "fetch_failed status r = (status, sqli_result_mark_closed (r\<lparr>rs_fetch_status := status\<rparr>))"

definition sqli_result_fetch :: "result_env \<Rightarrow> result \<Rightarrow> sqli_status \<times> result" where
  "sqli_result_fetch env r =
     (if (case re_conn env of None \<Rightarrow> False | Some conn \<Rightarrow> l_discarded conn)
      then (SQLI_INVALID_STATE, sqli_result_mark_closed r)
      else if rs_fetch_status r \<noteq> SQLI_OK then (rs_fetch_status r, sqli_result_mark_closed r)
      else if sqli_result_is_closed_by_commit env r then fetch_failed SQLI_INVALID_STATE r
      else if rs_saw_error r \<or> rs_error_code r \<noteq> 0 then fetch_failed SQLI_PROTO_ERROR r
      else case sqli_result_next_internal env r of
        (row, r) \<Rightarrow> if rs_fetch_status r \<noteq> SQLI_OK then (rs_fetch_status r, sqli_result_mark_closed r)
                    else (if row then SQLI_OK else SQLI_EOF, r))"

definition sqli_result_next :: "result_env \<Rightarrow> result \<Rightarrow> bool \<times> result" where
  "sqli_result_next env r = (case sqli_result_fetch env r of (status, r) \<Rightarrow> (status = SQLI_OK, r))"

section \<open>Reading the current row\<close>

definition sqli_result_current_span :: "result_env \<Rightarrow> nat \<Rightarrow> result \<Rightarrow> (column_info \<times> byte list) fallible" where
  "sqli_result_current_span env index r =
     (if index \<ge> length (rs_columns r) then Inl SQLI_OUT_OF_RANGE
      else if rs_fetch_status r \<noteq> SQLI_OK then Inl (rs_fetch_status r)
      else if sqli_result_is_closed_by_commit env r \<or> rs_current_row r < 0 \<or> rs_at_before_first r \<or> rs_at_after_last r \<or>
          rs_tuple r = None \<or> rs_cache_row r \<noteq> rs_current_row r \<or> rs_cache r = None
        then Inl SQLI_INVALID_STATE
      else case the (rs_cache r) ! index of (start, len, null) \<Rightarrow>
        if start > length (the (rs_tuple r)) \<or> len > length (the (rs_tuple r)) - start then Inl SQLI_PROTO_ERROR
        else Inr (rs_columns r ! index, slice (the (rs_tuple r)) start len))"

definition sqli_result_get_decimal ::
  "(nat \<Rightarrow> bool) \<Rightarrow> result_env \<Rightarrow> nat \<Rightarrow> result \<Rightarrow> sqli_decimal option \<Rightarrow> sqli_status \<times> sqli_decimal option" where
  "sqli_result_get_decimal mem env index r out =
     (if out = None then (SQLI_INVALID_ARGUMENT, out)
      else case sqli_result_current_span env index r of
        Inl status \<Rightarrow> (status, out)
      | Inr (column, bytes) \<Rightarrow>
          if ci_type column \<notin> {Some SQLI_TYPE_DECIMAL, Some SQLI_TYPE_MONEY} then (SQLI_TYPE_MISMATCH, out)
          else if ci_encoded_length column > 0xFFFF then (SQLI_PROTO_ERROR, out)
          else sqli_decimal_decode_wire mem (Some bytes) (ci_encoded_length column) out)"

definition sqli_result_get_date ::
  "result_env \<Rightarrow> nat \<Rightarrow> result \<Rightarrow> sqli_date option \<Rightarrow> sqli_status \<times> sqli_date option" where
  "sqli_result_get_date env index r out =
     (if out = None then (SQLI_INVALID_ARGUMENT, out)
      else case sqli_result_current_span env index r of
        Inl status \<Rightarrow> (status, out)
      | Inr (column, bytes) \<Rightarrow>
          if ci_type column \<noteq> Some SQLI_TYPE_DATE then (SQLI_TYPE_MISMATCH, out)
          else if ci_encoded_length column \<noteq> SQLI_DATE_WIRE_SIZE then (SQLI_PROTO_ERROR, out)
          else sqli_date_decode_wire (Some bytes) out)"

definition sqli_result_get_datetime ::
  "result_env \<Rightarrow> nat \<Rightarrow> result \<Rightarrow> sqli_datetime option \<Rightarrow> sqli_status \<times> sqli_datetime option" where
  "sqli_result_get_datetime env index r out =
     (if out = None then (SQLI_INVALID_ARGUMENT, out)
      else case sqli_result_current_span env index r of
        Inl status \<Rightarrow> (status, out)
      | Inr (column, bytes) \<Rightarrow>
          if ci_type column \<noteq> Some SQLI_TYPE_DATETIME then (SQLI_TYPE_MISMATCH, out)
          else if ci_encoded_length column > 0xFFFF then (SQLI_PROTO_ERROR, out)
          else sqli_datetime_decode_wire (Some bytes) (ci_encoded_length column) out)"

definition sqli_result_get_interval ::
  "result_env \<Rightarrow> nat \<Rightarrow> result \<Rightarrow> sqli_interval option \<Rightarrow> sqli_status \<times> sqli_interval option" where
  "sqli_result_get_interval env index r out =
     (if out = None then (SQLI_INVALID_ARGUMENT, out)
      else case sqli_result_current_span env index r of
        Inl status \<Rightarrow> (status, out)
      | Inr (column, bytes) \<Rightarrow>
          if ci_type column \<noteq> Some SQLI_TYPE_INTERVAL then (SQLI_TYPE_MISMATCH, out)
          else if ci_encoded_length column > 0xFFFF then (SQLI_PROTO_ERROR, out)
          else sqli_interval_decode_wire (Some bytes) (ci_encoded_length column) out)"

section \<open>Counts and generated keys\<close>

definition sqli_result_rows_affected :: "result \<Rightarrow> int" where
  "sqli_result_rows_affected r = rs_rows_affected r"

definition sqli_result_has_generated_serial :: "result \<Rightarrow> bool" where
  "sqli_result_has_generated_serial r = rs_has_generated_serial r"

definition sqli_result_generated_serial :: "result \<Rightarrow> int" where
  "sqli_result_generated_serial r = (if rs_has_generated_serial r then rs_generated_serial r else 0)"

definition sqli_result_has_generated_serial8 :: "result \<Rightarrow> bool" where
  "sqli_result_has_generated_serial8 r = rs_has_generated_serial8 r"

definition sqli_result_generated_serial8 :: "result \<Rightarrow> int" where
  "sqli_result_generated_serial8 r = (if rs_has_generated_serial8 r then rs_generated_serial8 r else 0)"

definition sqli_result_columns :: "result \<Rightarrow> int" where
  "sqli_result_columns r = int (length (rs_columns r))"

end
