(* ===== verification/CursorSpec.thy ===== *)
theory CursorSpec
  imports Prelude
begin

text \<open>
  The contract of a scrollable cursor over \<open>n\<close> rows: a position from 0 (before the first row) over the
  rows 1 to \<open>n\<close> to \<open>n + 1\<close> (after the last), and the six ways to move it. The interface is a locale;
  the theory of the results interprets it on the code's operations.
\<close>

datatype cursor_op = Next | Previous | First | Last | Absolute int | Relative int

text \<open>Whether a row is current afterwards, and the position.\<close>

fun abs_cursor :: "nat \<Rightarrow> cursor_op \<Rightarrow> nat \<Rightarrow> bool \<times> nat" where
  "abs_cursor n Next p = (if n \<le> p then (False, n + 1) else (True, p + 1))"
| "abs_cursor n Previous p =
     (if p = n + 1 then (if n = 0 then (False, n + 1) else (True, n))
      else if p \<le> 1 then (False, 0) else (True, p - 1))"
| "abs_cursor n First p = (if n = 0 then (False, n + 1) else (True, 1))"
| "abs_cursor n Last p = (if n = 0 then (False, n + 1) else (True, n))"
| "abs_cursor n (Absolute k) p = (if k \<le> 0 then (False, p) else if k \<le> int n then (True, nat k) else (False, n + 1))"
| "abs_cursor n (Relative k) p =
     (if k = 0 then (1 \<le> p \<and> p \<le> n, p)
      else if p = n + 1 \<or> p = 0 \<and> k < 0 then (False, p)
      else if int p + k \<le> 0 then (False, 0)
      else if int p + k \<le> int n then (True, nat (int p + k)) else (False, n + 1))"

lemma abs_cursor_bounds: "p \<le> n + 1 \<Longrightarrow> snd (abs_cursor n op p) \<le> n + 1"
  by (cases op) (auto simp: Let_def)

lemma abs_cursor_row:
  "p \<le> n + 1 \<Longrightarrow> fst (abs_cursor n op p) \<Longrightarrow> 1 \<le> snd (abs_cursor n op p) \<and> snd (abs_cursor n op p) \<le> n"
  by (cases op) (auto split: if_splits)

text \<open>Calls of an operation until it finds no row: the rows found, and the state it stops in.\<close>

fun drain :: "('r \<Rightarrow> bool \<times> 'r) \<Rightarrow> ('r \<Rightarrow> 'a) \<Rightarrow> nat \<Rightarrow> 'r \<Rightarrow> 'a list \<times> 'r" where
  "drain step cell 0 r = ([], r)"
| "drain step cell (Suc fuel) r =
     (case step r of (ok, r) \<Rightarrow> if ok then (case drain step cell fuel r of (xs, r') \<Rightarrow> (cell r # xs, r')) else ([], r))"

locale scroll_cursor =
  fixes ok :: "'r \<Rightarrow> bool" and rows :: "'r \<Rightarrow> 'a list" and position :: "'r \<Rightarrow> nat" and cell :: "'r \<Rightarrow> 'a option"
    and step :: "cursor_op \<Rightarrow> 'r \<Rightarrow> bool \<times> 'r" and admitted :: "cursor_op \<Rightarrow> 'r \<Rightarrow> bool"
  assumes position_bound: "ok r \<Longrightarrow> position r \<le> length (rows r) + 1"
    and cell_row: "ok r \<Longrightarrow> 1 \<le> position r \<Longrightarrow> position r \<le> length (rows r) \<Longrightarrow> cell r = Some (rows r ! (position r - 1))"
    and step_refines: "ok r \<Longrightarrow> admitted op r \<Longrightarrow> step op r = (b, r') \<Longrightarrow>
      ok r' \<and> rows r' = rows r \<and> (b, position r') = abs_cursor (length (rows r)) op (position r)"
    and admitted_simple: "op \<in> {Next, Previous, First, Last, Absolute k} \<Longrightarrow> admitted op r"
begin

lemma forward_drain:
  "ok r \<Longrightarrow> position r \<le> length (rows r) \<Longrightarrow> length (rows r) - position r < fuel \<Longrightarrow>
   \<exists>r'. drain (step Next) cell fuel r = (map Some (drop (position r) (rows r)), r') \<and> ok r' \<and>
     rows r' = rows r \<and> position r' = length (rows r) + 1"
proof (induction fuel arbitrary: r)
  case (Suc fuel)
  obtain b r1 where step: "step Next r = (b, r1)" by (cases "step Next r")
  note succ = step_refines [OF Suc.prems(1) admitted_simple step]
  show ?case
  proof (cases "position r = length (rows r)")
    case True
    then show ?thesis using succ step by auto
  next
    case False
    then have less: "position r < length (rows r)" using Suc.prems(2) by simp
    then have pos: "b" "position r1 = position r + 1" and rows: "rows r1 = rows r" and ok: "ok r1" using succ by auto
    obtain r' where IH: "drain (step Next) cell fuel r1 = (map Some (drop (position r1) (rows r1)), r')"
      "ok r' \<and> rows r' = rows r1 \<and> position r' = length (rows r1) + 1"
      using Suc.IH [OF ok] less pos(2) rows Suc.prems(3) by fastforce
    have "cell r1 = Some (rows r ! position r)" using cell_row [OF ok] pos rows less by simp
    then show ?thesis using step pos rows IH less by (simp add: Cons_nth_drop_Suc [symmetric])
  qed
qed simp

text \<open>A result read from the start delivers its rows in order, once each, and stays at the end.\<close>

lemma reads_all_rows:
  assumes "ok r" "position r = 0" "length (rows r) < fuel"
  shows "fst (drain (step Next) cell fuel r) = map Some (rows r)"
    and "\<not> fst (step Next (snd (drain (step Next) cell fuel r)))"
proof -
  obtain r' where r': "drain (step Next) cell fuel r = (map Some (rows r), r')" "ok r'" "rows r' = rows r"
      "position r' = length (rows r) + 1"
    using forward_drain [OF assms(1), of fuel] assms(2,3) by auto
  then show "fst (drain (step Next) cell fuel r) = map Some (rows r)" by simp
  obtain b r2 where step: "step Next r' = (b, r2)" by (cases "step Next r'")
  have "(b, position r2) = abs_cursor (length (rows r')) Next (position r')"
    using step_refines [OF r'(2) admitted_simple step] by simp
  then show "\<not> fst (step Next (snd (drain (step Next) cell fuel r)))" using r' step by simp
qed

lemma backward_drain:
  "ok r \<Longrightarrow> 1 \<le> position r \<Longrightarrow> position r \<le> length (rows r) + 1 \<Longrightarrow> position r \<le> fuel \<Longrightarrow>
   fst (drain (step Previous) cell fuel r) = map Some (rev (take (position r - 1) (rows r)))"
proof (induction fuel arbitrary: r)
  case (Suc fuel)
  obtain b r1 where step: "step Previous r = (b, r1)" by (cases "step Previous r")
  note prev = step_refines [OF Suc.prems(1) admitted_simple step]
  show ?case
  proof (cases "position r = 1")
    case True
    then show ?thesis using prev step by (cases "rows r") (auto split: prod.split)
  next
    case False
    then have pos: "b" "position r1 = position r - 1" and rows: "rows r1 = rows r" and ok: "ok r1"
      using prev Suc.prems(2,3) by (auto split: if_splits)
    have inside: "1 \<le> position r1" "position r1 \<le> length (rows r)" using pos False Suc.prems(2,3) by auto
    have "fst (drain (step Previous) cell fuel r1) = map Some (rev (take (position r1 - 1) (rows r1)))"
      using Suc.IH [OF ok] inside rows pos Suc.prems(4) by auto
    moreover have "cell r1 = Some (rows r ! (position r1 - 1))" using cell_row [OF ok] inside rows by simp
    moreover have "take (position r1) (rows r) = take (position r1 - 1) (rows r) @ [rows r ! (position r1 - 1)]"
      using inside take_Suc_conv_app_nth [of "position r1 - 1" "rows r"] by simp
    ultimately show ?thesis using step pos rows by (auto split: prod.split)
  qed
qed simp

end

end
