(* ===== verification/TupleFacts.thy ===== *)
theory TupleFacts
  imports Tuple
begin

text \<open>
  Every located column lies inside the row, the cached columns partition a prefix of the row, and the
  two ways of locating a column agree except on the layouts that the facts name.
\<close>

definition span_ok :: "byte list \<Rightarrow> nat \<Rightarrow> column_span \<Rightarrow> bool" where
  "span_ok tuple base loc \<longleftrightarrow>
     (case loc of (start, len, taken) \<Rightarrow> base \<le> start \<and> start + len = base + taken \<and> start + len \<le> length tuple \<and> 0 < taken)"

lemma byte_at_less [simp]: "byte_at tuple i < 256"
  by (simp add: byte_at_def)

text \<open>A reader of a span that fails or is right, closed under the conditionals of the code.\<close>

definition spans_ok :: "byte list \<Rightarrow> nat \<Rightarrow> column_span fallible \<Rightarrow> bool" where
  "spans_ok tuple base r \<longleftrightarrow> (case r of Inl rc \<Rightarrow> rc \<noteq> SQLI_OK | Inr loc \<Rightarrow> span_ok tuple base loc)"

lemma spans_ok_if:
  "(c \<Longrightarrow> spans_ok tuple base x) \<Longrightarrow> (\<not> c \<Longrightarrow> spans_ok tuple base y) \<Longrightarrow> spans_ok tuple base (if c then x else y)"
  by simp

lemma spans_ok_Inl: "rc \<noteq> SQLI_OK \<Longrightarrow> spans_ok tuple base (Inl rc)"
  by (simp add: spans_ok_def)

lemma spans_ok_Inr: "span_ok tuple base loc \<Longrightarrow> spans_ok tuple base (Inr loc)"
  by (simp add: spans_ok_def)

lemma fixed_span_ok: "base < length tuple \<Longrightarrow> 0 < width \<Longrightarrow> spans_ok tuple base (fixed_span tuple base width)"
  by (auto simp: fixed_span_def spans_ok_def span_ok_def)

lemma prefixed_span_ok: "base < length tuple \<Longrightarrow> spans_ok tuple base (prefixed_span tuple base)"
  by (auto simp: prefixed_span_def spans_ok_def span_ok_def Let_def)

lemma wide_prefixed_span_ok: "spans_ok tuple base (wide_prefixed_span tuple base)"
  by (auto simp: wide_prefixed_span_def spans_ok_def span_ok_def Let_def split: if_splits)

lemma marked_span_ok: "spans_ok tuple base (marked_span tuple base)"
  unfolding marked_span_def Let_def
  by (intro spans_ok_if spans_ok_Inr wide_prefixed_span_ok) (auto simp: span_ok_def)

lemma lob_descriptor_length_pos [simp]: "0 < lob_descriptor_length col"
  by (simp add: lob_descriptor_length_def)

lemmas spans_ok_intros = spans_ok_if spans_ok_Inl spans_ok_Inr fixed_span_ok prefixed_span_ok wide_prefixed_span_ok
  marked_span_ok lob_descriptor_length_pos

lemma locate_spans_ok: "spans_ok tuple (ci_col_start_pos col) (sqli_tuple_locate_column col tuple)"
  unfolding sqli_tuple_locate_column_def Let_def by (intro spans_ok_intros) (auto simp: span_ok_def)

lemma locate_ok: "sqli_tuple_locate_column col tuple = Inr loc \<Longrightarrow> span_ok tuple (ci_col_start_pos col) loc"
  using locate_spans_ok [of tuple col] by (simp add: spans_ok_def)

lemma cache_spans_ok:
  assumes "ci_col_start_pos col = offset"
  shows "spans_ok tuple offset (cache_span col tuple offset)"
  unfolding cache_span_def Let_def
  by (intro spans_ok_intros locate_spans_ok [of tuple col, unfolded assms]) (auto simp: span_ok_def)

lemma cache_span_ok: "cache_span col tuple offset = Inr loc \<Longrightarrow> ci_col_start_pos col = offset \<Longrightarrow> span_ok tuple offset loc"
  using cache_spans_ok [of col offset tuple] by (simp add: spans_ok_def)

lemma cache_span_not_OK: "ci_col_start_pos col = offset \<Longrightarrow> cache_span col tuple offset \<noteq> Inl SQLI_OK"
  using cache_spans_ok [of col offset tuple] by (auto simp: spans_ok_def)

lemma cache_columns_layout:
  "cache_columns tuple offset cols cache = (SQLI_OK, cols', cache') \<Longrightarrow> length cache = length cols \<Longrightarrow>
   length cols' = length cols \<and> length cache' = length cols \<and>
   map (\<lambda>c. c\<lparr>ci_col_start_pos := 0\<rparr>) cols' = map (\<lambda>c. c\<lparr>ci_col_start_pos := 0\<rparr>) cols \<and>
   (cols \<noteq> [] \<longrightarrow> ci_col_start_pos (hd cols') = offset) \<and>
   (\<forall>i < length cols. \<exists>s l n. cache' ! i = (s, l, n) \<and> ci_col_start_pos (cols' ! i) \<le> s \<and>
      ci_col_start_pos (cols' ! i) < s + l \<and> s + l \<le> length tuple \<and>
      (i + 1 < length cols \<longrightarrow> ci_col_start_pos (cols' ! (i + 1)) = s + l))"
proof (induction cols arbitrary: offset cache cols' cache')
  case (Cons col cols)
  let ?col = "col\<lparr>ci_col_start_pos := offset\<rparr>"
  obtain start len taken where loc: "cache_span ?col tuple offset = Inr (start, len, taken)"
    using Cons.prems(1) cache_span_not_OK [of ?col offset tuple]
    by (cases "cache_span ?col tuple offset") (auto simp: Let_def split: if_splits)
  obtain rc cs ks where rest: "cache_columns tuple (offset + taken) cols (tl cache) = (rc, cs, ks)" by (metis prod.collapse)
  have eqs: "rc = SQLI_OK" "cols' = ?col # cs"
    "cache' = (start, len, cache_null (ci_type ?col) tuple offset (start, len, taken)) # ks"
    using Cons.prems(1) loc rest by (auto simp: Let_def split: if_splits)
  have ok: "span_ok tuple offset (start, len, taken)" by (rule cache_span_ok [OF loc]) simp
  have "length (tl cache) = length cols" using Cons.prems(2) by simp
  note IH = Cons.IH [OF rest [unfolded eqs(1)] this]
  have "\<exists>s l n. cache' ! i = (s, l, n) \<and> ci_col_start_pos (cols' ! i) \<le> s \<and> ci_col_start_pos (cols' ! i) < s + l \<and>
      s + l \<le> length tuple \<and> (i + 1 < length (col # cols) \<longrightarrow> ci_col_start_pos (cols' ! (i + 1)) = s + l)"
    if i: "i < length (col # cols)" for i
  proof (cases i)
    case 0
    then show ?thesis using ok IH eqs by (cases cs) (auto simp: span_ok_def)
  next
    case (Suc j)
    then show ?thesis using IH i eqs by auto
  qed
  then show ?case using IH eqs by simp
qed simp

section \<open>Properties\<close>

text \<open>
  Wherever a column is located in a row, with or without the row cache, its data lie inside the
  row, directly at the end of the bytes that the column takes from its start on, whatever bytes
  the server sent.
\<close>

theorem columns_in_bounds:
  assumes "sqli_tuple_locate_column col tuple = Inr (start, len, taken) \<or>
    cache_span col tuple (ci_col_start_pos col) = Inr (start, len, taken)"
  shows "ci_col_start_pos col \<le> start \<and> start + len \<le> length tuple \<and>
    ci_col_start_pos col + taken = start + len \<and> 0 < taken"
  using assms locate_ok [of col tuple "(start, len, taken)"]
    cache_span_ok [of col tuple "ci_col_start_pos col" "(start, len, taken)"]
  by (auto simp: span_ok_def)

definition example_column :: "sqli_column_type \<Rightarrow> nat \<Rightarrow> column_info" where
  "example_column type width = \<lparr>ci_name = ''c'', ci_type = Some type, ci_flags = 0, ci_encoded_length = width,
     ci_col_start_pos = 0, ci_field_index = 0\<rparr>"

lemma columns_in_bounds_witness:
  "sqli_tuple_locate_column (example_column SQLI_TYPE_VARCHAR 20) [2, 65, 66] = Inr (1, 2, 3) \<and> 1 + 2 \<le> length [2, 65, 66 :: byte]"
proof -
  have "sqli_tuple_locate_column (example_column SQLI_TYPE_VARCHAR 20) [2, 65, 66] = Inr (1, 2, 3)"
    by (simp add: sqli_tuple_locate_column_def example_column_def char_type_def sqli_fixed_width_for_type_def
        prefixed_span_def byte_at_def Let_def)
  then show ?thesis using columns_in_bounds [of "example_column SQLI_TYPE_VARCHAR 20" "[2, 65, 66]" 1 2 3] by simp
qed

text \<open>
  C36. When the row cache is built, the columns partition a prefix of the row: the first starts at
  0, every column starts where the one before ends, none is empty-handed, and all data lie
  inside the row.
\<close>

theorem row_cache_partitions:
  assumes "cache_columns tuple 0 cols cache = (SQLI_OK, cols', cache')" "length cache = length cols"
  shows "length cols' = length cols \<and> length cache' = length cols \<and>
    map (\<lambda>c. c\<lparr>ci_col_start_pos := 0\<rparr>) cols' = map (\<lambda>c. c\<lparr>ci_col_start_pos := 0\<rparr>) cols \<and>
    (cols \<noteq> [] \<longrightarrow> ci_col_start_pos (hd cols') = 0) \<and>
    (\<forall>i < length cols. \<exists>s l n. cache' ! i = (s, l, n) \<and> ci_col_start_pos (cols' ! i) \<le> s \<and>
       ci_col_start_pos (cols' ! i) < s + l \<and> s + l \<le> length tuple \<and>
       (i + 1 < length cols \<longrightarrow> ci_col_start_pos (cols' ! (i + 1)) = s + l))"
  by (rule cache_columns_layout [OF assms])

lemma row_cache_example:
  "cache_columns [0, 0, 0, 7, 2, 65, 66] 0 [example_column SQLI_TYPE_INT 4, example_column SQLI_TYPE_VARCHAR 20]
     [(0, 0, False), (0, 0, False)] =
   (SQLI_OK, [example_column SQLI_TYPE_INT 4, (example_column SQLI_TYPE_VARCHAR 20)\<lparr>ci_col_start_pos := 4\<rparr>],
    [(0, 4, False), (5, 2, False)])"
  by (simp add: example_column_def cache_span_def cache_null_def scalar_null_def lob_null_def slice_def
      sqli_type_all_zero_is_null_sentinel_def sqli_fixed_width_for_type_def sqli_type_is_two_byte_prefixed_def char_type_def
      fixed_span_def prefixed_span_def byte_at_def Let_def)

lemma row_cache_partitions_witness: "5 + 2 \<le> length [0, 0, 0, 7, 2, 65, 66 :: byte]"
proof -
  from row_cache_partitions [OF row_cache_example]
  have "\<forall>i < 2. \<exists>s l n. [(0, 4, False), (5, 2, False)] ! i = (s, l, n) \<and> s + l \<le> length [0, 0, 0, 7, 2, 65, 66 :: byte]"
    by (simp add: numeral_2_eq_2) blast
  then show ?thesis by simp
qed

lemmas layout_defs = sqli_tuple_locate_column_def cache_span_def Let_def fixed_span_def sqli_fixed_width_for_type_def
  char_type_def sqli_type_is_two_byte_prefixed_def

text \<open>
  Reading a column without the row cache finds the same bytes as the cache, for every column
  type but CHAR, NCHAR and DBOOLEAN, and for CHAR and NCHAR whenever the declared width fits in the
  row and the first byte is not the number of remaining bytes below 32.
\<close>

theorem locate_agrees_with_cache:
  assumes "ci_type col \<noteq> Some SQLI_TYPE_DBOOLEAN"
    and "char_type (ci_type col) \<Longrightarrow> 0 < declared_width col \<and> ci_col_start_pos col + declared_width col \<le> length tuple \<and>
      \<not> (0 < byte_at tuple (ci_col_start_pos col) \<and> byte_at tuple (ci_col_start_pos col) < 32 \<and>
         1 + byte_at tuple (ci_col_start_pos col) = declared_width col)"
  shows "sqli_tuple_locate_column col tuple = cache_span col tuple (ci_col_start_pos col)"
proof (cases "char_type (ci_type col)")
  case True
  note width = assms(2) [OF True]
  then have inside: "ci_col_start_pos col < length tuple" "declared_width col \<le> length tuple - ci_col_start_pos col" by arith+
  have branch: "\<not> (char_type (ci_type col) \<and> declared_width col > 0 \<and> byte_at tuple (ci_col_start_pos col) > 0 \<and>
      byte_at tuple (ci_col_start_pos col) < 32 \<and> 1 + byte_at tuple (ci_col_start_pos col) = declared_width col \<and>
      byte_at tuple (ci_col_start_pos col) \<le> length tuple - (ci_col_start_pos col + 1))"
    using width by blast
  have others: "ci_type col \<notin> {Some SQLI_TYPE_DECIMAL, Some SQLI_TYPE_MONEY}"
    "ci_type col \<notin> {Some SQLI_TYPE_DATETIME, Some SQLI_TYPE_INTERVAL}" "ci_type col \<notin> {Some SQLI_TYPE_BYTE, Some SQLI_TYPE_TEXT}"
    "ci_type col \<notin> {Some SQLI_TYPE_BOOL, Some SQLI_TYPE_DBOOLEAN, Some SQLI_TYPE_LVARCHAR, Some SQLI_TYPE_BLOB, Some SQLI_TYPE_CLOB}"
    using True by (auto simp: char_type_def)
  have "sqli_tuple_locate_column col tuple = Inr (ci_col_start_pos col, declared_width col, declared_width col)"
    unfolding sqli_tuple_locate_column_def Let_def if_P [OF True] if_not_P [OF branch]
      if_not_P [OF others(1)] if_not_P [OF others(2)] if_not_P [OF others(3)] if_not_P [OF others(4)]
    using inside width by (simp only: if_P if_not_P not_le fixed_span_def)
  moreover have "cache_span col tuple (ci_col_start_pos col) = Inr (ci_col_start_pos col, declared_width col, declared_width col)"
    unfolding cache_span_def Let_def if_P [OF True]
    using inside width by (simp only: if_P if_not_P not_le simp_thms)
  ultimately show ?thesis by simp
next
  case False
  let ?base = "ci_col_start_pos col"
  show ?thesis
  proof (cases "?base < length tuple")
    case inside: True
    show ?thesis
    proof (cases "ci_type col")
      case None
      then show ?thesis by (simp add: layout_defs)
    next
      case (Some t)
      then show ?thesis using False assms(1) inside by (cases t) (simp_all add: layout_defs)
    qed
  qed (simp add: sqli_tuple_locate_column_def cache_span_def)
qed

lemma locate_agrees_with_cache_witness:
  "sqli_tuple_locate_column (example_column SQLI_TYPE_CHAR 3) [72, 105, 32] = Inr (0, 3, 3)"
proof -
  have "sqli_tuple_locate_column (example_column SQLI_TYPE_CHAR 3) [72, 105, 32] =
      cache_span (example_column SQLI_TYPE_CHAR 3) [72, 105, 32] (ci_col_start_pos (example_column SQLI_TYPE_CHAR 3))"
    by (rule locate_agrees_with_cache)
      (simp_all add: example_column_def declared_width_def sqli_fixed_width_for_type_def byte_at_def)
  then show ?thesis
    by (simp add: cache_span_def example_column_def char_type_def declared_width_def sqli_fixed_width_for_type_def Let_def)
qed

text \<open>
  The exceptions are real: a CHAR(4) value that starts with the byte 3 is read as three bytes by
  the path without the cache, and a DBOOLEAN column is one byte for the cache and
  five for the other path.
\<close>

theorem locate_disagrees_on_char:
  "cache_span (example_column SQLI_TYPE_CHAR 4) [3, 65, 66, 67] 0 = Inr (0, 4, 4)"
  "sqli_tuple_locate_column (example_column SQLI_TYPE_CHAR 4) [3, 65, 66, 67] = Inr (1, 3, 4)"
  by (simp_all add: example_column_def layout_defs declared_width_def marked_span_def byte_at_def)

theorem locate_disagrees_on_boolean:
  "cache_span (example_column SQLI_TYPE_DBOOLEAN 1) [0, 0, 0, 0, 1, 1] 0 = Inr (0, 1, 1)"
  "sqli_tuple_locate_column (example_column SQLI_TYPE_DBOOLEAN 1) [0, 0, 0, 0, 1, 1] = Inr (5, 1, 6)"
  by (simp_all add: example_column_def layout_defs declared_width_def marked_span_def byte_at_def)

end
