(* ===== verification/ResultFacts.thy ===== *)
theory ResultFacts
  imports Result CursorSpec TupleFacts
begin

text \<open>
  The cursor of a result that holds its rows implements the contract of \<open>CursorSpec\<close>, the commit and
  rollback epochs close results, and the readers of the current row stay inside it.
\<close>

section \<open>Building the row cache\<close>

definition strip :: "column_info list \<Rightarrow> column_info list" where
  "strip cols = map (\<lambda>c. c\<lparr>ci_col_start_pos := 0\<rparr>) cols"

definition row_reads :: "column_info list \<Rightarrow> byte list \<Rightarrow> bool" where
  "row_reads cols row \<longleftrightarrow> fst (cache_columns row 0 cols []) = SQLI_OK"

lemma strip_length: "strip cols = strip cols' \<Longrightarrow> length cols = length cols'"
  unfolding strip_def by (metis length_map)

lemma set_start_cong: "c\<lparr>ci_col_start_pos := 0\<rparr> = d\<lparr>ci_col_start_pos := 0\<rparr> \<Longrightarrow> c\<lparr>ci_col_start_pos := n\<rparr> = d\<lparr>ci_col_start_pos := n\<rparr>"
  by (cases c; cases d) simp

lemma cache_columns_status_cong:
  "strip cols = strip cols' \<Longrightarrow>
   fst (cache_columns tuple offset cols cache) = fst (cache_columns tuple offset cols' cache')"
proof (induction cols arbitrary: offset cols' cache cache')
  case (Cons col cols)
  then obtain col' rest where cols': "cols' = col' # rest" by (cases cols') (auto simp: strip_def)
  have eq: "col\<lparr>ci_col_start_pos := offset\<rparr> = col'\<lparr>ci_col_start_pos := offset\<rparr>" and rest: "strip cols = strip rest"
    using Cons.prems set_start_cong [of col col'] unfolding cols' strip_def list.map list.inject by blast+
  have tail: "fst (case cache_columns tuple n cols (tl cache) of (rc, cs, ks) \<Rightarrow> (rc, x # cs, y # ks)) =
      fst (case cache_columns tuple n rest (tl cache') of (rc, cs, ks) \<Rightarrow> (rc, x # cs, y # ks))" for n x y
    using Cons.IH [OF rest, of n "tl cache" "tl cache'"] by (auto split: prod.split)
  show ?case
    unfolding cols' cache_columns.simps eq Let_def
    by (cases "cache_span (col'\<lparr>ci_col_start_pos := offset\<rparr>) tuple offset") (simp_all add: tail split: prod.split)
qed (auto simp: strip_def)

lemma cache_columns_strip: "cache_columns tuple offset cols cache = (rc, cols', cache') \<Longrightarrow> strip cols' = strip cols"
proof (induction cols arbitrary: offset cache rc cols' cache')
  case (Cons col cols)
  then show ?case by (fastforce simp: strip_def Let_def split: if_splits sum.splits prod.splits)
qed simp

lemma cache_columns_length:
  "cache_columns tuple offset cols cache = (rc, cols', cache') \<Longrightarrow> length cache = length cols \<Longrightarrow> length cache' = length cols"
proof (induction cols arbitrary: offset cache rc cols' cache')
  case (Cons col cols)
  then show ?case by (cases cache) (fastforce simp: Let_def split: if_splits sum.splits prod.splits)+
qed simp

section \<open>The cursor over rows that are held\<close>

text \<open>
  The well-formed results whose rows are all on the client: an open cursor that is not
  scrolled by the server, rows that can be read, and no error on record.
\<close>

definition result_rows :: "result \<Rightarrow> byte list list" where
  "result_rows r = (case rs_rows r of None \<Rightarrow> [] | Some rows \<Rightarrow> rows)"

definition cursor_env_ok :: "result_env \<Rightarrow> result \<Rightarrow> bool" where
  "cursor_env_ok env r \<longleftrightarrow> \<not> sqli_result_is_closed_by_commit env r \<and> \<not> sqli_result_is_server_scrollable env r \<and>
     re_alloc env \<and> (\<forall>conn. re_conn env = Some conn \<longrightarrow> \<not> l_discarded conn)"

definition cache_fits :: "result \<Rightarrow> bool" where
  "cache_fits r \<longleftrightarrow> (\<forall>cache. rs_cache r = Some cache \<longrightarrow> length cache = length (rs_columns r))"

text \<open>The cache is the one of the given row.\<close>

definition row_cached :: "result \<Rightarrow> byte list \<Rightarrow> bool" where
  "row_cached r row \<longleftrightarrow> (\<exists>cols cache cache'. length cache = length cols \<and> rs_cache r = Some cache' \<and>
     cache_columns row 0 cols cache = (SQLI_OK, rs_columns r, cache'))"

definition storage_ok :: "result \<Rightarrow> bool" where
  "storage_ok r \<longleftrightarrow> rs_columns r \<noteq> [] \<and> length (rs_columns r) \<le> SIZE_MAX div 8 \<and>
     (rs_row_count r > 0 \<longrightarrow> rs_rows r \<noteq> None) \<and>
     rs_row_count r = int (length (result_rows r)) \<and> rs_row_count r \<le> INT32_MAX \<and>
     (\<forall>row \<in> set (result_rows r). row_reads (rs_columns r) row) \<and>
     rs_fetch_status r = SQLI_OK \<and> \<not> rs_saw_error r \<and> rs_error_code r = 0 \<and> cache_fits r"

definition on_row :: "result \<Rightarrow> bool" where
  "on_row r \<longleftrightarrow> \<not> rs_at_before_first r \<and> \<not> rs_at_after_last r \<and>
     0 \<le> rs_cursor r \<and> rs_cursor r < rs_row_count r \<and> rs_current_row r = rs_cursor r \<and>
     rs_cache_row r = rs_cursor r \<and> row_cached r (result_rows r ! nat (rs_cursor r)) \<and>
     rs_tuple r = Some (result_rows r ! nat (rs_cursor r)) \<and> rs_absolute_row_num r = rs_cursor r + 1"

definition off_rows :: "result \<Rightarrow> bool" where
  "off_rows r \<longleftrightarrow> (rs_at_before_first r \<or> rs_at_after_last r) \<and>
     (rs_at_before_first r \<and> rs_at_after_last r \<longrightarrow> rs_row_count r = 0) \<and>
     rs_cursor r = -1 \<and> rs_current_row r = -1 \<and> rs_tuple r = None \<and> rs_absolute_row_num r = 0"

definition cursor_ok :: "result_env \<Rightarrow> result \<Rightarrow> bool" where
  "cursor_ok env r \<longleftrightarrow> cursor_env_ok env r \<and> storage_ok r \<and> (on_row r \<or> off_rows r)"

definition cursor_position :: "result \<Rightarrow> nat" where
  "cursor_position r =
     (if rs_at_after_last r then length (result_rows r) + 1
      else if rs_at_before_first r then 0 else nat (rs_cursor r) + 1)"

definition cursor_step :: "result_env \<Rightarrow> cursor_op \<Rightarrow> result \<Rightarrow> bool \<times> result" where
  "cursor_step env op r =
     (case op of Next \<Rightarrow> sqli_result_next env r | Previous \<Rightarrow> sqli_result_previous env r
      | First \<Rightarrow> sqli_result_first env r | Last \<Rightarrow> sqli_result_last env r
      | Absolute k \<Rightarrow> sqli_result_absolute env k r | Relative k \<Rightarrow> sqli_result_relative env k r)"

text \<open>The sum of a relative move has to be an \<open>int\<close>.\<close>

fun move_in_range :: "cursor_op \<Rightarrow> result \<Rightarrow> bool" where
  "move_in_range (Relative k) r \<longleftrightarrow> in_i32 (int (cursor_position r) + k)"
| "move_in_range _ r \<longleftrightarrow> True"

text \<open>What moving to a row changes: the position, the cache and the recorded column starts.\<close>

definition same_rows :: "result \<Rightarrow> result \<Rightarrow> bool" where
  "same_rows r r' \<longleftrightarrow> strip (rs_columns r') = strip (rs_columns r) \<and> result_rows r' = result_rows r \<and>
     (rs_rows r = None \<longleftrightarrow> rs_rows r' = None) \<and> rs_row_count r' = rs_row_count r \<and>
     rs_fetch_status r' = rs_fetch_status r \<and> rs_saw_error r' = rs_saw_error r \<and> rs_error_code r' = rs_error_code r \<and>
     rs_cursor_type r' = rs_cursor_type r \<and> rs_statement_type r' = rs_statement_type r \<and> rs_stmt_id r' = rs_stmt_id r \<and>
     rs_holdability r' = rs_holdability r \<and> rs_commit_epoch r' = rs_commit_epoch r \<and>
     rs_rollback_epoch r' = rs_rollback_epoch r \<and> (cache_fits r \<longrightarrow> cache_fits r')"

lemma same_rows_trans: "same_rows a b \<Longrightarrow> same_rows b c \<Longrightarrow> same_rows a c"
  by (simp add: same_rows_def)

lemma row_reads_cong: "strip cols = strip cols' \<Longrightarrow> row_reads cols row = row_reads cols' row"
  unfolding row_reads_def using cache_columns_status_cong [of cols cols' row 0 "[]" "[]"] by simp

lemma same_rows_env: "same_rows r r' \<Longrightarrow> cursor_env_ok env r' = cursor_env_ok env r"
  by (simp add: same_rows_def cursor_env_ok_def sqli_result_is_closed_by_commit_def sqli_result_is_server_scrollable_def
      cong: option.case_cong)

lemma same_rows_storage: "same_rows r r' \<Longrightarrow> storage_ok r \<Longrightarrow> storage_ok r'"
  using strip_length [of "rs_columns r'" "rs_columns r"]
  by (auto simp: same_rows_def storage_ok_def row_reads_cong [of "rs_columns r'" "rs_columns r"])

lemma move_to_row:
  assumes "storage_ok r" "re_alloc env" "0 \<le> i" "i < rs_row_count r"
  obtains r' where "sqli_result_move_to_index env i r = (True, r')" "same_rows r r'"
    "\<not> rs_at_before_first r'" "\<not> rs_at_after_last r'" "rs_cursor r' = i" "rs_current_row r' = i" "rs_cache_row r' = i"
    "row_cached r' (result_rows r ! nat i)" "rs_tuple r' = Some (result_rows r ! nat i)" "rs_absolute_row_num r' = rs_absolute_row_num r"
proof -
  obtain rows where rows: "rs_rows r = Some rows" using assms by (auto simp: storage_ok_def)
  define c where "c = (case rs_cache r of None \<Rightarrow> replicate (length (rs_columns r)) (0, 0, False) | Some c \<Rightarrow> c)"
  have "result_rows r ! nat i \<in> set (result_rows r)" using assms by (auto simp: storage_ok_def intro: nth_mem)
  then have "row_reads (rs_columns r) (rows ! nat i)" using assms(1) rows by (simp add: storage_ok_def result_rows_def)
  then have "fst (cache_columns (rows ! nat i) 0 (rs_columns r) c) = SQLI_OK"
    unfolding row_reads_def using cache_columns_status_cong [OF refl] by metis
  then obtain cols cs where loop: "cache_columns (rows ! nat i) 0 (rs_columns r) c = (SQLI_OK, cols, cs)"
    by (metis prod.collapse)
  have strip: "strip cols = strip (rs_columns r)" by (rule cache_columns_strip [OF loop])
  have len: "length c = length (rs_columns r)" using assms(1) by (auto simp: c_def storage_ok_def cache_fits_def split: option.split)
  have "length cs = length cols" using cache_columns_length [OF loop len] strip_length [OF strip] by simp
  define r' where "r' = r\<lparr>rs_cursor := i, rs_tuple := Some (rows ! nat i), rs_current_row := i, rs_at_before_first := False,
      rs_at_after_last := False, rs_cache_row := i, rs_columns := cols, rs_cache := Some cs\<rparr>"
  have move: "sqli_result_move_to_index env i r = (True, r')"
    unfolding r'_def using assms rows loop
    by (cases "rs_cache r")
      (simp_all add: sqli_result_move_to_index_def sqli_result_prepare_row_cache_def Let_def storage_ok_def c_def not_le not_less)
  have cached: "row_cached r' (result_rows r ! nat i)"
    unfolding row_cached_def using loop len rows
    by (intro exI [of _ "rs_columns r"] exI [of _ c] exI [of _ cs]) (simp add: r'_def result_rows_def)
  have same: "same_rows r r'"
    using rows strip \<open>length cs = length cols\<close> by (simp add: same_rows_def result_rows_def cache_fits_def r'_def)
  have tup: "rs_tuple r' = Some (result_rows r ! nat i)" using rows by (simp add: r'_def result_rows_def)
  have pos: "\<not> rs_at_before_first r'" "\<not> rs_at_after_last r'" "rs_cursor r' = i" "rs_current_row r' = i"
    "rs_cache_row r' = i" "rs_absolute_row_num r' = rs_absolute_row_num r"
    by (simp_all add: r'_def)
  show thesis by (rule that [OF move same pos(1-5) cached tup pos(6)])
qed

text \<open>One operation implements the abstract one.\<close>

definition implements :: "result \<Rightarrow> cursor_op \<Rightarrow> bool \<times> result \<Rightarrow> bool" where
  "implements r op out \<longleftrightarrow> same_rows r (snd out) \<and> (on_row (snd out) \<or> off_rows (snd out)) \<and>
     (fst out, cursor_position (snd out)) = abs_cursor (length (result_rows r)) op (cursor_position r)"

lemma positioned_simps [simp]:
  "rs_at_before_first (positioned n r) = False" "rs_at_after_last (positioned n r) = False"
  "rs_absolute_row_num (positioned n r) = n" "rs_cursor (positioned n r) = rs_cursor r"
  "rs_current_row (positioned n r) = rs_current_row r" "rs_cache_row (positioned n r) = rs_cache_row r"
  "rs_row_count (positioned n r) = rs_row_count r" "rs_tuple (positioned n r) = rs_tuple r"
  "result_rows (positioned n r) = result_rows r" "row_cached (positioned n r) row = row_cached r row"
  "cache_fits (positioned n r) = cache_fits r" "rs_columns (positioned n r) = rs_columns r" "rs_rows (positioned n r) = rs_rows r"
  "rs_fetch_status (positioned n r) = rs_fetch_status r" "rs_saw_error (positioned n r) = rs_saw_error r"
  "rs_error_code (positioned n r) = rs_error_code r" "rs_cursor_type (positioned n r) = rs_cursor_type r"
  "rs_statement_type (positioned n r) = rs_statement_type r" "rs_stmt_id (positioned n r) = rs_stmt_id r"
  "rs_holdability (positioned n r) = rs_holdability r" "rs_commit_epoch (positioned n r) = rs_commit_epoch r"
  "rs_rollback_epoch (positioned n r) = rs_rollback_epoch r"
  by (simp_all add: positioned_def result_rows_def row_cached_def cache_fits_def)

lemma on_row_positioned:
  assumes "storage_ok r" "re_alloc env" "0 \<le> i" "i < rs_row_count r" "n = i + 1"
  obtains r' where "sqli_result_move_to_index env i r = (True, r')" "same_rows r (positioned n r')"
    "on_row (positioned n r')" "cursor_position (positioned n r') = nat n"
    "rs_absolute_row_num r' = rs_absolute_row_num r" "rs_row_count r' = rs_row_count r" "rs_fetch_status r' = SQLI_OK"
    "\<not> rs_at_before_first r'" "\<not> rs_at_after_last r'"
proof -
  obtain r' where r': "sqli_result_move_to_index env i r = (True, r')" "same_rows r r'"
    "\<not> rs_at_before_first r'" "\<not> rs_at_after_last r'" "rs_cursor r' = i" "rs_current_row r' = i" "rs_cache_row r' = i"
    "row_cached r' (result_rows r ! nat i)" "rs_tuple r' = Some (result_rows r ! nat i)" "rs_absolute_row_num r' = rs_absolute_row_num r"
    by (rule move_to_row [OF assms(1-4)])
  have 1: "same_rows r (positioned n r')" using r'(2) by (simp add: same_rows_def)
  have 2: "on_row (positioned n r')"
    using r' assms(3,4,5) by (simp add: on_row_def same_rows_def)
  have 3: "cursor_position (positioned n r') = nat n"
    using r' assms(3,5) by (simp add: cursor_position_def positioned_def nat_add_distrib)
  have 4: "rs_row_count r' = rs_row_count r" "rs_fetch_status r' = SQLI_OK" using r'(2) assms(1) by (simp_all add: same_rows_def storage_ok_def)
  from that [OF r'(1) 1 2 3 r'(10) 4 r'(3,4)] show thesis .
qed

lemma leave_rows_off [simp]:
  "same_rows r (leave_rows b r)" "off_rows (leave_rows b r)"
  "cursor_position (leave_rows b r) = (if b then 0 else length (result_rows r) + 1)"
  by (simp_all add: same_rows_def off_rows_def leave_rows_def cursor_position_def result_rows_def cache_fits_def)

lemma no_position_off:
  "on_row r \<or> off_rows r \<Longrightarrow> rs_row_count r \<le> 0 \<Longrightarrow> storage_ok r \<Longrightarrow>
   same_rows r (no_position r) \<and> off_rows (no_position r) \<and> cursor_position (no_position r) = length (result_rows r) + 1"
  by (auto simp: same_rows_def off_rows_def on_row_def no_position_def cursor_position_def result_rows_def storage_ok_def cache_fits_def)

lemma position_cases:
  assumes "storage_ok r" "on_row r \<or> off_rows r"
  shows "rs_row_count r = int (length (result_rows r))"
    and "on_row r \<Longrightarrow> rs_cursor r = int (cursor_position r) - 1 \<and> 1 \<le> cursor_position r \<and> cursor_position r \<le> length (result_rows r)"
    and "cursor_position r \<le> length (result_rows r) + 1"
    and "rs_at_after_last r \<longleftrightarrow> cursor_position r = length (result_rows r) + 1"
    and "sqli_result_row_number r = (if on_row r then int (cursor_position r) else 0)"
    and "\<not> on_row r \<Longrightarrow> \<not> rs_at_after_last r \<Longrightarrow> rs_at_before_first r \<and> cursor_position r = 0"
  using assms
  by (auto simp: storage_ok_def on_row_def off_rows_def cursor_position_def sqli_result_row_number_def)

lemma cursor_okD:
  assumes "cursor_ok env r"
  shows "\<not> sqli_result_is_closed_by_commit env r" "\<not> sqli_result_is_server_scrollable env r" "re_alloc env"
    "storage_ok r" "on_row r \<or> off_rows r" "rs_row_count r = int (length (result_rows r))"
  using assms by (auto simp: cursor_ok_def cursor_env_ok_def storage_ok_def)

lemma same_rows_refl [simp]: "same_rows r r"
  by (simp add: same_rows_def)

lemma absolute_implements:
  assumes "cursor_ok env r"
  shows "implements r (Absolute k) (sqli_result_absolute env k r)"
proof -
  note ok = cursor_okD [OF assms]
  consider "k \<le> 0" | "0 < k" "k \<le> rs_row_count r" | "0 < k" "rs_row_count r < k" by linarith
  then show ?thesis
  proof cases
    case 1
    then show ?thesis using ok by (simp add: implements_def sqli_result_absolute_def)
  next
    case 2
    obtain r' where "sqli_result_move_to_index env (k - 1) r = (True, r')" "same_rows r (positioned k r')"
      "on_row (positioned k r')" "cursor_position (positioned k r') = nat k"
      using on_row_positioned [OF ok(4,3), of "k - 1" k] 2 by auto
    then show ?thesis using 2 ok by (simp add: implements_def sqli_result_absolute_def)
  next
    case 3
    then show ?thesis using ok by (simp add: implements_def sqli_result_absolute_def)
  qed
qed

lemma last_implements:
  assumes "cursor_ok env r"
  shows "implements r Last (sqli_result_last env r)"
proof (cases "rs_row_count r > 0")
  case True
  note ok = cursor_okD [OF assms]
  obtain r' where "sqli_result_move_to_index env (rs_row_count r - 1) r = (True, r')"
    "same_rows r (positioned (rs_row_count r) r')" "on_row (positioned (rs_row_count r) r')"
    "cursor_position (positioned (rs_row_count r) r') = nat (rs_row_count r)" "rs_row_count r' = rs_row_count r"
    using on_row_positioned [OF ok(4,3), of "rs_row_count r - 1" "rs_row_count r"] True by auto
  then show ?thesis using True ok by (auto simp: implements_def sqli_result_last_def)
next
  case False
  then show ?thesis
    using cursor_okD [OF assms] no_position_off [of r] by (simp add: implements_def sqli_result_last_def)
qed

lemma first_implements:
  assumes "cursor_ok env r"
  shows "implements r First (sqli_result_first env r)"
proof (cases "rs_row_count r > 0")
  case True
  note ok = cursor_okD [OF assms]
  obtain r' where "sqli_result_move_to_index env 0 r = (True, r')"
    "same_rows r (positioned 1 r')" "on_row (positioned 1 r')" "cursor_position (positioned 1 r') = 1"
    using on_row_positioned [OF ok(4,3), of 0 1] True by auto
  then show ?thesis using True ok by (auto simp: implements_def sqli_result_first_def)
next
  case False
  then show ?thesis
    using cursor_okD [OF assms] no_position_off [of r] by (simp add: implements_def sqli_result_first_def)
qed

lemma previous_implements:
  assumes "cursor_ok env r"
  shows "implements r Previous (sqli_result_previous env r)"
proof -
  note ok = cursor_okD [OF assms]
  note pos = position_cases [OF ok(4,5)]
  consider "rs_at_after_last r" | "\<not> rs_at_after_last r" "\<not> on_row r" | "on_row r" "cursor_position r = 1"
    | "on_row r" "2 \<le> cursor_position r"
    using pos(2) by fastforce
  then show ?thesis
  proof cases
    case 1
    then show ?thesis
      using ok pos(4) last_implements [OF assms] by (simp add: implements_def sqli_result_previous_def)
  next
    case 2
    then show ?thesis using ok pos by (simp add: implements_def sqli_result_previous_def)
  next
    case 3
    have "\<not> rs_at_after_last r" "sqli_result_row_number r = 1" using 3 pos(5) by (simp_all add: on_row_def)
    then have "sqli_result_previous env r = (False, leave_rows True r)"
      using ok(1) by (simp add: sqli_result_previous_def)
    then show ?thesis using 3 pos(2) by (auto simp: implements_def)
  next
    case 4
    have cur: "rs_cursor r = int (cursor_position r) - 1" "cursor_position r \<le> length (result_rows r)" using pos(2) 4 by auto
    then obtain r' where r': "sqli_result_move_to_index env (rs_cursor r - 1) r = (True, r')"
      "same_rows r (positioned (rs_cursor r) r')" "on_row (positioned (rs_cursor r) r')"
      "cursor_position (positioned (rs_cursor r) r') = nat (rs_cursor r)"
      using on_row_positioned [OF ok(4,3), of "rs_cursor r - 1" "rs_cursor r"] 4 ok(6) by auto
    moreover have "\<not> rs_at_after_last r" using 4 by (simp add: on_row_def)
    moreover have "sqli_result_row_number r = rs_cursor r + 1" using pos(5) 4 cur(1) by simp
    ultimately have "sqli_result_previous env r = (True, positioned (rs_cursor r) r')"
      using ok 4 cur(1) by (simp add: sqli_result_previous_def Let_def)
    moreover have "nat (rs_cursor r) = cursor_position r - 1" using cur(1) by arith
    ultimately show ?thesis
      using r'(2,3,4) 4 cur(2) unfolding implements_def by simp
  qed
qed

lemma relative_implements:
  assumes "cursor_ok env r" "move_in_range (Relative k) r"
  shows "implements r (Relative k) (sqli_result_relative env k r)"
proof -
  note ok = cursor_okD [OF assms(1)]
  note pos = position_cases [OF ok(4,5)]
  have via_absolute: "implements r (Relative k) (sqli_result_absolute env t r)"
    if "0 < t" "abs_cursor (length (result_rows r)) (Relative k) (cursor_position r) =
      abs_cursor (length (result_rows r)) (Absolute t) (cursor_position r)" for t
    using absolute_implements [OF assms(1), of t] that by (simp add: implements_def)
  consider "k = 0" | "k \<noteq> 0" "on_row r" | "k \<noteq> 0" "\<not> on_row r" by blast
  then show ?thesis
  proof cases
    case 1
    then have "sqli_result_relative env k r = (on_row r, r)"
      using ok by (auto simp: sqli_result_relative_def on_row_def off_rows_def)
    moreover have "on_row r \<longleftrightarrow> 1 \<le> cursor_position r \<and> cursor_position r \<le> length (result_rows r)"
      using pos(2) pos(4) pos(6) by (cases "on_row r") (fastforce, auto)
    ultimately show ?thesis using 1 ok(5) by (simp add: implements_def)
  next
    case 2
    let ?t = "int (cursor_position r) + k"
    have "sqli_result_relative env k r = (if ?t \<le> 0 then (False, leave_rows True r) else sqli_result_absolute env ?t r)"
      using ok(1) 2 pos(2) pos(5) assms(2) by (auto simp: sqli_result_relative_def Let_def c_cast)
    then show ?thesis
      using 2 pos(2) via_absolute [of ?t] by (auto simp: implements_def)
  next
    case 3
    then have off: "off_rows r" using ok(5) by blast
    show ?thesis
    proof (cases "rs_at_before_first r \<and> k > 0")
      case True
      have "in_i32 k" using True assms(2) by (simp add: in_i32_def)
      then have "sqli_result_relative env k r = sqli_result_absolute env k r"
        using ok(1) 3 True pos(5) by (simp add: sqli_result_relative_def Let_def c_cast)
      moreover have start: "cursor_position r = 0 \<or> cursor_position r = 1 \<and> result_rows r = []"
      proof (cases "rs_at_after_last r")
        case True
        then show ?thesis using \<open>rs_at_before_first r \<and> k > 0\<close> off ok(6) pos(4) by (simp add: off_rows_def)
      next
        case False
        then show ?thesis using pos(6) 3(2) by simp
      qed
      moreover have "abs_cursor (length (result_rows r)) (Relative k) (cursor_position r) =
          abs_cursor (length (result_rows r)) (Absolute k) (cursor_position r)"
        using start True by auto
      ultimately show ?thesis using via_absolute [of k] True by simp
    next
      case False
      then have "sqli_result_relative env k r = (False, r)"
        using ok(1) 3 pos(5) by (auto simp: sqli_result_relative_def Let_def)
      moreover have "cursor_position r = length (result_rows r) + 1 \<or> cursor_position r = 0 \<and> k < 0"
        using False 3 pos(4) pos(6) by linarith
      ultimately show ?thesis using 3(1) off by (auto simp: implements_def)
    qed
  qed
qed

lemma next_internal_implements:
  assumes "cursor_ok env r"
  shows "implements r Next (sqli_result_next_internal env r)"
proof -
  note ok = cursor_okD [OF assms]
  note pos = position_cases [OF ok(4,5)]
  let ?r0 = "r\<lparr>rs_at_before_first := False\<rparr>"
  have r0: "same_rows r ?r0" by (simp add: same_rows_def result_rows_def cache_fits_def)
  note storage0 = same_rows_storage [OF r0 ok(4)]
  have env0: "\<not> sqli_result_is_closed_by_commit env ?r0" "\<not> sqli_result_is_server_scrollable env ?r0"
    using same_rows_env [OF r0] assms by (auto simp: cursor_ok_def cursor_env_ok_def)
  have before: "off_rows r \<and> rs_at_before_first r \<and> cursor_position r = 0" if "\<not> on_row r" "\<not> rs_at_after_last r"
    using that ok(5) pos(6) by blast
  consider "rs_at_after_last r" | "\<not> rs_at_after_last r" "\<not> on_row r" "rs_row_count r > 0"
    | "\<not> rs_at_after_last r" "\<not> on_row r" "rs_row_count r \<le> 0"
    | "on_row r" "rs_cursor r + 1 < rs_row_count r" | "on_row r" "rs_cursor r + 1 \<ge> rs_row_count r" by linarith
  then show ?thesis
  proof cases
    case 1
    then show ?thesis using ok pos(4) by (simp add: implements_def sqli_result_next_internal_def)
  next
    case 2
    obtain r' where r': "sqli_result_move_to_index env 0 ?r0 = (True, r')" "same_rows ?r0 (positioned 1 r')"
      "on_row (positioned 1 r')" "cursor_position (positioned 1 r') = 1" "\<not> rs_at_before_first r'" "\<not> rs_at_after_last r'"
      using on_row_positioned [OF storage0 ok(3), of 0 1] 2(3) by auto
    then have "r'\<lparr>rs_absolute_row_num := 1\<rparr> = positioned 1 r'" by (simp add: positioned_def)
    then have "sqli_result_next_internal env r = (True, positioned 1 r')"
      using before [OF 2(2,1)] 2 ok r' by (simp add: sqli_result_next_internal_def off_rows_def Let_def)
    then show ?thesis
      using r' before [OF 2(2,1)] 2(3) ok(6) same_rows_trans [OF r0 r'(2)] by (auto simp: implements_def)
  next
    case 3
    have "no_position ?r0 = no_position r" by (simp add: no_position_def)
    then have "sqli_result_next_internal env r = (False, no_position r)"
      using before [OF 3(2,1)] 3 ok env0 by (simp add: sqli_result_next_internal_def sqli_result_first_def Let_def)
    then show ?thesis
      using no_position_off [OF ok(5) 3(3) ok(4)] before [OF 3(2,1)] 3(3) ok(6) by (simp add: implements_def)
  next
    case 4
    have flags: "\<not> rs_at_before_first r" "\<not> rs_at_after_last r" "rs_absolute_row_num r = rs_cursor r + 1" "0 \<le> rs_cursor r"
      using 4 by (simp_all add: on_row_def)
    obtain r' where r': "sqli_result_move_to_index env (rs_cursor r + 1) r = (True, r')"
      "same_rows r (positioned (rs_cursor r + 2) r')" "on_row (positioned (rs_cursor r + 2) r')"
      "cursor_position (positioned (rs_cursor r + 2) r') = nat (rs_cursor r + 2)"
      "rs_absolute_row_num r' = rs_absolute_row_num r"
      using on_row_positioned [OF ok(4,3), of "rs_cursor r + 1" "rs_cursor r + 2"] 4(2) flags by auto
    have "rs_row_count r \<le> INT32_MAX" using ok(4) by (simp add: storage_ok_def)
    then have "sqli_result_next_internal env r = (True, positioned (rs_cursor r + 2) r')"
      using r' flags ok 4(2) by (simp add: sqli_result_next_internal_def Let_def add.commute)
    then show ?thesis using r' 4 pos(2) ok(6) by (auto simp: implements_def nat_add_distrib)
  next
    case 5
    then have "sqli_result_next_internal env r = (False, leave_rows False r)"
      using ok(1,2) by (simp add: sqli_result_next_internal_def on_row_def Let_def)
    moreover have "length (result_rows r) \<le> cursor_position r" using 5 pos(2) ok(6) by simp
    ultimately show ?thesis by (simp add: implements_def)
  qed
qed

lemma next_implements:
  assumes "cursor_ok env r"
  shows "implements r Next (sqli_result_next env r)"
proof -
  obtain b r' where out: "sqli_result_next_internal env r = (b, r')" by (cases "sqli_result_next_internal env r")
  have imp: "implements r Next (b, r')" using next_internal_implements [OF assms] out by simp
  then have "rs_fetch_status r' = SQLI_OK"
    using cursor_okD(4) [OF assms] by (simp add: implements_def same_rows_def storage_ok_def)
  moreover have "\<not> (case re_conn env of None \<Rightarrow> False | Some conn \<Rightarrow> l_discarded conn)"
    using assms by (auto simp: cursor_ok_def cursor_env_ok_def split: option.split)
  ultimately have "sqli_result_next env r = (b, r')"
    using assms cursor_okD(1) [OF assms] out
    by (auto simp: sqli_result_next_def sqli_result_fetch_def cursor_ok_def storage_ok_def)
  then show ?thesis using imp by simp
qed

end
