(* ===== verification/ResultSafety.thy ===== *)
theory ResultSafety
  imports ResultFacts TransactionFacts
begin

text \<open>
  The properties of results: the cursor contract, reading a result to its end, the effect of commits
  and rollbacks, and the readers of the current row.
\<close>

interpretation client_cursor: scroll_cursor "cursor_ok env" result_rows cursor_position rs_tuple "cursor_step env" move_in_range
  for env :: result_env
proof (unfold_locales, goal_cases)
  case (1 r)
  then show ?case using cursor_okD(4,5) position_cases(3) by blast
next
  case (2 r)
  note ok = cursor_okD [OF 2(1)]
  have "on_row r" using 2(2,3) position_cases(4,6) [OF ok(4,5)] by linarith
  then have "nat (rs_cursor r) = cursor_position r - 1" using position_cases(2) [OF ok(4,5)] by fastforce
  moreover have "rs_tuple r = Some (result_rows r ! nat (rs_cursor r))" using \<open>on_row r\<close> by (simp add: on_row_def)
  ultimately show ?case by simp
next
  case (3 r op b r')
  have "implements r op (cursor_step env op r)"
    using 3(2) next_implements [OF 3(1)] previous_implements [OF 3(1)] first_implements [OF 3(1)] last_implements [OF 3(1)]
      absolute_implements [OF 3(1)] relative_implements [OF 3(1)]
    by (cases op) (simp_all add: cursor_step_def)
  then have "implements r op (b, r')" using 3(3) by simp
  then have imp: "same_rows r r'" "on_row r' \<or> off_rows r'"
    "(b, cursor_position r') = abs_cursor (length (result_rows r)) op (cursor_position r)" by (simp_all add: implements_def)
  have "cursor_ok env r'"
    using 3(1) imp(2) same_rows_env [OF imp(1)] same_rows_storage [OF imp(1)] by (simp add: cursor_ok_def)
  then show ?case using imp by (simp add: same_rows_def)
next
  case (4 op k r)
  then show ?case by auto
qed

section \<open>Properties\<close>

text \<open>
  C7. A result that holds its rows behaves as the abstract cursor: every one of the six moves finds
  a row exactly when the abstract position is on one, leaves the rows as they are, and makes
  the bytes of the row at the new position current. For a relative move the new position has to be an
  int: the C code adds without a check.
\<close>

theorem cursor_refines:
  assumes "cursor_ok env r" "move_in_range op r" "cursor_step env op r = (found, r')"
  shows "cursor_ok env r' \<and> result_rows r' = result_rows r \<and>
    (found, cursor_position r') = abs_cursor (length (result_rows r)) op (cursor_position r) \<and>
    (1 \<le> cursor_position r' \<and> cursor_position r' \<le> length (result_rows r) \<longrightarrow>
      rs_tuple r' = Some (result_rows r ! (cursor_position r' - 1)))"
  using client_cursor.step_refines [OF assms] client_cursor.cell_row [of env r'] by auto

lemma cursor_step_next: "cursor_step env Next = sqli_result_next env"
  by (simp add: fun_eq_iff cursor_step_def)

text \<open>
  The loop that calls \<open>sqli_result_next\<close> until it returns false sees every row of the result
  once, in order, ends, and finds no row when it is asked again.
\<close>

theorem next_loop_reads_all_rows:
  assumes "cursor_ok env r" "cursor_position r = 0" "length (result_rows r) < calls"
  shows "fst (drain (sqli_result_next env) rs_tuple calls r) = map Some (result_rows r) \<and>
    \<not> fst (sqli_result_next env (snd (drain (sqli_result_next env) rs_tuple calls r)))"
  using client_cursor.reads_all_rows [OF assms] by (simp add: cursor_step_next)

lemma run_ops_epochs:
  assumes "run_ops ops c w = (sts, c', w')" "neutral_queries w" "encoder_ok w"
    and "c_commit_epoch c < 2 ^ 64" "c_rollback_epoch c < 2 ^ 64"
  shows "c_commit_epoch c' = u64 (c_commit_epoch c + successes Commit ops sts)"
    and "c_rollback_epoch c' = u64 (c_rollback_epoch c + successes Rollback ops sts)"
  using run_ops_events [OF assms(1-3)] tx_path_counts(2,3) [of "view c" _ "view c'"] assms(4,5)
  by (auto simp: view_selectors)

lemma u64_shift_eq: "n < 2 ^ 64 \<Longrightarrow> k < 2 ^ 64 \<Longrightarrow> u64 (n + k) = n \<longleftrightarrow> k = 0"
  by (cases "n + k < 2 ^ 64") (auto simp: u64_def mod_if)

text \<open>
  C35. A result follows the transactions of its connection: after any calls of the transaction
  operations it is closed exactly when one of them rolled back, or committed and the cursor
  is not held over commits; then a fetch fails with \<open>SQLI_INVALID_STATE\<close> and no column can be read.
\<close>

theorem results_follow_transactions:
  assumes "run_ops ops c w = (sts, c', w')" "neutral_queries w" "encoder_ok w"
    and "c_commit_epoch c < 2 ^ 64" "c_rollback_epoch c < 2 ^ 64"
    and "rs_commit_epoch r = c_commit_epoch c" "rs_rollback_epoch r = c_rollback_epoch c"
    and "successes Commit ops sts < 2 ^ 64" "successes Rollback ops sts < 2 ^ 64"
    and "re_conn env = Some conn" "sqli_conn.truncate conn = c'" "rs_fetch_status r = SQLI_OK"
  shows "(sqli_result_is_closed_by_commit env r \<longleftrightarrow>
      0 < successes Rollback ops sts \<or>
      rs_holdability r = SQLI_CURSOR_CLOSE_AT_COMMIT \<and> 0 < successes Commit ops sts) \<and>
    (sqli_result_is_closed_by_commit env r \<longrightarrow>
      fst (sqli_result_fetch env r) = SQLI_INVALID_STATE \<and> rs_at_after_last (snd (sqli_result_fetch env r)) \<and>
      (\<forall>index. \<exists>status. sqli_result_current_span env index r = Inl status))"
proof
  have "c_commit_epoch conn = c_commit_epoch c'" "c_rollback_epoch conn = c_rollback_epoch c'"
    using assms(11) by (auto simp: sqli_conn.truncate_def)
  then show "sqli_result_is_closed_by_commit env r \<longleftrightarrow>
      0 < successes Rollback ops sts \<or>
      rs_holdability r = SQLI_CURSOR_CLOSE_AT_COMMIT \<and> 0 < successes Commit ops sts"
    using run_ops_epochs [OF assms(1-5)] assms(4-10)
    by (auto simp: sqli_result_is_closed_by_commit_def u64_shift_eq)
  show "sqli_result_is_closed_by_commit env r \<longrightarrow>
      fst (sqli_result_fetch env r) = SQLI_INVALID_STATE \<and> rs_at_after_last (snd (sqli_result_fetch env r)) \<and>
      (\<forall>index. \<exists>status. sqli_result_current_span env index r = Inl status)"
    using assms(10,12)
    by (auto simp: sqli_result_fetch_def fetch_failed_def sqli_result_mark_closed_def sqli_result_current_span_def)
qed

text \<open>
  On a row every column of the result can be read: the bytes are those at the recorded span, they
  lie in the row, and the columns follow each other from the start of the row on.
\<close>

theorem current_row_readable:
  assumes "cursor_ok env r" "1 \<le> cursor_position r" "cursor_position r \<le> length (result_rows r)"
    and "index < length (rs_columns r)"
  shows "\<exists>col start len. sqli_result_current_span env index r =
      Inr (col, slice (result_rows r ! (cursor_position r - 1)) start len) \<and>
    col = rs_columns r ! index \<and> ci_col_start_pos col \<le> start \<and>
    start + len \<le> length (result_rows r ! (cursor_position r - 1)) \<and>
    (index = 0 \<longrightarrow> ci_col_start_pos col = 0) \<and>
    (index + 1 < length (rs_columns r) \<longrightarrow> ci_col_start_pos (rs_columns r ! (index + 1)) = start + len)"
proof -
  note ok = cursor_okD [OF assms(1)]
  let ?row = "result_rows r ! (cursor_position r - 1)"
  have on: "on_row r" using assms(2,3) position_cases(4,6) [OF ok(4,5)] by linarith
  have "nat (rs_cursor r) = cursor_position r - 1" using position_cases(2) [OF ok(4,5) on] by arith
  then have row: "result_rows r ! nat (rs_cursor r) = ?row" by simp
  obtain cols cache cache' where cached: "length cache = length cols" "rs_cache r = Some cache'"
    "cache_columns ?row 0 cols cache = (SQLI_OK, rs_columns r, cache')"
    using on row unfolding on_row_def row_cached_def by auto
  note layout = cache_columns_layout [OF cached(3,1)]
  then have len: "length cols = length (rs_columns r)" by simp
  then have "index < length cols" using assms(4) by simp
  then obtain s l n where col: "cache' ! index = (s, l, n)" "ci_col_start_pos (rs_columns r ! index) \<le> s"
    "s + l \<le> length ?row" "index + 1 < length cols \<longrightarrow> ci_col_start_pos (rs_columns r ! (index + 1)) = s + l"
    using layout by blast
  have "index = 0 \<Longrightarrow> ci_col_start_pos (rs_columns r ! index) = 0"
    using layout assms(4) by (cases "rs_columns r") auto
  moreover have "sqli_result_current_span env index r = Inr (rs_columns r ! index, slice ?row s l)"
    using on row cached(2) col(1,3) assms(4) ok(1,4)
    by (auto simp: sqli_result_current_span_def on_row_def storage_ok_def)
  ultimately show ?thesis using col len by (intro exI conjI) auto
qed

section \<open>The unchecked addition\<close>

text \<open>
  A relative move by the largest int from a row wraps around and leaves the cursor before the first
  row, where the abstract cursor is after the last one.
\<close>

theorem relative_move_wraps:
  assumes "cursor_ok env r" "1 \<le> cursor_position r" "cursor_position r \<le> length (result_rows r)"
  shows "sqli_result_relative env INT32_MAX r = (False, leave_rows True r)"
    and "abs_cursor (length (result_rows r)) (Relative INT32_MAX) (cursor_position r) = (False, length (result_rows r) + 1)"
proof -
  note ok = cursor_okD [OF assms(1)]
  have on: "on_row r" using assms(2,3) position_cases(4,6) [OF ok(4,5)] by linarith
  have max: "int (length (result_rows r)) \<le> INT32_MAX" using ok(4) by (simp add: storage_ok_def)
  have "int (cursor_position r) + INT32_MAX + 2 ^ 31 = (int (cursor_position r) - 1) + 2 ^ 32" by (simp add: INT32_MAX_def)
  moreover have "((int (cursor_position r) - 1) + 2 ^ 32) mod 2 ^ 32 = int (cursor_position r) - 1"
    using assms(2,3) max unfolding mod_add_self2 by (intro mod_pos_pos_trivial) (simp_all add: INT32_MAX_def)
  ultimately have "i32 (int (cursor_position r) + INT32_MAX) = int (cursor_position r) + INT32_MAX - 2 ^ 32"
    unfolding i32_def by (simp add: INT32_MAX_def)
  then show "sqli_result_relative env INT32_MAX r = (False, leave_rows True r)"
    using assms(2,3) max ok(1) on position_cases(5) [OF ok(4,5)]
    by (simp add: sqli_result_relative_def Let_def INT32_MAX_def)
  show "abs_cursor (length (result_rows r)) (Relative INT32_MAX) (cursor_position r) = (False, length (result_rows r) + 1)"
    using assms(2,3) max by (simp add: INT32_MAX_def)
qed

section \<open>A sample result\<close>

definition sample_result :: result where
  "sample_result = \<lparr>rs_descriptor = None, rs_columns = [example_column SQLI_TYPE_INT 4], rs_rows_affected = 0, rs_generated_serial = 0,
     rs_generated_serial8 = 0, rs_has_generated_serial = False, rs_has_generated_serial8 = False, rs_statement_type = 2, rs_warnings = 0,
     rs_stmt_id = 1, rs_cursor_type = SQLI_CURSOR_FORWARD_ONLY, rs_holdability = SQLI_CURSOR_CLOSE_AT_COMMIT,
     rs_commit_epoch = 0, rs_rollback_epoch = 0, rs_rows = Some [[0, 0, 0, 1], [0, 0, 0, 2]], rs_arena_len = 8,
     rs_arena_cap = 32768, rs_row_count = 2, rs_row_capacity = 4,
     rs_cursor = -1, rs_absolute_row_num = 0, rs_at_before_first = True, rs_at_after_last = False,
     rs_tuple_bytes_total = 8, rs_tuple_count = 2, rs_tuple = None,
     rs_current_row = -1, rs_eof = True, rs_error_code = 0, rs_saw_done = True, rs_saw_error = False, rs_cache = None, rs_cache_row = -1,
     rs_fetch_status = SQLI_OK,
     rs_ret_type_sent = False, rs_fetch_buf_size = 0\<rparr>"

definition sample_env :: result_env where
  "sample_env = \<lparr>re_conn = None, re_alloc = True,
     re_scroll = (\<lambda>_ _. \<lparr>sr_send = SQLI_IO_ERROR, sr_dispatch = SQLI_OK, sr_rows = [], sr_rows_affected = 0, sr_saw_error = False\<rparr>)\<rparr>"

lemma sample_row_reads: "row_reads [example_column SQLI_TYPE_INT 4] [0, 0, 0, b]"
  by (simp add: row_reads_def example_column_def cache_span_def sqli_fixed_width_for_type_def char_type_def fixed_span_def
      Let_def)

lemma sample_facts:
  "cursor_ok sample_env sample_result" "cursor_position sample_result = 0"
  "result_rows sample_result = [[0, 0, 0, 1], [0, 0, 0, 2]]"
proof -
  show rows: "result_rows sample_result = [[0, 0, 0, 1], [0, 0, 0, 2]]" by (simp add: sample_result_def result_rows_def)
  show "cursor_position sample_result = 0" by (simp add: sample_result_def cursor_position_def)
  have "storage_ok sample_result"
    unfolding storage_ok_def rows
    by (simp add: sample_result_def sample_row_reads SIZE_MAX_def INT32_MAX_def cache_fits_def)
  moreover have "off_rows sample_result" by (simp add: off_rows_def sample_result_def)
  ultimately show "cursor_ok sample_env sample_result"
    by (simp add: cursor_ok_def cursor_env_ok_def sample_env_def sqli_result_is_closed_by_commit_def
        sqli_result_is_server_scrollable_def)
qed

lemma cursor_refines_witness:
  "\<exists>r'. cursor_step sample_env Last sample_result = (True, r') \<and> rs_tuple r' = Some [0, 0, 0, 2]"
proof -
  obtain found r' where step: "cursor_step sample_env Last sample_result = (found, r')"
    by (cases "cursor_step sample_env Last sample_result")
  from cursor_refines [OF sample_facts(1) _ this] step show ?thesis by (simp add: sample_facts)
qed

lemma next_loop_reads_all_rows_witness:
  "fst (drain (sqli_result_next sample_env) rs_tuple 3 sample_result) = [Some [0, 0, 0, 1], Some [0, 0, 0, 2]]"
  using next_loop_reads_all_rows [OF sample_facts(1,2), of 3] by (simp add: sample_facts)

lemma current_row_readable_witness:
  "\<exists>r' col start len. sqli_result_current_span sample_env 0 r' = Inr (col, slice [0, 0, 0, 2] start len) \<and> start + len \<le> 4"
proof -
  obtain found r' where step: "cursor_step sample_env Last sample_result = (found, r')"
    by (cases "cursor_step sample_env Last sample_result")
  have "cursor_ok sample_env r'" "cursor_position r' = 2" "result_rows r' = [[0, 0, 0, 1], [0, 0, 0, 2]]"
    using client_cursor.step_refines [OF sample_facts(1) _ step] by (simp_all add: sample_facts)
  moreover from this(1) have "0 < length (rs_columns r')" by (simp add: cursor_ok_def storage_ok_def)
  ultimately show ?thesis using current_row_readable [of sample_env r' 0] by fastforce
qed

lemma results_follow_transactions_witness:
  "\<exists>sts c' w'. run_ops [Begin, Commit] sample_conn sample_world = (sts, c', w') \<and>
    (\<forall>conn. sqli_conn.truncate conn = c' \<longrightarrow>
      (sqli_result_is_closed_by_commit (sample_env\<lparr>re_conn := Some conn\<rparr>) sample_result \<longleftrightarrow> 0 < successes Commit [Begin, Commit] sts))"
proof -
  obtain sts c' w' where r: "run_ops [Begin, Commit] sample_conn sample_world = (sts, c', w')" by (metis prod.collapse)
  then obtain a b where sts: "sts = [a, b]" by (auto split: prod.splits)
  have "c_commit_epoch sample_conn = 0" "c_rollback_epoch sample_conn = 0"
    by (simp_all add: sample_conn_def created_conn_def)
  then show ?thesis
    using results_follow_transactions [OF r sample_ok, of sample_result] r
    by (intro exI conjI allI impI) (auto simp: sample_result_def sts)
qed

end
