(* ===== verification/Scalar.thy ===== *)
theory Scalar
  imports Result
begin

text \<open>
  The integer and boolean readers of the current row (src/src/sqli_scalar.c). A reader returns
  \<open>Inr None\<close> for a NULL column, \<open>Inr\<close> of the value otherwise; on a failure its outputs are
  untouched. The reader of doubles is not modelled.
\<close>

definition integer_type :: "sqli_column_type option \<Rightarrow> bool" where
  "integer_type type \<longleftrightarrow>
     type \<in> {Some SQLI_TYPE_SMALLINT, Some SQLI_TYPE_INT, Some SQLI_TYPE_SERIAL, Some SQLI_TYPE_BIGINT, Some SQLI_TYPE_BIGSERIAL,
             Some SQLI_TYPE_INT8, Some SQLI_TYPE_SERIAL8, Some SQLI_TYPE_BOOL, Some SQLI_TYPE_DBOOLEAN}"

definition decimal_type :: "sqli_column_type option \<Rightarrow> bool" where
  "decimal_type type \<longleftrightarrow> type \<in> {Some SQLI_TYPE_DECIMAL, Some SQLI_TYPE_MONEY}"

definition boolean_type :: "sqli_column_type option \<Rightarrow> bool" where
  "boolean_type type \<longleftrightarrow> type \<in> {Some SQLI_TYPE_BOOL, Some SQLI_TYPE_DBOOLEAN}"

text \<open>The characters 0, f, F, n and N and the byte 0 are false; 1, t, T, y and Y and the bytes 1 and 255 are true.\<close>

definition decode_boolean :: "byte list \<Rightarrow> bool fallible" where
  "decode_boolean bytes =
     (if length bytes \<noteq> 1 then Inl SQLI_PROTO_ERROR
      else if hd bytes \<in> {0, 48, 102, 70, 110, 78} then Inr False
      else if hd bytes \<in> {1, 255, 49, 116, 84, 121, 89} then Inr True
      else Inl SQLI_PROTO_ERROR)"

definition unsigned_be :: "byte list \<Rightarrow> 64 word" where
  "unsigned_be bytes = foldl (\<lambda>value b. push_bit 8 value OR ucast b) 0 bytes"

text \<open>A ten-byte integer: a 16-bit sign, and the low and high 32 bits of the magnitude.\<close>

definition decode_int8 :: "byte list \<Rightarrow> int fallible" where
  "decode_int8 bytes =
     (if length bytes \<noteq> 10 then Inl SQLI_PROTO_ERROR
      else
        let sign = unsigned_be (take 2 bytes);
            magnitude = unsigned_be (take 4 (drop 2 bytes)) OR push_bit 32 (unsigned_be (take 4 (drop 6 bytes)));
            limit = (2 ^ 63 - 1 + (if sign = 0xFFFF then 1 else 0) :: 64 word)
        in if sign \<noteq> 1 \<and> sign \<noteq> 0xFFFF then Inl SQLI_PROTO_ERROR
           else if magnitude > limit then Inl SQLI_OUT_OF_RANGE
           else if sign = 1 then Inr (uint magnitude)
           else if magnitude = 2 ^ 63 then Inr (- (2 ^ 63))
           else Inr (- uint magnitude))"

text \<open>A two's complement integer, sign-extended in 64 bits.\<close>

definition decode_fixed :: "sqli_column_type option \<Rightarrow> byte list \<Rightarrow> int fallible" where
  "decode_fixed type bytes =
     (let width = (if type = Some SQLI_TYPE_SMALLINT then 2
                   else if type \<in> {Some SQLI_TYPE_BIGINT, Some SQLI_TYPE_BIGSERIAL} then 8 else 4)
      in if length bytes \<noteq> width then Inl SQLI_PROTO_ERROR
         else
           let value = unsigned_be bytes;
               value = (if length bytes < 8 \<and> hd bytes AND 0x80 \<noteq> 0
                        then value OR push_bit (length bytes * 8) (- 1) else value)
           in Inr (if value \<le> 2 ^ 63 - 1 then uint value else - 1 - uint (- 1 - value)))"

definition decode_integer :: "sqli_column_type option \<Rightarrow> byte list \<Rightarrow> int fallible" where
  "decode_integer type bytes =
     (if boolean_type type then
        (case decode_boolean bytes of Inl status \<Rightarrow> Inl status | Inr value \<Rightarrow> Inr (if value then 1 else 0))
      else if type \<in> {Some SQLI_TYPE_INT8, Some SQLI_TYPE_SERIAL8} then decode_int8 bytes
      else decode_fixed type bytes)"

definition decimal_integer :: "(nat \<Rightarrow> bool) \<Rightarrow> result_env \<Rightarrow> nat \<Rightarrow> result \<Rightarrow> int fallible" where
  "decimal_integer mem env column r =
     (case sqli_decimal_create mem True of
        Inl status \<Rightarrow> Inl status
      | Inr value \<Rightarrow>
          (case sqli_result_get_decimal mem env column r (Some value) of
             (status, value) \<Rightarrow> if status = SQLI_OK then sqli_decimal_to_i64 value else Inl status))"

text \<open>What the readers share: the span of the column, its type and its NULL flag.\<close>

definition read_column ::
  "(sqli_column_type option \<Rightarrow> bool) \<Rightarrow> (sqli_column_type option \<Rightarrow> byte list \<Rightarrow> 'a fallible) \<Rightarrow> bool \<Rightarrow>
   result_env \<Rightarrow> nat \<Rightarrow> result \<Rightarrow> 'a option fallible" where
  "read_column admitted decode outputs_given env column r =
     (if \<not> outputs_given then Inl SQLI_INVALID_ARGUMENT
      else case sqli_result_current_span env column r of
        Inl status \<Rightarrow> Inl status
      | Inr (info, bytes) \<Rightarrow>
          if \<not> admitted (ci_type info) then Inl SQLI_TYPE_MISMATCH
          else case rs_cache r of
            None \<Rightarrow> Inl SQLI_INVALID_STATE
          | Some cache \<Rightarrow>
              (case cache ! column of (start, len, null) \<Rightarrow>
                 if null then Inr None
                 else (case decode (ci_type info) bytes of Inl status \<Rightarrow> Inl status | Inr value \<Rightarrow> Inr (Some value))))"

definition sqli_result_get_int64 :: "(nat \<Rightarrow> bool) \<Rightarrow> bool \<Rightarrow> result_env \<Rightarrow> nat \<Rightarrow> result \<Rightarrow> int option fallible" where
  "sqli_result_get_int64 mem outputs_given env column r =
     read_column (\<lambda>type. integer_type type \<or> decimal_type type)
       (\<lambda>type bytes. if decimal_type type then decimal_integer mem env column r else decode_integer type bytes)
       outputs_given env column r"

definition sqli_result_get_int :: "(nat \<Rightarrow> bool) \<Rightarrow> bool \<Rightarrow> result_env \<Rightarrow> nat \<Rightarrow> result \<Rightarrow> int option fallible" where
  "sqli_result_get_int mem outputs_given env column r =
     (if \<not> outputs_given then Inl SQLI_INVALID_ARGUMENT
      else case sqli_result_get_int64 mem True env column r of
        Inl status \<Rightarrow> Inl status
      | Inr None \<Rightarrow> Inr None
      | Inr (Some value) \<Rightarrow> if value < - (2 ^ 31) \<or> value > INT32_MAX then Inl SQLI_OUT_OF_RANGE else Inr (Some value))"

definition sqli_result_get_bool :: "bool \<Rightarrow> result_env \<Rightarrow> nat \<Rightarrow> result \<Rightarrow> bool option fallible" where
  "sqli_result_get_bool outputs_given env column r =
     read_column boolean_type (\<lambda>type bytes. decode_boolean bytes) outputs_given env column r"

end
