(* ===== verification/Link.thy ===== *)
theory Link
  imports Conn
begin

text \<open>
  Reading from the socket of a connection through its read buffer (the first part of
  src/src/sqli_dispatch.c). What arrives is an input: \<open>k_arrivals\<close> are the results of the next
  reads of the socket, \<open>k_peeks\<close> how many bytes of the next arrival are there at the next
  looks at the socket, which never wait. The connection is not NULL, its buffer is allocated and
  the descriptor is its socket, as in every call of the library.
\<close>

text \<open>A read returns at least one byte or fails; no bytes mean that the peer has closed.\<close>

datatype arrival = Bytes "byte list" | Timed_out | Failed

record link =
  k_conn :: sqli_conn
  k_buffer :: "byte list"
  k_arrivals :: "arrival list"
  k_peeks :: "nat list"

datatype read_outcome = Complete | Stalled | Lost

text \<open>
  The loop of \<open>read_exact\<close> with the unread part of the buffer: the bytes copied, the buffer and the
  arrivals afterwards.
\<close>

fun read_loop :: "nat \<Rightarrow> byte list \<Rightarrow> arrival list \<Rightarrow> read_outcome \<times> byte list \<times> byte list \<times> arrival list" where
  "read_loop count buffer [] =
     (if count \<le> length buffer then (Complete, take count buffer, drop count buffer, []) else (Lost, buffer, [], []))"
| "read_loop count buffer (a # arrivals) =
     (if count \<le> length buffer then (Complete, take count buffer, drop count buffer, a # arrivals)
      else case a of
        Bytes bytes \<Rightarrow>
          if bytes = [] then (Lost, buffer, [], arrivals)
          else (case read_loop (count - length buffer) bytes arrivals of
                  (outcome, got, rest) \<Rightarrow> (outcome, buffer @ got, rest))
      | Timed_out \<Rightarrow> (Stalled, buffer, [], arrivals)
      | Failed \<Rightarrow> (Lost, buffer, [], arrivals))"

text \<open>The bytes copied are returned on a failure, too.\<close>

definition read_exact :: "nat \<Rightarrow> link \<Rightarrow> (sqli_status \<times> byte list) \<times> link" where
  "read_exact count k =
     (case read_loop count (k_buffer k) (k_arrivals k) of
        (outcome, got, buffer, arrivals) \<Rightarrow>
          let k = k\<lparr>k_buffer := buffer, k_arrivals := arrivals\<rparr>
          in case outcome of
               Complete \<Rightarrow> ((SQLI_OK, got), k)
             | Stalled \<Rightarrow> ((SQLI_IO_ERROR, got),
                 k\<lparr>k_conn := set_error ''network read timeout - server took too long to respond'' (k_conn k)\<rparr>)
             | Lost \<Rightarrow> ((SQLI_IO_ERROR, got), k\<lparr>k_conn := set_error ''network I/O read error'' (k_conn k)\<rparr>))"

definition read_be16 :: "link \<Rightarrow> nat fallible \<times> link" where
  "read_be16 k =
     (case read_exact 2 k of
        ((rc, bytes), k) \<Rightarrow> (if rc \<noteq> SQLI_OK then Inl rc else Inr (be_value 256 (map unat bytes)), k))"

definition read_be32 :: "link \<Rightarrow> nat fallible \<times> link" where
  "read_be32 k =
     (case read_exact 4 k of
        ((rc, bytes), k) \<Rightarrow> (if rc \<noteq> SQLI_OK then Inl rc else Inr (be_value 256 (map unat bytes)), k))"

text \<open>Reading in chunks of 256 bytes.\<close>

function drain_bytes :: "nat \<Rightarrow> link \<Rightarrow> sqli_status \<times> link" where
  "drain_bytes count k =
     (if count = 0 then (SQLI_OK, k)
      else let chunk = min count 256
        in case read_exact chunk k of
             ((rc, bytes), k) \<Rightarrow> if rc \<noteq> SQLI_OK then (rc, k) else drain_bytes (count - chunk) k)"
  by pat_completeness auto

termination by (relation "measure fst") auto

declare drain_bytes.simps [simp del]

text \<open>
  A string of the server into a buffer of \<open>limit\<close> bytes: the bytes that are stored. The rest is read
  and dropped, and so is the pad byte of an odd length.
\<close>

definition read_str :: "nat \<Rightarrow> link \<Rightarrow> (sqli_status \<times> byte list) \<times> link" where
  "read_str limit k =
     (case read_be16 k of
        (Inl rc, k) \<Rightarrow> ((rc, []), k)
      | (Inr len, k) \<Rightarrow>
          if len = 0 then ((SQLI_OK, []), k)
          else
            let copy = (if limit > 0 then min len (limit - 1) else 0)
            in case (if copy > 0 then read_exact copy k else ((SQLI_OK, []), k)) of
                 ((rc, text_bytes), k) \<Rightarrow>
                   if rc \<noteq> SQLI_OK then ((rc, text_bytes), k)
                   else (case drain_bytes (len - copy) k of
                     (rc, k) \<Rightarrow>
                       if rc \<noteq> SQLI_OK then ((rc, text_bytes), k)
                       else if odd len then (case read_exact 1 k of ((rc, pad), k) \<Rightarrow> ((rc, text_bytes), k))
                       else ((SQLI_OK, text_bytes), k)))"

text \<open>A two's complement number, most significant byte first.\<close>

definition twos_value :: "byte list \<Rightarrow> int" where
  "twos_value bytes =
     (let v = int (be_value 256 (map unat bytes)) in if 2 * v < 256 ^ length bytes then v else v - 256 ^ length bytes)"

section \<open>Looking ahead\<close>

definition sqli_tcp_peek :: "nat \<Rightarrow> link \<Rightarrow> byte list \<times> link" where
  "sqli_tcp_peek count k =
     (case k_peeks k of
        [] \<Rightarrow> ([], k)
      | n # peeks \<Rightarrow>
          ((case k_arrivals k of Bytes bytes # _ \<Rightarrow> take (min n count) bytes | _ \<Rightarrow> []), k\<lparr>k_peeks := peeks\<rparr>))"

definition sqli_peek_bytes :: "nat \<Rightarrow> link \<Rightarrow> byte list \<times> link" where
  "sqli_peek_bytes count k =
     (if k_buffer k \<noteq> [] then (take count (k_buffer k), k) else sqli_tcp_peek count k)"

definition buffered_peek_byte :: "link \<Rightarrow> byte list" where
  "buffered_peek_byte k = take 1 (k_buffer k)"

definition sqli_protocol_has_buffered_data :: "link \<Rightarrow> bool" where
  "sqli_protocol_has_buffered_data k \<longleftrightarrow> k_buffer k \<noteq> []"

section \<open>Sequencing\<close>

text \<open>The early returns of the readers: the next step runs on the value of the one before, or not at all.\<close>

definition and_then :: "('s \<Rightarrow> 'a fallible \<times> 's) \<Rightarrow> ('a \<Rightarrow> 's \<Rightarrow> 'b fallible \<times> 's) \<Rightarrow> 's \<Rightarrow> 'b fallible \<times> 's" where
  "and_then m f k = (case m k of (Inl rc, k) \<Rightarrow> (Inl rc, k) | (Inr x, k) \<Rightarrow> f x k)"

text \<open>Exactly \<open>count\<close> bytes.\<close>

definition read_bytes :: "nat \<Rightarrow> link \<Rightarrow> byte list fallible \<times> link" where
  "read_bytes count k = (case read_exact count k of ((rc, bytes), k) \<Rightarrow> (if rc \<noteq> SQLI_OK then Inl rc else Inr bytes, k))"

end
