(* ===== verification/ScalarFacts.thy ===== *)
theory ScalarFacts
  imports Scalar ResultSafety DecimalArith Link
begin

text \<open>
  The integer decoder computes the signed value of the wire format on every input, and the values of
  the readers fit their C types.
\<close>

section \<open>Unsigned big-endian words\<close>

lemma unsigned_be_snoc: "unsigned_be (bs @ [b]) = push_bit 8 (unsigned_be bs) OR ucast b"
  by (simp add: unsigned_be_def)

lemma unat_ucast_byte [simp]: "unat (ucast b :: 64 word) = unat (b :: byte)"
proof -
  have "unat b < 2 ^ 64" by (rule less_le_trans [OF unat_byte_less]) simp
  then show ?thesis by (simp add: unsigned_ucast_eq take_bit_nat_eq_self)
qed

lemma or_is_add:
  fixes v w :: "64 word"
  assumes "unat v * 2 ^ n < 2 ^ 64" "unat w < 2 ^ n" "n < 64"
  shows "unat (push_bit n v OR w) = unat v * 2 ^ n + unat w"
proof -
  have w: "w = take_bit n w"
    using assms(2) by (simp add: word_unat_eq_iff unsigned_take_bit_eq take_bit_nat_eq_self)
  have "push_bit n v AND w = 0" by (subst w) (auto simp: bit_eq_iff bit_simps)
  then have "push_bit n v OR w = push_bit n v + w" by (rule disjunctive_add_eq_or [symmetric])
  moreover have "unat (push_bit n v) = unat v * 2 ^ n"
    using assms(1) by (simp add: unsigned_push_bit_eq push_bit_eq_mult [of n "unat v"] take_bit_nat_eq_self)
  moreover have "unat v * 2 ^ n + unat w < 2 ^ 64"
  proof -
    have "(unat v + 1) * 2 ^ n \<le> 2 ^ 64"
    proof -
      have "unat v < 2 ^ (64 - n)" using assms(1,3) by (metis less_mult_imp_div_less nat_mult_less_cancel_disj power_add le_add_diff_inverse2 less_imp_le_nat mult.commute zero_less_numeral zero_less_power)
      then have "(unat v + 1) * 2 ^ n \<le> 2 ^ (64 - n) * 2 ^ n" by (intro mult_right_mono) auto
      then show ?thesis using assms(3) by (simp add: power_add [symmetric])
    qed
    then show ?thesis using assms(2) by (simp add: algebra_simps)
  qed
  ultimately show ?thesis by (simp add: unat_word_ariths)
qed

lemma unat_unsigned_be: "length bs \<le> 8 \<Longrightarrow> unat (unsigned_be bs) = be_value 256 (map unat bs)"
proof (induction bs rule: rev_induct)
  case (snoc b bs)
  have len: "length bs \<le> 7" using snoc.prems by simp
  have "be_value 256 (map unat bs) < 256 ^ length bs"
    using be_value_less [of 256 "map unat bs"] by (simp add: digits_ok_def)
  also have "\<dots> \<le> 256 ^ 7" using len by (intro power_increasing) auto
  finally have "unat (unsigned_be bs) * 2 ^ 8 < 2 ^ 64" using snoc by simp
  then have "unat (push_bit 8 (unsigned_be bs) OR ucast b) = unat (unsigned_be bs) * 2 ^ 8 + unat (ucast b :: 64 word)"
    by (rule or_is_add) simp_all
  then show ?case using snoc by (simp add: unsigned_be_snoc)
qed (simp add: unsigned_be_def)

section \<open>The signed value\<close>

text \<open>Sign, low word and high word of the ten-byte format.\<close>

definition int8_value :: "byte list \<Rightarrow> int fallible" where
  "int8_value bytes =
     (let sign = be_value 256 (map unat (take 2 bytes));
          magnitude = int (be_value 256 (map unat (take 4 (drop 2 bytes))) +
            2 ^ 32 * be_value 256 (map unat (take 4 (drop 6 bytes))))
      in if length bytes \<noteq> 10 \<or> sign \<noteq> 1 \<and> sign \<noteq> 65535 then Inl SQLI_PROTO_ERROR
         else let value = (if sign = 1 then magnitude else - magnitude)
              in if in_i64 value then Inr value else Inl SQLI_OUT_OF_RANGE)"

definition integer_width :: "sqli_column_type option \<Rightarrow> nat" where
  "integer_width type =
     (if type = Some SQLI_TYPE_SMALLINT then 2
      else if type \<in> {Some SQLI_TYPE_BIGINT, Some SQLI_TYPE_BIGSERIAL} then 8 else 4)"

lemma sign_bit: "b AND 0x80 \<noteq> 0 \<longleftrightarrow> 128 \<le> unat (b :: byte)"
proof -
  have "b AND 0x80 \<noteq> 0 \<longleftrightarrow> bit b 7" using and_exp_eq_0_iff_not_bit [of b 7] by simp
  also have "\<dots> \<longleftrightarrow> odd (unat b div 2 ^ 7)" using bit_iff_odd [of "unat b" 7] by (simp add: bit_unsigned_iff)
  also have "\<dots> \<longleftrightarrow> 128 \<le> unat b"
  proof -
    have "odd (n div 2 ^ 7) \<longleftrightarrow> 128 \<le> n" if "n < 256" for n :: nat
    proof -
      have "n div 128 = 0 \<or> n div 128 = 1" using that by linarith
      then show ?thesis by auto
    qed
    then show ?thesis by simp
  qed
  finally show ?thesis .
qed

lemma be_value_bytes_less: "be_value 256 (map unat (bs :: byte list)) < 256 ^ length bs"
  using be_value_less [of 256 "map unat bs"] by (simp add: digits_ok_def)

lemma be_value_sign:
  assumes "bs \<noteq> []"
  shows "128 \<le> unat (hd bs) \<longleftrightarrow> 256 ^ length bs \<le> 2 * be_value 256 (map unat (bs :: byte list))"
proof -
  obtain b cs where bs: "bs = b # cs" using assms by (cases bs) auto
  have rest: "be_value 256 (map unat cs) < 256 ^ length cs" by (rule be_value_bytes_less)
  have "128 \<le> unat b \<longleftrightarrow> 256 ^ length bs \<le> 2 * (unat b * 256 ^ length cs + be_value 256 (map unat cs))"
  proof
    assume "128 \<le> unat b"
    then have "128 * 256 ^ length cs \<le> unat b * 256 ^ length cs" by (rule mult_right_mono) simp
    then have "2 * (128 * 256 ^ length cs) \<le> 2 * (unat b * 256 ^ length cs + be_value 256 (map unat cs))"
      by (intro mult_left_mono trans_le_add1) simp_all
    then show "256 ^ length bs \<le> 2 * (unat b * 256 ^ length cs + be_value 256 (map unat cs))" by (simp add: bs)
  next
    assume le: "256 ^ length bs \<le> 2 * (unat b * 256 ^ length cs + be_value 256 (map unat cs))"
    show "128 \<le> unat b"
    proof (rule ccontr)
      assume "\<not> 128 \<le> unat b"
      then have "(unat b + 1) * 256 ^ length cs \<le> 128 * 256 ^ length cs" by (intro mult_right_mono) simp_all
      moreover have "(unat b + 1) * 256 ^ length cs = unat b * 256 ^ length cs + 256 ^ length cs" by simp
      ultimately have "unat b * 256 ^ length cs + 256 ^ length cs \<le> 128 * 256 ^ length cs" by (simp only:)
      then have "unat b * 256 ^ length cs + be_value 256 (map unat cs) < 128 * 256 ^ length cs"
        by (rule less_le_trans [OF add_strict_left_mono [OF rest]])
      then have "2 * (unat b * 256 ^ length cs + be_value 256 (map unat cs)) < 2 * (128 * 256 ^ length cs)" by simp
      then show False using le by (simp add: bs)
    qed
  qed
  then show ?thesis by (simp add: bs be_value_Cons)
qed

lemma decode_fixed_correct:
  "decode_fixed type bytes =
     (if length bytes = integer_width type then Inr (twos_value bytes) else Inl SQLI_PROTO_ERROR)"
proof (cases "length bytes = integer_width type")
  case True
  define n where "n = length bytes"
  have n: "n = 2 \<or> n = 4 \<or> n = 8" using True by (auto simp: n_def integer_width_def)
  then have ne: "bytes \<noteq> []" by (auto simp: n_def)
  let ?V = "be_value 256 (map unat bytes)" and ?w = "unsigned_be bytes"
  have V: "unat ?w = ?V" "?V < 256 ^ n"
    using n unat_unsigned_be [of bytes] be_value_bytes_less [of bytes] by (auto simp: n_def)
  have sign: "hd bytes AND 0x80 \<noteq> 0 \<longleftrightarrow> 256 ^ n \<le> 2 * ?V" using be_value_sign [OF ne] by (simp add: sign_bit n_def)
  define ext where "ext = (if n < 8 \<and> hd bytes AND 0x80 \<noteq> 0 then ?w OR push_bit (n * 8) (- 1) else ?w)"
  have ext: "unat ext = (if n < 8 \<and> 256 ^ n \<le> 2 * ?V then ?V + (2 ^ 64 - 256 ^ n) else ?V)"
  proof (cases "n < 8 \<and> 256 ^ n \<le> 2 * ?V")
    case True
    have w: "unat ?w < 2 ^ (n * 8)" using V by (simp add: mult.commute [of n] power_mult)
    have "ext = push_bit (n * 8) (- 1) OR ?w" using True sign by (simp add: ext_def or.commute)
    moreover have "push_bit (n * 8) (- 1 :: 64 word) = (if n = 2 then push_bit (n * 8) 0xFFFFFFFFFFFF else push_bit (n * 8) 0xFFFFFFFF)"
      using True n by (auto simp: not_eq_complement mask_eq_exp_minus_1)
    ultimately have "unat ext = (if n = 2 then 0xFFFFFFFFFFFF else 0xFFFFFFFF) * 2 ^ (n * 8) + unat ?w"
      using True n w or_is_add [of "0xFFFFFFFFFFFF" 16 ?w] or_is_add [of "0xFFFFFFFF" 32 ?w] by auto
    then show ?thesis using True V n by auto
  next
    case False
    then show ?thesis using sign V by (auto simp: ext_def)
  qed
  have "decode_fixed type bytes = Inr (if ext \<le> 2 ^ 63 - 1 then uint ext else - 1 - uint (- 1 - ext))"
    using True by (simp add: decode_fixed_def integer_width_def ext_def n_def Let_def)
  moreover have "uint (- 1 - ext) = 2 ^ 64 - 1 - uint ext"
  proof -
    have "uint (- 1 - ext) = (2 ^ 64 - 1 - uint ext) mod 2 ^ 64"
      by (simp only: uint_word_ariths(2) unsigned_minus_1_eq_mask mask_eq_exp_minus_1 len_num0 len_bit0 len_num1) simp
    also have "\<dots> = 2 ^ 64 - 1 - uint ext"
      using uint_lt2p [of ext] uint_nonnegative [of ext] by (intro mod_pos_pos_trivial) (simp, linarith)+
    finally show ?thesis .
  qed
  moreover have "ext \<le> 2 ^ 63 - 1 \<longleftrightarrow> unat ext \<le> 2 ^ 63 - 1" by (simp add: word_le_nat_alt)
  moreover have "uint ext = int (unat ext)" by simp
  ultimately show ?thesis using True ext V n by (auto simp: twos_value_def n_def [symmetric])
qed (auto simp: decode_fixed_def integer_width_def Let_def)

lemma decode_int8_correct: "decode_int8 bytes = int8_value bytes"
proof (cases "length bytes = 10")
  case True
  let ?s = "be_value 256 (map unat (take 2 bytes))"
  let ?lo = "be_value 256 (map unat (take 4 (drop 2 bytes)))" and ?hi = "be_value 256 (map unat (take 4 (drop 6 bytes)))"
  let ?m = "unsigned_be (take 4 (drop 2 bytes)) OR push_bit 32 (unsigned_be (take 4 (drop 6 bytes)))"
  have unats: "unat (unsigned_be (take 2 bytes)) = ?s" "unat (unsigned_be (take 4 (drop 2 bytes))) = ?lo"
    "unat (unsigned_be (take 4 (drop 6 bytes))) = ?hi"
    by (simp_all add: unat_unsigned_be)
  have less: "?lo < 2 ^ 32" "?hi < 2 ^ 32"
    using be_value_bytes_less [of "take 4 (drop 2 bytes)"] be_value_bytes_less [of "take 4 (drop 6 bytes)"] True by simp_all
  have m: "unat ?m = ?hi * 2 ^ 32 + ?lo"
    using or_is_add [of "unsigned_be (take 4 (drop 6 bytes))" 32 "unsigned_be (take 4 (drop 2 bytes))"] unats less
    by (simp add: or.commute)
  have "uint ?m = int (unat ?m)" by simp
  then have um: "uint ?m = int (?lo + 2 ^ 32 * ?hi)" unfolding m by simp
  have signs: "unsigned_be (take 2 bytes) = 1 \<longleftrightarrow> ?s = 1" "unsigned_be (take 2 bytes) = 0xFFFF \<longleftrightarrow> ?s = 65535"
    using unats(1) by (auto simp: word_unat_eq_iff)
  have limits: "?m > 2 ^ 63 - 1 \<longleftrightarrow> int (?lo + 2 ^ 32 * ?hi) > 2 ^ 63 - 1" "?m > 2 ^ 63 \<longleftrightarrow> int (?lo + 2 ^ 32 * ?hi) > 2 ^ 63"
    "?m = 2 ^ 63 \<longleftrightarrow> int (?lo + 2 ^ 32 * ?hi) = 2 ^ 63"
    using m by (simp_all add: word_less_nat_alt word_unat_eq_iff) linarith+
  show ?thesis
    unfolding decode_int8_def int8_value_def Let_def signs um
    using True limits by (simp add: in_i64_def)
qed (simp add: decode_int8_def int8_value_def)

section \<open>Values fit their types\<close>

lemma i64_magnitude_bound:
  "i64_magnitude d digits limit m ks = Inr r \<Longrightarrow> m \<le> limit \<Longrightarrow> 10 \<le> limit \<Longrightarrow> r \<le> limit"
proof (induction ks arbitrary: m)
  case (Cons k ks)
  let ?x = "decimal_digit d digits k"
  have "m \<le> (limit - ?x) div 10" using Cons.prems(1) by (auto simp: Let_def split: if_splits)
  then have "m * 10 + ?x \<le> limit" using decimal_digit_less [of d digits k] Cons.prems(3) by linarith
  then have "u64 (m * 10 + ?x) \<le> limit" using mod_less_eq_dividend [of "m * 10 + ?x" "2 ^ 64"] unfolding u64_def by linarith
  then show ?case using Cons by (auto simp: Let_def split: if_splits)
qed simp

lemma to_i64_in_range: "sqli_decimal_to_i64 p = Inr v \<Longrightarrow> in_i64 v"
  using i64_magnitude_bound [of "the p"]
  by (fastforce simp: sqli_decimal_to_i64_def in_i64_def Let_def split: option.splits if_splits sum.splits)

lemma int8_value_in_range: "int8_value bytes = Inr v \<Longrightarrow> in_i64 v"
  by (auto simp: int8_value_def Let_def split: if_splits)

lemma twos_value_in_range:
  assumes "length bytes = integer_width type"
  shows "in_i64 (twos_value bytes)"
proof -
  define v where "v = be_value 256 (map unat bytes)"
  have "v < 256 ^ length bytes" using be_value_bytes_less [of bytes] by (simp add: v_def)
  moreover have "length bytes = 2 \<or> length bytes = 4 \<or> length bytes = 8" using assms by (auto simp: integer_width_def)
  ultimately show ?thesis unfolding twos_value_def v_def [symmetric] in_i64_def Let_def by (elim disjE) simp_all
qed

section \<open>Properties\<close>

text \<open>
  C37. The integer decoder returns the mathematical value of every column it accepts: the two's
  complement number of the type's width, the sign and magnitude of the ten-byte format with
  its exact range, 0 or 1 for a boolean; and a wrong length or sign is a protocol error.
\<close>

theorem decode_integer_correct:
  "decode_integer type bytes =
     (if boolean_type type then
        (case decode_boolean bytes of Inl status \<Rightarrow> Inl status | Inr value \<Rightarrow> Inr (of_bool value))
      else if type \<in> {Some SQLI_TYPE_INT8, Some SQLI_TYPE_SERIAL8} then int8_value bytes
      else if length bytes = integer_width type then Inr (twos_value bytes) else Inl SQLI_PROTO_ERROR)"
  by (auto simp: decode_integer_def decode_int8_correct decode_fixed_correct split: sum.split)

lemma decode_integer_in_range: "decode_integer type bytes = Inr v \<Longrightarrow> in_i64 v"
  by (auto simp: decode_integer_def decode_int8_correct decode_fixed_correct in_i64_def [of 0] in_i64_def [of 1]
      dest: int8_value_in_range split: if_splits sum.splits intro: twos_value_in_range)

lemma decimal_integer_in_range: "decimal_integer mem env column r = Inr v \<Longrightarrow> in_i64 v"
  by (auto simp: decimal_integer_def dest: to_i64_in_range split: if_splits sum.splits prod.splits)

lemma read_column_value:
  assumes "read_column admitted decode given env column r = Inr (Some v)"
  shows "\<exists>info bytes. sqli_result_current_span env column r = Inr (info, bytes) \<and> admitted (ci_type info) \<and>
    decode (ci_type info) bytes = Inr v"
  using assms by (auto simp: read_column_def split: if_splits sum.splits option.splits prod.splits)

lemma get_int64_in_range: "sqli_result_get_int64 mem given env column r = Inr (Some v) \<Longrightarrow> in_i64 v"
  unfolding sqli_result_get_int64_def
  by (auto dest!: read_column_value dest: decode_integer_in_range decimal_integer_in_range split: if_splits)

text \<open>
  C38. The integer readers keep to their C types: a 64-bit reader returns an int64, a 32-bit reader
  an int32, and where the 64-bit value fits, the two agree; where it does not fit, the 32-bit
  reader fails with \<open>SQLI_OUT_OF_RANGE\<close>, and NULL and every failure are the same for both.
\<close>

theorem integer_readers_typed:
  "(\<forall>v. sqli_result_get_int64 mem True env column r = Inr (Some v) \<longrightarrow> in_i64 v \<and>
     sqli_result_get_int mem True env column r = (if in_i32 v then Inr (Some v) else Inl SQLI_OUT_OF_RANGE)) \<and>
   (\<forall>v. sqli_result_get_int mem True env column r = Inr (Some v) \<longrightarrow>
     in_i32 v \<and> sqli_result_get_int64 mem True env column r = Inr (Some v)) \<and>
   ((\<forall>v. sqli_result_get_int64 mem True env column r \<noteq> Inr (Some v)) \<longrightarrow>
     sqli_result_get_int mem True env column r = sqli_result_get_int64 mem True env column r)"
  using get_int64_in_range [of mem True env column r]
  by (auto simp: sqli_result_get_int_def in_i32_def INT32_MAX_def split: sum.splits option.splits if_splits)

definition sample_last :: result where
  "sample_last = sample_result\<lparr>rs_cursor := 1, rs_current_row := 1, rs_cache_row := 1, rs_at_before_first := False,
     rs_tuple := Some [0, 0, 0, 2], rs_cache := Some [(0, 4, False)], rs_absolute_row_num := 2\<rparr>"

lemma sample_last_span:
  "sqli_result_current_span sample_env 0 sample_last = Inr (example_column SQLI_TYPE_INT 4, [0, 0, 0, 2])"
  by (simp add: sqli_result_current_span_def sample_last_def sample_result_def sample_env_def
      sqli_result_is_closed_by_commit_def slice_def)

lemma sample_last_value: "sqli_result_get_int64 mem True sample_env 0 sample_last = Inr (Some 2)"
proof -
  have "decode_integer (Some SQLI_TYPE_INT) [0, 0, 0, 2] = Inr 2"
    by (simp add: decode_integer_def boolean_type_def decode_fixed_correct integer_width_def twos_value_def be_value_def)
  then show ?thesis
    by (simp add: sqli_result_get_int64_def read_column_def sample_last_span example_column_def integer_type_def
        decimal_type_def) (simp add: sample_last_def)
qed

lemma integer_readers_typed_witness:
  "sqli_result_get_int (\<lambda>_. True) True sample_env 0 sample_last = Inr (Some 2)"
  using integer_readers_typed [of "\<lambda>_. True" sample_env 0 sample_last, THEN conjunct1] sample_last_value
  by (fastforce simp: in_i32_def)

end
