(* ===== verification/LinkFacts.thy ===== *)
theory LinkFacts
  imports Link
begin

text \<open>
  The readers see a stream of bytes: what they return does not depend on how the network has cut it
  into pieces, and every read takes bytes away.
\<close>

text \<open>The bytes that can be read before the first failure.\<close>

fun arriving :: "arrival list \<Rightarrow> byte list" where
  "arriving (Bytes bytes # arrivals) = (if bytes = [] then [] else bytes @ arriving arrivals)"
| "arriving _ = []"

definition stream :: "link \<Rightarrow> byte list" where
  "stream k = k_buffer k @ arriving (k_arrivals k)"

text \<open>All bytes, also those that come after a failure: the measure of the loops.\<close>

fun arrival_bytes :: "arrival \<Rightarrow> nat" where
  "arrival_bytes (Bytes bytes) = length bytes"
| "arrival_bytes _ = 0"

definition pending :: "link \<Rightarrow> nat" where
  "pending k = length (k_buffer k) + (\<Sum>a \<leftarrow> k_arrivals k. arrival_bytes a)"

lemma read_loop_stream:
  "read_loop count buffer arrivals = (outcome, got, buffer', arrivals') \<Longrightarrow>
   if count \<le> length (buffer @ arriving arrivals)
   then outcome = Complete \<and> got = take count (buffer @ arriving arrivals) \<and>
     buffer' @ arriving arrivals' = drop count (buffer @ arriving arrivals)
   else outcome \<noteq> Complete \<and> got = buffer @ arriving arrivals \<and> buffer' = []"
proof (induction count buffer arrivals arbitrary: outcome got buffer' arrivals' rule: read_loop.induct)
  case (2 count buffer a arrivals)
  show ?case
  proof (cases "count \<le> length buffer")
    case True
    then show ?thesis using 2(2) by auto
  next
    case False
    show ?thesis
    proof (cases "\<exists>bytes. a = Bytes bytes \<and> bytes \<noteq> []")
      case True
      then obtain bytes where a: "a = Bytes bytes" "bytes \<noteq> []" by blast
      obtain o1 g1 b1 a1 where r: "read_loop (count - length buffer) bytes arrivals = (o1, g1, b1, a1)"
        by (metis prod.collapse)
      have eqs: "outcome = o1" "got = buffer @ g1" "buffer' = b1" "arrivals' = a1" using 2(2) False a r by auto
      have "if count - length buffer \<le> length (bytes @ arriving arrivals)
        then o1 = Complete \<and> g1 = take (count - length buffer) (bytes @ arriving arrivals) \<and>
          b1 @ arriving a1 = drop (count - length buffer) (bytes @ arriving arrivals)
        else o1 \<noteq> Complete \<and> g1 = bytes @ arriving arrivals \<and> b1 = []"
        using 2(1) [OF False a] r by simp
      then show ?thesis using False a eqs by (auto split: if_splits)
    next
      case False': False
      then have "arriving (a # arrivals) = []" by (cases a) auto
      then show ?thesis using 2(2) False False' by (cases a) auto
    qed
  qed
qed (auto split: if_splits)

lemma read_loop_pending:
  "read_loop count buffer arrivals = (outcome, got, buffer', arrivals') \<Longrightarrow>
   length buffer' + (\<Sum>a \<leftarrow> arrivals'. arrival_bytes a) + length got = length buffer + (\<Sum>a \<leftarrow> arrivals. arrival_bytes a)"
proof (induction count buffer arrivals arbitrary: outcome got buffer' arrivals' rule: read_loop.induct)
  case (2 count buffer a arrivals)
  then show ?case by (cases a) (fastforce split: if_splits prod.splits)+
qed (auto split: if_splits)

lemma read_exact_stream:
  assumes "read_exact count k = ((rc, got), k')"
  shows "if count \<le> length (stream k) then rc = SQLI_OK \<and> got = take count (stream k) \<and> stream k' = drop count (stream k)
    else rc = SQLI_IO_ERROR \<and> got = stream k \<and> k_buffer k' = []"
proof -
  obtain outcome g b a where r: "read_loop count (k_buffer k) (k_arrivals k) = (outcome, g, b, a)" by (metis prod.collapse)
  from read_loop_stream [OF r] show ?thesis
    using assms r by (cases outcome) (auto simp: read_exact_def stream_def Let_def split: if_splits)
qed

lemma read_exact_pending:
  assumes "read_exact count k = ((rc, got), k')"
  shows "pending k' + length got = pending k" and "rc = SQLI_OK \<Longrightarrow> length got = count"
    and "k_peeks k' = k_peeks k" and "rc = SQLI_OK \<Longrightarrow> k_conn k' = k_conn k" and "rc = SQLI_OK \<or> rc = SQLI_IO_ERROR"
proof -
  obtain outcome g b a where r: "read_loop count (k_buffer k) (k_arrivals k) = (outcome, g, b, a)" by (metis prod.collapse)
  note facts = read_loop_pending [OF r] read_loop_stream [OF r]
  have eqs: "got = g" "k_buffer k' = b" "k_arrivals k' = a" "k_peeks k' = k_peeks k" "rc = SQLI_OK \<longleftrightarrow> outcome = Complete"
    "rc = SQLI_OK \<longrightarrow> k_conn k' = k_conn k" "rc = SQLI_OK \<or> rc = SQLI_IO_ERROR"
    using assms r by (cases outcome; auto simp: read_exact_def Let_def)+
  then show "pending k' + length got = pending k" "k_peeks k' = k_peeks k" "rc = SQLI_OK \<Longrightarrow> k_conn k' = k_conn k"
    "rc = SQLI_OK \<or> rc = SQLI_IO_ERROR"
    using facts(1) by (auto simp: pending_def)
  show "length got = count" if "rc = SQLI_OK" using facts(2) eqs that by (auto split: if_splits)
qed

lemma read_be16_pending:
  "read_be16 k = (Inr n, k') \<Longrightarrow> pending k' + 2 = pending k" "read_be16 k = (x, k') \<Longrightarrow> pending k' \<le> pending k"
  using read_exact_pending(1,2) [of 2 k]
  by (auto simp: read_be16_def split: prod.splits if_splits)

lemma read_be32_pending:
  "read_be32 k = (Inr n, k') \<Longrightarrow> pending k' + 4 = pending k" "read_be32 k = (x, k') \<Longrightarrow> pending k' \<le> pending k"
  using read_exact_pending(1,2) [of 4 k]
  by (auto simp: read_be32_def split: prod.splits if_splits)

section \<open>Numbers on the wire\<close>

text \<open>Two and four bytes, the most significant first; of a number that does not fit, the low bits.\<close>

definition net16 :: "nat \<Rightarrow> byte list" where "net16 n = [u8 (n div 256), u8 n]"
definition net32 :: "nat \<Rightarrow> byte list" where "net32 n = net16 (n div 256 div 256) @ net16 n"

lemma net16_bytes: "map unat (net16 n) = [n div 256 mod 256, n mod 256]"
  by (simp add: net16_def unat_u8_mod)

lemma net16_value: "n < 2 ^ 16 \<Longrightarrow> be_value 256 (map unat (net16 n)) = n"
  by (simp add: net16_bytes be_value_def)

lemma net32_value:
  assumes "n < 2 ^ 32"
  shows "be_value 256 (map unat (net32 n)) = n"
proof -
  let ?a = "n div 256" and ?b = "n div 256 div 256" and ?c = "n div 256 div 256 div 256"
  have "?c mod 256 = ?c" using assms by simp
  moreover have "256 * ?c + ?b mod 256 = ?b" "256 * ?b + ?a mod 256 = ?a" "256 * ?a + n mod 256 = n"
    by (rule mult_div_mod_eq)+
  ultimately have "256 * (256 * (256 * (?c mod 256) + ?b mod 256) + ?a mod 256) + n mod 256 = n" by (simp only:)
  moreover have "be_value 256 (map unat (net32 n)) = 256 * (256 * (256 * (?c mod 256) + ?b mod 256) + ?a mod 256) + n mod 256"
    unfolding net32_def map_append net16_bytes by (simp add: be_value_def)
  ultimately show ?thesis by simp
qed

lemma length_be [simp]: "length (net16 n) = 2" "length (net32 n) = 4"
  by (simp_all add: net16_def net32_def)

end
