(* ===== verification/Opcodes.thy ===== *)
theory Opcodes
  imports Transaction
begin

text \<open>
  The message opcodes of the protocol (src/src/sqli_internal.h) that are not among those of the
  transaction messages.
\<close>

definition SQLI_SQ_DBOPEN_FLAGS :: nat where "SQLI_SQ_DBOPEN_FLAGS = 0"
definition SQLI_SQ_COMMAND :: nat where "SQLI_SQ_COMMAND = 1"
definition SQLI_SQ_PREPARE :: nat where "SQLI_SQ_PREPARE = 2"
definition SQLI_SQ_ID :: nat where "SQLI_SQ_ID = 4"
definition SQLI_SQ_BIND :: nat where "SQLI_SQ_BIND = 5"
definition SQLI_SQ_EXECUTE :: nat where "SQLI_SQ_EXECUTE = 7"
definition SQLI_SQ_DESCRIBE :: nat where "SQLI_SQ_DESCRIBE = 8"
definition SQLI_SQ_NFETCH :: nat where "SQLI_SQ_NFETCH = 9"
definition SQLI_SQ_CLOSE :: nat where "SQLI_SQ_CLOSE = 10"
definition SQLI_SQ_RELEASE :: nat where "SQLI_SQ_RELEASE = 11"
definition SQLI_SQ_ERR :: nat where "SQLI_SQ_ERR = 13"
definition SQLI_SQ_TUPLE :: nat where "SQLI_SQ_TUPLE = 14"
definition SQLI_SQ_DONE :: nat where "SQLI_SQ_DONE = 15"
definition SQLI_SQ_TUPID :: nat where "SQLI_SQ_TUPID = 25"
definition SQLI_SQ_DBOPEN :: nat where "SQLI_SQ_DBOPEN = 36"
definition SQLI_SQ_DBCLOSE :: nat where "SQLI_SQ_DBCLOSE = 37"
definition SQLI_SQ_FETCHBLOB :: nat where "SQLI_SQ_FETCHBLOB = 38"
definition SQLI_SQ_BLOB :: nat where "SQLI_SQ_BLOB = 39"
definition SQLI_SQ_VERSION :: nat where "SQLI_SQ_VERSION = 53"
definition SQLI_SQ_COST :: nat where "SQLI_SQ_COST = 55"
definition SQLI_SQ_EXIT :: nat where "SQLI_SQ_EXIT = 56"
definition SQLI_SQ_INFO :: nat where "SQLI_SQ_INFO = 81"
definition SQLI_SQ_REASSOC :: nat where "SQLI_SQ_REASSOC = 86"
definition SQLI_SQ_INSERTDONE :: nat where "SQLI_SQ_INSERTDONE = 94"
definition SQLI_SQ_LODATA :: nat where "SQLI_SQ_LODATA = 97"
definition SQLI_SQ_FILE :: nat where "SQLI_SQ_FILE = 98"
definition SQLI_SQ_XACTSTAT :: nat where "SQLI_SQ_XACTSTAT = 99"
definition SQLI_SQ_RET_TYPE :: nat where "SQLI_SQ_RET_TYPE = 100"
definition SQLI_SQ_PROTOCOLS :: nat where "SQLI_SQ_PROTOCOLS = 126"

lemmas reply_opcode_defs [limit_defs] = SQLI_SQ_DBOPEN_FLAGS_def SQLI_SQ_COMMAND_def SQLI_SQ_PREPARE_def
  SQLI_SQ_ID_def SQLI_SQ_BIND_def SQLI_SQ_EXECUTE_def SQLI_SQ_DESCRIBE_def SQLI_SQ_NFETCH_def SQLI_SQ_CLOSE_def
  SQLI_SQ_RELEASE_def SQLI_SQ_ERR_def SQLI_SQ_TUPLE_def SQLI_SQ_DONE_def SQLI_SQ_TUPID_def SQLI_SQ_DBOPEN_def
  SQLI_SQ_DBCLOSE_def SQLI_SQ_FETCHBLOB_def SQLI_SQ_BLOB_def SQLI_SQ_VERSION_def SQLI_SQ_COST_def SQLI_SQ_EXIT_def
  SQLI_SQ_INFO_def SQLI_SQ_REASSOC_def SQLI_SQ_INSERTDONE_def SQLI_SQ_LODATA_def SQLI_SQ_FILE_def SQLI_SQ_XACTSTAT_def
  SQLI_SQ_RET_TYPE_def SQLI_SQ_PROTOCOLS_def

definition SQLI_SQ_NDESCRIBE :: nat where "SQLI_SQ_NDESCRIBE = 22"
definition SQLI_SQ_SFETCH :: nat where "SQLI_SQ_SFETCH = 23"
definition SQLI_SQ_SCROLL :: nat where "SQLI_SQ_SCROLL = 24"
definition SQLI_SQ_HOLD :: nat where "SQLI_SQ_HOLD = 43"
definition SQLI_SQ_WANTDONE :: nat where "SQLI_SQ_WANTDONE = 49"

lemmas request_opcode_defs [limit_defs] = SQLI_SQ_NDESCRIBE_def SQLI_SQ_SFETCH_def SQLI_SQ_SCROLL_def SQLI_SQ_HOLD_def
  SQLI_SQ_WANTDONE_def

end
