(* ===== verification/Dispatch.thy ===== *)
theory Dispatch
  imports LinkFacts Result Opcodes
begin

text \<open>
  The server's replies (src/src/sqli_dispatch.c): one reader per message and the loop that reads
  opcodes and runs them until the reply ends. A result is not NULL; the capabilities of the
  connection, the message catalog, the allocator and the wait at a group boundary are
  inputs. Logging is left out.
\<close>

record dispatch_env =
  de_mem :: "nat \<Rightarrow> bool"
  de_extended_describe :: bool
  de_long_row_id :: bool
  de_remove_64k_limit :: bool
  de_strict_protocol :: bool
  de_eot_wait :: bool
  de_catalog :: "int \<Rightarrow> string"
  de_opcode_name :: "nat \<Rightarrow> string"

section \<open>Error replies\<close>

text \<open>The text before and after the first \<open>%s\<close>.\<close>

fun find_placeholder :: "string \<Rightarrow> (string \<times> string) option" where
  "find_placeholder (a # b # rest) =
     (if a = CHR ''%'' \<and> b = CHR ''s'' then Some ([], rest) else map_option (apfst ((#) a)) (find_placeholder (b # rest)))"
| "find_placeholder _ = None"

text \<open>The message in a buffer of \<open>limit\<close> bytes; no template and no parameter are the empty string.\<close>

definition format_informix_error_message :: "nat \<Rightarrow> string \<Rightarrow> string \<Rightarrow> string" where
  "format_informix_error_message limit tmpl param =
     take (limit - 1)
       (if tmpl = [] then (if param \<noteq> [] then param else ''server error'')
        else case find_placeholder tmpl of
          Some (pre, suffix) \<Rightarrow>
            if param \<noteq> [] then take (limit - 1) pre @ take 128 param @ take 128 suffix else tmpl
        | None \<Rightarrow> if param \<noteq> [] then take 240 tmpl @ '' ('' @ take 128 param @ '')'' else tmpl)"

definition print_int :: "int \<Rightarrow> string" where
  "print_int i = (if i < 0 then ''-'' @ print_nat (nat (- i)) else print_nat (nat i))"

definition set_error_info_from_sqerr ::
  "dispatch_env \<Rightarrow> sqli_status \<Rightarrow> nat \<Rightarrow> int \<Rightarrow> int \<Rightarrow> string \<Rightarrow> string \<Rightarrow> sqli_conn \<Rightarrow> sqli_conn" where
  "set_error_info_from_sqerr env status opcode sqlcode isamcode sqlstate server_msg conn =
     (let state = take 5 sqlstate; server = take 255 server_msg; sql = take 383 (de_catalog env sqlcode);
          detail = format_informix_error_message 384 sql server;
          msg = take 511 (''SQLCODE '' @ print_int sqlcode @ '' (ISAM '' @ print_int isamcode @
            (if state \<noteq> [] then '', SQLSTATE '' @ state @ ''): '' else ''): '') @ detail)
      in conn\<lparr>c_error_info :=
           \<lparr>ei_has_error = True, ei_status = status, ei_sqlcode = sqlcode, ei_isamcode = isamcode, ei_sqlstate = state,
            ei_opcode = opcode, ei_opcode_name = take 23 (de_opcode_name env opcode),
            ei_context = take 47 (if c_error_context conn \<noteq> [] then c_error_context conn else ''dispatch''),
            ei_unknown_opcode = 0, ei_unknown_opcode_count = 0, ei_server_message = server, ei_sql_message = sql,
            ei_isam_message = take 383 (de_catalog env isamcode), ei_message = msg\<rparr>,
          c_errmsg := msg\<rparr>)"

text \<open>Bytes of the server as a C string.\<close>

definition c_text :: "byte list \<Rightarrow> string" where
  "c_text bytes = map (\<lambda>b. char_of (unat b)) (takeWhile (\<lambda>b. b \<noteq> 0) bytes)"

definition signed16 :: "nat \<Rightarrow> int" where
  "signed16 n = (if n < 2 ^ 15 then int n else int n - 2 ^ 16)"

text \<open>SQLSTATE and message; failures of these reads are ignored.\<close>

definition error_texts :: "dispatch_env \<Rightarrow> int \<Rightarrow> link \<Rightarrow> (byte list \<times> byte list) \<times> link" where
  "error_texts env sqlcode k =
     (if sqlcode = -619 then
        (case drain_bytes (if de_remove_64k_limit env then 6 else 4) k of
           (rc, k) \<Rightarrow> (case read_str 512 k of ((rc, msg), k) \<Rightarrow> (([], msg), k)))
      else if sqlcode = -368 then (([], []), k)
      else if sqlcode \<in> {0, -937, 100} then
        (case read_exact 5 k of
           ((rc, state), k) \<Rightarrow> (case read_str 512 k of ((rc, msg), k) \<Rightarrow> ((state, msg), k)))
      else
        (case drain_bytes (if de_remove_64k_limit env then 4 else 2) k of
           (rc, k) \<Rightarrow> (case read_str 512 k of ((rc, msg), k) \<Rightarrow> (([], msg), k))))"

text \<open>Two bytes ahead: of the buffer, or of the socket.\<close>

definition peek_after_error :: "link \<Rightarrow> byte list \<times> link" where
  "peek_after_error k = (if length (k_buffer k) \<ge> 2 then (take 2 (k_buffer k), k) else sqli_tcp_peek 2 k)"

definition sqli_receive_error :: "dispatch_env \<Rightarrow> result \<Rightarrow> link \<Rightarrow> (sqli_status \<times> result) \<times> link" where
  "sqli_receive_error env r k =
     (case read_be16 k of
        (Inl rc, k) \<Rightarrow> ((rc, r), k)
      | (Inr code, k) \<Rightarrow>
          (case read_be16 k of
             (Inl rc, k) \<Rightarrow> ((rc, r), k)
           | (Inr isam, k) \<Rightarrow>
               let r = r\<lparr>rs_error_code := signed16 code\<rparr>
               in case error_texts env (signed16 code) k of
                    ((state, msg), k) \<Rightarrow>
                      let k = k\<lparr>k_conn := set_error_info_from_sqerr env SQLI_PROTO_ERROR SQLI_SQ_ERR
                                   (signed16 code) (signed16 isam) (c_text state) (c_text msg) (k_conn k)\<rparr>
                      in case peek_after_error k of
                           (ahead, k) \<Rightarrow>
                             let k = (if ahead = [0, u8 SQLI_SQ_EOT] then snd (read_be16 k) else k)
                             in ((SQLI_PROTO_ERROR, r\<lparr>rs_eof := True, rs_saw_error := True\<rparr>), k)))"

section \<open>DESCRIBE\<close>

text \<open>A counted string whose bytes the descriptor owns.\<close>

definition receive_descriptor_string ::
  "dispatch_env \<Rightarrow> descriptor \<Rightarrow> link \<Rightarrow> (byte list \<times> descriptor) fallible \<times> link" where
  "receive_descriptor_string env d =
     and_then read_be16 (\<lambda>len k.
       case sqli_descriptor_alloc_bytes (de_mem env) len True (Some d) of
         (rc, d) \<Rightarrow>
           if rc \<noteq> SQLI_OK then (Inl rc, k)
           else and_then (read_bytes len) (\<lambda>bytes.
             and_then (read_bytes (len mod 2)) (\<lambda>pad k. (Inr (bytes, the d), k))) k)"

definition receive_descriptor_field ::
  "dispatch_env \<Rightarrow> descriptor \<Rightarrow> descriptor_field \<Rightarrow> link \<Rightarrow> (descriptor_field \<times> descriptor) fallible \<times> link" where
  "receive_descriptor_field env d f =
     and_then read_be32 (\<lambda>index. and_then read_be32 (\<lambda>offset. and_then read_be16 (\<lambda>type_raw.
       let f = f\<lparr>df_field_index := index, df_tuple_offset := offset, df_type_raw := type_raw\<rparr>
       in if \<not> di_extended (dr_info d) then and_then read_be16 (\<lambda>len k. (Inr (f\<lparr>df_encoded_length := len\<rparr>, d), k))
          else and_then read_be32 (\<lambda>extended.
            and_then (receive_descriptor_string env d) (\<lambda>(owner, d).
            and_then (receive_descriptor_string env d) (\<lambda>(name, d).
            and_then read_be16 (\<lambda>ref. and_then read_be16 (\<lambda>alignment.
            and_then read_be32 (\<lambda>source. and_then read_be32 (\<lambda>len k.
              (Inr (f\<lparr>df_extended_info := extended, df_type_owner := Some owner, df_type_name := Some name,
                      df_reference := ref, df_alignment := alignment, df_source_type := source, df_encoded_length := len\<rparr>, d),
               k))))))))))) "

text \<open>The loop over the fields; the fields received are stored in the descriptor.\<close>

fun receive_fields :: "dispatch_env \<Rightarrow> descriptor \<Rightarrow> descriptor_field list \<Rightarrow> link \<Rightarrow>
    (descriptor_field list \<times> descriptor) fallible \<times> link" where
  "receive_fields env d [] k = (Inr ([], d), k)"
| "receive_fields env d (f # fs) k =
     and_then (receive_descriptor_field env d f)
       (\<lambda>(f, d). and_then (receive_fields env d fs) (\<lambda>(fs, d) k. (Inr (f # fs, d), k))) k"

definition signed32 :: "nat \<Rightarrow> int" where
  "signed32 n = (if n < 2 ^ 31 then int n else int n - 2 ^ 32)"

definition legacy_column :: "bool \<Rightarrow> descriptor_field \<Rightarrow> column_info" where
  "legacy_column extended f =
     (let type = type_of_code (df_type_raw f mod 256);
          type = (if \<not> extended then type
                  else if df_extended_info f = 10 then Some SQLI_TYPE_BLOB
                  else if df_extended_info f = 11 then Some SQLI_TYPE_CLOB
                  else if df_extended_info f = 1 then Some SQLI_TYPE_LVARCHAR
                  else if df_extended_info f = 5 then Some SQLI_TYPE_BOOL
                  else type);
          name = (case df_name f of
                    Some bytes \<Rightarrow> bytes | None \<Rightarrow> (case df_type_owner f of Some bytes \<Rightarrow> bytes | None \<Rightarrow> []))
      in \<lparr>ci_name = c_text (take 127 name), ci_type = type, ci_flags = df_type_raw f,
          ci_encoded_length = df_encoded_length f, ci_col_start_pos = df_tuple_offset f,
          ci_field_index = signed32 (df_field_index f)\<rparr>)"

definition descriptor_legacy_columns :: "descriptor \<Rightarrow> column_info list" where
  "descriptor_legacy_columns d = map (legacy_column (di_extended (dr_info d))) (dr_fields d)"

definition replace_descriptor :: "descriptor \<Rightarrow> column_info list \<Rightarrow> result \<Rightarrow> result" where
  "replace_descriptor d columns r =
     r\<lparr>rs_cache := None, rs_cache_row := -1, rs_descriptor := Some d, rs_columns := columns,
       rs_statement_type := di_statement_type (dr_info d), rs_stmt_id := int (di_statement_id (dr_info d)),
       rs_cursor := -1, rs_current_row := -1, rs_eof := False, rs_absolute_row_num := 0,
       rs_at_before_first := True, rs_at_after_last := False\<rparr>"

definition sizeof_sqli_column_info :: nat where "sizeof_sqli_column_info = 148"

text \<open>The descriptor of a complete message; on a failure it is released and nothing has changed.\<close>

definition receive_description :: "dispatch_env \<Rightarrow> link \<Rightarrow> descriptor fallible \<times> link" where
  "receive_description env =
     (let extended = de_extended_describe env
      in and_then read_be16 (\<lambda>statement_type. and_then read_be16 (\<lambda>statement_id. and_then read_be32 (\<lambda>cost.
         and_then read_be16 (\<lambda>tuple_size. and_then read_be16 (\<lambda>fields.
         and_then (if extended then read_be32 else read_be16) (\<lambda>names_length k.
           if names_length > SQLI_DESCRIPTOR_MAX_BYTES then (Inl SQLI_LIMIT_EXCEEDED, k)
           else case sqli_descriptor_create (de_mem env) True
                  (Some \<lparr>di_statement_type = statement_type, di_statement_id = statement_id, di_cost_raw = cost,
                         di_tuple_size = tuple_size, di_field_count = fields, di_extended = extended\<rparr>) of
             Inl rc \<Rightarrow> (Inl rc, k)
           | Inr d \<Rightarrow>
               and_then (receive_fields env d (dr_fields d)) (\<lambda>(fs, d) k.
                 case sqli_descriptor_alloc_bytes (de_mem env) names_length True (Some (d\<lparr>dr_fields := fs\<rparr>)) of
                   (rc, d) \<Rightarrow>
                     if rc \<noteq> SQLI_OK then (Inl rc, k)
                     else and_then (read_bytes names_length) (\<lambda>names. and_then (read_bytes (names_length mod 2)) (\<lambda>pad k.
                       case sqli_descriptor_assign_names (Some ((the d)\<lparr>dr_names := names\<rparr>)) of
                         (rc, d) \<Rightarrow>
                           if rc \<noteq> SQLI_OK then (Inl rc, k)
                           else if fields \<noteq> 0 \<and> \<not> de_mem env (fields * sizeof_sqli_column_info) then (Inl SQLI_ALLOC_FAIL, k)
                           else (Inr (the d), k))) k) k)))))))"

definition receive_describe :: "dispatch_env \<Rightarrow> result \<Rightarrow> link \<Rightarrow> (sqli_status \<times> result) \<times> link" where
  "receive_describe env r k =
     (case receive_description env k of
        (Inl rc, k) \<Rightarrow> ((rc, r), k)
      | (Inr d, k) \<Rightarrow> ((SQLI_OK, replace_descriptor d (descriptor_legacy_columns d) r), k))"

section \<open>TUPLE\<close>

definition SQLI_MAX_TUPLE_BYTES :: nat where "SQLI_MAX_TUPLE_BYTES = 64 * 1024 * 1024"

function grow_capacity_loop :: "nat \<Rightarrow> nat \<Rightarrow> nat option" where
  "grow_capacity_loop current needed =
     (if needed \<le> current then Some current
      else if current = 0 \<or> current > SIZE_MAX div 2 then None
      else grow_capacity_loop (current * 2) needed)"
  by pat_completeness auto

termination by (relation "measure (\<lambda>(current, needed). needed - current)") auto

declare grow_capacity_loop.simps [simp del]

definition grow_capacity_doubling :: "nat \<Rightarrow> nat \<Rightarrow> nat option" where
  "grow_capacity_doubling current needed = grow_capacity_loop (if current = 0 then 1 else current) needed"

text \<open>Room for \<open>count\<close> more bytes in the arena.\<close>

definition reserve_arena :: "dispatch_env \<Rightarrow> nat \<Rightarrow> result \<Rightarrow> result fallible" where
  "reserve_arena env count r =
     (if rs_arena_len r > SIZE_MAX - count then Inl SQLI_ALLOC_FAIL
      else if rs_arena_cap r = 0 \<or> rs_arena_cap r < rs_arena_len r + count then
        (case grow_capacity_doubling (if rs_arena_cap r > 0 then rs_arena_cap r else 32768) (rs_arena_len r + count) of
           None \<Rightarrow> Inl SQLI_ALLOC_FAIL
         | Some cap \<Rightarrow> if de_mem env cap then Inr (r\<lparr>rs_arena_cap := cap\<rparr>) else Inl SQLI_ALLOC_FAIL)
      else Inr r)"

text \<open>Room for one more row pointer and length.\<close>

definition reserve_row :: "dispatch_env \<Rightarrow> result \<Rightarrow> result fallible" where
  "reserve_row env r =
     (if rs_row_count r \<ge> rs_row_capacity r then
        let cap = (if rs_row_capacity r = 0 then 4 else rs_row_capacity r * 2)
        in if de_mem env (nat cap * 8) then Inr (r\<lparr>rs_row_capacity := cap\<rparr>) else Inl SQLI_ALLOC_FAIL
      else Inr r)"

definition append_row :: "nat \<Rightarrow> byte list \<Rightarrow> result \<Rightarrow> result" where
  "append_row warnings row r =
     r\<lparr>rs_rows := Some ((case rs_rows r of None \<Rightarrow> [] | Some rows \<Rightarrow> rows) @ [row]), rs_row_count := rs_row_count r + 1,
       rs_tuple_bytes_total := u64 (rs_tuple_bytes_total r + length row),
       rs_tuple_count := (if rs_tuple_count r < 2 ^ 32 - 1 then rs_tuple_count r + 1 else rs_tuple_count r),
       rs_warnings := warnings\<rparr>"

definition receive_tuple :: "dispatch_env \<Rightarrow> result \<Rightarrow> link \<Rightarrow> (sqli_status \<times> result) \<times> link" where
  "receive_tuple env r k =
     (case and_then read_be16 (\<lambda>warnings. and_then read_be32 (\<lambda>len k. (Inr (warnings, len), k))) k of
        (Inl rc, k) \<Rightarrow> ((rc, r), k)
      | (Inr (warnings, len), k) \<Rightarrow>
          if len > SQLI_MAX_TUPLE_BYTES then
            ((SQLI_PROTO_ERROR, r),
             k\<lparr>k_conn := set_error (''tuple too large: '' @ print_nat len @ '' bytes (limit='' @
                 print_nat SQLI_MAX_TUPLE_BYTES @ '')'') (set_error_context ''dispatch/tuple'' SQLI_SQ_TUPLE (k_conn k))\<rparr>)
          else case reserve_arena env len r of
            Inl rc \<Rightarrow> ((rc, r), k)
          | Inr r \<Rightarrow>
              (case read_bytes len k of
                 (Inl rc, k) \<Rightarrow> ((rc, r), k)
               | (Inr row, k) \<Rightarrow>
                   let r = r\<lparr>rs_arena_len := rs_arena_len r + len\<rparr>
                   in case read_bytes (len mod 2) k of
                        (Inl rc, k) \<Rightarrow> ((rc, r), k)
                      | (Inr pad, k) \<Rightarrow>
                          (case reserve_row env r of
                             Inl rc \<Rightarrow> ((rc, r), k)
                           | Inr r \<Rightarrow> ((SQLI_OK, append_row warnings row r), k))))"

section \<open>Small messages\<close>

definition sqli_is_likely_opcode :: "nat \<Rightarrow> bool" where
  "sqli_is_likely_opcode v \<longleftrightarrow>
     v \<in> {SQLI_SQ_DBOPEN_FLAGS, SQLI_SQ_COMMAND, SQLI_SQ_PREPARE, SQLI_SQ_ID, SQLI_SQ_BIND, SQLI_SQ_EXECUTE,
          SQLI_SQ_DESCRIBE, SQLI_SQ_NFETCH, SQLI_SQ_RELEASE, SQLI_SQ_EOT, SQLI_SQ_ERR, SQLI_SQ_TUPLE, SQLI_SQ_DONE,
          SQLI_SQ_BEGIN, SQLI_SQ_DBOPEN, SQLI_SQ_DBCLOSE, SQLI_SQ_CLOSE, SQLI_SQ_FETCHBLOB, SQLI_SQ_BLOB,
          SQLI_SQ_VERSION, SQLI_SQ_EXIT, SQLI_SQ_INFO, SQLI_SQ_INSERTDONE, SQLI_SQ_XACTSTAT, SQLI_SQ_RET_TYPE,
          SQLI_SQ_PROTOCOLS, SQLI_SQ_LODATA, SQLI_SQ_FILE, SQLI_SQ_COST, SQLI_SQ_REASSOC}"

definition receive_cost :: "link \<Rightarrow> sqli_status \<times> link" where
  "receive_cost k =
     (case and_then read_be32 (\<lambda>rows. read_be32) k of (Inl rc, k) \<Rightarrow> (rc, k) | (Inr cost, k) \<Rightarrow> (SQLI_OK, k))"

lemma drain_bytes_pending: "drain_bytes count k = (rc, k') \<Longrightarrow> pending k' \<le> pending k"
proof (induction count k rule: drain_bytes.induct)
  case (1 count k)
  show ?case
  proof (cases "count = 0")
    case True
    then show ?thesis using 1(2) by (simp add: drain_bytes.simps)
  next
    case False
    obtain rc1 bytes k1 where r: "read_exact (min count 256) k = ((rc1, bytes), k1)" by (metis prod.collapse)
    have "pending k1 \<le> pending k" using read_exact_pending(1) [OF r] by simp
    then show ?thesis
      using 1(1) [OF False refl r [symmetric] refl] 1(2) False r
      by (subst (asm) drain_bytes.simps) (auto simp: Let_def split: if_splits)
  qed
qed

function drain_sq_info :: "link \<Rightarrow> sqli_status \<times> link" where
  "drain_sq_info k =
     (case read_be16 k of
        (Inl rc, k) \<Rightarrow> (rc, k)
      | (Inr item, k) \<Rightarrow>
          if item = 0 then (SQLI_OK, k)
          else (case read_be16 k of
            (Inl rc, k) \<Rightarrow> (rc, k)
          | (Inr len, k) \<Rightarrow>
              (case drain_bytes (len + len mod 2) k of (rc, k) \<Rightarrow> if rc \<noteq> SQLI_OK then (rc, k) else drain_sq_info k)))"
  by pat_completeness auto

termination
proof (relation "measure pending", goal_cases)
  case (2 k r1 k1 item r2 k2 len r3 k3)
  then show ?case
    using read_be16_pending(1) [of k item k1] read_be16_pending(1) [of k1 len k2]
      drain_bytes_pending [of "len + len mod 2" k2] by (force dest: sym)
qed simp

declare drain_sq_info.simps [simp del]

definition receive_command :: "link \<Rightarrow> sqli_status \<times> link" where
  "receive_command k =
     (case sqli_tcp_peek 2 k of
        (ahead, k) \<Rightarrow>
          if length ahead = 2 \<and> sqli_is_likely_opcode (be_value 256 (map unat ahead)) then (SQLI_OK, k)
          else (case read_be32 k of (Inl rc, k) \<Rightarrow> (rc, k) | (Inr payload, k) \<Rightarrow> (SQLI_OK, k)))"

lemma and_then_pending:
  assumes "\<And>x k'. m k = (x, k') \<Longrightarrow> pending k' \<le> pending k"
    and "\<And>x k1 y k2. f x k1 = (y, k2) \<Longrightarrow> pending k2 \<le> pending k1"
    and "and_then m f k = (x, k')"
  shows "pending k' \<le> pending k"
proof (cases "fst (m k)")
  case (Inl rc)
  then show ?thesis using assms(1) [of "fst (m k)" "snd (m k)"] assms(3) by (auto simp: and_then_def split: prod.splits)
next
  case (Inr y)
  then show ?thesis
    using assms(1) [of "fst (m k)" "snd (m k)"] assms(2) [of y "snd (m k)"] assms(3)
    by (fastforce simp: and_then_def split: prod.splits)
qed

lemma receive_cost_pending: "receive_cost k = (rc, k') \<Longrightarrow> pending k' \<le> pending k"
  using and_then_pending [of read_be32 k "\<lambda>_. read_be32"] read_be32_pending(2)
  by (fastforce simp: receive_cost_def split: prod.splits sum.splits)

lemma drain_sq_info_pending: "drain_sq_info k = (rc, k') \<Longrightarrow> pending k' \<le> pending k"
proof (induction k rule: drain_sq_info.induct)
  case (1 k)
  obtain x1 k1 where r1: "read_be16 k = (x1, k1)" by (metis prod.collapse)
  obtain x2 k2 where r2: "read_be16 k1 = (x2, k2)" by (metis prod.collapse)
  note less = read_be16_pending(2) [OF r1] read_be16_pending(2) [OF r2]
  show ?case
  proof (cases x1)
    case (Inl rc)
    then show ?thesis using 1(2) r1 less by (simp add: drain_sq_info.simps)
  next
    case item: (Inr item)
    show ?thesis
    proof (cases "item = 0 \<or> (\<exists>rc. x2 = Inl rc)")
      case True
      then show ?thesis
        using 1(2) r1 r2 item less by (cases "item = 0"; subst (asm) drain_sq_info.simps) auto
    next
      case False
      then obtain len where len: "item \<noteq> 0" "x2 = Inr len" by (cases x2) auto
      obtain rc3 k3 where r3: "drain_bytes (len + len mod 2) k2 = (rc3, k3)" by (metis prod.collapse)
      have "pending k3 \<le> pending k2" by (rule drain_bytes_pending [OF r3])
      moreover have "pending k' \<le> pending k3" if "rc3 = SQLI_OK"
        using 1(1) [OF r1 [symmetric] item len(1) r2 [symmetric] len(2) r3 [symmetric]] 1(2) that r1 r2 r3 item len
        by (subst (asm) drain_sq_info.simps) auto
      moreover have "k' = k3" if "rc3 \<noteq> SQLI_OK"
        using 1(2) that r1 r2 r3 item len by (subst (asm) drain_sq_info.simps) auto
      ultimately show ?thesis using less by (cases "rc3 = SQLI_OK") auto
    qed
  qed
qed

lemma tcp_peek_pending [simp]: "pending (snd (sqli_tcp_peek n k)) = pending k"
  by (simp add: sqli_tcp_peek_def pending_def split: list.split)

lemma peek_bytes_pending [simp]: "pending (snd (sqli_peek_bytes n k)) = pending k"
  by (simp add: sqli_peek_bytes_def)

section \<open>DONE\<close>

definition trailing_message :: "nat \<Rightarrow> link \<Rightarrow> sqli_status \<times> link" where
  "trailing_message next_op k =
     (if next_op = SQLI_SQ_COST then receive_cost k
      else if next_op = SQLI_SQ_INFO then drain_sq_info k
      else if next_op = SQLI_SQ_DBOPEN_FLAGS
      then (case read_be16 k of (Inl rc, k) \<Rightarrow> (rc, k) | (Inr flags, k) \<Rightarrow> (SQLI_OK, k))
      else (SQLI_OK, k))"

lemma trailing_message_pending: "trailing_message next_op k = (rc, k') \<Longrightarrow> pending k' \<le> pending k"
  using receive_cost_pending [of k] drain_sq_info_pending [of k] read_be16_pending(2) [of k]
  by (auto simp: trailing_message_def split: if_splits prod.splits sum.splits)

text \<open>Messages after DONE that are there already.\<close>

function drain_trailing :: "link \<Rightarrow> link" where
  "drain_trailing k =
     (case sqli_peek_bytes 2 k of
        (ahead, k) \<Rightarrow>
          if length ahead \<noteq> 2 \<or>
            be_value 256 (map unat ahead) \<notin> {SQLI_SQ_COST, SQLI_SQ_INFO, SQLI_SQ_DBOPEN_FLAGS, SQLI_SQ_EOT} then k
          else (case read_be16 k of
            (Inl rc, k) \<Rightarrow> k
          | (Inr op, k) \<Rightarrow>
              (case trailing_message (be_value 256 (map unat ahead)) k of
                 (rc, k) \<Rightarrow> if rc \<noteq> SQLI_OK then k else drain_trailing k)))"
  by pat_completeness auto

termination
proof (relation "measure pending", goal_cases)
  case (2 k ahead k1 x k2 op rc k3)
  have "pending k1 = pending k" using peek_bytes_pending [of 2 k] 2(1) by (metis snd_conv)
  moreover have "pending k2 + 2 = pending k1" using read_be16_pending(1) [of k1 op k2] 2(3,4) by simp
  moreover have "pending k3 \<le> pending k2" by (rule trailing_message_pending [OF 2(5) [symmetric]])
  ultimately show ?case by simp
qed simp

declare drain_trailing.simps [simp del]

lemma drain_trailing_pending: "pending (drain_trailing k) \<le> pending k"
proof (induction k rule: drain_trailing.induct)
  case (1 k)
  obtain ahead k1 where p: "sqli_peek_bytes 2 k = (ahead, k1)" by (metis prod.collapse)
  obtain x k2 where r: "read_be16 k1 = (x, k2)" by (metis prod.collapse)
  obtain rc k3 where m: "trailing_message (be_value 256 (map unat ahead)) k2 = (rc, k3)" by (metis prod.collapse)
  have less: "pending k1 = pending k" "pending k2 \<le> pending k1" "pending k3 \<le> pending k2"
    using peek_bytes_pending [of 2 k] p read_be16_pending(2) [OF r] trailing_message_pending [OF m] by simp_all
  have "drain_trailing k =
      (if length ahead \<noteq> 2 \<or>
         be_value 256 (map unat ahead) \<notin> {SQLI_SQ_COST, SQLI_SQ_INFO, SQLI_SQ_DBOPEN_FLAGS, SQLI_SQ_EOT} then k1
       else case x of Inl rc \<Rightarrow> k2 | Inr op \<Rightarrow> if rc \<noteq> SQLI_OK then k3 else drain_trailing k3)"
    by (subst drain_trailing.simps) (simp add: p r m split: sum.split)
  moreover have "pending (drain_trailing k3) \<le> pending k3"
    if "\<not> (length ahead \<noteq> 2 \<or>
         be_value 256 (map unat ahead) \<notin> {SQLI_SQ_COST, SQLI_SQ_INFO, SQLI_SQ_DBOPEN_FLAGS, SQLI_SQ_EOT})"
      "x = Inr op" "rc = SQLI_OK" for op
    using 1 [OF p [symmetric] that(1) r [symmetric] that(2) m [symmetric]] that(3) by simp
  ultimately show ?case using less by (auto split: sum.split)
qed

text \<open>The optional second and third words of \<open>sqlerrd\<close>, two numbers like a cost, found by looking ahead.\<close>

definition done_tail :: "link \<Rightarrow> sqli_status \<times> link" where
  "done_tail k =
     (case sqli_peek_bytes 2 k of
        (ahead, k) \<Rightarrow>
          let next_op = be_value 256 (map unat ahead)
          in if length ahead \<noteq> 2 then (SQLI_OK, k)
             else if \<not> sqli_is_likely_opcode next_op \<and> next_op \<noteq> 0 then receive_cost k
             else if next_op = 0 then
               (case sqli_peek_bytes 8 k of
                  (ahead, k) \<Rightarrow>
                    if length ahead = 8 \<and> sqli_is_likely_opcode (be_value 256 (map unat (drop 6 ahead))) then receive_cost k
                    else (SQLI_OK, k))
             else (SQLI_OK, k))"

definition receive_done :: "dispatch_env \<Rightarrow> result \<Rightarrow> link \<Rightarrow> (sqli_status \<times> result) \<times> link" where
  "receive_done env r k =
     (case read_be16 k of
        (Inl rc, k) \<Rightarrow> ((rc, r), k)
      | (Inr warnings, k) \<Rightarrow>
          let r = r\<lparr>rs_warnings := warnings\<rparr>; width = (if de_long_row_id env then 8 else 4)
          in case and_then (read_bytes width) (\<lambda>rows. and_then (read_bytes width) (\<lambda>row_id k. (Inr rows, k))) k of
               (Inl rc, k) \<Rightarrow> ((rc, r), k)
             | (Inr rows, k) \<Rightarrow>
                 let r = r\<lparr>rs_rows_affected := twos_value rows\<rparr>
                 in (case read_be32 k of
                       (Inl rc, k) \<Rightarrow> ((rc, r), k)
                     | (Inr errd1, k) \<Rightarrow>
                         let r = (if errd1 \<noteq> 0 \<and> twos_value rows > 0
                                  then r\<lparr>rs_generated_serial := signed32 errd1, rs_has_generated_serial := True\<rparr> else r)
                         in (case done_tail k of
                               (rc, k) \<Rightarrow>
                                 if rc \<noteq> SQLI_OK then ((rc, r), k)
                                 else ((SQLI_OK, r\<lparr>rs_eof := True, rs_saw_done := True\<rparr>), drain_trailing k))))"

section \<open>INSERTDONE\<close>

text \<open>Value and NULL flag of a ten-byte integer; out of range it is the nearest int64.\<close>

definition sqli_decode_ifx_int8 :: "byte list option \<Rightarrow> int \<times> bool" where
  "sqli_decode_ifx_int8 buf10 =
     (case buf10 of None \<Rightarrow> (0, True)
      | Some bytes \<Rightarrow>
          let sign = twos_value (take 2 bytes);
              mag = be_value 256 (map unat (take 4 (drop 6 bytes))) * 2 ^ 32 + be_value 256 (map unat (take 4 (drop 2 bytes)))
          in if sign = 0 then (0, True)
             else if sign < 0 then (if mag \<ge> 2 ^ 63 then - (2 ^ 63) else - int mag, False)
             else (if mag > 2 ^ 63 - 1 then 2 ^ 63 - 1 else int mag, False))"

text \<open>At most 256 more pairs of bytes before the next message.\<close>

fun insertdone_tail :: "nat \<Rightarrow> link \<Rightarrow> sqli_status \<times> link" where
  "insertdone_tail 0 k = (SQLI_OK, k)"
| "insertdone_tail (Suc n) k =
     (case sqli_peek_bytes 2 k of
        (ahead, k) \<Rightarrow>
          if length ahead \<noteq> 2 \<or>
            be_value 256 (map unat ahead) \<in> {SQLI_SQ_DONE, SQLI_SQ_EOT, SQLI_SQ_ERR, SQLI_SQ_TUPLE, SQLI_SQ_INSERTDONE,
              SQLI_SQ_XACTSTAT, SQLI_SQ_EXIT, 55, SQLI_SQ_INFO} then (SQLI_OK, k)
          else (case drain_bytes 2 k of (rc, k) \<Rightarrow> if rc \<noteq> SQLI_OK then (rc, k) else insertdone_tail n k))"

definition receive_insertdone :: "result \<Rightarrow> link \<Rightarrow> (sqli_status \<times> result) \<times> link" where
  "receive_insertdone r k =
     (case read_bytes 10 k of
        (Inl rc, k) \<Rightarrow> ((rc, r), k)
      | (Inr raw, k) \<Rightarrow>
          (case sqli_decode_ifx_int8 (Some raw) of
             (generated, null) \<Rightarrow>
               let r = (if \<not> null then r\<lparr>rs_generated_serial8 := generated, rs_has_generated_serial8 := True\<rparr> else r)
               in (case insertdone_tail 256 k of (rc, k) \<Rightarrow> ((rc, r), k))))"

section \<open>The dispatch loop\<close>

text \<open>A message group may end here unless the reply that is waited for has not begun.\<close>

definition can_end_group :: "int \<Rightarrow> result \<Rightarrow> string \<Rightarrow> bool" where
  "can_end_group start_rows r context =
     (if take 18 context = ''query/prepare_recv'' \<or> take 25 context = ''query_stream/prepare_recv''
      then \<not> (rs_statement_type r = 0 \<and> rs_stmt_id r = 0 \<and> rs_columns r = [])
      else if take 16 context = ''query/fetch_recv'' \<or> take 23 context = ''query_stream/fetch_recv'' \<or>
        take 18 context = ''execute/fetch_recv''
      then rs_saw_done r \<or> rs_row_count r \<noteq> start_rows
      else True)"

text \<open>A first look, and a second one after waiting.\<close>

definition more_to_come :: "dispatch_env \<Rightarrow> link \<Rightarrow> bool \<times> link" where
  "more_to_come env k =
     (if buffered_peek_byte k \<noteq> [] then (True, k)
      else case sqli_tcp_peek 1 k of
        (ahead, k) \<Rightarrow>
          if ahead \<noteq> [] \<or> \<not> de_eot_wait env then (ahead \<noteq> [], k)
          else (case sqli_tcp_peek 1 k of (ahead, k) \<Rightarrow> (ahead \<noteq> [], k)))"

definition receive_eot :: "dispatch_env \<Rightarrow> int \<Rightarrow> result \<Rightarrow> link \<Rightarrow> (sqli_status \<times> result) \<times> link" where
  "receive_eot env start_rows r k =
     (case more_to_come env k of
        (ahead, k) \<Rightarrow>
          ((SQLI_OK, if \<not> ahead \<and> can_end_group start_rows r (c_error_context (k_conn k)) then r\<lparr>rs_eof := True\<rparr> else r), k))"

definition unknown_opcode :: "dispatch_env \<Rightarrow> nat \<Rightarrow> result \<Rightarrow> link \<Rightarrow> (sqli_status \<times> result) \<times> link" where
  "unknown_opcode env opcode r k =
     (case sqli_tcp_peek 8 k of
        (ahead, k) \<Rightarrow>
          let conn = k_conn k; info = c_error_info conn;
              where_seen = take 47 (if c_error_context conn \<noteq> [] then c_error_context conn else ''dispatch'');
              msg = take 511 (''Unknown SQLI opcode '' @ print_nat opcode @ '' in '' @ where_seen);
              conn = conn\<lparr>c_error_info := info\<lparr>ei_has_error := True, ei_status := SQLI_PROTO_ERROR, ei_opcode := opcode,
                         ei_opcode_name := take 23 (de_opcode_name env opcode), ei_context := where_seen,
                         ei_unknown_opcode := opcode, ei_unknown_opcode_count := u32 (ei_unknown_opcode_count info + 1),
                         ei_message := msg\<rparr>,
                       c_errmsg := msg\<rparr>
          in (if de_strict_protocol env then (SQLI_PROTO_ERROR, r\<lparr>rs_eof := True\<rparr>) else (SQLI_OK, r), k\<lparr>k_conn := conn\<rparr>))"

definition receive_dbopen :: "link \<Rightarrow> sqli_status \<times> link" where
  "receive_dbopen k =
     (case read_be16 k of
        (Inl rc, k) \<Rightarrow> (rc, k)
      | (Inr len, k) \<Rightarrow>
          (case drain_bytes (len + 2) k of
             (rc, k) \<Rightarrow> (case read_be16 k of (Inl rc, k) \<Rightarrow> (rc, k) | (Inr eot, k) \<Rightarrow> (SQLI_OK, k))))"

text \<open>A message whose value is not used.\<close>

definition skip_value :: "'a fallible \<times> link \<Rightarrow> sqli_status \<times> link" where
  "skip_value x = (case x of (Inl rc, k) \<Rightarrow> (rc, k) | (Inr v, k) \<Rightarrow> (SQLI_OK, k))"

text \<open>A message that leaves the result alone.\<close>

definition keeping :: "result \<Rightarrow> sqli_status \<times> link \<Rightarrow> (sqli_status \<times> result) \<times> link" where
  "keeping r x = (case x of (rc, k) \<Rightarrow> ((rc, r), k))"

definition dispatch_message ::
  "dispatch_env \<Rightarrow> int \<Rightarrow> nat \<Rightarrow> result \<Rightarrow> link \<Rightarrow> (sqli_status \<times> result) \<times> link" where
  "dispatch_message env start_rows opcode r k =
     (if opcode = SQLI_SQ_DBOPEN_FLAGS then keeping r (skip_value (read_be16 k))
      else if opcode = SQLI_SQ_COMMAND then keeping r (receive_command k)
      else if opcode = SQLI_SQ_DESCRIBE then receive_describe env r k
      else if opcode = SQLI_SQ_TUPLE then receive_tuple env r k
      else if opcode = SQLI_SQ_TUPID then keeping r (skip_value (read_be32 k))
      else if opcode = SQLI_SQ_DONE then receive_done env r k
      else if opcode = SQLI_SQ_ERR then sqli_receive_error env r k
      else if opcode \<in> {SQLI_SQ_CLOSE, SQLI_SQ_RELEASE, SQLI_SQ_PREPARE, SQLI_SQ_DBCLOSE, SQLI_SQ_REASSOC} then ((SQLI_OK, r), k)
      else if opcode = SQLI_SQ_EOT then receive_eot env start_rows r k
      else if opcode = SQLI_SQ_EXIT then ((SQLI_IO_ERROR, r\<lparr>rs_eof := True\<rparr>), k)
      else if opcode = SQLI_SQ_DBOPEN then keeping r (receive_dbopen k)
      else if opcode = SQLI_SQ_XACTSTAT then
        keeping r (skip_value (and_then read_be16 (\<lambda>event. and_then read_be16 (\<lambda>new_level. read_be16)) k))
      else if opcode = SQLI_SQ_INFO then keeping r (drain_sq_info k)
      else if opcode = SQLI_SQ_INSERTDONE then receive_insertdone r k
      else if opcode = SQLI_SQ_COST then keeping r (receive_cost k)
      else unknown_opcode env opcode r k)"

section \<open>What every message keeps\<close>

text \<open>
  Facts about a link before and after a step hold for every message when they hold for a read and a look ahead and
  do not depend on the diagnostics of the connection: no message puts bytes back, and none changes anything of a
  connection but its diagnostics.
\<close>

definition keeps :: "(link \<Rightarrow> link \<Rightarrow> bool) \<Rightarrow> (link \<Rightarrow> 'x \<times> link) \<Rightarrow> bool" where
  "keeps R m \<longleftrightarrow> (\<forall>k. R k (snd (m k)))"

lemma keepsI: "(\<And>k x k'. m k = (x, k') \<Longrightarrow> R k k') \<Longrightarrow> keeps R m"
  unfolding keeps_def by (metis prod.collapse)

lemma keepsD: "keeps R m \<Longrightarrow> m k = (x, k') \<Longrightarrow> R k k'"
  unfolding keeps_def by (metis snd_conv)

lemma keeps_if: "keeps R m \<Longrightarrow> keeps R n \<Longrightarrow> keeps R (\<lambda>k. if c then m k else n k)"
  by (simp add: keeps_def)

lemma keeps_sum: "(\<And>e. keeps R (f e)) \<Longrightarrow> (\<And>x. keeps R (g x)) \<Longrightarrow> keeps R (\<lambda>k. case y of Inl e \<Rightarrow> f e k | Inr x \<Rightarrow> g x k)"
  by (simp add: keeps_def split: sum.split)

lemma keeps_prod: "(\<And>a b. keeps R (f a b)) \<Longrightarrow> keeps R (\<lambda>k. case y of (a, b) \<Rightarrow> f a b k)"
  by (simp add: keeps_def split: prod.split)

lemma keeps_reduced:
  "keeps R m \<Longrightarrow> keeps R n \<Longrightarrow> keeps R (if c then m else n)"
  "(\<And>a b. keeps R (f a b)) \<Longrightarrow> keeps R (case y of (a, b) \<Rightarrow> f a b)"
  by (simp_all add: keeps_def split: prod.split)

lemma clear_error_diagnostics [simp]:
  "clear_error (set_error msg conn) = clear_error conn" "clear_error (set_error_context phase op conn) = clear_error conn"
  "clear_error (set_error_info_from_sqerr env status op code isam st msg conn) = clear_error conn"
  "clear_error (conn\<lparr>c_error_info := info, c_errmsg := m\<rparr>) = clear_error conn" "clear_error (clear_error conn) = clear_error conn"
  by (simp_all add: clear_error_def set_error_def set_error_context_def set_error_info_from_sqerr_def Let_def)

locale link_relation =
  fixes R :: "link \<Rightarrow> link \<Rightarrow> bool"
  assumes unchanged: "R k k"
    and composed: "R k k1 \<Longrightarrow> R k1 k2 \<Longrightarrow> R k k2"
    and read_exact: "R k (snd (read_exact n k))"
    and look_ahead: "R k (snd (sqli_tcp_peek n k))"
    and diagnosed: "clear_error conn = clear_error (k_conn k) \<Longrightarrow> R k (k\<lparr>k_conn := conn\<rparr>)"
begin

lemma keeps_pure: "keeps R (\<lambda>k. (x, k))" "keeps R (Pair x)"
  by (simp_all add: keeps_def unchanged)

lemma keeps_case: "keeps R m \<Longrightarrow> (\<And>x. keeps R (f x)) \<Longrightarrow> keeps R (\<lambda>k. case m k of (x, k) \<Rightarrow> f x k)"
  by (auto simp: keeps_def split: prod.splits) (metis composed snd_conv)

lemma keeps_and_then: "keeps R m \<Longrightarrow> (\<And>x. keeps R (f x)) \<Longrightarrow> keeps R (and_then m f)"
  unfolding and_then_def by (auto simp: keeps_def split: prod.splits sum.splits) (metis composed snd_conv)+

lemma keeps_diagnosed:
  "(\<And>k. clear_error (c k) = clear_error (k_conn k)) \<Longrightarrow> keeps R (\<lambda>k. (x, k\<lparr>k_conn := c k\<rparr>))"
  by (simp add: keeps_def diagnosed)

lemma keeps_diagnosed_before:
  "keeps R m \<Longrightarrow> (\<And>k. clear_error (c k) = clear_error (k_conn k)) \<Longrightarrow> keeps R (\<lambda>k. m (k\<lparr>k_conn := c k\<rparr>))"
proof -
  assume m: "keeps R m" and c: "\<And>k. clear_error (c k) = clear_error (k_conn k)"
  have "R k (snd (m (k\<lparr>k_conn := c k\<rparr>)))" for k
    using composed [OF diagnosed [OF c]] m by (simp add: keeps_def)
  then show ?thesis by (simp add: keeps_def)
qed

lemma keeps_read_exact: "keeps R (read_exact n)"
  by (simp add: keeps_def read_exact)

lemma keeps_peek: "keeps R (sqli_tcp_peek n)" "keeps R (sqli_peek_bytes n)"
  by (simp_all add: keeps_def look_ahead unchanged sqli_peek_bytes_def)

lemma keeps_numbers: "keeps R read_be16" "keeps R read_be32" "keeps R (read_bytes n)"
proof -
  have number: "keeps R (\<lambda>k. case read_exact n k of ((rc, bytes), k) \<Rightarrow> (f rc bytes, k))" for n and f :: "_ \<Rightarrow> _ \<Rightarrow> 'x"
    using read_exact [of _ n] by (auto simp: keeps_def split: prod.splits) (metis snd_conv)
  show "keeps R read_be16" "keeps R read_be32" "keeps R (read_bytes n)"
    unfolding read_be16_def [abs_def] read_be32_def [abs_def] read_bytes_def [abs_def] by (rule number)+
qed

lemma keeps_drain_bytes: "keeps R (drain_bytes n)"
proof -
  have "R k (snd (drain_bytes n k))" for k
  proof (induction n k rule: drain_bytes.induct)
    case (1 count k)
    obtain rc bytes k1 where r: "read_exact (min count 256) k = ((rc, bytes), k1)" by (metis prod.collapse)
    moreover have "R k k1" using read_exact [of k "min count 256"] r by simp
    ultimately show ?case
      using 1 [OF _ refl r [symmetric] refl] composed [of k k1] unchanged
      by (subst drain_bytes.simps) (auto simp: Let_def)
  qed
  then show ?thesis by (simp add: keeps_def)
qed

lemmas keeps_steps = keeps_reduced keeps_pure keeps_numbers keeps_read_exact keeps_drain_bytes keeps_peek keeps_and_then keeps_if
  keeps_sum keeps_prod keeps_case keeps_diagnosed

lemma keeps_cost: "keeps R receive_cost"
  unfolding receive_cost_def by (intro keeps_steps)

lemma keeps_sq_info: "keeps R drain_sq_info"
proof -
  have "R k (snd (drain_sq_info k))" for k
  proof (induction k rule: drain_sq_info.induct)
    case (1 k)
    obtain x k1 where r1: "read_be16 k = (x, k1)" by fastforce
    obtain y k2 where r2: "read_be16 k1 = (y, k2)" by fastforce
    have steps: "R k k1" "R k1 k2" "\<And>n. R k2 (snd (drain_bytes n k2))"
      using keeps_numbers(1) keeps_drain_bytes r1 r2 unfolding keeps_def by (metis snd_conv)+
    show ?case
    proof (cases x)
      case (Inl rc)
      then show ?thesis using r1 steps(1) by (subst drain_sq_info.simps) simp
    next
      case item: (Inr item)
      show ?thesis
      proof (cases "item = 0 \<or> (\<exists>rc. y = Inl rc)")
        case True
        then show ?thesis using r1 r2 item steps(1) composed [OF steps(1,2)] by (subst drain_sq_info.simps) auto
      next
        case False
        then obtain len where len: "item \<noteq> 0" "y = Inr len" by (cases y) auto
        obtain rc k3 where r3: "drain_bytes (len + len mod 2) k2 = (rc, k3)" by fastforce
        have "R k k3" using steps composed r3 by (metis snd_conv)
        then show ?thesis
          using 1 [OF r1 [symmetric] item len(1) r2 [symmetric] len(2) r3 [symmetric]] r1 r2 r3 item len composed
          by (subst drain_sq_info.simps) auto
      qed
    qed
  qed
  then show ?thesis by (simp add: keeps_def)
qed

lemma keeps_trailing_message: "keeps R (trailing_message op)"
proof -
  have "R k (snd (trailing_message op k))" for k
  proof -
    obtain x k1 where r: "read_be16 k = (x, k1)" by (metis prod.collapse)
    have "R k k1" using keepsD [OF keeps_numbers(1) r] .
    moreover have "R k (snd (receive_cost k))" "R k (snd (drain_sq_info k))"
      using keeps_cost keeps_sq_info by (simp_all add: keeps_def)
    moreover have "snd (case x of Inl rc \<Rightarrow> (rc, k1) | Inr flags \<Rightarrow> (SQLI_OK, k1)) = k1" by (cases x) simp_all
    ultimately show ?thesis by (simp add: trailing_message_def r unchanged)
  qed
  then show ?thesis by (simp add: keeps_def)
qed

lemma keeps_trailing: "R k (drain_trailing k)"
proof (induction k rule: drain_trailing.induct)
  case (1 k)
  obtain ahead k1 where p: "sqli_peek_bytes 2 k = (ahead, k1)" by (metis prod.collapse)
  obtain x k2 where r: "read_be16 k1 = (x, k2)" by (metis prod.collapse)
  obtain rc k3 where m: "trailing_message (be_value 256 (map unat ahead)) k2 = (rc, k3)" by (metis prod.collapse)
  have R: "R k k1" "R k1 k2" "R k2 k3"
    using keepsD [OF keeps_peek(2) p] keepsD [OF keeps_numbers(1) r] keepsD [OF keeps_trailing_message m] .
  have "drain_trailing k =
      (if length ahead \<noteq> 2 \<or>
         be_value 256 (map unat ahead) \<notin> {SQLI_SQ_COST, SQLI_SQ_INFO, SQLI_SQ_DBOPEN_FLAGS, SQLI_SQ_EOT} then k1
       else case x of Inl rc \<Rightarrow> k2 | Inr op \<Rightarrow> if rc \<noteq> SQLI_OK then k3 else drain_trailing k3)"
    by (subst drain_trailing.simps) (simp add: p r m split: sum.split)
  moreover have "R k3 (drain_trailing k3)"
    if "\<not> (length ahead \<noteq> 2 \<or>
         be_value 256 (map unat ahead) \<notin> {SQLI_SQ_COST, SQLI_SQ_INFO, SQLI_SQ_DBOPEN_FLAGS, SQLI_SQ_EOT})"
      "x = Inr op" "rc = SQLI_OK" for op
    using 1 [OF p [symmetric] that(1) r [symmetric] that(2) m [symmetric]] that(3) by simp
  moreover have far: "R k k2" "R k k3" using composed [OF R(1,2)] composed [OF composed [OF R(1,2)] R(3)] .
  ultimately show ?case using R(1) composed [OF far(2)] by (simp split: sum.split)
qed

lemma keeps_descriptor_string: "keeps R (receive_descriptor_string env d)"
  unfolding receive_descriptor_string_def by (intro keeps_steps)

lemma keeps_receive_field: "keeps R (receive_descriptor_field env d f)"
  unfolding receive_descriptor_field_def Let_def by (intro keeps_steps keeps_descriptor_string)

lemma keeps_receive_fields: "keeps R (receive_fields env d fs)"
proof (induction fs arbitrary: d)
  case (Cons f fs)
  have "receive_fields env d (f # fs) = (\<lambda>k. and_then (receive_descriptor_field env d f)
      (\<lambda>(f, d). and_then (receive_fields env d fs) (\<lambda>(fs, d) k. (Inr (f # fs, d), k))) k)"
    by (simp add: fun_eq_iff)
  then show ?case using Cons by (simp only:) (intro keeps_steps keeps_receive_field)
qed (simp add: keeps_def unchanged)

lemma keeps_description: "keeps R (receive_description env)"
  unfolding receive_description_def Let_def by (intro keeps_steps keeps_receive_fields)

lemma keeps_describe: "keeps R (receive_describe env r)"
  unfolding receive_describe_def Let_def by (intro keeps_steps keeps_description)

lemma keeps_tuple: "keeps R (receive_tuple env r)"
  unfolding receive_tuple_def Let_def by (intro keeps_steps) simp_all

lemma keeps_done: "keeps R (receive_done env r)"
proof -
  have "keeps R done_tail" unfolding done_tail_def Let_def by (intro keeps_steps keeps_cost)
  moreover have "keeps R (\<lambda>k. (x, drain_trailing k))" for x :: "sqli_status \<times> result" by (simp add: keeps_def keeps_trailing)
  ultimately show ?thesis unfolding receive_done_def Let_def by (intro keeps_steps)
qed

lemma keeps_insertdone: "keeps R (receive_insertdone r)"
proof -
  have "keeps R (insertdone_tail n)" for n
  proof (induction n)
    case (Suc n)
    then show ?case unfolding insertdone_tail.simps [abs_def] by (intro keeps_steps)
  qed (simp add: keeps_def unchanged)
  then show ?thesis unfolding receive_insertdone_def Let_def by (intro keeps_steps)
qed

lemma keeps_read_str: "keeps R (read_str n)"
  unfolding read_str_def Let_def by (intro keeps_steps)

lemma keeps_error: "keeps R (sqli_receive_error env r)"
proof -
  have "keeps R (error_texts env code)" for code unfolding error_texts_def by (intro keeps_steps keeps_read_str)
  moreover have "keeps R peek_after_error"
    unfolding peek_after_error_def by (simp add: keeps_def unchanged look_ahead)
  moreover have "keeps R (\<lambda>k. (x, if c then snd (read_be16 k) else k))" for c and x :: "sqli_status \<times> result"
    using keeps_numbers(1) by (simp add: keeps_def unchanged)
  ultimately show ?thesis
    unfolding sqli_receive_error_def Let_def by (intro keeps_steps keeps_diagnosed_before) simp_all
qed

lemma keeps_eot: "keeps R (receive_eot env n r)"
proof -
  have branch: "keeps R m \<Longrightarrow> keeps R m' \<Longrightarrow> keeps R (\<lambda>k. if c k then m k else m' k)"
    for c and m m' :: "link \<Rightarrow> bool \<times> link" by (simp add: keeps_def)
  have "keeps R (more_to_come env)" unfolding more_to_come_def by (rule branch) (intro keeps_steps)+
  moreover have "receive_eot env n r = (\<lambda>k. case more_to_come env k of (ahead, k) \<Rightarrow> (\<lambda>k. ((SQLI_OK,
      if \<not> ahead \<and> can_end_group n r (c_error_context (k_conn k)) then r\<lparr>rs_eof := True\<rparr> else r), k)) k)"
    by (simp add: receive_eot_def fun_eq_iff)
  moreover have "keeps R (\<lambda>k. ((SQLI_OK,
      if \<not> ahead \<and> can_end_group n r (c_error_context (k_conn k)) then r\<lparr>rs_eof := True\<rparr> else r), k))" for ahead
    by (simp add: keeps_def unchanged)
  ultimately show ?thesis by (simp only:) (rule keeps_case)
qed

lemma keeps_command: "keeps R receive_command"
  unfolding receive_command_def by (intro keeps_steps)

lemma keeps_dbopen: "keeps R receive_dbopen"
  unfolding receive_dbopen_def by (intro keeps_steps)

lemma keeps_unknown: "keeps R (unknown_opcode env opcode r)"
proof -
  have "R k (snd (unknown_opcode env opcode r k))" for k
  proof -
    obtain ahead k1 where p: "sqli_tcp_peek 8 k = (ahead, k1)" by (metis prod.collapse)
    have "\<exists>c. snd (unknown_opcode env opcode r k) = k1\<lparr>k_conn := c\<rparr> \<and> clear_error c = clear_error (k_conn k1)"
      unfolding unknown_opcode_def Let_def p prod.case snd_conv by (rule exI, rule conjI, rule refl, rule clear_error_diagnostics(4))
    moreover have "R k k1" using look_ahead [of k 8] p by simp
    ultimately show ?thesis using composed diagnosed by metis
  qed
  then show ?thesis by (simp add: keeps_def)
qed

lemma keeps_keeping: "keeps R m \<Longrightarrow> keeps R (\<lambda>k. keeping r (m k))"
  unfolding keeping_def by (intro keeps_steps)

lemma keeps_skip: "keeps R m \<Longrightarrow> keeps R (\<lambda>k. skip_value (m k))"
  unfolding skip_value_def by (intro keeps_steps)

lemma keeps_dispatch_message: "keeps R (dispatch_message env n opcode r)"
  unfolding dispatch_message_def
  by (intro keeps_if keeps_keeping keeps_skip keeps_command keeps_dbopen keeps_unknown keeps_and_then keeps_numbers keeps_describe keeps_tuple keeps_done keeps_error keeps_pure
      keeps_eot keeps_insertdone keeps_cost keeps_sq_info)

end

section \<open>The loop ends\<close>

lemma read_exact_shrinks: "pending (snd (read_exact n k)) \<le> pending k"
  by (metis read_exact_pending(1) le_add1 prod.collapse)

lemma pending_conn: "pending (k\<lparr>k_conn := conn\<rparr>) = pending k"
  by (simp add: pending_def)

interpretation shrinking: link_relation "\<lambda>k k'. pending k' \<le> pending k"
  by unfold_locales (auto simp: read_exact_shrinks pending_conn)

abbreviation shrinks :: "(link \<Rightarrow> 'x \<times> link) \<Rightarrow> bool" where
  "shrinks \<equiv> keeps (\<lambda>k k'. pending k' \<le> pending k)"

lemmas shrinks_intros = shrinking.keeps_steps

function dispatch_loop :: "dispatch_env \<Rightarrow> int \<Rightarrow> result \<Rightarrow> link \<Rightarrow> (sqli_status \<times> result) \<times> link" where
  "dispatch_loop env start_rows r k =
     (if rs_eof r then ((SQLI_OK, r), k)
      else case read_be16 k of
        (Inl rc, k) \<Rightarrow> ((rc, r), k)
      | (Inr opcode, k) \<Rightarrow>
          (case dispatch_message env start_rows opcode r k of
             ((rc, r), k) \<Rightarrow> if rc \<noteq> SQLI_OK then ((rc, r), k) else dispatch_loop env start_rows r k))"
  by pat_completeness auto

termination
proof (relation "measure (\<lambda>(env, start_rows, r, k). pending k)", goal_cases)
  case (2 env start_rows r k x k1 opcode rr k2 rc r2)
  have "pending k1 + 2 = pending k" using read_be16_pending(1) [of k opcode k1] 2(2,3) by simp
  moreover have "pending k2 \<le> pending k1"
    using keepsD [OF shrinking.keeps_dispatch_message, of env start_rows opcode r k1] 2(4) by metis
  ultimately show ?case by simp
qed simp

declare dispatch_loop.simps [simp del]

text \<open>The call without a result is an error.\<close>

definition sqli_receive_dispatch ::
  "dispatch_env \<Rightarrow> result option \<Rightarrow> link \<Rightarrow> (sqli_status \<times> result option) \<times> link" where
  "sqli_receive_dispatch env p k =
     (case p of None \<Rightarrow> ((SQLI_INVALID_STATE, None), k)
      | Some r \<Rightarrow> (case dispatch_loop env (rs_row_count r) r k of ((rc, r), k) \<Rightarrow> ((rc, Some r), k)))"

section \<open>What a dispatch keeps of the connection\<close>

context link_relation
begin

lemma keeps_dispatch_loop: "R k (snd (dispatch_loop env n r k))"
proof (induction env n r k rule: dispatch_loop.induct)
  case (1 env n r k)
  obtain x k1 where op: "read_be16 k = (x, k1)" by (metis prod.collapse)
  have k1: "R k k1" using keepsD [OF keeps_numbers(1) op] .
  show ?case
  proof (cases "rs_eof r \<or> (\<exists>rc. x = Inl rc)")
    case True
    then show ?thesis using op k1 unchanged by (cases x) (auto simp: dispatch_loop.simps)
  next
    case False
    then obtain opcode where x: "\<not> rs_eof r" "x = Inr opcode" by (cases x) auto
    obtain rc r2 k2 where m: "dispatch_message env n opcode r k1 = ((rc, r2), k2)" by (metis prod.collapse)
    have k2: "R k k2" using composed [OF k1 keepsD [OF keeps_dispatch_message m]] .
    show ?thesis
    proof (cases "rc = SQLI_OK")
      case True
      have "R k2 (snd (dispatch_loop env n r2 k2))"
        using 1 [OF x(1) op [symmetric] x(2) m [symmetric] refl] True by simp
      then show ?thesis using composed [OF k2] True op x m by (subst dispatch_loop.simps) simp
    next
      case False
      then show ?thesis using k2 op x m by (subst dispatch_loop.simps) simp
    qed
  qed
qed

lemma keeps_dispatch: "keeps R (sqli_receive_dispatch env p)"
proof -
  have "R k (snd (sqli_receive_dispatch env p k))" for k
  proof (cases p)
    case (Some r)
    obtain y k1 where d: "dispatch_loop env (rs_row_count r) r k = (y, k1)" by (metis prod.collapse)
    then have "R k k1" by (metis keeps_dispatch_loop snd_conv)
    then show ?thesis using d Some by (cases y) (simp add: sqli_receive_dispatch_def)
  qed (simp add: sqli_receive_dispatch_def unchanged)
  then show ?thesis by (simp add: keeps_def)
qed

end

lemma read_exact_diagnoses: "clear_error (k_conn (snd (read_exact n k))) = clear_error (k_conn k)"
  by (simp add: read_exact_def Let_def split: prod.split read_outcome.split)

interpretation diagnosing: link_relation "\<lambda>k k'. clear_error (k_conn k') = clear_error (k_conn k)"
  by unfold_locales (simp_all add: read_exact_diagnoses sqli_tcp_peek_def split: list.split)

end
