(* ===== verification/Peer.thy ===== *)
theory Peer
  imports Dispatch
begin

text \<open>
  Requests and replies on one connection: the socket of theory \<open>Link\<close> with its other direction. The
  outcomes of the next writes are inputs; the messages written completely are recorded. The last
  field is the mark of a connection that must not be used any more.
\<close>

record peer =
  p_link :: link
  p_sends :: "nat \<Rightarrow> bool"
  p_sent :: "byte list list"
  p_discarded :: bool

text \<open>
  A call of \<open>sqli_tcp_send\<close> and its comparison with the length that was asked for, whose outcome is the
  next of \<open>p_sends\<close>. The call refuses a negative descriptor and an empty message.
\<close>

definition peer_send :: "byte list \<Rightarrow> peer \<Rightarrow> bool \<times> peer" where
  "peer_send buf p =
     (if c_socket_fd (k_conn (p_link p)) < 0 \<or> buf = [] then (False, p)
      else
        let sent = p_sends p 0
        in (sent, p\<lparr>p_sends := \<lambda>n. p_sends p (Suc n), p_sent := (if sent then p_sent p @ [buf] else p_sent p)\<rparr>))"

text \<open>Several messages, up to the first that fails.\<close>

fun send_all :: "byte list list \<Rightarrow> peer \<Rightarrow> sqli_status \<times> peer" where
  "send_all [] p = (SQLI_OK, p)"
| "send_all (buf # bufs) p =
     (case peer_send buf p of (sent, p) \<Rightarrow> if sent then send_all bufs p else (SQLI_IO_ERROR, p))"

definition on_link :: "(link \<Rightarrow> 'a \<times> link) \<Rightarrow> peer \<Rightarrow> 'a \<times> peer" where
  "on_link m p = (case m (p_link p) of (x, k) \<Rightarrow> (x, p\<lparr>p_link := k\<rparr>))"

definition peer_conn :: "(sqli_conn \<Rightarrow> sqli_conn) \<Rightarrow> peer \<Rightarrow> peer" where
  "peer_conn f p = p\<lparr>p_link := (p_link p)\<lparr>k_conn := f (k_conn (p_link p))\<rparr>\<rparr>"

text \<open>
  A result structure set to zero. Its cursor type and holdability are no value of their types in C; nothing
  that is done with such a result reads them.
\<close>

definition zero_result :: result where
  "zero_result = \<lparr>rs_descriptor = None, rs_columns = [], rs_rows_affected = 0, rs_generated_serial = 0,
     rs_generated_serial8 = 0, rs_has_generated_serial = False, rs_has_generated_serial8 = False, rs_statement_type = 0,
     rs_warnings = 0, rs_stmt_id = 0, rs_cursor_type = SQLI_CURSOR_FORWARD_ONLY, rs_holdability = SQLI_CURSOR_CLOSE_AT_COMMIT,
     rs_commit_epoch = 0, rs_rollback_epoch = 0, rs_rows = None, rs_arena_len = 0, rs_arena_cap = 0, rs_row_count = 0,
     rs_row_capacity = 0, rs_cursor = 0, rs_absolute_row_num = 0, rs_at_before_first = False, rs_at_after_last = False,
     rs_tuple_bytes_total = 0, rs_tuple_count = 0, rs_tuple = None, rs_current_row = 0, rs_eof = False, rs_error_code = 0,
     rs_saw_done = False, rs_saw_error = False, rs_cache = None, rs_cache_row = 0, rs_fetch_status = SQLI_OK,
     rs_ret_type_sent = False, rs_fetch_buf_size = 0\<rparr>"

lemma peer_send_link [simp]: "p_link (snd (peer_send buf p)) = p_link p"
  by (simp add: peer_send_def Let_def)

lemma send_all_link: "send_all bufs p = (rc, p') \<Longrightarrow> p_link p' = p_link p"
proof (induction bufs arbitrary: p)
  case (Cons buf bufs)
  obtain ok p1 where s: "peer_send buf p = (ok, p1)" by (metis prod.collapse)
  then have "p_link p1 = p_link p" using peer_send_link [of buf p] by simp
  then show ?case using Cons s by (auto split: if_splits)
qed simp

lemma send_all_status: "send_all bufs p = (rc, p') \<Longrightarrow> rc = SQLI_OK \<or> rc = SQLI_IO_ERROR"
  by (induction bufs p rule: send_all.induct) (auto split: prod.splits if_splits)

text \<open>After a success every message has been written, in order.\<close>

lemma send_all_sent: "send_all bufs p = (SQLI_OK, p') \<Longrightarrow> p_sent p' = p_sent p @ bufs"
proof (induction bufs arbitrary: p)
  case (Cons buf bufs)
  obtain ok p1 where s: "peer_send buf p = (ok, p1)" by (metis prod.collapse)
  moreover have ok using Cons.prems s by (auto split: if_splits)
  moreover have "ok \<Longrightarrow> p_sent p1 = p_sent p @ [buf]"
    using s by (auto simp: peer_send_def Let_def split: if_splits)
  ultimately show ?case using Cons by simp
qed simp

text \<open>A connection that takes everything that is written to it.\<close>

definition willing :: "peer \<Rightarrow> bool" where
  "willing p \<longleftrightarrow> 0 \<le> c_socket_fd (k_conn (p_link p)) \<and> p_sends p = (\<lambda>n. True)"

lemma send_all_succeeds: "willing p \<Longrightarrow> [] \<notin> set bufs \<Longrightarrow> send_all bufs p = (SQLI_OK, p\<lparr>p_sent := p_sent p @ bufs\<rparr>)"
proof (induction bufs arbitrary: p)
  case (Cons buf bufs)
  then have "peer_send buf p = (True, p\<lparr>p_sent := p_sent p @ [buf]\<rparr>)" by (auto simp: peer_send_def willing_def)
  moreover have "willing (p\<lparr>p_sent := p_sent p @ [buf]\<rparr>)" using Cons.prems(1) by (simp add: willing_def)
  ultimately show ?case using Cons by simp
qed simp

end
