(* ===== verification/Writer.thy ===== *)
theory Writer
  imports Peer
begin

text \<open>
  The requests of statements and cursors (src/src/sqli_protocol_write.c): the messages, the choice of
  the fetch buffer, and closing a statement on the server. The settings of the connection that these
  functions read, the character conversion and whether the structures of a call can be allocated are inputs.
\<close>

record client_env =
  ce_dispatch :: dispatch_env
  ce_encode :: "string \<Rightarrow> byte list fallible"
  ce_cursor_type :: sqli_cursor_type
  ce_holdability :: sqli_cursor_holdability
  ce_fetch_buf_size :: nat
  ce_target_rows :: nat
  ce_alloc :: bool

text \<open>The low bits of an int.\<close>

definition uint16 :: "int \<Rightarrow> nat" where "uint16 i = nat (i mod 2 ^ 16)"
definition uint32 :: "int \<Rightarrow> nat" where "uint32 i = nat (i mod 2 ^ 32)"

section \<open>Messages\<close>

definition id_message :: "int \<Rightarrow> byte list" where
  "id_message stmt_id = net16 SQLI_SQ_ID @ net16 (uint16 stmt_id)"

definition sqli_send_eot :: "peer \<Rightarrow> sqli_status \<times> peer" where
  "sqli_send_eot p = send_all [net16 SQLI_SQ_EOT] p"

definition count_qmarks :: "string \<Rightarrow> nat" where
  "count_qmarks sql = min (length (filter (\<lambda>c. c = CHR ''?'') sql)) 0xFFFF"

text \<open>The outcome of sending the pad byte is not looked at.\<close>

definition sqli_send_prepare :: "client_env \<Rightarrow> string \<Rightarrow> peer \<Rightarrow> sqli_status \<times> peer" where
  "sqli_send_prepare env sql p =
     (case ce_encode env sql of
        Inl rc \<Rightarrow> (rc, p)
      | Inr text_bytes \<Rightarrow>
          let len = length text_bytes
          in case send_all [net16 SQLI_SQ_PREPARE @ net16 (count_qmarks sql),
                 if de_remove_64k_limit (ce_dispatch env) then net32 len else net16 len, text_bytes] p of
               (rc, p) \<Rightarrow>
                 if rc \<noteq> SQLI_OK then (rc, p)
                 else
                   let p = (if odd len then snd (peer_send [0] p) else p)
                   in send_all [net16 SQLI_SQ_NDESCRIBE @ net16 SQLI_SQ_WANTDONE @ net16 SQLI_SQ_EOT] p)"

definition sqli_send_execute :: "int \<Rightarrow> peer \<Rightarrow> sqli_status \<times> peer" where
  "sqli_send_execute stmt_id p =
     send_all [id_message stmt_id @ net16 SQLI_SQ_EXECUTE @ net16 SQLI_SQ_EOT] p"

definition curname :: "byte list" where
  "curname = map of_char ''_ifxc000000000000''"

definition open_messages :: "int \<Rightarrow> sqli_cursor_type \<Rightarrow> sqli_cursor_holdability \<Rightarrow> byte list list" where
  "open_messages stmt_id cursor_type holdability =
     [id_message stmt_id @ net16 3 @ net16 (length curname), curname] @
     (if odd (length curname) then [[0]] else []) @
     (if cursor_type = SQLI_CURSOR_SCROLL_INSENSITIVE then [net16 SQLI_SQ_SCROLL] else []) @
     (if holdability = SQLI_CURSOR_HOLD_OVER_COMMIT then [net16 SQLI_SQ_HOLD] else []) @
     [net16 6, net16 SQLI_SQ_EOT]"

definition sqli_send_open :: "int \<Rightarrow> sqli_cursor_type \<Rightarrow> sqli_cursor_holdability \<Rightarrow> peer \<Rightarrow> sqli_status \<times> peer" where
  "sqli_send_open stmt_id cursor_type holdability p = send_all (open_messages stmt_id cursor_type holdability) p"

section \<open>The fetch buffer\<close>

text \<open>The type of a column as a byte; a code that names no type is kept in the flags.\<close>

definition type_byte :: "column_info \<Rightarrow> nat" where
  "type_byte c = (case ci_type c of Some t \<Rightarrow> type_code t | None \<Rightarrow> ci_flags c mod 256)"

definition result_has_variable_columns :: "result \<Rightarrow> bool" where
  "result_has_variable_columns r \<longleftrightarrow>
     list_ex (\<lambda>c. ci_type c \<in> Some ` {SQLI_TYPE_VARCHAR, SQLI_TYPE_NVCHAR, SQLI_TYPE_TEXT, SQLI_TYPE_BYTE, SQLI_TYPE_DECIMAL,
       SQLI_TYPE_MONEY, SQLI_TYPE_DATETIME, SQLI_TYPE_INTERVAL, SQLI_TYPE_BLOB, SQLI_TYPE_CLOB}) (rs_columns r)"

definition result_has_extended_columns :: "result \<Rightarrow> bool" where
  "result_has_extended_columns r \<longleftrightarrow>
     list_ex (\<lambda>c. ci_type c \<in> Some ` {SQLI_TYPE_LVARCHAR, SQLI_TYPE_BLOB, SQLI_TYPE_CLOB, SQLI_TYPE_BOOL, SQLI_TYPE_DBOOLEAN} \<or>
       type_byte c > 18 \<and> ci_type c \<noteq> Some SQLI_TYPE_BIGINT \<and> ci_type c \<noteq> Some SQLI_TYPE_BIGSERIAL) (rs_columns r)"

definition sqli_is_variable_type :: "sqli_column_type option \<Rightarrow> bool" where
  "sqli_is_variable_type type \<longleftrightarrow>
     type \<in> Some ` {SQLI_TYPE_VARCHAR, SQLI_TYPE_NVCHAR, SQLI_TYPE_TEXT, SQLI_TYPE_BYTE, SQLI_TYPE_LVARCHAR, SQLI_TYPE_DECIMAL,
       SQLI_TYPE_MONEY, SQLI_TYPE_DATETIME, SQLI_TYPE_INTERVAL, SQLI_TYPE_BLOB, SQLI_TYPE_CLOB}"

fun payload_bytes :: "sqli_column_type \<Rightarrow> nat \<Rightarrow> nat" where
  "payload_bytes SQLI_TYPE_BOOL n = 1"
| "payload_bytes SQLI_TYPE_DBOOLEAN n = 1"
| "payload_bytes SQLI_TYPE_SMALLINT n = 2"
| "payload_bytes SQLI_TYPE_INT n = 4"
| "payload_bytes SQLI_TYPE_DATE n = 4"
| "payload_bytes SQLI_TYPE_SERIAL n = 4"
| "payload_bytes SQLI_TYPE_FLOAT n = 8"
| "payload_bytes SQLI_TYPE_BIGINT n = 8"
| "payload_bytes SQLI_TYPE_BIGSERIAL n = 8"
| "payload_bytes SQLI_TYPE_INT8 n = 10"
| "payload_bytes SQLI_TYPE_SERIAL8 n = 10"
| "payload_bytes SQLI_TYPE_CHAR n = (if n > 0 then n else 16)"
| "payload_bytes SQLI_TYPE_NCHAR n = (if n > 0 then n else 16)"
| "payload_bytes SQLI_TYPE_VARCHAR n = 1 + (if n = 0 \<or> n > 65535 then 64 else n)"
| "payload_bytes SQLI_TYPE_NVCHAR n = 1 + (if n = 0 \<or> n > 65535 then 64 else n)"
| "payload_bytes SQLI_TYPE_LVARCHAR n = 5 + (if n = 0 \<or> n > 1048576 then 256 else n)"
| "payload_bytes SQLI_TYPE_TEXT n = 2 + (if n = 0 \<or> n > 1048576 then 256 else n)"
| "payload_bytes SQLI_TYPE_BYTE n = 2 + (if n = 0 \<or> n > 1048576 then 256 else n)"
| "payload_bytes SQLI_TYPE_BLOB n = 2 + (if n = 0 \<or> n > 1048576 then 256 else n)"
| "payload_bytes SQLI_TYPE_CLOB n = 2 + (if n = 0 \<or> n > 1048576 then 256 else n)"
| "payload_bytes SQLI_TYPE_DECIMAL n = (let p = n div 256 mod 256; p = (if p = 0 \<or> p > 32 then 16 else p) in (p + 3) div 2)"
| "payload_bytes SQLI_TYPE_MONEY n = (let p = n div 256 mod 256; p = (if p = 0 \<or> p > 32 then 16 else p) in (p + 3) div 2)"
| "payload_bytes SQLI_TYPE_DATETIME n = (let q = n div 256 mod 256; q = (if q = 0 then 8 else q) in 1 + (q + 1) div 2)"
| "payload_bytes SQLI_TYPE_INTERVAL n = (let q = n div 256 mod 256; q = (if q = 0 then 8 else q) in 1 + (q + 1) div 2)"
| "payload_bytes _ n = 8"

definition sqli_column_payload_bytes :: "column_info \<Rightarrow> nat" where
  "sqli_column_payload_bytes c = (case ci_type c of None \<Rightarrow> 8 | Some t \<Rightarrow> payload_bytes t (ci_encoded_length c))"

definition column_end :: "column_info \<Rightarrow> nat" where
  "column_end c = ci_col_start_pos c + sqli_column_payload_bytes c"

definition sqli_estimate_tuple_bytes :: "result \<Rightarrow> nat" where
  "sqli_estimate_tuple_bytes r =
     (if rs_columns r = [] then 256
      else
        let max_end = foldl max 0 (map column_end (rs_columns r)); final = last (rs_columns r);
            max_end = (if sqli_is_variable_type (ci_type final) then max max_end (column_end final + 5) else max_end)
        in if max_end > 0 then max_end else 256)"

definition sqli_choose_fetch_bufsize :: "client_env \<Rightarrow> result \<Rightarrow> nat" where
  "sqli_choose_fetch_bufsize env r =
     (let max_buf = (if ce_fetch_buf_size env \<ge> 1024 then ce_fetch_buf_size env else 4194304);
          seen = (if rs_tuple_count r > 0 then rs_tuple_bytes_total r div rs_tuple_count r else 0);
          max_tuple = max seen (sqli_estimate_tuple_bytes r);
          max_tuple = (if max_tuple = 0 then 256 else max_tuple);
          desired = u64 (max_tuple * ce_target_rows env);
          desired = (if desired = 0 then if max_tuple \<le> 2048 then 4096 else if max_tuple \<le> 4096 then 8192 else max_tuple else desired)
      in min (max desired 1024) max_buf)"

section \<open>Fetching\<close>

definition ret_type_messages :: "result \<Rightarrow> byte list list" where
  "ret_type_messages r =
     (net16 SQLI_SQ_RET_TYPE @ net16 1 @ net16 (length (rs_columns r))) #
     map (\<lambda>c. net16 (type_byte c) @ net32 (ci_encoded_length c)) (rs_columns r)"

text \<open>The types of variable columns are announced once.\<close>

definition send_ret_type :: "result \<Rightarrow> peer \<Rightarrow> (sqli_status \<times> result) \<times> peer" where
  "send_ret_type r p =
     (if result_has_variable_columns r \<and> \<not> result_has_extended_columns r \<and> \<not> rs_ret_type_sent r
      then (case send_all (ret_type_messages r) p of
        (rc, p) \<Rightarrow> ((rc, if rc = SQLI_OK then r\<lparr>rs_ret_type_sent := True\<rparr> else r), p))
      else ((SQLI_OK, r), p))"

definition send_fetch_request :: "client_env \<Rightarrow> int \<Rightarrow> (nat \<Rightarrow> byte list) \<Rightarrow> result \<Rightarrow> peer \<Rightarrow> (sqli_status \<times> result) \<times> peer" where
  "send_fetch_request env stmt_id request r p =
     (case send_all [id_message stmt_id] p of
        (rc, p) \<Rightarrow>
          if rc \<noteq> SQLI_OK then ((rc, r), p)
          else (case send_ret_type r p of
            ((rc, r), p) \<Rightarrow>
              if rc \<noteq> SQLI_OK then ((rc, r), p)
              else
                let size = sqli_choose_fetch_bufsize env r; r = r\<lparr>rs_fetch_buf_size := size\<rparr>
                in case send_all [request size, net16 SQLI_SQ_EOT] p of (rc, p) \<Rightarrow> ((rc, r), p)))"

definition sqli_send_fetch :: "client_env \<Rightarrow> int \<Rightarrow> result \<Rightarrow> peer \<Rightarrow> (sqli_status \<times> result) \<times> peer" where
  "sqli_send_fetch env stmt_id =
     send_fetch_request env stmt_id (\<lambda>size. net16 SQLI_SQ_NFETCH @ net32 size @ [0, 0])"

definition sqli_send_scroll_fetch ::
  "client_env \<Rightarrow> int \<Rightarrow> nat \<Rightarrow> int \<Rightarrow> result \<Rightarrow> peer \<Rightarrow> (sqli_status \<times> result) \<times> peer" where
  "sqli_send_scroll_fetch env stmt_id scroll_code index =
     send_fetch_request env stmt_id (\<lambda>size. net16 SQLI_SQ_SFETCH @ net16 scroll_code @ net32 (uint32 index) @ net32 size)"

section \<open>Closing\<close>

text \<open>A call of \<open>poll\<close>; readiness is what the next look at the socket would find.\<close>

definition poll_in :: "peer \<Rightarrow> bool \<times> peer" where
  "poll_in p =
     (case k_peeks (p_link p) of
        [] \<Rightarrow> (False, p)
      | n # peeks \<Rightarrow> (n > 0, p\<lparr>p_link := (p_link p)\<lparr>k_peeks := peeks\<rparr>\<rparr>))"

text \<open>A reply into a result of its own.\<close>

definition dispatch_aside :: "client_env \<Rightarrow> peer \<Rightarrow> sqli_status \<times> peer" where
  "dispatch_aside env p =
     (case on_link (sqli_receive_dispatch (ce_dispatch env) (Some zero_result)) p of ((rc, r), p) \<Rightarrow> (rc, p))"

text \<open>Up to \<open>n\<close> message groups that are already there, under the given context, if any.\<close>

fun drain_groups :: "client_env \<Rightarrow> string option \<Rightarrow> nat \<Rightarrow> peer \<Rightarrow> sqli_status \<times> peer" where
  "drain_groups env context 0 p = (SQLI_OK, p)"
| "drain_groups env context (Suc n) p =
     (case (if sqli_protocol_has_buffered_data (p_link p) then (True, p) else poll_in p) of
        (ready, p) \<Rightarrow>
          if \<not> ready then (SQLI_OK, p)
          else
            let p = (case context of None \<Rightarrow> p | Some c \<Rightarrow> peer_conn (set_error_context c 0) p)
            in (case dispatch_aside env p of
                  (rc, p) \<Rightarrow> if rc \<noteq> SQLI_OK then (rc, p) else drain_groups env context n p))"

definition sqli_drain_stmt_control_tail :: "client_env \<Rightarrow> peer \<Rightarrow> peer" where
  "sqli_drain_stmt_control_tail env p =
     (if c_socket_fd (k_conn (p_link p)) < 0 then p else snd (drain_groups env (Some ''stmt_control/drain'') 8 p))"

definition sqli_send_stmt_control :: "client_env \<Rightarrow> int \<Rightarrow> nat \<Rightarrow> peer \<Rightarrow> sqli_status \<times> peer" where
  "sqli_send_stmt_control env stmt_id opcode p =
     (case send_all [id_message stmt_id @ net16 opcode @ net16 SQLI_SQ_EOT]
         (peer_conn (set_error_context ''stmt_control'' opcode) p) of
        (rc, p) \<Rightarrow>
          if rc \<noteq> SQLI_OK then (rc, p)
          else (case dispatch_aside env p of
            (rc, p) \<Rightarrow> (rc, if rc = SQLI_OK then sqli_drain_stmt_control_tail env p else p)))"

definition sqli_send_stmt_close_cursor :: "client_env \<Rightarrow> int \<Rightarrow> peer \<Rightarrow> sqli_status \<times> peer" where
  "sqli_send_stmt_close_cursor env stmt_id = sqli_send_stmt_control env stmt_id SQLI_SQ_CLOSE"

definition sqli_stmt_close_release :: "client_env \<Rightarrow> int \<Rightarrow> peer \<Rightarrow> peer" where
  "sqli_stmt_close_release env stmt_id p =
     snd (sqli_send_stmt_control env stmt_id SQLI_SQ_RELEASE (snd (sqli_send_stmt_close_cursor env stmt_id p)))"

end
