(* ===== verification/ErrorClass.thy ===== *)
theory ErrorClass
  imports Conn Uri
begin

text \<open>
  The classification of the last error and the advice to retry (src/src/sqli_conn.c). The connection and
  the output arguments are not NULL.
\<close>

datatype sqli_error_class =
    SQLI_ERROR_CLASS_NONE | SQLI_ERROR_CLASS_AUTH | SQLI_ERROR_CLASS_NETWORK | SQLI_ERROR_CLASS_PROTOCOL
  | SQLI_ERROR_CLASS_SERVER | SQLI_ERROR_CLASS_DATA | SQLI_ERROR_CLASS_UNKNOWN

definition sqlcode_is_retryable_network :: "int \<Rightarrow> bool" where
  "sqlcode_is_retryable_network sqlcode \<longleftrightarrow> sqlcode \<in> {-908, -912, -913, -932, -936}"

definition sqlcode_is_nonretryable_data :: "int \<Rightarrow> bool" where
  "sqlcode_is_nonretryable_data sqlcode \<longleftrightarrow> sqlcode \<in> {-201, -206, -23101, -23197}"

definition isamcode_is_retryable :: "int \<Rightarrow> bool" where
  "isamcode_is_retryable isamcode \<longleftrightarrow> \<bar>isamcode\<bar> \<in> {107, 143, 154, 7351}"

definition context_indicates_network :: "string \<Rightarrow> bool" where
  "context_indicates_network context \<longleftrightarrow> context = ''connect/tcp'' \<or> context = ''connect/unix''"

definition message_indicates_network :: "string \<Rightarrow> bool" where
  "message_indicates_network msg \<longleftrightarrow>
     list_ex (\<lambda>part. strstr_split part msg \<noteq> None)
       [''TCP connection failed'', ''Unix socket connection failed'', ''failed to connect'', ''failed to read'',
        ''failed to send'', ''socket not connected'', ''broken pipe'', ''connection reset'']"

definition sqli_error_classify :: "sqli_conn \<Rightarrow> sqli_error_class \<times> bool" where
  "sqli_error_classify conn =
     (let e = c_error_info conn in
      if \<not> ei_has_error e then (SQLI_ERROR_CLASS_NONE, False)
      else if ei_status e = SQLI_AUTH_FAIL then (SQLI_ERROR_CLASS_AUTH, False)
      else if ei_status e = SQLI_TIMEOUT \<or> ei_status e = SQLI_IO_ERROR then (SQLI_ERROR_CLASS_NETWORK, True)
      else if ei_status e = SQLI_PROTO_ERROR \<and> ei_unknown_opcode e \<noteq> 0 then (SQLI_ERROR_CLASS_PROTOCOL, False)
      else if ei_status e = SQLI_ERR \<and> (context_indicates_network (ei_context e) \<or> message_indicates_network (ei_message e))
        then (SQLI_ERROR_CLASS_NETWORK, True)
      else if sqlcode_is_retryable_network (ei_sqlcode e) \<or> isamcode_is_retryable (ei_isamcode e)
        then (SQLI_ERROR_CLASS_NETWORK, True)
      else if take 2 (ei_sqlstate e) = ''40'' then (SQLI_ERROR_CLASS_SERVER, True)
      else if sqlcode_is_nonretryable_data (ei_sqlcode e) then (SQLI_ERROR_CLASS_DATA, False)
      else if ei_status e = SQLI_PROTO_ERROR then (SQLI_ERROR_CLASS_PROTOCOL, False)
      else if ei_sqlcode e \<noteq> 0 \<or> ei_isamcode e \<noteq> 0 then (SQLI_ERROR_CLASS_SERVER, False)
      else (SQLI_ERROR_CLASS_UNKNOWN, False))"

definition sqli_error_is_retryable :: "sqli_conn \<Rightarrow> bool" where
  "sqli_error_is_retryable conn = snd (sqli_error_classify conn)"

text \<open>Whether to retry, and after how many milliseconds; the exponent stops growing at 12.\<close>

definition backoff_ms :: "nat \<Rightarrow> nat \<Rightarrow> nat \<Rightarrow> nat" where
  "backoff_ms base_ms max_ms attempt = min (base_ms * 2 ^ (if attempt > 12 then 12 else attempt)) max_ms"

definition sqli_retry_recommend :: "sqli_conn \<Rightarrow> nat \<Rightarrow> bool \<times> nat" where
  "sqli_retry_recommend conn attempt =
     (case sqli_error_classify conn of
        (klass, retryable) \<Rightarrow>
          if \<not> retryable then (False, 0)
          else (True,
            if klass = SQLI_ERROR_CLASS_NETWORK then backoff_ms 250 60000 attempt
            else if klass = SQLI_ERROR_CLASS_SERVER then backoff_ms 100 5000 attempt
            else backoff_ms 200 30000 attempt))"

definition sqli_error :: "sqli_conn \<Rightarrow> string option" where
  "sqli_error conn = (if c_errmsg conn \<noteq> [] then Some (c_errmsg conn) else None)"

section \<open>Facts\<close>

lemma backoff_bounds:
  assumes "0 < base_ms" "base_ms \<le> max_ms"
  shows "base_ms \<le> backoff_ms base_ms max_ms attempt \<and> backoff_ms base_ms max_ms attempt \<le> max_ms"
  using assms by (simp add: backoff_ms_def)

lemma backoff_mono: "attempt \<le> later \<Longrightarrow> backoff_ms base_ms max_ms attempt \<le> backoff_ms base_ms max_ms later"
  unfolding backoff_ms_def by (intro min.mono mult_le_mono power_increasing) auto

lemma classified_class:
  "sqli_error_classify conn = (klass, True) \<Longrightarrow> klass = SQLI_ERROR_CLASS_NETWORK \<or> klass = SQLI_ERROR_CLASS_SERVER"
  by (auto simp: sqli_error_classify_def Let_def split: if_splits)

text \<open>
  No retry is recommended without an error, and a retry is recommended after 100 milliseconds at the
  least and a minute at the most; the delay of a later attempt is not shorter.
\<close>

lemma retry_delay_bounds:
  assumes "sqli_retry_recommend conn attempt = (True, delay)"
  shows "ei_has_error (c_error_info conn)" "100 \<le> delay" "delay \<le> 60000"
proof -
  obtain klass where k: "sqli_error_classify conn = (klass, True)"
    using assms by (auto simp: sqli_retry_recommend_def split: prod.splits if_splits)
  then show "ei_has_error (c_error_info conn)" by (auto simp: sqli_error_classify_def Let_def split: if_splits)
  have "delay = backoff_ms 250 60000 attempt \<or> delay = backoff_ms 100 5000 attempt"
    using assms k classified_class [OF k] by (auto simp: sqli_retry_recommend_def)
  then show "100 \<le> delay" "delay \<le> 60000"
    using backoff_bounds [of 250 60000 attempt] backoff_bounds [of 100 5000 attempt] by auto
qed

lemma retry_delay_mono:
  assumes "attempt \<le> later"
  shows "snd (sqli_retry_recommend conn attempt) \<le> snd (sqli_retry_recommend conn later)"
  using backoff_mono [OF assms] by (simp add: sqli_retry_recommend_def split: prod.split)

end
