(* ===== verification/Fetchblob.thy ===== *)
theory Fetchblob
  imports Peer
begin

text \<open>
  Fetching a legacy blob of the current row (the middle part of src/src/sqli_dispatch.c): the request
  with the descriptor of the blob, and the loop over the chunks of the reply. The connection of the
  result is the one of the peer.
\<close>

definition sqli_is_legacy_lob_type :: "sqli_column_type option \<Rightarrow> bool" where
  "sqli_is_legacy_lob_type type \<longleftrightarrow> type = Some SQLI_TYPE_TEXT \<or> type = Some SQLI_TYPE_BYTE"

definition sqli_is_lob_like_type :: "sqli_column_type option \<Rightarrow> bool" where
  "sqli_is_lob_like_type type \<longleftrightarrow>
     sqli_is_legacy_lob_type type \<or> type = Some SQLI_TYPE_BLOB \<or> type = Some SQLI_TYPE_CLOB"

text \<open>The bytes collected, and the capacity of their buffer.\<close>

type_synonym accum = "byte list \<times> nat"

definition append_dynamic_bytes :: "(nat \<Rightarrow> bool) \<Rightarrow> byte list \<Rightarrow> accum \<Rightarrow> accum fallible" where
  "append_dynamic_bytes mem src acc =
     (case acc of (buf, cap) \<Rightarrow>
        if src = [] then Inr acc
        else if length buf > SIZE_MAX - length src then Inl SQLI_ALLOC_FAIL
        else let need = length buf + length src
          in if need > cap \<or> cap = 0 then
               (case grow_capacity_loop (if cap = 0 then 256 else cap) need of
                  None \<Rightarrow> Inl SQLI_ALLOC_FAIL
                | Some cap \<Rightarrow> if mem cap then Inr (buf @ src, cap) else Inl SQLI_ALLOC_FAIL)
             else Inr (buf @ src, cap))"

definition read_padded_chunk :: "(nat \<Rightarrow> bool) \<Rightarrow> nat \<Rightarrow> accum \<Rightarrow> link \<Rightarrow> accum fallible \<times> link" where
  "read_padded_chunk mem n acc =
     (if n > 4096 \<and> \<not> mem n then Pair (Inl SQLI_ALLOC_FAIL)
      else and_then (read_bytes n) (\<lambda>bytes. and_then (read_bytes (n mod 2)) (\<lambda>pad k.
        (append_dynamic_bytes mem bytes acc, k))))"

lemma shrinks_padded_chunk: "shrinks (read_padded_chunk mem n acc)"
  unfolding read_padded_chunk_def by (intro shrinks_intros)

text \<open>The chunks of a smart-blob reply, until \<open>remaining\<close> bytes have come.\<close>

function lodata_chunks :: "(nat \<Rightarrow> bool) \<Rightarrow> nat \<Rightarrow> accum \<Rightarrow> link \<Rightarrow> accum fallible \<times> link" where
  "lodata_chunks mem remaining acc k =
     (if remaining = 0 then (Inr acc, k)
      else case read_be16 k of
        (Inl rc, k) \<Rightarrow> (Inl rc, k)
      | (Inr n, k) \<Rightarrow>
          if n > remaining then (Inl SQLI_PROTO_ERROR, k)
          else (case read_padded_chunk mem n acc k of
            (Inl rc, k) \<Rightarrow> (Inl rc, k)
          | (Inr acc, k) \<Rightarrow> lodata_chunks mem (remaining - n) acc k))"
  by pat_completeness auto

termination
proof (relation "measure (\<lambda>(mem, remaining, acc, k). pending k)", goal_cases)
  case (2 mem remaining acc k x k1 n y k2 acc2)
  have "pending k1 + 2 = pending k" using read_be16_pending(1) [of k n k1] 2(2,3) by simp
  moreover have "pending k2 \<le> pending k1"
    using keepsD [OF shrinks_padded_chunk, of mem n acc k1] 2(5) by metis
  ultimately show ?case by simp
qed simp

declare lodata_chunks.simps [simp del]

lemma lodata_chunks_pending: "lodata_chunks mem remaining acc k = (x, k') \<Longrightarrow> pending k' \<le> pending k"
proof (induction mem remaining acc k arbitrary: x rule: lodata_chunks.induct)
  case (1 mem remaining acc k)
  obtain y k1 where r: "read_be16 k = (y, k1)" by (metis prod.collapse)
  have k1: "pending k1 \<le> pending k" by (rule read_be16_pending(2) [OF r])
  show ?case
  proof (cases "remaining = 0 \<or> (\<exists>rc. y = Inl rc) \<or> (\<exists>n. y = Inr n \<and> n > remaining)")
    case True
    then show ?thesis
      using 1(2) r k1 by (cases "remaining = 0"; subst (asm) lodata_chunks.simps) auto
  next
    case False
    then obtain n where y: "remaining \<noteq> 0" "y = Inr n" "\<not> n > remaining" by (cases y) auto
    obtain z k2 where c: "read_padded_chunk mem n acc k1 = (z, k2)" by (metis prod.collapse)
    have k2: "pending k2 \<le> pending k1" by (rule keepsD [OF shrinks_padded_chunk c])
    show ?thesis
    proof (cases z)
      case (Inl rc)
      then have "k' = k2" using 1(2) r y c by (subst (asm) lodata_chunks.simps) simp
      then show ?thesis using k1 k2 by simp
    next
      case (Inr acc2)
      then have "lodata_chunks mem (remaining - n) acc2 k2 = (x, k')"
        using 1(2) r y c by (subst (asm) lodata_chunks.simps) simp
      then have "pending k' \<le> pending k2"
        by (rule 1(1) [OF y(1) r [symmetric] y(2,3) c [symmetric] Inr])
      then show ?thesis using k1 k2 by simp
    qed
  qed
qed

definition receive_lodata :: "(nat \<Rightarrow> bool) \<Rightarrow> accum \<Rightarrow> link \<Rightarrow> accum fallible \<times> link" where
  "receive_lodata mem acc =
     and_then read_be16 (\<lambda>op_type. and_then read_be32 (\<lambda>file_size.
       if signed32 file_size < 0 then Pair (Inl SQLI_PROTO_ERROR) else lodata_chunks mem file_size acc))"

lemma shrinks_lodata: "shrinks (receive_lodata mem acc)"
proof -
  have "shrinks (lodata_chunks mem n acc)" for n by (rule keepsI) (rule lodata_chunks_pending)
  then show ?thesis unfolding receive_lodata_def by (intro shrinks_intros)
qed

text \<open>
  The messages that the loop goes on after; \<open>None\<close> ends the loop. A DONE is 22 bytes here, whatever the
  width of the row ids.
\<close>

definition blob_message :: "(nat \<Rightarrow> bool) \<Rightarrow> nat \<Rightarrow> accum \<Rightarrow> link \<Rightarrow> accum fallible \<times> link" where
  "blob_message mem opcode acc =
     (let plain = (\<lambda>m k. case m k of (rc, k) \<Rightarrow> (if rc \<noteq> SQLI_OK then Inl rc else Inr acc, k))
      in if opcode = SQLI_SQ_COST then plain receive_cost
      else if opcode = SQLI_SQ_INFO then plain drain_sq_info
      else if opcode = SQLI_SQ_BLOB then and_then read_be16 (\<lambda>n. read_padded_chunk mem n acc)
      else if opcode = SQLI_SQ_LODATA then receive_lodata mem acc
      else if opcode = SQLI_SQ_DONE then plain (drain_bytes 22)
      else Pair (Inl SQLI_PROTO_ERROR))"

lemma shrinks_blob_message: "shrinks (blob_message mem opcode acc)"
proof -
  have "shrinks m \<Longrightarrow> shrinks (\<lambda>k. case m k of (rc, k) \<Rightarrow> (if rc \<noteq> SQLI_OK then Inl rc else Inr acc, k))"
    for m :: "link \<Rightarrow> sqli_status \<times> link" by (intro shrinks_intros)
  then show ?thesis
    unfolding blob_message_def Let_def
    by (intro shrinks_intros shrinks_padded_chunk shrinks_lodata shrinking.keeps_cost shrinking.keeps_sq_info)
qed

text \<open>An error of the server is received into a result of its own.\<close>

definition blob_error :: "dispatch_env \<Rightarrow> link \<Rightarrow> sqli_status \<times> link" where
  "blob_error env k =
     (case sqli_receive_error env zero_result k of
        ((rc, r), k) \<Rightarrow> (if rc = SQLI_OK then SQLI_PROTO_ERROR else rc, k))"

function blob_loop :: "dispatch_env \<Rightarrow> accum \<Rightarrow> link \<Rightarrow> byte list fallible \<times> link" where
  "blob_loop env acc k =
     (case read_be16 k of
        (Inl rc, k) \<Rightarrow> (Inl rc, k)
      | (Inr opcode, k) \<Rightarrow>
          if opcode = SQLI_SQ_EOT then (Inr (fst acc), k)
          else if opcode = SQLI_SQ_ERR then (case blob_error env k of (rc, k) \<Rightarrow> (Inl rc, k))
          else (case blob_message (de_mem env) opcode acc k of
            (Inl rc, k) \<Rightarrow> (Inl rc, k)
          | (Inr acc, k) \<Rightarrow> blob_loop env acc k))"
  by pat_completeness auto

termination
proof (relation "measure (\<lambda>(env, acc, k). pending k)", goal_cases)
  case (2 env acc k x k1 opcode y k2 acc2)
  have "pending k1 + 2 = pending k" using read_be16_pending(1) [of k opcode k1] 2(1,2) by simp
  moreover have "pending k2 \<le> pending k1"
    using keepsD [OF shrinks_blob_message, of "de_mem env" opcode acc k1] 2(5) by metis
  ultimately show ?case by simp
qed simp

declare blob_loop.simps [simp del]

text \<open>The messages of a request; a statement id has two bytes.\<close>

definition fetchblob_request :: "int \<Rightarrow> byte list \<Rightarrow> byte list list" where
  "fetchblob_request stmt_id blob =
     [[0, u8 SQLI_SQ_ID, u8 (nat (stmt_id div 256 mod 256)), u8 (nat (stmt_id mod 256))], [0, u8 SQLI_SQ_FETCHBLOB], blob] @
     (if odd (length blob) then [[0]] else []) @ [[0, u8 SQLI_SQ_EOT]]"

definition sqli_fetchblob_materialize ::
  "dispatch_env \<Rightarrow> result option \<Rightarrow> nat \<Rightarrow> peer \<Rightarrow> byte list fallible \<times> peer" where
  "sqli_fetchblob_materialize env r col_index p =
     (case r of None \<Rightarrow> (Inl SQLI_INVALID_STATE, p)
      | Some r \<Rightarrow>
          let conn = k_conn (p_link p)
          in if col_index \<ge> length (rs_columns r) \<or> \<not> sqli_is_lob_like_type (ci_type (rs_columns r ! col_index)) \<or>
               c_state conn \<noteq> SQLI_CONN_READY \<or> c_socket_fd conn < 0 \<or> rs_stmt_id r < 0 \<or> rs_tuple r = None
             then (Inl SQLI_INVALID_STATE, p)
             else case sqli_tuple_locate_column (rs_columns r ! col_index) (the (rs_tuple r)) of
               Inl rc \<Rightarrow> (Inl SQLI_INVALID_STATE, p)
             | Inr (start, len, width) \<Rightarrow>
                 if len = 0 \<or> start + len > length (the (rs_tuple r)) then (Inl SQLI_INVALID_STATE, p)
                 else case send_all (fetchblob_request (rs_stmt_id r) (slice (the (rs_tuple r)) start len)) p of
                   (rc, p) \<Rightarrow> if rc \<noteq> SQLI_OK then (Inl rc, p) else on_link (blob_loop env ([], 0)) p)"

end
