(* ===== verification/Query.thy ===== *)
theory Query
  imports Writer ErrorClass Fetchblob
begin

text \<open>
  Running a statement (src/src/sqli_query.c): prepare, the implicit transaction, then open and fetch for a
  query, or execute for any other statement. The connection and the other pointers are not NULL; the log
  and the wait between two attempts are left out. \<open>sqli_query_stream\<close>, which delivers rows to a callback
  between two fetches, is not modelled.
\<close>

section \<open>Options\<close>

text \<open>The values of an application, which need not be among those of the types.\<close>

record query_options =
  qo_cursor_type :: int
  qo_holdability :: int

definition cursor_type_of :: "int \<Rightarrow> sqli_cursor_type option" where
  "cursor_type_of code =
     (if code = 1003 then Some SQLI_CURSOR_FORWARD_ONLY else if code = 1004 then Some SQLI_CURSOR_SCROLL_INSENSITIVE else None)"

definition holdability_of :: "int \<Rightarrow> sqli_cursor_holdability option" where
  "holdability_of code =
     (if code = 1 then Some SQLI_CURSOR_HOLD_OVER_COMMIT else if code = 2 then Some SQLI_CURSOR_CLOSE_AT_COMMIT else None)"

definition report :: "string \<Rightarrow> nat \<Rightarrow> string \<Rightarrow> peer \<Rightarrow> peer" where
  "report context opcode msg = peer_conn (\<lambda>conn. set_error msg (set_error_context context opcode conn))"

definition sqli_validate_query_options ::
  "client_env \<Rightarrow> query_options option \<Rightarrow> peer \<Rightarrow> (sqli_cursor_type \<times> sqli_cursor_holdability) fallible \<times> peer" where
  "sqli_validate_query_options env options p =
     (case options of
        None \<Rightarrow> (Inr (ce_cursor_type env, ce_holdability env), p)
      | Some options \<Rightarrow>
          (case cursor_type_of (qo_cursor_type options) of
             None \<Rightarrow> (Inl SQLI_INVALID_STATE, report ''query/options'' 0 ''invalid cursor type'' p)
           | Some cursor_type \<Rightarrow>
               (case holdability_of (qo_holdability options) of
                  None \<Rightarrow> (Inl SQLI_INVALID_STATE, report ''query/options'' 0 ''invalid cursor holdability'' p)
                | Some holdability \<Rightarrow> (Inr (cursor_type, holdability), p))))"

section \<open>The implicit transaction\<close>

text \<open>The operations of theory \<open>Transaction\<close> that a statement uses, on the bytes of the connection.\<close>

definition peer_drain_txn_response :: "client_env \<Rightarrow> peer \<Rightarrow> sqli_status \<times> peer" where
  "peer_drain_txn_response env p =
     (case on_link (sqli_receive_dispatch (ce_dispatch env) (Some zero_result)) p of
        ((rc, r), p) \<Rightarrow> (if rc = SQLI_OK \<and> rs_saw_error (the r) then SQLI_PROTO_ERROR else rc, p))"

definition peer_begin :: "client_env \<Rightarrow> peer \<Rightarrow> sqli_status \<times> peer" where
  "peer_begin env p =
     (let p = peer_conn clear_error p
      in case verify_txn_ready ''begin'' (k_conn (p_link p)) of
           (rc, conn) \<Rightarrow>
             let p = peer_conn (\<lambda>_. conn) p
             in if rc \<noteq> SQLI_OK then (rc, p)
             else if c_in_transaction conn
               then (SQLI_INVALID_STATE, report ''begin'' SQLI_SQ_BEGIN ''transaction already in progress'' p)
             else (case peer_send [0, u8 SQLI_SQ_EOT, 0, u8 SQLI_SQ_BEGIN] p of
               (sent, p) \<Rightarrow>
                 if \<not> sent then (SQLI_IO_ERROR, report ''begin'' SQLI_SQ_BEGIN ''failed to send BEGIN'' p)
                 else (case peer_drain_txn_response env (peer_conn (set_error_context ''begin/recv'' SQLI_SQ_BEGIN) p) of
                   (rc, p) \<Rightarrow>
                     if rc \<noteq> SQLI_OK then (rc, peer_conn (ensure_error ''failed to receive begin response'') p)
                     else (SQLI_OK, peer_conn (\<lambda>conn. clear_error (conn\<lparr>c_in_transaction := True\<rparr>)) p))))"

definition peer_autobegin :: "client_env \<Rightarrow> int \<Rightarrow> peer \<Rightarrow> sqli_status \<times> peer" where
  "peer_autobegin env statement_type p =
     (let conn = k_conn (p_link p)
      in if c_autocommit conn \<or> c_in_transaction conn then (SQLI_OK, p)
         else if data_statement statement_type then peer_begin env p
         else (SQLI_OK, p))"

section \<open>The phases of a statement\<close>

definition new_result :: "sqli_cursor_type \<Rightarrow> sqli_cursor_holdability \<Rightarrow> sqli_conn \<Rightarrow> result" where
  "new_result cursor_type holdability conn =
     zero_result\<lparr>rs_cursor_type := cursor_type, rs_holdability := holdability, rs_commit_epoch := c_commit_epoch conn,
       rs_rollback_epoch := c_rollback_epoch conn, rs_cursor := -1, rs_current_row := -1, rs_absolute_row_num := 0,
       rs_at_before_first := True, rs_at_after_last := False\<rparr>"

text \<open>What destroying a result (\<open>sqli_result.c\<close>) does to the connection: an open cursor is closed.\<close>

definition sqli_result_destroy :: "client_env \<Rightarrow> result \<Rightarrow> peer \<Rightarrow> peer" where
  "sqli_result_destroy env r p =
     (if c_state (k_conn (p_link p)) = SQLI_CONN_READY \<and> \<not> p_discarded p \<and> rs_statement_type r = 2 \<and> rs_stmt_id r \<ge> 0
      then sqli_stmt_close_release env (rs_stmt_id r) p else p)"

text \<open>A failed step: the result is gone.\<close>

definition give_up :: "client_env \<Rightarrow> sqli_status \<Rightarrow> result \<Rightarrow> peer \<Rightarrow> result fallible \<times> peer" where
  "give_up env rc r p = (Inl rc, sqli_result_destroy env r p)"

definition unseen :: "result \<Rightarrow> result" where
  "unseen r = r\<lparr>rs_saw_done := False, rs_saw_error := False\<rparr>"

text \<open>The reply to a request, under the context of the phase.\<close>

definition receive_phase :: "client_env \<Rightarrow> string \<Rightarrow> nat \<Rightarrow> string \<Rightarrow> result \<Rightarrow> peer \<Rightarrow> result fallible \<times> peer" where
  "receive_phase env context opcode msg r p =
     (case on_link (sqli_receive_dispatch (ce_dispatch env) (Some (unseen r))) (peer_conn (set_error_context context opcode) p) of
        ((rc, r), p) \<Rightarrow>
          if rc \<noteq> SQLI_OK then give_up env rc (the r) (peer_conn (ensure_error msg) p) else (Inr (the r), p))"

definition request_rows ::
  "client_env \<Rightarrow> sqli_cursor_type \<Rightarrow> int \<Rightarrow> int \<Rightarrow> result \<Rightarrow> peer \<Rightarrow> result fallible \<times> peer" where
  "request_rows env cursor_type stmt_id index r p =
     (case (if cursor_type = SQLI_CURSOR_SCROLL_INSENSITIVE then sqli_send_scroll_fetch env stmt_id 1 index r p
            else sqli_send_fetch env stmt_id r p) of
        ((rc, r), p) \<Rightarrow>
          if rc \<noteq> SQLI_OK then give_up env rc r (report ''query/fetch_send'' SQLI_SQ_NFETCH ''failed to send fetch'' p)
          else (Inr r, p))"

text \<open>The rounds end, since a reply that brings rows takes bytes off the connection.\<close>

lemma dispatch_loop_progress:
  assumes "dispatch_loop env n r k = ((rc, r'), k')"
  shows "pending k' \<le> pending k \<and> (r' = r \<or> pending k' < pending k)"
  using assms
proof (induction env n r k rule: dispatch_loop.induct)
  case (1 env n r k)
  show ?case
  proof (cases "rs_eof r")
    case True
    then show ?thesis using 1(2) by (simp add: dispatch_loop.simps)
  next
    case False
    obtain x k1 where x: "read_be16 k = (x, k1)" by (metis prod.collapse)
    show ?thesis
    proof (cases x)
      case (Inl e)
      then show ?thesis using 1(2) False x read_be16_pending(2) [OF x] by (subst (asm) dispatch_loop.simps) simp
    next
      case (Inr opcode)
      obtain rc2 r2 k2 where m: "dispatch_message env n opcode r k1 = ((rc2, r2), k2)" by (metis prod.collapse)
      have less: "pending k1 + 2 = pending k" "pending k2 \<le> pending k1"
        using read_be16_pending(1) [of k opcode k1] x Inr keepsD [OF shrinking.keeps_dispatch_message m] by simp_all
      have unfold: "dispatch_loop env n r k = (if rc2 \<noteq> SQLI_OK then ((rc2, r2), k2) else dispatch_loop env n r2 k2)"
        by (subst dispatch_loop.simps) (simp add: False x Inr m)
      have "pending k' \<le> pending k2"
      proof (cases "rc2 = SQLI_OK")
        case True
        then show ?thesis
          using 1(1) [OF False x [symmetric] Inr m [symmetric] refl] 1(2) unfold by simp
      next
        case False
        then show ?thesis using 1(2) unfold by simp
      qed
      then show ?thesis using less by simp
    qed
  qed
qed

lemma receive_phase_progress:
  assumes "receive_phase env context opcode msg r p = (Inr r', p')" "rs_row_count r' \<noteq> rs_row_count r"
  shows "pending (p_link p') < pending (p_link p)"
proof -
  have same: "pending (p_link (peer_conn f p)) = pending (p_link p)" for f by (simp add: peer_conn_def pending_def)
  obtain rc r1 k1 where d: "dispatch_loop (ce_dispatch env) (rs_row_count (unseen r)) (unseen r)
      (p_link (peer_conn (set_error_context context opcode) p)) = ((rc, r1), k1)"
    by (metis prod.collapse)
  then have "rc = SQLI_OK" "r' = r1" "p_link p' = k1"
    using assms(1) by (auto simp: receive_phase_def on_link_def sqli_receive_dispatch_def give_up_def split: if_splits)
  moreover have "r1 \<noteq> unseen r" using assms(2) \<open>r' = r1\<close> by (auto simp: unseen_def)
  ultimately show ?thesis using dispatch_loop_progress [OF d] same by simp
qed

lemma stmt_request_link:
  assumes "request_rows env cursor_type stmt_id index r p = (Inr r', p')"
  shows "p_link p' = p_link p \<and> rs_row_count r' = rs_row_count r"
proof -
  have typed: "send_ret_type r p = ((rc, r1), p1) \<Longrightarrow> p_link p1 = p_link p \<and> rs_row_count r1 = rs_row_count r" for rc r r1 p p1
    by (auto simp: send_ret_type_def dest: send_all_link split: if_splits prod.splits)
  have "send_fetch_request env stmt_id request r p = ((rc, r1), p1) \<Longrightarrow>
      p_link p1 = p_link p \<and> rs_row_count r1 = rs_row_count r" for rc r1 p1 request
    by (auto simp: send_fetch_request_def Let_def simp del: send_all.simps dest!: send_all_link typed split: if_splits prod.splits)
  then show ?thesis
    using assms by (auto simp: request_rows_def sqli_send_fetch_def sqli_send_scroll_fetch_def give_up_def split: if_splits prod.splits)
qed

text \<open>Fetching until a round brings no more rows.\<close>

function fetch_loop :: "client_env \<Rightarrow> sqli_cursor_type \<Rightarrow> int \<Rightarrow> result \<Rightarrow> peer \<Rightarrow> result fallible \<times> peer" where
  "fetch_loop env cursor_type stmt_id r p =
     (case receive_phase env ''query/fetch_recv'' SQLI_SQ_NFETCH ''error receiving fetch response'' r p of
        (Inl rc, p) \<Rightarrow> (Inl rc, p)
      | (Inr received, p) \<Rightarrow>
          if rs_row_count received \<le> rs_row_count r then (Inr received, p)
          else (case request_rows env cursor_type stmt_id (rs_row_count r + 1) (received\<lparr>rs_eof := False\<rparr>) p of
            (Inl rc, p) \<Rightarrow> (Inl rc, p)
          | (Inr received, p) \<Rightarrow> fetch_loop env cursor_type stmt_id received p))"
  by pat_completeness auto

termination
proof (relation "measure (\<lambda>(env, cursor_type, stmt_id, r, p). pending (p_link p))", goal_cases)
  case (2 env cursor_type stmt_id r p x p1 received y p2 requested)
  have "pending (p_link p1) < pending (p_link p)"
    using receive_phase_progress [of env _ _ _ r p received p1] 2(1-3) by simp
  moreover have "p_link p2 = p_link p1"
    using stmt_request_link [of env cursor_type stmt_id _ _ p1 requested p2] 2(4,5) by simp
  ultimately show ?case by simp
qed simp

declare fetch_loop.simps [simp del]

section \<open>Queries\<close>

definition has_lobs :: "result \<Rightarrow> bool" where
  "has_lobs r \<longleftrightarrow> list_ex (\<lambda>c. sqli_is_legacy_lob_type (ci_type c)) (rs_columns r)"

text \<open>The index of the first scroll fetch is 1.\<close>

definition run_select ::
  "client_env \<Rightarrow> sqli_cursor_type \<Rightarrow> sqli_cursor_holdability \<Rightarrow> result \<Rightarrow> peer \<Rightarrow> result fallible \<times> peer" where
  "run_select env cursor_type holdability r p =
     (let stmt_id = rs_stmt_id r
      in case sqli_send_open stmt_id cursor_type holdability p of
           (rc, p) \<Rightarrow>
             if rc \<noteq> SQLI_OK then give_up env rc r (report ''query/open_send'' SQLI_SQ_PREPARE ''failed to send open'' p)
             else
               and_then (receive_phase env ''query/open_recv'' SQLI_SQ_PREPARE ''error receiving open response'' r) (\<lambda>r.
               and_then (request_rows env cursor_type stmt_id 1 (r\<lparr>rs_eof := False\<rparr>)) (\<lambda>r.
               and_then (fetch_loop env cursor_type stmt_id r) (\<lambda>r p.
                 if \<not> has_lobs r \<and> cursor_type \<noteq> SQLI_CURSOR_SCROLL_INSENSITIVE
                 then (Inr (r\<lparr>rs_stmt_id := -1\<rparr>), sqli_stmt_close_release env stmt_id p) else (Inr r, p)))) p)"

section \<open>Other statements\<close>

text \<open>A look, a wait whose outcome is not used, and a second look.\<close>

definition execute_continues :: "peer \<Rightarrow> bool \<times> peer" where
  "execute_continues p =
     (if sqli_protocol_has_buffered_data (p_link p) then (True, p)
      else case on_link (sqli_tcp_peek 1) p of
        (ahead, p) \<Rightarrow>
          if ahead \<noteq> [] then (True, p) else (case on_link (sqli_tcp_peek 1) p of (ahead, p) \<Rightarrow> (ahead \<noteq> [], p)))"

text \<open>\<open>rounds\<close> is how many more rounds the guard allows.\<close>

fun execute_loop :: "client_env \<Rightarrow> nat \<Rightarrow> result \<Rightarrow> peer \<Rightarrow> result fallible \<times> peer" where
  "execute_loop env rounds r p =
     and_then (receive_phase env ''query/execute_recv'' SQLI_SQ_EXECUTE ''error receiving execute response'' r) (\<lambda>r p.
       if rs_saw_done r \<or> rs_saw_error r \<or> rs_eof r then (Inr r, p)
       else case execute_continues p of
         (again, p) \<Rightarrow>
           if \<not> again then (Inr r, p)
           else (case rounds of
             0 \<Rightarrow> give_up env SQLI_PROTO_ERROR r
                   (report ''query/execute_recv'' SQLI_SQ_EXECUTE ''execute response did not converge to DONE'' p)
           | Suc rounds \<Rightarrow> execute_loop env rounds r p)) p"

definition run_execute :: "client_env \<Rightarrow> result \<Rightarrow> peer \<Rightarrow> result fallible \<times> peer" where
  "run_execute env r p =
     (case sqli_send_execute (rs_stmt_id r) p of
        (rc, p) \<Rightarrow>
          if rc \<noteq> SQLI_OK then give_up env rc r (report ''query/execute_send'' SQLI_SQ_EXECUTE ''failed to send execute'' p)
          else and_then (execute_loop env 64 r) (\<lambda>r p.
            case drain_groups env None 8 p of
              (rc, p) \<Rightarrow>
                if rc \<noteq> SQLI_OK then give_up env rc r (peer_conn (ensure_error ''error draining execute tail response'') p)
                else (Inr r, peer_conn (sqli_track_transaction_statement (int (rs_statement_type r))) p)) p)"

text \<open>After the preparation: the implicit transaction, and the statement by its type.\<close>

definition run_prepared ::
  "client_env \<Rightarrow> sqli_cursor_type \<Rightarrow> sqli_cursor_holdability \<Rightarrow> result \<Rightarrow> peer \<Rightarrow> result fallible \<times> peer" where
  "run_prepared env cursor_type holdability r p =
     (case peer_autobegin env (int (rs_statement_type r)) p of
        (rc, p) \<Rightarrow>
          if rc \<noteq> SQLI_OK then give_up env rc r p
          else if rs_stmt_id r < 0 then
            give_up env SQLI_PROTO_ERROR r (report ''query/prepare_recv'' SQLI_SQ_PREPARE ''no statement ID from prepare'' p)
          else
            let r = r\<lparr>rs_eof := False\<rparr>
            in and_then (if rs_statement_type r = 2 then run_select env cursor_type holdability r else run_execute env r)
                 (\<lambda>r p. (Inr r, peer_conn clear_error p)) p)"

definition sqli_query_ex :: "client_env \<Rightarrow> string \<Rightarrow> query_options option \<Rightarrow> peer \<Rightarrow> result fallible \<times> peer" where
  "sqli_query_ex env sql options p =
     (let p = peer_conn clear_error p
      in if c_state (k_conn (p_link p)) \<noteq> SQLI_CONN_READY
         then (Inl SQLI_INVALID_STATE, report ''query/precheck'' 0 ''connection not ready'' p)
         else and_then (sqli_validate_query_options env options) (\<lambda>(cursor_type, holdability) p.
           if \<not> ce_alloc env then (Inl SQLI_ALLOC_FAIL, report ''query/alloc'' 0 ''memory allocation failed'' p)
           else
             let r = new_result cursor_type holdability (k_conn (p_link p))
             in case sqli_send_prepare env sql p of
                  (rc, p) \<Rightarrow>
                    if rc \<noteq> SQLI_OK
                    then (Inl rc, report ''query/prepare_send'' SQLI_SQ_PREPARE ''failed to send prepare'' p)
                    else and_then (receive_phase env ''query/prepare_recv'' SQLI_SQ_PREPARE ''error receiving prepare response'' r)
                           (run_prepared env cursor_type holdability) p) p)"

definition sqli_query :: "client_env \<Rightarrow> string \<Rightarrow> peer \<Rightarrow> result fallible \<times> peer" where
  "sqli_query env sql = sqli_query_ex env sql None"

section \<open>Retrying\<close>

definition isspace :: "char \<Rightarrow> bool" where
  "isspace c \<longleftrightarrow> (let n = of_char c :: nat in n = 32 \<or> (9 \<le> n \<and> n \<le> 13))"

definition toupper :: "char \<Rightarrow> char" where
  "toupper c = (let n = of_char c :: nat in if 97 \<le> n \<and> n \<le> 122 then char_of (n - 32) else c)"

text \<open>What follows the end of a comment, or nothing.\<close>

fun after_comment :: "string \<Rightarrow> string" where
  "after_comment (a # b # s) = (if a = CHR ''*'' \<and> b = CHR ''/'' then s else after_comment (b # s))"
| "after_comment s = []"

lemma length_after_comment: "length (after_comment s) \<le> length s"
  by (induction s rule: after_comment.induct) auto

text \<open>White space and comments before the first word.\<close>

function skip_blanks :: "string \<Rightarrow> string" where
  "skip_blanks s =
     (let s = dropWhile isspace s
      in if take 2 s = ''--'' then skip_blanks (dropWhile (\<lambda>c. c \<noteq> CHR 0x0A) (drop 2 s))
         else if take 2 s = ''/*'' then skip_blanks (after_comment (drop 2 s))
         else s)"
  by pat_completeness auto

termination
proof (relation "measure length", goal_cases)
  case (2 s t)
  have "2 \<le> length t" using 2(2) by (cases t rule: remdups_adj.cases) auto
  moreover have "length t \<le> length s" using length_dropWhile_le 2(1) by metis
  moreover have "length (dropWhile (\<lambda>c. c \<noteq> CHR 0x0A) (drop 2 t)) \<le> length (drop 2 t)" by (rule length_dropWhile_le)
  ultimately show ?case by simp
next
  case (3 s t)
  have "2 \<le> length t" using 3(3) by (cases t rule: remdups_adj.cases) auto
  moreover have "length t \<le> length s" using length_dropWhile_le 3(1) by metis
  moreover have "length (after_comment (drop 2 t)) \<le> length (drop 2 t)" by (rule length_after_comment)
  ultimately show ?case by simp
qed simp

declare skip_blanks.simps [simp del]

definition first_word :: "string \<Rightarrow> string" where
  "first_word s = map toupper (take 15 (takeWhile isalpha s))"

definition sqli_sql_is_read_only :: "string \<Rightarrow> bool" where
  "sqli_sql_is_read_only sql \<longleftrightarrow>
     first_word (skip_blanks sql) \<in> {''SELECT'', ''WITH'', ''SHOW'', ''DESCRIBE'', ''EXPLAIN'', ''VALUES''}"

function retry_loop :: "client_env \<Rightarrow> string \<Rightarrow> nat \<Rightarrow> nat \<Rightarrow> peer \<Rightarrow> result fallible \<times> peer" where
  "retry_loop env sql max_retries attempt p =
     (case sqli_query env sql p of
        (Inr r, p) \<Rightarrow> (Inr r, p)
      | (Inl rc, p) \<Rightarrow>
          if attempt \<ge> max_retries \<or> \<not> sqli_sql_is_read_only sql \<or> \<not> fst (sqli_retry_recommend (k_conn (p_link p)) attempt)
          then (Inl rc, p)
          else retry_loop env sql max_retries (attempt + 1) p)"
  by pat_completeness auto

termination by (relation "measure (\<lambda>(env, sql, max_retries, attempt, p). max_retries - attempt)") auto

declare retry_loop.simps [simp del]

definition sqli_query_with_retry :: "client_env \<Rightarrow> string \<Rightarrow> nat \<Rightarrow> peer \<Rightarrow> result fallible \<times> peer" where
  "sqli_query_with_retry env sql max_retries p = retry_loop env sql max_retries 0 p"

end
