(* ===== verification/Framing.thy ===== *)
theory Framing
  imports Dispatch
begin

text \<open>
  A reader that does not report an error takes only the bytes that it needs: it does the same when more
  arrives later, as long as a look at the socket shows nothing. So what is known of a reply that arrives
  alone holds of the replies to several requests, one after the other.
\<close>

definition then_arrives :: "arrival list \<Rightarrow> link \<Rightarrow> link" where
  "then_arrives later k = k\<lparr>k_arrivals := k_arrivals k @ later\<rparr>"

text \<open>A look at the socket shows nothing.\<close>

definition quiet :: "link \<Rightarrow> bool" where
  "quiet k \<longleftrightarrow> (\<forall>n \<in> set (k_peeks k). n = 0)"

definition reported :: "link \<Rightarrow> bool" where
  "reported k \<longleftrightarrow> ei_has_error (c_error_info (k_conn k))"

definition framed :: "(link \<Rightarrow> 'x \<times> link) \<Rightarrow> link \<Rightarrow> bool" where
  "framed m k \<longleftrightarrow>
     (case m k of (x, k') \<Rightarrow>
        (reported k \<longrightarrow> reported k') \<and> (quiet k \<longrightarrow> quiet k') \<and> (\<exists>taken. k_arrivals k = taken @ k_arrivals k') \<and>
        (quiet k \<and> \<not> reported k' \<longrightarrow> (\<forall>later. m (then_arrives later k) = (x, then_arrives later k'))))"

lemma framedI:
  assumes "m k = (x, k')" "reported k \<Longrightarrow> reported k'" "quiet k \<Longrightarrow> quiet k'" "k_arrivals k = taken @ k_arrivals k'"
    and "\<And>later. quiet k \<Longrightarrow> \<not> reported k' \<Longrightarrow> m (then_arrives later k) = (x, then_arrives later k')"
  shows "framed m k"
  using assms by (auto simp: framed_def)

lemma framedD:
  assumes "framed m k" "m k = (x, k')"
  shows "reported k \<Longrightarrow> reported k'" "quiet k \<Longrightarrow> quiet k'" "\<exists>taken. k_arrivals k = taken @ k_arrivals k'"
    "quiet k \<Longrightarrow> \<not> reported k' \<Longrightarrow> m (then_arrives later k) = (x, then_arrives later k')"
  using assms by (auto simp: framed_def)

lemma then_arrives_simps [simp]:
  "k_conn (then_arrives later k) = k_conn k" "k_buffer (then_arrives later k) = k_buffer k"
  "k_peeks (then_arrives later k) = k_peeks k" "k_arrivals (then_arrives later k) = k_arrivals k @ later"
  by (simp_all add: then_arrives_def)

section \<open>Sequencing\<close>

lemma framed_pure: "framed (\<lambda>k. (x, k)) k" "framed (Pair x) k"
  by (simp_all add: framed_def)

lemma framed_case:
  assumes "framed m k" "\<And>x k'. m k = (x, k') \<Longrightarrow> framed (f x) k'"
  shows "framed (\<lambda>k. case m k of (x, k) \<Rightarrow> f x k) k"
proof -
  obtain x k1 where m: "m k = (x, k1)" by (metis prod.collapse)
  obtain y k2 where f: "f x k1 = (y, k2)" by (metis prod.collapse)
  note 1 = framedD [OF assms(1) m] and 2 = framedD [OF assms(2) [OF m] f]
  obtain t1 t2 where "k_arrivals k = t1 @ k_arrivals k1" "k_arrivals k1 = t2 @ k_arrivals k2" using 1(3) 2(3) by blast
  moreover have "(case m (then_arrives later k) of (x, k) \<Rightarrow> f x k) = (y, then_arrives later k2)"
    if "quiet k" "\<not> reported k2" for later
    using 1(4) [OF that(1)] 1(2) [OF that(1)] 2(1,4) that(2) by (metis prod.case)
  ultimately show ?thesis
    by (intro framedI [where x = y and k' = k2 and taken = "t1 @ t2"]) (use m f 1 2 in auto)
qed

lemma framed_and_then:
  assumes "framed m k" "\<And>x k'. m k = (Inr x, k') \<Longrightarrow> framed (f x) k'"
  shows "framed (and_then m f) k"
proof -
  have "framed (\<lambda>k. case m k of (x, k) \<Rightarrow> (case x of Inl rc \<Rightarrow> (Inl rc, k) | Inr x \<Rightarrow> f x k)) k"
  proof (rule framed_case [OF assms(1)])
    fix x k'
    assume "m k = (x, k')"
    then show "framed (\<lambda>k. case x of Inl rc \<Rightarrow> (Inl rc, k) | Inr x \<Rightarrow> f x k) k'"
      using assms(2) by (cases x) (simp_all add: framed_pure)
  qed
  moreover have "and_then m f = (\<lambda>k. case m k of (x, k) \<Rightarrow> (case x of Inl rc \<Rightarrow> (Inl rc, k) | Inr x \<Rightarrow> f x k))"
    by (auto simp: and_then_def fun_eq_iff split: prod.split sum.split)
  ultimately show ?thesis by simp
qed

lemma framed_cong: "(\<And>k. m k = n k) \<Longrightarrow> framed n k \<Longrightarrow> framed m k"
  by (simp add: framed_def)

lemma framed_if: "framed m k \<Longrightarrow> framed n k \<Longrightarrow> framed (\<lambda>k. if c then m k else n k) k"
  by (simp add: framed_def)

lemma framed_if': "(c \<Longrightarrow> framed m k) \<Longrightarrow> (\<not> c \<Longrightarrow> framed n k) \<Longrightarrow> framed (\<lambda>k. if c then m k else n k) k"
  by (cases c) simp_all

text \<open>A test of what later arrivals do not change.\<close>

lemma framed_test:
  assumes "\<And>later. c (then_arrives later k) = c k" "c k \<Longrightarrow> framed m k" "\<not> c k \<Longrightarrow> framed n k"
  shows "framed (\<lambda>k. if c k then m k else n k) k"
  using assms by (auto simp: framed_def)

lemma framed_sum:
  "(\<And>e. y = Inl e \<Longrightarrow> framed (f e) k) \<Longrightarrow> (\<And>x. y = Inr x \<Longrightarrow> framed (g x) k) \<Longrightarrow>
   framed (\<lambda>k. case y of Inl e \<Rightarrow> f e k | Inr x \<Rightarrow> g x k) k"
  by (cases y) simp_all

lemma framed_prod: "(\<And>a b. y = (a, b) \<Longrightarrow> framed (f a b) k) \<Longrightarrow> framed (\<lambda>k. case y of (a, b) \<Rightarrow> f a b k) k"
  by (cases y) simp

lemma framed_reduced:
  "framed m k \<Longrightarrow> framed n k \<Longrightarrow> framed (if c then m else n) k"
  "(\<And>a b. y = (a, b) \<Longrightarrow> framed (f a b) k) \<Longrightarrow> framed (case y of (a, b) \<Rightarrow> f a b) k"
  by (cases c; simp) (cases y; simp)

text \<open>The result may depend on the connection.\<close>

lemma framed_value: "framed (\<lambda>k. (g (k_conn k), k)) k" "framed (\<lambda>k. (h (k_buffer k), k)) k"
  by (simp_all add: framed_def)

lemma framed_report:
  assumes "\<And>k. reported (k\<lparr>k_conn := c (k_conn k)\<rparr>)"
  shows "framed (\<lambda>k. (x, k\<lparr>k_conn := c (k_conn k)\<rparr>)) k"
  using assms by (simp add: framed_def quiet_def)

section \<open>Readers\<close>

lemma read_loop_framed:
  "read_loop n b arrivals = (outcome, got, b', arrivals') \<Longrightarrow>
   (\<exists>taken. arrivals = taken @ arrivals') \<and>
   (outcome = Complete \<longrightarrow> read_loop n b (arrivals @ later) = (Complete, got, b', arrivals' @ later))"
proof (induction n b arrivals arbitrary: outcome got b' arrivals' rule: read_loop.induct)
  case (1 n b)
  then show ?case by (cases later) (auto split: if_splits)
next
  case (2 n b a arrivals)
  show ?case
  proof (cases "n \<le> length b \<or> (\<forall>bytes. a = Bytes bytes \<longrightarrow> bytes = [])")
    case True
    then show ?thesis using 2(2) by (cases a) (auto split: if_splits)
  next
    case False
    then obtain bytes where a: "\<not> n \<le> length b" "a = Bytes bytes" "bytes \<noteq> []" by blast
    obtain o1 g1 b1 a1 where r: "read_loop (n - length b) bytes arrivals = (o1, g1, b1, a1)" by (metis prod.collapse)
    from 2(1) [OF a r] 2(2) a r show ?thesis by auto
  qed
qed

lemma framed_read_exact: "framed (read_exact n) k"
proof -
  obtain outcome g b a where r: "read_loop n (k_buffer k) (k_arrivals k) = (outcome, g, b, a)" by (metis prod.collapse)
  obtain taken where "k_arrivals k = taken @ a" using read_loop_framed [OF r] by blast
  moreover have "outcome = Complete \<Longrightarrow> read_loop n (k_buffer k) (k_arrivals k @ later) = (Complete, g, b, a @ later)" for later
    using read_loop_framed [OF r] by blast
  ultimately show ?thesis using r
    by (cases outcome)
      (auto intro!: framedI [where taken = taken] simp: read_exact_def Let_def reported_def quiet_def then_arrives_def)
qed

lemma framed_read:
  "framed (\<lambda>k. case read_exact n k of (x, k) \<Rightarrow> ((case x of (rc, bytes) \<Rightarrow> if rc \<noteq> SQLI_OK then Inl rc else Inr (f bytes)), k)) k"
  by (intro framed_case framed_read_exact framed_pure)

lemma framed_readers:
  "framed read_be16 k" "framed read_be32 k" "framed (read_bytes n) k"
proof -
  let ?f = "\<lambda>bytes. be_value 256 (map unat bytes)"
  show "framed read_be16 k"
    by (rule framed_cong [OF _ framed_read [where f = ?f and n = 2]]) (simp add: read_be16_def split: prod.split)
  show "framed read_be32 k"
    by (rule framed_cong [OF _ framed_read [where f = ?f and n = 4]]) (simp add: read_be32_def split: prod.split)
  show "framed (read_bytes n) k"
    by (rule framed_cong [OF _ framed_read [where f = "\<lambda>bytes. bytes" and n = n]]) (simp add: read_bytes_def split: prod.split)
qed

lemma framed_peek: "framed (sqli_tcp_peek n) k"
  by (rule framedI [where taken = "[]" and x = "fst (sqli_tcp_peek n k)" and k' = "snd (sqli_tcp_peek n k)"])
    (auto simp: sqli_tcp_peek_def reported_def quiet_def then_arrives_def split: list.splits arrival.splits)

lemma framed_peek_bytes: "framed (sqli_peek_bytes n) k"
  unfolding sqli_peek_bytes_def
  by (rule framed_test) (auto simp: framed_peek framed_value intro: framedI [where taken = "[]"])

lemmas framed_intros = framed_reduced framed_pure framed_read_exact framed_readers framed_peek framed_peek_bytes
  framed_and_then framed_if framed_sum framed_prod framed_case

lemma framed_drain_bytes: "framed (drain_bytes n) k"
proof (induction n arbitrary: k rule: less_induct)
  case (less n)
  show ?case
  proof (rule framed_cong)
    fix k
    show "drain_bytes n k = (if n = 0 then (SQLI_OK, k)
        else case read_exact (min n 256) k of (x, k) \<Rightarrow>
          (case x of (rc, bytes) \<Rightarrow> if rc \<noteq> SQLI_OK then (rc, k) else drain_bytes (n - min n 256) k))"
      by (subst drain_bytes.simps) (simp add: Let_def split: prod.split)
  next
    show "framed (\<lambda>k. if n = 0 then (SQLI_OK, k)
        else case read_exact (min n 256) k of (x, k) \<Rightarrow>
          (case x of (rc, bytes) \<Rightarrow> if rc \<noteq> SQLI_OK then (rc, k) else drain_bytes (n - min n 256) k)) k"
      by (intro framed_if' framed_case framed_prod framed_pure framed_read_exact less) auto
  qed
qed

section \<open>Messages\<close>

lemma framed_cost: "framed receive_cost k"
  unfolding receive_cost_def by (intro framed_intros)

lemma framed_sq_info: "framed drain_sq_info k"
proof (induction "pending k" arbitrary: k rule: less_induct)
  case less
  show ?case
  proof (rule framed_cong)
    fix k
    show "drain_sq_info k = (case read_be16 k of (x, k) \<Rightarrow> (case x of Inl rc \<Rightarrow> (rc, k) | Inr item \<Rightarrow>
        if item = 0 then (SQLI_OK, k)
        else case read_be16 k of (y, k) \<Rightarrow> (case y of Inl rc \<Rightarrow> (rc, k) | Inr len \<Rightarrow>
          case drain_bytes (len + len mod 2) k of (rc, k) \<Rightarrow> if rc \<noteq> SQLI_OK then (rc, k) else drain_sq_info k)))"
      by (subst drain_sq_info.simps) (simp split: prod.split sum.split)
  next
    have smaller: "pending k3 < pending k"
      if "read_be16 k = (Inr a, k1)" "read_be16 k1 = (Inr len, k2)" "drain_bytes n k2 = (rc, k3)" for a k1 len k2 n rc k3
      using read_be16_pending(1) [OF that(1)] read_be16_pending(1) [OF that(2)] drain_bytes_pending [OF that(3)] by simp
    show "framed (\<lambda>k. case read_be16 k of (x, k) \<Rightarrow> (case x of Inl rc \<Rightarrow> (rc, k) | Inr item \<Rightarrow>
        if item = 0 then (SQLI_OK, k)
        else case read_be16 k of (y, k) \<Rightarrow> (case y of Inl rc \<Rightarrow> (rc, k) | Inr len \<Rightarrow>
          case drain_bytes (len + len mod 2) k of (rc, k) \<Rightarrow> if rc \<noteq> SQLI_OK then (rc, k) else drain_sq_info k))) k"
      by (intro framed_case framed_sum framed_prod framed_if' framed_pure framed_readers framed_drain_bytes less)
        (use smaller in blast)
  qed
qed

lemma framed_command: "framed receive_command k"
  unfolding receive_command_def by (intro framed_intros)

lemma framed_dbopen: "framed receive_dbopen k"
  unfolding receive_dbopen_def by (intro framed_intros framed_drain_bytes)

lemma framed_trailing_message: "framed (trailing_message n) k"
  unfolding trailing_message_def by (intro framed_intros framed_cost framed_sq_info)

lemma framed_drain_trailing: "framed (\<lambda>k. (x, drain_trailing k)) k"
proof (induction "pending k" arbitrary: k rule: less_induct)
  case less
  let ?stop = "\<lambda>ahead. length ahead \<noteq> 2 \<or>
    be_value 256 (map unat ahead) \<notin> {SQLI_SQ_COST, SQLI_SQ_INFO, SQLI_SQ_DBOPEN_FLAGS, SQLI_SQ_EOT}"
  show ?case
  proof (rule framed_cong)
    fix k
    show "(x, drain_trailing k) = (case sqli_peek_bytes 2 k of (ahead, k) \<Rightarrow>
        if ?stop ahead then (x, k)
        else case read_be16 k of (y, k) \<Rightarrow> (case y of Inl rc \<Rightarrow> (x, k) | Inr op \<Rightarrow>
          case trailing_message (be_value 256 (map unat ahead)) k of (rc, k) \<Rightarrow>
            if rc \<noteq> SQLI_OK then (x, k) else (x, drain_trailing k)))"
      by (subst drain_trailing.simps) (auto split: prod.split sum.split)
  next
    have smaller: "pending k3 < pending k"
      if "sqli_peek_bytes 2 k = (ahead, k1)" "read_be16 k1 = (Inr op, k2)" "trailing_message n k2 = (rc, k3)"
      for ahead k1 op k2 n rc k3
      using peek_bytes_pending [of 2 k] that(1) read_be16_pending(1) [OF that(2)] trailing_message_pending [OF that(3)] by simp
    show "framed (\<lambda>k. case sqli_peek_bytes 2 k of (ahead, k) \<Rightarrow>
        if ?stop ahead then (x, k)
        else case read_be16 k of (y, k) \<Rightarrow> (case y of Inl rc \<Rightarrow> (x, k) | Inr op \<Rightarrow>
          case trailing_message (be_value 256 (map unat ahead)) k of (rc, k) \<Rightarrow>
            if rc \<noteq> SQLI_OK then (x, k) else (x, drain_trailing k))) k"
      by (intro framed_case framed_sum framed_if' framed_pure framed_readers framed_peek_bytes framed_trailing_message less)
        (use smaller in blast)
  qed
qed

lemma framed_done_tail: "framed done_tail k"
  unfolding done_tail_def Let_def by (intro framed_intros framed_cost)

lemma framed_done: "framed (receive_done env r) k"
  unfolding receive_done_def Let_def by (intro framed_intros framed_done_tail framed_drain_trailing)

lemma framed_string: "framed (receive_descriptor_string env d) k"
  unfolding receive_descriptor_string_def by (intro framed_intros)

lemma framed_field: "framed (receive_descriptor_field env d f) k"
  unfolding receive_descriptor_field_def Let_def by (intro framed_intros framed_string)

lemma framed_fields: "framed (receive_fields env d fs) k"
proof (induction fs arbitrary: d k)
  case (Cons f fs)
  have "receive_fields env d (f # fs) = and_then (receive_descriptor_field env d f)
      (\<lambda>(f, d). and_then (receive_fields env d fs) (\<lambda>(fs, d) k. (Inr (f # fs, d), k)))"
    by (simp add: fun_eq_iff)
  then show ?case by (simp only:) (intro framed_intros framed_field Cons)
qed (simp add: framed_def)

lemma framed_description: "framed (receive_description env) k"
  unfolding receive_description_def Let_def by (intro framed_intros framed_fields)

lemma framed_describe: "framed (receive_describe env r) k"
  unfolding receive_describe_def Let_def by (intro framed_intros framed_description)

lemma reported_set_error [simp]: "reported (k\<lparr>k_conn := set_error msg c\<rparr>)"
  by (simp add: reported_def)

lemma reported_sqerr [simp]: "reported (k\<lparr>k_conn := set_error_info_from_sqerr env st op sc ic state msg c\<rparr>)"
  by (simp add: reported_def set_error_info_from_sqerr_def Let_def)

lemma framed_tuple: "framed (receive_tuple env r) k"
proof -
  have report: "framed (\<lambda>k. (x, k\<lparr>k_conn := set_error msg (set_error_context ctx op (k_conn k))\<rparr>)) k"
    for x :: "sqli_status \<times> result" and msg ctx op k
    by (rule framed_report) simp
  show ?thesis unfolding receive_tuple_def Let_def by (intro report framed_intros)
qed

lemma framed_insertdone_tail: "framed (insertdone_tail n) k"
proof (induction n arbitrary: k)
  case 0
  then show ?case by (simp add: framed_def)
next
  case (Suc n)
  then show ?case unfolding insertdone_tail.simps [abs_def] by (intro framed_intros framed_drain_bytes)
qed

lemma framed_insertdone: "framed (receive_insertdone r) k"
  unfolding receive_insertdone_def Let_def by (intro framed_intros framed_insertdone_tail)

lemma framed_read_str: "framed (read_str n) k"
  unfolding read_str_def Let_def by (intro framed_intros framed_drain_bytes)

lemma framed_error_texts: "framed (error_texts env code) k"
  unfolding error_texts_def by (intro framed_intros framed_read_str framed_drain_bytes)

lemma framed_after_error: "framed peek_after_error k"
  unfolding peek_after_error_def by (rule framed_test) (simp_all add: framed_peek framed_pure framed_value)

text \<open>An error is reported, so what comes after it matters only for the other clauses.\<close>

lemma framed_set_conn:
  assumes "framed (\<lambda>k. m k) (k\<lparr>k_conn := c k\<rparr>)" "\<And>later. c (then_arrives later k) = c k" "reported (k\<lparr>k_conn := c k\<rparr>)"
  shows "framed (\<lambda>k. m (k\<lparr>k_conn := c k\<rparr>)) k"
proof -
  have "then_arrives later (k\<lparr>k_conn := c k\<rparr>) = (then_arrives later k)\<lparr>k_conn := c k\<rparr>" for later
    by (simp add: then_arrives_def)
  then show ?thesis using assms by (auto simp: framed_def quiet_def split: prod.splits)
qed

lemma framed_error: "framed (sqli_receive_error env r) k"
proof -
  have after: "framed (\<lambda>k. (x, if c then snd (read_be16 k) else k)) k" for x :: "sqli_status \<times> result" and c k
    using framed_readers(1) [of k] by (cases c) (auto simp: framed_def split: prod.splits)
  have report: "framed (\<lambda>k. case peek_after_error (k\<lparr>k_conn := set_error_info_from_sqerr env st op sc ic state msg (k_conn k)\<rparr>) of
      (ahead, k) \<Rightarrow> ((SQLI_PROTO_ERROR, r'), if ahead = [0, u8 SQLI_SQ_EOT] then snd (read_be16 k) else k)) k"
    for st op sc ic state msg k and r' :: result
  proof (rule framed_set_conn [where m = "\<lambda>k. case peek_after_error k of (ahead, k) \<Rightarrow>
          ((SQLI_PROTO_ERROR, r'), if ahead = [0, u8 SQLI_SQ_EOT] then snd (read_be16 k) else k)"])
    show "framed (\<lambda>k. case peek_after_error k of (ahead, k) \<Rightarrow>
        ((SQLI_PROTO_ERROR, r'), if ahead = [0, u8 SQLI_SQ_EOT] then snd (read_be16 k) else k)) k" for k
      by (intro framed_case framed_after_error after)
  qed simp_all
  show ?thesis unfolding sqli_receive_error_def Let_def by (intro framed_intros framed_error_texts report)
qed

lemma framed_more_to_come: "framed (more_to_come env) k"
  unfolding more_to_come_def
proof (rule framed_test)
  have again: "framed (\<lambda>k. case sqli_tcp_peek 1 k of (ahead, k) \<Rightarrow> (ahead \<noteq> [], k)) k" for k
    by (intro framed_intros)
  show "framed (\<lambda>k. case sqli_tcp_peek 1 k of (ahead, k) \<Rightarrow>
      if ahead \<noteq> [] \<or> \<not> de_eot_wait env then (ahead \<noteq> [], k)
      else (case sqli_tcp_peek 1 k of (ahead, k) \<Rightarrow> (ahead \<noteq> [], k))) k"
    by (intro framed_case framed_if framed_peek framed_pure again)
qed (simp_all add: buffered_peek_byte_def framed_pure)

lemma framed_eot: "framed (receive_eot env n r) k"
proof -
  have "framed (\<lambda>k. case more_to_come env k of (ahead, k) \<Rightarrow> (\<lambda>k. ((SQLI_OK,
      if \<not> ahead \<and> can_end_group n r (c_error_context (k_conn k)) then r\<lparr>rs_eof := True\<rparr> else r), k)) k) k"
    by (rule framed_case [OF framed_more_to_come]) (rule framed_value)
  then show ?thesis by (rule framed_cong [rotated]) (simp add: receive_eot_def)
qed

lemma framed_unknown: "framed (unknown_opcode env opcode r) k"
proof -
  have report: "framed (\<lambda>k. (x, k\<lparr>k_conn := (k_conn k)\<lparr>c_error_info := (c_error_info (k_conn k))
        \<lparr>ei_has_error := True, ei_status := st, ei_opcode := op, ei_opcode_name := name, ei_context := c (k_conn k),
          ei_unknown_opcode := op, ei_unknown_opcode_count := g (k_conn k), ei_message := msg (k_conn k)\<rparr>,
        c_errmsg := msg (k_conn k)\<rparr>\<rparr>)) k" for x :: "sqli_status \<times> result" and st op name c g msg k
    by (rule framed_report) (simp add: reported_def)
  show ?thesis unfolding unknown_opcode_def Let_def by (intro framed_case framed_peek report)
qed

lemma framed_keeping: "framed m k \<Longrightarrow> framed (\<lambda>k. keeping r (m k)) k"
  unfolding keeping_def by (intro framed_intros)

lemma framed_skip: "framed m k \<Longrightarrow> framed (\<lambda>k. skip_value (m k)) k"
  unfolding skip_value_def by (intro framed_intros)

lemma framed_dispatch_message: "framed (dispatch_message env n opcode r) k"
  unfolding dispatch_message_def
  by (intro framed_if framed_keeping framed_skip framed_and_then framed_readers framed_command framed_describe
      framed_tuple framed_done framed_error framed_pure framed_eot framed_dbopen framed_insertdone framed_unknown
      framed_sq_info framed_cost)

theorem framed_dispatch_loop: "framed (dispatch_loop env n r) k"
proof (induction "pending k" arbitrary: r k rule: less_induct)
  case less
  let ?body = "\<lambda>k. if rs_eof r then ((SQLI_OK, r), k) else
      (case read_be16 k of (x, k) \<Rightarrow> (case x of Inl rc \<Rightarrow> ((rc, r), k) | Inr opcode \<Rightarrow>
        case dispatch_message env n opcode r k of (y, k) \<Rightarrow>
          (case y of (rc, r) \<Rightarrow> if rc \<noteq> SQLI_OK then ((rc, r), k) else dispatch_loop env n r k)))"
  have smaller: "pending k2 < pending k"
    if "read_be16 k = (Inr opcode, k1)" "dispatch_message env n opcode r k1 = (y, k2)" for opcode k1 y k2
    using read_be16_pending(1) [OF that(1)] keepsD [OF shrinking.keeps_dispatch_message that(2)] by simp
  show ?case
  proof (rule framed_cong)
    show "framed ?body k"
      by (intro framed_if' framed_case framed_sum framed_prod framed_pure framed_readers framed_dispatch_message less)
        (use smaller in blast)
  next
    fix k
    show "dispatch_loop env n r k = ?body k"
      by (subst dispatch_loop.simps) (simp split: prod.split sum.split)
  qed
qed

end
