(* ===== verification/DispatchFacts.thy ===== *)
theory DispatchFacts
  imports Dispatch ResultFacts
begin

text \<open>
  What the dispatcher makes of a reply: the readers against the bytes of a conforming server, and the
  guarantees that hold for every peer.
\<close>

section \<open>Readers and the bytes they read\<close>

text \<open>On a stream that starts with \<open>bytes\<close>, however it is cut, the reader returns \<open>x\<close> and leaves the rest.\<close>

definition reads :: "(link \<Rightarrow> 'a fallible \<times> link) \<Rightarrow> byte list \<Rightarrow> 'a \<Rightarrow> bool" where
  "reads m bytes x \<longleftrightarrow>
     (\<forall>k rest. stream k = bytes @ rest \<longrightarrow>
       (\<exists>k'. m k = (Inr x, k') \<and> stream k' = rest \<and> k_conn k' = k_conn k \<and> k_peeks k' = k_peeks k))"

lemma readsD:
  assumes "reads m bytes x" "stream k = bytes @ rest"
  obtains k' where "m k = (Inr x, k')" "stream k' = rest" "k_conn k' = k_conn k" "k_peeks k' = k_peeks k"
  using assms unfolding reads_def by blast

lemma reads_pure: "reads (Pair (Inr x)) [] x"
  by (simp add: reads_def)

lemma reads_and_then: "reads m a x \<Longrightarrow> reads (f x) b y \<Longrightarrow> reads (and_then m f) (a @ b) y"
  by (fastforce simp: reads_def and_then_def)

lemma reads_and_then_prod: "reads m a (x, y) \<Longrightarrow> reads (f x y) b z \<Longrightarrow> reads (and_then m (\<lambda>(x, y). f x y)) (a @ b) z"
  by (fastforce simp: reads_def and_then_def)

lemma reads_bytes: "length bytes = n \<Longrightarrow> reads (read_bytes n) bytes bytes"
  unfolding reads_def
proof (intro allI impI)
  fix k rest
  assume n: "length bytes = n" and s: "stream k = bytes @ rest"
  obtain rc got k' where r: "read_exact n k = ((rc, got), k')" by (metis prod.collapse)
  show "\<exists>k'. read_bytes n k = (Inr bytes, k') \<and> stream k' = rest \<and> k_conn k' = k_conn k \<and> k_peeks k' = k_peeks k"
    using read_exact_stream [OF r] read_exact_pending(3,4) [OF r] n s by (simp add: read_bytes_def r)
qed

lemma reads_number:
  assumes "\<And>k. m k = (case read_exact n k of ((rc, bytes), k) \<Rightarrow> (if rc \<noteq> SQLI_OK then Inl rc else Inr (f bytes), k))"
    and "length bytes = n"
  shows "reads m bytes (f bytes)"
  unfolding reads_def
proof (intro allI impI)
  fix k rest
  assume s: "stream k = bytes @ rest"
  obtain rc got k' where r: "read_exact n k = ((rc, got), k')" by (metis prod.collapse)
  show "\<exists>k'. m k = (Inr (f bytes), k') \<and> stream k' = rest \<and> k_conn k' = k_conn k \<and> k_peeks k' = k_peeks k"
    using read_exact_stream [OF r] read_exact_pending(3,4) [OF r] assms(2) s by (simp add: assms(1) r)
qed

lemma reads_be16: "n < 2 ^ 16 \<Longrightarrow> reads read_be16 (net16 n) n"
  using reads_number [where m = read_be16 and n = 2 and f = "\<lambda>bytes. be_value 256 (map unat bytes)" and bytes = "net16 n"]
  by (simp only: read_be16_def net16_value length_be)

lemma reads_be32: "n < 2 ^ 32 \<Longrightarrow> reads read_be32 (net32 n) n"
  using reads_number [where m = read_be32 and n = 4 and f = "\<lambda>bytes. be_value 256 (map unat bytes)" and bytes = "net32 n"]
  by (simp only: read_be32_def net32_value length_be)

section \<open>TUPLE\<close>

text \<open>The pad byte of an odd length has any value.\<close>

definition pad_of :: "byte list \<Rightarrow> byte list \<Rightarrow> bool" where
  "pad_of bytes pad \<longleftrightarrow> length pad = length bytes mod 2"

definition tuple_message :: "nat \<Rightarrow> byte list \<Rightarrow> byte list \<Rightarrow> byte list" where
  "tuple_message warnings row pad = net16 SQLI_SQ_TUPLE @ net16 warnings @ net32 (length row) @ row @ pad"

lemma grow_capacity_succeeds: "0 < current \<Longrightarrow> needed \<le> 2 ^ 63 \<Longrightarrow> \<exists>cap. grow_capacity_loop current needed = Some cap \<and> needed \<le> cap"
proof (induction current needed rule: grow_capacity_loop.induct)
  case (1 current needed)
  then show ?case
    by (subst grow_capacity_loop.simps) (auto simp: SIZE_MAX_def)
qed

lemma grow_capacity_doubling_succeeds: "needed \<le> 2 ^ 63 \<Longrightarrow> \<exists>cap. grow_capacity_doubling current needed = Some cap"
  using grow_capacity_succeeds [of "if current = 0 then 1 else current" needed] unfolding grow_capacity_doubling_def by auto

definition memory_ok :: "dispatch_env \<Rightarrow> bool" where
  "memory_ok env \<longleftrightarrow> (\<forall>n. de_mem env n)"

text \<open>What receiving rows leaves as it is.\<close>

definition rows_added :: "result \<Rightarrow> byte list list \<Rightarrow> result \<Rightarrow> bool" where
  "rows_added r rows r' \<longleftrightarrow> result_rows r' = result_rows r @ rows \<and> rs_row_count r' = rs_row_count r + int (length rows) \<and>
     (rs_rows r \<noteq> None \<or> rows \<noteq> [] \<longrightarrow> rs_rows r' \<noteq> None) \<and>
     rs_arena_len r' = rs_arena_len r + sum_list (map length rows) \<and>
     rs_columns r' = rs_columns r \<and> rs_cursor r' = rs_cursor r \<and> rs_current_row r' = rs_current_row r \<and>
     rs_tuple r' = rs_tuple r \<and> rs_at_before_first r' = rs_at_before_first r \<and> rs_at_after_last r' = rs_at_after_last r \<and>
     rs_absolute_row_num r' = rs_absolute_row_num r \<and> rs_fetch_status r' = rs_fetch_status r \<and>
     rs_saw_error r' = rs_saw_error r \<and> rs_error_code r' = rs_error_code r \<and> rs_cache r' = rs_cache r \<and>
     rs_statement_type r' = rs_statement_type r \<and> rs_stmt_id r' = rs_stmt_id r \<and> rs_cursor_type r' = rs_cursor_type r \<and>
     rs_holdability r' = rs_holdability r \<and> rs_commit_epoch r' = rs_commit_epoch r \<and>
     rs_rollback_epoch r' = rs_rollback_epoch r \<and> rs_saw_done r' = rs_saw_done r \<and> rs_ret_type_sent r' = rs_ret_type_sent r"

lemma rows_added_trans: "rows_added a xs b \<Longrightarrow> rows_added b ys c \<Longrightarrow> rows_added a (xs @ ys) c"
  by (auto simp: rows_added_def)

lemma receive_tuple_reads:
  assumes "memory_ok env" "length row \<le> SQLI_MAX_TUPLE_BYTES" "pad_of row pad" "warnings < 2 ^ 16"
    and "rs_arena_len r + length row \<le> 2 ^ 63" "stream k = net16 warnings @ net32 (length row) @ row @ pad @ rest"
  obtains r' k' where "receive_tuple env r k = ((SQLI_OK, r'), k')" "rows_added r [row] r'" "rs_eof r' = rs_eof r"
    "stream k' = rest" "k_conn k' = k_conn k"
proof -
  have len: "length row < 2 ^ 32" using assms(2) by (simp add: SQLI_MAX_TUPLE_BYTES_def)
  have "reads (and_then read_be16 (\<lambda>warnings. and_then read_be32 (\<lambda>len k. (Inr (warnings, len), k))))
      (net16 warnings @ net32 (length row) @ []) (warnings, length row)"
    by (rule reads_and_then [OF reads_be16 [OF assms(4)] reads_and_then [OF reads_be32 [OF len] reads_pure]])
  then obtain k1 where k1: "and_then read_be16 (\<lambda>warnings. and_then read_be32 (\<lambda>len k. (Inr (warnings, len), k))) k =
      (Inr (warnings, length row), k1)" "stream k1 = row @ pad @ rest" "k_conn k1 = k_conn k"
    using assms(6) by (auto elim: readsD)
  have "\<exists>cap. reserve_arena env (length row) r = Inr (r\<lparr>rs_arena_cap := cap\<rparr>)"
  proof (cases "rs_arena_cap r = 0 \<or> rs_arena_cap r < rs_arena_len r + length row")
    case True
    obtain cap where cap: "grow_capacity_doubling (if rs_arena_cap r > 0 then rs_arena_cap r else 32768)
        (rs_arena_len r + length row) = Some cap"
      using grow_capacity_doubling_succeeds [OF assms(5)] by blast
    have "rs_arena_len r \<le> SIZE_MAX - length row" using assms(5) by (simp add: SIZE_MAX_def)
    then have "reserve_arena env (length row) r = Inr (r\<lparr>rs_arena_cap := cap\<rparr>)"
      unfolding reserve_arena_def cap using True assms(1) by (simp add: memory_ok_def)
    then show ?thesis by blast
  next
    case False
    then have "reserve_arena env (length row) r = Inr (r\<lparr>rs_arena_cap := rs_arena_cap r\<rparr>)"
      using assms(5) by (simp add: reserve_arena_def SIZE_MAX_def)
    then show ?thesis by blast
  qed
  then obtain cap where cap: "reserve_arena env (length row) r = Inr (r\<lparr>rs_arena_cap := cap\<rparr>)" by blast
  obtain k2 where k2: "read_bytes (length row) k1 = (Inr row, k2)" "stream k2 = pad @ rest" "k_conn k2 = k_conn k1"
    using readsD [OF reads_bytes [OF refl] k1(2)] by blast
  obtain k3 where k3: "read_bytes (length row mod 2) k2 = (Inr pad, k3)" "stream k3 = rest" "k_conn k3 = k_conn k2"
    using readsD [OF reads_bytes k2(2)] assms(3) unfolding pad_of_def by metis
  define r2 where "r2 = r\<lparr>rs_arena_cap := cap, rs_arena_len := rs_arena_len r + length row\<rparr>"
  have "\<exists>n. reserve_row env r2 = Inr (r2\<lparr>rs_row_capacity := n\<rparr>)"
  proof (cases "rs_row_count r2 \<ge> rs_row_capacity r2")
    case True
    then show ?thesis using assms(1) by (auto simp: reserve_row_def memory_ok_def Let_def)
  next
    case False
    then have "reserve_row env r2 = Inr (r2\<lparr>rs_row_capacity := rs_row_capacity r2\<rparr>)" by (simp add: reserve_row_def)
    then show ?thesis by blast
  qed
  then obtain n where n: "reserve_row env r2 = Inr (r2\<lparr>rs_row_capacity := n\<rparr>)" by blast
  define r3 where "r3 = append_row warnings row (r2\<lparr>rs_row_capacity := n\<rparr>)"
  have "receive_tuple env r k = ((SQLI_OK, r3), k3)"
    using assms(2) n by (simp add: receive_tuple_def k1(1) cap k2(1) k3(1) r2_def r3_def not_less Let_def)
  moreover have "rows_added r [row] r3" "rs_eof r3 = rs_eof r"
    by (simp_all add: r3_def r2_def rows_added_def append_row_def result_rows_def split: option.split)
  ultimately show thesis using that k1(3) k2(3) k3 by metis
qed

section \<open>Row replies\<close>

type_synonym tuple = "nat \<times> byte list \<times> byte list"

definition tuple_ok :: "tuple \<Rightarrow> bool" where
  "tuple_ok t \<longleftrightarrow> (case t of (warnings, row, pad) \<Rightarrow>
     warnings < 2 ^ 16 \<and> length row \<le> SQLI_MAX_TUPLE_BYTES \<and> pad_of row pad)"

definition tuple_row :: "tuple \<Rightarrow> byte list" where
  "tuple_row t = fst (snd t)"

definition tuples_message :: "tuple list \<Rightarrow> byte list" where
  "tuples_message ts = concat (map (\<lambda>(warnings, row, pad). tuple_message warnings row pad) ts)"

lemma dispatch_opcode:
  assumes "\<not> rs_eof r" "stream k = net16 opcode @ rest" "opcode < 2 ^ 16"
  obtains k1 where "stream k1 = rest" "k_conn k1 = k_conn k" "k_peeks k1 = k_peeks k"
    "dispatch_loop env n r k = (case dispatch_message env n opcode r k1 of
       ((rc, r), k) \<Rightarrow> if rc \<noteq> SQLI_OK then ((rc, r), k) else dispatch_loop env n r k)"
proof -
  obtain k1 where "read_be16 k = (Inr opcode, k1)" "stream k1 = rest" "k_conn k1 = k_conn k" "k_peeks k1 = k_peeks k"
    using readsD [OF reads_be16 [OF assms(3)] assms(2)] by blast
  then show thesis using that assms(1) by (subst (asm) dispatch_loop.simps) simp
qed

lemma dispatch_tuples:
  assumes "memory_ok env"
  shows "\<forall>t \<in> set ts. tuple_ok t \<Longrightarrow> \<not> rs_eof r \<Longrightarrow>
    rs_arena_len r + (\<Sum>t \<leftarrow> ts. length (tuple_row t)) \<le> 2 ^ 63 \<Longrightarrow> stream k = tuples_message ts @ rest \<Longrightarrow>
    \<exists>r' k'. dispatch_loop env n r k = dispatch_loop env n r' k' \<and> rows_added r (map tuple_row ts) r' \<and> \<not> rs_eof r' \<and>
      stream k' = rest \<and> k_conn k' = k_conn k"
proof (induction ts arbitrary: r k)
  case Nil
  then show ?case by (intro exI [of _ r] exI [of _ k]) (simp add: tuples_message_def rows_added_def)
next
  case (Cons t ts)
  obtain warnings row pad where t: "t = (warnings, row, pad)" by (cases t)
  have ok: "warnings < 2 ^ 16" "length row \<le> SQLI_MAX_TUPLE_BYTES" "pad_of row pad"
    using Cons.prems(1) t by (auto simp: tuple_ok_def)
  have row: "tuple_row t = row" by (simp add: t tuple_row_def)
  have s: "stream k = net16 SQLI_SQ_TUPLE @ net16 warnings @ net32 (length row) @ row @ pad @ (tuples_message ts @ rest)"
    using Cons.prems(4) by (simp add: t tuples_message_def tuple_message_def)
  obtain k1 where k1: "stream k1 = net16 warnings @ net32 (length row) @ row @ pad @ (tuples_message ts @ rest)"
      "k_conn k1 = k_conn k"
      "dispatch_loop env n r k = (case dispatch_message env n SQLI_SQ_TUPLE r k1 of
         ((rc, r), k) \<Rightarrow> if rc \<noteq> SQLI_OK then ((rc, r), k) else dispatch_loop env n r k)"
    using dispatch_opcode [OF Cons.prems(2) s, of env n] by (auto simp: SQLI_SQ_TUPLE_def)
  have room: "rs_arena_len r + length row \<le> 2 ^ 63" using Cons.prems(3) row by simp
  obtain r1 k2 where r1: "receive_tuple env r k1 = ((SQLI_OK, r1), k2)" "rows_added r [row] r1" "rs_eof r1 = rs_eof r"
      "stream k2 = tuples_message ts @ rest" "k_conn k2 = k_conn k1"
    by (rule receive_tuple_reads [OF assms ok(2,3,1) room k1(1)])
  have "dispatch_message env n SQLI_SQ_TUPLE r k1 = receive_tuple env r k1"
    by (simp add: dispatch_message_def limit_defs)
  then have step: "dispatch_loop env n r k = dispatch_loop env n r1 k2" using k1(3) r1(1) by simp
  have "rs_arena_len r1 + (\<Sum>t \<leftarrow> ts. length (tuple_row t)) \<le> 2 ^ 63"
    using r1(2) Cons.prems(3) row by (simp add: rows_added_def)
  then obtain r' k' where "dispatch_loop env n r1 k2 = dispatch_loop env n r' k'" "rows_added r1 (map tuple_row ts) r'"
      "\<not> rs_eof r'" "stream k' = rest" "k_conn k' = k_conn k2"
    using Cons.IH [of r1 k2] Cons.prems(1,2) r1(3,4) by auto
  then show ?case using step rows_added_trans [OF r1(2)] row k1(2) r1(5) by auto
qed

lemma quiet_link:
  assumes "stream k = []"
  shows "sqli_tcp_peek n k = ([], snd (sqli_tcp_peek n k))" "stream (snd (sqli_tcp_peek n k)) = []"
    "k_conn (snd (sqli_tcp_peek n k)) = k_conn k"
  using assms
  by (auto simp: sqli_tcp_peek_def stream_def split: list.split arrival.split)

lemma quiet_more:
  assumes "stream k = []"
  obtains k' where "more_to_come env k = (False, k')" "stream k' = []" "k_conn k' = k_conn k"
proof -
  have buf: "buffered_peek_byte k = []" using assms by (simp add: buffered_peek_byte_def stream_def)
  let ?k1 = "snd (sqli_tcp_peek 1 k)"
  note q1 = quiet_link [OF assms, of 1] and q2 = quiet_link [OF quiet_link(2) [OF assms, of 1], of 1]
  show thesis
  proof (cases "de_eot_wait env")
    case True
    have "more_to_come env k = (False, snd (sqli_tcp_peek 1 ?k1))"
      using q1(1) q2(1) buf True by (auto simp: more_to_come_def split: prod.split)
    then show thesis using that q1(3) q2(2,3) by simp
  next
    case False
    have "more_to_come env k = (False, ?k1)" using q1(1) buf False by (auto simp: more_to_come_def split: prod.split)
    then show thesis using that q1(2,3) by simp
  qed
qed

lemma dispatch_eot:
  assumes "\<not> rs_eof r" "stream k = net16 SQLI_SQ_EOT" "can_end_group n r (c_error_context (k_conn k))"
  obtains k' where "dispatch_loop env n r k = ((SQLI_OK, r\<lparr>rs_eof := True\<rparr>), k')" "stream k' = []" "k_conn k' = k_conn k"
proof -
  obtain k1 where k1: "stream k1 = []" "k_conn k1 = k_conn k"
    "dispatch_loop env n r k = (case dispatch_message env n SQLI_SQ_EOT r k1 of
       ((rc, r), k) \<Rightarrow> if rc \<noteq> SQLI_OK then ((rc, r), k) else dispatch_loop env n r k)"
    using dispatch_opcode [OF assms(1), of k SQLI_SQ_EOT "[]" env n] assms(2) by (auto simp: SQLI_SQ_EOT_def)
  obtain k' where k': "more_to_come env k1 = (False, k')" "stream k' = []" "k_conn k' = k_conn k1"
    by (rule quiet_more [OF k1(1)])
  have "dispatch_message env n SQLI_SQ_EOT r k1 = ((SQLI_OK, r\<lparr>rs_eof := True\<rparr>), k')"
    using k' k1(2) assms(3) by (simp add: dispatch_message_def limit_defs receive_eot_def)
  then have "dispatch_loop env n r k = dispatch_loop env n (r\<lparr>rs_eof := True\<rparr>) k'" using k1(3) by simp
  also have "\<dots> = ((SQLI_OK, r\<lparr>rs_eof := True\<rparr>), k')" by (subst dispatch_loop.simps) simp
  finally show thesis using that k' k1(2) by simp
qed

section \<open>DESCRIBE\<close>

text \<open>
  What a server sends for a list of columns, in the simple and in the extended layout: the numbers of
  each field, and for the extended one the owner and the name of its type.
\<close>

record sent_field =
  sf_name :: "byte list"
  sf_index :: nat
  sf_offset :: nat
  sf_type :: nat
  sf_extended :: nat
  sf_owner :: "byte list"
  sf_type_name :: "byte list"
  sf_reference :: nat
  sf_alignment :: nat
  sf_source :: nat
  sf_length :: nat

definition counted_bytes :: "byte list \<Rightarrow> byte list" where
  "counted_bytes bytes = net16 (length bytes) @ bytes @ replicate (length bytes mod 2) 0"

definition field_bytes :: "bool \<Rightarrow> sent_field \<Rightarrow> byte list" where
  "field_bytes extended f =
     net32 (sf_index f) @ net32 (sf_offset f) @ net16 (sf_type f) @
     (if extended then net32 (sf_extended f) @ counted_bytes (sf_owner f) @ counted_bytes (sf_type_name f) @ net16 (sf_reference f) @
        net16 (sf_alignment f) @ net32 (sf_source f) @ net32 (sf_length f)
      else net16 (sf_length f))"

definition sent_field_ok :: "bool \<Rightarrow> sent_field \<Rightarrow> bool" where
  "sent_field_ok extended f \<longleftrightarrow>
     0 \<notin> set (sf_name f) \<and> sf_index f < 2 ^ 32 \<and> sf_offset f < 2 ^ 32 \<and> sf_type f < 2 ^ 16 \<and>
     (if extended then sf_extended f < 2 ^ 32 \<and> length (sf_owner f) < 2 ^ 16 \<and> length (sf_type_name f) < 2 ^ 16 \<and>
        sf_reference f < 2 ^ 16 \<and> sf_alignment f < 2 ^ 16 \<and> sf_source f < 2 ^ 32 \<and> sf_length f < 2 ^ 32
      else sf_length f < 2 ^ 16)"

definition names_bytes :: "sent_field list \<Rightarrow> byte list" where
  "names_bytes fs = concat (map (\<lambda>f. sf_name f @ [0]) fs)"

definition describe_body :: "descriptor_info \<Rightarrow> sent_field list \<Rightarrow> byte list" where
  "describe_body info fs =
     net16 (di_statement_type info) @ net16 (di_statement_id info) @ net32 (di_cost_raw info) @
     net16 (di_tuple_size info) @ net16 (di_field_count info) @
     (if di_extended info then net32 (length (names_bytes fs)) else net16 (length (names_bytes fs))) @
     concat (map (field_bytes (di_extended info)) fs) @ names_bytes fs @ replicate (length (names_bytes fs) mod 2) 0"

text \<open>The field of the descriptor, before and after its name is assigned.\<close>

definition received_field :: "bool \<Rightarrow> sent_field \<Rightarrow> descriptor_field" where
  "received_field extended f =
     (let g = empty_field\<lparr>df_extended := extended, df_field_index := sf_index f, df_tuple_offset := sf_offset f,
                df_type_raw := sf_type f\<rparr>
      in if extended then g\<lparr>df_extended_info := sf_extended f, df_type_owner := Some (sf_owner f),
              df_type_name := Some (sf_type_name f), df_reference := sf_reference f, df_alignment := sf_alignment f,
              df_source_type := sf_source f, df_encoded_length := sf_length f\<rparr>
         else g\<lparr>df_encoded_length := sf_length f\<rparr>)"

definition named_field :: "bool \<Rightarrow> sent_field \<Rightarrow> descriptor_field" where
  "named_field extended f = (received_field extended f)\<lparr>df_name := Some (sf_name f)\<rparr>"

lemma assign_names_sent:
  "\<forall>f \<in> set fs. 0 \<notin> set (sf_name f) \<Longrightarrow>
   assign_names_loop (map (received_field extended) fs) (names_bytes fs) = (SQLI_OK, map (named_field extended) fs)"
proof (induction fs)
  case (Cons f fs)
  have take: "takeWhile (\<lambda>b. b \<noteq> 0) (sf_name f @ 0 # rest) = sf_name f"
    and drop: "dropWhile (\<lambda>b. b \<noteq> 0) (sf_name f @ 0 # rest) = 0 # rest" for rest :: "byte list"
    using Cons.prems by (auto simp: takeWhile_append dropWhile_append)
  show ?case
    using Cons by (simp add: names_bytes_def take drop named_field_def)
qed (simp add: names_bytes_def)

text \<open>The bytes that the descriptor retains for a field besides its fixed part.\<close>

definition owned_bytes :: "bool \<Rightarrow> sent_field \<Rightarrow> nat" where
  "owned_bytes extended f = (if extended then length (sf_owner f) + length (sf_type_name f) else 0)"

lemma alloc_bytes_ok:
  "memory_ok env \<Longrightarrow> dr_retained_bytes d + len \<le> SQLI_DESCRIPTOR_MAX_BYTES \<Longrightarrow>
   sqli_descriptor_alloc_bytes (de_mem env) len True (Some d) =
     (SQLI_OK, Some (d\<lparr>dr_retained_bytes := dr_retained_bytes d + len\<rparr>))"
  by (simp add: sqli_descriptor_alloc_bytes_def memory_ok_def)

lemma reads_string:
  assumes "memory_ok env" "length bytes < 2 ^ 16" "dr_retained_bytes d + length bytes \<le> SQLI_DESCRIPTOR_MAX_BYTES"
  shows "reads (receive_descriptor_string env d) (counted_bytes bytes)
    (bytes, d\<lparr>dr_retained_bytes := dr_retained_bytes d + length bytes\<rparr>)"
proof -
  have "reads (and_then (read_bytes (length bytes)) (\<lambda>got. and_then (read_bytes (length bytes mod 2)) (\<lambda>pad k.
      (Inr (got, d\<lparr>dr_retained_bytes := dr_retained_bytes d + length bytes\<rparr>), k))))
      (bytes @ replicate (length bytes mod 2) 0 @ []) (bytes, d\<lparr>dr_retained_bytes := dr_retained_bytes d + length bytes\<rparr>)"
    by (rule reads_and_then [OF reads_bytes [OF refl] reads_and_then [OF reads_bytes reads_pure]]) simp
  then show ?thesis
    unfolding receive_descriptor_string_def counted_bytes_def
    by (intro reads_and_then [OF reads_be16 [OF assms(2)]]) (simp add: alloc_bytes_ok [OF assms(1,3)])
qed

lemma reads_field:
  assumes "memory_ok env" "sent_field_ok extended f" "di_extended (dr_info d) = extended"
    and "dr_retained_bytes d + owned_bytes extended f \<le> SQLI_DESCRIPTOR_MAX_BYTES"
  shows "reads (receive_descriptor_field env d (empty_field\<lparr>df_extended := extended\<rparr>)) (field_bytes extended f)
    (received_field extended f, d\<lparr>dr_retained_bytes := dr_retained_bytes d + owned_bytes extended f\<rparr>)"
proof (cases extended)
  case False
  have ok: "sf_index f < 2 ^ 32" "sf_offset f < 2 ^ 32" "sf_type f < 2 ^ 16" "sf_length f < 2 ^ 16"
    using assms(2) False by (simp_all add: sent_field_ok_def)
  show ?thesis
    unfolding receive_descriptor_field_def field_bytes_def Let_def assms(3) if_not_P [OF False]
    using False
    by (intro reads_and_then [OF reads_be32 [OF ok(1)]] reads_and_then [OF reads_be32 [OF ok(2)]]
        reads_and_then [OF reads_be16 [OF ok(3)]])
      (use reads_and_then [OF reads_be16 [OF ok(4)] reads_pure] in \<open>simp add: received_field_def owned_bytes_def\<close>)
next
  case True
  have ok: "sf_index f < 2 ^ 32" "sf_offset f < 2 ^ 32" "sf_type f < 2 ^ 16" "sf_extended f < 2 ^ 32"
      "length (sf_owner f) < 2 ^ 16" "length (sf_type_name f) < 2 ^ 16" "sf_reference f < 2 ^ 16" "sf_alignment f < 2 ^ 16"
      "sf_source f < 2 ^ 32" "sf_length f < 2 ^ 32"
    using assms(2) True by (simp_all add: sent_field_ok_def)
  let ?d1 = "d\<lparr>dr_retained_bytes := dr_retained_bytes d + length (sf_owner f)\<rparr>"
  have room: "dr_retained_bytes d + length (sf_owner f) \<le> SQLI_DESCRIPTOR_MAX_BYTES"
      "dr_retained_bytes ?d1 + length (sf_type_name f) \<le> SQLI_DESCRIPTOR_MAX_BYTES"
    using assms(4) True by (simp_all add: owned_bytes_def)
  have d2: "?d1\<lparr>dr_retained_bytes := dr_retained_bytes ?d1 + length (sf_type_name f)\<rparr> =
      d\<lparr>dr_retained_bytes := dr_retained_bytes d + owned_bytes extended f\<rparr>"
    using True by (simp add: owned_bytes_def)
  show ?thesis
    unfolding receive_descriptor_field_def field_bytes_def Let_def assms(3) if_P [OF True]
    using True
    by (intro reads_and_then [OF reads_be32 [OF ok(1)]] reads_and_then [OF reads_be32 [OF ok(2)]]
        reads_and_then [OF reads_be16 [OF ok(3)]])
      (simp, intro reads_and_then [OF reads_be32 [OF ok(4)]] reads_and_then_prod [OF reads_string [OF assms(1) ok(5) room(1)]]
        reads_and_then_prod [OF reads_string [OF assms(1) ok(6) room(2)]] reads_and_then [OF reads_be16 [OF ok(7)]]
        reads_and_then [OF reads_be16 [OF ok(8)]] reads_and_then [OF reads_be32 [OF ok(9)]],
       use reads_and_then [OF reads_be32 [OF ok(10)] reads_pure] d2 in \<open>simp add: received_field_def\<close>)
qed

lemma reads_fields:
  assumes "memory_ok env"
  shows "\<forall>f \<in> set fs. sent_field_ok (di_extended (dr_info d)) f \<Longrightarrow>
    dr_retained_bytes d + (\<Sum>f \<leftarrow> fs. owned_bytes (di_extended (dr_info d)) f) \<le> SQLI_DESCRIPTOR_MAX_BYTES \<Longrightarrow>
    reads (receive_fields env d (replicate (length fs) (empty_field\<lparr>df_extended := di_extended (dr_info d)\<rparr>)))
      (concat (map (field_bytes (di_extended (dr_info d))) fs))
      (map (received_field (di_extended (dr_info d))) fs,
       d\<lparr>dr_retained_bytes := dr_retained_bytes d + (\<Sum>f \<leftarrow> fs. owned_bytes (di_extended (dr_info d)) f)\<rparr>)"
proof (induction fs arbitrary: d)
  case Nil
  then show ?case by (simp add: reads_def)
next
  case (Cons f fs)
  let ?e = "di_extended (dr_info d)" and ?g = "empty_field\<lparr>df_extended := di_extended (dr_info d)\<rparr>"
  let ?d = "d\<lparr>dr_retained_bytes := dr_retained_bytes d + owned_bytes ?e f\<rparr>"
  have unfold: "receive_fields env d (?g # gs) = and_then (receive_descriptor_field env d ?g)
      (\<lambda>(f, d). and_then (receive_fields env d gs) (\<lambda>(fs, d) k. (Inr (f # fs, d), k)))" for gs
    by (simp add: fun_eq_iff)
  have first: "reads (receive_descriptor_field env d ?g) (field_bytes ?e f) (received_field ?e f, ?d)"
    using reads_field [OF assms, of ?e f d] Cons.prems by simp
  have rest: "reads (receive_fields env ?d (replicate (length fs) ?g)) (concat (map (field_bytes ?e) fs))
      (map (received_field ?e) fs, ?d\<lparr>dr_retained_bytes := dr_retained_bytes ?d + (\<Sum>f \<leftarrow> fs. owned_bytes ?e f)\<rparr>)"
    using Cons.IH [of ?d] Cons.prems by simp
  have "reads (and_then (receive_fields env ?d (replicate (length fs) ?g))
        (\<lambda>(gs, d) k. (Inr (received_field ?e f # gs, d), k))) (concat (map (field_bytes ?e) fs) @ [])
      (received_field ?e f # map (received_field ?e) fs,
       ?d\<lparr>dr_retained_bytes := dr_retained_bytes ?d + (\<Sum>f \<leftarrow> fs. owned_bytes ?e f)\<rparr>)"
    by (rule reads_and_then_prod [OF rest reads_pure])
  then have "reads (receive_fields env d (?g # replicate (length fs) ?g))
      (field_bytes ?e f @ concat (map (field_bytes ?e) fs))
      (received_field ?e f # map (received_field ?e) fs,
       ?d\<lparr>dr_retained_bytes := dr_retained_bytes ?d + (\<Sum>f \<leftarrow> fs. owned_bytes ?e f)\<rparr>)"
    unfolding unfold by (intro reads_and_then_prod [OF first]) simp
  then show ?case by (simp add: add.assoc del: receive_fields.simps)
qed

text \<open>The descriptor of a DESCRIBE message, and the messages that a client can hold.\<close>

definition described :: "descriptor_info \<Rightarrow> sent_field list \<Rightarrow> descriptor" where
  "described info fs =
     \<lparr>dr_references = 1, dr_info = info, dr_fields = map (named_field (di_extended info)) fs, dr_names = names_bytes fs,
      dr_retained_bytes = sizeof_sqli_descriptor + length fs * sizeof_sqli_descriptor_field +
        (\<Sum>f \<leftarrow> fs. owned_bytes (di_extended info) f) + length (names_bytes fs)\<rparr>"

definition describe_ok :: "descriptor_info \<Rightarrow> sent_field list \<Rightarrow> bool" where
  "describe_ok info fs \<longleftrightarrow>
     di_statement_type info < 2 ^ 16 \<and> di_statement_id info < 2 ^ 16 \<and> di_cost_raw info < 2 ^ 32 \<and>
     di_tuple_size info < 2 ^ 16 \<and> di_field_count info = length fs \<and> length fs < 2 ^ 16 \<and>
     (di_extended info \<or> length (names_bytes fs) < 2 ^ 16) \<and>
     (\<forall>f \<in> set fs. sent_field_ok (di_extended info) f) \<and>
     dr_retained_bytes (described info fs) \<le> SQLI_DESCRIPTOR_MAX_BYTES"

lemma reads_description:
  assumes "memory_ok env" "de_extended_describe env = di_extended info" "describe_ok info fs"
  shows "reads (receive_description env) (describe_body info fs) (described info fs)"
proof -
  note ok = assms(3) [unfolded describe_ok_def]
  let ?e = "di_extended info" and ?n = "length (names_bytes fs)"
  define d where "d = \<lparr>dr_references = 1, dr_info = info, dr_fields = replicate (length fs) (empty_field\<lparr>df_extended := ?e\<rparr>),
      dr_names = [], dr_retained_bytes = sizeof_sqli_descriptor + length fs * sizeof_sqli_descriptor_field\<rparr>"
  have room: "dr_retained_bytes d + (\<Sum>f \<leftarrow> fs. owned_bytes ?e f) + ?n \<le> SQLI_DESCRIPTOR_MAX_BYTES"
    using ok by (simp add: described_def d_def)
  have n: "?n \<le> SQLI_DESCRIPTOR_MAX_BYTES" using room by simp
  have info: "\<lparr>di_statement_type = di_statement_type info, di_statement_id = di_statement_id info, di_cost_raw = di_cost_raw info,
      di_tuple_size = di_tuple_size info, di_field_count = length fs, di_extended = ?e\<rparr> = info"
    using ok by simp
  have "length fs \<le> (SQLI_DESCRIPTOR_MAX_BYTES - sizeof_sqli_descriptor) div sizeof_sqli_descriptor_field"
    using room by (simp add: d_def limit_defs less_eq_div_iff_mult_less_eq)
  then have create: "sqli_descriptor_create (de_mem env) True (Some info) = Inr d"
    using ok assms(1) by (auto simp: sqli_descriptor_create_def memory_ok_def d_def)
  have fields: "reads (receive_fields env d (dr_fields d)) (concat (map (field_bytes ?e) fs))
      (map (received_field ?e) fs, d\<lparr>dr_retained_bytes := dr_retained_bytes d + (\<Sum>f \<leftarrow> fs. owned_bytes ?e f)\<rparr>)"
    using reads_fields [OF assms(1), of fs d] ok room by (simp add: d_def)
  let ?d = "d\<lparr>dr_retained_bytes := dr_retained_bytes d + (\<Sum>f \<leftarrow> fs. owned_bytes ?e f),
      dr_fields := map (received_field ?e) fs\<rparr>"
  have alloc: "sqli_descriptor_alloc_bytes (de_mem env) ?n True (Some ?d) =
      (SQLI_OK, Some (?d\<lparr>dr_retained_bytes := dr_retained_bytes ?d + ?n\<rparr>))"
    using alloc_bytes_ok [OF assms(1), of ?d ?n] room by simp
  have assign: "sqli_descriptor_assign_names (Some (?d\<lparr>dr_retained_bytes := dr_retained_bytes ?d + ?n, dr_names := names_bytes fs\<rparr>)) =
      (SQLI_OK, Some (described info fs))"
    using assign_names_sent [of fs ?e] ok
    by (simp add: sqli_descriptor_assign_names_def described_def d_def sent_field_ok_def)
  define len where "len = (if ?e then net32 ?n else net16 ?n)"
  have len: "reads (if ?e then read_be32 else read_be16) len ?n"
    using ok n reads_be32 [of ?n] reads_be16 [of ?n] by (auto simp: len_def limit_defs)
  define body where "body = concat (map (field_bytes ?e) fs) @ names_bytes fs @ replicate (?n mod 2) 0"
  have tail: "reads (and_then (receive_fields env d (dr_fields d)) (\<lambda>(fs, d) k.
                 case sqli_descriptor_alloc_bytes (de_mem env) ?n True (Some (d\<lparr>dr_fields := fs\<rparr>)) of
                   (rc, d) \<Rightarrow>
                     if rc \<noteq> SQLI_OK then (Inl rc, k)
                     else and_then (read_bytes ?n) (\<lambda>names. and_then (read_bytes (?n mod 2)) (\<lambda>pad k.
                       case sqli_descriptor_assign_names (Some ((the d)\<lparr>dr_names := names\<rparr>)) of
                         (rc, d) \<Rightarrow>
                           if rc \<noteq> SQLI_OK then (Inl rc, k)
                           else if length gs \<noteq> 0 \<and> \<not> de_mem env (length gs * sizeof_sqli_column_info)
                             then (Inl SQLI_ALLOC_FAIL, k)
                           else (Inr (the d), k))) k)) body (described info fs)" for gs :: "sent_field list"
    unfolding body_def
  proof (rule reads_and_then_prod [OF fields])
    have "reads (and_then (read_bytes ?n) (\<lambda>names. and_then (read_bytes (?n mod 2)) (\<lambda>pad k.
         case sqli_descriptor_assign_names (Some (?d\<lparr>dr_retained_bytes := dr_retained_bytes ?d + ?n, dr_names := names\<rparr>)) of
           (rc, d) \<Rightarrow> if rc \<noteq> SQLI_OK then (Inl rc, k)
             else if length gs \<noteq> 0 \<and> \<not> de_mem env (length gs * sizeof_sqli_column_info) then (Inl SQLI_ALLOC_FAIL, k)
             else (Inr (the d), k)))) (names_bytes fs @ replicate (?n mod 2) 0 @ []) (described info fs)"
      by (rule reads_and_then [OF reads_bytes [OF refl] reads_and_then [OF reads_bytes]])
        (use assms(1) in \<open>simp_all only: assign prod.case\<close>, simp_all add: memory_ok_def reads_pure)
    then show "reads (\<lambda>k. case sqli_descriptor_alloc_bytes (de_mem env) ?n True (Some (d
          \<lparr>dr_retained_bytes := dr_retained_bytes d + (\<Sum>f \<leftarrow> fs. owned_bytes ?e f), dr_fields := map (received_field ?e) fs\<rparr>)) of
        (rc, d) \<Rightarrow> if rc \<noteq> SQLI_OK then (Inl rc, k)
          else and_then (read_bytes ?n) (\<lambda>names. and_then (read_bytes (?n mod 2)) (\<lambda>pad k.
            case sqli_descriptor_assign_names (Some ((the d)\<lparr>dr_names := names\<rparr>)) of
              (rc, d) \<Rightarrow> if rc \<noteq> SQLI_OK then (Inl rc, k)
                else if length gs \<noteq> 0 \<and> \<not> de_mem env (length gs * sizeof_sqli_column_info) then (Inl SQLI_ALLOC_FAIL, k)
                else (Inr (the d), k))) k) (names_bytes fs @ replicate (?n mod 2) 0) (described info fs)"
      by (simp only: alloc prod.case option.sel if_False append_Nil2 simp_thms)
  qed
  have "reads (receive_description env) (net16 (di_statement_type info) @ net16 (di_statement_id info) @ net32 (di_cost_raw info) @
      net16 (di_tuple_size info) @ net16 (length fs) @ len @ body) (described info fs)"
    unfolding receive_description_def Let_def assms(2)
    by (intro reads_and_then [OF reads_be16] reads_and_then [OF reads_be32] reads_and_then [OF len])
      (use ok n tail [of fs] in \<open>simp_all add: info create\<close>)
  then show ?thesis
    using ok by (simp add: describe_body_def len_def body_def)
qed


text \<open>The result once the description is in place.\<close>

definition described_result :: "descriptor_info \<Rightarrow> sent_field list \<Rightarrow> result \<Rightarrow> result" where
  "described_result info fs r =
     replace_descriptor (described info fs) (descriptor_legacy_columns (described info fs)) r"

lemma describe_reads:
  assumes "memory_ok env" "de_extended_describe env = di_extended info" "describe_ok info fs"
    and "stream k = describe_body info fs @ rest"
  obtains k' where "dispatch_message env n SQLI_SQ_DESCRIBE r k = ((SQLI_OK, described_result info fs r), k')"
    "stream k' = rest" "k_conn k' = k_conn k"
proof -
  obtain k' where "receive_description env k = (Inr (described info fs), k')" "stream k' = rest" "k_conn k' = k_conn k"
    by (rule readsD [OF reads_description [OF assms(1-3)] assms(4)])
  then show thesis
    using that by (simp add: dispatch_message_def limit_defs receive_describe_def described_result_def)
qed

section \<open>DONE\<close>

lemma take_min_length: "take (min n (length xs)) xs = take n xs"
  by (simp add: min_def)

lemma peek_prefix:
  obtains m where "fst (sqli_peek_bytes n k) = take m (stream k)" "m \<le> n"
    "stream (snd (sqli_peek_bytes n k)) = stream k" "k_conn (snd (sqli_peek_bytes n k)) = k_conn k"
proof (cases "k_buffer k = []")
  case True
  show thesis
  proof (cases "k_peeks k")
    case Nil
    then show thesis using that [of 0] True by (simp add: sqli_peek_bytes_def sqli_tcp_peek_def)
  next
    case (Cons p ps)
    have "\<exists>m \<le> n. (case k_arrivals k of Bytes bytes # _ \<Rightarrow> take (min p n) bytes | _ \<Rightarrow> []) = take m (arriving (k_arrivals k))"
    proof (cases "\<exists>bytes rest. k_arrivals k = Bytes bytes # rest")
      case True
      then obtain bytes rest where "k_arrivals k = Bytes bytes # rest" by blast
      then show ?thesis by (intro exI [of _ "min (min p n) (length bytes)"]) (auto simp: take_min_length)
    next
      case False
      then show ?thesis by (intro exI [of _ 0]) (auto split: list.split arrival.split)
    qed
    then show thesis using that True Cons by (auto simp: sqli_peek_bytes_def sqli_tcp_peek_def stream_def)
  qed
next
  case False
  then show thesis using that [of "min n (length (k_buffer k))"]
    by (simp add: sqli_peek_bytes_def stream_def take_min_length)
qed

text \<open>The end of a reply, whether or not the bytes after DONE have arrived when the client looks for them.\<close>

definition done_body :: "nat \<Rightarrow> byte list \<Rightarrow> byte list \<Rightarrow> nat \<Rightarrow> byte list" where
  "done_body warnings rows row_id serial = net16 warnings @ rows @ row_id @ net32 serial"

definition finished :: "nat \<Rightarrow> byte list \<Rightarrow> nat \<Rightarrow> result \<Rightarrow> result" where
  "finished warnings rows serial r =
     (let r = r\<lparr>rs_warnings := warnings, rs_rows_affected := twos_value rows\<rparr>;
          r = (if serial \<noteq> 0 \<and> twos_value rows > 0
               then r\<lparr>rs_generated_serial := signed32 serial, rs_has_generated_serial := True\<rparr> else r)
      in r\<lparr>rs_eof := True, rs_saw_done := True\<rparr>)"

lemma eot_value: "be_value 256 (map unat (net16 SQLI_SQ_EOT)) = SQLI_SQ_EOT"
  by (rule net16_value) (simp add: limit_defs)

lemma take_eot: "length (take m (net16 SQLI_SQ_EOT)) = 2 \<Longrightarrow> take m (net16 SQLI_SQ_EOT) = net16 SQLI_SQ_EOT"
  by simp

lemma done_tail_eot:
  assumes "stream k = net16 SQLI_SQ_EOT"
  obtains k' where "done_tail k = (SQLI_OK, k')" "stream k' = net16 SQLI_SQ_EOT" "k_conn k' = k_conn k"
proof -
  obtain ahead k' where p: "sqli_peek_bytes 2 k = (ahead, k')" by (metis prod.collapse)
  obtain m where m: "ahead = take m (net16 SQLI_SQ_EOT)" "stream k' = net16 SQLI_SQ_EOT" "k_conn k' = k_conn k"
    using peek_prefix [of 2 k] assms p by (metis fst_conv snd_conv)
  have "length ahead = 2 \<Longrightarrow> be_value 256 (map unat ahead) = SQLI_SQ_EOT"
    using m(1) take_eot eot_value by metis
  moreover have "sqli_is_likely_opcode SQLI_SQ_EOT" "SQLI_SQ_EOT \<noteq> 0" by (simp_all add: sqli_is_likely_opcode_def limit_defs)
  ultimately have "done_tail k = (SQLI_OK, k')" by (cases "length ahead = 2") (simp_all add: done_tail_def p Let_def)
  then show thesis using that m by blast
qed

lemma drain_trailing_nothing: "stream k = [] \<Longrightarrow> k_conn (drain_trailing k) = k_conn k \<and> stream (drain_trailing k) = []"
proof -
  assume s: "stream k = []"
  obtain ahead k1 where p: "sqli_peek_bytes 2 k = (ahead, k1)" by (metis prod.collapse)
  obtain m where "ahead = take m []" "stream k1 = []" "k_conn k1 = k_conn k"
    using peek_prefix [of 2 k] s p by (metis fst_conv snd_conv)
  moreover from this have "drain_trailing k = k1" by (subst drain_trailing.simps) (simp add: p)
  ultimately show ?thesis by simp
qed

lemma drain_trailing_eot:
  assumes "stream k = net16 SQLI_SQ_EOT"
  shows "k_conn (drain_trailing k) = k_conn k" and "stream (drain_trailing k) \<in> {[], net16 SQLI_SQ_EOT}"
    and "k_arrivals (drain_trailing k) = [] \<Longrightarrow> stream (drain_trailing k) = []"
proof -
  obtain ahead k1 where p: "sqli_peek_bytes 2 k = (ahead, k1)" by (metis prod.collapse)
  obtain m where m: "ahead = take m (net16 SQLI_SQ_EOT)" "stream k1 = net16 SQLI_SQ_EOT @ []" "k_conn k1 = k_conn k"
    using peek_prefix [of 2 k] assms p by (metis append_Nil2 fst_conv snd_conv)
  have "SQLI_SQ_EOT < 2 ^ 16" by (simp add: limit_defs)
  from reads_be16 [OF this] m(2) obtain k2 where
    k2: "read_be16 k1 = (Inr SQLI_SQ_EOT, k2)" "stream k2 = []" "k_conn k2 = k_conn k1" by (rule readsD)
  have same: "k_buffer k1 = k_buffer k" "k_arrivals k1 = k_arrivals k"
    using p by (auto simp: sqli_peek_bytes_def sqli_tcp_peek_def split: if_splits list.splits)
  have "k_conn (drain_trailing k) = k_conn k \<and> stream (drain_trailing k) \<in> {[], net16 SQLI_SQ_EOT} \<and>
    (k_arrivals (drain_trailing k) = [] \<longrightarrow> stream (drain_trailing k) = [])"
  proof (cases "length ahead = 2")
    case True
    then have "be_value 256 (map unat ahead) = SQLI_SQ_EOT" using m(1) take_eot eot_value by metis
    moreover have "trailing_message SQLI_SQ_EOT k2 = (SQLI_OK, k2)" by (simp add: trailing_message_def limit_defs)
    ultimately have "drain_trailing k = drain_trailing k2"
      using True by (subst drain_trailing.simps) (simp add: p k2(1))
    then show ?thesis using drain_trailing_nothing [OF k2(2)] k2 m by simp
  next
    case False
    then have "drain_trailing k = k1" by (subst drain_trailing.simps) (simp add: p)
    moreover have "k_arrivals k1 \<noteq> []"
    proof
      assume "k_arrivals k1 = []"
      then have "k_buffer k = net16 SQLI_SQ_EOT" using assms same by (simp add: stream_def)
      then have "length (k_buffer k) = 2" "k_buffer k \<noteq> []" by (auto simp: net16_def)
      then show False using p False by (auto simp: sqli_peek_bytes_def)
    qed
    ultimately show ?thesis using m by simp
  qed
  then show "k_conn (drain_trailing k) = k_conn k" "stream (drain_trailing k) \<in> {[], net16 SQLI_SQ_EOT}"
    "k_arrivals (drain_trailing k) = [] \<Longrightarrow> stream (drain_trailing k) = []"
    by auto
qed

lemma done_reads:
  assumes "warnings < 2 ^ 16" "serial < 2 ^ 32" "length rows = (if de_long_row_id env then 8 else 4)"
    and "length row_id = (if de_long_row_id env then 8 else 4)"
    and "stream k = done_body warnings rows row_id serial @ net16 SQLI_SQ_EOT"
  obtains k' where "dispatch_message env n SQLI_SQ_DONE r k = ((SQLI_OK, finished warnings rows serial r), k')"
    "stream k' \<in> {[], net16 SQLI_SQ_EOT}" "k_conn k' = k_conn k" "k_arrivals k' = [] \<longrightarrow> stream k' = []"
proof -
  obtain k1 where k1: "read_be16 k = (Inr warnings, k1)" "stream k1 = (rows @ row_id @ []) @ net32 serial @ net16 SQLI_SQ_EOT"
      "k_conn k1 = k_conn k"
    by (rule readsD [OF reads_be16 [OF assms(1)]]) (use assms(5) in \<open>auto simp: done_body_def\<close>)
  let ?w = "if de_long_row_id env then 8 else 4"
  have "reads (and_then (read_bytes ?w) (\<lambda>rows. and_then (read_bytes ?w) (\<lambda>row_id k. (Inr rows, k)))) (rows @ row_id @ []) rows"
    by (rule reads_and_then [OF reads_bytes [OF assms(3)] reads_and_then [OF reads_bytes [OF assms(4)] reads_pure]])
  from readsD [OF this k1(2)] obtain k2 where
    k2: "and_then (read_bytes ?w) (\<lambda>rows. and_then (read_bytes ?w) (\<lambda>row_id k. (Inr rows, k))) k1 = (Inr rows, k2)"
      "stream k2 = net32 serial @ net16 SQLI_SQ_EOT" "k_conn k2 = k_conn k1" by metis
  obtain k3 where k3: "read_be32 k2 = (Inr serial, k3)" "stream k3 = net16 SQLI_SQ_EOT" "k_conn k3 = k_conn k2"
    by (rule readsD [OF reads_be32 [OF assms(2)] k2(2)])
  obtain k4 where k4: "done_tail k3 = (SQLI_OK, k4)" "stream k4 = net16 SQLI_SQ_EOT" "k_conn k4 = k_conn k3"
    by (rule done_tail_eot [OF k3(2)])
  have "receive_done env r k = ((SQLI_OK, finished warnings rows serial r), drain_trailing k4)"
    unfolding receive_done_def Let_def k1(1) prod.case sum.case k2(1) k3(1) k4(1)
    by (simp add: finished_def Let_def)
  then have "dispatch_message env n SQLI_SQ_DONE r k = ((SQLI_OK, finished warnings rows serial r), drain_trailing k4)"
    by (simp add: dispatch_message_def limit_defs)
  then show thesis using that drain_trailing_eot [OF k4(2)] k1 k2 k3 k4 by simp
qed


section \<open>Error replies\<close>

lemma drain_bytes_reads:
  "n \<le> length (stream k) \<Longrightarrow>
   \<exists>k'. drain_bytes n k = (SQLI_OK, k') \<and> stream k' = drop n (stream k) \<and> k_conn k' = k_conn k"
proof (induction n k rule: drain_bytes.induct)
  case (1 n k)
  show ?case
  proof (cases "n = 0")
    case True
    then show ?thesis by (simp add: drain_bytes.simps)
  next
    case False
    obtain rc got k1 where r: "read_exact (min n 256) k = ((rc, got), k1)" by (metis prod.collapse)
    have ok: "rc = SQLI_OK" "stream k1 = drop (min n 256) (stream k)" "k_conn k1 = k_conn k"
      using read_exact_stream [OF r] read_exact_pending(4) [OF r] 1(2) by (auto simp: min_def)
    have "n - min n 256 \<le> length (stream k1)" using ok(2) 1(2) by (simp add: diff_le_mono)
    then obtain k' where "drain_bytes (n - min n 256) k1 = (SQLI_OK, k')" "stream k' = drop (n - min n 256) (stream k1)"
        "k_conn k' = k_conn k1"
      using 1(1) [OF False refl r [symmetric] refl] ok(1) by blast
    then show ?thesis using False r ok by (subst drain_bytes.simps) (auto simp: Let_def)
  qed
qed

lemma read_str_reads:
  assumes "length msg < 2 ^ 16" "1 < limit" "stream k = counted_bytes msg @ rest"
  obtains k' where "read_str limit k = ((SQLI_OK, take (limit - 1) msg), k')" "stream k' = rest" "k_conn k' = k_conn k"
proof -
  define copy where "copy = min (length msg) (limit - 1)"
  obtain k1 where k1: "read_be16 k = (Inr (length msg), k1)" "stream k1 = msg @ replicate (length msg mod 2) 0 @ rest"
      "k_conn k1 = k_conn k"
    by (rule readsD [OF reads_be16 [OF assms(1)]]) (use assms(3) in \<open>auto simp: counted_bytes_def\<close>)
  show thesis
  proof (cases "msg = []")
    case True
    then show thesis using that [of k1] k1 by (simp add: read_str_def)
  next
    case False
    have copy: "0 < copy" "copy \<le> length msg" "take copy msg = take (limit - 1) msg"
      using False assms(2) by (auto simp: copy_def min_def)
    obtain rc got k2 where r: "read_exact copy k1 = ((rc, got), k2)" by (metis prod.collapse)
    have k2: "rc = SQLI_OK" "got = take (limit - 1) msg" "stream k2 = drop copy msg @ replicate (length msg mod 2) 0 @ rest"
        "k_conn k2 = k_conn k1"
      using read_exact_stream [OF r] read_exact_pending(4) [OF r] k1(2) copy by auto
    obtain k3 where k3: "drain_bytes (length msg - copy) k2 = (SQLI_OK, k3)" "stream k3 = replicate (length msg mod 2) 0 @ rest"
        "k_conn k3 = k_conn k2"
      using drain_bytes_reads [of "length msg - copy" k2] k2(3) by auto
    have str: "read_str limit k = (if odd (length msg) then case read_exact 1 k3 of ((rc, pad), k) \<Rightarrow> ((rc, got), k) else ((SQLI_OK, got), k3))"
      using False copy(1) assms(2) by (simp add: read_str_def k1(1) Let_def r [unfolded copy_def] k2(1) k3(1) [unfolded copy_def] del: One_nat_def)
    show thesis
    proof (cases "odd (length msg)")
      case True
      obtain rc4 pad k4 where r4: "read_exact 1 k3 = ((rc4, pad), k4)" by (metis prod.collapse)
      have "rc4 = SQLI_OK" "stream k4 = rest" "k_conn k4 = k_conn k3"
        using read_exact_stream [OF r4] read_exact_pending(4) [OF r4] k3(2) True by (auto simp: odd_iff_mod_2_eq_one)
      then show thesis using that [of k4] str True r4 k1(3) k2 k3(3) by simp
    next
      case False
      then have "stream k3 = rest" using k3(2) by (simp add: even_iff_mod_2_eq_zero)
      then show thesis using that [of k3] str False k1(3) k2 k3(3) by simp
    qed
  qed
qed

text \<open>The connection is not touched by the look behind an error message.\<close>

lemma after_error_conn:
  assumes "peek_after_error k = (ahead, k1)"
  shows "k_conn k1 = k_conn k" and "ahead = [0, u8 SQLI_SQ_EOT] \<Longrightarrow> k_conn (snd (read_be16 k1)) = k_conn k"
proof -
  have "k_buffer k1 = k_buffer k" "k_arrivals k1 = k_arrivals k" and conn: "k_conn k1 = k_conn k"
    using assms by (auto simp: peek_after_error_def sqli_tcp_peek_def split: if_splits list.splits)
  then have same: "stream k1 = stream k" by (simp add: stream_def)
  show "k_conn k1 = k_conn k" by (rule conn)
  assume two: "ahead = [0, u8 SQLI_SQ_EOT]"
  have "2 \<le> length (stream k)"
  proof (cases "length (k_buffer k) \<ge> 2")
    case True
    then show ?thesis by (simp add: stream_def)
  next
    case False
    have "length ahead = 2" using two by simp
    then have "2 \<le> length (arriving (k_arrivals k))"
      using assms False by (auto simp: peek_after_error_def sqli_tcp_peek_def split: list.splits arrival.splits)
    then show ?thesis by (simp add: stream_def)
  qed
  then obtain a b rest where "stream k1 = [a, b] @ rest" using same by (metis append_Cons append_Nil length_0_conv Suc_1 Suc_le_length_iff numeral_2_eq_2 One_nat_def)
  moreover obtain rc got k2 where r: "read_exact 2 k1 = ((rc, got), k2)" by (metis prod.collapse)
  ultimately show "k_conn (snd (read_be16 k1)) = k_conn k"
    using read_exact_stream [OF r] read_exact_pending(4) [OF r] conn by (simp add: read_be16_def r)
qed

text \<open>An error with a message, for the codes that have no layout of their own.\<close>

definition error_body :: "nat \<Rightarrow> nat \<Rightarrow> byte list \<Rightarrow> byte list \<Rightarrow> byte list" where
  "error_body code isam position msg = net16 code @ net16 isam @ position @ counted_bytes msg"

lemma error_reads:
  assumes "code < 2 ^ 16" "isam < 2 ^ 16" "length msg < 2 ^ 16" "length position = (if de_remove_64k_limit env then 4 else 2)"
    and "signed16 code \<notin> {-619, -368, 0, -937, 100}" "stream k = error_body code isam position msg @ rest"
  obtains k' where "dispatch_message env n SQLI_SQ_ERR r k =
      ((SQLI_PROTO_ERROR, r\<lparr>rs_error_code := signed16 code, rs_eof := True, rs_saw_error := True\<rparr>), k')"
    "k_conn k' = set_error_info_from_sqerr env SQLI_PROTO_ERROR SQLI_SQ_ERR (signed16 code) (signed16 isam) []
       (c_text (take 511 msg)) (k_conn k)"
proof -
  obtain k1 where k1: "read_be16 k = (Inr code, k1)" "stream k1 = net16 isam @ position @ counted_bytes msg @ rest" "k_conn k1 = k_conn k"
    by (rule readsD [OF reads_be16 [OF assms(1)]]) (use assms(6) in \<open>auto simp: error_body_def\<close>)
  obtain k2 where k2: "read_be16 k1 = (Inr isam, k2)" "stream k2 = position @ counted_bytes msg @ rest" "k_conn k2 = k_conn k1"
    by (rule readsD [OF reads_be16 [OF assms(2)] k1(2)])
  obtain k3 where k3: "drain_bytes (if de_remove_64k_limit env then 4 else 2) k2 = (SQLI_OK, k3)" "stream k3 = counted_bytes msg @ rest"
      "k_conn k3 = k_conn k2"
    using drain_bytes_reads [of "length position" k2] k2(2) assms(4) by auto
  obtain k4 where k4: "read_str 512 k3 = ((SQLI_OK, take 511 msg), k4)" "k_conn k4 = k_conn k3"
    using read_str_reads [OF assms(3) _ k3(2), of 512] by auto
  have texts: "error_texts env (signed16 code) k2 = (([], take 511 msg), k4)"
    using assms(5) k3(1) k4(1) by (simp add: error_texts_def)
  define k5 where "k5 = k4\<lparr>k_conn := set_error_info_from_sqerr env SQLI_PROTO_ERROR SQLI_SQ_ERR (signed16 code) (signed16 isam) []
       (c_text (take 511 msg)) (k_conn k)\<rparr>"
  obtain ahead k6 where p: "peek_after_error k5 = (ahead, k6)" by (metis prod.collapse)
  define k7 where "k7 = (if ahead = [0, u8 SQLI_SQ_EOT] then snd (read_be16 k6) else k6)"
  have "sqli_receive_error env r k =
      ((SQLI_PROTO_ERROR, r\<lparr>rs_error_code := signed16 code, rs_eof := True, rs_saw_error := True\<rparr>), k7)"
    using k1 k2 k3(3) k4(2) p by (simp add: sqli_receive_error_def texts k5_def k7_def c_text_def)
  moreover have "k_conn k7 = k_conn k5" using after_error_conn [OF p] by (simp add: k7_def)
  ultimately show thesis using that by (simp add: dispatch_message_def limit_defs k5_def)
qed

end
