(* ===== verification/DispatchSafety.thy ===== *)
theory DispatchSafety
  imports DispatchFacts ResultSafety
begin

text \<open>
  The properties of the dispatcher: a reply to a query from its bytes to the rows that the cursor
  delivers, the description of the columns, the report of a server error, and what holds of every
  peer.
\<close>

section \<open>Replies\<close>

text \<open>A reply to a query: the description, the rows, the counts and the end of the group.\<close>

record reply =
  rp_info :: descriptor_info
  rp_fields :: "sent_field list"
  rp_tuples :: "tuple list"
  rp_warnings :: nat
  rp_affected :: "byte list"
  rp_row_id :: "byte list"
  rp_serial :: nat

definition reply_bytes :: "reply \<Rightarrow> byte list" where
  "reply_bytes p =
     net16 SQLI_SQ_DESCRIBE @ describe_body (rp_info p) (rp_fields p) @ tuples_message (rp_tuples p) @
     net16 SQLI_SQ_DONE @ done_body (rp_warnings p) (rp_affected p) (rp_row_id p) (rp_serial p) @ net16 SQLI_SQ_EOT"

definition reply_columns :: "reply \<Rightarrow> column_info list" where
  "reply_columns p = descriptor_legacy_columns (described (rp_info p) (rp_fields p))"

text \<open>What a server may send under the capabilities of the connection, with rows that fit the columns.\<close>

definition reply_ok :: "dispatch_env \<Rightarrow> reply \<Rightarrow> bool" where
  "reply_ok env p \<longleftrightarrow>
     di_extended (rp_info p) = de_extended_describe env \<and> describe_ok (rp_info p) (rp_fields p) \<and> rp_fields p \<noteq> [] \<and>
     (\<forall>t \<in> set (rp_tuples p). tuple_ok t \<and> row_reads (reply_columns p) (tuple_row t)) \<and>
     int (length (rp_tuples p)) \<le> INT32_MAX \<and> (\<Sum>t \<leftarrow> rp_tuples p. length (tuple_row t)) \<le> 2 ^ 63 \<and>
     rp_warnings p < 2 ^ 16 \<and> rp_serial p < 2 ^ 32 \<and>
     length (rp_affected p) = (if de_long_row_id env then 8 else 4) \<and>
     length (rp_row_id p) = (if de_long_row_id env then 8 else 4)"

text \<open>A result as the library creates it for a query.\<close>

definition fresh_result :: "result \<Rightarrow> bool" where
  "fresh_result r \<longleftrightarrow> rs_rows r = None \<and> rs_row_count r = 0 \<and> rs_arena_len r = 0 \<and> \<not> rs_eof r \<and> rs_tuple r = None \<and>
     rs_fetch_status r = SQLI_OK \<and> \<not> rs_saw_error r \<and> rs_error_code r = 0"

lemma finished_simps [simp]:
  "rs_eof (finished w rows s r)" "rs_rows_affected (finished w rows s r) = twos_value rows"
  "rs_rows (finished w rows s r) = rs_rows r" "rs_row_count (finished w rows s r) = rs_row_count r"
  "rs_columns (finished w rows s r) = rs_columns r" "rs_cursor (finished w rows s r) = rs_cursor r"
  "rs_current_row (finished w rows s r) = rs_current_row r" "rs_tuple (finished w rows s r) = rs_tuple r"
  "rs_at_before_first (finished w rows s r) = rs_at_before_first r" "rs_cache (finished w rows s r) = rs_cache r"
  "rs_at_after_last (finished w rows s r) = rs_at_after_last r" "rs_saw_error (finished w rows s r) = rs_saw_error r"
  "rs_absolute_row_num (finished w rows s r) = rs_absolute_row_num r" "rs_error_code (finished w rows s r) = rs_error_code r"
  "rs_fetch_status (finished w rows s r) = rs_fetch_status r" "rs_cursor_type (finished w rows s r) = rs_cursor_type r"
  "rs_statement_type (finished w rows s r) = rs_statement_type r" "rs_stmt_id (finished w rows s r) = rs_stmt_id r"
  "rs_holdability (finished w rows s r) = rs_holdability r" "rs_commit_epoch (finished w rows s r) = rs_commit_epoch r"
  "rs_rollback_epoch (finished w rows s r) = rs_rollback_epoch r" "result_rows (finished w rows s r) = result_rows r"
  by (simp_all add: finished_def Let_def result_rows_def)

lemma step_loop:
  assumes "\<not> rs_eof r" "stream k = net16 opcode @ rest" "opcode < 2 ^ 16"
    and "\<And>k1. stream k1 = rest \<Longrightarrow> k_conn k1 = k_conn k \<Longrightarrow>
      \<exists>k2. dispatch_message env n opcode r k1 = ((SQLI_OK, r'), k2) \<and> P k2"
  obtains k2 where "dispatch_loop env n r k = dispatch_loop env n r' k2" "P k2"
proof -
  obtain k1 where k1: "stream k1 = rest" "k_conn k1 = k_conn k"
    "dispatch_loop env n r k = (case dispatch_message env n opcode r k1 of
       ((rc, r), k) \<Rightarrow> if rc \<noteq> SQLI_OK then ((rc, r), k) else dispatch_loop env n r k)"
    by (rule dispatch_opcode [OF assms(1-3), of env n])
  obtain k2 where k2: "dispatch_message env n opcode r k1 = ((SQLI_OK, r'), k2)" "P k2"
    using assms(4) [OF k1(1,2)] by blast
  have "dispatch_loop env n r k = dispatch_loop env n r' k2" unfolding k1(3) k2(1) by simp
  then show thesis using that k2(2) by blast
qed

text \<open>The rows of a reply, the counts and the end of the group.\<close>

definition rows_bytes :: "reply \<Rightarrow> byte list" where
  "rows_bytes p = tuples_message (rp_tuples p) @ net16 SQLI_SQ_DONE @
     done_body (rp_warnings p) (rp_affected p) (rp_row_id p) (rp_serial p) @ net16 SQLI_SQ_EOT"

definition counts_ok :: "dispatch_env \<Rightarrow> reply \<Rightarrow> bool" where
  "counts_ok env p \<longleftrightarrow> rp_warnings p < 2 ^ 16 \<and> rp_serial p < 2 ^ 32 \<and>
     length (rp_affected p) = (if de_long_row_id env then 8 else 4) \<and>
     length (rp_row_id p) = (if de_long_row_id env then 8 else 4)"

lemma dispatch_rows:
  assumes "memory_ok env" "\<forall>t \<in> set (rp_tuples p). tuple_ok t" "counts_ok env p" "\<not> rs_eof r"
    and "rs_arena_len r + (\<Sum>t \<leftarrow> rp_tuples p. length (tuple_row t)) \<le> 2 ^ 63" "stream k = rows_bytes p"
  obtains r1 k' where "rows_added r (map tuple_row (rp_tuples p)) r1"
    "dispatch_loop env n r k = ((SQLI_OK, finished (rp_warnings p) (rp_affected p) (rp_serial p) r1), k')"
    "stream k' \<in> {[], net16 SQLI_SQ_EOT}" "k_conn k' = k_conn k" "k_arrivals k' = [] \<longrightarrow> stream k' = []"
proof -
  define end_bytes where "end_bytes = net16 SQLI_SQ_DONE @
    done_body (rp_warnings p) (rp_affected p) (rp_row_id p) (rp_serial p) @ net16 SQLI_SQ_EOT"
  have s: "stream k = tuples_message (rp_tuples p) @ end_bytes" using assms(6) by (simp add: rows_bytes_def end_bytes_def)
  have small: "SQLI_SQ_DONE < 2 ^ 16" by (simp add: limit_defs)
  obtain r1 k2 where r1: "dispatch_loop env n r k = dispatch_loop env n r1 k2"
      "rows_added r (map tuple_row (rp_tuples p)) r1" "\<not> rs_eof r1" "stream k2 = end_bytes" "k_conn k2 = k_conn k"
    using dispatch_tuples [OF assms(1,2,4,5) s] by metis
  define P where "P k3 \<longleftrightarrow> stream k3 \<in> {[], net16 SQLI_SQ_EOT} \<and> k_conn k3 = k_conn k2 \<and>
    (k_arrivals k3 = [] \<longrightarrow> stream k3 = [])" for k3
  have "done": "\<exists>k4. dispatch_message env n SQLI_SQ_DONE r1 k3 =
        ((SQLI_OK, finished (rp_warnings p) (rp_affected p) (rp_serial p) r1), k4) \<and> P k4"
    if "stream k3 = done_body (rp_warnings p) (rp_affected p) (rp_row_id p) (rp_serial p) @ net16 SQLI_SQ_EOT"
      "k_conn k3 = k_conn k2" for k3
    by (rule done_reads [OF _ _ _ _ that(1), where n = n and r = r1 and env = env])
      (use assms(3) that(2) in \<open>auto simp: counts_ok_def P_def\<close>)
  obtain k3 where k3: "dispatch_loop env n r1 k2 =
      dispatch_loop env n (finished (rp_warnings p) (rp_affected p) (rp_serial p) r1) k3" "P k3"
    by (rule step_loop [OF r1(3) r1(4) [unfolded end_bytes_def] small, where P = P]) (use "done" in fastforce)+
  have "dispatch_loop env n (finished (rp_warnings p) (rp_affected p) (rp_serial p) r1) k3 =
      ((SQLI_OK, finished (rp_warnings p) (rp_affected p) (rp_serial p) r1), k3)"
    by (subst dispatch_loop.simps) simp
  then show thesis using that [OF r1(2)] r1(1,5) k3(1) k3(2) [unfolded P_def] by simp
qed

lemma dispatch_reply:
  assumes "memory_ok env" "reply_ok env p" "fresh_result r" "stream k = reply_bytes p"
  obtains r1 k' where "rows_added (described_result (rp_info p) (rp_fields p) r) (map tuple_row (rp_tuples p)) r1"
    "dispatch_loop env n r k = ((SQLI_OK, finished (rp_warnings p) (rp_affected p) (rp_serial p) r1), k')"
    "stream k' \<in> {[], net16 SQLI_SQ_EOT}" "k_conn k' = k_conn k" "k_arrivals k' = [] \<longrightarrow> stream k' = []"
proof -
  note ok = assms(2) [unfolded reply_ok_def] and fresh = assms(3) [unfolded fresh_result_def]
  define r0 where "r0 = described_result (rp_info p) (rp_fields p) r"
  have s: "stream k = net16 SQLI_SQ_DESCRIBE @ describe_body (rp_info p) (rp_fields p) @ rows_bytes p"
    using assms(4) by (simp add: reply_bytes_def rows_bytes_def)
  have small: "SQLI_SQ_DESCRIBE < 2 ^ 16" by (simp add: limit_defs)
  have describe: "\<exists>k2. dispatch_message env n SQLI_SQ_DESCRIBE r k1 = ((SQLI_OK, r0), k2) \<and>
      stream k2 = rows_bytes p \<and> k_conn k2 = k_conn k1"
    if "stream k1 = describe_body (rp_info p) (rp_fields p) @ rows_bytes p" for k1
    by (rule describe_reads [OF assms(1) _ _ that, where n = n and r = r]) (use ok r0_def in auto)
  obtain k1 where k1: "dispatch_loop env n r k = dispatch_loop env n r0 k1" "stream k1 = rows_bytes p \<and> k_conn k1 = k_conn k"
    by (rule step_loop [OF _ s small(1), where P = "\<lambda>k1. stream k1 = rows_bytes p \<and> k_conn k1 = k_conn k"])
      (use fresh describe in fastforce)+
  have r0: "\<not> rs_eof r0" "rs_arena_len r0 + (\<Sum>t \<leftarrow> rp_tuples p. length (tuple_row t)) \<le> 2 ^ 63"
    using ok fresh by (simp_all add: r0_def described_result_def replace_descriptor_def)
  have "\<forall>t \<in> set (rp_tuples p). tuple_ok t" "counts_ok env p" using ok by (auto simp: counts_ok_def)
  then obtain r1 k' where "rows_added r0 (map tuple_row (rp_tuples p)) r1"
      "dispatch_loop env n r0 k1 = ((SQLI_OK, finished (rp_warnings p) (rp_affected p) (rp_serial p) r1), k')"
      "stream k' \<in> {[], net16 SQLI_SQ_EOT}" "k_conn k' = k_conn k1" "k_arrivals k' = [] \<longrightarrow> stream k' = []"
    using k1(2) by (elim dispatch_rows [OF assms(1) _ _ r0, of k1]) auto
  then show thesis using that [of r1 k'] k1 r0_def by simp
qed

section \<open>Properties\<close>

text \<open>
  C8. The whole path of a query: the bytes of a reply, cut into pieces by the network in any way, are
  received without an error; the result has the columns described and the count of the DONE message, and
  the loop that calls \<open>sqli_result_next\<close> delivers exactly the rows that were sent, in order.
\<close>

theorem query_reply_delivered:
  assumes "memory_ok env" "reply_ok env p" "fresh_result r" "stream k = reply_bytes p"
    and "cursor_env_ok renv (described_result (rp_info p) (rp_fields p) r)"
  shows "\<exists>r' k'. sqli_receive_dispatch env (Some r) k = ((SQLI_OK, Some r'), k') \<and> k_conn k' = k_conn k \<and>
    rs_columns r' = reply_columns p \<and> rs_rows_affected r' = twos_value (rp_affected p) \<and> cursor_ok renv r' \<and>
    fst (drain (sqli_result_next renv) rs_tuple (length (rp_tuples p) + 1) r') = map (Some \<circ> tuple_row) (rp_tuples p)"
proof -
  note ok = assms(2) [unfolded reply_ok_def] and fresh = assms(3) [unfolded fresh_result_def]
  obtain r1 k' where r1: "rows_added (described_result (rp_info p) (rp_fields p) r) (map tuple_row (rp_tuples p)) r1"
    "dispatch_loop env (rs_row_count r) r k = ((SQLI_OK, finished (rp_warnings p) (rp_affected p) (rp_serial p) r1), k')"
    "k_conn k' = k_conn k"
    by (rule dispatch_reply [OF assms(1-4), of "rs_row_count r"])
  define r' where "r' = finished (rp_warnings p) (rp_affected p) (rp_serial p) r1"
  have cols: "rs_columns r' = reply_columns p"
    using r1(1) by (simp add: r'_def rows_added_def described_result_def replace_descriptor_def reply_columns_def)
  have rows: "result_rows r' = map tuple_row (rp_tuples p)" "rs_row_count r' = int (length (rp_tuples p))"
      "rp_tuples p \<noteq> [] \<Longrightarrow> rs_rows r' \<noteq> None"
    using r1(1) fresh by (auto simp: r'_def rows_added_def described_result_def replace_descriptor_def result_rows_def)
  have position: "off_rows r'" "cursor_position r' = 0"
    using r1(1) fresh
    by (simp_all add: r'_def rows_added_def described_result_def replace_descriptor_def off_rows_def cursor_position_def)
  have "cursor_env_ok renv r'"
    using assms(5) r1(1)
    by (simp add: r'_def rows_added_def cursor_env_ok_def sqli_result_is_closed_by_commit_def
        sqli_result_is_server_scrollable_def cong: option.case_cong)
  moreover have "storage_ok r'"
  proof -
    have "length (reply_columns p) = length (rp_fields p)" "length (rp_fields p) < 2 ^ 16"
      using ok by (simp_all add: reply_columns_def descriptor_legacy_columns_def described_def describe_ok_def)
    moreover from this have "reply_columns p \<noteq> []" using ok by auto
    moreover have "rs_fetch_status r' = SQLI_OK \<and> \<not> rs_saw_error r' \<and> rs_error_code r' = 0 \<and> rs_cache r' = None"
      using r1(1) fresh by (simp add: r'_def rows_added_def described_result_def replace_descriptor_def)
    ultimately show ?thesis
      using cols rows ok by (auto simp: storage_ok_def cache_fits_def SIZE_MAX_def)
  qed
  ultimately have cursor: "cursor_ok renv r'" using position by (simp add: cursor_ok_def)
  have "fst (drain (sqli_result_next renv) rs_tuple (length (rp_tuples p) + 1) r') = map Some (result_rows r')"
    using client_cursor.reads_all_rows(1) [OF cursor position(2), of "length (rp_tuples p) + 1"] rows(1)
    by (simp add: cursor_step_next)
  moreover have "sqli_receive_dispatch env (Some r) k = ((SQLI_OK, Some r'), k')"
    using r1(2) by (simp add: sqli_receive_dispatch_def r'_def)
  ultimately show ?thesis using cols rows(1) cursor r1(3) by (auto simp: r'_def)
qed


text \<open>
  C16. A DESCRIBE message is read back: the descriptor and the columns of the result have, for every field that
  the server sent, in the simple and in the extended layout, its name, numbers and type names; the
  rows received before are kept, and the cursor is before them.
\<close>

theorem describe_round_trip:
  assumes "memory_ok env" "de_extended_describe env = di_extended info" "describe_ok info fs"
    and "stream k = describe_body info fs @ rest" "i < length fs"
  shows "\<exists>r' k' d f. dispatch_message env n SQLI_SQ_DESCRIBE r k = ((SQLI_OK, r'), k') \<and> stream k' = rest \<and>
    rs_descriptor r' = Some d \<and> dr_info d = info \<and> sqli_descriptor_get_field_count True (Some d) = Inr (length fs) \<and>
    sqli_descriptor_get_field True i (Some d) = Inr f \<and>
    sqli_descriptor_field_get_name True (Some f) = Inr (sf_name (fs ! i)) \<and>
    df_field_index f = sf_index (fs ! i) \<and> df_tuple_offset f = sf_offset (fs ! i) \<and>
    df_type_raw f = sf_type (fs ! i) \<and> df_encoded_length f = sf_length (fs ! i) \<and>
    (di_extended info \<longrightarrow> df_extended_info f = sf_extended (fs ! i) \<and>
      sqli_descriptor_field_get_type_owner True (Some f) = Inr (sf_owner (fs ! i)) \<and>
      sqli_descriptor_field_get_type_name True (Some f) = Inr (sf_type_name (fs ! i)) \<and>
      df_reference f = sf_reference (fs ! i) \<and> df_alignment f = sf_alignment (fs ! i) \<and>
      df_source_type f = sf_source (fs ! i)) \<and>
    ci_name (rs_columns r' ! i) = c_text (take 127 (sf_name (fs ! i))) \<and>
    ci_encoded_length (rs_columns r' ! i) = sf_length (fs ! i) \<and>
    rs_rows r' = rs_rows r \<and> rs_at_before_first r' \<and> rs_current_row r' = -1"
proof -
  obtain k' where k': "dispatch_message env n SQLI_SQ_DESCRIBE r k = ((SQLI_OK, described_result info fs r), k')" "stream k' = rest"
    by (rule describe_reads [OF assms(1-4), of n r])
  let ?d = "described info fs" and ?f = "named_field (di_extended info) (fs ! i)"
  have count: "di_field_count info = length fs" using assms(3) by (simp add: describe_ok_def)
  have field: "sqli_descriptor_get_field True i (Some ?d) = Inr ?f"
    using count assms(5) by (simp add: sqli_descriptor_get_field_def described_def)
  have col: "rs_columns (described_result info fs r) ! i = legacy_column (di_extended info) ?f"
    using assms(5) by (simp add: described_result_def replace_descriptor_def descriptor_legacy_columns_def described_def)
  have f: "df_name ?f = Some (sf_name (fs ! i))" "df_field_index ?f = sf_index (fs ! i)" "df_tuple_offset ?f = sf_offset (fs ! i)"
    "df_type_raw ?f = sf_type (fs ! i)" "df_encoded_length ?f = sf_length (fs ! i)"
    by (simp_all add: named_field_def received_field_def Let_def)
  show ?thesis
    using k' count field col
    by (intro exI [of _ "described_result info fs r"] exI [of _ k'] exI [of _ ?d] exI [of _ ?f] conjI impI)
      (simp_all add: f described_result_def replace_descriptor_def legacy_column_def Let_def get_bytes_def
        sqli_descriptor_get_field_count_def sqli_descriptor_field_get_name_def sqli_descriptor_field_get_type_owner_def
        sqli_descriptor_field_get_type_name_def named_field_def received_field_def described_def)
qed


text \<open>
  C14. An error of the server is reported, and rows that came before it are not delivered: the dispatcher
  returns \<open>SQLI_PROTO_ERROR\<close> with the codes and the message in the connection's diagnostics, and from
  then on \<open>sqli_result_next\<close> finds no row, whatever the state of the connection.
\<close>

theorem error_reply_reported:
  assumes "memory_ok env" "\<forall>t \<in> set ts. tuple_ok t" "\<not> rs_eof r"
    and "rs_arena_len r + (\<Sum>t \<leftarrow> ts. length (tuple_row t)) \<le> 2 ^ 63"
    and "code < 2 ^ 16" "isam < 2 ^ 16" "length msg < 2 ^ 16" "length position = (if de_remove_64k_limit env then 4 else 2)"
    and "signed16 code \<notin> {-619, -368, 0, -937, 100}"
    and "stream k = tuples_message ts @ net16 SQLI_SQ_ERR @ error_body code isam position msg @ rest"
  shows "\<exists>r' k'. sqli_receive_dispatch env (Some r) k = ((SQLI_PROTO_ERROR, Some r'), k') \<and>
    result_rows r' = result_rows r @ map tuple_row ts \<and> rs_error_code r' = signed16 code \<and>
    ei_has_error (c_error_info (k_conn k')) \<and> ei_sqlcode (c_error_info (k_conn k')) = signed16 code \<and>
    ei_isamcode (c_error_info (k_conn k')) = signed16 isam \<and>
    ei_server_message (c_error_info (k_conn k')) = take 255 (c_text (take 511 msg)) \<and>
    ei_sql_message (c_error_info (k_conn k')) = take 383 (de_catalog env (signed16 code)) \<and>
    (\<forall>renv. \<not> fst (sqli_result_next renv r'))"
proof -
  obtain r1 k1 where r1: "dispatch_loop env (rs_row_count r) r k = dispatch_loop env (rs_row_count r) r1 k1"
      "rows_added r (map tuple_row ts) r1" "\<not> rs_eof r1"
      "stream k1 = net16 SQLI_SQ_ERR @ error_body code isam position msg @ rest" "k_conn k1 = k_conn k"
    using dispatch_tuples [OF assms(1-4,10)] by metis
  have small: "SQLI_SQ_ERR < 2 ^ 16" by (simp add: limit_defs)
  obtain k2 where k2: "stream k2 = error_body code isam position msg @ rest" "k_conn k2 = k_conn k1"
      "dispatch_loop env (rs_row_count r) r1 k1 = (case dispatch_message env (rs_row_count r) SQLI_SQ_ERR r1 k2 of
         ((rc, r'), k) \<Rightarrow> if rc \<noteq> SQLI_OK then ((rc, r'), k) else dispatch_loop env (rs_row_count r) r' k)"
    by (rule dispatch_opcode [OF r1(3,4) small, of env "rs_row_count r"])
  define r' where "r' = r1\<lparr>rs_error_code := signed16 code, rs_eof := True, rs_saw_error := True\<rparr>"
  obtain k' where k': "dispatch_message env (rs_row_count r) SQLI_SQ_ERR r1 k2 = ((SQLI_PROTO_ERROR, r'), k')"
      "k_conn k' = set_error_info_from_sqerr env SQLI_PROTO_ERROR SQLI_SQ_ERR (signed16 code) (signed16 isam) []
         (c_text (take 511 msg)) (k_conn k2)"
    unfolding r'_def by (rule error_reads [OF assms(5-9) k2(1), of "rs_row_count r" r1])
  have "dispatch_loop env (rs_row_count r) r k = ((SQLI_PROTO_ERROR, r'), k')"
    unfolding r1(1) k2(3) k'(1) by simp
  then have "sqli_receive_dispatch env (Some r) k = ((SQLI_PROTO_ERROR, Some r'), k')"
    by (simp add: sqli_receive_dispatch_def)
  moreover have "\<not> fst (sqli_result_next renv r')" for renv
    by (simp add: sqli_result_next_def sqli_result_fetch_def fetch_failed_def r'_def split: option.split)
  moreover have "result_rows r' = result_rows r @ map tuple_row ts"
    using r1(2) by (simp add: rows_added_def r'_def result_rows_def)
  ultimately show ?thesis
    by (intro exI [of _ r'] exI [of _ k']) (simp add: r'_def k'(2) set_error_info_from_sqerr_def Let_def)
qed

text \<open>The rows of a result under its messages, for any bytes at all.\<close>

definition rows_kept :: "result \<times> link \<Rightarrow> result \<times> link \<Rightarrow> bool" where
  "rows_kept s s' \<longleftrightarrow> (\<exists>rows. result_rows (fst s') = result_rows (fst s) @ rows \<and>
     rs_row_count (fst s') = rs_row_count (fst s) + int (length rows) \<and>
     (\<forall>row \<in> set rows. length row \<le> SQLI_MAX_TUPLE_BYTES) \<and>
     sum_list (map length rows) + pending (snd s') \<le> pending (snd s))"

lemma rows_kept_same:
  "result_rows r' = result_rows r \<Longrightarrow> rs_row_count r' = rs_row_count r \<Longrightarrow> pending k' \<le> pending k \<Longrightarrow> rows_kept (r, k) (r', k')"
  by (simp add: rows_kept_def)

lemma rows_kept_trans:
  assumes "rows_kept a b" "rows_kept b c"
  shows "rows_kept a c"
proof -
  obtain xs ys where "result_rows (fst b) = result_rows (fst a) @ xs" "rs_row_count (fst b) = rs_row_count (fst a) + int (length xs)"
    "\<forall>row \<in> set xs. length row \<le> SQLI_MAX_TUPLE_BYTES" "sum_list (map length xs) + pending (snd b) \<le> pending (snd a)"
    "result_rows (fst c) = result_rows (fst b) @ ys" "rs_row_count (fst c) = rs_row_count (fst b) + int (length ys)"
    "\<forall>row \<in> set ys. length row \<le> SQLI_MAX_TUPLE_BYTES" "sum_list (map length ys) + pending (snd c) \<le> pending (snd b)"
    using assms unfolding rows_kept_def by blast
  then show ?thesis unfolding rows_kept_def by (intro exI [of _ "xs @ ys"]) auto
qed

lemma read_bytes_pending: "read_bytes n k = (Inr bytes, k') \<Longrightarrow> length bytes = n \<and> pending k' + n = pending k"
  using read_exact_pending(1,2) [of n k] by (auto simp: read_bytes_def split: prod.splits if_splits)

lemma reserve_rows:
  "reserve_arena env n r = Inr r' \<Longrightarrow> rs_rows r' = rs_rows r"
  "reserve_arena env n r = Inr r' \<Longrightarrow> rs_row_count r' = rs_row_count r"
  "reserve_row env r = Inr r' \<Longrightarrow> rs_rows r' = rs_rows r"
  "reserve_row env r = Inr r' \<Longrightarrow> rs_row_count r' = rs_row_count r"
  by (auto simp: reserve_arena_def reserve_row_def Let_def split: if_splits option.splits)

lemma append_row_rows [simp]:
  "result_rows (append_row w row r) = result_rows r @ [row]" "rs_row_count (append_row w row r) = rs_row_count r + 1"
  by (simp_all add: append_row_def result_rows_def split: option.split)

lemma receive_tuple_keeps:
  assumes "receive_tuple env r k = ((rc, r'), k')"
  shows "rows_kept (r, k) (r', k')"
proof -
  obtain x k1 where head: "and_then read_be16 (\<lambda>warnings. and_then read_be32 (\<lambda>len k. (Inr (warnings, len), k))) k = (x, k1)"
    by (metis prod.collapse)
  have shrink: "pending k' \<le> pending k" using keepsD [OF shrinking.keeps_tuple assms] .
  have "shrinks (and_then read_be16 (\<lambda>warnings. and_then read_be32 (\<lambda>len k. (Inr (warnings, len), k))))"
    by (intro shrinks_intros)
  from keepsD [OF this head] have k1: "pending k1 \<le> pending k" .
  have unchanged: "rs_rows r' = rs_rows r \<and> rs_row_count r' = rs_row_count r \<Longrightarrow> ?thesis"
    using shrink by (intro rows_kept_same) (simp_all add: result_rows_def)
  show ?thesis
  proof (cases x)
    case (Inl e)
    then show ?thesis using assms by (intro unchanged) (simp add: receive_tuple_def head)
  next
    case (Inr h)
    obtain warnings len where x: "x = Inr (warnings, len)" using Inr by (cases h) simp
    obtain y k2 where row: "read_bytes len k1 = (y, k2)" by (metis prod.collapse)
    obtain z k3 where pad: "read_bytes (len mod 2) k2 = (z, k3)" by (metis prod.collapse)
    note eq = receive_tuple_def head x prod.case sum.case
    show ?thesis
    proof (cases "len > SQLI_MAX_TUPLE_BYTES \<or> (\<exists>e. reserve_arena env len r = Inl e)")
      case True
      then show ?thesis using assms by (intro unchanged) (auto simp: eq simp del: print_nat.simps split: if_splits)
    next
      case False
      then obtain r1 where r1: "len \<le> SQLI_MAX_TUPLE_BYTES" "reserve_arena env len r = Inr r1"
        by (cases "reserve_arena env len r") auto
      have kept: "rs_rows r1 = rs_rows r" "rs_row_count r1 = rs_row_count r" by (rule reserve_rows(1,2) [OF r1(2)])+
      define r2 where "r2 = r1\<lparr>rs_arena_len := rs_arena_len r1 + len\<rparr>"
      have tail: "((rc, r'), k') = (case y of Inl rc \<Rightarrow> ((rc, r1), k2) | Inr row \<Rightarrow>
          (case z of Inl rc \<Rightarrow> ((rc, r2), k3) | Inr pad \<Rightarrow>
            (case reserve_row env r2 of Inl rc \<Rightarrow> ((rc, r2), k3) | Inr r3 \<Rightarrow> ((SQLI_OK, append_row warnings row r3), k3))))"
        using assms [symmetric] r1 by (simp add: eq row pad r2_def Let_def cong: sum.case_cong)
      show ?thesis
      proof (cases "\<exists>bytes b r3. y = Inr bytes \<and> z = Inr b \<and> reserve_row env r2 = Inr r3")
        case True
        then obtain bytes b r3 where ok: "y = Inr bytes" "z = Inr b" "reserve_row env r2 = Inr r3" by blast
        have "result_rows r3 = result_rows r" "rs_row_count r3 = rs_row_count r"
          using reserve_rows(3,4) [OF ok(3)] kept by (simp_all add: r2_def result_rows_def)
        moreover have "r' = append_row warnings bytes r3" "k' = k3" using tail ok by simp_all
        ultimately show ?thesis
          using read_bytes_pending [OF row [unfolded ok]] read_bytes_pending [OF pad [unfolded ok]] r1(1) k1
          unfolding rows_kept_def by (intro exI [of _ "[bytes]"]) simp
      next
        case False
        then show ?thesis
          using tail kept by (intro unchanged; cases y; cases z; cases "reserve_row env r2") (auto simp: r2_def)
      qed
    qed
  qed
qed

lemma other_messages_keep:
  "receive_describe env r k = ((rc, r'), k') \<Longrightarrow> rs_rows r' = rs_rows r \<and> rs_row_count r' = rs_row_count r"
  "sqli_receive_error env r k = ((rc, r'), k') \<Longrightarrow> rs_rows r' = rs_rows r \<and> rs_row_count r' = rs_row_count r"
  "receive_eot env n r k = ((rc, r'), k') \<Longrightarrow> rs_rows r' = rs_rows r \<and> rs_row_count r' = rs_row_count r"
  "receive_insertdone r k = ((rc, r'), k') \<Longrightarrow> rs_rows r' = rs_rows r \<and> rs_row_count r' = rs_row_count r"
  "unknown_opcode env opcode r k = ((rc, r'), k') \<Longrightarrow> rs_rows r' = rs_rows r \<and> rs_row_count r' = rs_row_count r"
  "keeping r x = ((rc, r'), k') \<Longrightarrow> rs_rows r' = rs_rows r \<and> rs_row_count r' = rs_row_count r"
  by (auto simp: receive_describe_def replace_descriptor_def sqli_receive_error_def receive_eot_def
      receive_insertdone_def unknown_opcode_def keeping_def Let_def simp del: print_nat.simps split: sum.splits prod.splits if_splits)

lemma receive_done_keeps:
  "rs_rows (snd (fst (receive_done env r k))) = rs_rows r \<and> rs_row_count (snd (fst (receive_done env r k))) = rs_row_count r"
  by (simp add: receive_done_def Let_def split: sum.split prod.split)

lemma dispatch_message_keeps:
  assumes "dispatch_message env n opcode r k = ((rc, r'), k')"
  shows "rows_kept (r, k) (r', k')"
proof (cases "opcode = SQLI_SQ_TUPLE")
  case True
  then show ?thesis using assms by (intro receive_tuple_keeps) (simp add: dispatch_message_def limit_defs)
next
  case False
  have "rs_rows r' = rs_rows r \<and> rs_row_count r' = rs_row_count r"
    using assms False receive_done_keeps [of env r k]
    by (auto simp: dispatch_message_def dest: other_messages_keep split: if_splits)
  then show ?thesis using keepsD [OF shrinking.keeps_dispatch_message assms] by (intro rows_kept_same) (simp_all add: result_rows_def)
qed


lemma dispatch_loop_keeps:
  "dispatch_loop env n r k = ((rc, r'), k') \<Longrightarrow> rows_kept (r, k) (r', k') \<and> (rc = SQLI_OK \<longrightarrow> rs_eof r')"
proof (induction env n r k rule: dispatch_loop.induct)
  case (1 env n r k)
  obtain x k1 where op: "read_be16 k = (x, k1)" by (metis prod.collapse)
  have k1: "pending k1 \<le> pending k" by (rule read_be16_pending(2) [OF op])
  show ?case
  proof (cases "rs_eof r \<or> (\<exists>rc. x = Inl rc)")
    case True
    have "r' = r" "rc = SQLI_OK \<Longrightarrow> rs_eof r" "pending k' \<le> pending k"
      using 1(2) True op k1 read_exact_pending(5) [of 2 k]
      by (subst (asm) dispatch_loop.simps; auto simp: read_be16_def split: if_splits prod.splits)+
    then show ?thesis by (simp add: rows_kept_same)
  next
    case False
    then obtain opcode where x: "x = Inr opcode" by (cases x) auto
    obtain rc2 r2 k2 where m: "dispatch_message env n opcode r k1 = ((rc2, r2), k2)" by (metis prod.collapse)
    have "rows_kept (r, k) (r, k1)" using k1 by (simp add: rows_kept_same)
    then have first: "rows_kept (r, k) (r2, k2)" using dispatch_message_keeps [OF m] rows_kept_trans by blast
    show ?thesis
    proof (cases "rc2 = SQLI_OK")
      case True
      then have rest: "dispatch_loop env n r2 k2 = ((rc, r'), k')"
        using 1(2) False op x m by (subst (asm) dispatch_loop.simps) simp
      have "\<not> rs_eof r" using False by simp
      then have "rows_kept (r2, k2) (r', k') \<and> (rc = SQLI_OK \<longrightarrow> rs_eof r')"
        using 1(1) [OF _ op [symmetric] x m [symmetric] refl] True rest by simp
      then show ?thesis using rows_kept_trans [OF first] by blast
    next
      case False': False
      then have "((rc2, r2), k2) = ((rc, r'), k')"
        using 1(2) False op x m by (subst (asm) dispatch_loop.simps) simp
      then show ?thesis using first False' by simp
    qed
  qed
qed

text \<open>
  C15. Whatever a server sends, and however the reply ends: the rows that the result had are kept, the rows
  added are at most \<open>SQLI_MAX_TUPLE_BYTES\<close> long and together no longer than what was received, the
  row count is the number of rows, and a call that succeeds has seen the end of the reply.
\<close>

theorem dispatch_keeps_rows:
  assumes "sqli_receive_dispatch env (Some r) k = ((rc, Some r'), k')" "rs_row_count r = int (length (result_rows r))"
  shows "\<exists>rows. result_rows r' = result_rows r @ rows \<and> rs_row_count r' = int (length (result_rows r')) \<and>
    (\<forall>row \<in> set rows. length row \<le> SQLI_MAX_TUPLE_BYTES) \<and>
    sum_list (map length rows) + pending k' \<le> pending k \<and> (rc = SQLI_OK \<longrightarrow> rs_eof r')"
proof -
  have "dispatch_loop env (rs_row_count r) r k = ((rc, r'), k')"
    using assms(1) by (auto simp: sqli_receive_dispatch_def split: prod.splits)
  from dispatch_loop_keeps [OF this] show ?thesis
    using assms(2) by (auto simp: rows_kept_def)
qed


section \<open>Look-ahead\<close>

lemma read_loop_buffered:
  "count \<le> length buffer \<Longrightarrow> read_loop count buffer arrivals = (Complete, take count buffer, drop count buffer, arrivals)"
  by (cases arrivals) simp_all

text \<open>
  The two numbers after the counts of a DONE message are left in the stream when the second is 3, and
  taken when it is 1: bytes of the pair itself are compared with the opcodes.
\<close>

lemma done_tail_misses_pair:
  "k_buffer k = [0, 0, 0, 0, 0, 0, 0, 3, 0, 12] \<Longrightarrow> done_tail k = (SQLI_OK, k)"
  "k_buffer k = [0, 0, 0, 0, 0, 0, 0, 1, 0, 12] \<Longrightarrow> k_buffer (snd (done_tail k)) = [0, 12]"
  by (simp_all add: done_tail_def sqli_peek_bytes_def be_value_def sqli_is_likely_opcode_def limit_defs Let_def receive_cost_def
      and_then_def read_be32_def read_exact_def read_loop_buffered)

text \<open>With the payload of a command in the buffer, the decision is made on the bytes that arrive after it.\<close>

lemma command_looks_past_buffer:
  "k_buffer k = [0, 0, 0, 7] \<Longrightarrow> k_arrivals k = [Bytes [0, 14]] \<Longrightarrow> k_peeks k = [2] \<Longrightarrow>
   receive_command k = (SQLI_OK, k\<lparr>k_peeks := []\<rparr>)"
  by (simp add: receive_command_def sqli_tcp_peek_def be_value_def sqli_is_likely_opcode_def limit_defs)

section \<open>Sample replies\<close>

definition sample_dispatch_env :: dispatch_env where
  "sample_dispatch_env = \<lparr>de_mem = (\<lambda>_. True), de_extended_describe = False, de_long_row_id = False,
     de_remove_64k_limit = False, de_strict_protocol = False, de_eot_wait = False, de_catalog = (\<lambda>_. ''''),
     de_opcode_name = (\<lambda>_. '''')\<rparr>"

definition sample_field :: sent_field where
  "sample_field = \<lparr>sf_name = [105, 100], sf_index = 0, sf_offset = 0, sf_type = 2, sf_extended = 0, sf_owner = [97],
     sf_type_name = [98, 99], sf_reference = 0, sf_alignment = 4, sf_source = 0, sf_length = 4\<rparr>"

definition sample_info :: "bool \<Rightarrow> descriptor_info" where
  "sample_info extended = \<lparr>di_statement_type = 2, di_statement_id = 1, di_cost_raw = 0, di_tuple_size = 4,
     di_field_count = 1, di_extended = extended\<rparr>"

definition sample_reply :: reply where
  "sample_reply = \<lparr>rp_info = sample_info False, rp_fields = [sample_field],
     rp_tuples = [(0, [0, 0, 0, 1], []), (0, [0, 0, 0, 2], [])], rp_warnings = 0, rp_affected = [0, 0, 0, 2],
     rp_row_id = [0, 0, 0, 0], rp_serial = 0\<rparr>"

definition sample_new_result :: result where
  "sample_new_result = sample_result\<lparr>rs_rows := None, rs_row_count := 0, rs_arena_len := 0, rs_arena_cap := 0, rs_row_capacity := 0,
     rs_eof := False\<rparr>"

definition sample_link :: "byte list \<Rightarrow> link" where
  "sample_link bytes = \<lparr>k_conn = sample_conn, k_buffer = take 7 bytes, k_arrivals = [Bytes (drop 7 bytes)], k_peeks = []\<rparr>"

lemma sample_link_stream: "stream (sample_link bytes) = bytes"
  by (cases "drop 7 bytes = []") (simp_all add: sample_link_def stream_def)

lemma sample_describe_ok: "describe_ok (sample_info extended) [sample_field]"
  by (simp add: describe_ok_def sample_info_def sample_field_def described_def names_bytes_def sent_field_ok_def
      owned_bytes_def limit_defs)

lemma sample_columns: "reply_columns sample_reply = [\<lparr>ci_name = ''id'', ci_type = Some SQLI_TYPE_INT, ci_flags = 2,
    ci_encoded_length = 4, ci_col_start_pos = 0, ci_field_index = 0\<rparr>]"
  by (simp add: reply_columns_def sample_reply_def sample_info_def sample_field_def described_def named_field_def
      received_field_def empty_field_def descriptor_legacy_columns_def legacy_column_def type_of_code_def column_types_def
      c_text_def signed32_def char_of_eq_iff)

lemma sample_reply_ok: "reply_ok sample_dispatch_env sample_reply"
proof -
  have "row_reads (reply_columns sample_reply) [0, 0, 0, b]" for b
    unfolding sample_columns
    by (simp add: row_reads_def cache_span_def sqli_fixed_width_for_type_def char_type_def fixed_span_def Let_def)
  then show ?thesis
    using sample_describe_ok [of False]
    by (simp add: reply_ok_def sample_reply_def sample_dispatch_env_def tuple_ok_def tuple_row_def pad_of_def
        SQLI_MAX_TUPLE_BYTES_def INT32_MAX_def) (simp add: sample_info_def)
qed

lemma sample_memory: "memory_ok sample_dispatch_env"
  by (simp add: memory_ok_def sample_dispatch_env_def)

lemma query_reply_delivered_witness:
  "\<exists>r' k'. sqli_receive_dispatch sample_dispatch_env (Some sample_new_result) (sample_link (reply_bytes sample_reply)) =
      ((SQLI_OK, Some r'), k') \<and>
    fst (drain (sqli_result_next sample_env) rs_tuple 3 r') = [Some [0, 0, 0, 1], Some [0, 0, 0, 2]]"
proof -
  have "fresh_result sample_new_result" by (simp add: fresh_result_def sample_new_result_def sample_result_def)
  moreover have "cursor_env_ok sample_env (described_result (rp_info sample_reply) (rp_fields sample_reply) sample_new_result)"
    by (simp add: cursor_env_ok_def sample_env_def sqli_result_is_closed_by_commit_def sqli_result_is_server_scrollable_def)
  moreover have "length (rp_tuples sample_reply) + 1 = 3"
    "map (Some \<circ> tuple_row) (rp_tuples sample_reply) = [Some [0, 0, 0, 1], Some [0, 0, 0, 2]]"
    by (simp_all add: sample_reply_def tuple_row_def)
  ultimately show ?thesis
    using query_reply_delivered [OF sample_memory sample_reply_ok _ sample_link_stream, of sample_new_result sample_env]
    by metis
qed

lemma describe_round_trip_witness:
  "\<exists>r' k' d f. dispatch_message (sample_dispatch_env\<lparr>de_extended_describe := True\<rparr>) 0 SQLI_SQ_DESCRIBE sample_new_result
      (sample_link (describe_body (sample_info True) [sample_field])) = ((SQLI_OK, r'), k') \<and>
    rs_descriptor r' = Some d \<and> sqli_descriptor_get_field True 0 (Some d) = Inr f \<and>
    sqli_descriptor_field_get_name True (Some f) = Inr [105, 100] \<and>
    sqli_descriptor_field_get_type_name True (Some f) = Inr [98, 99]"
proof -
  let ?env = "sample_dispatch_env\<lparr>de_extended_describe := True\<rparr>"
  have "memory_ok ?env" "de_extended_describe ?env = di_extended (sample_info True)"
    by (simp_all add: memory_ok_def sample_dispatch_env_def sample_info_def)
  from describe_round_trip [OF this sample_describe_ok [of True], of "sample_link (describe_body (sample_info True) [sample_field])"
      "[]" 0 0 sample_new_result]
  show ?thesis by (auto simp: sample_link_stream sample_info_def sample_field_def)
qed

lemma error_reply_reported_witness:
  "\<exists>r' k'. sqli_receive_dispatch sample_dispatch_env (Some sample_new_result)
      (sample_link (tuples_message [(0, [7], [0])] @ net16 SQLI_SQ_ERR @ error_body 65330 65425 [0, 0] [116, 49])) =
      ((SQLI_PROTO_ERROR, Some r'), k') \<and>
    result_rows r' = [[7]] \<and> rs_error_code r' = -206 \<and> ei_isamcode (c_error_info (k_conn k')) = -111 \<and>
    ei_server_message (c_error_info (k_conn k')) = ''t1'' \<and> \<not> fst (sqli_result_next sample_env r')"
proof -
  have t: "\<forall>t \<in> set [(0, [7], [0])]. tuple_ok t" "\<not> rs_eof sample_new_result"
    "rs_arena_len sample_new_result + (\<Sum>t \<leftarrow> [(0, [7], [0])]. length (tuple_row t)) \<le> 2 ^ 63"
    by (simp_all add: tuple_ok_def pad_of_def SQLI_MAX_TUPLE_BYTES_def sample_new_result_def sample_result_def tuple_row_def)
  have e: "(65330::nat) < 2 ^ 16" "(65425::nat) < 2 ^ 16" "length [116, 49 :: byte] < 2 ^ 16"
    "length [0, 0 :: byte] = (if de_remove_64k_limit sample_dispatch_env then 4 else 2)"
    "signed16 65330 \<notin> {-619, -368, 0, -937, 100}"
    by (simp_all add: sample_dispatch_env_def signed16_def)
  have "result_rows sample_new_result = []" by (simp add: sample_new_result_def result_rows_def)
  then show ?thesis
    using error_reply_reported [OF sample_memory t e, of
        "sample_link (tuples_message [(0, [7], [0])] @ net16 SQLI_SQ_ERR @ error_body 65330 65425 [0, 0] [116, 49])" "[]"]
    by (auto simp: sample_link_stream signed16_def tuple_row_def c_text_def char_of_eq_iff)
qed

lemma dispatch_keeps_rows_witness:
  "\<exists>rc r' k'. sqli_receive_dispatch sample_dispatch_env (Some sample_new_result) (sample_link (net16 SQLI_SQ_TUPLE)) =
      ((rc, Some r'), k') \<and>
    rs_row_count r' = int (length (result_rows r')) \<and> sum_list (map length (result_rows r')) + pending k' \<le> 2"
proof -
  obtain rc r' k' where "dispatch_loop sample_dispatch_env (rs_row_count sample_new_result) sample_new_result
      (sample_link (net16 SQLI_SQ_TUPLE)) = ((rc, r'), k')"
    by (metis prod.collapse)
  then have d: "sqli_receive_dispatch sample_dispatch_env (Some sample_new_result) (sample_link (net16 SQLI_SQ_TUPLE)) = ((rc, Some r'), k')"
    by (simp add: sqli_receive_dispatch_def)
  have "pending (sample_link (net16 SQLI_SQ_TUPLE)) = 2" by (simp add: sample_link_def pending_def net16_def)
  moreover have "result_rows sample_new_result = []" "rs_row_count sample_new_result = 0" by (simp_all add: sample_new_result_def result_rows_def)
  ultimately show ?thesis using dispatch_keeps_rows [OF d] d by auto
qed

end
