(* ===== verification/FetchblobFacts.thy ===== *)
theory FetchblobFacts
  imports Fetchblob DispatchFacts
begin

text \<open>
  A legacy blob arrives as it was sent, whatever the chunks; and the one message of a blob reply whose
  length depends on the capabilities of the connection is misread.
\<close>

section \<open>Chunks\<close>

type_synonym chunk = "byte list \<times> byte list"

definition chunk_ok :: "chunk \<Rightarrow> bool" where
  "chunk_ok c \<longleftrightarrow> length (fst c) < 2 ^ 16 \<and> pad_of (fst c) (snd c)"

definition chunk_message :: "chunk \<Rightarrow> byte list" where
  "chunk_message c = net16 SQLI_SQ_BLOB @ net16 (length (fst c)) @ fst c @ snd c"

definition blob_reply :: "chunk list \<Rightarrow> byte list" where
  "blob_reply cs = concat (map chunk_message cs) @ net16 SQLI_SQ_EOT"

lemma append_succeeds:
  assumes "memory_ok env" "length (fst acc) + length src \<le> 2 ^ 63"
  obtains cap where "append_dynamic_bytes (de_mem env) src acc = Inr (fst acc @ src, cap)"
proof -
  obtain buf cap where acc: "acc = (buf, cap)" by (cases acc)
  have room: "\<not> length buf > SIZE_MAX - length src" using assms(2) acc by (simp add: SIZE_MAX_def)
  have "0 < (if cap = 0 then 256 else cap)" "length buf + length src \<le> 2 ^ 63" using assms(2) acc by simp_all
  from grow_capacity_succeeds [OF this] obtain cap' where
    "grow_capacity_loop (if cap = 0 then 256 else cap) (length buf + length src) = Some cap'" by blast
  then have "\<exists>c. append_dynamic_bytes (de_mem env) src acc = Inr (fst acc @ src, c)"
    using assms(1) room acc by (simp add: append_dynamic_bytes_def memory_ok_def Let_def)
  then show thesis using that by blast
qed

lemma chunk_reads:
  assumes "memory_ok env" "chunk_ok c" "length (fst acc) + length (fst c) \<le> 2 ^ 63"
    and "stream k = net16 (length (fst c)) @ fst c @ snd c @ rest"
  obtains cap k' where "blob_message (de_mem env) SQLI_SQ_BLOB acc k = (Inr (fst acc @ fst c, cap), k')" "stream k' = rest"
    "k_conn k' = k_conn k"
proof -
  have ok: "length (fst c) < 2 ^ 16" "length (snd c) = length (fst c) mod 2" using assms(2) by (auto simp: chunk_ok_def pad_of_def)
  obtain cap where cap: "append_dynamic_bytes (de_mem env) (fst c) acc = Inr (fst acc @ fst c, cap)"
    by (rule append_succeeds [OF assms(1,3)])
  have "reads (and_then (read_bytes (length (fst c) mod 2)) (\<lambda>pad k. (append_dynamic_bytes (de_mem env) (fst c) acc, k)))
      (snd c @ []) (fst acc @ fst c, cap)"
    unfolding cap by (rule reads_and_then [OF reads_bytes [OF ok(2)] reads_pure])
  then have "reads (read_padded_chunk (de_mem env) (length (fst c)) acc) (fst c @ snd c @ []) (fst acc @ fst c, cap)"
    using assms(1) unfolding read_padded_chunk_def
    by (simp add: memory_ok_def reads_and_then [OF reads_bytes [OF refl]])
  then have "reads (and_then read_be16 (\<lambda>n. read_padded_chunk (de_mem env) n acc)) (net16 (length (fst c)) @ fst c @ snd c @ [])
      (fst acc @ fst c, cap)"
    by (rule reads_and_then [OF reads_be16 [OF ok(1)]])
  then have "\<exists>k'. and_then read_be16 (\<lambda>n. read_padded_chunk (de_mem env) n acc) k = (Inr (fst acc @ fst c, cap), k') \<and>
      stream k' = rest \<and> k_conn k' = k_conn k"
    using readsD [of _ _ _ k rest] assms(4) by (metis append_assoc append_Nil2)
  then show thesis using that by (auto simp: blob_message_def limit_defs Let_def)
qed

lemma blob_loop_reads:
  assumes "memory_ok env"
  shows "\<forall>c \<in> set cs. chunk_ok c \<Longrightarrow> length (fst acc) + (\<Sum>c \<leftarrow> cs. length (fst c)) \<le> 2 ^ 63 \<Longrightarrow>
    stream k = blob_reply cs @ rest \<Longrightarrow>
    \<exists>k'. blob_loop env acc k = (Inr (fst acc @ concat (map fst cs)), k') \<and> stream k' = rest \<and> k_conn k' = k_conn k"
proof (induction cs arbitrary: acc k)
  case Nil
  have "SQLI_SQ_EOT < 2 ^ 16" by (simp add: limit_defs)
  then obtain k1 where "read_be16 k = (Inr SQLI_SQ_EOT, k1)" "stream k1 = rest" "k_conn k1 = k_conn k"
    by (rule readsD [OF reads_be16]) (use Nil in \<open>auto simp: blob_reply_def\<close>)
  then show ?case by (subst blob_loop.simps) simp
next
  case (Cons c cs)
  have op: "SQLI_SQ_BLOB < 2 ^ 16" by (simp add: limit_defs)
  obtain k1 where k1: "read_be16 k = (Inr SQLI_SQ_BLOB, k1)" "k_conn k1 = k_conn k"
      "stream k1 = net16 (length (fst c)) @ fst c @ snd c @ (blob_reply cs @ rest)"
    by (rule readsD [OF reads_be16 [OF op]]) (use Cons.prems(3) in \<open>auto simp: blob_reply_def chunk_message_def\<close>)
  have "chunk_ok c" "length (fst acc) + length (fst c) \<le> 2 ^ 63" using Cons.prems(1,2) by simp_all
  then obtain cap k2 where k2: "blob_message (de_mem env) SQLI_SQ_BLOB acc k1 = (Inr (fst acc @ fst c, cap), k2)"
      "stream k2 = blob_reply cs @ rest" "k_conn k2 = k_conn k1"
    by (rule chunk_reads [OF assms _ _ k1(3)])
  have step: "blob_loop env acc k = blob_loop env (fst acc @ fst c, cap) k2"
    using k2(1) by (subst blob_loop.simps) (simp add: k1(1) limit_defs)
  obtain k' where "blob_loop env (fst acc @ fst c, cap) k2 = (Inr (fst (fst acc @ fst c, cap) @ concat (map fst cs)), k')"
      "stream k' = rest" "k_conn k' = k_conn k2"
    using Cons.IH [of "(fst acc @ fst c, cap)" k2] Cons.prems(1,2) k2(2) by auto
  then show ?case using step k1(2) k2(3) by simp
qed

text \<open>
  Fetching a blob: with a valid request and a connection that accepts it, the bytes are those of the
  chunks, and the server has got exactly the request.
\<close>

theorem blob_fetched:
  assumes "memory_ok env" "col_index < length (rs_columns r)" "sqli_is_lob_like_type (ci_type (rs_columns r ! col_index))"
    and "c_state (k_conn (p_link p)) = SQLI_CONN_READY" "willing p" "0 \<le> rs_stmt_id r"
    and "rs_tuple r = Some row" "sqli_tuple_locate_column (rs_columns r ! col_index) row = Inr (start, len, width)"
    and "0 < len" "start + len \<le> length row"
    and "\<forall>c \<in> set cs. chunk_ok c" "(\<Sum>c \<leftarrow> cs. length (fst c)) \<le> 2 ^ 63" "stream (p_link p) = blob_reply cs @ rest"
  shows "\<exists>p'. sqli_fetchblob_materialize env (Some r) col_index p = (Inr (concat (map fst cs)), p') \<and>
    p_sent p' = p_sent p @ fetchblob_request (rs_stmt_id r) (slice row start len) \<and> stream (p_link p') = rest"
proof -
  let ?req = "fetchblob_request (rs_stmt_id r) (slice row start len)"
  have "length (slice row start len) = len" using assms(10) by (simp add: slice_def)
  then have "slice row start len \<noteq> []" using assms(9) by auto
  then have "[] \<notin> set ?req" by (simp add: fetchblob_request_def)
  then obtain p1 where p1: "send_all ?req p = (SQLI_OK, p1)" "p_link p1 = p_link p" "p_sent p1 = p_sent p @ ?req"
    using send_all_succeeds [OF assms(5)] by auto
  obtain k' where k': "blob_loop env ([], 0) (p_link p1) = (Inr (concat (map fst cs)), k')" "stream k' = rest"
    using blob_loop_reads [OF assms(1,11), of "([], 0)" "p_link p1" rest] assms(12,13) p1(2) by auto
  have "sqli_fetchblob_materialize env (Some r) col_index p = (Inr (concat (map fst cs)), p1\<lparr>p_link := k'\<rparr>)"
    using assms(2-10) p1(1) k'(1)
    by (simp add: sqli_fetchblob_materialize_def on_link_def not_le not_less willing_def)
  then show ?thesis using p1(3) k'(2) by simp
qed

section \<open>DONE in a blob reply\<close>

lemma drain_bytes_fails: "length (stream k) < n \<Longrightarrow> fst (drain_bytes n k) = SQLI_IO_ERROR"
proof (induction n k rule: drain_bytes.induct)
  case (1 n k)
  have n: "n \<noteq> 0" using 1(2) by simp
  obtain rc got k1 where r: "read_exact (min n 256) k = ((rc, got), k1)" by (metis prod.collapse)
  note s = read_exact_stream [OF r]
  show ?case
  proof (cases "min n 256 \<le> length (stream k)")
    case True
    then have "rc = SQLI_OK" "stream k1 = drop (min n 256) (stream k)" using s by simp_all
    moreover from this have "length (stream k1) < n - min n 256" using 1(2) True by auto
    ultimately show ?thesis using 1(1) [OF n refl r [symmetric] refl] n r by (subst drain_bytes.simps) (simp add: Let_def)
  next
    case False
    then have "rc = SQLI_IO_ERROR" using s by simp
    then show ?thesis using n r by (subst drain_bytes.simps) (simp add: Let_def)
  qed
qed

text \<open>
  Without long row ids a DONE is 14 bytes for \<open>receive_done\<close>; in a blob reply the same message is
  read past its end, and a reply that ends with it and EOT is lost.
\<close>

lemma blob_done_misread:
  assumes "length rows = 4" "length row_id = 4"
    and "stream k = net16 SQLI_SQ_DONE @ done_body warnings rows row_id serial @ net16 SQLI_SQ_EOT"
  shows "fst (blob_loop env acc k) = Inl SQLI_IO_ERROR"
proof -
  have op: "SQLI_SQ_DONE < 2 ^ 16" by (simp add: limit_defs)
  obtain k1 where k1: "read_be16 k = (Inr SQLI_SQ_DONE, k1)" "stream k1 = done_body warnings rows row_id serial @ net16 SQLI_SQ_EOT"
    by (rule readsD [OF reads_be16 [OF op] assms(3)])
  have "length (stream k1) < 22" using assms(1,2) by (simp add: k1(2) done_body_def)
  then have "fst (drain_bytes 22 k1) = SQLI_IO_ERROR" by (rule drain_bytes_fails)
  then have "fst (blob_message (de_mem env) SQLI_SQ_DONE acc k1) = Inl SQLI_IO_ERROR"
    by (auto simp: blob_message_def limit_defs Let_def split: prod.split)
  then show ?thesis
    by (subst blob_loop.simps) (auto simp: k1(1) limit_defs split: prod.split sum.split)
qed

end
