(* ===== verification/QueryFacts.thy ===== *)
theory QueryFacts
  imports Query Framing DispatchSafety FetchblobFacts
begin

text \<open>
  A whole query: the conversation with a server that answers every request, from the text of the
  statement to the rows that the application reads.
\<close>

section \<open>Replies in pieces\<close>

text \<open>The network cuts a reply into pieces; the last one is longer than the end of the group that it contains.\<close>

definition pieces_of :: "byte list \<Rightarrow> arrival list \<Rightarrow> bool" where
  "pieces_of bytes arrivals \<longleftrightarrow>
     (\<exists>pieces. arrivals = map Bytes pieces \<and> [] \<notin> set pieces \<and> concat pieces = bytes)"

definition ends_in_piece :: "arrival list \<Rightarrow> bool" where
  "ends_in_piece arrivals \<longleftrightarrow> (\<exists>bytes. last arrivals = Bytes bytes \<and> 2 < length bytes)"

lemma arriving_pieces: "[] \<notin> set pieces \<Longrightarrow> arriving (map Bytes pieces) = concat pieces"
  by (induction pieces) auto

text \<open>Nothing is read ahead, no look at the socket shows anything, and no error has been reported.\<close>

definition awaits :: "arrival list \<Rightarrow> link \<Rightarrow> bool" where
  "awaits arrivals k \<longleftrightarrow> k_buffer k = [] \<and> k_arrivals k = arrivals \<and> quiet k \<and> \<not> reported k"

lemma framed_reply:
  assumes "framed m (k\<lparr>k_arrivals := arrivals\<rparr>)" "awaits (arrivals @ later) k" "pieces_of bytes arrivals"
    and "m (k\<lparr>k_arrivals := arrivals\<rparr>) = (x, k1)" "k_conn k1 = k_conn k"
    and "stream k1 = [] \<or> (length (stream k1) \<le> 2 \<and> ends_in_piece arrivals \<and> (k_arrivals k1 = [] \<longrightarrow> stream k1 = []))"
  obtains k' where "m k = (x, k')" "awaits later k'" "k_conn k' = k_conn k"
proof -
  let ?k0 = "k\<lparr>k_arrivals := arrivals\<rparr>"
  note aw = assms(2) [unfolded awaits_def]
  obtain pieces where pieces: "arrivals = map Bytes pieces" "[] \<notin> set pieces" using assms(3) by (auto simp: pieces_of_def)
  note f = framedD [OF assms(1,4)]
  have q: "quiet ?k0" "\<not> reported k1" using aw assms(5) by (auto simp: quiet_def reported_def)
  obtain taken where taken: "arrivals = taken @ k_arrivals k1" using f(3) by auto
  then have "map Bytes pieces = taken @ k_arrivals k1" using pieces(1) by simp
  then obtain front rest where "pieces = front @ rest" "k_arrivals k1 = map Bytes rest" by (auto simp: map_eq_append_conv)
  then have rest: "k_arrivals k1 = map Bytes rest" "[] \<notin> set rest" "\<exists>front. pieces = front @ rest"
    using pieces(2) by auto
  have arr: "arriving (k_arrivals k1) = concat rest" using rest by (simp add: arriving_pieces)
  have none: "rest = []"
  proof (rule ccontr)
    assume ne: "rest \<noteq> []"
    then have last: "last arrivals = Bytes (last rest)" "last rest \<in> set rest" using pieces(1) rest(3) by (auto simp: last_map)
    obtain a b where "rest = a @ last rest # b" using split_list [OF last(2)] by auto
    then have long: "length (last rest) \<le> length (concat rest)" by (metis concat.simps(2) concat_append le_add1 le_add2 le_trans length_append)
    from assms(6) show False
    proof
      assume "stream k1 = []"
      then have "last rest = []" using arr long last(2) by (simp add: stream_def)
      then show False using last(2) rest(2) by auto
    next
      assume "length (stream k1) \<le> 2 \<and> ends_in_piece arrivals \<and> (k_arrivals k1 = [] \<longrightarrow> stream k1 = [])"
      then show False using arr long last(1) by (auto simp: stream_def ends_in_piece_def)
    qed
  qed
  then have "k_arrivals k1 = []" "stream k1 = []" using rest(1) assms(6) by auto
  then have k1: "k_arrivals k1 = []" "k_buffer k1 = []" by (simp_all add: stream_def)
  have "m (then_arrives later ?k0) = (x, then_arrives later k1)" by (rule f(4) [OF q])
  moreover have "then_arrives later ?k0 = k" using aw by (simp add: then_arrives_def)
  moreover have "awaits later (then_arrives later k1)"
    using k1 q(2) f(2) [OF q(1)] by (simp add: awaits_def quiet_def reported_def)
  ultimately show thesis using that assms(5) by simp
qed

lemma stream_of_pieces: "awaits (arrivals @ later) k \<Longrightarrow> pieces_of bytes arrivals \<Longrightarrow> stream (k\<lparr>k_arrivals := arrivals\<rparr>) = bytes"
  by (auto simp: awaits_def pieces_of_def stream_def arriving_pieces)

text \<open>The three kinds of replies.\<close>

lemma description_awaited:
  assumes "awaits (arrivals @ later) k" "pieces_of (reply_bytes d) arrivals" "ends_in_piece arrivals"
    and "memory_ok env" "reply_ok env d" "fresh_result r"
  obtains r1 k' where "rows_added (described_result (rp_info d) (rp_fields d) r) (map tuple_row (rp_tuples d)) r1"
    "dispatch_loop env n r k = ((SQLI_OK, finished (rp_warnings d) (rp_affected d) (rp_serial d) r1), k')"
    "awaits later k'" "k_conn k' = k_conn k"
proof -
  obtain r1 k1 where r1: "rows_added (described_result (rp_info d) (rp_fields d) r) (map tuple_row (rp_tuples d)) r1"
      "dispatch_loop env n r (k\<lparr>k_arrivals := arrivals\<rparr>) = ((SQLI_OK, finished (rp_warnings d) (rp_affected d) (rp_serial d) r1), k1)"
      "stream k1 \<in> {[], net16 SQLI_SQ_EOT}" "k_conn k1 = k_conn (k\<lparr>k_arrivals := arrivals\<rparr>)" "k_arrivals k1 = [] \<longrightarrow> stream k1 = []"
    by (rule dispatch_reply [OF assms(4-6) stream_of_pieces [OF assms(1,2)], of n])
  have ends: "stream k1 = [] \<or> length (stream k1) \<le> 2 \<and> ends_in_piece arrivals \<and> (k_arrivals k1 = [] \<longrightarrow> stream k1 = [])"
    using r1(3,5) assms(3) by auto
  show thesis
    by (rule framed_reply [OF framed_dispatch_loop assms(1,2) r1(2) _ ends]) (use r1 that in auto)
qed

lemma rows_awaited:
  assumes "awaits (arrivals @ later) k" "pieces_of (rows_bytes b) arrivals" "ends_in_piece arrivals"
    and "memory_ok env" "\<forall>t \<in> set (rp_tuples b). tuple_ok t" "counts_ok env b" "\<not> rs_eof r"
    and "rs_arena_len r + (\<Sum>t \<leftarrow> rp_tuples b. length (tuple_row t)) \<le> 2 ^ 63"
  obtains r1 k' where "rows_added r (map tuple_row (rp_tuples b)) r1"
    "dispatch_loop env n r k = ((SQLI_OK, finished (rp_warnings b) (rp_affected b) (rp_serial b) r1), k')"
    "awaits later k'" "k_conn k' = k_conn k"
proof -
  obtain r1 k1 where r1: "rows_added r (map tuple_row (rp_tuples b)) r1"
      "dispatch_loop env n r (k\<lparr>k_arrivals := arrivals\<rparr>) = ((SQLI_OK, finished (rp_warnings b) (rp_affected b) (rp_serial b) r1), k1)"
      "stream k1 \<in> {[], net16 SQLI_SQ_EOT}" "k_conn k1 = k_conn (k\<lparr>k_arrivals := arrivals\<rparr>)" "k_arrivals k1 = [] \<longrightarrow> stream k1 = []"
    by (rule dispatch_rows [OF assms(4-8) stream_of_pieces [OF assms(1,2)], of n])
  have ends: "stream k1 = [] \<or> length (stream k1) \<le> 2 \<and> ends_in_piece arrivals \<and> (k_arrivals k1 = [] \<longrightarrow> stream k1 = [])"
    using r1(3,5) assms(3) by auto
  show thesis
    by (rule framed_reply [OF framed_dispatch_loop assms(1,2) r1(2) _ ends]) (use r1 that in auto)
qed

lemma eot_awaited:
  assumes "awaits (arrivals @ later) k" "pieces_of (net16 SQLI_SQ_EOT) arrivals" "\<not> rs_eof r"
    and "can_end_group n r (c_error_context (k_conn k))"
  obtains k' where "dispatch_loop env n r k = ((SQLI_OK, r\<lparr>rs_eof := True\<rparr>), k')" "awaits later k'" "k_conn k' = k_conn k"
proof -
  obtain k1 where k1: "dispatch_loop env n r (k\<lparr>k_arrivals := arrivals\<rparr>) = ((SQLI_OK, r\<lparr>rs_eof := True\<rparr>), k1)" "stream k1 = []"
      "k_conn k1 = k_conn (k\<lparr>k_arrivals := arrivals\<rparr>)"
    by (rule dispatch_eot [OF assms(3) stream_of_pieces [OF assms(1,2)]]) (use assms(4) in simp)
  show thesis
    by (rule framed_reply [OF framed_dispatch_loop assms(1,2) k1(1)]) (use k1 that in auto)
qed

section \<open>Phases\<close>

lemma peer_conn_simps [simp]:
  "k_conn (p_link (peer_conn f p)) = f (k_conn (p_link p))" "p_sent (peer_conn f p) = p_sent p"
  "p_discarded (peer_conn f p) = p_discarded p" "p_sends (peer_conn f p) = p_sends p"
  by (simp_all add: peer_conn_def)

text \<open>A peer in the middle of a conversation, with the connection it started with up to diagnostics.\<close>

definition cleared :: "peer \<Rightarrow> sqli_conn" where
  "cleared p = clear_error (k_conn (p_link p))"

definition talking :: "peer \<Rightarrow> arrival list \<Rightarrow> peer \<Rightarrow> bool" where
  "talking p0 arrivals p \<longleftrightarrow> awaits arrivals (p_link p) \<and> willing p \<and> cleared p = cleared p0 \<and> p_discarded p = p_discarded p0"

lemma clear_error_set_context [simp]: "clear_error (set_error_context ctx op conn) = clear_error conn"
  by (simp add: clear_error_def set_error_context_def)

lemma awaits_context: "awaits arrivals k \<Longrightarrow> awaits arrivals (k\<lparr>k_conn := set_error_context ctx op (k_conn k)\<rparr>)"
  by (simp add: awaits_def quiet_def reported_def)

lemma talking_context: "talking p0 arrivals p \<Longrightarrow> talking p0 arrivals (peer_conn (set_error_context ctx op) p)"
  by (simp add: talking_def cleared_def willing_def) (simp add: peer_conn_def awaits_context)

lemma talking_sent: "talking p0 arrivals p \<Longrightarrow> talking p0 arrivals (p\<lparr>p_sent := sent\<rparr>)"
  by (simp add: talking_def cleared_def willing_def)

lemma talking_link:
  assumes "talking p0 (arrivals @ later) p" "awaits later k'" "k_conn k' = k_conn (p_link p)"
  shows "talking p0 later (p\<lparr>p_link := k'\<rparr>)"
  using assms by (simp add: talking_def cleared_def willing_def)

text \<open>A phase whose reply the dispatcher accepts.\<close>

lemma receive_phase_talks:
  assumes "talking p0 (arrivals @ later) p"
    and "\<And>k. awaits (arrivals @ later) k \<Longrightarrow> c_error_context (k_conn k) = take 47 ctx \<Longrightarrow>
      \<exists>r' k'. dispatch_loop (ce_dispatch env) (rs_row_count r) (unseen r) k = ((SQLI_OK, r'), k') \<and> Q r' \<and>
        awaits later k' \<and> k_conn k' = k_conn k"
  obtains r' p' where "receive_phase env ctx op msg r p = (Inr r', p')" "Q r'" "talking p0 later p'" "p_sent p' = p_sent p"
proof -
  let ?p = "peer_conn (set_error_context ctx op) p"
  have t: "talking p0 (arrivals @ later) ?p" by (rule talking_context [OF assms(1)])
  have "c_error_context (k_conn (p_link ?p)) = take 47 ctx" by (simp add: set_error_context_def)
  then obtain r' k' where d: "dispatch_loop (ce_dispatch env) (rs_row_count r) (unseen r) (p_link ?p) = ((SQLI_OK, r'), k')" "Q r'"
      "awaits later k'" "k_conn k' = k_conn (p_link ?p)"
    using assms(2) [of "p_link ?p"] t by (auto simp: talking_def)
  have "rs_row_count (unseen r) = rs_row_count r" by (simp add: unseen_def)
  then have "receive_phase env ctx op msg r p = (Inr r', ?p\<lparr>p_link := k'\<rparr>)"
    using d(1) by (simp add: receive_phase_def on_link_def sqli_receive_dispatch_def)
  moreover have "talking p0 later (?p\<lparr>p_link := k'\<rparr>)" by (rule talking_link [OF t d(3,4)])
  ultimately show thesis using that d(2) by simp
qed

lemma send_talks:
  assumes "talking p0 arrivals p" "[] \<notin> set bufs"
  obtains p' where "send_all bufs p = (SQLI_OK, p')" "talking p0 arrivals p'" "p_sent p' = p_sent p @ bufs"
proof -
  have "send_all bufs p = (SQLI_OK, p\<lparr>p_sent := p_sent p @ bufs\<rparr>)"
    by (rule send_all_succeeds [OF _ assms(2)]) (use assms(1) in \<open>simp add: talking_def\<close>)
  then show thesis using that talking_sent [OF assms(1)] by simp
qed

section \<open>Closing a statement\<close>

lemma poll_in_quiet:
  assumes "talking p0 arrivals p"
  obtains p' where "poll_in p = (False, p')" "talking p0 arrivals p'" "p_sent p' = p_sent p"
proof (cases "k_peeks (p_link p)")
  case Nil
  then show thesis using that assms by (simp add: poll_in_def)
next
  case (Cons n peeks)
  let ?p = "p\<lparr>p_link := (p_link p)\<lparr>k_peeks := peeks\<rparr>\<rparr>"
  have "n = 0" "talking p0 arrivals ?p"
    using assms Cons by (auto simp: talking_def awaits_def quiet_def cleared_def willing_def reported_def)
  then show thesis using that [of ?p] Cons by (simp add: poll_in_def)
qed

lemma drain_groups_quiet:
  assumes "talking p0 arrivals p" "0 < n"
  obtains p' where "drain_groups env ctx n p = (SQLI_OK, p')" "talking p0 arrivals p'" "p_sent p' = p_sent p"
proof -
  obtain p1 where "poll_in p = (False, p1)" "talking p0 arrivals p1" "p_sent p1 = p_sent p" by (rule poll_in_quiet [OF assms(1)])
  moreover have "\<not> sqli_protocol_has_buffered_data (p_link p)"
    using assms by (simp add: talking_def awaits_def sqli_protocol_has_buffered_data_def)
  ultimately show thesis using that assms(2) by (cases n) simp_all
qed

lemma stmt_control_talks:
  assumes "talking p0 (arrivals @ later) p" "pieces_of (net16 SQLI_SQ_EOT) arrivals"
  obtains p' where "sqli_send_stmt_control env stmt_id op p = (SQLI_OK, p')" "talking p0 later p'"
    "p_sent p' = p_sent p @ [id_message stmt_id @ net16 op @ net16 SQLI_SQ_EOT]"
proof -
  let ?msg = "id_message stmt_id @ net16 op @ net16 SQLI_SQ_EOT"
  let ?p = "peer_conn (set_error_context ''stmt_control'' op) p"
  obtain p1 where p1: "send_all [?msg] ?p = (SQLI_OK, p1)" "talking p0 (arrivals @ later) p1" "p_sent p1 = p_sent p @ [?msg]"
    by (rule send_talks [OF talking_context [OF assms(1)], of "[?msg]"]) (auto simp: net16_def)
  have link: "p_link p1 = p_link ?p" by (rule send_all_link [OF p1(1)])
  have "can_end_group 0 zero_result (c_error_context (k_conn (p_link p1)))"
    by (simp add: link can_end_group_def set_error_context_def)
  moreover have "awaits (arrivals @ later) (p_link p1)" "\<not> rs_eof zero_result"
    using p1(2) by (simp_all add: talking_def zero_result_def)
  ultimately obtain k' where k': "dispatch_loop (ce_dispatch env) 0 zero_result (p_link p1) =
      ((SQLI_OK, zero_result\<lparr>rs_eof := True\<rparr>), k')" "awaits later k'" "k_conn k' = k_conn (p_link p1)"
    using eot_awaited [OF _ assms(2)] by metis
  have "rs_row_count zero_result = 0" by (simp add: zero_result_def)
  then have aside: "dispatch_aside env p1 = (SQLI_OK, p1\<lparr>p_link := k'\<rparr>)"
    using k'(1) by (simp add: dispatch_aside_def on_link_def sqli_receive_dispatch_def)
  have t: "talking p0 later (p1\<lparr>p_link := k'\<rparr>)" by (rule talking_link [OF p1(2) k'(2,3)])
  obtain p2 where p2: "drain_groups env (Some ''stmt_control/drain'') 8 (p1\<lparr>p_link := k'\<rparr>) = (SQLI_OK, p2)"
      "talking p0 later p2" "p_sent p2 = p_sent p1"
    by (rule drain_groups_quiet [OF t, of 8]) simp_all
  have "0 \<le> c_socket_fd (k_conn k')" using t by (simp add: talking_def willing_def)
  then have "sqli_drain_stmt_control_tail env (p1\<lparr>p_link := k'\<rparr>) = p2"
    using p2(1) by (simp add: sqli_drain_stmt_control_tail_def del: drain_groups.simps)
  then have "sqli_send_stmt_control env stmt_id op p = (SQLI_OK, p2)"
    using p1(1) aside by (simp add: sqli_send_stmt_control_def del: send_all.simps)
  then show thesis using that p2 p1(3) by simp
qed

definition close_messages :: "int \<Rightarrow> byte list list" where
  "close_messages stmt_id =
     [id_message stmt_id @ net16 SQLI_SQ_CLOSE @ net16 SQLI_SQ_EOT, id_message stmt_id @ net16 SQLI_SQ_RELEASE @ net16 SQLI_SQ_EOT]"

lemma close_release_talks:
  assumes "talking p0 (a1 @ a2 @ later) p" "pieces_of (net16 SQLI_SQ_EOT) a1" "pieces_of (net16 SQLI_SQ_EOT) a2"
  shows "talking p0 later (sqli_stmt_close_release env stmt_id p)"
    and "p_sent (sqli_stmt_close_release env stmt_id p) = p_sent p @ close_messages stmt_id"
proof -
  obtain p1 where p1: "sqli_send_stmt_control env stmt_id SQLI_SQ_CLOSE p = (SQLI_OK, p1)" "talking p0 (a2 @ later) p1"
      "p_sent p1 = p_sent p @ [id_message stmt_id @ net16 SQLI_SQ_CLOSE @ net16 SQLI_SQ_EOT]"
    by (rule stmt_control_talks [OF assms(1,2)])
  obtain p2 where p2: "sqli_send_stmt_control env stmt_id SQLI_SQ_RELEASE p1 = (SQLI_OK, p2)" "talking p0 later p2"
      "p_sent p2 = p_sent p1 @ [id_message stmt_id @ net16 SQLI_SQ_RELEASE @ net16 SQLI_SQ_EOT]"
    by (rule stmt_control_talks [OF p1(2) assms(3)])
  have "sqli_stmt_close_release env stmt_id p = p2"
    using p1(1) p2(1) by (simp add: sqli_stmt_close_release_def sqli_send_stmt_close_cursor_def)
  then show "talking p0 later (sqli_stmt_close_release env stmt_id p)"
    "p_sent (sqli_stmt_close_release env stmt_id p) = p_sent p @ close_messages stmt_id"
    using p1(3) p2(2,3) by (simp_all add: close_messages_def)
qed

section \<open>Fetching\<close>

text \<open>What stays of a result while it receives rows.\<close>

definition gains :: "result \<Rightarrow> byte list list \<Rightarrow> result \<Rightarrow> bool" where
  "gains r rows r' \<longleftrightarrow> result_rows r' = result_rows r @ rows \<and> rs_row_count r' = rs_row_count r + int (length rows) \<and>
     (rs_rows r \<noteq> None \<or> rows \<noteq> [] \<longrightarrow> rs_rows r' \<noteq> None) \<and>
     rs_arena_len r' = rs_arena_len r + sum_list (map length rows) \<and>
     rs_columns r' = rs_columns r \<and> rs_cursor r' = rs_cursor r \<and> rs_current_row r' = rs_current_row r \<and>
     rs_tuple r' = rs_tuple r \<and> rs_at_before_first r' = rs_at_before_first r \<and> rs_at_after_last r' = rs_at_after_last r \<and>
     rs_absolute_row_num r' = rs_absolute_row_num r \<and> rs_fetch_status r' = rs_fetch_status r \<and>
     rs_error_code r' = rs_error_code r \<and> rs_cache r' = rs_cache r \<and>
     rs_statement_type r' = rs_statement_type r \<and> rs_stmt_id r' = rs_stmt_id r \<and> rs_cursor_type r' = rs_cursor_type r \<and>
     rs_holdability r' = rs_holdability r \<and> rs_commit_epoch r' = rs_commit_epoch r \<and>
     rs_rollback_epoch r' = rs_rollback_epoch r"

lemma gains_trans: "gains a xs b \<Longrightarrow> gains b ys c \<Longrightarrow> gains a (xs @ ys) c"
  by (auto simp: gains_def)

lemma gains_nothing [simp]:
  "gains r [] r" "gains r [] (unseen r)" "gains r [] (r\<lparr>rs_eof := b\<rparr>)" "gains r [] (r\<lparr>rs_fetch_buf_size := n\<rparr>)"
  "gains r [] (r\<lparr>rs_ret_type_sent := b\<rparr>)"
  by (simp_all add: gains_def unseen_def result_rows_def)

lemma gains_finished: "rows_added r rows r1 \<Longrightarrow> gains r rows (finished w a s r1)"
  by (simp add: rows_added_def gains_def) (simp add: finished_def Let_def)

lemma messages_nonempty [simp]:
  "net16 n \<noteq> []" "net32 n \<noteq> []" "id_message i \<noteq> []" "[] \<noteq> net16 n" "[] \<noteq> net32 n" "[] \<noteq> id_message i"
  by (auto simp: id_message_def net32_def net16_def)

text \<open>
  What a request for rows consists of: the statement, the types of the columns if they are announced, and the fetch
  with the size of the buffer. The types are announced with the first request, if at all.
\<close>

definition announces_types :: "column_info list \<Rightarrow> bool" where
  "announces_types cols \<longleftrightarrow>
     list_ex (\<lambda>c. ci_type c \<in> Some ` {SQLI_TYPE_VARCHAR, SQLI_TYPE_NVCHAR, SQLI_TYPE_TEXT, SQLI_TYPE_BYTE, SQLI_TYPE_DECIMAL,
       SQLI_TYPE_MONEY, SQLI_TYPE_DATETIME, SQLI_TYPE_INTERVAL, SQLI_TYPE_BLOB, SQLI_TYPE_CLOB}) cols \<and>
     list_all (\<lambda>c. ci_type c \<notin> Some ` {SQLI_TYPE_LVARCHAR, SQLI_TYPE_BLOB, SQLI_TYPE_CLOB, SQLI_TYPE_BOOL, SQLI_TYPE_DBOOLEAN} \<and>
       (type_byte c > 18 \<longrightarrow> ci_type c = Some SQLI_TYPE_BIGINT \<or> ci_type c = Some SQLI_TYPE_BIGSERIAL)) cols"

definition type_announcement :: "column_info list \<Rightarrow> byte list list" where
  "type_announcement cols =
     (net16 SQLI_SQ_RET_TYPE @ net16 1 @ net16 (length cols)) # map (\<lambda>c. net16 (type_byte c) @ net32 (ci_encoded_length c)) cols"

definition fetch_request :: "int \<Rightarrow> byte list list \<Rightarrow> nat \<Rightarrow> byte list list" where
  "fetch_request stmt_id announcement room =
     [id_message stmt_id] @ announcement @ [net16 SQLI_SQ_NFETCH @ net32 room @ [0, 0], net16 SQLI_SQ_EOT]"

fun fetch_messages :: "int \<Rightarrow> column_info list \<Rightarrow> nat list \<Rightarrow> byte list list" where
  "fetch_messages stmt_id cols [] = []"
| "fetch_messages stmt_id cols (room # rooms) =
     fetch_request stmt_id (if announces_types cols then type_announcement cols else []) room @
     concat (map (fetch_request stmt_id []) rooms)"

text \<open>The buffer has at least 1024 bytes and at most what the connection allows.\<close>

definition fetch_size_ok :: "client_env \<Rightarrow> nat \<Rightarrow> bool" where
  "fetch_size_ok env room \<longleftrightarrow>
     1024 \<le> room \<and> room \<le> (if ce_fetch_buf_size env \<ge> 1024 then ce_fetch_buf_size env else 4194304)"

lemma chosen_size_ok: "fetch_size_ok env (sqli_choose_fetch_bufsize env r)"
proof -
  have "\<exists>d. sqli_choose_fetch_bufsize env r = min (max d 1024) (if ce_fetch_buf_size env \<ge> 1024 then ce_fetch_buf_size env else 4194304)"
    unfolding sqli_choose_fetch_bufsize_def Let_def by (rule exI) (rule refl)
  then show ?thesis by (auto simp: fetch_size_ok_def)
qed

lemma announces_result:
  "result_has_variable_columns r \<and> \<not> result_has_extended_columns r \<longleftrightarrow> announces_types (rs_columns r)"
  unfolding result_has_variable_columns_def result_has_extended_columns_def announces_types_def list_ex_iff list_all_iff
  by (metis (no_types, lifting))

lemma ret_type_talks:
  fixes r :: result
  assumes "talking p0 arrivals p"
  defines "announces \<equiv> announces_types (rs_columns r) \<and> \<not> rs_ret_type_sent r"
  obtains p' where "send_ret_type r p = ((SQLI_OK, if announces then r\<lparr>rs_ret_type_sent := True\<rparr> else r), p')" "talking p0 arrivals p'"
    "p_sent p' = p_sent p @ (if announces then type_announcement (rs_columns r) else [])"
proof (cases announces)
  case True
  then have sends: "result_has_variable_columns r \<and> \<not> result_has_extended_columns r \<and> \<not> rs_ret_type_sent r"
    using announces_result announces_def by blast
  have messages: "ret_type_messages r = type_announcement (rs_columns r)" by (simp add: ret_type_messages_def type_announcement_def)
  then have "[] \<notin> set (ret_type_messages r)" by (auto simp: type_announcement_def)
  then obtain p1 where "send_all (ret_type_messages r) p = (SQLI_OK, p1)" "talking p0 arrivals p1"
      "p_sent p1 = p_sent p @ ret_type_messages r" by (rule send_talks [OF assms(1)])
  moreover from this sends have "send_ret_type r p = ((SQLI_OK, r\<lparr>rs_ret_type_sent := True\<rparr>), p1)"
    by (simp add: send_ret_type_def)
  ultimately show thesis using that True messages by simp
next
  case False
  then have "\<not> (result_has_variable_columns r \<and> \<not> result_has_extended_columns r \<and> \<not> rs_ret_type_sent r)"
    using announces_result announces_def by blast
  then have "send_ret_type r p = ((SQLI_OK, r), p)" unfolding send_ret_type_def by (rule if_not_P)
  then show thesis using that assms(1) False by simp
qed

lemma request_talks:
  assumes "talking p0 arrivals p"
  obtains r' p' room where "request_rows env SQLI_CURSOR_FORWARD_ONLY stmt_id i r p = (Inr r', p')" "talking p0 arrivals p'"
    "p_sent p' = p_sent p @ fetch_request stmt_id
       (if announces_types (rs_columns r) \<and> \<not> rs_ret_type_sent r then type_announcement (rs_columns r) else []) room"
    "fetch_size_ok env room" "gains r [] r'" "rs_eof r' = rs_eof r"
    "rs_ret_type_sent r' \<or> \<not> announces_types (rs_columns r')"
proof -
  obtain p1 where p1: "send_all [id_message stmt_id] p = (SQLI_OK, p1)" "talking p0 arrivals p1"
      "p_sent p1 = p_sent p @ [id_message stmt_id]" by (rule send_talks [OF assms, of "[id_message stmt_id]"]) simp_all
  define announces where "announces \<longleftrightarrow> announces_types (rs_columns r) \<and> \<not> rs_ret_type_sent r"
  define r2 where "r2 = (if announces then r\<lparr>rs_ret_type_sent := True\<rparr> else r)"
  obtain p2 where p2: "send_ret_type r p1 = ((SQLI_OK, r2), p2)" "talking p0 arrivals p2"
      "p_sent p2 = p_sent p1 @ (if announces then type_announcement (rs_columns r) else [])"
    unfolding r2_def announces_def by (rule ret_type_talks [OF p1(2)])
  define room where "room = sqli_choose_fetch_bufsize env r2"
  let ?fetch = "[net16 SQLI_SQ_NFETCH @ net32 room @ [0, 0], net16 SQLI_SQ_EOT]"
  obtain p3 where p3: "send_all ?fetch p2 = (SQLI_OK, p3)" "talking p0 arrivals p3" "p_sent p3 = p_sent p2 @ ?fetch"
    by (rule send_talks [OF p2(2), of ?fetch]) simp_all
  have "request_rows env SQLI_CURSOR_FORWARD_ONLY stmt_id i r p = (Inr (r2\<lparr>rs_fetch_buf_size := room\<rparr>), p3)"
    using p1(1) p2(1) p3(1)
    by (simp add: request_rows_def sqli_send_fetch_def send_fetch_request_def Let_def room_def del: send_all.simps)
  moreover have "gains r [] (r2\<lparr>rs_fetch_buf_size := room\<rparr>)" "rs_eof (r2\<lparr>rs_fetch_buf_size := room\<rparr>) = rs_eof r"
    by (auto simp: r2_def gains_def result_rows_def)
  moreover have "rs_ret_type_sent (r2\<lparr>rs_fetch_buf_size := room\<rparr>) \<or> \<not> announces_types (rs_columns (r2\<lparr>rs_fetch_buf_size := room\<rparr>))"
    by (auto simp: r2_def announces_def)
  moreover have "p_sent p3 = p_sent p @ fetch_request stmt_id (if announces then type_announcement (rs_columns r) else []) room"
    using p1(3) p2(3) p3(3) by (simp add: fetch_request_def)
  moreover have "fetch_size_ok env room" unfolding room_def by (rule chosen_size_ok)
  ultimately show thesis using that [OF _ p3(2)] unfolding announces_def by blast
qed

definition reply_rows :: "reply \<Rightarrow> byte list list" where
  "reply_rows b = map tuple_row (rp_tuples b)"

definition batch_ok :: "dispatch_env \<Rightarrow> reply \<Rightarrow> bool" where
  "batch_ok env b \<longleftrightarrow> (\<forall>t \<in> set (rp_tuples b). tuple_ok t) \<and> counts_ok env b"

definition rows_pieces :: "reply \<Rightarrow> arrival list \<Rightarrow> bool" where
  "rows_pieces b arrivals \<longleftrightarrow> pieces_of (rows_bytes b) arrivals \<and> ends_in_piece arrivals"

lemma fetch_round:
  assumes "talking p0 (arrivals @ later) p" "rows_pieces b arrivals" "memory_ok (ce_dispatch env)" "batch_ok (ce_dispatch env) b"
    and "\<not> rs_eof r" "rs_arena_len r + sum_list (map length (reply_rows b)) \<le> 2 ^ 63"
  obtains r' p' where "receive_phase env ''query/fetch_recv'' SQLI_SQ_NFETCH ''error receiving fetch response'' r p = (Inr r', p')"
    "gains r (reply_rows b) r'" "\<not> rs_saw_error r'" "rs_rows_affected r' = twos_value (rp_affected b)"
    "rs_ret_type_sent r' = rs_ret_type_sent r" "talking p0 later p'" "p_sent p' = p_sent p"
proof -
  define Q where "Q r' \<longleftrightarrow> gains r (reply_rows b) r' \<and> \<not> rs_saw_error r' \<and> rs_rows_affected r' = twos_value (rp_affected b) \<and>
    rs_ret_type_sent r' = rs_ret_type_sent r" for r'
  have sum: "rs_arena_len (unseen r) + (\<Sum>t \<leftarrow> rp_tuples b. length (tuple_row t)) \<le> 2 ^ 63"
    using assms(6) by (simp add: reply_rows_def unseen_def comp_def)
  have "\<exists>r' k'. dispatch_loop (ce_dispatch env) (rs_row_count r) (unseen r) k = ((SQLI_OK, r'), k') \<and> Q r' \<and>
      awaits later k' \<and> k_conn k' = k_conn k" if aw: "awaits (arrivals @ later) k" for k
  proof -
    obtain r1 k' where r1: "rows_added (unseen r) (map tuple_row (rp_tuples b)) r1"
        "dispatch_loop (ce_dispatch env) (rs_row_count r) (unseen r) k =
          ((SQLI_OK, finished (rp_warnings b) (rp_affected b) (rp_serial b) r1), k')"
        "awaits later k'" "k_conn k' = k_conn k"
      by (rule rows_awaited [OF aw, where b = b and env = "ce_dispatch env" and r = "unseen r" and n = "rs_row_count r"])
        (use assms(2-5) sum in \<open>auto simp: rows_pieces_def batch_ok_def unseen_def\<close>)
    have "Q (finished (rp_warnings b) (rp_affected b) (rp_serial b) r1)"
      using gains_trans [OF gains_nothing(2) gains_finished [OF r1(1)]] r1(1)
      by (simp add: Q_def reply_rows_def rows_added_def unseen_def finished_def Let_def)
    then show ?thesis using r1 by blast
  qed
  then show thesis
    by (rule receive_phase_talks [OF assms(1), where Q = Q and r = r and env = env]) (use that Q_def in auto)
qed

lemma fetch_loop_talks:
  assumes "memory_ok (ce_dispatch env)" "rp_tuples e = []" "batch_ok (ce_dispatch env) e"
  shows "list_all2 rows_pieces (bs @ [e]) segs \<Longrightarrow> \<forall>b \<in> set bs. rp_tuples b \<noteq> [] \<and> batch_ok (ce_dispatch env) b \<Longrightarrow>
    talking p0 (concat segs @ later) p \<Longrightarrow> \<not> rs_eof r \<Longrightarrow>
    rs_arena_len r + sum_list (map length (concat (map reply_rows bs))) \<le> 2 ^ 63 \<Longrightarrow>
    rs_ret_type_sent r \<or> \<not> announces_types (rs_columns r) \<Longrightarrow>
    \<exists>r' p' rooms. fetch_loop env SQLI_CURSOR_FORWARD_ONLY stmt_id r p = (Inr r', p') \<and>
      gains r (concat (map reply_rows bs)) r' \<and> \<not> rs_saw_error r' \<and> rs_rows_affected r' = twos_value (rp_affected e) \<and>
      talking p0 later p' \<and> p_sent p' = p_sent p @ concat (map (fetch_request stmt_id []) rooms) \<and>
      length rooms = length bs \<and> (\<forall>room \<in> set rooms. fetch_size_ok env room)"
proof (induction bs arbitrary: segs p r)
  case Nil
  then obtain seg where seg: "segs = [seg]" "rows_pieces e seg" by (auto simp: list_all2_Cons1)
  then have "talking p0 (seg @ later) p" using Nil.prems(3) by simp
  then obtain r' p' where r': "receive_phase env ''query/fetch_recv'' SQLI_SQ_NFETCH ''error receiving fetch response'' r p = (Inr r', p')"
      "gains r (reply_rows e) r'" "\<not> rs_saw_error r'" "rs_rows_affected r' = twos_value (rp_affected e)"
      "rs_ret_type_sent r' = rs_ret_type_sent r" "talking p0 later p'" "p_sent p' = p_sent p"
    by (rule fetch_round [OF _ seg(2) assms(1,3) Nil.prems(4)]) (use Nil.prems(5) assms(2) in \<open>simp add: reply_rows_def\<close>)
  moreover have "rs_row_count r' \<le> rs_row_count r" using r'(2) assms(2) by (simp add: gains_def reply_rows_def)
  ultimately show ?case using assms(2)
    by (intro exI [of _ r'] exI [of _ p'] exI [of _ "[]"]) (subst fetch_loop.simps, simp add: reply_rows_def)
next
  case (Cons b bs)
  then obtain seg segs' where seg: "segs = seg # segs'" "rows_pieces b seg" "list_all2 rows_pieces (bs @ [e]) segs'"
    by (auto simp: list_all2_Cons1)
  have b: "rp_tuples b \<noteq> []" "batch_ok (ce_dispatch env) b" using Cons.prems(2) by auto
  have "talking p0 (seg @ (concat segs' @ later)) p" using Cons.prems(3) seg(1) by simp
  then obtain r1 p1 where r1: "receive_phase env ''query/fetch_recv'' SQLI_SQ_NFETCH ''error receiving fetch response'' r p = (Inr r1, p1)"
      "gains r (reply_rows b) r1" "rs_ret_type_sent r1 = rs_ret_type_sent r" "talking p0 (concat segs' @ later) p1" "p_sent p1 = p_sent p"
    by (rule fetch_round [OF _ seg(2) assms(1) b(2) Cons.prems(4)]) (use Cons.prems(5) in auto)
  have cols: "rs_columns r1 = rs_columns r" using r1(2) by (simp add: gains_def)
  obtain r2 p2 room where r2: "request_rows env SQLI_CURSOR_FORWARD_ONLY stmt_id (rs_row_count r + 1) (r1\<lparr>rs_eof := False\<rparr>) p1 = (Inr r2, p2)"
      "talking p0 (concat segs' @ later) p2" "p_sent p2 = p_sent p1 @ fetch_request stmt_id [] room" "fetch_size_ok env room"
      "gains (r1\<lparr>rs_eof := False\<rparr>) [] r2" "\<not> rs_eof r2" "rs_ret_type_sent r2 \<or> \<not> announces_types (rs_columns r2)"
    by (rule request_talks [OF r1(4), of env stmt_id "rs_row_count r + 1" "r1\<lparr>rs_eof := False\<rparr>"])
      (use Cons.prems(6) r1(3) cols in auto)
  have g: "gains r (reply_rows b) r2"
    using gains_trans [OF gains_trans [OF r1(2) gains_nothing(3)] r2(5)] by simp
  have "rs_arena_len r2 + sum_list (map length (concat (map reply_rows bs))) \<le> 2 ^ 63"
    using g Cons.prems(5) by (simp add: gains_def)
  then obtain r' p' rooms where r': "fetch_loop env SQLI_CURSOR_FORWARD_ONLY stmt_id r2 p2 = (Inr r', p')"
      "gains r2 (concat (map reply_rows bs)) r'" "\<not> rs_saw_error r'" "rs_rows_affected r' = twos_value (rp_affected e)"
      "talking p0 later p'" "p_sent p' = p_sent p2 @ concat (map (fetch_request stmt_id []) rooms)"
      "length rooms = length bs" "\<forall>room \<in> set rooms. fetch_size_ok env room"
    using Cons.IH [OF seg(3) _ r2(2,6) _ r2(7)] Cons.prems(2) by auto
  have "\<not> rs_row_count r1 \<le> rs_row_count r" using r1(2) b(1) by (simp add: gains_def reply_rows_def)
  then have "fetch_loop env SQLI_CURSOR_FORWARD_ONLY stmt_id r p = (Inr r', p')"
    by (subst fetch_loop.simps) (simp add: r1(1) r2(1) r'(1))
  then show ?case
    using gains_trans [OF g r'(2)] r' r2(3,4) r1(5) by (intro exI [of _ r'] exI [of _ p'] exI [of _ "room # rooms"]) simp
qed

section \<open>A query\<close>

definition prepare_messages :: "client_env \<Rightarrow> string \<Rightarrow> byte list \<Rightarrow> byte list list" where
  "prepare_messages env sql text_bytes =
     [net16 SQLI_SQ_PREPARE @ net16 (count_qmarks sql),
      if de_remove_64k_limit (ce_dispatch env) then net32 (length text_bytes) else net16 (length text_bytes), text_bytes] @
     (if odd (length text_bytes) then [[0]] else []) @
     [net16 SQLI_SQ_NDESCRIBE @ net16 SQLI_SQ_WANTDONE @ net16 SQLI_SQ_EOT]"

lemma prepare_talks:
  assumes "talking p0 arrivals p" "ce_encode env sql = Inr text_bytes" "text_bytes \<noteq> []"
  obtains p' where "sqli_send_prepare env sql p = (SQLI_OK, p')" "talking p0 arrivals p'"
    "p_sent p' = p_sent p @ prepare_messages env sql text_bytes"
proof -
  let ?len = "length text_bytes"
  let ?head = "[net16 SQLI_SQ_PREPARE @ net16 (count_qmarks sql),
    if de_remove_64k_limit (ce_dispatch env) then net32 ?len else net16 ?len, text_bytes]"
  let ?pad = "if odd ?len then [[0]] else [] :: byte list list"
  let ?tail = "[net16 SQLI_SQ_NDESCRIBE @ net16 SQLI_SQ_WANTDONE @ net16 SQLI_SQ_EOT]"
  obtain p1 where p1: "send_all ?head p = (SQLI_OK, p1)" "talking p0 arrivals p1" "p_sent p1 = p_sent p @ ?head"
    by (rule send_talks [OF assms(1), of ?head]) (use assms(3) in auto)
  define p2 where "p2 = (if odd ?len then snd (peer_send [0] p1) else p1)"
  have "p2 = p1\<lparr>p_sent := p_sent p1 @ ?pad\<rparr>"
    using p1(2) by (auto simp: p2_def peer_send_def Let_def talking_def willing_def)
  then have p2: "talking p0 arrivals p2" "p_sent p2 = p_sent p1 @ ?pad" using talking_sent [OF p1(2)] by simp_all
  obtain p3 where p3: "send_all ?tail p2 = (SQLI_OK, p3)" "talking p0 arrivals p3" "p_sent p3 = p_sent p2 @ ?tail"
    by (rule send_talks [OF p2(1), of ?tail]) simp_all
  have "sqli_send_prepare env sql p = send_all ?tail p2"
    unfolding sqli_send_prepare_def assms(2) sum.case Let_def p1(1) prod.case p2_def by simp
  then show thesis using that [of p3] p1(3) p2(2) p3 by (simp add: prepare_messages_def)
qed

text \<open>
  The server's part: the description with a statement id, an acknowledgement of the cursor, the rows in
  batches and a batch without rows, and the acknowledgements of close and release.
\<close>

record conversation =
  cv_description :: reply
  cv_batches :: "reply list"
  cv_last :: reply

definition cv_rows :: "conversation \<Rightarrow> byte list list" where
  "cv_rows cv = concat (map reply_rows (cv_batches cv))"

definition conversation_ok :: "dispatch_env \<Rightarrow> conversation \<Rightarrow> bool" where
  "conversation_ok env cv \<longleftrightarrow>
     reply_ok env (cv_description cv) \<and> rp_tuples (cv_description cv) = [] \<and>
     di_statement_type (rp_info (cv_description cv)) = 2 \<and>
     \<not> list_ex (\<lambda>c. sqli_is_legacy_lob_type (ci_type c)) (reply_columns (cv_description cv)) \<and>
     (\<forall>b \<in> set (cv_batches cv). rp_tuples b \<noteq> [] \<and> batch_ok env b) \<and>
     rp_tuples (cv_last cv) = [] \<and> batch_ok env (cv_last cv) \<and>
     (\<forall>row \<in> set (cv_rows cv). row_reads (reply_columns (cv_description cv)) row) \<and>
     int (length (cv_rows cv)) \<le> INT32_MAX \<and> sum_list (map length (cv_rows cv)) \<le> 2 ^ 63"

definition server_speaks :: "conversation \<Rightarrow> arrival list \<Rightarrow> bool" where
  "server_speaks cv arrivals \<longleftrightarrow>
     (\<exists>description opened batches closing released.
        arrivals = description @ opened @ concat batches @ closing @ released \<and>
        pieces_of (reply_bytes (cv_description cv)) description \<and> ends_in_piece description \<and>
        pieces_of (net16 SQLI_SQ_EOT) opened \<and> list_all2 rows_pieces (cv_batches cv @ [cv_last cv]) batches \<and>
        pieces_of (net16 SQLI_SQ_EOT) closing \<and> pieces_of (net16 SQLI_SQ_EOT) released)"

lemma select_runs:
  assumes "memory_ok (ce_dispatch env)" "conversation_ok (ce_dispatch env) cv"
    and "talking p0 (opened @ concat batches @ closing @ released @ later) p"
    and "pieces_of (net16 SQLI_SQ_EOT) opened" "list_all2 rows_pieces (cv_batches cv @ [cv_last cv]) batches"
    and "pieces_of (net16 SQLI_SQ_EOT) closing" "pieces_of (net16 SQLI_SQ_EOT) released"
    and "rs_columns r = reply_columns (cv_description cv)" "\<not> rs_eof r" "rs_arena_len r = 0" "0 \<le> rs_stmt_id r"
    and "\<not> rs_ret_type_sent r"
  obtains r' p' rooms where "run_select env SQLI_CURSOR_FORWARD_ONLY holdability r p = (Inr (r'\<lparr>rs_stmt_id := -1\<rparr>), p')"
    "gains r (cv_rows cv) r'" "\<not> rs_saw_error r'" "rs_rows_affected r' = twos_value (rp_affected (cv_last cv))"
    "talking p0 later p'"
    "p_sent p' = p_sent p @ open_messages (rs_stmt_id r) SQLI_CURSOR_FORWARD_ONLY holdability @
       fetch_messages (rs_stmt_id r) (rs_columns r) rooms @ close_messages (rs_stmt_id r)"
    "length rooms = length (cv_batches cv) + 1" "\<forall>room \<in> set rooms. fetch_size_ok env room"
proof -
  note ok = assms(2) [unfolded conversation_ok_def]
  let ?id = "rs_stmt_id r"
  let ?open = "open_messages ?id SQLI_CURSOR_FORWARD_ONLY holdability"
  have "[] \<notin> set ?open" by (auto simp: open_messages_def curname_def)
  then obtain p1 where p1: "send_all ?open p = (SQLI_OK, p1)" "p_sent p1 = p_sent p @ ?open"
      "talking p0 (opened @ concat batches @ closing @ released @ later) p1" by (rule send_talks [OF assms(3)])
  define Q where "Q r1 \<longleftrightarrow> r1 = (unseen r)\<lparr>rs_eof := True\<rparr>" for r1
  have "\<exists>r' k'. dispatch_loop (ce_dispatch env) (rs_row_count r) (unseen r) k = ((SQLI_OK, r'), k') \<and> Q r' \<and>
      awaits (concat batches @ closing @ released @ later) k' \<and> k_conn k' = k_conn k"
    if aw: "awaits (opened @ concat batches @ closing @ released @ later) k"
      "c_error_context (k_conn k) = take 47 ''query/open_recv''" for k
    by (rule eot_awaited [OF aw(1) assms(4), of "unseen r" "rs_row_count r" "ce_dispatch env"])
      (use assms(9) aw(2) in \<open>auto simp: unseen_def can_end_group_def Q_def\<close>)
  then obtain r1 p2 where r1: "receive_phase env ''query/open_recv'' SQLI_SQ_PREPARE ''error receiving open response'' r p1 = (Inr r1, p2)"
      "r1 = (unseen r)\<lparr>rs_eof := True\<rparr>" "talking p0 (concat batches @ closing @ released @ later) p2" "p_sent p2 = p_sent p1"
    unfolding Q_def by (rule receive_phase_talks [OF p1(3)])
  have first: "rs_columns r1 = rs_columns r" "\<not> rs_ret_type_sent r1" using r1(2) assms(12) by (simp_all add: unseen_def)
  obtain r2 p3 room where r2: "request_rows env SQLI_CURSOR_FORWARD_ONLY ?id 1 (r1\<lparr>rs_eof := False\<rparr>) p2 = (Inr r2, p3)"
      "talking p0 (concat batches @ closing @ released @ later) p3" "p_sent p3 = p_sent p2 @ fetch_request ?id
        (if announces_types (rs_columns r) then type_announcement (rs_columns r) else []) room" "fetch_size_ok env room"
      "gains (r1\<lparr>rs_eof := False\<rparr>) [] r2" "\<not> rs_eof r2" "rs_ret_type_sent r2 \<or> \<not> announces_types (rs_columns r2)"
    by (rule request_talks [OF r1(3), of env ?id 1 "r1\<lparr>rs_eof := False\<rparr>"]) (use first in \<open>simp_all cong: if_cong\<close>)
  have g2: "gains r [] r2" using r2(5) r1(2) by (simp add: gains_def unseen_def result_rows_def)
  then have "rs_arena_len r2 + sum_list (map length (concat (map reply_rows (cv_batches cv)))) \<le> 2 ^ 63"
    using ok assms(10) by (simp add: gains_def cv_rows_def)
  then obtain r3 p4 rooms where r3: "fetch_loop env SQLI_CURSOR_FORWARD_ONLY ?id r2 p3 = (Inr r3, p4)" "gains r2 (cv_rows cv) r3"
      "\<not> rs_saw_error r3" "rs_rows_affected r3 = twos_value (rp_affected (cv_last cv))"
      "talking p0 (closing @ released @ later) p4" "p_sent p4 = p_sent p3 @ concat (map (fetch_request ?id []) rooms)"
      "length rooms = length (cv_batches cv)" "\<forall>room \<in> set rooms. fetch_size_ok env room"
    using fetch_loop_talks [OF assms(1) _ _ assms(5) _ r2(2,6) _ r2(7), of ?id] ok by (auto simp: cv_rows_def)
  have g3: "gains r (cv_rows cv) r3" using gains_trans [OF g2 r3(2)] by simp
  have lobs: "\<not> has_lobs r3" using g3 assms(8) ok by (simp add: gains_def has_lobs_def)
  note shut = close_release_talks [OF r3(5) assms(6,7), of env ?id]
  have "run_select env SQLI_CURSOR_FORWARD_ONLY holdability r p =
      (Inr (r3\<lparr>rs_stmt_id := -1\<rparr>), sqli_stmt_close_release env ?id p4)"
    by (simp add: run_select_def Let_def sqli_send_open_def p1(1) and_then_def r1(1) r2(1) r3(1) lobs del: send_all.simps)
  then show thesis
    using that [of r3 _ "room # rooms"] g3 r3(3,4,7,8) shut p1(2) r1(4) r2(3,4) r3(6) by simp
qed

definition delivers :: "result_env \<Rightarrow> result \<Rightarrow> byte list list \<Rightarrow> bool" where
  "delivers renv r rows \<longleftrightarrow> cursor_ok renv r \<and>
     fst (drain (sqli_result_next renv) rs_tuple (length rows + 1) r) = map Some rows"

text \<open>What the application reads of the connection while it goes through the rows.\<close>

definition reads_after :: "result_env \<Rightarrow> sqli_conn \<Rightarrow> bool" where
  "reads_after renv conn \<longleftrightarrow> re_alloc renv \<and>
     (\<exists>owner. re_conn renv = Some owner \<and> \<not> l_discarded owner \<and> c_commit_epoch owner = c_commit_epoch conn \<and>
        c_rollback_epoch owner = c_rollback_epoch conn)"

lemma delivers_all:
  assumes "cursor_env_ok renv r" "result_rows r = rows" "rs_row_count r = int (length rows)" "rows \<noteq> [] \<longrightarrow> rs_rows r \<noteq> None"
    and "rs_columns r \<noteq> []" "length (rs_columns r) < 2 ^ 16" "int (length rows) \<le> INT32_MAX"
    and "\<forall>row \<in> set rows. row_reads (rs_columns r) row" "rs_fetch_status r = SQLI_OK" "\<not> rs_saw_error r" "rs_error_code r = 0"
    and "rs_cache r = None" "rs_at_before_first r" "\<not> rs_at_after_last r" "rs_cursor r = -1" "rs_current_row r = -1"
    and "rs_tuple r = None" "rs_absolute_row_num r = 0"
  shows "delivers renv r rows"
proof -
  have "storage_ok r" "off_rows r" "cursor_position r = 0"
    using assms by (auto simp: storage_ok_def cache_fits_def SIZE_MAX_def off_rows_def cursor_position_def)
  then have cursor: "cursor_ok renv r" "cursor_position r = 0" using assms(1) by (simp_all add: cursor_ok_def)
  show ?thesis
    using client_cursor.reads_all_rows(1) [OF cursor, of "length rows + 1"] assms(2) cursor(1)
    by (simp add: delivers_def cursor_step_next)
qed

text \<open>The preparation: the request, and a result described by the reply.\<close>

lemma prepared_talks:
  assumes "memory_ok (ce_dispatch env)" "ce_encode env sql = Inr text_bytes" "text_bytes \<noteq> []"
    and "reply_ok (ce_dispatch env) d" "rp_tuples d = []" "pieces_of (reply_bytes d) description" "ends_in_piece description"
    and "talking p0 (description @ later) p" "fresh_result (unseen r0)"
  obtains p1 r1 p2 where "sqli_send_prepare env sql p = (SQLI_OK, p1)"
    "receive_phase env ''query/prepare_recv'' SQLI_SQ_PREPARE ''error receiving prepare response'' r0 p1 = (Inr r1, p2)"
    "gains (described_result (rp_info d) (rp_fields d) (unseen r0)) [] r1" "talking p0 later p2"
    "p_sent p2 = p_sent p @ prepare_messages env sql text_bytes" "rs_ret_type_sent r1 = rs_ret_type_sent r0"
proof -
  obtain p1 where p1: "sqli_send_prepare env sql p = (SQLI_OK, p1)" "talking p0 (description @ later) p1"
      "p_sent p1 = p_sent p @ prepare_messages env sql text_bytes"
    by (rule prepare_talks [OF assms(8,2,3)])
  define Q where "Q r1 \<longleftrightarrow> gains (described_result (rp_info d) (rp_fields d) (unseen r0)) [] r1 \<and>
    rs_ret_type_sent r1 = rs_ret_type_sent r0" for r1
  have "\<exists>r' k'. dispatch_loop (ce_dispatch env) (rs_row_count r0) (unseen r0) k = ((SQLI_OK, r'), k') \<and> Q r' \<and>
      awaits later k' \<and> k_conn k' = k_conn k" if aw: "awaits (description @ later) k" for k
  proof -
    obtain r1 k' where r1: "rows_added (described_result (rp_info d) (rp_fields d) (unseen r0)) (map tuple_row (rp_tuples d)) r1"
        "dispatch_loop (ce_dispatch env) (rs_row_count r0) (unseen r0) k =
          ((SQLI_OK, finished (rp_warnings d) (rp_affected d) (rp_serial d) r1), k')" "awaits later k'" "k_conn k' = k_conn k"
      by (rule description_awaited [OF aw assms(6,7,1,4,9)])
    have "map tuple_row (rp_tuples d) = []" using assms(5) by simp
    then have "Q (finished (rp_warnings d) (rp_affected d) (rp_serial d) r1)"
      using gains_finished [OF r1(1)] r1(1)
      by (simp add: Q_def rows_added_def finished_def described_result_def replace_descriptor_def unseen_def Let_def)
    then show ?thesis using r1 by blast
  qed
  then obtain r1 p2 where "receive_phase env ''query/prepare_recv'' SQLI_SQ_PREPARE ''error receiving prepare response'' r0 p1 = (Inr r1, p2)"
      "gains (described_result (rp_info d) (rp_fields d) (unseen r0)) [] r1" "talking p0 later p2" "p_sent p2 = p_sent p1"
      "rs_ret_type_sent r1 = rs_ret_type_sent r0"
    unfolding Q_def by (rule receive_phase_talks [OF p1(2)]) auto
  then show thesis using that p1(1,3) by simp
qed

text \<open>A result that the query has filled delivers what it has got.\<close>

lemma filled_delivers:
  assumes "conversation_ok env cv" "reads_after renv conn"
    and "r0 = unseen (new_result SQLI_CURSOR_FORWARD_ONLY holdability (clear_error conn))"
    and "gains (described_result (rp_info (cv_description cv)) (rp_fields (cv_description cv)) r0) (cv_rows cv) r" "\<not> rs_saw_error r"
  shows "delivers renv (r\<lparr>rs_stmt_id := -1\<rparr>) (cv_rows cv)"
proof (rule delivers_all)
  note ok = assms(1) [unfolded conversation_ok_def]
  note g = assms(4) [unfolded gains_def described_result_def replace_descriptor_def, simplified]
  note new = assms(3) unseen_def new_result_def zero_result_def
  show "cursor_env_ok renv (r\<lparr>rs_stmt_id := -1\<rparr>)"
    using assms(2) g
    by (auto simp: cursor_env_ok_def reads_after_def sqli_result_is_closed_by_commit_def new
        sqli_result_is_server_scrollable_def clear_error_def)
  have "length (reply_columns (cv_description cv)) = length (rp_fields (cv_description cv))"
      "rp_fields (cv_description cv) \<noteq> []" "length (rp_fields (cv_description cv)) < 2 ^ 16"
    using ok by (auto simp: reply_columns_def descriptor_legacy_columns_def described_def describe_ok_def reply_ok_def)
  then show "rs_columns (r\<lparr>rs_stmt_id := -1\<rparr>) \<noteq> []" "length (rs_columns (r\<lparr>rs_stmt_id := -1\<rparr>)) < 2 ^ 16"
    using g by (auto simp: reply_columns_def)
  show "\<forall>row \<in> set (cv_rows cv). row_reads (rs_columns (r\<lparr>rs_stmt_id := -1\<rparr>)) row" "int (length (cv_rows cv)) \<le> INT32_MAX"
    using ok g by (simp_all add: reply_columns_def)
qed (use assms(4,5) in \<open>simp_all add: gains_def described_result_def replace_descriptor_def result_rows_def assms(3) unseen_def
    new_result_def zero_result_def\<close>)

text \<open>
  C1. A query from its text to its rows: on a ready connection, with a server that answers every request and a
  network that cuts its replies into pieces, \<open>sqli_query\<close> returns a result with the columns that the server
  described; going through it delivers the rows of all the batches, in order and once. The server has got
  exactly the messages of prepare, open, one fetch for every batch and the last one, close and release, in this order; every
  fetch names the statement and asks for at least 1024 bytes and no more than the connection allows, and the first
  announces the types of the columns if one of them is of variable length and none is of an extended type. All
  replies have been read and nothing of what comes later, and the connection is as before.
\<close>

theorem select_query_delivers_rows:
  assumes "memory_ok (ce_dispatch env)" "ce_alloc env" "ce_cursor_type env = SQLI_CURSOR_FORWARD_ONLY"
    and "ce_encode env sql = Inr text_bytes" "text_bytes \<noteq> []"
    and "conversation_ok (ce_dispatch env) cv" "server_speaks cv arrivals"
    and "k_buffer (p_link p) = []" "k_arrivals (p_link p) = arrivals @ later" "quiet (p_link p)" "willing p"
    and "c_state (k_conn (p_link p)) = SQLI_CONN_READY"
    and "c_autocommit (k_conn (p_link p)) \<or> c_in_transaction (k_conn (p_link p))"
    and "reads_after renv (k_conn (p_link p))"
  shows "\<exists>r p' rooms. sqli_query env sql p = (Inr r, p') \<and> rs_columns r = reply_columns (cv_description cv) \<and>
    rs_rows_affected r = twos_value (rp_affected (cv_last cv)) \<and> delivers renv r (cv_rows cv) \<and>
    k_buffer (p_link p') = [] \<and> k_arrivals (p_link p') = later \<and> k_conn (p_link p') = clear_error (k_conn (p_link p)) \<and>
    p_sent p' = p_sent p @ prepare_messages env sql text_bytes @
      open_messages (int (di_statement_id (rp_info (cv_description cv)))) SQLI_CURSOR_FORWARD_ONLY (ce_holdability env) @
      fetch_messages (int (di_statement_id (rp_info (cv_description cv)))) (reply_columns (cv_description cv)) rooms @
      close_messages (int (di_statement_id (rp_info (cv_description cv)))) \<and>
    length rooms = length (cv_batches cv) + 1 \<and> (\<forall>room \<in> set rooms. fetch_size_ok env room)"
proof -
  note ok = assms(6) [unfolded conversation_ok_def]
  define d where "d = cv_description cv"
  obtain description opened batches closing released where
    speaks: "arrivals = description @ opened @ concat batches @ closing @ released"
      "pieces_of (reply_bytes d) description" "ends_in_piece description"
      "pieces_of (net16 SQLI_SQ_EOT) opened" "list_all2 rows_pieces (cv_batches cv @ [cv_last cv]) batches"
      "pieces_of (net16 SQLI_SQ_EOT) closing" "pieces_of (net16 SQLI_SQ_EOT) released"
    using assms(7) by (auto simp: server_speaks_def d_def)
  let ?rest = "opened @ concat batches @ closing @ released @ later"
  let ?p = "peer_conn clear_error p"
  define r0 where "r0 = new_result SQLI_CURSOR_FORWARD_ONLY (ce_holdability env) (k_conn (p_link ?p))"
  have t0: "talking ?p (description @ ?rest) ?p"
    using assms(8-11) speaks(1)
    by (simp add: talking_def cleared_def willing_def clear_error_def) (simp add: awaits_def quiet_def reported_def peer_conn_def no_error_def)
  have fresh: "fresh_result (unseen r0)" by (simp add: fresh_result_def unseen_def r0_def new_result_def zero_result_def)
  obtain p1 r1 p2 where r1: "sqli_send_prepare env sql ?p = (SQLI_OK, p1)"
      "receive_phase env ''query/prepare_recv'' SQLI_SQ_PREPARE ''error receiving prepare response'' r0 p1 = (Inr r1, p2)"
      "gains (described_result (rp_info d) (rp_fields d) (unseen r0)) [] r1" "talking ?p ?rest p2"
      "p_sent p2 = p_sent ?p @ prepare_messages env sql text_bytes" "\<not> rs_ret_type_sent r1"
    by (rule prepared_talks [OF assms(1,4,5) _ _ speaks(2,3) t0 fresh])
      (use ok d_def in \<open>auto simp: r0_def new_result_def zero_result_def\<close>)
  have fields: "rs_columns r1 = reply_columns d" "rs_statement_type r1 = 2" "rs_stmt_id r1 = int (di_statement_id (rp_info d))"
      "rs_arena_len r1 = 0"
    using r1(3) ok
    by (simp_all add: gains_def described_result_def replace_descriptor_def reply_columns_def described_def unseen_def
        r0_def new_result_def zero_result_def d_def)
  let ?r1 = "r1\<lparr>rs_eof := False\<rparr>"
  have cols: "rs_columns ?r1 = reply_columns (cv_description cv)" "\<not> rs_eof ?r1" "rs_arena_len ?r1 = 0" "0 \<le> rs_stmt_id ?r1"
      "\<not> rs_ret_type_sent ?r1"
    using fields r1(6) by (simp_all add: d_def)
  obtain r2 p3 rooms where r2: "run_select env SQLI_CURSOR_FORWARD_ONLY (ce_holdability env) ?r1 p2 = (Inr (r2\<lparr>rs_stmt_id := -1\<rparr>), p3)"
      "gains ?r1 (cv_rows cv) r2" "\<not> rs_saw_error r2" "rs_rows_affected r2 = twos_value (rp_affected (cv_last cv))"
      "talking ?p later p3"
      "p_sent p3 = p_sent p2 @ open_messages (rs_stmt_id ?r1) SQLI_CURSOR_FORWARD_ONLY (ce_holdability env) @
        fetch_messages (rs_stmt_id ?r1) (rs_columns ?r1) rooms @ close_messages (rs_stmt_id ?r1)"
      "length rooms = length (cv_batches cv) + 1" "\<forall>room \<in> set rooms. fetch_size_ok env room"
    by (rule select_runs [OF assms(1,6) r1(4) speaks(4-7) cols])
  have conn: "cleared p2 = clear_error (k_conn (p_link p))" using r1(4) by (simp add: talking_def cleared_def clear_error_def)
  have auto: "peer_autobegin env 2 p2 = (SQLI_OK, p2)"
  proof -
    have "c_autocommit (cleared p2) \<or> c_in_transaction (cleared p2)" using assms(13) conn by simp
    then show ?thesis by (auto simp: peer_autobegin_def cleared_def Let_def)
  qed
  define r where "r = r2\<lparr>rs_stmt_id := -1\<rparr>"
  have prepared: "run_prepared env SQLI_CURSOR_FORWARD_ONLY (ce_holdability env) r1 p2 = (Inr r, peer_conn clear_error p3)"
    using r2(1) fields by (simp add: run_prepared_def auto Let_def and_then_def r_def)
  have query: "sqli_query env sql p = (Inr r, peer_conn clear_error p3)"
    using assms(12,2,3) r1(1,2) prepared
    by (simp add: sqli_query_def sqli_query_ex_def sqli_validate_query_options_def and_then_def Let_def r0_def)
  have g: "gains (described_result (rp_info d) (rp_fields d) (unseen r0)) (cv_rows cv) r2"
    using gains_trans [OF gains_trans [OF r1(3) gains_nothing(3)] r2(2)] by simp
  have "delivers renv r (cv_rows cv)"
    unfolding r_def by (rule filled_delivers [OF assms(6,14) _ _ r2(3), where ?r0.0 = "unseen r0" and holdability = "ce_holdability env"])
      (use g in \<open>simp_all add: r0_def d_def\<close>)
  moreover have "k_buffer (p_link (peer_conn clear_error p3)) = []" "k_arrivals (p_link (peer_conn clear_error p3)) = later"
    "k_conn (p_link (peer_conn clear_error p3)) = clear_error (k_conn (p_link p))"
    using r2(5) by (simp_all add: talking_def awaits_def cleared_def) (simp_all add: peer_conn_def clear_error_def)
  moreover have "rs_columns r = reply_columns d" using g by (simp add: r_def reply_columns_def gains_def described_result_def replace_descriptor_def)
  moreover have "rs_rows_affected r = twos_value (rp_affected (cv_last cv))" using r2(4) by (simp add: r_def)
  ultimately show ?thesis
    using query r2(6-8) r1(5) fields(1,3)
    by (intro exI [of _ r] exI [of _ "peer_conn clear_error p3"] exI [of _ rooms]) (simp add: d_def)
qed

definition sample_client :: client_env where
  "sample_client = \<lparr>ce_dispatch = sample_dispatch_env, ce_encode = (\<lambda>s. Inr (map of_char s)),
     ce_cursor_type = SQLI_CURSOR_FORWARD_ONLY, ce_holdability = SQLI_CURSOR_CLOSE_AT_COMMIT, ce_fetch_buf_size = 4194304,
     ce_target_rows = 0, ce_alloc = True\<rparr>"

definition sample_conversation :: conversation where
  "sample_conversation = \<lparr>cv_description = sample_reply\<lparr>rp_tuples := []\<rparr>, cv_batches = [sample_reply],
     cv_last = sample_reply\<lparr>rp_tuples := [], rp_affected := [0, 0, 0, 2]\<rparr>\<rparr>"

text \<open>The description comes in two pieces, every other reply in one; two bytes of something else follow.\<close>

definition sample_arrivals :: "arrival list" where
  "sample_arrivals =
     (let d = reply_bytes (sample_reply\<lparr>rp_tuples := []\<rparr>); eot = [Bytes (net16 SQLI_SQ_EOT)]
      in [Bytes (take 5 d), Bytes (drop 5 d)] @ eot @ [Bytes (rows_bytes sample_reply), Bytes (rows_bytes (cv_last sample_conversation))] @
         eot @ eot)"

definition sample_peer :: peer where
  "sample_peer = \<lparr>p_link = \<lparr>k_conn = sample_conn\<lparr>c_autocommit := True\<rparr>, k_buffer = [], k_arrivals = sample_arrivals @ [Bytes [7, 7]],
     k_peeks = []\<rparr>, p_sends = \<lambda>n. True, p_sent = [], p_discarded = False\<rparr>"

lemma sample_conversation_ok: "conversation_ok sample_dispatch_env sample_conversation"
proof -
  have cols: "reply_columns (sample_reply\<lparr>rp_tuples := []\<rparr>) = reply_columns sample_reply" by (simp add: reply_columns_def)
  have "reply_ok sample_dispatch_env (sample_reply\<lparr>rp_tuples := []\<rparr>)"
    using sample_reply_ok by (auto simp: reply_ok_def cols INT32_MAX_def)
  moreover have "batch_ok sample_dispatch_env sample_reply" "\<forall>t \<in> set (rp_tuples sample_reply). row_reads (reply_columns sample_reply) (tuple_row t)"
    using sample_reply_ok by (auto simp: reply_ok_def batch_ok_def counts_ok_def)
  moreover have "\<not> list_ex (\<lambda>c. sqli_is_legacy_lob_type (ci_type c)) (reply_columns sample_reply)"
    by (simp add: sample_columns sqli_is_legacy_lob_type_def)
  ultimately show ?thesis
    unfolding conversation_ok_def sample_conversation_def cv_rows_def
    by (simp add: cols batch_ok_def counts_ok_def reply_rows_def)
      (simp add: sample_reply_def sample_info_def INT32_MAX_def tuple_row_def sample_dispatch_env_def)
qed

lemma sample_speaks: "server_speaks sample_conversation sample_arrivals"
proof -
  let ?d = "reply_bytes (sample_reply\<lparr>rp_tuples := []\<rparr>)" and ?eot = "[Bytes (net16 SQLI_SQ_EOT)]"
  let ?last = "rows_bytes (cv_last sample_conversation)"
  have one: "pieces_of bytes [Bytes bytes]" if "bytes \<noteq> []" for bytes
    using that by (auto simp: pieces_of_def intro: exI [of _ "[bytes]"])
  have long: "10 < length ?d" "2 < length (rows_bytes sample_reply)" "2 < length ?last"
    by (simp_all add: reply_bytes_def rows_bytes_def sample_conversation_def done_body_def)
  then have "pieces_of ?d [Bytes (take 5 ?d), Bytes (drop 5 ?d)]" "ends_in_piece [Bytes (take 5 ?d), Bytes (drop 5 ?d)]"
    by (auto simp: pieces_of_def ends_in_piece_def intro!: exI [of _ "[take 5 ?d, drop 5 ?d]"])
  moreover have "list_all2 rows_pieces (cv_batches sample_conversation @ [cv_last sample_conversation])
      [[Bytes (rows_bytes sample_reply)], [Bytes ?last]]"
  proof -
    have "rows_bytes sample_reply \<noteq> []" "?last \<noteq> []" using long by auto
    then have "pieces_of (rows_bytes sample_reply) [Bytes (rows_bytes sample_reply)]" "pieces_of ?last [Bytes ?last]" by (simp_all add: one)
    then show ?thesis using long by (simp add: sample_conversation_def rows_pieces_def ends_in_piece_def)
  qed
  moreover have "pieces_of (net16 SQLI_SQ_EOT) ?eot" by (rule one) simp
  ultimately show ?thesis
    unfolding server_speaks_def
    by (intro exI [of _ "[Bytes (take 5 ?d), Bytes (drop 5 ?d)]"] exI [of _ ?eot]
        exI [of _ "[[Bytes (rows_bytes sample_reply)], [Bytes ?last]]"])
      (simp add: sample_arrivals_def Let_def sample_conversation_def)
qed

lemma select_query_delivers_rows_witness:
  "\<exists>r p'. sqli_query sample_client ''select id from t'' sample_peer = (Inr r, p') \<and>
    delivers (sample_env\<lparr>re_conn := Some created_object\<rparr>) r [[0, 0, 0, 1], [0, 0, 0, 2]] \<and> k_arrivals (p_link p') = [Bytes [7, 7]]"
proof -
  have rows: "cv_rows sample_conversation = [[0, 0, 0, 1], [0, 0, 0, 2]]"
    by (simp add: cv_rows_def sample_conversation_def reply_rows_def sample_reply_def tuple_row_def)
  let ?env = "sample_env\<lparr>re_conn := Some created_object\<rparr>"
  have "reads_after ?env (k_conn (p_link sample_peer))"
    by (simp add: reads_after_def sample_env_def sample_peer_def sample_conn_def created_object_def sqli_conn.defs created_conn_def)
  moreover have "willing sample_peer" "c_state (k_conn (p_link sample_peer)) = SQLI_CONN_READY"
    by (simp_all add: willing_def sample_peer_def sample_conn_def created_conn_def)
  ultimately show ?thesis
    using select_query_delivers_rows [of sample_client "''select id from t''" "map of_char ''select id from t''"
        sample_conversation sample_arrivals sample_peer "[Bytes [7, 7]]" ?env]
      sample_memory sample_conversation_ok sample_speaks rows
    by (auto simp: sample_client_def) (auto simp: sample_peer_def quiet_def)
qed

section \<open>A group whose end comes late\<close>

text \<open>
  When the end of a group comes in a piece of its own, the reply that it ends leaves it behind, and the
  next phase takes it for the reply that it waits for: the reply to an execution is not read, its rows are not
  counted, and the next statement finds it. The look ahead after DONE waits for nothing.
\<close>

lemma late_eot_left_behind:
  "(case dispatch_loop sample_dispatch_env 0 sample_new_result
      \<lparr>k_conn = created_conn, k_buffer = [], k_arrivals = [Bytes (net16 SQLI_SQ_DONE @ done_body 0 [0, 0, 0, 0] [0, 0, 0, 0] 0),
         Bytes (net16 SQLI_SQ_EOT)], k_peeks = []\<rparr> of
      ((rc, r), k) \<Rightarrow> rc = SQLI_OK \<and> rs_eof r \<and> k_buffer k = [] \<and> k_arrivals k = [Bytes (net16 SQLI_SQ_EOT)])"
  by code_simp

lemma late_eot_taken_for_reply:
  assumes "awaits (Bytes (net16 SQLI_SQ_EOT) # reply) k" "\<not> rs_eof r" "c_error_context (k_conn k) = ''query/execute_recv''"
  shows "\<exists>k'. dispatch_loop env n r k = ((SQLI_OK, r\<lparr>rs_eof := True\<rparr>), k') \<and> k_arrivals k' = reply"
proof -
  have piece: "pieces_of (net16 SQLI_SQ_EOT) [Bytes (net16 SQLI_SQ_EOT)]"
    by (auto simp: pieces_of_def intro: exI [of _ "[net16 SQLI_SQ_EOT]"])
  have aw: "awaits ([Bytes (net16 SQLI_SQ_EOT)] @ reply) k" using assms(1) by simp
  obtain k' where "dispatch_loop env n r k = ((SQLI_OK, r\<lparr>rs_eof := True\<rparr>), k')" "awaits reply k'"
    by (rule eot_awaited [OF aw piece assms(2)]) (use assms(3) in \<open>simp_all add: can_end_group_def\<close>)
  then show ?thesis by (auto simp: awaits_def)
qed

end
