(* ===== verification/Timestamp.thy ===== *)
theory Timestamp
  imports Prelude
begin

text \<open>
  Timestamps as broken-down calendar fields and their distance from the Unix epoch
  (the second half of src/src/sqli_types.c and the calendar conversion of
  src/src/sqli_result_value.c). The sums of day numbers are written without the undefined overflow
  of C; the unsigned sums are reduced modulo 2 to the 32. A timestamp pointer that is NULL is
  \<open>None\<close>.
\<close>

record timestamp =
  ts_is_null :: bool
  ts_year :: int
  ts_month :: int
  ts_day :: int
  ts_hour :: int
  ts_minute :: int
  ts_second :: int
  ts_microsecond :: int

section \<open>Civil days\<close>

text \<open>Days since 1899-12-31 to a date of the proleptic Gregorian calendar whose years begin in March.\<close>

definition sqli_days_to_ymd_ifx :: "int \<Rightarrow> int \<times> int \<times> int" where
  "sqli_days_to_ymd_ifx ifx_days =
     (let z = ifx_days - 25568 + 719468;
          era = c_div (if z \<ge> 0 then z else z - 146096) 146097;
          doe = nat (z - era * 146097);
          yoe = (doe - doe div 1460 + doe div 36524 - doe div 146096) div 365;
          yy = int yoe + era * 400;
          doy = doe - (365 * yoe + yoe div 4 - yoe div 100);
          mp = (5 * doy + 2) div 153;
          dd = doy - (153 * mp + 2) div 5 + 1;
          mm = (if mp < 10 then mp + 3 else mp - 9);
          yy = yy + (if mm \<le> 2 then 1 else 0)
      in (i32 yy, int mm, int dd))"

definition ymd_to_days :: "int \<Rightarrow> int \<Rightarrow> int \<Rightarrow> int" where
  "ymd_to_days y m d =
     (let (y, m) = (if m \<le> 2 then (y - 1, m + 12) else (y, m));
          era = c_div (if y \<ge> 0 then y else y - 399) 400;
          yoe = u32 (nat ((y - era * 400) mod 2 ^ 32));
          doy = u32 (nat ((c_div (153 * (m - 3) + 2) 5 + d - 1) mod 2 ^ 32));
          doe = u32 (nat ((int (yoe * 365 + yoe div 4 + doy) - int (yoe div 100)) mod 2 ^ 32))
      in era * 146097 + int doe - 719468)"

section \<open>To the epoch\<close>

definition epoch_sec :: "timestamp \<Rightarrow> int" where
  "epoch_sec ts =
     ymd_to_days (ts_year ts) (ts_month ts) (ts_day ts) * 86400 + ts_hour ts * 3600 + ts_minute ts * 60 + ts_second ts"

definition sqli_timestamp_to_epoch_sec :: "timestamp option \<Rightarrow> int" where
  "sqli_timestamp_to_epoch_sec p = (case p of None \<Rightarrow> 0 | Some ts \<Rightarrow> if ts_is_null ts then 0 else epoch_sec ts)"

definition sqli_timestamp_to_epoch_ms :: "timestamp option \<Rightarrow> int" where
  "sqli_timestamp_to_epoch_ms p =
     (case p of None \<Rightarrow> 0
      | Some ts \<Rightarrow> if ts_is_null ts then 0
                   else sqli_timestamp_to_epoch_sec p * 1000 + c_div (ts_microsecond ts) 1000)"

definition sqli_timestamp_to_epoch_days :: "timestamp option \<Rightarrow> int" where
  "sqli_timestamp_to_epoch_days p =
     (case p of None \<Rightarrow> 0
      | Some ts \<Rightarrow> if ts_is_null ts then 0 else i32 (ymd_to_days (ts_year ts) (ts_month ts) (ts_day ts)))"

section \<open>From the epoch\<close>

definition sqli_timestamp_from_epoch_sec :: "int \<Rightarrow> timestamp" where
  "sqli_timestamp_from_epoch_sec sec =
     (let days = c_div sec 86400; rem = c_mod sec 86400;
          (days, rem) = (if rem < 0 then (days - 1, rem + 86400) else (days, rem));
          hour = c_div rem 3600; rem = c_mod rem 3600;
          (y, m, d) = sqli_days_to_ymd_ifx (i32 days + 25568)
      in \<lparr>ts_is_null = False, ts_year = y, ts_month = m, ts_day = d, ts_hour = hour, ts_minute = c_div rem 60,
          ts_second = c_mod rem 60, ts_microsecond = 0\<rparr>)"

definition sqli_timestamp_from_epoch_ms :: "int \<Rightarrow> timestamp" where
  "sqli_timestamp_from_epoch_ms ms =
     (let sec = c_div ms 1000; rem = c_mod ms 1000;
          (sec, rem) = (if rem < 0 then (sec - 1, rem + 1000) else (sec, rem))
      in (sqli_timestamp_from_epoch_sec sec)\<lparr>ts_microsecond := i32 (rem * 1000)\<rparr>)"

definition sqli_timestamp_from_epoch_days :: "int \<Rightarrow> timestamp" where
  "sqli_timestamp_from_epoch_days days =
     (case sqli_days_to_ymd_ifx (days + 25568) of
        (y, m, d) \<Rightarrow> \<lparr>ts_is_null = False, ts_year = y, ts_month = m, ts_day = d, ts_hour = 0, ts_minute = 0,
          ts_second = 0, ts_microsecond = 0\<rparr>)"

end
