(* ===== verification/TimestampFacts.thy ===== *)
theory TimestampFacts
  imports Timestamp
begin

text \<open>
  The conversions of timestamps round down, so they are inverse to each other on both sides of the
  epoch.
\<close>

section \<open>Rounding down\<close>

lemma c_div_neg: "a < 0 \<Longrightarrow> 0 < b \<Longrightarrow> c_div a b = - (- a div b)"
  by (simp add: c_div_def)

lemma c_div_floor:
  assumes "0 < b"
  shows "c_div (if a \<ge> 0 then a else a - (b - 1)) b = a div b"
proof (cases "a \<ge> 0")
  case False
  have "- (- (a - (b - 1)) div b) = a div b"
  proof -
    have "- (a - (b - 1)) = (- a - 1) + 1 * b" by simp
    then have "- (a - (b - 1)) div b = (- a - 1) div b + 1" using assms by (simp only: div_mult_self1)
    moreover have "(- a - 1) div b = - (a div b) - 1"
    proof -
      have "- a - 1 = b * (- (a div b) - 1) + (b - 1 - a mod b)"
        using div_mult_mod_eq [of a b] by (simp add: algebra_simps)
      moreover have "0 \<le> b - 1 - a mod b" "b - 1 - a mod b < b"
        using pos_mod_bound [OF assms, of a] pos_mod_sign [OF assms, of a] by linarith+
      ultimately show ?thesis by (metis int_div_pos_eq)
    qed
    ultimately show ?thesis by simp
  qed
  then show ?thesis using False assms by (simp add: c_div_neg)
qed (use assms in simp)

lemma floor_fix:
  assumes "0 < b"
  shows "(if c_mod a b < 0 then (c_div a b - 1, c_mod a b + b) else (c_div a b, c_mod a b)) = (a div b, a mod b)"
proof (cases "a \<ge> 0")
  case False
  have split: "c_mod a b = a + (- a div b) * b" using False assms by (simp add: c_mod_def c_div_neg)
  have eq: "- a = b * (- a div b) + - a mod b" using mult_div_mod_eq [of b "- a"] by linarith
  show ?thesis
  proof (cases "- a mod b = 0")
    case True
    then have a: "a = b * - (- a div b)" using eq by simp
    then have "a div b = - (- a div b)" using assms by (metis nonzero_mult_div_cancel_left less_irrefl)
    moreover have "a mod b = 0" using a by (metis mod_mult_self1_is_0)
    ultimately show ?thesis using split a False assms by (simp add: c_div_neg algebra_simps)
  next
    case False
    then have "0 < - a mod b" "- a mod b < b"
      using pos_mod_bound [OF assms, of "- a"] pos_mod_sign [OF assms, of "- a"] by linarith+
    moreover have "a = b * (- (- a div b) - 1) + (b - - a mod b)" using eq by (simp add: algebra_simps)
    ultimately have "a div b = - (- a div b) - 1" "a mod b = b - - a mod b"
      by (auto intro: int_div_pos_eq int_mod_pos_eq)
    moreover have "c_mod a b = - (- a mod b)" using split eq mult.commute [of b "- a div b"] by linarith
    moreover have "c_div a b = - (- a div b)" using \<open>\<not> a \<ge> 0\<close> assms by (simp add: c_div_neg)
    ultimately show ?thesis using \<open>0 < - a mod b\<close> by simp
  qed
next
  case True
  then show ?thesis using assms by (simp add: not_less)
qed

section \<open>The calendar\<close>

text \<open>Years, and days of a year, of an era of 400 years.\<close>

definition era_year :: "nat \<Rightarrow> nat" where
  "era_year doe = (doe - doe div 1460 + doe div 36524 - doe div 146096) div 365"

definition year_start :: "nat \<Rightarrow> nat" where
  "year_start yoe = 365 * yoe + yoe div 4 - yoe div 100"

lemma century_year:
  fixes a r b y :: nat
  assumes "r < 1460" "36524 * b \<le> 1460 * a + r" "1460 * a + r < 36524 * b + 36524" "b \<le> 3"
    "365 * y \<le> 1459 * a + r + b" "1459 * a + r + b < 365 * y + 365"
  shows "y div 100 = b \<and> y div 4 \<le> a \<and> a \<le> y div 4 + 1 \<and> y < 4 * a + 4 \<and> 4 * a \<le> y + 1"
proof -
  have "25 * b \<le> a" "a \<le> 25 * b + 25" using assms(1-4) by linarith+
  then have "a = 25 * b \<or> 25 * b + 1 \<le> a" "a = 25 * b + 25 \<or> a \<le> 25 * b + 24" by linarith+
  then have "100 * b \<le> y" "y < 100 * b + 100"
    using assms by (elim disjE; linarith)+
  then have "y div 100 = b" by (auto intro: div_nat_eqI)
  moreover have "y < 4 * a + 4" "4 * a \<le> y + 1" using assms by linarith+
  moreover have "y div 4 \<le> a" "a \<le> y div 4 + 1"
    using calculation(2,3) dividend_less_times_div [of 4 y] times_div_less_eq_dividend [of 4 y] by linarith+
  ultimately show ?thesis by simp
qed

text \<open>What the conversion computes is a day number of at most a year into its year.\<close>

lemma era_year_bounds:
  assumes "doe < 146097"
  shows "era_year doe \<le> 399 \<and> year_start (era_year doe) \<le> doe \<and> doe \<le> year_start (era_year doe) + 365"
proof (cases "doe = 146096")
  case True
  then show ?thesis by (simp add: era_year_def year_start_def)
next
  case False
  define a r b y where "a = doe div 1460" and "r = doe mod 1460" and "b = doe div 36524" and "y = era_year doe"
  have doe: "doe = 1460 * a + r" "r < 1460" by (simp_all add: a_def r_def)
  have b: "36524 * b \<le> doe" "doe < 36524 * b + 36524" "b \<le> 3"
    using assms False dividend_less_times_div [of 36524 doe] less_mult_imp_div_less [of doe 4 36524]
    by (simp_all add: b_def)
  have "y = (1459 * a + r + b) div 365"
  proof -
    have "y = (doe - a + b) div 365" using assms False by (simp add: y_def era_year_def a_def b_def)
    moreover have "doe - a + b = 1459 * a + r + b" using doe by simp
    ultimately show ?thesis by simp
  qed
  then have "365 * y \<le> 1459 * a + r + b" "1459 * a + r + b < 365 * y + 365"
    using dividend_less_times_div [of 365 "1459 * a + r + b"] by simp_all
  moreover have "y div 100 = b" "y div 4 \<le> a" "a \<le> y div 4 + 1" "y < 4 * a + 4" "4 * a \<le> y + 1"
    using century_year [of r b a y] calculation doe b by auto
  moreover have y: "100 * b \<le> y" "y < 100 * b + 100"
    using \<open>y div 100 = b\<close> dividend_less_times_div [of 100 y] times_div_less_eq_dividend [of 100 y] by simp_all
  moreover have "y \<le> 399" using y b(3) by linarith
  moreover have "y div 4 = a \<or> y + 1 = 4 * a \<and> y div 4 + 1 = a"
    using \<open>y div 4 \<le> a\<close> \<open>a \<le> y div 4 + 1\<close> \<open>4 * a \<le> y + 1\<close> times_div_less_eq_dividend [of 4 y] by linarith
  ultimately have "year_start y \<le> doe \<and> doe \<le> year_start y + 365"
    using doe unfolding year_start_def by (elim disjE) linarith+
  then show ?thesis using \<open>y \<le> 399\<close> by (simp add: y_def)
qed

text \<open>The date of a day, by its era, its year of the era and its day of the year.\<close>

definition era_date :: "int \<Rightarrow> nat \<Rightarrow> int \<times> int \<times> int" where
  "era_date era doe =
     (let yoe = era_year doe; doy = doe - year_start yoe; mp = (5 * doy + 2) div 153;
          mm = (if mp < 10 then mp + 3 else mp - 9)
      in (i32 (int yoe + era * 400 + (if mm \<le> 2 then 1 else 0)), int mm, int (doy - (153 * mp + 2) div 5 + 1)))"

lemma days_to_ymd_eq:
  "sqli_days_to_ymd_ifx (days + 25568) = era_date ((days + 719468) div 146097) (nat ((days + 719468) mod 146097))"
proof -
  have z: "days + 25568 - 25568 + 719468 = days + 719468" by simp
  have era: "c_div (if z \<ge> 0 then z else z - 146096) 146097 = z div 146097" for z
    using c_div_floor [of 146097 z] by (cases "z \<ge> 0") simp_all
  show ?thesis
    unfolding sqli_days_to_ymd_ifx_def era_date_def era_year_def year_start_def Let_def z era minus_div_mult_eq_mod
    by (rule refl)
qed

text \<open>The month counted from March, its first day of the year, and the day of the month.\<close>

lemma month_of_day:
  assumes "doy \<le> (365 :: nat)" "mp = (5 * doy + 2) div 153"
  shows "mp \<le> 11 \<and> (153 * mp + 2) div 5 \<le> doy"
proof -
  have "153 * mp \<le> 5 * doy + 2" unfolding assms(2) by simp
  then have "153 * mp + 2 \<le> 4 + doy * 5" by simp
  then have "(153 * mp + 2) div 5 \<le> (4 + doy * 5) div 5" by (rule div_le_mono)
  moreover have "mp < 12" unfolding assms(2) using assms(1) by (simp add: less_mult_imp_div_less)
  ultimately show ?thesis by simp
qed

text \<open>A day of the year of an era, as a sum of unsigned terms.\<close>

lemma ymd_to_days_era:
  assumes "yoe \<le> 399" "year_start yoe + ((153 * mp + 2) div 5 + dd - 1) < 2 ^ 31" "1 \<le> dd"
    and y: "(if m \<le> 2 then (y - 1, m + 12) else (y, m)) = (int yoe + era * 400, int mp + 3)"
  shows "ymd_to_days y m (int dd) = era * 146097 + int (year_start yoe + ((153 * mp + 2) div 5 + dd - 1)) - 719468"
proof -
  let ?y = "int yoe + era * 400" and ?doy = "(153 * mp + 2) div 5 + dd - 1"
  have "?y div 400 = era" using assms(1) by simp
  then have era: "c_div (if ?y \<ge> 0 then ?y else ?y - 399) 400 = era"
    using c_div_floor [of 400 ?y] by (cases "?y \<ge> 0") simp_all
  have doy: "c_div (153 * (int mp + 3 - 3) + 2) 5 + int dd - 1 = int ?doy"
    using assms(3) by (simp add: zdiv_int of_nat_diff)
  have "yoe div 100 \<le> 365 * yoe + yoe div 4" by linarith
  then have doe: "int (yoe * 365 + yoe div 4 + ?doy) - int (yoe div 100) = int (year_start yoe + ?doy)"
    by (simp add: year_start_def)
  have small: "u32 (nat (int n mod 2 ^ 32)) = n" if "n < 2 ^ 31" for n
    using that by (simp add: u32_def nat_mod_as_int)
  have yoe: "u32 (nat ((?y - era * 400) mod 2 ^ 32)) = yoe" using small [of yoe] assms(1) by simp
  have "?doy < 2 ^ 31" using assms(2) by linarith
  note doy_small = small [OF this] and doe_small = small [OF assms(2)]
  show ?thesis
    unfolding ymd_to_days_def y Let_def prod.case era yoe doy doy_small doe doe_small by (rule refl)
qed

text \<open>The day number of a date is the day it was computed from.\<close>

lemma ymd_to_days_inverse:
  assumes "in_i32 days" "sqli_days_to_ymd_ifx (days + 25568) = (y, m, d)"
  shows "ymd_to_days y m d = days"
proof -
  define era doe where "era = (days + 719468) div 146097" and "doe = nat ((days + 719468) mod 146097)"
  define yoe where "yoe = era_year doe"
  define doy where "doy = doe - year_start yoe"
  define mp where "mp = (5 * doy + 2) div 153"
  define dd where "dd = doy - (153 * mp + 2) div 5 + 1"
  have "doe < 146097" by (simp add: doe_def nat_less_iff)
  then have bounds: "yoe \<le> 399" "year_start yoe \<le> doe" "doy \<le> 365"
    using era_year_bounds [of doe] by (auto simp: yoe_def doy_def)
  then have month: "mp \<le> 11" "(153 * mp + 2) div 5 \<le> doy" using month_of_day [of doy mp] by (simp_all add: mp_def)
  have "- 2147483648 \<le> days" "days < 2147483648" using assms(1) by (simp_all add: in_i32_def)
  moreover have "0 \<le> (days + 719468) mod 146097" "(days + 719468) mod 146097 < 146097" by simp_all
  ultimately have "- 14700 < era" "era < 14800"
    using div_mult_mod_eq [of "days + 719468" 146097] unfolding era_def by linarith+
  then have year: "i32 (int yoe + era * 400 + e) = int yoe + era * 400 + e" if "0 \<le> e" "e \<le> 1" for e
    using bounds(1) that by (intro i32_id) (simp add: in_i32_def)
  let ?mm = "if mp < 10 then mp + 3 else mp - 9"
  have "era_date era doe = (i32 (int yoe + era * 400 + (if ?mm \<le> 2 then 1 else 0)), int ?mm, int dd)"
    unfolding era_date_def Let_def yoe_def doy_def mp_def dd_def by (rule refl)
  moreover have "era_date era doe = (y, m, d)" using assms(2) unfolding days_to_ymd_eq era_def doe_def .
  moreover have "?mm \<le> 2 \<longleftrightarrow> \<not> mp < 10" using month(1) by auto
  ultimately have date: "y = int yoe + era * 400 + (if mp < 10 then 0 else 1)" "m = int ?mm" "d = int dd"
    using year [of 0] year [of 1] by (simp_all split: if_splits)
  have "(153 * mp + 2) div 5 + dd - 1 = doy" using month(2) by (simp add: dd_def)
  then have "ymd_to_days y m d = era * 146097 + int (year_start yoe + doy) - 719468"
    using ymd_to_days_era [of yoe mp dd m y era] bounds date month(1) \<open>doe < 146097\<close>
    by (auto simp: doy_def dd_def split: if_splits)
  also have "int (year_start yoe + doy) = (days + 719468) mod 146097" using bounds(2) by (simp add: doy_def doe_def)
  finally show ?thesis unfolding era_def by (simp add: div_mult_mod_eq algebra_simps)
qed

section \<open>Round trips\<close>

lemma from_epoch_sec_fields:
  assumes "in_i32 (sec div 86400)" "sqli_days_to_ymd_ifx (sec div 86400 + 25568) = (y, m, d)"
  shows "sqli_timestamp_from_epoch_sec sec =
    \<lparr>ts_is_null = False, ts_year = y, ts_month = m, ts_day = d, ts_hour = sec mod 86400 div 3600,
     ts_minute = sec mod 86400 mod 3600 div 60, ts_second = sec mod 86400 mod 3600 mod 60, ts_microsecond = 0\<rparr>"
  using assms floor_fix [of 86400 sec]
  by (simp add: sqli_timestamp_from_epoch_sec_def Let_def i32_id split: if_splits)

lemma epoch_sec_microsecond [simp]: "epoch_sec (ts\<lparr>ts_microsecond := us\<rparr>) = epoch_sec ts"
  by (simp add: epoch_sec_def)

lemma epoch_sec_inverse:
  assumes "in_i32 (sec div 86400)"
  shows "epoch_sec (sqli_timestamp_from_epoch_sec sec) = sec"
proof -
  obtain y m d where d: "sqli_days_to_ymd_ifx (sec div 86400 + 25568) = (y, m, d)" by (metis prod.exhaust)
  let ?r = "sec mod 86400"
  have "?r div 3600 * 3600 + ?r mod 3600 div 60 * 60 + ?r mod 3600 mod 60 = ?r" by simp
  then show ?thesis
    unfolding from_epoch_sec_fields [OF assms d] epoch_sec_def
    using ymd_to_days_inverse [OF assms d] div_mult_mod_eq [of sec 86400] by simp
qed

lemma from_epoch_sec_not_null [simp]: "\<not> ts_is_null (sqli_timestamp_from_epoch_sec sec)"
  by (simp add: sqli_timestamp_from_epoch_sec_def Let_def split: prod.splits)

lemma from_epoch_ms_fields:
  "sqli_timestamp_from_epoch_ms ms = (sqli_timestamp_from_epoch_sec (ms div 1000))\<lparr>ts_microsecond := ms mod 1000 * 1000\<rparr>"
proof -
  have "in_i32 (ms mod 1000 * 1000)"
  proof -
    have "0 \<le> ms mod 1000" "ms mod 1000 < 1000" by simp_all
    then have "- 2147483648 \<le> ms mod 1000 * 1000" "ms mod 1000 * 1000 < 2147483648" by linarith+
    then show ?thesis by (simp add: in_i32_def)
  qed
  then show ?thesis
    using floor_fix [of 1000 ms] by (simp add: sqli_timestamp_from_epoch_ms_def Let_def i32_id split: if_splits)
qed

text \<open>
  C40. Converting seconds, milliseconds or days since the Unix epoch to calendar fields and back gives the
  number again, before the epoch as after it, as long as the number of the day, counted from 1970 and from the
  epoch of the server, has 32 bits.
\<close>

theorem epoch_roundtrip:
  assumes "\<forall>day \<in> {sec div 86400, ms div 1000 div 86400, days}. in_i32 day \<and> in_i32 (day + 25568)"
  shows "sqli_timestamp_to_epoch_sec (Some (sqli_timestamp_from_epoch_sec sec)) = sec \<and>
    sqli_timestamp_to_epoch_ms (Some (sqli_timestamp_from_epoch_ms ms)) = ms \<and>
    sqli_timestamp_to_epoch_days (Some (sqli_timestamp_from_epoch_days days)) = days"
proof (intro conjI)
  show "sqli_timestamp_to_epoch_sec (Some (sqli_timestamp_from_epoch_sec sec)) = sec"
    using epoch_sec_inverse [of sec] assms by (simp add: sqli_timestamp_to_epoch_sec_def)
  show "sqli_timestamp_to_epoch_ms (Some (sqli_timestamp_from_epoch_ms ms)) = ms"
    using epoch_sec_inverse [of "ms div 1000"] assms
    by (simp add: from_epoch_ms_fields sqli_timestamp_to_epoch_ms_def sqli_timestamp_to_epoch_sec_def)
  show "sqli_timestamp_to_epoch_days (Some (sqli_timestamp_from_epoch_days days)) = days"
    using ymd_to_days_inverse [of days] i32_id [of days] assms
    by (simp add: sqli_timestamp_to_epoch_days_def sqli_timestamp_from_epoch_days_def split: prod.splits)
qed

lemma epoch_roundtrip_witness:
  "sqli_timestamp_to_epoch_sec (Some (sqli_timestamp_from_epoch_sec (-1))) = -1 \<and>
   sqli_timestamp_to_epoch_ms (Some (sqli_timestamp_from_epoch_ms (-1001))) = -1001 \<and>
   sqli_timestamp_to_epoch_days (Some (sqli_timestamp_from_epoch_days 19723)) = 19723"
  by (rule epoch_roundtrip) (simp_all add: in_i32_def)

end
