(* ===== verification/Bind.thy ===== *)
theory Bind
  imports Query Timestamp TemporalText Wire
begin

text \<open>
  The parameters of a prepared statement (src/src/sqli_prepare.c, struct sqli_stmt and
  sqli_bound_param of sqli_internal.h): storing a value, and the message that carries the stored values to the
  server. The statement and its connection are not NULL. A failed allocation is an argument.
\<close>

section \<open>Parameters and statements\<close>

datatype sqli_bind_type =
    SQLI_BIND_INT | SQLI_BIND_BIGINT | SQLI_BIND_FLOAT | SQLI_BIND_DECIMAL | SQLI_BIND_DATETIME | SQLI_BIND_INTERVAL
  | SQLI_BIND_DATE | SQLI_BIND_STRING | SQLI_BIND_BYTES | SQLI_BIND_SBLOB

text \<open>\<open>SQLI_BIND_NULL\<close> is not used. A parameter that was never bound has the code 0 of no bind type: \<open>None\<close>.\<close>

fun bind_code :: "sqli_bind_type option \<Rightarrow> nat" where
  "bind_code None = 0"
| "bind_code (Some SQLI_BIND_INT) = 2"
| "bind_code (Some SQLI_BIND_BIGINT) = 52"
| "bind_code (Some SQLI_BIND_FLOAT) = 3"
| "bind_code (Some SQLI_BIND_DECIMAL) = 5"
| "bind_code (Some SQLI_BIND_DATETIME) = type_code SQLI_TYPE_DATETIME"
| "bind_code (Some SQLI_BIND_INTERVAL) = type_code SQLI_TYPE_INTERVAL"
| "bind_code (Some SQLI_BIND_DATE) = 7"
| "bind_code (Some SQLI_BIND_STRING) = 13"
| "bind_code (Some SQLI_BIND_BYTES) = 11"
| "bind_code (Some SQLI_BIND_SBLOB) = 44"

datatype sqli_sblob_type = SQLI_SBLOB_BLOB | SQLI_SBLOB_CLOB

text \<open>
  The union of a parameter; a member is read only where it was stored last. A double is its bit pattern, and
  the enum of a large object has a member of its own.
\<close>

datatype bound_value = Ival (ival: int) | Ival64 (ival64: int) | Dval (dval: nat) | Sbval (sbval: sqli_sblob_type)

text \<open>
  An empty list of bytes is a NULL pointer, since no empty value is ever stored. \<open>bp_native\<close> are the bytes of
  \<open>native_bytes\<close> up to \<open>native_length\<close>.
\<close>

record bound_param =
  bp_type :: "sqli_bind_type option"
  bp_value :: bound_value
  bp_sval :: "string option"
  bp_bval :: "byte list"
  bp_is_null :: bool
  bp_native_qualifier :: nat
  bp_native :: "byte list"

text \<open>
  The connection that owns a statement is the one of the \<open>peer\<close> that the operations run on. The capacities of
  the arrays of parameters and of their types are their lengths; no server types are a NULL pointer.
\<close>

record stmt =
  st_socket_fd :: int
  st_stmt_id :: int
  st_param_count :: int
  st_read_only :: bool
  st_params :: "bound_param list option"
  st_server_types :: "nat list"
  st_executed :: bool
  st_cursor_open :: bool
  st_result :: result
  st_result_valid :: bool
  st_batch_rows :: "bound_param list list"
  st_batch_cap :: nat

definition zero_param :: bound_param where
  "zero_param = \<lparr>bp_type = None, bp_value = Ival 0, bp_sval = None, bp_bval = [], bp_is_null = False,
     bp_native_qualifier = 0, bp_native = []\<rparr>"

definition sqli_free_bound_param :: "bound_param \<Rightarrow> bound_param" where
  "sqli_free_bound_param p = p\<lparr>bp_sval := None, bp_bval := [], bp_is_null := False\<rparr>"

definition validate_param_index :: "nat \<Rightarrow> stmt \<Rightarrow> sqli_status" where
  "validate_param_index i s =
     (if st_param_count s < 0 \<or> int i \<ge> st_param_count s then SQLI_OUT_OF_RANGE
      else if st_params s = None then SQLI_INVALID_STATE
      else SQLI_OK)"

text \<open>An update of one parameter in its array.\<close>

definition store_param :: "nat \<Rightarrow> (bound_param \<Rightarrow> bound_param) \<Rightarrow> stmt \<Rightarrow> stmt" where
  "store_param i f s = s\<lparr>st_params := map_option (\<lambda>ps. ps[i := f (ps ! i)]) (st_params s)\<rparr>"

text \<open>The frame of the bind functions: the index is checked before the value.\<close>

definition bind_checked :: "nat \<Rightarrow> (bound_param \<Rightarrow> bound_param) fallible \<Rightarrow> stmt \<Rightarrow> sqli_status \<times> stmt" where
  "bind_checked i run s =
     (let rc = validate_param_index i s
      in if rc \<noteq> SQLI_OK then (rc, s)
         else case run of Inl rc \<Rightarrow> (rc, s) | Inr f \<Rightarrow> (SQLI_OK, store_param i f s))"

section \<open>Values of C types\<close>

definition sqli_bind_int :: "nat \<Rightarrow> int \<Rightarrow> stmt \<Rightarrow> sqli_status \<times> stmt" where
  "sqli_bind_int i value =
     bind_checked i (Inr (\<lambda>p. (sqli_free_bound_param p)\<lparr>bp_type := Some SQLI_BIND_INT, bp_value := Ival value, bp_is_null := False\<rparr>))"

definition sqli_bind_int64 :: "nat \<Rightarrow> int \<Rightarrow> stmt \<Rightarrow> sqli_status \<times> stmt" where
  "sqli_bind_int64 i value =
     bind_checked i (Inr (\<lambda>p. (sqli_free_bound_param p)\<lparr>bp_type := Some SQLI_BIND_BIGINT, bp_value := Ival64 value, bp_is_null := False\<rparr>))"

definition sqli_bind_double :: "nat \<Rightarrow> nat \<Rightarrow> stmt \<Rightarrow> sqli_status \<times> stmt" where
  "sqli_bind_double i bits =
     bind_checked i (Inr (\<lambda>p. (sqli_free_bound_param p)\<lparr>bp_type := Some SQLI_BIND_FLOAT, bp_value := Dval bits, bp_is_null := False\<rparr>))"

definition set_param_string :: "bool \<Rightarrow> nat \<Rightarrow> sqli_bind_type \<Rightarrow> string option \<Rightarrow> stmt \<Rightarrow> sqli_status \<times> stmt" where
  "set_param_string mem_ok i type value =
     bind_checked i
       (case value of None \<Rightarrow> Inl SQLI_INVALID_STATE
        | Some text_value \<Rightarrow>
            if \<not> mem_ok then Inl SQLI_ALLOC_FAIL
            else Inr (\<lambda>p. (sqli_free_bound_param p)\<lparr>bp_sval := Some text_value, bp_type := Some type, bp_is_null := False\<rparr>))"

definition set_param_bytes :: "bool \<Rightarrow> nat \<Rightarrow> byte list option \<Rightarrow> stmt \<Rightarrow> sqli_status \<times> stmt" where
  "set_param_bytes mem_ok i value =
     bind_checked i
       (case value of None \<Rightarrow> Inl SQLI_INVALID_STATE
        | Some bytes \<Rightarrow>
            if bytes = [] \<or> length bytes > 0xFFFF then Inl SQLI_INVALID_STATE
            else if \<not> mem_ok then Inl SQLI_ALLOC_FAIL
            else Inr (\<lambda>p. (sqli_free_bound_param p)\<lparr>bp_bval := bytes, bp_type := Some SQLI_BIND_BYTES, bp_is_null := False\<rparr>))"

definition sqli_bind_string :: "bool \<Rightarrow> nat \<Rightarrow> string option \<Rightarrow> stmt \<Rightarrow> sqli_status \<times> stmt" where
  "sqli_bind_string mem_ok i value = set_param_string mem_ok i SQLI_BIND_STRING value"

definition sqli_bind_decimal_string :: "bool \<Rightarrow> nat \<Rightarrow> string option \<Rightarrow> stmt \<Rightarrow> sqli_status \<times> stmt" where
  "sqli_bind_decimal_string mem_ok i value = set_param_string mem_ok i SQLI_BIND_STRING value"

definition sqli_bind_datetime_string :: "bool \<Rightarrow> nat \<Rightarrow> string option \<Rightarrow> stmt \<Rightarrow> sqli_status \<times> stmt" where
  "sqli_bind_datetime_string mem_ok i value = set_param_string mem_ok i SQLI_BIND_STRING value"

definition sqli_bind_interval_string :: "bool \<Rightarrow> nat \<Rightarrow> string option \<Rightarrow> stmt \<Rightarrow> sqli_status \<times> stmt" where
  "sqli_bind_interval_string mem_ok i value = set_param_string mem_ok i SQLI_BIND_STRING value"

definition sqli_bind_bool :: "bool \<Rightarrow> nat \<Rightarrow> bool \<Rightarrow> stmt \<Rightarrow> sqli_status \<times> stmt" where
  "sqli_bind_bool mem_ok i value = set_param_string mem_ok i SQLI_BIND_STRING (Some (if value then ''t'' else ''f''))"

definition sqli_bind_bytes :: "bool \<Rightarrow> nat \<Rightarrow> byte list option \<Rightarrow> stmt \<Rightarrow> sqli_status \<times> stmt" where
  "sqli_bind_bytes mem_ok i value = set_param_bytes mem_ok i value"

section \<open>Native values\<close>

text \<open>A parameter built aside replaces the one that is there.\<close>

definition candidate :: "sqli_bind_type \<Rightarrow> bool \<Rightarrow> nat \<Rightarrow> byte list \<Rightarrow> bound_param" where
  "candidate type is_null qualifier bytes =
     zero_param\<lparr>bp_type := Some type, bp_is_null := is_null, bp_native_qualifier := qualifier, bp_native := bytes\<rparr>"

definition sqli_bind_date :: "nat \<Rightarrow> sqli_date option \<Rightarrow> stmt \<Rightarrow> sqli_status \<times> stmt" where
  "sqli_bind_date i value s =
     (case value of None \<Rightarrow> (SQLI_INVALID_ARGUMENT, s)
      | Some date \<Rightarrow>
          bind_checked i
            (map_sum id (\<lambda>bytes _. candidate SQLI_BIND_DATE (date_is_null date) 0 bytes)
              (sqli_date_encode_wire value True SQLI_DECIMAL_WIRE_CAPACITY True)) s)"

definition sqli_bind_date_string :: "nat \<Rightarrow> string option \<Rightarrow> stmt \<Rightarrow> sqli_status \<times> stmt" where
  "sqli_bind_date_string i value s =
     (if value = None then (SQLI_INVALID_ARGUMENT, s)
      else case sqli_date_parse (Some \<lparr>date_year = 0, date_month = 0, date_day = 0, date_is_null = False\<rparr>) value False of
             (status, date) \<Rightarrow> if status = SQLI_OK then sqli_bind_date i date s else (status, s))"

record decimal_target =
  dt_precision :: nat
  dt_scale :: nat
  dt_floating_scale :: bool

text \<open>The encoder runs before the test for NULL, which cannot fail after it.\<close>

definition sqli_bind_decimal :: "nat \<Rightarrow> sqli_decimal option \<Rightarrow> decimal_target option \<Rightarrow> stmt \<Rightarrow> sqli_status \<times> stmt" where
  "sqli_bind_decimal i value target s =
     (if value = None \<or> target = None then (SQLI_INVALID_ARGUMENT, s)
      else
        let t = the target
        in if dt_precision t < 1 \<or> dt_precision t > 32 \<or> \<not> dt_floating_scale t \<and> dt_scale t > dt_precision t
           then (SQLI_OUT_OF_RANGE, s)
           else
             let scale = (if dt_floating_scale t then 255 else dt_scale t);
                 descriptor = (dt_precision t * 256 + scale) mod 65536
             in bind_checked i
                  (case sqli_decimal_encode_wire value descriptor True SQLI_DECIMAL_WIRE_CAPACITY True of
                     Inl rc \<Rightarrow> Inl rc
                   | Inr bytes \<Rightarrow>
                       map_sum id (\<lambda>is_null _. candidate SQLI_BIND_DECIMAL is_null scale bytes) (sqli_decimal_is_null value)) s)"

text \<open>The qualifier of a target range, as the wire has it.\<close>

definition temporal_qualifier :: "temporal_range option \<Rightarrow> bool \<Rightarrow> nat \<Rightarrow> nat fallible" where
  "temporal_qualifier target interval leading_precision =
     (case target of None \<Rightarrow> Inl SQLI_INVALID_ARGUMENT
      | Some t \<Rightarrow>
          if r_first t < SQLI_FIELD_YEAR \<or> r_last t > SQLI_FIELD_FRACTION \<or> r_last t < r_first t then Inl SQLI_INVALID_ARGUMENT
          else if r_last t = SQLI_FIELD_FRACTION \<and> (r_digits t < 1 \<or> r_digits t > 5) then Inl SQLI_OUT_OF_RANGE
          else if r_last t \<noteq> SQLI_FIELD_FRACTION \<and> r_digits t \<noteq> 0 then Inl SQLI_INVALID_ARGUMENT
          else if interval \<and> (r_first t = SQLI_FIELD_FRACTION \<and> leading_precision \<noteq> 0 \<or>
               r_first t \<noteq> SQLI_FIELD_FRACTION \<and> (leading_precision < 1 \<or> leading_precision > 9)) then Inl SQLI_OUT_OF_RANGE
          else
            let start = (r_first t - SQLI_FIELD_YEAR) * 2;
                end_code = (if r_last t = SQLI_FIELD_FRACTION then 10 + r_digits t else (r_last t - SQLI_FIELD_YEAR) * 2);
                leading = (if interval then leading_precision else if r_first t = SQLI_FIELD_YEAR then 4 else 2);
                digits = (if r_first t = SQLI_FIELD_FRACTION then r_digits t else leading + end_code - start);
                qualifier = (digits * 256 + start * 16 + end_code) mod 65536
            in (case sqli_temporal_wire_size qualifier interval True of
                  Inl rc \<Rightarrow> Inl SQLI_INVALID_ARGUMENT
                | Inr width \<Rightarrow> Inr qualifier))"

definition sqli_bind_datetime :: "nat \<Rightarrow> sqli_datetime option \<Rightarrow> temporal_range option \<Rightarrow> stmt \<Rightarrow> sqli_status \<times> stmt" where
  "sqli_bind_datetime i value target s =
     (if value = None \<or> target = None then (SQLI_INVALID_ARGUMENT, s)
      else bind_checked i
        (case temporal_qualifier target False 0 of
           Inl rc \<Rightarrow> Inl rc
         | Inr qualifier \<Rightarrow>
             (case sqli_datetime_encode_wire value qualifier True SQLI_DECIMAL_WIRE_CAPACITY True of
                Inl rc \<Rightarrow> Inl rc
              | Inr bytes \<Rightarrow>
                  map_sum id (\<lambda>is_null _. candidate SQLI_BIND_DATETIME is_null qualifier bytes) (sqli_datetime_is_null value))) s)"

definition sqli_bind_interval ::
  "nat \<Rightarrow> sqli_interval option \<Rightarrow> temporal_range option \<Rightarrow> nat \<Rightarrow> stmt \<Rightarrow> sqli_status \<times> stmt" where
  "sqli_bind_interval i value target leading_precision s =
     (if value = None \<or> target = None then (SQLI_INVALID_ARGUMENT, s)
      else bind_checked i
        (case temporal_qualifier target True leading_precision of
           Inl rc \<Rightarrow> Inl rc
         | Inr qualifier \<Rightarrow>
             (case sqli_interval_encode_wire value qualifier True SQLI_DECIMAL_WIRE_CAPACITY True of
                Inl rc \<Rightarrow> Inl rc
              | Inr bytes \<Rightarrow>
                  map_sum id (\<lambda>is_null _. candidate SQLI_BIND_INTERVAL is_null qualifier bytes) (sqli_interval_is_null value))) s)"

section \<open>NULL\<close>

text \<open>The members that hold values are left as they are.\<close>

definition bind_null_as :: "sqli_bind_type \<Rightarrow> nat \<Rightarrow> stmt \<Rightarrow> sqli_status \<times> stmt" where
  "bind_null_as type i =
     bind_checked i (Inr (\<lambda>p. (sqli_free_bound_param p)\<lparr>bp_type := Some type, bp_is_null := True\<rparr>))"

definition sqli_bind_null :: "nat \<Rightarrow> stmt \<Rightarrow> sqli_status \<times> stmt" where
  "sqli_bind_null = bind_null_as SQLI_BIND_STRING"

definition sqli_bind_null_int :: "nat \<Rightarrow> stmt \<Rightarrow> sqli_status \<times> stmt" where
  "sqli_bind_null_int = bind_null_as SQLI_BIND_INT"

definition sqli_bind_null_int64 :: "nat \<Rightarrow> stmt \<Rightarrow> sqli_status \<times> stmt" where
  "sqli_bind_null_int64 = bind_null_as SQLI_BIND_BIGINT"

definition sqli_bind_null_double :: "nat \<Rightarrow> stmt \<Rightarrow> sqli_status \<times> stmt" where
  "sqli_bind_null_double = bind_null_as SQLI_BIND_FLOAT"

section \<open>Timestamps\<close>

definition in_range_or :: "int \<Rightarrow> int \<Rightarrow> int \<Rightarrow> int \<Rightarrow> int" where
  "in_range_or low high fallback x = (if low \<le> x \<and> x \<le> high then x else fallback)"

text \<open>A conversion \<open>%0<width>d\<close> of a number that is not negative.\<close>

definition zero_padded :: "nat \<Rightarrow> int \<Rightarrow> string" where
  "zero_padded width n = (let ds = rev (magnitude_digits (nat n)) in replicate (width - length ds) (CHR ''0'') @ ds)"

definition timestamp_text :: "timestamp \<Rightarrow> string" where
  "timestamp_text ts =
     zero_padded 4 (in_range_or 1 9999 1970 (ts_year ts)) @ ''-'' @ zero_padded 2 (in_range_or 1 12 1 (ts_month ts)) @ ''-'' @
     zero_padded 2 (in_range_or 1 31 1 (ts_day ts)) @ '' '' @ zero_padded 2 (in_range_or 0 23 0 (ts_hour ts)) @ '':'' @
     zero_padded 2 (in_range_or 0 59 0 (ts_minute ts)) @ '':'' @ zero_padded 2 (in_range_or 0 59 0 (ts_second ts)) @ ''.'' @
     zero_padded 6 (in_range_or 0 999999 0 (ts_microsecond ts))"

definition sqli_bind_timestamp :: "bool \<Rightarrow> nat \<Rightarrow> timestamp option \<Rightarrow> stmt \<Rightarrow> sqli_status \<times> stmt" where
  "sqli_bind_timestamp mem_ok i value s =
     (let rc = validate_param_index i s
      in if rc \<noteq> SQLI_OK then (rc, s)
         else case value of
           None \<Rightarrow> sqli_bind_null i s
         | Some ts \<Rightarrow>
             if ts_is_null ts then sqli_bind_null i s
             else set_param_string mem_ok i SQLI_BIND_STRING (Some (timestamp_text ts)) s)"

definition sqli_bind_epoch_sec :: "bool \<Rightarrow> nat \<Rightarrow> int \<Rightarrow> stmt \<Rightarrow> sqli_status \<times> stmt" where
  "sqli_bind_epoch_sec mem_ok i sec = sqli_bind_timestamp mem_ok i (Some (sqli_timestamp_from_epoch_sec sec))"

definition sqli_bind_epoch_ms :: "bool \<Rightarrow> nat \<Rightarrow> int \<Rightarrow> stmt \<Rightarrow> sqli_status \<times> stmt" where
  "sqli_bind_epoch_ms mem_ok i ms = sqli_bind_timestamp mem_ok i (Some (sqli_timestamp_from_epoch_ms ms))"

definition sqli_bind_epoch_days :: "bool \<Rightarrow> nat \<Rightarrow> int \<Rightarrow> stmt \<Rightarrow> sqli_status \<times> stmt" where
  "sqli_bind_epoch_days mem_ok i days = sqli_bind_timestamp mem_ok i (Some (sqli_timestamp_from_epoch_days days))"

section \<open>Smart large objects\<close>

definition SQLI_SBLOB_LOCATOR_MAX :: nat where "SQLI_SBLOB_LOCATOR_MAX = 72"

text \<open>The locator is the bytes of \<open>locator\<close> up to \<open>locator_len\<close>.\<close>

record sqli_sblob =
  sb_type :: sqli_sblob_type
  sb_locator :: "byte list"

text \<open>The type code that the server gives for a parameter, or 0.\<close>

definition param_server_type :: "stmt \<Rightarrow> nat \<Rightarrow> nat" where
  "param_server_type s i = (if i < length (st_server_types s) then st_server_types s ! i else 0)"

text \<open>The old value is dropped before the locator is checked.\<close>

definition sqli_bind_sblob :: "bool \<Rightarrow> nat \<Rightarrow> sqli_sblob option \<Rightarrow> stmt \<Rightarrow> peer \<Rightarrow> (sqli_status \<times> stmt) \<times> peer" where
  "sqli_bind_sblob mem_ok i lob s peer =
     (let rc = validate_param_index i s
      in if rc \<noteq> SQLI_OK then ((rc, s), peer)
         else let s = store_param i sqli_free_bound_param s
           in case lob of
                None \<Rightarrow>
                  ((SQLI_OK, store_param i (\<lambda>p. p\<lparr>bp_type := Some SQLI_BIND_SBLOB, bp_is_null := True,
                      bp_value := Sbval (if param_server_type s i = type_code SQLI_TYPE_CLOB then SQLI_SBLOB_CLOB else SQLI_SBLOB_BLOB)\<rparr>) s),
                   peer)
              | Some lob \<Rightarrow>
                  if sb_locator lob = [] \<or> length (sb_locator lob) > SQLI_SBLOB_LOCATOR_MAX
                  then ((SQLI_INVALID_STATE, s), peer_conn (set_error ''invalid smartblob locator length'') peer)
                  else if \<not> mem_ok then ((SQLI_ALLOC_FAIL, s), peer)
                  else ((SQLI_OK, store_param i (\<lambda>p. p\<lparr>bp_bval := sb_locator lob, bp_value := Sbval (sb_type lob),
                      bp_type := Some SQLI_BIND_SBLOB, bp_is_null := False\<rparr>) s), peer))"

section \<open>The message\<close>

text \<open>A parameter for a column of type BYTE or TEXT goes after the message, in chunks.\<close>

definition is_lob_code :: "nat \<Rightarrow> bool" where
  "is_lob_code code \<longleftrightarrow> code = type_code SQLI_TYPE_BYTE \<or> code = type_code SQLI_TYPE_TEXT"

definition sqli_stmt_param_needs_lob_streaming :: "stmt \<Rightarrow> bound_param list \<Rightarrow> nat \<Rightarrow> bool" where
  "sqli_stmt_param_needs_lob_streaming s params i \<longleftrightarrow>
     int i < st_param_count s \<and> i < length (st_server_types s) \<and> \<not> bp_is_null (params ! i) \<and> is_lob_code (param_server_type s i) \<and>
     (bp_type (params ! i) = Some SQLI_BIND_BYTES \<or> bp_type (params ! i) = Some SQLI_BIND_STRING)"

definition legacy_lob :: "stmt \<Rightarrow> nat \<Rightarrow> bound_param \<Rightarrow> bool" where
  "legacy_lob s i p \<longleftrightarrow>
     is_lob_code (param_server_type s i) \<and>
     bp_type p \<notin> Some ` {SQLI_BIND_DATETIME, SQLI_BIND_INTERVAL, SQLI_BIND_DATE, SQLI_BIND_DECIMAL}"

fun value_estimate :: "sqli_bind_type option \<Rightarrow> bound_param \<Rightarrow> nat" where
  "value_estimate (Some SQLI_BIND_INT) p = 4"
| "value_estimate (Some SQLI_BIND_BIGINT) p = 8"
| "value_estimate (Some SQLI_BIND_FLOAT) p = 8"
| "value_estimate (Some SQLI_BIND_STRING) p =
     (let slen = (case bp_sval p of None \<Rightarrow> 0 | Some text_value \<Rightarrow> length text_value); dlen = 2 + slen * 8 + 32 in dlen + dlen mod 2)"
| "value_estimate (Some SQLI_BIND_DATE) p = 4"
| "value_estimate (Some SQLI_BIND_BYTES) p = length (bp_bval p) + length (bp_bval p) mod 2"
| "value_estimate (Some SQLI_BIND_SBLOB) p = 4 + length (bp_bval p) + (4 + length (bp_bval p)) mod 2"
| "value_estimate (Some _) p = 2 + length (bp_native p) + length (bp_native p) mod 2"
| "value_estimate None p = 0"

definition param_estimate :: "stmt \<Rightarrow> nat \<Rightarrow> bound_param \<Rightarrow> nat" where
  "param_estimate s i p =
     6 + (if bp_type p = Some SQLI_BIND_SBLOB then 8 else 0) +
     (if bp_is_null p then 0 else if legacy_lob s i p then 56 else value_estimate (bp_type p) p)"

definition estimate_bind_msg_size :: "stmt \<Rightarrow> bound_param list \<Rightarrow> bool \<Rightarrow> nat" where
  "estimate_bind_msg_size s params include_eot =
     8 + sum_list (map (\<lambda>i. param_estimate s i (params ! i)) [0..<nat (st_param_count s)]) + (if include_eot then 2 else 0)"

text \<open>The text for the server, or the bytes as they are where it cannot be converted.\<close>

definition db_text :: "client_env \<Rightarrow> string \<Rightarrow> byte list" where
  "db_text env text_value = (case ce_encode env text_value of Inl rc \<Rightarrow> string_bytes text_value | Inr bytes \<Rightarrow> bytes)"

text \<open>What a streamed parameter consists of.\<close>

definition lob_data :: "client_env \<Rightarrow> stmt \<Rightarrow> nat \<Rightarrow> bound_param \<Rightarrow> byte list" where
  "lob_data env s i p =
     (if bp_type p = Some SQLI_BIND_BYTES then bp_bval p
      else if bp_type p = Some SQLI_BIND_STRING then
        (case bp_sval p of None \<Rightarrow> []
         | Some text_value \<Rightarrow>
             if param_server_type s i = type_code SQLI_TYPE_TEXT then db_text env text_value else string_bytes text_value)
      else [])"

definition net64 :: "nat \<Rightarrow> byte list" where
  "net64 n = net32 (n div 2 ^ 32) @ net32 n"

text \<open>Zeros at the end are not sent, but one byte is.\<close>

function strip_zeros :: "byte list \<Rightarrow> byte list" where
  "strip_zeros bytes = (if length bytes > 1 \<and> last bytes = 0 then strip_zeros (butlast bytes) else bytes)"
  by pat_completeness auto
termination by (relation "measure length") auto

declare strip_zeros.simps [simp del]

definition evened :: "byte list \<Rightarrow> byte list" where
  "evened bytes = bytes @ (if odd (length bytes) then [0] else [])"

fun value_bytes :: "client_env \<Rightarrow> sqli_bind_type option \<Rightarrow> bound_param \<Rightarrow> byte list" where
  "value_bytes env (Some SQLI_BIND_INT) p = [0, 0] @ net32 (uint32 (ival (bp_value p)))"
| "value_bytes env (Some SQLI_BIND_BIGINT) p = [0, 0] @ net64 (nat (ival64 (bp_value p) mod 2 ^ 64))"
| "value_bytes env (Some SQLI_BIND_FLOAT) p = [0, 0] @ net64 (dval (bp_value p))"
| "value_bytes env (Some SQLI_BIND_STRING) p =
     (let bytes = take 0xFFFF (case bp_sval p of None \<Rightarrow> [] | Some text_value \<Rightarrow> db_text env text_value)
      in net16 (length bytes) @ net16 (length bytes) @ evened bytes)"
| "value_bytes env (Some SQLI_BIND_DATE) p = [0, 0] @ take SQLI_DATE_WIRE_SIZE (bp_native p)"
| "value_bytes env (Some SQLI_BIND_BYTES) p =
     (let bytes = take 0xFFFF (bp_bval p) in net16 (length bytes) @ evened bytes)"
| "value_bytes env (Some SQLI_BIND_SBLOB) p = [0, 0] @ net32 (length (bp_bval p)) @ evened (bp_bval p)"
| "value_bytes env (Some _) p =
     (let bytes = strip_zeros (bp_native p) in net16 (bp_native_qualifier p) @ [0, u8 (length bytes)] @ evened bytes)"
| "value_bytes env None p = [0, 0]"

text \<open>A smart large object names its type, with no owner.\<close>

definition sblob_name :: "bound_param \<Rightarrow> byte list" where
  "sblob_name p =
     (let name = string_bytes (if sbval (bp_value p) = SQLI_SBLOB_CLOB then ''clob'' else ''blob'')
      in [0, 0] @ net16 (length name) @ name @ (if odd (2 + length name) then [0] else []))"

definition lob_descriptor :: "nat \<Rightarrow> byte list" where
  "lob_descriptor total_len = replicate 16 0 @ net32 total_len @ replicate 36 0"

definition param_bytes :: "client_env \<Rightarrow> stmt \<Rightarrow> nat \<Rightarrow> bound_param \<Rightarrow> byte list" where
  "param_bytes env s i p =
     [0, u8 (if legacy_lob s i p then param_server_type s i else bind_code (bp_type p))] @
     (if bp_type p = Some SQLI_BIND_SBLOB then sblob_name p else []) @
     (if bp_is_null p then [0xFF, 0xFF, 0, 0]
      else if legacy_lob s i p then [0, 0, 0, 56] @ lob_descriptor (length (lob_data env s i p))
      else [0, 0] @ value_bytes env (bp_type p) p)"

definition build_bind_msg :: "client_env \<Rightarrow> stmt \<Rightarrow> bound_param list \<Rightarrow> bool \<Rightarrow> byte list" where
  "build_bind_msg env s params include_eot =
     id_message (st_stmt_id s) @ net16 SQLI_SQ_BIND @ net16 (uint16 (st_param_count s)) @
     concat (map (\<lambda>i. param_bytes env s i (params ! i)) [0..<nat (st_param_count s)]) @
     (if include_eot then net16 SQLI_SQ_EOT else [])"

end
