(* ===== verification/Statement.thy ===== *)
theory Statement
  imports Bind Batch Scalar
begin

text \<open>
  Prepared statements (the rest of src/src/sqli_prepare.c): preparing, sending the bound parameters and the
  data of large ones, executing, batches of parameter rows, and closing. The statement, its connection
  and the outputs of a call are not NULL, and \<open>ce_alloc\<close> says whether the structures of a call can be
  allocated. A statement is used on the socket it was prepared on; the number of the socket that it keeps is
  looked at where the code does. The log and the waits are left out.
\<close>

section \<open>Preparing\<close>

definition sqli_prepare_drain_pending_tail :: "client_env \<Rightarrow> peer \<Rightarrow> peer" where
  "sqli_prepare_drain_pending_tail env p =
     (if c_socket_fd (k_conn (p_link p)) < 0 then p else snd (drain_groups env (Some ''prepare/drain'') 8 p))"

text \<open>Unlike its namesake in \<open>sqli_query.c\<close>, this one does not skip comments.\<close>

definition stmt_sql_is_read_only :: "string \<Rightarrow> bool" where
  "stmt_sql_is_read_only sql \<longleftrightarrow>
     first_word (dropWhile isspace sql) \<in> {''SELECT'', ''WITH'', ''SHOW'', ''DESCRIBE'', ''EXPLAIN'', ''VALUES''}"

definition count_placeholders :: "string \<Rightarrow> nat" where
  "count_placeholders sql = length (filter (\<lambda>c. c = CHR ''?'') sql)"

text \<open>The statement object that a successful reply becomes.\<close>

definition new_stmt :: "client_env \<Rightarrow> string \<Rightarrow> result \<Rightarrow> sqli_conn \<Rightarrow> stmt" where
  "new_stmt env sql r conn =
     (let nph = count_placeholders sql
      in \<lparr>st_socket_fd = c_socket_fd conn, st_stmt_id = rs_stmt_id r, st_param_count = int nph,
          st_read_only = stmt_sql_is_read_only sql,
          st_params = (if nph > 0 then Some (replicate nph zero_param) else None),
          st_server_types = map type_byte (rs_columns r), st_executed = False, st_cursor_open = False,
          st_result = r\<lparr>rs_cursor_type := ce_cursor_type env, rs_holdability := ce_holdability env,
            rs_commit_epoch := c_commit_epoch conn, rs_rollback_epoch := c_rollback_epoch conn, rs_cursor := -1,
            rs_current_row := -1, rs_absolute_row_num := 0, rs_at_before_first := True, rs_at_after_last := False,
            rs_tuple := None, rs_cache_row := -1\<rparr>,
          st_result_valid = False, st_batch_rows = [], st_batch_cap = 0\<rparr>)"

definition sqli_prepare :: "client_env \<Rightarrow> string \<Rightarrow> peer \<Rightarrow> (nat \<times> stmt) fallible \<times> peer" where
  "sqli_prepare env sql p =
     (let p = peer_conn clear_error p
      in if c_state (k_conn (p_link p)) \<noteq> SQLI_CONN_READY
         then (Inl SQLI_INVALID_STATE, report ''prepare/precheck'' SQLI_SQ_PREPARE ''connection not ready'' p)
         else case sqli_send_prepare env sql (sqli_prepare_drain_pending_tail env p) of
           (rc, p) \<Rightarrow>
             if rc \<noteq> SQLI_OK then (Inl SQLI_IO_ERROR, report ''prepare/send'' SQLI_SQ_PREPARE ''failed to send PREPARE'' p)
             else (case on_link (sqli_receive_dispatch (ce_dispatch env) (Some zero_result)) p of
               ((rc, r), p) \<Rightarrow>
                 if rc \<noteq> SQLI_OK
                 then (Inl rc, peer_conn (\<lambda>conn. ensure_error ''PREPARE: error receiving response''
                        (set_error_context ''prepare/recv'' SQLI_SQ_PREPARE conn)) p)
                 else if \<not> ce_alloc env then (Inl SQLI_ALLOC_FAIL, p)
                 else (Inr (count_placeholders sql, new_stmt env sql (the r) (k_conn (p_link p))), peer_conn clear_error p)))"

function prepare_retry_loop :: "client_env \<Rightarrow> string \<Rightarrow> nat \<Rightarrow> nat \<Rightarrow> peer \<Rightarrow> (nat \<times> stmt) fallible \<times> peer" where
  "prepare_retry_loop env sql max_retries attempt p =
     (case sqli_prepare env sql p of
        (Inr out, p) \<Rightarrow> (Inr out, p)
      | (Inl rc, p) \<Rightarrow>
          if attempt \<ge> max_retries \<or> \<not> fst (sqli_retry_recommend (k_conn (p_link p)) attempt) then (Inl rc, p)
          else prepare_retry_loop env sql max_retries (attempt + 1) p)"
  by pat_completeness auto

termination by (relation "measure (\<lambda>(env, sql, max_retries, attempt, p). max_retries - attempt)") auto

declare prepare_retry_loop.simps [simp del]

definition sqli_prepare_with_retry :: "client_env \<Rightarrow> string \<Rightarrow> nat \<Rightarrow> peer \<Rightarrow> (nat \<times> stmt) fallible \<times> peer" where
  "sqli_prepare_with_retry env sql max_retries p = prepare_retry_loop env sql max_retries 0 p"

section \<open>The cursor on the server\<close>

definition sqli_stmt_best_effort_control :: "nat \<Rightarrow> stmt \<Rightarrow> peer \<Rightarrow> peer" where
  "sqli_stmt_best_effort_control opcode s p =
     (if st_socket_fd s < 0 \<or> st_stmt_id s < 0 \<or> p_discarded p \<or> c_socket_fd (k_conn (p_link p)) \<noteq> st_socket_fd s then p
      else snd (peer_send (id_message (st_stmt_id s) @ net16 opcode @ net16 SQLI_SQ_EOT) p))"

text \<open>A connection on which the server can be asked, rather than only told.\<close>

definition can_ask :: "stmt \<Rightarrow> peer \<Rightarrow> bool" where
  "can_ask s p \<longleftrightarrow>
     c_socket_fd (k_conn (p_link p)) > 0 \<and> c_state (k_conn (p_link p)) = SQLI_CONN_READY \<and> st_stmt_id s \<ge> 0 \<and> \<not> p_discarded p"

text \<open>Errors of before are put back after the exchange.\<close>

definition keep_errors :: "sqli_conn \<Rightarrow> sqli_conn \<Rightarrow> sqli_conn" where
  "keep_errors before conn =
     (if ei_has_error (c_error_info before)
      then conn\<lparr>c_error_info := c_error_info before, c_errmsg := c_errmsg before, c_error_context := c_error_context before,
        c_error_opcode := c_error_opcode before\<rparr> else conn)"

definition sqli_stmt_close_cursor_if_open :: "client_env \<Rightarrow> stmt \<Rightarrow> peer \<Rightarrow> (sqli_status \<times> stmt) \<times> peer" where
  "sqli_stmt_close_cursor_if_open env s p =
     (let conn = k_conn (p_link p); r = st_result s
      in if \<not> st_cursor_open s then ((SQLI_OK, s), p)
         else if rs_rollback_epoch r \<noteq> c_rollback_epoch conn \<or>
            rs_holdability r = SQLI_CURSOR_CLOSE_AT_COMMIT \<and> rs_commit_epoch r \<noteq> c_commit_epoch conn
         then ((SQLI_OK, s\<lparr>st_cursor_open := False\<rparr>), p)
         else case (if can_ask s p
                    then (case sqli_send_stmt_close_cursor env (st_stmt_id s) p of (rc, p) \<Rightarrow> (rc, peer_conn (keep_errors conn) p))
                    else if st_socket_fd s > 0 \<and> st_stmt_id s \<ge> 0 then (SQLI_OK, sqli_stmt_best_effort_control SQLI_SQ_CLOSE s p)
                    else (SQLI_OK, p)) of
                (rc, p) \<Rightarrow> ((rc, if rc = SQLI_OK then s\<lparr>st_cursor_open := False\<rparr> else s), p))"

section \<open>Sending the parameters\<close>

definition sqli_stmt_send_bind_if_needed ::
  "client_env \<Rightarrow> stmt \<Rightarrow> bound_param list \<Rightarrow> bool \<Rightarrow> peer \<Rightarrow> sqli_status \<times> peer" where
  "sqli_stmt_send_bind_if_needed env s params terminate_group p =
     (if st_param_count s \<le> 0 then (SQLI_OK, p)
      else if \<not> ce_alloc env then (SQLI_ALLOC_FAIL, p)
      else case peer_send (build_bind_msg env s params terminate_group) p of
        (sent, p) \<Rightarrow>
          if sent then (SQLI_OK, p) else (SQLI_IO_ERROR, report ''execute/bind_send'' SQLI_SQ_BIND ''failed to send BIND'' p))"

definition SQLI_SQ_BBIND :: nat where "SQLI_SQ_BBIND = 41"

text \<open>The data of one parameter, in chunks of 1024 bytes.\<close>

function send_chunks :: "byte list \<Rightarrow> peer \<Rightarrow> sqli_status \<times> peer" where
  "send_chunks data p =
     (if data = [] then (SQLI_OK, p)
      else
        let chunk = take 1024 data
        in case send_all [net16 SQLI_SQ_BLOB @ net16 (length chunk), chunk] p of
             (rc, p) \<Rightarrow>
               if rc \<noteq> SQLI_OK then (rc, report ''execute/blob_chunk_send'' SQLI_SQ_BLOB ''failed to send BLOB chunk'' p)
               else if odd (length chunk)
               then (case peer_send [0] p of (sent, p) \<Rightarrow> if sent then send_chunks (drop 1024 data) p else (SQLI_IO_ERROR, p))
               else send_chunks (drop 1024 data) p)"
  by pat_completeness auto

termination by (relation "measure (\<lambda>(data, p). length data)") auto

declare send_chunks.simps [simp del]

fun send_lobs :: "byte list list \<Rightarrow> peer \<Rightarrow> sqli_status \<times> peer" where
  "send_lobs [] p = (SQLI_OK, p)"
| "send_lobs (data # rest) p =
     (case send_chunks data p of
        (rc, p) \<Rightarrow>
          if rc \<noteq> SQLI_OK then (rc, p)
          else (case peer_send (net16 SQLI_SQ_BLOB @ [0, 0]) p of
            (sent, p) \<Rightarrow>
              if \<not> sent then (SQLI_IO_ERROR, report ''execute/blob_term_send'' SQLI_SQ_BLOB ''failed to send BLOB terminator'' p)
              else send_lobs rest p))"

definition streamed :: "client_env \<Rightarrow> stmt \<Rightarrow> bound_param list \<Rightarrow> byte list list" where
  "streamed env s params =
     map (\<lambda>i. lob_data env s i (params ! i))
       (filter (sqli_stmt_param_needs_lob_streaming s params) [0..<nat (st_param_count s)])"

definition send_parameters :: "client_env \<Rightarrow> stmt \<Rightarrow> bound_param list \<Rightarrow> peer \<Rightarrow> sqli_status \<times> peer" where
  "send_parameters env s params p =
     (if st_param_count s > 0 then
        (case sqli_stmt_send_bind_if_needed env s params False p of
           (rc, p) \<Rightarrow>
             let lobs = streamed env s params
             in if rc \<noteq> SQLI_OK then (rc, p)
                else if lobs = [] then (SQLI_OK, p)
                else (case peer_send (net16 SQLI_SQ_BBIND @ net16 (length lobs)) p of
                  (sent, p) \<Rightarrow>
                    if \<not> sent then (SQLI_IO_ERROR, report ''execute/bbind_send'' SQLI_SQ_BBIND ''failed to send SQ_BBIND'' p)
                    else send_lobs lobs p))
      else case peer_send (id_message (st_stmt_id s)) p of
        (sent, p) \<Rightarrow> if sent then (SQLI_OK, p) else (SQLI_IO_ERROR, report ''execute/id_send'' SQLI_SQ_ID ''failed to send SQ_ID'' p))"

section \<open>Receiving a reply\<close>

text \<open>A reply into the result of the statement; a failure leaves an error.\<close>

definition stmt_receive :: "client_env \<Rightarrow> string \<Rightarrow> result \<Rightarrow> peer \<Rightarrow> (sqli_status \<times> result) \<times> peer" where
  "stmt_receive env msg r p =
     (case on_link (sqli_receive_dispatch (ce_dispatch env) (Some r)) p of
        ((rc, r), p) \<Rightarrow> ((rc, the r), if rc \<noteq> SQLI_OK then peer_conn (ensure_error msg) p else p))"

definition sqli_stmt_prepare_result_for_execute :: "client_env \<Rightarrow> sqli_conn \<Rightarrow> stmt \<Rightarrow> stmt" where
  "sqli_stmt_prepare_result_for_execute env conn s =
     s\<lparr>st_result := (sqli_result_clear_rows (st_result s))\<lparr>rs_cursor_type := ce_cursor_type env,
          rs_holdability := ce_holdability env, rs_commit_epoch := c_commit_epoch conn, rs_rollback_epoch := c_rollback_epoch conn,
          rs_stmt_id := st_stmt_id s, rs_eof := False, rs_saw_done := False, rs_saw_error := False, rs_error_code := 0,
          rs_ret_type_sent := False, rs_absolute_row_num := 0, rs_at_before_first := True, rs_at_after_last := False\<rparr>,
       st_result_valid := False, st_executed := True\<rparr>"

text \<open>\<open>rounds\<close> is how many more rounds the guard allows.\<close>

fun execute_rounds :: "client_env \<Rightarrow> nat \<Rightarrow> result \<Rightarrow> peer \<Rightarrow> (sqli_status \<times> result) \<times> peer" where
  "execute_rounds env rounds r p =
     (case on_link (sqli_receive_dispatch (ce_dispatch env) (Some ((unseen r)\<lparr>rs_eof := False\<rparr>))) p of
        ((rc, r), p) \<Rightarrow>
          let r = the r
          in if rc \<noteq> SQLI_OK then ((rc, r), p)
             else if rs_saw_done r \<or> rs_saw_error r \<or> rs_eof r then ((SQLI_OK, r), p)
             else (case poll_in p of
               (ready, p) \<Rightarrow>
                 if \<not> ready then ((SQLI_OK, r), p)
                 else (case rounds of
                   0 \<Rightarrow> ((SQLI_PROTO_ERROR, r),
                     report ''execute/recv'' SQLI_SQ_EXECUTE ''execute response did not converge to DONE'' p)
                 | Suc rounds \<Rightarrow> execute_rounds env rounds r p)))"

text \<open>What comes after the reply is read and dropped.\<close>

definition sqli_stmt_receive_execute_result :: "client_env \<Rightarrow> stmt \<Rightarrow> peer \<Rightarrow> (sqli_status \<times> stmt) \<times> peer" where
  "sqli_stmt_receive_execute_result env s p =
     (case execute_rounds env 64 (st_result s) (peer_conn (set_error_context ''execute/recv'' SQLI_SQ_EXECUTE) p) of
        ((rc, r), p) \<Rightarrow>
          let s = s\<lparr>st_result := r\<rparr>
          in if rc \<noteq> SQLI_OK then ((rc, s), peer_conn (ensure_error ''error receiving execute response'') p)
             else ((SQLI_OK, s\<lparr>st_result_valid := True\<rparr>),
                   peer_conn clear_error (if st_socket_fd s \<ge> 0 then snd (drain_groups env None 8 p) else p)))"

section \<open>Executing\<close>

text \<open>\<open>arm\<close> is the outcome of arming the cancellation handle of the call, if there is one.\<close>

definition sqli_stmt_execute_bound_params ::
  "client_env \<Rightarrow> sqli_status option \<Rightarrow> bound_param list \<Rightarrow> stmt \<Rightarrow> peer \<Rightarrow> (sqli_status \<times> stmt) \<times> peer" where
  "sqli_stmt_execute_bound_params env arm params s p =
     (case peer_autobegin env (int (rs_statement_type (st_result s))) p of
        (rc, p) \<Rightarrow>
          if rc \<noteq> SQLI_OK then ((rc, s), p)
          else case send_parameters env s params p of
            (rc, p) \<Rightarrow>
              if rc \<noteq> SQLI_OK then ((rc, s), p)
              else case peer_send (net16 SQLI_SQ_EXECUTE @ net16 SQLI_SQ_EOT) p of
                (sent, p) \<Rightarrow>
                  if \<not> sent then ((SQLI_IO_ERROR, s), report ''execute/send'' SQLI_SQ_EXECUTE ''failed to send EXECUTE'' p)
                  else if arm \<noteq> None \<and> arm \<noteq> Some SQLI_OK then ((the arm, s), p\<lparr>p_discarded := True\<rparr>)
                  else case sqli_stmt_receive_execute_result env
                         (sqli_stmt_prepare_result_for_execute env (k_conn (p_link p)) s) p of
                    ((rc, s), p) \<Rightarrow>
                      ((rc, s), if rc = SQLI_OK
                        then peer_conn (sqli_track_transaction_statement (int (rs_statement_type (st_result s)))) p else p))"

definition stmt_request_rows ::
  "client_env \<Rightarrow> int \<Rightarrow> int \<Rightarrow> result \<Rightarrow> peer \<Rightarrow> (sqli_status \<times> result) \<times> peer" where
  "stmt_request_rows env stmt_id index r p =
     (case (if ce_cursor_type env = SQLI_CURSOR_SCROLL_INSENSITIVE then sqli_send_scroll_fetch env stmt_id 1 index r p
            else sqli_send_fetch env stmt_id r p) of
        ((rc, r), p) \<Rightarrow>
          ((rc, r), if rc \<noteq> SQLI_OK then report ''execute/fetch_send'' SQLI_SQ_NFETCH ''failed to send fetch'' p else p))"

text \<open>As in the fetches of a query, a reply that brings rows takes bytes off the connection.\<close>

lemma pending_peer_conn [simp]: "pending (p_link (peer_conn f p)) = pending (p_link p)"
  by (simp add: peer_conn_def pending_def)

lemma stmt_receive_progress:
  assumes "stmt_receive env msg r p = ((rc, r'), p')" "rs_row_count r' \<noteq> rs_row_count r"
  shows "pending (p_link p') < pending (p_link p)"
proof -
  obtain rc1 r1 k1 where d: "dispatch_loop (ce_dispatch env) (rs_row_count r) r (p_link p) = ((rc1, r1), k1)"
    by (metis prod.collapse)
  then have "r' = r1" "pending (p_link p') = pending k1"
    using assms(1) by (auto simp: stmt_receive_def on_link_def sqli_receive_dispatch_def split: if_splits)
  then show ?thesis using dispatch_loop_progress [OF d] assms(2) by auto
qed

lemma stmt_request_rows_link:
  assumes "stmt_request_rows env stmt_id index r p = ((rc, r'), p')"
  shows "pending (p_link p') = pending (p_link p)"
proof -
  have typed: "send_ret_type r p = ((rc, r1), p1) \<Longrightarrow> p_link p1 = p_link p" for rc r r1 p p1
    by (auto simp: send_ret_type_def dest: send_all_link split: if_splits prod.splits)
  have "send_fetch_request env stmt_id request r p = ((rc, r1), p1) \<Longrightarrow> p_link p1 = p_link p" for rc r1 p1 request
    by (auto simp: send_fetch_request_def Let_def simp del: send_all.simps dest!: send_all_link typed split: if_splits prod.splits)
  then show ?thesis
    using assms by (auto simp: stmt_request_rows_def sqli_send_fetch_def sqli_send_scroll_fetch_def report_def split: if_splits prod.splits)
qed

lemma rs_row_count_unseen [simp]: "rs_row_count (unseen r) = rs_row_count r"
  by (simp add: unseen_def)

function stmt_fetch_loop :: "client_env \<Rightarrow> int \<Rightarrow> result \<Rightarrow> peer \<Rightarrow> (sqli_status \<times> result) \<times> peer" where
  "stmt_fetch_loop env stmt_id r p =
     (case stmt_receive env ''error receiving fetch response'' (unseen r)
         (peer_conn (set_error_context ''execute/fetch_recv'' SQLI_SQ_NFETCH) p) of
        ((rc, received), p) \<Rightarrow>
          if rc \<noteq> SQLI_OK then ((rc, received), p)
          else if rs_row_count received \<le> rs_row_count r then ((SQLI_OK, received), p)
          else (case stmt_request_rows env stmt_id (rs_row_count r + 1) (received\<lparr>rs_eof := False\<rparr>) p of
            ((rc, received), p) \<Rightarrow> if rc \<noteq> SQLI_OK then ((rc, received), p) else stmt_fetch_loop env stmt_id received p))"
  by pat_completeness auto

termination
proof (relation "measure (\<lambda>(env, stmt_id, r, p). pending (p_link p))", goal_cases)
  case (2 env stmt_id r p x p1 rc received y p2 rc2 requested)
  have "pending (p_link p1) < pending (p_link p)"
    using 2 stmt_receive_progress [of env _ "unseen r" "peer_conn f p" rc received p1 for f] unfolding pending_peer_conn
    by (metis order_refl rs_row_count_unseen)
  moreover have "pending (p_link p2) = pending (p_link p1)" using 2 stmt_request_rows_link by metis
  ultimately show ?case by simp
qed simp

declare stmt_fetch_loop.simps [simp del]

definition stmt_params :: "stmt \<Rightarrow> bound_param list" where
  "stmt_params s = (case st_params s of None \<Rightarrow> [] | Some params \<Rightarrow> params)"

text \<open>The reply to the parameters of a query goes into a result of its own.\<close>

definition receive_bind_reply :: "client_env \<Rightarrow> stmt \<Rightarrow> peer \<Rightarrow> sqli_status \<times> peer" where
  "receive_bind_reply env s p =
     (if st_param_count s > 0
      then (case dispatch_aside env (peer_conn (set_error_context ''execute/bind_recv'' SQLI_SQ_BIND) p) of
              (rc, p) \<Rightarrow> (rc, if rc \<noteq> SQLI_OK then peer_conn (ensure_error ''error receiving bind response'') p else p))
      else (SQLI_OK, p))"

text \<open>Open, the first fetch and the fetches after it, once the parameters are there.\<close>

definition open_and_fetch :: "client_env \<Rightarrow> stmt \<Rightarrow> peer \<Rightarrow> (sqli_status \<times> stmt) \<times> peer" where
  "open_and_fetch env s p =
     (let s = sqli_stmt_prepare_result_for_execute env (k_conn (p_link p)) s
      in case sqli_send_open (st_stmt_id s) (ce_cursor_type env) (ce_holdability env) p of
        (rc, p) \<Rightarrow>
          if rc \<noteq> SQLI_OK then ((rc, s), report ''execute/open_send'' SQLI_SQ_PREPARE ''failed to send open'' p)
          else
            let s = s\<lparr>st_cursor_open := True\<rparr>
            in case stmt_receive env ''error receiving open response'' (st_result s)
                 (peer_conn (set_error_context ''execute/open_recv'' SQLI_SQ_PREPARE) p) of
              ((rc, r), p) \<Rightarrow>
                if rc \<noteq> SQLI_OK then ((rc, s\<lparr>st_result := r\<rparr>), p)
                else case stmt_request_rows env (st_stmt_id s) 1 (r\<lparr>rs_eof := False\<rparr>) p of
                  ((rc, r), p) \<Rightarrow>
                    if rc \<noteq> SQLI_OK then ((rc, s\<lparr>st_result := r\<rparr>), p)
                    else case stmt_fetch_loop env (st_stmt_id s) r p of
                      ((rc, r), p) \<Rightarrow>
                        if rc \<noteq> SQLI_OK then ((rc, s\<lparr>st_result := r\<rparr>), p)
                        else ((SQLI_OK, s\<lparr>st_result := r, st_result_valid := True\<rparr>), peer_conn clear_error p))"

definition sqli_stmt_execute_select :: "client_env \<Rightarrow> stmt \<Rightarrow> peer \<Rightarrow> (sqli_status \<times> stmt) \<times> peer" where
  "sqli_stmt_execute_select env s p =
     (case peer_autobegin env (int (rs_statement_type (st_result s))) p of
        (rc, p) \<Rightarrow>
          if rc \<noteq> SQLI_OK then ((rc, s), p)
          else case sqli_stmt_send_bind_if_needed env s (stmt_params s) True p of
            (rc, p) \<Rightarrow>
              if rc \<noteq> SQLI_OK then ((rc, s), p)
              else case receive_bind_reply env s p of
                (rc, p) \<Rightarrow> if rc \<noteq> SQLI_OK then ((rc, s), p) else open_and_fetch env s p)"

text \<open>The statements that open a cursor: queries, and procedures that return rows.\<close>

definition opens_cursor :: "stmt \<Rightarrow> bool" where
  "opens_cursor s \<longleftrightarrow>
     rs_statement_type (st_result s) = 2 \<or> rs_statement_type (st_result s) = 56 \<and> rs_columns (st_result s) \<noteq> []"

definition sqli_execute :: "client_env \<Rightarrow> stmt \<Rightarrow> peer \<Rightarrow> (sqli_status \<times> stmt) \<times> peer" where
  "sqli_execute env s p =
     (if p_discarded p then ((SQLI_INVALID_STATE, s), p)
      else case sqli_stmt_close_cursor_if_open env (s\<lparr>st_result_valid := False\<rparr>) (peer_conn clear_error p) of
        ((rc, s), p) \<Rightarrow>
          if rc \<noteq> SQLI_OK then ((rc, s), p)
          else
            let p = peer_conn clear_error p
            in if opens_cursor s
               then (case sqli_stmt_execute_select env s p of
                 ((rc, s), p) \<Rightarrow>
                   if rc \<noteq> SQLI_OK then (case sqli_stmt_close_cursor_if_open env s p of ((closed_rc, s), p) \<Rightarrow> ((rc, s), p))
                   else ((rc, s), p))
               else sqli_stmt_execute_bound_params env None (stmt_params s) s p)"

text \<open>
  The outcomes of the three calls on the handle of a cancelable execution, which theory \<open>Cancel\<close> has: preparing
  it, with whether to execute, arming it, and finishing it with the status of the execution.
\<close>

record cancel_calls =
  cc_prepare :: "sqli_status \<times> bool"
  cc_arm :: sqli_status
  cc_finish :: "sqli_status \<Rightarrow> sqli_status"

definition cancelable_kind :: "stmt \<Rightarrow> sqli_conn \<Rightarrow> bool" where
  "cancelable_kind s conn \<longleftrightarrow>
     rs_statement_type (st_result s) \<in> {4, 5, 6} \<and> \<not> st_cursor_open s \<and> st_batch_rows s = [] \<and> \<not> c_in_batch conn \<and>
     (c_autocommit conn \<or> c_in_transaction conn)"

definition plain_params :: "stmt \<Rightarrow> bool" where
  "plain_params s \<longleftrightarrow>
     list_all (\<lambda>i. \<not> sqli_stmt_param_needs_lob_streaming s (stmt_params s) i \<and> bp_type (stmt_params s ! i) \<noteq> Some SQLI_BIND_SBLOB)
       [0..<nat (st_param_count s)]"

definition sqli_execute_cancelable ::
  "client_env \<Rightarrow> cancel_calls \<Rightarrow> stmt \<Rightarrow> peer \<Rightarrow> (sqli_status \<times> stmt) \<times> peer" where
  "sqli_execute_cancelable env calls s p =
     (let conn = k_conn (p_link p)
      in if c_state conn \<noteq> SQLI_CONN_READY \<or> st_socket_fd s < 0 \<or> st_socket_fd s \<noteq> c_socket_fd conn \<or>
            st_stmt_id s < 0 \<or> st_stmt_id s > 65535 then ((SQLI_INVALID_STATE, s), p)
         else if \<not> cancelable_kind s conn then ((SQLI_UNSUPPORTED, s), p)
         else if st_param_count s > 0 \<and> st_params s = None then ((SQLI_INVALID_STATE, s), p)
         else if \<not> plain_params s then ((SQLI_UNSUPPORTED, s), p)
         else if fst (cc_prepare calls) \<noteq> SQLI_OK then ((fst (cc_prepare calls), s), p)
         else if \<not> snd (cc_prepare calls) then ((SQLI_CANCELED, s\<lparr>st_result_valid := False\<rparr>), p)
         else case sqli_stmt_execute_bound_params env (Some (cc_arm calls)) (stmt_params s) (s\<lparr>st_result_valid := False\<rparr>)
                (peer_conn clear_error p) of
           ((status, s), p) \<Rightarrow>
             let (status, p) = (if status = SQLI_OK \<and> \<not> rs_saw_done (st_result s)
                   then (SQLI_PROTO_ERROR, report ''cancel/execute_terminal'' SQLI_SQ_EXECUTE
                     ''EXECUTE ended without a terminal DONE response'' p) else (status, p));
                 sqlcode = ei_sqlcode (c_error_info (k_conn (p_link p)));
                 p = (if status = SQLI_IO_ERROR \<or> status = SQLI_TIMEOUT \<or> status = SQLI_PROTO_ERROR \<and> sqlcode = 0
                   then p\<lparr>p_discarded := True\<rparr> else p);
                 status = (if status = SQLI_PROTO_ERROR \<and> sqlcode = -213 then SQLI_CANCELED else status);
                 disposal = cc_finish calls status
             in ((if disposal = SQLI_OK then status else disposal, s), p))"

function execute_retry_loop :: "client_env \<Rightarrow> nat \<Rightarrow> nat \<Rightarrow> stmt \<Rightarrow> peer \<Rightarrow> (sqli_status \<times> stmt) \<times> peer" where
  "execute_retry_loop env max_retries attempt s p =
     (case sqli_execute env s p of
        ((rc, s), p) \<Rightarrow>
          if rc = SQLI_OK \<or> attempt \<ge> max_retries \<or> \<not> st_read_only s \<or>
             \<not> fst (sqli_retry_recommend (k_conn (p_link p)) attempt) then ((rc, s), p)
          else execute_retry_loop env max_retries (attempt + 1) s p)"
  by pat_completeness auto

termination by (relation "measure (\<lambda>(env, max_retries, attempt, s, p). max_retries - attempt)") auto

declare execute_retry_loop.simps [simp del]

definition sqli_execute_with_retry :: "client_env \<Rightarrow> nat \<Rightarrow> stmt \<Rightarrow> peer \<Rightarrow> (sqli_status \<times> stmt) \<times> peer" where
  "sqli_execute_with_retry env max_retries s p = execute_retry_loop env max_retries 0 s p"

section \<open>Batches of parameter rows\<close>

text \<open>The two allocations are the larger array of rows and the copy of the parameters.\<close>

definition sqli_stmt_batch_add :: "bool \<Rightarrow> bool \<Rightarrow> stmt \<Rightarrow> sqli_status \<times> stmt" where
  "sqli_stmt_batch_add rows_ok copy_ok s =
     (if st_param_count s > 0 \<and> st_params s = None then (SQLI_INVALID_STATE, s)
      else
        let full = (length (st_batch_rows s) = st_batch_cap s);
            grown = (if full then s\<lparr>st_batch_cap := (if st_batch_cap s = 0 then 8 else st_batch_cap s * 2)\<rparr> else s)
        in if full \<and> \<not> rows_ok then (SQLI_ALLOC_FAIL, s)
           else if st_param_count s > 0 \<and> \<not> copy_ok then (SQLI_ALLOC_FAIL, grown)
           else (SQLI_OK, grown\<lparr>st_batch_rows := st_batch_rows s @ [take (nat (st_param_count s)) (stmt_params s)]\<rparr>))"

definition sqli_stmt_batch_clear :: "stmt \<Rightarrow> stmt" where
  "sqli_stmt_batch_clear s = s\<lparr>st_batch_rows := [], st_batch_cap := 0\<rparr>"

definition sqli_stmt_batch_size :: "stmt \<Rightarrow> nat" where
  "sqli_stmt_batch_size s = length (st_batch_rows s)"

text \<open>
  The rows in their order, up to a failure that is not an error of the server; \<open>Inl\<close> is that failure. The
  flag of the result that marks a server error is looked at together with the error of the connection.
\<close>

fun stmt_batch_loop ::
  "client_env \<Rightarrow> bound_param list list \<Rightarrow> batch_result \<Rightarrow> stmt \<Rightarrow> peer \<Rightarrow> (batch_result fallible \<times> stmt) \<times> peer" where
  "stmt_batch_loop env [] batch s p = ((Inr batch, s), p)"
| "stmt_batch_loop env (params # rows) batch s p =
     (case sqli_stmt_execute_bound_params env None params s p of
        ((rc, s), p) \<Rightarrow>
          let conn = k_conn (p_link p)
          in if rc \<noteq> SQLI_OK then
               if ei_has_error (c_error_info conn) \<and> rs_saw_error (st_result s)
               then stmt_batch_loop env rows
                      (batch\<lparr>br_items := br_items batch @ [sqli_batch_fill_error_item (Some conn) rc zero_item],
                        br_error_count := br_error_count batch + 1\<rparr>) s p
               else ((Inl rc, s), p)
             else stmt_batch_loop env rows
                    (batch\<lparr>br_items := br_items batch @ [zero_item\<lparr>bi_rows_affected := rs_rows_affected (st_result s)\<rparr>],
                      br_success_count := br_success_count batch + 1\<rparr>) s p)"

definition sqli_stmt_batch_execute :: "client_env \<Rightarrow> stmt \<Rightarrow> peer \<Rightarrow> (batch_result fallible \<times> stmt) \<times> peer" where
  "sqli_stmt_batch_execute env s p =
     (let p = peer_conn clear_error p
      in if st_read_only s \<or> opens_cursor s
         then ((Inl SQLI_INVALID_STATE, s), report ''stmt_batch_execute/precheck'' SQLI_SQ_EXECUTE
                 ''prepared batch execute is only supported for DML statements'' p)
         else if c_state (k_conn (p_link p)) \<noteq> SQLI_CONN_READY
         then ((Inl SQLI_INVALID_STATE, s), report ''stmt_batch_execute/precheck'' SQLI_SQ_EXECUTE ''connection not ready'' p)
         else if \<not> ce_alloc env then ((Inl SQLI_ALLOC_FAIL, s), p)
         else
           let batch = \<lparr>br_count = length (st_batch_rows s), br_success_count = 0, br_error_count = 0, br_items = []\<rparr>
           in if st_batch_rows s = [] then ((Inr batch, s), p)
              else case stmt_batch_loop env (st_batch_rows s) batch s p of
                ((Inl rc, s), p) \<Rightarrow> ((Inl rc, s), p)
              | ((Inr batch, s), p) \<Rightarrow>
                  ((Inr batch, sqli_stmt_batch_clear s), if br_error_count batch = 0 then peer_conn clear_error p else p))"

section \<open>Rows and columns\<close>

text \<open>The environment of the cursor is the one of theory \<open>Result\<close>.\<close>

definition sqli_stmt_fetch :: "result_env \<Rightarrow> stmt \<Rightarrow> sqli_status \<times> stmt" where
  "sqli_stmt_fetch renv s =
     (if \<not> st_result_valid s then (SQLI_INVALID_STATE, s)
      else case sqli_result_fetch renv (st_result s) of (rc, r) \<Rightarrow> (rc, s\<lparr>st_result := r\<rparr>))"

definition sqli_stmt_next :: "result_env \<Rightarrow> stmt \<Rightarrow> bool \<times> stmt" where
  "sqli_stmt_next renv s = (case sqli_stmt_fetch renv s of (rc, s) \<Rightarrow> (rc = SQLI_OK, s))"

definition sqli_stmt_result :: "stmt \<Rightarrow> result option" where
  "sqli_stmt_result s = (if st_result_valid s then Some (st_result s) else None)"

definition sqli_result_column_name :: "result option \<Rightarrow> nat \<Rightarrow> string option" where
  "sqli_result_column_name p i =
     (case p of None \<Rightarrow> None | Some r \<Rightarrow> if i \<ge> length (rs_columns r) then None else Some (ci_name (rs_columns r ! i)))"

definition sqli_result_column_type :: "result option \<Rightarrow> nat \<Rightarrow> int" where
  "sqli_result_column_type p i =
     (case p of None \<Rightarrow> -1 | Some r \<Rightarrow> if i \<ge> length (rs_columns r) then -1 else int (type_byte (rs_columns r ! i)))"

section \<open>Closing\<close>

text \<open>
  The heap members of a result are freed. The number of its columns stays, with no columns; the model has the
  columns as one list, which is empty then.
\<close>

definition sqli_result_cleanup :: "result \<Rightarrow> result" where
  "sqli_result_cleanup r =
     r\<lparr>rs_descriptor := None, rs_columns := [], rs_rows := None, rs_arena_len := 0, rs_arena_cap := 0, rs_row_count := 0,
       rs_fetch_status := SQLI_OK, rs_row_capacity := 0, rs_cursor := -1, rs_absolute_row_num := 0, rs_at_before_first := True,
       rs_at_after_last := False, rs_tuple_bytes_total := 0, rs_tuple_count := 0, rs_fetch_buf_size := 0, rs_current_row := -1,
       rs_tuple := None, rs_cache := None, rs_cache_row := -1, rs_ret_type_sent := False\<rparr>"

definition sqli_stmt_close :: "client_env \<Rightarrow> stmt \<Rightarrow> peer \<Rightarrow> stmt \<times> peer" where
  "sqli_stmt_close env s p =
     (s\<lparr>st_params := None, st_batch_rows := [], st_batch_cap := 0, st_server_types := [], st_result := sqli_result_cleanup (st_result s), st_stmt_id := -1,
        st_cursor_open := False, st_executed := False, st_result_valid := False\<rparr>,
      if can_ask s p then sqli_stmt_close_release env (st_stmt_id s) p
      else if st_socket_fd s > 0 \<and> st_stmt_id s \<ge> 0
      then sqli_stmt_best_effort_control SQLI_SQ_RELEASE s (sqli_stmt_best_effort_control SQLI_SQ_CLOSE s p)
      else p)"

section \<open>Callable statements\<close>

datatype sqli_call_param_mode = SQLI_CALL_PARAM_IN | SQLI_CALL_PARAM_OUT | SQLI_CALL_PARAM_INOUT

text \<open>A mode of an application need not be one of the type's values.\<close>

definition call_param_mode_of :: "int \<Rightarrow> sqli_call_param_mode option" where
  "call_param_mode_of code =
     (if code = 0 then Some SQLI_CALL_PARAM_IN else if code = 1 then Some SQLI_CALL_PARAM_OUT
      else if code = 2 then Some SQLI_CALL_PARAM_INOUT else None)"

record call =
  cl_stmt :: stmt
  cl_param_count :: int
  cl_modes :: "sqli_call_param_mode list option"
  cl_out_row_ready :: bool

definition sqli_call_validate_index :: "call \<Rightarrow> nat \<Rightarrow> sqli_status" where
  "sqli_call_validate_index c i =
     (if cl_param_count c < 0 \<or> int i \<ge> cl_param_count c then SQLI_OUT_OF_RANGE
      else if cl_modes c = None then SQLI_INVALID_STATE else SQLI_OK)"

definition is_out :: "sqli_call_param_mode \<Rightarrow> bool" where
  "is_out mode \<longleftrightarrow> mode = SQLI_CALL_PARAM_OUT \<or> mode = SQLI_CALL_PARAM_INOUT"

text \<open>The column of an output parameter: its place among the output parameters.\<close>

fun out_column :: "sqli_call_param_mode list \<Rightarrow> nat \<Rightarrow> nat \<Rightarrow> nat option" where
  "out_column [] i n = None"
| "out_column (mode # modes) i n =
     (if is_out mode then if i = 0 then Some n else out_column modes (i - 1) (n + 1)
      else if i = 0 then None else out_column modes (i - 1) n)"

definition sqli_call_param_to_out_col :: "call \<Rightarrow> nat \<Rightarrow> nat fallible" where
  "sqli_call_param_to_out_col c i =
     (let rc = sqli_call_validate_index c i
      in if rc \<noteq> SQLI_OK then Inl rc
         else case out_column (take (nat (cl_param_count c)) (the (cl_modes c))) i 0 of
           None \<Rightarrow> Inl SQLI_INVALID_STATE | Some n \<Rightarrow> Inr n)"

text \<open>\<open>call_ok\<close> and \<open>modes_ok\<close> are the two allocations; a failure gives the statement up.\<close>

definition sqli_call_prepare ::
  "client_env \<Rightarrow> bool \<Rightarrow> bool \<Rightarrow> string \<Rightarrow> peer \<Rightarrow> (nat \<times> call) fallible \<times> peer" where
  "sqli_call_prepare env call_ok modes_ok sql p =
     (case sqli_prepare env sql p of
        (Inl rc, p) \<Rightarrow> (Inl rc, p)
      | (Inr (n, s), p) \<Rightarrow>
          if \<not> call_ok \<or> n > 0 \<and> \<not> modes_ok then (Inl SQLI_ALLOC_FAIL, snd (sqli_stmt_close env s p))
          else (Inr (n, \<lparr>cl_stmt = s, cl_param_count = int n,
                 cl_modes = (if n > 0 then Some (replicate n SQLI_CALL_PARAM_IN) else None), cl_out_row_ready = False\<rparr>), p))"

definition sqli_call_set_param_mode :: "nat \<Rightarrow> int \<Rightarrow> call \<Rightarrow> sqli_status \<times> call" where
  "sqli_call_set_param_mode i code c =
     (case call_param_mode_of code of
        None \<Rightarrow> (SQLI_INVALID_STATE, c)
      | Some mode \<Rightarrow>
          let rc = sqli_call_validate_index c i
          in if rc \<noteq> SQLI_OK then (rc, c) else (SQLI_OK, c\<lparr>cl_modes := map_option (\<lambda>modes. modes[i := mode]) (cl_modes c)\<rparr>))"

definition sqli_call_execute :: "client_env \<Rightarrow> result_env \<Rightarrow> call \<Rightarrow> peer \<Rightarrow> (sqli_status \<times> call) \<times> peer" where
  "sqli_call_execute env renv c p =
     (case sqli_execute env (cl_stmt c) p of
        ((rc, s), p) \<Rightarrow>
          let c = c\<lparr>cl_out_row_ready := False, cl_stmt := s\<rparr>;
              modes = (case cl_modes c of None \<Rightarrow> [] | Some modes \<Rightarrow> take (nat (cl_param_count c)) modes)
          in if rc \<noteq> SQLI_OK then ((rc, c), p)
             else if \<not> list_ex is_out modes then ((SQLI_OK, c), p)
             else (case sqli_stmt_result s of
               None \<Rightarrow> ((SQLI_OK, c), p)
             | Some r \<Rightarrow>
                 (case sqli_result_fetch renv r of
                    (rc, r) \<Rightarrow>
                      ((if rc = SQLI_EOF then SQLI_OK else rc,
                        c\<lparr>cl_stmt := s\<lparr>st_result := r\<rparr>, cl_out_row_ready := (rc = SQLI_OK)\<rparr>), p))))"

definition sqli_call_get_int64 :: "(nat \<Rightarrow> bool) \<Rightarrow> bool \<Rightarrow> result_env \<Rightarrow> call \<Rightarrow> nat \<Rightarrow> int option fallible" where
  "sqli_call_get_int64 mem outputs_given renv c i =
     (if \<not> outputs_given \<or> \<not> cl_out_row_ready c then Inl SQLI_INVALID_STATE
      else case sqli_call_param_to_out_col c i of
        Inl rc \<Rightarrow> Inl rc
      | Inr column \<Rightarrow>
          (case sqli_stmt_result (cl_stmt c) of
             None \<Rightarrow> Inl SQLI_INVALID_STATE
           | Some r \<Rightarrow> sqli_result_get_int64 mem True renv column r))"

definition sqli_call_destroy :: "client_env \<Rightarrow> call \<Rightarrow> peer \<Rightarrow> peer" where
  "sqli_call_destroy env c p = snd (sqli_stmt_close env (cl_stmt c) p)"

end
