(* ===== verification/BindFacts.thy ===== *)
theory BindFacts
  imports Bind DateWireFacts TemporalWireFacts
begin

text \<open>
  The bind message: it fits the buffer that is allocated for it, and a server that knows the types of the
  columns reads the bound values back. The bind functions store a value or leave the statement alone.
\<close>

section \<open>The size of the message\<close>

text \<open>What the estimate allows the character conversion: its worst case.\<close>

definition conversion_fits :: "client_env \<Rightarrow> bool" where
  "conversion_fits env \<longleftrightarrow> (\<forall>text_value bytes. ce_encode env text_value = Inr bytes \<longrightarrow> length bytes \<le> 8 * length text_value + 32)"

lemma length_evened [simp]: "length (evened bytes) = length bytes + length bytes mod 2"
  by (simp add: evened_def odd_iff_mod_2_eq_one)

lemma length_net64 [simp]: "length (net64 n) = 8"
  by (simp add: net64_def)

lemma length_strip_zeros: "length (strip_zeros bytes) \<le> length bytes"
proof (induction bytes rule: strip_zeros.induct)
  case (1 bytes)
  show ?case
  proof (cases "length bytes > 1 \<and> last bytes = 0")
    case True
    then have "length (strip_zeros (butlast bytes)) \<le> length (butlast bytes)" by (rule 1)
    then show ?thesis using True by (subst strip_zeros.simps) simp
  next
    case False
    then show ?thesis by (subst strip_zeros.simps) (simp only: if_False le_refl)
  qed
qed

lemma length_db_text: "conversion_fits env \<Longrightarrow> length (db_text env text_value) \<le> 8 * length text_value + 32"
  by (auto simp: db_text_def conversion_fits_def string_bytes_def split: sum.split)

lemma pad_mono: "m \<le> n \<Longrightarrow> m + m mod 2 \<le> n + n mod (2 :: nat)"
proof (cases "m = n")
  case False
  moreover assume "m \<le> n"
  moreover have "m mod 2 \<le> 1" by simp
  ultimately show ?thesis by linarith
qed simp

lemma length_native_value:
  assumes "type \<in> {SQLI_BIND_DECIMAL, SQLI_BIND_DATETIME, SQLI_BIND_INTERVAL}"
  shows "length (value_bytes env (Some type) p) \<le> 2 + value_estimate (Some type) p"
  using assms pad_mono [OF length_strip_zeros [of "bp_native p"]] by (auto simp: Let_def)

lemma length_string_value:
  assumes "conversion_fits env"
  shows "length (value_bytes env (Some SQLI_BIND_STRING) p) \<le> 2 + value_estimate (Some SQLI_BIND_STRING) p"
proof -
  have even: "(2 + k * 8 + 32) mod 2 = (0 :: nat)" for k by presburger
  have "length (take 65535 bytes) + length (take 65535 bytes) mod 2 \<le> 8 * n + 32" if "length bytes \<le> 8 * n + 32" for n and bytes :: "byte list"
    using pad_mono [of "length (take 65535 bytes)" "8 * n + 32"] that by simp
  note fits = this [OF length_db_text [OF assms]]
  show ?thesis
  proof (cases "bp_sval p")
    case (Some text_value)
    then show ?thesis using fits [of text_value] by (simp add: Let_def even mult.commute)
  qed (simp add: Let_def)
qed

lemma length_value_bytes:
  assumes "conversion_fits env"
  shows "length (value_bytes env type p) \<le> 2 + value_estimate type p"
proof (cases type)
  case (Some t)
  have four: "(4 + n) mod 2 = n mod 2" for n :: nat by presburger
  show ?thesis
    using length_native_value [of t env p] length_string_value [OF assms, of p] pad_mono [of "min (length (bp_bval p)) 65535" "length (bp_bval p)"]
    unfolding Some by (cases t) (simp_all add: Let_def SQLI_DATE_WIRE_SIZE_def four)
qed simp

lemma length_sblob_name [simp]: "length (sblob_name p) = 8"
  by (simp add: sblob_name_def string_bytes_def)

lemma length_param_bytes: "conversion_fits env \<Longrightarrow> length (param_bytes env s i p) \<le> param_estimate s i p"
  using length_value_bytes [of env "bp_type p" p]
  by (simp add: param_bytes_def param_estimate_def lob_descriptor_def)

text \<open>
  C39. The bind message is never longer than the buffer that \<open>estimate_bind_msg_size\<close> sizes for it, whatever is
  bound, as long as the character conversion grows a text at most as the estimate allows for.
\<close>

theorem bind_message_fits:
  assumes "conversion_fits env"
  shows "length (build_bind_msg env s params include_eot) \<le> estimate_bind_msg_size s params include_eot"
proof -
  have "length (concat (map (\<lambda>i. param_bytes env s i (params ! i)) is)) \<le> sum_list (map (\<lambda>i. param_estimate s i (params ! i)) is)" for "is"
    using length_param_bytes [OF assms] by (induction "is") (auto intro: add_mono)
  then show ?thesis by (simp add: build_bind_msg_def estimate_bind_msg_size_def id_message_def)
qed

section \<open>Storing a value\<close>

text \<open>The calls of an application that store a value, with their arguments.\<close>

datatype bind_call =
    Call_int int | Call_int64 int | Call_double nat | Call_string "string option" | Call_bytes "byte list option" | Call_bool bool
  | Call_null | Call_null_int | Call_null_int64 | Call_null_double
  | Call_decimal_string "string option" | Call_datetime_string "string option" | Call_interval_string "string option"
  | Call_date "sqli_date option" | Call_date_string "string option"
  | Call_decimal "sqli_decimal option" "decimal_target option"
  | Call_datetime "sqli_datetime option" "temporal_range option"
  | Call_interval "sqli_interval option" "temporal_range option" nat
  | Call_timestamp "timestamp option" | Call_epoch_sec int | Call_epoch_ms int | Call_epoch_days int
  | Call_sblob "sqli_sblob option"

fun run_bind :: "bool \<Rightarrow> nat \<Rightarrow> bind_call \<Rightarrow> stmt \<Rightarrow> peer \<Rightarrow> (sqli_status \<times> stmt) \<times> peer" where
  "run_bind mem_ok i (Call_int v) s p = (sqli_bind_int i v s, p)"
| "run_bind mem_ok i (Call_int64 v) s p = (sqli_bind_int64 i v s, p)"
| "run_bind mem_ok i (Call_double v) s p = (sqli_bind_double i v s, p)"
| "run_bind mem_ok i (Call_string v) s p = (sqli_bind_string mem_ok i v s, p)"
| "run_bind mem_ok i (Call_bytes v) s p = (sqli_bind_bytes mem_ok i v s, p)"
| "run_bind mem_ok i (Call_bool v) s p = (sqli_bind_bool mem_ok i v s, p)"
| "run_bind mem_ok i Call_null s p = (sqli_bind_null i s, p)"
| "run_bind mem_ok i Call_null_int s p = (sqli_bind_null_int i s, p)"
| "run_bind mem_ok i Call_null_int64 s p = (sqli_bind_null_int64 i s, p)"
| "run_bind mem_ok i Call_null_double s p = (sqli_bind_null_double i s, p)"
| "run_bind mem_ok i (Call_decimal_string v) s p = (sqli_bind_decimal_string mem_ok i v s, p)"
| "run_bind mem_ok i (Call_datetime_string v) s p = (sqli_bind_datetime_string mem_ok i v s, p)"
| "run_bind mem_ok i (Call_interval_string v) s p = (sqli_bind_interval_string mem_ok i v s, p)"
| "run_bind mem_ok i (Call_date v) s p = (sqli_bind_date i v s, p)"
| "run_bind mem_ok i (Call_date_string v) s p = (sqli_bind_date_string i v s, p)"
| "run_bind mem_ok i (Call_decimal v t) s p = (sqli_bind_decimal i v t s, p)"
| "run_bind mem_ok i (Call_datetime v t) s p = (sqli_bind_datetime i v t s, p)"
| "run_bind mem_ok i (Call_interval v t n) s p = (sqli_bind_interval i v t n s, p)"
| "run_bind mem_ok i (Call_timestamp v) s p = (sqli_bind_timestamp mem_ok i v s, p)"
| "run_bind mem_ok i (Call_epoch_sec n) s p = (sqli_bind_epoch_sec mem_ok i n s, p)"
| "run_bind mem_ok i (Call_epoch_ms n) s p = (sqli_bind_epoch_ms mem_ok i n s, p)"
| "run_bind mem_ok i (Call_epoch_days n) s p = (sqli_bind_epoch_days mem_ok i n s, p)"
| "run_bind mem_ok i (Call_sblob lob) s p = sqli_bind_sblob mem_ok i lob s p"

text \<open>The arguments are values of their C types.\<close>

fun call_typed :: "bind_call \<Rightarrow> bool" where
  "call_typed (Call_int v) \<longleftrightarrow> in_i32 v"
| "call_typed (Call_int64 v) \<longleftrightarrow> in_i64 v"
| "call_typed (Call_double v) \<longleftrightarrow> v < 2 ^ 64"
| "call_typed (Call_decimal v t) \<longleftrightarrow> (\<forall>target. t = Some target \<longrightarrow> dt_scale target < 256)"
| "call_typed _ \<longleftrightarrow> True"

text \<open>What a stored parameter is: a value of its type within the limits of the message, or NULL.\<close>

fun wf_value :: "sqli_bind_type option \<Rightarrow> bound_param \<Rightarrow> bool" where
  "wf_value (Some SQLI_BIND_INT) p \<longleftrightarrow> (\<exists>v. bp_value p = Ival v \<and> in_i32 v)"
| "wf_value (Some SQLI_BIND_BIGINT) p \<longleftrightarrow> (\<exists>v. bp_value p = Ival64 v \<and> in_i64 v)"
| "wf_value (Some SQLI_BIND_FLOAT) p \<longleftrightarrow> (\<exists>v. bp_value p = Dval v \<and> v < 2 ^ 64)"
| "wf_value (Some SQLI_BIND_STRING) p \<longleftrightarrow> bp_sval p \<noteq> None"
| "wf_value (Some SQLI_BIND_DATE) p \<longleftrightarrow> length (bp_native p) = SQLI_DATE_WIRE_SIZE"
| "wf_value (Some SQLI_BIND_BYTES) p \<longleftrightarrow> bp_bval p \<noteq> [] \<and> length (bp_bval p) \<le> 0xFFFF"
| "wf_value (Some SQLI_BIND_SBLOB) p \<longleftrightarrow> bp_bval p \<noteq> [] \<and> length (bp_bval p) \<le> SQLI_SBLOB_LOCATOR_MAX"
| "wf_value (Some _) p \<longleftrightarrow> length (bp_native p) \<le> SQLI_DECIMAL_WIRE_CAPACITY \<and> bp_native_qualifier p < 65536"
| "wf_value None p \<longleftrightarrow> True"

definition wf_param :: "bound_param \<Rightarrow> bool" where
  "wf_param p \<longleftrightarrow>
     (bp_is_null p \<or> wf_value (bp_type p) p) \<and> (bp_type p = Some SQLI_BIND_SBLOB \<longrightarrow> (\<exists>t. bp_value p = Sbval t))"

text \<open>A statement that the library made: its parameters are an array of their number.\<close>

definition wf_stmt :: "stmt \<Rightarrow> bool" where
  "wf_stmt s \<longleftrightarrow>
     (case st_params s of None \<Rightarrow> st_param_count s = 0
      | Some params \<Rightarrow> st_param_count s = int (length params) \<and> list_all wf_param params)"

section \<open>What a call promises\<close>

text \<open>The arguments that can be stored. The encoders of theories \<open>DecimalCodec\<close> and \<open>TemporalCodec\<close> decide for their types.\<close>

definition date_wire :: "sqli_date \<Rightarrow> byte list fallible" where
  "date_wire d = sqli_date_encode_wire (Some d) True SQLI_DECIMAL_WIRE_CAPACITY True"

definition target_ok :: "decimal_target \<Rightarrow> bool" where
  "target_ok t \<longleftrightarrow> 1 \<le> dt_precision t \<and> dt_precision t \<le> 32 \<and> (dt_floating_scale t \<or> dt_scale t \<le> dt_precision t)"

definition wire_scale :: "decimal_target \<Rightarrow> nat" where
  "wire_scale t = (if dt_floating_scale t then 255 else dt_scale t)"

definition decimal_wire :: "decimal_target \<Rightarrow> sqli_decimal \<Rightarrow> byte list fallible" where
  "decimal_wire t d =
     sqli_decimal_encode_wire (Some d) ((dt_precision t * 256 + wire_scale t) mod 65536) True SQLI_DECIMAL_WIRE_CAPACITY True"

definition datetime_wire :: "nat \<Rightarrow> sqli_datetime \<Rightarrow> byte list fallible" where
  "datetime_wire q v = sqli_datetime_encode_wire (Some v) q True SQLI_DECIMAL_WIRE_CAPACITY True"

definition interval_wire :: "nat \<Rightarrow> sqli_interval \<Rightarrow> byte list fallible" where
  "interval_wire q v = sqli_interval_encode_wire (Some v) q True SQLI_DECIMAL_WIRE_CAPACITY True"

definition parsed_date :: "string \<Rightarrow> sqli_status \<times> sqli_date option" where
  "parsed_date text_value =
     sqli_date_parse (Some \<lparr>date_year = 0, date_month = 0, date_day = 0, date_is_null = False\<rparr>) (Some text_value) False"

fun accepts :: "bool \<Rightarrow> bind_call \<Rightarrow> bool" where
  "accepts mem_ok (Call_string v) \<longleftrightarrow> v \<noteq> None \<and> mem_ok"
| "accepts mem_ok (Call_decimal_string v) \<longleftrightarrow> v \<noteq> None \<and> mem_ok"
| "accepts mem_ok (Call_datetime_string v) \<longleftrightarrow> v \<noteq> None \<and> mem_ok"
| "accepts mem_ok (Call_interval_string v) \<longleftrightarrow> v \<noteq> None \<and> mem_ok"
| "accepts mem_ok (Call_bytes v) \<longleftrightarrow> (\<exists>bytes. v = Some bytes \<and> 0 < length bytes \<and> length bytes \<le> 65535) \<and> mem_ok"
| "accepts mem_ok (Call_bool v) \<longleftrightarrow> mem_ok"
| "accepts mem_ok (Call_date v) \<longleftrightarrow> (\<exists>d bytes. v = Some d \<and> date_wire d = Inr bytes)"
| "accepts mem_ok (Call_date_string v) \<longleftrightarrow> (\<exists>t d bytes. v = Some t \<and> parsed_date t = (SQLI_OK, Some d) \<and> date_wire d = Inr bytes)"
| "accepts mem_ok (Call_decimal v target) \<longleftrightarrow> (\<exists>d t bytes. v = Some d \<and> target = Some t \<and> target_ok t \<and> decimal_wire t d = Inr bytes)"
| "accepts mem_ok (Call_datetime v target) \<longleftrightarrow>
     (\<exists>d q bytes. v = Some d \<and> temporal_qualifier target False 0 = Inr q \<and> datetime_wire q d = Inr bytes)"
| "accepts mem_ok (Call_interval v target leading) \<longleftrightarrow>
     (\<exists>d q bytes. v = Some d \<and> temporal_qualifier target True leading = Inr q \<and> interval_wire q d = Inr bytes)"
| "accepts mem_ok (Call_timestamp v) \<longleftrightarrow> (case v of None \<Rightarrow> True | Some ts \<Rightarrow> ts_is_null ts \<or> mem_ok)"
| "accepts mem_ok (Call_epoch_sec n) \<longleftrightarrow> mem_ok"
| "accepts mem_ok (Call_epoch_ms n) \<longleftrightarrow> mem_ok"
| "accepts mem_ok (Call_epoch_days n) \<longleftrightarrow> mem_ok"
| "accepts mem_ok (Call_sblob lob) \<longleftrightarrow>
     (case lob of None \<Rightarrow> True | Some lob \<Rightarrow> 0 < length (sb_locator lob) \<and> length (sb_locator lob) \<le> 72 \<and> mem_ok)"
| "accepts mem_ok _ \<longleftrightarrow> True"

text \<open>What the parameter holds afterwards: its type, whether it is NULL, and the value of the call.\<close>

definition holds :: "sqli_bind_type \<Rightarrow> bool \<Rightarrow> bound_param \<Rightarrow> bool" where
  "holds type is_null q \<longleftrightarrow> bp_type q = Some type \<and> bp_is_null q = is_null"

fun stored :: "stmt \<Rightarrow> nat \<Rightarrow> bind_call \<Rightarrow> bound_param \<Rightarrow> bool" where
  "stored s i (Call_int v) q \<longleftrightarrow> holds SQLI_BIND_INT False q \<and> bp_value q = Ival v"
| "stored s i (Call_int64 v) q \<longleftrightarrow> holds SQLI_BIND_BIGINT False q \<and> bp_value q = Ival64 v"
| "stored s i (Call_double v) q \<longleftrightarrow> holds SQLI_BIND_FLOAT False q \<and> bp_value q = Dval v"
| "stored s i (Call_string v) q \<longleftrightarrow> holds SQLI_BIND_STRING False q \<and> bp_sval q = v"
| "stored s i (Call_decimal_string v) q \<longleftrightarrow> holds SQLI_BIND_STRING False q \<and> bp_sval q = v"
| "stored s i (Call_datetime_string v) q \<longleftrightarrow> holds SQLI_BIND_STRING False q \<and> bp_sval q = v"
| "stored s i (Call_interval_string v) q \<longleftrightarrow> holds SQLI_BIND_STRING False q \<and> bp_sval q = v"
| "stored s i (Call_bytes v) q \<longleftrightarrow> holds SQLI_BIND_BYTES False q \<and> v = Some (bp_bval q)"
| "stored s i (Call_bool v) q \<longleftrightarrow> holds SQLI_BIND_STRING False q \<and> bp_sval q = Some (if v then ''t'' else ''f'')"
| "stored s i Call_null q \<longleftrightarrow> holds SQLI_BIND_STRING True q"
| "stored s i Call_null_int q \<longleftrightarrow> holds SQLI_BIND_INT True q"
| "stored s i Call_null_int64 q \<longleftrightarrow> holds SQLI_BIND_BIGINT True q"
| "stored s i Call_null_double q \<longleftrightarrow> holds SQLI_BIND_FLOAT True q"
| "stored s i (Call_date v) q \<longleftrightarrow>
     (\<exists>d. v = Some d \<and> holds SQLI_BIND_DATE (date_is_null d) q \<and> date_wire d = Inr (bp_native q))"
| "stored s i (Call_date_string v) q \<longleftrightarrow>
     (\<exists>t d. v = Some t \<and> parsed_date t = (SQLI_OK, Some d) \<and> holds SQLI_BIND_DATE (date_is_null d) q \<and>
        date_wire d = Inr (bp_native q))"
| "stored s i (Call_decimal v target) q \<longleftrightarrow>
     (\<exists>d t is_null. v = Some d \<and> target = Some t \<and> sqli_decimal_is_null v = Inr is_null \<and> holds SQLI_BIND_DECIMAL is_null q \<and>
        bp_native_qualifier q = wire_scale t \<and> decimal_wire t d = Inr (bp_native q))"
| "stored s i (Call_datetime v target) q \<longleftrightarrow>
     (\<exists>d is_null. v = Some d \<and> sqli_datetime_is_null v = Inr is_null \<and> holds SQLI_BIND_DATETIME is_null q \<and>
        temporal_qualifier target False 0 = Inr (bp_native_qualifier q) \<and>
        datetime_wire (bp_native_qualifier q) d = Inr (bp_native q))"
| "stored s i (Call_interval v target leading) q \<longleftrightarrow>
     (\<exists>d is_null. v = Some d \<and> sqli_interval_is_null v = Inr is_null \<and> holds SQLI_BIND_INTERVAL is_null q \<and>
        temporal_qualifier target True leading = Inr (bp_native_qualifier q) \<and>
        interval_wire (bp_native_qualifier q) d = Inr (bp_native q))"
| "stored s i (Call_timestamp v) q \<longleftrightarrow>
     (case v of None \<Rightarrow> holds SQLI_BIND_STRING True q
      | Some ts \<Rightarrow>
          if ts_is_null ts then holds SQLI_BIND_STRING True q
          else holds SQLI_BIND_STRING False q \<and> bp_sval q = Some (timestamp_text ts))"
| "stored s i (Call_epoch_sec n) q \<longleftrightarrow>
     holds SQLI_BIND_STRING False q \<and> bp_sval q = Some (timestamp_text (sqli_timestamp_from_epoch_sec n))"
| "stored s i (Call_epoch_ms n) q \<longleftrightarrow>
     holds SQLI_BIND_STRING False q \<and> bp_sval q = Some (timestamp_text (sqli_timestamp_from_epoch_ms n))"
| "stored s i (Call_epoch_days n) q \<longleftrightarrow>
     holds SQLI_BIND_STRING False q \<and> bp_sval q = Some (timestamp_text (sqli_timestamp_from_epoch_days n))"
| "stored s i (Call_sblob lob) q \<longleftrightarrow>
     (case lob of
        None \<Rightarrow> holds SQLI_BIND_SBLOB True q \<and>
          bp_value q = Sbval (if i < length (st_server_types s) \<and> st_server_types s ! i = type_code SQLI_TYPE_CLOB
            then SQLI_SBLOB_CLOB else SQLI_SBLOB_BLOB)
      | Some lob \<Rightarrow> holds SQLI_BIND_SBLOB False q \<and> bp_bval q = sb_locator lob \<and> bp_value q = Sbval (sb_type lob))"

text \<open>
  A call stores at the index what \<open>f\<close> makes of the parameter when the index exists and its arguments are admitted, and
  fails without a change otherwise.
\<close>

definition stores :: "bool \<Rightarrow> (bound_param \<Rightarrow> bool) \<Rightarrow> nat \<Rightarrow> stmt \<Rightarrow> sqli_status \<times> stmt \<Rightarrow> bool" where
  "stores ok Q i s out \<longleftrightarrow>
     (if validate_param_index i s = SQLI_OK \<and> ok
      then \<exists>f. (\<forall>p. wf_param (f p) \<and> Q (f p)) \<and> out = (SQLI_OK, store_param i f s)
      else \<exists>rc. rc \<noteq> SQLI_OK \<and> out = (rc, s))"

lemma stores_weaken: "stores ok Q i s out \<Longrightarrow> (\<And>q. Q q \<Longrightarrow> Q' q) \<Longrightarrow> ok = ok' \<Longrightarrow> stores ok' Q' i s out"
  by (fastforce simp: stores_def split: if_splits)

lemma stores_bind_checked:
  assumes "run \<noteq> Inl SQLI_OK" "\<And>f p. run = Inr f \<Longrightarrow> wf_param (f p) \<and> Q (f p)" "ok \<longleftrightarrow> (\<exists>f. run = Inr f)"
  shows "stores ok Q i s (bind_checked i run s)"
proof (cases run)
  case (Inr f)
  then have "\<forall>p. wf_param (f p) \<and> Q (f p)" using assms(2) by blast
  then show ?thesis using assms(3) unfolding Inr by (auto simp: stores_def bind_checked_def Let_def)
qed (use assms(1,3) in \<open>auto simp: stores_def bind_checked_def Let_def\<close>)

lemma stores_failure [simp]: "rc \<noteq> SQLI_OK \<Longrightarrow> stores False Q i s (rc, s)"
  by (simp add: stores_def)

lemma stores_string:
  "stores (value \<noteq> None \<and> mem_ok) (\<lambda>q. holds SQLI_BIND_STRING False q \<and> bp_sval q = value) i s
     (set_param_string mem_ok i SQLI_BIND_STRING value s)"
  unfolding set_param_string_def
  by (rule stores_bind_checked) (auto simp: wf_param_def holds_def split: option.splits if_splits)

lemma stores_null: "type \<noteq> SQLI_BIND_SBLOB \<Longrightarrow> stores True (holds type True) i s (bind_null_as type i s)"
  unfolding bind_null_as_def by (rule stores_bind_checked) (auto simp: wf_param_def holds_def)

lemma stores_bytes:
  "stores ((\<exists>bytes. value = Some bytes \<and> 0 < length bytes \<and> length bytes \<le> 65535) \<and> mem_ok)
     (\<lambda>q. holds SQLI_BIND_BYTES False q \<and> value = Some (bp_bval q)) i s (set_param_bytes mem_ok i value s)"
  unfolding set_param_bytes_def
  by (rule stores_bind_checked) (auto simp: wf_param_def holds_def split: option.splits if_splits)

lemma stores_plain:
  assumes "\<And>p. wf_param (f p) \<and> Q (f p)"
  shows "stores True Q i s (bind_checked i (Inr f) s)"
  using assms by (intro stores_bind_checked) auto

text \<open>The native encoders stay within the bytes of a parameter, and their failure is not \<open>SQLI_OK\<close>.\<close>

lemma pack_length:
  assumes "decode_range q interval = Inr r" "pack flds r capacity = Inr bytes"
  shows "length bytes \<le> 12"
proof -
  have wf: "range_wf r interval" using assms(1) by (rule decode_range_wf)
  then have w: "1 \<le> w_width r" "w_width r \<le> 12" by (simp_all add: range_wf_def)
  have groups: "length (dropWhile (\<lambda>g. g = 0) (packed_groups flds r)) \<le> w_width r - 1"
    using length_dropWhile_le [of _ "packed_groups flds r"] packed_groups_length [OF wf, of flds] by metis
  show ?thesis
    using assms(2) w groups by (auto simp: pack_def packed_bytes_def Let_def split: if_splits)
qed

lemma if_neI: "a \<noteq> z \<Longrightarrow> b \<noteq> z \<Longrightarrow> (if c then a else b) \<noteq> z"
  by simp

lemma failure_ne: "rc \<noteq> SQLI_OK \<Longrightarrow> Inl rc \<noteq> Inl SQLI_OK" "Inr x \<noteq> Inl SQLI_OK"
  by simp_all

lemma native_encoders_fail:
  "decode_range q interval \<noteq> Inl SQLI_OK" "pack flds r capacity \<noteq> Inl SQLI_OK" "decode_type q \<noteq> Inl SQLI_OK"
  "encode_coefficient parts type zeroed \<noteq> Inl SQLI_OK"
  unfolding decode_range_def pack_def decode_type_def encode_coefficient_def Let_def
  by (intro if_neI failure_ne; simp only: sqli_status.distinct not_False_eq_True)+

lemma date_validate_fail: "sqli_date_encode_wire p True capacity True \<noteq> Inl SQLI_OK"
  by (auto simp: sqli_date_encode_wire_def Let_def split: if_splits)

lemma map_fallible: "map_sum id g x = Inr y \<longleftrightarrow> (\<exists>z. x = Inr z \<and> y = g z)" "map_sum id g x = Inl rc \<longleftrightarrow> x = Inl rc"
  by (cases x; auto)+

lemma stores_date:
  "stores (\<exists>d bytes. v = Some d \<and> date_wire d = Inr bytes)
     (\<lambda>q. \<exists>d. v = Some d \<and> holds SQLI_BIND_DATE (date_is_null d) q \<and> date_wire d = Inr (bp_native q)) i s (sqli_bind_date i v s)"
proof (cases v)
  case (Some date)
  have "map_sum id (\<lambda>bytes _. candidate SQLI_BIND_DATE (date_is_null date) 0 bytes) (date_wire date) \<noteq> Inl SQLI_OK"
    using date_validate_fail by (simp add: map_fallible date_wire_def)
  moreover have "length bytes = SQLI_DATE_WIRE_SIZE" if "date_wire date = Inr bytes" for bytes
    using that by (auto simp: date_wire_def sqli_date_encode_wire_def Let_def split: if_splits)
  ultimately show ?thesis
    unfolding Some sqli_bind_date_def option.case date_wire_def [symmetric]
    by (intro stores_bind_checked) (auto simp: wf_param_def map_fallible candidate_def holds_def)
qed (simp add: sqli_bind_date_def)

lemma stores_date_string:
  "stores (accepts mem_ok (Call_date_string v)) (stored s i (Call_date_string v)) i s (sqli_bind_date_string i v s)"
proof (cases v)
  case (Some t)
  obtain status date where parse: "parsed_date t = (status, date)" by fastforce
  show ?thesis
  proof (cases "status = SQLI_OK")
    case True
    then have "sqli_bind_date_string i v s = sqli_bind_date i date s"
      using Some parse by (simp add: sqli_bind_date_string_def parsed_date_def)
    then show ?thesis
      using stores_date [of date i s] Some parse True by (auto elim!: stores_weaken)
  next
    case False
    then show ?thesis using Some parse by (simp add: sqli_bind_date_string_def parsed_date_def)
  qed
qed (simp add: sqli_bind_date_string_def)

lemma stores_decimal:
  assumes "call_typed (Call_decimal value target)"
  shows "stores (accepts mem_ok (Call_decimal value target)) (stored s i (Call_decimal value target)) i s (sqli_bind_decimal i value target s)"
proof (cases "\<exists>d t. value = Some d \<and> target = Some t \<and> target_ok t")
  case True
  then obtain d t where dt: "value = Some d" "target = Some t" "target_ok t" by blast
  have "decimal_wire t d \<noteq> Inl SQLI_OK"
    using native_encoders_fail(3,4)
    by (auto simp: decimal_wire_def sqli_decimal_encode_wire_def sqli_decimal_get_parts_def Let_def split: sum.splits option.splits if_splits)
  moreover have "length bytes \<le> SQLI_DECIMAL_WIRE_CAPACITY" if "decimal_wire t d = Inr bytes" for bytes
    using that by (auto simp: decimal_wire_def sqli_decimal_encode_wire_def Let_def split: sum.splits if_splits)
  moreover obtain is_null where "sqli_decimal_is_null (Some d) = Inr is_null" by (simp add: sqli_decimal_is_null_def)
  moreover have "wire_scale t < 65536" using assms dt by (simp add: wire_scale_def)
  moreover have admitted: "(dt_precision t < 1 \<or> 32 < dt_precision t \<or> \<not> dt_floating_scale t \<and> dt_precision t < dt_scale t) = False"
    using dt(3) by (auto simp: target_ok_def)
  have "sqli_bind_decimal i value target s = bind_checked i (case decimal_wire t d of Inl rc \<Rightarrow> Inl rc
      | Inr bytes \<Rightarrow> map_sum id (\<lambda>is_null _. candidate SQLI_BIND_DECIMAL is_null (wire_scale t) bytes) (sqli_decimal_is_null (Some d))) s"
    unfolding sqli_bind_decimal_def dt(1,2) Let_def option.sel decimal_wire_def wire_scale_def by (simp only: option.distinct admitted simp_thms if_False)
  ultimately show ?thesis
    using dt
    by (auto intro!: stores_bind_checked simp: wf_param_def candidate_def map_fallible holds_def split: sum.splits)
next
  case False
  then have "\<not> accepts mem_ok (Call_decimal value target)" by auto
  moreover have "\<exists>rc. rc \<noteq> SQLI_OK \<and> sqli_bind_decimal i value target s = (rc, s)"
    using False by (auto simp: sqli_bind_decimal_def target_ok_def Let_def not_less)
  ultimately show ?thesis by (metis stores_failure)
qed

lemma if_in: "a \<in> S \<Longrightarrow> b \<in> S \<Longrightarrow> (if c then a else b) \<in> S"
  by simp

lemma case_in: "a \<in> S \<Longrightarrow> b \<in> S \<Longrightarrow> (case x of Inl rc \<Rightarrow> a | Inr w \<Rightarrow> b) \<in> S"
  by (simp split: sum.split)

definition qualifier_results :: "nat fallible set" where
  "qualifier_results = {x. x \<noteq> Inl SQLI_OK \<and> (\<forall>q. x = Inr q \<longrightarrow> q < 65536)}"

lemma qualifier_results_intros:
  "rc \<noteq> SQLI_OK \<Longrightarrow> Inl rc \<in> qualifier_results" "Inr (q mod 65536) \<in> qualifier_results"
  by (simp_all add: qualifier_results_def)

lemma temporal_qualifier_results: "temporal_qualifier target interval leading \<in> qualifier_results"
proof (cases target)
  case (Some t)
  show ?thesis
    unfolding Some temporal_qualifier_def option.case Let_def
    by (intro if_in case_in qualifier_results_intros; simp only: sqli_status.distinct not_False_eq_True)
qed (simp add: temporal_qualifier_def qualifier_results_intros)

lemma temporal_qualifier_bound: "temporal_qualifier target interval leading = Inr qualifier \<Longrightarrow> qualifier < 65536"
  using temporal_qualifier_results [of target interval leading] by (simp add: qualifier_results_def)

lemma temporal_qualifier_fail: "temporal_qualifier target interval leading \<noteq> Inl SQLI_OK"
  using temporal_qualifier_results [of target interval leading] by (simp add: qualifier_results_def)

lemma stores_native:
  assumes "type \<in> {SQLI_BIND_DATETIME, SQLI_BIND_INTERVAL}" "\<And>q. encode q \<noteq> Inl SQLI_OK"
    "\<And>q bytes. encode q = Inr bytes \<Longrightarrow> length bytes \<le> 12" "null = Inr is_null"
  shows "stores (\<exists>q bytes. temporal_qualifier target interval leading = Inr q \<and> encode q = Inr bytes)
    (\<lambda>p. holds type is_null p \<and> temporal_qualifier target interval leading = Inr (bp_native_qualifier p) \<and>
       encode (bp_native_qualifier p) = Inr (bp_native p)) i s
    (bind_checked i
    (case temporal_qualifier target interval leading of Inl rc \<Rightarrow> Inl rc
     | Inr qualifier \<Rightarrow> (case encode qualifier of Inl rc \<Rightarrow> Inl rc
       | Inr bytes \<Rightarrow> map_sum id (\<lambda>is_null _. candidate type is_null qualifier bytes) null)) s)"
proof (rule stores_bind_checked)
  let ?run = "case temporal_qualifier target interval leading of Inl rc \<Rightarrow> Inl rc
     | Inr qualifier \<Rightarrow> (case encode qualifier of Inl rc \<Rightarrow> Inl rc
       | Inr bytes \<Rightarrow> map_sum id (\<lambda>is_null _. candidate type is_null qualifier bytes) null)"
  have native: "wf_param (candidate type is_null q bytes)" if "length bytes \<le> 12" "q < 65536" for is_null q bytes
    using assms(1) that by (auto simp: wf_param_def candidate_def SQLI_DECIMAL_WIRE_CAPACITY_def)
  show "wf_param (f p) \<and> holds type is_null (f p) \<and>
      temporal_qualifier target interval leading = Inr (bp_native_qualifier (f p)) \<and>
      encode (bp_native_qualifier (f p)) = Inr (bp_native (f p))" if "?run = Inr f" for f p
    using that assms(3,4) temporal_qualifier_bound native
    by (auto simp: map_fallible split: sum.splits) (simp_all add: candidate_def holds_def)
  show "?run \<noteq> Inl SQLI_OK" using temporal_qualifier_fail assms(2,4) by (auto simp: map_fallible split: sum.splits)
  show "(\<exists>q bytes. temporal_qualifier target interval leading = Inr q \<and> encode q = Inr bytes) \<longleftrightarrow> (\<exists>f. ?run = Inr f)"
    using assms(4) by (auto split: sum.splits)
qed

lemma stores_datetime:
  "stores (accepts mem_ok (Call_datetime v target)) (stored s i (Call_datetime v target)) i s (sqli_bind_datetime i v target s)"
proof (cases "v = None \<or> target = None")
  case False
  then obtain d where d: "v = Some d" by auto
  have "datetime_wire q d \<noteq> Inl SQLI_OK" for q
    using native_encoders_fail(1,2)
    by (auto simp: datetime_wire_def sqli_datetime_encode_wire_def sqli_datetime_get_parts_def split: sum.splits option.splits if_splits)
  moreover have "datetime_wire q d = Inr bytes \<Longrightarrow> length bytes \<le> 12" for q bytes
    using pack_length by (auto simp: datetime_wire_def sqli_datetime_encode_wire_def split: sum.splits if_splits)
  moreover obtain is_null where "sqli_datetime_is_null (Some d) = Inr is_null" by (simp add: sqli_datetime_is_null_def)
  ultimately show ?thesis
    using stores_native [of SQLI_BIND_DATETIME "\<lambda>q. datetime_wire q d" "sqli_datetime_is_null (Some d)" is_null target False 0 i s] False d
    unfolding sqli_bind_datetime_def datetime_wire_def by (auto elim!: stores_weaken simp: datetime_wire_def)
qed (auto simp: sqli_bind_datetime_def temporal_qualifier_def)

lemma stores_interval:
  "stores (accepts mem_ok (Call_interval v target leading)) (stored s i (Call_interval v target leading)) i s
     (sqli_bind_interval i v target leading s)"
proof (cases "v = None \<or> target = None")
  case False
  then obtain d where d: "v = Some d" by auto
  have "interval_wire q d \<noteq> Inl SQLI_OK" for q
    using native_encoders_fail(1,2)
    by (auto simp: interval_wire_def sqli_interval_encode_wire_def sqli_interval_get_parts_def split: sum.splits option.splits if_splits)
  moreover have "interval_wire q d = Inr bytes \<Longrightarrow> length bytes \<le> 12" for q bytes
    using pack_length by (auto simp: interval_wire_def sqli_interval_encode_wire_def split: sum.splits if_splits)
  moreover obtain is_null where "sqli_interval_is_null (Some d) = Inr is_null" by (simp add: sqli_interval_is_null_def)
  ultimately show ?thesis
    using stores_native [of SQLI_BIND_INTERVAL "\<lambda>q. interval_wire q d" "sqli_interval_is_null (Some d)" is_null target True leading i s] False d
    unfolding sqli_bind_interval_def interval_wire_def by (auto elim!: stores_weaken simp: interval_wire_def)
qed (auto simp: sqli_bind_interval_def temporal_qualifier_def)

lemma stores_timestamp:
  "stores (accepts mem_ok (Call_timestamp v)) (stored s i (Call_timestamp v)) i s (sqli_bind_timestamp mem_ok i v s)"
proof (cases "validate_param_index i s = SQLI_OK")
  case True
  show ?thesis
  proof (cases "v = None \<or> (\<exists>ts. v = Some ts \<and> ts_is_null ts)")
    case null: True
    then have "sqli_bind_timestamp mem_ok i v s = bind_null_as SQLI_BIND_STRING i s"
      using True by (auto simp: sqli_bind_timestamp_def sqli_bind_null_def)
    moreover have "stores True (holds SQLI_BIND_STRING True) i s (bind_null_as SQLI_BIND_STRING i s)" by (rule stores_null) simp
    ultimately show ?thesis using null by (auto elim!: stores_weaken)
  next
    case False
    then obtain ts where ts: "v = Some ts" "\<not> ts_is_null ts" by (cases v) auto
    then have "sqli_bind_timestamp mem_ok i v s = set_param_string mem_ok i SQLI_BIND_STRING (Some (timestamp_text ts)) s"
      using True by (simp add: sqli_bind_timestamp_def)
    then show ?thesis using ts stores_string [of "Some (timestamp_text ts)" mem_ok i s] by (auto elim!: stores_weaken)
  qed
qed (simp add: sqli_bind_timestamp_def Let_def stores_def)

lemma epoch_not_null:
  "\<not> ts_is_null (sqli_timestamp_from_epoch_sec n)" "\<not> ts_is_null (sqli_timestamp_from_epoch_ms n)"
  "\<not> ts_is_null (sqli_timestamp_from_epoch_days n)"
  by (simp_all add: sqli_timestamp_from_epoch_sec_def sqli_timestamp_from_epoch_ms_def sqli_timestamp_from_epoch_days_def Let_def
      split: prod.split)

lemma stores_run_bind:
  assumes "call_typed call" "\<nexists>lob. call = Call_sblob lob"
  shows "stores (accepts mem_ok call) (stored s i call) i s (fst (run_bind mem_ok i call s p)) \<and> snd (run_bind mem_ok i call s p) = p"
proof (cases call)
  case (Call_decimal v target)
  then show ?thesis using stores_decimal [of v target mem_ok s i] assms(1) by simp
next
  case (Call_epoch_sec n)
  then show ?thesis
    using stores_timestamp [of mem_ok "Some (sqli_timestamp_from_epoch_sec n)" s i] epoch_not_null
    by (auto simp: sqli_bind_epoch_sec_def elim!: stores_weaken)
next
  case (Call_epoch_ms n)
  then show ?thesis
    using stores_timestamp [of mem_ok "Some (sqli_timestamp_from_epoch_ms n)" s i] epoch_not_null
    by (auto simp: sqli_bind_epoch_ms_def elim!: stores_weaken)
next
  case (Call_epoch_days n)
  then show ?thesis
    using stores_timestamp [of mem_ok "Some (sqli_timestamp_from_epoch_days n)" s i] epoch_not_null
    by (auto simp: sqli_bind_epoch_days_def elim!: stores_weaken)
next
  case (Call_bool b)
  then show ?thesis
    using stores_string [of "Some (if b then ''t'' else ''f'')" mem_ok i s] by (auto simp: sqli_bind_bool_def elim!: stores_weaken)
next
  case (Call_int v)
  then show ?thesis using assms(1) by (auto simp: sqli_bind_int_def wf_param_def holds_def intro!: stores_plain)
next
  case (Call_int64 v)
  then show ?thesis using assms(1) by (auto simp: sqli_bind_int64_def wf_param_def holds_def intro!: stores_plain)
next
  case (Call_double v)
  then show ?thesis using assms(1) by (auto simp: sqli_bind_double_def wf_param_def holds_def intro!: stores_plain)
next
  case (Call_string v)
  then show ?thesis using stores_string [of v mem_ok i s] by (auto simp: sqli_bind_string_def elim!: stores_weaken)
next
  case (Call_decimal_string v)
  then show ?thesis using stores_string [of v mem_ok i s] by (auto simp: sqli_bind_decimal_string_def elim!: stores_weaken)
next
  case (Call_datetime_string v)
  then show ?thesis using stores_string [of v mem_ok i s] by (auto simp: sqli_bind_datetime_string_def elim!: stores_weaken)
next
  case (Call_interval_string v)
  then show ?thesis using stores_string [of v mem_ok i s] by (auto simp: sqli_bind_interval_string_def elim!: stores_weaken)
next
  case (Call_bytes v)
  then show ?thesis using stores_bytes [of v mem_ok i s] by (auto simp: sqli_bind_bytes_def elim!: stores_weaken)
next
  case (Call_date v)
  then show ?thesis using stores_date [of v i s] by (auto elim!: stores_weaken)
next
  case Call_null
  then show ?thesis using stores_null [of SQLI_BIND_STRING i s] by (auto simp: sqli_bind_null_def elim!: stores_weaken)
next
  case Call_null_int
  then show ?thesis using stores_null [of SQLI_BIND_INT i s] by (auto simp: sqli_bind_null_int_def elim!: stores_weaken)
next
  case Call_null_int64
  then show ?thesis using stores_null [of SQLI_BIND_BIGINT i s] by (auto simp: sqli_bind_null_int64_def elim!: stores_weaken)
next
  case Call_null_double
  then show ?thesis using stores_null [of SQLI_BIND_FLOAT i s] by (auto simp: sqli_bind_null_double_def elim!: stores_weaken)
next
  case (Call_date_string v)
  then show ?thesis using stores_date_string [of mem_ok v s i] by simp
next
  case (Call_datetime v target)
  then show ?thesis using stores_datetime [of mem_ok v target s i] by simp
next
  case (Call_interval v target leading)
  then show ?thesis using stores_interval [of mem_ok v target leading s i] by simp
next
  case (Call_timestamp v)
  then show ?thesis using stores_timestamp [of mem_ok v s i] by simp
qed (use assms(2) in blast)

lemma index_valid: "wf_stmt s \<Longrightarrow> validate_param_index i s = SQLI_OK \<longleftrightarrow> int i < st_param_count s"
  by (auto simp: validate_param_index_def wf_stmt_def split: if_splits option.splits)

lemma store_param_in: "st_params s = Some params \<Longrightarrow> store_param i f s = s\<lparr>st_params := Some (params[i := f (params ! i)])\<rparr>"
  by (simp add: store_param_def)

lemma wf_stored:
  assumes "wf_stmt s" "st_params s = Some params" "i < length params" "wf_param q"
  shows "wf_stmt (s\<lparr>st_params := Some (params[i := q])\<rparr>)"
  using assms by (auto simp: wf_stmt_def list_all_length nth_list_update)

lemma bind_sblob_effect:
  assumes "wf_stmt s" "st_params s = Some params" "i < length params"
  shows "sqli_bind_sblob mem_ok i lob s p =
    (let q = (params ! i)\<lparr>bp_sval := None, bp_bval := [], bp_is_null := False\<rparr>
     in case lob of
       None \<Rightarrow> ((SQLI_OK, s\<lparr>st_params := Some (params[i := q\<lparr>bp_type := Some SQLI_BIND_SBLOB, bp_is_null := True,
         bp_value := Sbval (if i < length (st_server_types s) \<and> st_server_types s ! i = type_code SQLI_TYPE_CLOB
           then SQLI_SBLOB_CLOB else SQLI_SBLOB_BLOB)\<rparr>])\<rparr>), p)
     | Some lob \<Rightarrow>
         if \<not> (0 < length (sb_locator lob) \<and> length (sb_locator lob) \<le> 72)
         then ((SQLI_INVALID_STATE, s\<lparr>st_params := Some (params[i := q])\<rparr>), peer_conn (set_error ''invalid smartblob locator length'') p)
         else if \<not> mem_ok then ((SQLI_ALLOC_FAIL, s\<lparr>st_params := Some (params[i := q])\<rparr>), p)
         else ((SQLI_OK, s\<lparr>st_params := Some (params[i := q\<lparr>bp_bval := sb_locator lob, bp_value := Sbval (sb_type lob),
           bp_type := Some SQLI_BIND_SBLOB, bp_is_null := False\<rparr>])\<rparr>), p))"
proof -
  have "validate_param_index i s = SQLI_OK" using index_valid [OF assms(1)] assms by (simp add: wf_stmt_def)
  then show ?thesis
    using assms(2,3)
    by (cases lob) (auto simp: sqli_bind_sblob_def store_param_def sqli_free_bound_param_def param_server_type_def
      SQLI_SBLOB_LOCATOR_MAX_def Let_def)
qed

text \<open>
  C17. A bind call succeeds exactly when the parameter that it names exists and its argument can be stored. Then that
  parameter, and nothing else of the statement, is replaced: it has the type of the call and holds the value of the
  call, within the limits of the bind message, and a well-formed statement stays well-formed. A call that fails
  changes nothing of the statement, with one exception: a large object whose locator is refused, or for which there is no
  memory, has already cost the parameter its value and its NULL flag.
\<close>

theorem bind_is_atomic:
  assumes "call_typed call" "run_bind mem_ok i call s p = ((rc, s'), p')" "wf_stmt s"
  shows "if int i < st_param_count s \<and> accepts mem_ok call
    then rc = SQLI_OK \<and> p' = p \<and> wf_stmt s' \<and>
      (\<exists>params q. st_params s = Some params \<and> i < length params \<and> stored s i call q \<and>
        s' = s\<lparr>st_params := Some (params[i := q])\<rparr>)
    else rc \<noteq> SQLI_OK \<and>
      (s' = s \<and> p' = p \<or>
       (\<exists>lob params. call = Call_sblob (Some lob) \<and> st_params s = Some params \<and> i < length params \<and>
          s' = s\<lparr>st_params := Some (params[i := (params ! i)\<lparr>bp_sval := None, bp_bval := [], bp_is_null := False\<rparr>])\<rparr>))"
proof (cases "int i < st_param_count s")
  case True
  then obtain params where params: "st_params s = Some params" "i < length params"
    using assms(3) by (auto simp: wf_stmt_def split: option.splits)
  show ?thesis
  proof (cases "\<exists>lob. call = Call_sblob lob")
    case False
    then have "stores (accepts mem_ok call) (stored s i call) i s (rc, s')" "p' = p"
      using stores_run_bind [OF assms(1), of mem_ok s i p] assms(2) by auto
    then show ?thesis
      using True params index_valid [OF assms(3), of i] store_param_in [OF params(1)] wf_stored [OF assms(3) params]
      unfolding stores_def by (auto split: if_splits)
  next
    case lob: True
    then obtain lob where call: "call = Call_sblob lob" by blast
    show ?thesis
    proof (cases lob)
      case None
      define q where "q = (params ! i)\<lparr>bp_sval := None, bp_bval := [], bp_is_null := False, bp_type := Some SQLI_BIND_SBLOB, bp_is_null := True,
         bp_value := Sbval (if i < length (st_server_types s) \<and> st_server_types s ! i = type_code SQLI_TYPE_CLOB
           then SQLI_SBLOB_CLOB else SQLI_SBLOB_BLOB)\<rparr>"
      have "rc = SQLI_OK" "p' = p" "s' = s\<lparr>st_params := Some (params[i := q])\<rparr>"
        using None call assms(2) by (simp_all add: bind_sblob_effect [OF assms(3) params] Let_def q_def)
      moreover have "wf_param q" "stored s i call q" using None call by (simp_all add: q_def wf_param_def holds_def)
      moreover have "accepts mem_ok call" using None call by simp
      ultimately show ?thesis using True params wf_stored [OF assms(3) params] by auto
    next
      case (Some l)
      define q where "q = (params ! i)\<lparr>bp_sval := None, bp_bval := [], bp_is_null := False\<rparr>"
      define r where "r = q\<lparr>bp_bval := sb_locator l, bp_value := Sbval (sb_type l), bp_type := Some SQLI_BIND_SBLOB, bp_is_null := False\<rparr>"
      have run: "((rc, s'), p') = (if \<not> (0 < length (sb_locator l) \<and> length (sb_locator l) \<le> 72)
         then ((SQLI_INVALID_STATE, s\<lparr>st_params := Some (params[i := q])\<rparr>), peer_conn (set_error ''invalid smartblob locator length'') p)
         else if \<not> mem_ok then ((SQLI_ALLOC_FAIL, s\<lparr>st_params := Some (params[i := q])\<rparr>), p)
         else ((SQLI_OK, s\<lparr>st_params := Some (params[i := r])\<rparr>), p))"
      proof -
        have "((rc, s'), p') = sqli_bind_sblob mem_ok i (Some l) s p" using Some call assms(2) by simp
        then show ?thesis by (simp only: bind_sblob_effect [OF assms(3) params] option.case Let_def q_def r_def)
      qed
      show ?thesis
      proof (cases "accepts mem_ok call")
        case ok: True
        then have "rc = SQLI_OK" "p' = p" "s' = s\<lparr>st_params := Some (params[i := r])\<rparr>" using run Some call by simp_all
        moreover have "wf_param r" "stored s i call r"
          using Some call ok by (auto simp: r_def wf_param_def holds_def SQLI_SBLOB_LOCATOR_MAX_def)
        ultimately show ?thesis using True ok params wf_stored [OF assms(3) params] by auto
      next
        case refused: False
        then have "rc \<noteq> SQLI_OK" "s' = s\<lparr>st_params := Some (params[i := q])\<rparr>" using run Some call by (auto split: if_splits)
        then show ?thesis using refused Some call params q_def by auto
      qed
    qed
  qed
next
  case False
  then have invalid: "validate_param_index i s \<noteq> SQLI_OK" using index_valid [OF assms(3)] by simp
  show ?thesis
  proof (cases "\<exists>lob. call = Call_sblob lob")
    case True
    then show ?thesis using False invalid assms(2) by (auto simp: sqli_bind_sblob_def Let_def)
  next
    case no_lob: False
    then show ?thesis
      using stores_run_bind [OF assms(1), of mem_ok s i p] assms(2) False invalid by (auto simp: stores_def)
  qed
qed

section \<open>Instances\<close>

text \<open>Two parameters, the second for a column of type TEXT, on a connection that converts nothing.\<close>

definition plain_client :: client_env where
  "plain_client = \<lparr>ce_dispatch = \<lparr>de_mem = (\<lambda>_. True), de_extended_describe = False, de_long_row_id = False,
     de_remove_64k_limit = False, de_strict_protocol = False, de_eot_wait = False, de_catalog = (\<lambda>_. []),
     de_opcode_name = (\<lambda>_. [])\<rparr>, ce_encode = (\<lambda>text_value. Inr (string_bytes text_value)),
     ce_cursor_type = SQLI_CURSOR_FORWARD_ONLY, ce_holdability = SQLI_CURSOR_CLOSE_AT_COMMIT, ce_fetch_buf_size = 4096,
     ce_target_rows = 10, ce_alloc = True\<rparr>"

definition sample_params :: "bound_param list" where
  "sample_params =
     [zero_param\<lparr>bp_type := Some SQLI_BIND_INT, bp_value := Ival (-7)\<rparr>,
      zero_param\<lparr>bp_type := Some SQLI_BIND_STRING, bp_sval := Some ''abc''\<rparr>]"

definition sample_stmt :: stmt where
  "sample_stmt = \<lparr>st_socket_fd = 3, st_stmt_id = 5, st_param_count = 2, st_read_only = False, st_params = Some sample_params,
     st_server_types = [2, 12], st_executed = False, st_cursor_open = False, st_result = zero_result, st_result_valid = False,
     st_batch_rows = [], st_batch_cap = 0\<rparr>"

lemma plain_client_fits: "conversion_fits plain_client"
  by (simp add: conversion_fits_def plain_client_def string_bytes_def)

lemma sample_stmt_wf: "wf_stmt sample_stmt"
  by (simp add: wf_stmt_def sample_stmt_def sample_params_def wf_param_def zero_param_def in_i32_def)

lemma bind_message_fits_witness:
  "length (build_bind_msg plain_client sample_stmt sample_params True) \<le> estimate_bind_msg_size sample_stmt sample_params True"
  by (rule bind_message_fits [OF plain_client_fits])

lemma bind_is_atomic_witness:
  "\<forall>p. \<exists>s' params q. run_bind True 1 (Call_int 6) sample_stmt p = ((SQLI_OK, s'), p) \<and> wf_stmt s' \<and>
     st_params sample_stmt = Some params \<and> bp_value q = Ival 6 \<and> s' = sample_stmt\<lparr>st_params := Some (params[1 := q])\<rparr>"
proof
  fix p
  obtain rc s' p' where run: "run_bind True 1 (Call_int 6) sample_stmt p = ((rc, s'), p')" by (metis prod.exhaust)
  have "call_typed (Call_int 6)" "int 1 < st_param_count sample_stmt" by (simp_all add: in_i32_def sample_stmt_def)
  then show "\<exists>s' params q. run_bind True 1 (Call_int 6) sample_stmt p = ((SQLI_OK, s'), p) \<and> wf_stmt s' \<and>
     st_params sample_stmt = Some params \<and> bp_value q = Ival 6 \<and> s' = sample_stmt\<lparr>st_params := Some (params[1 := q])\<rparr>"
    using bind_is_atomic [of "Call_int 6", OF _ run sample_stmt_wf] run by auto
qed

text \<open>
  The one function that is not atomic: a locator that is refused has already cost the parameter its value, and a
  parameter that was NULL is then sent as a value, here the integer 0.
\<close>

lemma refused_locator_drops_null:
  "\<exists>s'. sqli_bind_sblob True 0 (Some \<lparr>sb_type = SQLI_SBLOB_BLOB, sb_locator = []\<rparr>)
        (snd (sqli_bind_null_int 0 sample_stmt)) peer = ((SQLI_INVALID_STATE, s'), peer_conn (set_error ''invalid smartblob locator length'') peer) \<and>
      bp_is_null (the (st_params (snd (sqli_bind_null_int 0 sample_stmt))) ! 0) \<and>
      \<not> bp_is_null (the (st_params s') ! 0) \<and> bp_type (the (st_params s') ! 0) = Some SQLI_BIND_INT"
  by (simp add: sqli_bind_sblob_def sqli_bind_null_int_def bind_null_as_def bind_checked_def validate_param_index_def
      sample_stmt_def sample_params_def store_param_def sqli_free_bound_param_def Let_def)

end
