(* ===== verification/Reader.thy ===== *)
theory Reader
  imports LinkFacts
begin

text \<open>
  Readers of bytes for the other side of the connection: they say what a message means. A reader takes its value
  from the start of the bytes and returns the rest, or fails.
\<close>

definition take_bytes :: "nat \<Rightarrow> byte list \<Rightarrow> (byte list \<times> byte list) option" where
  "take_bytes n bs = (if n \<le> length bs then Some (take n bs, drop n bs) else None)"

definition get_number :: "nat \<Rightarrow> byte list \<Rightarrow> (nat \<times> byte list) option" where
  "get_number n bs = map_option (map_prod (\<lambda>b. be_value 256 (map unat b)) id) (take_bytes n bs)"

lemma take_bytes_append [simp]: "take_bytes (length xs) (xs @ ys) = Some (xs, ys)"
  by (simp add: take_bytes_def)

lemma take_bytes_exact: "length xs = n \<Longrightarrow> take_bytes n (xs @ ys) = Some (xs, ys)"
  by (simp add: take_bytes_def)

lemma get_net16 [simp]: "n < 2 ^ 16 \<Longrightarrow> get_number 2 (net16 n @ ys) = Some (n, ys)"
  by (simp add: get_number_def take_bytes_exact net16_value)

lemma get_net32 [simp]: "n < 2 ^ 32 \<Longrightarrow> get_number 4 (net32 n @ ys) = Some (n, ys)"
  by (simp add: get_number_def take_bytes_exact net32_value)

lemma get_pair [simp]: "get_number 2 (a # b # ys) = Some (256 * unat a + unat b, ys)"
  by (simp add: get_number_def take_bytes_def be_value_def numeral_2_eq_2)

lemma get_number_shorter: "get_number n bs = Some (v, bs') \<Longrightarrow> length bs' + n = length bs"
  by (auto simp: get_number_def take_bytes_def split: if_splits)

end
