(* ===== verification/BindServer.thy ===== *)
theory BindServer
  imports BindFacts Reader
begin

text \<open>
  The receiver of the bind message: a reader that knows the types of the columns the parameters go to, and the
  proof that it reads back what was bound.
\<close>

section \<open>Readers\<close>

text \<open>Bytes with the pad byte of an odd length.\<close>

definition take_even :: "nat \<Rightarrow> byte list \<Rightarrow> (byte list \<times> byte list) option" where
  "take_even n bs =
     Option.bind (take_bytes n bs) (\<lambda>(b, bs). if odd n then map_option (\<lambda>(_, bs). (b, bs)) (take_bytes 1 bs) else Some (b, bs))"

text \<open>What arrives for a parameter.\<close>

datatype wire_value =
    Received_null | Received_int int | Received_double nat | Received_text "byte list" | Received_date "byte list"
  | Received_bytes "byte list" | Received_native nat "byte list" | Received_sblob "byte list"
  | Received_stream nat | Received_nothing

record wire_param =
  wp_code :: nat
  wp_name :: "byte list"
  wp_value :: wire_value

text \<open>A value by its code, after the null indicator.\<close>

definition read_value :: "nat \<Rightarrow> byte list \<Rightarrow> (wire_value \<times> byte list) option" where
  "read_value code bs =
     Option.bind (get_number 2 bs) (\<lambda>(n, bs).
       if code = 2 then map_option (map_prod (Received_int \<circ> twos_value) id) (take_bytes 4 bs)
       else if code = 52 then map_option (map_prod (Received_int \<circ> twos_value) id) (take_bytes 8 bs)
       else if code = 3 then map_option (map_prod Received_double id) (get_number 8 bs)
       else if code = 7 then map_option (map_prod Received_date id) (take_bytes 4 bs)
       else if code = 13 then
         Option.bind (get_number 2 bs) (\<lambda>(n, bs). map_option (map_prod Received_text id) (take_even n bs))
       else if code = 11 then map_option (map_prod Received_bytes id) (take_even n bs)
       else if code = 44 then
         Option.bind (get_number 4 bs) (\<lambda>(n, bs). map_option (map_prod Received_sblob id) (take_even n bs))
       else if code \<in> {5, 10, 14} then
         Option.bind (get_number 2 bs) (\<lambda>(m, bs). map_option (map_prod (Received_native n) id) (take_even m bs))
       else Some (Received_nothing, bs))"

text \<open>The name of an extended type, after an owner that is empty.\<close>

definition read_name :: "nat \<Rightarrow> byte list \<Rightarrow> (byte list \<times> byte list) option" where
  "read_name code bs =
     (if code \<noteq> 44 then Some ([], bs)
      else Option.bind (get_number 2 bs) (\<lambda>(owner, bs). Option.bind (get_number 2 bs) (\<lambda>(n, bs). take_even n bs)))"

text \<open>A column of type BYTE or TEXT takes a descriptor, in which the length of what follows is at its place.\<close>

definition read_descriptor :: "byte list \<Rightarrow> (wire_value \<times> byte list) option" where
  "read_descriptor bs =
     Option.bind (get_number 2 bs) (\<lambda>(n, bs).
       map_option (map_prod (\<lambda>b. Received_stream (be_value 256 (map unat (take 4 (drop 16 b))))) id) (take_bytes n bs))"

definition read_param :: "nat \<Rightarrow> byte list \<Rightarrow> (wire_param \<times> byte list) option" where
  "read_param column bs =
     Option.bind (get_number 2 bs) (\<lambda>(code, bs).
     Option.bind (read_name code bs) (\<lambda>(name, bs).
     Option.bind (get_number 2 bs) (\<lambda>(indicator, bs).
     Option.bind
       (if indicator = 0xFFFF then map_option (\<lambda>(_, bs). (Received_null, bs)) (take_bytes 2 bs)
        else if is_lob_code column \<and> code = column then read_descriptor bs
        else read_value code bs) (\<lambda>(v, bs).
       Some (\<lparr>wp_code = code, wp_name = name, wp_value = v\<rparr>, bs)))))"

fun read_params :: "nat list \<Rightarrow> byte list \<Rightarrow> (wire_param list \<times> byte list) option" where
  "read_params [] bs = Some ([], bs)"
| "read_params (column # columns) bs =
     Option.bind (read_param column bs) (\<lambda>(p, bs). map_option (map_prod ((#) p) id) (read_params columns bs))"

text \<open>The message of a server that knows the columns: the statement, the parameters and what follows.\<close>

definition read_bind :: "nat list \<Rightarrow> byte list \<Rightarrow> (nat \<times> wire_param list \<times> byte list) option" where
  "read_bind columns bs =
     Option.bind (get_number 2 bs) (\<lambda>(opcode, bs).
     Option.bind (get_number 2 bs) (\<lambda>(stmt_id, bs).
     Option.bind (get_number 2 bs) (\<lambda>(request, bs).
     Option.bind (get_number 2 bs) (\<lambda>(count, bs).
       if opcode = SQLI_SQ_ID \<and> request = SQLI_SQ_BIND \<and> count = length columns
       then map_option (Pair stmt_id) (read_params columns bs) else None))))"

section \<open>What was bound\<close>

fun bound_value_of :: "client_env \<Rightarrow> sqli_bind_type option \<Rightarrow> bound_param \<Rightarrow> wire_value" where
  "bound_value_of env (Some SQLI_BIND_INT) p = Received_int (ival (bp_value p))"
| "bound_value_of env (Some SQLI_BIND_BIGINT) p = Received_int (ival64 (bp_value p))"
| "bound_value_of env (Some SQLI_BIND_FLOAT) p = Received_double (dval (bp_value p))"
| "bound_value_of env (Some SQLI_BIND_STRING) p = Received_text (db_text env (the (bp_sval p)))"
| "bound_value_of env (Some SQLI_BIND_DATE) p = Received_date (bp_native p)"
| "bound_value_of env (Some SQLI_BIND_BYTES) p = Received_bytes (bp_bval p)"
| "bound_value_of env (Some SQLI_BIND_SBLOB) p = Received_sblob (bp_bval p)"
| "bound_value_of env (Some _) p = Received_native (bp_native_qualifier p) (strip_zeros (bp_native p))"
| "bound_value_of env None p = Received_nothing"

definition received :: "client_env \<Rightarrow> stmt \<Rightarrow> nat \<Rightarrow> bound_param \<Rightarrow> wire_param" where
  "received env s i p =
     \<lparr>wp_code = (if legacy_lob s i p then param_server_type s i else bind_code (bp_type p)),
      wp_name = (if bp_type p = Some SQLI_BIND_SBLOB
        then string_bytes (if sbval (bp_value p) = SQLI_SBLOB_CLOB then ''clob'' else ''blob'') else []),
      wp_value = (if bp_is_null p then Received_null
        else if legacy_lob s i p then Received_stream (length (lob_data env s i p))
        else bound_value_of env (bp_type p) p)\<rparr>"

text \<open>A text is not cut off by its 16-bit length.\<close>

definition text_fits :: "client_env \<Rightarrow> bound_param \<Rightarrow> bool" where
  "text_fits env p \<longleftrightarrow> (\<forall>text_value. bp_sval p = Some text_value \<longrightarrow>
     length text_value \<le> 0xFFFF \<and> length (db_text env text_value) \<le> 0xFFFF)"

section \<open>Readers and writers\<close>

lemma take_even_evened [simp]: "take_even (length xs) (evened xs @ ys) = Some (xs, ys)"
  by (simp add: take_even_def evened_def take_bytes_def)

lemma be_value_net32_mod: "be_value 256 (map unat (net32 n)) = n mod 2 ^ 32"
proof -
  have "n mod (256 * (256 * (256 * 256))) = 256 * (256 * (256 * (n div 256 div 256 div 256 mod 256) + n div 256 div 256 mod 256)
      + n div 256 mod 256) + n mod 256"
    unfolding mod_mult2_eq [of n 256] mod_mult2_eq [of _ 256 "256 * 256"] mod_mult2_eq [of _ 256 256] by simp
  then show ?thesis
    unfolding net32_def map_append net16_bytes by (simp add: be_value_def)
qed

lemma net64_value: "n < 2 ^ 64 \<Longrightarrow> be_value 256 (map unat (net64 n)) = n"
  unfolding net64_def map_append be_value_append be_value_net32_mod by (simp add: less_mult_imp_div_less)

lemma get_net64 [simp]: "n < 2 ^ 64 \<Longrightarrow> get_number 8 (net64 n @ ys) = Some (n, ys)"
  by (simp add: get_number_def take_bytes_exact net64_value)

text \<open>The two's complement of an int comes back.\<close>

lemma twos_value_wraps:
  assumes "be_value 256 (map unat bytes) = nat (v mod 256 ^ length bytes)" "- (256 ^ length bytes) \<le> 2 * v" "2 * v < 256 ^ length bytes"
  shows "twos_value bytes = v"
proof -
  let ?m = "256 ^ length bytes :: int"
  have m: "0 < ?m" by simp
  then have w: "int (be_value 256 (map unat bytes)) = v mod ?m" using assms(1) by simp
  show ?thesis
  proof (cases "0 \<le> v")
    case True
    then have "v mod ?m = v" using assms(3) by simp
    then show ?thesis using w assms(3) by (simp add: twos_value_def Let_def)
  next
    case False
    have "v mod ?m = (v + ?m) mod ?m" by simp
    also have "\<dots> = v + ?m" using False assms(2) m by (intro mod_pos_pos_trivial) linarith+
    finally show ?thesis using w assms(2) m by (simp add: twos_value_def Let_def)
  qed
qed

lemma twos_value_net32: "in_i32 v \<Longrightarrow> twos_value (net32 (uint32 v)) = v"
  by (rule twos_value_wraps) (auto simp: uint32_def in_i32_def net32_value nat_less_iff)

lemma twos_value_net64: "in_i64 v \<Longrightarrow> twos_value (net64 (nat (v mod 2 ^ 64))) = v"
  by (rule twos_value_wraps) (auto simp: in_i64_def net64_value nat_less_iff)

section \<open>A parameter\<close>

lemma read_name_written:
  "read_name (bind_code type) ((if type = Some SQLI_BIND_SBLOB then sblob_name p else []) @ ys) =
     Some (if type = Some SQLI_BIND_SBLOB
       then string_bytes (if sbval (bp_value p) = SQLI_SBLOB_CLOB then ''clob'' else ''blob'') else [], ys)"
proof (cases "type = Some SQLI_BIND_SBLOB")
  case True
  let ?name = "string_bytes (if sbval (bp_value p) = SQLI_SBLOB_CLOB then ''clob'' else ''blob'')"
  have "evened ?name = ?name" "length ?name = 4" by (simp_all add: evened_def string_bytes_def)
  then show ?thesis
    using True take_even_evened [of ?name ys] by (simp add: read_name_def sblob_name_def)
next
  case False
  have "bind_code type \<noteq> 44" using False by (cases type rule: bind_code.cases) auto
  then show ?thesis using False by (simp add: read_name_def)
qed

lemma read_value_written:
  assumes "wf_value type p" "type = Some SQLI_BIND_STRING \<Longrightarrow> text_fits env p"
  shows "read_value (bind_code type) (value_bytes env type p @ ys) = Some (bound_value_of env type p, ys)"
proof (cases type)
  case (Some t)
  have native: ?thesis if "t \<in> {SQLI_BIND_DECIMAL, SQLI_BIND_DATETIME, SQLI_BIND_INTERVAL}"
  proof -
    let ?b = "strip_zeros (bp_native p)"
    have "length ?b < 256" "bp_native_qualifier p < 2 ^ 16"
      using assms(1) that length_strip_zeros [of "bp_native p"] unfolding Some by (auto simp: SQLI_DECIMAL_WIRE_CAPACITY_def)
    then show ?thesis
      using that take_even_evened [of ?b ys] unfolding Some by (auto simp: read_value_def Let_def unat_u8)
  qed
  show ?thesis
  proof (cases t)
    case SQLI_BIND_STRING
    then obtain text_value where "bp_sval p = Some text_value" "length (db_text env text_value) \<le> 65535"
      using assms unfolding Some by (auto simp: text_fits_def)
    then show ?thesis
      using take_even_evened [of "db_text env text_value" ys] unfolding Some SQLI_BIND_STRING
      by (simp add: read_value_def Let_def)
  next
    case SQLI_BIND_BYTES
    then show ?thesis
      using assms(1) take_even_evened [of "bp_bval p" ys] unfolding Some by (simp add: read_value_def Let_def)
  next
    case SQLI_BIND_SBLOB
    then have "length (bp_bval p) < 2 ^ 32" using assms(1) unfolding Some by (simp add: SQLI_SBLOB_LOCATOR_MAX_def)
    then show ?thesis
      using SQLI_BIND_SBLOB take_even_evened [of "bp_bval p" ys] unfolding Some by (simp add: read_value_def)
  next
    case SQLI_BIND_DATE
    then show ?thesis
      using assms(1) take_bytes_exact [of "bp_native p" 4 ys] unfolding Some by (simp add: read_value_def SQLI_DATE_WIRE_SIZE_def)
  qed (use assms(1) native in \<open>auto simp: Some read_value_def take_bytes_exact twos_value_net32 twos_value_net64 [simplified]\<close>)
qed (simp add: read_value_def)

text \<open>The length is at its place in the descriptor.\<close>

lemma read_descriptor_written:
  assumes "n < 2 ^ 32"
  shows "read_descriptor ([0, 56] @ lob_descriptor n @ ys) = Some (Received_stream n, ys)"
proof -
  have "length (lob_descriptor n) = 56" by (simp add: lob_descriptor_def)
  moreover have "take 4 (drop 16 (lob_descriptor n)) = net32 n" by (simp add: lob_descriptor_def)
  ultimately show ?thesis
    using take_bytes_exact [of "lob_descriptor n" 56 ys] net32_value [OF assms] by (simp add: read_descriptor_def)
qed

lemma lob_data_short:
  assumes "wf_param p" "\<not> bp_is_null p" "text_fits env p"
  shows "length (lob_data env s i p) < 2 ^ 32"
  using assms by (auto simp: lob_data_def wf_param_def text_fits_def string_bytes_def split: option.splits)

lemma bind_code_less: "bind_code type < 256"
  by (cases type rule: bind_code.cases) auto

text \<open>A type that could be taken for a column of type BYTE or TEXT is sent as one.\<close>

lemma lob_code_legacy: "is_lob_code (param_server_type s i) \<Longrightarrow> bind_code (bp_type p) = param_server_type s i \<Longrightarrow> legacy_lob s i p"
  by (cases "bp_type p" rule: bind_code.cases) (auto simp: legacy_lob_def is_lob_code_def)

lemma legacy_code: "legacy_lob s i p \<Longrightarrow> param_server_type s i \<noteq> 44 \<and> param_server_type s i < 256"
  by (auto simp: legacy_lob_def is_lob_code_def)

lemma null_indicator: "256 * unat (0xFF :: byte) + unat (0xFF :: byte) = 0xFFFF"
proof -
  have "unat (0xFF :: byte) = 255" using unat_u8 [of 255] by (simp add: u8_def)
  then show ?thesis by simp
qed

lemma read_param_null:
  assumes "code < 256" "read_name code bs = Some (name, [0xFF, 0xFF, 0, 0] @ ys)"
  shows "read_param column ([0, u8 code] @ bs) = Some (\<lparr>wp_code = code, wp_name = name, wp_value = Received_null\<rparr>, ys)"
proof -
  have "take_bytes 2 ([0, 0] @ ys) = Some ([0, 0], ys)" by (rule take_bytes_exact) simp
  then show ?thesis
    using assms null_indicator unfolding read_param_def append_Cons append_Nil get_pair by (simp add: unat_u8)
qed

lemma read_param_steps:
  assumes "code < 256" "read_name code bs = Some (name, [0, 0] @ cs)"
    "(if is_lob_code column \<and> code = column then read_descriptor cs else read_value code cs) = Some (v, ys)"
  shows "read_param column ([0, u8 code] @ bs) = Some (\<lparr>wp_code = code, wp_name = name, wp_value = v\<rparr>, ys)"
  using assms unfolding read_param_def append_Cons append_Nil get_pair by (simp add: unat_u8)

lemma read_param_written:
  assumes "wf_param p" "text_fits env p" "\<not> (legacy_lob s i p \<and> bp_type p = Some SQLI_BIND_SBLOB)"
  shows "read_param (param_server_type s i) (param_bytes env s i p @ ys) = Some (received env s i p, ys)"
proof (cases "legacy_lob s i p")
  case True
  have name: "read_name (param_server_type s i) zs = Some ([], zs)" for zs using legacy_code [OF True] by (simp add: read_name_def)
  have lob: "is_lob_code (param_server_type s i)" using True by (simp add: legacy_lob_def)
  show ?thesis
  proof (cases "bp_is_null p")
    case null: True
    have "param_bytes env s i p @ ys = [0, u8 (param_server_type s i)] @ ([0xFF, 0xFF, 0, 0] @ ys)"
      using True null assms(3) by (simp add: param_bytes_def)
    then show ?thesis
      using True null assms(3) legacy_code [OF True] name
      by (simp only:) (subst read_param_null, auto simp: received_def)
  next
    case False
    let ?d = "[0, 56] @ lob_descriptor (length (lob_data env s i p)) @ ys"
    have "param_bytes env s i p @ ys = [0, u8 (param_server_type s i)] @ ([0, 0] @ ?d)"
      using True False assms(3) by (simp add: param_bytes_def)
    moreover have "read_descriptor ?d = Some (Received_stream (length (lob_data env s i p)), ys)"
      by (rule read_descriptor_written [OF lob_data_short [OF assms(1) False assms(2)]])
    ultimately show ?thesis
      using True False assms(3) legacy_code [OF True] name lob
      by (simp only:) (subst read_param_steps, auto simp: received_def)
  qed
next
  case False
  let ?code = "bind_code (bp_type p)"
  have code: "(is_lob_code (param_server_type s i) \<and> ?code = param_server_type s i) = False"
    using lob_code_legacy False by blast
  let ?name = "if bp_type p = Some SQLI_BIND_SBLOB
    then string_bytes (if sbval (bp_value p) = SQLI_SBLOB_CLOB then ''clob'' else ''blob'') else []"
  let ?header = "if bp_type p = Some SQLI_BIND_SBLOB then sblob_name p else []"
  show ?thesis
  proof (cases "bp_is_null p")
    case True
    have "param_bytes env s i p @ ys = [0, u8 ?code] @ (?header @ ([0xFF, 0xFF, 0, 0] @ ys))"
      using False True by (simp add: param_bytes_def)
    moreover have "read_param (param_server_type s i) ([0, u8 ?code] @ (?header @ ([0xFF, 0xFF, 0, 0] @ ys))) =
        Some (\<lparr>wp_code = ?code, wp_name = ?name, wp_value = Received_null\<rparr>, ys)"
      by (rule read_param_null [OF bind_code_less read_name_written])
    ultimately show ?thesis using False True by (simp add: received_def)
  next
    case nonnull: False
    let ?rest = "value_bytes env (bp_type p) p @ ys"
    have "param_bytes env s i p @ ys = [0, u8 ?code] @ (?header @ ([0, 0] @ ?rest))"
      using False nonnull by (simp add: param_bytes_def)
    moreover have "read_value ?code ?rest = Some (bound_value_of env (bp_type p) p, ys)"
      using assms(1,2) nonnull by (intro read_value_written) (auto simp: wf_param_def)
    then have "read_param (param_server_type s i) ([0, u8 ?code] @ (?header @ ([0, 0] @ ?rest))) =
        Some (\<lparr>wp_code = ?code, wp_name = ?name, wp_value = bound_value_of env (bp_type p) p\<rparr>, ys)"
      by (intro read_param_steps [OF bind_code_less read_name_written]) (simp only: code if_False)
    ultimately show ?thesis using False nonnull by (simp add: received_def)
  qed
qed

section \<open>The message\<close>

lemma read_params_written:
  assumes "\<And>i. i \<in> set is \<Longrightarrow> wf_param (params ! i) \<and> text_fits env (params ! i) \<and>
    \<not> (legacy_lob s i (params ! i) \<and> bp_type (params ! i) = Some SQLI_BIND_SBLOB)"
  shows "read_params (map (param_server_type s) is) (concat (map (\<lambda>i. param_bytes env s i (params ! i)) is) @ ys) =
    Some (map (\<lambda>i. received env s i (params ! i)) is, ys)"
  using assms by (induction "is") (simp_all add: read_param_written)

text \<open>
  C3. A server that knows which columns the parameters go to reads from the bind message the statement and, for
  every parameter, the type and the value that were bound: NULL, the same integer, the bits of the double, the text
  in its own encoding, the bytes, or the length of the data that is streamed after the message. What follows the
  message is left to be read. The texts must fit their 16-bit length, and no smart large object may be bound to a
  column of type BYTE or TEXT.
\<close>

theorem bind_message_roundtrip:
  assumes "wf_stmt s" "st_params s = Some params" "length params < 2 ^ 16"
    "\<forall>p \<in> set params. text_fits env p"
    "\<forall>i < length params. bp_type (params ! i) = Some SQLI_BIND_SBLOB \<longrightarrow> \<not> is_lob_code (param_server_type s i)"
  shows "read_bind (map (param_server_type s) [0..<length params]) (build_bind_msg env s params include_eot @ rest) =
    Some (uint16 (st_stmt_id s), map (\<lambda>i. received env s i (params ! i)) [0..<length params],
      (if include_eot then net16 SQLI_SQ_EOT else []) @ rest)"
proof -
  have count: "st_param_count s = int (length params)" "uint16 (int (length params)) = length params"
    using assms(1-3) by (simp_all add: wf_stmt_def uint16_def nat_mod_as_int)
  have id: "uint16 (st_stmt_id s) < 2 ^ 16" by (simp add: uint16_def nat_less_iff)
  have params: "wf_param (params ! i) \<and> text_fits env (params ! i) \<and>
      \<not> (legacy_lob s i (params ! i) \<and> bp_type (params ! i) = Some SQLI_BIND_SBLOB)" if "i \<in> set [0..<length params]" for i
    using that assms by (auto simp: wf_stmt_def list_all_iff legacy_lob_def)
  show ?thesis
    using read_params_written [of "[0..<length params]" params env s, OF params] id assms(3)
    by (simp add: read_bind_def build_bind_msg_def id_message_def count limit_defs)
qed

lemma bind_message_roundtrip_witness:
  "read_bind (map (param_server_type sample_stmt) [0..<length sample_params])
     (build_bind_msg plain_client sample_stmt sample_params True @ [9]) =
   Some (uint16 5, map (\<lambda>i. received plain_client sample_stmt i (sample_params ! i)) [0..<length sample_params],
     net16 SQLI_SQ_EOT @ [9])"
proof -
  have "st_params sample_stmt = Some sample_params" "st_stmt_id sample_stmt = 5" by (simp_all add: sample_stmt_def)
  moreover have "length sample_params < 2 ^ 16" "\<forall>p \<in> set sample_params. text_fits plain_client p"
    "\<forall>i < length sample_params. bp_type (sample_params ! i) = Some SQLI_BIND_SBLOB \<longrightarrow> \<not> is_lob_code (param_server_type sample_stmt i)"
    by (auto simp: sample_params_def text_fits_def zero_param_def db_text_def plain_client_def string_bytes_def less_Suc_eq)
  ultimately show ?thesis using bind_message_roundtrip [OF sample_stmt_wf, of sample_params plain_client True "[9]"] by simp
qed

end
