(* ===== verification/StatementFacts.thy ===== *)
theory StatementFacts
  imports Statement BindServer QueryFacts
begin

text \<open>
  Executing a prepared statement: what goes to the server, what the server reads of it, and what the application
  gets back.
\<close>

section \<open>The messages of an execution\<close>

function chunk_messages :: "byte list \<Rightarrow> byte list list" where
  "chunk_messages data =
     (if data = [] then []
      else
        let chunk = take 1024 data
        in [net16 SQLI_SQ_BLOB @ net16 (length chunk), chunk] @ (if odd (length chunk) then [[0]] else []) @
           chunk_messages (drop 1024 data))"
  by pat_completeness auto

termination by (relation "measure length") auto

declare chunk_messages.simps [simp del]

definition lob_messages :: "byte list \<Rightarrow> byte list list" where
  "lob_messages data = chunk_messages data @ [net16 SQLI_SQ_BLOB @ [0, 0]]"

definition parameter_messages :: "client_env \<Rightarrow> stmt \<Rightarrow> bound_param list \<Rightarrow> byte list list" where
  "parameter_messages env s params =
     (if st_param_count s > 0
      then build_bind_msg env s params False #
        (if streamed env s params = [] then []
         else (net16 SQLI_SQ_BBIND @ net16 (length (streamed env s params))) # concat (map lob_messages (streamed env s params)))
      else [id_message (st_stmt_id s)])"

text \<open>One message on a connection that takes everything.\<close>

lemma one_message_talks:
  assumes "talking p0 arrivals p" "buf \<noteq> []"
  obtains p' where "peer_send buf p = (True, p')" "talking p0 arrivals p'" "p_sent p' = p_sent p @ [buf]"
proof -
  have "peer_send buf p = (True, p\<lparr>p_sent := p_sent p @ [buf]\<rparr>)"
    using assms by (auto simp: talking_def willing_def peer_send_def)
  then show thesis using that talking_sent [OF assms(1)] by simp
qed

lemma send_chunks_talks:
  assumes "talking p0 arrivals p"
  shows "\<exists>p'. send_chunks data p = (SQLI_OK, p') \<and> talking p0 arrivals p' \<and> p_sent p' = p_sent p @ chunk_messages data"
  using assms
proof (induction data arbitrary: p rule: chunk_messages.induct)
  case (1 data)
  show ?case
  proof (cases "data = []")
    case True
    then show ?thesis using 1(2) by (auto simp: send_chunks.simps chunk_messages.simps)
  next
    case False
    let ?chunk = "take 1024 data"
    let ?head = "[net16 SQLI_SQ_BLOB @ net16 (length ?chunk), ?chunk]"
    obtain p1 where p1: "send_all ?head p = (SQLI_OK, p1)" "talking p0 arrivals p1" "p_sent p1 = p_sent p @ ?head"
      by (rule send_talks [OF 1(2), of ?head]) (use False in auto)
    obtain p2 where p2: "(if odd (length ?chunk) then peer_send [0] p1 else (True, p1)) = (True, p2)" "talking p0 arrivals p2"
        "p_sent p2 = p_sent p1 @ (if odd (length ?chunk) then [[0]] else [])"
    proof (cases "odd (length ?chunk)")
      case odd: True
      show thesis by (rule one_message_talks [OF p1(2), of "[0]"]) (use odd that in auto)
    qed (use that p1 in auto)
    obtain p' where p': "send_chunks (drop 1024 data) p2 = (SQLI_OK, p')" "talking p0 arrivals p'"
        "p_sent p' = p_sent p2 @ chunk_messages (drop 1024 data)"
      using 1(1) [OF False refl p2(2)] by blast
    have "send_chunks data p = (SQLI_OK, p')"
      using False p1(1) p2(1) p'(1) by (subst send_chunks.simps) (auto simp del: send_all.simps split: if_splits)
    moreover have "chunk_messages data = ?head @ (if odd (length ?chunk) then [[0]] else []) @ chunk_messages (drop 1024 data)"
      using False by (subst chunk_messages.simps) (simp add: Let_def)
    ultimately show ?thesis using p1(3) p2(3) p'(2,3) by simp
  qed
qed

lemma send_lobs_talks:
  assumes "talking p0 arrivals p"
  shows "\<exists>p'. send_lobs lobs p = (SQLI_OK, p') \<and> talking p0 arrivals p' \<and> p_sent p' = p_sent p @ concat (map lob_messages lobs)"
  using assms
proof (induction lobs arbitrary: p)
  case (Cons data lobs)
  obtain p1 where p1: "send_chunks data p = (SQLI_OK, p1)" "talking p0 arrivals p1" "p_sent p1 = p_sent p @ chunk_messages data"
    using send_chunks_talks [OF Cons.prems] by blast
  obtain p2 where p2: "peer_send (net16 SQLI_SQ_BLOB @ [0, 0]) p1 = (True, p2)" "talking p0 arrivals p2"
      "p_sent p2 = p_sent p1 @ [net16 SQLI_SQ_BLOB @ [0, 0]]"
    by (rule one_message_talks [OF p1(2), of "net16 SQLI_SQ_BLOB @ [0, 0]"]) auto
  obtain p' where "send_lobs lobs p2 = (SQLI_OK, p')" "talking p0 arrivals p'" "p_sent p' = p_sent p2 @ concat (map lob_messages lobs)"
    using Cons.IH [OF p2(2)] by blast
  then show ?case using p1 p2 by (simp add: lob_messages_def [of data])
qed simp

lemma bind_msg_nonempty [simp]: "build_bind_msg env s params eot \<noteq> []" "[] \<noteq> build_bind_msg env s params eot"
  by (auto simp: build_bind_msg_def)

lemma send_parameters_talks:
  assumes "talking p0 arrivals p" "ce_alloc env"
  obtains p' where "send_parameters env s params p = (SQLI_OK, p')" "talking p0 arrivals p'"
    "p_sent p' = p_sent p @ parameter_messages env s params"
proof (cases "st_param_count s > 0")
  case True
  obtain p1 where p1: "peer_send (build_bind_msg env s params False) p = (True, p1)" "talking p0 arrivals p1"
      "p_sent p1 = p_sent p @ [build_bind_msg env s params False]"
    by (rule one_message_talks [OF assms(1) bind_msg_nonempty(1)])
  have bind: "sqli_stmt_send_bind_if_needed env s params False p = (SQLI_OK, p1)"
    using True p1(1) assms(2) by (simp add: sqli_stmt_send_bind_if_needed_def)
  show thesis
  proof (cases "streamed env s params = []")
    case empty: True
    then show thesis using that [of p1] True bind p1 by (simp add: send_parameters_def parameter_messages_def)
  next
    case False
    let ?bbind = "net16 SQLI_SQ_BBIND @ net16 (length (streamed env s params))"
    obtain p2 where p2: "peer_send ?bbind p1 = (True, p2)" "talking p0 arrivals p2" "p_sent p2 = p_sent p1 @ [?bbind]"
      by (rule one_message_talks [OF p1(2), of ?bbind]) auto
    obtain p3 where "send_lobs (streamed env s params) p2 = (SQLI_OK, p3)" "talking p0 arrivals p3"
        "p_sent p3 = p_sent p2 @ concat (map lob_messages (streamed env s params))"
      using send_lobs_talks [OF p2(2)] by blast
    then show thesis
      using that [of p3] True False bind p1 p2 by (simp add: send_parameters_def parameter_messages_def Let_def)
  qed
next
  case False
  obtain p1 where "peer_send (id_message (st_stmt_id s)) p = (True, p1)" "talking p0 arrivals p1"
      "p_sent p1 = p_sent p @ [id_message (st_stmt_id s)]"
    by (rule one_message_talks [OF assms(1), of "id_message (st_stmt_id s)"]) auto
  then show thesis using that [of p1] False by (simp add: send_parameters_def parameter_messages_def)
qed

section \<open>The reply\<close>

text \<open>A reply without rows, which says how many rows the statement has changed.\<close>

definition done_reply :: "dispatch_env \<Rightarrow> reply \<Rightarrow> bool" where
  "done_reply env e \<longleftrightarrow> rp_tuples e = [] \<and> counts_ok env e"

lemma execute_rounds_talks:
  assumes "talking p0 (arrivals @ later) p" "rows_pieces e arrivals" "memory_ok (ce_dispatch env)" "done_reply (ce_dispatch env) e"
    and "rs_arena_len r \<le> 2 ^ 63"
  obtains r' p' where "execute_rounds env n r p = ((SQLI_OK, r'), p')" "gains r [] r'" "\<not> rs_saw_error r'"
    "rs_rows_affected r' = twos_value (rp_affected e)" "talking p0 later p'" "p_sent p' = p_sent p"
proof -
  let ?r = "(unseen r)\<lparr>rs_eof := False\<rparr>"
  have aw: "awaits (arrivals @ later) (p_link p)" using assms(1) by (simp add: talking_def)
  obtain r1 k' where r1: "rows_added ?r (map tuple_row (rp_tuples e)) r1"
      "dispatch_loop (ce_dispatch env) (rs_row_count ?r) ?r (p_link p) =
        ((SQLI_OK, finished (rp_warnings e) (rp_affected e) (rp_serial e) r1), k')"
      "awaits later k'" "k_conn k' = k_conn (p_link p)"
    by (rule rows_awaited [OF aw, where b = e and env = "ce_dispatch env" and r = ?r and n = "rs_row_count ?r"])
      (use assms(2-5) in \<open>auto simp: rows_pieces_def done_reply_def unseen_def\<close>)
  let ?r' = "finished (rp_warnings e) (rp_affected e) (rp_serial e) r1"
  have "gains ?r [] ?r'" using gains_finished [OF r1(1)] assms(4) by (simp add: done_reply_def)
  then have g: "gains r [] ?r'" using gains_trans [OF gains_trans [OF gains_nothing(2) gains_nothing(3)]] by fastforce
  have "\<not> rs_saw_error ?r'" "rs_eof ?r'" "rs_rows_affected ?r' = twos_value (rp_affected e)"
    using r1(1) by (simp_all add: rows_added_def unseen_def)
  moreover have "execute_rounds env n r p = ((SQLI_OK, ?r'), p\<lparr>p_link := k'\<rparr>)"
    using r1(2) calculation by (simp add: execute_rounds.simps on_link_def sqli_receive_dispatch_def Let_def)
  moreover have "talking p0 later (p\<lparr>p_link := k'\<rparr>)" by (rule talking_link [OF assms(1) r1(3,4)])
  ultimately show thesis using that [of ?r' "p\<lparr>p_link := k'\<rparr>"] g by simp
qed

lemma clear_error_clear_error [simp]: "clear_error (clear_error conn) = clear_error conn"
  by (simp add: clear_error_def)

lemma awaits_clear_error: "awaits arrivals k \<Longrightarrow> awaits arrivals (k\<lparr>k_conn := clear_error (k_conn k)\<rparr>)"
  by (simp add: awaits_def quiet_def reported_def)

lemma talking_clear_error: "talking p0 arrivals p \<Longrightarrow> talking p0 arrivals (peer_conn clear_error p)"
proof -
  assume t: "talking p0 arrivals p"
  have "awaits arrivals (p_link (peer_conn clear_error p))"
    using t awaits_clear_error [of arrivals "p_link p"] by (simp add: talking_def peer_conn_def)
  moreover have "willing (peer_conn clear_error p)" using t by (simp add: talking_def willing_def)
  moreover have "cleared (peer_conn clear_error p) = cleared p" by (simp add: cleared_def)
  ultimately show ?thesis using t by (simp add: talking_def)
qed

text \<open>What the application sees of a successful execution.\<close>

definition executed :: "stmt \<Rightarrow> int \<Rightarrow> stmt \<Rightarrow> bool" where
  "executed s affected s' \<longleftrightarrow>
     st_result_valid s' \<and> st_executed s' \<and> rs_rows_affected (st_result s') = affected \<and> rs_row_count (st_result s') = 0 \<and>
     \<not> rs_saw_error (st_result s') \<and> rs_statement_type (st_result s') = rs_statement_type (st_result s) \<and>
     s' = s\<lparr>st_result := st_result s', st_result_valid := True, st_executed := True\<rparr>"

lemma receive_execute_result_talks:
  assumes "talking p0 (arrivals @ later) p" "rows_pieces e arrivals" "memory_ok (ce_dispatch env)" "done_reply (ce_dispatch env) e"
    and "s1 = sqli_stmt_prepare_result_for_execute env conn s"
  obtains s' p' where "sqli_stmt_receive_execute_result env s1 p = ((SQLI_OK, s'), p')"
    "executed s (twos_value (rp_affected e)) s'" "talking p0 later p'" "p_sent p' = p_sent p"
proof -
  let ?p = "peer_conn (set_error_context ''execute/recv'' SQLI_SQ_EXECUTE) p"
  have t: "talking p0 (arrivals @ later) ?p" by (rule talking_context [OF assms(1)])
  obtain r' p1 where p1: "execute_rounds env 64 (st_result s1) ?p = ((SQLI_OK, r'), p1)" "gains (st_result s1) [] r'"
      "\<not> rs_saw_error r'" "rs_rows_affected r' = twos_value (rp_affected e)" "talking p0 later p1" "p_sent p1 = p_sent ?p"
    by (rule execute_rounds_talks [OF t assms(2-4), of "st_result s1" 64])
      (simp add: assms(5) sqli_stmt_prepare_result_for_execute_def sqli_result_clear_rows_def)
  obtain p2 where p2: "drain_groups env None 8 p1 = (SQLI_OK, p2)" "talking p0 later p2" "p_sent p2 = p_sent p1"
    by (rule drain_groups_quiet [OF p1(5), of 8]) auto
  let ?p3 = "if st_socket_fd s1 \<ge> 0 then p2 else p1"
  have "sqli_stmt_receive_execute_result env s1 p =
      ((SQLI_OK, s1\<lparr>st_result := r', st_result_valid := True\<rparr>), peer_conn clear_error ?p3)"
    using p1(1) p2(1) by (simp add: sqli_stmt_receive_execute_result_def Let_def)
  moreover have "executed s (twos_value (rp_affected e)) (s1\<lparr>st_result := r', st_result_valid := True\<rparr>)"
    using p1(2-4) unfolding executed_def assms(5)
    by (simp add: sqli_stmt_prepare_result_for_execute_def gains_def sqli_result_clear_rows_def)
  moreover have "talking p0 later (peer_conn clear_error ?p3)" using p1(5) p2(2) by (simp add: talking_clear_error)
  ultimately show thesis using that p1(6) p2(3) by simp
qed

section \<open>The server's reader\<close>

lemma take_even_shorter: "take_even n bs = Some (b, bs') \<Longrightarrow> length bs' \<le> length bs"
  by (auto simp: take_even_def take_bytes_def bind_eq_Some_conv split: if_splits)

text \<open>The chunks of one parameter, up to one of length zero.\<close>

function read_lob :: "byte list \<Rightarrow> (byte list \<times> byte list) option" where
  "read_lob bs =
     (case get_number 2 bs of
        None \<Rightarrow> None
      | Some (opcode, bs) \<Rightarrow>
          if opcode \<noteq> SQLI_SQ_BLOB then None
          else (case get_number 2 bs of
            None \<Rightarrow> None
          | Some (n, bs) \<Rightarrow>
              if n = 0 then Some ([], bs)
              else (case take_even n bs of
                None \<Rightarrow> None
              | Some (chunk, bs) \<Rightarrow> map_option (map_prod ((@) chunk) id) (read_lob bs))))"
  by pat_completeness auto

termination
  by (relation "measure length") (auto dest!: get_number_shorter take_even_shorter)

declare read_lob.simps [simp del]

fun read_lobs :: "nat \<Rightarrow> byte list \<Rightarrow> (byte list list \<times> byte list) option" where
  "read_lobs 0 bs = Some ([], bs)"
| "read_lobs (Suc n) bs =
     (case read_lob bs of None \<Rightarrow> None | Some (data, bs) \<Rightarrow> map_option (map_prod ((#) data) id) (read_lobs n bs))"

text \<open>
  An execution with parameters: the bind message, the data that is streamed, and the request with the end of
  the group. The result is the statement, the parameters, the data and what follows.
\<close>

definition read_execution ::
  "nat list \<Rightarrow> byte list \<Rightarrow> (nat \<times> wire_param list \<times> byte list list \<times> byte list) option" where
  "read_execution columns bs =
     (case read_bind columns bs of
        None \<Rightarrow> None
      | Some (stmt_id, params, bs) \<Rightarrow>
          (case (case get_number 2 bs of
                   None \<Rightarrow> None
                 | Some (opcode, rest) \<Rightarrow>
                     if opcode = SQLI_SQ_BBIND
                     then (case get_number 2 rest of None \<Rightarrow> None | Some (n, rest) \<Rightarrow> read_lobs n rest)
                     else Some ([], bs)) of
             None \<Rightarrow> None
           | Some (lobs, bs) \<Rightarrow>
               (case get_number 4 bs of
                  None \<Rightarrow> None
                | Some (request, bs) \<Rightarrow>
                    if request = SQLI_SQ_EXECUTE * 65536 + SQLI_SQ_EOT then Some (stmt_id, params, lobs, bs) else None)))"

lemma read_lob_written: "read_lob (concat (lob_messages data) @ ys) = Some (data, ys)"
proof (induction data rule: chunk_messages.induct)
  case (1 data)
  show ?case
  proof (cases "data = []")
    case True
    have "get_number 2 (net16 SQLI_SQ_BLOB @ [0, 0] @ ys) = Some (SQLI_SQ_BLOB, [0, 0] @ ys)" by (rule get_net16) (simp add: limit_defs)
    then show ?thesis
      using True by (subst read_lob.simps) (simp add: lob_messages_def chunk_messages.simps)
  next
    case False
    let ?chunk = "take 1024 data" and ?rest = "concat (lob_messages (drop 1024 data)) @ ys"
    have n: "length ?chunk < 2 ^ 16" "length ?chunk \<noteq> 0" using False by simp_all
    have "concat (lob_messages data) @ ys = net16 SQLI_SQ_BLOB @ net16 (length ?chunk) @ evened ?chunk @ ?rest"
      using False by (simp add: lob_messages_def chunk_messages.simps [of data] evened_def Let_def)
    moreover have "get_number 2 (net16 SQLI_SQ_BLOB @ zs) = Some (SQLI_SQ_BLOB, zs)" for zs
      by (rule get_net16) (simp add: limit_defs)
    moreover have "read_lob ?rest = Some (drop 1024 data, ys)" using 1 [OF False refl] .
    ultimately show ?thesis
      using n get_net16 [OF n(1), of "evened ?chunk @ ?rest"] take_even_evened [of ?chunk ?rest]
      by (simp only:) (subst read_lob.simps, simp del: length_take)
  qed
qed

lemma read_lobs_written: "read_lobs (length lobs) (concat (concat (map lob_messages lobs)) @ ys) = Some (lobs, ys)"
  by (induction lobs) (simp_all add: read_lob_written)

lemma execute_request:
  "get_number 4 (net16 SQLI_SQ_EXECUTE @ net16 SQLI_SQ_EOT @ ys) = Some (SQLI_SQ_EXECUTE * 65536 + SQLI_SQ_EOT, ys)"
  using take_bytes_exact [of "net16 SQLI_SQ_EXECUTE @ net16 SQLI_SQ_EOT" 4 ys]
  by (simp add: get_number_def be_value_append net16_value limit_defs)

text \<open>The server reads what was bound and what was streamed.\<close>

lemma read_execution_written:
  assumes "wf_stmt s" "st_params s = Some params" "0 < length params" "length params < 2 ^ 16"
    "\<forall>p \<in> set params. text_fits env p"
    "\<forall>i < length params. bp_type (params ! i) = Some SQLI_BIND_SBLOB \<longrightarrow> \<not> is_lob_code (param_server_type s i)"
  shows "read_execution (map (param_server_type s) [0..<length params])
      (concat (parameter_messages env s params @ [net16 SQLI_SQ_EXECUTE @ net16 SQLI_SQ_EOT]) @ rest) =
    Some (uint16 (st_stmt_id s), map (\<lambda>i. received env s i (params ! i)) [0..<length params], streamed env s params, rest)"
proof -
  have count: "st_param_count s = int (length params)" using assms(1,2) by (simp add: wf_stmt_def)
  let ?request = "net16 SQLI_SQ_EXECUTE @ net16 SQLI_SQ_EOT @ rest"
  note bind = bind_message_roundtrip [OF assms(1,2,4-6), of False, simplified]
  have op: "get_number 2 (net16 n @ zs) = Some (n, zs)" if "n < 2 ^ 16" for n zs using that by (rule get_net16)
  show ?thesis
  proof (cases "streamed env s params = []")
    case True
    then show ?thesis
      using assms(3) bind [of ?request] execute_request [of rest] op [of SQLI_SQ_EXECUTE]
      by (simp add: parameter_messages_def count read_execution_def) (simp add: limit_defs SQLI_SQ_BBIND_def)
  next
    case False
    have "length (streamed env s params) \<le> length params"
      unfolding streamed_def length_map using length_filter_le [of _ "[0..<nat (st_param_count s)]"] by (simp add: count order_trans)
    then have n: "length (streamed env s params) < 2 ^ 16" using assms(4) by simp
    let ?lobs = "concat (concat (map lob_messages (streamed env s params)))"
    show ?thesis
      using assms(3) False bind [of "net16 SQLI_SQ_BBIND @ net16 (length (streamed env s params)) @ ?lobs @ ?request"]
        execute_request [of rest] op [OF n] op [of SQLI_SQ_BBIND] read_lobs_written [of "streamed env s params" ?request]
      by (simp add: parameter_messages_def count read_execution_def) (simp add: SQLI_SQ_BBIND_def)
  qed
qed

section \<open>An execution\<close>

lemma no_autobegin: "c_autocommit (k_conn (p_link p)) \<or> c_in_transaction (k_conn (p_link p)) \<Longrightarrow> peer_autobegin env t p = (SQLI_OK, p)"
  by (auto simp: peer_autobegin_def Let_def)

lemma param_server_type_valid [simp]: "param_server_type (s\<lparr>st_result_valid := b\<rparr>) = param_server_type s"
  by (simp add: param_server_type_def fun_eq_iff)

lemma sent_valid [simp]:
  "legacy_lob (s\<lparr>st_result_valid := b\<rparr>) = legacy_lob s" "lob_data env (s\<lparr>st_result_valid := b\<rparr>) = lob_data env s"
  "sqli_stmt_param_needs_lob_streaming (s\<lparr>st_result_valid := b\<rparr>) = sqli_stmt_param_needs_lob_streaming s"
  by (simp_all add: legacy_lob_def lob_data_def sqli_stmt_param_needs_lob_streaming_def fun_eq_iff split: option.split)

lemma received_valid [simp]:
  "received env (s\<lparr>st_result_valid := b\<rparr>) = received env s" "streamed env (s\<lparr>st_result_valid := b\<rparr>) = streamed env s"
  by (simp_all add: received_def streamed_def fun_eq_iff)

text \<open>The parameters of a call may be those of a row of a batch.\<close>

lemma execute_bound_params_talks:
  assumes "talking p0 (arrivals @ later) p" "rows_pieces e arrivals" "memory_ok (ce_dispatch env)" "done_reply (ce_dispatch env) e"
    and "ce_alloc env" "c_autocommit (k_conn (p_link p)) \<or> c_in_transaction (k_conn (p_link p))"
  obtains s' p1 where "sqli_stmt_execute_bound_params env None params s p =
      ((SQLI_OK, s'), peer_conn (sqli_track_transaction_statement (int (rs_statement_type (st_result s)))) p1)"
    "executed s (twos_value (rp_affected e)) s'" "talking p0 later p1"
    "p_sent p1 = p_sent p @ parameter_messages env s params @ [net16 SQLI_SQ_EXECUTE @ net16 SQLI_SQ_EOT]"
proof -
  let ?request = "net16 SQLI_SQ_EXECUTE @ net16 SQLI_SQ_EOT"
  obtain p2 where p2: "send_parameters env s params p = (SQLI_OK, p2)" "talking p0 (arrivals @ later) p2"
      "p_sent p2 = p_sent p @ parameter_messages env s params"
    by (rule send_parameters_talks [OF assms(1,5)])
  obtain p3 where p3: "peer_send ?request p2 = (True, p3)" "talking p0 (arrivals @ later) p3" "p_sent p3 = p_sent p2 @ [?request]"
    by (rule one_message_talks [OF p2(2), of ?request]) auto
  let ?s = "sqli_stmt_prepare_result_for_execute env (k_conn (p_link p3)) s"
  obtain s' p1 where p1: "sqli_stmt_receive_execute_result env ?s p3 = ((SQLI_OK, s'), p1)"
      "executed s (twos_value (rp_affected e)) s'" "talking p0 later p1" "p_sent p1 = p_sent p3"
    by (rule receive_execute_result_talks [OF p3(2) assms(2-4) refl])
  have "rs_statement_type (st_result s') = rs_statement_type (st_result s)" using p1(2) by (simp add: executed_def)
  then have "sqli_stmt_execute_bound_params env None params s p =
      ((SQLI_OK, s'), peer_conn (sqli_track_transaction_statement (int (rs_statement_type (st_result s)))) p1)"
    using no_autobegin [OF assms(6)] p2(1) p3(1) p1(1) by (simp add: sqli_stmt_execute_bound_params_def)
  then show thesis using that p1(2-4) p2(3) p3(3) by simp
qed

text \<open>
  C2. Executing a prepared statement that changes data: on a connection in autocommit mode or in a transaction,
  when the server's reply says that \<open>n\<close> rows are affected, the call succeeds and \<open>n\<close> is what the statement
  reports. A server that knows the columns reads from the bytes it has got exactly the statement, the bound
  values, the data of the large ones and the request, and nothing else; of what arrives, the reply has been read
  and nothing after it.
\<close>

theorem execution_reaches_server:
  assumes "memory_ok (ce_dispatch env)" "ce_alloc env"
    and "wf_stmt s" "st_params s = Some params" "0 < length params" "length params < 2 ^ 16"
    and "\<forall>p \<in> set params. text_fits env p"
    and "\<forall>i < length params. bp_type (params ! i) = Some SQLI_BIND_SBLOB \<longrightarrow> \<not> is_lob_code (param_server_type s i)"
    and "\<not> opens_cursor s" "\<not> st_cursor_open s" "\<not> p_discarded p"
    and "done_reply (ce_dispatch env) e" "rows_pieces e arrivals"
    and "k_buffer (p_link p) = []" "k_arrivals (p_link p) = arrivals @ later" "quiet (p_link p)" "willing p"
    and "c_autocommit (k_conn (p_link p)) \<or> c_in_transaction (k_conn (p_link p))"
  shows "\<exists>s' p' bytes. sqli_execute env s p = ((SQLI_OK, s'), p') \<and> executed s (twos_value (rp_affected e)) s' \<and>
    concat (p_sent p') = concat (p_sent p) @ bytes \<and>
    read_execution (map (param_server_type s) [0..<length params]) bytes =
      Some (uint16 (st_stmt_id s), map (\<lambda>i. received env s i (params ! i)) [0..<length params], streamed env s params, []) \<and>
    k_buffer (p_link p') = [] \<and> k_arrivals (p_link p') = later"
proof -
  let ?p = "peer_conn clear_error (peer_conn clear_error p)" and ?s = "s\<lparr>st_result_valid := False\<rparr>"
  have t: "talking ?p (arrivals @ later) ?p"
    using assms(14-17)
    by (simp add: talking_def cleared_def willing_def clear_error_def) (simp add: awaits_def quiet_def reported_def peer_conn_def no_error_def)
  have tx: "c_autocommit (k_conn (p_link ?p)) \<or> c_in_transaction (k_conn (p_link ?p))" using assms(18) by simp
  let ?bytes = "parameter_messages env ?s params @ [net16 SQLI_SQ_EXECUTE @ net16 SQLI_SQ_EOT]"
  obtain s' p1 where run: "sqli_stmt_execute_bound_params env None params ?s ?p =
        ((SQLI_OK, s'), peer_conn (sqli_track_transaction_statement (int (rs_statement_type (st_result ?s)))) p1)"
      "executed ?s (twos_value (rp_affected e)) s'" "talking ?p later p1" "p_sent p1 = p_sent ?p @ ?bytes"
    by (rule execute_bound_params_talks [OF t assms(13,1,12,2) tx, of params ?s]) auto
  have closed: "sqli_stmt_close_cursor_if_open env ?s (peer_conn clear_error p) = ((SQLI_OK, ?s), peer_conn clear_error p)"
    using assms(10) by (simp add: sqli_stmt_close_cursor_if_open_def)
  have "sqli_execute env s p =
      ((SQLI_OK, s'), peer_conn (sqli_track_transaction_statement (int (rs_statement_type (st_result ?s)))) p1)"
  proof -
    have "\<not> opens_cursor ?s" "stmt_params ?s = params" using assms(4,9) by (simp_all add: opens_cursor_def stmt_params_def)
    then show ?thesis using assms(11) run(1) closed by (simp add: sqli_execute_def Let_def)
  qed
  moreover have "executed s (twos_value (rp_affected e)) s'" using run(2) by (auto simp: executed_def)
  moreover have "wf_stmt ?s" using assms(3,4) by (simp add: wf_stmt_def)
  then have "read_execution (map (param_server_type ?s) [0..<length params]) (concat ?bytes @ []) =
      Some (uint16 (st_stmt_id ?s), map (\<lambda>i. received env ?s i (params ! i)) [0..<length params], streamed env ?s params, [])"
    by (rule read_execution_written) (use assms(4-8) in auto)
  then have "read_execution (map (param_server_type s) [0..<length params]) (concat ?bytes) =
      Some (uint16 (st_stmt_id s), map (\<lambda>i. received env s i (params ! i)) [0..<length params], streamed env s params, [])"
    by simp
  moreover have "k_buffer (p_link p1) = []" "k_arrivals (p_link p1) = later" using run(3) by (simp_all add: talking_def awaits_def)
  ultimately show ?thesis
    using run(4) by (intro exI [of _ s'] exI [of _ "peer_conn _ p1"] exI [of _ "concat ?bytes"]) (auto simp: peer_conn_def)
qed

text \<open>An insert of a number and of a text that is streamed, into one row.\<close>

definition sample_insert :: stmt where
  "sample_insert = sample_stmt\<lparr>st_result := zero_result\<lparr>rs_statement_type := 6\<rparr>\<rparr>"

definition insert_reply :: reply where
  "insert_reply = sample_reply\<lparr>rp_tuples := [], rp_affected := [0, 0, 0, 1]\<rparr>"

definition insert_peer :: peer where
  "insert_peer = sample_peer\<lparr>p_link := (p_link sample_peer)\<lparr>k_arrivals := [Bytes (rows_bytes insert_reply), Bytes [7, 7]]\<rparr>\<rparr>"

lemma insert_reply_ok: "done_reply sample_dispatch_env insert_reply" "rows_pieces insert_reply [Bytes (rows_bytes insert_reply)]"
proof -
  have "counts_ok sample_dispatch_env sample_reply" using sample_reply_ok by (simp add: reply_ok_def counts_ok_def)
  then show "done_reply sample_dispatch_env insert_reply" by (simp add: done_reply_def insert_reply_def counts_ok_def sample_dispatch_env_def)
  have "rows_bytes insert_reply \<noteq> []" "2 < length (rows_bytes insert_reply)"
    by (simp_all add: rows_bytes_def insert_reply_def done_body_def)
  then show "rows_pieces insert_reply [Bytes (rows_bytes insert_reply)]"
    by (auto simp: rows_pieces_def ends_in_piece_def pieces_of_def intro: exI [of _ "[rows_bytes insert_reply]"])
qed

lemma execution_reaches_server_witness:
  "\<exists>s' p' bytes. sqli_execute sample_client sample_insert insert_peer = ((SQLI_OK, s'), p') \<and> executed sample_insert 1 s' \<and>
     concat (p_sent p') = bytes \<and>
     read_execution (map (param_server_type sample_insert) [0..<length sample_params]) bytes =
       Some (uint16 5, map (\<lambda>i. received sample_client sample_insert i (sample_params ! i)) [0..<length sample_params],
         [string_bytes ''abc''], []) \<and> k_arrivals (p_link p') = [Bytes [7, 7]]"
proof -
  have "wf_stmt sample_insert" "st_params sample_insert = Some sample_params" "st_stmt_id sample_insert = 5"
    using sample_stmt_wf by (simp_all add: sample_insert_def wf_stmt_def sample_stmt_def)
  moreover have "\<forall>p \<in> set sample_params. text_fits sample_client p"
    "\<forall>i < length sample_params. bp_type (sample_params ! i) = Some SQLI_BIND_SBLOB \<longrightarrow> \<not> is_lob_code (param_server_type sample_insert i)"
    "0 < length sample_params" "length sample_params < 2 ^ 16"
    by (auto simp: sample_params_def text_fits_def zero_param_def db_text_def sample_client_def less_Suc_eq)
  moreover have "\<not> opens_cursor sample_insert" "\<not> st_cursor_open sample_insert"
    by (simp_all add: opens_cursor_def sample_insert_def sample_stmt_def)
  moreover have "streamed sample_client sample_insert sample_params = [string_bytes ''abc'']"
    by (simp add: streamed_def sample_insert_def sample_stmt_def sample_params_def sqli_stmt_param_needs_lob_streaming_def
        lob_data_def param_server_type_def is_lob_code_def zero_param_def upt_rec db_text_def sample_client_def string_bytes_def u8_def)
  moreover have "memory_ok (ce_dispatch sample_client)" "ce_alloc sample_client" "ce_dispatch sample_client = sample_dispatch_env"
    using sample_memory by (simp_all add: sample_client_def)
  moreover have "k_buffer (p_link insert_peer) = []" "quiet (p_link insert_peer)" "willing insert_peer"
    "c_autocommit (k_conn (p_link insert_peer))" "\<not> p_discarded insert_peer" "p_sent insert_peer = []"
    "k_arrivals (p_link insert_peer) = [Bytes (rows_bytes insert_reply)] @ [Bytes [7, 7]]"
    by (simp_all add: insert_peer_def sample_peer_def quiet_def willing_def sample_conn_def created_conn_def)
  moreover have "twos_value (rp_affected insert_reply) = 1" by (simp add: insert_reply_def twos_value_def be_value_def)
  ultimately show ?thesis
    using execution_reaches_server [where env = sample_client and s = sample_insert and params = sample_params and e = insert_reply
        and arrivals = "[Bytes (rows_bytes insert_reply)]" and p = insert_peer and later = "[Bytes [7, 7]]"] insert_reply_ok by auto
qed

end
