(* ===== verification/Asc.thy ===== *)
theory Asc
  imports Wire LinkFacts
begin

text \<open>
  The connection requests (src/src/sqli_asc.c): the body of the CONREQ message of a TCP connection and the
  preamble of a connection through a Unix socket. What the operating system tells is an input. The strings of the
  connection are never NULL; they are C strings without the NUL character.
\<close>

text \<open>The strings of \<open>struct sqli_conn\<close>.\<close>

record login =
  lg_server :: string
  lg_hostname :: string
  lg_service :: string
  lg_database :: string
  lg_username :: string
  lg_password :: string
  lg_client_locale :: string
  lg_db_locale :: string

text \<open>
  The process, the name of the machine and the working directory (\<open>None\<close> when the call fails), and the path of
  the program, which \<open>sqli_get_ipc_app_path\<close> takes from the environment or the file system.
\<close>

record os_info =
  os_pid :: nat
  os_hostname :: "string option"
  os_cwd :: "string option"
  os_app_path :: string

definition SQLI_PROTO_VERSION :: nat where "SQLI_PROTO_VERSION = 61"
definition SQLI_CLIENT_CAP_1 :: nat where "SQLI_CLIENT_CAP_1 = 316"
definition SQLI_TAG_ASC_BINARY :: nat where "SQLI_TAG_ASC_BINARY = 100"
definition SQLI_TAG_VERSION_CAPS :: nat where "SQLI_TAG_VERSION_CAPS = 101"
definition SQLI_TAG_PRODUCT_TYPE :: nat where "SQLI_TAG_PRODUCT_TYPE = 108"
definition SQLI_TAG_STMT_OPTIONS :: nat where "SQLI_TAG_STMT_OPTIONS = 104"
definition SQLI_TAG_ENV_VARS :: nat where "SQLI_TAG_ENV_VARS = 106"
definition SQLI_TAG_ENV_INFO :: nat where "SQLI_TAG_ENV_INFO = 107"
definition SQLI_TAG_APP_NAME :: nat where "SQLI_TAG_APP_NAME = 116"
definition SQLI_TAG_END :: nat where "SQLI_TAG_END = 127"

lemmas tag_defs [limit_defs] = SQLI_TAG_ASC_BINARY_def SQLI_TAG_VERSION_CAPS_def SQLI_TAG_PRODUCT_TYPE_def
  SQLI_TAG_STMT_OPTIONS_def SQLI_TAG_ENV_VARS_def SQLI_TAG_ENV_INFO_def SQLI_TAG_APP_NAME_def SQLI_TAG_END_def

section \<open>The request of a TCP connection\<close>

text \<open>At most 256 characters are written, whatever the length that stands before them.\<close>

definition wstr :: "string \<Rightarrow> byte list" where
  "wstr s = string_bytes (take 256 s)"

text \<open>The length with the NUL, the string and the NUL.\<close>

definition counted_nul :: "string \<Rightarrow> byte list" where
  "counted_nul s = net16 (length s + 1) @ wstr s @ [0]"

text \<open>A field of fixed width.\<close>

definition fixed_field :: "nat \<Rightarrow> string \<Rightarrow> byte list" where
  "fixed_field width s = string_bytes s @ replicate (width - length s) 0"

text \<open>Up to the environment variables.\<close>

definition conreq_head :: "login \<Rightarrow> string option \<Rightarrow> byte list" where
  "conreq_head lg transport =
     net16 SQLI_TAG_ASC_BINARY @ net16 SQLI_TAG_VERSION_CAPS @ net32 SQLI_PROTO_VERSION @ counted_nul ''IEEEM'' @
     net16 SQLI_TAG_PRODUCT_TYPE @ fixed_field 12 ''sqlexec'' @
     counted_nul ''9.280'' @ counted_nul ''RDS#R000000'' @ counted_nul ''sqli'' @
     net32 SQLI_CLIENT_CAP_1 @ net32 0 @ net32 0 @ net16 1 @
     counted_nul (lg_username lg) @ counted_nul (lg_password lg) @
     fixed_field 8 ''ol'' @ net32 SQLI_PROTO_VERSION @
     fixed_field 8 (case transport of None \<Rightarrow> ''tlitcp'' | Some name \<Rightarrow> take 7 name) @ net32 1 @
     net16 SQLI_TAG_STMT_OPTIONS @ net16 11 @ net32 3 @
     counted_nul (lg_server lg) @ net16 0 @ net16 0 @ net16 0 @ net16 0 @ net16 0 @ net16 SQLI_TAG_ENV_VARS"

definition env_pairs :: "login \<Rightarrow> (string \<times> string) list" where
  "env_pairs lg =
     [(''DBPATH'', ''.''),
      (''CLIENT_LOCALE'', if lg_client_locale lg \<noteq> [] then lg_client_locale lg else ''en_US.utf8''),
      (''CLNT_PAM_CAPABLE'', ''1''), (''IFX_UPDDESC'', ''1''),
      (''DB_LOCALE'', if lg_db_locale lg \<noteq> [] then lg_db_locale lg else ''en_US.8859-1''),
      (''NODEFDAC'', ''no'')]"

text \<open>The variables that fit from position \<open>p\<close> on, and how many they are.\<close>

fun write_env :: "nat \<Rightarrow> nat \<Rightarrow> (string \<times> string) list \<Rightarrow> nat \<times> byte list" where
  "write_env buf_size p [] = (0, [])"
| "write_env buf_size p ((name, value) # pairs) =
     (if p + 2 + length name + 1 + 2 + length value + 1 < buf_size then
        let bytes = counted_nul name @ counted_nul value
        in case write_env buf_size (p + length bytes) pairs of (count, rest) \<Rightarrow> (Suc count, bytes @ rest)
      else write_env buf_size p pairs)"

definition conreq_tail :: "os_info \<Rightarrow> byte list" where
  "conreq_tail os =
     net16 SQLI_TAG_ENV_INFO @ net32 0 @ net32 (os_pid os) @ net32 0 @
     counted_nul (case os_hostname os of None \<Rightarrow> ''localhost'' | Some name \<Rightarrow> name) @ net16 0 @
     counted_nul (case os_cwd os of None \<Rightarrow> ''.'' | Some path \<Rightarrow> path) @
     net16 SQLI_TAG_APP_NAME @ net16 (10 + length ''libsqli'' + 1) @ net32 0 @ net32 0 @ counted_nul ''libsqli'' @
     net16 SQLI_TAG_END"

text \<open>
  The bytes that are written from the start of the buffer; none is a return value of zero. Only the size before
  the environment variables is compared with that of the buffer.
\<close>

definition sqli_asc_encode_conreq :: "os_info \<Rightarrow> login \<Rightarrow> nat \<Rightarrow> string option \<Rightarrow> byte list" where
  "sqli_asc_encode_conreq os lg buf_size transport =
     (if buf_size < 64 then []
      else
        let head = conreq_head lg transport
        in case write_env buf_size (length head + 2) (env_pairs lg) of
             (count, bytes) \<Rightarrow> head @ net16 count @ bytes @ conreq_tail os)"

section \<open>Base64\<close>

text \<open>The alphabet of the server, with dot and underscore at the end.\<close>

definition sqli_b64_alpha :: string where
  "sqli_b64_alpha = ''ABCDEFGHIJKLMNOPQRSTUVWXYZabcdefghijklmnopqrstuvwxyz0123456789._''"

definition b64_char :: "nat \<Rightarrow> byte" where
  "b64_char n = u8 (of_char (sqli_b64_alpha ! n))"

text \<open>
  The loop from position \<open>out\<close> of a buffer of \<open>dst_size\<close> bytes; \<open>None\<close> when there is no room. The two operands of
  each \<open>|\<close> have no bit in common.
\<close>

fun b64_loop :: "nat \<Rightarrow> nat \<Rightarrow> byte list \<Rightarrow> byte list option" where
  "b64_loop dst_size out (a # b # c # src) =
     (if out + 4 \<ge> dst_size then None
      else map_option (\<lambda>rest.
        [b64_char (unat a div 4), b64_char (unat a mod 4 * 16 + unat b div 16),
         b64_char (unat b mod 16 * 4 + unat c div 64), b64_char (unat c mod 64)] @ rest)
        (b64_loop dst_size (out + 4) src))"
| "b64_loop dst_size out [a, b] =
     (if out + 3 \<ge> dst_size then None
      else Some [b64_char (unat a div 4), b64_char (unat a mod 4 * 16 + unat b div 16), b64_char (unat b mod 16 * 4)])"
| "b64_loop dst_size out [a] =
     (if out + 3 \<ge> dst_size then None else Some [b64_char (unat a div 4), b64_char (unat a mod 4 * 16)])"
| "b64_loop dst_size out [] = Some []"

definition sqli_b64_encode :: "byte list \<Rightarrow> nat \<Rightarrow> byte list" where
  "sqli_b64_encode src dst_size = (case b64_loop dst_size 0 src of None \<Rightarrow> [] | Some bytes \<Rightarrow> bytes)"

section \<open>The preamble of a Unix socket\<close>

text \<open>\<open>%-<n>s\<close>\<close>

definition padded_right :: "nat \<Rightarrow> string \<Rightarrow> string" where
  "padded_right n s = s @ replicate (n - length s) CHR '' ''"

definition legacy_style :: "login \<Rightarrow> bool" where
  "legacy_style lg \<longleftrightarrow> lg_username lg \<noteq> ''informix''"

definition preamble_text :: "login \<Rightarrow> string \<times> string" where
  "preamble_text lg =
     (let dl = (if lg_db_locale lg \<noteq> [] then lg_db_locale lg else ''en_US.utf8'');
          client_locale_out = (if lg_client_locale lg \<noteq> [] then lg_client_locale lg else dl)
      in (''sqlexec '' @ padded_right (if legacy_style lg then 6 else 9) (lg_username lg) @ '' 9.240 serial -p -fIEEEI '',
          ''DBPATH=//'' @ lg_server lg @ '' CLIENT_LOCALE='' @ client_locale_out @ '' NODEFDAC=no CLNT_PAM_CAPABLE=1 '' @
          (if legacy_style lg then ''DB_LOCALE='' @ dl @ '' '' else [])))"

text \<open>
  The binary part is written step by step into an array of 512 bytes: each step says how much room it asks for
  and what it writes.
\<close>

fun emit_all :: "(nat \<times> byte list) list \<Rightarrow> byte list \<Rightarrow> byte list option" where
  "emit_all [] body = Some body"
| "emit_all ((need, bytes) # steps) body = (if length body + need \<ge> 512 then None else emit_all steps (body @ bytes))"

definition wb16 :: "nat \<Rightarrow> nat \<times> byte list" where
  "wb16 v = (2, net16 v)"

definition ipc_steps :: "os_info \<Rightarrow> login \<Rightarrow> (nat \<times> byte list) list" where
  "ipc_steps os lg =
     (let srv = lg_server lg;
          hostname = (case os_hostname os of None \<Rightarrow> [] | Some name \<Rightarrow> name);
          cwd = (case os_cwd os of None \<Rightarrow> ''.'' | Some path \<Rightarrow> path);
          app = os_app_path os; al = length app
      in [wb16 0x006D, wb16 0, wb16 0x003D, (10, fixed_field 10 ''on''),
          wb16 0x003D, (14, fixed_field 10 ''ipcstr''), wb16 1, wb16 0,
          wb16 0x013C, wb16 0, wb16 0,
          (16, replicate 4 0 @ fixed_field 12 ''sqlexec''),
          wb16 5, (4, fixed_field 5 ''sqli''),
          wb16 6, wb16 0, wb16 3,
          wb16 (length srv + 1), (length srv, string_bytes srv @ [0]),
          wb16 0x006B, (12, net32 0 @ net32 (os_pid os) @ net32 0),
          wb16 (length hostname + 1), (length hostname + 3, string_bytes hostname @ [0, 0, 0]),
          wb16 (length cwd + 1), (length cwd, string_bytes cwd @ [0]),
          wb16 0x006E, wb16 4, (4, [0, 0, 0, 2]),
          wb16 0x0074, wb16 (4 + 4 + 2 + al + 1), wb16 0, wb16 (if legacy_style lg then 0x03E8 else 0x03E7),
          (4, [0, 0] @ (if legacy_style lg then [0x03, 0xE8] else [3, 0xDD])),
          wb16 (al + 1), (al + 1, string_bytes app @ [0]),
          wb16 0x007F])"

text \<open>The bytes of the preamble, or none when something does not fit.\<close>

definition sqli_asc_encode_ipc_preamble :: "os_info \<Rightarrow> login \<Rightarrow> nat \<Rightarrow> byte list" where
  "sqli_asc_encode_ipc_preamble os lg buf_size =
     (let (product, variables) = preamble_text lg; n = length product; m = length variables
      in if buf_size < 512 \<or> n \<ge> buf_size - 10 \<or> m \<ge> buf_size - (10 + n) then []
         else case emit_all (ipc_steps os lg) [] of
           None \<Rightarrow> []
         | Some body \<Rightarrow>
             let p = 10 + n + m + 1; b64 = sqli_b64_encode body (buf_size - p)
             in if b64 = [] \<or> p + length b64 + 1 \<ge> buf_size then []
                else
                  let rest_len = p + length b64 + 1 - 4;
                      magic = sqli_b64_encode (net16 rest_len @ [0x01, 0x3D, 0, 0]) 9
                  in if length magic \<noteq> 8 then []
                     else string_bytes ''sq'' @ magic @ string_bytes (product @ variables @ '':'') @ b64 @ [0])"

end
