(* ===== verification/AscFacts.thy ===== *)
theory AscFacts
  imports Asc Reader
begin

text \<open>
  What the server reads from the connection requests. A message is described by its items; a reader of items
  inverts every writer that follows the description.
\<close>

section \<open>Messages by their items\<close>

text \<open>Bytes that must be there, a counted string with its NUL, or a number of bytes.\<close>

datatype item = Expect "byte list" | Counted | Fixed nat

fun read_item :: "item \<Rightarrow> byte list \<Rightarrow> (byte list list \<times> byte list) option" where
  "read_item (Expect xs) bs =
     Option.bind (take_bytes (length xs) bs) (\<lambda>(b, bs). if b = xs then Some ([], bs) else None)"
| "read_item Counted bs =
     Option.bind (get_number 2 bs) (\<lambda>(n, bs).
     Option.bind (take_bytes n bs) (\<lambda>(b, bs). if b \<noteq> [] \<and> last b = 0 then Some ([butlast b], bs) else None))"
| "read_item (Fixed n) bs = map_option (map_prod (\<lambda>b. [b]) id) (take_bytes n bs)"

fun read_items :: "item list \<Rightarrow> byte list \<Rightarrow> (byte list list \<times> byte list) option" where
  "read_items [] bs = Some ([], bs)"
| "read_items (i # is) bs =
     Option.bind (read_item i bs) (\<lambda>(xs, bs). map_option (map_prod ((@) xs) id) (read_items is bs))"

text \<open>A counted string that its length and the limit of the writer do not cut off.\<close>

lemma read_counted_nul [simp]:
  assumes "length s \<le> 256"
  shows "read_item Counted (counted_nul s @ ys) = Some ([string_bytes s], ys)"
proof -
  have "take_bytes (length s + 1) ((wstr s @ [0]) @ ys) = Some (wstr s @ [0], ys)"
    using assms by (intro take_bytes_exact) (simp add: wstr_def string_bytes_def)
  then show ?thesis using assms by (simp add: counted_nul_def wstr_def)
qed

lemma read_expect [simp]: "read_item (Expect xs) (xs @ ys) = Some ([], ys)"
  by simp

lemma read_fixed [simp]: "length xs = n \<Longrightarrow> read_item (Fixed n) (xs @ ys) = Some ([xs], ys)"
  by (simp add: take_bytes_exact)

declare read_item.simps [simp del]

definition bytes_string :: "byte list \<Rightarrow> string" where
  "bytes_string bs = map (\<lambda>b. char_of (unat b)) bs"

lemma bytes_string_inverse [simp]: "bytes_string (string_bytes s) = s"
  by (simp add: bytes_string_def string_bytes_def unat_u8 comp_def)

lemma length_string_bytes [simp]: "length (string_bytes s) = length s"
  by (simp add: string_bytes_def)

lemma length_fixed_field [simp]: "length s \<le> n \<Longrightarrow> length (fixed_field n s) = n"
  by (simp add: fixed_field_def)

lemma length_counted_nul: "length (counted_nul s) = 3 + min 256 (length s)"
  by (simp add: counted_nul_def wstr_def)

section \<open>The request of a TCP connection\<close>

text \<open>The items of a request up to the count of the variables, and after the variables.\<close>

definition head_items :: "item list" where
  "head_items =
     [Expect (net16 SQLI_TAG_ASC_BINARY), Expect (net16 SQLI_TAG_VERSION_CAPS), Expect (net32 SQLI_PROTO_VERSION), Counted,
      Expect (net16 SQLI_TAG_PRODUCT_TYPE), Fixed 12, Counted, Counted, Counted, Fixed 4, Fixed 4, Fixed 4, Fixed 2,
      Counted, Counted, Fixed 8, Expect (net32 SQLI_PROTO_VERSION), Fixed 8, Fixed 4,
      Expect (net16 SQLI_TAG_STMT_OPTIONS), Fixed 2, Fixed 4,
      Counted, Fixed 2, Fixed 2, Fixed 2, Fixed 2, Fixed 2, Expect (net16 SQLI_TAG_ENV_VARS)]"

definition tail_items :: "item list" where
  "tail_items =
     [Expect (net16 SQLI_TAG_ENV_INFO), Fixed 4, Fixed 4, Fixed 4, Counted, Fixed 2, Counted,
      Expect (net16 SQLI_TAG_APP_NAME), Fixed 2, Fixed 4, Fixed 4, Counted, Expect (net16 SQLI_TAG_END)]"

text \<open>A variable is a name and a value.\<close>

fun read_env :: "nat \<Rightarrow> byte list \<Rightarrow> ((string \<times> string) list \<times> byte list) option" where
  "read_env 0 bs = Some ([], bs)"
| "read_env (Suc n) bs =
     Option.bind (read_items [Counted, Counted] bs) (\<lambda>(xs, bs).
       map_option (map_prod ((#) (bytes_string (xs ! 0), bytes_string (xs ! 1))) id) (read_env n bs))"

record connection_request =
  rq_user :: string
  rq_password :: string
  rq_transport :: string
  rq_server :: string
  rq_env :: "(string \<times> string) list"
  rq_pid :: nat
  rq_host :: string
  rq_cwd :: string
  rq_app :: string

definition read_conreq :: "byte list \<Rightarrow> (connection_request \<times> byte list) option" where
  "read_conreq bs =
     Option.bind (read_items head_items bs) (\<lambda>(h, bs).
     Option.bind (get_number 2 bs) (\<lambda>(count, bs).
     Option.bind (read_env count bs) (\<lambda>(vars, bs).
     Option.bind (read_items tail_items bs) (\<lambda>(t, bs).
       Some (\<lparr>rq_user = bytes_string (h ! 9), rq_password = bytes_string (h ! 10),
         rq_transport = bytes_string (takeWhile (\<lambda>b. b \<noteq> 0) (h ! 12)), rq_server = bytes_string (h ! 16), rq_env = vars,
         rq_pid = be_value 256 (map unat (t ! 1)), rq_host = bytes_string (t ! 3), rq_cwd = bytes_string (t ! 5),
         rq_app = bytes_string (t ! 9)\<rparr>, bs)))))"

lemma read_head:
  assumes "length (lg_username lg) \<le> 256" "length (lg_password lg) \<le> 256" "length (lg_server lg) \<le> 256"
    and "length name \<le> 7"
  shows "read_items head_items (conreq_head lg (Some name) @ ys) =
    Some ([string_bytes ''IEEEM'', fixed_field 12 ''sqlexec'', string_bytes ''9.280'', string_bytes ''RDS#R000000'',
      string_bytes ''sqli'', net32 SQLI_CLIENT_CAP_1, net32 0, net32 0, net16 1, string_bytes (lg_username lg),
      string_bytes (lg_password lg), fixed_field 8 ''ol'', fixed_field 8 name, net32 1, net16 11, net32 3,
      string_bytes (lg_server lg), net16 0, net16 0, net16 0, net16 0, net16 0], ys)"
  using assms by (simp add: head_items_def conreq_head_def)

text \<open>What the request says of the machine and the directory.\<close>

definition host_told :: "os_info \<Rightarrow> string" where
  "host_told os = (case os_hostname os of None \<Rightarrow> ''localhost'' | Some name \<Rightarrow> name)"

definition cwd_told :: "os_info \<Rightarrow> string" where
  "cwd_told os = (case os_cwd os of None \<Rightarrow> ''.'' | Some path \<Rightarrow> path)"

lemma read_tail:
  assumes "length (host_told os) \<le> 256" "length (cwd_told os) \<le> 256"
  shows "read_items tail_items (conreq_tail os @ ys) =
    Some ([net32 0, net32 (os_pid os), net32 0, string_bytes (host_told os), net16 0, string_bytes (cwd_told os), net16 18,
      net32 0, net32 0, string_bytes ''libsqli''], ys)"
  using assms unfolding host_told_def cwd_told_def by (simp add: tail_items_def conreq_tail_def)

text \<open>The variables all fit, if the largest of them leaves room for the others.\<close>

definition env_size :: "(string \<times> string) list \<Rightarrow> nat" where
  "env_size pairs = sum_list (map (\<lambda>(name, value). length name + length value + 6) pairs)"

definition short_env :: "(string \<times> string) list \<Rightarrow> bool" where
  "short_env pairs \<longleftrightarrow> list_all (\<lambda>(name, value). length name \<le> 256 \<and> length value \<le> 256) pairs"

lemma write_env_all:
  assumes "short_env pairs" "p + env_size pairs < buf_size"
  shows "write_env buf_size p pairs = (length pairs, concat (map (\<lambda>(name, value). counted_nul name @ counted_nul value) pairs))"
  using assms
proof (induction pairs arbitrary: p)
  case (Cons pair pairs)
  obtain name v where pair: "pair = (name, v)" by fastforce
  then have "length (counted_nul name @ counted_nul v) = length name + length v + 6"
    using Cons.prems(1) by (simp add: short_env_def length_counted_nul)
  then show ?case
    using Cons.IH [of "p + (length name + length v + 6)"] Cons.prems
    by (simp add: pair env_size_def short_env_def Let_def)
qed (simp add: env_size_def)

lemma read_env_written:
  "short_env pairs \<Longrightarrow>
   read_env (length pairs) (concat (map (\<lambda>(name, value). counted_nul name @ counted_nul value) pairs) @ ys) = Some (pairs, ys)"
  by (induction pairs) (auto simp: short_env_def)

lemma length_env_written:
  "short_env pairs \<Longrightarrow>
   length (concat (map (\<lambda>(name, value). counted_nul name @ counted_nul value) pairs)) = env_size pairs"
  by (induction pairs) (auto simp: short_env_def env_size_def length_counted_nul)

text \<open>The strings fit the buffers of the connection; host names have at most 64 bytes on Linux.\<close>

definition login_ok :: "login \<Rightarrow> bool" where
  "login_ok lg \<longleftrightarrow> length (lg_username lg) < 256 \<and> length (lg_password lg) < 256 \<and> length (lg_server lg) < 256 \<and>
     length (lg_client_locale lg) < 256 \<and> length (lg_db_locale lg) < 256"

lemma env_pairs_limits:
  assumes "login_ok lg"
  shows "short_env (env_pairs lg)" "env_size (env_pairs lg) \<le> 614" "length (env_pairs lg) = 6"
  using assms by (auto simp: login_ok_def short_env_def env_size_def env_pairs_def)

lemma length_head:
  "length name \<le> 7 \<Longrightarrow> login_ok lg \<Longrightarrow>
   length (conreq_head lg (Some name)) = 126 + length (lg_username lg) + length (lg_password lg) + length (lg_server lg)"
  by (simp add: conreq_head_def length_counted_nul login_ok_def)


lemma fixed_field_text:
  assumes "CHR 0x00 \<notin> set s" "length s < n"
  shows "takeWhile (\<lambda>b. b \<noteq> 0) (fixed_field n s) = string_bytes s"
proof -
  have "u8 (of_char c) \<noteq> 0" if "c \<in> set s" for c
  proof
    assume "u8 (of_char c) = 0"
    then have "(of_char c :: nat) = of_char (CHR 0x00)" using unat_u8 [of "of_char c"] by simp
    then show False using assms(1) that by (metis of_char_eq_iff)
  qed
  then have "\<And>b. b \<in> set (string_bytes s) \<Longrightarrow> b \<noteq> 0" by (auto simp: string_bytes_def)
  from takeWhile_append2 [of "string_bytes s" "\<lambda>b. b \<noteq> 0", OF this]
  show ?thesis using assms(2) by (cases "n - length s") (simp_all add: fixed_field_def)
qed

lemma length_tail:
  "length (conreq_tail os) = 46 + min 256 (length (host_told os)) + min 256 (length (cwd_told os))"
  by (simp add: conreq_tail_def length_counted_nul host_told_def cwd_told_def)

lemma conreq_eq:
  assumes "login_ok lg" "length name \<le> 7" "2048 \<le> buf_size"
  shows "sqli_asc_encode_conreq os lg buf_size (Some name) =
    conreq_head lg (Some name) @ net16 6 @
    concat (map (\<lambda>(name, value). counted_nul name @ counted_nul value) (env_pairs lg)) @ conreq_tail os"
proof -
  have "length (conreq_head lg (Some name)) + 2 + env_size (env_pairs lg) < buf_size"
    using assms length_head [OF assms(2,1)] env_pairs_limits(2) [OF assms(1)] by (auto simp: login_ok_def)
  then show ?thesis
    using write_env_all [OF env_pairs_limits(1) [OF assms(1)]] env_pairs_limits(3) [OF assms(1)] assms(3)
    by (simp add: sqli_asc_encode_conreq_def Let_def)
qed

lemma conreq_fits:
  assumes "login_ok lg" "length (host_told os) \<le> 64" "length (cwd_told os) \<le> 256" "length transport \<le> 7" "2048 \<le> buf_size"
  shows "length (sqli_asc_encode_conreq os lg buf_size (Some transport)) \<le> 2048"
  using assms(1-3) env_pairs_limits(2) [OF assms(1)] length_head [OF assms(4,1)]
  unfolding conreq_eq [OF assms(1,4,5)] by (simp add: length_env_written [OF env_pairs_limits(1) [OF assms(1)]] length_tail login_ok_def)

text \<open>
  C18. The connection request fits the buffer that \<open>sqli_connect\<close> has for it, and the server reads from it the
  user, the password, the server, the six variables, the process, the machine and the directory that were given.
  The strings are those that fit the connection; the name of the machine has at most 64 bytes, as on Linux, and the
  path of the directory at most 256.
\<close>

theorem conreq_round_trip:
  assumes "login_ok lg" "length (host_told os) \<le> 64" "length (cwd_told os) \<le> 256" "os_pid os < 2 ^ 32"
    and "length transport \<le> 7" "CHR 0x00 \<notin> set transport" "2048 \<le> buf_size"
  shows "length (sqli_asc_encode_conreq os lg buf_size (Some transport)) \<le> 2048 \<and>
    read_conreq (sqli_asc_encode_conreq os lg buf_size (Some transport) @ rest) =
      Some (\<lparr>rq_user = lg_username lg, rq_password = lg_password lg, rq_transport = transport, rq_server = lg_server lg,
        rq_env = env_pairs lg, rq_pid = os_pid os, rq_host = host_told os, rq_cwd = cwd_told os, rq_app = ''libsqli''\<rparr>, rest)"
proof
  note eq = conreq_eq [OF assms(1,5,7)] and env = env_pairs_limits [OF assms(1)]
  show "length (sqli_asc_encode_conreq os lg buf_size (Some transport)) \<le> 2048"
    by (rule conreq_fits [OF assms(1-3,5,7)])
  have "takeWhile (\<lambda>b. b \<noteq> 0) (fixed_field 8 transport) = string_bytes transport"
    using assms(5,6) by (intro fixed_field_text) auto
  then show "read_conreq (sqli_asc_encode_conreq os lg buf_size (Some transport) @ rest) =
      Some (\<lparr>rq_user = lg_username lg, rq_password = lg_password lg, rq_transport = transport, rq_server = lg_server lg,
        rq_env = env_pairs lg, rq_pid = os_pid os, rq_host = host_told os, rq_cwd = cwd_told os, rq_app = ''libsqli''\<rparr>, rest)"
    using assms read_env_written [OF env(1), unfolded env(3)]
    unfolding eq read_conreq_def
    by (simp add: read_head read_tail login_ok_def net32_value)
qed

text \<open>A client in a directory of its own, with every other setting left out.\<close>

definition sample_login :: login where
  "sample_login = \<lparr>lg_server = ''ol_srv'', lg_hostname = ''db'', lg_service = ''9088'', lg_database = ''stores'',
     lg_username = ''ann'', lg_password = ''pw'', lg_client_locale = [], lg_db_locale = []\<rparr>"

definition sample_os :: os_info where
  "sample_os = \<lparr>os_pid = 4711, os_hostname = Some ''box'', os_cwd = Some ''/home/ann'', os_app_path = ''/bin/app''\<rparr>"

lemma conreq_round_trip_witness:
  "read_conreq (sqli_asc_encode_conreq sample_os sample_login 2048 (Some ''tlitcp'') @ [9]) =
     Some (\<lparr>rq_user = ''ann'', rq_password = ''pw'', rq_transport = ''tlitcp'', rq_server = ''ol_srv'',
       rq_env = env_pairs sample_login, rq_pid = 4711, rq_host = ''box'', rq_cwd = ''/home/ann'', rq_app = ''libsqli''\<rparr>, [9])"
  using conreq_round_trip [of sample_login sample_os "''tlitcp''" 2048 "[9]"]
  by (simp add: sample_login_def sample_os_def login_ok_def host_told_def cwd_told_def)

section \<open>Where the limits of the request are missed\<close>

text \<open>
  The length before a string counts all of it, but at most 256 characters follow: after a longer path of the
  directory the server loses its place in the message.
\<close>

lemma long_string_misplaces:
  assumes "256 < length s" "length s < 65535"
  shows "get_number 2 (counted_nul s) = Some (length s + 1, wstr s @ [0]) \<and> length (wstr s @ [0]) < length s + 1"
  using assms by (simp add: counted_nul_def wstr_def)

text \<open>Nothing but the variables is checked against the size of the buffer: with a long name of the machine the request is larger.\<close>

lemma request_exceeds_buffer:
  assumes "lg = \<lparr>lg_server = replicate 255 CHR ''s'', lg_hostname = [], lg_service = [], lg_database = [],
      lg_username = replicate 255 CHR ''u'', lg_password = replicate 255 CHR ''p'',
      lg_client_locale = replicate 255 CHR ''l'', lg_db_locale = replicate 255 CHR ''l''\<rparr>"
    and "os = \<lparr>os_pid = 1, os_hostname = Some (replicate 254 CHR ''h''), os_cwd = Some (replicate 256 CHR ''d''), os_app_path = []\<rparr>"
  shows "login_ok lg \<and> 2048 < length (sqli_asc_encode_conreq os lg 2048 (Some ''tlitcp''))"
proof
  show ok: "login_ok lg" by (simp add: assms(1) login_ok_def)
  have "env_size (env_pairs lg) = 614" by (simp add: assms(1) env_size_def env_pairs_def)
  then show "2048 < length (sqli_asc_encode_conreq os lg 2048 (Some ''tlitcp''))"
    using length_env_written [OF env_pairs_limits(1) [OF ok]] length_head [of "''tlitcp''", OF _ ok]
    by (subst conreq_eq [OF ok]) (simp_all add: length_tail host_told_def cwd_told_def, simp add: assms)
qed

end
