(* ===== verification/IpcFacts.thy ===== *)
theory IpcFacts
  imports AscFacts
begin

text \<open>The preamble of a connection through a Unix socket: decoding of its base64 parts, and what the server reads.\<close>

section \<open>Decoding base64\<close>

definition b64_index :: "byte \<Rightarrow> nat" where
  "b64_index b = length (takeWhile (\<lambda>c. c \<noteq> char_of (unat b)) sqli_b64_alpha)"

text \<open>Four characters are three bytes, three are two, two are one.\<close>

fun b64_decode :: "byte list \<Rightarrow> byte list" where
  "b64_decode (w # x # y # z # bs) =
     [u8 (b64_index w * 4 + b64_index x div 16), u8 (b64_index x mod 16 * 16 + b64_index y div 4),
      u8 (b64_index y mod 4 * 64 + b64_index z)] @ b64_decode bs"
| "b64_decode [w, x, y] = [u8 (b64_index w * 4 + b64_index x div 16), u8 (b64_index x mod 16 * 16 + b64_index y div 4)]"
| "b64_decode [w, x] = [u8 (b64_index w * 4 + b64_index x div 16)]"
| "b64_decode _ = []"

lemma takeWhile_nth_distinct: "distinct xs \<Longrightarrow> n < length xs \<Longrightarrow> length (takeWhile (\<lambda>c. c \<noteq> xs ! n) xs) = n"
proof (induction xs arbitrary: n)
  case (Cons x xs)
  then show ?case by (cases n) auto
qed simp

lemma b64_index_char [simp]: "n < 64 \<Longrightarrow> b64_index (b64_char n) = n"
proof -
  have "distinct sqli_b64_alpha" "length sqli_b64_alpha = 64" by (simp_all add: sqli_b64_alpha_def)
  then show "n < 64 \<Longrightarrow> b64_index (b64_char n) = n"
    by (simp add: b64_index_def b64_char_def unat_u8 takeWhile_nth_distinct)
qed

text \<open>The bits of three bytes, regrouped by six.\<close>

lemma byte_parts [simp]: "unat (b :: byte) div 16 < 16" "unat (b :: byte) div 64 < 4" "unat (b :: byte) div 4 < 64"
  by (rule less_mult_imp_div_less, rule less_le_trans [OF unat_byte_less], simp)+

lemma sextets [simp]:
  fixes a b c :: byte
  shows "unat a mod 4 * 16 + unat b div 16 < 64" "unat b mod 16 * 4 + unat c div 64 < 64" "unat a mod 4 * 16 < 64"
    "unat b mod 16 * 4 < 64"
proof -
  have "unat a mod 4 < 4" "unat b mod 16 < 16" by simp_all
  then show "unat a mod 4 * 16 + unat b div 16 < 64" "unat b mod 16 * 4 + unat c div 64 < 64" "unat a mod 4 * 16 < 64"
      "unat b mod 16 * 4 < 64"
    using byte_parts(1) [of b] byte_parts(2) [of c] by linarith+
qed

lemma b64_round_trip: "b64_loop n out src = Some bytes \<Longrightarrow> b64_decode bytes = src"
  by (induction n out src arbitrary: bytes rule: b64_loop.induct) (auto split: if_splits)

lemma b64_length: "b64_loop n out src = Some bytes \<Longrightarrow> length bytes \<le> n - out \<and> (bytes = [] \<longleftrightarrow> src = [])"
  by (induction n out src arbitrary: bytes rule: b64_loop.induct) (auto split: if_splits)

lemma b64_room:
  "out + 4 * ((length src + 2) div 3) < n \<Longrightarrow>
   \<exists>bytes. b64_loop n out src = Some bytes \<and> length bytes \<le> 4 * ((length src + 2) div 3)"
proof (induction n out src rule: b64_loop.induct)
  case (1 n out a b c src)
  have eq: "(length (a # b # c # src) + 2) div 3 = (length src + 2) div 3 + 1" by simp
  then have "out + 4 + 4 * ((length src + 2) div 3) < n" using 1(2) by linarith
  moreover from this have "\<not> n \<le> out + 4" by linarith
  ultimately show ?case using 1(1) eq by fastforce
qed auto

lemma encode_decode: "sqli_b64_encode src n \<noteq> [] \<Longrightarrow> b64_decode (sqli_b64_encode src n) = src"
  by (auto simp: sqli_b64_encode_def b64_round_trip split: option.splits)

section \<open>The binary part\<close>

lemma emit_all_written:
  "emit_all steps body = Some b \<Longrightarrow>
   b = body @ concat (map snd steps) \<and> (\<forall>step \<in> set steps. fst step < 512)"
  by (induction steps body rule: emit_all.induct) (auto split: if_splits)

definition ipc_items :: "item list" where
  "ipc_items =
     [Fixed 67, Counted, Expect (net16 0x006B), Fixed 4, Fixed 4, Fixed 4, Counted, Fixed 2, Counted,
      Expect (net16 0x006E), Fixed 2, Fixed 2, Fixed 2, Expect (net16 0x0074), Fixed 2, Fixed 2, Fixed 2, Fixed 2, Fixed 2,
      Counted, Expect (net16 0x007F)]"

text \<open>The server, the process, the machine, the directory and the program.\<close>

definition read_ipc_body :: "byte list \<Rightarrow> (string \<times> nat \<times> string \<times> string \<times> string) option" where
  "read_ipc_body bs =
     Option.bind (read_items ipc_items bs) (\<lambda>(xs, bs).
       if bs = [] then Some (bytes_string (xs ! 1), be_value 256 (map unat (xs ! 3)), bytes_string (xs ! 5),
         bytes_string (xs ! 7), bytes_string (xs ! 16)) else None)"

lemma read_counted [simp]:
  "length s < 512 \<Longrightarrow> read_item Counted (net16 (Suc (length s)) @ string_bytes s @ 0 # ys) = Some ([string_bytes s], ys)"
  using take_bytes_exact [of "string_bytes s @ [0]" "Suc (length s)" ys] by (simp add: read_item.simps)

lemma read_fixed_67:
  "read_item (Fixed 67) (net16 a @ net16 b @ net16 c @ fixed_field 10 ''on'' @ net16 d @ fixed_field 10 ''ipcstr'' @
     net16 e @ net16 f @ net16 g @ net16 h @ net16 i @ replicate 4 0 @ fixed_field 12 ''sqlexec'' @ net16 j @
     fixed_field 5 ''sqli'' @ net16 k @ net16 l @ net16 m @ ys) =
   Some ([net16 a @ net16 b @ net16 c @ fixed_field 10 ''on'' @ net16 d @ fixed_field 10 ''ipcstr'' @
     net16 e @ net16 f @ net16 g @ net16 h @ net16 i @ replicate 4 0 @ fixed_field 12 ''sqlexec'' @ net16 j @
     fixed_field 5 ''sqli'' @ net16 k @ net16 l @ net16 m], ys)"
  using read_fixed [of "net16 a @ net16 b @ net16 c @ fixed_field 10 ''on'' @ net16 d @ fixed_field 10 ''ipcstr'' @
     net16 e @ net16 f @ net16 g @ net16 h @ net16 i @ replicate 4 0 @ fixed_field 12 ''sqlexec'' @ net16 j @
     fixed_field 5 ''sqli'' @ net16 k @ net16 l @ net16 m" 67 ys] by simp

lemma read_pair [simp]: "read_item (Fixed 2) (a # b # ys) = Some ([[a, b]], ys)"
  using read_fixed [of "[a, b]" 2 ys] by simp

lemma read_last [simp]: "read_item (Expect xs) xs = Some ([], [])"
  using read_expect [of xs "[]"] by simp

definition ipc_host :: "os_info \<Rightarrow> string" where
  "ipc_host os = (case os_hostname os of None \<Rightarrow> [] | Some name \<Rightarrow> name)"

lemma read_ipc_written:
  assumes "emit_all (ipc_steps os lg) [] = Some body" "os_pid os < 2 ^ 32"
  shows "read_ipc_body body = Some (lg_server lg, os_pid os, ipc_host os, cwd_told os, os_app_path os)"
proof -
  have b: "body = concat (map snd (ipc_steps os lg))" and limits: "\<forall>step \<in> set (ipc_steps os lg). fst step < 512"
    using emit_all_written [OF assms(1)] by simp_all
  have "length (lg_server lg) < 512" "length (ipc_host os) < 512" "length (cwd_told os) < 512" "length (os_app_path os) < 512"
    using limits by (simp_all add: ipc_steps_def Let_def ipc_host_def cwd_told_def)
  then show ?thesis
    using assms(2) unfolding b ipc_steps_def ipc_host_def [symmetric] cwd_told_def [symmetric] Let_def wb16_def
    by (cases "legacy_style lg") (simp_all add: read_ipc_body_def ipc_items_def read_fixed_67 net32_value)
qed

section \<open>The preamble\<close>

text \<open>
  C19. A preamble that is returned fits the buffer and is framed for the server: after two letters, eight base64
  characters that decode to the number of bytes after the first four and to the mark of the protocol; then the text
  with the user and the variables, a colon, the binary part in base64, and a NUL. From the binary part the server
  reads the server name, the process, the machine, the directory and the program that were given.
\<close>

theorem ipc_preamble_round_trip:
  assumes "sqli_asc_encode_ipc_preamble os lg buf_size = preamble" "preamble \<noteq> []" "os_pid os < 2 ^ 32"
  shows "\<exists>magic b64. preamble = string_bytes ''sq'' @ magic @
      string_bytes (fst (preamble_text lg) @ snd (preamble_text lg) @ '':'') @ b64 @ [0] \<and>
    length magic = 8 \<and> b64_decode magic = net16 (length preamble - 4) @ [0x01, 0x3D, 0, 0] \<and>
    read_ipc_body (b64_decode b64) = Some (lg_server lg, os_pid os, ipc_host os, cwd_told os, os_app_path os) \<and>
    length preamble < buf_size"
proof -
  obtain product variables where parts: "preamble_text lg = (product, variables)" by fastforce
  let ?p = "10 + length product + length variables + 1"
  obtain body where body: "emit_all (ipc_steps os lg) [] = Some body"
    using assms(1,2) by (auto simp: sqli_asc_encode_ipc_preamble_def parts Let_def split: if_splits option.splits)
  let ?b64 = "sqli_b64_encode body (buf_size - ?p)"
  let ?magic = "sqli_b64_encode (net16 (?p + length ?b64 + 1 - 4) @ [0x01, 0x3D, 0, 0]) 9"
  have ok: "?b64 \<noteq> []" "?p + length ?b64 + 1 < buf_size" "length ?magic = 8"
    and eq: "preamble = string_bytes ''sq'' @ ?magic @ string_bytes (product @ variables @ '':'') @ ?b64 @ [0]"
    using assms(1,2) by (auto simp: sqli_asc_encode_ipc_preamble_def parts Let_def body split: if_splits)
  have "length preamble = ?p + length ?b64 + 1" using ok(3) by (simp add: eq)
  moreover have "?magic \<noteq> []" using ok(3) by auto
  ultimately show ?thesis
    using ok eq encode_decode [of "net16 (?p + length ?b64 + 1 - 4) @ [0x01, 0x3D, 0, 0]" 9] encode_decode [OF ok(1)]
      read_ipc_written [OF body assms(3)]
    by (intro exI [of _ ?magic] exI [of _ ?b64]) (simp add: parts)
qed

lemma sample_preamble: "sqli_asc_encode_ipc_preamble sample_os sample_login 1024 \<noteq> []"
proof -
  have "emit_all (ipc_steps sample_os sample_login) [] \<noteq> None"
    by (simp add: ipc_steps_def Let_def wb16_def sample_os_def sample_login_def legacy_style_def)
  then obtain body where body: "emit_all (ipc_steps sample_os sample_login) [] = Some body" by blast
  have size: "length body < 200 \<and> body \<noteq> []"
    using emit_all_written [OF body]
    by (simp add: ipc_steps_def Let_def wb16_def sample_os_def sample_login_def legacy_style_def)
  have room: "4 * ((length body + 2) div 3) < 1024 - (10 + n + m + 1)" if "n < 60" "m < 120" for n m
    using that size by linarith
  have b64: "\<exists>b64. b64_loop (1024 - (10 + n + m + 1)) 0 body = Some b64 \<and> b64 \<noteq> [] \<and> length b64 < 300"
    if "n < 60" "m < 120" for n m
  proof -
    obtain bytes where bytes: "b64_loop (1024 - (10 + n + m + 1)) 0 body = Some bytes" "length bytes \<le> 4 * ((length body + 2) div 3)"
      using b64_room [of 0 body "1024 - (10 + n + m + 1)"] room [of n m] \<open>n < 60\<close> \<open>m < 120\<close> by auto
    moreover have "bytes \<noteq> []" using b64_length [OF bytes(1)] size by simp
    moreover have "length bytes < 300" using bytes(2) size by linarith
    ultimately show ?thesis by blast
  qed
  obtain product variables where parts: "preamble_text sample_login = (product, variables)" by fastforce
  moreover from this have "length product < 60 \<and> length variables < 120"
    by (auto simp: preamble_text_def sample_login_def legacy_style_def padded_right_def)
  moreover have "length (sqli_b64_encode (net16 k @ [0x01, 0x3D, 0, 0]) 9) = 8" for k
    by (simp add: sqli_b64_encode_def net16_def)
  ultimately show ?thesis
    using b64 [of "length product" "length variables"] body
    by (auto simp: sqli_asc_encode_ipc_preamble_def parts Let_def sqli_b64_encode_def)
qed

lemma ipc_preamble_round_trip_witness:
  "\<exists>b64. length b64 < 1024 \<and>
     read_ipc_body (b64_decode b64) = Some (''ol_srv'', 4711, ''box'', ''/home/ann'', ''/bin/app'')"
proof -
  have "os_pid sample_os < 2 ^ 32" by (simp add: sample_os_def)
  moreover have "lg_server sample_login = ''ol_srv''" "os_pid sample_os = 4711" "ipc_host sample_os = ''box''"
      "cwd_told sample_os = ''/home/ann''" "os_app_path sample_os = ''/bin/app''"
    by (simp_all add: sample_login_def sample_os_def ipc_host_def cwd_told_def)
  ultimately obtain magic b64 where frame: "sqli_asc_encode_ipc_preamble sample_os sample_login 1024 = string_bytes ''sq'' @ magic @
        string_bytes (fst (preamble_text sample_login) @ snd (preamble_text sample_login) @ '':'') @ b64 @ [0]"
      "length (sqli_asc_encode_ipc_preamble sample_os sample_login 1024) < 1024"
      "read_ipc_body (b64_decode b64) = Some (''ol_srv'', 4711, ''box'', ''/home/ann'', ''/bin/app'')"
    using ipc_preamble_round_trip [OF refl sample_preamble] by metis
  then have "length b64 < 1024" by simp
  then show ?thesis using frame(3) by blast
qed

end
