(* ===== verification/Handshake.thy ===== *)
theory Handshake
  imports Asc Query Pool
begin

text \<open>
  Opening and closing a connection (src/src/sqli_handshake.c): the login exchange over TCP or a Unix socket, the
  exchange of capabilities, PAM authentication, session information, and opening the database. Reads go to the socket
  directly, without the read buffer. The operating system, the outcome of opening the socket and of the TLS
  handshake are inputs. The log, the timing output and the setup of the character set decoder are left out.
\<close>

record capabilities =
  cap_1 :: int
  has_pam :: bool
  extended_describe :: bool
  large_tuple_mode :: bool
  long_row_id :: bool
  remove_64k_limit :: bool

text \<open>
  A connection with the parts of \<open>struct sqli_conn\<close> that the handshake works on. The connection itself, its
  socket and the flag of a discarded connection are in the peer; the other two lifecycle flags are here.
\<close>

record client =
  hc_peer :: peer
  hc_login :: login
  hc_caps :: capabilities
  hc_database_open :: bool
  hc_fetch_buf_size :: nat
  hc_pinned :: bool
  hc_released :: bool

text \<open>
  What the environment of a call says: the process, the name of the Unix user, the socket that is opened (negative
  on failure) and whether opening it timed out, where and why the TLS handshake fails if it does, the variable
  \<open>SQLI_FETCH_BUFSIZE\<close>, and whether memory can be allocated.
\<close>

record connect_env =
  cn_os :: os_info
  cn_user :: "string option"
  cn_socket :: int
  cn_timed_out :: bool
  cn_tls :: "(string \<times> string) option"
  cn_fetch_bufsize :: "string option"
  cn_mem :: bool

definition hc_link :: "client \<Rightarrow> link" where
  "hc_link c = p_link (hc_peer c)"

definition hc_conn :: "client \<Rightarrow> sqli_conn" where
  "hc_conn c = k_conn (hc_link c)"

definition upd_conn :: "(sqli_conn \<Rightarrow> sqli_conn) \<Rightarrow> client \<Rightarrow> client" where
  "upd_conn f c = c\<lparr>hc_peer := peer_conn f (hc_peer c)\<rparr>"

abbreviation hs_context :: "string \<Rightarrow> nat \<Rightarrow> client \<Rightarrow> client" where
  "hs_context phase opcode \<equiv> upd_conn (set_error_context phase opcode)"

abbreviation hs_state :: "sqli_conn_state \<Rightarrow> client \<Rightarrow> client" where
  "hs_state state \<equiv> upd_conn (\<lambda>conn. conn\<lparr>c_state := state\<rparr>)"

text \<open>A failure with a message.\<close>

definition hs_fail :: "sqli_status \<Rightarrow> string \<Rightarrow> client \<Rightarrow> 'a fallible \<times> client" where
  "hs_fail rc msg c = (Inl rc, upd_conn (set_error msg) c)"

definition or_error :: "string \<Rightarrow> (client \<Rightarrow> 'a fallible \<times> client) \<Rightarrow> client \<Rightarrow> 'a fallible \<times> client" where
  "or_error msg m c = (case m c of (Inl rc, c) \<Rightarrow> hs_fail rc msg c | (Inr x, c) \<Rightarrow> (Inr x, c))"

section \<open>The socket without its buffer\<close>

text \<open>\<open>sqli_tcp_read\<close> reads all that is asked for, or fails; what came before a failure is lost.\<close>

fun tcp_take :: "nat \<Rightarrow> arrival list \<Rightarrow> byte list option \<times> arrival list" where
  "tcp_take count [] = (if count = 0 then Some [] else None, [])"
| "tcp_take count (a # arrivals) =
     (if count = 0 then (Some [], a # arrivals)
      else case a of
        Bytes bytes \<Rightarrow>
          if bytes = [] then (None, arrivals)
          else if count < length bytes then (Some (take count bytes), Bytes (drop count bytes) # arrivals)
          else (case tcp_take (count - length bytes) arrivals of (got, rest) \<Rightarrow> (map_option ((@) bytes) got, rest))
      | _ \<Rightarrow> (None, arrivals))"

definition with_arrivals :: "arrival list \<Rightarrow> client \<Rightarrow> client" where
  "with_arrivals arrivals c = c\<lparr>hc_peer := (hc_peer c)\<lparr>p_link := (hc_link c)\<lparr>k_arrivals := arrivals\<rparr>\<rparr>\<rparr>"

definition hs_read_exact :: "nat \<Rightarrow> client \<Rightarrow> byte list fallible \<times> client" where
  "hs_read_exact count c =
     (case tcp_take count (k_arrivals (hc_link c)) of
        (None, arrivals) \<Rightarrow> (Inl SQLI_IO_ERROR, with_arrivals arrivals c)
      | (Some bytes, arrivals) \<Rightarrow> (Inr bytes, with_arrivals arrivals c))"

definition hs_read_be16 :: "client \<Rightarrow> nat fallible \<times> client" where
  "hs_read_be16 = and_then (hs_read_exact 2) (\<lambda>bytes c. (Inr (be_value 256 (map unat bytes)), c))"

function hs_drain :: "nat \<Rightarrow> client \<Rightarrow> unit fallible \<times> client" where
  "hs_drain count c =
     (if count = 0 then (Inr (), c)
      else case hs_read_exact (min count 256) c of
        (Inl rc, c) \<Rightarrow> (Inl rc, c)
      | (Inr bytes, c) \<Rightarrow> hs_drain (count - min count 256) c)"
  by pat_completeness auto

termination by (relation "measure fst") auto

declare hs_drain.simps [simp del]

definition hs_send :: "byte list \<Rightarrow> string \<Rightarrow> client \<Rightarrow> unit fallible \<times> client" where
  "hs_send bytes msg c =
     (case peer_send bytes (hc_peer c) of
        (sent, p) \<Rightarrow> if sent then (Inr (), c\<lparr>hc_peer := p\<rparr>) else hs_fail SQLI_IO_ERROR msg (c\<lparr>hc_peer := p\<rparr>))"

section \<open>The answer to the connection request\<close>

definition SQLI_SLTYPE_CONREQ :: nat where "SQLI_SLTYPE_CONREQ = 1"
definition SQLI_SLTYPE_CONACC :: nat where "SQLI_SLTYPE_CONACC = 2"
definition SQLI_SLTYPE_CONREJ :: nat where "SQLI_SLTYPE_CONREJ = 3"
definition SQLI_SLTYPE_REDIRECT :: nat where "SQLI_SLTYPE_REDIRECT = 13"
definition SQLI_SL_PROT_SQLI :: nat where "SQLI_SL_PROT_SQLI = 60"
definition SQLI_SQ_ACK :: nat where "SQLI_SQ_ACK = 128"
definition SQLI_SQ_CHALLENGE :: nat where "SQLI_SQ_CHALLENGE = 129"
definition SQLI_SQ_RESPONSE :: nat where "SQLI_SQ_RESPONSE = 130"
definition SQLI_SQ_ACCEPT :: nat where "SQLI_SQ_ACCEPT = 127"

lemmas sl_defs [limit_defs] = SQLI_SLTYPE_CONREQ_def SQLI_SLTYPE_CONACC_def SQLI_SLTYPE_CONREJ_def SQLI_SLTYPE_REDIRECT_def
  SQLI_SL_PROT_SQLI_def SQLI_SQ_ACK_def SQLI_SQ_CHALLENGE_def SQLI_SQ_RESPONSE_def SQLI_SQ_ACCEPT_def

definition buf_r16 :: "byte list \<Rightarrow> nat \<Rightarrow> nat" where
  "buf_r16 b pos = unat (b ! pos) * 256 + unat (b ! (pos + 1))"

definition buf_r32 :: "byte list \<Rightarrow> nat \<Rightarrow> nat" where
  "buf_r32 b pos = buf_r16 b pos * 65536 + buf_r16 b (pos + 2)"

text \<open>Fields that are skipped; \<open>Inl\<close> is the position from which the rest is scanned when a field is cut off.\<close>

definition skip_fixed :: "byte list \<Rightarrow> nat \<Rightarrow> nat \<Rightarrow> nat + nat" where
  "skip_fixed body n pos = (if pos + n > length body then Inl pos else Inr (pos + n))"

definition skip_counted :: "byte list \<Rightarrow> nat \<Rightarrow> nat + nat" where
  "skip_counted body pos =
     (if pos + 2 > length body then Inl pos
      else let len = buf_r16 body pos; pos = pos + 2 in if pos + len > length body then Inl pos else Inr (pos + len))"

fun skip_fields :: "(nat \<Rightarrow> nat + nat) list \<Rightarrow> nat \<Rightarrow> nat + nat" where
  "skip_fields [] pos = Inr pos"
| "skip_fields (f # fs) pos = (case f pos of Inl p \<Rightarrow> Inl p | Inr p \<Rightarrow> skip_fields fs p)"

text \<open>Where the first capability is, and where the scan begins.\<close>

definition conacc_fields :: "byte list \<Rightarrow> nat option \<times> nat" where
  "conacc_fields body =
     (case skip_fields [skip_fixed body 4, skip_fixed body 4, skip_counted body, skip_fixed body 14, skip_counted body,
        skip_counted body, skip_counted body] 0 of
        Inl pos \<Rightarrow> (None, pos)
      | Inr pos \<Rightarrow> if pos + 4 > length body then (None, pos) else (Some (buf_r32 body pos), pos + 14))"

text \<open>The error of the service after the tag 102, if that comes before an end tag.\<close>

function scan_for_102 :: "byte list \<Rightarrow> nat \<Rightarrow> int option" where
  "scan_for_102 body pos =
     (if pos + 8 > length body then None
      else let tag = buf_r16 body pos
        in if tag = 102 then Some (signed16 (buf_r16 body (pos + 6)))
           else if tag = SQLI_TAG_END then None
           else scan_for_102 body (pos + 1))"
  by pat_completeness auto

termination by (relation "measure (\<lambda>(body, pos). length body - pos)") auto

declare scan_for_102.simps [simp del]

definition set_connect_service_error :: "sqli_status \<Rightarrow> nat \<Rightarrow> int \<Rightarrow> string \<Rightarrow> sqli_conn \<Rightarrow> sqli_conn" where
  "set_connect_service_error status opcode svc_error phase conn =
     (let conn = set_error (''server rejected connection during '' @ phase @ '' (svcError='' @ print_int svc_error @ '')'')
            (set_error_context phase opcode conn);
          info = c_error_info conn
      in conn\<lparr>c_error_info := info\<lparr>ei_status := status, ei_opcode := opcode,
           ei_context := (if c_error_context conn \<noteq> [] then take 47 (c_error_context conn) else ei_context info),
           ei_server_message := ''svcError='' @ print_int svc_error, ei_message := take 511 (c_errmsg conn)\<rparr>\<rparr>)"

definition parse_conacc_body :: "byte list \<Rightarrow> string \<Rightarrow> nat \<Rightarrow> client \<Rightarrow> unit fallible \<times> client" where
  "parse_conacc_body body phase opcode c =
     (if length body < 4 then (Inl SQLI_PROTO_ERROR, c)
      else
        let (cap, pos) = conacc_fields body;
            c = (case cap of None \<Rightarrow> c | Some n \<Rightarrow> c\<lparr>hc_caps := (hc_caps c)\<lparr>cap_1 := signed32 n\<rparr>\<rparr>)
        in case scan_for_102 body pos of
             None \<Rightarrow> (Inr (), c)
           | Some svc_error \<Rightarrow>
               if svc_error \<noteq> 0
               then (Inl SQLI_AUTH_FAIL, upd_conn (set_connect_service_error SQLI_AUTH_FAIL opcode svc_error phase) c)
               else (Inr (), c))"

text \<open>The body of an answer whose length is known, with the reports of its two failures.\<close>

definition read_body :: "bool \<Rightarrow> nat \<Rightarrow> (client \<Rightarrow> client) \<Rightarrow> string \<Rightarrow> client \<Rightarrow> byte list fallible \<times> client" where
  "read_body mem len set_context msg c =
     (if \<not> mem then (Inl SQLI_ALLOC_FAIL, c)
      else case hs_read_exact len c of
        (Inl rc, c) \<Rightarrow> hs_fail rc msg (set_context c)
      | (Inr body, c) \<Rightarrow> (Inr body, c))"

definition handle_conrej_body :: "bool \<Rightarrow> nat \<Rightarrow> nat \<Rightarrow> client \<Rightarrow> unit fallible \<times> client" where
  "handle_conrej_body mem resp_type resp_pdu c =
     (let ctx = hs_context ''connect/conrej'' resp_type
      in if resp_pdu < SQLI_SL_HEADER_SIZE then hs_fail SQLI_PROTO_ERROR ''invalid CONREJ pdu size'' (ctx c)
         else if resp_pdu = SQLI_SL_HEADER_SIZE then hs_fail SQLI_PROTO_ERROR ''empty CONREJ body'' (ctx c)
         else and_then (read_body mem (resp_pdu - SQLI_SL_HEADER_SIZE) ctx ''failed to read CONREJ body'')
           (\<lambda>body. parse_conacc_body body ''connect/conrej'' resp_type) c)"

section \<open>Capabilities\<close>

definition protocols_request :: "byte list" where
  "protocols_request =
     [0x00, 0x7E, 0x00, 0x09, 0xFF, 0xFC, 0x7F, 0xFC, 0x3C, 0x8C, 0xAA, 0x97, 0x06, 0x00, 0x00, 0x0C]"

text \<open>The capabilities that \<open>len\<close> bytes declare, the first 16 of them being \<open>sp\<close>.\<close>

definition set_caps :: "nat \<Rightarrow> byte list \<Rightarrow> capabilities \<Rightarrow> capabilities" where
  "set_caps len sp caps =
     (let caps = (if len \<ge> 6 then caps\<lparr>has_pam := (sp ! 5 AND 0x08 \<noteq> 0)\<rparr> else caps);
          caps = (if len \<ge> 8 then caps\<lparr>remove_64k_limit := (sp ! 7 AND 0x02 \<noteq> 0), extended_describe := (sp ! 7 AND 0x01 \<noteq> 0)\<rparr>
            else caps)
      in if len \<ge> 9 then caps\<lparr>large_tuple_mode := (sp ! 8 AND 0x04 \<noteq> 0), long_row_id := (sp ! 8 AND 0x02 \<noteq> 0)\<rparr> else caps)"

definition do_sq_protocols :: "client \<Rightarrow> unit fallible \<times> client" where
  "do_sq_protocols c =
     and_then (hs_send protocols_request ''SQ_PROTOCOLS: failed to send'') (\<lambda>_.
     and_then (or_error ''SQ_PROTOCOLS: failed to read opcode'' hs_read_be16) (\<lambda>opcode.
     and_then (or_error ''SQ_PROTOCOLS: failed to read length'' hs_read_be16) (\<lambda>len.
       if opcode \<noteq> SQLI_SQ_PROTOCOLS then hs_fail SQLI_PROTO_ERROR (''SQ_PROTOCOLS: unexpected opcode '' @ print_nat opcode)
       else
         and_then (or_error ''SQ_PROTOCOLS: failed to read capability bytes'' (hs_read_exact (min len 16))) (\<lambda>sp.
         and_then (or_error ''SQ_PROTOCOLS: failed to drain trailing bytes'' (hs_drain (len - min len 16 + len mod 2))) (\<lambda>_ c.
         and_then (or_error ''SQ_PROTOCOLS: failed to read trailing EOT'' hs_read_be16) (\<lambda>trailing c.
           if trailing \<noteq> SQLI_SQ_EOT
           then hs_fail SQLI_PROTO_ERROR (''SQ_PROTOCOLS: expected trailing EOT, got '' @ print_nat trailing) c
           else (Inr (), c)) (c\<lparr>hc_caps := set_caps len sp (hc_caps c)\<rparr>)))))) (hs_context ''connect/protocols'' SQLI_SQ_PROTOCOLS c)"

section \<open>PAM\<close>

definition ack_eot :: "byte list" where
  "ack_eot = net16 SQLI_SQ_ACK @ net16 SQLI_SQ_EOT"

definition pam_password_max :: nat where "pam_password_max = 512"

text \<open>The answer to a challenge: the password, or an acknowledgement of what is only told.\<close>

definition pam_answer :: "bool \<Rightarrow> nat \<Rightarrow> client \<Rightarrow> unit fallible \<times> client" where
  "pam_answer mem style c =
     (let pass = lg_password (hc_login c)
      in if style = 3 \<or> style = 4 then hs_send ack_eot ''PAM: failed to send informational ACK+EOT'' c
         else if length pass > pam_password_max then hs_fail SQLI_INVALID_STATE ''PAM: password exceeds 512-byte response limit'' c
         else if \<not> mem then (Inl SQLI_ALLOC_FAIL, c)
         else hs_send (net16 SQLI_SQ_RESPONSE @ counted True pass) ''PAM: failed to send password response'' c)"

text \<open>One message of the server: whether the exchange is over.\<close>

definition pam_step :: "bool \<Rightarrow> client \<Rightarrow> bool fallible \<times> client" where
  "pam_step mem =
     and_then hs_read_be16 (\<lambda>opcode.
       if opcode = SQLI_SQ_ACCEPT then (\<lambda>c. (Inr True, c))
       else if opcode = SQLI_SQ_EXIT then hs_fail SQLI_AUTH_FAIL ''PAM: server rejected authentication''
       else if opcode \<noteq> SQLI_SQ_CHALLENGE then hs_fail SQLI_PROTO_ERROR (''PAM: unexpected opcode '' @ print_nat opcode)
       else
         and_then (hs_read_exact 6) (\<lambda>header.
         and_then (hs_drain (buf_r16 header 4 + buf_r16 header 4 mod 2)) (\<lambda>_.
         and_then (pam_answer mem (buf_r16 header 0)) (\<lambda>_ c. (Inr False, c)))))"

text \<open>Every message of the server takes bytes off the socket, so that the exchange ends with what arrives.\<close>

lemma tcp_take_bytes:
  "tcp_take count arrivals = (got, rest) \<Longrightarrow>
   sum_list (map arrival_bytes rest) \<le> sum_list (map arrival_bytes arrivals) \<and>
   (\<forall>bytes. got = Some bytes \<longrightarrow> length bytes = count \<and>
      sum_list (map arrival_bytes rest) + count = sum_list (map arrival_bytes arrivals))"
proof (induction count arrivals arbitrary: got rest rule: tcp_take.induct)
  case (2 count a arrivals)
  show ?case
  proof (cases "count = 0 \<or> (\<forall>bytes. a \<noteq> Bytes bytes)")
    case True
    then show ?thesis using 2(2) by (cases a) (auto split: if_splits)
  next
    case False
    then obtain bytes where a: "a = Bytes bytes" "count \<noteq> 0" by blast
    show ?thesis
    proof (cases "bytes = [] \<or> count < length bytes")
      case True
      then show ?thesis using 2(2) a by (auto split: if_splits)
    next
      case False
      obtain got1 rest1 where more_bytes: "tcp_take (count - length bytes) arrivals = (got1, rest1)" by fastforce
      then have "got = map_option ((@) bytes) got1" "rest = rest1" using 2(2) a False by auto
      then show ?thesis using 2(1) [OF a(2,1) _ _ more_bytes] a(1) False by auto
    qed
  qed
qed (auto split: if_splits)

lemma hs_read_pending:
  "hs_read_exact count c = (x, c') \<Longrightarrow> pending (hc_link c') \<le> pending (hc_link c) \<and>
   (\<forall>bytes. x = Inr bytes \<longrightarrow> length bytes = count \<and> pending (hc_link c') + count = pending (hc_link c))"
  using tcp_take_bytes [of count "k_arrivals (hc_link c)"]
  by (auto simp: hs_read_exact_def pending_def with_arrivals_def hc_link_def split: prod.splits option.splits)

lemma hs_drain_pending: "hs_drain count c = (x, c') \<Longrightarrow> pending (hc_link c') \<le> pending (hc_link c)"
proof (induction count c rule: hs_drain.induct)
  case (1 count c)
  show ?case
  proof (cases "count = 0")
    case False
    obtain y c1 where read: "hs_read_exact (min count 256) c = (y, c1)" by fastforce
    then show ?thesis
      using 1 False hs_read_pending [OF read] by (cases y) (fastforce simp: hs_drain.simps [of count])+
  qed (use 1(2) in \<open>simp add: hs_drain.simps [of 0]\<close>)
qed

lemma hs_send_link: "hs_send bytes msg c = (x, c') \<Longrightarrow> pending (hc_link c') = pending (hc_link c)"
  by (cases "peer_send bytes (hc_peer c)")
    (use peer_send_link [of bytes "hc_peer c"] in
      \<open>auto simp: hs_send_def hs_fail_def upd_conn_def peer_conn_def pending_def hc_link_def split: if_splits\<close>)

lemma hs_fail_link [simp]: "hs_fail rc msg c = (x, c') \<Longrightarrow> pending (hc_link c') = pending (hc_link c)"
  by (auto simp: hs_fail_def upd_conn_def peer_conn_def pending_def hc_link_def)

definition takes_only :: "(client \<Rightarrow> 'a fallible \<times> client) \<Rightarrow> bool" where
  "takes_only m \<longleftrightarrow> (\<forall>c x c'. m c = (x, c') \<longrightarrow> pending (hc_link c') \<le> pending (hc_link c))"

lemma takes_only_and_then: "takes_only m \<Longrightarrow> (\<And>y. takes_only (f y)) \<Longrightarrow> takes_only (and_then m f)"
  unfolding takes_only_def and_then_def by (fastforce split: prod.splits sum.splits)

lemma takes_only_steps:
  "takes_only (hs_read_exact n)" "takes_only (hs_drain n)" "takes_only (hs_send bytes msg)" "takes_only (hs_fail rc msg)"
  "takes_only (\<lambda>c. (x, c))"
  using hs_read_pending hs_drain_pending hs_send_link hs_fail_link unfolding takes_only_def by fastforce+

lemma hs_be16_pending: "hs_read_be16 c = (Inr n, c') \<Longrightarrow> pending (hc_link c') + 2 = pending (hc_link c)"
  using hs_read_pending [of 2 c] by (auto simp: hs_read_be16_def and_then_def split: prod.splits sum.splits)

lemma takes_only_pam_answer: "takes_only (pam_answer mem style)"
  using hs_send_link unfolding takes_only_def pam_answer_def Let_def by (fastforce split: if_splits)

lemma pam_step_pending:
  assumes "pam_step mem c = (Inr b, c')"
  shows "pending (hc_link c') < pending (hc_link c)"
proof -
  let ?rest = "\<lambda>opcode.
       if opcode = SQLI_SQ_ACCEPT then (\<lambda>c. (Inr True, c))
       else if opcode = SQLI_SQ_EXIT then hs_fail SQLI_AUTH_FAIL ''PAM: server rejected authentication''
       else if opcode \<noteq> SQLI_SQ_CHALLENGE then hs_fail SQLI_PROTO_ERROR (''PAM: unexpected opcode '' @ print_nat opcode)
       else
         and_then (hs_read_exact 6) (\<lambda>header.
         and_then (hs_drain (buf_r16 header 4 + buf_r16 header 4 mod 2)) (\<lambda>_.
         and_then (pam_answer mem (buf_r16 header 0)) (\<lambda>_ c. (Inr False, c))))"
  obtain opcode c1 where read: "hs_read_be16 c = (Inr opcode, c1)" "?rest opcode c1 = (Inr b, c')"
    using assms unfolding pam_step_def and_then_def [of hs_read_be16] by (auto split: prod.splits sum.splits)
  have "takes_only (?rest opcode)"
    by (simp add: takes_only_and_then takes_only_steps takes_only_pam_answer)
  then have "pending (hc_link c') \<le> pending (hc_link c1)" using read(2) unfolding takes_only_def by blast
  then show ?thesis using hs_be16_pending [OF read(1)] by simp
qed

function pam_loop :: "bool \<Rightarrow> client \<Rightarrow> unit fallible \<times> client" where
  "pam_loop mem c =
     (case pam_step mem c of
        (Inl rc, c) \<Rightarrow> (Inl rc, c)
      | (Inr finished, c) \<Rightarrow> if finished then (Inr (), c) else pam_loop mem c)"
  by pat_completeness auto

termination
  by (relation "measure (\<lambda>(mem, c). pending (hc_link c))") (auto dest: pam_step_pending [OF sym])

declare pam_loop.simps [simp del]

definition do_pam_handshake :: "bool \<Rightarrow> client \<Rightarrow> unit fallible \<times> client" where
  "do_pam_handshake mem c =
     and_then (hs_send ack_eot ''PAM: failed to send ACK+EOT'') (\<lambda>_. pam_loop mem) (hs_context ''connect/pam'' SQLI_SQ_CHALLENGE c)"

section \<open>Session information\<close>

definition session_vars :: "(string \<times> string) list" where
  "session_vars = [(''DBTEMP'', ''/tmp''), (''SUBQCACHE SZ'', ''10'')]"

definition even_length :: "string \<Rightarrow> nat" where
  "even_length s = length s + length s mod 2"

text \<open>The total length, the longest name and the longest value, then the variables and two empty strings.\<close>

definition info_message :: "(string \<times> string) list \<Rightarrow> byte list" where
  "info_message envs =
     (let total_len = 4 + sum_list (map (\<lambda>(name, val). 2 + even_length name + 2 + even_length val) envs) + 4;
          max_name = foldl max 0 (map (even_length \<circ> fst) envs); max_val = foldl max 0 (map (even_length \<circ> snd) envs)
      in net16 SQLI_SQ_INFO @ net16 6 @ net16 total_len @ net16 max_name @ net16 max_val @
         concat (map (\<lambda>(name, val). counted True name @ counted True val) envs) @ [0, 0, 0, 0] @ net16 SQLI_SQ_EOT)"

text \<open>What has come after the answer already is read, 256 bytes of it, and dropped; whether that succeeds is not looked at.\<close>

definition drop_extra :: "client \<Rightarrow> client" where
  "drop_extra c =
     (case sqli_tcp_peek 1 (hc_link c) of
        (there, k) \<Rightarrow>
          let c = c\<lparr>hc_peer := (hc_peer c)\<lparr>p_link := k\<rparr>\<rparr>
          in if there \<noteq> [] then snd (hs_read_exact 256 c) else c)"

definition send_info :: "client \<Rightarrow> unit fallible \<times> client" where
  "send_info c =
     and_then (hs_send (info_message session_vars) ''failed to send SQ_INFO'') (\<lambda>_.
     and_then (or_error ''failed to read SQ_INFO response'' hs_read_be16) (\<lambda>info_resp c.
       if info_resp \<noteq> SQLI_SQ_EOT
       then hs_fail SQLI_PROTO_ERROR (''SQ_INFO: expected EOT ('' @ print_nat SQLI_SQ_EOT @ ''), got '' @ print_nat info_resp) c
       else (Inr (), drop_extra c))) (hs_context ''connect/info'' SQLI_SQ_INFO (hs_state SQLI_CONN_INFO c))"

section \<open>Opening the database\<close>

definition database_name :: "sqli_connect_params \<Rightarrow> string" where
  "database_name params = (case cp_database params of None \<Rightarrow> ''informix'' | Some name \<Rightarrow> if name = [] then ''informix'' else name)"

definition dbopen_message :: "string \<Rightarrow> byte list" where
  "dbopen_message db_name = net16 SQLI_SQ_DBOPEN @ counted True db_name @ net16 SQLI_SQ_DBOPEN_FLAGS @ net16 SQLI_SQ_EOT"

text \<open>The dispatcher runs with the capabilities of this connection.\<close>

definition with_caps :: "capabilities \<Rightarrow> client_env \<Rightarrow> client_env" where
  "with_caps caps env = env\<lparr>ce_dispatch := (ce_dispatch env)\<lparr>de_extended_describe := extended_describe caps,
     de_long_row_id := long_row_id caps, de_remove_64k_limit := remove_64k_limit caps\<rparr>\<rparr>"

definition receive_dbopen_reply :: "client_env \<Rightarrow> client \<Rightarrow> unit fallible \<times> client" where
  "receive_dbopen_reply env c =
     (case dispatch_aside (with_caps (hc_caps c) env) (hc_peer c) of
        (rc, p) \<Rightarrow>
          let c = c\<lparr>hc_peer := p\<rparr>
          in if rc \<noteq> SQLI_OK then (Inl rc, upd_conn (ensure_error ''SQ_DBOPEN response error'') c) else (Inr (), c))"

text \<open>A second group of messages is read if the socket shows it already.\<close>

definition open_database :: "client_env \<Rightarrow> sqli_connect_params \<Rightarrow> client \<Rightarrow> unit fallible \<times> client" where
  "open_database env params c =
     and_then (hs_send (dbopen_message (database_name params)) ''failed to send SQ_DBOPEN'') (\<lambda>_.
     and_then (receive_dbopen_reply env) (\<lambda>_ c.
       case sqli_tcp_peek 1 (hc_link c) of
         (there, k) \<Rightarrow>
           let c = c\<lparr>hc_peer := (hc_peer c)\<lparr>p_link := k\<rparr>\<rparr>
           in if there \<noteq> [] then receive_dbopen_reply env c else (Inr (), c)))
       (hs_context ''connect/dbopen'' SQLI_SQ_DBOPEN (hs_state SQLI_CONN_DBOPEN c))"

section \<open>Connecting\<close>

definition str_copy :: "nat \<Rightarrow> string option \<Rightarrow> string \<Rightarrow> string fallible" where
  "str_copy buf_size src old =
     (case src of None \<Rightarrow> Inr old | Some s \<Rightarrow> if length s \<ge> buf_size then Inl SQLI_INVALID_STATE else Inr s)"

text \<open>One string of the parameters into its buffer.\<close>

definition copy_string ::
  "nat \<Rightarrow> string option \<Rightarrow> (login \<Rightarrow> string) \<Rightarrow> (string \<Rightarrow> login \<Rightarrow> login) \<Rightarrow> string \<Rightarrow> client \<Rightarrow> unit fallible \<times> client" where
  "copy_string buf_size src get put msg c =
     (case str_copy buf_size src (get (hc_login c)) of
        Inl rc \<Rightarrow> hs_fail rc msg c
      | Inr s \<Rightarrow> (Inr (), c\<lparr>hc_login := put s (hc_login c)\<rparr>))"

definition copy_strings :: "sqli_connect_params \<Rightarrow> client \<Rightarrow> unit fallible \<times> client" where
  "copy_strings params =
     and_then (copy_string 256 (cp_hostname params) lg_hostname (\<lambda>s. lg_hostname_update (\<lambda>_. s))
       ''connect: hostname exceeds 255-byte limit'') (\<lambda>_.
     and_then (copy_string 64 (cp_service params) lg_service (\<lambda>s. lg_service_update (\<lambda>_. s))
       ''connect: service exceeds 63-byte limit'') (\<lambda>_.
     and_then (copy_string 256 (cp_server params) lg_server (\<lambda>s. lg_server_update (\<lambda>_. s))
       ''connect: server exceeds 255-byte limit'') (\<lambda>_.
     and_then (copy_string 256 (cp_database params) lg_database (\<lambda>s. lg_database_update (\<lambda>_. s))
       ''connect: database exceeds 255-byte limit'') (\<lambda>_.
     and_then (copy_string 256 (cp_username params) lg_username (\<lambda>s. lg_username_update (\<lambda>_. s))
       ''connect: username exceeds 255-byte limit'') (\<lambda>_.
     and_then (copy_string 256 (cp_password params) lg_password (\<lambda>s. lg_password_update (\<lambda>_. s))
       ''connect: password exceeds 255-byte limit'') (\<lambda>_.
     and_then (copy_string 256 (cp_client_locale params) lg_client_locale (\<lambda>s. lg_client_locale_update (\<lambda>_. s))
       ''connect: client_locale exceeds 255-byte limit'') (\<lambda>_.
     copy_string 256 (cp_db_locale params) lg_db_locale (\<lambda>s. lg_db_locale_update (\<lambda>_. s))
       ''connect: db_locale exceeds 255-byte limit'')))))))"

text \<open>\<open>strtoul\<close> in base 10: the number and the rest of the text, which is all of it when there is no number.\<close>

definition strtoul :: "string \<Rightarrow> nat \<times> string" where
  "strtoul s =
     (let s1 = dropWhile isspace s; negative = (s1 \<noteq> [] \<and> hd s1 = CHR ''-'');
          s2 = (if s1 \<noteq> [] \<and> (hd s1 = CHR ''-'' \<or> hd s1 = CHR ''+'') then tl s1 else s1);
          digits = takeWhile ascii_digit s2; n = be_value 10 (map char_digit digits)
      in if digits = [] then (0, s)
         else (if n \<ge> 2 ^ 64 then 2 ^ 64 - 1 else if negative then (2 ^ 64 - n) mod 2 ^ 64 else n, dropWhile ascii_digit s2))"

definition parse_u32_env_local :: "string option \<Rightarrow> nat \<Rightarrow> nat \<Rightarrow> nat \<Rightarrow> nat" where
  "parse_u32_env_local v dflt min_v max_v =
     (case v of None \<Rightarrow> dflt
      | Some s \<Rightarrow>
          if s = [] then dflt
          else case strtoul s of (n, rest) \<Rightarrow> if rest = s \<or> rest \<noteq> [] \<or> n < min_v \<or> n > max_v then dflt else n)"

definition use_unix_socket :: "client \<Rightarrow> bool" where
  "use_unix_socket c \<longleftrightarrow> lg_service (hc_login c) \<noteq> [] \<and> hd (lg_service (hc_login c)) = CHR ''/''"

text \<open>On a Unix socket the user is the one of the process, if none is given, and there is no password.\<close>

definition unix_login :: "connect_env \<Rightarrow> client \<Rightarrow> unit fallible \<times> client" where
  "unix_login cn c =
     (if \<not> use_unix_socket c then (Inr (), c)
      else
        and_then
          (if lg_username (hc_login c) = []
           then copy_string 256 (cn_user cn) lg_username (\<lambda>s. lg_username_update (\<lambda>_. s)) ''connect: local username exceeds 255-byte limit''
           else (\<lambda>c. (Inr (), c)))
          (\<lambda>_ c. (Inr (), c\<lparr>hc_login := (hc_login c)\<lparr>lg_password := []\<rparr>\<rparr>)) c)"

definition open_socket :: "connect_env \<Rightarrow> client \<Rightarrow> unit fallible \<times> client" where
  "open_socket cn c =
     (let c = upd_conn (\<lambda>conn. conn\<lparr>c_socket_fd := cn_socket cn\<rparr>)
            (hs_context (if use_unix_socket c then ''connect/unix'' else ''connect/tcp'') 0 (hs_state SQLI_CONN_CONNECTING c))
      in if cn_socket cn < 0
         then hs_fail SQLI_IO_ERROR
           (if use_unix_socket c then ''Unix socket connection failed: '' @ lg_service (hc_login c)
            else if cn_timed_out cn then ''TCP connection timed out - server did not respond'' else ''TCP connection failed'') c
         else case cn_tls cn of
           None \<Rightarrow> (Inr (), c)
         | Some (phase, msg) \<Rightarrow> hs_fail SQLI_IO_ERROR msg (hs_context phase 0 c))"

section \<open>The login exchange\<close>

text \<open>The preamble and the answer to it.\<close>

definition ipc_exchange :: "bool \<Rightarrow> byte list \<Rightarrow> client \<Rightarrow> unit fallible \<times> client" where
  "ipc_exchange mem preamble =
     (if preamble = [] then hs_fail SQLI_PROTO_ERROR ''failed to encode IPC preamble''
      else
        and_then (hs_send preamble ''failed to send IPC preamble'') (\<lambda>_ c.
        and_then (or_error ''failed to read CONACC length'' hs_read_be16) (\<lambda>frame_len.
          if frame_len < 2 then hs_fail SQLI_PROTO_ERROR (''invalid CONACC frame length: '' @ print_nat frame_len)
          else if frame_len - 2 = 0 \<or> frame_len - 2 > 4096
          then hs_fail SQLI_PROTO_ERROR (''invalid CONACC body length: '' @ print_nat (frame_len - 2))
          else and_then (read_body mem (frame_len - 2) id ''failed to read CONACC body'')
            (\<lambda>body. parse_conacc_body body ''connect/ipc_conacc'' 0)) (hs_context ''connect/ipc_conacc'' 0 c)))"

definition ipc_handshake :: "connect_env \<Rightarrow> client \<Rightarrow> unit fallible \<times> client" where
  "ipc_handshake cn c =
     and_then (or_error ''failed to read server greeting'' (hs_read_exact 12)) (\<lambda>greeting c.
       ipc_exchange (cn_mem cn) (sqli_asc_encode_ipc_preamble (cn_os cn) (hc_login c) 1024) (hs_context ''connect/ipc_preamble'' 0 c))
       (hs_context ''connect/ipc_greeting'' 0 (hs_state SQLI_CONN_HANDSHAKE c))"

definition conreq_message :: "os_info \<Rightarrow> login \<Rightarrow> byte list" where
  "conreq_message os lg =
     (let body = sqli_asc_encode_conreq os lg 2048 (Some ''tlitcp''); pdu_size = (length body + SQLI_SL_HEADER_SIZE) mod 65536
      in take pdu_size (sqli_wire_encode_sl_header True (SQLI_SL_HEADER_SIZE + 2048)
           \<lparr>h_pdu_size = pdu_size, h_sl_type = u8 SQLI_SLTYPE_CONREQ, h_sl_attr = u8 SQLI_SL_PROT_SQLI, h_sl_opts = 0\<rparr> @ body))"

text \<open>The answer by its header; the result says whether it was a rejection that the client goes on after.\<close>

definition handle_answer :: "bool \<Rightarrow> sl_header \<Rightarrow> client \<Rightarrow> bool fallible \<times> client" where
  "handle_answer mem h c =
     (let resp_type = unat (h_sl_type h); ctx = hs_context ''connect/sl_header'' resp_type;
          ctx_conacc = hs_context ''connect/conacc'' resp_type
      in if resp_type = SQLI_SLTYPE_REDIRECT then hs_fail SQLI_ERR ''server returned redirect'' (ctx c)
         else if resp_type = SQLI_SLTYPE_CONREJ
         then and_then (handle_conrej_body mem resp_type (h_pdu_size h)) (\<lambda>_ c. (Inr True, c)) c
         else if resp_type \<noteq> SQLI_SLTYPE_CONACC
         then hs_fail SQLI_PROTO_ERROR (''unexpected SL type: '' @ print_nat resp_type) (ctx c)
         else
           let body_len = uint16 (int (h_pdu_size h) - int SQLI_SL_HEADER_SIZE)
           in if body_len = 0 then hs_fail SQLI_PROTO_ERROR ''empty ASC-BINARY body from server'' (ctx_conacc c)
              else and_then (read_body mem body_len ctx_conacc ''failed to read server response body'') (\<lambda>body.
                and_then (parse_conacc_body body ''connect/conacc'' resp_type) (\<lambda>_ c. (Inr False, c))) c)"

text \<open>The request, the header of the answer, and the answer.\<close>

definition conreq_exchange :: "bool \<Rightarrow> byte list \<Rightarrow> client \<Rightarrow> bool fallible \<times> client" where
  "conreq_exchange mem request =
     and_then (hs_send request ''failed to send connection request'') (\<lambda>_ c.
       case hs_read_exact SQLI_SL_HEADER_SIZE c of
         (Inl rc, c) \<Rightarrow> hs_fail rc ''failed to read server response header'' (hs_context ''connect/sl_header_read'' 0 c)
       | (Inr bytes, c) \<Rightarrow>
           (case sqli_wire_decode_sl_header (Some bytes) of Inl rc \<Rightarrow> (Inl rc, c) | Inr h \<Rightarrow> handle_answer mem h c))"

definition tcp_handshake :: "connect_env \<Rightarrow> client \<Rightarrow> bool fallible \<times> client" where
  "tcp_handshake cn c =
     (let c = hs_context ''connect/conreq'' SQLI_SLTYPE_CONREQ (hs_state SQLI_CONN_HANDSHAKE c)
      in if sqli_asc_encode_conreq (cn_os cn) (hc_login c) 2048 (Some ''tlitcp'') = []
         then hs_fail SQLI_PROTO_ERROR ''failed to encode connection request'' c
         else conreq_exchange (cn_mem cn) (conreq_message (cn_os cn) (hc_login c)) c)"

section \<open>The whole connect\<close>

text \<open>Up to the answer of the server; the result says whether it was a rejection.\<close>

definition login_phase :: "connect_env \<Rightarrow> sqli_connect_params \<Rightarrow> client \<Rightarrow> bool fallible \<times> client" where
  "login_phase cn params =
     and_then (copy_strings params) (\<lambda>_ c.
     and_then (unix_login cn) (\<lambda>_.
     and_then (open_socket cn) (\<lambda>_ c.
       if use_unix_socket c then and_then (ipc_handshake cn) (\<lambda>_ c. (Inr False, c)) c else tcp_handshake cn c))
       (c\<lparr>hc_fetch_buf_size := parse_u32_env_local (cn_fetch_bufsize cn) 4194304 1024 (16 * 1024 * 1024),
          hc_peer := (hc_peer c)\<lparr>p_link := (hc_link c)\<lparr>k_buffer := []\<rparr>\<rparr>\<rparr>))"

text \<open>From the exchange of capabilities to the open database.\<close>

definition session_phase :: "client_env \<Rightarrow> connect_env \<Rightarrow> sqli_connect_params \<Rightarrow> client \<Rightarrow> unit fallible \<times> client" where
  "session_phase env cn params =
     and_then do_sq_protocols (\<lambda>_.
     and_then (\<lambda>c. if has_pam (hc_caps c) then do_pam_handshake (cn_mem cn) (hs_state SQLI_CONN_AUTH c) else (Inr (), c)) (\<lambda>_.
     and_then send_info (\<lambda>_.
     open_database env params)))"

text \<open>The exit of a failure: the message names a rejection that was gone on after, and the socket is closed.\<close>

definition connect_failed :: "bool \<Rightarrow> client \<Rightarrow> client" where
  "connect_failed conrej_soft_accept c =
     (let c = (if conrej_soft_accept
            then upd_conn (\<lambda>conn. set_error
              (''server rejected connection (CONREJ, svcError=0) and did not complete the handshake: '' @ c_errmsg conn) conn) c
            else c)
      in upd_conn (\<lambda>conn. conn\<lparr>c_socket_fd := (if c_socket_fd conn \<ge> 0 then -1 else c_socket_fd conn),
           c_state := SQLI_CONN_ERROR\<rparr>) c)"

definition sqli_connect :: "client_env \<Rightarrow> connect_env \<Rightarrow> sqli_connect_params option \<Rightarrow> client \<Rightarrow> sqli_status \<times> client" where
  "sqli_connect env cn params_given c =
     (case params_given of
        None \<Rightarrow> (SQLI_INVALID_STATE, c)
      | Some params \<Rightarrow>
          if p_discarded (hc_peer c) \<or> hc_pinned c \<or> hc_released c then (SQLI_INVALID_STATE, c)
          else
            let c = upd_conn clear_error c
            in if c_state (hc_conn c) \<noteq> SQLI_CONN_CLOSED
               then (SQLI_INVALID_STATE, upd_conn (set_error ''connection already in use'') (hs_context ''connect/precheck'' 0 c))
               else if cp_hostname params = None \<or> cp_service params = None
               then (SQLI_INVALID_STATE, upd_conn (set_error ''hostname and service are required'') (hs_context ''connect/precheck'' 0 c))
               else
                 case login_phase cn params c of
                   (Inl rc, c) \<Rightarrow> (rc, connect_failed False c)
                 | (Inr soft, c) \<Rightarrow>
                     (case session_phase env cn params c of
                        (Inl rc, c) \<Rightarrow> (rc, connect_failed soft c)
                      | (Inr _, c) \<Rightarrow>
                          (SQLI_OK, upd_conn clear_error (hs_state SQLI_CONN_READY (c\<lparr>hc_database_open := True\<rparr>)))))"

section \<open>Closing\<close>

text \<open>Messages of six bytes about transactions are skipped; anything else, and any failure, ends the wait.\<close>

function drain_close :: "client \<Rightarrow> client" where
  "drain_close c =
     (case hs_read_be16 c of
        (Inl rc, c) \<Rightarrow> c
      | (Inr op, c) \<Rightarrow>
          if op = SQLI_SQ_XACTSTAT
          then (case hs_drain 6 c of (Inl rc, c) \<Rightarrow> c | (Inr _, c) \<Rightarrow> drain_close c)
          else c)"
  by pat_completeness auto

termination
  by (relation "measure (\<lambda>c. pending (hc_link c))") (auto dest!: hs_be16_pending [OF sym] hs_drain_pending [OF sym])

declare drain_close.simps [simp del]

definition close_message :: "bool \<Rightarrow> byte list" where
  "close_message database_open = (if database_open then net16 SQLI_SQ_DBCLOSE else []) @ net16 SQLI_SQ_EXIT"

text \<open>\<open>sqli_tcp_discard\<close> of the socket is an input.\<close>

definition discard_client :: "sqli_status \<Rightarrow> client \<Rightarrow> client" where
  "discard_client tcp_discard c =
     (let c = hs_state SQLI_CONN_ERROR (c\<lparr>hc_peer := (hc_peer c)\<lparr>p_discarded := True\<rparr>, hc_database_open := False\<rparr>)
      in if tcp_discard = SQLI_ERR then c
         else upd_conn (\<lambda>conn. conn\<lparr>c_socket_fd := -1\<rparr>)
           (c\<lparr>hc_peer := (hc_peer c)\<lparr>p_link := (hc_link c)\<lparr>k_buffer := []\<rparr>\<rparr>\<rparr>))"

text \<open>The reads of the wait have a time limit of their own; what the limit cuts off is an arrival \<open>Timed_out\<close>.\<close>

definition sqli_close :: "sqli_status \<Rightarrow> client \<Rightarrow> client" where
  "sqli_close tcp_discard c =
     (if hc_pinned c then c
      else if p_discarded (hc_peer c) then discard_client tcp_discard c
      else
        let c = (if c_socket_fd (hc_conn c) \<ge> 0 then
                   upd_conn (\<lambda>conn. conn\<lparr>c_socket_fd := -1\<rparr>)
                     (if c_state (hc_conn c) = SQLI_CONN_READY
                      then drain_close (c\<lparr>hc_peer := snd (peer_send (close_message (hc_database_open c)) (hc_peer c))\<rparr>)
                      else c)
                 else c)
        in upd_conn clear_error ((hs_state SQLI_CONN_CLOSED c)\<lparr>hc_database_open := False\<rparr>))"

end
