(* ===== verification/HandshakeFacts.thy ===== *)
theory HandshakeFacts
  imports Handshake
begin

text \<open>
  Connecting is all or nothing, whatever the server answers: the socket that was opened is the socket of a connection
  that is ready, or it is closed again. Nothing but the socket, the state and the diagnostics of the connection
  changes, so the flags of a transaction survive (\<open>transaction_flag_survives\<close>).
\<close>

section \<open>What a step of the exchange leaves alone\<close>

text \<open>A connection without its diagnostics and its state, and the flags of its lifecycle.\<close>

definition standing :: "client \<Rightarrow> sqli_conn \<times> bool \<times> bool \<times> bool \<times> bool" where
  "standing c = ((clear_error (hc_conn c))\<lparr>c_state := SQLI_CONN_CLOSED\<rparr>, hc_database_open c, p_discarded (hc_peer c),
     hc_pinned c, hc_released c)"

text \<open>Such a step, and its failures are reported as failures.\<close>

definition stands :: "(client \<Rightarrow> 'x fallible \<times> client) \<Rightarrow> bool" where
  "stands m \<longleftrightarrow> (\<forall>c. standing (snd (m c)) = standing c \<and> fst (m c) \<noteq> Inl SQLI_OK)"

lemma standsD: "stands m \<Longrightarrow> m c = (x, c') \<Longrightarrow> standing c' = standing c" "stands m \<Longrightarrow> m c = (Inl rc, c') \<Longrightarrow> rc \<noteq> SQLI_OK"
  unfolding stands_def by (metis fst_conv snd_conv)+

lemma standing_peer:
  "standing (c\<lparr>hc_peer := p\<rparr>) = standing c"
  if "clear_error (k_conn (p_link p)) = clear_error (hc_conn c)" "p_discarded p = p_discarded (hc_peer c)"
  using that by (simp add: standing_def hc_conn_def hc_link_def)

lemma standing_updates [simp]:
  "standing (upd_conn (set_error msg) c) = standing c" "standing (hs_context phase op c) = standing c"
  "standing (upd_conn (ensure_error msg) c) = standing c" "standing (upd_conn clear_error c) = standing c"
  "standing (hs_state state c) = standing c"
  "standing (upd_conn (set_connect_service_error status op svc phase) c) = standing c"
  "standing (c\<lparr>hc_caps := caps\<rparr>) = standing c" "standing (c\<lparr>hc_login := lg\<rparr>) = standing c"
  "standing (c\<lparr>hc_fetch_buf_size := n\<rparr>) = standing c" "standing (with_arrivals arrivals c) = standing c"
  by (simp_all add: standing_def upd_conn_def peer_conn_def hc_conn_def hc_link_def clear_error_def set_error_def
      set_error_context_def ensure_error_def set_connect_service_error_def with_arrivals_def Let_def)

lemma standing_peek:
  "standing (c\<lparr>hc_peer := (hc_peer c)\<lparr>p_link := snd (sqli_tcp_peek n (hc_link c))\<rparr>\<rparr>) = standing c"
  using diagnosing.look_ahead [of n "hc_link c"] by (intro standing_peer) (simp_all add: hc_conn_def)

lemma standing_send [simp]: "standing (c\<lparr>hc_peer := snd (peer_send bytes (hc_peer c))\<rparr>) = standing c"
  by (rule standing_peer) (simp_all add: hc_conn_def hc_link_def peer_send_def Let_def)

lemma stands_pure: "stands (\<lambda>c. (Inr x, c))" "stands (Pair (Inr x))"
  by (simp_all add: stands_def)

lemma stands_and_then: "stands m \<Longrightarrow> (\<And>x. stands (f x)) \<Longrightarrow> stands (and_then m f)"
  unfolding stands_def and_then_def by (auto split: prod.splits sum.splits) (metis fst_conv snd_conv)+

lemma stands_if: "stands m \<Longrightarrow> stands n \<Longrightarrow> stands (\<lambda>c. if b c then m c else n c)"
  "stands m \<Longrightarrow> stands n \<Longrightarrow> stands (if d then m else n)"
  by (simp_all add: stands_def)

lemma stands_after: "stands m \<Longrightarrow> (\<And>c. standing (g c) = standing c) \<Longrightarrow> stands (\<lambda>c. m (g c))"
  by (simp add: stands_def)

lemma stands_fail: "rc \<noteq> SQLI_OK \<Longrightarrow> stands (hs_fail rc msg)" "rc \<noteq> SQLI_OK \<Longrightarrow> stands (\<lambda>c. hs_fail rc (f c) c)"
  by (simp_all add: stands_def hs_fail_def)

lemma stands_or_error: "stands m \<Longrightarrow> stands (or_error msg m)"
  unfolding stands_def or_error_def by (auto simp: hs_fail_def split: prod.splits sum.splits) (metis fst_conv snd_conv)+

lemma stands_read: "stands (hs_read_exact n)" "stands hs_read_be16"
proof -
  show "stands (hs_read_exact m)" for m by (auto simp: stands_def hs_read_exact_def split: prod.split option.split)
  from this [of 2] show "stands hs_read_be16" unfolding hs_read_be16_def by (intro stands_and_then stands_pure)
qed

lemma stands_drain: "stands (hs_drain n)"
proof -
  have "standing (snd (hs_drain n c)) = standing c \<and> fst (hs_drain n c) \<noteq> Inl SQLI_OK" for c
  proof (induction n c rule: hs_drain.induct)
    case (1 count c)
    obtain x c1 where r: "hs_read_exact (min count 256) c = (x, c1)" by fastforce
    have "standing c1 = standing c" "x \<noteq> Inl SQLI_OK" using standsD [OF stands_read(1)] r by blast+
    then show ?case using 1 [OF _ r [symmetric]] r by (subst (1 2) hs_drain.simps) (auto split: sum.split)
  qed
  then show ?thesis by (simp add: stands_def)
qed

lemma stands_send: "stands (hs_send bytes msg)"
proof -
  have "standing (snd (hs_send bytes msg c)) = standing c \<and> fst (hs_send bytes msg c) \<noteq> Inl SQLI_OK" for c
    using standing_send [where c = c and bytes = bytes] by (cases "peer_send bytes (hc_peer c)") (simp add: hs_send_def hs_fail_def)
  then show ?thesis by (simp add: stands_def)
qed

lemma standing_steps [simp]:
  "standing (snd (hs_fail rc msg c)) = standing c" "standing (snd (hs_send bytes msg c)) = standing c"
  "standing (snd (hs_read_exact n c)) = standing c" "fst (hs_fail rc msg c) = Inl rc" "fst (hs_send bytes msg c) \<noteq> Inl SQLI_OK"
  by (simp_all add: stands_send [unfolded stands_def, rule_format] stands_read(1) [unfolded stands_def, rule_format] hs_fail_def)

lemmas stands_steps = stands_pure stands_fail stands_if stands_or_error stands_read stands_drain stands_send stands_and_then


lemmas stands_context = stands_after [OF _ standing_updates(2)]
lemmas stands_state = stands_after [OF _ standing_updates(5)]
lemmas stands_caps = stands_after [OF _ standing_updates(7)]

lemma stands_option: "stands m \<Longrightarrow> (\<And>x. stands (f x)) \<Longrightarrow> stands (case y of None \<Rightarrow> m | Some x \<Rightarrow> f x)"
  by (cases y) simp_all

section \<open>The steps\<close>

lemma stands_conacc: "stands (parse_conacc_body body phase opcode)"
  by (auto simp: stands_def parse_conacc_body_def Let_def split: prod.split option.split)

lemma stands_body: "stands (read_body mem len g msg)" if g: "\<And>c. standing (g c) = standing c"
proof -
  have "standing (snd (read_body mem len g msg c)) = standing c \<and> fst (read_body mem len g msg c) \<noteq> Inl SQLI_OK" for c
    using standsD [OF stands_read(1), of len c]
    by (cases "hs_read_exact len c") (auto simp: read_body_def hs_fail_def g split: sum.split)
  then show ?thesis by (simp add: stands_def)
qed

lemma stands_conrej: "stands (handle_conrej_body mem ty pdu)"
  unfolding handle_conrej_body_def Let_def
  by (intro stands_if stands_and_then stands_body stands_conacc stands_after [OF stands_fail(1)] standing_updates) simp_all

lemma stands_protocols: "stands do_sq_protocols"
proof -
  have last: "stands (\<lambda>c. and_then (or_error msg hs_read_be16) (\<lambda>trailing c.
           if trailing \<noteq> SQLI_SQ_EOT
           then hs_fail SQLI_PROTO_ERROR (f trailing) c else (Inr (), c)) (c\<lparr>hc_caps := set_caps len sp (hc_caps c)\<rparr>))"
    for msg f len sp
    by (rule stands_after) (intro stands_steps, simp_all)
  show ?thesis unfolding do_sq_protocols_def by (rule stands_context) (intro stands_steps last, simp_all)
qed

lemma stands_pam_step: "stands (pam_step mem)"
proof -
  have "stands (pam_answer mem style)" for style
  proof -
    have "standing (snd (pam_answer mem style c)) = standing c \<and> fst (pam_answer mem style c) \<noteq> Inl SQLI_OK" for c
      by (simp add: pam_answer_def Let_def)
    then show ?thesis by (simp add: stands_def)
  qed
  then show ?thesis unfolding pam_step_def by (intro stands_steps) simp_all
qed

lemma stands_pam: "stands (do_pam_handshake mem)"
proof -
  have "standing (snd (pam_loop mem c)) = standing c \<and> fst (pam_loop mem c) \<noteq> Inl SQLI_OK" for c
  proof (induction mem c rule: pam_loop.induct)
    case (1 mem c)
    obtain x c1 where s: "pam_step mem c = (x, c1)" by fastforce
    have "standing c1 = standing c" "x \<noteq> Inl SQLI_OK" using standsD [OF stands_pam_step] s by blast+
    then show ?case using 1 [OF s [symmetric]] s by (subst (1 2) pam_loop.simps) (auto split: sum.split)
  qed
  then have "stands (pam_loop mem)" by (simp add: stands_def)
  then show ?thesis unfolding do_pam_handshake_def by (intro stands_context stands_and_then stands_send)
qed

lemma stands_info: "stands send_info"
proof -
  have "standing (drop_extra c) = standing c" for c
    using standing_peek [where c = c and n = 1] by (cases "sqli_tcp_peek 1 (hc_link c)") (simp add: drop_extra_def Let_def)
  then have "stands (\<lambda>c. (Inr (), drop_extra c))" by (simp add: stands_def)
  then show ?thesis
    unfolding send_info_def by (intro stands_context [THEN stands_state] stands_steps) simp_all
qed


lemma stands_dbopen: "stands (open_database env params)"
proof -
  have aside: "standing (c\<lparr>hc_peer := snd (dispatch_aside e (hc_peer c))\<rparr>) = standing c" for c e
  proof (rule standing_peer)
    obtain y k where d: "sqli_receive_dispatch (ce_dispatch e) (Some zero_result) (hc_link c) = (y, k)" by fastforce
    show "clear_error (k_conn (p_link (snd (dispatch_aside e (hc_peer c))))) = clear_error (hc_conn c)"
      "p_discarded (snd (dispatch_aside e (hc_peer c))) = p_discarded (hc_peer c)"
      using d keepsD [OF diagnosing.keeps_dispatch d]
      by (auto simp: dispatch_aside_def on_link_def hc_conn_def hc_link_def split: prod.split)
  qed
  have reply: "standing (snd (receive_dbopen_reply env c)) = standing c" "fst (receive_dbopen_reply env c) \<noteq> Inl SQLI_OK" for c
    using aside [where c = c and e = "with_caps (hc_caps c) env"]
    by (cases "dispatch_aside (with_caps (hc_caps c) env) (hc_peer c)"; simp add: receive_dbopen_reply_def Let_def)+
  have again: "stands (\<lambda>c. case sqli_tcp_peek 1 (hc_link c) of
         (there, k) \<Rightarrow>
           let c = c\<lparr>hc_peer := (hc_peer c)\<lparr>p_link := k\<rparr>\<rparr>
           in if there \<noteq> [] then receive_dbopen_reply env c else (Inr (), c))"
    unfolding stands_def
  proof
    fix c
    let ?m = "case sqli_tcp_peek 1 (hc_link c) of
         (there, k) \<Rightarrow>
           let c = c\<lparr>hc_peer := (hc_peer c)\<lparr>p_link := k\<rparr>\<rparr>
           in if there \<noteq> [] then receive_dbopen_reply env c else (Inr (), c)"
    show "standing (snd ?m) = standing c \<and> fst ?m \<noteq> Inl SQLI_OK"
      using standing_peek [where c = c and n = 1] by (cases "sqli_tcp_peek 1 (hc_link c)") (simp add: reply Let_def)
  qed
  have "stands (receive_dbopen_reply env)" using reply by (simp add: stands_def)
  then show ?thesis
    unfolding open_database_def by (intro stands_context [THEN stands_state] stands_steps again)
qed

lemma stands_session: "stands (session_phase env cn params)"
proof -
  have "stands (\<lambda>c. if has_pam (hc_caps c) then do_pam_handshake (cn_mem cn) (hs_state SQLI_CONN_AUTH c) else (Inr (), c))"
    by (intro stands_if stands_state stands_pam stands_pure)
  then show ?thesis
    unfolding session_phase_def by (intro stands_and_then stands_protocols stands_info stands_dbopen)
qed

lemma stands_ipc: "stands (ipc_handshake cn)"
proof -
  have "stands (ipc_exchange mem preamble)" for mem preamble
    unfolding ipc_exchange_def by (intro stands_context stands_steps stands_body stands_conacc) simp_all
  then have "stands (\<lambda>c. ipc_exchange (cn_mem cn) (sqli_asc_encode_ipc_preamble (cn_os cn) (hc_login c) 1024)
      (hs_context ''connect/ipc_preamble'' 0 c))" by (simp add: stands_def)
  then show ?thesis unfolding ipc_handshake_def by (intro stands_context [THEN stands_state] stands_steps)
qed

lemma stands_answer: "stands (handle_answer mem h)"
  unfolding handle_answer_def Let_def
  by (intro stands_if stands_and_then stands_conrej stands_pure stands_after [OF stands_fail(1)] standing_updates
      stands_body stands_conacc) simp_all

lemma decode_header_status: "sqli_wire_decode_sl_header b = Inl rc \<Longrightarrow> rc \<noteq> SQLI_OK"
  by (auto simp: sqli_wire_decode_sl_header_def split: option.splits if_splits)

lemma stands_tcp: "stands (tcp_handshake cn)"
proof -
  have "stands (conreq_exchange mem request)" for mem request
    unfolding conreq_exchange_def
  proof (rule stands_and_then [OF stands_send])
    show "stands (\<lambda>c. case hs_read_exact SQLI_SL_HEADER_SIZE c of
         (Inl rc, c) \<Rightarrow> hs_fail rc ''failed to read server response header'' (hs_context ''connect/sl_header_read'' 0 c)
       | (Inr bytes, c) \<Rightarrow>
           (case sqli_wire_decode_sl_header (Some bytes) of Inl rc \<Rightarrow> (Inl rc, c) | Inr h \<Rightarrow> handle_answer mem h c))"
      using stands_answer [unfolded stands_def]
      by (auto simp: stands_def decode_header_status dest: standsD [OF stands_read(1)] split: sum.split prod.split)
  qed
  then show ?thesis by (simp add: stands_def tcp_handshake_def Let_def)
qed


section \<open>The login\<close>

lemma stands_copy: "stands (copy_string n src get put msg)"
proof -
  have "standing (snd (copy_string n src get put msg c)) = standing c \<and> fst (copy_string n src get put msg c) \<noteq> Inl SQLI_OK" for c
    by (simp add: copy_string_def str_copy_def split: option.split)
  then show ?thesis by (simp add: stands_def)
qed

lemma stands_strings: "stands (copy_strings params)"
  unfolding copy_strings_def by (intro stands_and_then stands_copy)

lemma stands_unix: "stands (unix_login cn)"
proof -
  have "stands (\<lambda>c. (Inr (), c\<lparr>hc_login := (hc_login c)\<lparr>lg_password := []\<rparr>\<rparr>))" by (simp add: stands_def)
  then have login: "stands (and_then (if b then copy_string n src get put msg else (\<lambda>c. (Inr (), c)))
      (\<lambda>_ c. (Inr (), c\<lparr>hc_login := (hc_login c)\<lparr>lg_password := []\<rparr>\<rparr>)))" for b n src get put msg
    by (intro stands_and_then stands_if stands_copy stands_pure)
  have "standing (snd (unix_login cn c)) = standing c \<and> fst (unix_login cn c) \<noteq> Inl SQLI_OK" for c
    unfolding unix_login_def using login by (cases "use_unix_socket c") (simp_all del: if_split add: stands_def)
  then show ?thesis by (simp add: stands_def)
qed

definition on_socket :: "int \<Rightarrow> client \<Rightarrow> sqli_conn \<times> bool \<times> bool \<times> bool \<times> bool" where
  "on_socket fd c = ((fst (standing c))\<lparr>c_socket_fd := fd\<rparr>, snd (standing c))"

lemma standing_socket: "standing (upd_conn (\<lambda>conn. conn\<lparr>c_socket_fd := fd\<rparr>) c) = on_socket fd c"
  by (simp add: on_socket_def standing_def upd_conn_def peer_conn_def hc_conn_def hc_link_def clear_error_def)

lemma on_socket_cong: "standing c = standing c1 \<Longrightarrow> on_socket fd c = on_socket fd c1"
  by (simp add: on_socket_def)

lemma open_socket_opens:
  assumes "open_socket cn c = (x, c')"
  shows "standing c' = on_socket (cn_socket cn) c" and "x \<noteq> Inl SQLI_OK" and "x = Inr u \<Longrightarrow> 0 \<le> cn_socket cn"
proof -
  have socket: "standing (upd_conn (\<lambda>conn. conn\<lparr>c_socket_fd := fd\<rparr>) (hs_context phase op (hs_state state c))) = on_socket fd c"
    for fd phase op state unfolding standing_socket by (rule on_socket_cong) simp
  show "standing c' = on_socket (cn_socket cn) c" "x \<noteq> Inl SQLI_OK" "x = Inr u \<Longrightarrow> 0 \<le> cn_socket cn"
    using assms socket by (auto simp: open_socket_def Let_def hs_fail_def split: if_splits option.splits)
qed

lemma login_phase_opens:
  assumes "login_phase cn params c = (x, c')"
  shows "x \<noteq> Inl SQLI_OK \<and> (\<exists>fd. standing c' = on_socket fd c \<and> (\<forall>soft. x = Inr soft \<longrightarrow> fd = cn_socket cn \<and> 0 \<le> fd))"
proof -
  define start where "start = (\<lambda>c :: client. c\<lparr>hc_fetch_buf_size := parse_u32_env_local (cn_fetch_bufsize cn) 4194304 1024 (16 * 1024 * 1024),
      hc_peer := (hc_peer c)\<lparr>p_link := (hc_link c)\<lparr>k_buffer := []\<rparr>\<rparr>\<rparr>)"
  have start: "standing (start c) = standing c" for c
    by (simp add: start_def standing_def hc_conn_def hc_link_def)
  have old: "on_socket (c_socket_fd (fst (standing c))) c = standing c" by (simp add: on_socket_def)
  obtain y1 c1 where r1: "copy_strings params c = (y1, c1)" by fastforce
  obtain y2 c2 where r2: "unix_login cn (start c1) = (y2, c2)" by fastforce
  obtain y3 c3 where r3: "open_socket cn c2 = (y3, c3)" by fastforce
  let ?exchange = "\<lambda>c. if use_unix_socket c then and_then (ipc_handshake cn) (\<lambda>_ c. (Inr False, c)) c else tcp_handshake cn c"
  have exchange: "stands ?exchange" by (intro stands_if stands_and_then stands_ipc stands_tcp stands_pure)
  obtain y4 c4 where r4: "?exchange c3 = (y4, c4)" by fastforce
  have same: "standing c1 = standing c" "standing c2 = standing c" "standing c3 = on_socket (cn_socket cn) c"
      "standing c4 = on_socket (cn_socket cn) c"
    using standsD(1) [OF stands_strings r1] standsD(1) [OF stands_unix r2] open_socket_opens(1) [OF r3]
      on_socket_cong [of c2 c] standsD(1) [OF exchange r4] start by simp_all
  have ok: "y1 \<noteq> Inl SQLI_OK" "y2 \<noteq> Inl SQLI_OK" "y3 \<noteq> Inl SQLI_OK" "y4 \<noteq> Inl SQLI_OK"
    using standsD(2) [OF stands_strings] standsD(2) [OF stands_unix] open_socket_opens(2) [OF r3] standsD(2) [OF exchange] r1 r2 r4
    by blast+
  have "(x, c') = (case y1 of Inl rc \<Rightarrow> (Inl rc, c1) | Inr _ \<Rightarrow> (case y2 of Inl rc \<Rightarrow> (Inl rc, c2) | Inr _ \<Rightarrow>
      (case y3 of Inl rc \<Rightarrow> (Inl rc, c3) | Inr _ \<Rightarrow> (y4, c4))))"
    using assms r1 r2 r3 r4 unfolding login_phase_def and_then_def [of "copy_strings params"] and_then_def [of "unix_login cn"]
      and_then_def [of "open_socket cn"] by (simp add: start_def split: sum.splits)
  then show ?thesis
    using same ok open_socket_opens(3) [OF r3] old by (auto split: sum.splits) metis+
qed


section \<open>Connecting\<close>

text \<open>A connection that the call works on at all.\<close>

definition may_connect :: "sqli_connect_params option \<Rightarrow> client \<Rightarrow> bool" where
  "may_connect given c \<longleftrightarrow>
     (case given of None \<Rightarrow> False
      | Some params \<Rightarrow> cp_hostname params \<noteq> None \<and> cp_service params \<noteq> None \<and> c_state (hc_conn c) = SQLI_CONN_CLOSED \<and>
          \<not> p_discarded (hc_peer c) \<and> \<not> hc_pinned c \<and> \<not> hc_released c)"

text \<open>What is known of a connection with a socket, apart from its diagnostics.\<close>

definition outcome :: "sqli_conn_state \<Rightarrow> bool \<Rightarrow> int \<Rightarrow> client \<Rightarrow> client \<Rightarrow> bool" where
  "outcome state database fd c c' \<longleftrightarrow>
     clear_error (hc_conn c') = (clear_error (hc_conn c))\<lparr>c_socket_fd := fd, c_state := state\<rparr> \<and>
     hc_database_open c' = database \<and> p_discarded (hc_peer c') = p_discarded (hc_peer c) \<and>
     hc_pinned c' = hc_pinned c \<and> hc_released c' = hc_released c"

lemma outcomeD:
  assumes "outcome state database fd c c'"
  shows "c_state (hc_conn c') = state" "c_socket_fd (hc_conn c') = fd" "hc_database_open c' = database"
proof -
  have eq: "clear_error (hc_conn c') = (clear_error (hc_conn c))\<lparr>c_socket_fd := fd, c_state := state\<rparr>"
    using assms by (simp add: outcome_def)
  show "c_state (hc_conn c') = state" "c_socket_fd (hc_conn c') = fd"
    using arg_cong [OF eq, of c_state] arg_cong [OF eq, of c_socket_fd] by (simp_all add: clear_error_def)
  show "hc_database_open c' = database" using assms by (simp add: outcome_def)
qed

lemma outcome_reached:
  assumes "standing c1 = on_socket fd c"
  shows "outcome SQLI_CONN_READY True fd c (upd_conn clear_error (hs_state SQLI_CONN_READY (c1\<lparr>hc_database_open := True\<rparr>)))"
    and "\<exists>fd < 0. outcome SQLI_CONN_ERROR (hc_database_open c) fd c (connect_failed soft c1)"
proof -
  show "outcome SQLI_CONN_READY True fd c (upd_conn clear_error (hs_state SQLI_CONN_READY (c1\<lparr>hc_database_open := True\<rparr>)))"
    using assms by (cases "hc_conn c1"; cases "hc_conn c")
      (auto simp: outcome_def on_socket_def standing_def upd_conn_def peer_conn_def hc_conn_def hc_link_def clear_error_def)
  define fd1 where "fd1 = (if 0 \<le> c_socket_fd (hc_conn c1) then -1 else c_socket_fd (hc_conn c1))"
  have "outcome SQLI_CONN_ERROR (hc_database_open c) fd1 c (connect_failed soft c1)"
    using assms unfolding fd1_def by (cases "hc_conn c1"; cases "hc_conn c")
      (auto simp: outcome_def on_socket_def standing_def connect_failed_def upd_conn_def peer_conn_def hc_conn_def hc_link_def
        clear_error_def set_error_def Let_def)
  moreover have "fd1 < 0" by (simp add: fd1_def)
  ultimately show "\<exists>fd < 0. outcome SQLI_CONN_ERROR (hc_database_open c) fd c (connect_failed soft c1)" by blast
qed


text \<open>The same client, with all its traffic, up to the diagnostics.\<close>

definition same_but_diagnostics :: "client \<Rightarrow> client \<Rightarrow> bool" where
  "same_but_diagnostics c c' \<longleftrightarrow> upd_conn clear_error c' = upd_conn clear_error c"

lemma refused_connect:
  "\<not> may_connect given c \<Longrightarrow> \<exists>c'. sqli_connect env cn given c = (SQLI_INVALID_STATE, c') \<and> same_but_diagnostics c c'"
  by (auto simp: may_connect_def sqli_connect_def same_but_diagnostics_def Let_def upd_conn_def peer_conn_def hc_conn_def hc_link_def
      clear_error_def set_error_def set_error_context_def split: option.splits)

lemma tried_connect:
  assumes given: "given = Some params" "may_connect given c"
    and run: "sqli_connect env cn given c = (rc, c')"
  shows "(rc = SQLI_OK \<and> 0 \<le> cn_socket cn \<and> outcome SQLI_CONN_READY True (cn_socket cn) c c' \<and> c_errmsg (hc_conn c') = []) \<or>
    (rc \<noteq> SQLI_OK \<and> (\<exists>fd < 0. outcome SQLI_CONN_ERROR (hc_database_open c) fd c c'))"
proof -
  define c0 where "c0 = upd_conn clear_error c"
  obtain x c1 where login: "login_phase cn params c0 = (x, c1)" by fastforce
  obtain y c2 where session: "session_phase env cn params c1 = (y, c2)" by fastforce
  have start: "on_socket fd c0 = on_socket fd c" for fd by (rule on_socket_cong) (simp add: c0_def)
  have state: "c_state (hc_conn c0) = c_state (hc_conn c)"
    by (simp add: c0_def upd_conn_def peer_conn_def hc_conn_def hc_link_def clear_error_def)
  have same: "standing c2 = standing c1" by (rule standsD(1) [OF stands_session session])
  have ran: "(rc, c') = (case x of Inl rc \<Rightarrow> (rc, connect_failed False c1) | Inr soft \<Rightarrow> (case y of Inl rc \<Rightarrow> (rc, connect_failed soft c2)
      | Inr _ \<Rightarrow> (SQLI_OK, upd_conn clear_error (hs_state SQLI_CONN_READY (c2\<lparr>hc_database_open := True\<rparr>)))))"
    using given login session run
    by (auto simp: may_connect_def sqli_connect_def Let_def c0_def [symmetric] state split: sum.splits)
  have no_error: "c_errmsg (hc_conn (upd_conn clear_error c)) = []" for c
    by (simp add: upd_conn_def peer_conn_def hc_conn_def hc_link_def clear_error_def)
  show ?thesis
    using login_phase_opens [OF login] standsD(2) [OF stands_session] session ran outcome_reached [of c1 _ c] outcome_reached [of c2 _ c]
      same no_error start by (cases x; cases y) auto
qed

text \<open>
  C5. Connecting is all or nothing, for every server, every network and every environment. A call that may not
  be made is refused and changes nothing but the diagnostics: nothing is sent or read, and login, capabilities,
  settings and the connection stay as they were. A call that succeeds leaves a connection that is ready, on the
  socket that was opened, with its database open and no error; a call that fails leaves a connection in the error
  state whose socket is closed. Either way the transaction flags, the autocommit mode, the isolation level and the
  epochs of the connection and its lifecycle flags are kept; the login, the capabilities, the fetch size and the
  traffic are the handshake's.
\<close>

theorem connect_all_or_nothing:
  "case sqli_connect env cn given c of (rc, c') \<Rightarrow>
     if \<not> may_connect given c
     then rc = SQLI_INVALID_STATE \<and> same_but_diagnostics c c'
     else if rc = SQLI_OK
     then 0 \<le> cn_socket cn \<and> outcome SQLI_CONN_READY True (cn_socket cn) c c' \<and> c_errmsg (hc_conn c') = []
     else \<exists>fd < 0. outcome SQLI_CONN_ERROR (hc_database_open c) fd c c'"
proof (cases "may_connect given c")
  case True
  then obtain params where "given = Some params" by (auto simp: may_connect_def split: option.splits)
  moreover obtain rc c' where run: "sqli_connect env cn given c = (rc, c')" by fastforce
  ultimately show ?thesis using tried_connect [OF _ True run] True by auto
next
  case False
  then show ?thesis using refused_connect [OF False, of env cn] by auto
qed


section \<open>Closing\<close>

lemma standing_drain_close: "standing (drain_close c) = standing c"
proof (induction c rule: drain_close.induct)
  case (1 c)
  obtain x c1 where r: "hs_read_be16 c = (x, c1)" by fastforce
  obtain y c2 where d: "hs_drain 6 c1 = (y, c2)" by fastforce
  have "standing c1 = standing c" "standing c2 = standing c1"
    using standsD(1) [OF stands_read(2) r] standsD(1) [OF stands_drain d] by simp_all
  then show ?case using 1 [OF r [symmetric] _ _ d [symmetric]] r d by (subst drain_close.simps) (auto split: sum.split)
qed

lemma same_but_state:
  "(clear_error a)\<lparr>c_state := s\<rparr> = (clear_error b)\<lparr>c_state := s\<rparr> \<Longrightarrow> clear_error a = (clear_error b)\<lparr>c_state := c_state a\<rparr>"
  by (cases a; cases b) (simp add: clear_error_def)

lemma close_keeps:
  "clear_error (hc_conn (sqli_close tcp_discard c)) = (clear_error (hc_conn c))
     \<lparr>c_socket_fd := c_socket_fd (hc_conn (sqli_close tcp_discard c)), c_state := c_state (hc_conn (sqli_close tcp_discard c))\<rparr>"
proof -
  have drained: "clear_error (hc_conn (drain_close (c\<lparr>hc_peer := snd (peer_send bytes (hc_peer c))\<rparr>))) =
      (clear_error (hc_conn c))\<lparr>c_state := c_state (hc_conn (drain_close (c\<lparr>hc_peer := snd (peer_send bytes (hc_peer c))\<rparr>)))\<rparr>" for bytes
    using standing_drain_close [of "c\<lparr>hc_peer := snd (peer_send bytes (hc_peer c))\<rparr>"] standing_send [where c = c and bytes = bytes]
    by (intro same_but_state [where s = SQLI_CONN_CLOSED]) (simp add: standing_def)
  have pushed: "clear_error (conn\<lparr>c_socket_fd := fd\<rparr>) = (clear_error conn)\<lparr>c_socket_fd := fd\<rparr>"
      "clear_error (conn\<lparr>c_state := state\<rparr>) = (clear_error conn)\<lparr>c_state := state\<rparr>" for conn fd state
    by (simp_all add: clear_error_def)
  have conn: "hc_conn (upd_conn f c) = f (hc_conn c)" "hc_conn (c\<lparr>hc_database_open := b\<rparr>) = hc_conn c"
      "hc_conn (c\<lparr>hc_peer := (hc_peer c)\<lparr>p_discarded := b\<rparr>\<rparr>) = hc_conn c"
      "hc_conn (c\<lparr>hc_peer := (hc_peer c)\<lparr>p_link := (hc_link c)\<lparr>k_buffer := bs\<rparr>\<rparr>\<rparr>) = hc_conn c" for f c b bs
    by (simp_all add: upd_conn_def peer_conn_def hc_conn_def hc_link_def)
  have discarded: "clear_error (hc_conn (discard_client tcp_discard c)) = (clear_error (hc_conn c))
      \<lparr>c_socket_fd := c_socket_fd (hc_conn (discard_client tcp_discard c)), c_state := c_state (hc_conn (discard_client tcp_discard c))\<rparr>"
    by (simp add: discard_client_def Let_def conn pushed clear_error_def)
  show ?thesis
  proof (cases "hc_pinned c \<or> p_discarded (hc_peer c)")
    case True
    then show ?thesis using discarded by (auto simp: sqli_close_def)
  next
    case False
    have unchanged: "(clear_error conn)\<lparr>c_socket_fd := c_socket_fd conn, c_state := state\<rparr> = (clear_error conn)\<lparr>c_state := state\<rparr>"
      for conn state by (simp add: clear_error_def)
    show ?thesis
      using False by (simp add: sqli_close_def Let_def conn pushed drained unchanged)
  qed
qed

text \<open>
  A connection that is closed within a transaction and connected again still says that it is in one, so that
  \<open>sqli_autobegin\<close> begins none and \<open>sqli_begin\<close> refuses to: neither call of the life cycle resets the flags of
  the transaction.
\<close>

lemma transaction_flag_survives:
  assumes "sqli_connect env cn given (sqli_close tcp_discard c) = (SQLI_OK, c')"
  shows "c_in_transaction (hc_conn c') = c_in_transaction (hc_conn c)" "c_in_batch (hc_conn c') = c_in_batch (hc_conn c)"
    "c_autocommit (hc_conn c') = c_autocommit (hc_conn c)"
proof -
  let ?closed = "sqli_close tcp_discard c"
  have may: "may_connect given ?closed" using refused_connect [of given ?closed env cn] assms by auto
  then obtain params where "given = Some params" by (auto simp: may_connect_def split: option.splits)
  from tried_connect [OF this may assms]
  have "clear_error (hc_conn c') = (clear_error (hc_conn ?closed))\<lparr>c_socket_fd := cn_socket cn, c_state := SQLI_CONN_READY\<rparr>"
    by (simp add: outcome_def)
  then have eq: "clear_error (hc_conn c') = (clear_error (hc_conn c))\<lparr>c_socket_fd := cn_socket cn, c_state := SQLI_CONN_READY\<rparr>"
    by (simp add: close_keeps)
  show "c_in_transaction (hc_conn c') = c_in_transaction (hc_conn c)" "c_in_batch (hc_conn c') = c_in_batch (hc_conn c)"
    "c_autocommit (hc_conn c') = c_autocommit (hc_conn c)"
    using arg_cong [OF eq, of c_in_transaction] arg_cong [OF eq, of c_in_batch] arg_cong [OF eq, of c_autocommit]
    by (simp_all add: clear_error_def)
qed

end
