(* ===== verification/ConnectFacts.thy ===== *)
theory ConnectFacts
  imports HandshakeFacts DispatchFacts AscFacts
begin

text \<open>
  Connecting succeeds: a server that accepts the request over TCP, tells its capabilities, asks for as many PAM
  challenges as it likes and opens the database is answered message by message, and the connection is ready.
\<close>

section \<open>Conversations\<close>

text \<open>A client whose socket takes everything, with nothing buffered; a look at the socket never shows anything.\<close>

definition attentive :: "client \<Rightarrow> bool" where
  "attentive c \<longleftrightarrow> willing (hc_peer c) \<and> k_buffer (hc_link c) = [] \<and> k_peeks (hc_link c) = []"

text \<open>What the server says, what the client sends meanwhile, and what becomes of the capabilities.\<close>

definition talks ::
  "(client \<Rightarrow> 'a fallible \<times> client) \<Rightarrow> login \<Rightarrow> byte list \<Rightarrow> byte list list \<Rightarrow> (capabilities \<Rightarrow> capabilities) \<Rightarrow> 'a \<Rightarrow> bool" where
  "talks m lg heard said g x \<longleftrightarrow>
     (\<forall>c rest. attentive c \<longrightarrow> hc_login c = lg \<longrightarrow> stream (hc_link c) = heard @ rest \<longrightarrow>
       (\<exists>c'. m c = (Inr x, c') \<and> attentive c' \<and> hc_login c' = lg \<and> stream (hc_link c') = rest \<and>
          p_sent (hc_peer c') = p_sent (hc_peer c) @ said \<and> hc_caps c' = g (hc_caps c)))"

definition kept :: "capabilities \<Rightarrow> capabilities" where
  "kept caps = caps"

lemma kept [simp]: "kept \<circ> g = g" "g \<circ> kept = g"
  by (simp_all add: fun_eq_iff kept_def)

lemma talksD:
  assumes "talks m lg heard said g x" "attentive c" "hc_login c = lg" "stream (hc_link c) = heard @ rest"
  obtains c' where "m c = (Inr x, c')" "attentive c'" "hc_login c' = lg" "stream (hc_link c') = rest"
    "p_sent (hc_peer c') = p_sent (hc_peer c) @ said" "hc_caps c' = g (hc_caps c)"
  using assms unfolding talks_def by metis

lemma talks_and_then:
  assumes "talks m lg a s g x" "talks (f x) lg b t h y"
  shows "talks (and_then m f) lg (a @ b) (s @ t) (h \<circ> g) y"
  unfolding talks_def
proof (intro allI impI)
  fix c rest
  assume c: "attentive c" "hc_login c = lg" "stream (hc_link c) = (a @ b) @ rest"
  obtain c1 where c1: "m c = (Inr x, c1)" "attentive c1" "hc_login c1 = lg" "stream (hc_link c1) = b @ rest"
      "p_sent (hc_peer c1) = p_sent (hc_peer c) @ s" "hc_caps c1 = g (hc_caps c)"
    by (rule talksD [OF assms(1) c(1,2)]) (use c(3) in auto)
  obtain c2 where "f x c1 = (Inr y, c2)" "attentive c2" "hc_login c2 = lg" "stream (hc_link c2) = rest"
      "p_sent (hc_peer c2) = p_sent (hc_peer c1) @ t" "hc_caps c2 = h (hc_caps c1)"
    by (rule talksD [OF assms(2) c1(2-4)])
  then show "\<exists>c'. and_then m f c = (Inr y, c') \<and> attentive c' \<and> hc_login c' = lg \<and> stream (hc_link c') = rest \<and>
      p_sent (hc_peer c') = p_sent (hc_peer c) @ s @ t \<and> hc_caps c' = (h \<circ> g) (hc_caps c)"
    using c1 by (simp add: and_then_def)
qed

lemma talks_step:
  assumes "talks m lg a s g x" "talks (f x) lg b t h y" "heard = a @ b" "said = s @ t" "G = h \<circ> g"
  shows "talks (and_then m f) lg heard said G y"
  unfolding assms(3-5) by (rule talks_and_then, rule assms(1), rule assms(2))

lemma talks_pure: "talks (\<lambda>c. (Inr x, c)) lg [] [] kept x" "talks (Pair (Inr x)) lg [] [] kept x"
  by (simp_all add: talks_def kept_def)

lemma talks_or_error: "talks m lg a s g x \<Longrightarrow> talks (or_error msg m) lg a s g x"
  unfolding talks_def or_error_def by fastforce

text \<open>Steps before a conversation that it does not depend on.\<close>

lemma talks_after:
  assumes "talks m lg a s g x"
    and "\<And>c. attentive (f c) = attentive c" "\<And>c. hc_login (f c) = hc_login c" "\<And>c. stream (hc_link (f c)) = stream (hc_link c)"
      "\<And>c. p_sent (hc_peer (f c)) = p_sent (hc_peer c)" "\<And>c. hc_caps (f c) = h (hc_caps c)"
  shows "talks (\<lambda>c. m (f c)) lg a s (g \<circ> h) x"
  unfolding talks_def
proof (intro allI impI)
  fix c rest
  assume "attentive c" "hc_login c = lg" "stream (hc_link c) = a @ rest"
  then obtain c' where "m (f c) = (Inr x, c')" "attentive c'" "hc_login c' = lg" "stream (hc_link c') = rest"
      "p_sent (hc_peer c') = p_sent (hc_peer (f c)) @ s" "hc_caps c' = g (hc_caps (f c))"
    using talksD [OF assms(1), of "f c" rest] assms(2-4) by metis
  then show "\<exists>c'. m (f c) = (Inr x, c') \<and> attentive c' \<and> hc_login c' = lg \<and> stream (hc_link c') = rest \<and>
      p_sent (hc_peer c') = p_sent (hc_peer c) @ s \<and> hc_caps c' = (g \<circ> h) (hc_caps c)"
    using assms(5,6) by auto
qed

lemma diagnosis_talks [simp]:
  "attentive (hs_context phase op c) = attentive c" "hc_login (hs_context phase op c) = hc_login c"
  "stream (hc_link (hs_context phase op c)) = stream (hc_link c)" "p_sent (hc_peer (hs_context phase op c)) = p_sent (hc_peer c)"
  "hc_caps (hs_context phase op c) = hc_caps c"
  "attentive (hs_state state c) = attentive c" "hc_login (hs_state state c) = hc_login c"
  "stream (hc_link (hs_state state c)) = stream (hc_link c)" "p_sent (hc_peer (hs_state state c)) = p_sent (hc_peer c)"
  "hc_caps (hs_state state c) = hc_caps c"
  by (simp_all add: attentive_def upd_conn_def peer_conn_def hc_link_def stream_def set_error_context_def willing_def)

lemma talks_context: "talks m lg a s g x \<Longrightarrow> talks (\<lambda>c. m (hs_context phase op c)) lg a s g x"
  using talks_after [of m lg a s g x "hs_context phase op" kept] by (simp add: kept_def)

lemma talks_state: "talks m lg a s g x \<Longrightarrow> talks (\<lambda>c. m (hs_state state c)) lg a s g x"
  using talks_after [of m lg a s g x "hs_state state" kept] by (simp add: kept_def)

section \<open>Reading and writing\<close>

lemma tcp_take_stream:
  "count \<le> length (arriving arrivals) \<Longrightarrow>
   \<exists>rest. tcp_take count arrivals = (Some (take count (arriving arrivals)), rest) \<and> arriving rest = drop count (arriving arrivals)"
proof (induction count arrivals rule: tcp_take.induct)
  case (2 count a arrivals)
  show ?case
  proof (cases "count = 0")
    case False
    then obtain bytes where a: "a = Bytes bytes" "bytes \<noteq> []" using 2(2) by (cases a) (auto split: if_splits)
    show ?thesis
    proof (cases "count < length bytes")
      case True
      then show ?thesis using False a by simp
    next
      case long: False
      have "count - length bytes \<le> length (arriving arrivals)" using 2(2) a by simp
      from 2(1) [OF False a(1,2) long this] show ?thesis using False a long by auto
    qed
  qed simp
qed simp

lemma talks_read: "length bytes = n \<Longrightarrow> talks (hs_read_exact n) lg bytes [] kept bytes"
  unfolding talks_def
proof (intro allI impI)
  fix c rest
  assume n: "length bytes = n" and c: "attentive c" "hc_login c = lg" "stream (hc_link c) = bytes @ rest"
  have s: "arriving (k_arrivals (hc_link c)) = bytes @ rest" using c by (simp add: attentive_def stream_def)
  then obtain arrivals where t: "tcp_take n (k_arrivals (hc_link c)) = (Some bytes, arrivals)" "arriving arrivals = rest"
    using tcp_take_stream [of n "k_arrivals (hc_link c)"] n by auto
  have "attentive (with_arrivals arrivals c)" "stream (hc_link (with_arrivals arrivals c)) = rest"
    using c(1) t(2) by (simp_all add: attentive_def with_arrivals_def hc_link_def willing_def stream_def)
  then show "\<exists>c'. hs_read_exact n c = (Inr bytes, c') \<and> attentive c' \<and> hc_login c' = lg \<and> stream (hc_link c') = rest \<and>
      p_sent (hc_peer c') = p_sent (hc_peer c) @ [] \<and> hc_caps c' = kept (hc_caps c)"
    using t(1) c(2) by (simp add: hs_read_exact_def kept_def) (simp add: with_arrivals_def)
qed

lemma talks_be16:
  assumes "n < 2 ^ 16"
  shows "talks hs_read_be16 lg (net16 n) [] kept n"
proof -
  have "talks hs_read_be16 lg (net16 n @ []) ([] @ []) (kept \<circ> kept) n"
    unfolding hs_read_be16_def by (rule talks_and_then [OF talks_read]) (simp add: net16_def, simp add: net16_value [OF assms] talks_pure)
  then show ?thesis by simp
qed

lemma talks_drain: "length bytes = n \<Longrightarrow> talks (hs_drain n) lg bytes [] kept ()"
proof (induction n arbitrary: bytes rule: less_induct)
  case (less n)
  show ?case
  proof (cases "n = 0")
    case True
    then have "hs_drain n = (\<lambda>c. (Inr (), c))" by (simp add: fun_eq_iff hs_drain.simps)
    then show ?thesis using True less(2) talks_pure(1) [of "()" lg] by simp
  next
    case False
    let ?m = "min n 256"
    have "hs_drain n = and_then (hs_read_exact ?m) (\<lambda>_. hs_drain (n - ?m))"
      using False by (simp add: fun_eq_iff and_then_def hs_drain.simps [of n])
    moreover have "talks (hs_drain (n - ?m)) lg (drop ?m bytes) [] kept ()" using False less by simp
    ultimately show ?thesis
      using talks_and_then [OF talks_read [of "take ?m bytes" ?m lg], of "\<lambda>_. hs_drain (n - ?m)" "drop ?m bytes" "[]" kept "()"] less(2)
      by simp
  qed
qed

lemma talks_send: "bytes \<noteq> [] \<Longrightarrow> talks (hs_send bytes msg) lg [] [bytes] kept ()"
  by (auto simp: talks_def kept_def attentive_def hs_send_def peer_send_def willing_def hc_link_def stream_def)

section \<open>The server\<close>

text \<open>An answer that accepts: its length is within the range of its field, and it reports no error of the service.\<close>

definition conacc_ok :: "byte list \<Rightarrow> bool" where
  "conacc_ok body \<longleftrightarrow> 4 \<le> length body \<and> length body + 6 < 2 ^ 16 \<and>
     (case scan_for_102 body (snd (conacc_fields body)) of None \<Rightarrow> True | Some svc_error \<Rightarrow> svc_error = 0)"

definition conacc_message :: "byte list \<Rightarrow> byte list" where
  "conacc_message body = net16 (length body + 6) @ [u8 SQLI_SLTYPE_CONACC, u8 SQLI_SL_PROT_SQLI, 0, 0] @ body"

definition told_cap_1 :: "byte list \<Rightarrow> capabilities \<Rightarrow> capabilities" where
  "told_cap_1 body caps = (case fst (conacc_fields body) of None \<Rightarrow> caps | Some n \<Rightarrow> caps\<lparr>cap_1 := signed32 n\<rparr>)"

definition protocols_reply :: "byte list \<Rightarrow> byte list" where
  "protocols_reply cs = net16 SQLI_SQ_PROTOCOLS @ counted_bytes cs @ net16 SQLI_SQ_EOT"

record challenge =
  ch_style :: nat
  ch_prompts :: nat
  ch_text :: "byte list"

definition challenge_ok :: "challenge \<Rightarrow> bool" where
  "challenge_ok ch \<longleftrightarrow> ch_style ch < 2 ^ 16 \<and> ch_prompts ch < 2 ^ 16 \<and> length (ch_text ch) < 2 ^ 16"

definition challenge_bytes :: "challenge \<Rightarrow> byte list" where
  "challenge_bytes ch = net16 SQLI_SQ_CHALLENGE @ net16 (ch_style ch) @ net16 (ch_prompts ch) @ counted_bytes (ch_text ch)"

text \<open>What is only told is acknowledged; everything else is answered with the password.\<close>

definition challenge_answer :: "login \<Rightarrow> challenge \<Rightarrow> byte list" where
  "challenge_answer lg ch =
     (if ch_style ch = 3 \<or> ch_style ch = 4 then ack_eot else net16 SQLI_SQ_RESPONSE @ counted True (lg_password lg))"

section \<open>The exchanges\<close>

lemma opcode_bounds:
  "SQLI_SQ_PROTOCOLS < 2 ^ 16" "SQLI_SQ_EOT < 2 ^ 16" "SQLI_SQ_CHALLENGE < 2 ^ 16" "SQLI_SQ_ACCEPT < 2 ^ 16"
  by (simp_all add: limit_defs)

lemma net16_nonempty [simp]: "net16 n \<noteq> []"
  by (simp add: net16_def)

lemma talks_protocols:
  assumes "length cs < 2 ^ 16"
  shows "talks do_sq_protocols lg (protocols_reply cs) [protocols_request] (set_caps (length cs) (take 16 cs)) ()"
proof -
  let ?n = "length cs"
  have last: "talks (\<lambda>c. and_then (or_error msg hs_read_be16) (\<lambda>trailing c.
           if trailing \<noteq> SQLI_SQ_EOT
           then hs_fail SQLI_PROTO_ERROR (f trailing) c else (Inr (), c)) (c\<lparr>hc_caps := set_caps ?n sp (hc_caps c)\<rparr>))
      lg (net16 SQLI_SQ_EOT @ []) ([] @ []) ((kept \<circ> kept) \<circ> set_caps ?n sp) ()" for msg f sp
    by (rule talks_after, rule talks_and_then [OF talks_or_error [OF talks_be16 [OF opcode_bounds(2)]]])
      (simp_all add: talks_pure attentive_def hc_link_def)
  have caps: "length (take 16 cs) = min ?n 16" "take 16 cs @ drop 16 cs @ rest = cs @ rest"
      "length (drop 16 cs @ replicate (?n mod 2) 0) = ?n - min ?n 16 + ?n mod 2" for rest
    by (simp_all add: min_def flip: append_assoc)
  have drained: "talks (and_then (or_error m1 (hs_drain (?n - min ?n 16 + ?n mod 2))) (\<lambda>_ c. and_then (or_error msg hs_read_be16) (\<lambda>trailing c.
           if trailing \<noteq> SQLI_SQ_EOT
           then hs_fail SQLI_PROTO_ERROR (f trailing) c else (Inr (), c)) (c\<lparr>hc_caps := set_caps ?n sp (hc_caps c)\<rparr>)))
      lg ((drop 16 cs @ replicate (?n mod 2) 0) @ net16 SQLI_SQ_EOT) [] (set_caps ?n sp) ()" for m1 msg f sp
    by (rule talks_step, rule talks_or_error, rule talks_drain [OF caps(3)], rule last) simp_all
  have "talks do_sq_protocols lg
      (net16 SQLI_SQ_PROTOCOLS @ net16 ?n @ take 16 cs @ (drop 16 cs @ replicate (?n mod 2) 0) @ net16 SQLI_SQ_EOT)
      [protocols_request] (set_caps ?n (take 16 cs)) ()"
    unfolding do_sq_protocols_def
    by (rule talks_context, rule talks_step, rule talks_send, simp add: protocols_request_def,
        rule talks_step, rule talks_or_error, rule talks_be16, rule opcode_bounds(1),
        rule talks_step, rule talks_or_error, rule talks_be16, rule assms, simp only: if_False simp_thms,
        rule talks_step, rule talks_or_error, rule talks_read, rule caps(1), rule drained) simp_all
  then show ?thesis by (simp add: protocols_reply_def counted_bytes_def caps(2))
qed

text \<open>PAM\<close>

lemma talks_challenge:
  assumes "challenge_ok ch" "length (lg_password lg) \<le> 512"
  shows "talks (pam_step True) lg (challenge_bytes ch) [challenge_answer lg ch] kept False"
proof -
  let ?n = "length (ch_text ch)" and ?header = "net16 (ch_style ch) @ net16 (ch_prompts ch) @ net16 (length (ch_text ch))"
  have header: "length ?header = 6" "buf_r16 ?header 0 = ch_style ch" "buf_r16 ?header 4 = ?n"
    using assms(1) net16_value by (simp_all add: challenge_ok_def buf_r16_def net16_def be_value_def ac_simps)
  have answer: "talks (pam_answer True (ch_style ch)) lg [] [challenge_answer lg ch] kept ()"
  proof -
    have "talks (hs_send (challenge_answer lg ch) msg) lg [] [challenge_answer lg ch] kept ()" for msg
      by (rule talks_send) (simp add: challenge_answer_def ack_eot_def)
    then show ?thesis
      using assms(2) unfolding talks_def by (fastforce simp: pam_answer_def challenge_answer_def Let_def pam_password_max_def)
  qed
  have rest: "talks (and_then (hs_read_exact 6) (\<lambda>header.
         and_then (hs_drain (buf_r16 header 4 + buf_r16 header 4 mod 2)) (\<lambda>_.
         and_then (pam_answer True (buf_r16 header 0)) (\<lambda>_ c. (Inr False, c)))))
      lg (?header @ ch_text ch @ replicate (?n mod 2) 0) [challenge_answer lg ch] kept False"
    by (rule talks_step, rule talks_read, rule header(1), simp only: header,
        rule talks_step, rule talks_drain [of "ch_text ch @ replicate (?n mod 2) 0"], simp, rule talks_step, rule answer, rule talks_pure)
      simp_all
  show ?thesis
    unfolding pam_step_def
    by (rule talks_step, rule talks_be16, rule opcode_bounds(3))
      (use rest in \<open>simp_all add: limit_defs challenge_bytes_def counted_bytes_def\<close>)
qed

lemma talks_accept: "talks (pam_step mem) lg (net16 SQLI_SQ_ACCEPT) [] kept True"
  unfolding pam_step_def
  by (rule talks_step, rule talks_be16, rule opcode_bounds(4), simp only: if_True simp_thms, rule talks_pure) simp_all

lemma talks_pam:
  assumes "list_all challenge_ok chs" "length (lg_password lg) \<le> 512"
  shows "talks (do_pam_handshake True) lg (concat (map challenge_bytes chs) @ net16 SQLI_SQ_ACCEPT)
    (ack_eot # map (challenge_answer lg) chs) kept ()"
proof -
  have loop: "pam_loop True = and_then (pam_step True) (\<lambda>finished. if finished then Pair (Inr ()) else pam_loop True)"
    by (simp add: fun_eq_iff and_then_def) (subst pam_loop.simps, simp split: prod.split sum.split)
  have looped: "talks (pam_loop True) lg (concat (map challenge_bytes chs) @ net16 SQLI_SQ_ACCEPT) (map (challenge_answer lg) chs) kept ()"
    using assms(1)
  proof (induction chs)
    case Nil
    show ?case by (subst loop, rule talks_step, rule talks_accept, simp only: if_True, rule talks_pure) simp_all
  next
    case (Cons ch chs)
    have ch: "challenge_ok ch" using Cons.prems by simp
    show ?case
      by (subst loop, rule talks_step, rule talks_challenge [OF ch assms(2)], simp only: if_False, rule Cons.IH)
        (use Cons.prems in simp_all)
  qed
  show ?thesis
    unfolding do_pam_handshake_def
    by (rule talks_context, rule talks_step, rule talks_send, simp add: ack_eot_def, rule looped) simp_all
qed

text \<open>Session information\<close>

lemma talks_drop: "talks (\<lambda>c. (Inr (), drop_extra c)) lg [] [] kept ()"
proof -
  have "drop_extra c = c" if "attentive c" for c
    using that by (simp add: drop_extra_def attentive_def sqli_tcp_peek_def hc_link_def)
  then show ?thesis by (simp add: talks_def kept_def)
qed

lemma talks_info: "talks send_info lg (net16 SQLI_SQ_EOT) [info_message session_vars] kept ()"
  unfolding send_info_def
  by (rule talks_state, rule talks_context, rule talks_step, rule talks_send, simp add: info_message_def Let_def,
      rule talks_step, rule talks_or_error, rule talks_be16, rule opcode_bounds(2), simp only: simp_thms if_False,
      rule talks_drop) simp_all

text \<open>The request and the answer\<close>

lemma talks_conacc:
  assumes "conacc_ok body"
  shows "talks (parse_conacc_body body phase op) lg [] [] (told_cap_1 body) ()"
  unfolding talks_def
proof (intro allI impI)
  fix c :: client and rest
  assume "attentive c" "hc_login c = lg" "stream (hc_link c) = [] @ rest"
  then show "\<exists>c'. parse_conacc_body body phase op c = (Inr (), c') \<and> attentive c' \<and> hc_login c' = lg \<and> stream (hc_link c') = rest \<and>
      p_sent (hc_peer c') = p_sent (hc_peer c) @ [] \<and> hc_caps c' = told_cap_1 body (hc_caps c)"
    using assms
    by (cases "conacc_fields body"; cases "fst (conacc_fields body)")
      (auto simp: parse_conacc_body_def conacc_ok_def told_cap_1_def attentive_def hc_link_def split: option.splits)
qed

lemma conacc_header:
  assumes "length body + 6 < 2 ^ 16"
  shows "sqli_wire_decode_sl_header (Some (take 6 (conacc_message body))) =
    Inr \<lparr>h_pdu_size = length body + 6, h_sl_type = u8 SQLI_SLTYPE_CONACC, h_sl_attr = u8 SQLI_SL_PROT_SQLI, h_sl_opts = 0\<rparr>"
proof -
  have "be16_value (u8 ((length body + 6) div 256)) (u8 (length body + 6)) = length body + 6"
    using net16_value [OF assms] by (simp add: net16_def be16_value_def be_value_def ac_simps)
  moreover have "be16_value 0 0 = 0" by (simp add: be16_value_def)
  ultimately show ?thesis
    by (simp add: conacc_message_def net16_def sqli_wire_decode_sl_header_def SQLI_SL_HEADER_SIZE_def)
qed

lemma talks_answer:
  assumes "conacc_ok body"
  shows "talks (handle_answer True
      \<lparr>h_pdu_size = length body + 6, h_sl_type = u8 SQLI_SLTYPE_CONACC, h_sl_attr = u8 SQLI_SL_PROT_SQLI, h_sl_opts = 0\<rparr>)
    lg body [] (told_cap_1 body) False"
proof -
  have len: "uint16 (int (length body + 6) - int SQLI_SL_HEADER_SIZE) = length body" "length body \<noteq> 0"
    using assms by (simp_all add: conacc_ok_def uint16_def SQLI_SL_HEADER_SIZE_def) auto
  have body: "talks (read_body True (length body) g msg) lg body [] kept body" for g msg
    using talks_read [of body "length body" lg] unfolding talks_def read_body_def by (fastforce split: prod.split sum.split)
  have "talks (and_then (read_body True (length body) g msg) (\<lambda>body.
      and_then (parse_conacc_body body phase op) (\<lambda>_ c. (Inr False, c)))) lg body [] (told_cap_1 body) False" for g msg phase op
    by (rule talks_step, rule body, rule talks_step, rule talks_conacc [OF assms], rule talks_pure) simp_all
  then show ?thesis
    using len by (simp add: handle_answer_def [abs_def] Let_def sl_defs u8_def)
qed

lemma request_header:
  assumes "length (sqli_asc_encode_conreq os lg 2048 (Some ''tlitcp'')) \<le> 2048"
  shows "conreq_message os lg \<noteq> []"
proof -
  let ?n = "length (sqli_asc_encode_conreq os lg 2048 (Some ''tlitcp''))"
  have "(?n + 6) mod 65536 = ?n + 6" using assms by simp
  then show ?thesis
    by (simp only: conreq_message_def Let_def SQLI_SL_HEADER_SIZE_def) (simp add: sqli_wire_encode_sl_header_def SQLI_SL_HEADER_SIZE_def)
qed

lemma talks_login:
  assumes "conacc_ok body" "cn_mem cn" "length (sqli_asc_encode_conreq (cn_os cn) lg 2048 (Some ''tlitcp'')) \<le> 2048"
  shows "talks (tcp_handshake cn) lg (conacc_message body) [conreq_message (cn_os cn) lg] (told_cap_1 body) False"
proof -
  have header: "length (take 6 (conacc_message body)) = SQLI_SL_HEADER_SIZE" "take 6 (conacc_message body) @ body = conacc_message body"
    by (simp_all add: conacc_message_def SQLI_SL_HEADER_SIZE_def net16_def)
  have answered: "talks (\<lambda>c. case hs_read_exact SQLI_SL_HEADER_SIZE c of
         (Inl rc, c) \<Rightarrow> hs_fail rc ''failed to read server response header'' (hs_context ''connect/sl_header_read'' 0 c)
       | (Inr bytes, c) \<Rightarrow>
           (case sqli_wire_decode_sl_header (Some bytes) of Inl rc \<Rightarrow> (Inl rc, c) | Inr h \<Rightarrow> handle_answer True h c))
      lg (conacc_message body) [] (told_cap_1 body) False"
    unfolding talks_def
  proof (intro allI impI)
    fix c :: client and rest
    assume c: "attentive c" "hc_login c = lg" "stream (hc_link c) = conacc_message body @ rest"
    have s: "stream (hc_link c) = take 6 (conacc_message body) @ body @ rest" using c(3) header(2) by (metis append_assoc)
    obtain c1 where c1: "hs_read_exact SQLI_SL_HEADER_SIZE c = (Inr (take 6 (conacc_message body)), c1)" "attentive c1" "hc_login c1 = lg"
        "stream (hc_link c1) = body @ rest" "p_sent (hc_peer c1) = p_sent (hc_peer c) @ []" "hc_caps c1 = kept (hc_caps c)"
      by (rule talksD [OF talks_read [OF header(1)] c(1,2) s])
    have "length body + 6 < 2 ^ 16" using assms(1) by (simp add: conacc_ok_def)
    note decoded = conacc_header [OF this]
    from talksD [OF talks_answer [OF assms(1)] c1(2-4)]
    show "\<exists>c'. (case hs_read_exact SQLI_SL_HEADER_SIZE c of
         (Inl rc, c) \<Rightarrow> hs_fail rc ''failed to read server response header'' (hs_context ''connect/sl_header_read'' 0 c)
       | (Inr bytes, c) \<Rightarrow>
           (case sqli_wire_decode_sl_header (Some bytes) of Inl rc \<Rightarrow> (Inl rc, c) | Inr h \<Rightarrow> handle_answer True h c)) = (Inr False, c') \<and>
       attentive c' \<and> hc_login c' = lg \<and> stream (hc_link c') = rest \<and> p_sent (hc_peer c') = p_sent (hc_peer c) @ [] \<and>
       hc_caps c' = told_cap_1 body (hc_caps c)"
      unfolding c1(1) prod.case sum.case decoded using c1(5,6) by (metis append_Nil2 kept_def)
  qed
  have "talks (conreq_exchange True (conreq_message (cn_os cn) lg)) lg (conacc_message body) [conreq_message (cn_os cn) lg] (told_cap_1 body) False"
    unfolding conreq_exchange_def
    by (rule talks_step, rule talks_send, rule request_header [OF assms(3)], rule answered) simp_all
  then have "talks (\<lambda>c. conreq_exchange True (conreq_message (cn_os cn) lg) (hs_context phase op (hs_state st c))) lg
      (conacc_message body) [conreq_message (cn_os cn) lg] (told_cap_1 body) False" for phase op st
    by (intro talks_state) (rule talks_context)
  moreover have "sqli_asc_encode_conreq (cn_os cn) lg 2048 (Some ''tlitcp'') \<noteq> []"
    by (cases "write_env 2048 (length (conreq_head lg (Some ''tlitcp'')) + 2) (env_pairs lg)")
      (simp add: sqli_asc_encode_conreq_def Let_def)
  ultimately show ?thesis
    using assms(2) by (simp add: talks_def tcp_handshake_def Let_def del: split_paired_All)
qed

text \<open>The database\<close>

interpretation blind: link_relation "\<lambda>k k'. k_peeks k = [] \<longrightarrow> k_peeks k' = []"
proof unfold_locales
  show "k_peeks k = [] \<longrightarrow> k_peeks (snd (read_exact n k)) = []" for n k
    using read_exact_pending(3) [of n k] by (cases "read_exact n k") auto
qed (simp_all add: sqli_tcp_peek_def)

record completion =
  cm_warnings :: nat
  cm_rows :: "byte list"
  cm_row_id :: "byte list"
  cm_serial :: nat

definition completion_ok :: "bool \<Rightarrow> completion \<Rightarrow> bool" where
  "completion_ok long m \<longleftrightarrow> cm_warnings m < 2 ^ 16 \<and> cm_serial m < 2 ^ 32 \<and>
     length (cm_rows m) = (if long then 8 else 4) \<and> length (cm_row_id m) = (if long then 8 else 4)"

definition database_reply :: "completion \<Rightarrow> byte list" where
  "database_reply m =
     net16 SQLI_SQ_DONE @ done_body (cm_warnings m) (cm_rows m) (cm_row_id m) (cm_serial m) @ net16 SQLI_SQ_EOT"

lemma done_dispatched:
  assumes "completion_ok (de_long_row_id env) m" "stream k = database_reply m"
  obtains r k' where "sqli_receive_dispatch env (Some zero_result) k = ((SQLI_OK, r), k')"
proof -
  let ?rest = "done_body (cm_warnings m) (cm_rows m) (cm_row_id m) (cm_serial m) @ net16 SQLI_SQ_EOT"
  let ?r = "finished (cm_warnings m) (cm_rows m) (cm_serial m) zero_result"
  have opcode: "\<not> rs_eof zero_result" "stream k = net16 SQLI_SQ_DONE @ ?rest" "SQLI_SQ_DONE < 2 ^ 16"
    using assms(2) by (simp_all add: zero_result_def database_reply_def limit_defs)
  obtain k1 where k1: "stream k1 = ?rest"
      "dispatch_loop env 0 zero_result k = (case dispatch_message env 0 SQLI_SQ_DONE zero_result k1 of
         ((rc, r), k) \<Rightarrow> if rc \<noteq> SQLI_OK then ((rc, r), k) else dispatch_loop env 0 r k)"
    by (rule dispatch_opcode [OF opcode, of env 0])
  obtain k2 where "dispatch_message env 0 SQLI_SQ_DONE zero_result k1 = ((SQLI_OK, ?r), k2)"
    by (rule done_reads [OF _ _ _ _ k1(1)]) (use assms(1) in \<open>simp_all add: completion_ok_def\<close>)
  then have "dispatch_loop env 0 zero_result k = dispatch_loop env 0 ?r k2" using k1(2) by simp
  also have "\<dots> = ((SQLI_OK, ?r), k2)" by (subst dispatch_loop.simps) (simp add: finished_def Let_def)
  finally show thesis
    using that by (simp add: sqli_receive_dispatch_def) (simp add: zero_result_def)
qed

lemma database_opens:
  assumes "attentive c" "completion_ok (long_row_id (hc_caps c)) m" "stream (hc_link c) = database_reply m"
  obtains c' where "open_database env params c = (Inr (), c')"
    "p_sent (hc_peer c') = p_sent (hc_peer c) @ [dbopen_message (database_name params)]"
    "hc_caps c' = hc_caps c" "hc_login c' = hc_login c"
proof -
  define c0 where "c0 = hs_context ''connect/dbopen'' SQLI_SQ_DBOPEN (hs_state SQLI_CONN_DBOPEN c)"
  have c0: "attentive c0" "hc_login c0 = hc_login c" "stream (hc_link c0) = [] @ database_reply m"
      "p_sent (hc_peer c0) = p_sent (hc_peer c)" "hc_caps c0 = hc_caps c"
    using assms by (simp_all add: c0_def)
  have nonempty: "dbopen_message (database_name params) \<noteq> []" by (simp add: dbopen_message_def)
  obtain c1 where c1: "hs_send (dbopen_message (database_name params)) ''failed to send SQ_DBOPEN'' c0 = (Inr (), c1)" "attentive c1"
      "hc_login c1 = hc_login c" "stream (hc_link c1) = database_reply m"
      "p_sent (hc_peer c1) = p_sent (hc_peer c0) @ [dbopen_message (database_name params)]" "hc_caps c1 = kept (hc_caps c0)"
    by (rule talksD [OF talks_send [OF nonempty] c0(1-3)])
  have caps: "hc_caps c1 = hc_caps c" using c1(6) c0(5) by (simp add: kept_def)
  let ?env = "ce_dispatch (with_caps (hc_caps c1) env)"
  have "completion_ok (de_long_row_id ?env) m" using assms(2) caps by (simp add: with_caps_def)
  then obtain r k where k: "sqli_receive_dispatch ?env (Some zero_result) (hc_link c1) = ((SQLI_OK, r), k)"
    using done_dispatched c1(4) by metis
  have quiet: "k_peeks k = []"
    using keepsD [OF blind.keeps_dispatch k] c1(2) by (simp add: attentive_def)
  define c2 where "c2 = c1\<lparr>hc_peer := (hc_peer c1)\<lparr>p_link := k\<rparr>\<rparr>"
  have reply: "receive_dbopen_reply env c1 = (Inr (), c2)"
    using k by (simp add: receive_dbopen_reply_def dispatch_aside_def on_link_def c2_def hc_link_def)
  have look: "sqli_tcp_peek 1 (hc_link c2) = ([], k)" using quiet by (simp add: c2_def hc_link_def sqli_tcp_peek_def)
  have "open_database env params c = (Inr (), c2)"
    unfolding open_database_def c0_def [symmetric] and_then_def c1(1) reply prod.case sum.case look by (simp add: c2_def)
  then show thesis using that c1(3,5) caps c0(4) by (simp add: c2_def)
qed

section \<open>The whole connection\<close>

text \<open>What the strings of the parameters make of those of the connection; they must fit their buffers.\<close>

definition given :: "string option \<Rightarrow> string \<Rightarrow> string" where
  "given s old = (case s of None \<Rightarrow> old | Some new \<Rightarrow> new)"

definition login_of :: "sqli_connect_params \<Rightarrow> login \<Rightarrow> login" where
  "login_of params lg =
     \<lparr>lg_server = given (cp_server params) (lg_server lg), lg_hostname = given (cp_hostname params) (lg_hostname lg),
      lg_service = given (cp_service params) (lg_service lg), lg_database = given (cp_database params) (lg_database lg),
      lg_username = given (cp_username params) (lg_username lg), lg_password = given (cp_password params) (lg_password lg),
      lg_client_locale = given (cp_client_locale params) (lg_client_locale lg),
      lg_db_locale = given (cp_db_locale params) (lg_db_locale lg)\<rparr>"

definition fits :: "nat \<Rightarrow> string option \<Rightarrow> bool" where
  "fits n s \<longleftrightarrow> (case s of None \<Rightarrow> True | Some new \<Rightarrow> length new < n)"

definition strings_fit :: "sqli_connect_params \<Rightarrow> bool" where
  "strings_fit params \<longleftrightarrow>
     fits 256 (cp_hostname params) \<and> fits 64 (cp_service params) \<and> fits 256 (cp_server params) \<and> fits 256 (cp_database params) \<and>
     fits 256 (cp_username params) \<and> fits 256 (cp_password params) \<and> fits 256 (cp_client_locale params) \<and> fits 256 (cp_db_locale params)"

lemma copied:
  "fits n src \<Longrightarrow> copy_string n src get put msg c = (Inr (), c\<lparr>hc_login := put (given src (get (hc_login c))) (hc_login c)\<rparr>)"
  by (simp add: fits_def given_def copy_string_def str_copy_def split: option.splits)

lemma strings_copied: "strings_fit params \<Longrightarrow> copy_strings params c = (Inr (), c\<lparr>hc_login := login_of params (hc_login c)\<rparr>)"
  by (simp add: strings_fit_def copy_strings_def and_then_def copied login_of_def)

text \<open>A server that accepts, what it says, and what it is sent.\<close>

record acceptance =
  ac_body :: "byte list"
  ac_caps :: "byte list"
  ac_challenges :: "challenge list"
  ac_done :: completion

definition told_caps :: "acceptance \<Rightarrow> capabilities \<Rightarrow> capabilities" where
  "told_caps a caps = set_caps (length (ac_caps a)) (take 16 (ac_caps a)) (told_cap_1 (ac_body a) caps)"

definition acceptance_ok :: "acceptance \<Rightarrow> capabilities \<Rightarrow> bool" where
  "acceptance_ok a caps \<longleftrightarrow> conacc_ok (ac_body a) \<and> length (ac_caps a) < 2 ^ 16 \<and> list_all challenge_ok (ac_challenges a) \<and>
     completion_ok (long_row_id (told_caps a caps)) (ac_done a)"

definition server_says :: "acceptance \<Rightarrow> capabilities \<Rightarrow> byte list" where
  "server_says a caps =
     conacc_message (ac_body a) @ protocols_reply (ac_caps a) @
     (if has_pam (told_caps a caps) then concat (map challenge_bytes (ac_challenges a)) @ net16 SQLI_SQ_ACCEPT else []) @
     net16 SQLI_SQ_EOT @ database_reply (ac_done a)"

definition client_says :: "acceptance \<Rightarrow> capabilities \<Rightarrow> os_info \<Rightarrow> login \<Rightarrow> sqli_connect_params \<Rightarrow> byte list list" where
  "client_says a caps os lg params =
     [conreq_message os lg, protocols_request] @
     (if has_pam (told_caps a caps) then ack_eot # map (challenge_answer lg) (ac_challenges a) else []) @
     [info_message session_vars, dbopen_message (database_name params)]"

text \<open>A call over TCP whose strings and request fit, with a socket that opens.\<close>

definition tcp_call :: "connect_env \<Rightarrow> sqli_connect_params \<Rightarrow> client \<Rightarrow> bool" where
  "tcp_call cn params c \<longleftrightarrow>
     (let lg = login_of params (hc_login c)
      in may_connect (Some params) c \<and> strings_fit params \<and> (lg_service lg = [] \<or> hd (lg_service lg) \<noteq> CHR ''/'') \<and>
        0 \<le> cn_socket cn \<and> cn_tls cn = None \<and> cn_mem cn \<and> length (lg_password lg) \<le> 512 \<and>
        length (sqli_asc_encode_conreq (cn_os cn) lg 2048 (Some ''tlitcp'')) \<le> 2048)"

lemma login_phase_accepted:
  assumes "tcp_call cn params c0" "conacc_ok (ac_body a)"
    and "p_sends (hc_peer c0) = (\<lambda>n. True)" "k_peeks (hc_link c0) = []" "arriving (k_arrivals (hc_link c0)) = conacc_message (ac_body a) @ rest"
  obtains c4 where "login_phase cn params c0 = (Inr False, c4)" "attentive c4" "hc_login c4 = login_of params (hc_login c0)"
    "stream (hc_link c4) = rest" "p_sent (hc_peer c4) = p_sent (hc_peer c0) @ [conreq_message (cn_os cn) (login_of params (hc_login c0))]"
    "hc_caps c4 = told_cap_1 (ac_body a) (hc_caps c0)"
proof -
  let ?lg = "login_of params (hc_login c0)"
  note call = assms(1) [unfolded tcp_call_def Let_def]
  define c2 where "c2 = c0\<lparr>hc_login := ?lg,
      hc_fetch_buf_size := parse_u32_env_local (cn_fetch_bufsize cn) 4194304 1024 16777216,
      hc_peer := (hc_peer c0)\<lparr>p_link := (p_link (hc_peer c0))\<lparr>k_buffer := []\<rparr>\<rparr>\<rparr>"
  define c3 where "c3 = upd_conn (\<lambda>conn. conn\<lparr>c_socket_fd := cn_socket cn\<rparr>) (hs_context ''connect/tcp'' 0 (hs_state SQLI_CONN_CONNECTING c2))"
  have tcp: "\<not> use_unix_socket c2" "\<not> use_unix_socket c3"
    using call by (auto simp: use_unix_socket_def c2_def c3_def upd_conn_def)
  then have steps: "unix_login cn c2 = (Inr (), c2)" "open_socket cn c2 = (Inr (), c3)"
    using call by (simp_all add: unix_login_def open_socket_def Let_def c3_def)
  have c3: "attentive c3" "hc_login c3 = ?lg" "stream (hc_link c3) = conacc_message (ac_body a) @ rest" "hc_caps c3 = hc_caps c0"
      "p_sent (hc_peer c3) = p_sent (hc_peer c0)"
    using assms(3-5) call
    by (simp_all add: c3_def c2_def attentive_def willing_def upd_conn_def peer_conn_def hc_link_def stream_def)
  obtain c4 where c4: "tcp_handshake cn c3 = (Inr False, c4)" "attentive c4" "hc_login c4 = ?lg" "stream (hc_link c4) = rest"
      "p_sent (hc_peer c4) = p_sent (hc_peer c3) @ [conreq_message (cn_os cn) ?lg]" "hc_caps c4 = told_cap_1 (ac_body a) (hc_caps c3)"
    by (rule talksD [OF talks_login [OF assms(2)] c3(1-3)]) (use call in auto)
  have "login_phase cn params c0 = (Inr False, c4)"
    using strings_copied [of params c0] call steps tcp c4(1)
    by (simp add: login_phase_def and_then_def c2_def [symmetric] hc_link_def)
  then show thesis using that c4 c3 by simp
qed

lemma session_phase_accepted:
  assumes "acceptance_ok a caps" "length (lg_password lg) \<le> 512" "cn_mem cn"
    and "attentive c4" "hc_login c4 = lg" "hc_caps c4 = told_cap_1 (ac_body a) caps"
    and "conacc_message (ac_body a) @ stream (hc_link c4) = server_says a caps"
  obtains c8 where "session_phase env cn params c4 = (Inr (), c8)" "hc_login c8 = lg" "hc_caps c8 = told_caps a caps"
    "p_sent (hc_peer c8) = p_sent (hc_peer c4) @ tl (client_says a caps os lg params)"
proof -
  let ?caps = "told_caps a caps"
  define tail where "tail = net16 SQLI_SQ_EOT @ database_reply (ac_done a)"
  define pam where "pam = (if has_pam ?caps then concat (map challenge_bytes (ac_challenges a)) @ net16 SQLI_SQ_ACCEPT else [])"
  have ok: "length (ac_caps a) < 2 ^ 16" "list_all challenge_ok (ac_challenges a)" "completion_ok (long_row_id ?caps) (ac_done a)"
    using assms(1) by (simp_all add: acceptance_ok_def)
  have s: "stream (hc_link c4) = protocols_reply (ac_caps a) @ pam @ tail"
    using assms(7) by (simp add: server_says_def pam_def tail_def)
  obtain c5 where c5: "do_sq_protocols c4 = (Inr (), c5)" "attentive c5" "hc_login c5 = lg" "stream (hc_link c5) = pam @ tail"
      "p_sent (hc_peer c5) = p_sent (hc_peer c4) @ [protocols_request]" "hc_caps c5 = ?caps"
    by (rule talksD [OF talks_protocols [OF ok(1)] assms(4,5) s]) (use assms(6) in \<open>auto simp: told_caps_def\<close>)
  let ?pam = "\<lambda>c. if has_pam (hc_caps c) then do_pam_handshake (cn_mem cn) (hs_state SQLI_CONN_AUTH c) else (Inr (), c)"
  define said where "said = (if has_pam ?caps then ack_eot # map (challenge_answer lg) (ac_challenges a) else [])"
  obtain c6 where c6: "?pam c5 = (Inr (), c6)" "attentive c6" "hc_login c6 = lg" "stream (hc_link c6) = tail"
      "p_sent (hc_peer c6) = p_sent (hc_peer c5) @ said" "hc_caps c6 = ?caps"
  proof (cases "has_pam ?caps")
    case True
    have "talks (\<lambda>c. do_pam_handshake (cn_mem cn) (hs_state SQLI_CONN_AUTH c)) lg pam said kept ()"
      using talks_state [OF talks_pam [OF ok(2) assms(2)]] assms(3) True by (simp add: pam_def said_def)
    from talksD [OF this c5(2-4)] show thesis using that c5(6) True by (auto simp: kept_def)
  next
    case False
    then show thesis using that c5 by (simp add: pam_def said_def)
  qed
  obtain c7 where c7: "send_info c6 = (Inr (), c7)" "attentive c7" "hc_login c7 = lg" "stream (hc_link c7) = database_reply (ac_done a)"
      "p_sent (hc_peer c7) = p_sent (hc_peer c6) @ [info_message session_vars]" "hc_caps c7 = ?caps"
    by (rule talksD [OF talks_info c6(2,3)]) (use c6(4,6) in \<open>auto simp: tail_def kept_def\<close>)
  obtain c8 where c8: "open_database env params c7 = (Inr (), c8)"
      "p_sent (hc_peer c8) = p_sent (hc_peer c7) @ [dbopen_message (database_name params)]" "hc_caps c8 = hc_caps c7" "hc_login c8 = hc_login c7"
    using database_opens [OF c7(2) _ c7(4)] ok(3) c7(6) by metis
  have "session_phase env cn params c4 = (Inr (), c8)"
    by (simp add: session_phase_def and_then_def c5(1) c6(1) c7(1) c8(1) del: if_split)
  then show thesis using that c5 c6 c7 c8 by (simp add: client_says_def said_def)
qed

text \<open>
  C4. A server that accepts is connected to. Whatever its answer to the request holds besides an error of the
  service, whatever capabilities it tells, however many PAM challenges it makes, and however the network cuts
  what it says: the call succeeds with a connection that is ready and has its database open, the server has been sent exactly
  the request, the capabilities, an answer to every challenge, the session information and the name of the
  database, in this order, and the connection knows the capabilities that the server told.
\<close>

theorem connect_accepted:
  assumes "tcp_call cn params c" "acceptance_ok a (hc_caps c)"
    and "p_sends (hc_peer c) = (\<lambda>n. True)" "k_peeks (hc_link c) = []"
    and "arriving (k_arrivals (hc_link c)) = server_says a (hc_caps c)"
  shows "\<exists>c'. sqli_connect env cn (Some params) c = (SQLI_OK, c') \<and>
    c_state (hc_conn c') = SQLI_CONN_READY \<and> c_socket_fd (hc_conn c') = cn_socket cn \<and> hc_database_open c' \<and>
    hc_login c' = login_of params (hc_login c) \<and> hc_caps c' = told_caps a (hc_caps c) \<and>
    p_sent (hc_peer c') = p_sent (hc_peer c) @ client_says a (hc_caps c) (cn_os cn) (login_of params (hc_login c)) params"
proof -
  let ?lg = "login_of params (hc_login c)"
  define c0 where "c0 = upd_conn clear_error c"
  have c0: "hc_login c0 = hc_login c" "hc_caps c0 = hc_caps c" "p_sends (hc_peer c0) = (\<lambda>n. True)" "k_peeks (hc_link c0) = []"
      "k_arrivals (hc_link c0) = k_arrivals (hc_link c)" "p_sent (hc_peer c0) = p_sent (hc_peer c)" "tcp_call cn params c0"
    using assms by (simp_all add: c0_def upd_conn_def peer_conn_def hc_link_def tcp_call_def may_connect_def hc_conn_def clear_error_def)
  obtain rest where rest: "server_says a (hc_caps c) = conacc_message (ac_body a) @ rest" by (simp add: server_says_def)
  have body: "conacc_ok (ac_body a)" using assms(2) by (simp add: acceptance_ok_def)
  obtain c4 where c4: "login_phase cn params c0 = (Inr False, c4)" "attentive c4" "hc_login c4 = ?lg" "stream (hc_link c4) = rest"
      "p_sent (hc_peer c4) = p_sent (hc_peer c) @ [conreq_message (cn_os cn) ?lg]" "hc_caps c4 = told_cap_1 (ac_body a) (hc_caps c)"
    by (rule login_phase_accepted [OF c0(7) body c0(3,4), of rest]) (use assms(5) rest c0 in auto)
  have call: "length (lg_password ?lg) \<le> 512" "cn_mem cn" "may_connect (Some params) c"
    using assms(1) by (simp_all add: tcp_call_def Let_def)
  obtain c8 where c8: "session_phase env cn params c4 = (Inr (), c8)" "hc_login c8 = ?lg" "hc_caps c8 = told_caps a (hc_caps c)"
      "p_sent (hc_peer c8) = p_sent (hc_peer c4) @ tl (client_says a (hc_caps c) (cn_os cn) ?lg params)"
    by (rule session_phase_accepted [OF assms(2) call(1,2) c4(2,3,6)]) (use rest c4(4) in auto)
  define c9 where "c9 = upd_conn clear_error (hs_state SQLI_CONN_READY (c8\<lparr>hc_database_open := True\<rparr>))"
  have state: "c_state (hc_conn c0) = c_state (hc_conn c)"
    by (simp add: c0_def upd_conn_def peer_conn_def hc_conn_def hc_link_def clear_error_def)
  have run: "sqli_connect env cn (Some params) c = (SQLI_OK, c9)"
    using call(3) c4(1) c8(1) state
    by (simp add: sqli_connect_def may_connect_def c0_def [symmetric] Let_def c9_def)
  have "outcome SQLI_CONN_READY True (cn_socket cn) c c9" using tried_connect [OF refl call(3) run] by simp
  note ready = outcomeD [OF this]
  have "hc_login c9 = ?lg" "hc_caps c9 = told_caps a (hc_caps c)" "p_sent (hc_peer c9) = p_sent (hc_peer c8)"
    using c8(2,3) by (simp_all add: c9_def upd_conn_def peer_conn_def)
  moreover have "client_says a (hc_caps c) (cn_os cn) ?lg params =
      conreq_message (cn_os cn) ?lg # tl (client_says a (hc_caps c) (cn_os cn) ?lg params)" by (simp add: client_says_def)
  ultimately show ?thesis using run ready c8(4) c4(5) by (intro exI [of _ c9]) simp
qed

text \<open>
  A server with PAM that first tells something and then asks for the password, and with long row ids. Its answer to
  the request has the tag 102 with no error.
\<close>

definition sample_params :: sqli_connect_params where
  "sample_params = no_params\<lparr>cp_server := Some ''ol_srv'', cp_hostname := Some ''db'', cp_service := Some ''9088'',
     cp_database := Some ''stores'', cp_username := Some ''ann'', cp_password := Some ''pw''\<rparr>"

definition sample_acceptance :: acceptance where
  "sample_acceptance =
     \<lparr>ac_body = [0, 100, 0, 101, 0, 102, 0, 0, 0, 0, 0, 0, 0, 127], ac_caps = [0, 0, 0, 0, 0, 8, 0, 3, 6],
      ac_challenges = [\<lparr>ch_style = 3, ch_prompts = 1, ch_text = [72, 105]\<rparr>, \<lparr>ch_style = 1, ch_prompts = 1, ch_text = [63]\<rparr>],
      ac_done = \<lparr>cm_warnings = 0, cm_rows = replicate 8 0, cm_row_id = replicate 8 0, cm_serial = 0\<rparr>\<rparr>"

definition no_capabilities :: capabilities where
  "no_capabilities = \<lparr>cap_1 = 0, has_pam = False, extended_describe = False, large_tuple_mode = False, long_row_id = False,
     remove_64k_limit = False\<rparr>"

definition no_login :: login where
  "no_login = \<lparr>lg_server = [], lg_hostname = [], lg_service = [], lg_database = [], lg_username = [], lg_password = [],
     lg_client_locale = [], lg_db_locale = []\<rparr>"

text \<open>A new connection whose server says it all in pieces of seven bytes.\<close>

fun cut :: "nat \<Rightarrow> byte list \<Rightarrow> arrival list" where
  "cut 0 bytes = []"
| "cut (Suc n) bytes = (if bytes = [] then [] else Bytes (take 7 bytes) # cut n (drop 7 bytes))"

lemma arriving_cut: "length bytes \<le> n \<Longrightarrow> arriving (cut n bytes) = bytes"
  by (induction n arbitrary: bytes) auto

definition sample_client :: client where
  "sample_client =
     (let said = server_says sample_acceptance no_capabilities
      in \<lparr>hc_peer = \<lparr>p_link = \<lparr>k_conn = created_conn, k_buffer = [], k_arrivals = cut (length said) said, k_peeks = []\<rparr>,
             p_sends = \<lambda>n. True, p_sent = [], p_discarded = False\<rparr>,
          hc_login = no_login, hc_caps = no_capabilities, hc_database_open = False, hc_fetch_buf_size = 0,
          hc_pinned = False, hc_released = False\<rparr>)"

definition sample_environment :: connect_env where
  "sample_environment = \<lparr>cn_os = sample_os, cn_user = None, cn_socket = 5, cn_timed_out = False, cn_tls = None,
     cn_fetch_bufsize = None, cn_mem = True\<rparr>"

lemma connect_accepted_witness:
  "\<forall>env. \<exists>c'. sqli_connect env sample_environment (Some sample_params) sample_client = (SQLI_OK, c') \<and> c_socket_fd (hc_conn c') = 5 \<and>
    long_row_id (hc_caps c') \<and> ack_eot \<in> set (p_sent (hc_peer c')) \<and> dbopen_message ''stores'' = last (p_sent (hc_peer c'))"
  (is "\<forall>env. ?connected env")
proof
  fix env
  have login: "login_of sample_params (hc_login sample_client) = sample_login"
    by (simp add: login_of_def sample_params_def no_params_def given_def sample_login_def sample_client_def no_login_def Let_def)
  have "length (sqli_asc_encode_conreq sample_os sample_login 2048 (Some ''tlitcp'')) \<le> 2048"
    by (rule conreq_fits) (simp_all add: sample_login_def sample_os_def login_ok_def host_told_def cwd_told_def)
  then have call: "tcp_call sample_environment sample_params sample_client"
    unfolding tcp_call_def login Let_def
    by (simp add: sample_environment_def sample_params_def no_params_def sample_client_def may_connect_def strings_fit_def fits_def
        hc_conn_def hc_link_def created_conn_def sample_login_def Let_def)
  have caps: "hc_caps sample_client = no_capabilities" by (simp add: sample_client_def Let_def)
  have told: "told_caps sample_acceptance no_capabilities =
      \<lparr>cap_1 = 0, has_pam = True, extended_describe = True, large_tuple_mode = True, long_row_id = True, remove_64k_limit = True\<rparr>"
    by (simp add: told_caps_def told_cap_1_def sample_acceptance_def no_capabilities_def set_caps_def conacc_fields_def skip_fixed_def
        skip_counted_def buf_r16_def Let_def)
  have ok: "acceptance_ok sample_acceptance (hc_caps sample_client)"
    unfolding acceptance_ok_def caps told
    by (simp add: sample_acceptance_def conacc_ok_def challenge_ok_def completion_ok_def conacc_fields_def skip_fixed_def
        skip_counted_def buf_r16_def Let_def scan_for_102.simps limit_defs signed16_def)
  have says: "arriving (k_arrivals (hc_link sample_client)) = server_says sample_acceptance (hc_caps sample_client)"
    by (simp add: sample_client_def hc_link_def Let_def arriving_cut)
  have quiet: "p_sends (hc_peer sample_client) = (\<lambda>n. True)" "k_peeks (hc_link sample_client) = []" "p_sent (hc_peer sample_client) = []"
    by (simp_all add: sample_client_def hc_link_def Let_def)
  have said: "client_says sample_acceptance no_capabilities sample_os sample_login sample_params =
      [conreq_message sample_os sample_login, protocols_request, ack_eot, ack_eot, net16 SQLI_SQ_RESPONSE @ counted True ''pw'',
       info_message session_vars, dbopen_message ''stores'']"
    unfolding client_says_def told
    by (simp add: sample_acceptance_def challenge_answer_def database_name_def sample_params_def no_params_def sample_login_def)
  have environment: "cn_socket sample_environment = 5" "cn_os sample_environment = sample_os"
    by (simp_all add: sample_environment_def)
  show "?connected env"
    using connect_accepted [OF call ok quiet(1,2) says, of env] unfolding login caps told environment said quiet(3) by auto
qed

end
