(* ===== verification/Spec2Isabelle.thy ===== *)
theory Spec2Isabelle
  imports DecimalArith DecimalFormatFacts DecimalCodecFacts TransactionFacts Wire TemporalFacts DateWireFacts TemporalWireFacts
    PoolSafety CancelSafety UriFacts DescriptorFacts BatchFacts ResultSafety ScalarFacts QueryFacts
    TimestampFacts StatementFacts IpcFacts ConnectFacts
begin

text \<open>
  libsqli is a C client library for the SQLI protocol of Informix servers. This development
  models its implementation, src/src and the types of src/include/libsqli, as executable
  definitions and proves what the parts promise each other and the application.

  THE PROGRAM. An application opens connections from a URI (sqli_uri.c) or from parameters, one by
  one (sqli_handshake.c, sqli_asc.c) or through a pool (sqli_pool.c). On a connection it runs
  statements (sqli_query.c), which it can prepare once and execute with parameters many times
  (sqli_prepare.c), inside transactions with savepoints, session modes and batches
  (sqli_transaction.c, sqli_batch.c). A statement is a sequence of requests
  (sqli_protocol_write.c), each answered by a group of messages that the dispatcher reads from a
  buffered socket (sqli_dispatch.c) into a result. A result carries a descriptor snapshot of its
  columns (sqli_descriptor.c) and rows of bytes, through which the application moves with a cursor
  and whose columns it reads as integers, booleans, decimals and temporal values (sqli_result.c,
  sqli_scalar.c). Decimals and temporal values have arithmetic, text and wire forms
  (sqli_decimal.c, sqli_decimal_codec.c, sqli_temporal.c, sqli_temporal_codec.c). A running
  statement can be cancelled from another thread (sqli_cancel_posix.c), which works on the
  lifecycle word that the pool also reads.

  FROM THE BOTTOM. Prelude has the status codes, the C integer conversions and the generic facts on
  lists, numerals and division. Codecs has the interface locales of self-delimiting and fixed-width
  encodings, interpreted on the string format of Wire and on the DATE format of TemporalCodec.

  VALUES. Decimal, DecimalText and DecimalCodec model the decimal values (limbs of base 10^9,
  struct sqli_decimal), their text and their wire form; DecimalFacts has the invariant of the
  values, DecimalArith comparison and conversion, DecimalRescale exact rescaling, DecimalTextFacts
  the parser against the grammar of numerals, DecimalFormatFacts and DecimalCodecFacts the bounds
  and the round trips. Temporal, TemporalText and TemporalCodec model DATE, DATETIME and INTERVAL
  in the same way, with TemporalFacts (where the datetime values turn out to be those of the Gregorian
  calendar, stated on its own), DateWireFacts and TemporalWireFacts. Base100 is the radix
  complement that both wire codecs share. Timestamp and TimestampFacts are the conversions between
  calendar fields and the epoch.

  CONNECTIONS. Conn is the connection object (struct sqli_conn, in the fields that the modelled
  code uses) and its diagnostics; it also has the peer of the transaction layer, whose socket
  writes, replies of the dispatcher and runs of statements are scripts. Transaction has the
  operations of sqli_transaction.c on it and TransactionFacts the abstract transaction machine that
  they refine, the requests they send and the history of the epochs. Batch and BatchFacts are
  sqli_batch.c on top. ErrorClass has the classification of errors and the advice to retry.
  Lifecycle is the lifecycle word of a connection in a store of addresses. Pool has the operations
  of sqli_pool.c, each section under the mutex of the pool one function; PoolFacts the system in
  which threads interleave these sections with reconnecting and with anything a leaseholder does,
  its invariant and its preservation by every step (a call that cannot lock the pool again abandons its
  slot); PoolSafety the promises to the users, and that a call with a timeout keeps its deadline, with the
  clock and the waits on the condition variable as inputs. Cancel,
  CancelFacts and CancelSafety do the same for cancellation handles. Uri and UriFacts are the URI
  parser. Wire has the headers of the session layer and the counted strings.

  CONNECTING. Asc has the two connection requests of sqli_asc.c: a CONREQ message over TCP and a
  preamble with a Base64 part over a Unix socket. Reader has what a server needs to take such
  messages apart, AscFacts and IpcFacts show that the server learns from them what the client meant,
  and what goes wrong outside the sizes they are made for. Handshake has sqli_connect, step by step
  (socket, login, capabilities, PAM, session information, database), and sqli_close; the loops read
  until the server ends them, and end because each round takes bytes away. HandshakeFacts shows that
  connecting is all or nothing for every server, a refused call changing nothing but the diagnostics, and what survives a close; ConnectFacts that a
  server which accepts is connected to, with the messages of both sides in their order.

  RESULTS. Descriptor and DescriptorFacts are the reference-counted descriptor snapshots. Tuple has
  the layout of a row (the column widths, the row cache and the location of a column without it),
  and TupleFacts shows that the cache partitions the row and where the two ways disagree. Result
  has the cursor over the rows and the typed readers; CursorSpec is the abstract scrollable cursor
  with the locale of a client of it, ResultFacts the refinement, ResultSafety what it gives the
  application. Scalar and ScalarFacts are the integer and boolean readers.

  MESSAGES. Link is the read buffer of a connection over a socket whose arrivals, and what a look at
  the socket shows, are inputs; LinkFacts shows that the readers see a stream of bytes. Opcodes
  lists the message opcodes. Dispatch has one reader per message and the loop of
  sqli_receive_dispatch. Its locale link_relation says once what all readers keep of a link, given
  what a read and a look ahead keep; it is interpreted twice, for the number of pending bytes, by
  which the loop ends (every round takes two away), and for the connection, of which a dispatch
  changes nothing but the diagnostics. Framing shows that a reader that reports no error does the
  same whatever arrives later, so that replies can be considered one by one. DispatchFacts shows what the
  dispatcher makes of the bytes of a conforming server, DispatchSafety the round trips, the error
  report and what holds of every peer. Fetchblob and FetchblobFacts fetch a blob of the current row.

  STATEMENTS. Peer adds the other direction of the socket: the outcomes of the next writes are
  inputs, the complete messages are recorded. Writer has the requests of sqli_protocol_write.c, the
  choice of the fetch buffer and closing a statement on the server. Query has sqli_query_ex with its
  phases (prepare, implicit transaction, open and fetch, or execute), and the loop that retries a
  read-only statement. The fetch loop ends because a round that brings rows takes bytes away; the
  other loops have the bounds of the code (64 rounds of an execution, 8 groups to drain, the retries
  asked for). QueryFacts follows a whole query, from its text to the rows that the cursor
  delivers, over any cut of the replies, with exactly the requests of the exchange in their order. Bind has prepared
  statements, their parameters and the bind message; BindFacts shows what each bind
  call stores, that it stores it in one parameter or fails and changes nothing (a refused large object
  apart, which clears its parameter), and that the message fits its buffer, BindServer that a server which knows the columns reads the
  values from it. Statement has preparing, executing (with the large values streamed in chunks of
  1024 bytes), retrying, batches of parameter rows, cursors, closing and callable statements;
  StatementFacts follows an execution from the bound values to the reported row count.

  CONVENTIONS. Bytes are 8 word; the fixed-width integers of C are nat or int with the wrap-around
  written out (u8, u16, u32, u64, i32), and sizes are compared with SIZE_MAX where the code does so.
  A NULL pointer is None where the code tests it. A call that can fail returns a status with the
  new state, or the sum Inl status, Inr value. Allocation, the clock, sockets, the character
  conversion and the message catalog are inputs of the definitions that use them.

  NOT MODELLED. Logging, timing and the release of memory. In sqli_query.c the streaming variant, which
  delivers rows to a callback between two fetches. Smart large objects (sqli_sblob.c), which are
  remote routine calls on locators, and the buffers, getters and setters of sqli_conn.c; they need
  only what is here: the peer, the writer and the dispatcher. The codecs of sqli_types.c that only
  its own tests call. Rendering values as C strings (sqli_result_value.c) and reading doubles, which
  rest on floating-point printing and iconv. Sockets, TLS, locale and platform code
  (sqli_tcp_posix.c, sqli_tls.c, sqli_unix_posix.c, sqli_charset.c and the Windows variants) is
  system calls. The error catalog (ifx_errmsg_data.c) is generated data, and the programs of
  src/tools are clients of the library.
\<close>

end
